(* ===== verification/Router_Prelude.thy ===== *)
theory Router_Prelude
  imports Main "HOL-Library.Word" "HOL-Library.Monad_Syntax"
begin

text \<open>
  Shared vocabulary of the development: machine integers, byte buffers with
  checked reads and writes, byte order, the FreeRTOS mutex, C strings, and the
  fixed-size slot tables (\<open>valid\<close> flag plus key) that the firewall, the
  reservation table, the port map and the client statistics all use.

  A value of type \<open>'a option\<close> that stands for a computation is \<open>None\<close> when the C code
  would touch memory outside the buffer it was given, or block for ever on a
  mutex it already holds; every theorem of the form \<open>f x = Some y\<close> therefore
  includes memory safety and the absence of self-deadlock.
\<close>

unbundle bit_operations_syntax

named_theorems mem_simps \<open>evaluation of checked reads and writes\<close>
named_theorems lock_simps \<open>effect of mutex operations\<close>

section \<open>Machine integers and bytes\<close>

type_synonym u8 = "8 word"
type_synonym u16 = "16 word"
type_synonym u32 = "32 word"
type_synonym u64 = "64 word"
type_synonym bytes = "u8 list"
type_synonym mac = "u8 list"

definition be16 :: "u8 \<Rightarrow> u8 \<Rightarrow> u16" where
  "be16 a b = push_bit 8 (ucast a) OR ucast b"

definition le16 :: "u8 \<Rightarrow> u8 \<Rightarrow> u16" where
  "le16 a b = ucast a OR push_bit 8 (ucast b)"

definition le32 :: "u8 \<Rightarrow> u8 \<Rightarrow> u8 \<Rightarrow> u8 \<Rightarrow> u32" where
  "le32 a b c d = ucast a OR push_bit 8 (ucast b) OR push_bit 16 (ucast c) OR push_bit 24 (ucast d)"

definition byte_of :: "nat \<Rightarrow> u32 \<Rightarrow> u8" where
  "byte_of i x = ucast (drop_bit (8 * i) x)"

text \<open>The bytes of a value as they lie in memory: the ESP32 is little endian.\<close>

definition le32_bytes :: "u32 \<Rightarrow> bytes" where
  "le32_bytes x = [byte_of 0 x, byte_of 1 x, byte_of 2 x, byte_of 3 x]"

definition le16_bytes :: "u16 \<Rightarrow> bytes" where
  "le16_bytes x = [ucast x, ucast (drop_bit 8 x)]"

lemma length_le_bytes [simp]: "length (le32_bytes x) = 4" "length (le16_bytes y) = 2"
  by (simp_all add: le32_bytes_def le16_bytes_def)

text \<open>\<open>htonl\<close>/\<open>ntohl\<close> and \<open>htons\<close>/\<open>ntohs\<close> swap the bytes of their argument.\<close>

definition htonl :: "u32 \<Rightarrow> u32" where
  "htonl x = le32 (byte_of 3 x) (byte_of 2 x) (byte_of 1 x) (byte_of 0 x)"

definition htons :: "u16 \<Rightarrow> u16" where
  "htons x = le16 (ucast (drop_bit 8 x)) (ucast x)"

abbreviation ntohl :: "u32 \<Rightarrow> u32" where "ntohl \<equiv> htonl"
abbreviation ntohs :: "u16 \<Rightarrow> u16" where "ntohs \<equiv> htons"

lemma bit_le32:
  "bit (le32 a b c d) n \<longleftrightarrow>
     (if n < 8 then bit a n else if n < 16 then bit b (n - 8)
      else if n < 24 then bit c (n - 16) else n < 32 \<and> bit d (n - 24))"
proof -
  have len: "\<And>w k. bit (w :: u8) k \<Longrightarrow> k < 8"
    using bit_imp_le_length by fastforce
  show ?thesis
    by (auto simp: le32_def bit_or_iff bit_push_bit_iff bit_unsigned_iff dest: len)
qed

lemma bit_byte_of: "i < 4 \<Longrightarrow> bit (byte_of i x) n \<longleftrightarrow> n < 8 \<and> bit x (8 * i + n)"
  by (auto simp: byte_of_def bit_unsigned_iff bit_drop_bit_eq)

lemma byte_of_le32 [simp]:
  "byte_of 0 (le32 a b c d) = a" "byte_of (Suc 0) (le32 a b c d) = b"
  "byte_of 2 (le32 a b c d) = c" "byte_of 3 (le32 a b c d) = d"
  by (rule bit_word_eqI, simp add: bit_byte_of bit_le32)+

lemma le32_byte_of [simp]: "le32 (byte_of 0 x) (byte_of (Suc 0) x) (byte_of 2 x) (byte_of 3 x) = x"
proof (rule bit_word_eqI)
  fix n assume "n < LENGTH(32)"
  then show "bit (le32 (byte_of 0 x) (byte_of (Suc 0) x) (byte_of 2 x) (byte_of 3 x)) n = bit x n"
    by (auto simp: bit_le32 bit_byte_of)
qed

lemma htonl_htonl [simp]: "htonl (htonl x) = x"
  by (simp add: htonl_def)

lemma htonl_consts [simp]: "htonl 0 = 0" "htonl 0xFFFFFFFF = 0xFFFFFFFF"
  by (simp_all add: htonl_def byte_of_def le32_def)

lemma and_full_u32 [simp]: "x AND 0xFFFFFFFF = x" for x :: u32
proof -
  have "(0xFFFFFFFF :: u32) = - 1" by simp
  then show ?thesis by (metis bit.conj_one_right)
qed

lemma bit_le16: "bit (le16 a b) n \<longleftrightarrow> (if n < 8 then bit a n else n < 16 \<and> bit b (n - 8))"
proof -
  have len: "\<And>w k. bit (w :: u8) k \<Longrightarrow> k < 8"
    using bit_imp_le_length by fastforce
  show ?thesis
    by (auto simp: le16_def bit_or_iff bit_push_bit_iff bit_unsigned_iff dest: len)
qed

lemma bytes_of_le16 [simp]: "ucast (le16 a b) = a" "ucast (drop_bit 8 (le16 a b)) = b"
  by (rule bit_word_eqI, simp add: bit_unsigned_iff bit_drop_bit_eq bit_le16)+

lemma le16_of_bytes [simp]: "le16 (ucast x) (ucast (drop_bit 8 x)) = x"
  by (rule bit_word_eqI) (auto simp: bit_unsigned_iff bit_drop_bit_eq bit_le16)

lemma htons_htons [simp]: "htons (htons x) = x"
  by (simp add: htons_def)

lemma htons_le16 [simp]: "htons (le16 a b) = be16 a b"
  by (simp only: htons_def bytes_of_le16) (simp add: be16_def le16_def or.commute)

lemma or_eq_plus: "a AND b = 0 \<Longrightarrow> a OR b = a + b" for a b :: "'a::len word"
  by (simp add: disjunctive_add_eq_or)

lemma unat_le16: "unat (le16 a b) = unat a + 256 * unat b"
proof -
  have "(ucast a :: u16) AND push_bit 8 (ucast b) = 0"
    using bit_imp_le_length [of a]
    by (intro bit_word_eqI) (fastforce simp: bit_and_iff bit_push_bit_iff bit_unsigned_iff)
  then have "le16 a b = ucast a + push_bit 8 (ucast b)"
    by (simp add: le16_def or_eq_plus)
  also have "\<dots> = word_of_nat (unat a + 256 * unat b)"
    by (simp add: push_bit_eq_mult ac_simps)
  finally have eq: "le16 a b = word_of_nat (unat a + 256 * unat b)" .
  have "unat (le16 a b) = (unat a + 256 * unat b) mod 65536"
    unfolding eq unat_of_nat by simp
  moreover have "unat a < 256" "unat b < 256"
    using unsigned_less [of a] unsigned_less [of b] by simp_all
  ultimately show ?thesis by simp
qed

lemma unat_be16: "unat (be16 a b) = 256 * unat a + unat b"
  using unat_le16 [of b a] by (simp add: be16_def le16_def or.commute)

lemma unat_le32:
  "unat (le32 a b c d) = unat a + 256 * unat b + 65536 * unat c + 16777216 * unat d"
proof -
  have bnd: "\<And>w k. bit (w :: u8) k \<Longrightarrow> k < 8"
    using bit_imp_le_length by fastforce
  have 1: "(ucast a OR push_bit 8 (ucast b) OR push_bit 16 (ucast c) :: u32) AND push_bit 24 (ucast d) = 0"
    by (intro bit_word_eqI)
      (auto simp: bit_and_iff bit_or_iff bit_push_bit_iff bit_unsigned_iff dest: bnd)
  have 2: "(ucast a OR push_bit 8 (ucast b) :: u32) AND push_bit 16 (ucast c) = 0"
    by (intro bit_word_eqI)
      (auto simp: bit_and_iff bit_or_iff bit_push_bit_iff bit_unsigned_iff dest: bnd)
  have 3: "(ucast a :: u32) AND push_bit 8 (ucast b) = 0"
    by (intro bit_word_eqI)
      (auto simp: bit_and_iff bit_or_iff bit_push_bit_iff bit_unsigned_iff dest: bnd)
  have "le32 a b c d = ((ucast a + push_bit 8 (ucast b)) + push_bit 16 (ucast c)) + push_bit 24 (ucast d)"
    using 1 2 3 by (simp add: le32_def or_eq_plus or.assoc [symmetric])
  also have "\<dots> = word_of_nat (unat a + 256 * unat b + 65536 * unat c + 16777216 * unat d)"
    by (simp add: push_bit_eq_mult ac_simps)
  finally have eq0:
    "le32 a b c d = word_of_nat (unat a + 256 * unat b + 65536 * unat c + 16777216 * unat d)" .
  have eq: "unat (le32 a b c d) =
      (unat a + 256 * unat b + 65536 * unat c + 16777216 * unat d) mod 4294967296"
    unfolding eq0 unat_of_nat by simp
  have "unat a < 256" "unat b < 256" "unat c < 256" "unat d < 256"
    using unsigned_less [of a] unsigned_less [of b] unsigned_less [of c] unsigned_less [of d]
    by simp_all
  then show ?thesis unfolding eq by (intro mod_less) linarith
qed

text \<open>Counting up to a bound does not wrap.\<close>

lemma unat_succ: "k < j \<Longrightarrow> unat (k + 1) = unat k + 1" for k j :: "'a::len word"
  by unat_arith

lemma word_succ_less: "k < j \<Longrightarrow> k < k + 1 \<and> k + 1 \<le> j" for k j :: "'a::len word"
  using unat_succ [of k j] by (simp add: word_less_nat_alt word_le_nat_alt)

section \<open>Checked buffer access\<close>

definition rd8 :: "bytes \<Rightarrow> nat \<Rightarrow> u8 option" where
  "rd8 bs i = (if i < length bs then Some (bs ! i) else None)"

text \<open>A 16-bit load from memory is little endian; the code wraps it in \<open>ntohs\<close> itself.\<close>

definition rd16 :: "bytes \<Rightarrow> nat \<Rightarrow> u16 option" where
  "rd16 bs i = do { a \<leftarrow> rd8 bs i; b \<leftarrow> rd8 bs (i + 1); Some (le16 a b) }"

definition rd32 :: "bytes \<Rightarrow> nat \<Rightarrow> u32 option" where
  "rd32 bs i = do { a \<leftarrow> rd8 bs i; b \<leftarrow> rd8 bs (i + 1); c \<leftarrow> rd8 bs (i + 2); d \<leftarrow> rd8 bs (i + 3);
     Some (le32 a b c d) }"

text \<open>\<open>memcpy\<close> out of and into a buffer, of bytes or of characters.\<close>

definition rd_bytes :: "'a list \<Rightarrow> nat \<Rightarrow> nat \<Rightarrow> 'a list option" where
  "rd_bytes bs i n = (if i + n \<le> length bs then Some (take n (drop i bs)) else None)"

definition wr_bytes :: "'a list \<Rightarrow> nat \<Rightarrow> 'a list \<Rightarrow> 'a list option" where
  "wr_bytes bs i vs =
     (if i + length vs \<le> length bs then Some (take i bs @ vs @ drop (i + length vs) bs) else None)"

lemma rd8_ok [mem_simps]: "i < length bs \<Longrightarrow> rd8 bs i = Some (bs ! i)"
  by (simp add: rd8_def)

lemma rd16_ok [mem_simps]: "i + 1 < length bs \<Longrightarrow> rd16 bs i = Some (le16 (bs ! i) (bs ! (i + 1)))"
  by (simp add: rd16_def rd8_def)

lemma rd32_ok [mem_simps]:
  "i + 3 < length bs \<Longrightarrow>
   rd32 bs i = Some (le32 (bs ! i) (bs ! (i + 1)) (bs ! (i + 2)) (bs ! (i + 3)))"
  by (simp add: rd32_def rd8_def)

lemma rd_bytes_ok [mem_simps]: "i + n \<le> length bs \<Longrightarrow> rd_bytes bs i n = Some (take n (drop i bs))"
  by (simp add: rd_bytes_def)

lemma wr_bytes_ok [mem_simps]:
  "i + length vs \<le> length bs \<Longrightarrow>
   wr_bytes bs i vs = Some (take i bs @ vs @ drop (i + length vs) bs)"
  by (simp add: wr_bytes_def)

lemma wr_bytes_length: "wr_bytes bs i vs = Some bs' \<Longrightarrow> length bs' = length bs"
  by (auto simp: wr_bytes_def split: if_splits)

lemma wr_bytes_nth:
  "wr_bytes bs i vs = Some bs' \<Longrightarrow>
   bs' ! k = (if i \<le> k \<and> k < i + length vs then vs ! (k - i) else bs ! k)"
  by (auto simp: wr_bytes_def nth_append split: if_splits)

text \<open>What is read back after a write: the bytes written there, the old bytes elsewhere.\<close>

lemma rd_bytes_written: "wr_bytes bs i vs = Some bs' \<Longrightarrow> rd_bytes bs' i (length vs) = Some vs"
  by (auto simp: wr_bytes_def rd_bytes_def split: if_splits)

lemma rd_bytes_elsewhere:
  assumes "wr_bytes bs i vs = Some bs'" "j + n \<le> i \<or> i + length vs \<le> j"
  shows "rd_bytes bs' j n = rd_bytes bs j n"
proof (cases "j + n \<le> length bs")
  case True
  have len: "length bs' = length bs" using wr_bytes_length [OF assms(1)] .
  have "take n (drop j bs') = take n (drop j bs)"
  proof (rule nth_equalityI)
    fix k assume "k < length (take n (drop j bs'))"
    then have k: "k < n" "j + k < length bs" using len True by auto
    then have "bs' ! (j + k) = bs ! (j + k)"
      using wr_bytes_nth [OF assms(1), of "j + k"] assms(2) by auto
    then show "take n (drop j bs') ! k = take n (drop j bs) ! k" using k len by simp
  qed (simp add: len)
  with True len show ?thesis by (simp add: rd_bytes_def)
next
  case False
  then show ?thesis using wr_bytes_length [OF assms(1)] by (simp add: rd_bytes_def)
qed

section \<open>Mutexes\<close>

text \<open>
  A FreeRTOS mutex created with \<open>xSemaphoreCreateMutex\<close>: not recursive, so a task
  that takes it twice with \<open>portMAX_DELAY\<close> blocks for ever (\<open>None\<close>).
\<close>

datatype mutex = MutexNull | MutexFree | MutexHeld

definition sem_take_forever :: "mutex \<Rightarrow> mutex option" where
  "sem_take_forever m = (if m = MutexFree then Some MutexHeld else None)"

definition sem_give :: "mutex \<Rightarrow> mutex" where
  "sem_give m = (if m = MutexHeld then MutexFree else m)"

lemma sem_simps [lock_simps]:
  "sem_take_forever MutexFree = Some MutexHeld" "sem_take_forever MutexHeld = None"
  "sem_give MutexHeld = MutexFree" "sem_give MutexFree = MutexFree"
  by (simp_all add: sem_take_forever_def sem_give_def)

section \<open>Error codes\<close>

text \<open>The ESP-IDF and lwIP error codes the program distinguishes.\<close>

datatype esp_err = ESP_OK | ESP_FAIL | ESP_ERR_NO_MEM | ESP_ERR_INVALID_ARG | ESP_ERR_NOT_FOUND
  | ESP_ERR_NVS_NOT_FOUND | ESP_ERR_NVS_INVALID_LENGTH | ESP_ERR_OTHER int

datatype lwip_err = ERR_OK | ERR_VAL | ERR_IF | ERR_ARG | ERR_OTHER int

section \<open>Lists, loops and tables\<close>

text \<open>The loop \<open>for (i = 0; i < n; i++) if (P(tab[i])) return i\<close>.\<close>

fun find_first :: "('a \<Rightarrow> bool) \<Rightarrow> 'a list \<Rightarrow> nat option" where
  "find_first P [] = None"
| "find_first P (x # xs) = (if P x then Some 0 else map_option Suc (find_first P xs))"

lemma find_first_None: "find_first P xs = None \<longleftrightarrow> (\<forall>x \<in> set xs. \<not> P x)"
  by (induction xs) auto

lemma find_first_Some:
  "find_first P xs = Some i \<longleftrightarrow> i < length xs \<and> P (xs ! i) \<and> (\<forall>j < i. \<not> P (xs ! j))"
  by (induction xs arbitrary: i) (auto simp: less_Suc_eq_0_disj nth_Cons split: nat.splits)

lemma find_first_SomeD:
  assumes "find_first P xs = Some i"
  shows "i < length xs" "P (xs ! i)" "\<And>j. j < i \<Longrightarrow> \<not> P (xs ! j)"
  using assms by (auto simp: find_first_Some)

lemma find_first_cong:
  "(\<And>x. x \<in> set xs \<Longrightarrow> P x = Q x) \<Longrightarrow> find_first P xs = find_first Q xs"
  by (induction xs) auto

lemma filter_update:
  "i < length xs \<Longrightarrow>
   filter P (xs[i := x]) = filter P (take i xs) @ (if P x then [x] else []) @ filter P (drop (Suc i) xs)"
  by (simp add: upd_conv_take_nth_drop)

lemma filter_split:
  "i < length xs \<Longrightarrow>
   filter P xs = filter P (take i xs) @ (if P (xs ! i) then [xs ! i] else []) @ filter P (drop (Suc i) xs)"
  using filter_update [of i xs P "xs ! i"] by simp

lemma length_filter_full: "length (filter P xs) = length xs \<longleftrightarrow> (\<forall>x \<in> set xs. P x)"
proof (induction xs)
  case (Cons x xs)
  have "length (filter P xs) \<noteq> Suc (length xs)"
    using length_filter_le [of P xs] by linarith
  with Cons show ?case by auto
qed simp

lemma find_first_update_other:
  assumes "i < length xs" "\<not> P (xs ! i)" "\<not> P x"
  shows "find_first P (xs[i := x]) = find_first P xs"
  using assms by (induction xs arbitrary: i) (auto simp: nth_Cons split: nat.splits)

lemma find_first_update_new:
  assumes "i < length xs" "find_first P xs = None" "P x"
  shows "find_first P (xs[i := x]) = Some i"
  using assms by (auto simp: find_first_Some find_first_None)

lemma find_first_update_same:
  assumes "find_first P xs = Some i" "P x"
  shows "find_first P (xs[i := x]) = Some i"
  using assms by (auto simp: find_first_Some)

text \<open>
  A fixed-size table whose slots carry a \<open>valid\<close> flag and a key.  \<open>tab_lookup\<close> is the
  first valid slot with the key, which is what every lookup loop of the program finds.
\<close>

definition tab_lookup :: "('a \<Rightarrow> bool) \<Rightarrow> ('a \<Rightarrow> 'k) \<Rightarrow> 'a list \<Rightarrow> 'k \<Rightarrow> 'a option" where
  "tab_lookup valid key xs k = map_option ((!) xs) (find_first (\<lambda>e. valid e \<and> key e = k) xs)"

definition tab_distinct :: "('a \<Rightarrow> bool) \<Rightarrow> ('a \<Rightarrow> 'k) \<Rightarrow> 'a list \<Rightarrow> bool" where
  "tab_distinct valid key xs \<longleftrightarrow> distinct (map key (filter valid xs))"

text \<open>
  The contract the table components share: what it means for a slot to be in use, its
  key, and the operation that frees a slot, which must leave it unused.
\<close>

locale keyed_slots =
  fixes valid :: "'a \<Rightarrow> bool" and key :: "'a \<Rightarrow> 'k" and clear :: "'a \<Rightarrow> 'a"
  assumes clear_invalid: "\<not> valid (clear e)"
begin

lemma lookup_SomeD:
  "tab_lookup valid key xs k = Some e \<Longrightarrow> e \<in> set xs \<and> valid e \<and> key e = k"
  by (auto simp: tab_lookup_def dest: find_first_SomeD)

lemma lookup_None_iff:
  "tab_lookup valid key xs k = None \<longleftrightarrow> (\<forall>e \<in> set xs. valid e \<longrightarrow> key e \<noteq> k)"
  by (auto simp: tab_lookup_def find_first_None)

lemma lookup_update_other:
  assumes "i < length xs" "\<not> (valid (xs ! i) \<and> key (xs ! i) = k)" "\<not> (valid x \<and> key x = k)"
  shows "tab_lookup valid key (xs[i := x]) k = tab_lookup valid key xs k"
proof -
  have same: "find_first (\<lambda>e. valid e \<and> key e = k) (xs[i := x]) = find_first (\<lambda>e. valid e \<and> key e = k) xs"
    using assms by (intro find_first_update_other) auto
  show ?thesis
  proof (cases "find_first (\<lambda>e. valid e \<and> key e = k) xs")
    case None
    with same show ?thesis by (simp add: tab_lookup_def)
  next
    case (Some z)
    then have "z \<noteq> i" using assms(2) by (auto dest: find_first_SomeD)
    with same Some show ?thesis by (simp add: tab_lookup_def)
  qed
qed

lemma lookup_insert:
  assumes "tab_lookup valid key xs k = None" "i < length xs" "\<not> valid (xs ! i)"
    "valid e" "key e = k"
  shows "tab_lookup valid key (xs[i := e]) = (tab_lookup valid key xs)(k \<mapsto> e)"
proof (rule ext)
  fix k'
  show "tab_lookup valid key (xs[i := e]) k' = ((tab_lookup valid key xs)(k \<mapsto> e)) k'"
  proof (cases "k' = k")
    case True
    with assms show ?thesis by (simp add: tab_lookup_def find_first_update_new)
  next
    case False
    with assms show ?thesis by (simp add: lookup_update_other)
  qed
qed

lemma lookup_replace:
  assumes "find_first (\<lambda>e. valid e \<and> key e = k) xs = Some i" "valid e" "key e = k"
  shows "tab_lookup valid key (xs[i := e]) = (tab_lookup valid key xs)(k \<mapsto> e)"
proof (rule ext)
  fix k'
  note i = find_first_SomeD [OF assms(1)]
  show "tab_lookup valid key (xs[i := e]) k' = ((tab_lookup valid key xs)(k \<mapsto> e)) k'"
  proof (cases "k' = k")
    case True
    with assms i show ?thesis by (simp add: tab_lookup_def find_first_update_same)
  next
    case False
    with assms i show ?thesis by (simp add: lookup_update_other)
  qed
qed

lemma distinct_insert:
  assumes "tab_distinct valid key xs" "tab_lookup valid key xs (key e) = None"
    "i < length xs" "\<not> valid (xs ! i)"
  shows "tab_distinct valid key (xs[i := e])"
proof -
  have "key e \<notin> key ` set (filter valid xs)"
    using assms(2) by (auto simp: lookup_None_iff)
  moreover have "filter valid xs = filter valid (take i xs) @ filter valid (drop (Suc i) xs)"
    using assms(3,4) by (simp add: filter_split [of i])
  ultimately show ?thesis
    using assms(1,3) by (auto simp: tab_distinct_def filter_update)
qed

lemma distinct_replace:
  assumes "tab_distinct valid key xs" "i < length xs" "valid (xs ! i)" "key e = key (xs ! i)"
  shows "tab_distinct valid key (xs[i := e])"
  using assms by (auto simp: tab_distinct_def filter_update filter_split [of i xs])

lemma distinct_delete:
  assumes "tab_distinct valid key xs"
  shows "tab_distinct valid key (xs[i := clear (xs ! i)])"
proof (cases "i < length xs")
  case True
  then show ?thesis
    using assms clear_invalid
    by (auto simp: tab_distinct_def filter_update filter_split [of i xs] split: if_splits)
next
  case False
  with assms show ?thesis by (simp add: list_update_beyond)
qed

lemma distinct_unique:
  assumes "tab_distinct valid key xs" "i < length xs" "j < length xs"
    "valid (xs ! i)" "valid (xs ! j)" "key (xs ! i) = key (xs ! j)"
  shows "i = j"
proof -
  have *: False if "i < j" "i < length xs" "j < length xs" "valid (xs ! i)" "valid (xs ! j)"
    "key (xs ! i) = key (xs ! j)" for i j
  proof -
    have "xs ! j \<in> set (filter valid (drop (Suc i) xs))"
      using that by (auto simp: in_set_conv_nth intro!: exI [of _ "j - Suc i"])
    moreover have "key (xs ! i) \<notin> key ` set (filter valid (drop (Suc i) xs))"
      using assms(1) that by (simp add: tab_distinct_def filter_split [of i xs])
    ultimately show False using that by force
  qed
  from * [of i j] * [of j i] assms show ?thesis by (metis linorder_neqE_nat)
qed

lemma lookup_delete:
  assumes "tab_distinct valid key xs" "find_first (\<lambda>e. valid e \<and> key e = k) xs = Some i"
  shows "tab_lookup valid key (xs[i := clear (xs ! i)]) = (tab_lookup valid key xs)(k := None)"
proof (rule ext)
  fix k'
  note i = find_first_SomeD [OF assms(2)]
  show "tab_lookup valid key (xs[i := clear (xs ! i)]) k' = ((tab_lookup valid key xs)(k := None)) k'"
  proof (cases "k' = k")
    case True
    have "\<not> (valid (xs[i := clear (xs ! i)] ! j) \<and> key (xs[i := clear (xs ! i)] ! j) = k)"
      if "j < length xs" for j
      using distinct_unique [OF assms(1), of i j] i clear_invalid that
      by (cases "i = j") auto
    with True show ?thesis
      by (simp add: tab_lookup_def find_first_None all_set_conv_all_nth)
  next
    case False
    with i clear_invalid show ?thesis by (simp add: lookup_update_other)
  qed
qed

lemma dom_lookup: "dom (tab_lookup valid key xs) = key ` set (filter valid xs)"
proof (rule set_eqI)
  fix k
  show "k \<in> dom (tab_lookup valid key xs) \<longleftrightarrow> k \<in> key ` set (filter valid xs)"
    using lookup_None_iff [of xs k] by (auto simp: domIff image_iff)
qed

text \<open>In a table with distinct keys the keys count the slots in use.\<close>

lemma card_dom_lookup:
  assumes "tab_distinct valid key xs"
  shows "card (dom (tab_lookup valid key xs)) = length (filter valid xs)"
  using assms distinct_card [of "map key (filter valid xs)"]
  by (simp add: dom_lookup tab_distinct_def)

lemma lookup_distinct:
  assumes "tab_distinct valid key xs" "e \<in> set xs" "valid e"
  shows "tab_lookup valid key xs (key e) = Some e"
proof -
  obtain e' where e': "tab_lookup valid key xs (key e) = Some e'"
    using assms(2,3) lookup_None_iff [of xs "key e"] by fastforce
  then have "e' \<in> set xs" "valid e'" "key e' = key e" using lookup_SomeD by auto
  then have "e' = e"
    using distinct_unique [OF assms(1)] assms(2,3) by (metis in_set_conv_nth)
  with e' show ?thesis by simp
qed

lemma full_iff: "find_first (\<lambda>e. \<not> valid e) xs = None \<longleftrightarrow> length (filter valid xs) = length xs"
  by (simp add: find_first_None length_filter_full)

lemma lookup_all_clear:
  assumes "\<forall>e \<in> set xs. \<not> valid e"
  shows "tab_lookup valid key xs = Map.empty" "tab_distinct valid key xs"
proof -
  show "tab_lookup valid key xs = Map.empty" using assms by (intro ext) (simp add: lookup_None_iff)
  have "filter valid xs = []" using assms by (simp add: filter_empty_conv)
  then show "tab_distinct valid key xs" by (simp add: tab_distinct_def)
qed

end

section \<open>C strings\<close>

text \<open>The C string a buffer holds.\<close>

definition c_string :: "string \<Rightarrow> string" where
  "c_string buf = takeWhile (\<lambda>c. c \<noteq> CHR 0x00) buf"

text \<open>
  A C string is the list of its characters before the terminating NUL.
  \<open>strncpy(dst, src, n - 1); dst[n - 1] = 0\<close> keeps the first \<open>n - 1\<close> of them.
\<close>

definition strncpy_trunc :: "nat \<Rightarrow> string \<Rightarrow> string" where
  "strncpy_trunc n s = take (n - 1) s"

text \<open>\<open>tolower\<close>, \<open>toupper\<close> and \<open>strcasecmp\<close> in the C locale.\<close>

definition c_tolower :: "char \<Rightarrow> char" where
  "c_tolower c = (if of_char c \<ge> (65::nat) \<and> of_char c \<le> (90::nat) then char_of (of_char c + 32 :: nat) else c)"

definition c_toupper :: "char \<Rightarrow> char" where
  "c_toupper c = (let n = of_char c :: nat in if n \<ge> 97 \<and> n \<le> 122 then char_of (n - 32) else c)"

definition strcaseeq :: "string \<Rightarrow> string \<Rightarrow> bool" where
  "strcaseeq s t \<longleftrightarrow> map c_tolower s = map c_tolower t"

text \<open>
  \<open>atoi\<close>: leading white space, an optional sign, then decimal digits; 0 when there is none.
  Values that do not fit an \<open>int\<close> stay what they are here (the C behaviour is undefined).
\<close>

definition is_digit :: "char \<Rightarrow> bool" where
  "is_digit c \<longleftrightarrow> of_char c \<ge> (48::nat) \<and> of_char c \<le> (57::nat)"

definition is_space :: "char \<Rightarrow> bool" where
  "is_space c \<longleftrightarrow> of_char c = (32::nat) \<or> (of_char c \<ge> (9::nat) \<and> of_char c \<le> (13::nat))"

definition digit_val :: "char \<Rightarrow> nat" where
  "digit_val c = of_char c - 48"

definition dec_val :: "string \<Rightarrow> nat" where
  "dec_val ds = foldl (\<lambda>a c. 10 * a + digit_val c) 0 ds"

definition atoi :: "string \<Rightarrow> int" where
  "atoi s = (case dropWhile is_space s of
      [] \<Rightarrow> 0
    | c # r \<Rightarrow>
        if c = CHR ''-'' then - int (dec_val (takeWhile is_digit r))
        else if c = CHR ''+'' then int (dec_val (takeWhile is_digit r))
        else int (dec_val (takeWhile is_digit (c # r))))"

text \<open>The decimal digits \<open>printf("%d")\<close> prints for a non-negative value.\<close>

fun dec_string :: "nat \<Rightarrow> string" where
  "dec_string n = (if n < 10 then [char_of (48 + n)] else dec_string (n div 10) @ [char_of (48 + n mod 10)])"

declare dec_string.simps [simp del]

section \<open>Bounded waits\<close>

text \<open>
  A wait that polls every \<open>step\<close> until a condition holds or the limit is reached: it ends within one
  step of the limit, and reports success exactly when the condition held at one of its polls.
\<close>

lemma poll_ends:
  fixes f :: "nat \<Rightarrow> nat \<times> bool"
  assumes f: "\<And>w. f w = (if \<not> gone w \<and> w < limit then f (w + step) else (w, gone w))" and "0 < step" "w < limit + step"
  shows "fst (f w) < limit + step \<and> snd (f w) = (\<exists>k. w + k * step < limit + step \<and> gone (w + k * step))"
  using assms(3)
proof (induction "limit + step - w" arbitrary: w rule: less_induct)
  case less
  show ?case
  proof (cases "\<not> gone w \<and> w < limit")
    case True
    then have e: "f w = f (w + step)" using f [of w] by simp
    have shift: "(\<exists>k. w + k * step < limit + step \<and> gone (w + k * step)) =
        (\<exists>k. w + step + k * step < limit + step \<and> gone (w + step + k * step))" (is "?L = ?R")
    proof
      assume ?L
      then obtain k where k: "w + k * step < limit + step" "gone (w + k * step)" by blast
      with True obtain j where "k = Suc j" by (cases k) auto
      with k show ?R by (auto simp: algebra_simps intro!: exI [of _ j])
    next
      assume ?R
      then obtain k where "w + step + k * step < limit + step" "gone (w + step + k * step)" by blast
      then show ?L by (intro exI [of _ "Suc k"]) (simp add: algebra_simps)
    qed
    have "limit + step - (w + step) < limit + step - w" "w + step < limit + step" using True assms(2) by auto
    from less.hyps [OF this] show ?thesis unfolding e shift .
  next
    case False
    have e: "f w = (w, gone w)" using f [of w] False by (simp split: if_splits)
    have "k = 0" if "w + k * step < limit + step" "\<not> gone w" for k
    proof (rule ccontr)
      assume "k \<noteq> 0"
      then have "step \<le> k * step" by simp
      with that False show False by simp
    qed
    then have "(\<exists>k. w + k * step < limit + step \<and> gone (w + k * step)) = gone w"
      using less.prems by (metis add_0_right mult_0)
    then show ?thesis unfolding e using less.prems by simp
  qed
qed

end
