(* ===== verification/Acl.thy ===== *)
theory Acl
  imports Router_Prelude
begin

text \<open>
  The packet filter of \<open>components/acl/acl.c\<close>: four rule lists of sixteen slots,
  per-list statistics and rule counters behind one mutex, rule insertion and
  deletion, the packet classifier and first-match evaluation, and the textual
  forms of addresses and list names.
\<close>

section \<open>State\<close>

definition MAX_ACL_LISTS :: nat where "MAX_ACL_LISTS = 4"
definition MAX_ACL_ENTRIES :: nat where "MAX_ACL_ENTRIES = 16"

definition ACL_DENY :: u8 where "ACL_DENY = 0"
definition ACL_ALLOW :: u8 where "ACL_ALLOW = 1"
definition ACL_MONITOR :: u8 where "ACL_MONITOR = 2"
definition ACL_NO_MATCH :: u8 where "ACL_NO_MATCH = 0xFF"

definition ACL_TO_ESP :: nat where "ACL_TO_ESP = 0"
definition ACL_FROM_ESP :: nat where "ACL_FROM_ESP = 1"
definition ACL_TO_AP :: nat where "ACL_TO_AP = 2"
definition ACL_FROM_AP :: nat where "ACL_FROM_AP = 3"

definition IPPROTO_ICMP :: u8 where "IPPROTO_ICMP = 1"
definition IPPROTO_TCP :: u8 where "IPPROTO_TCP = 6"
definition IPPROTO_UDP :: u8 where "IPPROTO_UDP = 17"

lemmas acl_consts = MAX_ACL_LISTS_def MAX_ACL_ENTRIES_def ACL_DENY_def ACL_ALLOW_def
  ACL_MONITOR_def ACL_NO_MATCH_def ACL_TO_ESP_def ACL_FROM_ESP_def ACL_TO_AP_def
  ACL_FROM_AP_def IPPROTO_ICMP_def IPPROTO_TCP_def IPPROTO_UDP_def

record acl_entry_t =
  ae_src :: u32
  ae_s_mask :: u32
  ae_dest :: u32
  ae_d_mask :: u32
  ae_s_port :: u16
  ae_d_port :: u16
  ae_proto :: u8
  ae_allow :: u8
  ae_hit_count :: u32
  ae_valid :: u8

record acl_stats_t =
  packets_allowed :: u32
  packets_denied :: u32
  packets_nomatch :: u32

text \<open>The file-scope variables of \<open>acl.c\<close>.\<close>

record acl_state =
  acl_lists :: "acl_entry_t list list"
  acl_stats :: "acl_stats_t list"
  acl_mutex :: mutex
  acl_rule_count :: "u8 list"
  last_deny_log_time :: "int list"

text \<open>What \<open>memset(\<dots>, 0, \<dots>)\<close> leaves in a slot and in a counter block.\<close>

definition acl_zero_entry :: acl_entry_t where
  "acl_zero_entry = \<lparr>ae_src = 0, ae_s_mask = 0, ae_dest = 0, ae_d_mask = 0, ae_s_port = 0,
     ae_d_port = 0, ae_proto = 0, ae_allow = 0, ae_hit_count = 0, ae_valid = 0\<rparr>"

definition acl_zero_stats :: acl_stats_t where
  "acl_zero_stats = \<lparr>packets_allowed = 0, packets_denied = 0, packets_nomatch = 0\<rparr>"

definition acl_boot :: acl_state where
  "acl_boot = \<lparr>acl_lists = replicate MAX_ACL_LISTS (replicate MAX_ACL_ENTRIES acl_zero_entry),
     acl_stats = replicate MAX_ACL_LISTS acl_zero_stats, acl_mutex = MutexNull,
     acl_rule_count = replicate MAX_ACL_LISTS 0,
     last_deny_log_time = replicate MAX_ACL_LISTS 0\<rparr>"

abbreviation acl_used :: "acl_entry_t \<Rightarrow> bool" where
  "acl_used e \<equiv> ae_valid e \<noteq> 0"

definition acl_set_list :: "nat \<Rightarrow> acl_entry_t list \<Rightarrow> acl_state \<Rightarrow> acl_state" where
  "acl_set_list n es s = s\<lparr>acl_lists := (acl_lists s)[n := es]\<rparr>"

definition acl_set_count :: "nat \<Rightarrow> u8 \<Rightarrow> acl_state \<Rightarrow> acl_state" where
  "acl_set_count n c s = s\<lparr>acl_rule_count := (acl_rule_count s)[n := c]\<rparr>"

section \<open>Locking, initialisation, counters\<close>

definition acl_lock :: "acl_state \<Rightarrow> acl_state option" where
  "acl_lock s = (if acl_mutex s = MutexNull then Some s
     else map_option (\<lambda>m. s\<lparr>acl_mutex := m\<rparr>) (sem_take_forever (acl_mutex s)))"

definition acl_unlock :: "acl_state \<Rightarrow> acl_state" where
  "acl_unlock s = (if acl_mutex s = MutexNull then s
     else s\<lparr>acl_mutex := sem_give (acl_mutex s)\<rparr>)"

text \<open>\<open>created\<close>: whether \<open>xSemaphoreCreateMutex\<close> got its memory; the assertion aborts otherwise.\<close>

definition acl_init :: "bool \<Rightarrow> acl_state \<Rightarrow> acl_state option" where
  "acl_init created s =
     (if acl_mutex s = MutexNull \<and> \<not> created then None
      else Some (s\<lparr>acl_mutex := (if acl_mutex s = MutexNull then MutexFree else acl_mutex s),
        acl_lists := replicate MAX_ACL_LISTS (replicate MAX_ACL_ENTRIES acl_zero_entry),
        acl_stats := replicate MAX_ACL_LISTS acl_zero_stats,
        acl_rule_count := replicate MAX_ACL_LISTS 0\<rparr>))"

definition acl_is_empty :: "nat \<Rightarrow> acl_state \<Rightarrow> bool" where
  "acl_is_empty acl_no s = (if acl_no \<ge> MAX_ACL_LISTS then True else acl_rule_count s ! acl_no = 0)"

definition acl_get_count :: "nat \<Rightarrow> acl_state \<Rightarrow> nat" where
  "acl_get_count acl_no s = (if acl_no \<ge> MAX_ACL_LISTS then 0 else unat (acl_rule_count s ! acl_no))"

text \<open>The counting loop; \<open>count\<close> is a \<open>uint8_t\<close>.\<close>

fun count_valid :: "acl_entry_t list \<Rightarrow> u8 \<Rightarrow> u8" where
  "count_valid [] c = c"
| "count_valid (e # es) c = count_valid es (if acl_used e then c + 1 else c)"

definition acl_recount :: "nat \<Rightarrow> acl_state \<Rightarrow> acl_state option" where
  "acl_recount acl_no s =
     (if acl_no \<ge> MAX_ACL_LISTS then Some s
      else do { s \<leftarrow> acl_lock s;
        Some (acl_unlock (acl_set_count acl_no (count_valid (acl_lists s ! acl_no) 0) s)) })"

definition acl_clear :: "nat \<Rightarrow> acl_state \<Rightarrow> acl_state option" where
  "acl_clear acl_no s =
     (if acl_no \<ge> MAX_ACL_LISTS then Some s
      else do { s \<leftarrow> acl_lock s;
        Some (acl_unlock (acl_set_count acl_no 0
          (acl_set_list acl_no (replicate MAX_ACL_ENTRIES acl_zero_entry) s))) })"

definition acl_clear_stats :: "nat \<Rightarrow> acl_state \<Rightarrow> acl_state option" where
  "acl_clear_stats acl_no s =
     (if acl_no \<ge> MAX_ACL_LISTS then Some s
      else do { s \<leftarrow> acl_lock s;
        Some (acl_unlock (acl_set_list acl_no
          (map (\<lambda>e. e\<lparr>ae_hit_count := 0\<rparr>) (acl_lists s ! acl_no))
          (s\<lparr>acl_stats := (acl_stats s)[acl_no := acl_zero_stats]\<rparr>))) })"

section \<open>Adding and deleting rules\<close>

definition acl_add :: "nat \<Rightarrow> u32 \<Rightarrow> u32 \<Rightarrow> u32 \<Rightarrow> u32 \<Rightarrow> u8 \<Rightarrow> u16 \<Rightarrow> u16 \<Rightarrow> u8
    \<Rightarrow> acl_state \<Rightarrow> (bool \<times> acl_state) option" where
  "acl_add acl_no src s_mask dest d_mask proto s_port d_port allow s =
     (if acl_no \<ge> MAX_ACL_LISTS then Some (False, s)
      else do { s \<leftarrow> acl_lock s;
        case find_first (\<lambda>e. \<not> acl_used e) (acl_lists s ! acl_no) of
          None \<Rightarrow> Some (False, acl_unlock s)
        | Some slot \<Rightarrow>
            let entry = \<lparr>ae_src = src AND s_mask, ae_s_mask = s_mask, ae_dest = dest AND d_mask,
                  ae_d_mask = d_mask, ae_s_port = s_port, ae_d_port = d_port, ae_proto = proto,
                  ae_allow = allow, ae_hit_count = 0, ae_valid = 1\<rparr>
            in Some (True, acl_unlock
                 (acl_set_count acl_no (acl_rule_count s ! acl_no + 1)
                   (acl_set_list acl_no ((acl_lists s ! acl_no)[slot := entry]) s))) })"

text \<open>The compaction loop of \<open>acl_delete\<close>, from slot \<open>i\<close>.\<close>

function acl_compact_from :: "nat \<Rightarrow> acl_entry_t list \<Rightarrow> acl_entry_t list" where
  "acl_compact_from i es =
     (if i < MAX_ACL_ENTRIES - 1 \<and> acl_used (es ! (i + 1))
      then acl_compact_from (i + 1) (es[i := es ! (i + 1), i + 1 := acl_zero_entry])
      else es)"
  by pat_completeness auto
termination
  by (relation "measure (\<lambda>(i, es). MAX_ACL_ENTRIES - 1 - i)") auto

declare acl_compact_from.simps [simp del]

definition acl_delete :: "nat \<Rightarrow> nat \<Rightarrow> acl_state \<Rightarrow> (bool \<times> acl_state) option" where
  "acl_delete acl_no rule_idx s =
     (if acl_no \<ge> MAX_ACL_LISTS \<or> rule_idx \<ge> MAX_ACL_ENTRIES then Some (False, s)
      else do { s \<leftarrow> acl_lock s;
        if \<not> acl_used (acl_lists s ! acl_no ! rule_idx) then Some (False, acl_unlock s)
        else
          let es = acl_compact_from rule_idx ((acl_lists s ! acl_no)[rule_idx := acl_zero_entry]);
              s = acl_set_list acl_no es s;
              s = (if acl_rule_count s ! acl_no > 0
                   then acl_set_count acl_no (acl_rule_count s ! acl_no - 1) s else s)
          in Some (True, acl_unlock s) })"

section \<open>Classifying a packet\<close>

definition ETH_HEADER_LEN :: nat where "ETH_HEADER_LEN = 14"
definition ETH_TYPE_IPV4 :: u16 where "ETH_TYPE_IPV4 = 0x0800"
definition ETH_TYPE_ARP :: u16 where "ETH_TYPE_ARP = 0x0806"
definition ETH_TYPE_IPV6 :: u16 where "ETH_TYPE_IPV6 = 0x86DD"

lemmas eth_consts = ETH_HEADER_LEN_def ETH_TYPE_IPV4_def ETH_TYPE_ARP_def ETH_TYPE_IPV6_def

text \<open>
  A lwIP packet buffer: the bytes of its first segment (\<open>p->payload\<close>, whose number is
  \<open>p->len\<close>) and the length of the whole chain.
\<close>

record pbuf =
  payload :: bytes
  tot_len :: u16

text \<open>
  Where the IP header is looked for.  \<open>Some (Some off)\<close>: go on at \<open>off\<close>;
  \<open>Some None\<close>: return \<open>ACL_NO_MATCH\<close> at once; \<open>None\<close>: a read outside the segment.
\<close>

definition acl_eth_offset :: "bytes \<Rightarrow> nat option option" where
  "acl_eth_offset pl =
     (if length pl \<ge> ETH_HEADER_LEN then do {
        b12 \<leftarrow> rd8 pl 12; b13 \<leftarrow> rd8 pl 13;
        let ethertype = be16 b12 b13 in
        if ethertype = ETH_TYPE_IPV4 \<or> ethertype = ETH_TYPE_ARP \<or> ethertype = ETH_TYPE_IPV6
           \<or> ethertype < 0x0600
        then (if ethertype \<noteq> ETH_TYPE_IPV4 then Some None else Some (Some ETH_HEADER_LEN))
        else Some (Some 0) }
      else Some (Some 0))"

definition acl_ip_offset :: "bytes \<Rightarrow> nat option option" where
  "acl_ip_offset pl =
     (if length pl \<ge> 1 then do {
        b0 \<leftarrow> rd8 pl 0;
        if drop_bit 4 b0 = 4 \<and> b0 AND 0x0F \<ge> 5 \<and> b0 AND 0x0F \<le> 15 then Some (Some 0)
        else if drop_bit 4 b0 = 6 then Some None
        else acl_eth_offset pl }
      else acl_eth_offset pl)"

text \<open>The fields the rules are compared with.\<close>

record flow =
  f_src :: u32
  f_dest :: u32
  f_proto :: u8
  f_src_port :: u16
  f_dst_port :: u16

definition acl_ports :: "bytes \<Rightarrow> nat \<Rightarrow> u8 \<Rightarrow> nat \<Rightarrow> (u16 \<times> u16) option" where
  "acl_ports pl offset proto ip_hdr_len =
     (if proto = IPPROTO_TCP \<and> length pl \<ge> offset + ip_hdr_len + 20
         \<or> proto = IPPROTO_UDP \<and> length pl \<ge> offset + ip_hdr_len + 8
      then do { sp \<leftarrow> rd16 pl (offset + ip_hdr_len); dp \<leftarrow> rd16 pl (offset + ip_hdr_len + 2);
                Some (ntohs sp, ntohs dp) }
      else Some (0, 0))"

text \<open>From the label \<open>ip_parse\<close> on.\<close>

definition acl_parse_at :: "bytes \<Rightarrow> nat \<Rightarrow> flow option option" where
  "acl_parse_at pl offset =
     (if length pl < offset + 20 then Some None
      else do {
        vhl \<leftarrow> rd8 pl offset;
        if drop_bit 4 vhl \<noteq> 4 then Some None
        else do {
          src \<leftarrow> rd32 pl (offset + 12); dest \<leftarrow> rd32 pl (offset + 16); proto \<leftarrow> rd8 pl (offset + 9);
          ports \<leftarrow> acl_ports pl offset proto (unat (vhl AND 0x0F) * 4);
          Some (Some \<lparr>f_src = src, f_dest = dest, f_proto = proto,
            f_src_port = fst ports, f_dst_port = snd ports\<rparr>) } })"

definition acl_parse :: "bytes \<Rightarrow> flow option option" where
  "acl_parse pl = do {
     off \<leftarrow> acl_ip_offset pl;
     case off of None \<Rightarrow> Some None | Some offset \<Rightarrow> acl_parse_at pl offset }"

text \<open>One iteration of the rule loop: \<open>False\<close> is \<open>continue\<close>.\<close>

definition rule_matches :: "flow \<Rightarrow> acl_entry_t \<Rightarrow> bool" where
  "rule_matches f rule =
     (if \<not> acl_used rule then False
      else if ae_proto rule \<noteq> 0 \<and> ae_proto rule \<noteq> f_proto f then False
      else if f_src f AND ae_s_mask rule \<noteq> ae_src rule then False
      else if f_dest f AND ae_d_mask rule \<noteq> ae_dest rule then False
      else if ae_s_port rule \<noteq> 0 \<or> ae_d_port rule \<noteq> 0 then
        (if f_proto f \<noteq> IPPROTO_TCP \<and> f_proto f \<noteq> IPPROTO_UDP then False
         else if ae_s_port rule \<noteq> 0 \<and> ae_s_port rule \<noteq> f_src_port f then False
         else if ae_d_port rule \<noteq> 0 \<and> ae_d_port rule \<noteq> f_dst_port f then False
         else True)
      else True)"

section \<open>Checking a packet\<close>

definition ACL_LOG_INTERVAL_US :: int where "ACL_LOG_INTERVAL_US = 500000"

text \<open>The line logged for a denied packet.\<close>

record deny_log =
  dl_list :: nat
  dl_proto_name :: string
  dl_ports :: bool
  dl_flow :: flow
  dl_rule :: nat

definition proto_name :: "u8 \<Rightarrow> string" where
  "proto_name p = (if p = IPPROTO_ICMP then ''ICMP'' else if p = IPPROTO_TCP then ''TCP''
     else if p = IPPROTO_UDP then ''UDP'' else ''IP'')"

definition acl_action :: "acl_entry_t \<Rightarrow> u8" where
  "acl_action rule = (ae_allow rule AND 0x01) OR (ae_allow rule AND ACL_MONITOR)"

text \<open>The rule loop under the lock: result, whether to log, matched rule, new state.\<close>

definition acl_match :: "nat \<Rightarrow> flow \<Rightarrow> int \<Rightarrow> acl_state \<Rightarrow> u8 \<times> nat option \<times> acl_state" where
  "acl_match acl_no f now s =
     (case find_first (rule_matches f) (acl_lists s ! acl_no) of
        None \<Rightarrow> (ACL_NO_MATCH, None,
          s\<lparr>acl_stats := (acl_stats s)[acl_no := (acl_stats s ! acl_no)
              \<lparr>packets_nomatch := packets_nomatch (acl_stats s ! acl_no) + 1\<rparr>]\<rparr>)
      | Some i \<Rightarrow>
          let rule = acl_lists s ! acl_no ! i;
              s = acl_set_list acl_no
                    ((acl_lists s ! acl_no)[i := rule\<lparr>ae_hit_count := ae_hit_count rule + 1\<rparr>]) s;
              st = acl_stats s ! acl_no
          in if ae_allow rule AND 0x01 = ACL_ALLOW
             then (acl_action rule, None,
               s\<lparr>acl_stats := (acl_stats s)[acl_no := st\<lparr>packets_allowed := packets_allowed st + 1\<rparr>]\<rparr>)
             else let s = s\<lparr>acl_stats := (acl_stats s)
                            [acl_no := st\<lparr>packets_denied := packets_denied st + 1\<rparr>]\<rparr>
               in if now - last_deny_log_time s ! acl_no \<ge> ACL_LOG_INTERVAL_US
                  then (acl_action rule, Some i,
                    s\<lparr>last_deny_log_time := (last_deny_log_time s)[acl_no := now]\<rparr>)
                  else (acl_action rule, None, s))"

definition acl_check_packet ::
  "nat \<Rightarrow> pbuf option \<Rightarrow> int \<Rightarrow> acl_state \<Rightarrow> (u8 \<times> deny_log option \<times> acl_state) option" where
  "acl_check_packet acl_no p now s =
     (case p of None \<Rightarrow> Some (ACL_NO_MATCH, None, s)
      | Some pb \<Rightarrow>
          if acl_no \<ge> MAX_ACL_LISTS then Some (ACL_NO_MATCH, None, s)
          else do {
            parsed \<leftarrow> acl_parse (payload pb);
            case parsed of None \<Rightarrow> Some (ACL_NO_MATCH, None, s)
            | Some f \<Rightarrow> do {
                s \<leftarrow> acl_lock s;
                let (result, logged, s) = acl_match acl_no f now s in
                Some (result,
                  map_option (\<lambda>i. \<lparr>dl_list = acl_no, dl_proto_name = proto_name (f_proto f),
                    dl_ports = (f_proto f = IPPROTO_TCP \<or> f_proto f = IPPROTO_UDP),
                    dl_flow = f, dl_rule = i\<rparr>) logged,
                  acl_unlock s) } })"

end
