(* ===== verification/Interfaces.thy ===== *)
theory Interfaces
  imports Router_Prelude
begin

text \<open>
  The contracts between components, as locales: a store of ordered rule lists, and a
  byte queue.  Each is interpreted on the model of the component that provides it.
\<close>

section \<open>Ordered rule lists of bounded length\<close>

datatype 'a store_op = StoreAdd nat 'a | StoreDel nat nat | StoreClear nat

text \<open>The specification: one list per index, of at most \<open>cap\<close> elements.\<close>

fun spec_store_step :: "nat \<Rightarrow> nat \<Rightarrow> ('a \<Rightarrow> 'r) \<Rightarrow> (nat \<Rightarrow> 'r list) \<Rightarrow> 'a store_op \<Rightarrow> bool \<times> (nat \<Rightarrow> 'r list)" where
  "spec_store_step nlists cap stored f (StoreAdd n a) =
     (if n < nlists \<and> length (f n) < cap then (True, f(n := f n @ [stored a])) else (False, f))"
| "spec_store_step nlists cap stored f (StoreDel n i) =
     (if n < nlists \<and> i < length (f n) then (True, f(n := take i (f n) @ drop (Suc i) (f n))) else (False, f))"
| "spec_store_step nlists cap stored f (StoreClear n) =
     (if n < nlists then (True, f(n := [])) else (False, f))"

fun spec_store_run :: "nat \<Rightarrow> nat \<Rightarrow> ('a \<Rightarrow> 'r) \<Rightarrow> (nat \<Rightarrow> 'r list) \<Rightarrow> 'a store_op list \<Rightarrow> bool list \<times> (nat \<Rightarrow> 'r list)" where
  "spec_store_run nlists cap stored f [] = ([], f)"
| "spec_store_run nlists cap stored f (x # xs) =
     (let (b, g) = spec_store_step nlists cap stored f x; (bs, h) = spec_store_run nlists cap stored g xs
      in (b # bs, h))"

text \<open>Running operations on an implementation; \<open>None\<close> is a fault.\<close>

fun store_step :: "(nat \<Rightarrow> 'a \<Rightarrow> 's \<Rightarrow> (bool \<times> 's) option) \<Rightarrow> (nat \<Rightarrow> nat \<Rightarrow> 's \<Rightarrow> (bool \<times> 's) option)
    \<Rightarrow> (nat \<Rightarrow> 's \<Rightarrow> (bool \<times> 's) option) \<Rightarrow> 's \<Rightarrow> 'a store_op \<Rightarrow> (bool \<times> 's) option" where
  "store_step add del clr s (StoreAdd n a) = add n a s"
| "store_step add del clr s (StoreDel n i) = del n i s"
| "store_step add del clr s (StoreClear n) = clr n s"

fun store_run :: "(nat \<Rightarrow> 'a \<Rightarrow> 's \<Rightarrow> (bool \<times> 's) option) \<Rightarrow> (nat \<Rightarrow> nat \<Rightarrow> 's \<Rightarrow> (bool \<times> 's) option)
    \<Rightarrow> (nat \<Rightarrow> 's \<Rightarrow> (bool \<times> 's) option) \<Rightarrow> 's \<Rightarrow> 'a store_op list \<Rightarrow> (bool list \<times> 's) option" where
  "store_run add del clr s [] = Some ([], s)"
| "store_run add del clr s (x # xs) = do {
     (b, t) \<leftarrow> store_step add del clr s x;
     (bs, u) \<leftarrow> store_run add del clr t xs;
     Some (b # bs, u) }"

locale rule_store =
  fixes inv :: "'s \<Rightarrow> bool" and rules :: "nat \<Rightarrow> 's \<Rightarrow> 'r list" and stored :: "'a \<Rightarrow> 'r"
    and add :: "nat \<Rightarrow> 'a \<Rightarrow> 's \<Rightarrow> (bool \<times> 's) option"
    and del :: "nat \<Rightarrow> nat \<Rightarrow> 's \<Rightarrow> (bool \<times> 's) option"
    and clr :: "nat \<Rightarrow> 's \<Rightarrow> (bool \<times> 's) option"
    and nlists :: nat and cap :: nat
  assumes add_law: "inv s \<Longrightarrow> \<exists>t. add n a s = Some (n < nlists \<and> length (rules n s) < cap, t) \<and> inv t \<and>
      (\<forall>m < nlists. rules m t = (if m = n \<and> length (rules n s) < cap then rules n s @ [stored a] else rules m s))"
    and del_law: "inv s \<Longrightarrow> \<exists>t. del n i s = Some (n < nlists \<and> i < length (rules n s), t) \<and> inv t \<and>
      (\<forall>m < nlists. rules m t = (if m = n \<and> i < length (rules n s)
         then take i (rules n s) @ drop (Suc i) (rules n s) else rules m s))"
    and clr_law: "inv s \<Longrightarrow> \<exists>t. clr n s = Some (n < nlists, t) \<and> inv t \<and>
      (\<forall>m < nlists. rules m t = (if m = n then [] else rules m s))"
begin

lemma step_simulates:
  assumes "inv s" "\<forall>m < nlists. f m = rules m s"
  shows "\<exists>t. store_step add del clr s x = Some (fst (spec_store_step nlists cap stored f x), t) \<and>
    inv t \<and> (\<forall>m < nlists. snd (spec_store_step nlists cap stored f x) m = rules m t)"
proof (cases x)
  case (StoreAdd n a)
  from add_law [OF assms(1), of n a] assms(2) show ?thesis
    unfolding StoreAdd by (auto simp: conj_commute)
next
  case (StoreDel n i)
  from del_law [OF assms(1), of n i] assms(2) show ?thesis
    unfolding StoreDel by (auto simp: conj_commute)
next
  case (StoreClear n)
  from clr_law [OF assms(1), of n] assms(2) show ?thesis
    unfolding StoreClear by auto
qed

text \<open>Every run gives the answers of the specification and ends in a matching state.\<close>

lemma run_simulates:
  assumes "inv s" "\<forall>m < nlists. f m = rules m s"
  shows "\<exists>t. store_run add del clr s xs = Some (fst (spec_store_run nlists cap stored f xs), t) \<and>
    inv t \<and> (\<forall>m < nlists. snd (spec_store_run nlists cap stored f xs) m = rules m t)"
  using assms
proof (induction xs arbitrary: s f)
  case Nil
  then show ?case by simp
next
  case (Cons x xs)
  obtain b g where bg: "spec_store_step nlists cap stored f x = (b, g)" by (cases "spec_store_step nlists cap stored f x")
  from step_simulates [OF Cons.prems, of x] bg obtain t where
    t: "store_step add del clr s x = Some (b, t)" "inv t" "\<forall>m < nlists. g m = rules m t" by auto
  from Cons.IH [OF t(2,3)] obtain u where
    "store_run add del clr t xs = Some (fst (spec_store_run nlists cap stored g xs), u)" "inv u"
    "\<forall>m < nlists. snd (spec_store_run nlists cap stored g xs) m = rules m u" by auto
  with t(1) bg show ?case by (simp add: case_prod_unfold Let_def)
qed

end

section \<open>Byte queues\<close>

datatype fifo_op = FifoWrite bytes | FifoRead nat

text \<open>
  A bounded queue of bytes: writing is all or nothing, reading takes up to \<open>n\<close> bytes
  from the front (possibly none).  A run collects the accepted writes and the bytes read.
\<close>

fun fifo_run :: "(bytes \<Rightarrow> 's \<Rightarrow> (bool \<times> 's) option) \<Rightarrow> (nat \<Rightarrow> 's \<Rightarrow> (bytes \<times> 's) option)
    \<Rightarrow> fifo_op list \<Rightarrow> 's \<Rightarrow> (bytes \<times> bytes \<times> 's) option" where
  "fifo_run wr rd [] s = Some ([], [], s)"
| "fifo_run wr rd (FifoWrite d # xs) s = do {
     (ok, t) \<leftarrow> wr d s;
     (acc, got, u) \<leftarrow> fifo_run wr rd xs t;
     Some ((if ok then d else []) @ acc, got, u) }"
| "fifo_run wr rd (FifoRead n # xs) s = do {
     (d, t) \<leftarrow> rd n s;
     (acc, got, u) \<leftarrow> fifo_run wr rd xs t;
     Some (acc, d @ got, u) }"

locale byte_fifo =
  fixes inv :: "'s \<Rightarrow> bool" and contents :: "'s \<Rightarrow> bytes"
    and wr :: "bytes \<Rightarrow> 's \<Rightarrow> (bool \<times> 's) option" and rd :: "nat \<Rightarrow> 's \<Rightarrow> (bytes \<times> 's) option"
  assumes wr_law: "inv s \<Longrightarrow> \<exists>ok t. wr d s = Some (ok, t) \<and> inv t \<and>
      contents t = (if ok then contents s @ d else contents s)"
    and rd_law: "inv s \<Longrightarrow> \<exists>k t. rd n s = Some (take k (contents s), t) \<and> inv t \<and>
      contents t = drop k (contents s) \<and> k \<le> n"
begin

text \<open>No byte is lost, duplicated or reordered between the accepted writes and the reads.\<close>

lemma run_conserves:
  assumes "inv s"
  shows "\<exists>acc got t. fifo_run wr rd xs s = Some (acc, got, t) \<and> inv t \<and>
    contents s @ acc = got @ contents t"
  using assms
proof (induction xs arbitrary: s)
  case Nil
  then show ?case by simp
next
  case (Cons x xs)
  show ?case
  proof (cases x)
    case (FifoWrite d)
    obtain ok t where t: "wr d s = Some (ok, t)" "inv t" "contents t = (if ok then contents s @ d else contents s)"
      using wr_law [OF Cons.prems] by blast
    obtain acc got u where "fifo_run wr rd xs t = Some (acc, got, u)" "inv u" "contents t @ acc = got @ contents u"
      using Cons.IH [OF t(2)] by blast
    with t show ?thesis by (cases ok) (auto simp: FifoWrite)
  next
    case (FifoRead n)
    obtain k t where t: "rd n s = Some (take k (contents s), t)" "inv t" "contents t = drop k (contents s)"
      using rd_law [OF Cons.prems] by blast
    obtain acc got u where u: "fifo_run wr rd xs t = Some (acc, got, u)" "inv u" "contents t @ acc = got @ contents u"
      using Cons.IH [OF t(2)] by blast
    then have "contents s @ acc = (take k (contents s) @ got) @ contents u"
      using t(3) by (metis append.assoc append_take_drop_id)
    with t(1) u show ?thesis by (auto simp: FifoRead)
  qed
qed

end

end
