(* ===== verification/Acl_Rules.thy ===== *)
theory Acl_Rules
  imports Acl Interfaces
begin

text \<open>
  The rule tables: what every operation keeps true of them, the abstract firewall
  (a list of rules per direction) they implement, and the absence of lost or
  doubled rules.
\<close>

section \<open>Invariants\<close>

definition acl_rules :: "nat \<Rightarrow> acl_state \<Rightarrow> acl_entry_t list" where
  "acl_rules n s = filter acl_used (acl_lists s ! n)"

text \<open>The used slots come first, and the addresses of a used slot are pre-masked.\<close>

definition acl_compact :: "acl_entry_t list \<Rightarrow> bool" where
  "acl_compact es \<longleftrightarrow> filter acl_used es @ filter (\<lambda>e. \<not> acl_used e) es = es"

definition acl_premasked :: "acl_entry_t list \<Rightarrow> bool" where
  "acl_premasked es \<longleftrightarrow> (\<forall>e \<in> set es. acl_used e \<longrightarrow>
     ae_src e AND ae_s_mask e = ae_src e \<and> ae_dest e AND ae_d_mask e = ae_dest e)"

definition acl_shape :: "acl_state \<Rightarrow> bool" where
  "acl_shape s \<longleftrightarrow> length (acl_lists s) = MAX_ACL_LISTS \<and>
     (\<forall>es \<in> set (acl_lists s). length es = MAX_ACL_ENTRIES) \<and>
     length (acl_stats s) = MAX_ACL_LISTS \<and> length (acl_rule_count s) = MAX_ACL_LISTS \<and>
     length (last_deny_log_time s) = MAX_ACL_LISTS"

definition acl_counted :: "acl_state \<Rightarrow> bool" where
  "acl_counted s \<longleftrightarrow> (\<forall>n < MAX_ACL_LISTS. unat (acl_rule_count s ! n) = length (acl_rules n s))"

definition acl_tidy :: "acl_state \<Rightarrow> bool" where
  "acl_tidy s \<longleftrightarrow> (\<forall>es \<in> set (acl_lists s). acl_compact es \<and> acl_premasked es)"

definition acl_inv :: "acl_state \<Rightarrow> bool" where
  "acl_inv s \<longleftrightarrow> acl_shape s \<and> acl_counted s \<and> acl_tidy s \<and> acl_mutex s \<noteq> MutexHeld"

lemmas acl_inv_defs = acl_inv_def acl_shape_def acl_counted_def acl_tidy_def

section \<open>The lock\<close>

definition acl_taken :: "acl_state \<Rightarrow> acl_state" where
  "acl_taken s = (if acl_mutex s = MutexNull then s else s\<lparr>acl_mutex := MutexHeld\<rparr>)"

lemma acl_lock_free: "acl_mutex s \<noteq> MutexHeld \<Longrightarrow> acl_lock s = Some (acl_taken s)"
  by (cases "acl_mutex s") (auto simp: acl_lock_def acl_taken_def lock_simps)

lemma acl_lock_held: "acl_mutex s = MutexHeld \<Longrightarrow> acl_lock s = None"
  by (simp add: acl_lock_def lock_simps)

lemma acl_taken_fields [simp]:
  "acl_lists (acl_taken s) = acl_lists s" "acl_stats (acl_taken s) = acl_stats s"
  "acl_rule_count (acl_taken s) = acl_rule_count s"
  "last_deny_log_time (acl_taken s) = last_deny_log_time s"
  by (simp_all add: acl_taken_def)

lemma acl_unlock_fields [simp]:
  "acl_lists (acl_unlock s) = acl_lists s" "acl_stats (acl_unlock s) = acl_stats s"
  "acl_rule_count (acl_unlock s) = acl_rule_count s"
  "last_deny_log_time (acl_unlock s) = last_deny_log_time s"
  by (simp_all add: acl_unlock_def)

lemma acl_set_fields [simp]:
  "acl_lists (acl_set_list n es s) = (acl_lists s)[n := es]"
  "acl_stats (acl_set_list n es s) = acl_stats s"
  "acl_rule_count (acl_set_list n es s) = acl_rule_count s"
  "last_deny_log_time (acl_set_list n es s) = last_deny_log_time s"
  "acl_mutex (acl_set_list n es s) = acl_mutex s"
  "acl_lists (acl_set_count n c s) = acl_lists s"
  "acl_stats (acl_set_count n c s) = acl_stats s"
  "acl_rule_count (acl_set_count n c s) = (acl_rule_count s)[n := c]"
  "last_deny_log_time (acl_set_count n c s) = last_deny_log_time s"
  "acl_mutex (acl_set_count n c s) = acl_mutex s"
  by (simp_all add: acl_set_list_def acl_set_count_def)

text \<open>Leaving the critical section restores the lock, whatever the body wrote elsewhere.\<close>

lemma acl_mutex_unlock:
  "acl_mutex t = acl_mutex (acl_taken s) \<Longrightarrow> acl_mutex s \<noteq> MutexHeld \<Longrightarrow>
   acl_mutex (acl_unlock t) = acl_mutex s"
  by (cases "acl_mutex s") (auto simp: acl_unlock_def acl_taken_def lock_simps)

section \<open>Compact lists\<close>

lemma acl_compactI:
  assumes "\<forall>e \<in> set rs. acl_used e" "\<forall>e \<in> set zs. \<not> acl_used e"
  shows "acl_compact (rs @ zs)"
proof -
  have "filter acl_used rs = rs" "filter (\<lambda>e. \<not> acl_used e) rs = []"
    "filter acl_used zs = []" "filter (\<lambda>e. \<not> acl_used e) zs = zs"
    using assms by (simp_all add: filter_id_conv filter_empty_conv)
  then show ?thesis by (simp add: acl_compact_def)
qed

lemma acl_compactE:
  assumes "acl_compact es"
  obtains zs where "es = filter acl_used es @ zs" "\<forall>e \<in> set zs. \<not> acl_used e"
proof
  show "es = filter acl_used es @ filter (\<lambda>e. \<not> acl_used e) es"
    using assms by (simp add: acl_compact_def)
qed auto

lemma find_first_append:
  "(\<And>x. x \<in> set xs \<Longrightarrow> \<not> P x) \<Longrightarrow> P y \<Longrightarrow> find_first P (xs @ y # ys) = Some (length xs)"
  by (induction xs) auto

lemma acl_first_free:
  assumes "acl_compact es" "length (filter acl_used es) < length es"
  shows "find_first (\<lambda>e. \<not> acl_used e) es = Some (length (filter acl_used es))"
proof -
  obtain zs where zs: "es = filter acl_used es @ zs" "\<forall>e \<in> set zs. \<not> acl_used e"
    using assms(1) by (rule acl_compactE)
  with assms(2) obtain z zs' where "zs = z # zs'"
    by (metis append_Nil2 neq_Nil_conv order_less_irrefl)
  then have "\<not> acl_used z" using zs(2) by simp
  then have "find_first (\<lambda>e. \<not> acl_used e) (filter acl_used es @ z # zs') = Some (length (filter acl_used es))"
    by (intro find_first_append) auto
  then show ?thesis using zs(1) \<open>zs = z # zs'\<close> by simp
qed

lemma acl_insert_compact:
  assumes "acl_compact es" "length (filter acl_used es) < length es" "acl_used e"
  shows "filter acl_used (es[length (filter acl_used es) := e]) = filter acl_used es @ [e]"
    and "acl_compact (es[length (filter acl_used es) := e])"
proof -
  obtain zs where zs: "es = filter acl_used es @ zs" "\<forall>e \<in> set zs. \<not> acl_used e"
    using assms(1) by (rule acl_compactE)
  with assms(2) obtain z zs' where z: "zs = z # zs'"
    by (metis append_Nil2 neq_Nil_conv order_less_irrefl)
  let ?rs = "filter acl_used es"
  have upd: "es[length ?rs := e] = (?rs @ [e]) @ zs'"
    by (subst zs(1)) (simp add: z list_update_append)
  have "filter acl_used zs' = []"
    using zs(2) z by (simp add: filter_empty_conv)
  then show "filter acl_used (es[length ?rs := e]) = ?rs @ [e]"
    unfolding upd using assms(3) by simp
  show "acl_compact (es[length ?rs := e])"
    unfolding upd by (rule acl_compactI) (use assms(3) zs(2) z in auto)
qed

lemma acl_compact_from_shift:
  assumes "length (pre @ z # us @ zs) = MAX_ACL_ENTRIES" "\<not> acl_used z"
    "\<forall>e \<in> set us. acl_used e" "\<forall>e \<in> set zs. \<not> acl_used e"
  shows "acl_compact_from (length pre) (pre @ z # us @ zs)
         = pre @ us @ (if us = [] then z else acl_zero_entry) # zs"
  using assms
proof (induction us arbitrary: pre z)
  case Nil
  have "\<not> (length pre < MAX_ACL_ENTRIES - 1 \<and> acl_used ((pre @ z # zs) ! (length pre + 1)))"
    using Nil.prems by (cases zs) (auto simp: nth_append)
  then have "acl_compact_from (length pre) (pre @ z # zs) = pre @ z # zs"
    by (subst acl_compact_from.simps) (rule if_not_P)
  then show ?case by simp
next
  case (Cons u us)
  have nx: "(pre @ z # u # us @ zs) ! Suc (length pre) = u"
    by (simp add: nth_append)
  have "acl_used u" "length pre < MAX_ACL_ENTRIES - 1"
    using Cons.prems by (auto simp: MAX_ACL_ENTRIES_def)
  then have "acl_compact_from (length pre) (pre @ z # (u # us) @ zs)
      = acl_compact_from (length (pre @ [u])) ((pre @ [u]) @ acl_zero_entry # us @ zs)"
    by (subst acl_compact_from.simps) (simp add: nx list_update_append)
  also have "\<dots> = (pre @ [u]) @ us @ (if us = [] then acl_zero_entry else acl_zero_entry) # zs"
    using Cons.prems by (intro Cons.IH) (auto simp: acl_zero_entry_def)
  finally show ?case by simp
qed

lemma acl_remove_compact:
  assumes c: "acl_compact es" and len: "length es = MAX_ACL_ENTRIES"
    and i: "i < length es" "acl_used (es ! i)"
  defines "es' \<equiv> acl_compact_from i (es[i := acl_zero_entry])"
  shows "filter acl_used es' = take i (filter acl_used es) @ drop (Suc i) (filter acl_used es)"
    and "acl_compact es'" and "length es' = length es"
    and "i < length (filter acl_used es)" and "set es' \<subseteq> insert acl_zero_entry (set es)"
proof -
  obtain zs where zs: "es = filter acl_used es @ zs" "\<forall>e \<in> set zs. \<not> acl_used e"
    using c by (rule acl_compactE)
  let ?rs = "filter acl_used es"
  show il: "i < length ?rs"
  proof (rule ccontr)
    assume "\<not> i < length ?rs"
    then have "es ! i = zs ! (i - length (filter acl_used es))"
      by (subst zs(1)) (simp add: nth_append)
    moreover have "i - length (filter acl_used es) < length zs"
      using i(1) \<open>\<not> i < length (filter acl_used es)\<close> arg_cong [OF zs(1), of length] by simp
    ultimately show False using zs(2) i(2) by (metis nth_mem)
  qed
  let ?pre = "take i ?rs" and ?us = "drop (Suc i) ?rs"
  have upd: "es[i := acl_zero_entry] = ?pre @ acl_zero_entry # ?us @ zs"
    using il by (subst zs(1)) (simp add: list_update_append upd_conv_take_nth_drop)
  have lp: "length ?pre = i" using il by simp
  have used: "\<forall>e \<in> set ?us. acl_used e" "\<forall>e \<in> set ?pre. acl_used e"
    by (auto dest: in_set_dropD in_set_takeD)
  have len': "length (?pre @ acl_zero_entry # ?us @ zs) = MAX_ACL_ENTRIES"
    using len upd by (metis length_list_update)
  have zu: "\<not> acl_used acl_zero_entry" by (simp add: acl_zero_entry_def)
  have res: "es' = (?pre @ ?us) @ acl_zero_entry # zs"
    unfolding es'_def upd
    using acl_compact_from_shift [of ?pre acl_zero_entry ?us zs, OF len' zu used(1) zs(2)] lp
    by simp
  have f: "filter acl_used zs = []" "filter acl_used ?pre = ?pre" "filter acl_used ?us = ?us"
    by (rule filter_False, rule zs(2)) (rule filter_True, rule used)+
  show "filter acl_used es' = ?pre @ ?us"
    unfolding res filter_append f filter.simps by (simp only: zu if_False append_Nil2)
  show "acl_compact es'"
    unfolding res
  proof (rule acl_compactI)
    show "\<forall>e \<in> set (?pre @ ?us). acl_used e"
      unfolding set_append using used by blast
    show "\<forall>e \<in> set (acl_zero_entry # zs). \<not> acl_used e"
      unfolding list.set using zs(2) zu by blast
  qed
  show "length es' = length es"
    unfolding res using len' len by simp
  show "set es' \<subseteq> insert acl_zero_entry (set es)"
  proof -
    have "set zs \<subseteq> set es" by (subst zs(1)) simp
    moreover have "set ?pre \<subseteq> set es" "set ?us \<subseteq> set es"
      by (auto dest: in_set_dropD in_set_takeD)
    ultimately show ?thesis unfolding res by auto
  qed
qed

section \<open>Operations with the lock free\<close>

lemma acl_unlock_taken [lock_simps]: "acl_mutex s \<noteq> MutexHeld \<Longrightarrow> acl_unlock (acl_taken s) = s"
  by (cases "acl_mutex s") (simp_all add: acl_unlock_def acl_taken_def sem_give_def)

lemma acl_set_taken [lock_simps]:
  "acl_set_list n es (acl_taken s) = acl_taken (acl_set_list n es s)"
  "acl_set_count n c (acl_taken s) = acl_taken (acl_set_count n c s)"
  "acl_taken s\<lparr>acl_stats := st\<rparr> = acl_taken (s\<lparr>acl_stats := st\<rparr>)"
  "acl_taken s\<lparr>last_deny_log_time := tm\<rparr> = acl_taken (s\<lparr>last_deny_log_time := tm\<rparr>)"
  by (simp_all add: acl_set_list_def acl_set_count_def acl_taken_def)

definition acl_new_entry :: "u32 \<Rightarrow> u32 \<Rightarrow> u32 \<Rightarrow> u32 \<Rightarrow> u8 \<Rightarrow> u16 \<Rightarrow> u16 \<Rightarrow> u8 \<Rightarrow> acl_entry_t" where
  "acl_new_entry src s_mask dest d_mask proto s_port d_port allow =
     \<lparr>ae_src = src AND s_mask, ae_s_mask = s_mask, ae_dest = dest AND d_mask,
      ae_d_mask = d_mask, ae_s_port = s_port, ae_d_port = d_port, ae_proto = proto,
      ae_allow = allow, ae_hit_count = 0, ae_valid = 1\<rparr>"

lemma acl_new_entry_used [simp]: "acl_used (acl_new_entry a b c d e f g h)"
  by (simp add: acl_new_entry_def)

lemma acl_new_entry_premasked:
  "ae_src (acl_new_entry a b c d e f g h) AND ae_s_mask (acl_new_entry a b c d e f g h)
     = ae_src (acl_new_entry a b c d e f g h)"
  "ae_dest (acl_new_entry a b c d e f g h) AND ae_d_mask (acl_new_entry a b c d e f g h)
     = ae_dest (acl_new_entry a b c d e f g h)"
  by (simp_all add: acl_new_entry_def and.assoc)

lemma acl_add_free:
  "acl_mutex s \<noteq> MutexHeld \<Longrightarrow> n < MAX_ACL_LISTS \<Longrightarrow>
   acl_add n src sm dst dm pr sp dp al s =
     (case find_first (\<lambda>e. \<not> acl_used e) (acl_lists s ! n) of
        None \<Rightarrow> Some (False, s)
      | Some slot \<Rightarrow> Some (True, acl_set_count n (acl_rule_count s ! n + 1)
          (acl_set_list n ((acl_lists s ! n)[slot := acl_new_entry src sm dst dm pr sp dp al]) s)))"
  by (simp add: acl_add_def acl_lock_free lock_simps acl_new_entry_def Let_def split: option.splits)

lemma acl_delete_free:
  "acl_mutex s \<noteq> MutexHeld \<Longrightarrow> n < MAX_ACL_LISTS \<Longrightarrow> i < MAX_ACL_ENTRIES \<Longrightarrow>
   acl_delete n i s =
     (if \<not> acl_used (acl_lists s ! n ! i) then Some (False, s)
      else let t = acl_set_list n (acl_compact_from i ((acl_lists s ! n)[i := acl_zero_entry])) s
        in Some (True, if acl_rule_count s ! n > 0
             then acl_set_count n (acl_rule_count s ! n - 1) t else t))"
  by (simp add: acl_delete_def acl_lock_free lock_simps Let_def)

lemma acl_clear_free:
  "acl_mutex s \<noteq> MutexHeld \<Longrightarrow> n < MAX_ACL_LISTS \<Longrightarrow>
   acl_clear n s = Some (acl_set_count n 0 (acl_set_list n (replicate MAX_ACL_ENTRIES acl_zero_entry) s))"
  by (simp add: acl_clear_def acl_lock_free lock_simps)

lemma acl_recount_free:
  "acl_mutex s \<noteq> MutexHeld \<Longrightarrow> n < MAX_ACL_LISTS \<Longrightarrow>
   acl_recount n s = Some (acl_set_count n (count_valid (acl_lists s ! n) 0) s)"
  by (simp add: acl_recount_def acl_lock_free lock_simps)

lemma acl_clear_stats_free:
  "acl_mutex s \<noteq> MutexHeld \<Longrightarrow> n < MAX_ACL_LISTS \<Longrightarrow>
   acl_clear_stats n s = Some (acl_set_list n (map (\<lambda>e. e\<lparr>ae_hit_count := 0\<rparr>) (acl_lists s ! n))
     (s\<lparr>acl_stats := (acl_stats s)[n := acl_zero_stats]\<rparr>))"
  by (simp add: acl_clear_stats_def acl_lock_free lock_simps)

lemmas acl_free = acl_add_free acl_delete_free acl_clear_free acl_recount_free acl_clear_stats_free

section \<open>Replacing one list\<close>

lemma acl_shape_len: "acl_shape s \<Longrightarrow> n < MAX_ACL_LISTS \<Longrightarrow> length (acl_lists s ! n) = MAX_ACL_ENTRIES"
  by (auto simp: acl_shape_def)

lemma acl_rules_le: "acl_shape s \<Longrightarrow> n < MAX_ACL_LISTS \<Longrightarrow> length (acl_rules n s) \<le> MAX_ACL_ENTRIES"
  unfolding acl_rules_def by (metis acl_shape_len length_filter_le)

lemma acl_shape_set [simp]:
  "acl_shape s \<Longrightarrow> length es = MAX_ACL_ENTRIES \<Longrightarrow> acl_shape (acl_set_list n es s)"
  "acl_shape (acl_set_count n c s) = acl_shape s"
  by (auto simp: acl_shape_def dest!: set_update_subset_insert [THEN subsetD])

lemma acl_tidy_set [simp]:
  "acl_tidy s \<Longrightarrow> acl_compact es \<Longrightarrow> acl_premasked es \<Longrightarrow> acl_tidy (acl_set_list n es s)"
  "acl_tidy (acl_set_count n c s) = acl_tidy s"
  by (auto simp: acl_tidy_def dest!: set_update_subset_insert [THEN subsetD])

lemma acl_rules_set [simp]:
  "acl_shape s \<Longrightarrow> n < MAX_ACL_LISTS \<Longrightarrow> acl_rules n (acl_set_list n es s) = filter acl_used es"
  "m \<noteq> n \<Longrightarrow> acl_rules m (acl_set_list n es s) = acl_rules m s"
  "acl_rules m (acl_set_count n c s) = acl_rules m s"
  by (auto simp: acl_rules_def acl_shape_def)

lemma acl_counted_set:
  assumes "acl_shape s" "acl_counted s" "n < MAX_ACL_LISTS" "unat c = length (filter acl_used es)"
  shows "acl_counted (acl_set_count n c (acl_set_list n es s))"
  using assms
  by (auto simp: acl_counted_def acl_shape_def nth_list_update acl_rules_def)

lemma acl_inv_replace:
  assumes "acl_inv s" "n < MAX_ACL_LISTS" "length es = MAX_ACL_ENTRIES" "acl_compact es"
    "acl_premasked es" "unat c = length (filter acl_used es)"
  shows "acl_inv (acl_set_count n c (acl_set_list n es s))"
  using assms acl_counted_set [of s n c es] by (auto simp: acl_inv_def)

lemma acl_inv_list:
  assumes "acl_inv s" "n < MAX_ACL_LISTS"
  shows "length (acl_lists s ! n) = MAX_ACL_ENTRIES" "acl_compact (acl_lists s ! n)"
    "acl_premasked (acl_lists s ! n)" "acl_mutex s \<noteq> MutexHeld" "acl_shape s"
    "unat (acl_rule_count s ! n) = length (acl_rules n s)"
  using assms by (auto simp: acl_inv_def acl_shape_def acl_tidy_def acl_counted_def)

lemma acl_premasked_mono:
  "acl_premasked es \<Longrightarrow> set es' \<subseteq> insert e (set es) \<Longrightarrow> acl_premasked [e] \<Longrightarrow> acl_premasked es'"
  by (auto simp: acl_premasked_def)

lemma count_valid_eq: "count_valid es c = c + of_nat (length (filter acl_used es))"
  by (induction es arbitrary: c) (auto simp: add.assoc)

lemma acl_zero_list [simp]:
  "filter acl_used (replicate k acl_zero_entry) = []" "acl_compact (replicate k acl_zero_entry)"
  "acl_premasked (replicate k acl_zero_entry)" "acl_premasked [acl_zero_entry]"
  by (auto simp: acl_zero_entry_def acl_compact_def acl_premasked_def filter_id_conv)

section \<open>The operations keep the invariant and act as list operations\<close>

lemma acl_add_law:
  assumes inv: "acl_inv s"
  shows "\<exists>t. acl_add n src sm dst dm pr sp dp al s
             = Some (n < MAX_ACL_LISTS \<and> length (acl_rules n s) < MAX_ACL_ENTRIES, t) \<and> acl_inv t \<and>
    (\<forall>m < MAX_ACL_LISTS. acl_rules m t = (if m = n \<and> length (acl_rules n s) < MAX_ACL_ENTRIES
       then acl_rules n s @ [acl_new_entry src sm dst dm pr sp dp al] else acl_rules m s))"
proof (cases "n < MAX_ACL_LISTS")
  case False
  with inv show ?thesis by (auto simp: acl_add_def)
next
  case n: True
  note l = acl_inv_list [OF inv n]
  let ?es = "acl_lists s ! n" and ?e = "acl_new_entry src sm dst dm pr sp dp al"
  show ?thesis
  proof (cases "length (acl_rules n s) < MAX_ACL_ENTRIES")
    case True
    let ?k = "length (filter acl_used ?es)"
    let ?t = "acl_set_count n (acl_rule_count s ! n + 1) (acl_set_list n (?es[?k := ?e]) s)"
    have k: "?k < length ?es" using True l(1) by (simp add: acl_rules_def)
    note ins = acl_insert_compact [OF l(2) k, of ?e, simplified]
    have pm: "acl_premasked (?es[?k := ?e])"
      by (rule acl_premasked_mono [OF l(3) set_update_subset_insert])
        (simp add: acl_premasked_def acl_new_entry_premasked)
    have "unat (acl_rule_count s ! n + 1) = length (filter acl_used (?es[?k := ?e]))"
      using l(6) True by (simp add: ins acl_rules_def MAX_ACL_ENTRIES_def unat_word_ariths)
    then have "acl_inv ?t"
      using l(1) ins(2) pm by (intro acl_inv_replace [OF inv n]) simp_all
    moreover have "acl_add n src sm dst dm pr sp dp al s = Some (True, ?t)"
      using acl_first_free [OF l(2) k] by (simp add: acl_add_free [OF l(4) n])
    moreover have "\<forall>m < MAX_ACL_LISTS. acl_rules m ?t
        = (if m = n then acl_rules n s @ [?e] else acl_rules m s)"
      using l(5) n ins(1) by (simp add: acl_rules_def acl_shape_def)
    ultimately show ?thesis using n True by auto
  next
    case False
    then have "length (filter acl_used ?es) = length ?es"
      using l(1) acl_rules_le [OF l(5) n] by (simp add: acl_rules_def)
    then have "find_first (\<lambda>e. \<not> acl_used e) ?es = None"
      by (simp only: length_filter_full find_first_None) simp
    with False n inv show ?thesis by (auto simp: acl_add_free [OF l(4) n])
  qed
qed

lemma acl_delete_law:
  assumes inv: "acl_inv s"
  shows "\<exists>t. acl_delete n i s = Some (n < MAX_ACL_LISTS \<and> i < length (acl_rules n s), t) \<and> acl_inv t \<and>
    (\<forall>m < MAX_ACL_LISTS. acl_rules m t = (if m = n \<and> i < length (acl_rules n s)
       then take i (acl_rules n s) @ drop (Suc i) (acl_rules n s) else acl_rules m s))"
proof (cases "n < MAX_ACL_LISTS \<and> i < MAX_ACL_ENTRIES")
  case False
  then have "\<not> (n < MAX_ACL_LISTS \<and> i < length (acl_rules n s))"
    using acl_rules_le [of s n] inv by (auto simp: acl_inv_def)
  with False inv show ?thesis by (auto simp: acl_delete_def)
next
  case True
  then have n: "n < MAX_ACL_LISTS" and i: "i < MAX_ACL_ENTRIES" by simp_all
  note l = acl_inv_list [OF inv n]
  let ?es = "acl_lists s ! n"
  show ?thesis
  proof (cases "acl_used (?es ! i)")
    case used: True
    let ?es' = "acl_compact_from i (?es[i := acl_zero_entry])"
    have il: "i < length ?es" using i l(1) by simp
    note rem = acl_remove_compact [OF l(2,1) il used]
    have len: "i < length (acl_rules n s)" using rem(4) by (simp add: acl_rules_def)
    then have pos: "acl_rule_count s ! n > 0"
      using l(6) by (metis less_nat_zero_code unat_0 word_gt_0)
    let ?t = "acl_set_count n (acl_rule_count s ! n - 1) (acl_set_list n ?es' s)"
    have pm: "acl_premasked ?es'"
      by (rule acl_premasked_mono [OF l(3) rem(5)]) simp
    have "unat (acl_rule_count s ! n - 1) = length (acl_rules n s) - 1"
      using pos l(6) by (simp add: unat_minus_one word_gt_0)
    then have cnt: "unat (acl_rule_count s ! n - 1) = length (filter acl_used ?es')"
      using len by (simp add: rem(1) acl_rules_def)
    have "acl_inv ?t"
      using l(1) rem(2,3) pm cnt by (intro acl_inv_replace [OF inv n]) simp_all
    moreover have "acl_delete n i s = Some (True, ?t)"
      using pos used by (simp add: acl_delete_free [OF l(4) n i] Let_def)
    moreover have "\<forall>m < MAX_ACL_LISTS. acl_rules m ?t
        = (if m = n then take i (acl_rules n s) @ drop (Suc i) (acl_rules n s) else acl_rules m s)"
      using l(5) n rem(1) by (simp add: acl_rules_def acl_shape_def)
    ultimately show ?thesis using n len by auto
  next
    case False
    have "\<not> i < length (acl_rules n s)"
    proof
      assume a: "i < length (acl_rules n s)"
      obtain zs where "?es = acl_rules n s @ zs"
        using l(2) by (auto elim: acl_compactE simp: acl_rules_def)
      with a have "?es ! i \<in> set (acl_rules n s)" by (simp add: nth_append)
      then show False using False by (simp add: acl_rules_def)
    qed
    with False n i inv show ?thesis by (auto simp: acl_delete_free [OF l(4) n i])
  qed
qed

lemma acl_clear_law:
  assumes inv: "acl_inv s"
  shows "\<exists>t. acl_clear n s = Some t \<and> acl_inv t \<and>
    (\<forall>m < MAX_ACL_LISTS. acl_rules m t = (if m = n then [] else acl_rules m s))"
proof (cases "n < MAX_ACL_LISTS")
  case False
  with inv show ?thesis by (auto simp: acl_clear_def)
next
  case n: True
  note l = acl_inv_list [OF inv n]
  show ?thesis
    using l(4,5) n by (auto simp: acl_clear_free intro!: acl_inv_replace [OF inv n])
qed

section \<open>The firewall as a rule store\<close>

text \<open>The calls as a client makes them: one rule, one index, one list.\<close>

definition acl_add_rule :: "nat \<Rightarrow> acl_entry_t \<Rightarrow> acl_state \<Rightarrow> (bool \<times> acl_state) option" where
  "acl_add_rule n e s = acl_add n (ae_src e) (ae_s_mask e) (ae_dest e) (ae_d_mask e) (ae_proto e)
     (ae_s_port e) (ae_d_port e) (ae_allow e) s"

definition acl_stored :: "acl_entry_t \<Rightarrow> acl_entry_t" where
  "acl_stored e = acl_new_entry (ae_src e) (ae_s_mask e) (ae_dest e) (ae_d_mask e) (ae_proto e)
     (ae_s_port e) (ae_d_port e) (ae_allow e)"

definition acl_clear_list :: "nat \<Rightarrow> acl_state \<Rightarrow> (bool \<times> acl_state) option" where
  "acl_clear_list n s = map_option (Pair (n < MAX_ACL_LISTS)) (acl_clear n s)"

interpretation fw: rule_store acl_inv acl_rules acl_stored acl_add_rule acl_delete acl_clear_list
  MAX_ACL_LISTS MAX_ACL_ENTRIES
proof unfold_locales
  fix s n a assume "acl_inv s"
  then show "\<exists>t. acl_add_rule n a s = Some (n < MAX_ACL_LISTS \<and> length (acl_rules n s) < MAX_ACL_ENTRIES, t)
    \<and> acl_inv t \<and> (\<forall>m < MAX_ACL_LISTS. acl_rules m t =
      (if m = n \<and> length (acl_rules n s) < MAX_ACL_ENTRIES then acl_rules n s @ [acl_stored a] else acl_rules m s))"
    unfolding acl_add_rule_def acl_stored_def by (rule acl_add_law)
next
  fix s n i assume "acl_inv s"
  then show "\<exists>t. acl_delete n i s = Some (n < MAX_ACL_LISTS \<and> i < length (acl_rules n s), t)
    \<and> acl_inv t \<and> (\<forall>m < MAX_ACL_LISTS. acl_rules m t =
      (if m = n \<and> i < length (acl_rules n s)
       then take i (acl_rules n s) @ drop (Suc i) (acl_rules n s) else acl_rules m s))"
    by (rule acl_delete_law)
next
  fix s n assume "acl_inv s"
  then show "\<exists>t. acl_clear_list n s = Some (n < MAX_ACL_LISTS, t) \<and> acl_inv t \<and>
    (\<forall>m < MAX_ACL_LISTS. acl_rules m t = (if m = n then [] else acl_rules m s))"
    using acl_clear_law [of s n] by (auto simp: acl_clear_list_def)
qed

end
