(* ===== verification/Acl_Filter.thy ===== *)
theory Acl_Filter
  imports Acl_Rules
begin

text \<open>
  What \<open>acl_check_packet\<close> decides: it reads only bytes of the first segment, its
  verdict is that of the first matching rule, and it changes nothing but one
  statistics counter, one hit counter and the log timestamp.
\<close>

section \<open>The reads stay inside the segment\<close>

lemma acl_eth_offset_cases:
  "acl_eth_offset pl \<in> {Some None, Some (Some 0), Some (Some ETH_HEADER_LEN)}"
  by (simp add: acl_eth_offset_def mem_simps Let_def ETH_HEADER_LEN_def)

lemma acl_ip_offset_total: "\<exists>r. acl_ip_offset pl = Some r"
  using acl_eth_offset_cases [of pl] by (auto simp: acl_ip_offset_def rd8_def)

lemma acl_ports_total: "\<exists>r. acl_ports pl off pr hl = Some r"
  by (auto simp: acl_ports_def mem_simps)

lemma acl_parse_at_total: "\<exists>r. acl_parse_at pl off = Some r"
proof (cases "length pl < off + 20")
  case False
  then have r: "rd8 pl off = Some (pl ! off)" "rd8 pl (off + 9) = Some (pl ! (off + 9))"
    "\<exists>a. rd32 pl (off + 12) = Some a" "\<exists>b. rd32 pl (off + 16) = Some b"
    by (simp_all add: mem_simps)
  obtain a b where ab: "rd32 pl (off + 12) = Some a" "rd32 pl (off + 16) = Some b" using r by blast
  obtain pt where "acl_ports pl off (pl ! (off + 9)) (unat (pl ! off AND 0x0F) * 4) = Some pt"
    using acl_ports_total by blast
  with False r(1,2) ab show ?thesis by (auto simp: acl_parse_at_def)
qed (simp add: acl_parse_at_def)

lemma acl_parse_total: "\<exists>r. acl_parse pl = Some r"
  using acl_ip_offset_total [of pl] acl_parse_at_total [of pl]
  by (auto simp: acl_parse_def split: option.splits)

section \<open>The verdict\<close>

text \<open>The meaning of a rule, without the order of the tests.\<close>

definition rule_covers :: "flow \<Rightarrow> acl_entry_t \<Rightarrow> bool" where
  "rule_covers f r \<longleftrightarrow>
     (ae_proto r = 0 \<or> ae_proto r = f_proto f) \<and>
     f_src f AND ae_s_mask r = ae_src r \<and> f_dest f AND ae_d_mask r = ae_dest r \<and>
     (ae_s_port r \<noteq> 0 \<longrightarrow> f_proto f \<in> {IPPROTO_TCP, IPPROTO_UDP} \<and> f_src_port f = ae_s_port r) \<and>
     (ae_d_port r \<noteq> 0 \<longrightarrow> f_proto f \<in> {IPPROTO_TCP, IPPROTO_UDP} \<and> f_dst_port f = ae_d_port r)"

lemma rule_matches_iff: "rule_matches f r \<longleftrightarrow> acl_used r \<and> rule_covers f r"
  by (auto simp: rule_matches_def rule_covers_def)

text \<open>First match over an abstract rule list.\<close>

definition first_rule :: "flow \<Rightarrow> acl_entry_t list \<Rightarrow> acl_entry_t option" where
  "first_rule f rs = find (rule_covers f) rs"

definition verdict :: "acl_entry_t list \<Rightarrow> flow \<Rightarrow> u8" where
  "verdict rs f = (case first_rule f rs of None \<Rightarrow> ACL_NO_MATCH | Some r \<Rightarrow> acl_action r)"

lemma find_filter_conv: "find P (filter Q xs) = find (\<lambda>x. Q x \<and> P x) xs"
  by (induction xs) auto

lemma find_first_find: "find P xs = map_option ((!) xs) (find_first P xs)"
  by (induction xs) (auto simp: option.map_comp comp_def)

lemma first_rule_slots:
  "first_rule f (filter acl_used es) = map_option ((!) es) (find_first (rule_matches f) es)"
  unfolding first_rule_def find_filter_conv
  by (simp add: find_first_find rule_matches_iff [abs_def])

section \<open>The state after a check\<close>

lemma acl_match_mutex: "acl_match n f now s = (r, l, t) \<Longrightarrow> acl_mutex t = acl_mutex s"
  by (auto simp: acl_match_def Let_def split: option.splits if_splits)

lemma acl_match_taken:
  "acl_match n f now (acl_taken s) = (case acl_match n f now s of (r, l, t) \<Rightarrow> (r, l, acl_taken t))"
  by (simp add: acl_match_def Let_def lock_simps split: option.splits)

lemma acl_check_free:
  assumes "acl_mutex s \<noteq> MutexHeld" "n < MAX_ACL_LISTS" "acl_parse (payload pb) = Some (Some f)"
    "acl_match n f now s = (r, l, t)"
  shows "acl_check_packet n (Some pb) now s = Some (r,
     map_option (\<lambda>i. \<lparr>dl_list = n, dl_proto_name = proto_name (f_proto f),
       dl_ports = (f_proto f = IPPROTO_TCP \<or> f_proto f = IPPROTO_UDP), dl_flow = f, dl_rule = i\<rparr>) l, t)"
proof -
  have "acl_unlock (acl_taken t) = t"
    using assms(1) acl_match_mutex [OF assms(4)] by (simp add: acl_unlock_taken)
  with assms show ?thesis
    by (simp add: acl_check_packet_def acl_lock_free acl_match_taken)
qed

lemma acl_match_result: "fst (acl_match n f now s) = verdict (acl_rules n s) f"
  unfolding verdict_def acl_rules_def first_rule_slots
  by (auto simp: acl_match_def Let_def split: option.splits)

text \<open>A rule with its hit counter changed is still the same rule.\<close>

lemma used_hit [simp]: "acl_used (r\<lparr>ae_hit_count := h\<rparr>) = acl_used r"
  by simp

lemma filter_used_hit:
  "i < length es \<Longrightarrow> acl_used (es ! i) \<Longrightarrow>
   filter acl_used (es[i := (es ! i)\<lparr>ae_hit_count := h\<rparr>])
   = (filter acl_used es)[length (filter acl_used (take i es)) := (es ! i)\<lparr>ae_hit_count := h\<rparr>]"
  by (simp add: filter_update filter_split [of i es] list_update_append)

lemma compact_hit:
  assumes "acl_compact es" "acl_used (es ! i)"
  shows "acl_compact (es[i := (es ! i)\<lparr>ae_hit_count := h\<rparr>])"
proof (cases "i < length es")
  case True
  obtain zs where zs: "es = filter acl_used es @ zs" "\<forall>e \<in> set zs. \<not> acl_used e"
    using assms(1) by (rule acl_compactE)
  let ?rs = "filter acl_used es"
  have i: "i < length ?rs"
  proof (rule ccontr)
    assume n: "\<not> i < length ?rs"
    then have "es ! i = zs ! (i - length ?rs)" by (subst zs(1)) (simp add: nth_append)
    moreover have "i - length ?rs < length zs"
      using n True arg_cong [OF zs(1), of length] by simp
    ultimately show False using zs(2) assms(2) by (metis nth_mem)
  qed
  have "es[i := (es ! i)\<lparr>ae_hit_count := h\<rparr>] = ?rs[i := (es ! i)\<lparr>ae_hit_count := h\<rparr>] @ zs"
    by (subst zs(1)) (use i in \<open>simp only: list_update_append if_True\<close>)
  moreover have "\<forall>e \<in> set (?rs[i := (es ! i)\<lparr>ae_hit_count := h\<rparr>]). acl_used e"
    using assms(2) by (auto dest!: set_update_subset_insert [THEN subsetD])
  ultimately show ?thesis using acl_compactI [OF _ zs(2)] by metis
next
  case False
  with assms show ?thesis by (simp add: list_update_beyond)
qed

lemma premasked_hit:
  assumes "acl_premasked es"
  shows "acl_premasked (es[i := (es ! i)\<lparr>ae_hit_count := h\<rparr>])"
proof (cases "i < length es")
  case True
  then have "acl_premasked [(es ! i)\<lparr>ae_hit_count := h\<rparr>]"
    using assms by (auto simp: acl_premasked_def)
  with assms show ?thesis
    by (rule acl_premasked_mono [OF _ set_update_subset_insert])
next
  case False
  with assms show ?thesis by (simp add: list_update_beyond)
qed

text \<open>What a check leaves alone, and the one counter it moves.\<close>

definition bump :: "u8 \<Rightarrow> acl_stats_t \<Rightarrow> acl_stats_t" where
  "bump v st = (if v = ACL_NO_MATCH then st\<lparr>packets_nomatch := packets_nomatch st + 1\<rparr>
     else if v AND 1 = ACL_ALLOW then st\<lparr>packets_allowed := packets_allowed st + 1\<rparr>
     else st\<lparr>packets_denied := packets_denied st + 1\<rparr>)"

lemma acl_action_bits:
  "acl_action r AND 1 = ae_allow r AND 1" "acl_action r AND ACL_MONITOR = ae_allow r AND ACL_MONITOR"
proof -
  have b1: "bit (1 :: u8) n \<longleftrightarrow> n = 0" and b2: "bit (2 :: u8) n \<longleftrightarrow> n = 1" for n
    by (simp_all add: bit_1_iff) (auto simp: bit_numeral_rec(1) bit_1_iff gr0_conv_Suc bit_Suc
        intro: ccontr dest: bit_imp_le_length split: nat.splits)
  show "acl_action r AND 1 = ae_allow r AND 1"
    by (rule bit_word_eqI) (auto simp: acl_action_def ACL_MONITOR_def bit_and_iff bit_or_iff b1 b2)
  show "acl_action r AND ACL_MONITOR = ae_allow r AND ACL_MONITOR"
    by (rule bit_word_eqI) (auto simp: acl_action_def ACL_MONITOR_def bit_and_iff bit_or_iff b1 b2)
qed

lemma acl_action_and3: "acl_action r = ae_allow r AND 3"
proof -
  have "acl_action r = ae_allow r AND (1 OR 2)"
    by (simp only: acl_action_def ACL_MONITOR_def bit.conj_disj_distrib)
  then show ?thesis by simp
qed

lemma acl_action_range: "acl_action r \<le> 3" "acl_action r \<noteq> ACL_NO_MATCH"
proof -
  show le: "acl_action r \<le> 3"
    unfolding acl_action_and3 by (rule word_and_le1)
  show "acl_action r \<noteq> ACL_NO_MATCH"
    using le by (auto simp: ACL_NO_MATCH_def)
qed

lemma find_first_append_none:
  "\<forall>y \<in> set ys. \<not> P y \<Longrightarrow> find_first P (xs @ ys) = find_first P xs"
  by (induction xs) (auto simp: find_first_None)

lemma find_first_compact:
  assumes "acl_compact es"
  shows "find_first (rule_matches f) es = find_first (rule_covers f) (filter acl_used es)"
proof -
  obtain zs where zs: "es = filter acl_used es @ zs" "\<forall>e \<in> set zs. \<not> acl_used e"
    using assms by (rule acl_compactE)
  have "find_first (rule_matches f) (filter acl_used es @ zs) = find_first (rule_matches f) (filter acl_used es)"
    using zs(2) by (intro find_first_append_none) (simp add: rule_matches_iff)
  also have "\<dots> = find_first (rule_covers f) (filter acl_used es)"
    by (rule find_first_cong) (simp add: rule_matches_iff)
  finally show ?thesis using zs(1) by metis
qed

lemma compact_nth:
  assumes "acl_compact es" "i < length (filter acl_used es)"
  shows "es ! i = filter acl_used es ! i" "i < length es"
    "filter acl_used (es[i := (es ! i)\<lparr>ae_hit_count := h\<rparr>]) = (filter acl_used es)[i := (filter acl_used es ! i)\<lparr>ae_hit_count := h\<rparr>]"
proof -
  obtain zs where zs: "es = filter acl_used es @ zs" "\<forall>e \<in> set zs. \<not> acl_used e"
    using assms(1) by (rule acl_compactE)
  let ?rs = "filter acl_used es"
  show nth: "es ! i = ?rs ! i"
    by (subst (1) zs(1)) (use assms(2) in \<open>simp only: nth_append if_True\<close>)
  show lt: "i < length es"
    using assms(2) length_filter_le order.strict_trans2 by blast
  have "?rs ! i \<in> set ?rs" using assms(2) by (rule nth_mem)
  then have u: "acl_used (?rs ! i)" by (simp only: set_filter mem_Collect_eq not_False_eq_True)
  have "take i (?rs @ zs) = take i ?rs"
    by (simp only: take_append diff_is_0_eq' [OF less_imp_le [OF assms(2)]] take_0 append_Nil2)
  then have tk: "take i es = take i ?rs" using zs(1) by argo
  have "\<forall>e \<in> set (take i ?rs). acl_used e" by (auto dest: in_set_takeD)
  then have "filter acl_used (take i es) = take i ?rs" unfolding tk by (rule filter_True)
  then have "length (filter acl_used (take i es)) = i" using assms(2) by simp
  with filter_used_hit [OF lt, of h] nth u
  show "filter acl_used (es[i := (es ! i)\<lparr>ae_hit_count := h\<rparr>]) = ?rs[i := (?rs ! i)\<lparr>ae_hit_count := h\<rparr>]"
    by simp
qed

text \<open>The rules after a check: the first covering rule has counted one more hit.\<close>

definition count_hit :: "flow \<Rightarrow> acl_entry_t list \<Rightarrow> acl_entry_t list" where
  "count_hit f rs = (case find_first (rule_covers f) rs of None \<Rightarrow> rs
     | Some i \<Rightarrow> rs[i := (rs ! i)\<lparr>ae_hit_count := ae_hit_count (rs ! i) + 1\<rparr>])"

lemma acl_match_effect:
  assumes inv: "acl_inv s" and n: "n < MAX_ACL_LISTS" and m: "acl_match n f now s = (r, l, t)"
  shows "acl_inv t" "r = verdict (acl_rules n s) f"
    "acl_stats t = (acl_stats s)[n := bump r (acl_stats s ! n)]"
    "acl_rules n t = count_hit f (acl_rules n s)"
    "\<And>k. k \<noteq> n \<Longrightarrow> acl_rules k t = acl_rules k s"
proof -
  note li = acl_inv_list [OF inv n]
  note cp = find_first_compact [OF li(2), of f, folded acl_rules_def]
  show "r = verdict (acl_rules n s) f" using acl_match_result [of n f now s] m by simp
  have all: "acl_inv t \<and> acl_stats t = (acl_stats s)[n := bump r (acl_stats s ! n)] \<and>
    acl_rules n t = count_hit f (acl_rules n s) \<and> (\<forall>k. k \<noteq> n \<longrightarrow> acl_rules k t = acl_rules k s)"
  proof (cases "find_first (rule_covers f) (acl_rules n s)")
    case None
    then have t: "t = s\<lparr>acl_stats := (acl_stats s)[n := bump ACL_NO_MATCH (acl_stats s ! n)]\<rparr>"
      and r: "r = ACL_NO_MATCH"
      using m cp by (auto simp: acl_match_def bump_def)
    show ?thesis
      using inv None unfolding t r
      by (auto simp: acl_inv_def acl_shape_def acl_counted_def acl_tidy_def acl_rules_def count_hit_def)
  next
    case (Some i)
    let ?es = "acl_lists s ! n"
    have il: "i < length (filter acl_used ?es)" "rule_covers f (filter acl_used ?es ! i)"
      using Some by (auto simp: acl_rules_def dest: find_first_SomeD)
    note nth = compact_nth [OF li(2) il(1)]
    have used: "acl_used (?es ! i)"
      using nth(1) nth_mem [OF il(1)] by simp
    let ?h = "ae_hit_count (?es ! i) + 1"
    let ?u = "acl_set_list n (?es[i := (?es ! i)\<lparr>ae_hit_count := ?h\<rparr>]) s"
    have rr: "r = acl_action (?es ! i)" "acl_lists t = acl_lists ?u"
      "acl_stats t = (acl_stats s)[n := bump r (acl_stats s ! n)]"
      "acl_rule_count t = acl_rule_count s" "acl_mutex t = acl_mutex s"
      "length (last_deny_log_time t) = length (last_deny_log_time s)"
      using m Some cp acl_action_range(2) [of "?es ! i"]
      by (auto simp: acl_match_def Let_def bump_def acl_action_bits split: if_splits)
    have fs: "filter acl_used (?es[i := (?es ! i)\<lparr>ae_hit_count := ?h\<rparr>]) = count_hit f (acl_rules n s)"
      using nth(1,3) Some by (simp add: count_hit_def acl_rules_def)
    have len: "length (count_hit f (acl_rules n s)) = length (acl_rules n s)"
      by (simp add: count_hit_def split: option.splits)
    have shape: "acl_shape ?u" "acl_tidy ?u"
      using inv li(1,3) compact_hit [OF li(2) used] premasked_hit [OF li(3)]
      by (simp_all add: acl_inv_def)
    have rules: "acl_rules n t = count_hit f (acl_rules n s)" "\<forall>k. k \<noteq> n \<longrightarrow> acl_rules k t = acl_rules k s"
      using rr(2) n li(5) fs by (simp_all add: acl_rules_def acl_shape_def)
    have "acl_counted t"
      unfolding acl_counted_def
    proof (intro allI impI)
      fix k assume k: "k < MAX_ACL_LISTS"
      show "unat (acl_rule_count t ! k) = length (acl_rules k t)"
        using acl_inv_list(6) [OF inv k] rules len rr(4) by (cases "k = n") simp_all
    qed
    moreover have "acl_shape t" "acl_tidy t"
      using shape rr by (simp_all add: acl_shape_def acl_tidy_def)
    ultimately show ?thesis
      using rules rr(3,5) inv by (simp add: acl_inv_def)
  qed
  show "acl_inv t" "acl_stats t = (acl_stats s)[n := bump r (acl_stats s ! n)]"
    "acl_rules n t = count_hit f (acl_rules n s)" "\<And>k. k \<noteq> n \<Longrightarrow> acl_rules k t = acl_rules k s"
    using all by simp_all
qed

end
