(* ===== verification/Acl_Theorems.thy ===== *)
theory Acl_Theorems
  imports Acl_Filter
begin

text \<open>
  The firewall as a whole: its reachable states, its refinement of bounded rule lists,
  and the decisions it takes on packets.
\<close>

section \<open>Reachable states\<close>

text \<open>
  Any interleaving of the component's entry points.  Each runs under the mutex, so a
  step is one whole call.
\<close>

inductive acl_step :: "acl_state \<Rightarrow> acl_state \<Rightarrow> bool" where
  init: "acl_init created s = Some t \<Longrightarrow> acl_step s t"
| add: "acl_add n src sm dst dm pr sp dp al s = Some (b, t) \<Longrightarrow> acl_step s t"
| delete: "acl_delete n i s = Some (b, t) \<Longrightarrow> acl_step s t"
| clear: "acl_clear n s = Some t \<Longrightarrow> acl_step s t"
| clear_stats: "acl_clear_stats n s = Some t \<Longrightarrow> acl_step s t"
| recount: "acl_recount n s = Some t \<Longrightarrow> acl_step s t"
| check: "acl_check_packet n p now s = Some (r, l, t) \<Longrightarrow> acl_step s t"

inductive acl_reachable :: "acl_state \<Rightarrow> bool" where
  boot: "acl_reachable acl_boot"
| step: "acl_reachable s \<Longrightarrow> acl_step s t \<Longrightarrow> acl_reachable t"

lemma acl_boot_inv: "acl_inv acl_boot"
  by (auto simp: acl_inv_defs acl_boot_def acl_rules_def)

lemma acl_init_inv: "acl_inv s \<Longrightarrow> acl_init created s = Some t \<Longrightarrow> acl_inv t"
  by (auto simp: acl_inv_defs acl_init_def acl_rules_def split: if_splits)

lemma acl_recount_inv:
  assumes "acl_inv s" "acl_recount n s = Some t"
  shows "acl_inv t"
proof (cases "n < MAX_ACL_LISTS")
  case True
  note l = acl_inv_list [OF assms(1) True]
  have "length (acl_rules n s) < 256"
    using acl_rules_le [OF l(5) True] by (simp add: MAX_ACL_ENTRIES_def)
  then have "unat (count_valid (acl_lists s ! n) 0) = length (acl_rules n s)"
    by (simp add: count_valid_eq unat_of_nat acl_rules_def)
  moreover have "t = acl_set_count n (count_valid (acl_lists s ! n) 0) s"
    using assms(2) l(4) True by (simp add: acl_recount_free)
  ultimately show ?thesis
    using assms(1) True by (auto simp: acl_inv_def acl_counted_def acl_shape_def nth_list_update)
next
  case False
  with assms show ?thesis by (simp add: acl_recount_def)
qed

lemma clear_hits_list:
  "filter acl_used (map (\<lambda>e. e\<lparr>ae_hit_count := 0\<rparr>) es) = map (\<lambda>e. e\<lparr>ae_hit_count := 0\<rparr>) (filter acl_used es)"
  "acl_compact es \<Longrightarrow> acl_compact (map (\<lambda>e. e\<lparr>ae_hit_count := 0\<rparr>) es)"
  "acl_premasked es \<Longrightarrow> acl_premasked (map (\<lambda>e. e\<lparr>ae_hit_count := 0\<rparr>) es)"
proof -
  show *: "filter acl_used (map (\<lambda>e. e\<lparr>ae_hit_count := 0\<rparr>) es)
      = map (\<lambda>e. e\<lparr>ae_hit_count := 0\<rparr>) (filter acl_used es)"
    by (simp add: filter_map comp_def)
  show "acl_compact (map (\<lambda>e. e\<lparr>ae_hit_count := 0\<rparr>) es)" if "acl_compact es"
  proof -
    have "map (\<lambda>e. e\<lparr>ae_hit_count := 0\<rparr>) (filter acl_used es @ filter (\<lambda>e. \<not> acl_used e) es)
        = map (\<lambda>e. e\<lparr>ae_hit_count := 0\<rparr>) es"
      using that by (simp only: acl_compact_def)
    then show ?thesis by (simp add: acl_compact_def filter_map comp_def)
  qed
  show "acl_premasked es \<Longrightarrow> acl_premasked (map (\<lambda>e. e\<lparr>ae_hit_count := 0\<rparr>) es)"
    by (auto simp: acl_premasked_def)
qed

lemma acl_clear_stats_inv:
  assumes "acl_inv s" "acl_clear_stats n s = Some t"
  shows "acl_inv t"
proof (cases "n < MAX_ACL_LISTS")
  case True
  note l = acl_inv_list [OF assms(1) True]
  let ?es = "map (\<lambda>e. e\<lparr>ae_hit_count := 0\<rparr>) (acl_lists s ! n)"
  let ?u = "s\<lparr>acl_stats := (acl_stats s)[n := acl_zero_stats]\<rparr>"
  have u: "acl_inv ?u" using assms(1) by (simp add: acl_inv_defs acl_rules_def)
  have t: "t = acl_set_list n ?es ?u"
    using assms(2) l(4) True by (simp add: acl_clear_stats_free)
  have "acl_set_count n (acl_rule_count s ! n) t = t"
    by (simp add: t acl_set_count_def acl_set_list_def)
  moreover have "acl_inv (acl_set_count n (acl_rule_count s ! n) t)"
    unfolding t using l by (intro acl_inv_replace [OF u True])
      (simp_all add: clear_hits_list acl_rules_def)
  ultimately show ?thesis by simp
next
  case False
  with assms show ?thesis by (simp add: acl_clear_stats_def)
qed

lemma acl_check_inv:
  assumes "acl_inv s" "acl_check_packet n p now s = Some (r, l, t)"
  shows "acl_inv t"
proof (cases "\<exists>pb f. p = Some pb \<and> n < MAX_ACL_LISTS \<and> acl_parse (payload pb) = Some (Some f)")
  case True
  then obtain pb f where pf: "p = Some pb" "n < MAX_ACL_LISTS" "acl_parse (payload pb) = Some (Some f)"
    by blast
  obtain r' l' t' where m: "acl_match n f now s = (r', l', t')" by (cases "acl_match n f now s") auto
  have "t = t'"
    using acl_check_free [OF acl_inv_list(4) [OF assms(1) pf(2)] pf(2,3) m] assms(2) pf(1) by simp
  then show ?thesis using acl_match_effect(1) [OF assms(1) pf(2) m] by simp
next
  case False
  then have "t = s"
    using assms(2)
    by (auto simp: acl_check_packet_def bind_eq_Some_conv split: option.splits if_splits)
  with assms show ?thesis by simp
qed

lemma acl_step_inv: "acl_step s t \<Longrightarrow> acl_inv s \<Longrightarrow> acl_inv t"
proof (induction rule: acl_step.induct)
  case (add n src sm dst dm pr sp dp al s b t)
  then show ?case using acl_add_law [of s n src sm dst dm pr sp dp al] by auto
next
  case (delete n i s b t)
  then show ?case using acl_delete_law [of s n i] by auto
next
  case (clear n s t)
  then show ?case using acl_clear_law [of s n] by auto
qed (auto intro: acl_init_inv acl_recount_inv acl_clear_stats_inv acl_check_inv)

section \<open>Properties\<close>

text \<open>
  C1: In every state the firewall can reach by any sequence of calls, the lock is free,
  each list's rules occupy its first slots with no gap, every rule's addresses are masked
  by its masks, and the lock-free counter the packet path reads is the number of rules.
\<close>

theorem acl_reachable_inv: "acl_reachable s \<Longrightarrow> acl_inv s"
proof (induction rule: acl_reachable.induct)
  case boot
  show ?case by (rule acl_boot_inv)
next
  case (step s t)
  then show ?case by (blast intro: acl_step_inv)
qed


theorem acl_reachable_inv_witness:
  "\<exists>t. acl_delete 2 0 (the (map_option snd (acl_add 2 5 7 0 0 6 0 80 0 (the (acl_init True acl_boot)))))
     = Some (True, t) \<and> acl_inv t"
proof -
  let ?s0 = "the (acl_init True acl_boot)"
  let ?s1 = "the (map_option snd (acl_add 2 5 7 0 0 6 0 80 0 ?s0))"
  have 0: "acl_reachable ?s0"
    by (rule acl_reachable.step [OF acl_reachable.boot acl_step.init])
      (simp add: acl_init_def acl_boot_def)
  have "\<exists>t. acl_add 2 5 7 0 0 6 0 80 0 ?s0 = Some (True, t) \<and> acl_rules 2 t = [acl_new_entry 5 7 0 0 6 0 80 0]"
  proof -
    have "acl_rules 2 ?s0 = []"
      by (simp add: acl_rules_def acl_init_def acl_boot_def MAX_ACL_LISTS_def)
    then show ?thesis
      using acl_add_law [OF acl_reachable_inv [OF 0], of 2 5 7 0 0 6 0 80 0] by (auto simp: acl_consts)
  qed
  then have 1: "acl_reachable ?s1" and r: "length (acl_rules 2 ?s1) = 1"
    by (auto intro: acl_reachable.step [OF 0 acl_step.add])
  obtain t where t: "acl_delete 2 0 ?s1 = Some (True, t)"
    using acl_delete_law [OF acl_reachable_inv [OF 1], of 2 0] r by (auto simp: acl_consts)
  have "acl_reachable t" by (rule acl_reachable.step [OF 1 acl_step.delete [OF t]])
  with t show ?thesis using acl_reachable_inv by blast
qed

text \<open>
  C2: Adding, deleting and clearing rules on the slot arrays gives the same answers and
  the same four rule lists as on plain lists of at most sixteen rules: additions append
  (masked), deletions remove exactly the chosen rule and keep the order of the others,
  a full list, a bad index or a bad list number is refused and changes nothing.
\<close>

theorem acl_store_refinement:
  assumes "acl_inv s" and "\<forall>m < MAX_ACL_LISTS. f m = acl_rules m s"
  shows "\<exists>t. store_run acl_add_rule acl_delete acl_clear_list s xs
      = Some (fst (spec_store_run MAX_ACL_LISTS MAX_ACL_ENTRIES acl_stored f xs), t) \<and> acl_inv t \<and>
    (\<forall>m < MAX_ACL_LISTS. snd (spec_store_run MAX_ACL_LISTS MAX_ACL_ENTRIES acl_stored f xs) m = acl_rules m t)"
  using assms by (rule fw.run_simulates)

theorem acl_store_refinement_witness:
  "\<exists>t. store_run acl_add_rule acl_delete acl_clear_list acl_boot
      [StoreAdd 1 acl_zero_entry, StoreAdd 9 acl_zero_entry, StoreDel 1 0, StoreDel 1 0]
      = Some ([True, False, True, False], t) \<and> acl_rules 1 t = []"
  using acl_store_refinement [OF acl_boot_inv, of "\<lambda>_. []"
      "[StoreAdd 1 acl_zero_entry, StoreAdd 9 acl_zero_entry, StoreDel 1 0, StoreDel 1 0]"]
  by (auto simp: acl_rules_def acl_boot_def acl_consts)

text \<open>
  C3: For a packet that parses as IPv4, the verdict is that of the first rule of the list
  that covers its protocol, addresses and ports (or "no match"), exactly one of the three
  statistics counters of that list moves, only the deciding rule counts a hit, and the
  other lists are untouched.
\<close>

theorem acl_check_first_match:
  assumes "acl_inv s" and "n < MAX_ACL_LISTS" and "acl_parse (payload pb) = Some (Some f)"
  shows "\<exists>l t. acl_check_packet n (Some pb) now s = Some (verdict (acl_rules n s) f, l, t) \<and> acl_inv t \<and>
    acl_stats t = (acl_stats s)[n := bump (verdict (acl_rules n s) f) (acl_stats s ! n)] \<and>
    acl_rules n t = count_hit f (acl_rules n s) \<and> (\<forall>k. k \<noteq> n \<longrightarrow> acl_rules k t = acl_rules k s)"
proof -
  obtain r l t where m: "acl_match n f now s = (r, l, t)" by (cases "acl_match n f now s") auto
  note e = acl_match_effect [OF assms(1,2) m]
  show ?thesis
    using acl_check_free [OF acl_inv_list(4) [OF assms(1,2)] assms(2,3) m] e by auto
qed

definition sample_ip_packet :: bytes where
  "sample_ip_packet = [0x45, 0, 0, 40, 0, 0, 0, 0, 64, 6, 0, 0, 192, 168, 4, 2, 8, 8, 8, 8,
     0x30, 0x39, 0, 80, 0, 0, 0, 0, 0, 0, 0, 0, 0x50, 0x02, 0, 0, 0, 0, 0, 0]"

definition sample_flow :: flow where
  "sample_flow = \<lparr>f_src = 0x0204A8C0, f_dest = 0x08080808, f_proto = 6, f_src_port = 12345, f_dst_port = 80\<rparr>"

lemma sample_parse: "acl_parse sample_ip_packet = Some (Some sample_flow)"
  by code_simp

theorem acl_check_first_match_witness:
  "\<exists>l t. acl_check_packet 3 (Some \<lparr>payload = sample_ip_packet, tot_len = 40\<rparr>) 0 acl_boot
     = Some (ACL_NO_MATCH, l, t) \<and> packets_nomatch (acl_stats t ! 3) = 1"
proof -
  have "acl_rules 3 acl_boot = []" by (simp add: acl_rules_def acl_boot_def MAX_ACL_LISTS_def)
  then show ?thesis
    using acl_check_first_match [OF acl_boot_inv, of 3 "\<lparr>payload = sample_ip_packet, tot_len = 40\<rparr>" sample_flow 0]
    by (auto simp: sample_parse MAX_ACL_LISTS_def verdict_def first_rule_def bump_def acl_boot_def acl_zero_stats_def)
qed

lemma acl_parse_none: "\<forall>f. acl_parse pl \<noteq> Some (Some f) \<Longrightarrow> acl_parse pl = Some None"
  using acl_parse_total [of pl] by (metis option.exhaust)

text \<open>
  Whatever bytes arrive, in whatever state the tables are, a packet check reads no byte
  outside the first segment, does not block (the mutex being free on entry) and leaves
  the mutex as it found it.
\<close>

theorem acl_check_total:
  assumes "acl_mutex s \<noteq> MutexHeld"
  shows "\<exists>r l t. acl_check_packet n p now s = Some (r, l, t) \<and> acl_mutex t = acl_mutex s"
proof (cases "\<exists>pb f. p = Some pb \<and> n < MAX_ACL_LISTS \<and> acl_parse (payload pb) = Some (Some f)")
  case True
  then obtain pb f where pf: "p = Some pb" "n < MAX_ACL_LISTS" "acl_parse (payload pb) = Some (Some f)"
    by blast
  obtain r l t where m: "acl_match n f now s = (r, l, t)" by (cases "acl_match n f now s") auto
  show ?thesis
    using acl_check_free [OF assms pf(2,3) m] acl_match_mutex [OF m] pf(1) by auto
next
  case False
  then have "acl_check_packet n p now s = Some (ACL_NO_MATCH, None, s)"
  proof (cases p)
    case (Some pb)
    with False have "n < MAX_ACL_LISTS \<longrightarrow> acl_parse (payload pb) = Some None"
      using acl_parse_none by blast
    with Some show ?thesis by (simp add: acl_check_packet_def)
  qed (simp add: acl_check_packet_def)
  then show ?thesis by simp
qed

theorem acl_check_total_witness:
  "\<exists>r l t. acl_check_packet 0 (Some \<lparr>payload = [0x45], tot_len = 1\<rparr>) 0 acl_boot = Some (r, l, t)
     \<and> acl_mutex t = MutexNull"
  using acl_check_total [of acl_boot 0 "Some \<lparr>payload = [0x45], tot_len = 1\<rparr>" 0]
  by (simp add: acl_boot_def)

section \<open>Ethernet frames and raw packets\<close>

lemma rd8_append: "length xs = k \<Longrightarrow> rd8 (xs @ ys) (k + i) = rd8 ys i"
  by (auto simp: rd8_def nth_append)

lemma rd16_append:
  assumes "length xs = k"
  shows "rd16 (xs @ ys) (k + i) = rd16 ys i"
  by (simp only: rd16_def add.assoc rd8_append [OF assms])

lemma rd32_append:
  assumes "length xs = k"
  shows "rd32 (xs @ ys) (k + i) = rd32 ys i"
  by (simp only: rd32_def add.assoc rd8_append [OF assms])

lemma acl_ports_append:
  assumes "length eh = k"
  shows "acl_ports (eh @ ip) k pr hl = acl_ports ip 0 pr hl"
proof -
  have "length (eh @ ip) \<ge> k + (hl + c) \<longleftrightarrow> length ip \<ge> hl + c" for c using assms by simp
  then show ?thesis
    unfolding acl_ports_def add.assoc add_0 rd16_append [OF assms] by simp
qed

lemma acl_parse_at_append:
  assumes "length eh = k"
  shows "acl_parse_at (eh @ ip) k = acl_parse_at ip 0"
proof -
  have r: "rd8 (eh @ ip) k = rd8 ip 0" using rd8_append [OF assms, of ip 0] by simp
  have l: "length (eh @ ip) < k + 20 \<longleftrightarrow> length ip < 0 + 20" using assms by simp
  show ?thesis
    unfolding acl_parse_at_def r l rd8_append [OF assms] rd32_append [OF assms] acl_ports_append [OF assms] add_0
    by (rule refl)
qed

text \<open>
  The same IPv4 packet is classified the same whether it arrives as an Ethernet frame
  or raw from the PPP link, provided the first octet of the frame's destination address
  does not start with the digit 4 or 6 (see C6 for that case).
\<close>

theorem acl_link_independent:
  assumes "length da = 6" and "length sa = 6"
    and "drop_bit 4 (da ! 0) \<noteq> 4" and "drop_bit 4 (da ! 0) \<noteq> 6"
    and "ip \<noteq> []" and "drop_bit 4 (ip ! 0) = 4" and "5 \<le> ip ! 0 AND 0x0F"
  shows "acl_parse (da @ sa @ [0x08, 0x00] @ ip) = acl_parse ip"
proof -
  let ?f = "da @ sa @ [0x08, 0x00] @ ip"
  have et: "be16 0x08 0x00 = ETH_TYPE_IPV4" by (simp add: be16_def ETH_TYPE_IPV4_def)
  have b: "rd8 ?f 0 = Some (da ! 0)" "rd8 ?f 12 = Some 0x08" "rd8 ?f 13 = Some 0x00"
    using assms(1,2) by (auto simp: rd8_def nth_append)
  have "acl_ip_offset ?f = Some (Some 14)"
    using assms b et by (simp add: acl_ip_offset_def acl_eth_offset_def ETH_HEADER_LEN_def)
  then have "acl_parse ?f = acl_parse_at ((da @ sa @ [0x08, 0x00]) @ ip) 14"
    by (simp add: acl_parse_def)
  also have "\<dots> = acl_parse_at ip 0"
    using assms(1,2) by (intro acl_parse_at_append) simp
  also have "\<dots> = acl_parse ip"
  proof -
    have "rd8 ip 0 = Some (ip ! 0)" using assms(5) by (simp add: rd8_def)
    moreover have "ip ! 0 AND 0x0F \<le> 15" by (rule word_and_le1)
    ultimately have "acl_ip_offset ip = Some (Some 0)"
      using assms(5-7) by (cases ip) (simp_all add: acl_ip_offset_def)
    then show ?thesis by (simp add: acl_parse_def)
  qed
  finally show ?thesis .
qed

theorem acl_link_independent_witness:
  "acl_parse ([0x02, 1, 2, 3, 4, 5] @ [0x0A, 1, 2, 3, 4, 5] @ [0x08, 0x00] @ sample_ip_packet)
     = Some (Some sample_flow)"
  using acl_link_independent [of "[0x02, 1, 2, 3, 4, 5]" "[0x0A, 1, 2, 3, 4, 5]" sample_ip_packet]
  by (simp add: sample_parse) (simp add: sample_ip_packet_def)

text \<open>
  An Ethernet frame whose destination address starts with an octet 0x60..0x6F is taken
  for raw IPv6 and passed without looking at any rule, whatever the list says and whatever
  the frame carries: neither the verdict nor the statistics see it.
\<close>

theorem acl_mac_prefix_bypass:
  assumes "length da = 6" and "drop_bit 4 (da ! 0) = 6"
  shows "acl_check_packet n (Some \<lparr>payload = da @ rest, tot_len = len\<rparr>) now s = Some (ACL_NO_MATCH, None, s)"
proof -
  have "rd8 (da @ rest) 0 = Some (da ! 0)" using assms(1) by (auto simp: rd8_def nth_append)
  then have "acl_ip_offset (da @ rest) = Some None"
    using assms by (simp add: acl_ip_offset_def)
  then have "acl_parse (da @ rest) = Some None" by (simp add: acl_parse_def)
  then show ?thesis by (simp add: acl_check_packet_def)
qed

theorem acl_mac_prefix_bypass_witness:
  "acl_check_packet 3 (Some \<lparr>payload = [0x60, 0x55, 0xF9, 1, 2, 3]
       @ [0x0A, 1, 2, 3, 4, 5, 0x08, 0x00] @ sample_ip_packet, tot_len = 54\<rparr>) 0 acl_boot
     = Some (ACL_NO_MATCH, None, acl_boot)"
  by (rule acl_mac_prefix_bypass) simp_all

section \<open>The rate of denial logs\<close>

text \<open>Checks of one list at given times; the result is the times at which a line was logged.\<close>

fun acl_check_run :: "nat \<Rightarrow> (pbuf option \<times> int) list \<Rightarrow> acl_state \<Rightarrow> int list option" where
  "acl_check_run n [] s = Some []"
| "acl_check_run n ((p, now) # ps) s = do {
     (r, l, t) \<leftarrow> acl_check_packet n p now s;
     ts \<leftarrow> acl_check_run n ps t;
     Some (if l = None then ts else now # ts) }"

lemma acl_match_log:
  assumes "acl_match n f now s = (r, l, t)" "n < length (last_deny_log_time s)"
  shows "if l = None then last_deny_log_time t = last_deny_log_time s
     else now - last_deny_log_time s ! n \<ge> ACL_LOG_INTERVAL_US \<and> last_deny_log_time t ! n = now"
  using assms by (auto simp: acl_match_def Let_def split: option.splits if_splits)

lemma acl_check_log:
  assumes "acl_inv s" "acl_check_packet n p now s = Some (r, l, t)" "n < MAX_ACL_LISTS"
  shows "if l = None then last_deny_log_time t = last_deny_log_time s
     else now - last_deny_log_time s ! n \<ge> ACL_LOG_INTERVAL_US \<and> last_deny_log_time t ! n = now"
proof (cases "\<exists>pb f. p = Some pb \<and> acl_parse (payload pb) = Some (Some f)")
  case True
  then obtain pb f where pf: "p = Some pb" "acl_parse (payload pb) = Some (Some f)" by blast
  obtain r' l' t' where m: "acl_match n f now s = (r', l', t')" by (cases "acl_match n f now s") auto
  have len: "n < length (last_deny_log_time s)" using assms(1,3) by (simp add: acl_inv_defs)
  show ?thesis
    using acl_check_free [OF acl_inv_list(4) [OF assms(1,3)] assms(3) pf(2) m]
      acl_match_log [OF m len] assms(2) pf(1) by (auto split: if_splits)
next
  case False
  then show ?thesis
    using assms(2)
    by (auto simp: acl_check_packet_def bind_eq_Some_conv split: option.splits if_splits)
qed

text \<open>
  However fast packets are denied on a list, two lines logged for that list are at
  least half a second apart, and the first is half a second after the previous one.
\<close>

theorem acl_log_rate:
  assumes "acl_inv s" and "n < MAX_ACL_LISTS"
  shows "\<exists>ts. acl_check_run n ps s = Some ts \<and>
    successively (\<lambda>a b. b - a \<ge> ACL_LOG_INTERVAL_US) (last_deny_log_time s ! n # ts)"
  using assms(1)
proof (induction ps arbitrary: s)
  case Nil
  then show ?case by simp
next
  case (Cons x ps)
  obtain p now where x: "x = (p, now)" by (cases x)
  obtain r l t where c: "acl_check_packet n p now s = Some (r, l, t)"
    using acl_check_total acl_inv_list(4) [OF Cons.prems assms(2)] by blast
  obtain ts where ts: "acl_check_run n ps t = Some ts"
    "successively (\<lambda>a b. b - a \<ge> ACL_LOG_INTERVAL_US) (last_deny_log_time t ! n # ts)"
    using Cons.IH [OF acl_check_inv [OF Cons.prems c]] by blast
  show ?case
    using acl_check_log [OF Cons.prems c assms(2)] ts c
    by (cases "l = None") (auto simp: x)
qed

theorem acl_log_rate_witness:
  "\<exists>ts. acl_check_run 3 [(Some \<lparr>payload = sample_ip_packet, tot_len = 40\<rparr>, 7), (None, 8)] acl_boot = Some ts
     \<and> successively (\<lambda>a b. b - a \<ge> ACL_LOG_INTERVAL_US) (0 # ts)"
  using acl_log_rate [OF acl_boot_inv, of 3 "[(Some \<lparr>payload = sample_ip_packet, tot_len = 40\<rparr>, 7), (None, 8)]"]
  by (simp add: MAX_ACL_LISTS_def acl_boot_def)

end
