(* ===== verification/Acl_Text.thy ===== *)
theory Acl_Text
  imports Acl_Rules
begin

text \<open>
  The textual forms of the firewall (\<open>components/acl/acl.c\<close>): list names, dotted-quad
  addresses with CIDR suffix, and the table \<open>acl_print\<close> writes.
\<close>

section \<open>List names\<close>

definition acl_names :: "string list" where
  "acl_names = [''to_esp'', ''from_esp'', ''to_ap'', ''from_ap'']"

definition acl_desc :: "string list" where
  "acl_desc = [''Internet -> ESP (to_esp)'', ''ESP -> Internet (from_esp)'',
     ''Clients -> ESP (to_ap)'', ''ESP -> Clients (from_ap)'']"

definition acl_get_name :: "nat \<Rightarrow> string" where
  "acl_get_name acl_no = (if acl_no \<ge> MAX_ACL_LISTS then ''unknown'' else acl_names ! acl_no)"

definition acl_get_desc :: "nat \<Rightarrow> string" where
  "acl_get_desc acl_no = (if acl_no \<ge> MAX_ACL_LISTS then ''unknown'' else acl_desc ! acl_no)"

definition acl_parse_name :: "string option \<Rightarrow> int" where
  "acl_parse_name name = (case name of None \<Rightarrow> -1
     | Some s \<Rightarrow> (case find_first (strcaseeq s) acl_names of Some i \<Rightarrow> int i | None \<Rightarrow> -1))"

section \<open>Addresses\<close>

text \<open>\<open>count_bits\<close>: the loop on \<open>m = ntohl(msk)\<close>.\<close>

function count_ones :: "u32 \<Rightarrow> nat \<Rightarrow> nat" where
  "count_ones m count = (if m = 0 then count else count_ones (drop_bit 1 m) (count + unat (m AND 1)))"
  by pat_completeness auto
termination
proof (relation "measure (\<lambda>(m, c). unat m)")
  fix m :: u32 and count :: nat
  assume "m \<noteq> 0"
  then have "unat m div 2 < unat m" by (intro div_less_dividend) (simp_all add: unat_gt_0)
  then show "((drop_bit 1 m, count + unat (m AND 1)), m, count) \<in> measure (\<lambda>(m, c). unat m)"
    by (simp add: unat_div drop_bit_eq_div)
qed simp

declare count_ones.simps [simp del]

definition count_bits :: "u32 \<Rightarrow> nat" where
  "count_bits msk = count_ones (ntohl msk) 0"

text \<open>\<open>IPSTR\<close> with \<open>IP2STR\<close>: the four bytes of the address in memory order.\<close>

definition ipstr :: "u32 \<Rightarrow> string" where
  "ipstr ip = dec_string (unat (byte_of 0 ip)) @ ''.'' @ dec_string (unat (byte_of 1 ip)) @ ''.''
     @ dec_string (unat (byte_of 2 ip)) @ ''.'' @ dec_string (unat (byte_of 3 ip))"

text \<open>\<open>snprintf\<close> into a buffer of \<open>buf_len > 0\<close> bytes; \<open>None\<close>: nothing was written.\<close>

definition acl_format_ip :: "u32 \<Rightarrow> u32 \<Rightarrow> nat \<Rightarrow> string option" where
  "acl_format_ip ip msk buf_len =
     (if buf_len = 0 then None
      else if ip = 0 \<and> msk = 0 then Some (strncpy_trunc buf_len ''any'')
      else if msk = 0xFFFFFFFF then Some (strncpy_trunc buf_len (ipstr ip))
      else Some (strncpy_trunc buf_len (ipstr ip @ ''/'' @ dec_string (count_bits msk))))"

text \<open>
  \<open>acl_parse_ip\<close>; \<open>aton\<close> is lwIP's \<open>ip4addr_aton\<close>.  The result pair is (address, msk);
  \<open>None\<close> is the return value \<open>false\<close>.
\<close>

definition acl_parse_ip :: "(string \<Rightarrow> u32 option) \<Rightarrow> string option \<Rightarrow> (u32 \<times> u32) option" where
  "acl_parse_ip aton str = (case str of None \<Rightarrow> None
     | Some s \<Rightarrow>
        if strcaseeq s ''any'' then Some (0, 0)
        else
          let ip_str = strncpy_trunc 32 s;
              before = takeWhile (\<lambda>c. c \<noteq> CHR ''/'') ip_str;
              slash = dropWhile (\<lambda>c. c \<noteq> CHR ''/'') ip_str;
              cidr = (if slash = [] then 32 else atoi (tl slash))
          in if cidr < 0 \<or> cidr > 32 then None
             else case aton before of None \<Rightarrow> None
             | Some addr \<Rightarrow>
                 let msk = (if cidr = 0 then 0 else htonl (push_bit (nat (32 - cidr)) 0xFFFFFFFF))
                 in Some (addr AND msk, msk))"

section \<open>The printed table\<close>

record acl_row =
  row_idx :: nat
  row_proto :: string
  row_src :: string
  row_dest :: string
  row_s_port :: string
  row_d_port :: string
  row_action :: string
  row_hits :: u32

definition proto_str :: "u8 \<Rightarrow> string" where
  "proto_str p = (if p = 0 then ''IP'' else if p = 1 then ''ICMP'' else if p = 6 then ''TCP''
     else if p = 17 then ''UDP'' else ''?'')"

definition port_str :: "u16 \<Rightarrow> string" where
  "port_str p = (if p = 0 then ''*'' else strncpy_trunc 8 (dec_string (unat p)))"

definition action_str :: "u8 \<Rightarrow> string" where
  "action_str allow =
     (let monitor = allow AND ACL_MONITOR in
      if allow AND 0x01 = ACL_ALLOW then (if monitor \<noteq> 0 then ''allow+M'' else ''allow'')
      else (if monitor \<noteq> 0 then ''deny+M'' else ''deny''))"

definition acl_print_row :: "nat \<Rightarrow> acl_entry_t \<Rightarrow> acl_row" where
  "acl_print_row i r = \<lparr>row_idx = i, row_proto = proto_str (ae_proto r),
     row_src = the (acl_format_ip (ae_src r) (ae_s_mask r) 24),
     row_dest = the (acl_format_ip (ae_dest r) (ae_d_mask r) 24),
     row_s_port = port_str (ae_s_port r), row_d_port = port_str (ae_d_port r),
     row_action = action_str (ae_allow r), row_hits = ae_hit_count r\<rparr>"

datatype acl_printed =
    PrintInvalid
  | PrintEmpty string acl_stats_t
  | PrintTable string acl_stats_t "acl_row list"

definition acl_print :: "nat \<Rightarrow> acl_state \<Rightarrow> (acl_printed \<times> acl_state) option" where
  "acl_print acl_no s =
     (if acl_no \<ge> MAX_ACL_LISTS then Some (PrintInvalid, s)
      else do { s \<leftarrow> acl_lock s;
        let es = acl_lists s ! acl_no; st = acl_stats s ! acl_no in
        if \<not> (\<exists>r \<in> set es. acl_used r) then Some (PrintEmpty (acl_names ! acl_no) st, acl_unlock s)
        else Some (PrintTable (acl_names ! acl_no) st
               (map (\<lambda>i. acl_print_row i (es ! i)) (filter (\<lambda>i. acl_used (es ! i)) [0..<MAX_ACL_ENTRIES])),
             acl_unlock s) })"

section \<open>Decimal numerals\<close>

lemma dec_string_step:
  "dec_string n = (if n < 10 then [char_of (48 + n)] else dec_string (n div 10) @ [char_of (48 + n mod 10)])"
  by (rule dec_string.simps)

lemma digit_char: "d < 10 \<Longrightarrow> is_digit (char_of (48 + d)) \<and> digit_val (char_of (48 + d)) = d"
  by (simp add: is_digit_def digit_val_def)

lemma dec_string_digits: "\<forall>c \<in> set (dec_string n). is_digit c"
proof (induction n rule: dec_string.induct)
  case (1 n)
  then show ?case
    using digit_char [of n] digit_char [of "n mod 10"] by (subst dec_string_step) auto
qed

lemma dec_val_snoc: "dec_val (s @ [c]) = 10 * dec_val s + digit_val c"
  by (simp add: dec_val_def)

lemma dec_val_dec_string: "dec_val (dec_string n) = n"
proof (induction n rule: dec_string.induct)
  case (1 n)
  then show ?case
    using digit_char [of n] digit_char [of "n mod 10"]
    by (subst dec_string_step) (auto simp: dec_val_snoc, simp add: dec_val_def)
qed

lemma dec_string_nonempty: "dec_string n \<noteq> []"
  by (subst dec_string_step) simp

lemma dec_string_length: "n < 1000 \<Longrightarrow> length (dec_string n) \<le> 3"
  by (subst dec_string_step, subst dec_string_step, subst dec_string_step) auto

lemma digit_not:
  "is_digit c \<Longrightarrow> c \<noteq> CHR ''/'' \<and> c \<noteq> CHR ''-'' \<and> c \<noteq> CHR ''+'' \<and> \<not> is_space c \<and> c \<noteq> CHR ''a'' \<and> c \<noteq> CHR ''A''"
  by (auto simp: is_digit_def is_space_def)

lemma atoi_dec_string: "atoi (dec_string n) = int n"
proof -
  obtain c r where cr: "dec_string n = c # r" using dec_string_nonempty by (cases "dec_string n") auto
  then have "is_digit c" using dec_string_digits [of n] by simp
  have tw: "takeWhile is_digit r = r"
    using dec_string_digits [of n] cr by (simp add: takeWhile_eq_all_conv)
  show ?thesis
    using digit_not [of c] cr dec_val_dec_string [of n] \<open>is_digit c\<close>
    by (simp add: atoi_def tw)
qed

section \<open>Masks and round trips\<close>

text \<open>The mask of a CIDR suffix, in network order.\<close>

definition cidr_mask :: "nat \<Rightarrow> u32" where
  "cidr_mask c = (if c = 0 then 0 else htonl (push_bit (32 - c) 0xFFFFFFFF))"

lemma count_ones_card: "count_ones m a = a + card {n. bit m n}"
proof (induction m a rule: count_ones.induct)
  case (1 m a)
  show ?case
  proof (cases "m = 0")
    case True
    then show ?thesis by (simp add: count_ones.simps)
  next
    case False
    have fin: "finite {n. bit (drop_bit 1 m) n}"
      by (rule finite_subset [of _ "{..<32}"]) (auto dest: bit_imp_le_length)
    have set: "{n. bit m n} = (if bit m 0 then {0} else {}) \<union> Suc ` {n. bit (drop_bit 1 m) n}"
    proof (rule set_eqI)
      fix n show "n \<in> {n. bit m n} \<longleftrightarrow> n \<in> (if bit m 0 then {0} else {}) \<union> Suc ` {n. bit (drop_bit 1 m) n}"
        by (cases n) (auto simp: bit_drop_bit_eq)
    qed
    have "card {n. bit m n} = (if bit m 0 then 1 else 0) + card {n. bit (drop_bit 1 m) n}"
      unfolding set using fin by (auto simp: card_image card_insert_if)
    moreover have "unat (m AND 1) = (if bit m 0 then 1 else 0)"
      by (simp add: and_one_eq odd_iff_mod_2_eq_one bit_0)
    ultimately show ?thesis
      using 1 [OF False] False by (subst count_ones.simps) simp
  qed
qed

lemma count_ones_mask:
  assumes "c \<le> 32"
  shows "count_ones (push_bit (32 - c) 0xFFFFFFFF) 0 = c"
proof -
  have ff: "(0xFFFFFFFF :: u32) = - 1" by simp
  have "{n. bit (push_bit (32 - c) (- 1) :: u32) n} = {32 - c..<32}"
    by (auto simp: bit_not_iff bit_mask_iff dest: bit_imp_le_length)
  then show ?thesis unfolding ff count_ones_card using assms by simp
qed

lemma count_bits_cidr: "c \<le> 32 \<Longrightarrow> count_bits (cidr_mask c) = c"
  using count_ones_mask [of c]
  by (cases "c = 0") (auto simp: count_bits_def cidr_mask_def count_ones.simps [of 0])

lemma count_bits_full: "count_bits 0xFFFFFFFF = 32"
  using count_bits_cidr [of 32] by (simp add: cidr_mask_def)

lemma ipstr_props:
  "CHR ''/'' \<notin> set (ipstr ip)" "length (ipstr ip) \<le> 15" "\<exists>c r. ipstr ip = c # r \<and> is_digit c"
proof -
  have d: "CHR ''/'' \<notin> set (dec_string n)" for n
    using dec_string_digits [of n] digit_not by blast
  then show "CHR ''/'' \<notin> set (ipstr ip)" by (simp add: ipstr_def)
  have "unat (byte_of i ip) < 256" for i
    using unsigned_less [of "byte_of i ip"] by simp
  then have "unat (byte_of i ip) < 1000" for i
    by (rule less_trans) simp
  then have "length (dec_string (unat (byte_of i ip))) \<le> 3" for i
    by (rule dec_string_length)
  from this [of 0] this [of 1] this [of 2] this [of 3] show "length (ipstr ip) \<le> 15"
    by (simp add: ipstr_def)
  show "\<exists>c r. ipstr ip = c # r \<and> is_digit c"
    using dec_string_nonempty [of "unat (byte_of 0 ip)"] dec_string_digits [of "unat (byte_of 0 ip)"]
    by (cases "dec_string (unat (byte_of 0 ip))") (auto simp: ipstr_def)
qed

lemma digit_not_any: "is_digit c \<Longrightarrow> \<not> strcaseeq (c # r) ''any''"
  by (auto simp: strcaseeq_def c_tolower_def is_digit_def)

text \<open>Parsing an address without a suffix, and one with a suffix.\<close>

lemma acl_parse_plain:
  assumes "CHR ''/'' \<notin> set s" "length s \<le> 31" "\<not> strcaseeq s ''any''" "aton s = Some ip"
  shows "acl_parse_ip aton (Some s) = Some (ip, 0xFFFFFFFF)"
proof -
  have tw: "takeWhile (\<lambda>c. c \<noteq> CHR ''/'') s = s" "dropWhile (\<lambda>c. c \<noteq> CHR ''/'') s = []"
    using assms(1) by (auto simp: takeWhile_eq_all_conv dropWhile_eq_Nil_conv)
  show ?thesis
    using assms by (auto simp: acl_parse_ip_def strncpy_trunc_def Let_def tw)
qed

lemma acl_parse_suffix:
  assumes "CHR ''/'' \<notin> set s" "length (s @ ''/'' @ t) \<le> 31" "\<not> strcaseeq (s @ ''/'' @ t) ''any''"
    "aton s = Some ip" "atoi t = int c" "c \<le> 32"
  shows "acl_parse_ip aton (Some (s @ ''/'' @ t)) = Some (ip AND cidr_mask c, cidr_mask c)"
proof -
  have tw: "takeWhile (\<lambda>c. c \<noteq> CHR ''/'') (s @ ''/'' @ t) = s"
    "dropWhile (\<lambda>c. c \<noteq> CHR ''/'') (s @ ''/'' @ t) = ''/'' @ t"
    using assms(1) by (auto simp: takeWhile_append dropWhile_append)
  have "strncpy_trunc 32 (s @ ''/'' @ t) = s @ ''/'' @ t"
    using assms(2) by (simp add: strncpy_trunc_def)
  then show ?thesis
    using assms(3-6) tw
    by (auto simp: acl_parse_ip_def Let_def cidr_mask_def nat_diff_distrib)
qed

lemma acl_ip_text:
  assumes "\<And>a. aton (ipstr a) = Some a" and "c \<le> 32" and "ip AND cidr_mask c = ip"
  shows "acl_parse_ip aton (acl_format_ip ip (cidr_mask c) 24) = Some (ip, cidr_mask c)"
proof -
  obtain d r where dr: "ipstr ip = d # r" "is_digit d" using ipstr_props(3) by blast
  consider "c = 0" | "c = 32" | "0 < c" "c < 32" using assms(2) by linarith
  then show ?thesis
  proof cases
    case 1
    then have "ip = 0" "cidr_mask c = 0" using assms(3) by (simp_all add: cidr_mask_def)
    then show ?thesis by (simp add: acl_format_ip_def acl_parse_ip_def strncpy_trunc_def strcaseeq_def)
  next
    case 2
    then have m: "cidr_mask c = 0xFFFFFFFF" by (simp add: cidr_mask_def)
    have "acl_format_ip ip (cidr_mask c) 24 = Some (ipstr ip)"
      using ipstr_props(2) [of ip] by (simp add: acl_format_ip_def strncpy_trunc_def m)
    moreover have "\<not> strcaseeq (ipstr ip) ''any''" using dr digit_not_any [of d r] by simp
    ultimately show ?thesis
      using acl_parse_plain [OF ipstr_props(1), of ip aton ip] ipstr_props(2) [of ip] assms(1) [of ip]
      by (simp add: m)
  next
    case 3
    then have m: "cidr_mask c \<noteq> 0xFFFFFFFF" "cidr_mask c \<noteq> 0"
      using count_bits_cidr [of c] count_bits_full count_bits_cidr [of 0]
      by (auto simp: cidr_mask_def [of 0])
    have len: "length (ipstr ip @ ''/'' @ dec_string c) \<le> 19"
      using ipstr_props(2) [of ip] dec_string_length [of c] 3 by simp
    then have "acl_format_ip ip (cidr_mask c) 24 = Some (ipstr ip @ ''/'' @ dec_string c)"
      using m 3 by (simp add: acl_format_ip_def strncpy_trunc_def count_bits_cidr)
    moreover have "\<not> strcaseeq (ipstr ip @ ''/'' @ dec_string c) ''any''"
      using dr digit_not_any [of d] by simp
    ultimately show ?thesis
      using acl_parse_suffix [OF ipstr_props(1), of ip "dec_string c" aton ip c] len assms
      by (simp add: atoi_dec_string)
  qed
qed

text \<open>
  An address and prefix length printed by \<open>acl_format_ip\<close> (into the 24-byte buffers
  its callers use) and read back by \<open>acl_parse_ip\<close> give the same address and mask, for
  every prefix length and every address masked by it; \<open>ip4addr_aton\<close> is assumed to read
  the dotted quad that \<open>IPSTR\<close> prints.
\<close>

theorem acl_ip_roundtrip:
  assumes "\<And>a. aton (ipstr a) = Some a" and "c \<le> 32" and "ip AND cidr_mask c = ip"
  shows "acl_parse_ip aton (acl_format_ip ip (cidr_mask c) 24) = Some (ip, cidr_mask c)"
  using assms by (rule acl_ip_text)

text \<open>A reader of dotted quads that satisfies the assumption.\<close>

definition quad_at :: "string \<Rightarrow> u8 \<times> string" where
  "quad_at s = (of_nat (dec_val (takeWhile is_digit s)), tl (dropWhile is_digit s))"

definition aton_quad :: "string \<Rightarrow> u32 option" where
  "aton_quad s = (let (a, s) = quad_at s; (b, s) = quad_at s; (c, s) = quad_at s; (d, s) = quad_at s
     in Some (le32 a b c d))"

lemma quad_at_dec: "quad_at (dec_string (unat b) @ CHR ''.'' # r) = (b, r)"
    "quad_at (dec_string (unat b)) = (b, [])"
proof -
  have "takeWhile is_digit (dec_string (unat b) @ CHR ''.'' # r) = dec_string (unat b)"
    "dropWhile is_digit (dec_string (unat b) @ CHR ''.'' # r) = CHR ''.'' # r"
    using dec_string_digits [of "unat b"]
    by (simp_all add: takeWhile_append dropWhile_append is_digit_def)
  then show "quad_at (dec_string (unat b) @ CHR ''.'' # r) = (b, r)"
    by (simp add: quad_at_def dec_val_dec_string)
  have tw: "takeWhile is_digit (dec_string (unat b)) = dec_string (unat b)"
    "dropWhile is_digit (dec_string (unat b)) = []"
    using dec_string_digits [of "unat b"] by (simp_all add: takeWhile_eq_all_conv dropWhile_eq_Nil_conv)
  show "quad_at (dec_string (unat b)) = (b, [])"
    unfolding quad_at_def tw by (simp add: dec_val_dec_string)
qed

lemma aton_quad_ipstr: "aton_quad (ipstr a) = Some a"
  by (simp add: aton_quad_def ipstr_def quad_at_dec)

theorem acl_ip_roundtrip_witness:
  "acl_parse_ip aton_quad (acl_format_ip 0x0004A8C0 (cidr_mask 24) 24) = Some (0x0004A8C0, cidr_mask 24)"
  by (rule acl_ip_roundtrip) (simp_all add: aton_quad_ipstr cidr_mask_def htonl_def byte_of_def le32_def)

text \<open>
  A malformed suffix is not refused: "/" followed by anything that is not a number is
  read as "/0", so the rule matches every address.
\<close>

lemma acl_parse_ip_bad_suffix:
  assumes "CHR ''/'' \<notin> set s" "length (s @ ''/'' @ t) \<le> 31" "\<not> strcaseeq (s @ ''/'' @ t) ''any''"
    "aton s = Some ip" "t = [] \<or> (\<not> is_digit (hd t) \<and> \<not> is_space (hd t) \<and> hd t \<noteq> CHR ''-'' \<and> hd t \<noteq> CHR ''+'')"
  shows "acl_parse_ip aton (Some (s @ ''/'' @ t)) = Some (0, 0)"
proof -
  have "atoi t = int 0"
    using assms(5) by (cases t) (auto simp: atoi_def dec_val_def)
  then show ?thesis
    using acl_parse_suffix [of s t aton ip 0] assms(1-4) by (simp add: cidr_mask_def)
qed

end
