(* ===== verification/Config_Store.thy ===== *)
theory Config_Store
  imports Router_Prelude
begin

text \<open>
  Non-volatile storage: the NVS library as a parameter, what it documents, and the two
  patterns by which the router's components write and read back their tables.
\<close>

text \<open>
  The NVS library, a parameter of every definition that persists something: \<open>'n\<close> is the
  state of the flash, \<open>'b\<close> the content of a blob.  \<open>nv_get_blob\<close> is given the buffer it
  fills and returns the buffer afterwards.
\<close>

record ('n, 'b) nvs_api =
  nv_open :: "'n \<Rightarrow> esp_err"
  nv_set_blob :: "'n \<Rightarrow> string \<Rightarrow> 'b \<Rightarrow> esp_err \<times> 'n"
  nv_get_blob :: "'n \<Rightarrow> string \<Rightarrow> 'b \<Rightarrow> esp_err \<times> 'b"
  nv_commit :: "'n \<Rightarrow> esp_err \<times> 'n"

text \<open>What NVS documents when no flash error occurs.\<close>

definition nvs_works :: "('n, 'b, 'z) nvs_api_scheme \<Rightarrow> bool" where
  "nvs_works api \<longleftrightarrow>
     (\<forall>n. nv_open api n = ESP_OK) \<and>
     (\<forall>n k v. fst (nv_set_blob api n k v) = ESP_OK) \<and>
     (\<forall>n k v buf. nv_get_blob api (snd (nv_set_blob api n k v)) k buf = (ESP_OK, v)) \<and>
     (\<forall>n k k' v buf. k' \<noteq> k \<longrightarrow>
        nv_get_blob api (snd (nv_set_blob api n k v)) k' buf = nv_get_blob api n k' buf) \<and>
     (\<forall>n. fst (nv_commit api n) = ESP_OK) \<and>
     (\<forall>n k buf. nv_get_blob api (snd (nv_commit api n)) k buf = nv_get_blob api n k buf)"

text \<open>A store that behaves so: one value per key.\<close>

definition nvs_map :: "(string \<rightharpoonup> 'b, 'b) nvs_api" where
  "nvs_map = \<lparr>nv_open = (\<lambda>n. ESP_OK), nv_set_blob = (\<lambda>n k v. (ESP_OK, n(k \<mapsto> v))),
     nv_get_blob = (\<lambda>n k buf. case n k of None \<Rightarrow> (ESP_ERR_NVS_NOT_FOUND, buf) | Some v \<Rightarrow> (ESP_OK, v)),
     nv_commit = (\<lambda>n. (ESP_OK, n))\<rparr>"

lemma nvs_map_works: "nvs_works nvs_map"
  by (simp add: nvs_works_def nvs_map_def)

lemma nvs_worksD:
  assumes "nvs_works api"
  shows "nv_open api n = ESP_OK" "fst (nv_set_blob api n k v) = ESP_OK"
    "nv_get_blob api (snd (nv_set_blob api n k v)) k buf = (ESP_OK, v)"
    "k' \<noteq> k \<Longrightarrow> nv_get_blob api (snd (nv_set_blob api n k v)) k' buf = nv_get_blob api n k' buf"
    "fst (nv_commit api n) = ESP_OK"
    "nv_get_blob api (snd (nv_commit api n)) k buf = nv_get_blob api n k buf"
  using assms by (simp_all add: nvs_works_def)

text \<open>
  The calls with a \<open>NULL\<close> buffer that only ask for the length of a blob, in bytes; a
  blob that is an array of \<open>sz\<close>-byte elements has \<open>sz\<close> bytes for each of them.
\<close>

record ('n, 'b) nvs_len_api = "('n, 'b) nvs_api" +
  nv_blob_len :: "'n \<Rightarrow> string \<Rightarrow> esp_err \<times> nat"

definition nvs_len_works :: "nat \<Rightarrow> ('n, 'e list) nvs_len_api \<Rightarrow> bool" where
  "nvs_len_works sz api \<longleftrightarrow> nvs_works api \<and>
     (\<forall>n k v. nv_blob_len api (snd (nv_set_blob api n k v)) k = (ESP_OK, sz * length v)) \<and>
     (\<forall>n k. nv_blob_len api (snd (nv_commit api n)) k = nv_blob_len api n k)"

definition nvs_len_map :: "nat \<Rightarrow> (string \<rightharpoonup> 'e list, 'e list) nvs_len_api" where
  "nvs_len_map sz = nvs_api.extend nvs_map
     \<lparr>nv_blob_len = (\<lambda>n k. case n k of None \<Rightarrow> (ESP_ERR_NVS_NOT_FOUND, 0) | Some v \<Rightarrow> (ESP_OK, sz * length v))\<rparr>"

lemma nvs_len_map_works: "nvs_len_works sz (nvs_len_map sz)"
  by (simp add: nvs_len_works_def nvs_len_map_def nvs_works_def nvs_map_def nvs_api.defs)

lemma nvs_len_worksD: "nvs_len_works sz api \<Longrightarrow> nvs_works api"
  by (simp add: nvs_len_works_def)

text \<open>\<open>set_config_param_blob\<close> (\<open>components/cmd_router/cmd_router.c\<close>).\<close>

definition set_config_param_blob :: "('n, 'b, 'z) nvs_api_scheme \<Rightarrow> string \<Rightarrow> 'b \<Rightarrow> 'n \<Rightarrow> esp_err \<times> 'n" where
  "set_config_param_blob api name data n =
     (if nv_open api n \<noteq> ESP_OK then (nv_open api n, n)
      else let (err, n) = nv_set_blob api n name data in
        if err = ESP_OK then nv_commit api n else (err, n))"

text \<open>
  How the router reads a table back: the length is checked first, and a failed read
  leaves the table zeroed.
\<close>

definition get_table_blob :: "('n, 'e list) nvs_len_api \<Rightarrow> string \<Rightarrow> nat \<Rightarrow> 'e \<Rightarrow> 'e list \<Rightarrow> 'n \<Rightarrow> esp_err \<times> 'e list" where
  "get_table_blob api key sz zero tab n =
     (if nv_open api n \<noteq> ESP_OK then (nv_open api n, tab)
      else let (err, len) = nv_blob_len api n key in
        if err \<noteq> ESP_OK then (err, tab)
        else if len \<noteq> sz * length tab then (ESP_ERR_NVS_INVALID_LENGTH, tab)
        else let (err, tab') = nv_get_blob api n key tab in
          if err \<noteq> ESP_OK then (err, replicate (length tab) zero) else (ESP_OK, tab'))"

lemma set_config_ok: "nvs_works api \<Longrightarrow> fst (set_config_param_blob api key v n) = ESP_OK"
  using nvs_worksD(1) [of api n] nvs_worksD(2) [of api n key v]
    nvs_worksD(5) [of api "snd (nv_set_blob api n key v)"]
  by (simp add: set_config_param_blob_def case_prod_unfold Let_def)

lemma set_get_table:
  assumes "nvs_len_works sz api" "length v = length tab"
  shows "get_table_blob api key sz zero tab (snd (set_config_param_blob api key v n)) = (ESP_OK, v)"
proof -
  have w: "nvs_works api" using assms(1) by (simp add: nvs_len_works_def)
  note d = nvs_worksD [OF w]
  have n: "snd (set_config_param_blob api key v n) = snd (nv_commit api (snd (nv_set_blob api n key v)))"
    using d(1,2) by (simp add: set_config_param_blob_def case_prod_unfold Let_def)
  have l: "nv_blob_len api (snd (nv_commit api (snd (nv_set_blob api n key v)))) key = (ESP_OK, sz * length v)"
    using assms(1) by (simp add: nvs_len_works_def)
  show ?thesis
    unfolding n get_table_blob_def using d(1,3,6) l assms(2) by simp
qed

end
