(* ===== verification/Acl_Nvs.thy ===== *)
theory Acl_Nvs
  imports Acl_Theorems Config_Store
begin

text \<open>
  Persistence of the rules (\<open>components/acl/acl_nvs.c\<close>): a snapshot of the four lists is
  written as four blobs, and reading them back rebuilds the lists with fresh hit counters
  and the rule counters of the packet path.
\<close>

definition acl_keys :: "string list" where
  "acl_keys = [''acl_0'', ''acl_1'', ''acl_2'', ''acl_3'']"

text \<open>The saving loop; the error of a list that could not be written is only logged.\<close>

definition save_one :: "('n, acl_entry_t list) nvs_api \<Rightarrow> acl_entry_t list list \<Rightarrow> nat \<Rightarrow> 'n \<Rightarrow> 'n" where
  "save_one api snapshot i n = snd (nv_set_blob api n (acl_keys ! i) (snapshot ! i))"

definition save_acl_rules ::
  "('n, acl_entry_t list) nvs_api \<Rightarrow> 'n \<Rightarrow> acl_state \<Rightarrow> (esp_err \<times> 'n \<times> acl_state) option" where
  "save_acl_rules api n s = do {
     s \<leftarrow> acl_lock s;
     let snapshot = acl_lists s; s = acl_unlock s; err = nv_open api n in
     if err \<noteq> ESP_OK then Some (err, n, s)
     else let n = fold (save_one api snapshot) [0..<MAX_ACL_LISTS] n;
              (err, n) = nv_commit api n
          in Some (err, n, s) }"

text \<open>The loading loop, list by list under the lock.\<close>

definition load_one :: "('n, acl_entry_t list) nvs_api \<Rightarrow> 'n \<Rightarrow> nat \<Rightarrow> acl_state \<Rightarrow> acl_state" where
  "load_one api n i s =
     (let (err, rules) = nv_get_blob api n (acl_keys ! i) (acl_lists s ! i) in
      if err = ESP_OK
      then acl_set_list i (map (\<lambda>e. if acl_used e then e\<lparr>ae_hit_count := 0\<rparr> else e) rules) s
      else acl_set_list i rules s)"

fun recount_all :: "nat list \<Rightarrow> acl_state \<Rightarrow> acl_state option" where
  "recount_all [] s = Some s"
| "recount_all (i # is) s = do { s \<leftarrow> acl_recount i s; recount_all is s }"

definition load_acl_rules ::
  "('n, acl_entry_t list) nvs_api \<Rightarrow> bool \<Rightarrow> 'n \<Rightarrow> acl_state \<Rightarrow> (esp_err \<times> acl_state) option" where
  "load_acl_rules api created n s = do {
     s \<leftarrow> acl_init created s;
     let err = nv_open api n in
     if err \<noteq> ESP_OK then Some (err, s)
     else do {
       s \<leftarrow> acl_lock s;
       let s = acl_unlock (fold (load_one api n) [0..<MAX_ACL_LISTS] s) in do {
       s \<leftarrow> recount_all [0..<MAX_ACL_LISTS] s;
       Some (ESP_OK, s) } } }"

section \<open>Saving and loading\<close>

lemma upt4: "[0..<MAX_ACL_LISTS] = [0, 1, 2, 3]"
  by (simp add: MAX_ACL_LISTS_def upt_rec)

lemma acl_keys_distinct: "i < 4 \<Longrightarrow> j < 4 \<Longrightarrow> acl_keys ! i = acl_keys ! j \<longleftrightarrow> i = j"
  by (auto simp: acl_keys_def less_Suc_eq numeral_eq_Suc)

lemma saved_blob:
  assumes w: "nvs_works api" and j: "j < MAX_ACL_LISTS"
  shows "nv_get_blob api (fold (save_one api snap) [0..<MAX_ACL_LISTS] n) (acl_keys ! j) buf = (ESP_OK, snap ! j)"
proof -
  have "j = 0 \<or> j = 1 \<or> j = 2 \<or> j = 3" using j by (auto simp: MAX_ACL_LISTS_def)
  then show ?thesis
    unfolding upt4 by (elim disjE) (simp_all add: save_one_def nvs_worksD [OF w] acl_keys_def)
qed

lemma load_one_taken [lock_simps]: "load_one api n i (acl_taken s) = acl_taken (load_one api n i s)"
  by (simp add: load_one_def Let_def lock_simps split: prod.splits)

lemma load_one_fields [simp]:
  "acl_stats (load_one api n i s) = acl_stats s" "acl_mutex (load_one api n i s) = acl_mutex s"
  "acl_rule_count (load_one api n i s) = acl_rule_count s"
  "last_deny_log_time (load_one api n i s) = last_deny_log_time s"
  by (simp_all add: load_one_def Let_def split: prod.splits)

definition fresh_hits :: "acl_entry_t list \<Rightarrow> acl_entry_t list" where
  "fresh_hits es = map (\<lambda>e. if acl_used e then e\<lparr>ae_hit_count := 0\<rparr> else e) es"

lemma fresh_hits_props:
  "length (fresh_hits es) = length es"
  "filter acl_used (fresh_hits es) = map (\<lambda>e. e\<lparr>ae_hit_count := 0\<rparr>) (filter acl_used es)"
  "acl_compact es \<Longrightarrow> acl_compact (fresh_hits es)" "acl_premasked es \<Longrightarrow> acl_premasked (fresh_hits es)"
proof -
  show "length (fresh_hits es) = length es" by (simp add: fresh_hits_def)
  show "filter acl_used (fresh_hits es) = map (\<lambda>e. e\<lparr>ae_hit_count := 0\<rparr>) (filter acl_used es)"
    by (induction es) (auto simp: fresh_hits_def)
  show "acl_compact (fresh_hits es)" if c: "acl_compact es"
  proof -
    have p: "(\<lambda>e. acl_used (if acl_used e then e\<lparr>ae_hit_count := 0\<rparr> else e)) = acl_used"
      by (rule ext) simp
    have q: "(\<lambda>e. \<not> acl_used (if acl_used e then e\<lparr>ae_hit_count := 0\<rparr> else e)) = (\<lambda>e. \<not> acl_used e)"
      by (rule ext) simp
    have "fresh_hits (filter acl_used es @ filter (\<lambda>e. \<not> acl_used e) es) = fresh_hits es"
      using c by (simp only: acl_compact_def)
    then show ?thesis
      unfolding acl_compact_def fresh_hits_def filter_map comp_def p q map_append .
  qed
  show "acl_premasked es \<Longrightarrow> acl_premasked (fresh_hits es)"
    by (auto simp: acl_premasked_def fresh_hits_def split: if_splits)
qed

lemma recount_all_free:
  assumes "acl_mutex s \<noteq> MutexHeld" "acl_shape s" "acl_tidy s" "set is \<subseteq> {..<MAX_ACL_LISTS}"
    "\<forall>m < MAX_ACL_LISTS. m \<notin> set is \<longrightarrow> unat (acl_rule_count s ! m) = length (acl_rules m s)"
  shows "\<exists>t. recount_all is s = Some t \<and> acl_inv t \<and> acl_lists t = acl_lists s \<and> acl_stats t = acl_stats s"
  using assms
proof (induction "is" arbitrary: s)
  case Nil
  then show ?case by (simp add: acl_inv_def acl_counted_def)
next
  case (Cons i "is")
  let ?t = "acl_set_count i (count_valid (acl_lists s ! i) 0) s"
  have i: "i < MAX_ACL_LISTS" using Cons.prems(4) by simp
  have r: "acl_recount i s = Some ?t" by (rule acl_recount_free [OF Cons.prems(1) i])
  have "length (acl_rules i s) < 256"
    using acl_rules_le [OF Cons.prems(2) i] by (simp add: MAX_ACL_ENTRIES_def)
  then have c: "unat (count_valid (acl_lists s ! i) 0) = length (acl_rules i s)"
    by (simp add: count_valid_eq unat_of_nat acl_rules_def)
  have "\<exists>t. recount_all is ?t = Some t \<and> acl_inv t \<and> acl_lists t = acl_lists ?t \<and> acl_stats t = acl_stats ?t"
    using Cons.prems i c by (intro Cons.IH) (auto simp: nth_list_update acl_shape_def)
  with r show ?case by auto
qed

lemma save_acl_rules_total:
  assumes "acl_mutex s \<noteq> MutexHeld"
  shows "\<exists>err n'. save_acl_rules api n s = Some (err, n', s)"
  using assms by (simp add: save_acl_rules_def acl_lock_free lock_simps Let_def case_prod_unfold)

lemma save_acl_rules_stores:
  assumes "nvs_works api" "acl_mutex s \<noteq> MutexHeld"
  shows "\<exists>n'. save_acl_rules api n s = Some (ESP_OK, n', s) \<and>
    (\<forall>j < MAX_ACL_LISTS. \<forall>buf. nv_get_blob api n' (acl_keys ! j) buf = (ESP_OK, acl_lists s ! j))"
  using assms(2) nvs_worksD(1,5) [OF assms(1)] saved_blob [OF assms(1)] nvs_worksD(6) [OF assms(1)]
  by (simp add: save_acl_rules_def acl_lock_free lock_simps Let_def case_prod_unfold)

text \<open>The loading loop, when the flash holds the lists of \<open>s\<close>.\<close>

lemma load_lists:
  fixes api :: "('n, acl_entry_t list) nvs_api"
  assumes "acl_inv s" "acl_inv s0" "acl_mutex s0 = MutexFree"
    and get: "\<forall>j < MAX_ACL_LISTS. \<forall>buf. nv_get_blob api n' (acl_keys ! j) buf = (ESP_OK, acl_lists s ! j)"
  defines "u \<equiv> fold (load_one api n') [0..<MAX_ACL_LISTS] s0"
  shows "j < MAX_ACL_LISTS \<Longrightarrow> acl_lists u ! j = fresh_hits (acl_lists s ! j)"
    "acl_shape u" "acl_tidy u" "acl_mutex u = MutexFree" "acl_stats u = acl_stats s0"
proof -
  have "load_one api n' j x = acl_set_list j (fresh_hits (acl_lists s ! j)) x" if "j < MAX_ACL_LISTS" for j x
    using that by (simp add: load_one_def get fresh_hits_def)
  then have u4: "u = acl_set_list 3 (fresh_hits (acl_lists s ! 3)) (acl_set_list 2 (fresh_hits (acl_lists s ! 2))
      (acl_set_list 1 (fresh_hits (acl_lists s ! 1)) (acl_set_list 0 (fresh_hits (acl_lists s ! 0)) s0)))"
    unfolding u_def upt4 by (simp add: MAX_ACL_LISTS_def)
  show "acl_lists u ! j = fresh_hits (acl_lists s ! j)" if "j < MAX_ACL_LISTS"
  proof -
    have "j = 0 \<or> j = 1 \<or> j = 2 \<or> j = 3" using that by (auto simp: MAX_ACL_LISTS_def)
    moreover have "length (acl_lists s0) = 4" using assms(2) by (simp add: acl_inv_defs MAX_ACL_LISTS_def)
    ultimately show ?thesis unfolding u4 by (elim disjE) (simp_all add: nth_list_update)
  qed
  have ls: "length (acl_lists s ! j) = MAX_ACL_ENTRIES" "acl_compact (acl_lists s ! j)" "acl_premasked (acl_lists s ! j)"
    if "j < MAX_ACL_LISTS" for j using acl_inv_list(1-3) [OF assms(1) that] .
  have lt4: "0 < MAX_ACL_LISTS" "1 < MAX_ACL_LISTS" "2 < MAX_ACL_LISTS" "3 < MAX_ACL_LISTS"
    by (simp_all add: MAX_ACL_LISTS_def)
  show "acl_shape u" "acl_tidy u"
    unfolding u4 using assms(2) ls lt4
    by (intro acl_shape_set(1) acl_tidy_set(1); simp add: acl_inv_def fresh_hits_props)+
  show "acl_mutex u = MutexFree" "acl_stats u = acl_stats s0"
    unfolding u4 using assms(3) by simp_all
qed

text \<open>
  C4: Saving the rules and loading them at the next boot gives back the same four lists in
  the same order, with hit counters and statistics at zero and the packet path's counters
  equal to the list lengths (for an NVS that works as documented).
\<close>

theorem acl_save_load_roundtrip:
  assumes "nvs_works api" and "acl_inv s"
  shows "\<exists>n'. save_acl_rules api n s = Some (ESP_OK, n', s) \<and>
    (\<exists>t. load_acl_rules api True n' acl_boot = Some (ESP_OK, t) \<and> acl_inv t \<and>
      (\<forall>i < MAX_ACL_LISTS. acl_rules i t = map (\<lambda>e. e\<lparr>ae_hit_count := 0\<rparr>) (acl_rules i s) \<and>
         acl_stats t ! i = acl_zero_stats \<and>
         acl_is_empty i t = (acl_rules i s = [])))"
proof -
  define n' where "n' = snd (nv_commit api (fold (save_one api (acl_lists s)) [0..<MAX_ACL_LISTS] n))"
  have lk: "acl_mutex s \<noteq> MutexHeld" "acl_shape s" "acl_tidy s" using assms(2) by (simp_all add: acl_inv_def)
  have save: "save_acl_rules api n s = Some (ESP_OK, n', s)"
    using lk(1) nvs_worksD(1,5) [OF assms(1)]
    by (simp add: save_acl_rules_def acl_lock_free lock_simps Let_def case_prod_unfold n'_def)
  obtain s0 where s0: "acl_init True acl_boot = Some s0" "acl_inv s0" "acl_mutex s0 = MutexFree"
    "acl_stats s0 = replicate MAX_ACL_LISTS acl_zero_stats"
    using acl_init_inv [OF acl_boot_inv, of True] by (auto simp: acl_init_def acl_boot_def)
  let ?u = "fold (load_one api n') [0..<MAX_ACL_LISTS] s0"
  have get: "\<forall>j < MAX_ACL_LISTS. \<forall>buf. nv_get_blob api n' (acl_keys ! j) buf = (ESP_OK, acl_lists s ! j)"
    using saved_blob [OF assms(1)] by (simp add: nvs_worksD(6) [OF assms(1)] n'_def)
  note lists = load_lists(1) [OF assms(2) s0(2,3) get] and shape = load_lists(2,3) [OF assms(2) s0(2,3) get]
    and fields = load_lists(4,5) [OF assms(2) s0(2,3) get]
  have "\<exists>t. recount_all [0..<MAX_ACL_LISTS] ?u = Some t \<and> acl_inv t \<and> acl_lists t = acl_lists ?u \<and> acl_stats t = acl_stats ?u"
    using shape fields(1) by (intro recount_all_free) auto
  then obtain t where t: "recount_all [0..<MAX_ACL_LISTS] ?u = Some t" "acl_inv t"
    "acl_lists t = acl_lists ?u" "acl_stats t = acl_stats ?u" by blast
  have tk: "acl_lock s0 = Some (acl_taken s0)" using s0(3) by (simp add: acl_lock_free)
  have "acl_unlock (fold (load_one api n') [0..<MAX_ACL_LISTS] (acl_taken s0)) = ?u"
    unfolding upt4 using s0(3) by (simp add: lock_simps)
  then have load: "load_acl_rules api True n' acl_boot = Some (ESP_OK, t)"
    by (simp add: load_acl_rules_def s0(1) nvs_worksD(1) [OF assms(1)] tk t(1))
  have "acl_rules i t = map (\<lambda>e. e\<lparr>ae_hit_count := 0\<rparr>) (acl_rules i s) \<and> acl_stats t ! i = acl_zero_stats \<and>
         acl_is_empty i t = (acl_rules i s = [])" if i: "i < MAX_ACL_LISTS" for i
  proof -
    have r: "acl_rules i t = map (\<lambda>e. e\<lparr>ae_hit_count := 0\<rparr>) (acl_rules i s)"
      using lists [OF i] t(3) by (simp add: acl_rules_def fresh_hits_props)
    moreover have "acl_is_empty i t = (acl_rules i s = [])"
      using acl_inv_list(6) [OF t(2) i] r i unat_eq_zero [of "acl_rule_count t ! i"]
      by (auto simp: acl_is_empty_def)
    ultimately show ?thesis using t(4) fields(2) s0(4) i by simp
  qed
  with save load t(2) show ?thesis by blast
qed

text \<open>A rule that is added, saved and loaded after a restart.\<close>

theorem acl_save_load_roundtrip_witness:
  "\<exists>s n' t. acl_add 2 5 7 0 0 6 0 80 0 acl_boot = Some (True, s) \<and> save_acl_rules nvs_map Map.empty s = Some (ESP_OK, n', s) \<and>
    load_acl_rules nvs_map True n' acl_boot = Some (ESP_OK, t) \<and> acl_rules 2 t = [acl_new_entry 5 7 0 0 6 0 80 0]"
proof -
  have "acl_rules 2 acl_boot = []" by (simp add: acl_rules_def acl_boot_def MAX_ACL_LISTS_def)
  then obtain s where s: "acl_add 2 5 7 0 0 6 0 80 0 acl_boot = Some (True, s)" "acl_inv s"
    "acl_rules 2 s = [acl_new_entry 5 7 0 0 6 0 80 0]"
    using acl_add_law [OF acl_boot_inv, of 2 5 7 0 0 6 0 80 0] by (auto simp: acl_consts)
  from acl_save_load_roundtrip [OF nvs_map_works s(2), of Map.empty] obtain n' t where
    t: "save_acl_rules nvs_map Map.empty s = Some (ESP_OK, n', s)" "load_acl_rules nvs_map True n' acl_boot = Some (ESP_OK, t)"
      "\<forall>i < MAX_ACL_LISTS. acl_rules i t = map (\<lambda>e. e\<lparr>ae_hit_count := 0\<rparr>) (acl_rules i s)" by blast
  have "acl_rules 2 t = map (\<lambda>e. e\<lparr>ae_hit_count := 0\<rparr>) [acl_new_entry 5 7 0 0 6 0 80 0]" using t(3) s(3) by (simp add: MAX_ACL_LISTS_def)
  with s(1) t(1,2) show ?thesis by (simp add: acl_new_entry_def)
qed

text \<open>
  A failing \<open>nvs_set_blob\<close> does not reach the caller: with a flash that refuses every
  write but commits, saving answers \<open>ESP_OK\<close> and nothing was stored.
\<close>

lemma save_acl_rules_loses_errors:
  assumes "acl_mutex s \<noteq> MutexHeld"
  shows "save_acl_rules (nvs_map\<lparr>nv_set_blob := (\<lambda>n k v. (ESP_FAIL, n))\<rparr>) n s = Some (ESP_OK, n, s)"
  using assms
  by (simp add: save_acl_rules_def acl_lock_free lock_simps upt4 save_one_def nvs_map_def)

end
