(* ===== verification/Pcap_Ringbuf.thy ===== *)
theory Pcap_Ringbuf
  imports Interfaces
begin

text \<open>
  The capture ring buffer (\<open>components/pcap_capture/pcap_ringbuf.c\<close>): a circular byte
  array with read and write positions behind a mutex, and a binary semaphore that tells
  the reader there is data.  \<open>size_t\<close> values are natural numbers: every sum formed is at
  most twice the size of an allocated block.
\<close>

section \<open>State and operations\<close>

record ringbuf =
  ringbuf_data :: "bytes option"
  ringbuf_size :: nat
  ringbuf_head :: nat
  ringbuf_tail :: nat
  ringbuf_available :: nat
  dropped_packets :: u32
  ringbuf_mutex :: mutex
  data_ready :: bool

definition ringbuf_boot :: ringbuf where
  "ringbuf_boot = \<lparr>ringbuf_data = None, ringbuf_size = 0, ringbuf_head = 0, ringbuf_tail = 0,
     ringbuf_available = 0, dropped_packets = 0, ringbuf_mutex = MutexNull, data_ready = False\<rparr>"

text \<open>\<open>x % y\<close> traps when \<open>y\<close> is zero.\<close>

definition c_mod :: "nat \<Rightarrow> nat \<Rightarrow> nat option" where
  "c_mod x y = (if y = 0 then None else Some (x mod y))"

definition rb_take :: "ringbuf \<Rightarrow> ringbuf option" where
  "rb_take s = map_option (\<lambda>m. s\<lparr>ringbuf_mutex := m\<rparr>) (sem_take_forever (ringbuf_mutex s))"

definition rb_give :: "ringbuf \<Rightarrow> ringbuf" where
  "rb_give s = s\<lparr>ringbuf_mutex := sem_give (ringbuf_mutex s)\<rparr>"

text \<open>The flags say whether FreeRTOS could create the mutex and the semaphore.\<close>

definition ringbuf_init :: "bool \<Rightarrow> bool \<Rightarrow> ringbuf \<Rightarrow> bool \<times> ringbuf" where
  "ringbuf_init mutex_ok sem_ok s =
     (if ringbuf_mutex s \<noteq> MutexNull then (True, s)
      else if \<not> mutex_ok then (False, s)
      else if \<not> sem_ok then (False, s\<lparr>ringbuf_mutex := MutexNull\<rparr>)
      else (True, s\<lparr>ringbuf_mutex := MutexFree, data_ready := False\<rparr>))"

text \<open>
  \<open>ringbuf_alloc\<close> in its two parts: the critical section (\<open>block\<close> is what \<open>malloc\<close>
  returned), and the draining of the semaphore after the mutex is released.
\<close>

definition ringbuf_alloc_locked :: "nat \<Rightarrow> bytes option \<Rightarrow> ringbuf \<Rightarrow> (bool \<times> bool \<times> ringbuf) option" where
  "ringbuf_alloc_locked sz block s =
     (if ringbuf_mutex s = MutexNull then Some (False, False, s)
      else do { s \<leftarrow> rb_take s;
        if ringbuf_data s \<noteq> None then Some (True, False, rb_give s)
        else case block of None \<Rightarrow> Some (False, False, rb_give s)
        | Some b \<Rightarrow> Some (True, True, rb_give (s\<lparr>ringbuf_data := Some b, ringbuf_size := sz,
              ringbuf_head := 0, ringbuf_tail := 0, ringbuf_available := 0, dropped_packets := 0\<rparr>)) })"

definition ringbuf_drain :: "ringbuf \<Rightarrow> ringbuf" where
  "ringbuf_drain s = s\<lparr>data_ready := False\<rparr>"

definition ringbuf_alloc :: "nat \<Rightarrow> bytes option \<Rightarrow> ringbuf \<Rightarrow> (bool \<times> ringbuf) option" where
  "ringbuf_alloc sz block s = do {
     (ok, fresh, s) \<leftarrow> ringbuf_alloc_locked sz block s;
     Some (ok, if fresh then ringbuf_drain s else s) }"

definition ringbuf_free :: "ringbuf \<Rightarrow> ringbuf option" where
  "ringbuf_free s =
     (if ringbuf_mutex s = MutexNull then Some s
      else do { s \<leftarrow> rb_take s;
        Some (rb_give (if ringbuf_data s \<noteq> None
          then s\<lparr>ringbuf_data := None, ringbuf_size := 0, ringbuf_head := 0, ringbuf_tail := 0,
             ringbuf_available := 0, dropped_packets := 0\<rparr>
          else s)) })"

definition ringbuf_reset :: "ringbuf \<Rightarrow> ringbuf option" where
  "ringbuf_reset s =
     (if ringbuf_mutex s = MutexNull then Some s
      else do { s \<leftarrow> rb_take s;
        Some (rb_give (s\<lparr>ringbuf_head := 0, ringbuf_tail := 0, ringbuf_available := 0, dropped_packets := 0\<rparr>)) })"

text \<open>The two \<open>memcpy\<close> branches of \<open>ringbuf_write\<close>: new buffer and new head.\<close>

definition rb_copy_in :: "bytes \<Rightarrow> nat \<Rightarrow> nat \<Rightarrow> bytes \<Rightarrow> (bytes \<times> nat) option" where
  "rb_copy_in buf sz h data =
     (let len = length data; first_chunk = sz - h in
      if first_chunk \<ge> len
      then do { buf \<leftarrow> wr_bytes buf h data; h2 \<leftarrow> c_mod (h + len) sz; Some (buf, h2) }
      else do { buf \<leftarrow> wr_bytes buf h (take first_chunk data);
                buf \<leftarrow> wr_bytes buf 0 (drop first_chunk data);
                Some (buf, len - first_chunk) })"

definition ringbuf_write :: "bytes \<Rightarrow> ringbuf \<Rightarrow> (bool \<times> ringbuf) option" where
  "ringbuf_write data s =
     (if ringbuf_data s = None \<or> ringbuf_mutex s = MutexNull then Some (False, s)
      else if ringbuf_mutex s \<noteq> MutexFree then Some (False, s\<lparr>dropped_packets := dropped_packets s + 1\<rparr>)
      else do { s \<leftarrow> rb_take s;
        case ringbuf_data s of None \<Rightarrow> Some (False, rb_give s)
        | Some buf \<Rightarrow>
            if length data > ringbuf_size s - ringbuf_available s
            then Some (False, rb_give (s\<lparr>dropped_packets := dropped_packets s + 1\<rparr>))
            else do {
              (buf, h) \<leftarrow> rb_copy_in buf (ringbuf_size s) (ringbuf_head s) data;
              Some (True, (rb_give (s\<lparr>ringbuf_data := Some buf, ringbuf_head := h,
                  ringbuf_available := ringbuf_available s + length data\<rparr>))\<lparr>data_ready := True\<rparr>) } })"

text \<open>The copy out of the buffer, shared by reading and peeking.\<close>

definition rb_copy_out :: "bytes \<Rightarrow> nat \<Rightarrow> nat \<Rightarrow> nat \<Rightarrow> bytes option" where
  "rb_copy_out buf sz t to_read =
     (let first_chunk = sz - t in
      if first_chunk \<ge> to_read then rd_bytes buf t to_read
      else do { a \<leftarrow> rd_bytes buf t first_chunk; b \<leftarrow> rd_bytes buf 0 (to_read - first_chunk); Some (a @ b) })"

definition rb_tail_after :: "nat \<Rightarrow> nat \<Rightarrow> nat \<Rightarrow> nat option" where
  "rb_tail_after sz t to_read =
     (if sz - t \<ge> to_read then c_mod (t + to_read) sz else Some (to_read - (sz - t)))"

text \<open>\<open>ringbuf_read\<close>: with the semaphore not given within the timeout, nothing is read.\<close>

definition ringbuf_read :: "nat \<Rightarrow> ringbuf \<Rightarrow> (bytes \<times> ringbuf) option" where
  "ringbuf_read max_len s =
     (if ringbuf_data s = None \<or> ringbuf_mutex s = MutexNull then Some ([], s)
      else if \<not> data_ready s then Some ([], s)
      else do { s \<leftarrow> rb_take (s\<lparr>data_ready := False\<rparr>);
        case ringbuf_data s of None \<Rightarrow> Some ([], rb_give s)
        | Some buf \<Rightarrow>
            if ringbuf_available s = 0 then Some ([], rb_give s)
            else let to_read = (if max_len < ringbuf_available s then max_len else ringbuf_available s) in
              do {
                out \<leftarrow> rb_copy_out buf (ringbuf_size s) (ringbuf_tail s) to_read;
                t \<leftarrow> rb_tail_after (ringbuf_size s) (ringbuf_tail s) to_read;
                let s = s\<lparr>ringbuf_tail := t, ringbuf_available := ringbuf_available s - to_read\<rparr>;
                    s = (if ringbuf_available s > 0 then s\<lparr>data_ready := True\<rparr> else s)
                in Some (out, rb_give s) } })"

definition ringbuf_peek :: "nat \<Rightarrow> ringbuf \<Rightarrow> (bytes \<times> ringbuf) option" where
  "ringbuf_peek max_len s =
     (case ringbuf_data s of None \<Rightarrow> Some ([], s)
      | Some buf \<Rightarrow>
          if ringbuf_mutex s = MutexNull then Some ([], s)
          else do { s \<leftarrow> rb_take s;
            if ringbuf_available s = 0 then Some ([], rb_give s)
            else do {
              out \<leftarrow> rb_copy_out buf (ringbuf_size s) (ringbuf_tail s)
                (if max_len < ringbuf_available s then max_len else ringbuf_available s);
              Some (out, rb_give s) } })"

definition ringbuf_skip :: "nat \<Rightarrow> ringbuf \<Rightarrow> ringbuf option" where
  "ringbuf_skip len s =
     (if ringbuf_data s = None \<or> ringbuf_mutex s = MutexNull then Some s
      else do { s \<leftarrow> rb_take s;
        let len = (if len > ringbuf_available s then ringbuf_available s else len) in do {
        t \<leftarrow> c_mod (ringbuf_tail s + len) (ringbuf_size s);
        Some (rb_give (s\<lparr>ringbuf_tail := t, ringbuf_available := ringbuf_available s - len\<rparr>)) } })"

definition ringbuf_available_bytes :: "ringbuf \<Rightarrow> (nat \<times> ringbuf) option" where
  "ringbuf_available_bytes s =
     (if ringbuf_mutex s = MutexNull then Some (0, s)
      else do { s \<leftarrow> rb_take s; Some (ringbuf_available s, rb_give s) })"

definition ringbuf_free_space :: "ringbuf \<Rightarrow> (nat \<times> ringbuf) option" where
  "ringbuf_free_space s =
     (if ringbuf_mutex s = MutexNull then Some (0, s)
      else do { s \<leftarrow> rb_take s; Some (ringbuf_size s - ringbuf_available s, rb_give s) })"

definition ringbuf_total_size :: "ringbuf \<Rightarrow> nat" where
  "ringbuf_total_size s = ringbuf_size s"

definition ringbuf_get_dropped_count :: "ringbuf \<Rightarrow> u32" where
  "ringbuf_get_dropped_count s = dropped_packets s"

definition ringbuf_reset_dropped_count :: "ringbuf \<Rightarrow> ringbuf" where
  "ringbuf_reset_dropped_count s = s\<lparr>dropped_packets := 0\<rparr>"

end
