(* ===== verification/Pcap_Queue.thy ===== *)
theory Pcap_Queue
  imports Pcap_Ringbuf
begin

text \<open>
  What the capture ring buffer guarantees: the abstraction to a byte queue, the
  invariant of its positions, the effect of each operation on the queue, and the
  agreement of the data-ready semaphore with the content.
\<close>

section \<open>Circular copies\<close>

definition ring_read :: "bytes \<Rightarrow> nat \<Rightarrow> nat \<Rightarrow> bytes" where
  "ring_read d t k = map (\<lambda>i. d ! ((t + i) mod length d)) [0..<k]"

lemma length_ring_read [simp]: "length (ring_read d t k) = k"
  by (simp add: ring_read_def)

lemma ring_read_nth [simp]: "i < k \<Longrightarrow> ring_read d t k ! i = d ! ((t + i) mod length d)"
  by (simp add: ring_read_def)

lemma wrap_index:
  fixes t i n :: nat
  assumes "t < n" "i < n"
  shows "(t + i) mod n = (if t + i < n then t + i else t + i - n)"
  using assms by (simp add: mod_if)

lemma rb_copy_out_eq:
  assumes "t < length d" "k \<le> length d"
  shows "rb_copy_out d (length d) t k = Some (ring_read d t k)"
proof (cases "length d - t \<ge> k")
  case True
  with assms have "take k (drop t d) = ring_read d t k"
    by (intro nth_equalityI) (auto simp: ring_read_def wrap_index)
  with True assms show ?thesis
    by (simp add: rb_copy_out_def rd_bytes_def)
next
  case False
  with assms have "drop t d @ take (k - (length d - t)) d = ring_read d t k"
    by (intro nth_equalityI) (auto simp: nth_append wrap_index add.commute)
  with False assms show ?thesis
    by (simp add: rb_copy_out_def rd_bytes_def)
qed

lemma rb_tail_after_eq:
  assumes "t < n" "k \<le> n"
  shows "rb_tail_after n t k = Some ((t + k) mod n)"
proof (cases "n - t \<ge> k")
  case True
  with assms show ?thesis by (simp add: rb_tail_after_def c_mod_def)
next
  case False
  with assms show ?thesis by (auto simp: rb_tail_after_def mod_if)
qed

lemma rb_copy_in_eq:
  assumes "h < length d" "length x \<le> length d"
  shows "\<exists>d'. rb_copy_in d (length d) h x = Some (d', (h + length x) mod length d) \<and>
    length d' = length d \<and>
    (\<forall>p < length d. d' ! p =
       (if h \<le> p \<and> p < h + length x then x ! (p - h)
        else if p + length d < h + length x then x ! (p + length d - h) else d ! p))"
proof (cases "length d - h \<ge> length x")
  case True
  then have "rb_copy_in d (length d) h x =
      Some (take h d @ x @ drop (h + length x) d, (h + length x) mod length d)"
    using assms by (auto simp: rb_copy_in_def wr_bytes_def c_mod_def Let_def)
  with True assms show ?thesis by (auto simp: nth_append)
next
  case False
  define f where "f = length d - h"
  have f: "f < length x" "h + f = length d" using False assms by (auto simp: f_def)
  have 1: "rb_copy_in d (length d) h x =
      Some (drop f x @ drop (length x - f) (take h d) @ take f x, length x - f)"
    using f assms by (simp add: rb_copy_in_def wr_bytes_def f_def [symmetric] Let_def)
  have 2: "(h + length x) mod length d = length x - f"
  proof -
    have "h + length x - length d = length x - f" "length x - f < length d" using f assms by linarith+
    with f assms show ?thesis by (simp add: mod_if)
  qed
  have 3: "length (drop f x @ drop (length x - f) (take h d) @ take f x) = length d"
    using f assms by auto
  have 4: "\<forall>p < length d. (drop f x @ drop (length x - f) (take h d) @ take f x) ! p =
       (if h \<le> p \<and> p < h + length x then x ! (p - h)
        else if p + length d < h + length x then x ! (p + length d - h) else d ! p)" (is "\<forall>p < length d. ?P p")
  proof (intro allI impI)
    fix p assume p: "p < length d"
    consider "p < length x - f" | "length x - f \<le> p" "p < h" | "h \<le> p" by linarith
    then show "?P p"
    proof cases
      case 1
      then have "f + p = p + length d - h" using f by linarith
      with 1 f p assms show ?thesis by (auto simp: nth_append)
    next
      case 2
      with f p assms show ?thesis by (auto simp: nth_append)
    next
      case 3
      then have "p - (length x - f) - (h - (length x - f)) = p - h" using f assms by linarith
      with 3 f p assms show ?thesis by (auto simp: nth_append min_def)
    qed
  qed
  from 1 3 4 show ?thesis unfolding 2 by blast
qed

text \<open>The bytes before the new ones keep their place, the new ones follow them.\<close>

lemma ring_read_copy_in:
  assumes "t < length d" "k + length x \<le> length d"
  shows "\<exists>d'. rb_copy_in d (length d) ((t + k) mod length d) x =
      Some (d', (t + k + length x) mod length d) \<and>
    length d' = length d \<and> ring_read d' t (k + length x) = ring_read d t k @ x"
proof -
  define n where "n = length d"
  define h where "h = (t + k) mod n"
  have n: "0 < n" "t < n" "k + length x \<le> n" "h < n"
    using assms by (auto simp: n_def h_def intro!: mod_less_divisor)
  have h: "h = (if t + k < n then t + k else t + k - n)"
    using n by (simp add: h_def mod_if)
  obtain d' where d': "rb_copy_in d n h x = Some (d', (h + length x) mod n)" "length d' = n"
    and nth: "\<forall>p < n. d' ! p =
       (if h \<le> p \<and> p < h + length x then x ! (p - h)
        else if p + n < h + length x then x ! (p + n - h) else d ! p)"
    using rb_copy_in_eq [of h d x] n by (auto simp: n_def)
  have "ring_read d' t (k + length x) = ring_read d t k @ x"
  proof (rule nth_equalityI)
    fix i assume "i < length (ring_read d' t (k + length x))"
    then have i: "i < k + length x" by simp
    then have w: "(t + i) mod n = (if t + i < n then t + i else t + i - n)"
      using n by (simp add: mod_if)
    have "(t + i) mod n < n" using n(1) by (rule mod_less_divisor)
    with nth have "d' ! ((t + i) mod n) =
       (if h \<le> (t + i) mod n \<and> (t + i) mod n < h + length x then x ! ((t + i) mod n - h)
        else if (t + i) mod n + n < h + length x then x ! ((t + i) mod n + n - h) else d ! ((t + i) mod n))"
      by simp
    also have "\<dots> = (if i < k then d ! ((t + i) mod n) else x ! (i - k))"
      using i n h w by (auto split: if_splits)
    finally show "ring_read d' t (k + length x) ! i = (ring_read d t k @ x) ! i"
      using i d'(2) by (simp add: nth_append n_def)
  qed simp
  moreover have "(h + length x) mod n = (t + k + length x) mod n"
    unfolding h_def by (simp add: mod_add_left_eq)
  ultimately show ?thesis using d' by (auto simp: n_def h_def)
qed

lemma ring_read_take: "ring_read d t (min k n) = take k (ring_read d t n)"
  by (auto intro!: nth_equalityI)

lemma ring_read_drop:
  "k \<le> n \<Longrightarrow> ring_read d ((t + k) mod length d) (n - k) = drop k (ring_read d t n)"
  by (intro nth_equalityI) (auto simp: mod_add_left_eq add.assoc)

section \<open>Invariant and abstraction\<close>

definition ring_contents :: "ringbuf \<Rightarrow> bytes" where
  "ring_contents s = (case ringbuf_data s of None \<Rightarrow> []
     | Some d \<Rightarrow> ring_read d (ringbuf_tail s) (ringbuf_available s))"

definition rb_ok :: "ringbuf \<Rightarrow> bool" where
  "rb_ok s \<longleftrightarrow> ringbuf_mutex s = MutexFree \<and>
     (case ringbuf_data s of
        None \<Rightarrow> ringbuf_size s = 0 \<and> ringbuf_head s = 0 \<and> ringbuf_tail s = 0 \<and> ringbuf_available s = 0
      | Some d \<Rightarrow> length d = ringbuf_size s \<and> 0 < ringbuf_size s \<and>
          ringbuf_tail s < ringbuf_size s \<and> ringbuf_available s \<le> ringbuf_size s \<and>
          ringbuf_head s = (ringbuf_tail s + ringbuf_available s) mod ringbuf_size s)"

text \<open>While there are bytes, the reader has a signal pending.\<close>

definition rb_signalled :: "ringbuf \<Rightarrow> bool" where
  "rb_signalled s \<longleftrightarrow> (ring_contents s \<noteq> [] \<longrightarrow> data_ready s)"

lemma rb_mutex [lock_simps]:
  "ringbuf_mutex s = MutexFree \<Longrightarrow> rb_take s = Some (s\<lparr>ringbuf_mutex := MutexHeld\<rparr>)"
  "ringbuf_mutex s = MutexHeld \<Longrightarrow> rb_give s = s\<lparr>ringbuf_mutex := MutexFree\<rparr>"
  by (simp_all add: rb_take_def rb_give_def sem_simps)

lemma length_contents: "rb_ok s \<Longrightarrow> length (ring_contents s) = ringbuf_available s"
  by (auto simp: ring_contents_def rb_ok_def split: option.splits)

lemma contents_nil: "rb_ok s \<Longrightarrow> ring_contents s = [] \<longleftrightarrow> ringbuf_available s = 0"
  using length_contents [of s] by (metis length_0_conv)

section \<open>The operations as queue operations\<close>

lemma ringbuf_write_law:
  assumes "rb_ok s"
  shows "\<exists>t. ringbuf_write x s =
      Some (ringbuf_data s \<noteq> None \<and> length (ring_contents s) + length x \<le> ringbuf_size s, t) \<and> rb_ok t \<and>
    ring_contents t = (if ringbuf_data s \<noteq> None \<and> length (ring_contents s) + length x \<le> ringbuf_size s
                       then ring_contents s @ x else ring_contents s) \<and>
    ringbuf_size t = ringbuf_size s \<and> (ringbuf_data t = None) = (ringbuf_data s = None) \<and>
    data_ready t = (data_ready s \<or> (ringbuf_data s \<noteq> None \<and> length (ring_contents s) + length x \<le> ringbuf_size s)) \<and>
    dropped_packets t = dropped_packets s +
      (if ringbuf_data s \<noteq> None \<and> \<not> length (ring_contents s) + length x \<le> ringbuf_size s then 1 else 0)"
proof (cases "ringbuf_data s")
  case None
  with assms show ?thesis by (simp add: ringbuf_write_def)
next
  case (Some d)
  have ok: "ringbuf_mutex s = MutexFree" "length d = ringbuf_size s" "0 < ringbuf_size s"
    "ringbuf_tail s < ringbuf_size s" "ringbuf_available s \<le> ringbuf_size s"
    "ringbuf_head s = (ringbuf_tail s + ringbuf_available s) mod ringbuf_size s"
    using assms Some by (auto simp: rb_ok_def)
  have c: "ring_contents s = ring_read d (ringbuf_tail s) (ringbuf_available s)"
    using Some by (simp add: ring_contents_def)
  show ?thesis
  proof (cases "ringbuf_available s + length x \<le> ringbuf_size s")
    case False
    then have full: "ringbuf_size s - ringbuf_available s < length x" using ok by simp
    have "ringbuf_write x s = Some (False, s\<lparr>dropped_packets := dropped_packets s + 1\<rparr>)"
      using ok Some full by (simp add: ringbuf_write_def lock_simps)
    with False assms ok Some c show ?thesis
      by (simp add: rb_ok_def ring_contents_def)
  next
    case True
    obtain d' where d': "rb_copy_in d (ringbuf_size s) (ringbuf_head s) x =
        Some (d', (ringbuf_tail s + ringbuf_available s + length x) mod ringbuf_size s)"
      "length d' = ringbuf_size s"
      "ring_read d' (ringbuf_tail s) (ringbuf_available s + length x) = ring_contents s @ x"
      using ring_read_copy_in [of "ringbuf_tail s" d "ringbuf_available s" x] ok True c by auto
    have room: "\<not> ringbuf_size s - ringbuf_available s < length x" using True by simp
    have len: "length (ring_contents s) = ringbuf_available s" using c by simp
    define t where "t = s\<lparr>ringbuf_data := Some d', ringbuf_available := ringbuf_available s + length x,
      ringbuf_head := (ringbuf_tail s + ringbuf_available s + length x) mod ringbuf_size s, data_ready := True\<rparr>"
    have "ringbuf_write x s = Some (True, t)"
      using d' ok Some room by (simp add: ringbuf_write_def lock_simps t_def)
    moreover have "rb_ok t" "ring_contents t = ring_contents s @ x"
      using d' ok True by (simp_all add: rb_ok_def ring_contents_def t_def add.assoc)
    ultimately show ?thesis
      using Some True len by (simp add: t_def)
  qed
qed

lemma ringbuf_read_law:
  assumes "rb_ok s"
  shows "\<exists>k t. ringbuf_read n s = Some (take k (ring_contents s), t) \<and> rb_ok t \<and>
    ring_contents t = drop k (ring_contents s) \<and> k \<le> n \<and>
    k = (if data_ready s then min n (length (ring_contents s)) else 0) \<and>
    ringbuf_size t = ringbuf_size s \<and> (ringbuf_data t = None) = (ringbuf_data s = None) \<and>
    (ringbuf_data s \<noteq> None \<longrightarrow> data_ready t = (data_ready s \<and> ring_contents t \<noteq> [])) \<and>
    dropped_packets t = dropped_packets s"
proof (cases "ringbuf_data s")
  case None
  with assms show ?thesis by (simp add: ringbuf_read_def ring_contents_def)
next
  case (Some d)
  have ok: "ringbuf_mutex s = MutexFree" "length d = ringbuf_size s" "0 < ringbuf_size s"
    "ringbuf_tail s < ringbuf_size s" "ringbuf_available s \<le> ringbuf_size s"
    "ringbuf_head s = (ringbuf_tail s + ringbuf_available s) mod ringbuf_size s"
    using assms Some by (auto simp: rb_ok_def)
  have c: "ring_contents s = ring_read d (ringbuf_tail s) (ringbuf_available s)"
    using Some by (simp add: ring_contents_def)
  consider "\<not> data_ready s" | "data_ready s" "ringbuf_available s = 0"
    | "data_ready s" "ringbuf_available s > 0" by blast
  then show ?thesis
  proof cases
    case 1
    with assms ok Some show ?thesis by (simp add: ringbuf_read_def)
  next
    case 2
    with assms ok Some show ?thesis
      by (simp add: ringbuf_read_def lock_simps rb_ok_def ring_contents_def ring_read_def)
  next
    case 3
    define k where "k = (if n < ringbuf_available s then n else ringbuf_available s)"
    have k: "k \<le> ringbuf_available s" "k = min n (ringbuf_available s)" by (auto simp: k_def)
    have out: "rb_copy_out d (ringbuf_size s) (ringbuf_tail s) k = Some (take k (ring_contents s))"
      using rb_copy_out_eq [of "ringbuf_tail s" d k] ok k c ring_read_take [of d "ringbuf_tail s" k "ringbuf_available s"]
      by (simp add: min_def)
    have tl: "rb_tail_after (ringbuf_size s) (ringbuf_tail s) k = Some ((ringbuf_tail s + k) mod ringbuf_size s)"
      using rb_tail_after_eq [of "ringbuf_tail s" "ringbuf_size s" k] ok k by simp
    have rest: "ring_read d ((ringbuf_tail s + k) mod ringbuf_size s) (ringbuf_available s - k) = drop k (ring_contents s)"
      using ring_read_drop [of k "ringbuf_available s" d "ringbuf_tail s"] ok k c by simp
    have hd: "((ringbuf_tail s + k) mod ringbuf_size s + (ringbuf_available s - k)) mod ringbuf_size s =
        (ringbuf_tail s + ringbuf_available s) mod ringbuf_size s"
      proof -
      have "((ringbuf_tail s + k) mod ringbuf_size s + (ringbuf_available s - k)) mod ringbuf_size s =
          ((ringbuf_tail s + k) + (ringbuf_available s - k)) mod ringbuf_size s"
        by (rule mod_add_left_eq)
      also have "(ringbuf_tail s + k) + (ringbuf_available s - k) = ringbuf_tail s + ringbuf_available s"
        using k(1) by linarith
      finally show ?thesis .
    qed
    have len: "length (ring_contents s) = ringbuf_available s" using c by simp
    define t where "t = s\<lparr>ringbuf_tail := (ringbuf_tail s + k) mod ringbuf_size s,
        ringbuf_available := ringbuf_available s - k, ringbuf_mutex := MutexFree,
        data_ready := (ringbuf_available s - k > 0)\<rparr>"
    have run: "ringbuf_read n s = Some (take k (ring_contents s), t)"
      using 3 ok Some out tl
      by (cases "n < ringbuf_available s") (auto simp: ringbuf_read_def lock_simps k_def t_def Let_def)
    have ct: "ring_contents t = drop k (ring_contents s)"
      using Some rest by (simp add: ring_contents_def t_def)
    have "rb_ok t" using ok Some hd by (simp add: rb_ok_def t_def)
    then show ?thesis
      using run ct k len 3 Some by (intro exI [of _ k] exI [of _ t]) (auto simp: t_def)
  qed
qed

interpretation cap: byte_fifo rb_ok ring_contents ringbuf_write ringbuf_read
proof unfold_locales
  fix s d assume "rb_ok s"
  from ringbuf_write_law [OF this, of d] show "\<exists>ok t. ringbuf_write d s = Some (ok, t) \<and> rb_ok t \<and>
      ring_contents t = (if ok then ring_contents s @ d else ring_contents s)" by blast
next
  fix s n assume "rb_ok s"
  from ringbuf_read_law [OF this, of n] show "\<exists>k t. ringbuf_read n s = Some (take k (ring_contents s), t) \<and>
      rb_ok t \<and> ring_contents t = drop k (ring_contents s) \<and> k \<le> n" by blast
qed


lemma ringbuf_peek_law:
  assumes "rb_ok s"
  shows "ringbuf_peek n s = Some (take n (ring_contents s), s)"
proof (cases "ringbuf_data s")
  case None
  with assms show ?thesis by (simp add: ringbuf_peek_def ring_contents_def)
next
  case (Some d)
  have ok: "ringbuf_mutex s = MutexFree" "length d = ringbuf_size s"
    "ringbuf_tail s < ringbuf_size s" "ringbuf_available s \<le> ringbuf_size s"
    using assms Some by (auto simp: rb_ok_def)
  have c: "ring_contents s = ring_read d (ringbuf_tail s) (ringbuf_available s)"
    using Some by (simp add: ring_contents_def)
  have same: "s\<lparr>ringbuf_mutex := MutexFree\<rparr> = s" using ok by (cases s) simp
  have out: "rb_copy_out d (ringbuf_size s) (ringbuf_tail s)
      (if n < ringbuf_available s then n else ringbuf_available s) = Some (take n (ring_contents s))"
  proof -
    have "(if n < ringbuf_available s then n else ringbuf_available s) = min n (ringbuf_available s)" by auto
    moreover have "rb_copy_out d (length d) (ringbuf_tail s) (min n (ringbuf_available s)) =
        Some (ring_read d (ringbuf_tail s) (min n (ringbuf_available s)))"
      using ok by (intro rb_copy_out_eq) auto
    ultimately show ?thesis using ok(2) c by (simp add: ring_read_take)
  qed
  show ?thesis
  proof (cases "ringbuf_available s = 0")
    case True
    with ok Some c same show ?thesis by (simp add: ringbuf_peek_def lock_simps ring_read_def)
  next
    case False
    then have "ringbuf_peek n s = do {
        out \<leftarrow> rb_copy_out d (ringbuf_size s) (ringbuf_tail s)
          (if n < ringbuf_available s then n else ringbuf_available s); Some (out, s\<lparr>ringbuf_mutex := MutexFree\<rparr>) }"
      using ok Some by (simp add: ringbuf_peek_def lock_simps)
    with out same show ?thesis by simp
  qed
qed

lemma ringbuf_skip_law:
  assumes "rb_ok s"
  shows "\<exists>t. ringbuf_skip n s = Some t \<and> rb_ok t \<and> ring_contents t = drop n (ring_contents s) \<and>
    data_ready t = data_ready s \<and> ringbuf_size t = ringbuf_size s"
proof (cases "ringbuf_data s")
  case None
  with assms show ?thesis by (simp add: ringbuf_skip_def ring_contents_def)
next
  case (Some d)
  have ok: "ringbuf_mutex s = MutexFree" "length d = ringbuf_size s" "0 < ringbuf_size s"
    "ringbuf_tail s < ringbuf_size s" "ringbuf_available s \<le> ringbuf_size s"
    "ringbuf_head s = (ringbuf_tail s + ringbuf_available s) mod ringbuf_size s"
    using assms Some by (auto simp: rb_ok_def)
  define k where "k = (if n > ringbuf_available s then ringbuf_available s else n)"
  have k: "k \<le> ringbuf_available s" by (simp add: k_def)
  define t where "t = s\<lparr>ringbuf_tail := (ringbuf_tail s + k) mod ringbuf_size s,
    ringbuf_available := ringbuf_available s - k, ringbuf_mutex := MutexFree\<rparr>"
  have run: "ringbuf_skip n s = Some t"
    using ok Some by (auto simp: ringbuf_skip_def lock_simps c_mod_def k_def t_def Let_def)
  have "ring_contents t = drop k (ring_contents s)"
    using ring_read_drop [of k "ringbuf_available s" d "ringbuf_tail s"] ok k Some
    by (simp add: ring_contents_def t_def)
  also have "\<dots> = drop n (ring_contents s)"
    using length_contents [OF assms] by (simp add: k_def)
  finally have ct: "ring_contents t = drop n (ring_contents s)" .
  have "((ringbuf_tail s + k) mod ringbuf_size s + (ringbuf_available s - k)) mod ringbuf_size s =
      ((ringbuf_tail s + k) + (ringbuf_available s - k)) mod ringbuf_size s"
    by (rule mod_add_left_eq)
  also have "(ringbuf_tail s + k) + (ringbuf_available s - k) = ringbuf_tail s + ringbuf_available s"
    using k by linarith
  finally have "rb_ok t" using ok Some by (simp add: rb_ok_def t_def)
  with run ct show ?thesis by (simp add: t_def)
qed

lemma ringbuf_alloc_law:
  assumes "rb_ok s" "\<forall>b. block = Some b \<longrightarrow> length b = sz" "0 < sz" "rb_signalled s"
  shows "\<exists>ok t. ringbuf_alloc sz block s = Some (ok, t) \<and> rb_ok t \<and> rb_signalled t"
proof (cases "ringbuf_data s")
  case (Some d)
  have "s\<lparr>ringbuf_mutex := MutexFree\<rparr> = s" using assms(1) by (cases s) (simp add: rb_ok_def)
  then have "ringbuf_alloc sz block s = Some (True, s)"
    using Some assms(1) by (simp add: ringbuf_alloc_def ringbuf_alloc_locked_def lock_simps rb_ok_def)
  with assms show ?thesis by blast
next
  case None
  with assms show ?thesis
    by (cases block) (auto simp: ringbuf_alloc_def ringbuf_alloc_locked_def lock_simps rb_ok_def
        ringbuf_drain_def rb_signalled_def ring_contents_def ring_read_def)
qed

lemma ringbuf_free_law:
  "rb_ok s \<Longrightarrow> \<exists>t. ringbuf_free s = Some t \<and> rb_ok t \<and> ring_contents t = []"
  by (cases "ringbuf_data s") (auto simp: ringbuf_free_def lock_simps rb_ok_def ring_contents_def)

lemma ringbuf_reset_law:
  "rb_ok s \<Longrightarrow> \<exists>t. ringbuf_reset s = Some t \<and> rb_ok t \<and> ring_contents t = []"
  by (cases "ringbuf_data s")
    (auto simp: ringbuf_reset_def lock_simps rb_ok_def ring_contents_def ring_read_def)

section \<open>Every sequence of calls\<close>

text \<open>\<open>malloc\<close> returns no block or one of the size asked for; the size is positive.\<close>

inductive rb_step :: "ringbuf \<Rightarrow> ringbuf \<Rightarrow> bool" where
  step_init: "ringbuf_init m b s = (ok, t) \<Longrightarrow> rb_step s t"
| step_alloc: "\<lbrakk>0 < sz; \<forall>b. block = Some b \<longrightarrow> length b = sz; ringbuf_alloc sz block s = Some (ok, t)\<rbrakk> \<Longrightarrow> rb_step s t"
| step_free: "ringbuf_free s = Some t \<Longrightarrow> rb_step s t"
| step_reset: "ringbuf_reset s = Some t \<Longrightarrow> rb_step s t"
| step_write: "ringbuf_write x s = Some (ok, t) \<Longrightarrow> rb_step s t"
| step_read: "ringbuf_read n s = Some (out, t) \<Longrightarrow> rb_step s t"
| step_peek: "ringbuf_peek n s = Some (out, t) \<Longrightarrow> rb_step s t"
| step_skip: "ringbuf_skip n s = Some t \<Longrightarrow> rb_step s t"
| step_reset_dropped: "rb_step s (ringbuf_reset_dropped_count s)"

inductive rb_reachable :: "ringbuf \<Rightarrow> bool" where
  rb_start: "rb_reachable ringbuf_boot"
| rb_next: "rb_reachable s \<Longrightarrow> rb_step s t \<Longrightarrow> rb_reachable t"

inductive_cases rb_stepE: "rb_step s t"

text \<open>Before \<open>ringbuf_init\<close> succeeds there is no mutex and no block.\<close>

definition rb_uninit :: "ringbuf \<Rightarrow> bool" where
  "rb_uninit s \<longleftrightarrow> ringbuf_mutex s = MutexNull \<and> ringbuf_data s = None \<and> ringbuf_size s = 0 \<and>
     ringbuf_head s = 0 \<and> ringbuf_tail s = 0 \<and> ringbuf_available s = 0"

lemma uninit_step: "rb_uninit s \<Longrightarrow> rb_step s t \<Longrightarrow> rb_uninit t \<or> (rb_ok t \<and> rb_signalled t)"
  by (erule rb_stepE)
    (auto simp: rb_uninit_def ringbuf_init_def ringbuf_alloc_def ringbuf_alloc_locked_def ringbuf_free_def
       ringbuf_reset_def ringbuf_write_def ringbuf_read_def ringbuf_peek_def ringbuf_skip_def
       ringbuf_reset_dropped_count_def rb_ok_def rb_signalled_def ring_contents_def split: if_splits)

lemma ok_step:
  assumes "rb_ok s" "rb_signalled s" "rb_step s t"
  shows "rb_ok t \<and> rb_signalled t"
  using assms(3)
proof (cases rule: rb_step.cases)
  case (step_init m b ok)
  with assms show ?thesis by (auto simp: ringbuf_init_def rb_ok_def)
next
  case (step_alloc sz block ok)
  with ringbuf_alloc_law [OF assms(1) step_alloc(2,1) assms(2)] show ?thesis by simp
next
  case step_free
  with ringbuf_free_law [OF assms(1)] show ?thesis by (simp add: rb_signalled_def)
next
  case step_reset
  with ringbuf_reset_law [OF assms(1)] show ?thesis by (simp add: rb_signalled_def)
next
  case (step_write x ok)
  with ringbuf_write_law [OF assms(1), of x] assms(2) show ?thesis
    by (auto simp: rb_signalled_def split: if_splits)
next
  case (step_read n out)
  obtain k u where u: "ringbuf_read n s = Some (take k (ring_contents s), u)" "rb_ok u"
    "ring_contents u = drop k (ring_contents s)" "k = (if data_ready s then min n (length (ring_contents s)) else 0)"
    "(ringbuf_data u = None) = (ringbuf_data s = None)"
    "ringbuf_data s \<noteq> None \<longrightarrow> data_ready u = (data_ready s \<and> ring_contents u \<noteq> [])"
    using ringbuf_read_law [OF assms(1), of n] by (elim exE conjE) (rule that)
  have tu: "t = u" using step_read u(1) by simp
  show ?thesis
  proof (cases "ringbuf_data s")
    case None
    with u(5) have "ring_contents u = []" by (simp add: ring_contents_def)
    with u(2) show ?thesis by (simp add: rb_signalled_def tu)
  next
    case (Some d)
    with u assms(2) show ?thesis by (auto simp: rb_signalled_def tu)
  qed
next
  case (step_peek n out)
  with ringbuf_peek_law [OF assms(1), of n] assms show ?thesis by simp
next
  case (step_skip n)
  with ringbuf_skip_law [OF assms(1), of n] assms(2) show ?thesis by (auto simp: rb_signalled_def)
next
  case step_reset_dropped
  with assms show ?thesis
    by (cases "ringbuf_data s")
      (simp_all add: ringbuf_reset_dropped_count_def rb_ok_def rb_signalled_def ring_contents_def)
qed

lemma reachable_cases: "rb_reachable s \<Longrightarrow> rb_uninit s \<or> (rb_ok s \<and> rb_signalled s)"
proof (induction rule: rb_reachable.induct)
  case rb_start
  then show ?case by (simp add: rb_uninit_def ringbuf_boot_def)
next
  case (rb_next s t)
  with uninit_step ok_step show ?case by blast
qed

section \<open>Properties\<close>

text \<open>C10: between any two moments of the ring buffer's life, the bytes it held plus the accepted
  writes are, in order, the bytes read plus what it still holds: no byte is lost, repeated or
  reordered by the wrap-around, and no call faults.\<close>

theorem ringbuf_fifo:
  assumes "rb_ok s"
  shows "\<exists>acc got t. fifo_run ringbuf_write ringbuf_read xs s = Some (acc, got, t) \<and> rb_ok t \<and>
    ring_contents s @ acc = got @ ring_contents t"
  using cap.run_conserves [OF assms] by blast

definition rb_example :: ringbuf where
  "rb_example = \<lparr>ringbuf_data = Some [1, 2, 3, 4], ringbuf_size = 4, ringbuf_head = 1, ringbuf_tail = 3,
     ringbuf_available = 2, dropped_packets = 0, ringbuf_mutex = MutexFree, data_ready = True\<rparr>"

theorem ringbuf_fifo_witness:
  "\<exists>acc got t. fifo_run ringbuf_write ringbuf_read [FifoWrite [7, 8], FifoWrite [9], FifoRead 3] rb_example =
     Some (acc, got, t) \<and> rb_ok t \<and> [4, 1] @ acc = got @ ring_contents t"
  using ringbuf_fifo [of rb_example "[FifoWrite [7, 8], FifoWrite [9], FifoRead 3]"]
  by (simp add: rb_ok_def rb_example_def ring_contents_def ring_read_def upt_rec)

text \<open>Whatever calls were made, if the buffer holds bytes the next read returns them,
  up to its limit, and leaves the rest: no wake-up is lost when the operations do not interleave.\<close>

theorem ringbuf_reader_progress:
  assumes "rb_reachable s" "ring_contents s \<noteq> []"
  shows "\<exists>t. ringbuf_read n s = Some (take n (ring_contents s), t) \<and> rb_ok t \<and>
    ring_contents t = drop n (ring_contents s)"
proof -
  have "\<not> rb_uninit s" using assms(2) by (auto simp: rb_uninit_def ring_contents_def)
  then have s: "rb_ok s" "rb_signalled s" using reachable_cases [OF assms(1)] by auto
  then have "data_ready s" using assms(2) by (simp add: rb_signalled_def)
  then obtain t where "ringbuf_read n s = Some (take (min n (length (ring_contents s))) (ring_contents s), t)"
    "rb_ok t" "ring_contents t = drop (min n (length (ring_contents s))) (ring_contents s)"
    using ringbuf_read_law [OF s(1), of n] by auto
  then show ?thesis by (auto simp: min_def)
qed

lemma rb_run_example:
  "\<exists>s. rb_reachable s \<and> ring_contents s = [5, 6]"
proof -
  define s1 where "s1 = snd (ringbuf_init True True ringbuf_boot)"
  define s2 where "s2 = snd (the (ringbuf_alloc 3 (Some [0, 0, 0]) s1))"
  define s3 where "s3 = snd (the (ringbuf_write [5, 6] s2))"
  note ev = s1_def s2_def s3_def ringbuf_init_def ringbuf_alloc_def ringbuf_alloc_locked_def ringbuf_boot_def
    lock_simps ringbuf_drain_def ringbuf_write_def rb_copy_in_def wr_bytes_def c_mod_def
  have "rb_reachable s1"
    by (rule rb_next [OF rb_start step_init [of True True _ True]]) (simp add: ev)
  moreover have "ringbuf_alloc 3 (Some [0, 0, 0]) s1 = Some (True, s2)" by (simp add: ev)
  ultimately have "rb_reachable s2"
    by (elim rb_next) (rule step_alloc [of 3 "Some [0, 0, 0]" s1 True s2], simp_all)
  moreover have "ringbuf_write [5, 6] s2 = Some (True, s3)" by (simp add: ev)
  ultimately have "rb_reachable s3" by (elim rb_next step_write)
  moreover have "ring_contents s3 = [5, 6]" by (simp add: ev ring_contents_def ring_read_def upt_rec)
  ultimately show ?thesis by blast
qed

theorem ringbuf_reader_progress_witness:
  "\<exists>s t. rb_reachable s \<and> ringbuf_read 1 s = Some ([5], t) \<and> ring_contents t = [6]"
proof -
  obtain s where s: "rb_reachable s" "ring_contents s = [5, 6]" using rb_run_example by blast
  from ringbuf_reader_progress [OF s(1), of 1] s(2)
  have "\<exists>t. ringbuf_read 1 s = Some ([5], t) \<and> ring_contents t = [6]" by auto
  with s(1) show ?thesis by blast
qed

text \<open>\<open>ringbuf_peek\<close> followed by \<open>ringbuf_skip\<close> of what it returned leaves the queue as
  \<open>ringbuf_read\<close> does, and peeking changes nothing.\<close>

theorem ringbuf_peek_skip_is_read:
  assumes "rb_ok s" "data_ready s"
  shows "\<exists>out t u. ringbuf_peek n s = Some (out, s) \<and> ringbuf_skip (length out) s = Some t \<and>
    ringbuf_read n s = Some (out, u) \<and> ring_contents t = ring_contents u"
proof -
  obtain u where u: "ringbuf_read n s = Some (take (min n (length (ring_contents s))) (ring_contents s), u)"
    "ring_contents u = drop (min n (length (ring_contents s))) (ring_contents s)"
    using ringbuf_read_law [OF assms(1), of n] assms(2) by auto
  from ringbuf_skip_law [OF assms(1), of "min n (length (ring_contents s))"] u ringbuf_peek_law [OF assms(1), of n]
  show ?thesis by (auto simp: min.commute min_def split: if_splits)
qed

theorem ringbuf_peek_skip_is_read_witness:
  "\<exists>out t u. ringbuf_peek 1 rb_example = Some (out, rb_example) \<and> ringbuf_skip (length out) rb_example = Some t \<and>
    ringbuf_read 1 rb_example = Some (out, u) \<and> ring_contents t = ring_contents u"
  by (rule ringbuf_peek_skip_is_read) (simp_all add: rb_ok_def rb_example_def)

text \<open>A packet written between the two halves of \<open>ringbuf_alloc\<close> (after the mutex is
  released, before the semaphore is drained) is stored without a signal: the reader gets nothing.\<close>

theorem ringbuf_alloc_race:
  assumes "rb_ok s" "ringbuf_data s = None" "length b = sz" "x \<noteq> []" "length x \<le> sz"
  shows "\<exists>t u. ringbuf_alloc_locked sz (Some b) s = Some (True, True, t) \<and> ringbuf_write x t = Some (True, u) \<and>
    ring_contents (ringbuf_drain u) = x \<and> ringbuf_read n (ringbuf_drain u) = Some ([], ringbuf_drain u)"
proof -
  define t where "t = s\<lparr>ringbuf_data := Some b, ringbuf_size := sz, ringbuf_head := 0, ringbuf_tail := 0,
    ringbuf_available := 0, dropped_packets := 0\<rparr>"
  have m: "ringbuf_mutex s = MutexFree" using assms(1) by (simp add: rb_ok_def)
  have t: "ringbuf_alloc_locked sz (Some b) s = Some (True, True, t)"
    using m assms(2) by (cases s) (simp add: ringbuf_alloc_locked_def lock_simps t_def)
  have "0 < sz" using assms(4,5) by (cases x) auto
  then have ok: "rb_ok t" "ring_contents t = []"
    using m assms(3) by (simp_all add: rb_ok_def t_def ring_contents_def ring_read_def)
  obtain u where u: "ringbuf_write x t = Some (True, u)" "rb_ok u" "ring_contents u = x"
    "ringbuf_data u \<noteq> None"
    using ringbuf_write_law [OF ok(1), of x] ok(2) assms(5) by (auto simp: t_def)
  have "ringbuf_mutex u = MutexFree" using u(2) by (simp add: rb_ok_def)
  with t u show ?thesis
    by (auto simp: ringbuf_drain_def ringbuf_read_def ring_contents_def)
qed

theorem ringbuf_alloc_race_witness:
  "\<exists>t u. ringbuf_alloc_locked 2 (Some [0, 0]) (snd (ringbuf_init True True ringbuf_boot)) = Some (True, True, t) \<and>
    ringbuf_write [7] t = Some (True, u) \<and> ring_contents (ringbuf_drain u) = [7] \<and>
    ringbuf_read 1 (ringbuf_drain u) = Some ([], ringbuf_drain u)"
  by (rule ringbuf_alloc_race) (simp_all add: rb_ok_def ringbuf_init_def ringbuf_boot_def)

end
