(* ===== verification/Dhcp_Reservations.thy ===== *)
theory Dhcp_Reservations
  imports Config_Store
begin

text \<open>
  The table of DHCP reservations (\<open>main/dhcp_manager.c\<close>): fixed addresses, device names
  and blocked clients, keyed by MAC address.
\<close>

section \<open>The table and its operations\<close>

definition PROTO_TCP :: u8 where "PROTO_TCP = 6"
definition AP_MAX_CONNECTIONS :: nat where "AP_MAX_CONNECTIONS = 8"
definition MAX_DHCP_RESERVATIONS :: nat where "MAX_DHCP_RESERVATIONS = AP_MAX_CONNECTIONS + 2"
definition DHCP_RESERVATION_NAME_LEN :: nat where "DHCP_RESERVATION_NAME_LEN = 32"

text \<open>A MAC address is a list of six bytes, so \<open>memcmp(a, b, 6) == 0\<close> is equality.\<close>

record dhcp_reservation =
  dr_mac :: mac
  dr_ip :: u32
  dr_name :: string
  dr_valid :: u8

definition dr_zero :: dhcp_reservation where
  "dr_zero = \<lparr>dr_mac = [0, 0, 0, 0, 0, 0], dr_ip = 0, dr_name = [], dr_valid = 0\<rparr>"

definition dr_used :: "dhcp_reservation \<Rightarrow> bool" where
  "dr_used e \<longleftrightarrow> dr_valid e \<noteq> 0"

definition dr_clear :: "dhcp_reservation \<Rightarrow> dhcp_reservation" where
  "dr_clear e = e\<lparr>dr_valid := 0\<rparr>"

text \<open>\<open>sizeof(struct dhcp_reservation_entry)\<close>: 6 bytes, padding, 4, 32, 1, padding.\<close>

definition DHCP_RES_ENTRY_SIZE :: nat where "DHCP_RES_ENTRY_SIZE = 48"

definition get_dhcp_reservations ::
  "('n, dhcp_reservation list) nvs_len_api \<Rightarrow> dhcp_reservation list \<Rightarrow> 'n \<Rightarrow> esp_err \<times> dhcp_reservation list" where
  "get_dhcp_reservations api tab n = get_table_blob api ''dhcp_res'' DHCP_RES_ENTRY_SIZE dr_zero tab n"

definition save_reservations :: "('n, dhcp_reservation list, 'z) nvs_api_scheme \<Rightarrow> dhcp_reservation list \<Rightarrow> 'n
    \<Rightarrow> esp_err \<times> dhcp_reservation list \<times> 'n" where
  "save_reservations api tab n =
     (let (err, n) = set_config_param_blob api ''dhcp_res'' tab n in (err, tab, n))"

definition stored_name :: "string option \<Rightarrow> string" where
  "stored_name name = (case name of None \<Rightarrow> [] | Some s \<Rightarrow> strncpy_trunc DHCP_RESERVATION_NAME_LEN s)"

definition add_dhcp_reservation :: "('n, dhcp_reservation list, 'z) nvs_api_scheme \<Rightarrow> mac \<Rightarrow> u32 \<Rightarrow> string option
    \<Rightarrow> dhcp_reservation list \<Rightarrow> 'n \<Rightarrow> esp_err \<times> dhcp_reservation list \<times> 'n" where
  "add_dhcp_reservation api mac ip name tab n =
     (case find_first (\<lambda>e. dr_used e \<and> dr_mac e = mac) tab of
        Some i \<Rightarrow> save_reservations api (tab[i := (tab ! i)\<lparr>dr_ip := ip, dr_name := stored_name name\<rparr>]) n
      | None \<Rightarrow>
         (case find_first (\<lambda>e. \<not> dr_used e) tab of
            Some i \<Rightarrow> save_reservations api
              (tab[i := \<lparr>dr_mac = mac, dr_ip = ip, dr_name = stored_name name, dr_valid = 1\<rparr>]) n
          | None \<Rightarrow> (ESP_ERR_NO_MEM, tab, n)))"

definition del_dhcp_reservation :: "('n, dhcp_reservation list, 'z) nvs_api_scheme \<Rightarrow> mac
    \<Rightarrow> dhcp_reservation list \<Rightarrow> 'n \<Rightarrow> esp_err \<times> dhcp_reservation list \<times> 'n" where
  "del_dhcp_reservation api mac tab n =
     (case find_first (\<lambda>e. dr_used e \<and> dr_mac e = mac) tab of
        Some i \<Rightarrow> save_reservations api (tab[i := dr_clear (tab ! i)]) n
      | None \<Rightarrow> (ESP_OK, tab, n))"

definition clear_all_dhcp_reservations :: "('n, dhcp_reservation list, 'z) nvs_api_scheme
    \<Rightarrow> dhcp_reservation list \<Rightarrow> 'n \<Rightarrow> esp_err \<times> dhcp_reservation list \<times> 'n" where
  "clear_all_dhcp_reservations api tab n = save_reservations api (map dr_clear tab) n"

definition lookup_dhcp_reservation :: "mac \<Rightarrow> dhcp_reservation list \<Rightarrow> u32" where
  "lookup_dhcp_reservation mac tab =
     (case find_first (\<lambda>e. dr_used e \<and> dr_mac e = mac) tab of Some i \<Rightarrow> dr_ip (tab ! i) | None \<Rightarrow> 0)"

definition is_ip_reserved_for_other :: "u32 \<Rightarrow> mac \<Rightarrow> dhcp_reservation list \<Rightarrow> bool" where
  "is_ip_reserved_for_other ip mac tab =
     (if ip = 0 then False
      else find_first (\<lambda>e. dr_used e \<and> dr_ip e = ip \<and> dr_mac e \<noteq> mac) tab \<noteq> None)"

definition is_mac_blocked :: "u8 \<Rightarrow> mac \<Rightarrow> dhcp_reservation list \<Rightarrow> bool" where
  "is_mac_blocked ap_known_only mac tab =
     (case find_first (\<lambda>e. dr_used e \<and> dr_mac e = mac) tab of
        Some i \<Rightarrow> dr_ip (tab ! i) = 0 | None \<Rightarrow> ap_known_only \<noteq> 0)"

definition lookup_device_name_by_ip :: "u32 \<Rightarrow> dhcp_reservation list \<Rightarrow> string option" where
  "lookup_device_name_by_ip ip tab =
     map_option (\<lambda>i. dr_name (tab ! i))
       (find_first (\<lambda>e. dr_used e \<and> dr_ip e = ip \<and> dr_name e \<noteq> []) tab)"

definition lookup_device_name_by_mac :: "mac \<Rightarrow> dhcp_reservation list \<Rightarrow> string option" where
  "lookup_device_name_by_mac mac tab =
     map_option (\<lambda>i. dr_name (tab ! i))
       (find_first (\<lambda>e. dr_used e \<and> dr_mac e = mac \<and> dr_name e \<noteq> []) tab)"

definition resolve_device_name_to_ip :: "string option \<Rightarrow> dhcp_reservation list \<Rightarrow> u32 option" where
  "resolve_device_name_to_ip name tab =
     (case name of None \<Rightarrow> None
      | Some nm \<Rightarrow> map_option (\<lambda>i. dr_ip (tab ! i))
          (find_first (\<lambda>e. dr_used e \<and> dr_name e \<noteq> [] \<and> strcaseeq (dr_name e) nm) tab))"

text \<open>The address pool the user interface announces; the results are in network order.\<close>

definition DHCPS_MAX_LEASE :: u32 where "DHCPS_MAX_LEASE = 0x64"

definition get_dhcp_pool_range :: "u32 \<Rightarrow> u32 \<times> u32" where
  "get_dhcp_pool_range server_ip =
     (let netmask = 0xFFFFFF00;
          server_ip_host = ntohl server_ip;
          range_start_ip = server_ip_host AND netmask;
          range_end_ip = range_start_ip OR NOT netmask;
          (range_start_ip, range_end_ip) =
            (if server_ip_host - range_start_ip > range_end_ip - server_ip_host
             then (range_start_ip + 1, server_ip_host - 1)
             else (server_ip_host + 1, range_end_ip - 1));
          range_end_ip = (if range_end_ip - range_start_ip + 1 > DHCPS_MAX_LEASE
             then range_start_ip + DHCPS_MAX_LEASE - 1 else range_end_ip)
      in (htonl range_start_ip, htonl range_end_ip))"

section \<open>Connected clients\<close>

record dhcp_lease_info =
  li_mac :: mac
  li_ip :: u32
  li_lease_timer :: u32
  li_hostname :: string

record connected_client =
  cc_mac :: mac
  cc_ip :: u32
  cc_name :: string
  cc_has_ip :: bool

definition client_of :: "dhcp_lease_info list \<Rightarrow> dhcp_reservation list \<Rightarrow> mac \<Rightarrow> connected_client" where
  "client_of leases tab sta =
     (let c = \<lparr>cc_mac = sta, cc_ip = 0, cc_name = [], cc_has_ip = False\<rparr>;
          c = (case find_first (\<lambda>l. li_mac l = sta) leases of None \<Rightarrow> c
               | Some j \<Rightarrow> let l = leases ! j; c = c\<lparr>cc_ip := li_ip l, cc_has_ip := True\<rparr> in
                   if li_hostname l \<noteq> []
                   then c\<lparr>cc_name := strncpy_trunc DHCP_RESERVATION_NAME_LEN (li_hostname l)\<rparr> else c)
      in case find_first (\<lambda>e. dr_used e \<and> dr_mac e = sta) tab of None \<Rightarrow> c
         | Some j \<Rightarrow> if dr_name (tab ! j) \<noteq> []
             then c\<lparr>cc_name := strncpy_trunc DHCP_RESERVATION_NAME_LEN (dr_name (tab ! j))\<rparr> else c)"

text \<open>
  \<open>stations\<close> is what \<open>esp_wifi_ap_get_sta_list\<close> returned, \<open>active\<close> what
  \<open>dhcps_get_active_leases\<close> stores for at most eight leases; \<open>clients\<close> may be \<open>NULL\<close>.
\<close>

definition get_connected_clients :: "esp_err \<times> mac list \<Rightarrow> (nat \<Rightarrow> dhcp_lease_info list) \<Rightarrow> dhcp_reservation list
    \<Rightarrow> bool \<Rightarrow> int \<Rightarrow> connected_client list" where
  "get_connected_clients stations active tab clients_null max_clients =
     (if clients_null \<or> max_clients \<le> 0 then []
      else if fst stations \<noteq> ESP_OK then []
      else let leases = active 8 in
        map (client_of leases tab) (take (nat max_clients) (snd stations)))"

text \<open>The lines printed by \<open>print_dhcp_reservations\<close>: MAC, address (\<open>None\<close>: BLOCKED), name.\<close>

definition print_dhcp_reservations :: "dhcp_reservation list \<Rightarrow> (mac \<times> u32 option \<times> string) list" where
  "print_dhcp_reservations tab =
     map (\<lambda>e. (dr_mac e, if dr_ip e = 0 then None else Some (dr_ip e), dr_name e)) (filter dr_used tab)"

text \<open>\<open>print_dhcp_pool\<close>: first address, last address and their number.\<close>

definition print_dhcp_pool :: "u32 \<Rightarrow> u32 \<times> u32 \<times> u32" where
  "print_dhcp_pool my_ap_ip =
     (let (start_ip, end_ip) = get_dhcp_pool_range my_ap_ip in
      (start_ip, end_ip, ntohl end_ip - ntohl start_ip + 1))"

end
