(* ===== verification/Dhcp_Server.thy ===== *)
theory Dhcp_Server
  imports Dhcp_Reservations
begin

text \<open>
  The DHCP server (\<open>components/dhcpserver/dhcpserver.c\<close>), first part: its state, the
  lease list, the options of a request and the assignment of addresses.

  An IPv4 address is the 32-bit value of its \<open>addr\<close> field, in network order: the first
  octet is the least significant byte.  The code compares addresses in this form.  The
  lease list is modelled by the sequence of its nodes; a pointer to a node is its position.
\<close>

section \<open>State\<close>

definition DHCPDISCOVER :: u8 where "DHCPDISCOVER = 1"
definition DHCPOFFER :: u8 where "DHCPOFFER = 2"
definition DHCPREQUEST :: u8 where "DHCPREQUEST = 3"
definition DHCPDECLINE :: u8 where "DHCPDECLINE = 4"
definition DHCPACK :: u8 where "DHCPACK = 5"
definition DHCPNAK :: u8 where "DHCPNAK = 6"
definition DHCPRELEASE :: u8 where "DHCPRELEASE = 7"

definition DHCP_OPTION_PAD :: u8 where "DHCP_OPTION_PAD = 0"
definition DHCP_OPTION_HOSTNAME :: u8 where "DHCP_OPTION_HOSTNAME = 12"
definition DHCP_OPTION_REQ_IPADDR :: u8 where "DHCP_OPTION_REQ_IPADDR = 50"
definition DHCP_OPTION_MSG_TYPE :: u8 where "DHCP_OPTION_MSG_TYPE = 53"
definition DHCP_OPTION_END :: u8 where "DHCP_OPTION_END = 255"

definition DHCPS_STATE_OFFER :: nat where "DHCPS_STATE_OFFER = 1"
definition DHCPS_STATE_DECLINE :: nat where "DHCPS_STATE_DECLINE = 2"
definition DHCPS_STATE_ACK :: nat where "DHCPS_STATE_ACK = 3"
definition DHCPS_STATE_NAK :: nat where "DHCPS_STATE_NAK = 4"
definition DHCPS_STATE_IDLE :: nat where "DHCPS_STATE_IDLE = 5"
definition DHCPS_STATE_RELEASE :: nat where "DHCPS_STATE_RELEASE = 6"

definition DHCPS_MAX_HOSTNAME_LEN :: nat where "DHCPS_MAX_HOSTNAME_LEN = 32"

datatype dhcps_handle_state = DHCPS_HANDLE_CREATED | DHCPS_HANDLE_STARTED | DHCPS_HANDLE_STOPPED
  | DHCPS_HANDLE_DELETE_PENDING

record dhcps_pool =
  lp_ip :: u32
  lp_mac :: mac
  lp_timer :: u32
  lp_hostname :: string

text \<open>The network interface, as far as the server looks at it.\<close>

record netif =
  nif_id :: nat
  nif_up :: bool
  nif_ip :: u32
  nif_netmask :: u32
  nif_gw :: u32

text \<open>
  The handle.  \<open>dhcps_pcb\<close>: whether a UDP control block is held; \<open>dhcps_cb\<close>: whether a
  lease callback is set; \<open>pending_timers\<close>: how many \<open>dhcps_tmr\<close> timeouts are scheduled.
\<close>

record dhcps =
  dhcps_netif :: "netif option"
  broadcast_dhcps :: u32
  server_address :: u32
  dns_server :: "u32 list"
  client_address :: u32
  client_address_plus :: u32
  dhcps_mask :: u32
  plist :: "dhcps_pool list"
  renew :: bool
  poll_enable :: bool
  poll_start :: u32
  poll_end :: u32
  dhcps_lease_time :: u32
  dhcps_offer :: u8
  dhcps_dns :: u8
  dhcps_captiveportal_uri :: "string option"
  dhcps_cb :: bool
  dhcps_pcb :: bool
  hstate :: dhcps_handle_state
  has_declined_ip :: bool
  current_hostname :: string
  pending_timers :: nat

text \<open>
  Build options and what the environment answers: \<open>ETHARP_SUPPORT_STATIC_ENTRIES\<close>,
  \<open>CONFIG_LWIP_DHCPS_ADD_DNS\<close>, \<open>CONFIG_LWIP_DHCPS_LEASE_UNIT\<close>,
  \<open>CONFIG_LWIP_DHCPS_MAX_STATION_NUM\<close>; whether the heap has room for the
  message buffer and for a lease, the pbuf pool and the UDP stack for theirs, and whether a datagram could be sent.
\<close>

record dhcps_env =
  static_arp :: bool
  add_dns :: bool
  lease_unit :: u32
  max_station_num :: u8
  heap_ok :: bool
  node_ok :: bool
  pbuf_ok :: bool
  udp_new_ok :: bool
  udp_send_ok :: bool

definition dhcps_new :: dhcps where
  "dhcps_new = \<lparr>dhcps_netif = None, broadcast_dhcps = 0, server_address = 0, dns_server = [0, 0],
     client_address = 0, client_address_plus = 0, dhcps_mask = htonl 0xFFFFFF00, plist = [],
     renew = False, poll_enable = False, poll_start = 0, poll_end = 0, dhcps_lease_time = 120,
     dhcps_offer = 0xFF, dhcps_dns = 0, dhcps_captiveportal_uri = None, dhcps_cb = False,
     dhcps_pcb = False, hstate = DHCPS_HANDLE_CREATED, has_declined_ip = False,
     current_hostname = [], pending_timers = 0\<rparr>"

text \<open>\<open>None\<close>: the handle is freed.\<close>

definition dhcps_delete :: "dhcps \<Rightarrow> dhcps option" where
  "dhcps_delete d =
     (if hstate d = DHCPS_HANDLE_STARTED then Some (d\<lparr>hstate := DHCPS_HANDLE_DELETE_PENDING\<rparr>) else None)"

section \<open>The lease list\<close>

text \<open>The position a node goes to, and the insertion.\<close>

fun node_position :: "u32 \<Rightarrow> dhcps_pool list \<Rightarrow> nat" where
  "node_position ip [] = 0"
| "node_position ip (l # ls) = (if ip < lp_ip l then 0 else Suc (node_position ip ls))"

definition node_insert_to_list :: "dhcps_pool \<Rightarrow> dhcps_pool list \<Rightarrow> dhcps_pool list" where
  "node_insert_to_list x ls =
     take (node_position (lp_ip x) ls) ls @ x # drop (node_position (lp_ip x) ls) ls"

definition node_remove_from_list :: "nat \<Rightarrow> dhcps_pool list \<Rightarrow> dhcps_pool list" where
  "node_remove_from_list i ls = take i ls @ drop (Suc i) ls"

section \<open>Options of a request\<close>

record opt_state =
  os_type :: u8
  os_state :: nat
  os_host :: string

text \<open>The host name alphabet (letters, digits, hyphen, dot, underscore); anything else becomes an underscore.\<close>

definition host_char :: "u8 \<Rightarrow> bool" where
  "host_char c \<longleftrightarrow> (0x61 \<le> c \<and> c \<le> 0x7A) \<or> (0x41 \<le> c \<and> c \<le> 0x5A) \<or> (0x30 \<le> c \<and> c \<le> 0x39)
     \<or> c = 0x2D \<or> c = 0x2E \<or> c = 0x5F"

definition clean_hostname :: "bytes \<Rightarrow> string" where
  "clean_hostname v = map (\<lambda>c. char_of (unat (if host_char c then c else 0x5F)))
     (take (DHCPS_MAX_HOSTNAME_LEN - 1) v)"

text \<open>The body of the \<open>switch\<close> in \<open>parse_options\<close>, for an option with its data.\<close>

definition opt_step :: "u32 \<Rightarrow> u8 \<Rightarrow> bytes \<Rightarrow> opt_state \<Rightarrow> opt_state" where
  "opt_step client t v s =
     (if t = DHCP_OPTION_MSG_TYPE then (if length v \<ge> 1 then s\<lparr>os_type := v ! 0\<rparr> else s)
      else if t = DHCP_OPTION_HOSTNAME then (if length v > 0 then s\<lparr>os_host := clean_hostname v\<rparr> else s)
      else if t = DHCP_OPTION_REQ_IPADDR then
        (if length v \<ge> 4
         then s\<lparr>os_state := (if take 4 v = le32_bytes client then DHCPS_STATE_ACK else DHCPS_STATE_NAK)\<rparr> else s)
      else s)"

text \<open>The loop over the options in the buffer, from offset \<open>i\<close> up to \<open>e\<close>.\<close>

function parse_opt_loop :: "bytes \<Rightarrow> u32 \<Rightarrow> nat \<Rightarrow> nat \<Rightarrow> opt_state \<Rightarrow> opt_state option" where
  "parse_opt_loop m client i e s =
     (if \<not> i < e then Some s
      else case rd8 m i of None \<Rightarrow> None
      | Some t \<Rightarrow>
          if t = DHCP_OPTION_PAD then parse_opt_loop m client (i + 1) e s
          else if t = DHCP_OPTION_END then Some s
          else if i + 1 \<ge> e then Some s
          else case rd8 m (i + 1) of None \<Rightarrow> None
          | Some opt_len \<Rightarrow>
              if i + 2 + unat opt_len > e then Some s
              else case rd_bytes m (i + 2) (unat opt_len) of None \<Rightarrow> None
              | Some v \<Rightarrow> parse_opt_loop m client (i + (unat opt_len + 2)) e (opt_step client t v s))"
  by pat_completeness auto
termination
  by (relation "measure (\<lambda>(m, client, i, e, s). e - i)") auto

declare parse_opt_loop.simps [simp del]

text \<open>The \<open>switch (type)\<close> at the end.\<close>

definition opt_result :: "bool \<Rightarrow> opt_state \<Rightarrow> nat" where
  "opt_result rnw s =
     (if os_type s = DHCPDISCOVER then DHCPS_STATE_OFFER
      else if os_type s = DHCPREQUEST then
        (if \<not> (os_state s = DHCPS_STATE_ACK \<or> os_state s = DHCPS_STATE_NAK)
         then (if rnw then DHCPS_STATE_ACK else DHCPS_STATE_NAK) else os_state s)
      else if os_type s = DHCPDECLINE then DHCPS_STATE_DECLINE
      else if os_type s = DHCPRELEASE then DHCPS_STATE_RELEASE
      else os_state s)"

text \<open>
  \<open>parse_options(dhcps, &m->options[4], len)\<close>: the options start at offset 240; with a
  negative \<open>len\<close> the loop does not run.
\<close>

definition OPTIONS_OFS :: nat where "OPTIONS_OFS = 240"

definition parse_options :: "bytes \<Rightarrow> int \<Rightarrow> dhcps \<Rightarrow> (nat \<times> dhcps) option" where
  "parse_options m len d =
     (case parse_opt_loop m (client_address d) OPTIONS_OFS (OPTIONS_OFS + nat len)
             \<lparr>os_type = 0, os_state = DHCPS_STATE_IDLE, os_host = []\<rparr> of
        None \<Rightarrow> None
      | Some s \<Rightarrow> Some (opt_result (renew d) s, d\<lparr>current_hostname := os_host s\<rparr>))"

section \<open>Choosing an address\<close>

definition next_ip :: "u32 \<Rightarrow> u32" where
  "next_ip a = htonl (htonl a + 1)"

record scan =
  sc_plus :: u32
  sc_client :: u32
  sc_first :: u32
  sc_flag :: bool

text \<open>One node that does not belong to the client.\<close>

definition scan_step :: "u32 \<Rightarrow> scan \<Rightarrow> scan" where
  "scan_step ip c =
     (let c = (if ip = sc_plus c then c\<lparr>sc_plus := next_ip (sc_plus c), sc_client := next_ip (sc_plus c)\<rparr> else c)
      in if \<not> sc_flag c then (if sc_first c < ip then c\<lparr>sc_flag := True\<rparr> else c\<lparr>sc_first := next_ip (sc_first c)\<rparr>)
         else c)"

text \<open>The loop over the leases; the result is the position of the client's own lease, if any.\<close>

fun lease_scan :: "mac \<Rightarrow> dhcps_pool list \<Rightarrow> nat \<Rightarrow> scan \<Rightarrow> nat option \<times> scan" where
  "lease_scan mac [] i c = (None, c)"
| "lease_scan mac (l # ls) i c =
     (if lp_mac l = mac then (Some i, c) else lease_scan mac ls (Suc i) (scan_step (lp_ip l) c))"

text \<open>\<open>parse_msg\<close> up to the end of that loop: own lease, first unused address, new state.\<close>

definition dhcps_scan :: "mac \<Rightarrow> bytes \<Rightarrow> u32 \<Rightarrow> dhcps \<Rightarrow> nat option \<times> u32 \<times> dhcps" where
  "dhcps_scan chaddr ciaddr lease_timer d =
     (let d = d\<lparr>client_address := client_address_plus d, renew := False\<rparr> in
      if plist d \<noteq> [] then
        let (pos, c) = lease_scan chaddr (plist d) 0 \<lparr>sc_plus = client_address_plus d,
              sc_client = client_address d, sc_first = poll_start d, sc_flag = False\<rparr>;
            d = d\<lparr>has_declined_ip := False, client_address_plus := sc_plus c, client_address := sc_client c\<rparr>
        in case pos of
             None \<Rightarrow> (None, sc_first c, d)
           | Some i \<Rightarrow>
               let l = plist d ! i in
               (Some i, sc_first c, d\<lparr>renew := (le32_bytes (lp_ip l) = ciaddr), client_address := lp_ip l,
                  plist := (plist d)[i := l\<lparr>lp_timer := lease_timer\<rparr>]\<rparr>)
      else if has_declined_ip d then (None, poll_start d, d\<lparr>has_declined_ip := False\<rparr>)
      else (None, poll_start d, d\<lparr>client_address := poll_start d\<rparr>))"

text \<open>The loop that skips addresses reserved for somebody else.\<close>

partial_function (option) skip_reserved :: "dhcp_reservation list \<Rightarrow> mac \<Rightarrow> u32 \<Rightarrow> u32 \<Rightarrow> u32 option" where
  "skip_reserved tab mac end_ip a =
     (if a \<le> end_ip \<and> is_ip_reserved_for_other a mac tab then skip_reserved tab mac end_ip (next_ip a) else Some a)"

text \<open>
  \<open>parse_msg\<close> between the loop and \<open>POOL_CHECK\<close>, for a client without a lease.  The
  results of \<open>mem_calloc\<close> are used unchecked: without memory the code faults.
\<close>

definition dhcps_assign :: "dhcps_env \<Rightarrow> dhcp_reservation list \<Rightarrow> mac \<Rightarrow> u32 \<Rightarrow> u32 \<Rightarrow> dhcps
    \<Rightarrow> (nat option \<times> dhcps) option" where
  "dhcps_assign env tab chaddr lease_timer first_address d =
     (let d = (if client_address_plus d > poll_end d then d\<lparr>client_address := first_address\<rparr> else d) in
      do {
        a \<leftarrow> skip_reserved tab chaddr (poll_end d) (client_address d);
        let reserved_ip = lookup_dhcp_reservation chaddr tab;
            d = d\<lparr>client_address := (if reserved_ip \<noteq> 0 then reserved_ip else a)\<rparr>
        in if client_address d > poll_end d
           then Some (None, d\<lparr>client_address_plus := poll_start d\<rparr>)
           else if \<not> node_ok env then None
           else
             let x = \<lparr>lp_ip = client_address d, lp_mac = chaddr, lp_timer = lease_timer, lp_hostname = []\<rparr>;
                 i = node_position (lp_ip x) (plist d);
                 d = d\<lparr>plist := node_insert_to_list x (plist d)\<rparr>;
                 d = d\<lparr>client_address_plus :=
                        (if client_address d = poll_end d then poll_start d else next_ip (client_address d))\<rparr>
             in Some (Some i, d) })"

text \<open>\<open>parse_msg\<close> from \<open>POOL_CHECK\<close> on.\<close>

definition dhcps_pool_check :: "bytes \<Rightarrow> int \<Rightarrow> nat option \<Rightarrow> dhcps \<Rightarrow> (nat \<times> dhcps) option" where
  "dhcps_pool_check m len pos d =
     (let remove = (\<lambda>d. case pos of None \<Rightarrow> d | Some i \<Rightarrow> d\<lparr>plist := node_remove_from_list i (plist d)\<rparr>) in
      if client_address d > poll_end d \<or> client_address d = 0 then Some (4, remove d)
      else do {
        (ret, d) \<leftarrow> parse_options m len d;
        if ret = DHCPS_STATE_RELEASE \<or> ret = DHCPS_STATE_NAK \<or> ret = DHCPS_STATE_DECLINE then
          let d = remove d; d = (if ret = DHCPS_STATE_DECLINE then d\<lparr>has_declined_ip := True\<rparr> else d)
          in Some (ret, d\<lparr>client_address := 0\<rparr>)
        else case pos of
            None \<Rightarrow> Some (ret, d)
          | Some i \<Rightarrow> Some (ret, d\<lparr>plist := (plist d)[i := (plist d ! i)
                \<lparr>lp_hostname := strncpy_trunc DHCPS_MAX_HOSTNAME_LEN (current_hostname d)\<rparr>]\<rparr>) })"

definition magic_cookie :: bytes where "magic_cookie = [0x63, 0x82, 0x53, 0x63]"

definition parse_msg :: "dhcps_env \<Rightarrow> dhcp_reservation list \<Rightarrow> bytes \<Rightarrow> int \<Rightarrow> dhcps \<Rightarrow> (nat \<times> dhcps) option" where
  "parse_msg env tab m len d = do {
     cookie \<leftarrow> rd_bytes m 236 4;
     if cookie \<noteq> magic_cookie then Some (0, d)
     else do {
       chaddr \<leftarrow> rd_bytes m 28 6;
       ciaddr \<leftarrow> rd_bytes m 12 4;
       let lease_timer = dhcps_lease_time d * lease_unit env;
           (pos, first_address, d) = dhcps_scan chaddr ciaddr lease_timer d in
       do {
         (pos, d) \<leftarrow> (case pos of Some i \<Rightarrow> Some (Some i, d)
                       | None \<Rightarrow> dhcps_assign env tab chaddr lease_timer first_address d);
         dhcps_pool_check m len pos d } } }"

end
