(* ===== verification/Dhcp_Service.thy ===== *)
theory Dhcp_Service
  imports Dhcp_Server
begin

text \<open>
  The DHCP server (\<open>components/dhcpserver/dhcpserver.c\<close>), second part: the replies, the
  packet handler, the address pool, starting and stopping, the lease timer, and the
  functions other components call.
\<close>

section \<open>Replies\<close>

text \<open>
  What a reply does, in order: a static ARP entry, the datagram, the removal of the
  entry, the lease callback.
\<close>

datatype dhcps_out =
    ArpAdd u32 mac
  | UdpSend u32 bytes
  | ArpRemove u32
  | NewLease bytes mac

text \<open>\<open>dhcps_option_ip\<close>: \<open>ip4_addr1\<close> to \<open>ip4_addr4\<close>, the bytes in memory order.\<close>

definition dhcps_option_ip :: "u32 \<Rightarrow> bytes" where
  "dhcps_option_ip ip = le32_bytes ip"

definition add_msg_type :: "u8 \<Rightarrow> bytes" where
  "add_msg_type t = [DHCP_OPTION_MSG_TYPE, 1, t]"

definition get_gw :: "netif option \<Rightarrow> u32" where
  "get_gw n = (case n of None \<Rightarrow> 0 | Some n \<Rightarrow> if nif_up n then nif_gw n else 0)"

definition add_offer_options :: "dhcps_env \<Rightarrow> dhcps \<Rightarrow> bytes" where
  "add_offer_options env d =
     (let lease = dhcps_lease_time d * lease_unit env; ipadd = server_address d in
      [1, 4] @ dhcps_option_ip (dhcps_mask d) @
      [51, 4, ucast (drop_bit 24 lease AND 0xFF), ucast (drop_bit 16 lease AND 0xFF),
        ucast (drop_bit 8 lease AND 0xFF), ucast (lease AND 0xFF)] @
      [54, 4] @ dhcps_option_ip ipadd @
      (if dhcps_offer d AND 0x01 \<noteq> 0 \<and> get_gw (dhcps_netif d) \<noteq> 0
       then [3, 4] @ dhcps_option_ip (get_gw (dhcps_netif d)) else []) @
      (if dhcps_dns d AND 0x02 \<noteq> 0
       then (if dns_server d ! 1 \<noteq> 0
             then [6, 8] @ dhcps_option_ip (dns_server d ! 0) @ dhcps_option_ip (dns_server d ! 1)
             else [6, 4] @ dhcps_option_ip (dns_server d ! 0))
       else if add_dns env then [6, 4] @ dhcps_option_ip ipadd else []) @
      [28, 4] @ dhcps_option_ip ((ipadd AND dhcps_mask d) OR NOT (dhcps_mask d)) @
      [26, 2, 0x05, 0xDC] @
      (case dhcps_captiveportal_uri d of None \<Rightarrow> []
       | Some uri \<Rightarrow> [114, word_of_nat (length uri)] @ map (\<lambda>c. word_of_nat (of_char c)) uri) @
      [31, 1, 0x00] @
      [43, 6] @ [0x01, 4, 0x00, 0x00, 0x00, 0x02])"

definition add_end :: bytes where "add_end = [DHCP_OPTION_END]"

text \<open>\<open>create_msg\<close> on the buffer: \<open>op\<close>, \<open>htype\<close>, \<open>hlen\<close>, \<open>flags\<close>, \<open>yiaddr\<close>, the cookie.\<close>

definition create_msg :: "dhcps_env \<Rightarrow> dhcps \<Rightarrow> bytes \<Rightarrow> bytes option" where
  "create_msg env d m = do {
     m \<leftarrow> wr_bytes m 0 [2, 1, 6];
     m \<leftarrow> (if static_arp env then Some m else wr_bytes m 10 (le16_bytes (htons 0x8000)));
     m \<leftarrow> wr_bytes m 16 (le32_bytes (client_address d));
     wr_bytes m 236 magic_cookie }"

text \<open>Where a reply goes, and the ARP entry made for it.\<close>

definition dhcps_response_ip_set :: "dhcps_env \<Rightarrow> dhcps \<Rightarrow> bytes \<Rightarrow> (u32 \<times> dhcps_out list) option" where
  "dhcps_response_ip_set env d m =
     (if static_arp env then do {
        chaddr \<leftarrow> rd_bytes m 28 6;
        giaddr \<leftarrow> rd32 m 24; ciaddr \<leftarrow> rd32 m 12; yiaddr \<leftarrow> rd32 m 16; flags \<leftarrow> rd16 m 10;
        Some (if giaddr \<noteq> 0 then (giaddr, [ArpAdd giaddr chaddr])
              else if ciaddr \<noteq> 0 then (ciaddr, [ArpAdd ciaddr chaddr])
              else if htons flags AND 0x8000 = 0 then (yiaddr, [ArpAdd yiaddr chaddr])
              else (broadcast_dhcps d, [])) }
      else Some (broadcast_dhcps d, []))"

definition dhcps_nak_ip_set :: "dhcps_env \<Rightarrow> dhcps \<Rightarrow> bytes \<Rightarrow> (u32 \<times> dhcps_out list) option" where
  "dhcps_nak_ip_set env d m =
     (if static_arp env then do {
        chaddr \<leftarrow> rd_bytes m 28 6; giaddr \<leftarrow> rd32 m 24;
        Some (if giaddr \<noteq> 0 then (giaddr, [ArpAdd giaddr chaddr]) else (broadcast_dhcps d, [])) }
      else Some (broadcast_dhcps d, []))"

definition arp_removal :: "dhcps_env \<Rightarrow> u32 \<Rightarrow> dhcps_out list" where
  "arp_removal env ip = (if static_arp env then [ArpRemove ip] else [])"

text \<open>
  The pbuf is of at least the size of a message and takes a copy of the whole buffer
  (\<open>len\<close> is the size of the buffer, never below the size of a message).
\<close>

definition send_offer :: "dhcps_env \<Rightarrow> dhcps \<Rightarrow> bytes \<Rightarrow> dhcps_out list option" where
  "send_offer env d m = do {
     m \<leftarrow> create_msg env d m;
     m \<leftarrow> wr_bytes m OPTIONS_OFS (add_msg_type DHCPOFFER @ add_offer_options env d @ add_end);
     if \<not> pbuf_ok env then Some []
     else do { (ip, arp) \<leftarrow> dhcps_response_ip_set env d m;
       Some (arp @ [UdpSend ip m] @ arp_removal env ip) } }"

definition send_nak :: "dhcps_env \<Rightarrow> dhcps \<Rightarrow> bytes \<Rightarrow> dhcps_out list option" where
  "send_nak env d m = do {
     m \<leftarrow> create_msg env d m;
     m \<leftarrow> wr_bytes m OPTIONS_OFS (add_msg_type DHCPNAK @ add_end);
     if \<not> pbuf_ok env then Some []
     else do { (ip, arp) \<leftarrow> dhcps_nak_ip_set env d m;
       Some (arp @ [UdpSend ip m] @ arp_removal env ip) } }"

text \<open>The callback is called when the datagram could be sent; calling an unset one faults.\<close>

definition send_ack :: "dhcps_env \<Rightarrow> dhcps \<Rightarrow> bytes \<Rightarrow> dhcps_out list option" where
  "send_ack env d m = do {
     m \<leftarrow> create_msg env d m;
     m \<leftarrow> wr_bytes m OPTIONS_OFS (add_msg_type DHCPACK @ add_offer_options env d @ add_end);
     if \<not> pbuf_ok env then Some []
     else do { (ip, arp) \<leftarrow> dhcps_response_ip_set env d m;
       yiaddr \<leftarrow> rd_bytes m 16 4; chaddr \<leftarrow> rd_bytes m 28 6;
       if udp_send_ok env
       then (if dhcps_cb d then Some (arp @ [UdpSend ip m] @ arp_removal env ip @ [NewLease yiaddr chaddr]) else None)
       else Some (arp @ [UdpSend ip m] @ arp_removal env ip) } }"

section \<open>The packet handler\<close>

definition DHCPS_MSG_SIZE :: nat where "DHCPS_MSG_SIZE = 548"

text \<open>
  The message buffer: at least one message long, zeroed, filled from the first two pbufs
  of the chain.  A chain longer than 32767 bytes makes \<open>malloc_len\<close> negative, an allocation
  that cannot succeed.
\<close>

definition dhcp_buffer :: "bytes list \<Rightarrow> bytes option" where
  "dhcp_buffer chain =
     (let tot = length (concat chain); malloc_len = max DHCPS_MSG_SIZE tot;
          copied = concat (take 2 chain)
      in if length copied \<le> malloc_len then Some (copied @ replicate (malloc_len - length copied) 0) else None)"

definition handle_dhcp :: "dhcps_env \<Rightarrow> dhcp_reservation list \<Rightarrow> bytes list option \<Rightarrow> dhcps
    \<Rightarrow> (dhcps_out list \<times> dhcps) option" where
  "handle_dhcp env tab p d =
     (case p of None \<Rightarrow> Some ([], d)
      | Some chain \<Rightarrow>
          if \<not> heap_ok env \<or> length (concat chain) > 32767 then Some ([], d)
          else do {
            m \<leftarrow> dhcp_buffer chain;
            (state, d) \<leftarrow> parse_msg env tab m (int (length (concat chain)) - 240) d;
            out \<leftarrow> (if state = DHCPS_STATE_OFFER then send_offer env d m
                    else if state = DHCPS_STATE_ACK then send_ack env d m
                    else if state = DHCPS_STATE_NAK then send_nak env d m
                    else Some []);
            Some (out, d) })"

section \<open>The address pool\<close>

definition ip4_netcmp :: "u32 \<Rightarrow> u32 \<Rightarrow> u32 \<Rightarrow> bool" where
  "ip4_netcmp a b m \<longleftrightarrow> a AND m = b AND m"

text \<open>The default pool around the server's address; host order.\<close>

definition default_pool :: "u32 \<Rightarrow> u32 \<Rightarrow> u32 \<times> u32" where
  "default_pool server_ip nmask =
     (let range_start_ip = server_ip AND nmask;
          range_end_ip = range_start_ip OR NOT nmask;
          (range_start_ip, range_end_ip) =
            (if server_ip - range_start_ip > range_end_ip - server_ip
             then (range_start_ip + 1, server_ip - 1) else (server_ip + 1, range_end_ip - 1))
      in (range_start_ip,
          if range_end_ip - range_start_ip + 1 > DHCPS_MAX_LEASE
          then range_start_ip + DHCPS_MAX_LEASE - 1 else range_end_ip))"

definition dhcps_poll_set :: "u32 \<Rightarrow> dhcps \<Rightarrow> dhcps" where
  "dhcps_poll_set ip d =
     (let server_ip = htonl ip; start_ip = htonl (poll_start d); end_ip = htonl (poll_end d);
          d = (if poll_enable d then
                 if server_ip \<ge> start_ip \<and> server_ip \<le> end_ip then d\<lparr>poll_enable := False\<rparr>
                 else if \<not> ip4_netcmp (poll_start d) (server_address d) (dhcps_mask d)
                       \<or> \<not> ip4_netcmp (poll_end d) (server_address d) (dhcps_mask d)
                       \<or> end_ip - start_ip + 1 > DHCPS_MAX_LEASE
                 then d\<lparr>poll_enable := False\<rparr> else d
               else d)
      in if \<not> poll_enable d
         then let (s, e) = default_pool server_ip (htonl (dhcps_mask d)) in
              d\<lparr>poll_start := htonl s, poll_end := htonl e, poll_enable := True\<rparr>
         else d)"

section \<open>Starting and stopping\<close>

definition dhcps_set_new_lease_cb :: "bool \<Rightarrow> dhcps option \<Rightarrow> lwip_err \<times> dhcps option" where
  "dhcps_set_new_lease_cb cb d =
     (case d of None \<Rightarrow> (ERR_ARG, None) | Some d \<Rightarrow> (ERR_OK, Some (d\<lparr>dhcps_cb := cb\<rparr>)))"

text \<open>\<open>None\<close> for the interface is a null pointer.\<close>

definition dhcps_start :: "dhcps_env \<Rightarrow> netif option \<Rightarrow> u32 \<Rightarrow> dhcps \<Rightarrow> lwip_err \<times> dhcps" where
  "dhcps_start env netif ip d =
     (if netif = None then (ERR_ARG, d)
      else let d = d\<lparr>dhcps_netif := netif, dhcps_pcb := udp_new_ok env\<rparr> in
        if \<not> dhcps_pcb d \<or> ip = 0 then (ERR_ARG, d)
        else let d = d\<lparr>broadcast_dhcps := 0xFFFFFFFF, server_address := ip\<rparr>;
                 nmask = htonl (dhcps_mask d); host = htonl ip
             in if (nmask - 1) OR nmask \<noteq> 0xFFFFFFFF then (ERR_ARG, d)
                else if host = (host AND nmask) OR NOT nmask \<or> host = host AND nmask then (ERR_ARG, d)
                else let d = dhcps_poll_set (server_address d) d in
                  (ERR_OK, d\<lparr>client_address_plus := poll_start d, hstate := DHCPS_HANDLE_STARTED,
                     pending_timers := pending_timers d + 1\<rparr>))"

definition dhcps_stop :: "nat option \<Rightarrow> dhcps \<Rightarrow> lwip_err \<times> dhcps" where
  "dhcps_stop netif d =
     (if netif = None \<or> map_option nif_id (dhcps_netif d) \<noteq> netif then (ERR_ARG, d)
      else (ERR_OK, d\<lparr>dhcps_pcb := False, plist := [], pending_timers := pending_timers d - 1,
              hstate := DHCPS_HANDLE_STOPPED\<rparr>))"

section \<open>The lease timer\<close>

text \<open>The position of the first lease with the least remaining time.\<close>

fun oldest_pos :: "dhcps_pool list \<Rightarrow> nat \<Rightarrow> nat \<Rightarrow> u32 \<Rightarrow> nat" where
  "oldest_pos [] i minp t = minp"
| "oldest_pos (l # ls) i minp t =
     (if lp_timer l < t then oldest_pos ls (Suc i) i (lp_timer l) else oldest_pos ls (Suc i) minp t)"

text \<open>The assertion that there are two leases aborts otherwise.\<close>

definition kill_oldest_dhcps_pool :: "dhcps \<Rightarrow> dhcps option" where
  "kill_oldest_dhcps_pool d =
     (case plist d of
        l # l' # ls \<Rightarrow> Some (d\<lparr>plist := node_remove_from_list (oldest_pos (l' # ls) 1 0 (lp_timer l)) (plist d)\<rparr>)
      | _ \<Rightarrow> None)"

text \<open>The loop: decrement, drop at zero, count the rest in a \<open>u8_t\<close>.\<close>

fun lease_tick :: "dhcps_pool list \<Rightarrow> u8 \<Rightarrow> dhcps_pool list \<times> u8" where
  "lease_tick [] n = ([], n)"
| "lease_tick (l # ls) n =
     (let l = l\<lparr>lp_timer := lp_timer l - 1\<rparr> in
      if lp_timer l = 0 then lease_tick ls n
      else let (ls, n) = lease_tick ls (n + 1) in (l # ls, n))"

text \<open>\<open>dhcps_tmr\<close>; the inner option is \<open>None\<close> when the handle is freed.\<close>

definition dhcps_tmr :: "dhcps_env \<Rightarrow> dhcps \<Rightarrow> dhcps option option" where
  "dhcps_tmr env d =
     (let d = d\<lparr>pending_timers := pending_timers d - 1\<rparr> in
      if hstate d = DHCPS_HANDLE_DELETE_PENDING then Some None
      else if hstate d \<noteq> DHCPS_HANDLE_STARTED then Some (Some d)
      else let (ls, num_dhcps_pool) = lease_tick (plist d) 0;
               d = d\<lparr>pending_timers := pending_timers d + 1, plist := ls\<rparr>
           in if num_dhcps_pool > max_station_num env then map_option Some (kill_oldest_dhcps_pool d)
              else Some (Some d))"

section \<open>Settings and queries\<close>

definition dhcp_search_ip_on_mac :: "dhcps option \<Rightarrow> mac \<Rightarrow> u32 option" where
  "dhcp_search_ip_on_mac d mac =
     (case d of None \<Rightarrow> None
      | Some d \<Rightarrow> map_option (\<lambda>i. lp_ip (plist d ! i)) (find_first (\<lambda>l. lp_mac l = mac) (plist d)))"

definition dhcps_dns_setserver_by_type :: "u32 option \<Rightarrow> nat \<Rightarrow> dhcps option \<Rightarrow> lwip_err \<times> dhcps option" where
  "dhcps_dns_setserver_by_type dnsserver type d =
     (case d of None \<Rightarrow> (ERR_ARG, None)
      | Some d \<Rightarrow> if type \<ge> 2 then (ERR_VAL, Some d)
          else (ERR_OK, Some (d\<lparr>dns_server := (dns_server d)[type :=
                  (case dnsserver of None \<Rightarrow> 0 | Some a \<Rightarrow> a)]\<rparr>)))"

definition dhcps_dns_setserver :: "u32 option \<Rightarrow> dhcps option \<Rightarrow> lwip_err \<times> dhcps option" where
  "dhcps_dns_setserver dnsserver d = dhcps_dns_setserver_by_type dnsserver 0 d"

text \<open>The result is the error and, when it is \<open>ERR_OK\<close>, the address stored.\<close>

definition dhcps_dns_getserver_by_type :: "nat \<Rightarrow> bool \<Rightarrow> dhcps option \<Rightarrow> lwip_err \<times> u32 option" where
  "dhcps_dns_getserver_by_type type out_null d =
     (case d of None \<Rightarrow> (ERR_ARG, None)
      | Some d \<Rightarrow> if out_null then (ERR_ARG, None)
          else if type \<ge> 2 then (ERR_VAL, None) else (ERR_OK, Some (dns_server d ! type)))"

definition dhcps_dns_getserver :: "bool \<Rightarrow> dhcps option \<Rightarrow> lwip_err \<times> u32 option" where
  "dhcps_dns_getserver out_null d = dhcps_dns_getserver_by_type 0 out_null d"

text \<open>
  The options of the interface: \<open>IP_ADDRESS_LEASE_TIME\<close>, \<open>REQUESTED_IP_ADDRESS\<close>,
  \<open>ROUTER_SOLICITATION_ADDRESS\<close>, \<open>DOMAIN_NAME_SERVER\<close>, \<open>SUBNET_MASK\<close>, \<open>CAPTIVEPORTAL_URI\<close>.
  The size must match, except for the last; a wrong size is ignored without an error.
\<close>

datatype dhcps_opt = OptLeaseTime u32 | OptPool bool u32 u32 | OptOffer u8 | OptDns u8 | OptMask u32
  | OptUri "string option" | OptOther

definition dhcps_set_option_info :: "dhcps_opt option \<Rightarrow> bool \<Rightarrow> dhcps option \<Rightarrow> lwip_err \<times> dhcps option" where
  "dhcps_set_option_info info size_ok d =
     (case d of None \<Rightarrow> (ERR_ARG, None)
      | Some d \<Rightarrow>
         (case info of None \<Rightarrow> (ERR_ARG, Some d)
          | Some opt \<Rightarrow> (ERR_OK, Some (case opt of
              OptLeaseTime t \<Rightarrow> if size_ok then d\<lparr>dhcps_lease_time := t\<rparr> else d
            | OptPool en s e \<Rightarrow> if size_ok then d\<lparr>poll_enable := en, poll_start := s, poll_end := e\<rparr> else d
            | OptOffer o' \<Rightarrow> if size_ok then d\<lparr>dhcps_offer := o'\<rparr> else d
            | OptDns x \<Rightarrow> if size_ok then d\<lparr>dhcps_dns := x\<rparr> else d
            | OptMask m \<Rightarrow> if size_ok then d\<lparr>dhcps_mask := m\<rparr> else d
            | OptUri u \<Rightarrow> d\<lparr>dhcps_captiveportal_uri := u\<rparr>
            | OptOther \<Rightarrow> d))))"

text \<open>\<open>dhcps_option_info\<close> returns a pointer to the field: here its value.\<close>

datatype dhcps_opt_id = IP_ADDRESS_LEASE_TIME | REQUESTED_IP_ADDRESS | ROUTER_SOLICITATION_ADDRESS
  | DOMAIN_NAME_SERVER | SUBNET_MASK | CAPTIVEPORTAL_URI | OTHER_OPTION

definition dhcps_option_info :: "dhcps_opt_id \<Rightarrow> bool \<Rightarrow> dhcps option \<Rightarrow> dhcps_opt option" where
  "dhcps_option_info op_id size_ok d =
     (case d of None \<Rightarrow> None
      | Some d \<Rightarrow> (case op_id of
          IP_ADDRESS_LEASE_TIME \<Rightarrow> if size_ok then Some (OptLeaseTime (dhcps_lease_time d)) else None
        | REQUESTED_IP_ADDRESS \<Rightarrow> if size_ok then Some (OptPool (poll_enable d) (poll_start d) (poll_end d)) else None
        | ROUTER_SOLICITATION_ADDRESS \<Rightarrow> if size_ok then Some (OptOffer (dhcps_offer d)) else None
        | DOMAIN_NAME_SERVER \<Rightarrow> if size_ok then Some (OptDns (dhcps_dns d)) else None
        | SUBNET_MASK \<Rightarrow> if size_ok then Some (OptMask (dhcps_mask d)) else None
        | CAPTIVEPORTAL_URI \<Rightarrow> Some (OptUri (dhcps_captiveportal_uri d))
        | OTHER_OPTION \<Rightarrow> None))"

definition dhcps_get_active_leases :: "bool \<Rightarrow> int \<Rightarrow> dhcps option \<Rightarrow> dhcp_lease_info list" where
  "dhcps_get_active_leases leases_null max_leases g =
     (case g of None \<Rightarrow> []
      | Some d \<Rightarrow> if leases_null \<or> max_leases \<le> 0 then []
          else map (\<lambda>l. \<lparr>li_mac = lp_mac l, li_ip = lp_ip l, li_lease_timer = lp_timer l,
                  li_hostname = strncpy_trunc DHCPS_MAX_HOSTNAME_LEN (lp_hostname l)\<rparr>)
                (take (nat max_leases) (plist d)))"

end
