(* ===== verification/Dhcp_Leases.thy ===== *)
theory Dhcp_Leases
  imports Dhcp_Service
begin

text \<open>
  The invariant of the DHCP server's lease list and its preservation by every operation:
  leases ordered by address, one lease per client, host names within the safe alphabet.
\<close>

named_theorems dhcp_consts \<open>the protocol's constants\<close>
named_theorems lease_simps \<open>insertion and removal of leases\<close>

lemmas [dhcp_consts] = DHCPDISCOVER_def DHCPOFFER_def DHCPREQUEST_def DHCPDECLINE_def DHCPACK_def DHCPNAK_def
  DHCPRELEASE_def DHCP_OPTION_PAD_def DHCP_OPTION_HOSTNAME_def DHCP_OPTION_REQ_IPADDR_def
  DHCP_OPTION_MSG_TYPE_def DHCP_OPTION_END_def DHCPS_STATE_OFFER_def DHCPS_STATE_DECLINE_def
  DHCPS_STATE_ACK_def DHCPS_STATE_NAK_def DHCPS_STATE_IDLE_def DHCPS_STATE_RELEASE_def

section \<open>Insertion and removal\<close>

lemma node_position_le: "node_position ip ls \<le> length ls"
  by (induction ls) auto

lemma node_insert_simps [lease_simps]:
  "node_insert_to_list x [] = [x]"
  "node_insert_to_list x (l # ls) =
     (if lp_ip x < lp_ip l then x # l # ls else l # node_insert_to_list x ls)"
  by (simp_all add: node_insert_to_list_def)

lemma set_node_insert [lease_simps]: "set (node_insert_to_list x ls) = insert x (set ls)"
  by (induction ls) (auto simp: node_insert_simps)

lemma length_node_insert [lease_simps]: "length (node_insert_to_list x ls) = Suc (length ls)"
  by (induction ls) (auto simp: node_insert_simps)

lemma node_insert_nth [lease_simps]: "node_insert_to_list x ls ! node_position (lp_ip x) ls = x"
  using node_position_le [of "lp_ip x" ls] by (simp add: node_insert_to_list_def nth_append)

lemma node_position_less: "node_position (lp_ip x) ls < length (node_insert_to_list x ls)"
  using node_position_le [of "lp_ip x" ls] by (simp add: length_node_insert)

lemma remove_inserted [lease_simps]:
  "node_remove_from_list (node_position (lp_ip x) ls) (node_insert_to_list x ls) = ls"
  by (induction ls) (auto simp: node_remove_from_list_def node_insert_simps)

lemma update_inserted:
  assumes "lp_ip y = lp_ip x"
  shows "(node_insert_to_list x ls)[node_position (lp_ip x) ls := y] = node_insert_to_list y ls"
  using node_position_le [of "lp_ip x" ls] assms
  by (simp add: node_insert_to_list_def list_update_append)

lemma sorted_node_insert:
  "sorted (map lp_ip ls) \<Longrightarrow> sorted (map lp_ip (node_insert_to_list x ls))"
  by (induction ls) (auto simp: lease_simps)

lemma distinct_node_insert:
  "distinct (map f (node_insert_to_list x ls)) \<longleftrightarrow> distinct (map f ls) \<and> f x \<notin> f ` set ls"
  by (induction ls) (auto simp: lease_simps)

lemma set_node_remove: "set (node_remove_from_list i ls) \<subseteq> set ls"
  by (auto simp: node_remove_from_list_def dest: in_set_takeD in_set_dropD)

lemma sorted_node_remove: "sorted (map f ls) \<Longrightarrow> sorted (map f (node_remove_from_list i ls))"
proof -
  assume s: "sorted (map f ls)"
  have "map f ls = map f (take i ls) @ map f (drop i ls)"
    by (metis append_take_drop_id map_append)
  then have "sorted (map f (take i ls) @ map f (drop i ls))" using s by simp
  moreover have "map f (drop (Suc i) ls) = tl (map f (drop i ls))"
    by (simp add: drop_Suc drop_tl map_tl)
  ultimately show "sorted (map f (node_remove_from_list i ls))"
    by (cases "map f (drop i ls)") (auto simp: node_remove_from_list_def sorted_append)
qed

lemma distinct_node_remove:
  assumes "distinct (map f ls)" "i < length ls"
  shows "distinct (map f (node_remove_from_list i ls))" "f (ls ! i) \<notin> f ` set (node_remove_from_list i ls)"
proof -
  have "ls = take i ls @ ls ! i # drop (Suc i) ls" using assms(2) by (simp add: id_take_nth_drop)
  then have "map f ls = map f (take i ls) @ f (ls ! i) # map f (drop (Suc i) ls)"
    by (metis list.simps(9) map_append)
  then show "distinct (map f (node_remove_from_list i ls))" "f (ls ! i) \<notin> f ` set (node_remove_from_list i ls)"
    using assms(1) by (auto simp: node_remove_from_list_def)
qed

text \<open>Changing a lease without changing what the order and the uniqueness look at.\<close>

lemma map_update_same: "i < length ls \<Longrightarrow> f x = f (ls ! i) \<Longrightarrow> map f (ls[i := x]) = map f ls"
  by (simp add: map_update) (metis length_map list_update_id nth_map)

section \<open>Host names\<close>

definition safe_char :: "char \<Rightarrow> bool" where
  "safe_char c \<longleftrightarrow> (\<exists>b. host_char b \<and> c = char_of (unat b))"

definition host_ok :: "string \<Rightarrow> bool" where
  "host_ok s \<longleftrightarrow> length s < DHCPS_MAX_HOSTNAME_LEN \<and> (\<forall>c \<in> set s. safe_char c)"

lemma clean_hostname_ok: "host_ok (clean_hostname v)"
proof -
  have "host_char 0x5F" by (simp add: host_char_def)
  then show ?thesis
    by (auto simp: host_ok_def clean_hostname_def safe_char_def DHCPS_MAX_HOSTNAME_LEN_def)
qed

lemma host_ok_Nil [simp]: "host_ok []"
  by (simp add: host_ok_def DHCPS_MAX_HOSTNAME_LEN_def)

lemma host_ok_trunc: "host_ok s \<Longrightarrow> strncpy_trunc DHCPS_MAX_HOSTNAME_LEN s = s"
  by (simp add: host_ok_def strncpy_trunc_def DHCPS_MAX_HOSTNAME_LEN_def)

lemma parse_opt_loop_host:
  "parse_opt_loop m client i e s = Some t \<Longrightarrow> host_ok (os_host s) \<Longrightarrow> host_ok (os_host t)"
proof (induction m client i e s rule: parse_opt_loop.induct)
  case (1 m client i e s)
  have step: "host_ok (os_host (opt_step client o' v s))" for o' v
    using 1(4) by (auto simp: opt_step_def clean_hostname_ok)
  from 1(3) 1(4) step 1(1,2) show ?case
    unfolding parse_opt_loop.simps [of m client i e s]
    by (auto split: if_splits option.splits)
qed

section \<open>The invariant\<close>

definition dhcps_inv :: "dhcps \<Rightarrow> bool" where
  "dhcps_inv d \<longleftrightarrow> sorted (map lp_ip (plist d)) \<and> distinct (map lp_mac (plist d)) \<and>
     (\<forall>l \<in> set (plist d). host_ok (lp_hostname l)) \<and> host_ok (current_hostname d) \<and> length (dns_server d) = 2"

lemma dhcps_invD:
  assumes "dhcps_inv d"
  shows "sorted (map lp_ip (plist d))" "distinct (map lp_mac (plist d))"
    "l \<in> set (plist d) \<Longrightarrow> host_ok (lp_hostname l)" "host_ok (current_hostname d)" "length (dns_server d) = 2"
  using assms by (auto simp: dhcps_inv_def)

lemma dhcps_inv_cong:
  "plist d' = plist d \<Longrightarrow> current_hostname d' = current_hostname d \<Longrightarrow> dns_server d' = dns_server d \<Longrightarrow>
   dhcps_inv d' = dhcps_inv d"
  by (simp add: dhcps_inv_def)

lemma dhcps_inv_remove: "dhcps_inv d \<Longrightarrow> dhcps_inv (d\<lparr>plist := node_remove_from_list i (plist d)\<rparr>)"
proof -
  assume inv: "dhcps_inv d"
  have "distinct (map lp_mac (node_remove_from_list i (plist d)))"
  proof (cases "i < length (plist d)")
    case True
    then show ?thesis using distinct_node_remove(1) dhcps_invD(2) [OF inv] by blast
  next
    case False
    then show ?thesis using dhcps_invD(2) [OF inv] by (simp add: node_remove_from_list_def)
  qed
  then show ?thesis
    using inv sorted_node_remove [of lp_ip "plist d" i] set_node_remove [of i "plist d"]
    by (auto simp: dhcps_inv_def)
qed

lemma dhcps_inv_update:
  assumes "dhcps_inv d" "i < length (plist d)" "lp_ip x = lp_ip (plist d ! i)" "lp_mac x = lp_mac (plist d ! i)"
    "host_ok (lp_hostname x)"
  shows "dhcps_inv (d\<lparr>plist := (plist d)[i := x]\<rparr>)"
proof -
  have "\<forall>l \<in> set ((plist d)[i := x]). host_ok (lp_hostname l)"
    using assms set_update_subset_insert [of "plist d" i x] by (auto simp: dhcps_inv_def)
  with assms show ?thesis by (simp add: dhcps_inv_def map_update_same)
qed

lemma dhcps_inv_insert:
  assumes "dhcps_inv d" "lp_mac x \<notin> lp_mac ` set (plist d)" "host_ok (lp_hostname x)"
  shows "dhcps_inv (d\<lparr>plist := node_insert_to_list x (plist d)\<rparr>)"
  using assms by (auto simp: dhcps_inv_def sorted_node_insert distinct_node_insert set_node_insert)

section \<open>The phases of a request\<close>

lemma lease_scan_pos:
  "fst (lease_scan mac ls i c) = map_option ((+) i) (find_first (\<lambda>l. lp_mac l = mac) ls)"
proof (induction ls arbitrary: i c)
  case (Cons l ls)
  then show ?case by (cases "find_first (\<lambda>l. lp_mac l = mac) ls") auto
qed simp

text \<open>The state while a request is handled: where the client's lease is, if it has one.\<close>

definition at_lease :: "mac \<Rightarrow> nat option \<Rightarrow> dhcps \<Rightarrow> bool" where
  "at_lease mac pos d \<longleftrightarrow>
     (case pos of None \<Rightarrow> mac \<notin> lp_mac ` set (plist d)
      | Some i \<Rightarrow> i < length (plist d) \<and> lp_mac (plist d ! i) = mac \<and> lp_ip (plist d ! i) = client_address d)"

lemma dhcps_scan_phase:
  assumes "dhcps_inv d" "dhcps_scan mac ci t d = (pos, first, d')"
  shows "dhcps_inv d' \<and> at_lease mac pos d' \<and> pos = find_first (\<lambda>l. lp_mac l = mac) (plist d) \<and>
    map lp_ip (plist d') = map lp_ip (plist d) \<and> map lp_mac (plist d') = map lp_mac (plist d) \<and>
    poll_end d' = poll_end d \<and> poll_start d' = poll_start d"
proof (cases "plist d = []")
  case True
  with assms show ?thesis
    by (auto simp: dhcps_scan_def Let_def at_lease_def dhcps_inv_def split: if_splits)
next
  case False
  obtain p c where sc: "lease_scan mac (plist d) 0 \<lparr>sc_plus = client_address_plus d,
      sc_client = client_address_plus d, sc_first = poll_start d, sc_flag = False\<rparr> = (p, c)"
    by (cases "lease_scan mac (plist d) 0 \<lparr>sc_plus = client_address_plus d,
      sc_client = client_address_plus d, sc_first = poll_start d, sc_flag = False\<rparr>")
  have p: "p = find_first (\<lambda>l. lp_mac l = mac) (plist d)"
    using lease_scan_pos [of mac "plist d" 0] sc by (metis add_0 fst_conv map_option_idI)
  show ?thesis
  proof (cases p)
    case None
    then have "mac \<notin> lp_mac ` set (plist d)" using p by (auto simp: find_first_None)
    with assms False sc None p show ?thesis
      by (auto simp: dhcps_scan_def at_lease_def dhcps_inv_def)
  next
    case (Some i)
    note i = find_first_SomeD [OF p [symmetric, unfolded Some]]
    let ?x = "(plist d ! i)\<lparr>lp_timer := t\<rparr>"
    have d': "pos = Some i" "first = sc_first c" "d' = d\<lparr>client_address := lp_ip (plist d ! i),
        renew := (le32_bytes (lp_ip (plist d ! i)) = ci), has_declined_ip := False,
        client_address_plus := sc_plus c, plist := (plist d)[i := ?x]\<rparr>"
      using assms(2) False sc Some by (auto simp: dhcps_scan_def Let_def)
    have "dhcps_inv (d\<lparr>plist := (plist d)[i := ?x]\<rparr>)"
      using assms(1) i(1) dhcps_invD(3) [OF assms(1) nth_mem [OF i(1)]] by (intro dhcps_inv_update) auto
    then have "dhcps_inv d'" by (simp add: d' dhcps_inv_def)
    moreover have "at_lease mac (Some i) d'" using i(1,2) by (simp add: at_lease_def d')
    moreover have "pos = find_first (\<lambda>l. lp_mac l = mac) (plist d)" using d'(1) p Some by simp
    ultimately show ?thesis using i(1) d'(1) by (simp add: d'(3) map_update_same)
  qed
qed

lemma dhcps_assign_phase:
  assumes "dhcps_inv d" "mac \<notin> lp_mac ` set (plist d)"
    "dhcps_assign env tab mac t first d = Some (pos, d')"
  shows "dhcps_inv d' \<and> at_lease mac pos d' \<and> poll_end d' = poll_end d \<and> poll_start d' = poll_start d \<and>
    (pos = None \<longrightarrow> client_address d' > poll_end d' \<and> plist d' = plist d) \<and>
    (pos \<noteq> None \<longrightarrow> client_address d' \<le> poll_end d' \<and>
       plist d' = node_insert_to_list \<lparr>lp_ip = client_address d', lp_mac = mac, lp_timer = t, lp_hostname = []\<rparr> (plist d) \<and>
       pos = Some (node_position (client_address d') (plist d)))"
proof -
  obtain a where a: "skip_reserved tab mac (poll_end d)
      (if client_address_plus d > poll_end d then first else client_address d) = Some a"
    using assms(3) by (auto simp: dhcps_assign_def bind_eq_Some_conv Let_def split: if_splits)
  define c where "c = (if lookup_dhcp_reservation mac tab \<noteq> 0 then lookup_dhcp_reservation mac tab else a)"
  define x where "x = \<lparr>lp_ip = c, lp_mac = mac, lp_timer = t, lp_hostname = []\<rparr>"
  show ?thesis
  proof (cases "c > poll_end d")
    case True
    then have "pos = None" "plist d' = plist d" "client_address d' = c" "poll_end d' = poll_end d"
      "poll_start d' = poll_start d" "current_hostname d' = current_hostname d" "dns_server d' = dns_server d"
      using assms(3) a by (auto simp: dhcps_assign_def Let_def c_def split: if_splits)
    with True assms(1,2) show ?thesis by (simp add: at_lease_def dhcps_inv_def)
  next
    case False
    then have d': "pos = Some (node_position c (plist d))" "client_address d' = c"
      "plist d' = node_insert_to_list x (plist d)" "poll_end d' = poll_end d" "poll_start d' = poll_start d"
      "current_hostname d' = current_hostname d" "dns_server d' = dns_server d"
      using assms(3) a by (auto simp: dhcps_assign_def Let_def c_def x_def split: if_splits)
    have "dhcps_inv (d\<lparr>plist := node_insert_to_list x (plist d)\<rparr>)"
      using assms(1,2) by (intro dhcps_inv_insert) (auto simp: x_def)
    then have "dhcps_inv d'" by (simp add: d' dhcps_inv_def)
    moreover have "at_lease mac pos d'"
      using node_position_less [of x "plist d"] node_insert_nth [of x "plist d"]
      by (simp add: at_lease_def d' x_def)
    ultimately show ?thesis using False by (simp add: d' x_def)
  qed
qed

lemma parse_options_effect:
  assumes "parse_options m len d = Some (ret, d')"
  shows "\<exists>h. host_ok h \<and> d' = d\<lparr>current_hostname := h\<rparr>"
proof -
  obtain s where s: "parse_opt_loop m (client_address d) OPTIONS_OFS (OPTIONS_OFS + nat len)
      \<lparr>os_type = 0, os_state = DHCPS_STATE_IDLE, os_host = []\<rparr> = Some s" "d' = d\<lparr>current_hostname := os_host s\<rparr>"
    using assms by (auto simp: parse_options_def split: option.splits)
  from parse_opt_loop_host [OF s(1)] s(2) show ?thesis by auto
qed

section \<open>Leases as a map\<close>

definition lease_of :: "dhcps \<Rightarrow> mac \<Rightarrow> u32 option" where
  "lease_of d = map_of (map (\<lambda>l. (lp_mac l, lp_ip l)) (plist d))"

lemma lease_of_search: "dhcp_search_ip_on_mac (Some d) mac = lease_of d mac"
proof -
  have "map_option (\<lambda>i. lp_ip (ls ! i)) (find_first (\<lambda>l. lp_mac l = mac) ls) =
      map_of (map (\<lambda>l. (lp_mac l, lp_ip l)) ls) mac" for ls
    by (induction ls) (auto simp: option.map_comp comp_def)
  then show ?thesis by (simp add: dhcp_search_ip_on_mac_def lease_of_def)
qed

lemma lease_of_None: "lease_of d mac = None \<longleftrightarrow> mac \<notin> lp_mac ` set (plist d)"
  by (simp add: lease_of_def map_of_eq_None_iff image_image)

lemma lease_of_Some:
  assumes "distinct (map lp_mac (plist d))"
  shows "lease_of d mac = Some ip \<longleftrightarrow> (\<exists>l \<in> set (plist d). lp_mac l = mac \<and> lp_ip l = ip)"
proof -
  have "distinct (map fst (map (\<lambda>l. (lp_mac l, lp_ip l)) (plist d)))" using assms by (simp add: comp_def)
  then show ?thesis by (auto simp: lease_of_def)
qed

lemma lease_of_cong:
  "plist d' = plist d \<Longrightarrow> lease_of d' = lease_of d"
  by (simp add: lease_of_def)

lemma lease_of_columns:
  "map lp_ip (plist d') = map lp_ip (plist d) \<Longrightarrow> map lp_mac (plist d') = map lp_mac (plist d) \<Longrightarrow>
   lease_of d' = lease_of d"
proof -
  have z: "map (\<lambda>l. (lp_mac l, lp_ip l)) ls = zip (map lp_mac ls) (map lp_ip ls)" for ls
    by (induction ls) auto
  assume "map lp_ip (plist d') = map lp_ip (plist d)" "map lp_mac (plist d') = map lp_mac (plist d)"
  then show ?thesis by (simp add: lease_of_def z)
qed

lemma set_remove_distinct:
  assumes "distinct (map f ls)" "i < length ls"
  shows "set (node_remove_from_list i ls) = {l \<in> set ls. f l \<noteq> f (ls ! i)}"
proof -
  have ls: "ls = take i ls @ ls ! i # drop (Suc i) ls" using assms(2) by (simp add: id_take_nth_drop)
  then have "set ls = insert (ls ! i) (set (node_remove_from_list i ls))"
    by (metis Un_insert_right list.simps(15) node_remove_from_list_def set_append)
  moreover have "f l \<noteq> f (ls ! i)" if "l \<in> set (node_remove_from_list i ls)" for l
    using distinct_node_remove(2) [OF assms] that by (metis image_eqI)
  ultimately show ?thesis by auto
qed

lemma lease_of_remove:
  assumes "distinct (map lp_mac (plist d))" "i < length (plist d)"
  shows "lease_of (d\<lparr>plist := node_remove_from_list i (plist d)\<rparr>) = (lease_of d)(lp_mac (plist d ! i) := None)"
    (is "lease_of ?d = _")
proof (rule ext)
  fix m
  have dis: "distinct (map lp_mac (plist ?d))" using distinct_node_remove(1) [OF assms] by simp
  have s: "set (plist ?d) = {l \<in> set (plist d). lp_mac l \<noteq> lp_mac (plist d ! i)}"
    using set_remove_distinct [OF assms] by simp
  have "lease_of ?d m = Some ip \<longleftrightarrow> ((lease_of d)(lp_mac (plist d ! i) := None)) m = Some ip" for ip
    using lease_of_Some [OF dis, of m ip] lease_of_Some [OF assms(1), of m ip] s by auto
  then show "lease_of ?d m = ((lease_of d)(lp_mac (plist d ! i) := None)) m"
    by (metis not_Some_eq)
qed

lemma lease_of_insert:
  assumes "distinct (map lp_mac (plist d))" "lp_mac x \<notin> lp_mac ` set (plist d)"
    "plist d' = node_insert_to_list x (plist d)"
  shows "lease_of d' = (lease_of d)(lp_mac x \<mapsto> lp_ip x)"
proof (rule ext)
  fix m
  have dis: "distinct (map lp_mac (plist d'))" using assms by (simp add: distinct_node_insert)
  have fresh: "lp_mac l \<noteq> lp_mac x" if "l \<in> set (plist d)" for l
    using assms(2) that by (metis image_eqI)
  have "lease_of d' m = Some ip \<longleftrightarrow> ((lease_of d)(lp_mac x \<mapsto> lp_ip x)) m = Some ip" for ip
    using lease_of_Some [OF dis, of m ip] lease_of_Some [OF assms(1), of m ip] assms(3) fresh
    by (auto simp: set_node_insert)
  then show "lease_of d' m = ((lease_of d)(lp_mac x \<mapsto> lp_ip x)) m"
    by (metis not_Some_eq)
qed

section \<open>A whole request\<close>

text \<open>The answers that keep the client's lease: offer, acknowledgement, and no answer.\<close>

definition keeps_lease :: "nat \<Rightarrow> bool" where
  "keeps_lease ret \<longleftrightarrow> ret \<noteq> DHCPS_STATE_RELEASE \<and> ret \<noteq> DHCPS_STATE_NAK \<and> ret \<noteq> DHCPS_STATE_DECLINE"

lemma pool_check_phase:
  assumes "dhcps_inv d" "at_lease mac pos d" "dhcps_pool_check m len pos d = Some (ret, d')"
    "pos = None \<Longrightarrow> client_address d > poll_end d"
  shows "dhcps_inv d' \<and> poll_end d' = poll_end d \<and> poll_start d' = poll_start d \<and>
    lease_of d' = (if keeps_lease ret then lease_of d else (lease_of d)(mac := None)) \<and>
    (keeps_lease ret \<longrightarrow> lease_of d mac = Some (client_address d) \<and> client_address d' = client_address d \<and>
       client_address d \<noteq> 0 \<and> client_address d \<le> poll_end d)"
proof -
  let ?rem = "case pos of None \<Rightarrow> d | Some i \<Rightarrow> d\<lparr>plist := node_remove_from_list i (plist d)\<rparr>"
  have rem: "dhcps_inv ?rem" "lease_of ?rem = (lease_of d)(mac := None)"
    "poll_end ?rem = poll_end d" "poll_start ?rem = poll_start d"
  proof -
    show "dhcps_inv ?rem" using assms(1) dhcps_inv_remove by (cases pos) auto
    show "lease_of ?rem = (lease_of d)(mac := None)"
      using assms(2) lease_of_None [of d mac] lease_of_remove [OF dhcps_invD(2) [OF assms(1)]]
      by (cases pos) (auto simp: at_lease_def fun_upd_idem)
    show "poll_end ?rem = poll_end d" "poll_start ?rem = poll_start d" by (cases pos; simp)+
  qed
  show ?thesis
  proof (cases "client_address d > poll_end d \<or> client_address d = 0")
    case True
    then have "ret = DHCPS_STATE_NAK" "d' = ?rem"
      using assms(3) by (auto simp: dhcps_pool_check_def DHCPS_STATE_NAK_def)
    then show ?thesis using rem by (simp add: keeps_lease_def)
  next
    case False
    then obtain i where i: "pos = Some i" using assms(4) by (cases pos) auto
    have il: "i < length (plist d)" "lp_mac (plist d ! i) = mac" "lp_ip (plist d ! i) = client_address d"
      using assms(2) i by (auto simp: at_lease_def)
    obtain d1 where d1: "parse_options m len d = Some (ret, d1)"
      and d': "if keeps_lease ret
         then d' = d1\<lparr>plist := (plist d1)[i := (plist d1 ! i)\<lparr>lp_hostname := strncpy_trunc DHCPS_MAX_HOSTNAME_LEN (current_hostname d1)\<rparr>]\<rparr>
         else d' = (let d2 = d1\<lparr>plist := node_remove_from_list i (plist d1)\<rparr> in
                (if ret = DHCPS_STATE_DECLINE then d2\<lparr>has_declined_ip := True\<rparr> else d2)\<lparr>client_address := 0\<rparr>)"
      using assms(3) False i
      by (auto simp: dhcps_pool_check_def bind_eq_Some_conv keeps_lease_def Let_def split: if_splits)
    obtain h where h: "host_ok h" "d1 = d\<lparr>current_hostname := h\<rparr>"
      using parse_options_effect [OF d1] by blast
    show ?thesis
    proof (cases "keeps_lease ret")
      case True
      let ?x = "(plist d ! i)\<lparr>lp_hostname := h\<rparr>"
      have e: "d' = d\<lparr>current_hostname := h, plist := (plist d)[i := ?x]\<rparr>"
        using d' True h by (simp add: host_ok_trunc)
      have "dhcps_inv (d\<lparr>plist := (plist d)[i := ?x]\<rparr>)"
        using assms(1) il h by (intro dhcps_inv_update) auto
      then have "dhcps_inv d'" using h by (simp add: e dhcps_inv_def)
      moreover have "lease_of d' = lease_of d"
        using il by (intro lease_of_columns) (simp_all add: e map_update_same)
      moreover have "lease_of d mac = Some (client_address d)"
        using lease_of_Some [OF dhcps_invD(2) [OF assms(1)], of mac "client_address d"] il nth_mem [OF il(1)] by blast
      ultimately show ?thesis using False True by (simp add: e not_less)
    next
      case drop: False
      have "plist d' = plist ?rem" "current_hostname d' = h" "dns_server d' = dns_server d"
        "poll_end d' = poll_end d" "poll_start d' = poll_start d"
        using d' drop h i by (auto simp: Let_def)
      then show ?thesis
        using rem drop h lease_of_cong [of d' ?rem] i by (auto simp: dhcps_inv_def)
    qed
  qed
qed

definition msg_chaddr :: "bytes \<Rightarrow> mac" where "msg_chaddr m = take 6 (drop 28 m)"

text \<open>A request with a cookie goes through the three phases.\<close>

lemma parse_msg_phases:
  assumes "parse_msg env tab m len d = Some (ret, d')" "rd_bytes m 236 4 = Some magic_cookie"
  obtains ci t pos first d1 pos2 d2 where
    "t = dhcps_lease_time d * lease_unit env" "dhcps_scan (msg_chaddr m) ci t d = (pos, first, d1)"
    "(case pos of Some i \<Rightarrow> Some (Some i, d1) | None \<Rightarrow> dhcps_assign env tab (msg_chaddr m) t first d1) = Some (pos2, d2)"
    "dhcps_pool_check m len pos2 d2 = Some (ret, d')"
proof -
  define t where "t = dhcps_lease_time d * lease_unit env"
  define ci where "ci = take 4 (drop 12 m)"
  have "40 \<le> length m" using assms(2) by (auto simp: rd_bytes_def split: if_splits)
  then have rd: "rd_bytes m 28 6 = Some (msg_chaddr m)" "rd_bytes m 12 4 = Some ci"
    by (simp_all add: rd_bytes_def msg_chaddr_def ci_def)
  obtain pos first d1 where sc: "dhcps_scan (msg_chaddr m) ci t d = (pos, first, d1)" by (metis prod_cases3)
  obtain pos2 d2 where "(case pos of Some i \<Rightarrow> Some (Some i, d1)
      | None \<Rightarrow> dhcps_assign env tab (msg_chaddr m) t first d1) = Some (pos2, d2)"
    "dhcps_pool_check m len pos2 d2 = Some (ret, d')"
    using assms rd sc by (auto simp: parse_msg_def bind_eq_Some_conv t_def [symmetric])
  then show ?thesis using that [OF t_def sc] by blast
qed

text \<open>
  The effect of a request: the invariant is kept, nobody else's lease changes, and the
  sender has a lease for the announced address exactly when the answer keeps it.
\<close>

lemma parse_msg_effect:
  assumes "dhcps_inv d" "parse_msg env tab m len d = Some (ret, d')" "rd_bytes m 236 4 = Some magic_cookie"
  shows "dhcps_inv d' \<and> poll_end d' = poll_end d \<and> poll_start d' = poll_start d \<and>
    (\<forall>k. k \<noteq> msg_chaddr m \<longrightarrow> lease_of d' k = lease_of d k) \<and>
    (if keeps_lease ret
     then lease_of d' (msg_chaddr m) = Some (client_address d') \<and> client_address d' \<noteq> 0 \<and>
       client_address d' \<le> poll_end d'
     else lease_of d' (msg_chaddr m) = None)"
proof -
  define mac where "mac = msg_chaddr m"
  obtain ci t pos first d1 pos2 d2 where t: "t = dhcps_lease_time d * lease_unit env"
    and sc: "dhcps_scan mac ci t d = (pos, first, d1)"
    and a: "(case pos of Some i \<Rightarrow> Some (Some i, d1) | None \<Rightarrow> dhcps_assign env tab mac t first d1) = Some (pos2, d2)"
    and c: "dhcps_pool_check m len pos2 d2 = Some (ret, d')"
    by (rule parse_msg_phases [OF assms(2,3), folded mac_def]) (rule that)
  note s = dhcps_scan_phase [OF assms(1) sc]
  have l1: "lease_of d1 = lease_of d" using s lease_of_columns by blast
  have p: "dhcps_inv d2 \<and> at_lease mac pos2 d2 \<and> poll_end d2 = poll_end d \<and> poll_start d2 = poll_start d \<and>
      (pos2 = None \<longrightarrow> client_address d2 > poll_end d2) \<and> (\<forall>k. k \<noteq> mac \<longrightarrow> lease_of d2 k = lease_of d k)"
  proof (cases pos)
    case (Some i)
    then show ?thesis using a s l1 by auto
  next
    case None
    then have as: "dhcps_assign env tab mac t first d1 = Some (pos2, d2)"
      using a by simp
    have no: "mac \<notin> lp_mac ` set (plist d1)" using s None by (simp add: at_lease_def)
    note q = dhcps_assign_phase [OF s [THEN conjunct1] no as]
    have "\<forall>k. k \<noteq> mac \<longrightarrow> lease_of d2 k = lease_of d1 k"
    proof (cases pos2)
      case None
      then show ?thesis using q lease_of_cong [of d2 d1] by simp
    next
      case (Some j)
      then have "plist d2 = node_insert_to_list \<lparr>lp_ip = client_address d2, lp_mac = mac,
          lp_timer = t, lp_hostname = []\<rparr> (plist d1)"
        using q by simp
      from lease_of_insert [OF dhcps_invD(2) [OF s [THEN conjunct1]] _ this] no show ?thesis by simp
    qed
    then show ?thesis using q s l1 by auto
  qed
  have "pos2 = None \<Longrightarrow> client_address d2 > poll_end d2" using p by blast
  from pool_check_phase [OF _ _ c this, of mac] p
  show ?thesis unfolding mac_def [symmetric] by (auto split: if_splits)
qed

lemma parse_msg_no_cookie:
  "rd_bytes m 236 4 \<noteq> Some magic_cookie \<Longrightarrow> parse_msg env tab m len d = Some (ret, d') \<Longrightarrow> ret = 0 \<and> d' = d"
  by (auto simp: parse_msg_def bind_eq_Some_conv split: if_splits)

end
