(* ===== verification/Dhcp_Safety.thy ===== *)
theory Dhcp_Safety
  imports Dhcp_Leases
begin

text \<open>
  Memory safety and termination of the DHCP server on arbitrary packets: no read or
  write outside the message buffer, and the loop that skips reserved addresses ends.
\<close>

section \<open>The loop over reserved addresses\<close>

lemma skip_unfold:
  "skip_reserved tab mac e a =
     (if a \<le> e \<and> is_ip_reserved_for_other a mac tab then skip_reserved tab mac e (next_ip a) else Some a)"
  by (rule skip_reserved.simps)

lemma next_ip_pow: "(next_ip ^^ k) a = htonl (htonl a + word_of_nat k)"
  by (induction k) (simp_all add: next_ip_def ac_simps)

lemma reserved_addresses: "is_ip_reserved_for_other a mac tab \<Longrightarrow> a \<in> dr_ip ` set tab"
  by (auto simp: is_ip_reserved_for_other_def find_first_None split: if_splits)

lemma skip_steps:
  assumes "\<not> is_ip_reserved_for_other ((next_ip ^^ k) a) mac tab"
  shows "\<exists>j \<le> k. skip_reserved tab mac e a = Some ((next_ip ^^ j) a) \<and>
    \<not> ((next_ip ^^ j) a \<le> e \<and> is_ip_reserved_for_other ((next_ip ^^ j) a) mac tab) \<and>
    (\<forall>i < j. (next_ip ^^ i) a \<le> e \<and> is_ip_reserved_for_other ((next_ip ^^ i) a) mac tab)"
  using assms
proof (induction k arbitrary: a)
  case 0
  then have "skip_reserved tab mac e a = Some a" by (subst skip_unfold) simp
  with 0 show ?case by simp
next
  case (Suc k)
  show ?case
  proof (cases "a \<le> e \<and> is_ip_reserved_for_other a mac tab")
    case False
    then have "skip_reserved tab mac e a = Some a" by (subst skip_unfold) auto
    with False show ?thesis by (intro exI [of _ 0]) auto
  next
    case True
    have "\<not> is_ip_reserved_for_other ((next_ip ^^ k) (next_ip a)) mac tab"
      using Suc.prems by (simp add: funpow_swap1)
    from Suc.IH [OF this] obtain j where j: "j \<le> k"
      "skip_reserved tab mac e (next_ip a) = Some ((next_ip ^^ j) (next_ip a))"
      "\<not> ((next_ip ^^ j) (next_ip a) \<le> e \<and> is_ip_reserved_for_other ((next_ip ^^ j) (next_ip a)) mac tab)"
      "\<forall>i < j. (next_ip ^^ i) (next_ip a) \<le> e \<and> is_ip_reserved_for_other ((next_ip ^^ i) (next_ip a)) mac tab"
      by blast
    have "skip_reserved tab mac e a = Some ((next_ip ^^ Suc j) a)"
      using True j(2) by (subst skip_unfold) (simp add: funpow_swap1)
    moreover have "(next_ip ^^ i) a \<le> e \<and> is_ip_reserved_for_other ((next_ip ^^ i) a) mac tab" if "i < Suc j" for i
      using True j(4) that by (cases i) (auto simp: funpow_swap1)
    ultimately show ?thesis
      using j(1,3) by (intro exI [of _ "Suc j"]) (auto simp: funpow_swap1)
  qed
qed

text \<open>Among one more addresses than there are reservations, one is not reserved.\<close>

lemma free_address:
  assumes "length tab < 2 ^ 32"
  shows "\<exists>k \<le> length tab. \<not> is_ip_reserved_for_other ((next_ip ^^ k) a) mac tab"
proof (rule ccontr)
  assume "\<not> ?thesis"
  then have "(\<lambda>k. (next_ip ^^ k) a) ` {..length tab} \<subseteq> dr_ip ` set tab"
    using reserved_addresses by blast
  then have "card ((\<lambda>k. (next_ip ^^ k) a) ` {..length tab}) \<le> card (dr_ip ` set tab)"
    by (intro card_mono) auto
  also have "\<dots> \<le> length tab"
    using card_image_le [of "set tab" dr_ip] card_length [of tab] by simp
  finally have "card ((\<lambda>k. (next_ip ^^ k) a) ` {..length tab}) \<le> length tab" .
  moreover have "inj_on (\<lambda>k. (next_ip ^^ k) a) {..length tab}"
  proof (rule inj_onI)
    fix i j assume ij: "i \<in> {..length tab}" "j \<in> {..length tab}" "(next_ip ^^ i) a = (next_ip ^^ j) a"
    then have "htonl (htonl (htonl a + word_of_nat i)) = htonl (htonl (htonl a + word_of_nat j))"
      by (simp only: next_ip_pow)
    then have "(word_of_nat i :: u32) = word_of_nat j" by simp
    moreover have "i < 2 ^ 32" "j < 2 ^ 32" using ij assms by auto
    ultimately show "i = j"
      by (simp add: word_of_nat_eq_iff take_bit_nat_eq_self)
  qed
  then have "card ((\<lambda>k. (next_ip ^^ k) a) ` {..length tab}) = Suc (length tab)" by (simp add: card_image)
  ultimately show False by simp
qed

lemma skip_total:
  assumes "length tab < 2 ^ 32"
  shows "\<exists>j \<le> length tab. skip_reserved tab mac e a = Some ((next_ip ^^ j) a) \<and>
    \<not> ((next_ip ^^ j) a \<le> e \<and> is_ip_reserved_for_other ((next_ip ^^ j) a) mac tab) \<and>
    (\<forall>i < j. (next_ip ^^ i) a \<le> e \<and> is_ip_reserved_for_other ((next_ip ^^ i) a) mac tab)"
proof -
  obtain k where "k \<le> length tab" "\<not> is_ip_reserved_for_other ((next_ip ^^ k) a) mac tab"
    using free_address [OF assms] by blast
  with skip_steps [of k a mac tab e] show ?thesis by (meson order_trans)
qed

section \<open>Reading a request\<close>

lemma parse_opt_loop_total:
  "e \<le> length m \<Longrightarrow> \<exists>t. parse_opt_loop m client i e s = Some t"
proof (induction m client i e s rule: parse_opt_loop.induct)
  case (1 m client i e s)
  show ?case
  proof (cases "i < e")
    case False
    then show ?thesis by (subst parse_opt_loop.simps) simp
  next
    case True
    then have t: "rd8 m i = Some (m ! i)" using 1(3) by (simp add: rd8_def)
    consider "m ! i = DHCP_OPTION_PAD" | "m ! i \<noteq> DHCP_OPTION_PAD" "m ! i = DHCP_OPTION_END \<or> e \<le> i + 1"
      | "m ! i \<noteq> DHCP_OPTION_PAD" "m ! i \<noteq> DHCP_OPTION_END" "i + 1 < e" by linarith
    then show ?thesis
    proof cases
      case 1
      then show ?thesis
        using 1(1) True t "1.prems" "1.IH"(1) [of "m ! i"] by (subst parse_opt_loop.simps) simp
    next
      case 2
      then show ?thesis using True t by (subst parse_opt_loop.simps) auto
    next
      case 3
      have l: "rd8 m (i + 1) = Some (m ! (i + 1))" using 3(3) "1.prems" by (simp add: rd8_def)
      show ?thesis
      proof (cases "i + 2 + unat (m ! (i + 1)) > e")
        case True
        then show ?thesis using \<open>i < e\<close> 3 t l by (subst parse_opt_loop.simps) simp
      next
        case False
        then obtain v where v: "rd_bytes m (i + 2) (unat (m ! (i + 1))) = Some v"
          using "1.prems" by (simp add: rd_bytes_def)
        have "\<exists>t. parse_opt_loop m client (i + (unat (m ! (i + 1)) + 2)) e (opt_step client (m ! i) v s) = Some t"
          using "1.IH"(2) [of "m ! i" "m ! (i + 1)" v] True t 3 l False v "1.prems" by simp
        then show ?thesis using True t 3 l False v by (subst parse_opt_loop.simps) simp
      qed
    qed
  qed
qed

lemma parse_options_total:
  assumes "OPTIONS_OFS + nat len \<le> length m"
  shows "\<exists>ret d'. parse_options m len d = Some (ret, d')"
proof -
  obtain t where "parse_opt_loop m (client_address d) OPTIONS_OFS (OPTIONS_OFS + nat len)
      \<lparr>os_type = 0, os_state = DHCPS_STATE_IDLE, os_host = []\<rparr> = Some t"
    using parse_opt_loop_total [OF assms] by blast
  then show ?thesis by (simp add: parse_options_def)
qed

lemma dhcps_assign_total:
  assumes "length tab < 2 ^ 32" "node_ok env"
  shows "\<exists>pos d'. dhcps_assign env tab mac t first d = Some (pos, d')"
proof -
  obtain a where "skip_reserved tab mac (poll_end d)
      (if client_address_plus d > poll_end d then first else client_address d) = Some a"
    using skip_total [OF assms(1)] by blast
  then show ?thesis using assms(2) by (auto simp: dhcps_assign_def Let_def)
qed

lemma pool_check_total:
  assumes "OPTIONS_OFS + nat len \<le> length m"
  shows "\<exists>ret d'. dhcps_pool_check m len pos d = Some (ret, d')"
proof -
  obtain ret d' where "parse_options m len d = Some (ret, d')" using parse_options_total [OF assms] by blast
  then show ?thesis by (cases pos) (auto simp: dhcps_pool_check_def Let_def)
qed

lemma parse_msg_total:
  assumes "OPTIONS_OFS + nat len \<le> length m" "length tab < 2 ^ 32" "node_ok env"
  shows "\<exists>ret d'. parse_msg env tab m len d = Some (ret, d')"
proof -
  have "240 \<le> length m" using assms(1) by (simp add: OPTIONS_OFS_def)
  then have rd: "rd_bytes m 236 4 = Some (take 4 (drop 236 m))" "rd_bytes m 28 6 = Some (take 6 (drop 28 m))"
    "rd_bytes m 12 4 = Some (take 4 (drop 12 m))"
    by (simp_all add: rd_bytes_def)
  obtain pos first d1 where sc: "dhcps_scan (take 6 (drop 28 m)) (take 4 (drop 12 m))
      (dhcps_lease_time d * lease_unit env) d = (pos, first, d1)" by (metis prod_cases3)
  obtain pos2 d2 where a: "(case pos of Some i \<Rightarrow> Some (Some i, d1)
      | None \<Rightarrow> dhcps_assign env tab (take 6 (drop 28 m)) (dhcps_lease_time d * lease_unit env) first d1) = Some (pos2, d2)"
    using dhcps_assign_total [OF assms(2,3)] by (cases pos) fastforce+
  obtain ret d3 where "dhcps_pool_check m len pos2 d2 = Some (ret, d3)"
    using pool_check_total [OF assms(1)] by blast
  with rd sc a show ?thesis by (cases "take 4 (drop 236 m) = magic_cookie") (auto simp: parse_msg_def)
qed

section \<open>Writing a reply\<close>

definition uri_fits :: "dhcps \<Rightarrow> bool" where
  "uri_fits d \<longleftrightarrow> (case dhcps_captiveportal_uri d of None \<Rightarrow> True | Some u \<Rightarrow> length u \<le> 247)"

lemma length_offer_options: "uri_fits d \<Longrightarrow> length (add_offer_options env d) \<le> 304"
  by (auto simp: add_offer_options_def Let_def dhcps_option_ip_def uri_fits_def split: option.splits)

lemma wr_bytes_total:
  "i + length v \<le> length m \<Longrightarrow> \<exists>m'. wr_bytes m i v = Some m' \<and> length m' = length m"
  by (simp add: wr_bytes_def)

lemma create_msg_total:
  assumes "240 \<le> length m"
  shows "\<exists>m'. create_msg env d m = Some m' \<and> length m' = length m"
proof -
  obtain m1 where m1: "wr_bytes m 0 [2, 1, 6] = Some m1" "length m1 = length m"
    using wr_bytes_total [of 0 "[2, 1, 6]" m] assms by auto
  obtain m2 where m2: "(if static_arp env then Some m1 else wr_bytes m1 10 (le16_bytes (htons 0x8000))) = Some m2"
    "length m2 = length m"
    using wr_bytes_total [of 10 "le16_bytes (htons 0x8000)" m1] assms m1 by (cases "static_arp env") auto
  obtain m3 where m3: "wr_bytes m2 16 (le32_bytes (client_address d)) = Some m3" "length m3 = length m"
    using wr_bytes_total [of 16 "le32_bytes (client_address d)" m2] assms m2(2) by auto
  obtain m4 where m4: "wr_bytes m3 236 magic_cookie = Some m4" "length m4 = length m"
    using wr_bytes_total [of 236 magic_cookie m3] assms m3(2) by (auto simp: magic_cookie_def)
  from m1 m2 m3 m4 show ?thesis by (simp add: create_msg_def)
qed

lemma write_options_total:
  assumes "length o' \<le> 308" "548 \<le> length m"
  shows "\<exists>y m'. create_msg env d m = Some y \<and> wr_bytes y OPTIONS_OFS o' = Some m' \<and> length m' = length m"
proof -
  obtain m1 where "create_msg env d m = Some m1" "length m1 = length m"
    using create_msg_total [of m env d] assms(2) by auto
  with wr_bytes_total [of OPTIONS_OFS o' m1] assms show ?thesis by (simp add: OPTIONS_OFS_def)
qed

lemma response_ip_total:
  "40 \<le> length m \<Longrightarrow> \<exists>ip arp. dhcps_response_ip_set env d m = Some (ip, arp)"
  by (simp add: dhcps_response_ip_set_def rd_bytes_ok rd32_ok rd16_ok)

lemma nak_ip_total: "40 \<le> length m \<Longrightarrow> \<exists>ip arp. dhcps_nak_ip_set env d m = Some (ip, arp)"
  by (simp add: dhcps_nak_ip_set_def rd_bytes_ok rd32_ok)

lemma send_offer_total:
  assumes "548 \<le> length m" "uri_fits d"
  shows "\<exists>out. send_offer env d m = Some out"
proof -
  let ?o = "add_msg_type DHCPOFFER @ add_offer_options env d @ add_end"
  have "length ?o \<le> 308"
    using length_offer_options [OF assms(2), of env] by (simp add: add_msg_type_def add_end_def)
  from write_options_total [OF this assms(1), of env d] obtain y m' where
    m': "create_msg env d m = Some y" "wr_bytes y OPTIONS_OFS ?o = Some m'" "length m' = length m" by blast
  obtain ip arp where "dhcps_response_ip_set env d m' = Some (ip, arp)"
    using response_ip_total [of m' env d] m'(3) assms(1) by auto
  with m' show ?thesis by (auto simp: send_offer_def)
qed

lemma send_nak_total:
  assumes "548 \<le> length m"
  shows "\<exists>out. send_nak env d m = Some out"
proof -
  let ?o = "add_msg_type DHCPNAK @ add_end"
  have "length ?o \<le> 308" by (simp add: add_msg_type_def add_end_def)
  from write_options_total [OF this assms(1), of env d] obtain y m' where
    m': "create_msg env d m = Some y" "wr_bytes y OPTIONS_OFS ?o = Some m'" "length m' = length m" by blast
  obtain ip arp where "dhcps_nak_ip_set env d m' = Some (ip, arp)"
    using nak_ip_total [of m' env d] m'(3) assms(1) by auto
  with m' show ?thesis by (auto simp: send_nak_def)
qed

lemma send_ack_total:
  assumes "548 \<le> length m" "uri_fits d" "dhcps_cb d"
  shows "\<exists>out. send_ack env d m = Some out"
proof -
  let ?o = "add_msg_type DHCPACK @ add_offer_options env d @ add_end"
  have "length ?o \<le> 308"
    using length_offer_options [OF assms(2), of env] by (simp add: add_msg_type_def add_end_def)
  from write_options_total [OF this assms(1), of env d] obtain y m' where
    m': "create_msg env d m = Some y" "wr_bytes y OPTIONS_OFS ?o = Some m'" "length m' = length m" by blast
  obtain ip arp where "dhcps_response_ip_set env d m' = Some (ip, arp)"
    using response_ip_total [of m' env d] m'(3) assms(1) by auto
  with m' assms(1,3) show ?thesis by (auto simp: send_ack_def rd_bytes_def)
qed

section \<open>The handler\<close>

lemma dhcp_buffer_total:
  "\<exists>m. dhcp_buffer chain = Some m \<and> 548 \<le> length m \<and> length (concat chain) \<le> length m"
proof -
  have "concat chain = concat (take 2 chain) @ concat (drop 2 chain)"
    by (metis append_take_drop_id concat_append)
  then have "length (concat (take 2 chain)) \<le> length (concat chain)" by simp
  then show ?thesis by (auto simp: dhcp_buffer_def Let_def DHCPS_MSG_SIZE_def)
qed

lemma dhcp_setting_frame:
  assumes "parse_msg env tab m len d = Some (ret, d')"
  shows "dhcps_captiveportal_uri d' = dhcps_captiveportal_uri d \<and> dhcps_cb d' = dhcps_cb d"
proof -
  have 1: "dhcps_captiveportal_uri d2 = dhcps_captiveportal_uri d1 \<and> dhcps_cb d2 = dhcps_cb d1"
    if "dhcps_scan mac ci t d1 = (pos, first, d2)" for mac ci t d1 pos first d2
    using that by (auto simp: dhcps_scan_def Let_def split: if_splits prod.splits option.splits)
  have 2: "dhcps_captiveportal_uri d2 = dhcps_captiveportal_uri d1 \<and> dhcps_cb d2 = dhcps_cb d1"
    if "dhcps_assign env tab mac t first d1 = Some (pos, d2)" for mac t d1 pos first d2
    using that by (auto simp: dhcps_assign_def Let_def bind_eq_Some_conv split: if_splits)
  have 3: "dhcps_captiveportal_uri d2 = dhcps_captiveportal_uri d1 \<and> dhcps_cb d2 = dhcps_cb d1"
    if "dhcps_pool_check m len pos d1 = Some (ret, d2)" for pos d1 d2
    using that
    by (auto simp: dhcps_pool_check_def Let_def bind_eq_Some_conv dest!: parse_options_effect
        split: if_splits option.splits)
  show ?thesis
  proof (cases "rd_bytes m 236 4 = Some magic_cookie")
    case False
    with parse_msg_no_cookie [OF _ assms] show ?thesis by simp
  next
    case True
    obtain ci t pos first d1 pos2 d2 where "t = dhcps_lease_time d * lease_unit env"
      and p: "dhcps_scan (msg_chaddr m) ci t d = (pos, first, d1)"
      "(case pos of Some i \<Rightarrow> Some (Some i, d1) | None \<Rightarrow> dhcps_assign env tab (msg_chaddr m) t first d1) = Some (pos2, d2)"
      "dhcps_pool_check m len pos2 d2 = Some (ret, d')"
      by (rule parse_msg_phases [OF assms True]) (rule that)
    have "dhcps_captiveportal_uri d2 = dhcps_captiveportal_uri d1 \<and> dhcps_cb d2 = dhcps_cb d1"
      using p(2) 2 [of "msg_chaddr m" t first d1 pos2 d2] by (cases pos) auto
    then show ?thesis using 1 [OF p(1)] 3 [OF p(3)] by simp
  qed
qed

lemma handle_dhcp_total:
  assumes "uri_fits d" "dhcps_cb d" "node_ok env" "length tab < 2 ^ 32"
  shows "handle_dhcp env tab p d \<noteq> None"
proof (cases "p = None \<or> \<not> heap_ok env \<or> length (concat (the p)) > 32767")
  case True
  then show ?thesis by (cases p) (auto simp: handle_dhcp_def)
next
  case False
  then obtain chain where chain: "p = Some chain" by (cases p) auto
  obtain m where m: "dhcp_buffer chain = Some m" "548 \<le> length m" "length (concat chain) \<le> length m"
    using dhcp_buffer_total by blast
  have "OPTIONS_OFS + nat (int (length (concat chain)) - 240) \<le> length m"
    using m by (simp add: OPTIONS_OFS_def)
  from parse_msg_total [OF this assms(4,3)] obtain ret d' where
    r: "parse_msg env tab m (int (length (concat chain)) - 240) d = Some (ret, d')" by blast
  note f = dhcp_setting_frame [OF r]
  have uri: "uri_fits d'" "dhcps_cb d'" using f assms(1,2) by (auto simp: uri_fits_def)
  show ?thesis
    using False chain m r send_offer_total [OF m(2) uri(1), of env] send_ack_total [OF m(2) uri, of env]
      send_nak_total [OF m(2), of env d']
    by (auto simp: handle_dhcp_def)
qed

text \<open>C11: whatever packet arrives, the handler reads and writes only inside its buffer and returns:
  the captive-portal URI must fit (at most 247 characters), the lease callback be set, and memory
  for one lease be available.\<close>

theorem handle_dhcp_safe:
  assumes "uri_fits d" "dhcps_cb d" "node_ok env" "length tab < 2 ^ 32"
  shows "\<exists>out d'. handle_dhcp env tab p d = Some (out, d')"
  using handle_dhcp_total [OF assms] by auto

definition env_example :: dhcps_env where
  "env_example = \<lparr>static_arp = True, add_dns = True, lease_unit = 60, max_station_num = 8, heap_ok = True,
     node_ok = True, pbuf_ok = True, udp_new_ok = True, udp_send_ok = True\<rparr>"

theorem handle_dhcp_safe_witness:
  "\<exists>out d'. handle_dhcp env_example [] (Some [[1, 2, 3], [4]]) (dhcps_new\<lparr>dhcps_cb := True\<rparr>) = Some (out, d')"
  by (rule handle_dhcp_safe) (simp_all add: uri_fits_def dhcps_new_def env_example_def)

end
