(* ===== verification/Dhcp_Options.thy ===== *)
theory Dhcp_Options
  imports Dhcp_Safety
begin

text \<open>
  DHCP options as a list of tagged values: what the parser computes from an encoded list,
  and what the replies encode.
\<close>

section \<open>Encoded options\<close>

definition tlv :: "u8 \<times> bytes \<Rightarrow> bytes" where
  "tlv o' = fst o' # word_of_nat (length (snd o')) # snd o'"

definition tlv_ok :: "u8 \<times> bytes \<Rightarrow> bool" where
  "tlv_ok o' \<longleftrightarrow> fst o' \<noteq> DHCP_OPTION_PAD \<and> fst o' \<noteq> DHCP_OPTION_END \<and> length (snd o') < 256"

definition encode_options :: "(u8 \<times> bytes) list \<Rightarrow> bytes" where
  "encode_options os = concat (map tlv os) @ [DHCP_OPTION_END]"

text \<open>The meaning of a list of options for the server: its \<open>switch\<close>, option by option.\<close>

definition options_meaning :: "u32 \<Rightarrow> (u8 \<times> bytes) list \<Rightarrow> opt_state \<Rightarrow> opt_state" where
  "options_meaning client os s = fold (\<lambda>(t, v). opt_step client t v) os s"

lemma length_tlv: "length (tlv o') = length (snd o') + 2"
  by (simp add: tlv_def)

lemma unat_len: "n < 256 \<Longrightarrow> unat (word_of_nat n :: u8) = n"
  by (simp add: unsigned_of_nat take_bit_nat_eq_self)

lemma drop_nth: "drop i m = x # r \<Longrightarrow> i < length m \<and> m ! i = x \<and> drop (i + 1) m = r"
  by (metis Cons_nth_drop_Suc Suc_eq_plus1 drop_all linorder_not_less list.distinct(1) list.inject)

lemma parse_opt_end:
  assumes "i < e" "drop i m = DHCP_OPTION_END # r"
  shows "parse_opt_loop m client i e s = Some s"
proof -
  have "rd8 m i = Some DHCP_OPTION_END" using drop_nth [OF assms(2)] by (simp add: rd8_def)
  then show ?thesis
    using assms(1) by (subst parse_opt_loop.simps) (simp add: DHCP_OPTION_PAD_def DHCP_OPTION_END_def)
qed

lemma parse_opt_one:
  assumes "drop i m = tlv (t, v) @ r" "tlv_ok (t, v)" "i + length (tlv (t, v)) < e"
  shows "parse_opt_loop m client i e s = parse_opt_loop m client (i + length (tlv (t, v))) e (opt_step client t v s)"
proof -
  have d: "drop i m = t # word_of_nat (length v) # v @ r" using assms(1) by (simp add: tlv_def)
  note d1 = drop_nth [OF d]
  then have d2: "drop (i + 1) m = word_of_nat (length v) # v @ r" by simp
  note d3 = drop_nth [OF d2]
  have l: "length v < 256" "t \<noteq> DHCP_OPTION_PAD" "t \<noteq> DHCP_OPTION_END" using assms(2) by (auto simp: tlv_ok_def)
  have dv: "drop (i + 2) m = v @ r" using d3 by simp
  have "length (v @ r) = length m - (i + 2)" by (metis dv length_drop)
  then have "length v \<le> length m - (i + 2)" by simp
  moreover have "i + 2 \<le> length m" using d3 by simp
  ultimately have "i + 2 + length v \<le> length m" by linarith
  then have rv: "rd_bytes m (i + 2) (length v) = Some v"
    using dv by (simp add: rd_bytes_def)
  have e: "i < e" "i + 1 < e" "\<not> e < i + 2 + length v" using assms(3) by (auto simp: length_tlv)
  have "rd8 m i = Some t" "rd8 m (i + 1) = Some (word_of_nat (length v))"
    using d1 d3 by (auto simp: rd8_def)
  then show ?thesis
    using e l rv unat_len [OF l(1)] by (subst parse_opt_loop.simps) (simp add: length_tlv ac_simps)
qed

text \<open>The parser computes the meaning of what was encoded.\<close>

lemma parse_opt_encoded:
  assumes "drop i m = encode_options os @ r" "\<forall>o' \<in> set os. tlv_ok o'" "i + length (encode_options os) \<le> e"
  shows "parse_opt_loop m client i e s = Some (options_meaning client os s)"
  using assms
proof (induction os arbitrary: i s)
  case Nil
  then show ?case by (simp add: encode_options_def options_meaning_def parse_opt_end)
next
  case (Cons o' os)
  obtain t v where o': "o' = (t, v)" by (cases o')
  have d: "drop i m = tlv (t, v) @ encode_options os @ r"
    using Cons.prems(1) by (simp add: encode_options_def o')
  have "parse_opt_loop m client i e s = parse_opt_loop m client (i + length (tlv (t, v))) e (opt_step client t v s)"
    using Cons.prems(2,3) by (intro parse_opt_one [OF d]) (auto simp: o' encode_options_def)
  also have "\<dots> = Some (options_meaning client os (opt_step client t v s))"
  proof (rule Cons.IH)
    show "drop (i + length (tlv (t, v))) m = encode_options os @ r"
      using d by (metis add.commute append_eq_conv_conj drop_drop)
  qed (use Cons.prems in \<open>auto simp: o' encode_options_def\<close>)
  finally show ?case by (simp add: options_meaning_def o')
qed

section \<open>The options of a reply\<close>

text \<open>What an offer or an acknowledgement tells the client.\<close>

definition offer_list :: "dhcps_env \<Rightarrow> dhcps \<Rightarrow> (u8 \<times> bytes) list" where
  "offer_list env d =
     [(1, le32_bytes (dhcps_mask d)),
      (51, rev (le32_bytes (dhcps_lease_time d * lease_unit env))),
      (54, le32_bytes (server_address d))] @
     (if dhcps_offer d AND 0x01 \<noteq> 0 \<and> get_gw (dhcps_netif d) \<noteq> 0
      then [(3, le32_bytes (get_gw (dhcps_netif d)))] else []) @
     (if dhcps_dns d AND 0x02 \<noteq> 0
      then [(6, le32_bytes (dns_server d ! 0) @ (if dns_server d ! 1 \<noteq> 0 then le32_bytes (dns_server d ! 1) else []))]
      else if add_dns env then [(6, le32_bytes (server_address d))] else []) @
     [(28, le32_bytes ((server_address d AND dhcps_mask d) OR NOT (dhcps_mask d))), (26, [0x05, 0xDC])] @
     (case dhcps_captiveportal_uri d of None \<Rightarrow> []
      | Some uri \<Rightarrow> [(114, map (\<lambda>c. word_of_nat (of_char c)) uri)]) @
     [(31, [0]), (43, [1, 4, 0, 0, 0, 2])]"

lemma lease_bytes:
  "[ucast (drop_bit 24 x AND 0xFF), ucast (drop_bit 16 x AND 0xFF), ucast (drop_bit 8 x AND 0xFF), ucast (x AND 0xFF)]
     = rev (le32_bytes x)" for x :: u32
proof -
  have "ucast (y AND 0xFF) = (ucast y :: u8)" for y :: u32
  proof (rule bit_word_eqI)
    fix n assume "n < LENGTH(8)"
    then have "n < 8" by simp
    moreover have "bit (0xFF :: u32) n \<longleftrightarrow> n < 8" for n
    proof -
      have "(0xFF :: u32) = mask 8" by (simp add: mask_eq_exp_minus_1)
      then show ?thesis by (simp only: bit_mask_iff) auto
    qed
    ultimately show "bit (ucast (y AND 0xFF) :: u8) n = bit (ucast y :: u8) n"
      by (auto simp: bit_unsigned_iff bit_and_iff)
  qed
  then show ?thesis by (simp add: le32_bytes_def byte_of_def)
qed

lemma offer_options_encode: "add_offer_options env d = concat (map tlv (offer_list env d))"
  using lease_bytes [of "dhcps_lease_time d * lease_unit env"]
  by (cases "dhcps_captiveportal_uri d")
    (simp_all add: add_offer_options_def offer_list_def tlv_def dhcps_option_ip_def Let_def)

lemma offer_list_ok: "uri_fits d \<Longrightarrow> \<forall>o' \<in> set (offer_list env d). tlv_ok o'"
  by (auto simp: offer_list_def tlv_ok_def uri_fits_def DHCP_OPTION_PAD_def DHCP_OPTION_END_def split: option.splits)

section \<open>The layout of a reply\<close>

lemma create_msg_layout:
  assumes "create_msg env d m = Some y" "wr_bytes y OPTIONS_OFS o' = Some m'"
  shows "length m' = length m \<and> rd_bytes m' 0 3 = Some [2, 1, 6] \<and>
    rd_bytes m' 16 4 = Some (le32_bytes (client_address d)) \<and>
    rd_bytes m' 236 4 = Some magic_cookie \<and> rd_bytes m' 240 (length o') = Some o' \<and>
    (\<forall>j n. 3 \<le> j \<and> j + n \<le> 10 \<or> 12 \<le> j \<and> j + n \<le> 16 \<or> 20 \<le> j \<and> j + n \<le> 236 \<longrightarrow>
       rd_bytes m' j n = rd_bytes m j n)"
proof -
  obtain m1 m2 m3 where
    w1: "wr_bytes m 0 [2, 1, 6] = Some m1" and
    w2: "(if static_arp env then Some m1 else wr_bytes m1 10 (le16_bytes (htons 0x8000))) = Some m2" and
    w3: "wr_bytes m2 16 (le32_bytes (client_address d)) = Some m3" and
    w4: "wr_bytes m3 236 magic_cookie = Some y"
    using assms(1) by (auto simp: create_msg_def bind_eq_Some_conv)
  have w5: "wr_bytes y 240 o' = Some m'" using assms(2) by (simp add: OPTIONS_OFS_def)
  have e2: "rd_bytes m2 j n = rd_bytes m1 j n" if "j + n \<le> 10 \<or> 12 \<le> j" for j n
    using w2 that rd_bytes_elsewhere [of m1 10 "le16_bytes (htons 0x8000)" m2 j n]
    by (auto simp: length_le_bytes split: if_splits)
  have "length m2 = length m1"
    using w2 wr_bytes_length [of m1 10 "le16_bytes (htons 0x8000)" m2] by (auto split: if_splits)
  then have "length m' = length m"
    using wr_bytes_length [OF w1] wr_bytes_length [OF w3] wr_bytes_length [OF w4] wr_bytes_length [OF w5] by simp
  moreover have "rd_bytes m' 0 3 = Some [2, 1, 6]"
    using rd_bytes_written [OF w1] e2 [of 0 3] rd_bytes_elsewhere [OF w3, of 0 3]
      rd_bytes_elsewhere [OF w4, of 0 3] rd_bytes_elsewhere [OF w5, of 0 3] by (simp add: numeral_3_eq_3)
  moreover have "rd_bytes m' 16 4 = Some (le32_bytes (client_address d))"
    using rd_bytes_written [OF w3] rd_bytes_elsewhere [OF w4, of 16 4] rd_bytes_elsewhere [OF w5, of 16 4] by simp
  moreover have "rd_bytes m' 236 4 = Some magic_cookie"
  proof -
    have "length magic_cookie = 4" by (simp add: magic_cookie_def)
    with rd_bytes_written [OF w4] rd_bytes_elsewhere [OF w5, of 236 4] show ?thesis by simp
  qed
  moreover have "rd_bytes m' 240 (length o') = Some o'" by (rule rd_bytes_written [OF w5])
  moreover have "rd_bytes m' j n = rd_bytes m j n"
    if "3 \<le> j \<and> j + n \<le> 10 \<or> 12 \<le> j \<and> j + n \<le> 16 \<or> 20 \<le> j \<and> j + n \<le> 236" for j n
  proof -
    have "rd_bytes m1 j n = rd_bytes m j n" using that by (intro rd_bytes_elsewhere [OF w1]) auto
    moreover have "rd_bytes m2 j n = rd_bytes m1 j n" using that by (intro e2) auto
    moreover have "rd_bytes m3 j n = rd_bytes m2 j n" using that by (intro rd_bytes_elsewhere [OF w3]) auto
    moreover have "rd_bytes y j n = rd_bytes m3 j n" using that by (intro rd_bytes_elsewhere [OF w4]) auto
    moreover have "rd_bytes m' j n = rd_bytes y j n" using that by (intro rd_bytes_elsewhere [OF w5]) auto
    ultimately show ?thesis by simp
  qed
  ultimately show ?thesis by blast
qed

text \<open>An offer carries the client's transaction number and hardware address back, names the
  chosen address, and its option field is a well-formed encoding of the announced settings.\<close>

theorem send_offer_layout:
  assumes "548 \<le> length m" "uri_fits d" "pbuf_ok env"
  shows "\<exists>arp ip m'. send_offer env d m = Some (arp @ [UdpSend ip m'] @ arp_removal env ip) \<and>
    length m' = length m \<and> rd_bytes m' 0 3 = Some [2, 1, 6] \<and>
    rd_bytes m' 4 4 = rd_bytes m 4 4 \<and> rd_bytes m' 28 6 = rd_bytes m 28 6 \<and>
    rd_bytes m' 16 4 = Some (le32_bytes (client_address d)) \<and> rd_bytes m' 236 4 = Some magic_cookie \<and>
    (\<forall>o' \<in> set ((53, [2]) # offer_list env d). tlv_ok o') \<and>
    (\<exists>r. drop 240 m' = encode_options ((53, [2]) # offer_list env d) @ r)"
proof -
  let ?o = "add_msg_type DHCPOFFER @ add_offer_options env d @ add_end"
  have o': "?o = encode_options ((53, [2]) # offer_list env d)"
    by (simp add: encode_options_def offer_options_encode add_msg_type_def add_end_def tlv_def dhcp_consts)
  have "length ?o \<le> 308"
    using length_offer_options [OF assms(2), of env] by (simp add: add_msg_type_def add_end_def)
  from write_options_total [OF this assms(1), of env d] obtain y m' where
    w: "create_msg env d m = Some y" "wr_bytes y OPTIONS_OFS ?o = Some m'" "length m' = length m" by blast
  obtain ip arp where a: "dhcps_response_ip_set env d m' = Some (ip, arp)"
    using response_ip_total [of m' env d] w(3) assms(1) by auto
  note l = create_msg_layout [OF w(1,2)]
  have "take (length ?o) (drop 240 m') = ?o" using l by (auto simp: rd_bytes_def split: if_splits)
  then have r: "drop 240 m' = encode_options ((53, [2]) # offer_list env d) @ drop (length ?o) (drop 240 m')"
    unfolding o' by (metis append_take_drop_id)
  have "send_offer env d m = Some (arp @ [UdpSend ip m'] @ arp_removal env ip)"
    using w a assms(3) by (simp add: send_offer_def)
  moreover have "\<forall>o' \<in> set ((53, [2]) # offer_list env d). tlv_ok o'"
    using offer_list_ok [OF assms(2), of env] by (simp add: tlv_ok_def dhcp_consts)
  moreover have "rd_bytes m' 4 4 = rd_bytes m 4 4" "rd_bytes m' 28 6 = rd_bytes m 28 6" using l by simp_all
  ultimately show ?thesis using l r by blast
qed

theorem send_offer_layout_witness:
  "\<exists>arp ip m'. send_offer env_example (dhcps_new\<lparr>client_address := 7\<rparr>) (replicate 548 0) =
     Some (arp @ [UdpSend ip m'] @ arp_removal env_example ip) \<and> rd_bytes m' 16 4 = Some [7, 0, 0, 0]"
proof -
  have "548 \<le> length (replicate 548 (0 :: u8))" "uri_fits (dhcps_new\<lparr>client_address := 7\<rparr>)" "pbuf_ok env_example"
    by (simp_all add: uri_fits_def dhcps_new_def env_example_def)
  from send_offer_layout [OF this] show ?thesis
    by (auto simp: le32_bytes_def byte_of_def)
qed

section \<open>The answer to a request\<close>

text \<open>
  A message of a client with its options: at least the size of a message, the cookie,
  and the encoded options at offset 240.
\<close>

definition client_msg :: "bytes \<Rightarrow> mac \<Rightarrow> (u8 \<times> bytes) list \<Rightarrow> int \<Rightarrow> bool" where
  "client_msg m mac os len \<longleftrightarrow> rd_bytes m 236 4 = Some magic_cookie \<and> msg_chaddr m = mac \<and>
     (\<forall>o' \<in> set os. tlv_ok o') \<and> (\<exists>r. drop 240 m = encode_options os @ r) \<and>
     int (length (encode_options os)) \<le> len \<and> 240 + nat len \<le> length m"

definition start_meaning :: "u32 \<Rightarrow> (u8 \<times> bytes) list \<Rightarrow> opt_state" where
  "start_meaning client os = options_meaning client os \<lparr>os_type = 0, os_state = DHCPS_STATE_IDLE, os_host = []\<rparr>"

lemma parse_options_client:
  assumes "client_msg m mac os len"
  shows "parse_options m len d =
    Some (opt_result (renew d) (start_meaning (client_address d) os),
          d\<lparr>current_hostname := os_host (start_meaning (client_address d) os)\<rparr>)"
proof -
  obtain r where r: "drop OPTIONS_OFS m = encode_options os @ r"
    using assms by (auto simp: client_msg_def OPTIONS_OFS_def)
  have "\<forall>o' \<in> set os. tlv_ok o'" "OPTIONS_OFS + length (encode_options os) \<le> OPTIONS_OFS + nat len"
    using assms by (auto simp: client_msg_def)
  from parse_opt_encoded [OF r this] show ?thesis by (simp add: parse_options_def start_meaning_def)
qed

text \<open>The last option of a kind, and what it means for the answer.\<close>

definition last_option :: "u8 \<Rightarrow> nat \<Rightarrow> (u8 \<times> bytes) list \<Rightarrow> bytes option" where
  "last_option t n os =
     (let os = filter (\<lambda>(t', v). t' = t \<and> n \<le> length v) os in if os = [] then None else Some (snd (last os)))"

lemma last_option_snoc:
  "last_option t n (os @ [(t', v)]) = (if t' = t \<and> n \<le> length v then Some v else last_option t n os)"
  by (simp add: last_option_def)

lemma start_meaning_snoc:
  "start_meaning client (os @ [(t, v)]) = opt_step client t v (start_meaning client os)"
  by (simp add: start_meaning_def options_meaning_def)

lemma start_meaning_state:
  "os_state (start_meaning client os) =
     (case last_option DHCP_OPTION_REQ_IPADDR 4 os of None \<Rightarrow> DHCPS_STATE_IDLE
      | Some v \<Rightarrow> if take 4 v = le32_bytes client then DHCPS_STATE_ACK else DHCPS_STATE_NAK)"
proof (induction os rule: rev_induct)
  case Nil
  then show ?case by (simp add: start_meaning_def options_meaning_def last_option_def)
next
  case (snoc o' os)
  obtain t v where "o' = (t, v)" by (cases o')
  with snoc show ?case
    by (simp add: start_meaning_snoc last_option_snoc opt_step_def DHCP_OPTION_MSG_TYPE_def
        DHCP_OPTION_HOSTNAME_def DHCP_OPTION_REQ_IPADDR_def)
qed

lemma start_meaning_type:
  "os_type (start_meaning client os) =
     (case last_option DHCP_OPTION_MSG_TYPE 1 os of None \<Rightarrow> 0 | Some v \<Rightarrow> v ! 0)"
proof (induction os rule: rev_induct)
  case Nil
  then show ?case by (simp add: start_meaning_def options_meaning_def last_option_def)
next
  case (snoc o' os)
  obtain t v where "o' = (t, v)" by (cases o')
  with snoc show ?case
    by (simp add: start_meaning_snoc last_option_snoc opt_step_def DHCP_OPTION_MSG_TYPE_def
        DHCP_OPTION_HOSTNAME_def DHCP_OPTION_REQ_IPADDR_def)
qed

lemma start_meaning_host:
  "os_host (start_meaning client os) =
     (case last_option DHCP_OPTION_HOSTNAME 1 os of None \<Rightarrow> [] | Some v \<Rightarrow> clean_hostname v)"
proof (induction os rule: rev_induct)
  case Nil
  then show ?case by (simp add: start_meaning_def options_meaning_def last_option_def)
next
  case (snoc o' os)
  obtain t v where "o' = (t, v)" by (cases o')
  with snoc show ?case
    by (cases v) (auto simp: start_meaning_snoc last_option_snoc opt_step_def DHCP_OPTION_MSG_TYPE_def
        DHCP_OPTION_HOSTNAME_def DHCP_OPTION_REQ_IPADDR_def)
qed

text \<open>The server's answer to a client that holds a lease.\<close>

definition request_answer :: "u32 \<Rightarrow> bytes \<Rightarrow> (u8 \<times> bytes) list \<Rightarrow> nat" where
  "request_answer ip ciaddr os =
     (case last_option DHCP_OPTION_MSG_TYPE 1 os of
        None \<Rightarrow> (case last_option DHCP_OPTION_REQ_IPADDR 4 os of None \<Rightarrow> DHCPS_STATE_IDLE
                 | Some v \<Rightarrow> if take 4 v = le32_bytes ip then DHCPS_STATE_ACK else DHCPS_STATE_NAK)
      | Some t \<Rightarrow>
          if t ! 0 = DHCPDISCOVER then DHCPS_STATE_OFFER
          else if t ! 0 = DHCPREQUEST then
            (if (case last_option DHCP_OPTION_REQ_IPADDR 4 os of None \<Rightarrow> ciaddr = le32_bytes ip
                 | Some v \<Rightarrow> take 4 v = le32_bytes ip)
             then DHCPS_STATE_ACK else DHCPS_STATE_NAK)
          else if t ! 0 = DHCPDECLINE then DHCPS_STATE_DECLINE
          else if t ! 0 = DHCPRELEASE then DHCPS_STATE_RELEASE
          else (case last_option DHCP_OPTION_REQ_IPADDR 4 os of None \<Rightarrow> DHCPS_STATE_IDLE
                | Some v \<Rightarrow> if take 4 v = le32_bytes ip then DHCPS_STATE_ACK else DHCPS_STATE_NAK))"

lemma opt_result_answer:
  "opt_result (le32_bytes ip = ciaddr) (start_meaning ip os) = request_answer ip ciaddr os"
  unfolding opt_result_def request_answer_def start_meaning_type start_meaning_state
  by (cases "last_option DHCP_OPTION_MSG_TYPE 1 os"; cases "last_option DHCP_OPTION_REQ_IPADDR 4 os")
    (auto simp: dhcp_consts)

text \<open>A client that holds a lease in the pool gets the answer its options call for: an offer for a
  discover; an acknowledgement for a request that names its address (in option 50, or in ciaddr
  when there is no such option), a refusal otherwise.  Refusal, release and decline end the lease;
  any other answer keeps it, with the sanitised host name.\<close>

theorem dhcp_answer_with_lease:
  assumes "dhcps_inv d" "client_msg m mac os len" "lease_of d mac = Some ip" "ip \<noteq> 0" "ip \<le> poll_end d"
  shows "\<exists>d'. parse_msg env tab m len d = Some (request_answer ip (take 4 (drop 12 m)) os, d') \<and>
    lease_of d' = (if keeps_lease (request_answer ip (take 4 (drop 12 m)) os) then lease_of d
                   else (lease_of d)(mac := None)) \<and>
    current_hostname d' = (case last_option DHCP_OPTION_HOSTNAME 1 os of None \<Rightarrow> [] | Some v \<Rightarrow> clean_hostname v)"
proof -
  define ci where "ci = take 4 (drop 12 m)"
  define t where "t = dhcps_lease_time d * lease_unit env"
  have m: "rd_bytes m 236 4 = Some magic_cookie" "msg_chaddr m = mac" "240 \<le> length m"
    using assms(2) by (auto simp: client_msg_def)
  then have rd: "rd_bytes m 28 6 = Some mac" "rd_bytes m 12 4 = Some ci"
    by (simp_all add: rd_bytes_def msg_chaddr_def ci_def)
  obtain pos first d1 where sc: "dhcps_scan mac ci t d = (pos, first, d1)" by (metis prod_cases3)
  note s = dhcps_scan_phase [OF assms(1) sc]
  have "\<exists>l \<in> set (plist d). lp_mac l = mac" using assms(3) lease_of_None [of d mac] by fastforce
  then have "find_first (\<lambda>l. lp_mac l = mac) (plist d) \<noteq> None" by (simp add: find_first_None)
  then obtain i where i: "pos = Some i" using s by fastforce
  have "lease_of d1 mac = Some (client_address d1)"
    using s i lease_of_Some [of d1 mac "client_address d1"] nth_mem [of i "plist d1"]
    by (auto simp: at_lease_def dhcps_inv_def)
  then have ip: "client_address d1 = ip" using s assms(3) lease_of_columns [of d1 d] by simp
  have ren: "renew d1 = (le32_bytes ip = ci)"
    using sc i ip by (auto simp: dhcps_scan_def Let_def split: if_splits prod.splits option.splits)
  define ret where "ret = request_answer ip ci os"
  have po: "parse_options m len d1 = Some (ret, d1\<lparr>current_hostname := os_host (start_meaning ip os)\<rparr>)"
    using parse_options_client [OF assms(2), of d1] ip ren opt_result_answer [of ip ci os] by (simp add: ret_def)
  have in_pool: "\<not> (client_address d1 > poll_end d1 \<or> client_address d1 = 0)"
    using s ip assms(4,5) by auto
  obtain d' where pc: "dhcps_pool_check m len pos d1 = Some (ret, d')"
    "current_hostname d' = os_host (start_meaning ip os)"
  proof (cases "keeps_lease ret")
    case True
    then show ?thesis
      using that po in_pool i by (simp add: dhcps_pool_check_def Let_def keeps_lease_def)
  next
    case False
    then show ?thesis
      using that po in_pool i
      by (cases "ret = DHCPS_STATE_DECLINE") (auto simp: dhcps_pool_check_def Let_def keeps_lease_def)
  qed
  have run: "parse_msg env tab m len d = Some (ret, d')"
    using m(1) rd sc i pc(1) by (simp add: parse_msg_def t_def)
  have "lease_of d' = (if keeps_lease ret then lease_of d1 else (lease_of d1)(mac := None))"
    using pool_check_phase [OF s [THEN conjunct1] s [THEN conjunct2, THEN conjunct1] pc(1)] i by blast
  then show ?thesis
    using run pc(2) lease_of_columns [of d1 d] s start_meaning_host [of ip os]
    by (simp add: ret_def ci_def)
qed

definition sample_msg :: "mac \<Rightarrow> bytes \<Rightarrow> bytes" where
  "sample_msg mac opts = replicate 28 0 @ mac @ replicate 202 0 @ magic_cookie @ opts @ replicate 300 0"

lemma sample_client_msg:
  assumes "length mac = 6" "\<forall>o' \<in> set os. tlv_ok o'" "int (length (encode_options os)) = len"
  shows "client_msg (sample_msg mac (encode_options os)) mac os len"
  using assms by (auto simp: client_msg_def sample_msg_def rd_bytes_def msg_chaddr_def magic_cookie_def)

definition one_lease :: dhcps where
  "one_lease = dhcps_new\<lparr>poll_start := 5, poll_end := 9,
     plist := [\<lparr>lp_ip = 7, lp_mac = [1, 2, 3, 4, 5, 6], lp_timer = 100, lp_hostname = []\<rparr>]\<rparr>"

lemma one_lease_inv: "dhcps_inv one_lease"
  by (simp add: one_lease_def dhcps_new_def dhcps_inv_def)

theorem dhcp_answer_with_lease_witness:
  "\<exists>d'. parse_msg env_example [] (sample_msg [1, 2, 3, 4, 5, 6] (encode_options [(53, [3]), (50, [7, 0, 0, 0])])) 10
      one_lease = Some (DHCPS_STATE_ACK, d') \<and> lease_of d' [1, 2, 3, 4, 5, 6] = Some 7"
proof -
  let ?os = "[(53, [3]), (50, [7, 0, 0, 0])] :: (u8 \<times> bytes) list"
  have c: "client_msg (sample_msg [1, 2, 3, 4, 5, 6] (encode_options ?os)) [1, 2, 3, 4, 5, 6] ?os 10"
    by (rule sample_client_msg) (simp_all add: tlv_ok_def dhcp_consts encode_options_def tlv_def)
  have "lease_of one_lease [1, 2, 3, 4, 5, 6] = Some 7" by (simp add: one_lease_def lease_of_def)
  moreover have "(7 :: u32) \<le> poll_end one_lease" by (simp add: one_lease_def)
  moreover have "request_answer 7 ci ?os = DHCPS_STATE_ACK" for ci
    by (simp add: request_answer_def last_option_def dhcp_consts le32_bytes_def byte_of_def)
  ultimately show ?thesis
    using dhcp_answer_with_lease [OF one_lease_inv c, of 7 env_example "[]"]
    by (auto simp: keeps_lease_def dhcp_consts)
qed

end
