(* ===== verification/Dhcp_Pool.thy ===== *)
theory Dhcp_Pool
  imports Dhcp_Options
begin

text \<open>
  The address pool: what the default pool contains, that the announced pool is the one in
  use, and that addresses given out from it are never given to two clients.
\<close>

section \<open>The default pool\<close>

lemma pool_arith:
  fixes n v b :: u32
  assumes "n < v" "v < b" "b - n \<noteq> 2"
    and s: "s = (if v - n > b - v then n + 1 else v + 1)"
    and e: "e = (if v - n > b - v then v - 1 else b - 1)"
  shows "s \<le> e \<and> n < s \<and> e < b \<and> \<not> (s \<le> v \<and> v \<le> e)"
proof (cases "v - n > b - v")
  case True
  have "n + 1 \<le> v - 1" "n < n + 1" "v - 1 < v" using assms(1,2) True by unat_arith+
  with True assms(2) show ?thesis unfolding s e by auto
next
  case False
  have "v + 1 \<le> b - 1" "v < v + 1" "b - 1 < b" using assms(1,2,3) False by unat_arith+
  with False assms(1) show ?thesis unfolding s e by auto
qed

lemma below_cap:
  fixes x :: u32
  assumes "x \<noteq> - 1" "\<not> x + 1 > 100"
  shows "x < 100"
proof -
  have "x < - 1" using assms(1) by (simp add: less_le)
  then have "unat (x + 1) = unat x + 1" by (rule unat_succ)
  with assms(2) show ?thesis by (simp add: word_less_nat_alt)
qed

lemma above_cap:
  fixes x s e :: u32
  assumes "s \<le> e" "e - s + 1 > 100"
  shows "s \<le> s + 99 \<and> s + 99 \<le> e \<and> (s + 99) - s < 100"
proof -
  have "e - s + 1 \<noteq> 0" using assms(2) by auto
  then have "e - s < - 1" by (metis add.commute add_eq_0_iff less_le word_n1_ge)
  then have "unat (e - s + 1) = unat (e - s) + 1" by (rule unat_succ)
  then have "99 < unat e - unat s"
    using assms by (simp add: word_less_nat_alt unat_sub)
  moreover have "unat e < 4294967296" using unsigned_less [of e] by simp
  ultimately have "unat (s + 99) = unat s + 99" by (simp add: unat_word_ariths)
  then show ?thesis using \<open>99 < unat e - unat s\<close> by (simp add: word_le_nat_alt word_less_nat_alt)
qed

text \<open>The pool between network \<open>n\<close> and broadcast \<open>b\<close>, cut to 100 addresses.\<close>

lemma pool_capped:
  fixes n v b s e :: u32
  assumes "n < v" "v < b" "b - n \<noteq> 2"
    and s: "s = (if v - n > b - v then n + 1 else v + 1)"
    and e: "e0 = (if v - n > b - v then v - 1 else b - 1)"
    and c: "e = (if e0 - s + 1 > 100 then s + 99 else e0)"
  shows "s \<le> e \<and> e - s < 100 \<and> n < s \<and> e < b \<and> \<not> (s \<le> v \<and> v \<le> e)"
proof (cases "e0 - s + 1 > 100")
  case True
  note p = pool_arith [OF assms(1-3) s e] and a = above_cap [OF _ True]
  with True c show ?thesis by (metis order.strict_trans1 order.trans)
next
  case False
  note p = pool_arith [OF assms(1-3) s e]
  have "e0 - s \<noteq> - 1"
  proof
    assume "e0 - s = - 1"
    then have "e0 = s - 1" by (simp add: diff_eq_eq)
    moreover have "0 < unat s" using p unat_gt_0 [of s] by auto
    ultimately have "e0 < s" by (simp add: word_less_nat_alt unat_minus_one unat_gt_0)
    moreover have "s \<le> e0" using p by blast
    ultimately show False by (simp add: leD)
  qed
  from below_cap [OF this False] p False c show ?thesis by simp
qed

lemma net_and_broadcast:
  fixes v m :: u32
  shows "v AND m \<le> v" "v \<le> (v AND m) OR NOT m" "((v AND m) OR NOT m) - (v AND m) = NOT m"
proof -
  show "v AND m \<le> v" by (rule word_and_le2)
  have "v OR ((v AND m) OR NOT m) = (v AND m) OR NOT m"
    by (rule bit_word_eqI) (auto simp: bit_simps)
  then show "v \<le> (v AND m) OR NOT m" by (metis le_word_or2)
  have "(v AND m) AND NOT m = 0" by (rule bit_word_eqI) (auto simp: bit_simps)
  then have "(v AND m) OR NOT m = (v AND m) + NOT m" by (simp add: disjunctive_add_eq_or)
  then show "((v AND m) OR NOT m) - (v AND m) = NOT m" by simp
qed

text \<open>The pool computed around the server's address is not empty, has at most 100 addresses, lies
  strictly between the network and the broadcast address, and does not contain the server.\<close>

theorem default_pool_sound:
  assumes "(m - 1) OR m = 0xFFFFFFFF" "v \<noteq> v AND m" "v \<noteq> (v AND m) OR NOT m" "default_pool v m = (s, e)"
  shows "s \<le> e \<and> e - s < 100 \<and> v AND m < s \<and> e < (v AND m) OR NOT m \<and> \<not> (s \<le> v \<and> v \<le> e)"
proof -
  let ?n = "v AND m" and ?b = "(v AND m) OR NOT m"
  have nv: "?n < v" "v < ?b" using net_and_broadcast [of v m] assms(2,3) by (auto simp: less_le)
  have "NOT m \<noteq> 2"
  proof
    assume "NOT m = 2"
    then have "m = NOT 2" by (metis bit.double_compl)
    then have "m = 0xFFFFFFFD" by simp
    with assms(1) show False by simp
  qed
  then have two: "?b - ?n \<noteq> 2" using net_and_broadcast(3) [of v m] by simp
  define s0 where "s0 = (if v - ?n > ?b - v then ?n + 1 else v + 1)"
  define e0 where "e0 = (if v - ?n > ?b - v then v - 1 else ?b - 1)"
  have "default_pool v m = (s0, if e0 - s0 + 1 > DHCPS_MAX_LEASE then s0 + DHCPS_MAX_LEASE - 1 else e0)"
    unfolding default_pool_def Let_def s0_def e0_def
    by (cases "v - ?n > ?b - v") (simp_all only: if_True if_False prod.case)
  then have "s = s0" "e = (if e0 - s0 + 1 > 100 then s0 + 99 else e0)"
    using assms(4) by (simp_all add: DHCPS_MAX_LEASE_def)
  then show ?thesis using pool_capped [OF nv two s0_def e0_def] by simp
qed

theorem default_pool_sound_witness:
  "default_pool 0xC0A80401 0xFFFFFF00 = (0xC0A80402, 0xC0A80465) \<and> (0xC0A80465 :: u32) - 0xC0A80402 < 100"
proof -
  have d: "default_pool 0xC0A80401 0xFFFFFF00 = (0xC0A80402, 0xC0A80465)"
    by (simp add: default_pool_def DHCPS_MAX_LEASE_def)
  have "(0xFFFFFF00 - 1 :: u32) OR 0xFFFFFF00 = 0xFFFFFFFF" "(0xC0A80401 :: u32) \<noteq> 0xC0A80401 AND 0xFFFFFF00"
    "(0xC0A80401 :: u32) \<noteq> (0xC0A80401 AND 0xFFFFFF00) OR NOT 0xFFFFFF00"
    by simp_all
  from default_pool_sound [OF this d] d show ?thesis by simp
qed

text \<open>The pool the console and the web pages print is the pool the server uses, with the default
  mask and no configured range.\<close>

theorem pool_range_mirrors_server:
  assumes "\<not> poll_enable d" "dhcps_mask d = htonl 0xFFFFFF00"
  shows "get_dhcp_pool_range ip = (poll_start (dhcps_poll_set ip d), poll_end (dhcps_poll_set ip d))"
  using assms
  by (simp add: get_dhcp_pool_range_def dhcps_poll_set_def default_pool_def Let_def case_prod_unfold)

theorem pool_range_mirrors_server_witness:
  "get_dhcp_pool_range 0x0104A8C0 = (poll_start (dhcps_poll_set 0x0104A8C0 dhcps_new), poll_end (dhcps_poll_set 0x0104A8C0 dhcps_new))"
  by (rule pool_range_mirrors_server) (simp_all add: dhcps_new_def)

section \<open>Addresses of one /24\<close>

text \<open>\<open>a.b.c.k\<close> in network order: the comparisons of the code are those of the last octet.\<close>

lemma le32_less_iff: "le32 a b c k < le32 a b c k' \<longleftrightarrow> k < k'"
  by (simp add: word_less_nat_alt unat_le32)

lemma le32_le_iff: "le32 a b c k \<le> le32 a b c k' \<longleftrightarrow> k \<le> k'"
  by (simp add: word_le_nat_alt unat_le32)

lemma le32_eq_iff: "le32 a b c k = le32 a b c k' \<longleftrightarrow> k = k'"
  using byte_of_le32(4) by metis

lemma htonl_le32: "htonl (le32 a b c k) = le32 k c b a"
  by (simp add: htonl_def)

lemma next_ip_le32:
  assumes "k < 255"
  shows "next_ip (le32 a b c k) = le32 a b c (k + 1)"
proof -
  have k: "unat (k + 1) = unat k + 1" using assms by (rule unat_succ)
  have "unat k < 255" using assms by (simp add: word_less_nat_alt)
  moreover have "unat a < 256" "unat b < 256" "unat c < 256"
    using unsigned_less [of a] unsigned_less [of b] unsigned_less [of c] by simp_all
  ultimately have "unat (le32 k c b a) < 4294967295" by (simp add: unat_le32)
  then have "le32 k c b a < 0xFFFFFFFF" by (simp add: word_less_nat_alt)
  then have "unat (le32 k c b a + 1) = unat (le32 k c b a) + 1" by (rule unat_succ)
  then have "unat (le32 k c b a + 1) = unat (le32 (k + 1) c b a)" using k by (simp add: unat_le32)
  then have "le32 k c b a + 1 = le32 (k + 1) c b a" by (rule unsigned_word_eqI)
  then show ?thesis by (simp add: next_ip_def htonl_le32)
qed

section \<open>Scanning the leases of a /24\<close>

text \<open>
  The server's pool is \<open>a.b.c.s\<close> to \<open>a.b.c.e\<close>, with \<open>e\<close> below 255, and every lease is
  for an address of it.
\<close>

definition in24 :: "u8 \<Rightarrow> u8 \<Rightarrow> u8 \<Rightarrow> u8 \<Rightarrow> u8 \<Rightarrow> u32 \<Rightarrow> bool" where
  "in24 a b c s e ip \<longleftrightarrow> (\<exists>k. s \<le> k \<and> k \<le> e \<and> ip = le32 a b c k)"

lemma in24I: "s \<le> k \<Longrightarrow> k \<le> e \<Longrightarrow> in24 a b c s e (le32 a b c k)"
  by (auto simp: in24_def)

text \<open>After a scan that found no lease of the client, the next address and the first gap are free.\<close>

lemma scan_free:
  assumes "lease_scan mac ls i st = (None, st')"
    and "sorted (map lp_ip ls)" "distinct (map lp_ip ls)" "\<forall>l \<in> set ls. in24 a b c s e (lp_ip l)" "e < 255"
    and "sc_plus st = le32 a b c p" "p \<le> e + 1" "sc_client st = sc_plus st"
    and "sc_first st = le32 a b c f" "s \<le> f" "f \<le> e + 1"
    and "\<not> sc_flag st \<longrightarrow> (\<forall>l \<in> set ls. le32 a b c f \<le> lp_ip l)"
    and "sc_flag st \<longrightarrow> (\<forall>l \<in> set ls. le32 a b c f < lp_ip l)"
  shows "\<exists>p' f'. sc_plus st' = le32 a b c p' \<and> sc_client st' = sc_plus st' \<and> p \<le> p' \<and> p' \<le> e + 1 \<and>
    sc_first st' = le32 a b c f' \<and> f \<le> f' \<and> f' \<le> e + 1 \<and>
    le32 a b c p' \<notin> lp_ip ` set ls \<and> le32 a b c f' \<notin> lp_ip ` set ls \<and>
    ((\<forall>l \<in> set ls. le32 a b c p < lp_ip l) \<longrightarrow> p' = p) \<and> (sc_flag st \<longrightarrow> f' = f)"
  using assms(1) assms(2-4) assms(6-13)
proof (induction ls arbitrary: i st p f)
  case Nil
  then show ?case by auto
next
  case (Cons l ls)
  have e1: "e < e + 1" using word_succ_less [OF assms(5)] by simp
  obtain k where k: "s \<le> k" "k \<le> e" "lp_ip l = le32 a b c k"
    using Cons.prems(4) by (auto simp: in24_def)
  have k255: "k < 255" using k(2) assms(5) by (rule le_less_trans)
  have k1: "k < k + 1" "k + 1 \<le> e + 1" "k < 255"
    using k255 k(2) word_succ_less [OF k255] unat_succ [OF k255] unat_succ [OF assms(5)]
    by (auto simp: word_le_nat_alt)
  have later: "\<forall>l' \<in> set ls. le32 a b c k < lp_ip l'"
    using Cons.prems(2,3) k(3) by (fastforce simp: less_le)
  have no: "lease_scan mac ls (Suc i) (scan_step (lp_ip l) st) = (None, st')"
    using Cons.prems(1) by (simp split: if_splits)
  define p1 where "p1 = (if k = p then p + 1 else p)"
  define f1 where "f1 = (if sc_flag st \<or> f < k then f else f + 1)"
  have fk: "\<not> sc_flag st \<Longrightarrow> f \<le> k" "sc_flag st \<Longrightarrow> f < k"
    using Cons.prems(11,12) k(3) by (auto simp: le32_le_iff le32_less_iff)
  have f_step: "f1 = (if sc_flag st \<or> f < k then f else k + 1)" using fk by (auto simp: f1_def)
  have step: "sc_plus (scan_step (lp_ip l) st) = le32 a b c p1"
    "sc_client (scan_step (lp_ip l) st) = sc_plus (scan_step (lp_ip l) st)"
    "sc_first (scan_step (lp_ip l) st) = le32 a b c f1"
    "sc_flag (scan_step (lp_ip l) st) \<longleftrightarrow> sc_flag st \<or> f < k"
    using Cons.prems(5,7,8) k(3) k1(3) fk
    by (auto simp: scan_step_def Let_def p1_def f1_def le32_eq_iff le32_less_iff next_ip_le32)
  have p1: "p \<le> p1" "p1 \<le> e + 1" using Cons.prems(6) k1 by (auto simp: p1_def)
  have f1: "f \<le> f1" "f1 \<le> e + 1" "s \<le> f1"
    using Cons.prems(9,10) k1 fk by (auto simp: f_step)
  have fl: "\<forall>l' \<in> set ls. le32 a b c f1 \<le> lp_ip l'" if "\<not> (sc_flag st \<or> f < k)"
  proof
    fix l' assume l': "l' \<in> set ls"
    then obtain k' where k': "lp_ip l' = le32 a b c k'" using Cons.prems(4) by (auto simp: in24_def)
    then have "k < k'" using later l' by (metis le32_less_iff)
    then have "k + 1 \<le> k'" using word_succ_less by blast
    then show "le32 a b c f1 \<le> lp_ip l'" using that k' by (simp add: f_step le32_le_iff)
  qed
  have fl': "\<forall>l' \<in> set ls. le32 a b c f1 < lp_ip l'" if "sc_flag st \<or> f < k"
  proof
    fix l' assume l': "l' \<in> set ls"
    have "f < k" "f1 = f" using that fk by (auto simp: f_step)
    then have "le32 a b c f1 < le32 a b c k" by (simp add: le32_less_iff)
    then show "le32 a b c f1 < lp_ip l'" using later l' by (meson order.strict_trans)
  qed
  have tail: "sorted (map lp_ip ls)" "distinct (map lp_ip ls)" "\<forall>l \<in> set ls. in24 a b c s e (lp_ip l)"
    using Cons.prems(2-4) by auto
  have flag: "\<not> sc_flag (scan_step (lp_ip l) st) \<longrightarrow> (\<forall>l' \<in> set ls. le32 a b c f1 \<le> lp_ip l')"
    "sc_flag (scan_step (lp_ip l) st) \<longrightarrow> (\<forall>l' \<in> set ls. le32 a b c f1 < lp_ip l')"
    using fl fl' step(4) by blast+
  obtain p' f' where r: "sc_plus st' = le32 a b c p'" "sc_client st' = sc_plus st'" "p1 \<le> p'" "p' \<le> e + 1"
    "sc_first st' = le32 a b c f'" "f1 \<le> f'" "f' \<le> e + 1"
    "le32 a b c p' \<notin> lp_ip ` set ls" "le32 a b c f' \<notin> lp_ip ` set ls"
    "(\<forall>l \<in> set ls. le32 a b c p1 < lp_ip l) \<longrightarrow> p' = p1" "sc_flag (scan_step (lp_ip l) st) \<longrightarrow> f' = f1"
    using Cons.IH [OF no tail step(1) p1(2) step(2) step(3) f1(3,2) flag] by (elim exE conjE) (rule that)
  have "p' \<noteq> k"
  proof (cases "k \<le> p")
    case True
    then have "k < p1" using k1 by (auto simp: p1_def)
    with r(3) show ?thesis by auto
  next
    case False
    then have p: "p1 = p" "p < k" by (auto simp: p1_def)
    then have "le32 a b c p < le32 a b c k" by (simp add: le32_less_iff)
    then have "\<forall>l \<in> set ls. le32 a b c p1 < lp_ip l"
      using later p(1) by (meson order.strict_trans)
    with r(10) p show ?thesis by auto
  qed
  moreover have "f' \<noteq> k"
  proof (cases "sc_flag st \<or> f < k")
    case False
    then have "k < f1" using k1 by (simp add: f_step)
    with r(6) show ?thesis by auto
  next
    case True
    then have "f < k" using fk by auto
    with True r(11) step(4) show ?thesis by (auto simp: f_step)
  qed
  ultimately have "le32 a b c p' \<notin> lp_ip ` set (l # ls)" "le32 a b c f' \<notin> lp_ip ` set (l # ls)"
    using r(8,9) k(3) by (auto simp: le32_eq_iff)
  moreover have "p \<le> p'" "f \<le> f'" using p1(1) r(3) f1(1) r(6) by auto
  moreover have "p' = p" if "\<forall>l \<in> set (l # ls). le32 a b c p < lp_ip l"
  proof -
    have "p < k" using that k(3) by (simp add: le32_less_iff)
    then have "p1 = p" by (auto simp: p1_def)
    with r(10) that show ?thesis by simp
  qed
  moreover have "sc_flag st \<longrightarrow> f' = f" using r(11) step(4) by (simp add: f_step)
  ultimately show ?case using r(1,2,4,5,7) by blast
qed

lemma scan_plus_bound:
  assumes "lease_scan mac ls i st = (r, st')" "\<forall>l \<in> set ls. in24 a b c s e (lp_ip l)" "e < 255"
    "sc_plus st = le32 a b c p" "s \<le> p" "p \<le> e + 1"
  shows "\<exists>p'. sc_plus st' = le32 a b c p' \<and> s \<le> p' \<and> p' \<le> e + 1"
  using assms(1,2,4-6)
proof (induction ls arbitrary: i st p)
  case Nil
  then show ?case by auto
next
  case (Cons l ls)
  obtain k where k: "k \<le> e" "lp_ip l = le32 a b c k"
    using Cons.prems(2) by (auto simp: in24_def)
  have k255: "k < 255" using k(1) assms(3) by (rule le_less_trans)
  have "k < k + 1" "k + 1 \<le> e + 1"
    using k(1) word_succ_less [OF k255] unat_succ [OF k255] unat_succ [OF assms(3)] by (auto simp: word_le_nat_alt)
  then have "\<exists>p1. sc_plus (scan_step (lp_ip l) st) = le32 a b c p1 \<and> s \<le> p1 \<and> p1 \<le> e + 1"
    using Cons.prems(3-5) k(2) k255
    by (cases "k = p") (auto simp: scan_step_def Let_def le32_eq_iff next_ip_le32 intro!: exI [of _ "k + 1"])
  then obtain p1 where p1: "sc_plus (scan_step (lp_ip l) st) = le32 a b c p1" "s \<le> p1" "p1 \<le> e + 1" by blast
  show ?case
  proof (cases "lp_mac l = mac")
    case True
    with Cons.prems show ?thesis by auto
  next
    case False
    then have "lease_scan mac ls (Suc i) (scan_step (lp_ip l) st) = (r, st')" using Cons.prems(1) by simp
    from Cons.IH [OF this _ p1] Cons.prems(2) show ?thesis by simp
  qed
qed

section \<open>No address is given out twice\<close>

definition pool24 :: "u8 \<Rightarrow> u8 \<Rightarrow> u8 \<Rightarrow> u8 \<Rightarrow> u8 \<Rightarrow> dhcps \<Rightarrow> bool" where
  "pool24 a b c s e d \<longleftrightarrow> poll_start d = le32 a b c s \<and> poll_end d = le32 a b c e \<and> s \<le> e \<and> e < 255 \<and>
     (\<exists>p. client_address_plus d = le32 a b c p \<and> s \<le> p \<and> p \<le> e + 1) \<and>
     (\<forall>l \<in> set (plist d). in24 a b c s e (lp_ip l)) \<and> distinct (map lp_ip (plist d))"

definition no_reservations :: "dhcp_reservation list \<Rightarrow> bool" where
  "no_reservations tab \<longleftrightarrow> (\<forall>r \<in> set tab. \<not> dr_used r)"

lemma no_reservations_simps:
  assumes "no_reservations tab"
  shows "\<not> is_ip_reserved_for_other ip mac tab" "lookup_dhcp_reservation mac tab = 0"
    "skip_reserved tab mac e ip = Some ip"
proof -
  show r: "\<not> is_ip_reserved_for_other ip mac tab" for ip
    using assms by (auto simp: is_ip_reserved_for_other_def find_first_None no_reservations_def)
  have "find_first (\<lambda>e. dr_used e \<and> dr_mac e = mac) tab = None"
    using assms by (auto simp: find_first_None no_reservations_def)
  then show "lookup_dhcp_reservation mac tab = 0" by (simp add: lookup_dhcp_reservation_def)
  show "skip_reserved tab mac e ip = Some ip" using r by (subst skip_unfold) simp
qed

lemma pool24_cong:
  "poll_start d' = poll_start d \<Longrightarrow> poll_end d' = poll_end d \<Longrightarrow> client_address_plus d' = client_address_plus d \<Longrightarrow>
   set (map lp_ip (plist d')) \<subseteq> set (map lp_ip (plist d)) \<Longrightarrow> distinct (map lp_ip (plist d')) \<Longrightarrow>
   pool24 a b c s e d \<Longrightarrow> pool24 a b c s e d'"
  by (auto simp: pool24_def image_subset_iff image_iff)

lemma scan_pool24:
  assumes "dhcps_inv d" "pool24 a b c s e d" "dhcps_scan mac ci t d = (pos, first, d1)"
  shows "pool24 a b c s e d1 \<and> (pos = None \<longrightarrow>
     (\<exists>k. client_address d1 = le32 a b c k \<and> s \<le> k \<and> k \<le> e + 1 \<and> le32 a b c k \<notin> lp_ip ` set (plist d1)) \<and>
     (\<exists>f. first = le32 a b c f \<and> s \<le> f \<and> f \<le> e + 1 \<and> le32 a b c f \<notin> lp_ip ` set (plist d1)))"
proof (cases "plist d = []")
  case True
  obtain p where p: "client_address_plus d = le32 a b c p" "s \<le> p" "p \<le> e + 1"
    using assms(2) by (auto simp: pool24_def)
  have "e < 255" "s \<le> e" using assms(2) by (auto simp: pool24_def)
  then have "s \<le> e + 1" using word_succ_less [of e 255] by auto
  then have ex: "\<exists>f. le32 a b c s = le32 a b c f \<and> s \<le> f \<and> f \<le> e + 1" by blast
  have st: "poll_start d = le32 a b c s" using assms(2) by (simp add: pool24_def)
  have d1: "pos = None" "first = le32 a b c s" "plist d1 = []" "poll_start d1 = poll_start d" "poll_end d1 = poll_end d"
    "client_address_plus d1 = client_address_plus d"
    "client_address d1 = (if has_declined_ip d then le32 a b c p else le32 a b c s)"
    using assms(3) True p st by (auto simp: dhcps_scan_def Let_def split: if_splits)
  then have "pool24 a b c s e d1" using assms(2) by (simp add: pool24_def)
  then show ?thesis using d1 p ex by auto
next
  case False
  define st where "st = \<lparr>sc_plus = client_address_plus d, sc_client = client_address_plus d,
    sc_first = poll_start d, sc_flag = False\<rparr>"
  obtain r st' where sc: "lease_scan mac (plist d) 0 st = (r, st')" by (cases "lease_scan mac (plist d) 0 st")
  obtain p where p: "client_address_plus d = le32 a b c p" "s \<le> p" "p \<le> e + 1"
    using assms(2) by (auto simp: pool24_def)
  have pl: "poll_start d = le32 a b c s" "e < 255" "s \<le> e" "\<forall>l \<in> set (plist d). in24 a b c s e (lp_ip l)"
    "distinct (map lp_ip (plist d))" using assms(2) by (auto simp: pool24_def)
  have e1: "e < e + 1" using word_succ_less [OF pl(2)] by simp
  have plus: "sc_plus st = le32 a b c p" "sc_client st = sc_plus st" "sc_first st = le32 a b c s" "\<not> sc_flag st"
    using p pl(1) by (simp_all add: st_def)
  obtain p' where p': "sc_plus st' = le32 a b c p'" "s \<le> p'" "p' \<le> e + 1"
    using scan_plus_bound [OF sc pl(4,2) plus(1) p(2,3)] by blast
  have d1: "d1 = (case r of None \<Rightarrow> d\<lparr>renew := False, has_declined_ip := False, client_address_plus := sc_plus st', client_address := sc_client st'\<rparr>
      | Some i \<Rightarrow> d\<lparr>renew := (le32_bytes (lp_ip (plist d ! i)) = ci), has_declined_ip := False, client_address_plus := sc_plus st',
          client_address := lp_ip (plist d ! i), plist := (plist d)[i := (plist d ! i)\<lparr>lp_timer := t\<rparr>]\<rparr>)"
    "pos = r" "first = sc_first st'"
    using assms(3) False sc by (auto simp: dhcps_scan_def Let_def st_def split: option.splits)
  have ips: "map lp_ip (plist d1) = map lp_ip (plist d)" using dhcps_scan_phase [OF assms(1,3)] by blast
  have good: "pool24 a b c s e d1"
  proof -
    have in24: "\<forall>l \<in> set (plist d1). in24 a b c s e (lp_ip l)"
    proof
      fix l assume "l \<in> set (plist d1)"
      then have "lp_ip l \<in> set (map lp_ip (plist d1))" by simp
      then have "lp_ip l \<in> set (map lp_ip (plist d))" by (simp only: ips)
      then show "in24 a b c s e (lp_ip l)" using pl(4) by auto
    qed
    have "client_address_plus d1 = sc_plus st'" "poll_start d1 = poll_start d" "poll_end d1 = poll_end d"
      using d1(1) by (auto split: option.splits)
    then show ?thesis using assms(2) p' in24 ips pl by (auto simp: pool24_def)
  qed
  show ?thesis
  proof (cases r)
    case (Some i)
    then show ?thesis using good d1(2) by simp
  next
    case None
    have "s \<le> e + 1" using e1 pl(3) by auto
    moreover have "\<not> sc_flag st \<longrightarrow> (\<forall>l \<in> set (plist d). le32 a b c s \<le> lp_ip l)"
      using pl(4) by (auto simp: in24_def le32_le_iff)
    moreover have "sc_flag st \<longrightarrow> (\<forall>l \<in> set (plist d). le32 a b c s < lp_ip l)" using plus(4) by simp
    ultimately obtain k f where kf: "sc_plus st' = le32 a b c k" "sc_client st' = sc_plus st'" "p \<le> k" "k \<le> e + 1"
      "sc_first st' = le32 a b c f" "s \<le> f" "f \<le> e + 1"
      "le32 a b c k \<notin> lp_ip ` set (plist d)" "le32 a b c f \<notin> lp_ip ` set (plist d)"
      using scan_free [OF sc [unfolded None] dhcps_invD(1) [OF assms(1)] pl(5,4,2) plus(1) p(3) plus(2) plus(3) order_refl]
      by blast
    have "plist d1 = plist d" "client_address d1 = sc_client st'" using d1(1) None by simp_all
    then show ?thesis using good kf d1(3) p(2) by (auto intro: order_trans)
  qed
qed

lemma assign_pool24:
  assumes "pool24 a b c s e d" "no_reservations tab"
    "client_address d = le32 a b c k" "s \<le> k" "k \<le> e + 1" "le32 a b c k \<notin> lp_ip ` set (plist d)"
    "first = le32 a b c f" "s \<le> f" "f \<le> e + 1" "le32 a b c f \<notin> lp_ip ` set (plist d)"
    "dhcps_assign env tab mac t first d = Some (pos, d')"
  shows "pool24 a b c s e d'"
proof -
  have pl: "poll_start d = le32 a b c s" "poll_end d = le32 a b c e" "e < 255" "s \<le> e"
    "\<forall>l \<in> set (plist d). in24 a b c s e (lp_ip l)" "distinct (map lp_ip (plist d))"
    using assms(1) by (auto simp: pool24_def)
  have e1: "e < e + 1" using word_succ_less [OF pl(3)] by simp
  define j where "j = (if client_address_plus d > poll_end d then f else k)"
  have j: "s \<le> j" "le32 a b c j \<notin> lp_ip ` set (plist d)" using assms by (auto simp: j_def)
  have addr: "(if client_address_plus d > poll_end d then first else client_address d) = le32 a b c j"
    using assms(3,7) by (simp add: j_def)
  let ?x = "\<lparr>lp_ip = le32 a b c j, lp_mac = mac, lp_timer = t, lp_hostname = []\<rparr>"
  show ?thesis
  proof (cases "j \<le> e")
    case False
    then have "\<not> le32 a b c j \<le> poll_end d" using pl(2) by (simp add: le32_le_iff)
    then have "d' = d\<lparr>client_address := le32 a b c j, client_address_plus := poll_start d\<rparr>"
      using assms(11) addr no_reservations_simps [OF assms(2)]
      by (auto simp: dhcps_assign_def Let_def not_le split: if_splits)
    then show ?thesis using assms(1) pl e1 by (auto simp: pool24_def)
  next
    case True
    then have "le32 a b c j \<le> poll_end d" using pl(2) by (simp add: le32_le_iff)
    then have d': "d' = d\<lparr>client_address := le32 a b c j, plist := node_insert_to_list ?x (plist d),
        client_address_plus := (if le32 a b c j = poll_end d then poll_start d else next_ip (le32 a b c j))\<rparr>"
      using assms(11) addr no_reservations_simps [OF assms(2)]
      by (auto simp: dhcps_assign_def Let_def leD split: if_splits)
    have "\<exists>p. client_address_plus d' = le32 a b c p \<and> s \<le> p \<and> p \<le> e + 1"
    proof (cases "j = e")
      case True
      then show ?thesis using pl e1 by (auto simp: d' intro!: exI [of _ s])
    next
      case False
      then have "j < e" using True by simp
      then have "j < 255" "j < j + 1" "j + 1 \<le> e" using pl(3) word_succ_less by auto
      then show ?thesis
        using False j(1) e1 pl(2) by (auto simp: d' next_ip_le32 le32_eq_iff intro!: exI [of _ "j + 1"])
    qed
    moreover have "\<forall>l \<in> set (plist d'). in24 a b c s e (lp_ip l)"
      using pl(5) j(1) True by (auto simp: d' set_node_insert intro: in24I)
    moreover have "distinct (map lp_ip (plist d'))"
      using pl(6) j(2) by (simp add: d' distinct_node_insert)
    ultimately show ?thesis using pl by (auto simp: pool24_def d')
  qed
qed

end
