(* ===== verification/Portmap.thy ===== *)
theory Portmap
  imports Dhcp_Reservations
begin

text \<open>
  The port forwarding table (\<open>main/portmap.c\<close>).  The NAT engine belongs to lwIP: its
  two entry points are recorded, in order, as the calls an operation makes.
\<close>

record portmap_entry =
  pm_daddr :: u32
  pm_mport :: u16
  pm_dport :: u16
  pm_proto :: u8
  pm_valid :: u8
  pm_iface :: u8

definition pm_zero :: portmap_entry where
  "pm_zero = \<lparr>pm_daddr = 0, pm_mport = 0, pm_dport = 0, pm_proto = 0, pm_valid = 0, pm_iface = 0\<rparr>"

definition pm_used :: "portmap_entry \<Rightarrow> bool" where
  "pm_used e \<longleftrightarrow> pm_valid e \<noteq> 0"

definition pm_key :: "portmap_entry \<Rightarrow> u8 \<times> u16" where
  "pm_key e = (pm_proto e, pm_mport e)"

definition pm_clear :: "portmap_entry \<Rightarrow> portmap_entry" where
  "pm_clear e = e\<lparr>pm_valid := 0\<rparr>"

text \<open>\<open>ip_portmap_add(proto, maddr, mport, daddr, dport)\<close> and \<open>ip_portmap_remove(proto, mport)\<close>.\<close>

datatype napt_call = NaptAdd u8 u32 u16 u32 u16 | NaptRemove u8 u16

text \<open>The addresses of the uplink: \<open>pppoe_enabled\<close>, \<open>pppoe_ip\<close>, \<open>my_ip\<close>.\<close>

record uplink =
  pppoe_enabled :: bool
  pppoe_ip :: u32
  my_ip :: u32

definition bind_ip :: "uplink \<Rightarrow> u32" where
  "bind_ip u = (if pppoe_enabled u then pppoe_ip u else my_ip u)"

definition apply_portmap_tab :: "uplink \<Rightarrow> portmap_entry list \<Rightarrow> esp_err \<times> napt_call list" where
  "apply_portmap_tab u tab =
     (if bind_ip u = 0 then (ESP_OK, [])
      else (ESP_OK, map (\<lambda>e. NaptAdd (pm_proto e) (bind_ip u) (pm_mport e) (pm_daddr e) (pm_dport e))
             (filter pm_used tab)))"

definition delete_portmap_tab :: "portmap_entry list \<Rightarrow> esp_err \<times> napt_call list" where
  "delete_portmap_tab tab = (ESP_OK, map (\<lambda>e. NaptRemove (pm_proto e) (pm_mport e)) (filter pm_used tab))"

text \<open>\<open>sizeof(struct portmap_table_entry)\<close>.\<close>

definition PORTMAP_ENTRY_SIZE :: nat where "PORTMAP_ENTRY_SIZE = 12"

definition get_portmap_tab ::
  "('n, portmap_entry list) nvs_len_api \<Rightarrow> portmap_entry list \<Rightarrow> 'n \<Rightarrow> esp_err \<times> portmap_entry list" where
  "get_portmap_tab api tab n = get_table_blob api ''portmap_tab'' PORTMAP_ENTRY_SIZE pm_zero tab n"

definition save_portmap :: "('n, portmap_entry list, 'z) nvs_api_scheme \<Rightarrow> portmap_entry list \<Rightarrow> 'n \<Rightarrow> esp_err \<times> 'n" where
  "save_portmap api tab n = set_config_param_blob api ''portmap_tab'' tab n"

definition add_portmap :: "('n, portmap_entry list, 'z) nvs_api_scheme \<Rightarrow> uplink \<Rightarrow> u8 \<Rightarrow> u16 \<Rightarrow> u32 \<Rightarrow> u16
    \<Rightarrow> portmap_entry list \<Rightarrow> 'n \<Rightarrow> esp_err \<times> napt_call list \<times> portmap_entry list \<times> 'n" where
  "add_portmap api u proto mport daddr dport tab n =
     (case find_first (\<lambda>e. \<not> pm_used e) tab of
        None \<Rightarrow> (ESP_ERR_NO_MEM, [], tab, n)
      | Some i \<Rightarrow>
          let tab = tab[i := \<lparr>pm_daddr = daddr, pm_mport = mport, pm_dport = dport, pm_proto = proto,
                pm_valid = 1, pm_iface = 0\<rparr>];
              (err, n) = save_portmap api tab n
          in (err, if bind_ip u \<noteq> 0 then [NaptAdd proto (bind_ip u) mport daddr dport] else [], tab, n))"

definition del_portmap :: "('n, portmap_entry list, 'z) nvs_api_scheme \<Rightarrow> u8 \<Rightarrow> u16
    \<Rightarrow> portmap_entry list \<Rightarrow> 'n \<Rightarrow> esp_err \<times> napt_call list \<times> portmap_entry list \<times> 'n" where
  "del_portmap api proto mport tab n =
     (case find_first (\<lambda>e. pm_used e \<and> pm_mport e = mport \<and> pm_proto e = proto) tab of
        None \<Rightarrow> (ESP_OK, [], tab, n)
      | Some i \<Rightarrow>
          let tab = tab[i := pm_clear (tab ! i)]; (err, n) = save_portmap api tab n
          in (err, [NaptRemove proto mport], tab, n))"

definition clear_all_portmaps :: "('n, portmap_entry list, 'z) nvs_api_scheme
    \<Rightarrow> portmap_entry list \<Rightarrow> 'n \<Rightarrow> esp_err \<times> napt_call list \<times> portmap_entry list \<times> 'n" where
  "clear_all_portmaps api tab n =
     (let calls = map (\<lambda>e. NaptRemove (pm_proto e) (pm_mport e)) (filter pm_used tab);
          tab = map (\<lambda>e. if pm_used e then pm_clear e else e) tab;
          (err, n) = save_portmap api tab n
      in (err, calls, tab, n))"

text \<open>The lines of \<open>print_portmap_tab\<close>: TCP or UDP, uplink side, then device name or address.\<close>

datatype pm_target = TargetName string | TargetAddr u32

definition print_portmap_tab :: "uplink \<Rightarrow> dhcp_reservation list \<Rightarrow> portmap_entry list
    \<Rightarrow> (string \<times> u32 \<times> u16 \<times> pm_target \<times> u16) list" where
  "print_portmap_tab u res tab =
     map (\<lambda>e. (if pm_proto e = PROTO_TCP then ''TCP'' else ''UDP'', bind_ip u, pm_mport e,
            case lookup_device_name_by_ip (pm_daddr e) res of
              Some nm \<Rightarrow> TargetName nm | None \<Rightarrow> TargetAddr (pm_daddr e),
            pm_dport e))
       (filter pm_used tab)"

end
