(* ===== verification/Reservation_Theorems.thy ===== *)
theory Reservation_Theorems
  imports Portmap
begin

text \<open>
  The reservation table is a partial map from MAC addresses of bounded size; the port
  forwarding table and the calls it makes to the NAT engine agree.
\<close>

section \<open>Reservations as a map\<close>

interpretation res: keyed_slots dr_used dr_mac dr_clear
  by unfold_locales (simp add: dr_used_def dr_clear_def)

definition res_map :: "dhcp_reservation list \<Rightarrow> mac \<rightharpoonup> u32 \<times> string" where
  "res_map tab = (\<lambda>m. map_option (\<lambda>e. (dr_ip e, dr_name e)) (tab_lookup dr_used dr_mac tab m))"

definition res_ok :: "dhcp_reservation list \<Rightarrow> bool" where
  "res_ok tab \<longleftrightarrow> length tab = MAX_DHCP_RESERVATIONS \<and> tab_distinct dr_used dr_mac tab \<and>
     (\<forall>e \<in> set tab. length (dr_name e) < DHCP_RESERVATION_NAME_LEN)"

lemma dom_res_map: "dom (res_map tab) = dom (tab_lookup dr_used dr_mac tab)"
  by (auto simp: res_map_def)

lemma stored_name_len: "length (stored_name name) < DHCP_RESERVATION_NAME_LEN"
  by (auto simp: stored_name_def strncpy_trunc_def DHCP_RESERVATION_NAME_LEN_def split: option.splits)

datatype res_op = ResAdd mac u32 "string option" | ResDel mac | ResClear

fun spec_res_step :: "(mac \<rightharpoonup> u32 \<times> string) \<Rightarrow> res_op \<Rightarrow> bool \<times> (mac \<rightharpoonup> u32 \<times> string)" where
  "spec_res_step f (ResAdd mac ip name) =
     (if mac \<in> dom f \<or> card (dom f) < MAX_DHCP_RESERVATIONS
      then (True, f(mac \<mapsto> (ip, stored_name name))) else (False, f))"
| "spec_res_step f (ResDel mac) = (True, f(mac := None))"
| "spec_res_step f ResClear = (True, Map.empty)"

fun res_step :: "('n, dhcp_reservation list, 'z) nvs_api_scheme \<Rightarrow> dhcp_reservation list \<Rightarrow> 'n \<Rightarrow> res_op
    \<Rightarrow> esp_err \<times> dhcp_reservation list \<times> 'n" where
  "res_step api tab n (ResAdd mac ip name) = add_dhcp_reservation api mac ip name tab n"
| "res_step api tab n (ResDel mac) = del_dhcp_reservation api mac tab n"
| "res_step api tab n ResClear = clear_all_dhcp_reservations api tab n"

fun spec_res_run :: "(mac \<rightharpoonup> u32 \<times> string) \<Rightarrow> res_op list \<Rightarrow> bool list \<times> (mac \<rightharpoonup> u32 \<times> string)" where
  "spec_res_run f [] = ([], f)"
| "spec_res_run f (x # xs) =
     (let (b, g) = spec_res_step f x; (bs, h) = spec_res_run g xs in (b # bs, h))"

fun res_run :: "('n, dhcp_reservation list, 'z) nvs_api_scheme \<Rightarrow> dhcp_reservation list \<Rightarrow> 'n \<Rightarrow> res_op list
    \<Rightarrow> esp_err list \<times> dhcp_reservation list \<times> 'n" where
  "res_run api tab n [] = ([], tab, n)"
| "res_run api tab n (x # xs) =
     (let (e, tab, n) = res_step api tab n x; (es, tab, n) = res_run api tab n xs in (e # es, tab, n))"

definition res_answer :: "bool \<Rightarrow> esp_err" where
  "res_answer b = (if b then ESP_OK else ESP_ERR_NO_MEM)"

lemma save_reservations_ok:
  "nvs_works api \<Longrightarrow> \<exists>n'. save_reservations api tab n = (ESP_OK, tab, n')"
  using set_config_ok [of api "''dhcp_res''" tab n]
  by (cases "set_config_param_blob api ''dhcp_res'' tab n") (simp add: save_reservations_def)

lemma names_update:
  assumes "\<forall>e \<in> set tab. length (dr_name e) < DHCP_RESERVATION_NAME_LEN"
    "length (dr_name x) < DHCP_RESERVATION_NAME_LEN"
  shows "\<forall>e \<in> set (tab[i := x]). length (dr_name e) < DHCP_RESERVATION_NAME_LEN"
  using assms set_update_subset_insert [of tab i x] by blast

lemma add_simulates:
  assumes "nvs_works api" "res_ok tab"
  shows "\<exists>t n'. add_dhcp_reservation api mac ip name tab n =
      (res_answer (fst (spec_res_step (res_map tab) (ResAdd mac ip name))), t, n') \<and> res_ok t \<and>
    res_map t = snd (spec_res_step (res_map tab) (ResAdd mac ip name))"
proof (cases "find_first (\<lambda>e. dr_used e \<and> dr_mac e = mac) tab")
  case (Some i)
  note i = find_first_SomeD [OF Some]
  let ?e = "(tab ! i)\<lparr>dr_ip := ip, dr_name := stored_name name\<rparr>"
  have e: "dr_used ?e" "dr_mac ?e = mac" using i(2) by (simp_all add: dr_used_def)
  have "res_ok (tab[i := ?e])"
    using assms(2) res.distinct_replace [of tab i ?e] i e names_update [of tab ?e i] stored_name_len [of name]
    by (simp add: res_ok_def)
  moreover have "tab_lookup dr_used dr_mac (tab[i := ?e]) = (tab_lookup dr_used dr_mac tab)(mac \<mapsto> ?e)"
    by (rule res.lookup_replace [OF Some e])
  then have "res_map (tab[i := ?e]) = (res_map tab)(mac \<mapsto> (ip, stored_name name))"
    by (auto simp: res_map_def fun_eq_iff)
  moreover have "mac \<in> dom (res_map tab)"
    using Some by (simp add: dom_res_map tab_lookup_def domIff)
  ultimately show ?thesis
    using Some save_reservations_ok [OF assms(1), of "tab[i := ?e]" n]
    by (auto simp: add_dhcp_reservation_def res_answer_def)
next
  case None
  then have nl: "tab_lookup dr_used dr_mac tab mac = None" by (simp add: tab_lookup_def)
  then have nd: "mac \<notin> dom (res_map tab)" by (simp add: dom_res_map domIff)
  have card: "card (dom (res_map tab)) = length (filter dr_used tab)"
    using assms(2) by (simp add: dom_res_map res.card_dom_lookup res_ok_def)
  show ?thesis
  proof (cases "find_first (\<lambda>e. \<not> dr_used e) tab")
    case None': None
    then have "card (dom (res_map tab)) = MAX_DHCP_RESERVATIONS"
      using res.full_iff [of tab] card assms(2) by (simp add: res_ok_def)
    with None None' nd assms(2) show ?thesis
      by (simp add: add_dhcp_reservation_def res_answer_def)
  next
    case (Some i)
    note i = find_first_SomeD [OF Some]
    let ?e = "\<lparr>dr_mac = mac, dr_ip = ip, dr_name = stored_name name, dr_valid = 1\<rparr>"
    have e: "dr_used ?e" "dr_mac ?e = mac" by (simp_all add: dr_used_def)
    have "length (filter dr_used tab) \<noteq> length tab" using Some res.full_iff [of tab] by simp
    then have room: "card (dom (res_map tab)) < MAX_DHCP_RESERVATIONS"
      using card assms(2) length_filter_le [of dr_used tab] by (simp add: res_ok_def)
    have "res_ok (tab[i := ?e])"
      using assms(2) res.distinct_insert [of tab ?e i] i e nl names_update [of tab ?e i] stored_name_len [of name]
      by (simp add: res_ok_def)
    moreover have "tab_lookup dr_used dr_mac (tab[i := ?e]) = (tab_lookup dr_used dr_mac tab)(mac \<mapsto> ?e)"
      by (rule res.lookup_insert [OF nl i(1,2) e])
    then have "res_map (tab[i := ?e]) = (res_map tab)(mac \<mapsto> (ip, stored_name name))"
      by (auto simp: res_map_def fun_eq_iff)
    ultimately show ?thesis
      using None Some room save_reservations_ok [OF assms(1), of "tab[i := ?e]" n]
      by (auto simp: add_dhcp_reservation_def res_answer_def)
  qed
qed

lemma del_simulates:
  assumes "nvs_works api" "res_ok tab"
  shows "\<exists>t n'. del_dhcp_reservation api mac tab n = (ESP_OK, t, n') \<and> res_ok t \<and>
    res_map t = (res_map tab)(mac := None)"
proof (cases "find_first (\<lambda>e. dr_used e \<and> dr_mac e = mac) tab")
  case None
  then have "res_map tab mac = None" by (simp add: res_map_def tab_lookup_def)
  with None assms(2) show ?thesis by (simp add: del_dhcp_reservation_def fun_upd_idem)
next
  case (Some i)
  note i = find_first_SomeD [OF Some]
  let ?t = "tab[i := dr_clear (tab ! i)]"
  have d: "tab_distinct dr_used dr_mac tab" using assms(2) by (simp add: res_ok_def)
  have "length (dr_name (dr_clear (tab ! i))) < DHCP_RESERVATION_NAME_LEN"
    using assms(2) i(1) by (simp add: res_ok_def dr_clear_def)
  then have "res_ok ?t"
    using assms(2) res.distinct_delete [OF d, of i] names_update [of tab "dr_clear (tab ! i)" i]
    by (simp add: res_ok_def)
  moreover have "res_map ?t = (res_map tab)(mac := None)"
    using res.lookup_delete [OF d Some] by (auto simp: res_map_def fun_eq_iff)
  ultimately show ?thesis
    using Some save_reservations_ok [OF assms(1), of ?t n] by (auto simp: del_dhcp_reservation_def)
qed

lemma clear_simulates:
  assumes "nvs_works api" "res_ok tab"
  shows "\<exists>t n'. clear_all_dhcp_reservations api tab n = (ESP_OK, t, n') \<and> res_ok t \<and> res_map t = Map.empty"
proof -
  have free: "\<forall>e \<in> set (map dr_clear tab). \<not> dr_used e" using res.clear_invalid by auto
  have "res_ok (map dr_clear tab)"
    using assms(2) res.lookup_all_clear(2) [OF free] by (auto simp: res_ok_def dr_clear_def)
  moreover have "res_map (map dr_clear tab) = Map.empty"
    using res.lookup_all_clear(1) [OF free] by (simp add: res_map_def)
  ultimately show ?thesis
    using save_reservations_ok [OF assms(1), of "map dr_clear tab" n]
    by (auto simp: clear_all_dhcp_reservations_def)
qed

lemma step_simulates_res:
  assumes "nvs_works api" "res_ok tab"
  shows "\<exists>t n'. res_step api tab n x = (res_answer (fst (spec_res_step (res_map tab) x)), t, n') \<and> res_ok t \<and>
    res_map t = snd (spec_res_step (res_map tab) x)"
  using add_simulates [OF assms] del_simulates [OF assms] clear_simulates [OF assms]
  by (cases x) (auto simp: res_answer_def)

text \<open>C15: adding, updating, deleting and clearing reservations on the slot table is the same as on
  a partial map from MAC addresses with at most ten entries: an address already known is updated
  in place even when the table is full, a new one is refused with \<open>ESP_ERR_NO_MEM\<close> exactly then.\<close>

theorem reservations_refine_map:
  assumes "nvs_works api" "res_ok tab"
  shows "\<exists>t n'. res_run api tab n xs = (map res_answer (fst (spec_res_run (res_map tab) xs)), t, n') \<and>
    res_ok t \<and> res_map t = snd (spec_res_run (res_map tab) xs)"
  using assms(2)
proof (induction xs arbitrary: tab n)
  case Nil
  then show ?case by simp
next
  case (Cons x xs)
  obtain b g where bg: "spec_res_step (res_map tab) x = (b, g)" by (cases "spec_res_step (res_map tab) x")
  from step_simulates_res [OF assms(1) Cons.prems, of n x] bg obtain t n' where
    t: "res_step api tab n x = (res_answer b, t, n')" "res_ok t" "res_map t = g" by auto
  from Cons.IH [OF t(2), of n'] t(3) obtain u n'' where
    "res_run api t n' xs = (map res_answer (fst (spec_res_run g xs)), u, n'')" "res_ok u"
    "res_map u = snd (spec_res_run g xs)" by auto
  with t(1) bg show ?case by (simp add: case_prod_unfold Let_def)
qed

definition res_empty :: "dhcp_reservation list" where
  "res_empty = replicate MAX_DHCP_RESERVATIONS dr_zero"

lemma res_empty_ok: "res_ok res_empty" "res_map res_empty = Map.empty"
proof -
  have free: "\<forall>e \<in> set res_empty. \<not> dr_used e" by (simp add: res_empty_def dr_used_def dr_zero_def)
  then show "res_ok res_empty"
    using res.lookup_all_clear(2) [OF free]
    by (simp add: res_ok_def res_empty_def dr_zero_def DHCP_RESERVATION_NAME_LEN_def)
  show "res_map res_empty = Map.empty" using res.lookup_all_clear(1) [OF free] by (simp add: res_map_def)
qed

theorem reservations_refine_map_witness:
  "\<exists>t n'. res_run nvs_map res_empty Map.empty
      [ResAdd [1,2,3,4,5,6] 9 None, ResAdd [1,2,3,4,5,6] 7 (Some ''tv''), ResDel [0,0,0,0,0,1]] =
      ([ESP_OK, ESP_OK, ESP_OK], t, n') \<and> res_map t [1,2,3,4,5,6] = Some (7, ''tv'')"
  using reservations_refine_map [OF nvs_map_works res_empty_ok(1), of Map.empty
      "[ResAdd [1,2,3,4,5,6] 9 None, ResAdd [1,2,3,4,5,6] 7 (Some ''tv''), ResDel [0,0,0,0,0,1]]"]
  by (auto simp: res_empty_ok res_answer_def stored_name_def strncpy_trunc_def DHCP_RESERVATION_NAME_LEN_def
      MAX_DHCP_RESERVATIONS_def AP_MAX_CONNECTIONS_def)

text \<open>The questions the DHCP server asks are questions about that map: the address reserved for
  a MAC (0 if none), whether an address belongs to somebody else, whether a client is blocked.\<close>

theorem reservation_queries:
  assumes "res_ok tab"
  shows "lookup_dhcp_reservation mac tab = (case res_map tab mac of None \<Rightarrow> 0 | Some (ip, _) \<Rightarrow> ip) \<and>
    (is_ip_reserved_for_other ip mac tab \<longleftrightarrow> ip \<noteq> 0 \<and> (\<exists>m nm. m \<noteq> mac \<and> res_map tab m = Some (ip, nm))) \<and>
    (is_mac_blocked known mac tab \<longleftrightarrow> (case res_map tab mac of None \<Rightarrow> known \<noteq> 0 | Some (ip, _) \<Rightarrow> ip = 0))"
proof (intro conjI)
  have d: "tab_distinct dr_used dr_mac tab" using assms by (simp add: res_ok_def)
  show "lookup_dhcp_reservation mac tab = (case res_map tab mac of None \<Rightarrow> 0 | Some (ip, _) \<Rightarrow> ip)"
    by (auto simp: lookup_dhcp_reservation_def res_map_def tab_lookup_def split: option.splits)
  show "is_mac_blocked known mac tab \<longleftrightarrow>
      (case res_map tab mac of None \<Rightarrow> known \<noteq> 0 | Some (ip, _) \<Rightarrow> ip = 0)"
    by (auto simp: is_mac_blocked_def res_map_def tab_lookup_def split: option.splits)
  have "(\<exists>e \<in> set tab. dr_used e \<and> dr_ip e = ip \<and> dr_mac e \<noteq> mac) \<longleftrightarrow>
      (\<exists>m nm. m \<noteq> mac \<and> res_map tab m = Some (ip, nm))" (is "?l = ?r")
  proof
    assume ?l
    then obtain e where e: "e \<in> set tab" "dr_used e" "dr_ip e = ip" "dr_mac e \<noteq> mac" by blast
    from res.lookup_distinct [OF d e(1,2)] e show ?r by (auto simp: res_map_def)
  next
    assume ?r
    then obtain m e where "m \<noteq> mac" "tab_lookup dr_used dr_mac tab m = Some e" "dr_ip e = ip"
      by (auto simp: res_map_def)
    then show ?l using res.lookup_SomeD by fastforce
  qed
  then show "is_ip_reserved_for_other ip mac tab \<longleftrightarrow> ip \<noteq> 0 \<and> (\<exists>m nm. m \<noteq> mac \<and> res_map tab m = Some (ip, nm))"
    by (auto simp: is_ip_reserved_for_other_def find_first_None)
qed

theorem reservation_queries_witness:
  "lookup_dhcp_reservation [1,2,3,4,5,6] res_empty = 0 \<and> is_mac_blocked 1 [1,2,3,4,5,6] res_empty"
  using reservation_queries [OF res_empty_ok(1), of "[1,2,3,4,5,6]" 0 1] by (simp add: res_empty_ok)

text \<open>A reservation that was added is what a later boot reads back: the table in flash is the
  table in memory.\<close>

theorem reservations_persist:
  assumes "nvs_len_works DHCP_RES_ENTRY_SIZE api" "res_ok tab" "length boot_tab = MAX_DHCP_RESERVATIONS"
    and "add_dhcp_reservation api mac ip name tab n = (ESP_OK, t, n')"
  shows "get_dhcp_reservations api boot_tab n' = (ESP_OK, t) \<and> res_map t mac = Some (ip, stored_name name)"
proof -
  have w: "nvs_works api" using assms(1) by (simp add: nvs_len_works_def)
  obtain u m where u: "add_dhcp_reservation api mac ip name tab n =
      (res_answer (fst (spec_res_step (res_map tab) (ResAdd mac ip name))), u, m)" "res_ok u"
    "res_map u = snd (spec_res_step (res_map tab) (ResAdd mac ip name))"
    using add_simulates [OF w assms(2), of mac ip name n] by blast
  have "fst (spec_res_step (res_map tab) (ResAdd mac ip name))"
    using u(1) assms(4) by (auto simp: res_answer_def split: if_splits)
  then have map: "res_map t mac = Some (ip, stored_name name)"
    using u assms(4) by (auto split: if_splits)
  have len: "length t = length boot_tab" using u assms(3,4) by (simp add: res_ok_def)
  have "n' = snd (set_config_param_blob api ''dhcp_res'' t n)"
    using assms(4)
    by (auto simp: add_dhcp_reservation_def save_reservations_def case_prod_unfold Let_def split: option.splits)
  with set_get_table [OF assms(1) len] map show ?thesis by (simp add: get_dhcp_reservations_def)
qed

theorem reservations_persist_witness:
  "\<exists>t n'. add_dhcp_reservation (nvs_len_map DHCP_RES_ENTRY_SIZE) [1,2,3,4,5,6] 7 None res_empty Map.empty = (ESP_OK, t, n') \<and>
     get_dhcp_reservations (nvs_len_map DHCP_RES_ENTRY_SIZE) res_empty n' = (ESP_OK, t) \<and>
     res_map t [1,2,3,4,5,6] = Some (7, [])"
proof -
  note w = nvs_len_worksD [OF nvs_len_map_works [of DHCP_RES_ENTRY_SIZE]]
  obtain t n' where t: "add_dhcp_reservation (nvs_len_map DHCP_RES_ENTRY_SIZE) [1,2,3,4,5,6] 7 None res_empty Map.empty
      = (ESP_OK, t, n')"
    using add_simulates [OF w res_empty_ok(1), of "[1,2,3,4,5,6]" 7 None Map.empty]
    by (auto simp: res_empty_ok res_answer_def MAX_DHCP_RESERVATIONS_def AP_MAX_CONNECTIONS_def)
  have "length res_empty = MAX_DHCP_RESERVATIONS" by (simp add: res_empty_def)
  from reservations_persist [OF nvs_len_map_works res_empty_ok(1) this t] t
  show ?thesis by (auto simp: stored_name_def)
qed

section \<open>Port forwarding\<close>

interpretation pmt: keyed_slots pm_used pm_key pm_clear
  by unfold_locales (simp add: pm_used_def pm_clear_def)

text \<open>What the calls made so far say of a port: the last call about it decides.\<close>

fun napt_view :: "napt_call list \<Rightarrow> (u8 \<times> u16) \<rightharpoonup> (u32 \<times> u32 \<times> u16)" where
  "napt_view [] = Map.empty"
| "napt_view (NaptAdd proto maddr mport daddr dport # cs) = (napt_view cs)((proto, mport) \<mapsto> (maddr, daddr, dport))"
| "napt_view (NaptRemove proto mport # cs) = (napt_view cs)((proto, mport) := None)"

definition pm_view :: "uplink \<Rightarrow> portmap_entry list \<Rightarrow> (u8 \<times> u16) \<rightharpoonup> (u32 \<times> u32 \<times> u16)" where
  "pm_view u tab = (\<lambda>k. map_option (\<lambda>e. (bind_ip u, pm_daddr e, pm_dport e)) (tab_lookup pm_used pm_key tab k))"

text \<open>The log, latest call first, after one operation of the client.\<close>

datatype pm_op = PmAdd u8 u16 u32 u16 | PmDel u8 u16 | PmClear

fun pm_step :: "('n, portmap_entry list, 'z) nvs_api_scheme \<Rightarrow> uplink \<Rightarrow> pm_op
    \<Rightarrow> napt_call list \<times> portmap_entry list \<times> 'n \<Rightarrow> napt_call list \<times> portmap_entry list \<times> 'n" where
  "pm_step api u (PmAdd proto mport daddr dport) (log, tab, n) =
     (let (_, calls, tab, n) = add_portmap api u proto mport daddr dport tab n in (rev calls @ log, tab, n))"
| "pm_step api u (PmDel proto mport) (log, tab, n) =
     (let (_, calls, tab, n) = del_portmap api proto mport tab n in (rev calls @ log, tab, n))"
| "pm_step api u PmClear (log, tab, n) =
     (let (_, calls, tab, n) = clear_all_portmaps api tab n in (rev calls @ log, tab, n))"

fun pm_fresh :: "portmap_entry list \<Rightarrow> pm_op \<Rightarrow> bool" where
  "pm_fresh tab (PmAdd proto mport daddr dport) \<longleftrightarrow> tab_lookup pm_used pm_key tab (proto, mport) = None"
| "pm_fresh tab _ \<longleftrightarrow> True"

lemma pm_find:
  "find_first (\<lambda>e. pm_used e \<and> pm_mport e = mport \<and> pm_proto e = proto) tab =
   find_first (\<lambda>e. pm_used e \<and> pm_key e = (proto, mport)) tab"
  by (rule find_first_cong) (auto simp: pm_key_def)

lemma napt_view_removals:
  "napt_view (map (\<lambda>e. NaptRemove (pm_proto e) (pm_mport e)) es @ log) k =
   (if k \<in> pm_key ` set es then None else napt_view log k)"
  by (induction es) (auto simp: pm_key_def)

lemma pm_step_in_step:
  assumes "bind_ip u \<noteq> 0" "tab_distinct pm_used pm_key tab" "napt_view log = pm_view u tab" "pm_fresh tab x"
    and "pm_step api u x (log, tab, n) = (log', tab', n')"
  shows "napt_view log' = pm_view u tab' \<and> tab_distinct pm_used pm_key tab' \<and> length tab' = length tab"
proof (cases x)
  case (PmAdd proto mport daddr dport)
  have fresh: "tab_lookup pm_used pm_key tab (proto, mport) = None" using assms(4) PmAdd by simp
  show ?thesis
  proof (cases "find_first (\<lambda>e. \<not> pm_used e) tab")
    case None
    with assms PmAdd show ?thesis by (simp add: add_portmap_def)
  next
    case (Some i)
    note i = find_first_SomeD [OF Some]
    let ?e = "\<lparr>pm_daddr = daddr, pm_mport = mport, pm_dport = dport, pm_proto = proto, pm_valid = 1, pm_iface = 0\<rparr>"
    have e: "pm_used ?e" "pm_key ?e = (proto, mport)" by (simp_all add: pm_used_def pm_key_def)
    have r: "log' = NaptAdd proto (bind_ip u) mport daddr dport # log" "tab' = tab[i := ?e]"
      using assms(1,5) PmAdd Some by (auto simp: add_portmap_def case_prod_unfold Let_def)
    have "pm_view u tab' = (pm_view u tab)((proto, mport) \<mapsto> (bind_ip u, daddr, dport))"
      using pmt.lookup_insert [OF fresh i(1,2) e] r(2) by (auto simp: pm_view_def fun_eq_iff)
    moreover have "tab_distinct pm_used pm_key tab'"
      using pmt.distinct_insert [of tab ?e i] assms(2) fresh e i r(2) by simp
    ultimately show ?thesis using r assms(3) by simp
  qed
next
  case (PmDel proto mport)
  show ?thesis
  proof (cases "find_first (\<lambda>e. pm_used e \<and> pm_key e = (proto, mport)) tab")
    case None
    with assms PmDel show ?thesis by (simp add: del_portmap_def pm_find)
  next
    case (Some i)
    have r: "log' = NaptRemove proto mport # log" "tab' = tab[i := pm_clear (tab ! i)]"
      using assms(5) PmDel Some by (auto simp: del_portmap_def pm_find case_prod_unfold Let_def)
    have "pm_view u tab' = (pm_view u tab)((proto, mport) := None)"
      using pmt.lookup_delete [OF assms(2) Some] r(2) by (auto simp: pm_view_def fun_eq_iff)
    moreover have "tab_distinct pm_used pm_key tab'"
      using pmt.distinct_delete [OF assms(2), of i] r(2) by simp
    ultimately show ?thesis using r assms(3) by simp
  qed
next
  case PmClear
  have r: "log' = map (\<lambda>e. NaptRemove (pm_proto e) (pm_mport e)) (rev (filter pm_used tab)) @ log"
    "tab' = map (\<lambda>e. if pm_used e then pm_clear e else e) tab"
    using assms(5) PmClear by (auto simp: clear_all_portmaps_def case_prod_unfold Let_def rev_map)
  have free: "\<forall>e \<in> set tab'. \<not> pm_used e" using pmt.clear_invalid by (auto simp: r(2))
  have "napt_view log' k = None" for k
  proof (cases "k \<in> pm_key ` set (filter pm_used tab)")
    case False
    then have "tab_lookup pm_used pm_key tab k = None"
      using pmt.dom_lookup [of tab] by (auto simp: domIff)
    with False show ?thesis unfolding r(1) napt_view_removals by (simp add: assms(3) pm_view_def)
  next
    case True
    then show ?thesis unfolding r(1) napt_view_removals by simp
  qed
  then have "napt_view log' = Map.empty" by (intro ext) simp
  moreover have "pm_view u tab' = Map.empty" using pmt.lookup_all_clear(1) [OF free] by (simp add: pm_view_def)
  ultimately show ?thesis using pmt.lookup_all_clear(2) [OF free] r(2) by simp
qed

text \<open>With an uplink address, and as long as no port is forwarded twice, each operation keeps the
  NAT engine's last instructions for every port equal to the table's entry for it.\<close>

theorem portmap_in_step:
  assumes "bind_ip u \<noteq> 0" "tab_distinct pm_used pm_key tab" "napt_view log = pm_view u tab" "pm_fresh tab x"
    and "pm_step api u x (log, tab, n) = (log', tab', n')"
  shows "napt_view log' = pm_view u tab' \<and> tab_distinct pm_used pm_key tab' \<and> length tab' = length tab"
  using assms by (rule pm_step_in_step)

definition pm_empty :: "portmap_entry list" where
  "pm_empty = replicate 3 pm_zero"

definition lan_uplink :: uplink where
  "lan_uplink = \<lparr>pppoe_enabled = True, pppoe_ip = 0x0101A8C0, my_ip = 0\<rparr>"

lemma pm_empty_ok: "tab_distinct pm_used pm_key pm_empty" "pm_view u pm_empty = Map.empty"
proof -
  have free: "\<forall>e \<in> set pm_empty. \<not> pm_used e" by (simp add: pm_empty_def pm_used_def pm_zero_def)
  show "tab_distinct pm_used pm_key pm_empty" by (rule pmt.lookup_all_clear(2) [OF free])
  show "pm_view u pm_empty = Map.empty" using pmt.lookup_all_clear(1) [OF free] by (simp add: pm_view_def)
qed

theorem portmap_in_step_witness:
  "\<exists>log tab n. pm_step nvs_map lan_uplink (PmAdd 6 80 5 8080) ([], pm_empty, Map.empty) = (log, tab, n) \<and>
     napt_view log = pm_view lan_uplink tab \<and> log = [NaptAdd 6 0x0101A8C0 80 5 8080]"
proof -
  obtain log tab n where r: "pm_step nvs_map lan_uplink (PmAdd 6 80 5 8080) ([], pm_empty, Map.empty) = (log, tab, n)"
    by (cases "pm_step nvs_map lan_uplink (PmAdd 6 80 5 8080) ([], pm_empty, Map.empty)") auto
  have "bind_ip lan_uplink \<noteq> 0" by (simp add: bind_ip_def lan_uplink_def)
  moreover have "napt_view [] = pm_view lan_uplink pm_empty" by (simp add: pm_empty_ok)
  moreover have "pm_fresh pm_empty (PmAdd 6 80 5 8080)"
    using pm_empty_ok(2) [of lan_uplink] by (simp add: pm_view_def fun_eq_iff)
  ultimately have "napt_view log = pm_view lan_uplink tab"
    using portmap_in_step [OF _ pm_empty_ok(1) _ _ r] by blast
  moreover have "log = [NaptAdd 6 0x0101A8C0 80 5 8080]"
    using r by (auto simp: add_portmap_def pm_empty_def pm_used_def pm_zero_def numeral_3_eq_3
        bind_ip_def lan_uplink_def case_prod_unfold Let_def)
  ultimately show ?thesis using r by blast
qed

text \<open>
  \<open>add_portmap\<close> does not look for an existing entry: a port forwarded twice and then
  deleted once stays in the table, though the NAT engine was told to forget it; the next
  \<open>apply_portmap_tab\<close> (a new uplink address, a reboot) forwards it again.
\<close>

lemma portmap_duplicate_revives:
  "let (log, tab, n) = pm_step nvs_map lan_uplink (PmDel 6 80)
         (pm_step nvs_map lan_uplink (PmAdd 6 80 5 8080)
           (pm_step nvs_map lan_uplink (PmAdd 6 80 5 8080) ([], pm_empty, Map.empty)))
   in napt_view log (6, 80) = None \<and> snd (apply_portmap_tab lan_uplink tab) = [NaptAdd 6 0x0101A8C0 80 5 8080]"
  by (simp add: add_portmap_def del_portmap_def pm_empty_def pm_used_def pm_zero_def pm_clear_def numeral_3_eq_3
      bind_ip_def lan_uplink_def case_prod_unfold Let_def apply_portmap_tab_def)

end
