(* ===== verification/Dhcp_Theorems.thy ===== *)
theory Dhcp_Theorems
  imports Dhcp_Pool Reservation_Theorems
begin

text \<open>
  The DHCP server as a state machine: its reachable states, what a packet may change,
  how reservations are honoured, and which addresses can be given out.
\<close>

section \<open>Preservation by every operation\<close>

lemma lease_tick_eq:
  "lease_tick ls n =
     (filter (\<lambda>l. lp_timer l \<noteq> 0) (map (\<lambda>l. l\<lparr>lp_timer := lp_timer l - 1\<rparr>) ls),
      n + word_of_nat (length (filter (\<lambda>l. lp_timer l \<noteq> 0) (map (\<lambda>l. l\<lparr>lp_timer := lp_timer l - 1\<rparr>) ls))))"
  by (induction ls arbitrary: n) (simp_all add: Let_def)

text \<open>The tick removes leases and changes nothing but the timers of the others.\<close>

lemma tick_columns:
  fixes ls ls' :: "dhcps_pool list"
  assumes "ls' = filter (\<lambda>l. lp_timer l \<noteq> 0) (map (\<lambda>l. l\<lparr>lp_timer := lp_timer l - 1\<rparr>) ls)"
  shows "sorted (map lp_ip ls) \<Longrightarrow> sorted (map lp_ip ls')" "distinct (map lp_mac ls) \<Longrightarrow> distinct (map lp_mac ls')"
    "distinct (map lp_ip ls) \<Longrightarrow> distinct (map lp_ip ls')"
    "l' \<in> set ls' \<Longrightarrow> \<exists>l \<in> set ls. lp_ip l' = lp_ip l \<and> lp_mac l' = lp_mac l \<and> lp_hostname l' = lp_hostname l"
proof -
  have m: "map g ls' = map g (filter (\<lambda>l. lp_timer l - 1 \<noteq> 0) ls)"
    if "\<And>l. g (l\<lparr>lp_timer := lp_timer l - 1\<rparr>) = g l" for g :: "dhcps_pool \<Rightarrow> 'b"
    by (simp add: assms filter_map comp_def that)
  show "sorted (map lp_ip ls')" if "sorted (map lp_ip ls)"
    using that sorted_filter by (auto simp: m)
  show "distinct (map lp_mac ls')" if "distinct (map lp_mac ls)" using that by (simp add: m distinct_map_filter)
  show "distinct (map lp_ip ls')" if "distinct (map lp_ip ls)" using that by (simp add: m distinct_map_filter)
  show "\<exists>l \<in> set ls. lp_ip l' = lp_ip l \<and> lp_mac l' = lp_mac l \<and> lp_hostname l' = lp_hostname l" if "l' \<in> set ls'"
    using that by (auto simp: assms)
qed

text \<open>What the timer leaves: the surviving leases, or all of them but one.\<close>

lemma dhcps_tmr_cases:
  assumes "dhcps_tmr env d = Some (Some d')"
  shows "poll_start d' = poll_start d \<and> poll_end d' = poll_end d \<and> client_address_plus d' = client_address_plus d \<and>
    current_hostname d' = current_hostname d \<and> dns_server d' = dns_server d \<and>
    (plist d' = plist d \<or>
     (let ls = filter (\<lambda>l. lp_timer l \<noteq> 0) (map (\<lambda>l. l\<lparr>lp_timer := lp_timer l - 1\<rparr>) (plist d)) in
      plist d' = ls \<or> (\<exists>i. plist d' = node_remove_from_list i ls)))"
proof (cases "hstate d = DHCPS_HANDLE_STARTED")
  case False
  with assms show ?thesis by (auto simp: dhcps_tmr_def Let_def split: if_splits)
next
  case True
  define ls where "ls = filter (\<lambda>l. lp_timer l \<noteq> 0) (map (\<lambda>l. l\<lparr>lp_timer := lp_timer l - 1\<rparr>) (plist d))"
  define d1 where "d1 = d\<lparr>pending_timers := pending_timers d - 1 + 1, plist := ls\<rparr>"
  have "(word_of_nat (length ls) > max_station_num env \<and> kill_oldest_dhcps_pool d1 = Some d') \<or> d' = d1"
    using assms True
    by (auto simp: dhcps_tmr_def Let_def lease_tick_eq ls_def [symmetric] d1_def split: if_splits)
  moreover have "kill_oldest_dhcps_pool d1 = Some d' \<Longrightarrow> \<exists>i. d' = d1\<lparr>plist := node_remove_from_list i ls\<rparr>"
    by (auto simp: kill_oldest_dhcps_pool_def d1_def split: list.splits)
  ultimately have "d' = d1 \<or> (\<exists>i. d' = d1\<lparr>plist := node_remove_from_list i ls\<rparr>)" by blast
  then show ?thesis unfolding Let_def ls_def [symmetric] by (auto simp: d1_def)
qed

lemma dhcps_tmr_inv:
  assumes "dhcps_inv d" "dhcps_tmr env d = Some (Some d')"
  shows "dhcps_inv d'"
proof -
  define ls where "ls = filter (\<lambda>l. lp_timer l \<noteq> 0) (map (\<lambda>l. l\<lparr>lp_timer := lp_timer l - 1\<rparr>) (plist d))"
  note t = tick_columns [OF ls_def]
  have "\<forall>l \<in> set ls. host_ok (lp_hostname l)"
    using t(4) dhcps_invD(3) [OF assms(1)] by metis
  then have 1: "dhcps_inv (d\<lparr>plist := ls\<rparr>)"
    using t(1,2) assms(1) by (simp add: dhcps_inv_def)
  have 2: "dhcps_inv (d\<lparr>plist := node_remove_from_list i ls\<rparr>)" for i
    using dhcps_inv_remove [OF 1, of i] by simp
  note c = dhcps_tmr_cases [OF assms(2)]
  then consider "plist d' = plist d" | "plist d' = ls" | i where "plist d' = node_remove_from_list i ls"
    unfolding Let_def ls_def [symmetric] by blast
  then show ?thesis
  proof cases
    case 1
    with c assms(1) show ?thesis by (simp add: dhcps_inv_def)
  next
    case 2
    with c 1 show ?thesis by (simp add: dhcps_inv_def)
  next
    case 3
    with c 2 [of i] show ?thesis by (simp add: dhcps_inv_def)
  qed
qed

lemma handle_dhcp_state:
  assumes "handle_dhcp env tab p d = Some (out, d')"
  shows "d' = d \<or> (\<exists>m len ret. parse_msg env tab m len d = Some (ret, d'))"
  using assms by (auto simp: handle_dhcp_def bind_eq_Some_conv split: option.splits if_splits)

lemma handle_dhcp_inv:
  assumes "dhcps_inv d" "handle_dhcp env tab p d = Some (out, d')"
  shows "dhcps_inv d'"
  using handle_dhcp_state [OF assms(2)]
proof
  assume "\<exists>m len ret. parse_msg env tab m len d = Some (ret, d')"
  then obtain m len ret where r: "parse_msg env tab m len d = Some (ret, d')" by blast
  show ?thesis
  proof (cases "rd_bytes m 236 4 = Some magic_cookie")
    case True
    then show ?thesis using parse_msg_effect [OF assms(1) r] by blast
  next
    case False
    then show ?thesis using parse_msg_no_cookie [OF _ r] assms(1) by simp
  qed
qed (simp add: assms(1))

section \<open>Reachable states\<close>

text \<open>
  Any interleaving of packets, timer ticks and the calls of other components, with any
  environment and any reservation table at each step.
\<close>

inductive dhcps_step :: "dhcps \<Rightarrow> dhcps \<Rightarrow> bool" where
  packet: "handle_dhcp env tab p d = Some (out, d') \<Longrightarrow> dhcps_step d d'"
| tick: "dhcps_tmr env d = Some (Some d') \<Longrightarrow> dhcps_step d d'"
| start: "dhcps_start env nif ip d = (err, d') \<Longrightarrow> dhcps_step d d'"
| stop: "dhcps_stop nifid d = (err, d') \<Longrightarrow> dhcps_step d d'"
| delete: "dhcps_delete d = Some d' \<Longrightarrow> dhcps_step d d'"
| set_option: "dhcps_set_option_info opt ok (Some d) = (err, Some d') \<Longrightarrow> dhcps_step d d'"
| set_dns: "dhcps_dns_setserver_by_type a k (Some d) = (err, Some d') \<Longrightarrow> dhcps_step d d'"
| set_cb: "dhcps_set_new_lease_cb b (Some d) = (err, Some d') \<Longrightarrow> dhcps_step d d'"

inductive dhcps_reachable :: "dhcps \<Rightarrow> bool" where
  created: "dhcps_reachable dhcps_new"
| step: "dhcps_reachable d \<Longrightarrow> dhcps_step d d' \<Longrightarrow> dhcps_reachable d'"

lemma poll_set_frame:
  "plist (dhcps_poll_set ip d) = plist d" "current_hostname (dhcps_poll_set ip d) = current_hostname d"
  "dns_server (dhcps_poll_set ip d) = dns_server d" "client_address_plus (dhcps_poll_set ip d) = client_address_plus d"
  by (simp_all add: dhcps_poll_set_def Let_def case_prod_unfold)

lemma dhcps_step_inv: "dhcps_step d d' \<Longrightarrow> dhcps_inv d \<Longrightarrow> dhcps_inv d'"
proof (induction rule: dhcps_step.induct)
  case (packet env tab p d out d')
  then show ?case using handle_dhcp_inv by blast
next
  case (tick env d d')
  then show ?case using dhcps_tmr_inv by blast
next
  case (start env nif ip d err d')
  then have "plist d' = plist d \<and> current_hostname d' = current_hostname d \<and> dns_server d' = dns_server d"
    by (auto simp: dhcps_start_def Let_def poll_set_frame split: if_splits)
  with start show ?case by (simp add: dhcps_inv_def)
next
  case (stop nifid d err d')
  then show ?case by (auto simp: dhcps_stop_def dhcps_inv_def split: if_splits)
next
  case (delete d d')
  then show ?case by (auto simp: dhcps_delete_def dhcps_inv_def split: if_splits)
next
  case (set_option opt ok d err d')
  then show ?case
    by (auto simp: dhcps_set_option_info_def dhcps_inv_def split: option.splits dhcps_opt.splits if_splits)
next
  case (set_dns a k d err d')
  then show ?case by (auto simp: dhcps_dns_setserver_by_type_def dhcps_inv_def split: if_splits)
next
  case (set_cb b d err d')
  then show ?case by (auto simp: dhcps_set_new_lease_cb_def dhcps_inv_def)
qed

text \<open>C12: whatever packets arrive and whatever calls are made, the lease list stays ordered by address,
  holds one lease per hardware address, and its host names consist of at most 31 letters, digits,
  hyphens, dots and underscores.\<close>

theorem dhcps_reachable_inv: "dhcps_reachable d \<Longrightarrow> dhcps_inv d"
proof (induction rule: dhcps_reachable.induct)
  case created
  show ?case by (simp add: dhcps_new_def dhcps_inv_def)
next
  case (step d d')
  then show ?case using dhcps_step_inv by blast
qed


section \<open>What a packet may change\<close>

text \<open>A packet changes at most the lease of the hardware address it carries; afterwards that client
  has a lease exactly if the answer is an offer, an acknowledgement or none, and the lease is for
  the address announced, inside the pool's upper bound and never 0.0.0.0.\<close>

theorem dhcp_packet_frame:
  assumes "dhcps_inv d" "parse_msg env tab m len d = Some (ret, d')" "rd_bytes m 236 4 = Some magic_cookie"
  shows "(\<forall>mac. mac \<noteq> msg_chaddr m \<longrightarrow> lease_of d' mac = lease_of d mac) \<and>
    lease_of d' (msg_chaddr m) =
      (if keeps_lease ret then Some (client_address d') else None) \<and>
    (keeps_lease ret \<longrightarrow> client_address d' \<noteq> 0 \<and> client_address d' \<le> poll_end d)"
  using parse_msg_effect [OF assms] by (auto split: if_splits)

lemma sample_cookie: "length mac = 6 \<Longrightarrow> rd_bytes (sample_msg mac o') 236 4 = Some magic_cookie"
  "length mac = 6 \<Longrightarrow> msg_chaddr (sample_msg mac o') = mac"
  by (simp_all add: sample_msg_def rd_bytes_def msg_chaddr_def magic_cookie_def)

theorem dhcp_packet_frame_witness:
  "\<exists>ret d'. parse_msg env_example [] (sample_msg [9, 9, 9, 9, 9, 9] [53, 1, 1, 255]) 4 one_lease = Some (ret, d') \<and>
     lease_of d' [1, 2, 3, 4, 5, 6] = Some 7"
proof -
  let ?m = "sample_msg [9, 9, 9, 9, 9, 9] [53, 1, 1, 255]"
  have "OPTIONS_OFS + nat 4 \<le> length ?m" by (simp add: OPTIONS_OFS_def sample_msg_def magic_cookie_def)
  moreover have "node_ok env_example" by (simp add: env_example_def)
  ultimately obtain ret d' where r: "parse_msg env_example [] ?m 4 one_lease = Some (ret, d')"
    using parse_msg_total by fastforce
  have c: "rd_bytes ?m 236 4 = Some magic_cookie" "msg_chaddr ?m = [9, 9, 9, 9, 9, 9]" by (simp_all add: sample_cookie)
  have "lease_of d' [1, 2, 3, 4, 5, 6] = lease_of one_lease [1, 2, 3, 4, 5, 6]"
    using dhcp_packet_frame [OF one_lease_inv r c(1)] c(2) by simp
  with r show ?thesis by (simp add: one_lease_def lease_of_def)
qed

section \<open>Reservations\<close>

lemma assign_address:
  assumes "dhcps_assign env tab mac t first d = Some (pos, d')" "length tab < 2 ^ 32"
  shows "(lookup_dhcp_reservation mac tab \<noteq> 0 \<longrightarrow> client_address d' = lookup_dhcp_reservation mac tab) \<and>
    (lookup_dhcp_reservation mac tab = 0 \<longrightarrow> client_address d' \<le> poll_end d' \<longrightarrow>
       \<not> is_ip_reserved_for_other (client_address d') mac tab)"
proof -
  let ?c = "if client_address_plus d > poll_end d then first else client_address d"
  obtain j where j: "skip_reserved tab mac (poll_end d) ?c = Some ((next_ip ^^ j) ?c)"
    "\<not> ((next_ip ^^ j) ?c \<le> poll_end d \<and> is_ip_reserved_for_other ((next_ip ^^ j) ?c) mac tab)"
    using skip_total [OF assms(2)] by blast
  define a where "a = (next_ip ^^ j) ?c"
  have "client_address d' = (if lookup_dhcp_reservation mac tab \<noteq> 0 then lookup_dhcp_reservation mac tab else a)"
    "poll_end d' = poll_end d"
    using assms(1) j(1) by (auto simp: dhcps_assign_def Let_def a_def split: if_splits)
  with j(2) show ?thesis by (auto simp: a_def)
qed

text \<open>C14: a client without a lease gets the address reserved for its hardware address, if there is one
  and it does not exceed the pool's end (beyond it, the request is refused); a client without a
  reservation never gets an address reserved for somebody else.\<close>

theorem dhcp_reservation_honoured:
  assumes "dhcps_inv d" "length tab < 2 ^ 32" "lease_of d (msg_chaddr m) = None"
    "rd_bytes m 236 4 = Some magic_cookie" "parse_msg env tab m len d = Some (ret, d')"
  shows "let r = lookup_dhcp_reservation (msg_chaddr m) tab in
    (r \<noteq> 0 \<longrightarrow> r > poll_end d \<longrightarrow> ret = DHCPS_STATE_NAK) \<and>
    (r \<noteq> 0 \<longrightarrow> keeps_lease ret \<longrightarrow> lease_of d' (msg_chaddr m) = Some r) \<and>
    (r = 0 \<longrightarrow> keeps_lease ret \<longrightarrow>
       (\<exists>ip. lease_of d' (msg_chaddr m) = Some ip \<and> \<not> is_ip_reserved_for_other ip (msg_chaddr m) tab))"
proof -
  define mac where "mac = msg_chaddr m"
  obtain ci t pos first d1 pos2 d2 where t: "t = dhcps_lease_time d * lease_unit env"
    and sc: "dhcps_scan mac ci t d = (pos, first, d1)"
    and a: "(case pos of Some i \<Rightarrow> Some (Some i, d1) | None \<Rightarrow> dhcps_assign env tab mac t first d1) = Some (pos2, d2)"
    and c: "dhcps_pool_check m len pos2 d2 = Some (ret, d')"
    by (rule parse_msg_phases [OF assms(5,4), folded mac_def]) (rule that)
  note s = dhcps_scan_phase [OF assms(1) sc]
  have "find_first (\<lambda>l. lp_mac l = mac) (plist d) = None"
    using assms(3) lease_of_None [of d mac] by (simp add: find_first_None mac_def) (metis image_eqI)
  then have none: "pos = None" using s by simp
  then have as: "dhcps_assign env tab mac t first d1 = Some (pos2, d2)" using a by simp
  have no: "mac \<notin> lp_mac ` set (plist d1)" using s none by (simp add: at_lease_def)
  note q = dhcps_assign_phase [OF s [THEN conjunct1] no as]
  note ad = assign_address [OF as assms(2)]
  have "pos2 = None \<Longrightarrow> client_address d2 > poll_end d2" using q by blast
  note pc = pool_check_phase [OF q [THEN conjunct1] q [THEN conjunct2, THEN conjunct1] c this]
  have e: "poll_end d2 = poll_end d" using q s by simp
  have own: "lease_of d' mac = Some (client_address d')" "client_address d' = client_address d2"
    "client_address d2 \<le> poll_end d2" if "keeps_lease ret"
    using pc that by auto
  have "ret = DHCPS_STATE_NAK" if "client_address d2 > poll_end d2"
    using c that by (auto simp: dhcps_pool_check_def DHCPS_STATE_NAK_def)
  then show ?thesis unfolding Let_def mac_def [symmetric] using ad own e by auto
qed

definition one_reservation :: "dhcp_reservation list" where
  "one_reservation = [\<lparr>dr_mac = [9, 9, 9, 9, 9, 9], dr_ip = 8, dr_name = [], dr_valid = 1\<rparr>]"

theorem dhcp_reservation_honoured_witness:
  "\<exists>d'. parse_msg env_example one_reservation (sample_msg [9, 9, 9, 9, 9, 9] (encode_options [(53, [1])])) 4 one_lease =
     Some (DHCPS_STATE_OFFER, d') \<and> lease_of d' [9, 9, 9, 9, 9, 9] = Some 8"
proof -
  let ?os = "[(53, [1])] :: (u8 \<times> bytes) list"
  let ?m = "sample_msg [9, 9, 9, 9, 9, 9] (encode_options ?os)"
  have cm: "client_msg ?m [9, 9, 9, 9, 9, 9] ?os 4"
    by (rule sample_client_msg) (simp_all add: tlv_ok_def dhcp_consts encode_options_def tlv_def)
  then have c: "rd_bytes ?m 236 4 = Some magic_cookie" "msg_chaddr ?m = [9, 9, 9, 9, 9, 9]"
    "OPTIONS_OFS + nat 4 \<le> length ?m" by (simp_all add: client_msg_def OPTIONS_OFS_def)
  have l: "lookup_dhcp_reservation [9, 9, 9, 9, 9, 9] one_reservation = 8" "length one_reservation < 2 ^ 32"
    by (simp_all add: lookup_dhcp_reservation_def one_reservation_def dr_used_def)
  have "node_ok env_example" by (simp add: env_example_def)
  with parse_msg_total [OF c(3) l(2)] obtain ret d' where
    r: "parse_msg env_example one_reservation ?m 4 one_lease = Some (ret, d')" by blast
  have n: "lease_of one_lease (msg_chaddr ?m) = None" by (simp add: c one_lease_def lease_of_def)
  obtain ci t pos first d1 pos2 d2 where ph: "t = dhcps_lease_time one_lease * lease_unit env_example"
    "dhcps_scan (msg_chaddr ?m) ci t one_lease = (pos, first, d1)"
    "(case pos of Some i \<Rightarrow> Some (Some i, d1) | None \<Rightarrow> dhcps_assign env_example one_reservation (msg_chaddr ?m) t first d1)
       = Some (pos2, d2)"
    "dhcps_pool_check ?m 4 pos2 d2 = Some (ret, d')"
    by (rule parse_msg_phases [OF r c(1)]) (rule that)
  have "pos = None" using ph(2) c(2) by (auto simp: dhcps_scan_def one_lease_def Let_def split: prod.splits)
  then have as: "dhcps_assign env_example one_reservation (msg_chaddr ?m) t first d1 = Some (pos2, d2)" using ph(3) by simp
  have a: "client_address d2 = 8" using assign_address [OF as l(2)] l(1) c(2) by simp
  have e: "poll_end d2 = 9"
  proof -
    note s = dhcps_scan_phase [OF one_lease_inv ph(2)]
    have "msg_chaddr ?m \<notin> lp_mac ` set (plist d1)" using s \<open>pos = None\<close> by (simp add: at_lease_def)
    from dhcps_assign_phase [OF s [THEN conjunct1] this as] s show ?thesis by (simp add: one_lease_def)
  qed
  have o1: "opt_result rn (start_meaning x ?os) = DHCPS_STATE_OFFER" for rn x
    unfolding opt_result_def start_meaning_type by (simp add: last_option_def dhcp_consts)
  have "ret = DHCPS_STATE_OFFER"
    using ph(4) a e parse_options_client [OF cm, of d2] o1
    by (auto simp: dhcps_pool_check_def dhcp_consts split: option.splits)
  then show ?thesis
    using dhcp_reservation_honoured [OF one_lease_inv l(2) n c(1) r] l(1) c(2) r
    by (simp add: Let_def keeps_lease_def dhcp_consts)
qed

section \<open>No address twice\<close>

lemma pool_check_plist:
  assumes "dhcps_pool_check m len pos d = Some (ret, d')"
  shows "poll_start d' = poll_start d \<and> poll_end d' = poll_end d \<and> client_address_plus d' = client_address_plus d \<and>
    (plist d' = plist d \<or> (\<exists>i. plist d' = node_remove_from_list i (plist d)) \<or>
     (\<exists>i h. plist d' = (plist d)[i := (plist d ! i)\<lparr>lp_hostname := h\<rparr>]))"
proof (cases "client_address d > poll_end d \<or> client_address d = 0")
  case True
  with assms show ?thesis by (cases pos) (auto simp: dhcps_pool_check_def)
next
  case False
  then obtain d1 where d1: "parse_options m len d = Some (ret, d1)"
    using assms by (auto simp: dhcps_pool_check_def bind_eq_Some_conv Let_def split: if_splits option.splits)
  then obtain h where h: "d1 = d\<lparr>current_hostname := h\<rparr>" using parse_options_effect by blast
  show ?thesis
    using assms False d1 h
    by (cases pos; cases "keeps_lease ret")
      (auto simp: dhcps_pool_check_def Let_def keeps_lease_def split: if_splits, blast?)
qed

lemma pool_check_pool24:
  assumes "dhcps_pool_check m len pos d = Some (ret, d')" "pool24 a b c s e d"
  shows "pool24 a b c s e d'"
proof -
  note p = pool_check_plist [OF assms(1)]
  have dis: "distinct (map lp_ip (plist d))" using assms(2) by (simp add: pool24_def)
  have "set (map lp_ip (plist d')) \<subseteq> set (map lp_ip (plist d)) \<and> distinct (map lp_ip (plist d'))"
    using p
  proof (elim conjE disjE exE)
    fix i assume r: "plist d' = node_remove_from_list i (plist d)"
    show ?thesis
    proof (cases "i < length (plist d)")
      case True
      then show ?thesis using r set_node_remove [of i "plist d"] distinct_node_remove(1) [OF dis True] by auto
    next
      case False
      then show ?thesis using r dis by (simp add: node_remove_from_list_def)
    qed
  next
    fix i h assume u: "plist d' = (plist d)[i := (plist d ! i)\<lparr>lp_hostname := h\<rparr>]"
    have "map lp_ip (plist d') = map lp_ip (plist d)"
      by (cases "i < length (plist d)") (simp_all add: u map_update_same list_update_beyond)
    then have "set (map lp_ip (plist d')) = set (map lp_ip (plist d))" by (simp only:)
    moreover have "distinct (map lp_ip (plist d'))" using dis \<open>map lp_ip (plist d') = map lp_ip (plist d)\<close> by (simp only:)
    ultimately show ?thesis by simp
  qed (use dis in auto)
  then show ?thesis using p assms(2) by (intro pool24_cong [of d' d]) auto
qed

lemma parse_msg_pool24:
  assumes "dhcps_inv d" "pool24 a b c s e d" "no_reservations tab" "parse_msg env tab m len d = Some (ret, d')"
  shows "pool24 a b c s e d'"
proof (cases "rd_bytes m 236 4 = Some magic_cookie")
  case False
  then show ?thesis using parse_msg_no_cookie [OF _ assms(4)] assms(2) by simp
next
  case True
  obtain ci t pos first d1 pos2 d2 where t: "t = dhcps_lease_time d * lease_unit env"
    and sc: "dhcps_scan (msg_chaddr m) ci t d = (pos, first, d1)"
    and as: "(case pos of Some i \<Rightarrow> Some (Some i, d1) | None \<Rightarrow> dhcps_assign env tab (msg_chaddr m) t first d1) = Some (pos2, d2)"
    and pc: "dhcps_pool_check m len pos2 d2 = Some (ret, d')"
    by (rule parse_msg_phases [OF assms(4) True]) (rule that)
  note s = scan_pool24 [OF assms(1,2) sc]
  have "pool24 a b c s e d2"
  proof (cases pos)
    case (Some i)
    then show ?thesis using as s by simp
  next
    case None
    then obtain k f where k: "client_address d1 = le32 a b c k" "s \<le> k" "k \<le> e + 1" "le32 a b c k \<notin> lp_ip ` set (plist d1)"
      and f: "first = le32 a b c f" "s \<le> f" "f \<le> e + 1" "le32 a b c f \<notin> lp_ip ` set (plist d1)"
      using s by blast
    have "dhcps_assign env tab (msg_chaddr m) t first d1 = Some (pos2, d2)" using as None by simp
    from assign_pool24 [OF s [THEN conjunct1] assms(3) k f this] show ?thesis .
  qed
  with pc show ?thesis by (rule pool_check_pool24)
qed

lemma tmr_pool24:
  assumes "pool24 a b c s e d" "dhcps_tmr env d = Some (Some d')"
  shows "pool24 a b c s e d'"
proof -
  define ls where "ls = filter (\<lambda>l. lp_timer l \<noteq> 0) (map (\<lambda>l. l\<lparr>lp_timer := lp_timer l - 1\<rparr>) (plist d))"
  note c = dhcps_tmr_cases [OF assms(2)] and t = tick_columns [OF ls_def]
  have dis: "distinct (map lp_ip (plist d))" "distinct (map lp_ip ls)" using assms(1) t(3) by (auto simp: pool24_def)
  have sub: "set (map lp_ip ls) \<subseteq> set (map lp_ip (plist d))"
  proof
    fix x assume "x \<in> set (map lp_ip ls)"
    then obtain l' where "l' \<in> set ls" "x = lp_ip l'" by auto
    then show "x \<in> set (map lp_ip (plist d))" using t(4) by fastforce
  qed
  consider "plist d' = plist d" | "plist d' = ls" | i where "plist d' = node_remove_from_list i ls"
    using c unfolding Let_def ls_def [symmetric] by blast
  then have "set (map lp_ip (plist d')) \<subseteq> set (map lp_ip (plist d)) \<and> distinct (map lp_ip (plist d'))"
  proof cases
    case 3
    show ?thesis
    proof (cases "i < length ls")
      case True
      then show ?thesis using 3 sub set_node_remove [of i ls] distinct_node_remove(1) [OF dis(2) True] by auto
    next
      case False
      then show ?thesis using 3 sub dis by (simp add: node_remove_from_list_def)
    qed
  qed (use dis sub in auto)
  moreover have "poll_start d' = poll_start d" "poll_end d' = poll_end d" "client_address_plus d' = client_address_plus d"
    using c by auto
  ultimately show ?thesis using assms(1) by (intro pool24_cong [of d' d]) auto
qed

text \<open>A started server handling packets and timer ticks.\<close>

inductive dhcps_served :: "dhcps_env \<Rightarrow> dhcp_reservation list \<Rightarrow> dhcps \<Rightarrow> dhcps \<Rightarrow> bool" for env tab where
  idle: "dhcps_served env tab d d"
| served_packet: "dhcps_served env tab d0 d \<Longrightarrow> handle_dhcp env tab p d = Some (out, d') \<Longrightarrow> dhcps_served env tab d0 d'"
| served_tick: "dhcps_served env tab d0 d \<Longrightarrow> dhcps_tmr env d = Some (Some d') \<Longrightarrow> dhcps_served env tab d0 d'"

lemma served_pool24:
  "dhcps_served env tab d0 d \<Longrightarrow> no_reservations tab \<Longrightarrow> dhcps_inv d0 \<Longrightarrow> pool24 a b c s e d0 \<Longrightarrow>
   dhcps_inv d \<and> pool24 a b c s e d"
proof (induction rule: dhcps_served.induct)
  case (idle d)
  then show ?case by simp
next
  case (served_packet d0 d p out d')
  then have i: "dhcps_inv d" "pool24 a b c s e d" by auto
  have "pool24 a b c s e d'"
    using handle_dhcp_state [OF served_packet.hyps(2)] parse_msg_pool24 [OF i served_packet.prems(1)] i(2) by blast
  then show ?case using handle_dhcp_inv [OF i(1) served_packet.hyps(2)] by simp
next
  case (served_tick d0 d d')
  then show ?case using dhcps_tmr_inv tmr_pool24 by blast
qed

lemma mask24: "le32 a b c x AND htonl 0xFFFFFF00 = le32 a b c 0" "htonl (le32 a b c x) AND 0xFFFFFF00 = le32 0 c b a"
proof -
  have f: "bit (0xFFFFFF00 :: u32) n \<longleftrightarrow> 8 \<le> n \<and> n < 32" for n
  proof -
    have "(0xFFFFFF00 :: u32) = NOT (mask 8)" by (simp add: mask_eq_exp_minus_1)
    then show ?thesis by (simp only: bit_not_iff bit_mask_iff) auto
  qed
  show "htonl (le32 a b c x) AND 0xFFFFFF00 = le32 0 c b a"
    by (rule bit_word_eqI, simp only: htonl_le32 bit_and_iff bit_le32 f) auto
  have g: "htonl 0xFFFFFF00 = (0x00FFFFFF :: u32)" by (simp add: htonl_def byte_of_def le32_def)
  have h: "bit (0x00FFFFFF :: u32) n \<longleftrightarrow> n < 24" for n
  proof -
    have "(0x00FFFFFF :: u32) = mask 24" by (simp add: mask_eq_exp_minus_1)
    then show ?thesis by (simp only: bit_mask_iff) auto
  qed
  show "le32 a b c x AND htonl 0xFFFFFF00 = le32 a b c 0"
    by (rule bit_word_eqI, simp only: g bit_and_iff bit_le32 h) auto
qed

text \<open>The pool of a server started with the default mask lies in its /24.\<close>

lemma host_split: "(h :: u32) = le32 (byte_of 0 h) (byte_of 1 h) (byte_of 2 h) (byte_of 3 h)"
  by simp

lemma start_pool24:
  assumes "plist d = []" "dhcps_mask d = htonl 0xFFFFFF00" "\<not> poll_enable d"
    "dhcps_start env nif (le32 a b c x) d = (ERR_OK, d')"
  shows "\<exists>s e. pool24 a b c s e d' \<and> \<not> (s \<le> x \<and> x \<le> e)"
proof -
  define v where "v = htonl (le32 a b c x)"
  have vx: "v = le32 x c b a" by (simp add: v_def htonl_le32)
  have ok: "v \<noteq> v AND 0xFFFFFF00" "v \<noteq> (v AND 0xFFFFFF00) OR NOT 0xFFFFFF00"
    using assms(2,4) by (auto simp: dhcps_start_def Let_def v_def split: if_splits)
  obtain s0 e0 where p: "default_pool v 0xFFFFFF00 = (s0, e0)" by (cases "default_pool v 0xFFFFFF00")
  have "(0xFFFFFF00 - 1 :: u32) OR 0xFFFFFF00 = 0xFFFFFFFF" by simp
  note so = default_pool_sound [OF this ok p]
  have net: "v AND 0xFFFFFF00 = le32 0 c b a" using mask24(2) [of a b c x] by (simp add: v_def)
  have bc: "(v AND 0xFFFFFF00) OR NOT 0xFFFFFF00 = le32 255 c b a"
  proof -
    have "NOT 0xFFFFFF00 = (0xFF :: u32)" by simp
    moreover have "le32 0 c b a OR 0xFF = le32 255 c b a"
    proof -
      have "(0xFF :: u32) = mask 8" "(255 :: u8) = mask 8" by (simp_all add: mask_eq_exp_minus_1)
      then have "bit (0xFF :: u32) n \<longleftrightarrow> n < 8" "bit (255 :: u8) n \<longleftrightarrow> n < 8" for n
        by (simp_all only: bit_mask_iff) auto
      then show ?thesis by (intro bit_word_eqI, simp only: bit_or_iff bit_le32) auto
    qed
    ultimately show ?thesis by (simp only: net)
  qed
  have inside: "\<exists>k. h = le32 k c b a \<and> unat k = unat h - unat (le32 0 c b a)"
    if "le32 0 c b a \<le> h" "h \<le> le32 255 c b a" for h
  proof -
    define k :: u8 where "k = word_of_nat (unat h - unat (le32 0 c b a))"
    have "unat (le32 0 c b a) \<le> unat h" "unat h \<le> unat (le32 255 c b a)" using that by (simp_all add: word_le_nat_alt)
    then have "unat h - unat (le32 0 c b a) < 256" by (simp add: unat_le32)
    then have k: "unat k = unat h - unat (le32 0 c b a)" by (simp add: k_def unat_len)
    then have "unat (le32 k c b a) = unat h" using \<open>unat (le32 0 c b a) \<le> unat h\<close> by (simp add: unat_le32)
    then show ?thesis using k unsigned_word_eqI by metis
  qed
  have ord: "le32 k c b a \<le> le32 k' c b a \<longleftrightarrow> k \<le> k'" "le32 k c b a < le32 k' c b a \<longleftrightarrow> k < k'" for k k'
    by (simp_all add: word_le_nat_alt word_less_nat_alt unat_le32)
  obtain s where s: "s0 = le32 s c b a" using inside [of s0] so net bc by (metis less_imp_le order.strict_trans1)
  obtain e where e: "e0 = le32 e c b a" using inside [of e0] so net bc by (metis less_imp_le order.strict_trans2)
  have se: "s \<le> e" "e < 255" "\<not> (s \<le> x \<and> x \<le> e)"
    using so s e bc vx by (auto simp: ord)
  have d': "poll_start d' = le32 a b c s" "poll_end d' = le32 a b c e" "client_address_plus d' = le32 a b c s" "plist d' = []"
    using assms
    by (auto simp: dhcps_start_def Let_def dhcps_poll_set_def htonl_le32 p [unfolded vx s e] split: if_splits)
  have "s \<le> e + 1" using se word_succ_less [of e 255] by auto
  then have "pool24 a b c s e d'" using d' se by (auto simp: pool24_def)
  with se(3) show ?thesis by blast
qed

text \<open>C13: a server started with the default mask and no reservations never has two leases for one
  address, and every lease is inside its pool, which does not contain the server's own address.\<close>

theorem dhcp_no_address_twice:
  assumes "dhcps_inv d0" "plist d0 = []" "dhcps_mask d0 = htonl 0xFFFFFF00" "\<not> poll_enable d0"
    "dhcps_start env nif ip d0 = (ERR_OK, d1)" "no_reservations tab" "dhcps_served env tab d1 d"
  shows "distinct (map lp_ip (plist d)) \<and> distinct (map lp_mac (plist d)) \<and>
    (\<forall>l \<in> set (plist d). poll_start d \<le> lp_ip l \<and> lp_ip l \<le> poll_end d \<and> lp_ip l \<noteq> ip)"
proof -
  obtain a b c x where ip: "ip = le32 a b c x" using host_split by blast
  from start_pool24 [OF assms(2-4) assms(5) [unfolded ip]] obtain s e where
    p: "pool24 a b c s e d1" "\<not> (s \<le> x \<and> x \<le> e)" by blast
  have "dhcps_inv d1" by (rule dhcps_step_inv [OF dhcps_step.start [OF assms(5)] assms(1)])
  from served_pool24 [OF assms(7,6) this p(1)] have r: "dhcps_inv d" "pool24 a b c s e d" by auto
  have "\<forall>l \<in> set (plist d). poll_start d \<le> lp_ip l \<and> lp_ip l \<le> poll_end d \<and> lp_ip l \<noteq> ip"
  proof
    fix l assume "l \<in> set (plist d)"
    then obtain k where k: "s \<le> k" "k \<le> e" "lp_ip l = le32 a b c k" using r(2) by (auto simp: pool24_def in24_def)
    then have "k \<noteq> x" using p(2) by auto
    with k r(2) show "poll_start d \<le> lp_ip l \<and> lp_ip l \<le> poll_end d \<and> lp_ip l \<noteq> ip"
      by (auto simp: pool24_def le32_le_iff le32_eq_iff ip)
  qed
  then show ?thesis using r by (simp add: pool24_def dhcps_inv_def)
qed

definition lan_netif :: netif where
  "lan_netif = \<lparr>nif_id = 1, nif_up = True, nif_ip = 0x0104A8C0, nif_netmask = 0x00FFFFFF, nif_gw = 0x0104A8C0\<rparr>"

definition fresh_server :: dhcps where
  "fresh_server = dhcps_new\<lparr>dhcps_cb := True\<rparr>"

lemma fresh_server_start:
  "dhcps_start env_example (Some lan_netif) 0x0104A8C0 fresh_server =
     (ERR_OK, fresh_server\<lparr>dhcps_netif := Some lan_netif, dhcps_pcb := True, broadcast_dhcps := 0xFFFFFFFF,
        server_address := 0x0104A8C0, poll_start := 0x0204A8C0, poll_end := 0x6504A8C0, poll_enable := True,
        client_address_plus := 0x0204A8C0, hstate := DHCPS_HANDLE_STARTED, pending_timers := 1\<rparr>)"
  by (simp add: dhcps_start_def fresh_server_def dhcps_new_def env_example_def dhcps_poll_set_def default_pool_def
      DHCPS_MAX_LEASE_def Let_def htonl_def byte_of_def le32_def)

theorem dhcp_no_address_twice_witness:
  "\<exists>out d. handle_dhcp env_example [] (Some [sample_msg [1, 2, 3, 4, 5, 6] [53, 1, 1, 255]])
       (snd (dhcps_start env_example (Some lan_netif) 0x0104A8C0 fresh_server)) = Some (out, d) \<and>
     distinct (map lp_ip (plist d))"
proof -
  let ?d1 = "snd (dhcps_start env_example (Some lan_netif) 0x0104A8C0 fresh_server)"
  let ?p = "Some [sample_msg [1, 2, 3, 4, 5, 6] [53, 1, 1, 255]]"
  have st: "dhcps_start env_example (Some lan_netif) 0x0104A8C0 fresh_server = (ERR_OK, ?d1)"
    by (simp add: fresh_server_start)
  have n: "no_reservations []" by (simp add: no_reservations_def)
  have f: "dhcps_inv fresh_server" "plist fresh_server = []" "dhcps_mask fresh_server = htonl 0xFFFFFF00"
    "\<not> poll_enable fresh_server"
    by (simp_all add: fresh_server_def dhcps_new_def dhcps_inv_def)
  have "uri_fits ?d1" "dhcps_cb ?d1" "node_ok env_example"
    unfolding fresh_server_start by (simp_all add: fresh_server_def dhcps_new_def uri_fits_def env_example_def)
  then obtain out d where r: "handle_dhcp env_example [] ?p ?d1 = Some (out, d)"
    using handle_dhcp_total [of ?d1 env_example "[]" ?p] by auto
  then have "dhcps_served env_example [] ?d1 d" by (intro served_packet [OF idle])
  from dhcp_no_address_twice [OF f st n this] r show ?thesis by blast
qed

text \<open>The same server, created, given its callback, started and asked: a reachable state.\<close>

theorem dhcps_reachable_inv_witness:
  "\<exists>out d. handle_dhcp env_example [] (Some [sample_msg [1, 2, 3, 4, 5, 6] [53, 1, 1, 255]])
       (snd (dhcps_start env_example (Some lan_netif) 0x0104A8C0 fresh_server)) = Some (out, d) \<and> dhcps_inv d"
proof -
  let ?d1 = "snd (dhcps_start env_example (Some lan_netif) 0x0104A8C0 fresh_server)"
  let ?p = "Some [sample_msg [1, 2, 3, 4, 5, 6] [53, 1, 1, 255]]"
  have 0: "dhcps_reachable fresh_server"
    by (rule dhcps_reachable.step [OF dhcps_reachable.created dhcps_step.set_cb [of True _ ERR_OK]])
      (simp add: dhcps_set_new_lease_cb_def fresh_server_def)
  have 1: "dhcps_reachable ?d1" by (rule dhcps_reachable.step [OF 0 dhcps_step.start]) (rule prod.collapse [symmetric])
  have "uri_fits ?d1" "dhcps_cb ?d1" "node_ok env_example"
    unfolding fresh_server_start by (simp_all add: fresh_server_def dhcps_new_def uri_fits_def env_example_def)
  then obtain out d where r: "handle_dhcp env_example [] ?p ?d1 = Some (out, d)"
    using handle_dhcp_total [of ?d1 env_example "[]" ?p] by auto
  have "dhcps_reachable d" by (rule dhcps_reachable.step [OF 1 dhcps_step.packet [OF r]])
  with r dhcps_reachable_inv show ?thesis by blast
qed

section \<open>The loop over reserved addresses and the lease list\<close>

text \<open>
  The pool of three addresses \<open>192.168.4.2\<close> to \<open>.4\<close>; \<open>.2\<close> is reserved for a client that is
  not there.
\<close>

definition small_server :: dhcps where
  "small_server = fresh_server\<lparr>dhcps_netif := Some lan_netif, dhcps_pcb := True, broadcast_dhcps := 0xFFFFFFFF,
     server_address := 0x0104A8C0, poll_start := 0x0204A8C0, poll_end := 0x0404A8C0, poll_enable := True,
     client_address_plus := 0x0204A8C0, hstate := DHCPS_HANDLE_STARTED, pending_timers := 1\<rparr>"

lemma small_server_start:
  "dhcps_start env_example (Some lan_netif) 0x0104A8C0
     (fresh_server\<lparr>poll_enable := True, poll_start := 0x0204A8C0, poll_end := 0x0404A8C0\<rparr>) = (ERR_OK, small_server)"
  by (simp add: dhcps_start_def small_server_def fresh_server_def dhcps_new_def env_example_def dhcps_poll_set_def
      ip4_netcmp_def DHCPS_MAX_LEASE_def Let_def htonl_def byte_of_def le32_def)

definition absent_reservation :: "dhcp_reservation list" where
  "absent_reservation = [\<lparr>dr_mac = [12, 12, 12, 12, 12, 12], dr_ip = 0x0204A8C0, dr_name = [], dr_valid = 1\<rparr>]"

definition client_mac :: "u8 \<Rightarrow> mac" where "client_mac n = [n, n, n, n, n, n]"

definition discover_msg :: "mac \<Rightarrow> bytes" where
  "discover_msg mac = sample_msg mac (encode_options [(53, [1])]) @ [0, 0, 0, 0]"

lemma discover_client_msg: "length mac = 6 \<Longrightarrow> client_msg (discover_msg mac) mac [(53, [1])] 304"
  by (auto simp: client_msg_def discover_msg_def sample_msg_def rd_bytes_def msg_chaddr_def magic_cookie_def
      encode_options_def tlv_def tlv_ok_def dhcp_consts)

lemma discover_buffer:
  "length mac = 6 \<Longrightarrow> dhcp_buffer [sample_msg mac (encode_options [(53, [1])])] = Some (discover_msg mac)"
  by (simp add: dhcp_buffer_def discover_msg_def sample_msg_def magic_cookie_def encode_options_def tlv_def
      DHCPS_MSG_SIZE_def numeral_eq_Suc)

lemma discover_options:
  assumes "length mac = 6"
  shows "parse_options (discover_msg mac) 304 d = Some (DHCPS_STATE_OFFER, d\<lparr>current_hostname := []\<rparr>)"
proof -
  have "os_host (start_meaning (client_address d) [(53, [1])]) = []"
    by (simp add: start_meaning_host last_option_def dhcp_consts)
  moreover have "opt_result (renew d) (start_meaning (client_address d) [(53, [1])]) = DHCPS_STATE_OFFER"
    unfolding opt_result_def start_meaning_type by (simp add: last_option_def dhcp_consts)
  ultimately show ?thesis using parse_options_client [OF discover_client_msg [OF assms], of d] by simp
qed

text \<open>One new client whose discovery is answered, from the scan and the assignment.\<close>

lemma discover_run:
  assumes "length mac = 6" "dhcps_scan mac [0, 0, 0, 0] (dhcps_lease_time d * lease_unit env) d = (None, first, d1)"
    "dhcps_assign env tab mac (dhcps_lease_time d * lease_unit env) first d1 = Some (Some i, d2)"
    "client_address d2 \<le> poll_end d2" "client_address d2 \<noteq> 0"
    "plist d2 ! i = \<lparr>lp_ip = client_address d2, lp_mac = mac, lp_timer = t, lp_hostname = []\<rparr>"
    "uri_fits d" "dhcps_cb d" "heap_ok env"
  shows "\<exists>out. handle_dhcp env tab (Some [sample_msg mac (encode_options [(53, [1])])]) d =
    Some (out, d2\<lparr>current_hostname := []\<rparr>)"
proof -
  let ?m = "discover_msg mac"
  have len: "length (sample_msg mac (encode_options [(53, [1])])) = 544" "length ?m = 548"
    using assms(1) by (simp_all add: discover_msg_def sample_msg_def magic_cookie_def encode_options_def tlv_def)
  have rd: "rd_bytes ?m 236 4 = Some magic_cookie" "rd_bytes ?m 28 6 = Some mac" "rd_bytes ?m 12 4 = Some [0, 0, 0, 0]"
    using assms(1) discover_client_msg [OF assms(1)]
    by (auto simp: client_msg_def rd_bytes_def msg_chaddr_def discover_msg_def sample_msg_def magic_cookie_def numeral_eq_Suc)
  have "strncpy_trunc DHCPS_MAX_HOSTNAME_LEN [] = []" by (simp add: strncpy_trunc_def)
  then have "dhcps_pool_check ?m 304 (Some i) d2 = Some (DHCPS_STATE_OFFER, d2\<lparr>current_hostname := []\<rparr>)"
    using assms(4-6) discover_options [OF assms(1), of d2]
      list_update_id [of "plist d2" i]
    by (simp add: dhcps_pool_check_def not_less [symmetric] dhcp_consts)
  then have r: "parse_msg env tab ?m 304 d = Some (DHCPS_STATE_OFFER, d2\<lparr>current_hostname := []\<rparr>)"
    using rd assms(2,3) by (simp add: parse_msg_def)
  have "uri_fits (d2\<lparr>current_hostname := []\<rparr>)"
    using dhcp_setting_frame [OF r] assms(7) by (simp add: uri_fits_def)
  with send_offer_total [of ?m] len obtain out where
    "send_offer env (d2\<lparr>current_hostname := []\<rparr>) ?m = Some out" by fastforce
  then show ?thesis
    using r len discover_buffer [OF assms(1)] assms(9) by (simp add: handle_dhcp_def)
qed

lemma ip_steps:
  "next_ip 0x0204A8C0 = 0x0304A8C0" "next_ip 0x0304A8C0 = 0x0404A8C0" "next_ip 0x0404A8C0 = 0x0504A8C0"
  by (simp_all add: next_ip_def htonl_def byte_of_def le32_def)

lemma absent_reservation_simps:
  assumes "mac \<noteq> [12, 12, 12, 12, 12, 12]"
  shows "lookup_dhcp_reservation mac absent_reservation = 0"
    "is_ip_reserved_for_other ip mac absent_reservation \<longleftrightarrow> ip = 0x0204A8C0"
  using assms by (auto simp: lookup_dhcp_reservation_def is_ip_reserved_for_other_def absent_reservation_def dr_used_def)

lemma absent_skip:
  assumes "mac \<noteq> [12, 12, 12, 12, 12, 12]"
  shows "skip_reserved absent_reservation mac 0x0404A8C0 0x0204A8C0 = Some 0x0304A8C0"
    "skip_reserved absent_reservation mac 0x0404A8C0 0x0304A8C0 = Some 0x0304A8C0"
    "skip_reserved absent_reservation mac 0x0404A8C0 0x0404A8C0 = Some 0x0404A8C0"
proof -
  note r = absent_reservation_simps(2) [OF assms]
  show 3: "skip_reserved absent_reservation mac 0x0404A8C0 0x0304A8C0 = Some 0x0304A8C0"
    by (subst skip_unfold) (simp add: r)
  show "skip_reserved absent_reservation mac 0x0404A8C0 0x0404A8C0 = Some 0x0404A8C0"
    by (subst skip_unfold) (simp add: r)
  show "skip_reserved absent_reservation mac 0x0404A8C0 0x0204A8C0 = Some 0x0304A8C0"
    by (subst skip_unfold) (simp add: r ip_steps 3)
qed

definition granted :: "u8 \<Rightarrow> u32 \<Rightarrow> dhcps_pool" where
  "granted n ip = \<lparr>lp_ip = ip, lp_mac = client_mac n, lp_timer = 7200, lp_hostname = []\<rparr>"

definition small_after :: "u32 \<Rightarrow> u32 \<Rightarrow> dhcps_pool list \<Rightarrow> dhcps" where
  "small_after ca nxt ls = small_server\<lparr>client_address := ca, client_address_plus := nxt, plist := ls\<rparr>"

text \<open>With a single reservation in the pool, two clients can be given the same address: the loop
  that skips a reserved address does not look whether the next one is leased.\<close>

theorem dhcp_reservation_duplicates:
  "\<exists>d. dhcps_served env_example absent_reservation small_server d \<and>
     lease_of d (client_mac 1) = Some 0x0304A8C0 \<and> lease_of d (client_mac 3) = Some 0x0304A8C0"
proof -
  let ?msg = "\<lambda>n. Some [sample_msg (client_mac n) (encode_options [(53, [1])])]"
  note fields = small_after_def small_server_def fresh_server_def dhcps_new_def env_example_def
  note ev = dhcps_scan_def dhcps_assign_def Let_def scan_step_def node_insert_to_list_def granted_def client_mac_def
    absent_reservation_simps absent_skip ip_steps uri_fits_def
  have "\<exists>out. handle_dhcp env_example absent_reservation (?msg 1) small_server =
      Some (out, small_after 0x0304A8C0 0x0404A8C0 [granted 1 0x0304A8C0])"
    using discover_run [of "client_mac 1" small_server env_example "0x0204A8C0"
        "small_server\<lparr>client_address := 0x0204A8C0\<rparr>" absent_reservation 0 "small_after 0x0304A8C0 0x0404A8C0 [granted 1 0x0304A8C0]" 7200]
    by (simp add: fields ev)
  moreover have "\<exists>out. handle_dhcp env_example absent_reservation (?msg 2) (small_after 0x0304A8C0 0x0404A8C0 [granted 1 0x0304A8C0]) =
      Some (out, small_after 0x0404A8C0 0x0204A8C0 [granted 1 0x0304A8C0, granted 2 0x0404A8C0])"
    using discover_run [of "client_mac 2" "small_after 0x0304A8C0 0x0404A8C0 [granted 1 0x0304A8C0]" env_example "0x0204A8C0"
        "small_after 0x0404A8C0 0x0404A8C0 [granted 1 0x0304A8C0]" absent_reservation 1
        "small_after 0x0404A8C0 0x0204A8C0 [granted 1 0x0304A8C0, granted 2 0x0404A8C0]" 7200]
    by (simp add: fields ev)
  moreover have "\<exists>out. handle_dhcp env_example absent_reservation (?msg 3)
        (small_after 0x0404A8C0 0x0204A8C0 [granted 1 0x0304A8C0, granted 2 0x0404A8C0]) =
      Some (out, small_after 0x0304A8C0 0x0404A8C0 [granted 1 0x0304A8C0, granted 3 0x0304A8C0, granted 2 0x0404A8C0])"
    using discover_run [of "client_mac 3" "small_after 0x0404A8C0 0x0204A8C0 [granted 1 0x0304A8C0, granted 2 0x0404A8C0]"
        env_example "0x0204A8C0" "small_after 0x0204A8C0 0x0204A8C0 [granted 1 0x0304A8C0, granted 2 0x0404A8C0]"
        absent_reservation 1
        "small_after 0x0304A8C0 0x0404A8C0 [granted 1 0x0304A8C0, granted 3 0x0304A8C0, granted 2 0x0404A8C0]" 7200]
    by (simp add: fields ev)
  ultimately have "dhcps_served env_example absent_reservation small_server
      (small_after 0x0304A8C0 0x0404A8C0 [granted 1 0x0304A8C0, granted 3 0x0304A8C0, granted 2 0x0404A8C0])"
    by (meson idle served_packet)
  then show ?thesis
    by (intro exI conjI, assumption) (simp_all add: lease_of_def small_after_def granted_def client_mac_def)
qed

section \<open>The timer\<close>

lemma oldest_pos_min:
  assumes "xs = pre @ ls" "minp < length pre" "\<forall>x \<in> set pre. lp_timer (xs ! minp) \<le> lp_timer x"
  shows "oldest_pos ls (length pre) minp (lp_timer (xs ! minp)) < length xs \<and>
    (\<forall>x \<in> set xs. lp_timer (xs ! oldest_pos ls (length pre) minp (lp_timer (xs ! minp))) \<le> lp_timer x)"
  using assms
proof (induction ls arbitrary: pre minp)
  case Nil
  then show ?case by simp
next
  case (Cons l ls)
  have l: "xs ! length pre = l" using Cons.prems(1) by simp
  show ?case
  proof (cases "lp_timer l < lp_timer (xs ! minp)")
    case True
    have "\<forall>x \<in> set (pre @ [l]). lp_timer (xs ! length pre) \<le> lp_timer x"
      using True Cons.prems(3) l by (auto intro: order_less_imp_le order.strict_trans2)
    with Cons.IH [of "pre @ [l]" "length pre"] Cons.prems(1) l True show ?thesis by simp
  next
    case False
    have "\<forall>x \<in> set (pre @ [l]). lp_timer (xs ! minp) \<le> lp_timer x"
      using False Cons.prems(3) by (auto simp: not_less)
    with Cons.IH [of "pre @ [l]" minp] Cons.prems(1,2) False show ?thesis by simp
  qed
qed

text \<open>The leases that survive one second.\<close>

definition survivors :: "dhcps_pool list \<Rightarrow> dhcps_pool list" where
  "survivors ls = filter (\<lambda>l. lp_timer l \<noteq> 0) (map (\<lambda>l. l\<lparr>lp_timer := lp_timer l - 1\<rparr>) ls)"

text \<open>A tick of a running server counts every lease down by one, drops the expired ones, and if more
  than the configured number of stations remain, drops one with the least time left; it never
  runs into the assertion in \<open>kill_oldest_dhcps_pool\<close>.\<close>

theorem dhcps_tmr_effect:
  assumes "hstate d = DHCPS_HANDLE_STARTED" "length (plist d) < 256" "max_station_num env \<noteq> 0"
  shows "\<exists>d'. dhcps_tmr env d = Some (Some d') \<and>
    (if length (survivors (plist d)) \<le> unat (max_station_num env) then plist d' = survivors (plist d)
     else \<exists>i < length (survivors (plist d)). plist d' = node_remove_from_list i (survivors (plist d)) \<and>
       (\<forall>l \<in> set (survivors (plist d)). lp_timer (survivors (plist d) ! i) \<le> lp_timer l))"
proof -
  define ls where "ls = survivors (plist d)"
  have "length ls \<le> length (plist d)" unfolding ls_def survivors_def by (rule le_trans [OF length_filter_le]) simp
  then have "unat (word_of_nat (length ls) :: u8) = length ls" using assms(2) by (intro unat_len) simp
  then have cmp: "(word_of_nat (length ls) :: u8) > max_station_num env \<longleftrightarrow> length ls > unat (max_station_num env)"
    by (simp add: word_less_nat_alt)
  define d1 where "d1 = d\<lparr>pending_timers := pending_timers d - 1 + 1, plist := ls\<rparr>"
  have run: "dhcps_tmr env d = (if length ls > unat (max_station_num env) then map_option Some (kill_oldest_dhcps_pool d1)
      else Some (Some d1))"
    using assms(1) by (simp add: dhcps_tmr_def Let_def lease_tick_eq survivors_def [symmetric] ls_def [symmetric] cmp d1_def)
  show ?thesis
  proof (cases "length ls > unat (max_station_num env)")
    case False
    then show ?thesis using run by (simp add: ls_def [symmetric] d1_def)
  next
    case True
    have "0 < unat (max_station_num env)" using assms(3) by (simp add: unat_gt_0)
    with True have "2 \<le> length ls" by linarith
    then obtain l l' r where c: "ls = l # l' # r" by (metis Suc_le_length_iff numeral_2_eq_2)
    define i where "i = oldest_pos (l' # r) 1 0 (lp_timer l)"
    have i: "i < length ls \<and> (\<forall>x \<in> set ls. lp_timer (ls ! i) \<le> lp_timer x)"
      using oldest_pos_min [of ls "[l]" "l' # r" 0] c by (simp add: i_def)
    have "kill_oldest_dhcps_pool d1 = Some (d1\<lparr>plist := node_remove_from_list i ls\<rparr>)"
      by (simp add: kill_oldest_dhcps_pool_def d1_def c i_def)
    then have "dhcps_tmr env d = Some (Some (d1\<lparr>plist := node_remove_from_list i ls\<rparr>))" using run True by simp
    moreover have "\<not> length ls \<le> unat (max_station_num env)" using True by linarith
    ultimately show ?thesis using i unfolding ls_def [symmetric] by auto
  qed
qed

theorem dhcps_tmr_effect_witness:
  "\<exists>d'. dhcps_tmr (env_example\<lparr>max_station_num := 1\<rparr>) (small_after 0 0 [granted 1 5, granted 2 6]) = Some (Some d') \<and>
     length (plist d') = 1"
proof -
  let ?d = "small_after 0 0 [granted 1 5, granted 2 6]" and ?e = "env_example\<lparr>max_station_num := 1\<rparr>"
  have "hstate ?d = DHCPS_HANDLE_STARTED" "length (plist ?d) < 256" "max_station_num ?e \<noteq> 0"
    by (simp_all add: small_after_def small_server_def)
  note t = dhcps_tmr_effect [OF this]
  have "length (survivors (plist ?d)) = 2" by (simp add: survivors_def small_after_def granted_def)
  with t show ?thesis by (auto simp: node_remove_from_list_def)
qed

end
