(* ===== verification/Pcap_Capture.thy ===== *)
theory Pcap_Capture
  imports Acl Pcap_Queue
begin

text \<open>
  Packet capture (\<open>components/pcap_capture/pcap_capture.c\<close>): what is captured, how a packet
  becomes a record in the ring buffer, and the TCP task that streams the records to the one
  client.  Built with \<open>CONFIG_PCAP_CAPTURE\<close> for a target other than the C3 and C5.
\<close>

section \<open>State\<close>

definition PCAP_RINGBUF_SIZE :: nat where "PCAP_RINGBUF_SIZE = 32 * 1024"
definition PCAP_SNAPLEN_DEFAULT :: u16 where "PCAP_SNAPLEN_DEFAULT = 96"
definition PCAP_SNAPLEN_MAX :: u16 where "PCAP_SNAPLEN_MAX = 1600"
definition PCAP_SEND_BUF_SIZE :: nat where "PCAP_SEND_BUF_SIZE = 1024"

datatype pcap_capture_mode = PCAP_MODE_OFF | PCAP_MODE_ACL_MONITOR | PCAP_MODE_PROMISCUOUS

text \<open>
  Where the server task is: not created; waiting in \<open>accept\<close>; before the global header;
  in the streaming loop; at the label \<open>client_disconnect\<close>; ended by \<open>vTaskDelete\<close>.
\<close>

datatype pcap_pc = PcNone | PcAccept | PcHeader | PcStream | PcDisconnect | PcDead

text \<open>
  The file-scope variables, the ring buffer behind them, the position of the task, and the
  bytes the current client has been sent.
\<close>

record pcap_state =
  capture_mode :: pcap_capture_mode
  client_connected :: bool
  client_socket :: bool
  pcap_task_handle :: bool
  captured_packets :: u32
  pcap_snaplen :: u16
  pcap_link_type :: u32
  pcap_ring :: ringbuf
  srv_pc :: pcap_pc
  wire :: bytes

definition pcap_boot :: pcap_state where
  "pcap_boot = \<lparr>capture_mode = PCAP_MODE_OFF, client_connected = False, client_socket = False,
     pcap_task_handle = False, captured_packets = 0, pcap_snaplen = PCAP_SNAPLEN_DEFAULT,
     pcap_link_type = 1, pcap_ring = ringbuf_boot, srv_pc = PcNone, wire = []\<rparr>"

text \<open>
  A packet as the hooks get it: the first segment, the total length, and the payloads of
  the further segments of the chain.  lwIP keeps \<open>tot_len\<close> equal to the sum of the lengths.
\<close>

record packet = pbuf +
  chained :: "bytes list"

definition segments :: "packet \<Rightarrow> bytes list" where
  "segments p = payload p # chained p"

definition packet_ok :: "packet \<Rightarrow> bool" where
  "packet_ok p \<longleftrightarrow> unat (tot_len p) = length (concat (segments p))"

abbreviation as_pbuf :: "packet \<Rightarrow> pbuf" where
  "as_pbuf p \<equiv> \<lparr>payload = payload p, tot_len = tot_len p\<rparr>"

section \<open>Which packets, and their records\<close>

definition pcap_should_capture :: "bool \<Rightarrow> bool \<Rightarrow> pcap_state \<Rightarrow> bool" where
  "pcap_should_capture is_acl_monitored is_ap_interface s =
     (if \<not> client_connected s then False
      else case capture_mode s of
        PCAP_MODE_OFF \<Rightarrow> False
      | PCAP_MODE_ACL_MONITOR \<Rightarrow> is_acl_monitored
      | PCAP_MODE_PROMISCUOUS \<Rightarrow> \<not> is_ap_interface)"

definition pcap_packet_header :: "u32 \<Rightarrow> u32 \<Rightarrow> u32 \<Rightarrow> u32 \<Rightarrow> bytes" where
  "pcap_packet_header ts_sec ts_usec incl_len orig_len =
     le32_bytes ts_sec @ le32_bytes ts_usec @ le32_bytes incl_len @ le32_bytes orig_len"

definition create_pcap_global_header :: "pcap_state \<Rightarrow> bytes" where
  "create_pcap_global_header s = le32_bytes 0xa1b2c3d4 @ le16_bytes 2 @ le16_bytes 4 @ le32_bytes 0 @
     le32_bytes 0 @ le32_bytes (ucast (pcap_snaplen s)) @ le32_bytes (pcap_link_type s)"

text \<open>The loop over the segments; the packet's bytes follow the 16 bytes of its header.\<close>

fun pcap_copy :: "bytes list \<Rightarrow> nat \<Rightarrow> nat \<Rightarrow> bytes \<Rightarrow> bytes option" where
  "pcap_copy [] incl_len copied buf = Some buf"
| "pcap_copy (q # qs) incl_len copied buf =
     (if \<not> copied < incl_len then Some buf
      else let to_copy = (if copied + length q > incl_len then incl_len - copied else length q) in
        do { src \<leftarrow> rd_bytes q 0 to_copy;
             buf \<leftarrow> wr_bytes buf (16 + copied) src;
             pcap_copy qs incl_len (copied + to_copy) buf })"

text \<open>
  \<open>stack\<close> is what the uninitialised array \<open>pkt_buf\<close> of 16 + 1600 bytes holds;
  \<open>tv\<close> is the time of \<open>gettimeofday\<close>.
\<close>

definition pcap_capture_packet :: "u32 \<times> u32 \<Rightarrow> bytes \<Rightarrow> packet option \<Rightarrow> pcap_state \<Rightarrow> pcap_state option" where
  "pcap_capture_packet tv stack p s =
     (case p of None \<Rightarrow> Some s
      | Some p \<Rightarrow>
          if \<not> client_connected s then Some s
          else let incl_len = (if tot_len p > pcap_snaplen s then pcap_snaplen s else tot_len p) in do {
            pkt_buf \<leftarrow> wr_bytes stack 0 (pcap_packet_header (fst tv) (snd tv) (ucast incl_len) (ucast (tot_len p)));
            pkt_buf \<leftarrow> pcap_copy (segments p) (unat incl_len) 0 pkt_buf;
            rec \<leftarrow> rd_bytes pkt_buf 0 (16 + unat incl_len);
            (ok, r) \<leftarrow> ringbuf_write rec (pcap_ring s);
            let s = s\<lparr>pcap_ring := r\<rparr> in
            Some (if ok then s\<lparr>captured_packets := captured_packets s + 1\<rparr> else s) })"

section \<open>The server task\<close>

text \<open>What \<open>send\<close> returns: an error, \<open>EAGAIN\<close>, or the number of bytes it took.\<close>

datatype send_result = SendFailed | SendAgain | SendTook nat

text \<open>
  \<open>send_to_client\<close>: the bytes that got out and whether all of them did.  The results of
  \<open>send\<close> are given in advance; \<open>None\<close>: still sending when they are used up.
\<close>

fun send_to_client :: "send_result list \<Rightarrow> bytes \<Rightarrow> (bool \<times> bytes) option" where
  "send_to_client rs [] = Some (True, [])"
| "send_to_client [] (b # bs) = None"
| "send_to_client (SendFailed # rs) (b # bs) = Some (False, [])"
| "send_to_client (SendAgain # rs) (b # bs) = send_to_client rs (b # bs)"
| "send_to_client (SendTook n # rs) (b # bs) =
     map_option (\<lambda>(ok, out). (ok, take n (b # bs) @ out)) (send_to_client rs (drop n (b # bs)))"

text \<open>The task up to its loop: \<open>socket\<close>, \<open>bind\<close>, \<open>listen\<close> and the send buffer, or its end.\<close>

definition pcap_server_setup :: "bool \<Rightarrow> bool \<Rightarrow> bool \<Rightarrow> bool \<Rightarrow> pcap_state \<Rightarrow> pcap_state" where
  "pcap_server_setup socket_ok bind_ok listen_ok malloc_ok s =
     s\<lparr>srv_pc := (if \<not> socket_ok then PcDead else if \<not> bind_ok then PcDead
        else if \<not> listen_ok then PcDead else if \<not> malloc_ok then PcDead else PcAccept)\<rparr>"

text \<open>After \<open>accept\<close>; \<open>block\<close> is what \<open>malloc\<close> returns in \<open>ringbuf_alloc\<close>.\<close>

definition pcap_accept :: "bool \<Rightarrow> bytes option \<Rightarrow> pcap_state \<Rightarrow> pcap_state option" where
  "pcap_accept accepted block s =
     (if \<not> accepted then Some (s\<lparr>client_socket := False\<rparr>)
      else let s = s\<lparr>client_socket := True, client_connected := True, wire := []\<rparr> in do {
        (ok, r) \<leftarrow> ringbuf_alloc PCAP_RINGBUF_SIZE block (pcap_ring s);
        Some (s\<lparr>pcap_ring := r, srv_pc := (if ok then PcHeader else PcDisconnect)\<rparr>) })"

definition pcap_send :: "send_result list \<Rightarrow> bytes \<Rightarrow> pcap_state \<Rightarrow> pcap_state option" where
  "pcap_send rs data s = do {
     (ok, out) \<leftarrow> send_to_client rs data;
     Some (s\<lparr>wire := wire s @ out, srv_pc := (if ok then PcStream else PcDisconnect)\<rparr>) }"

text \<open>One turn of the streaming loop; \<open>gone\<close>: what the probing \<open>recv\<close> says when nothing was read.\<close>

definition pcap_stream :: "send_result list \<Rightarrow> bool \<Rightarrow> pcap_state \<Rightarrow> pcap_state option" where
  "pcap_stream rs gone s =
     (if \<not> client_connected s then Some (s\<lparr>srv_pc := PcDisconnect\<rparr>)
      else do {
        (chunk, r) \<leftarrow> ringbuf_read PCAP_SEND_BUF_SIZE (pcap_ring s);
        let s = s\<lparr>pcap_ring := r\<rparr> in
        if chunk = [] then Some (if gone then s\<lparr>srv_pc := PcDisconnect\<rparr> else s)
        else pcap_send rs chunk s })"

definition pcap_disconnect :: "pcap_state \<Rightarrow> pcap_state option" where
  "pcap_disconnect s = do {
     r \<leftarrow> ringbuf_free (pcap_ring s);
     Some (s\<lparr>client_connected := False, client_socket := False, pcap_ring := r, srv_pc := PcAccept\<rparr>) }"

section \<open>Control and queries\<close>

definition ensure_server_running :: "bool \<Rightarrow> bool \<Rightarrow> bool \<Rightarrow> pcap_state \<Rightarrow> bool \<times> pcap_state" where
  "ensure_server_running mutex_ok sem_ok task_ok s =
     (if pcap_task_handle s then (True, s)
      else let (ok, r) = ringbuf_init mutex_ok sem_ok (pcap_ring s); s = s\<lparr>pcap_ring := r\<rparr> in
        if \<not> ok then (False, s)
        else if \<not> task_ok then (False, s)
        else (True, s\<lparr>pcap_task_handle := True\<rparr>))"

definition pcap_set_mode :: "bool \<Rightarrow> bool \<Rightarrow> bool \<Rightarrow> pcap_capture_mode \<Rightarrow> pcap_state \<Rightarrow> pcap_state option" where
  "pcap_set_mode mutex_ok sem_ok task_ok mode s =
     (let old_mode = capture_mode s;
          (running, s) = (if mode \<noteq> PCAP_MODE_OFF then ensure_server_running mutex_ok sem_ok task_ok s else (True, s))
      in if \<not> running then Some s
         else let s = s\<lparr>capture_mode := mode\<rparr> in
           if old_mode = PCAP_MODE_OFF \<and> mode \<noteq> PCAP_MODE_OFF
           then do { r \<leftarrow> ringbuf_reset (pcap_ring s); Some (s\<lparr>captured_packets := 0, pcap_ring := r\<rparr>) }
           else Some s)"

definition pcap_get_mode :: "pcap_state \<Rightarrow> pcap_capture_mode" where
  "pcap_get_mode s = capture_mode s"

fun pcap_mode_to_string :: "pcap_capture_mode \<Rightarrow> string" where
  "pcap_mode_to_string PCAP_MODE_OFF = ''off''"
| "pcap_mode_to_string PCAP_MODE_ACL_MONITOR = ''acl-monitor''"
| "pcap_mode_to_string PCAP_MODE_PROMISCUOUS = ''promiscuous''"

definition pcap_capture_start :: "bool \<Rightarrow> bool \<Rightarrow> bool \<Rightarrow> pcap_state \<Rightarrow> pcap_state option" where
  "pcap_capture_start m b t s = pcap_set_mode m b t PCAP_MODE_PROMISCUOUS s"

definition pcap_capture_stop :: "bool \<Rightarrow> bool \<Rightarrow> bool \<Rightarrow> pcap_state \<Rightarrow> pcap_state option" where
  "pcap_capture_stop m b t s = pcap_set_mode m b t PCAP_MODE_OFF s"

definition pcap_capture_enabled :: "pcap_state \<Rightarrow> bool" where
  "pcap_capture_enabled s \<longleftrightarrow> capture_mode s \<noteq> PCAP_MODE_OFF"

definition pcap_client_connected :: "pcap_state \<Rightarrow> bool" where
  "pcap_client_connected s = client_connected s"

definition pcap_get_captured_count :: "pcap_state \<Rightarrow> u32" where
  "pcap_get_captured_count s = captured_packets s"

definition pcap_get_dropped_count :: "pcap_state \<Rightarrow> u32" where
  "pcap_get_dropped_count s = ringbuf_get_dropped_count (pcap_ring s)"

text \<open>The flags say which of the two result pointers are given.\<close>

definition pcap_get_buffer_usage :: "bool \<Rightarrow> bool \<Rightarrow> pcap_state \<Rightarrow> (nat option \<times> nat option \<times> pcap_state) option" where
  "pcap_get_buffer_usage want_used want_total s = do {
     (used, s) \<leftarrow> (if want_used
        then do { (n, r) \<leftarrow> ringbuf_available_bytes (pcap_ring s); Some (Some n, s\<lparr>pcap_ring := r\<rparr>) }
        else Some (None, s));
     Some (used, if want_total then Some (ringbuf_total_size (pcap_ring s)) else None, s) }"

definition pcap_get_snaplen :: "pcap_state \<Rightarrow> u16" where
  "pcap_get_snaplen s = pcap_snaplen s"

definition pcap_set_snaplen :: "u16 \<Rightarrow> pcap_state \<Rightarrow> bool \<times> pcap_state" where
  "pcap_set_snaplen snaplen s =
     (if snaplen < 64 \<or> snaplen > PCAP_SNAPLEN_MAX then (False, s) else (True, s\<lparr>pcap_snaplen := snaplen\<rparr>))"

definition pcap_set_link_type :: "u32 \<Rightarrow> pcap_state \<Rightarrow> pcap_state" where
  "pcap_set_link_type dlt s = s\<lparr>pcap_link_type := dlt\<rparr>"

definition pcap_get_link_type :: "pcap_state \<Rightarrow> u32" where
  "pcap_get_link_type s = pcap_link_type s"

end
