(* ===== verification/Pcap_Stream.thy ===== *)
theory Pcap_Stream
  imports Pcap_Capture "HOL-Library.Sublist"
begin

text \<open>
  What the capture client receives.  A packet becomes one record; the bytes sent are a
  prefix of the global header followed by the accepted records, and can be taken apart into
  them again; switching the capture off and on breaks this for a client that stays connected.
\<close>

section \<open>Records\<close>

text \<open>The record of a packet, as the file format has it.\<close>

definition snapped :: "u16 \<Rightarrow> packet \<Rightarrow> u16" where
  "snapped snaplen p = (if tot_len p > snaplen then snaplen else tot_len p)"

definition pcap_record :: "u32 \<times> u32 \<Rightarrow> u16 \<Rightarrow> packet \<Rightarrow> bytes" where
  "pcap_record tv snaplen p =
     pcap_packet_header (fst tv) (snd tv) (ucast (snapped snaplen p)) (ucast (tot_len p)) @
     take (unat (snapped snaplen p)) (concat (segments p))"

lemma length_header [simp]: "length (pcap_packet_header a b c d) = 16"
  by (simp add: pcap_packet_header_def)

lemma snapped_le: "packet_ok p \<Longrightarrow> unat (snapped n p) \<le> length (concat (segments p))"
  by (auto simp: snapped_def packet_ok_def word_less_nat_alt)

lemma length_record: "packet_ok p \<Longrightarrow> length (pcap_record tv n p) = 16 + unat (snapped n p)"
  using snapped_le [of p n] by (simp add: pcap_record_def min_absorb2)

text \<open>The copying loop stays inside the buffer and lays the segments out one after the other.\<close>

lemma pcap_copy_result:
  assumes "copied \<le> n" "n \<le> copied + length (concat qs)" "16 + n \<le> length buf"
  shows "\<exists>buf'. pcap_copy qs n copied buf = Some buf' \<and> length buf' = length buf \<and>
    take (16 + n) buf' = take (16 + copied) buf @ take (n - copied) (concat qs)"
  using assms
proof (induction qs arbitrary: copied buf)
  case Nil
  then show ?case by simp
next
  case (Cons q qs)
  show ?case
  proof (cases "copied < n")
    case False
    with Cons.prems show ?thesis by simp
  next
    case True
    define k where "k = (if copied + length q > n then n - copied else length q)"
    define b where "b = take (16 + copied) buf @ take k q @ drop (16 + copied + k) buf"
    have k: "k \<le> length q" "copied + k \<le> n" "k = min (n - copied) (length q)" using True by (auto simp: k_def)
    then have lb: "length b = length buf" using Cons.prems by (simp add: b_def)
    have w: "rd_bytes q 0 k = Some (take k q)" "wr_bytes buf (16 + copied) (take k q) = Some b"
      using k Cons.prems by (auto simp: rd_bytes_def wr_bytes_def b_def)
    have tb: "take (16 + (copied + k)) b = take (16 + copied) buf @ take k q"
      using k Cons.prems by (simp add: b_def)
    have "n \<le> copied + k + length (concat qs)" using k(3) Cons.prems(2) by (cases "n - copied \<le> length q") auto
    then obtain b' where b': "pcap_copy qs n (copied + k) b = Some b'" "length b' = length b"
      "take (16 + n) b' = take (16 + (copied + k)) b @ take (n - (copied + k)) (concat qs)"
      using Cons.IH [of "copied + k" b] k Cons.prems lb by auto
    have "take k q @ take (n - (copied + k)) (concat qs) = take (n - copied) (concat (q # qs))"
      using k by (cases "n - copied \<le> length q") (auto simp: min_def)
    with b' tb lb w True show ?thesis by (simp add: k_def [symmetric] Let_def)
  qed
qed

lemma capture_disconnected: "\<not> client_connected s \<Longrightarrow> pcap_capture_packet tv stack p s = Some s"
  by (simp add: pcap_capture_packet_def split: option.split)

lemma capture_writes_record:
  assumes "packet_ok p" "client_connected s" "unat (pcap_snaplen s) \<le> 1600" "length stack = 1616"
  shows "pcap_capture_packet tv stack (Some p) s =
    map_option (\<lambda>(ok, r). if ok then s\<lparr>pcap_ring := r, captured_packets := captured_packets s + 1\<rparr>
                           else s\<lparr>pcap_ring := r\<rparr>)
      (ringbuf_write (pcap_record tv (pcap_snaplen s) p) (pcap_ring s))"
proof -
  define n where "n = snapped (pcap_snaplen s) p"
  let ?h = "pcap_packet_header (fst tv) (snd tv) (ucast n) (ucast (tot_len p))"
  have n: "unat n \<le> 1600" using assms(3) by (auto simp: n_def snapped_def word_less_nat_alt)
  have w: "wr_bytes stack 0 ?h = Some (?h @ drop 16 stack)" using assms(4) by (simp add: wr_bytes_def)
  obtain b where b: "pcap_copy (segments p) (unat n) 0 (?h @ drop 16 stack) = Some b" "length b = 1616"
    "take (16 + unat n) b = ?h @ take (unat n) (concat (segments p))"
    using pcap_copy_result [of 0 "unat n" "segments p" "?h @ drop 16 stack"] snapped_le [OF assms(1), of "pcap_snaplen s"]
      n assms(4) by (auto simp: n_def)
  have r: "rd_bytes b 0 (16 + unat n) = Some (pcap_record tv (pcap_snaplen s) p)"
    using b n by (simp add: rd_bytes_def pcap_record_def n_def)
  show ?thesis
    unfolding pcap_capture_packet_def Let_def
    using assms(2) w b(1) r
    by (simp add: n_def [unfolded snapped_def, symmetric] del: pcap_copy.simps)
      (auto split: option.splits bind_splits simp: map_option_case)
qed

section \<open>The stream\<close>

lemma send_result:
  "send_to_client rs d = Some (ok, out) \<Longrightarrow> prefix out d \<and> (ok \<longrightarrow> out = d)"
proof (induction rs d arbitrary: ok out rule: send_to_client.induct)
  case (5 n rs b bs)
  then obtain o' where o': "send_to_client rs (drop n (b # bs)) = Some (ok, o')" "out = take n (b # bs) @ o'"
    by auto
  with 5(1) [OF o'(1)] have "prefix o' (drop n (b # bs))" "ok \<longrightarrow> o' = drop n (b # bs)" by auto
  with o'(2) show ?case by (metis append_take_drop_id same_prefix_prefix)
qed auto

text \<open>
  What can happen while a client is served: packets arrive, the task takes a turn, and any other
  task sets the mode (with what the creation of locks and task would say), the snap length or the
  link type.
\<close>

datatype pcap_event =
    EvCapture "u32 \<times> u32" bytes packet
  | EvTurn "send_result list" bool
  | EvMode bool bool bool pcap_capture_mode
  | EvSnaplen u16
  | EvLink u32

text \<open>A run; the list collects the packets whose records were accepted, with time and snap length.\<close>

type_synonym captured = "(u32 \<times> u32) \<times> u16 \<times> packet"

fun record_of :: "captured \<Rightarrow> bytes" where
  "record_of (tv, n, p) = pcap_record tv n p"

abbreviation records :: "captured list \<Rightarrow> bytes" where
  "records xs \<equiv> concat (map record_of xs)"

fun pcap_step :: "pcap_event \<Rightarrow> pcap_state \<Rightarrow> (captured list \<times> pcap_state) option" where
  "pcap_step (EvCapture tv stack p) s = do {
     t \<leftarrow> pcap_capture_packet tv stack (Some p) s;
     Some (if captured_packets t = captured_packets s then [] else [(tv, pcap_snaplen s, p)], t) }"
| "pcap_step (EvTurn rs gone) s = map_option (Pair []) (if srv_pc s = PcStream then pcap_stream rs gone s else Some s)"
| "pcap_step (EvMode a b c mode) s = map_option (Pair []) (pcap_set_mode a b c mode s)"
| "pcap_step (EvSnaplen n) s = Some ([], snd (pcap_set_snaplen n s))"
| "pcap_step (EvLink dlt) s = Some ([], pcap_set_link_type dlt s)"

fun pcap_run :: "pcap_event list \<Rightarrow> pcap_state \<Rightarrow> (captured list \<times> pcap_state) option" where
  "pcap_run [] s = Some ([], s)"
| "pcap_run (e # es) s = do {
     (r, t) \<leftarrow> pcap_step e s;
     (rs, u) \<leftarrow> pcap_run es t;
     Some (r @ rs, u) }"

fun event_ok :: "pcap_event \<Rightarrow> bool" where
  "event_ok (EvCapture tv stack p) \<longleftrightarrow> packet_ok p \<and> length stack = 1616"
| "event_ok e \<longleftrightarrow> True"

text \<open>
  The one thing that must not happen: turning the capture on, from off, while bytes for the
  client are still in the buffer; that throws them away.
\<close>

fun keeps_buffer :: "pcap_event \<Rightarrow> pcap_state \<Rightarrow> bool" where
  "keeps_buffer (EvMode a b c mode) s \<longleftrightarrow>
     \<not> (srv_pc s = PcStream \<and> capture_mode s = PCAP_MODE_OFF \<and> mode \<noteq> PCAP_MODE_OFF) \<or> ring_contents (pcap_ring s) = []"
| "keeps_buffer e s \<longleftrightarrow> True"

fun no_restart :: "pcap_event list \<Rightarrow> pcap_state \<Rightarrow> bool" where
  "no_restart [] s \<longleftrightarrow> True"
| "no_restart (e # es) s \<longleftrightarrow> keeps_buffer e s \<and>
     (case pcap_step e s of None \<Rightarrow> True | Some (r, t) \<Rightarrow> no_restart es t)"

definition pcap_ok :: "pcap_state \<Rightarrow> bool" where
  "pcap_ok s \<longleftrightarrow> rb_ok (pcap_ring s) \<and> unat (pcap_snaplen s) \<le> 1600"

text \<open>The bytes on their way to the client: sent and still buffered.\<close>

abbreviation pipeline :: "pcap_state \<Rightarrow> bytes" where
  "pipeline s \<equiv> wire s @ ring_contents (pcap_ring s)"

lemma word_plus_one_neq: "(x :: u32) + 1 \<noteq> x"
  by (metis add_cancel_right_right zero_neq_one)

lemma capture_pipeline:
  assumes "pcap_ok s" "packet_ok p" "length stack = 1616" "pcap_capture_packet tv stack (Some p) s = Some t"
  shows "pcap_ok t \<and> wire t = wire s \<and> srv_pc t = srv_pc s \<and>
    ring_contents (pcap_ring t) = ring_contents (pcap_ring s) @
      (if captured_packets t = captured_packets s then [] else pcap_record tv (pcap_snaplen s) p)"
proof (cases "client_connected s")
  case False
  with assms show ?thesis by (simp add: capture_disconnected)
next
  case True
  obtain ok r where r: "ringbuf_write (pcap_record tv (pcap_snaplen s) p) (pcap_ring s) = Some (ok, r)" "rb_ok r"
    "ring_contents r = (if ok then ring_contents (pcap_ring s) @ pcap_record tv (pcap_snaplen s) p
       else ring_contents (pcap_ring s))"
    using cap.wr_law [of "pcap_ring s" "pcap_record tv (pcap_snaplen s) p"] assms(1)
    unfolding pcap_ok_def by blast
  have "unat (pcap_snaplen s) \<le> 1600" using assms(1) by (simp add: pcap_ok_def)
  from capture_writes_record [OF assms(2) True this assms(3)] assms(4) r show ?thesis
    using assms(1) by (auto simp: pcap_ok_def word_plus_one_neq split: if_splits)
qed

lemma pcap_send_pipeline:
  assumes "pcap_send rs d s = Some t"
  shows "pcap_ring t = pcap_ring s \<and> pcap_snaplen t = pcap_snaplen s \<and> prefix (wire t) (wire s @ d) \<and>
    (srv_pc t = PcStream \<longrightarrow> wire t = wire s @ d)"
  using assms by (auto simp: pcap_send_def split: bind_splits if_splits dest: send_result)

lemma stream_pipeline:
  assumes "pcap_ok s" "pcap_stream rs gone s = Some t"
  shows "pcap_ok t \<and> prefix (wire t) (pipeline s) \<and> (srv_pc t = PcStream \<longrightarrow> pipeline t = pipeline s)"
proof (cases "client_connected s")
  case False
  with assms show ?thesis by (auto simp: pcap_stream_def pcap_ok_def)
next
  case True
  obtain k r where r: "ringbuf_read PCAP_SEND_BUF_SIZE (pcap_ring s) = Some (take k (ring_contents (pcap_ring s)), r)"
    "rb_ok r" "ring_contents r = drop k (ring_contents (pcap_ring s))"
    using cap.rd_law [of "pcap_ring s"] assms(1) unfolding pcap_ok_def by blast
  define c where "c = take k (ring_contents (pcap_ring s))"
  have split: "ring_contents (pcap_ring s) = c @ ring_contents r" by (simp add: c_def r(3))
  show ?thesis
  proof (cases "c = []")
    case True
    then have t: "t = (if gone then s\<lparr>pcap_ring := r, srv_pc := PcDisconnect\<rparr> else s\<lparr>pcap_ring := r\<rparr>)"
      using \<open>client_connected s\<close> assms(2) r(1) by (auto simp: pcap_stream_def c_def Let_def)
    show ?thesis using t True split r(2) assms(1) by (simp add: pcap_ok_def)
  next
    case False
    with \<open>client_connected s\<close> assms(2) r(1) have "pcap_send rs c (s\<lparr>pcap_ring := r\<rparr>) = Some t"
      by (simp add: pcap_stream_def c_def [symmetric])
    from pcap_send_pipeline [OF this] assms(1) r(2) split show ?thesis
      by (auto simp: pcap_ok_def intro: prefix_order.trans [of _ "wire s @ c"])
  qed
qed

text \<open>Nothing that was sent is taken back.\<close>

lemma stream_extends: "pcap_stream rs gone s = Some t \<Longrightarrow> prefix (wire s) (wire t)"
  by (auto simp: pcap_stream_def pcap_send_def Let_def split: bind_splits if_splits)

lemma mode_pipeline:
  assumes "pcap_ok s" "pcap_task_handle s" "pcap_set_mode a b c mode s = Some t"
  shows "pcap_ok t \<and> pcap_task_handle t \<and> wire t = wire s \<and> srv_pc t = srv_pc s \<and>
    ring_contents (pcap_ring t) = (if capture_mode s = PCAP_MODE_OFF \<and> mode \<noteq> PCAP_MODE_OFF then []
      else ring_contents (pcap_ring s))"
proof -
  obtain q where q: "ringbuf_reset (pcap_ring s) = Some q" "rb_ok q" "ring_contents q = []"
    using ringbuf_reset_law assms(1) by (auto simp: pcap_ok_def)
  with assms show ?thesis
    by (cases "capture_mode s = PCAP_MODE_OFF"; cases "mode = PCAP_MODE_OFF")
      (auto simp: pcap_set_mode_def ensure_server_running_def pcap_ok_def)
qed

lemma snaplen_ok: "pcap_ok s \<Longrightarrow> pcap_ok (snd (pcap_set_snaplen n s))"
  by (auto simp: pcap_ok_def pcap_set_snaplen_def PCAP_SNAPLEN_MAX_def word_less_nat_alt)

lemma pcap_step_ok:
  assumes "pcap_ok s" "pcap_task_handle s" "event_ok e" "pcap_step e s = Some (r, t)"
  shows "pcap_ok t \<and> pcap_task_handle t \<and> prefix (wire s) (wire t) \<and> (\<forall>(tv, n, p) \<in> set r. packet_ok p) \<and>
    (srv_pc s \<noteq> PcStream \<longrightarrow> wire t = wire s \<and> srv_pc t = srv_pc s)"
proof (cases e)
  case (EvCapture tv stack p)
  obtain u where u: "pcap_capture_packet tv stack (Some p) s = Some u" "t = u" "\<forall>(tv, n, p') \<in> set r. p' = p"
    using assms(4) by (auto simp: EvCapture split: bind_splits if_splits)
  have ok: "packet_ok p" "length stack = 1616" using assms(3) by (simp_all add: EvCapture)
  have "pcap_task_handle u = pcap_task_handle s"
    using u(1) by (auto simp: pcap_capture_packet_def Let_def split: bind_splits if_splits)
  with capture_pipeline [OF assms(1) ok u(1)] u(2,3) ok assms(2) show ?thesis by auto
next
  case (EvTurn rs gone)
  show ?thesis
  proof (cases "srv_pc s = PcStream")
    case True
    have u: "pcap_stream rs gone s = Some t" "r = []" using assms(4) True by (auto simp: EvTurn)
    have "pcap_task_handle t = pcap_task_handle s"
      using u(1) by (auto simp: pcap_stream_def pcap_send_def Let_def split: bind_splits if_splits)
    with stream_pipeline [OF assms(1) u(1)] stream_extends [OF u(1)] u(2) True assms(2) show ?thesis by simp
  qed (use assms in \<open>auto simp: EvTurn\<close>)
next
  case (EvMode a b c mode)
  then have u: "pcap_set_mode a b c mode s = Some t" "r = []" using assms(4) by auto
  from mode_pipeline [OF assms(1,2) u(1)] u(2) show ?thesis by simp
next
  case (EvSnaplen n)
  with assms snaplen_ok [of s n] show ?thesis by (auto simp: pcap_set_snaplen_def)
next
  case (EvLink dlt)
  with assms show ?thesis by (auto simp: pcap_set_link_type_def pcap_ok_def)
qed

lemma pcap_step_pipeline:
  assumes "pcap_ok s" "pcap_task_handle s" "event_ok e" "pcap_step e s = Some (r, t)" "srv_pc s = PcStream" "keeps_buffer e s"
  shows "prefix (wire t) (pipeline s @ records r) \<and> (srv_pc t = PcStream \<longrightarrow> pipeline t = pipeline s @ records r) \<and>
    (srv_pc t \<noteq> PcStream \<longrightarrow> r = [])"
proof (cases e)
  case (EvCapture tv stack p)
  obtain u where u: "pcap_capture_packet tv stack (Some p) s = Some u" "t = u"
    "r = (if captured_packets u = captured_packets s then [] else [(tv, pcap_snaplen s, p)])"
    using assms(4) by (auto simp: EvCapture split: bind_splits)
  have ok: "packet_ok p" "length stack = 1616" using assms(3) by (simp_all add: EvCapture)
  from capture_pipeline [OF assms(1) ok u(1)] u(2,3) assms(5) show ?thesis by auto
next
  case (EvTurn rs gone)
  then have u: "pcap_stream rs gone s = Some t" "r = []" using assms(4,5) by auto
  from stream_pipeline [OF assms(1) u(1)] u(2) show ?thesis by simp
next
  case (EvMode a b c mode)
  then have u: "pcap_set_mode a b c mode s = Some t" "r = []" using assms(4) by auto
  from mode_pipeline [OF assms(1,2) u(1)] u(2) assms(5,6) EvMode show ?thesis by (auto split: if_splits)
qed (use assms in \<open>auto simp: pcap_set_snaplen_def pcap_set_link_type_def\<close>)

lemma pcap_run_ok:
  assumes "pcap_ok s" "pcap_task_handle s" "\<forall>e \<in> set es. event_ok e" "pcap_run es s = Some (recs, t)"
  shows "pcap_ok t \<and> prefix (wire s) (wire t) \<and> (\<forall>(tv, n, p) \<in> set recs. packet_ok p) \<and>
    (srv_pc s \<noteq> PcStream \<longrightarrow> wire t = wire s \<and> srv_pc t = srv_pc s)"
  using assms
proof (induction es arbitrary: s recs)
  case Nil
  then show ?case by simp
next
  case (Cons e es)
  obtain r u rs where u: "pcap_step e s = Some (r, u)" "pcap_run es u = Some (rs, t)" "recs = r @ rs"
    using Cons.prems(4) by (auto split: bind_splits)
  have e: "event_ok e" "\<forall>e \<in> set es. event_ok e" using Cons.prems(3) by auto
  note st = pcap_step_ok [OF Cons.prems(1,2) e(1) u(1)]
  with Cons.IH [OF _ _ e(2) u(2)] u(3) show ?case by (auto intro: prefix_order.trans)
qed

lemma run_pipeline:
  assumes "pcap_ok s" "pcap_task_handle s" "\<forall>e \<in> set es. event_ok e" "pcap_run es s = Some (recs, t)"
    "srv_pc s = PcStream" "no_restart es s"
  shows "prefix (wire t) (pipeline s @ records recs) \<and> (srv_pc t = PcStream \<longrightarrow> pipeline t = pipeline s @ records recs)"
  using assms
proof (induction es arbitrary: s recs)
  case Nil
  then show ?case by simp
next
  case (Cons e es)
  obtain r u rs where u: "pcap_step e s = Some (r, u)" "pcap_run es u = Some (rs, t)" "recs = r @ rs"
    using Cons.prems(4) by (auto split: bind_splits)
  have e: "event_ok e" "\<forall>e \<in> set es. event_ok e" "keeps_buffer e s" "no_restart es u"
    using Cons.prems(3,6) u(1) by auto
  note ok = pcap_step_ok [OF Cons.prems(1,2) e(1) u(1)] and st = pcap_step_pipeline [OF Cons.prems(1,2) e(1) u(1) Cons.prems(5) e(3)]
  show ?case
  proof (cases "srv_pc u = PcStream")
    case True
    with Cons.IH [OF _ _ e(2) u(2) _ e(4)] ok st u(3) show ?thesis by simp
  next
    case False
    have "wire t = wire u \<and> srv_pc t = srv_pc u" using pcap_run_ok [OF _ _ e(2) u(2)] ok False by blast
    with st False u(3) show ?thesis by (auto intro: prefix_order.trans [of _ "pipeline s"])
  qed
qed

section \<open>Reading the stream back\<close>

text \<open>What a reader of the format does: one record, and all that are complete.\<close>

definition decode_record :: "bytes \<Rightarrow> ((u32 \<times> u32 \<times> u32 \<times> bytes) \<times> bytes) option" where
  "decode_record bs = do {
     ts_sec \<leftarrow> rd32 bs 0; ts_usec \<leftarrow> rd32 bs 4; incl_len \<leftarrow> rd32 bs 8; orig_len \<leftarrow> rd32 bs 12;
     dat \<leftarrow> rd_bytes bs 16 (unat incl_len);
     Some ((ts_sec, ts_usec, orig_len, dat), drop (16 + unat incl_len) bs) }"

lemma decode_record_shorter: "decode_record bs = Some (x, rest) \<Longrightarrow> length rest < length bs"
  by (auto simp: decode_record_def rd32_def rd8_def split: bind_splits if_splits)

function decode_records :: "bytes \<Rightarrow> (u32 \<times> u32 \<times> u32 \<times> bytes) list" where
  "decode_records bs = (case decode_record bs of None \<Rightarrow> [] | Some (x, rest) \<Rightarrow> x # decode_records rest)"
  by pat_completeness auto
termination
  by (relation "measure length") (auto dest: decode_record_shorter)

declare decode_records.simps [simp del]

text \<open>What a record says about its packet.\<close>

fun content_of :: "captured \<Rightarrow> u32 \<times> u32 \<times> u32 \<times> bytes" where
  "content_of (tv, n, p) = (fst tv, snd tv, ucast (tot_len p), take (unat (snapped n p)) (concat (segments p)))"

lemma rd32_le32_bytes: "length a = i \<Longrightarrow> rd32 (a @ le32_bytes x @ r) i = Some x"
  by (simp add: rd32_def rd8_def le32_bytes_def nth_append)

lemma header_fields:
  "rd32 (pcap_packet_header a b c d @ r) 0 = Some a" "rd32 (pcap_packet_header a b c d @ r) 4 = Some b"
  "rd32 (pcap_packet_header a b c d @ r) 8 = Some c" "rd32 (pcap_packet_header a b c d @ r) 12 = Some d"
  using rd32_le32_bytes [of "[]" 0 a "le32_bytes b @ le32_bytes c @ le32_bytes d @ r"]
    rd32_le32_bytes [of "le32_bytes a" 4 b "le32_bytes c @ le32_bytes d @ r"]
    rd32_le32_bytes [of "le32_bytes a @ le32_bytes b" 8 c "le32_bytes d @ r"]
    rd32_le32_bytes [of "le32_bytes a @ le32_bytes b @ le32_bytes c" 12 d r]
  by (simp_all add: pcap_packet_header_def)

lemma unat_ucast_16_32: "unat (ucast (x :: u16) :: u32) = unat x"
proof -
  have "unat x < 65536" using unsigned_less [of x, where ?'a = nat] by simp
  then show ?thesis by (simp add: unsigned_ucast_eq take_bit_nat_eq_self)
qed

lemma decode_one:
  assumes "packet_ok p"
  shows "decode_record (pcap_record tv n p @ r) = Some (content_of (tv, n, p), r)"
proof -
  let ?d = "take (unat (snapped n p)) (concat (segments p))"
  have d: "length ?d = unat (snapped n p)" using snapped_le [OF assms, of n] by simp
  have "rd_bytes (pcap_packet_header a b c e @ ?d @ r) 16 (unat (snapped n p)) = Some ?d" for a b c e
    using d by (simp add: rd_bytes_def)
  with d show ?thesis
    by (simp add: decode_record_def pcap_record_def header_fields unat_ucast_16_32)
qed

text \<open>Reading is not affected by what follows.\<close>

lemma rd32_prefix: "rd32 b i = Some x \<Longrightarrow> rd32 (b @ r) i = Some x"
  by (auto simp: rd32_def rd8_def nth_append split: bind_splits if_splits)

lemma rd_bytes_append: "rd_bytes b i n = Some x \<Longrightarrow> rd_bytes (b @ r) i n = Some x"
  by (auto simp: rd_bytes_def split: if_splits)

lemma decode_append:
  assumes "decode_record b = Some (c, rest)"
  shows "decode_record (b @ r) = Some (c, rest @ r)"
proof -
  obtain ts us n m d where f: "rd32 b 0 = Some ts" "rd32 b 4 = Some us" "rd32 b 8 = Some n" "rd32 b 12 = Some m"
    "rd_bytes b 16 (unat n) = Some d" "c = (ts, us, m, d)" "rest = drop (16 + unat n) b"
    using assms by (auto simp: decode_record_def split: bind_splits)
  from f(5) have "16 + unat n \<le> length b" by (simp add: rd_bytes_def split: if_splits)
  with f show ?thesis by (simp add: decode_record_def rd32_prefix rd_bytes_append)
qed

text \<open>Of an incomplete record nothing is decoded.\<close>

lemma decode_short:
  assumes "packet_ok p" "k < length (pcap_record tv n p)"
  shows "decode_record (take k (pcap_record tv n p)) = None"
proof (rule ccontr)
  assume "decode_record (take k (pcap_record tv n p)) \<noteq> None"
  then obtain c rest where c: "decode_record (take k (pcap_record tv n p)) = Some (c, rest)" by fastforce
  from decode_append [OF c, of "drop k (pcap_record tv n p)"] decode_one [OF assms(1), of tv n "[]"]
  have "rest @ drop k (pcap_record tv n p) = []" by simp
  then show False using assms(2) by simp
qed

lemma decode_prefix:
  assumes "\<forall>(tv, n, p) \<in> set xs. packet_ok p" "prefix w (records xs)"
  shows "prefix (decode_records w) (map content_of xs)"
  using assms
proof (induction xs arbitrary: w)
  case Nil
  then have "w = []" by simp
  then show ?case by (simp add: decode_records.simps [of "[]"] decode_record_def rd32_def rd8_def)
next
  case (Cons x xs)
  obtain tv n p where x: "x = (tv, n, p)" by (cases x)
  have p: "packet_ok p" using Cons.prems(1) x by auto
  show ?case
  proof (cases "decode_record w")
    case None
    then show ?thesis by (simp add: decode_records.simps [of w])
  next
    case (Some a)
    obtain c rest where a: "decode_record w = Some (c, rest)" using Some by (cases a) auto
    obtain z where z: "records (x # xs) = w @ z" using Cons.prems(2) by (auto simp: prefix_def)
    have "length (pcap_record tv n p) \<le> length w"
    proof (rule ccontr)
      assume short: "\<not> length (pcap_record tv n p) \<le> length w"
      then have "w = take (length w) (pcap_record tv n p)" using z x by (simp add: append_eq_append_conv_if)
      
      with decode_short [OF p, of "length w" tv n] a short show False by simp
    qed
    then obtain w' where w': "w = pcap_record tv n p @ w'" using z x
      by (metis append_eq_append_conv_if append_take_drop_id concat.simps(2) list.map(2) record_of.simps)
    then have "c = content_of x" "rest = w'" using a decode_one [OF p, of tv n w'] x by auto
    moreover have "prefix w' (records xs)" using Cons.prems(2) x w' by simp
    ultimately show ?thesis using Cons a by (simp add: decode_records.simps [of w])
  qed
qed

section \<open>Properties\<close>

text \<open>Capturing a packet of any length and any number of segments stays inside the stack buffer
  and stores one record, the time, the two lengths and the first bytes of the packet, or,
  when the ring buffer has no room for all of it, nothing; only a stored one is counted.\<close>

theorem pcap_capture_stores_record:
  assumes "pcap_ok s" "client_connected s" "packet_ok p" "length stack = 1616"
  shows "\<exists>t. pcap_capture_packet tv stack (Some p) s = Some t \<and> pcap_ok t \<and>
    (if ringbuf_data (pcap_ring s) \<noteq> None \<and>
        length (ring_contents (pcap_ring s)) + 16 + unat (snapped (pcap_snaplen s) p) \<le> ringbuf_size (pcap_ring s)
     then ring_contents (pcap_ring t) = ring_contents (pcap_ring s) @ pcap_record tv (pcap_snaplen s) p \<and>
          captured_packets t = captured_packets s + 1
     else ring_contents (pcap_ring t) = ring_contents (pcap_ring s) \<and> captured_packets t = captured_packets s)"
proof -
  let ?r = "pcap_record tv (pcap_snaplen s) p"
  have ok: "rb_ok (pcap_ring s)" "unat (pcap_snaplen s) \<le> 1600" using assms(1) by (simp_all add: pcap_ok_def)
  let ?fits = "ringbuf_data (pcap_ring s) \<noteq> None \<and> length (ring_contents (pcap_ring s)) + length ?r \<le> ringbuf_size (pcap_ring s)"
  obtain r where "ringbuf_write ?r (pcap_ring s) = Some (?fits, r)" "rb_ok r"
    "ring_contents r = (if ?fits then ring_contents (pcap_ring s) @ ?r else ring_contents (pcap_ring s))"
    using ringbuf_write_law [OF ok(1), of ?r] by blast
  with capture_writes_record [OF assms(3,2) ok(2) assms(4), of tv] ok(2) show ?thesis
    by (simp add: length_record [OF assms(3)] pcap_ok_def add.assoc)
qed

definition small_packet :: packet where
  "small_packet = \<lparr>payload = [1, 2], tot_len = 3, chained = [[3]]\<rparr>"

definition serving :: "ringbuf \<Rightarrow> bytes \<Rightarrow> pcap_state" where
  "serving r w = pcap_boot\<lparr>capture_mode := PCAP_MODE_PROMISCUOUS, client_connected := True, client_socket := True,
     pcap_task_handle := True, srv_pc := PcStream, pcap_ring := r, wire := w\<rparr>"

definition empty_ring :: "nat \<Rightarrow> ringbuf" where
  "empty_ring n = \<lparr>ringbuf_data = Some (replicate n 0), ringbuf_size = n, ringbuf_head = 0, ringbuf_tail = 0,
     ringbuf_available = 0, dropped_packets = 0, ringbuf_mutex = MutexFree, data_ready = False\<rparr>"

lemma serving_ok: "0 < n \<Longrightarrow> pcap_ok (serving (empty_ring n) w)"
  by (simp add: pcap_ok_def serving_def empty_ring_def rb_ok_def pcap_boot_def PCAP_SNAPLEN_DEFAULT_def)

lemma small_packet_ok: "packet_ok small_packet"
  by (simp add: packet_ok_def small_packet_def segments_def)

theorem pcap_capture_stores_record_witness:
  "\<exists>t. pcap_capture_packet (7, 8) (replicate 1616 0xAA) (Some small_packet) (serving (empty_ring 40) []) = Some t \<and>
    ring_contents (pcap_ring t) = pcap_record (7, 8) 96 small_packet \<and> captured_packets t = 1"
  using pcap_capture_stores_record [of "serving (empty_ring 40) []" small_packet "replicate 1616 0xAA" "(7, 8)"]
  by (auto simp: serving_ok small_packet_ok)
    (auto simp: serving_def empty_ring_def ring_contents_def ring_read_def pcap_boot_def snapped_def
      small_packet_def PCAP_SNAPLEN_DEFAULT_def)

text \<open>C9: whatever packets arrive, however \<open>send\<close> behaves and whenever mode, snap length and link type
  are set, what the client has received after the global header decodes to a prefix of the stored
  packets, in order and unchanged, and as long as the connection lives, sent and buffered bytes
  together are exactly the header and all the records; provided that the capture is not turned on, from off,
  while bytes for that client are in the buffer.\<close>

theorem pcap_stream_faithful:
  assumes "pcap_ok s" "pcap_task_handle s" "srv_pc s = PcStream" "wire s = create_pcap_global_header s"
    "ring_contents (pcap_ring s) = []" "\<forall>e \<in> set es. event_ok e" "pcap_run es s = Some (xs, t)" "no_restart es s"
  shows "prefix (decode_records (drop 24 (wire t))) (map content_of xs) \<and>
    (srv_pc t = PcStream \<longrightarrow> wire t @ ring_contents (pcap_ring t) = create_pcap_global_header s @ records xs)"
proof -
  note r = run_pipeline [OF assms(1,2,6,7,3,8)] and ok = pcap_run_ok [OF assms(1,2,6,7)]
  have h: "length (create_pcap_global_header s) = 24"
    by (simp add: create_pcap_global_header_def le16_bytes_def)
  have "prefix (wire s) (wire t)" using ok by blast
  then obtain w where w: "wire t = create_pcap_global_header s @ w" using assms(4) by (auto simp: prefix_def)
  with r assms(4,5) have "prefix w (records xs)" by simp
  with decode_prefix [OF _ this] ok r w h assms(4,5) show ?thesis by simp
qed


lemma send_all: "length d \<le> n \<Longrightarrow> send_to_client [SendTook n] d = Some (True, d)"
  by (cases d) auto

definition sample_events :: "pcap_event list" where
  "sample_events = [EvCapture (7, 8) (replicate 1616 0xAA) small_packet, EvSnaplen 1000, EvTurn [SendTook 1024] False,
     EvMode True True True PCAP_MODE_OFF, EvMode True True True PCAP_MODE_ACL_MONITOR]"

lemma sample_run:
  assumes "w = create_pcap_global_header (serving (empty_ring 40) [])"
  shows "\<exists>t. pcap_run sample_events (serving (empty_ring 40) w) = Some ([((7, 8), 96, small_packet)], t) \<and>
    srv_pc t = PcStream \<and> no_restart sample_events (serving (empty_ring 40) w)"
proof -
  let ?s = "serving (empty_ring 40) w" and ?r = "pcap_record (7, 8) 96 small_packet"
  have s: "pcap_snaplen ?s = 96" "client_connected ?s" "pcap_ring ?s = empty_ring 40" "captured_packets ?s = 0"
    "srv_pc ?s = PcStream" "capture_mode ?s = PCAP_MODE_PROMISCUOUS" "pcap_task_handle ?s" "wire ?s = w"
    by (simp_all add: serving_def pcap_boot_def PCAP_SNAPLEN_DEFAULT_def)
  have ok: "rb_ok (empty_ring 40)" "ring_contents (empty_ring 40) = []"
    by (simp_all add: rb_ok_def empty_ring_def ring_contents_def ring_read_def)
  have len: "length ?r = 19"
    using length_record [OF small_packet_ok, of "(7, 8)" 96] by (simp add: snapped_def small_packet_def)
  obtain r where r: "ringbuf_write ?r (empty_ring 40) = Some (True, r)" "rb_ok r" "ring_contents r = ?r" "data_ready r"
    using ringbuf_write_law [OF ok(1), of ?r] ok(2) len by (auto simp: empty_ring_def)
  obtain q where q: "ringbuf_read 1024 r = Some (?r, q)" "rb_ok q" "ring_contents q = []"
    using ringbuf_read_law [OF r(2), of 1024] r(3,4) len by auto
  obtain z where z: "ringbuf_reset q = Some z" using ringbuf_reset_law [OF q(2)] by blast
  let ?t = "?s\<lparr>pcap_ring := r, captured_packets := 1\<rparr>" and ?u = "?s\<lparr>pcap_ring := r, captured_packets := 1, pcap_snaplen := 1000\<rparr>"
  let ?v = "?u\<lparr>pcap_ring := q, wire := w @ ?r, srv_pc := PcStream\<rparr>"
  have 1: "pcap_capture_packet (7, 8) (replicate 1616 0xAA) (Some small_packet) ?s = Some ?t"
    using capture_writes_record [OF small_packet_ok s(2), of "replicate 1616 0xAA"] r(1) s by simp
  have 2: "snd (pcap_set_snaplen 1000 ?t) = ?u" by (simp add: pcap_set_snaplen_def PCAP_SNAPLEN_MAX_def)
  have 3: "pcap_stream [SendTook 1024] False ?u = Some ?v"
  proof -
    have "?r \<noteq> []" using len by auto
    then show ?thesis using q(1) s len send_all [of ?r 1024]
      by (simp add: pcap_stream_def pcap_send_def PCAP_SEND_BUF_SIZE_def Let_def)
  qed
  have 4: "pcap_set_mode True True True PCAP_MODE_OFF ?v = Some (?v\<lparr>capture_mode := PCAP_MODE_OFF\<rparr>)"
    by (simp add: pcap_set_mode_def s)
  have 5: "pcap_set_mode True True True PCAP_MODE_ACL_MONITOR (?v\<lparr>capture_mode := PCAP_MODE_OFF\<rparr>) =
      Some (?v\<lparr>capture_mode := PCAP_MODE_ACL_MONITOR, captured_packets := 0, pcap_ring := z\<rparr>)"
    using z by (simp add: pcap_set_mode_def ensure_server_running_def s)
  show ?thesis
    unfolding sample_events_def using 1 2 3 4 5 s q(3) by (simp del: replicate.simps)
qed

theorem pcap_stream_faithful_witness:
  "\<exists>s t. pcap_run sample_events s = Some ([((7, 8), 96, small_packet)], t) \<and> srv_pc t = PcStream \<and>
     wire s = create_pcap_global_header pcap_boot \<and>
     prefix (decode_records (drop 24 (wire t))) [(7, 8, 3, [1, 2, 3])] \<and>
     wire t @ ring_contents (pcap_ring t) = wire s @ pcap_record (7, 8) 96 small_packet"
proof -
  define w where "w = create_pcap_global_header pcap_boot"
  let ?s = "serving (empty_ring 40) w"
  have f: "srv_pc ?s = PcStream" "wire ?s = w" "create_pcap_global_header ?s = w" "ring_contents (pcap_ring ?s) = []"
    "pcap_task_handle ?s"
    by (simp_all add: serving_def create_pcap_global_header_def empty_ring_def ring_contents_def ring_read_def w_def)
  have "w = create_pcap_global_header (serving (empty_ring 40) [])"
    by (simp add: serving_def create_pcap_global_header_def w_def)
  then obtain t where t: "pcap_run sample_events ?s = Some ([((7, 8), 96, small_packet)], t)" "srv_pc t = PcStream"
    "no_restart sample_events ?s"
    using sample_run by blast
  have e: "\<forall>e \<in> set sample_events. event_ok e"
    by (simp add: sample_events_def small_packet_ok)
  have c: "content_of ((7, 8), 96, small_packet) = (7, 8, 3, [1, 2, 3])"
    by (simp add: snapped_def small_packet_def segments_def)
  have ok: "pcap_ok ?s" by (rule serving_ok) simp
  have "wire ?s = create_pcap_global_header ?s" using f by simp
  from pcap_stream_faithful [OF ok f(5,1) this f(4) e t(1,3)] t(1,2) c f(2,3)
  show ?thesis unfolding w_def [symmetric] by (intro exI [of _ ?s] exI [of _ t]) simp
qed

text \<open>Switching the capture off and on while a client is connected throws the buffered bytes away but
  not what was sent: if a record is half sent, the client gets the next record in the middle of it.\<close>

theorem pcap_toggle_tears_record:
  assumes "pcap_ok s" "srv_pc s = PcStream" "client_connected s" "pcap_task_handle s"
    and "wire s = w @ take k r" "ring_contents (pcap_ring s) = drop k r" "k < length r"
  shows "\<exists>t u. pcap_set_mode a b c PCAP_MODE_OFF s = Some t \<and> pcap_set_mode a b c PCAP_MODE_PROMISCUOUS t = Some u \<and>
    srv_pc u = PcStream \<and> client_connected u \<and> pcap_ok u \<and> wire u = w @ take k r \<and>
    ring_contents (pcap_ring u) = [] \<and> (\<forall>x v. ringbuf_write x (pcap_ring u) = Some (True, v) \<longrightarrow> ring_contents v = x)"
proof -
  obtain q where q: "ringbuf_reset (pcap_ring s) = Some q" "rb_ok q" "ring_contents q = []"
    using ringbuf_reset_law assms(1) by (auto simp: pcap_ok_def)
  have w: "ring_contents v = x" if "ringbuf_write x q = Some (True, v)" for x v
    using cap.wr_law [OF q(2), of x] q(3) that by auto
  show ?thesis
    using assms q w
    by (simp add: pcap_set_mode_def ensure_server_running_def pcap_ok_def)
qed

theorem pcap_toggle_tears_record_witness:
  "\<exists>t u. pcap_set_mode True True True PCAP_MODE_OFF (serving rb_example [9, 8]) = Some t \<and>
     pcap_set_mode True True True PCAP_MODE_PROMISCUOUS t = Some u \<and> wire u = [9, 8] \<and> ring_contents (pcap_ring u) = []"
proof -
  have c: "ring_contents rb_example = drop 1 [8, 4, 1]" by (simp add: rb_example_def ring_contents_def ring_read_def upt_rec)
  have o': "pcap_ok (serving rb_example [9, 8])"
    by (simp add: pcap_ok_def serving_def rb_example_def rb_ok_def pcap_boot_def PCAP_SNAPLEN_DEFAULT_def)
  show ?thesis
    using pcap_toggle_tears_record [OF o', of "[9]" 1 "[8, 4, 1]" True True True] c by (auto simp: serving_def)
qed

text \<open>A task that could not set up its socket is never started again.\<close>

lemma pcap_dead_task_stays:
  assumes "pcap_task_handle s" "srv_pc s = PcDead" "capture_mode s \<noteq> PCAP_MODE_OFF"
  shows "\<exists>t. pcap_set_mode a b c mode s = Some t \<and> srv_pc t = PcDead \<and> pcap_task_handle t \<and> capture_mode t = mode"
  using assms by (simp add: pcap_set_mode_def ensure_server_running_def)

end
