(* ===== verification/Client_Stats.thy ===== *)
theory Client_Stats
  imports Dhcp_Reservations
begin

text \<open>
  The per-client traffic counters and the small display functions of
  \<open>main/netif_hooks.c\<close>: a table with one slot per client of the access point.
\<close>

section \<open>The table\<close>

definition CLIENT_STATS_MAX :: nat where "CLIENT_STATS_MAX = AP_MAX_CONNECTIONS"

record client_stats_entry =
  cs_mac :: mac
  cs_active :: u8
  cs_connected :: u8
  bytes_sent :: u64
  bytes_received :: u64
  packets_sent :: u32
  packets_received :: u32

definition cs_zero :: client_stats_entry where
  "cs_zero = \<lparr>cs_mac = [0, 0, 0, 0, 0, 0], cs_active = 0, cs_connected = 0, bytes_sent = 0,
     bytes_received = 0, packets_sent = 0, packets_received = 0\<rparr>"

definition cs_used :: "client_stats_entry \<Rightarrow> bool" where
  "cs_used e \<longleftrightarrow> cs_active e \<noteq> 0"

definition find_client_stats :: "mac \<Rightarrow> client_stats_entry list \<Rightarrow> nat option" where
  "find_client_stats mac tab = find_first (\<lambda>e. cs_used e \<and> cs_mac e = mac) tab"

text \<open>The search for a slot: the first unused one ends it, the first disconnected one is kept.\<close>

fun stats_slots :: "client_stats_entry list \<Rightarrow> nat \<Rightarrow> nat option \<Rightarrow> nat option \<times> nat option" where
  "stats_slots [] i disconnected_slot = (None, disconnected_slot)"
| "stats_slots (e # es) i disconnected_slot =
     (if \<not> cs_used e then (Some i, disconnected_slot)
      else if cs_connected e = 0 \<and> disconnected_slot = None then stats_slots es (Suc i) (Some i)
      else stats_slots es (Suc i) disconnected_slot)"

definition client_stats_on_connect :: "mac \<Rightarrow> client_stats_entry list \<Rightarrow> client_stats_entry list" where
  "client_stats_on_connect mac tab =
     (case find_client_stats mac tab of
        Some i \<Rightarrow> tab[i := (tab ! i)\<lparr>cs_connected := 1\<rparr>]
      | None \<Rightarrow>
          let (free_slot, disconnected_slot) = stats_slots tab 0 None;
              slot = (if free_slot \<noteq> None then free_slot else disconnected_slot)
          in case slot of None \<Rightarrow> tab
             | Some i \<Rightarrow> tab[i := \<lparr>cs_mac = mac, cs_active = 1, cs_connected = 1, bytes_sent = 0,
                 bytes_received = 0, packets_sent = 0, packets_received = 0\<rparr>])"

definition client_stats_on_disconnect :: "mac \<Rightarrow> client_stats_entry list \<Rightarrow> bool \<times> client_stats_entry list" where
  "client_stats_on_disconnect mac tab =
     (case find_client_stats mac tab of
        None \<Rightarrow> (False, tab)
      | Some i \<Rightarrow> if cs_connected (tab ! i) \<noteq> 0 then (True, tab[i := (tab ! i)\<lparr>cs_connected := 0\<rparr>])
          else (False, tab))"

definition client_stats_get_all :: "int \<Rightarrow> client_stats_entry list \<Rightarrow> client_stats_entry list" where
  "client_stats_get_all max_entries tab = take (nat max_entries) (filter cs_used tab)"

definition client_stats_reset_all :: "client_stats_entry list \<Rightarrow> client_stats_entry list" where
  "client_stats_reset_all tab =
     map (\<lambda>e. if cs_used e then e\<lparr>bytes_sent := 0, bytes_received := 0, packets_sent := 0, packets_received := 0\<rparr>
              else e) tab"

text \<open>The two places in the hooks that count a packet.\<close>

definition count_received :: "mac \<Rightarrow> u16 \<Rightarrow> client_stats_entry list \<Rightarrow> client_stats_entry list" where
  "count_received src_mac len tab =
     (case find_client_stats src_mac tab of None \<Rightarrow> tab
      | Some i \<Rightarrow> tab[i := (tab ! i)\<lparr>bytes_received := bytes_received (tab ! i) + ucast len,
            packets_received := packets_received (tab ! i) + 1\<rparr>])"

definition count_sent :: "mac \<Rightarrow> u16 \<Rightarrow> client_stats_entry list \<Rightarrow> client_stats_entry list" where
  "count_sent dst_mac len tab =
     (case find_client_stats dst_mac tab of None \<Rightarrow> tab
      | Some i \<Rightarrow> tab[i := (tab ! i)\<lparr>bytes_sent := bytes_sent (tab ! i) + ucast len,
            packets_sent := packets_sent (tab ! i) + 1\<rparr>])"

section \<open>Display\<close>

text \<open>\<open>%02lu\<close>.\<close>

definition dec02 :: "nat \<Rightarrow> string" where
  "dec02 n = (if n < 10 then CHR ''0'' # dec_string n else dec_string n)"

text \<open>\<open>snprintf\<close> into a buffer of \<open>n\<close> bytes leaves what \<open>strncpy_trunc\<close> leaves.\<close>

definition format_uptime :: "u32 \<Rightarrow> nat \<Rightarrow> string" where
  "format_uptime seconds buf_len =
     (let days = seconds div 86400; hours = seconds mod 86400 div 3600;
          mins = seconds mod 3600 div 60; secs = seconds mod 60;
          clock = dec02 (unat hours) @ '':'' @ dec02 (unat mins) @ '':'' @ dec02 (unat secs)
      in strncpy_trunc buf_len (if days > 0 then dec_string (unat days) @ ''d '' @ clock else clock))"

definition get_uptime_seconds :: "u64 \<Rightarrow> u32" where
  "get_uptime_seconds timer_us = ucast (timer_us div 1000000)"

text \<open>
  \<open>(double)bytes / unit\<close> printed with one decimal: the conversion keeps 53 bits, the division by
  a power of two is exact, \<open>printf\<close> rounds to the nearest tenth, ties to even.
\<close>

definition round_half_even :: "nat \<Rightarrow> nat \<Rightarrow> nat" where
  "round_half_even a m = (let q = a div m; r = a mod m in if 2 * r > m \<or> (2 * r = m \<and> odd q) then q + 1 else q)"

fun bit_length :: "nat \<Rightarrow> nat" where
  "bit_length n = (if n = 0 then 0 else Suc (bit_length (n div 2)))"

declare bit_length.simps [simp del]

definition to_double :: "u64 \<Rightarrow> nat" where
  "to_double b = (let e = bit_length (unat b) - 53 in round_half_even (unat b) (2 ^ e) * 2 ^ e)"

definition print_tenths :: "u64 \<Rightarrow> nat \<Rightarrow> string" where
  "print_tenths b unit =
     (let t = round_half_even (10 * to_double b) unit in dec_string (t div 10) @ ''.'' @ dec_string (t mod 10))"

definition format_bytes_human :: "u64 \<Rightarrow> nat \<Rightarrow> string" where
  "format_bytes_human b len =
     strncpy_trunc len
       (if b \<ge> 1073741824 then print_tenths b 1073741824 @ '' GB''
        else if b \<ge> 1048576 then print_tenths b 1048576 @ '' MB''
        else if b \<ge> 1024 then print_tenths b 1024 @ '' KB''
        else dec_string (unat b) @ '' B'')"

text \<open>\<open>format_boot_time\<close>: \<open>now\<close> is \<open>time()\<close>, \<open>local\<close> the broken-down local time of an instant.\<close>

record tm =
  tm_year :: int
  tm_mon :: nat
  tm_mday :: nat
  tm_hour :: nat
  tm_min :: nat
  tm_sec :: nat

definition dec04 :: "int \<Rightarrow> string" where
  "dec04 n = (let ds = dec_string (nat \<bar>n\<bar>); w = (if n < 0 then 3 else 4) in
     (if n < 0 then ''-'' else []) @ replicate (w - length ds) (CHR ''0'') @ ds)"

definition format_boot_time :: "int \<Rightarrow> u64 \<Rightarrow> (int \<Rightarrow> tm) \<Rightarrow> nat \<Rightarrow> string" where
  "format_boot_time now timer_us local buf_len =
     (if now < 100000 then strncpy_trunc buf_len ''unknown''
      else let t = local (now - int (unat (get_uptime_seconds timer_us))) in
        strncpy_trunc buf_len (dec04 (tm_year t + 1900) @ ''-'' @ dec02 (tm_mon t + 1) @ ''-'' @ dec02 (tm_mday t) @
          '' '' @ dec02 (tm_hour t) @ '':'' @ dec02 (tm_min t) @ '':'' @ dec02 (tm_sec t)))"

section \<open>One slot per client\<close>

interpretation cst: keyed_slots cs_used cs_mac "\<lambda>e. cs_zero"
  by unfold_locales (simp add: cs_used_def cs_zero_def)

abbreviation stats_of :: "client_stats_entry list \<Rightarrow> mac \<Rightarrow> client_stats_entry option" where
  "stats_of tab \<equiv> tab_lookup cs_used cs_mac tab"

lemma find_stats_conv: "stats_of tab mac = map_option ((!) tab) (find_client_stats mac tab)"
  by (simp add: tab_lookup_def find_client_stats_def)

lemma map_option_plus [simp]:
  "map_option ((+) (0::nat)) x = x" "map_option ((+) (Suc i)) x = map_option (\<lambda>k. Suc (i + k)) x"
  by (cases x; simp)+

text \<open>What the search yields: an unused slot if there is one, else a disconnected one.\<close>

lemma stats_slots_spec:
  "stats_slots es i d = (a, b) \<Longrightarrow>
     a = map_option ((+) i) (find_first (\<lambda>e. \<not> cs_used e) es) \<and>
     (a = None \<longrightarrow> b = (if d \<noteq> None then d
        else map_option ((+) i) (find_first (\<lambda>e. cs_used e \<and> cs_connected e = 0) es)))"
proof (induction es i d rule: stats_slots.induct)
  case (2 e es i d)
  then show ?case by (auto simp: option.map_comp o_def split: if_splits)
qed simp

definition chosen_slot :: "client_stats_entry list \<Rightarrow> nat option" where
  "chosen_slot tab = (case find_first (\<lambda>e. \<not> cs_used e) tab of Some i \<Rightarrow> Some i
     | None \<Rightarrow> find_first (\<lambda>e. cs_connected e = 0) tab)"

definition fresh_stats :: "mac \<Rightarrow> client_stats_entry" where
  "fresh_stats mac = \<lparr>cs_mac = mac, cs_active = 1, cs_connected = 1, bytes_sent = 0,
     bytes_received = 0, packets_sent = 0, packets_received = 0\<rparr>"

lemma on_connect_conv:
  "client_stats_on_connect mac tab =
     (case find_client_stats mac tab of
        Some i \<Rightarrow> tab[i := (tab ! i)\<lparr>cs_connected := 1\<rparr>]
      | None \<Rightarrow> (case chosen_slot tab of None \<Rightarrow> tab | Some i \<Rightarrow> tab[i := fresh_stats mac]))"
proof -
  obtain a b where ab: "stats_slots tab 0 None = (a, b)" by (cases "stats_slots tab 0 None")
  from stats_slots_spec [OF ab] have a: "a = find_first (\<lambda>e. \<not> cs_used e) tab"
    and b: "a = None \<longrightarrow> b = find_first (\<lambda>e. cs_used e \<and> cs_connected e = 0) tab" by simp_all
  have "(if a \<noteq> None then a else b) = chosen_slot tab"
  proof (cases a)
    case None
    then have "\<forall>e \<in> set tab. cs_used e" using a by (simp add: find_first_None)
    then have "find_first (\<lambda>e. cs_used e \<and> cs_connected e = 0) tab = find_first (\<lambda>e. cs_connected e = 0) tab"
      by (intro find_first_cong) auto
    with None a b show ?thesis by (simp add: chosen_slot_def)
  next
    case (Some i)
    with a have "find_first (\<lambda>e. \<not> cs_used e) tab = Some i" by simp
    with Some show ?thesis by (simp add: chosen_slot_def)
  qed
  then show ?thesis
    by (simp add: client_stats_on_connect_def ab fresh_stats_def split: option.split)
qed

text \<open>Replacing the entry in a slot: the old client is gone, the new one is there.\<close>

lemma stats_of_replace:
  assumes "tab_distinct cs_used cs_mac tab" "stats_of tab mac = None" "i < length tab" "cs_used e" "cs_mac e = mac"
  shows "stats_of (tab[i := e]) =
      (if cs_used (tab ! i) then (stats_of tab)(cs_mac (tab ! i) := None) else stats_of tab)(mac \<mapsto> e) \<and>
    tab_distinct cs_used cs_mac (tab[i := e])"
proof (cases "cs_used (tab ! i)")
  case False
  with assms show ?thesis using cst.lookup_insert [of tab mac i e] cst.distinct_insert [of tab e i] by simp
next
  case True
  let ?t = "tab[i := cs_zero]"
  have "find_first (\<lambda>e. cs_used e \<and> cs_mac e = cs_mac (tab ! i)) tab = Some i"
  proof -
    have "\<not> (cs_used (tab ! j) \<and> cs_mac (tab ! j) = cs_mac (tab ! i))" if "j < i" for j
      using cst.distinct_unique [OF assms(1), of j i] that assms(3) True by auto
    then show ?thesis using True assms(3) by (simp add: find_first_Some)
  qed
  from cst.lookup_delete [OF assms(1) this] have d: "stats_of ?t = (stats_of tab)(cs_mac (tab ! i) := None)" .
  have "tab_distinct cs_used cs_mac ?t" using cst.distinct_delete [OF assms(1), of i] .
  moreover have "stats_of ?t mac = None" using d assms(2) by simp
  moreover have "\<not> cs_used (?t ! i)" using assms(3) by (simp add: cs_used_def cs_zero_def)
  ultimately show ?thesis
    using cst.lookup_insert [of ?t mac i e] cst.distinct_insert [of ?t e i] assms d True by simp
qed

text \<open>Updating an entry in place.\<close>

lemma stats_of_update:
  assumes "tab_distinct cs_used cs_mac tab" "find_client_stats mac tab = Some i" "cs_used e" "cs_mac e = mac"
  shows "stats_of (tab[i := e]) = (stats_of tab)(mac \<mapsto> e) \<and> tab_distinct cs_used cs_mac (tab[i := e])"
  using cst.lookup_replace [of mac tab i e] cst.distinct_replace [OF assms(1), of i e] assms(2-4)
    find_first_SomeD [OF assms(2) [unfolded find_client_stats_def]]
  by (simp add: find_client_stats_def)

lemma find_stats_Some:
  "find_client_stats mac tab = Some i \<Longrightarrow> i < length tab \<and> cs_used (tab ! i) \<and> cs_mac (tab ! i) = mac \<and>
     stats_of tab mac = Some (tab ! i)"
  by (auto simp: find_stats_conv) (auto simp: find_client_stats_def dest: find_first_SomeD)

text \<open>The table is full of connected clients exactly if no slot can be chosen.\<close>

lemma chosen_slot_None: "chosen_slot tab = None \<longleftrightarrow> (\<forall>e \<in> set tab. cs_used e \<and> cs_connected e \<noteq> 0)"
proof (cases "find_first (\<lambda>e. \<not> cs_used e) tab")
  case None
  then have "chosen_slot tab = find_first (\<lambda>e. cs_connected e = 0) tab" by (simp add: chosen_slot_def)
  moreover have "\<forall>e \<in> set tab. cs_used e" using None by (simp add: find_first_None)
  ultimately show ?thesis by (auto simp: find_first_None)
next
  case (Some i)
  then have "tab ! i \<in> set tab" "\<not> cs_used (tab ! i)" by (auto dest: find_first_SomeD)
  with Some show ?thesis by (auto simp: chosen_slot_def)
qed

lemma chosen_slot_Some:
  assumes "chosen_slot tab = Some i"
  shows "i < length tab \<and> (cs_used (tab ! i) \<longrightarrow> cs_connected (tab ! i) = 0 \<and> (\<forall>e \<in> set tab. cs_used e))"
  using assms
  by (auto simp: chosen_slot_def find_first_None split: option.splits dest: find_first_SomeD)

text \<open>A client that connects is counted from then on: its counters go on if it is known, and
  start at zero if a slot is unused or was left by a disconnected client; the counters of a
  client that is connected are never given up, and no client gets a second slot.\<close>

theorem stats_connect:
  assumes "tab_distinct cs_used cs_mac tab" "t = client_stats_on_connect mac tab"
  shows "tab_distinct cs_used cs_mac t \<and> length t = length tab \<and>
    (\<forall>e. stats_of tab mac = Some e \<longrightarrow> stats_of t = (stats_of tab)(mac \<mapsto> e\<lparr>cs_connected := 1\<rparr>)) \<and>
    (stats_of tab mac = None \<longrightarrow>
       (if \<forall>e \<in> set tab. cs_used e \<and> cs_connected e \<noteq> 0 then t = tab
        else stats_of t mac = Some (fresh_stats mac) \<and>
          (\<forall>m e. m \<noteq> mac \<longrightarrow> stats_of tab m = Some e \<longrightarrow> cs_connected e \<noteq> 0 \<longrightarrow> stats_of t m = Some e) \<and>
          (length (filter cs_used tab) < length tab \<longrightarrow> stats_of t = (stats_of tab)(mac \<mapsto> fresh_stats mac))))"
proof (cases "find_client_stats mac tab")
  case (Some i)
  have "cs_used ((tab ! i)\<lparr>cs_connected := 1\<rparr>)" "cs_mac ((tab ! i)\<lparr>cs_connected := 1\<rparr>) = mac"
    using find_stats_Some [OF Some] by (simp_all add: cs_used_def)
  from stats_of_update [OF assms(1) Some this] find_stats_Some [OF Some] Some assms(2) show ?thesis
    by (simp add: on_connect_conv)
next
  case None
  then have new: "stats_of tab mac = None" by (simp add: find_stats_conv)
  show ?thesis
  proof (cases "chosen_slot tab")
    case None
    with \<open>find_client_stats mac tab = None\<close> new assms show ?thesis
      using chosen_slot_None [of tab] by (simp add: on_connect_conv)
  next
    case (Some i)
    note i = chosen_slot_Some [OF Some]
    have t: "t = tab[i := fresh_stats mac]" using None Some assms(2) by (simp add: on_connect_conv)
    have f: "cs_used (fresh_stats mac)" "cs_mac (fresh_stats mac) = mac" by (simp_all add: fresh_stats_def cs_used_def)
    note r = stats_of_replace [OF assms(1) new conjunct1 [OF i] f]
    have u: "\<not> cs_used (tab ! i)" if "length (filter cs_used tab) < length tab"
      using i that length_filter_full [of cs_used tab] by auto
    have k: "stats_of t m = Some e" if "m \<noteq> mac" "stats_of tab m = Some e" "cs_connected e \<noteq> 0" for m e
    proof (cases "cs_used (tab ! i) \<and> m = cs_mac (tab ! i)")
      case True
      then have "e = tab ! i" using cst.lookup_distinct [OF assms(1), of "tab ! i"] i that(2) by simp
      with i True that(3) show ?thesis by simp
    next
      case False
      with r that t show ?thesis by (auto split: if_splits)
    qed
    have no: "(\<forall>e \<in> set tab. cs_used e \<and> cs_connected e \<noteq> 0) = False"
      using chosen_slot_None [of tab] Some by simp
    have "stats_of t mac = Some (fresh_stats mac)" using r t by simp
    moreover have "stats_of t = (stats_of tab)(mac \<mapsto> fresh_stats mac)" if "length (filter cs_used tab) < length tab"
      using u [OF that] r t by simp
    ultimately show ?thesis using conjunct2 [OF r] t new k unfolding no by simp
  qed
qed

theorem stats_connect_witness:
  "stats_of (client_stats_on_connect [2, 0, 0, 0, 0, 1] (replicate CLIENT_STATS_MAX cs_zero)) [2, 0, 0, 0, 0, 1] =
     Some (fresh_stats [2, 0, 0, 0, 0, 1])"
  using stats_connect [of "replicate CLIENT_STATS_MAX cs_zero" _ "[2, 0, 0, 0, 0, 1]", OF _ refl]
  by (simp add: tab_distinct_def cs_used_def cs_zero_def CLIENT_STATS_MAX_def AP_MAX_CONNECTIONS_def
      cst.lookup_None_iff)

end
