(* ===== verification/Packet_Rewrite.thy ===== *)
theory Packet_Rewrite
  imports Dhcp_Reservations
begin

text \<open>
  The packet rewriting of \<open>main/netif_hooks.c\<close>: the TTL override, the MSS clamp and the ICMP
  message for packets that do not fit the path MTU.  A function works on the bytes of the
  first segment of a packet; \<open>None\<close> is an access outside it.
\<close>

text \<open>\<open>sizeof(struct ip_hdr)\<close>.\<close>

definition IP_HDR_SIZE :: nat where "IP_HDR_SIZE = 20"

section \<open>Incremental checksum update (RFC 1624)\<close>

text \<open>\<open>while (sum >> 16) sum = (sum & 0xFFFF) + (sum >> 16)\<close>.\<close>

lemma unat_drop_bit_16: "unat (drop_bit 16 (s :: u32)) = unat s div 65536"
proof -
  have "unat s < 4294967296" using unsigned_less [of s, where ?'a = nat] by simp
  then show ?thesis unfolding unsigned_drop_bit_eq by (simp add: drop_bit_eq_div take_bit_nat_eq_self)
qed

lemma fold_step_less:
  fixes s :: u32
  assumes "drop_bit 16 s \<noteq> 0"
  shows "unat ((s AND 0xFFFF) + drop_bit 16 s) = unat s mod 65536 + unat s div 65536"
    and "unat s mod 65536 + unat s div 65536 < unat s"
proof -
  have m: "s AND 0xFFFF = take_bit 16 s"
    by (simp add: take_bit_eq_mask mask_eq_exp_minus_1)
  have a: "unat (s AND 0xFFFF) = unat s mod 65536" unfolding m unsigned_take_bit_eq by (simp add: take_bit_eq_mod)
  have b: "unat (drop_bit 16 s) = unat s div 65536" by (rule unat_drop_bit_16)
  have lt: "unat s < 4294967296" using unsigned_less [of s, where ?'a = nat] by simp
  have "unat s mod 65536 + unat s div 65536 < 2 ^ LENGTH(32)" using lt by simp
  then show "unat ((s AND 0xFFFF) + drop_bit 16 s) = unat s mod 65536 + unat s div 65536"
    using a b by (simp add: unat_word_ariths)
  have "unat s div 65536 \<noteq> 0" using assms b by (metis unsigned_0 word_unat_eq_iff)
  then have "0 < unat s div 65536" by simp
  moreover have "unat s = 65536 * (unat s div 65536) + unat s mod 65536" by simp
  ultimately show "unat s mod 65536 + unat s div 65536 < unat s" by linarith
qed

function fold_sum :: "u32 \<Rightarrow> u32" where
  "fold_sum s = (if drop_bit 16 s \<noteq> 0 then fold_sum ((s AND 0xFFFF) + drop_bit 16 s) else s)"
  by pat_completeness auto
termination
  by (relation "measure unat") (use fold_step_less in auto)

declare fold_sum.simps [simp del]

text \<open>\<open>HC' = ~(~HC + ~m + m')\<close>; the values are 16-bit loads from the packet.\<close>

definition chksum_update :: "u16 \<Rightarrow> u16 \<Rightarrow> u16 \<Rightarrow> u16" where
  "chksum_update hc m m' = NOT (ucast (fold_sum (ucast (NOT hc) + ucast (NOT m) + ucast m')))"

section \<open>TTL override\<close>

text \<open>On an IPv4 header at offset \<open>off\<close>: the TTL is its byte 8, the checksum its word at 10.\<close>

definition set_ttl :: "u8 \<Rightarrow> nat \<Rightarrow> bytes \<Rightarrow> bytes option" where
  "set_ttl ttl off pl = do {
     old_ttl_proto \<leftarrow> rd16 pl (off + 8);
     pl \<leftarrow> wr_bytes pl (off + 8) [ttl];
     new_ttl_proto \<leftarrow> rd16 pl (off + 8);
     hc \<leftarrow> rd16 pl (off + 10);
     wr_bytes pl (off + 10) (le16_bytes (chksum_update hc old_ttl_proto new_ttl_proto)) }"

text \<open>For an Ethernet frame and, on a PPP interface, for a bare IP packet.\<close>

definition ttl_override_eth :: "u8 \<Rightarrow> bytes \<Rightarrow> bytes option" where
  "ttl_override_eth ttl pl =
     (if ttl > 0 \<and> length pl \<ge> 14 + IP_HDR_SIZE then do {
        b12 \<leftarrow> rd8 pl 12; b13 \<leftarrow> rd8 pl 13;
        if b12 = 0x08 \<and> b13 = 0x00 then do {
          vhl \<leftarrow> rd8 pl 14;
          if drop_bit 4 vhl = 4 then set_ttl ttl 14 pl else Some pl }
        else Some pl }
      else Some pl)"

definition ttl_override_ip :: "u8 \<Rightarrow> bytes \<Rightarrow> bytes option" where
  "ttl_override_ip ttl pl =
     (if ttl > 0 \<and> length pl \<ge> IP_HDR_SIZE then do {
        vhl \<leftarrow> rd8 pl 0;
        if drop_bit 4 vhl = 4 then set_ttl ttl 0 pl else Some pl }
      else Some pl)"

section \<open>MSS clamp\<close>

text \<open>
  The loop over the TCP options between \<open>opt\<close> and \<open>opt_end\<close>, up to the value of an MSS option:
  \<open>Some (Some q)\<close> is its offset, \<open>Some None\<close>: there is none.
\<close>

function mss_find :: "bytes \<Rightarrow> nat \<Rightarrow> nat \<Rightarrow> nat option option" where
  "mss_find pl opt opt_end =
     (if \<not> opt < opt_end then Some None
      else case rd8 pl opt of None \<Rightarrow> None
      | Some kind \<Rightarrow>
          if kind = 0 then Some None
          else if kind = 1 then mss_find pl (opt + 1) opt_end
          else if opt + 1 \<ge> opt_end then Some None
          else case rd8 pl (opt + 1) of None \<Rightarrow> None
          | Some opt_len \<Rightarrow>
              if opt_len < 2 \<or> opt + unat opt_len > opt_end then Some None
              else if kind = 2 \<and> opt_len = 4 then Some (Some (opt + 2))
              else mss_find pl (opt + unat opt_len) opt_end)"
  by pat_completeness auto
termination
  by (relation "measure (\<lambda>(pl, opt, opt_end). opt_end - opt)")
    (auto simp: word_less_nat_alt not_less)

declare mss_find.simps [simp del]

text \<open>The update of the option at \<open>q\<close> and of the checksum of the TCP header at \<open>tcp\<close>.\<close>

definition set_mss :: "u16 \<Rightarrow> nat \<Rightarrow> nat \<Rightarrow> bytes \<Rightarrow> bytes option" where
  "set_mss max_mss tcp q pl = do {
     old_mss_net \<leftarrow> rd16 pl q;
     if ntohs old_mss_net > max_mss then do {
       pl \<leftarrow> wr_bytes pl q (le16_bytes (htons max_mss));
       hc \<leftarrow> rd16 pl (tcp + 16);
       wr_bytes pl (tcp + 16) (le16_bytes (chksum_update hc old_mss_net (htons max_mss))) }
     else Some pl }"

definition clamp_tcp_mss :: "u16 \<Rightarrow> bytes \<Rightarrow> bytes option" where
  "clamp_tcp_mss max_mss pl =
     (if max_mss = 0 then Some pl
      else if length pl < 14 + 20 + 20 then Some pl
      else do {
        b12 \<leftarrow> rd8 pl 12; b13 \<leftarrow> rd8 pl 13;
        if b12 \<noteq> 0x08 \<or> b13 \<noteq> 0x00 then Some pl
        else do {
          vhl \<leftarrow> rd8 pl 14; proto \<leftarrow> rd8 pl 23;
          if drop_bit 4 vhl \<noteq> 4 \<or> proto \<noteq> PROTO_TCP then Some pl
          else let ip_hdr_len = unat (vhl AND 0x0F) * 4 in
            if length pl < 14 + ip_hdr_len + 20 then Some pl
            else let tcp = 14 + ip_hdr_len in do {
              flags \<leftarrow> rd8 pl (tcp + 13);
              if flags AND 0x02 = 0 then Some pl
              else do {
                dataofs \<leftarrow> rd8 pl (tcp + 12);
                let tcp_hdr_len = unat (drop_bit 4 dataofs) * 4 in
                if tcp_hdr_len < 20 \<or> length pl < 14 + ip_hdr_len + tcp_hdr_len then Some pl
                else do {
                  found \<leftarrow> mss_find pl (tcp + 20) (tcp + tcp_hdr_len);
                  case found of None \<Rightarrow> Some pl | Some q \<Rightarrow> set_mss max_mss tcp q pl } } } } })"

section \<open>ICMP fragmentation needed\<close>

definition IP_DF :: u16 where "IP_DF = 0x4000"
definition IP_OFFMASK :: u16 where "IP_OFFMASK = 0x1FFF"

text \<open>
  The reply frame, its fields in order.  \<open>chk\<close> is lwIP's \<open>inet_chksum\<close>, \<open>my_ap_ip\<close> the address
  of the access point, \<open>ip\<close> the offending packet from its IP header on, \<open>quoted\<close> its header and
  up to eight bytes more.
\<close>

definition icmp_ip_header :: "(bytes \<Rightarrow> u16) \<Rightarrow> u32 \<Rightarrow> u16 \<Rightarrow> bytes \<Rightarrow> bytes" where
  "icmp_ip_header chk my_ap_ip new_ip_len dest =
     (let a = [0x45, 0] @ le16_bytes (htons new_ip_len) @ [0, 0, 0, 0, 64, 1];
          b = le32_bytes my_ap_ip @ dest
      in a @ le16_bytes (chk (a @ [0, 0] @ b)) @ b)"

definition icmp_message :: "(bytes \<Rightarrow> u16) \<Rightarrow> u16 \<Rightarrow> bytes \<Rightarrow> bytes" where
  "icmp_message chk mtu quoted =
     (let b = [0, 0, ucast (drop_bit 8 mtu), ucast (mtu AND 0xFF)] @ quoted
      in [3, 4] @ le16_bytes (chk ([3, 4] @ [0, 0] @ b)) @ b)"

text \<open>
  The whole function; \<open>Some None\<close>: nothing is sent.  \<open>can_send\<close>: the hooks of the access point
  are installed and there is an interface; \<open>alloc_ok\<close>: the pbuf of the reply could be had.
\<close>

definition send_icmp_frag_needed ::
  "(bytes \<Rightarrow> u16) \<Rightarrow> bool \<Rightarrow> bool \<Rightarrow> u32 \<Rightarrow> u16 \<Rightarrow> bytes \<Rightarrow> bytes option option" where
  "send_icmp_frag_needed chk can_send alloc_ok my_ap_ip mtu pl =
     (if \<not> can_send then Some None
      else if length pl < 14 + 20 then Some None
      else do {
        b12 \<leftarrow> rd8 pl 12; b13 \<leftarrow> rd8 pl 13;
        if b12 \<noteq> 0x08 \<or> b13 \<noteq> 0x00 then Some None
        else do {
          vhl \<leftarrow> rd8 pl 14;
          if drop_bit 4 vhl \<noteq> 4 then Some None
          else do {
            ip_len \<leftarrow> rd16 pl (14 + 2);
            if ntohs ip_len \<le> mtu then Some None
            else do {
              off \<leftarrow> rd16 pl (14 + 6);
              proto \<leftarrow> rd8 pl (14 + 9);
              if ntohs off AND IP_DF = 0 then Some None
              else if ntohs off AND IP_OFFMASK \<noteq> 0 then Some None
              else if proto = 1 then Some None
              else let orig_ihl = unat (vhl AND 0x0F) * 4 in
                if orig_ihl < 20 \<or> orig_ihl > 60 then Some None
                else if length pl < 14 + orig_ihl then Some None
                else let avail_data = min 8 (length pl - 14 - orig_ihl);
                         icmp_total = 4 + (4 + orig_ihl + avail_data);
                         new_ip_len = 20 + icmp_total in
                  if \<not> alloc_ok then Some None
                  else do {
                    src_mac \<leftarrow> rd_bytes pl 6 6; dst_mac \<leftarrow> rd_bytes pl 0 6;
                    src \<leftarrow> rd_bytes pl (14 + 12) 4;
                    hdr \<leftarrow> rd_bytes pl 14 orig_ihl;
                    dat \<leftarrow> rd_bytes pl (14 + orig_ihl) avail_data;
                    Some (Some (src_mac @ dst_mac @ [0x08, 0x00] @
                      icmp_ip_header chk my_ap_ip (word_of_nat new_ip_len) src @
                      icmp_message chk mtu (hdr @ dat))) } } } } })"

end
