(* ===== verification/Packet_Checksum.thy ===== *)
theory Packet_Checksum
  imports Packet_Rewrite
begin

text \<open>
  The Internet checksum under the rewriting of packets: what the incremental update computes,
  and that the TTL override, the MSS clamp and the ICMP reply leave valid checksums (the clamp
  only for an option at an even offset).
\<close>

section \<open>The sum of the 16-bit words\<close>

text \<open>
  The sum of the words of a buffer, each read in memory order.  Modulo 65535 it is the one's
  complement sum up to a rotation of its bytes, so a block that includes its own checksum is
  valid if and only if the sum is a multiple of 65535 (and not 0).
\<close>

definition byte_weight :: "nat \<Rightarrow> nat" where
  "byte_weight i = (if even i then 1 else 256)"

definition words_sum :: "bytes \<Rightarrow> nat" where
  "words_sum bs = (\<Sum>i<length bs. unat (bs ! i) * byte_weight i)"

lemma words_sum_update:
  assumes "i < length bs"
  shows "words_sum (bs[i := v]) + unat (bs ! i) * byte_weight i = words_sum bs + unat v * byte_weight i"
proof -
  have r: "(\<Sum>j\<in>{..<length bs} - {i}. unat (bs[i := v] ! j) * byte_weight j) =
      (\<Sum>j\<in>{..<length bs} - {i}. unat (bs ! j) * byte_weight j)"
    by (intro sum.cong) auto
  have "words_sum (bs[i := v]) = unat v * byte_weight i + (\<Sum>j\<in>{..<length bs} - {i}. unat (bs ! j) * byte_weight j)"
    using assms r by (simp add: words_sum_def sum.remove [of "{..<length bs}" i])
  moreover have "words_sum bs = unat (bs ! i) * byte_weight i + (\<Sum>j\<in>{..<length bs} - {i}. unat (bs ! j) * byte_weight j)"
    using assms by (simp add: words_sum_def sum.remove [of "{..<length bs}" i])
  ultimately show ?thesis by simp
qed

lemma sum_lessThan_add: "(\<Sum>i<m + n. f i) = (\<Sum>i<m. f i) + (\<Sum>i<n. f (m + i))" for f :: "nat \<Rightarrow> nat"
  by (induction n) auto

lemma words_sum_append:
  assumes "even (length xs)"
  shows "words_sum (xs @ ys) = words_sum xs + words_sum ys"
proof -
  have "(\<Sum>i<length xs + length ys. unat ((xs @ ys) ! i) * byte_weight i) =
      (\<Sum>i<length xs. unat ((xs @ ys) ! i) * byte_weight i) +
      (\<Sum>i<length ys. unat ((xs @ ys) ! (length xs + i)) * byte_weight (length xs + i))"
    by (rule sum_lessThan_add)
  also have "\<dots> = words_sum xs + words_sum ys"
    using assms by (simp add: words_sum_def byte_weight_def nth_append)
  finally show ?thesis by (simp add: words_sum_def)
qed

lemma words_sum_Nil [simp]: "words_sum [] = 0"
  by (simp add: words_sum_def)

lemma words_sum_two: "words_sum [a, b] = unat (le16 a b)"
  by (simp add: words_sum_def byte_weight_def unat_le16 numeral_2_eq_2)

lemma words_sum_Cons2: "words_sum (a # b # bs) = unat a + 256 * unat b + words_sum bs"
  using words_sum_append [of "[a, b]" bs] words_sum_two [of a b] by (simp add: unat_le16)

lemma words_sum_le16_bytes: "words_sum (le16_bytes x) = unat x"
proof -
  have "le16_bytes x = [ucast x, ucast (drop_bit 8 x)]" by (simp add: le16_bytes_def)
  then have "words_sum (le16_bytes x) = unat (le16 (ucast x) (ucast (drop_bit 8 x)))"
    by (simp only: words_sum_two)
  then show ?thesis by simp
qed

section \<open>The incremental update\<close>

lemma unat_not_u16: "unat (NOT x :: u16) = 65535 - unat x"
proof -
  have "NOT x = (- 1) - x" by (simp add: not_eq_complement)
  moreover have "x \<le> - 1" by simp
  ultimately have "unat (NOT x) = unat (- 1 :: u16) - unat x" by (simp add: unat_sub)
  moreover have "unat (- 1 :: u16) = 65535" by (simp add: unsigned_minus_1_eq_mask mask_eq_exp_minus_1)
  ultimately show ?thesis by simp
qed

lemma fold_sum_result:
  "unat (fold_sum s) < 65536 \<and> unat (fold_sum s) mod 65535 = unat s mod 65535"
proof (induction s rule: fold_sum.induct)
  case (1 s)
  show ?case
  proof (cases "drop_bit 16 s = 0")
    case True
    have "unat s div 65536 = 0" using True unat_drop_bit_16 [of s] by simp
    with True show ?thesis by (simp add: fold_sum.simps [of s] div_eq_0_iff)
  next
    case False
    have "(unat s mod 65536 + unat s div 65536) mod 65535 = unat s mod 65535"
    proof -
      have "unat s = unat s mod 65536 + unat s div 65536 + 65535 * (unat s div 65536)"
        using div_mult_mod_eq [of "unat s" 65536] by linarith
      then show ?thesis by (metis mod_mult_self2)
    qed
    with 1 False fold_step_less(1) [OF False] show ?thesis by (simp add: fold_sum.simps [of s])
  qed
qed

lemma mod_shift: "a + n * i = b + n * j \<Longrightarrow> a mod n = b mod n" for a n i b j :: nat
  by (metis mod_mult_self2)

lemma complement_sum:
  fixes f h m n :: nat
  assumes "f < 65536" "f mod 65535 = ((65535 - h) + (65535 - m) + n) mod 65535" "h < 65536" "m < 65536"
  shows "((65535 - f) + n) mod 65535 = (h + m) mod 65535"
proof -
  define k r where "k = ((65535 - h) + (65535 - m) + n) div 65535" and "r = f mod 65535"
  have "(65535 - h) + (65535 - m) + n = 65535 * k + r" unfolding k_def r_def assms(2) by simp
  then have e: "131070 + n = 65535 * k + r + h + m" using assms(3,4) by linarith
  have "f = 65535 \<and> r = 0 \<or> f = r" using assms(1) unfolding r_def by (cases "f = 65535") auto
  then have "65535 - f + n + 65535 = (h + m) + 65535 * k \<or> 65535 - f + n + 2 * 65535 = (h + m) + 65535 * k"
    using e assms(1) by linarith
  then show ?thesis
    using mod_shift [of "65535 - f + n" 65535 1 "h + m" k] mod_shift [of "65535 - f + n" 65535 2 "h + m" k] by auto
qed

text \<open>Modulo 65535 the new checksum makes up for the change of the word.\<close>

lemma chksum_update_sum:
  "(unat (chksum_update hc m m') + unat m') mod 65535 = (unat hc + unat m) mod 65535"
proof -
  let ?s = "ucast (NOT hc) + ucast (NOT m) + ucast m' :: u32"
  have b: "unat hc < 65536" "unat m < 65536" "unat m' < 65536"
    using unsigned_less [of hc, where ?'a = nat] unsigned_less [of m, where ?'a = nat]
      unsigned_less [of m', where ?'a = nat] by simp_all
  have u: "unat (ucast (x :: u16) :: u32) = unat x" for x
  proof -
    have "unat x < 65536" using unsigned_less [of x, where ?'a = nat] by simp
    then show ?thesis by (simp add: unsigned_ucast_eq take_bit_nat_eq_self)
  qed
  have s: "unat ?s = (65535 - unat hc) + (65535 - unat m) + unat m'"
    using b by (simp add: unat_word_ariths u unat_not_u16)
  define f where "f = unat (fold_sum ?s)"
  have f: "f < 65536" "f mod 65535 = unat ?s mod 65535" using fold_sum_result [of ?s] by (simp_all add: f_def)
  have "unat (ucast (fold_sum ?s) :: u16) = f"
    using f(1) by (simp add: f_def unsigned_ucast_eq take_bit_nat_eq_self)
  then have r: "unat (chksum_update hc m m') = 65535 - f" by (simp add: chksum_update_def unat_not_u16)
  show ?thesis unfolding r by (rule complement_sum) (use b f s in auto)
qed

section \<open>Writing words into a packet\<close>

text \<open>The value with which a word counts at an offset: swapped at an odd one.\<close>

definition placed :: "nat \<Rightarrow> u16 \<Rightarrow> nat" where
  "placed i x = (if even i then unat x else unat (htons x))"

lemma placed_mod: "placed i x mod 65535 = (if even i then unat x else 256 * unat x) mod 65535"
proof -
  have x: "x = le16 (ucast x) (ucast (drop_bit 8 x))" by simp
  have "unat (htons x) + 65535 * unat (ucast (drop_bit 8 x) :: u8) = 256 * unat x + 65535 * 0"
    by (subst x, subst (2) x) (simp only: htons_le16 unat_be16 unat_le16, simp)
  from mod_shift [OF this] show ?thesis by (simp add: placed_def)
qed

definition put16 :: "nat \<Rightarrow> u16 \<Rightarrow> bytes \<Rightarrow> bytes" where
  "put16 i w bs = bs[i := ucast w, i + 1 := ucast (drop_bit 8 w)]"

lemma length_put16 [simp]: "length (put16 i w bs) = length bs"
  by (simp add: put16_def)

lemma put16_other: "j \<noteq> i \<Longrightarrow> j \<noteq> i + 1 \<Longrightarrow> put16 i w bs ! j = bs ! j"
  by (simp add: put16_def)

lemma wr_byte: "i < length pl \<Longrightarrow> wr_bytes pl i [v] = Some (pl[i := v])"
  by (simp add: wr_bytes_def upd_conv_take_nth_drop)

lemma wr_word: "i + 1 < length pl \<Longrightarrow> wr_bytes pl i (le16_bytes w) = Some (put16 i w pl)"
proof -
  assume i: "i + 1 < length pl"
  have "take i pl @ [a, b] @ drop (i + 2) pl = pl[i := a, i + 1 := b]" for a b
    using i by (intro nth_equalityI) (auto simp: nth_append nth_list_update nth_Cons' intro!: arg_cong [of _ _ "nth pl"])
  with i show ?thesis by (simp add: wr_bytes_def le16_bytes_def put16_def)
qed

lemma words_sum_put16:
  assumes "i + 1 < length bs"
  shows "words_sum (put16 i w bs) + placed i (le16 (bs ! i) (bs ! (i + 1))) = words_sum bs + placed i w"
proof -
  let ?b = "bs[i := ucast w]"
  have w: "w = le16 (ucast w) (ucast (drop_bit 8 w))" by simp
  have pw: "placed i w = unat (ucast w :: u8) * byte_weight i + unat (ucast (drop_bit 8 w) :: u8) * byte_weight (i + 1)"
    by (subst w) (simp only: placed_def htons_le16 unat_be16 unat_le16, simp add: byte_weight_def)
  have po: "placed i (le16 (bs ! i) (bs ! (i + 1))) = unat (bs ! i) * byte_weight i + unat (bs ! (i + 1)) * byte_weight (i + 1)"
    by (simp only: placed_def htons_le16 unat_be16 unat_le16) (simp add: byte_weight_def)
  have "words_sum ?b + unat (bs ! i) * byte_weight i = words_sum bs + unat (ucast w :: u8) * byte_weight i"
    using assms by (intro words_sum_update) simp
  moreover have "words_sum (put16 i w bs) + unat (bs ! (i + 1)) * byte_weight (i + 1) =
      words_sum ?b + unat (ucast (drop_bit 8 w) :: u8) * byte_weight (i + 1)"
    using words_sum_update [of "i + 1" ?b "ucast (drop_bit 8 w)"] assms by (simp add: put16_def)
  ultimately show ?thesis unfolding pw po by linarith
qed

text \<open>The same for a stretch of a packet that contains the word.\<close>

lemma words_sum_slice:
  assumes "i + 1 < n" "off + i + 1 < length bs"
  shows "words_sum (take n (drop off (put16 (off + i) w bs))) + placed i (le16 (bs ! (off + i)) (bs ! (off + i + 1))) =
    words_sum (take n (drop off bs)) + placed i w"
proof -
  have "take n (drop off (put16 (off + i) w bs)) = put16 i w (take n (drop off bs))"
    by (simp add: put16_def drop_update_swap take_update_swap)
  then show ?thesis using words_sum_put16 [of i "take n (drop off bs)" w] assms by simp
qed

section \<open>TTL override\<close>

lemma balance:
  fixes a b c m m' h h' n :: nat
  assumes "(h' + m') mod n = (h + m) mod n" "b + m = a + m'" "c + h = b + h'"
  shows "c mod n = a mod n"
proof -
  have e: "int c - int a = (int h' + int m') - (int h + int m)" using assms(2,3) by linarith
  have "(int h' + int m') mod int n = (int h + int m) mod int n" using assms(1) by (metis of_nat_add of_nat_mod)
  then have "int n dvd int c - int a" unfolding e by (simp only: mod_eq_dvd_iff)
  then have "int c mod int n = int a mod int n" by (simp only: mod_eq_dvd_iff)
  then show ?thesis by (metis of_nat_eq_iff of_nat_mod)
qed

lemma mod_add_cancel: "(a + c) mod n = (b + c) mod n \<Longrightarrow> a mod n = b mod n" for a b c n :: nat
proof -
  assume "(a + c) mod n = (b + c) mod n"
  then have "int (a + c) mod int n = int (b + c) mod int n" by (metis of_nat_mod)
  then have "int n dvd int a - int b" unfolding mod_eq_dvd_iff by simp
  then have "int a mod int n = int b mod int n" by (simp only: mod_eq_dvd_iff)
  then show ?thesis by (metis of_nat_eq_iff of_nat_mod)
qed

lemma set_ttl_effect:
  assumes "off + 20 \<le> length pl"
  shows "\<exists>hc. set_ttl ttl off pl = Some (put16 (off + 10) hc (pl[off + 8 := ttl])) \<and>
    (\<forall>n \<ge> 12. words_sum (take n (drop off (put16 (off + 10) hc (pl[off + 8 := ttl])))) mod 65535 =
      words_sum (take n (drop off pl)) mod 65535)"
proof -
  define m m' h where "m = le16 (pl ! (off + 8)) (pl ! (9 + off))" and "m' = le16 ttl (pl ! (9 + off))"
    and "h = le16 (pl ! (off + 10)) (pl ! (11 + off))"
  define hc where "hc = chksum_update h m m'"
  have one: "pl[off + 8 := ttl] = put16 (off + 8) m' pl"
  proof (rule nth_equalityI)
    fix i assume "i < length (pl[off + 8 := ttl])"
    then show "pl[off + 8 := ttl] ! i = put16 (off + 8) m' pl ! i"
      by (cases "i = 9 + off") (simp_all add: put16_def m'_def nth_list_update add.commute)
  qed simp
  have f: "rd16 pl (off + 8) = Some m" "wr_bytes pl (off + 8) [ttl] = Some (pl[off + 8 := ttl])"
    "rd16 (pl[off + 8 := ttl]) (off + 8) = Some m'" "rd16 (pl[off + 8 := ttl]) (off + 10) = Some h"
    using assms by (simp_all add: rd16_ok wr_byte m_def m'_def h_def)
  have "set_ttl ttl off pl = Some (put16 (off + 10) hc (pl[off + 8 := ttl]))"
    using f assms by (simp add: set_ttl_def wr_word hc_def)
  moreover have "words_sum (take n (drop off (put16 (off + 10) hc (pl[off + 8 := ttl])))) mod 65535 =
      words_sum (take n (drop off pl)) mod 65535" if "12 \<le> n" for n
  proof -
    let ?w = "\<lambda>x. words_sum (take n (drop off x))"
    have a: "?w (put16 (off + 8) m' pl) + unat m = ?w pl + unat m'"
      using words_sum_slice [of 8 n off pl m'] that assms by (simp add: placed_def m_def)
    have b: "?w (put16 (off + 10) hc (put16 (off + 8) m' pl)) + unat h = ?w (put16 (off + 8) m' pl) + unat hc"
      using words_sum_slice [of 10 n off "put16 (off + 8) m' pl" hc] that assms
      by (simp add: placed_def h_def put16_other)
    have c: "(unat hc + unat m') mod 65535 = (unat h + unat m) mod 65535"
      unfolding hc_def by (rule chksum_update_sum)
    show ?thesis unfolding one by (rule balance [OF c a b])
  qed
  ultimately show ?thesis by blast
qed

text \<open>C6: the TTL override never reads or writes outside the segment, on Ethernet frames and on
  bare IP packets; it changes the TTL and the header checksum, nothing else, and the checksum
  of the header stays valid if it was (with options or without).\<close>

theorem ttl_override_sound:
  assumes "12 \<le> n"
  shows "(\<exists>pl'. ttl_override_eth ttl pl = Some pl' \<and> length pl' = length pl \<and>
      (\<forall>i. i \<notin> {22, 24, 25} \<longrightarrow> pl' ! i = pl ! i) \<and>
      (if 0 < ttl \<and> 34 \<le> length pl \<and> pl ! 12 = 8 \<and> pl ! 13 = 0 \<and> drop_bit 4 (pl ! 14) = 4
       then pl' ! 22 = ttl \<and> words_sum (take n (drop 14 pl')) mod 65535 = words_sum (take n (drop 14 pl)) mod 65535
       else pl' = pl)) \<and>
    (\<exists>pl'. ttl_override_ip ttl pl = Some pl' \<and> length pl' = length pl \<and>
      (\<forall>i. i \<notin> {8, 10, 11} \<longrightarrow> pl' ! i = pl ! i) \<and>
      (if 0 < ttl \<and> 20 \<le> length pl \<and> drop_bit 4 (pl ! 0) = 4
       then pl' ! 8 = ttl \<and> words_sum (take n pl') mod 65535 = words_sum (take n pl) mod 65535
       else pl' = pl))"
    (is "?eth \<and> ?ip")
proof
  show ?eth
  proof (cases "0 < ttl \<and> 34 \<le> length pl \<and> pl ! 12 = 8 \<and> pl ! 13 = 0 \<and> drop_bit 4 (pl ! 14) = 4")
    case True
    then have len: "34 \<le> length pl" by simp
    with set_ttl_effect [of 14 pl ttl] obtain hc where s: "set_ttl ttl 14 pl = Some (put16 24 hc (pl[22 := ttl]))"
      "words_sum (take n (drop 14 (put16 24 hc (pl[22 := ttl])))) mod 65535 = words_sum (take n (drop 14 pl)) mod 65535"
      using assms by auto
    have "ttl_override_eth ttl pl = Some (put16 24 hc (pl[22 := ttl]))"
      using True s(1) by (simp add: ttl_override_eth_def IP_HDR_SIZE_def mem_simps)
    with True len s(2) show ?thesis by (auto simp: put16_other)
  next
    case False
    then have "ttl_override_eth ttl pl = Some pl"
      by (auto simp: ttl_override_eth_def IP_HDR_SIZE_def mem_simps)
    then show ?thesis unfolding if_not_P [OF False] by simp
  qed
  show ?ip
  proof (cases "0 < ttl \<and> 20 \<le> length pl \<and> drop_bit 4 (pl ! 0) = 4")
    case True
    then have len: "20 \<le> length pl" by simp
    with set_ttl_effect [of 0 pl ttl] obtain hc where s: "set_ttl ttl 0 pl = Some (put16 10 hc (pl[8 := ttl]))"
      "words_sum (take n (put16 10 hc (pl[8 := ttl]))) mod 65535 = words_sum (take n pl) mod 65535"
      using assms by auto
    moreover have "rd8 pl 0 = Some (pl ! 0)" using len by (intro rd8_ok) linarith
    ultimately have "ttl_override_ip ttl pl = Some (put16 10 hc (pl[8 := ttl]))"
      using True s(1) by (simp add: ttl_override_ip_def IP_HDR_SIZE_def mem_simps)
    with True len s(2) show ?thesis by (auto simp: put16_other)
  next
    case False
    have "rd8 pl 0 = Some (pl ! 0)" if "20 \<le> length pl" using that by (intro rd8_ok) linarith
    with False have "ttl_override_ip ttl pl = Some pl"
      by (auto simp: ttl_override_ip_def IP_HDR_SIZE_def)
    then show ?thesis unfolding if_not_P [OF False] by simp
  qed
qed

theorem ttl_override_sound_witness:
  "\<exists>pl'. ttl_override_ip 65 [0x45, 0, 0, 0, 0, 0, 0, 0, 0, 0, 0, 0, 0, 0, 0, 0, 0, 0, 0, 0] = Some pl' \<and> pl' ! 8 = 65 \<and>
     words_sum (take 20 pl') mod 65535 = 69"
proof -
  have "words_sum [0x45, 0, 0, 0, 0, 0, 0, 0, 0, 0, 0, 0, 0, 0, 0, 0, 0, 0, 0, 0] = 69"
    by (simp add: words_sum_Cons2)
  with ttl_override_sound [of 20 65 "[0x45, 0, 0, 0, 0, 0, 0, 0, 0, 0, 0, 0, 0, 0, 0, 0, 0, 0, 0, 0]"] show ?thesis by auto
qed

section \<open>MSS clamp\<close>

lemma mss_find_total:
  assumes "opt_end \<le> length pl"
  shows "\<exists>r. mss_find pl opt opt_end = Some r \<and> (\<forall>q. r = Some q \<longrightarrow> opt + 2 \<le> q \<and> q + 2 \<le> opt_end)"
  using assms
proof (induction pl opt opt_end rule: mss_find.induct)
  case (1 pl opt opt_end)
  show ?case
  proof (cases "opt < opt_end")
    case False
    then show ?thesis by (simp add: mss_find.simps [of pl opt])
  next
    case True
    note step = mss_find.simps [of pl opt opt_end]
    have k: "rd8 pl opt = Some (pl ! opt)" using True "1.prems" by (simp add: rd8_ok)
    consider "pl ! opt = 0" | "pl ! opt = 1" | "pl ! opt \<noteq> 0" "pl ! opt \<noteq> 1" "opt + 1 \<ge> opt_end"
      | "pl ! opt \<noteq> 0" "pl ! opt \<noteq> 1" "opt + 1 < opt_end" by linarith
    then show ?thesis
    proof cases
      case 2
      have "\<not> \<not> opt < opt_end" "pl ! opt \<noteq> 0" using True 2 by simp_all
      from "1.IH"(1) [OF this(1) k this(2) 2 "1.prems"] k True 2 show ?thesis
        by (fastforce simp: step)
    next
      case 4
      have l: "rd8 pl (opt + 1) = Some (pl ! (opt + 1))" using 4 "1.prems" by (simp add: rd8_ok)
      show ?thesis
      proof (cases "pl ! (opt + 1) < 2 \<or> opt + unat (pl ! (opt + 1)) > opt_end \<or> (pl ! opt = 2 \<and> pl ! (opt + 1) = 4)")
        case True
        with 4 k l \<open>opt < opt_end\<close> show ?thesis by (auto simp: step)
      next
        case False
        then have *: "\<not> (pl ! (opt + 1) < 2 \<or> opt + unat (pl ! (opt + 1)) > opt_end)"
          "\<not> (pl ! opt = 2 \<and> pl ! (opt + 1) = 4)" by auto
        have "\<not> \<not> opt < opt_end" "\<not> opt + 1 \<ge> opt_end" using True 4 by simp_all
        from "1.IH"(2) [OF this(1) k 4(1,2) this(2) l * "1.prems"] k l True 4 * show ?thesis
          by (fastforce simp: step)
      qed
    qed (use True k step in auto)
  qed
qed

text \<open>
  What the update of an option does to the checksum of the segment that starts at \<open>tcp\<close>: the word
  counts with its bytes swapped if it lies at an odd offset, which the update does not know.
\<close>

lemma set_mss_effect:
  assumes "tcp + 20 \<le> q" "q + 2 \<le> length pl" "q + 2 \<le> tcp + n"
  shows "\<exists>pl'. set_mss mx tcp q pl = Some pl' \<and> length pl' = length pl \<and>
    (\<forall>i. i \<notin> {q, q + 1, tcp + 16, 17 + tcp} \<longrightarrow> pl' ! i = pl ! i) \<and>
    (if be16 (pl ! q) (pl ! (q + 1)) > mx
     then be16 (pl' ! q) (pl' ! (q + 1)) = mx \<and>
       (words_sum (take n (drop tcp pl')) + placed (q - tcp) (le16 (pl ! q) (pl ! (q + 1))) + unat (htons mx)) mod 65535 =
       (words_sum (take n (drop tcp pl)) + placed (q - tcp) (htons mx) + unat (le16 (pl ! q) (pl ! (q + 1)))) mod 65535
     else pl' = pl)"
proof -
  define m where "m = le16 (pl ! q) (pl ! (q + 1))"
  have r: "rd16 pl q = Some m" using assms by (simp add: rd16_ok m_def)
  have m: "ntohs m = be16 (pl ! q) (pl ! (q + 1))" by (simp add: m_def)
  show ?thesis
  proof (cases "ntohs m > mx")
    case False
    with r m show ?thesis by (simp add: set_mss_def)
  next
    case True
    define h where "h = le16 (pl ! (tcp + 16)) (pl ! (17 + tcp))"
    define m' where "m' = htons mx"
    define hc where "hc = chksum_update h m m'"
    define p1 where "p1 = put16 q m' pl"
    define p2 where "p2 = put16 (tcp + 16) hc p1"
    have w: "wr_bytes pl q (le16_bytes m') = Some p1" "rd16 p1 (tcp + 16) = Some h"
      "wr_bytes p1 (tcp + 16) (le16_bytes hc) = Some p2"
      using assms by (simp_all add: wr_word rd16_ok p1_def p2_def h_def put16_other)
    have s: "set_mss mx tcp q pl = Some p2"
      using True r w by (simp add: set_mss_def m'_def hc_def)
    obtain d where d: "q = tcp + d" "20 \<le> d"
      by (rule that [of "q - tcp"]) (use assms(1) in auto)
    let ?w = "\<lambda>x. words_sum (take n (drop tcp x))"
    have a: "?w p1 + placed d m = ?w pl + placed d m'"
      using words_sum_slice [of d n tcp pl m'] assms by (simp add: d m_def p1_def)
    have b: "?w p2 + unat h = ?w p1 + unat hc"
      using words_sum_slice [of 16 n tcp p1 hc] assms d by (simp add: placed_def h_def p2_def p1_def put16_other)
    have c: "(unat hc + unat m') mod 65535 = (unat h + unat m) mod 65535"
      unfolding hc_def by (rule chksum_update_sum)
    have sum: "(?w p2 + placed d m + unat m') mod 65535 = (?w pl + placed d m' + unat m) mod 65535"
      by (rule balance [where b = "?w p1 + placed d m + unat m'" and h' = "unat hc" and h = "unat h" and
            m' = "unat m'" and m = "unat m"]) (use a b c in linarith)+
    have mss: "be16 (p2 ! q) (p2 ! (q + 1)) = mx"
      using assms d m'_def by (simp add: p2_def put16_other) (simp add: p1_def put16_def htons_le16 [symmetric] del: htons_le16)
    show ?thesis using s True m mss sum d
      by (simp add: p2_def p1_def put16_other m_def m'_def)
  qed
qed

lemma if_conj_D: "(if c then A \<and> S else B) \<Longrightarrow> (if c then A else B)"
  by (simp split: if_splits)

lemma set_mss_result:
  assumes "tcp + 20 \<le> q" "q + 2 \<le> length pl"
  shows "\<exists>pl'. set_mss mx tcp q pl = Some pl' \<and> length pl' = length pl \<and>
    (\<forall>i. i \<notin> {q, q + 1, tcp + 16, 17 + tcp} \<longrightarrow> pl' ! i = pl ! i) \<and>
    (if be16 (pl ! q) (pl ! (q + 1)) > mx then be16 (pl' ! q) (pl' ! (q + 1)) = mx else pl' = pl)"
proof -
  have t: "q + 2 \<le> tcp + (q + 2 - tcp)" by simp
  show ?thesis
    using set_mss_effect [OF assms t, of mx]
    by (elim exE conjE, intro exI conjI) (assumption | erule if_conj_D)+
qed

text \<open>Where the options of a TCP SYN in an IPv4 frame are: the offset of the TCP header and its end.\<close>

definition syn_header :: "bytes \<Rightarrow> (nat \<times> nat) option" where
  "syn_header pl =
     (if 54 \<le> length pl \<and> pl ! 12 = 0x08 \<and> pl ! 13 = 0x00 \<and> drop_bit 4 (pl ! 14) = 4 \<and> pl ! 23 = PROTO_TCP
      then let tcp = 14 + 4 * unat (pl ! 14 AND 0x0F); hl = 4 * unat (drop_bit 4 (pl ! (tcp + 12))) in
        if tcp + 20 \<le> length pl \<and> pl ! (tcp + 13) AND 0x02 \<noteq> 0 \<and> 20 \<le> hl \<and> tcp + hl \<le> length pl
        then Some (tcp, tcp + hl) else None
      else None)"

lemma clamp_none: "syn_header pl = None \<Longrightarrow> clamp_tcp_mss mx pl = Some pl"
  by (auto simp: syn_header_def clamp_tcp_mss_def Let_def mem_simps mult.commute split: if_splits)

lemma clamp_some:
  assumes "syn_header pl = Some (tcp, e)" "mx \<noteq> 0"
  shows "clamp_tcp_mss mx pl = do {
     found \<leftarrow> mss_find pl (tcp + 20) e;
     case found of None \<Rightarrow> Some pl | Some q \<Rightarrow> set_mss mx tcp q pl }"
  using assms
  by (auto simp: syn_header_def clamp_tcp_mss_def Let_def mem_simps mult.commute split: if_splits)

lemma swap_balance:
  fixes a b v m :: nat
  assumes "(a + v + 256 * m) mod 65535 = (b + m + 256 * v) mod 65535"
  shows "a mod 65535 = b mod 65535 \<longleftrightarrow> v mod 257 = m mod 257"
proof -
  have "int (a + v + 256 * m) mod int 65535 = int (b + m + 256 * v) mod int 65535" using assms by (metis of_nat_mod)
  then have "(65535::int) dvd (int a - int b) - 255 * (int v - int m)"
    unfolding mod_eq_dvd_iff by (simp add: algebra_simps)
  then obtain k where "(int a - int b) - 255 * (int v - int m) = 65535 * k" by (rule dvdE)
  then have k: "int a - int b = 65535 * k + 255 * (int v - int m)" by simp
  have "(65535::int) dvd (int a - int b) \<longleftrightarrow> 255 * 257 dvd 255 * (int v - int m)"
    unfolding k by (simp add: dvd_add_right_iff)
  also have "\<dots> \<longleftrightarrow> 257 dvd int v - int m"
    by (subst dvd_mult_cancel_left) simp
  finally have "(65535::int) dvd (int a - int b) \<longleftrightarrow> 257 dvd int v - int m" .
  then have "int a mod int 65535 = int b mod int 65535 \<longleftrightarrow> int v mod int 257 = int m mod int 257"
    unfolding mod_eq_dvd_iff by simp
  then show ?thesis by (simp only: zmod_int [symmetric] of_nat_eq_iff)
qed

lemma set_mss_checksum:
  assumes "tcp + 20 \<le> q" "q + 2 \<le> length pl" "q + 2 \<le> tcp + n" "set_mss mx tcp q pl = Some pl'"
    "be16 (pl ! q) (pl ! (q + 1)) > mx"
  shows "words_sum (take n (drop tcp pl')) mod 65535 = words_sum (take n (drop tcp pl)) mod 65535 \<longleftrightarrow>
    even (q - tcp) \<or> unat (be16 (pl ! q) (pl ! (q + 1))) mod 257 = unat mx mod 257"
proof -
  define m where "m = le16 (pl ! q) (pl ! (q + 1))"
  let ?s = "words_sum (take n (drop tcp pl))" and ?s' = "words_sum (take n (drop tcp pl'))"
  have v: "be16 (pl ! q) (pl ! (q + 1)) = htons m" by (simp add: m_def)
  have e: "(?s' + placed (q - tcp) m + unat (htons mx)) mod 65535 =
      (?s + placed (q - tcp) (htons mx) + unat m) mod 65535"
    using set_mss_effect [OF assms(1-3), of mx] assms(4,5) unfolding m_def by auto
  show ?thesis
  proof (cases "even (q - tcp)")
    case True
    with e have "(?s' + (unat m + unat (htons mx))) mod 65535 = (?s + (unat m + unat (htons mx))) mod 65535"
      by (simp add: placed_def ac_simps)
    then have "?s' mod 65535 = ?s mod 65535" by (rule mod_add_cancel)
    with True show ?thesis by simp
  next
    case False
    have s: "unat (htons x) mod 65535 = 256 * unat x mod 65535" for x
      using placed_mod [of 1 x] by (simp add: placed_def)
    have "(?s' + unat (htons m) + 256 * unat mx) mod 65535 = (?s + unat mx + 256 * unat (htons m)) mod 65535"
    proof -
      have "(?s' + unat (htons m) + 256 * unat mx) mod 65535 = (?s' + unat (htons m) + unat (htons mx)) mod 65535"
        using s [of mx] by (metis mod_add_right_eq)
      also have "\<dots> = (?s + unat mx + unat m) mod 65535" using e False by (simp add: placed_def)
      also have "\<dots> = (?s + unat mx + 256 * unat (htons m)) mod 65535"
        using s [of "htons m"] by (metis mod_add_right_eq htons_htons)
      finally show ?thesis .
    qed
    from swap_balance [OF this] False show ?thesis unfolding v by simp
  qed
qed

lemma syn_header_bounds:
  "syn_header pl = Some (tcp, e) \<Longrightarrow> 14 \<le> tcp \<and> tcp + 20 \<le> e \<and> e \<le> length pl"
  by (auto simp: syn_header_def Let_def split: if_splits)

text \<open>What the clamp writes, with its effect on the checksum of the segment.\<close>

lemma set_mss_sound:
  assumes q: "tcp + 20 \<le> q" "q + 2 \<le> length pl"
  obtains pl' where "set_mss mx tcp q pl = Some pl'" "length pl' = length pl"
    "if be16 (pl ! q) (pl ! (q + 1)) > mx
             then be16 (pl' ! q) (pl' ! (q + 1)) = mx \<and>
               (\<forall>i. i \<notin> {q, q + 1, tcp + 16, 17 + tcp} \<longrightarrow> pl' ! i = pl ! i) \<and>
               (\<forall>n \<ge> q + 2 - tcp. words_sum (take n (drop tcp pl')) mod 65535 = words_sum (take n (drop tcp pl)) mod 65535
                  \<longleftrightarrow> even (q - tcp) \<or> unat (be16 (pl ! q) (pl ! (q + 1))) mod 257 = unat mx mod 257)
             else pl' = pl"
proof -
  obtain pl' where p: "set_mss mx tcp q pl = Some pl'" "length pl' = length pl"
    "\<forall>i. i \<notin> {q, q + 1, tcp + 16, 17 + tcp} \<longrightarrow> pl' ! i = pl ! i"
    "if be16 (pl ! q) (pl ! (q + 1)) > mx then be16 (pl' ! q) (pl' ! (q + 1)) = mx else pl' = pl"
    using set_mss_result [OF q, of mx] by blast
  have s: "words_sum (take n (drop tcp pl')) mod 65535 = words_sum (take n (drop tcp pl)) mod 65535
        \<longleftrightarrow> even (q - tcp) \<or> unat (be16 (pl ! q) (pl ! (q + 1))) mod 257 = unat mx mod 257"
    if "n \<ge> q + 2 - tcp" "be16 (pl ! q) (pl ! (q + 1)) > mx" for n
    using that by (intro set_mss_checksum [OF q _ p(1)]) auto
  have body: "if be16 (pl ! q) (pl ! (q + 1)) > mx
           then be16 (pl' ! q) (pl' ! (q + 1)) = mx \<and>
             (\<forall>i. i \<notin> {q, q + 1, tcp + 16, 17 + tcp} \<longrightarrow> pl' ! i = pl ! i) \<and>
             (\<forall>n \<ge> q + 2 - tcp. words_sum (take n (drop tcp pl')) mod 65535 = words_sum (take n (drop tcp pl)) mod 65535
                \<longleftrightarrow> even (q - tcp) \<or> unat (be16 (pl ! q) (pl ! (q + 1))) mod 257 = unat mx mod 257)
           else pl' = pl"
  proof (cases "be16 (pl ! q) (pl ! (q + 1)) > mx")
    case True
    show ?thesis unfolding if_P [OF True]
      using p(3) p(4) [unfolded if_P [OF True]] s [OF _ True] by blast
  next
    case False
    show ?thesis unfolding if_not_P [OF False] using p(4) [unfolded if_not_P [OF False]] .
  qed
  with p(1,2) show ?thesis by (intro that)
qed

subsection \<open>TCP options as RFC 793 has them\<close>

text \<open>
  The options between the fixed header of a segment and its data, without reference to the loop
  that looks through them: a no-operation is one byte, every other option is its kind, its whole
  length and its data.  The area has its MSS at \<open>k\<close> if the first option of kind 2 with two bytes of
  data, after any number of others, has them there; nothing is said of what follows it.
\<close>

datatype tcp_opt = Nop | Opt u8 bytes

fun tcp_opt_bytes :: "tcp_opt \<Rightarrow> bytes" where
  "tcp_opt_bytes Nop = [1]"
| "tcp_opt_bytes (Opt kind d) = kind # of_nat (length d + 2) # d"

fun other_opt :: "tcp_opt \<Rightarrow> bool" where
  "other_opt Nop = True"
| "other_opt (Opt kind d) \<longleftrightarrow> kind \<noteq> 0 \<and> kind \<noteq> 1 \<and> length d \<le> 253 \<and> \<not> (kind = 2 \<and> length d = 2)"

definition tcp_opts :: "tcp_opt list \<Rightarrow> bytes" where
  "tcp_opts os = concat (map tcp_opt_bytes os)"

definition mss_at :: "bytes \<Rightarrow> nat \<Rightarrow> bool" where
  "mss_at area k \<longleftrightarrow> (\<exists>before hi lo rest. (\<forall>opt \<in> set before. other_opt opt) \<and>
     area = tcp_opts before @ [2, 4, hi, lo] @ rest \<and> k = length (tcp_opts before) + 2)"

definition tcp_area :: "bytes \<Rightarrow> nat \<Rightarrow> nat \<Rightarrow> bytes" where
  "tcp_area pl opt e = take (e - opt) (drop opt pl)"

lemma tcp_opts_simps [simp]: "tcp_opts [] = []" "tcp_opts (opt # os) = tcp_opt_bytes opt @ tcp_opts os"
  by (simp_all add: tcp_opts_def)

lemma unat_lt_256: "unat (b :: u8) < 256"
  using unsigned_less [of b] by simp

lemma opt_length_byte:
  assumes "length (d :: bytes) \<le> 253"
  shows "unat (of_nat (length d + 2) :: u8) = length d + 2"
  using assms by (subst unat_of_nat) simp

lemma mss_find_finds:
  assumes "\<forall>opt \<in> set before. other_opt opt"
  shows "mss_find (A @ tcp_opts before @ [2, 4, hi, lo] @ rest @ B) (length A)
    (length A + length (tcp_opts before) + 4 + length rest) = Some (Some (length A + length (tcp_opts before) + 2))"
  using assms
proof (induction before arbitrary: A)
  case Nil
  show ?case by (subst mss_find.simps) (simp add: rd8_def nth_append)
next
  case (Cons opt os)
  show ?case
  proof (cases opt)
    case Nop
    from Cons.IH [of "A @ [1]"] Cons.prems show ?thesis
      by (subst mss_find.simps) (simp add: Nop rd8_def nth_append)
  next
    case (Opt kind d)
    have ok: "kind \<noteq> 0" "kind \<noteq> 1" "length d \<le> 253" "\<not> (kind = 2 \<and> length d = 2)" using Cons.prems Opt by auto
    define l :: u8 where "l = of_nat (length d + 2)"
    have l: "unat l = length d + 2" unfolding l_def by (rule opt_length_byte [OF ok(3)])
    have l2: "\<not> l < 2" "l = 4 \<longleftrightarrow> length d = 2" using l by (auto simp: word_less_nat_alt word_unat_eq_iff)
    from Cons.IH [of "A @ kind # l # d"] Cons.prems have
      "mss_find (A @ kind # l # d @ tcp_opts os @ [2, 4, hi, lo] @ rest @ B) (length A + unat l)
        (length A + unat l + length (tcp_opts os) + 4 + length rest) = Some (Some (length A + unat l + length (tcp_opts os) + 2))"
      by (simp add: l ac_simps)
    moreover have "tcp_opt_bytes opt = kind # l # d" by (simp only: Opt l_def tcp_opt_bytes.simps)
    ultimately show ?thesis using ok(1,2,4) l2
      by (subst mss_find.simps) (simp add: l rd8_def nth_append ac_simps)
  qed
qed

lemma mss_at_found:
  assumes "mss_at (tcp_area pl opt e) k" "opt \<le> e" "e \<le> length pl"
  shows "mss_find pl opt e = Some (Some (opt + k))"
proof -
  from assms(1) obtain before hi lo rest where b: "\<forall>opt \<in> set before. other_opt opt"
    "tcp_area pl opt e = tcp_opts before @ [2, 4, hi, lo] @ rest" "k = length (tcp_opts before) + 2"
    by (auto simp: mss_at_def)
  have split: "pl = take opt pl @ tcp_area pl opt e @ drop e pl"
    using assms(2,3) unfolding tcp_area_def
    by (metis append.assoc append_take_drop_id drop_drop le_add_diff_inverse2)
  have len: "length (tcp_area pl opt e) = e - opt" using assms(2,3) by (simp add: tcp_area_def)
  have e: "e = opt + length (tcp_opts before) + 4 + length rest" using len b(2) assms(2) by simp
  have A: "length (take opt pl) = opt" using assms(2,3) by simp
  from mss_find_finds [OF b(1), of "take opt pl" hi lo rest "drop e pl"]
  have "mss_find (take opt pl @ tcp_area pl opt e @ drop e pl) opt e = Some (Some (opt + length (tcp_opts before) + 2))"
    using A e b(2) by simp
  with split b(3) show ?thesis by simp
qed

lemma mss_found_at:
  assumes "mss_find pl opt e = Some (Some q)" "e \<le> length pl"
  shows "\<exists>k. q = opt + k \<and> mss_at (tcp_area pl opt e) k"
  using assms
proof (induction pl opt e rule: mss_find.induct)
  case (1 pl opt e)
  note step = mss_find.simps [of pl opt e]
  have lt: "opt < e" using "1.prems" step by (auto split: if_splits)
  have k: "rd8 pl opt = Some (pl ! opt)" using lt "1.prems" by (simp add: rd8_ok)
  have area: "tcp_area pl opt e = pl ! opt # tcp_area pl (opt + 1) e"
    using lt "1.prems"(2) by (simp add: tcp_area_def Cons_nth_drop_Suc [symmetric] Suc_diff_Suc [symmetric] take_Suc_Cons)
  have nz: "pl ! opt \<noteq> 0" using "1.prems" step k lt by auto
  show ?case
  proof (cases "pl ! opt = 1")
    case True
    have "mss_find pl (opt + 1) e = Some (Some q)" using "1.prems"(1) step k lt True by simp
    from "1.IH"(1) [OF _ k nz True this "1.prems"(2)] lt obtain before hi lo rest where
      b: "q = opt + 1 + (length (tcp_opts before) + 2)" "\<forall>opt \<in> set before. other_opt opt"
      "tcp_area pl (opt + 1) e = tcp_opts before @ [2, 4, hi, lo] @ rest" by (auto simp: mss_at_def)
    show ?thesis unfolding mss_at_def
      by (rule exI [of _ "length (tcp_opts (Nop # before)) + 2"], rule conjI [OF _ exI [of _ "Nop # before"]])
        (use b area True in auto)
  next
    case False
    have in': "opt + 1 < e" using "1.prems"(1) step k lt nz False by (auto split: if_splits)
    have l: "rd8 pl (opt + 1) = Some (pl ! (opt + 1))" using in' "1.prems"(2) by (simp add: rd8_ok)
    let ?l = "pl ! (opt + 1)"
    have bad: "\<not> (?l < 2 \<or> opt + unat ?l > e)"
      using "1.prems"(1) step k l lt nz False in' by (auto split: if_splits)
    then have l2: "2 \<le> unat ?l" "opt + unat ?l \<le> e" by (auto simp: word_less_nat_alt)
    define d where "d = take (unat ?l - 2) (drop (opt + 2) pl)"
    have d: "length d = unat ?l - 2" using l2 "1.prems"(2) by (simp add: d_def)
    have area2: "tcp_area pl opt e = tcp_opt_bytes (Opt (pl ! opt) d) @ tcp_area pl (opt + unat ?l) e"
    proof -
      have "tcp_area pl (opt + 2) e = d @ tcp_area pl (opt + unat ?l) e"
      proof -
        obtain n where n: "unat ?l = n + 2" using l2(1) by (metis le_add_diff_inverse2)
        moreover obtain m where "e = opt + n + 2 + m" using l2(2) n by (metis add.assoc le_Suc_ex)
        ultimately show ?thesis unfolding tcp_area_def d_def using take_add [of n m "drop (opt + 2) pl"] by (simp add: ac_simps)
      qed
      moreover have "tcp_area pl (opt + 1) e = ?l # tcp_area pl (opt + 2) e"
        using in' "1.prems"(2) by (simp add: tcp_area_def Cons_nth_drop_Suc [symmetric] Suc_diff_Suc [symmetric] take_Suc_Cons)
      moreover have "of_nat (length d + 2) = ?l" using d l2 by simp
      ultimately show ?thesis using area by simp
    qed
    show ?thesis
    proof (cases "pl ! opt = 2 \<and> ?l = 4")
      case True
      then have q: "q = opt + 2" using "1.prems"(1) step k l lt bad in' by simp
      from True d obtain hi lo where "d = [hi, lo]"
        by (cases d; cases "List.tl d"; auto simp: length_Suc_conv)
      with True area2 have "tcp_area pl opt e = tcp_opts [] @ [2, 4, hi, lo] @ tcp_area pl (opt + unat ?l) e" by simp
      with q show ?thesis unfolding mss_at_def
        by (intro exI [of _ "2 :: nat"] conjI exI [of _ "[] :: tcp_opt list"]) auto
    next
      case no: False
      have "mss_find pl (opt + unat ?l) e = Some (Some q)" using "1.prems"(1) step k l lt nz False in' bad no
        by (auto split: if_splits)
      from "1.IH"(2) [OF _ k nz False _ l bad no this "1.prems"(2)] lt in' obtain before hi lo rest where
        b: "q = opt + unat ?l + (length (tcp_opts before) + 2)" "\<forall>opt \<in> set before. other_opt opt"
        "tcp_area pl (opt + unat ?l) e = tcp_opts before @ [2, 4, hi, lo] @ rest" by (auto simp: mss_at_def)
      have ok: "other_opt (Opt (pl ! opt) d)"
        using nz False no d l2 unat_lt_256 [of ?l] by (auto simp: word_unat_eq_iff)
      show ?thesis unfolding mss_at_def
        by (rule exI [of _ "length (tcp_opts (Opt (pl ! opt) d # before)) + 2"], rule conjI [OF _ exI [of _ "Opt (pl ! opt) d # before"]])
          (use b area2 ok d l2 in auto)
    qed
  qed
qed

text \<open>What the clamp does where the options have an MSS, and where they have none.\<close>

lemma clamp_at:
  assumes "mx \<noteq> 0" and h: "syn_header pl = Some (tcp, e)" and at: "mss_at (tcp_area pl (tcp + 20) e) k"
  shows "clamp_tcp_mss mx pl = set_mss mx tcp (tcp + 20 + k) pl \<and> tcp + 22 \<le> tcp + 20 + k \<and> tcp + 20 + k + 2 \<le> e"
proof -
  note b = syn_header_bounds [OF h]
  have f: "mss_find pl (tcp + 20) e = Some (Some (tcp + 20 + k))" using mss_at_found [OF at] b by simp
  with mss_find_total [of e pl "tcp + 20"] b clamp_some [OF h assms(1)] show ?thesis by auto
qed

lemma clamp_not_at:
  assumes "mx \<noteq> 0" and h: "syn_header pl = Some (tcp, e)" and no: "\<nexists>k. mss_at (tcp_area pl (tcp + 20) e) k"
  shows "clamp_tcp_mss mx pl = Some pl"
proof -
  note b = syn_header_bounds [OF h]
  obtain r where r: "mss_find pl (tcp + 20) e = Some r" using mss_find_total [of e pl "tcp + 20"] b by auto
  with no mss_found_at [of pl "tcp + 20" e] b have "r = None" by (cases r) auto
  with r clamp_some [OF h assms(1)] show ?thesis by simp
qed

text \<open>C7: the MSS clamp never reads or writes outside the segment, whatever the header lengths and options
  say.  A frame that is not a TCP SYN over IPv4, or whose options, read as RFC 793 has them, hold no
  MSS, is left as it is; otherwise an MSS above the limit becomes the limit, at its place, and
  nothing else changes but the checksum.  The TCP checksum stays right exactly if the option value
  lies at an even offset of the TCP header or the two values agree modulo 257.\<close>

theorem clamp_tcp_mss_sound:
  assumes "mx \<noteq> 0"
  shows "\<exists>pl'. clamp_tcp_mss mx pl = Some pl' \<and> length pl' = length pl \<and>
    (case syn_header pl of None \<Rightarrow> pl' = pl
     | Some (tcp, e) \<Rightarrow>
        ((\<nexists>k. mss_at (take (e - (tcp + 20)) (drop (tcp + 20) pl)) k) \<longrightarrow> pl' = pl) \<and>
        (\<forall>k q. mss_at (take (e - (tcp + 20)) (drop (tcp + 20) pl)) k \<and> q = tcp + 20 + k \<longrightarrow>
            tcp + 22 \<le> q \<and> q + 2 \<le> e \<and>
            (if be16 (pl ! q) (pl ! (q + 1)) > mx
             then be16 (pl' ! q) (pl' ! (q + 1)) = mx \<and>
               (\<forall>i. i \<notin> {q, q + 1, tcp + 16, 17 + tcp} \<longrightarrow> pl' ! i = pl ! i) \<and>
               (\<forall>n \<ge> q + 2 - tcp. words_sum (take n (drop tcp pl')) mod 65535 = words_sum (take n (drop tcp pl)) mod 65535
                  \<longleftrightarrow> even (q - tcp) \<or> unat (be16 (pl ! q) (pl ! (q + 1))) mod 257 = unat mx mod 257)
             else pl' = pl)))"
proof (cases "syn_header pl")
  case None
  then show ?thesis by (simp add: clamp_none)
next
  case (Some te)
  then obtain tcp e where h: "syn_header pl = Some (tcp, e)" by (cases te) auto
  note b = syn_header_bounds [OF h]
  let ?area = "take (e - (tcp + 20)) (drop (tcp + 20) pl)"
  show ?thesis
  proof (cases "\<exists>k. mss_at ?area k")
    case False
    with clamp_not_at [OF assms h] h show ?thesis by (simp add: tcp_area_def)
  next
    case True
    then obtain k where at: "mss_at ?area k" by blast
    note c = clamp_at [OF assms h at [folded tcp_area_def]]
    have only: "k' = k" if "mss_at ?area k'" for k'
      using mss_at_found [OF at [folded tcp_area_def]] mss_at_found [OF that [folded tcp_area_def]] b by simp
    define q where "q = tcp + 20 + k"
    from c b have q: "tcp + 20 \<le> q" "q + 2 \<le> length pl" "tcp + 22 \<le> q \<and> q + 2 \<le> e" by (auto simp: q_def)
    have the: "k' = k" if "mss_at ?area k'" for k'
      using mss_at_found [OF at [folded tcp_area_def]] mss_at_found [OF that [folded tcp_area_def]] b by simp
    then have only: "q' = q" if "mss_at ?area k' \<and> q' = tcp + 20 + k'" for k' q' using that q_def by blast
    obtain pl' where p: "set_mss mx tcp q pl = Some pl'" "length pl' = length pl"
      and body: "if be16 (pl ! q) (pl ! (q + 1)) > mx
             then be16 (pl' ! q) (pl' ! (q + 1)) = mx \<and>
               (\<forall>i. i \<notin> {q, q + 1, tcp + 16, 17 + tcp} \<longrightarrow> pl' ! i = pl ! i) \<and>
               (\<forall>n \<ge> q + 2 - tcp. words_sum (take n (drop tcp pl')) mod 65535 = words_sum (take n (drop tcp pl)) mod 65535
                  \<longleftrightarrow> even (q - tcp) \<or> unat (be16 (pl ! q) (pl ! (q + 1))) mod 257 = unat mx mod 257)
             else pl' = pl"
      by (rule set_mss_sound [OF q(1,2)])
    have p': "clamp_tcp_mss mx pl = Some pl'" using c p(1) by (simp add: q_def)
    show ?thesis unfolding h option.case prod.case
    proof (rule exI [of _ pl'], intro conjI p' p(2))
      show "(\<nexists>k. mss_at ?area k) \<longrightarrow> pl' = pl" using True by blast
    qed (intro allI impI, drule only, use q(3) body in simp)
  qed
qed

text \<open>A SYN whose MSS option follows a no-operation: its value is at an odd offset.\<close>

definition odd_syn :: bytes where
  "odd_syn = [0, 0, 0, 0, 0, 0, 0, 0, 0, 0, 0, 0, 0x08, 0x00] @
     [0x45, 0, 0, 48, 0, 0, 0x40, 0, 64, 6, 0, 0, 192, 168, 4, 2, 8, 8, 8, 8] @
     [0x30, 0x39, 0, 80, 0, 0, 0, 1, 0, 0, 0, 0, 0x70, 0x02, 0, 0, 0, 0, 0, 0] @ [1, 2, 4, 0x05, 0xB4, 0, 0, 0]"

lemma odd_syn_header: "syn_header odd_syn = Some (34, 62)"
  by (simp add: syn_header_def odd_syn_def PROTO_TCP_def Let_def)

lemma odd_syn_mss: "mss_at (take 8 (drop 54 odd_syn)) 3"
  unfolding mss_at_def by (rule exI [of _ "[Nop]"]) (simp add: odd_syn_def)

theorem clamp_tcp_mss_sound_witness:
  "\<exists>pl'. clamp_tcp_mss 1452 odd_syn = Some pl' \<and> be16 (pl' ! 57) (pl' ! 58) = 1452 \<and>
     words_sum (drop 34 pl') mod 65535 \<noteq> words_sum (drop 34 odd_syn) mod 65535"
proof -
  have v: "be16 (odd_syn ! 57) (odd_syn ! 58) = 1460" by (simp add: odd_syn_def be16_def)
  have l: "length odd_syn = 62" by (simp add: odd_syn_def)
  have m: "(1452 :: u16) \<noteq> 0" by simp
  have at: "\<exists>k. mss_at (take 8 (drop 54 odd_syn)) k" using odd_syn_mss by blast
  from clamp_tcp_mss_sound [OF m, of odd_syn] odd_syn_mss at obtain pl' where p: "clamp_tcp_mss 1452 odd_syn = Some pl'"
    "length pl' = 62" "be16 (pl' ! 57) (pl' ! 58) = 1452"
    "\<forall>n \<ge> 25. words_sum (take n (drop 34 pl')) mod 65535 = words_sum (take n (drop 34 odd_syn)) mod 65535 \<longleftrightarrow> False"
    by (auto simp: odd_syn_header odd_syn_mss v l)
  from p(4) have "words_sum (take 28 (drop 34 pl')) mod 65535 \<noteq> words_sum (take 28 (drop 34 odd_syn)) mod 65535"
    by simp
  with p l show ?thesis by auto
qed

end
