(* ===== verification/Frag_Needed.thy ===== *)
theory Frag_Needed
  imports Packet_Checksum
begin

text \<open>
  The ICMP message \<open>Fragmentation Needed\<close> of \<open>main/netif_hooks.c\<close>: when it is sent, what it
  quotes, and that its two checksums are right.
\<close>

text \<open>The packets that call for the message: too long IPv4 packets that must not be fragmented.\<close>

definition ip_hl :: "bytes \<Rightarrow> nat" where
  "ip_hl pl = 4 * unat (pl ! 14 AND 0x0F)"

definition needs_frag :: "u16 \<Rightarrow> bytes \<Rightarrow> bool" where
  "needs_frag mtu pl \<longleftrightarrow> 34 \<le> length pl \<and> pl ! 12 = 0x08 \<and> pl ! 13 = 0x00 \<and> drop_bit 4 (pl ! 14) = 4 \<and>
     be16 (pl ! 16) (pl ! 17) > mtu \<and> be16 (pl ! 20) (pl ! 21) AND IP_DF \<noteq> 0 \<and>
     be16 (pl ! 20) (pl ! 21) AND IP_OFFMASK = 0 \<and> pl ! 23 \<noteq> 1 \<and> 20 \<le> ip_hl pl \<and> 14 + ip_hl pl \<le> length pl"

definition frag_frame :: "(bytes \<Rightarrow> u16) \<Rightarrow> u32 \<Rightarrow> u16 \<Rightarrow> bytes \<Rightarrow> bytes" where
  "frag_frame chk my_ap_ip mtu pl =
     take 6 (drop 6 pl) @ take 6 pl @ [0x08, 0x00] @
     icmp_ip_header chk my_ap_ip (word_of_nat (28 + ip_hl pl + min 8 (length pl - 14 - ip_hl pl))) (take 4 (drop 26 pl)) @
     icmp_message chk mtu (take (ip_hl pl + 8) (drop 14 pl))"

lemma ip_hl_max: "ip_hl pl \<le> 60"
proof -
  have "pl ! 14 AND 0x0F \<le> 0x0F" by (rule word_and_le1)
  then show ?thesis by (simp add: ip_hl_def word_le_nat_alt)
qed

lemma quoted_split: "14 + k \<le> length pl \<Longrightarrow>
    take k (drop 14 pl) @ take (min 8 (length pl - 14 - k)) (drop (14 + k) pl) = take (k + 8) (drop 14 pl)"
  by (simp add: take_add add.commute min_def)

lemma frag_needed_eq:
  "send_icmp_frag_needed chk can_send alloc_ok ip mtu pl =
     Some (if can_send \<and> alloc_ok \<and> needs_frag mtu pl then Some (frag_frame chk ip mtu pl) else None)"
proof (cases "can_send \<and> 34 \<le> length pl \<and> pl ! 12 = 0x08 \<and> pl ! 13 = 0x00 \<and> drop_bit 4 (pl ! 14) = 4")
  case False
  then show ?thesis
    by (auto simp: send_icmp_frag_needed_def needs_frag_def mem_simps)
next
  case True
  note hl = ip_hl_max [of pl] and q = quoted_split [of "ip_hl pl" pl]
  have h: "unat (pl ! 14 AND 0x0F) * 4 = ip_hl pl" by (simp add: ip_hl_def)
  show ?thesis
    using True hl q
    by (simp add: send_icmp_frag_needed_def needs_frag_def mem_simps h Let_def frag_frame_def not_less
        conj_commute add.commute add.left_commute) (auto simp: ac_simps not_le)
qed

section \<open>The checksums of the message\<close>

text \<open>\<open>inet_chksum\<close> computes the value that makes the sum of a block a multiple of 65535.\<close>

definition inet_chksum_ok :: "(bytes \<Rightarrow> u16) \<Rightarrow> bool" where
  "inet_chksum_ok chk \<longleftrightarrow> (\<forall>bs. (words_sum bs + unat (chk bs)) mod 65535 = 0)"

lemma checksum_in_place:
  assumes "inet_chksum_ok chk" "even (length a)"
  shows "words_sum (a @ le16_bytes (chk (a @ [0, 0] @ b)) @ b) mod 65535 = 0"
proof -
  have e: "even (length (le16_bytes x))" for x by (simp add: le16_bytes_def)
  have "words_sum (a @ le16_bytes c @ b) = words_sum a + unat c + words_sum b" for c
    using assms(2) e by (simp add: words_sum_append words_sum_le16_bytes)
  moreover have "words_sum (a @ [0, 0] @ b) = words_sum a + words_sum b"
    using assms(2) words_sum_append [of a "[0, 0] @ b"] words_sum_Cons2 [of 0 0 b] by simp
  moreover have "(words_sum (a @ [0, 0] @ b) + unat (chk (a @ [0, 0] @ b))) mod 65535 = 0"
    using assms(1) by (simp add: inet_chksum_ok_def)
  ultimately show ?thesis by (simp add: ac_simps)
qed

lemma length_icmp_ip_header [simp]: "length (icmp_ip_header chk ip n d) = 16 + length d"
  by (simp add: icmp_ip_header_def Let_def)

lemma length_icmp_message [simp]: "length (icmp_message chk mtu q) = 8 + length q"
  by (simp add: icmp_message_def Let_def)

lemma htons_bytes: "be16 (ucast (htons n)) (ucast (drop_bit 8 (htons n))) = n"
  by (simp add: htons_le16 [symmetric] del: htons_le16)

lemma mtu_bytes: "be16 (ucast (drop_bit 8 mtu)) (ucast (mtu AND 0xFF)) = mtu"
proof -
  have m: "(0xFF :: u16) = mask 8" by (simp add: mask_eq_exp_minus_1)
  show ?thesis
    by (rule bit_word_eqI)
      (auto simp: be16_def m bit_or_iff bit_and_iff bit_push_bit_iff bit_unsigned_iff bit_drop_bit_eq bit_mask_iff)
qed

text \<open>
  The frame read field by field, at the offsets RFC 791 and RFC 792 give them: Ethernet addresses and
  type; version, header length and service, total length, identification and fragment fields, time to
  live, protocol, source and destination; type and code, the unused half and the next-hop MTU, and
  what is quoted.
\<close>

lemma frag_frame_fields:
  assumes "34 \<le> length pl" "14 + ip_hl pl \<le> length pl" and F: "F = frag_frame chk ip mtu pl"
  shows "length F = 42 + ip_hl pl + min 8 (length pl - 14 - ip_hl pl)"
    "take 14 F = take 6 (drop 6 pl) @ take 6 pl @ [0x08, 0x00]"
    "F ! 14 = 0x45" "F ! 15 = 0"
    "unat (be16 (F ! 16) (F ! 17)) = length F - 14"
    "take 4 (drop 18 F) = [0, 0, 0, 0]" "F ! 22 = 64" "F ! 23 = 1"
    "take 4 (drop 26 F) = le32_bytes ip" "take 4 (drop 30 F) = take 4 (drop 26 pl)"
    "F ! 34 = 3" "F ! 35 = 4" "F ! 38 = 0" "F ! 39 = 0"
    "be16 (F ! 40) (F ! 41) = mtu"
    "drop 42 F = take (ip_hl pl + 8) (drop 14 pl)"
proof -
  show 0: "length F = 42 + ip_hl pl + min 8 (length pl - 14 - ip_hl pl)"
  proof -
    have "length (take 6 (drop 6 pl)) = 6" "length (take 6 pl) = 6" "length (take 4 (drop 26 pl)) = 4"
      "length (take (ip_hl pl + 8) (drop 14 pl)) = ip_hl pl + min 8 (length pl - 14 - ip_hl pl)"
      using assms by auto
    then show ?thesis by (simp add: F frag_frame_def del: length_take)
  qed
  have n: "unat (word_of_nat (28 + ip_hl pl + min 8 (length pl - 14 - ip_hl pl)) :: u16) = length F - 14"
    using 0 ip_hl_max [of pl] by (subst unat_of_nat) simp
  show "unat (be16 (F ! 16) (F ! 17)) = length F - 14"
    unfolding n [symmetric]
    using assms by (simp add: F frag_frame_def icmp_ip_header_def Let_def nth_append le16_bytes_def htons_bytes)
qed (use assms in \<open>simp_all add: frag_frame_def icmp_ip_header_def icmp_message_def Let_def nth_append le16_bytes_def mtu_bytes le32_bytes_def\<close>)

lemma frag_frame_checksums:
  assumes "inet_chksum_ok chk" "34 \<le> length pl" and F: "F = frag_frame chk ip mtu pl"
  shows "words_sum (take 20 (drop 14 F)) mod 65535 = 0" "words_sum (drop 34 F) mod 65535 = 0"
proof -
  let ?h = "icmp_ip_header chk ip (word_of_nat (28 + ip_hl pl + min 8 (length pl - 14 - ip_hl pl))) (take 4 (drop 26 pl))"
  let ?m = "icmp_message chk mtu (take (ip_hl pl + 8) (drop 14 pl))"
  define e where "e = take 6 (drop 6 pl) @ take 6 pl @ [0x08, 0x00]"
  have f: "F = e @ ?h @ ?m" by (simp add: F frag_frame_def e_def)
  have le: "length e = 14" and lh: "length ?h = 20" using assms(2) by (simp_all add: e_def)
  have p: "take 20 (drop 14 F) = ?h" "drop 34 F = ?m" using le lh by (simp_all add: f)
  show "words_sum (take 20 (drop 14 F)) mod 65535 = 0"
    unfolding p icmp_ip_header_def Let_def by (rule checksum_in_place [OF assms(1)]) simp
  show "words_sum (drop 34 F) mod 65535 = 0"
    unfolding p icmp_message_def Let_def by (rule checksum_in_place [OF assms(1)]) simp
qed

text \<open>C8: the function never reads outside the packet it answers; it sends a message exactly for an IPv4
  packet longer than the MTU with DF set, first fragment, not ICMP, and with its whole header in the
  segment.  The message is the one RFC 1191 asks for, field by field: it goes back to the sender of
  the frame and of the packet, from the address the packet was sent to and the address of the router; its header is
  an unfragmented IPv4 header of 20 bytes with the length of the message in it, TTL 64 and protocol
  ICMP; type 3, code 4, an empty unused half and the MTU; it quotes the packet's own header and up to eight
  bytes after it and nothing else; both checksums are valid and it has at most 110 bytes.\<close>

theorem frag_needed_sound:
  assumes "inet_chksum_ok chk"
  shows "\<exists>r. send_icmp_frag_needed chk can_send alloc_ok ip mtu pl = Some r \<and>
    (r \<noteq> None \<longleftrightarrow> can_send \<and> alloc_ok \<and> needs_frag mtu pl) \<and>
    (\<forall>f. r = Some f \<longrightarrow>
       take 14 f = take 6 (drop 6 pl) @ take 6 pl @ [0x08, 0x00] \<and>
       f ! 14 = 0x45 \<and> f ! 15 = 0 \<and> unat (be16 (f ! 16) (f ! 17)) = length f - 14 \<and>
       take 4 (drop 18 f) = [0, 0, 0, 0] \<and> f ! 22 = 64 \<and> f ! 23 = 1 \<and>
       take 4 (drop 26 f) = le32_bytes ip \<and> take 4 (drop 30 f) = take 4 (drop 26 pl) \<and>
       f ! 34 = 3 \<and> f ! 35 = 4 \<and> f ! 38 = 0 \<and> f ! 39 = 0 \<and> be16 (f ! 40) (f ! 41) = mtu \<and>
       drop 42 f = take (ip_hl pl + 8) (drop 14 pl) \<and>
       words_sum (take 20 (drop 14 f)) mod 65535 = 0 \<and> words_sum (drop 34 f) mod 65535 = 0 \<and>
       length f \<le> 110)"
proof (cases "can_send \<and> alloc_ok \<and> needs_frag mtu pl")
  case False
  then show ?thesis unfolding frag_needed_eq if_not_P [OF False] by simp
next
  case True
  then have len: "34 \<le> length pl" "14 + ip_hl pl \<le> length pl" by (simp_all add: needs_frag_def)
  define F where "F = frag_frame chk ip mtu pl"
  note fields = frag_frame_fields [OF len F_def] and sums = frag_frame_checksums [OF assms len(1) F_def]
  have "length F \<le> 110" using fields(1) ip_hl_max [of pl] by simp
  with True fields(2-) sums show ?thesis
    unfolding frag_needed_eq if_P [OF True] F_def [symmetric]
    by (intro exI [of _ "Some F"] conjI allI impI iffI) (simp_all only: option.inject option.distinct simp_thms)
qed

definition inet_chksum_model :: "bytes \<Rightarrow> u16" where
  "inet_chksum_model bs = word_of_nat (65535 - words_sum bs mod 65535)"

lemma inet_chksum_model_ok: "inet_chksum_ok inet_chksum_model"
proof -
  have "(w + unat (word_of_nat (65535 - w mod 65535) :: u16)) mod 65535 = 0" for w :: nat
  proof -
    have l: "w mod 65535 < 65535" by simp
    then have "unat (word_of_nat (65535 - w mod 65535) :: u16) = 65535 - w mod 65535"
      by (subst unat_of_nat, subst mod_less) simp_all
    moreover have "w + (65535 - w mod 65535) = 65535 * (w div 65535 + 1)"
    proof -
      define q r where "q = w div 65535" and "r = w mod 65535"
      have "w = 65535 * q + r" by (simp add: q_def r_def)
      moreover have "r < 65535" using l by (simp add: r_def)
      ultimately show ?thesis unfolding q_def [symmetric] r_def [symmetric] by presburger
    qed
    ultimately show ?thesis by (metis mod_mult_self1_is_0)
  qed
  then show ?thesis by (simp add: inet_chksum_ok_def inet_chksum_model_def)
qed

theorem frag_needed_sound_witness:
  "\<exists>f. send_icmp_frag_needed inet_chksum_model True True 0x0104A8C0 40 odd_syn = Some (Some f) \<and>
     words_sum (drop 34 f) mod 65535 = 0 \<and> drop 42 f = take 28 (drop 14 odd_syn) \<and>
     be16 (f ! 16) (f ! 17) = 56 \<and> take 4 (drop 26 f) = [192, 168, 4, 1] \<and> f ! 34 = 3 \<and> f ! 35 = 4 \<and> f ! 23 = 1"
proof -
  have n: "needs_frag 40 odd_syn" "ip_hl odd_syn = 20"
    by (simp_all add: needs_frag_def ip_hl_def odd_syn_def be16_def IP_DF_def IP_OFFMASK_def)
  have q: "length (take 28 (drop 14 odd_syn)) = 28" by (simp add: odd_syn_def)
  have ip: "le32_bytes 0x0104A8C0 = [192, 168, 4, 1]" by (simp add: le32_bytes_def byte_of_def)
  from frag_needed_sound [OF inet_chksum_model_ok, of True True "0x0104A8C0" 40 odd_syn] n obtain f where
    f: "send_icmp_frag_needed inet_chksum_model True True 0x0104A8C0 40 odd_syn = Some (Some f)"
      "words_sum (drop 34 f) mod 65535 = 0" "drop 42 f = take 28 (drop 14 odd_syn)"
      "take 4 (drop 26 f) = le32_bytes 0x0104A8C0" "f ! 34 = 3" "f ! 35 = 4" "f ! 23 = 1"
      "unat (be16 (f ! 16) (f ! 17)) = length f - 14" by auto
  have "length f - 42 = 28" using arg_cong [OF f(3), of length] q by simp
  then have "unat (be16 (f ! 16) (f ! 17)) = unat (56 :: u16)" using f(8) by simp
  then have "be16 (f ! 16) (f ! 17) = 56" by (simp only: word_unat_eq_iff)
  with f ip show ?thesis by auto
qed

end
