(* ===== verification/Netif_Hooks.thy ===== *)
theory Netif_Hooks
  imports Acl_Theorems Pcap_Stream Client_Stats Frag_Needed
begin

text \<open>
  The hooks in the packet path (\<open>main/netif_hooks.c\<close>): each consults the firewall, rewrites and
  counts the packet, offers it to the capture and hands it on to the function it replaced.
\<close>

section \<open>State\<close>

text \<open>A function pointer of an interface: null, the driver's or lwIP's own, or our hook.\<close>

datatype fnptr = FnNull | FnDriver | FnHook

record netif_fns =
  nf_input :: fnptr
  nf_output :: fnptr
  nf_linkoutput :: fnptr

text \<open>
  The file-scope variables, with the state of the firewall, the capture and the client counters.
  An interface is a number; \<open>None\<close> is a null pointer.
\<close>

record hook_state =
  hs_acl :: acl_state
  hs_pcap :: pcap_state
  client_stats :: "client_stats_entry list"
  client_stats_enabled :: bool
  original_netif_input :: fnptr
  original_netif_linkoutput :: fnptr
  original_netif_output :: fnptr
  sta_netif :: "nat option"
  sta_is_ppp :: bool
  original_ap_netif_input :: fnptr
  original_ap_netif_linkoutput :: fnptr
  ap_netif :: "nat option"
  sta_bytes_sent :: u64
  sta_bytes_received :: u64
  led_toggle :: u8

text \<open>The settings other components own.\<close>

record hook_cfg =
  led_gpio :: int
  led_lowactive :: u8
  ap_connect :: bool
  sta_ttl_override :: u8
  ap_mss_clamp :: u16
  ap_pmtu :: u16
  my_ap_ip :: u32
  vpn_enabled :: bool
  vpn_killswitch :: bool
  vpn_is_connected :: bool
  vpn_route_all :: bool
  vpn_in_subnet :: "u32 \<Rightarrow> bool"

text \<open>
  What the environment supplies during a call: the timer, the time of day, the stack of
  \<open>pcap_capture_packet\<close>, memory for an ICMP reply, lwIP's checksum, and the result of the function
  the hook replaced.
\<close>

record hook_env =
  he_now :: int
  he_tv :: "u32 \<times> u32"
  he_stack :: bytes
  he_alloc :: bool
  inet_chksum :: "bytes \<Rightarrow> u16"
  he_orig :: lwip_err

text \<open>
  What a hook does besides changing the state: drive the LED, free the packet, call the original
  input, the original output, or send a frame of its own to the client.
\<close>

datatype hook_out = GpioSet u8 | PbufFree packet | ToStack packet | ToWire packet | ToClient bytes

section \<open>The parts the hooks share\<close>

text \<open>
  The block at the head of each hook: whether the packet is denied, whether a rule asks for
  monitoring; a denied packet may still be captured.
\<close>

definition acl_gate :: "nat \<Rightarrow> bool \<Rightarrow> hook_env \<Rightarrow> packet option \<Rightarrow> hook_state
    \<Rightarrow> (bool \<times> bool \<times> hook_state) option" where
  "acl_gate acl_no is_ap env p s =
     (if acl_is_empty acl_no (hs_acl s) then Some (False, False, s)
      else do {
        (result, logged, a) \<leftarrow> acl_check_packet acl_no (map_option as_pbuf p) (he_now env) (hs_acl s);
        let s = s\<lparr>hs_acl := a\<rparr>;
            is_acl_monitored = (result \<noteq> ACL_NO_MATCH \<and> result AND ACL_MONITOR \<noteq> 0)
        in if result AND 0x01 = ACL_DENY \<and> result \<noteq> ACL_NO_MATCH
           then (if is_acl_monitored \<and> pcap_should_capture True is_ap (hs_pcap s)
                 then do { c \<leftarrow> pcap_capture_packet (he_tv env) (he_stack env) p (hs_pcap s);
                           Some (True, is_acl_monitored, s\<lparr>hs_pcap := c\<rparr>) }
                 else Some (True, is_acl_monitored, s))
           else Some (False, is_acl_monitored, s) })"

definition hook_capture :: "bool \<Rightarrow> bool \<Rightarrow> hook_env \<Rightarrow> packet option \<Rightarrow> hook_state \<Rightarrow> hook_state option" where
  "hook_capture is_acl_monitored is_ap env p s =
     (if pcap_should_capture is_acl_monitored is_ap (hs_pcap s)
      then do { c \<leftarrow> pcap_capture_packet (he_tv env) (he_stack env) p (hs_pcap s); Some (s\<lparr>hs_pcap := c\<rparr>) }
      else Some s)"

definition toggle_led :: "hook_cfg \<Rightarrow> hook_state \<Rightarrow> hook_out list \<times> hook_state" where
  "toggle_led cfg s =
     (if led_gpio cfg \<ge> 0 \<and> ap_connect cfg
      then let s = s\<lparr>led_toggle := led_toggle s XOR 1\<rparr> in ([GpioSet (led_toggle s XOR led_lowactive cfg)], s)
      else ([], s))"

text \<open>The two counters of the uplink.\<close>

definition count_in :: "hook_cfg \<Rightarrow> nat \<Rightarrow> packet option \<Rightarrow> hook_state \<Rightarrow> hook_out list \<times> hook_state" where
  "count_in cfg netif p s =
     (case p of None \<Rightarrow> ([], s)
      | Some p \<Rightarrow> if sta_netif s = Some netif
          then toggle_led cfg (s\<lparr>sta_bytes_received := sta_bytes_received s + ucast (tot_len p)\<rparr>) else ([], s))"

definition count_out :: "hook_cfg \<Rightarrow> nat \<Rightarrow> packet option \<Rightarrow> hook_state \<Rightarrow> hook_out list \<times> hook_state" where
  "count_out cfg netif p s =
     (case p of None \<Rightarrow> ([], s)
      | Some p \<Rightarrow> if sta_netif s = Some netif
          then toggle_led cfg (s\<lparr>sta_bytes_sent := sta_bytes_sent s + ucast (tot_len p)\<rparr>) else ([], s))"

text \<open>Applying a function to the first segment of the packet, if there is one.\<close>

definition on_payload :: "(bytes \<Rightarrow> bytes option) \<Rightarrow> packet option \<Rightarrow> packet option option" where
  "on_payload f p =
     (case p of None \<Rightarrow> Some None | Some q \<Rightarrow> do { b \<leftarrow> f (payload q); Some (Some (q\<lparr>payload := b\<rparr>)) })"

definition freed :: "packet option \<Rightarrow> hook_out list" where
  "freed p = (case p of None \<Rightarrow> [] | Some q \<Rightarrow> [PbufFree q])"

text \<open>The call of the replaced function, if it is known.\<close>

definition call_original :: "fnptr \<Rightarrow> lwip_err \<Rightarrow> (packet \<Rightarrow> hook_out) \<Rightarrow> hook_env \<Rightarrow> packet option
    \<Rightarrow> lwip_err \<times> hook_out list" where
  "call_original orig missing dest env p =
     (if orig \<noteq> FnNull then (he_orig env, case p of None \<Rightarrow> [] | Some q \<Rightarrow> [dest q]) else (missing, []))"

section \<open>Hooks of the uplink\<close>

definition netif_input_hook :: "hook_cfg \<Rightarrow> hook_env \<Rightarrow> nat \<Rightarrow> packet option \<Rightarrow> hook_state
    \<Rightarrow> (lwip_err \<times> hook_out list \<times> hook_state) option" where
  "netif_input_hook cfg env netif p s = do {
     (denied, monitored, s) \<leftarrow> acl_gate ACL_TO_ESP False env p s;
     if denied then Some (ERR_OK, freed p, s)
     else do {
       s \<leftarrow> hook_capture monitored False env p s;
       let (led, s) = count_in cfg netif p s;
           (err, out) = call_original (original_netif_input s) ERR_VAL ToStack env p
       in Some (err, led @ out, s) } }"

definition netif_linkoutput_hook :: "hook_cfg \<Rightarrow> hook_env \<Rightarrow> nat \<Rightarrow> packet option \<Rightarrow> hook_state
    \<Rightarrow> (lwip_err \<times> hook_out list \<times> hook_state) option" where
  "netif_linkoutput_hook cfg env netif p s = do {
     (denied, monitored, s) \<leftarrow> acl_gate ACL_FROM_ESP False env p s;
     if denied then Some (ERR_OK, [], s)
     else do {
       p \<leftarrow> on_payload (ttl_override_eth (sta_ttl_override cfg)) p;
       s \<leftarrow> hook_capture monitored False env p s;
       let (led, s) = count_out cfg netif p s;
           (err, out) = call_original (original_netif_linkoutput s) ERR_IF ToWire env p
       in Some (err, led @ out, s) } }"

definition netif_output_hook :: "hook_cfg \<Rightarrow> hook_env \<Rightarrow> nat \<Rightarrow> packet option \<Rightarrow> hook_state
    \<Rightarrow> (lwip_err \<times> hook_out list \<times> hook_state) option" where
  "netif_output_hook cfg env netif p s = do {
     (denied, monitored, s) \<leftarrow> acl_gate ACL_FROM_ESP False env p s;
     if denied then Some (ERR_OK, [], s)
     else do {
       p \<leftarrow> on_payload (ttl_override_ip (sta_ttl_override cfg)) p;
       s \<leftarrow> hook_capture monitored False env p s;
       let (led, s) = count_out cfg netif p s;
           (err, out) = call_original (original_netif_output s) ERR_IF ToWire env p
       in Some (err, led @ out, s) } }"

text \<open>\<open>__wrap_ip4_input\<close>: only packets of the hooked interface are looked at; all others pass.\<close>

definition wrap_ip4_input :: "hook_cfg \<Rightarrow> hook_env \<Rightarrow> nat \<Rightarrow> packet option \<Rightarrow> hook_state
    \<Rightarrow> (lwip_err \<times> hook_out list \<times> hook_state) option" where
  "wrap_ip4_input cfg env inp p s =
     (let pass = (\<lambda>s led. Some (he_orig env, led @ (case p of None \<Rightarrow> [] | Some q \<Rightarrow> [ToStack q]), s)) in
      if sta_netif s = Some inp \<and> p \<noteq> None then do {
        (denied, monitored, s) \<leftarrow> acl_gate ACL_TO_ESP False env p s;
        if denied then Some (ERR_OK, freed p, s)
        else do {
          s \<leftarrow> hook_capture monitored False env p s;
          let (led, s) = count_in cfg inp p s in pass s led } }
      else pass s [])"

section \<open>Hooks of the access point\<close>

text \<open>The kill switch: whether a packet must not leave while the VPN is down.\<close>

definition vpn_blocks :: "hook_cfg \<Rightarrow> bytes \<Rightarrow> bool option" where
  "vpn_blocks cfg pl =
     (if vpn_enabled cfg \<and> vpn_killswitch cfg \<and> \<not> vpn_is_connected cfg \<and> length pl \<ge> 14 + IP_HDR_SIZE then do {
        b12 \<leftarrow> rd8 pl 12; b13 \<leftarrow> rd8 pl 13;
        if b12 = 0x08 \<and> b13 = 0x00 then do {
          vhl \<leftarrow> rd8 pl 14;
          if drop_bit 4 vhl = 4 then do {
            dest \<leftarrow> rd32 pl (14 + 16);
            let ap_subnet = my_ap_ip cfg AND htonl 0xFFFFFF00;
                is_local = (dest AND htonl 0xFFFFFF00 = ap_subnet)
            in Some (if \<not> is_local then (if vpn_route_all cfg then True else vpn_in_subnet cfg dest) else False) }
          else Some False }
        else Some False }
      else Some False)"

definition hook_frag_needed :: "hook_cfg \<Rightarrow> hook_env \<Rightarrow> packet option \<Rightarrow> hook_state \<Rightarrow> hook_out list option" where
  "hook_frag_needed cfg env p s =
     (if ap_pmtu cfg > 0 then
        (case p of None \<Rightarrow> Some []
         | Some q \<Rightarrow> do {
             r \<leftarrow> send_icmp_frag_needed (inet_chksum env) (original_ap_netif_linkoutput s \<noteq> FnNull) (he_alloc env)
               (my_ap_ip cfg) (ap_pmtu cfg) (payload q);
             Some (case r of None \<Rightarrow> [] | Some f \<Rightarrow> [ToClient f]) })
      else Some [])"

definition stats_received :: "packet option \<Rightarrow> hook_state \<Rightarrow> hook_state option" where
  "stats_received p s =
     (case p of None \<Rightarrow> Some s
      | Some q \<Rightarrow> if client_stats_enabled s \<and> length (payload q) \<ge> 14
          then do { src_mac \<leftarrow> rd_bytes (payload q) 6 6;
                    Some (s\<lparr>client_stats := count_received src_mac (tot_len q) (client_stats s)\<rparr>) }
          else Some s)"

definition stats_sent :: "packet option \<Rightarrow> hook_state \<Rightarrow> hook_state option" where
  "stats_sent p s =
     (case p of None \<Rightarrow> Some s
      | Some q \<Rightarrow> if client_stats_enabled s \<and> length (payload q) \<ge> 14
          then do { dst_mac \<leftarrow> rd_bytes (payload q) 0 6;
                    Some (s\<lparr>client_stats := count_sent dst_mac (tot_len q) (client_stats s)\<rparr>) }
          else Some s)"

definition ap_netif_input_hook :: "hook_cfg \<Rightarrow> hook_env \<Rightarrow> packet option \<Rightarrow> hook_state
    \<Rightarrow> (lwip_err \<times> hook_out list \<times> hook_state) option" where
  "ap_netif_input_hook cfg env p s = do {
     (denied, monitored, s) \<leftarrow> acl_gate ACL_TO_AP True env p s;
     if denied then Some (ERR_OK, freed p, s)
     else do {
       blocked \<leftarrow> (case p of None \<Rightarrow> Some False | Some q \<Rightarrow> vpn_blocks cfg (payload q));
       if blocked then Some (ERR_OK, freed p, s)
       else do {
         icmp \<leftarrow> hook_frag_needed cfg env p s;
         p \<leftarrow> on_payload (clamp_tcp_mss (ap_mss_clamp cfg)) p;
         s \<leftarrow> stats_received p s;
         s \<leftarrow> hook_capture monitored True env p s;
         let (err, out) = call_original (original_ap_netif_input s) ERR_VAL ToStack env p
         in Some (err, icmp @ out, s) } } }"

definition ap_netif_linkoutput_hook :: "hook_cfg \<Rightarrow> hook_env \<Rightarrow> packet option \<Rightarrow> hook_state
    \<Rightarrow> (lwip_err \<times> hook_out list \<times> hook_state) option" where
  "ap_netif_linkoutput_hook cfg env p s = do {
     (denied, monitored, s) \<leftarrow> acl_gate ACL_FROM_AP True env p s;
     if denied then Some (ERR_OK, [], s)
     else do {
       p \<leftarrow> on_payload (clamp_tcp_mss (ap_mss_clamp cfg)) p;
       s \<leftarrow> stats_sent p s;
       s \<leftarrow> hook_capture monitored True env p s;
       let (err, out) = call_original (original_ap_netif_linkoutput s) ERR_IF ToWire env p
       in Some (err, out, s) } }"

section \<open>Installing and removing the hooks\<close>

text \<open>
  The interface argument is what the pointer in question refers to, with its function pointers;
  the result is the changed interface.  First with a PPPoE or Ethernet uplink
  (\<open>CONFIG_ETH_UPLINK\<close>), then with a Wi-Fi uplink.
\<close>

definition init_byte_counter_eth :: "bool \<Rightarrow> (nat \<times> netif_fns) option \<Rightarrow> bool \<Rightarrow> (nat \<times> netif_fns) option \<Rightarrow> hook_state
    \<Rightarrow> (nat \<times> netif_fns) option \<times> (nat \<times> netif_fns) option \<times> hook_state" where
  "init_byte_counter_eth pppoe_enabled ppp_nif ethNetif eth_nif s =
     (if pppoe_enabled then
        (case ppp_nif of None \<Rightarrow> (ppp_nif, eth_nif, s)
         | Some (n, f) \<Rightarrow>
             if nf_output f \<noteq> FnNull \<and> original_netif_output s = FnNull
             then (Some (n, f\<lparr>nf_output := FnHook\<rparr>), eth_nif,
               s\<lparr>sta_netif := Some n, sta_is_ppp := True, original_netif_output := nf_output f\<rparr>)
             else (ppp_nif, eth_nif, s))
      else if ethNetif \<and> original_netif_input s = FnNull then
        (case eth_nif of None \<Rightarrow> (ppp_nif, eth_nif, s\<lparr>sta_netif := None\<rparr>)
         | Some (n, f) \<Rightarrow> (ppp_nif, Some (n, f\<lparr>nf_input := FnHook, nf_linkoutput := FnHook\<rparr>),
             s\<lparr>sta_netif := Some n, original_netif_input := nf_input f, original_netif_linkoutput := nf_linkoutput f\<rparr>))
      else (ppp_nif, eth_nif, s))"

definition init_byte_counter_wifi :: "bool \<Rightarrow> bool \<Rightarrow> (nat \<times> netif_fns) option \<Rightarrow> hook_state
    \<Rightarrow> (nat \<times> netif_fns) option \<times> hook_state" where
  "init_byte_counter_wifi wifiSTA have_handle nif s =
     (if wifiSTA \<and> original_netif_input s = FnNull then
        (if have_handle then
           (case nif of None \<Rightarrow> (nif, s\<lparr>sta_netif := None\<rparr>)
            | Some (n, f) \<Rightarrow> (Some (n, f\<lparr>nf_input := FnHook, nf_linkoutput := FnHook\<rparr>),
                s\<lparr>sta_netif := Some n, original_netif_input := nf_input f, original_netif_linkoutput := nf_linkoutput f\<rparr>))
         else (nif, s))
      else (nif, s))"

definition deinit_byte_counter_ppp :: "hook_state \<Rightarrow> hook_state" where
  "deinit_byte_counter_ppp s =
     s\<lparr>original_netif_output := FnNull, original_netif_input := FnNull, sta_netif := None, sta_is_ppp := False\<rparr>"

definition init_ap_netif_hooks :: "bool \<Rightarrow> bool \<Rightarrow> (nat \<times> netif_fns) option \<Rightarrow> hook_state
    \<Rightarrow> (nat \<times> netif_fns) option \<times> hook_state" where
  "init_ap_netif_hooks wifiAP have_handle nif s =
     (if wifiAP \<and> original_ap_netif_input s = FnNull then
        (if have_handle then
           (case nif of None \<Rightarrow> (nif, s\<lparr>ap_netif := None\<rparr>)
            | Some (n, f) \<Rightarrow> (Some (n, f\<lparr>nf_input := FnHook, nf_linkoutput := FnHook\<rparr>),
                s\<lparr>ap_netif := Some n, original_ap_netif_input := nf_input f,
                  original_ap_netif_linkoutput := nf_linkoutput f\<rparr>))
         else (nif, s))
      else (nif, s))"

section \<open>Counters\<close>

definition get_sta_bytes_sent :: "hook_state \<Rightarrow> u64" where
  "get_sta_bytes_sent s = sta_bytes_sent s"

definition get_sta_bytes_received :: "hook_state \<Rightarrow> u64" where
  "get_sta_bytes_received s = sta_bytes_received s"

definition reset_sta_byte_counts :: "hook_state \<Rightarrow> hook_state" where
  "reset_sta_byte_counts s = s\<lparr>sta_bytes_sent := 0, sta_bytes_received := 0\<rparr>"

text \<open>\<open>stations\<close>: what \<open>esp_wifi_ap_get_sta_list\<close> returned, with the number of stations.\<close>

definition resync_connect_count :: "esp_err \<times> nat \<Rightarrow> nat \<Rightarrow> nat" where
  "resync_connect_count stations connect_count = (if fst stations = ESP_OK then snd stations else connect_count)"

record napt_stats =
  ns_tcp :: u32
  ns_udp :: u32
  ns_icmp :: u32
  ns_total :: u32
  ns_max :: u32

text \<open>\<open>active\<close>: lwIP's numbers of active TCP, UDP and ICMP mappings, if built with statistics.\<close>

definition get_napt_stats :: "(u32 \<times> u32 \<times> u32) option \<Rightarrow> u32 \<Rightarrow> napt_stats" where
  "get_napt_stats active ip_napt_max =
     (case active of
        Some (t, u, i) \<Rightarrow> \<lparr>ns_tcp = t, ns_udp = u, ns_icmp = i, ns_total = t + u + i, ns_max = ip_napt_max\<rparr>
      | None \<Rightarrow> \<lparr>ns_tcp = 0, ns_udp = 0, ns_icmp = 0, ns_total = 0, ns_max = ip_napt_max\<rparr>)"

end
