(* ===== verification/Hook_Theorems.thy ===== *)
theory Hook_Theorems
  imports Netif_Hooks
begin

text \<open>
  The packet path as a whole: no hook lets a packet through that the firewall denies or the
  kill switch holds back, and none touches memory outside the packet or the capture's buffer.
\<close>

section \<open>The hooks as one family\<close>

datatype hook = StaInput | StaLinkoutput | PppOutput | PppInput | ApInput | ApLinkoutput

fun run_hook :: "hook \<Rightarrow> hook_cfg \<Rightarrow> hook_env \<Rightarrow> nat \<Rightarrow> packet option \<Rightarrow> hook_state
    \<Rightarrow> (lwip_err \<times> hook_out list \<times> hook_state) option" where
  "run_hook StaInput cfg env n p s = netif_input_hook cfg env n p s"
| "run_hook StaLinkoutput cfg env n p s = netif_linkoutput_hook cfg env n p s"
| "run_hook PppOutput cfg env n p s = netif_output_hook cfg env n p s"
| "run_hook PppInput cfg env n p s = wrap_ip4_input cfg env n p s"
| "run_hook ApInput cfg env n p s = ap_netif_input_hook cfg env p s"
| "run_hook ApLinkoutput cfg env n p s = ap_netif_linkoutput_hook cfg env p s"

text \<open>The list a hook consults, and whether it owns the packet (and so frees a denied one).\<close>

fun hook_list :: "hook \<Rightarrow> nat" where
  "hook_list StaInput = ACL_TO_ESP"
| "hook_list StaLinkoutput = ACL_FROM_ESP"
| "hook_list PppOutput = ACL_FROM_ESP"
| "hook_list PppInput = ACL_TO_ESP"
| "hook_list ApInput = ACL_TO_AP"
| "hook_list ApLinkoutput = ACL_FROM_AP"

fun owns_packet :: "hook \<Rightarrow> bool" where
  "owns_packet h \<longleftrightarrow> h \<in> {StaInput, PppInput, ApInput}"

text \<open>\<open>__wrap_ip4_input\<close> sees the packets of every interface and leaves the others alone.\<close>

definition guards :: "hook \<Rightarrow> nat \<Rightarrow> hook_state \<Rightarrow> bool" where
  "guards h n s \<longleftrightarrow> (h = PppInput \<longrightarrow> sta_netif s = Some n)"

fun original_of :: "hook \<Rightarrow> hook_state \<Rightarrow> fnptr" where
  "original_of StaInput s = original_netif_input s"
| "original_of StaLinkoutput s = original_netif_linkoutput s"
| "original_of PppOutput s = original_netif_output s"
| "original_of PppInput s = FnDriver"
| "original_of ApInput s = original_ap_netif_input s"
| "original_of ApLinkoutput s = original_ap_netif_linkoutput s"

text \<open>What the firewall's rules say of a packet.\<close>

definition acl_denies :: "nat \<Rightarrow> acl_state \<Rightarrow> packet \<Rightarrow> bool" where
  "acl_denies n a p =
     (case acl_parse (payload p) of
        Some (Some f) \<Rightarrow> verdict (acl_rules n a) f \<noteq> ACL_NO_MATCH \<and> verdict (acl_rules n a) f AND 0x01 = ACL_DENY
      | _ \<Rightarrow> False)"

fun is_passed :: "hook_out \<Rightarrow> bool" where
  "is_passed (ToStack p) = True"
| "is_passed (ToWire p) = True"
| "is_passed o' = False"

definition passed :: "hook_out list \<Rightarrow> nat" where
  "passed out = length (filter is_passed out)"

definition pcap_ready :: "pcap_state \<Rightarrow> bool" where
  "pcap_ready s \<longleftrightarrow> unat (pcap_snaplen s) \<le> 1600 \<and> rb_ok (pcap_ring s)"

definition hooks_ok :: "hook_state \<Rightarrow> bool" where
  "hooks_ok s \<longleftrightarrow> acl_inv (hs_acl s) \<and> pcap_ready (hs_pcap s)"

text \<open>Everything but the firewall's counters and the capture.\<close>

definition same_rest :: "hook_state \<Rightarrow> hook_state \<Rightarrow> bool" where
  "same_rest s t \<longleftrightarrow> t = s\<lparr>hs_acl := hs_acl t, hs_pcap := hs_pcap t\<rparr>"

section \<open>The shared parts\<close>

lemma capture_ready:
  assumes "pcap_ready s" "packet_ok p" "length stack = 1616"
  shows "\<exists>t. pcap_capture_packet tv stack (Some p) s = Some t \<and> pcap_ready t"
proof (cases "client_connected s")
  case False
  then show ?thesis using assms by (simp add: capture_disconnected)
next
  case True
  let ?r = "pcap_record tv (pcap_snaplen s) p"
  obtain ok r where "ringbuf_write ?r (pcap_ring s) = Some (ok, r)" "rb_ok r"
    using ringbuf_write_law [of "pcap_ring s" ?r] assms(1) by (auto simp: pcap_ready_def)
  with capture_writes_record [OF assms(2) True _ assms(3), of tv] assms(1) show ?thesis
    by (simp add: pcap_ready_def)
qed

lemma hook_capture_result:
  assumes "hooks_ok s" "packet_ok p" "length (he_stack env) = 1616"
  shows "\<exists>t. hook_capture m ap env (Some p) s = Some t \<and> hooks_ok t \<and> same_rest s t \<and> hs_acl t = hs_acl s"
  using capture_ready [of "hs_pcap s" p "he_stack env" "he_tv env"] assms
  by (auto simp: hook_capture_def hooks_ok_def same_rest_def)

lemma acl_empty_rules:
  assumes "acl_inv a" "n < MAX_ACL_LISTS"
  shows "acl_is_empty n a \<longleftrightarrow> acl_rules n a = []"
  using acl_inv_list(6) [OF assms] assms(2) by (simp add: acl_is_empty_def) (metis length_0_conv unat_eq_zero)

lemma acl_check_result:
  assumes "acl_inv a" "n < MAX_ACL_LISTS"
  shows "\<exists>r l t. acl_check_packet n (Some (as_pbuf q)) now a = Some (r, l, t) \<and> acl_inv t \<and>
    (r AND 0x01 = ACL_DENY \<and> r \<noteq> ACL_NO_MATCH \<longleftrightarrow> acl_denies n a q)"
proof (cases "\<exists>f. acl_parse (payload q) = Some (Some f)")
  case True
  then obtain f where f: "acl_parse (payload q) = Some (Some f)" by blast
  obtain r l t where m: "acl_match n f now a = (r, l, t)" by (cases "acl_match n f now a") auto
  note e = acl_match_effect [OF assms m]
  show ?thesis
    using acl_check_free [OF acl_inv_list(4) [OF assms] assms(2) _ m, of "as_pbuf q"] e f
    by (auto simp: acl_denies_def)
next
  case False
  then have "acl_parse (payload q) = Some None" using acl_parse_none by blast
  with assms show ?thesis by (auto simp: acl_check_packet_def acl_denies_def)
qed

lemma not_denied_empty: "acl_rules n a = [] \<Longrightarrow> \<not> acl_denies n a q"
  by (simp add: acl_denies_def verdict_def first_rule_def split: option.splits)

lemma acl_gate_result:
  assumes "hooks_ok s" "n < MAX_ACL_LISTS" "packet_ok q" "length (he_stack env) = 1616"
  shows "\<exists>m t. acl_gate n ap env (Some q) s = Some (acl_denies n (hs_acl s) q, m, t) \<and> hooks_ok t \<and> same_rest s t"
proof (cases "acl_is_empty n (hs_acl s)")
  case True
  then have "acl_rules n (hs_acl s) = []" using assms acl_empty_rules by (auto simp: hooks_ok_def)
  with True assms(1) show ?thesis by (auto simp: acl_gate_def not_denied_empty same_rest_def)
next
  case False
  have inv: "acl_inv (hs_acl s)" using assms(1) by (simp add: hooks_ok_def)
  obtain r l a where a: "acl_check_packet n (Some (as_pbuf q)) (he_now env) (hs_acl s) = Some (r, l, a)" "acl_inv a"
    "r AND 0x01 = ACL_DENY \<and> r \<noteq> ACL_NO_MATCH \<longleftrightarrow> acl_denies n (hs_acl s) q"
    using acl_check_result [OF inv assms(2)] by blast
  obtain c where c: "pcap_capture_packet (he_tv env) (he_stack env) (Some q) (hs_pcap s) = Some c" "pcap_ready c"
    using capture_ready [OF _ assms(3,4), of "hs_pcap s" "he_tv env"] assms(1) by (auto simp: hooks_ok_def)
  show ?thesis
    using False a c assms(1)
    by (auto simp: acl_gate_def hooks_ok_def same_rest_def Let_def)
qed

lemma lists_in_range [simp]: "hook_list h < MAX_ACL_LISTS"
  by (cases h) (simp_all add: acl_consts)

text \<open>The rewriting functions succeed and keep the length.\<close>

definition keeps_length :: "(bytes \<Rightarrow> bytes option) \<Rightarrow> bool" where
  "keeps_length f \<longleftrightarrow> (\<forall>b. \<exists>c. f b = Some c \<and> length c = length b)"

lemma set_ttl_length: "off + 20 \<le> length pl \<Longrightarrow> \<exists>c. set_ttl ttl off pl = Some c \<and> length c = length pl"
  using set_ttl_effect [of off pl ttl] by auto

lemma keeps_length_ttl: "keeps_length (ttl_override_eth ttl)" "keeps_length (ttl_override_ip ttl)"
  unfolding keeps_length_def
  by (auto simp: ttl_override_eth_def ttl_override_ip_def rd8_def IP_HDR_SIZE_def intro!: set_ttl_length)

lemma keeps_length_clamp: "keeps_length (clamp_tcp_mss mx)"
  unfolding keeps_length_def
proof
  fix pl
  show "\<exists>c. clamp_tcp_mss mx pl = Some c \<and> length c = length pl"
  proof (cases "mx = 0 \<or> syn_header pl = None")
    case True
    then show ?thesis by (auto simp: clamp_none) (simp add: clamp_tcp_mss_def)
  next
    case False
    then obtain tcp e where h: "syn_header pl = Some (tcp, e)" by (cases "syn_header pl") auto
    have e: "e \<le> length pl" using h by (auto simp: syn_header_def Let_def split: if_splits)
    obtain r where r: "mss_find pl (tcp + 20) e = Some r" "\<forall>q. r = Some q \<longrightarrow> tcp + 20 + 2 \<le> q \<and> q + 2 \<le> e"
      using mss_find_total [OF e, of "tcp + 20"] by blast
    show ?thesis
    proof (cases r)
      case None
      with False h r show ?thesis by (simp add: clamp_some)
    next
      case (Some q)
      then have q: "tcp + 20 \<le> q" "q + 2 \<le> length pl" using r(2) e by auto
      show ?thesis using set_mss_result [OF q, of mx] False h r Some by (auto simp: clamp_some)
    qed
  qed
qed

lemma packet_ok_payload: "packet_ok q \<Longrightarrow> length b = length (payload q) \<Longrightarrow> packet_ok (q\<lparr>payload := b\<rparr>)"
  by (simp add: packet_ok_def segments_def)

lemma on_payload_result:
  assumes "keeps_length f" "packet_ok q"
  shows "\<exists>b. on_payload f (Some q) = Some (Some (q\<lparr>payload := b\<rparr>)) \<and> packet_ok (q\<lparr>payload := b\<rparr>)"
proof -
  obtain b where b: "f (payload q) = Some b" "length b = length (payload q)"
    using assms(1) by (auto simp: keeps_length_def)
  then show ?thesis using packet_ok_payload [OF assms(2) b(2)] by (auto simp: on_payload_def)
qed

text \<open>Which frames of the access point's clients the kill switch holds back.\<close>

definition vpn_held :: "hook_cfg \<Rightarrow> bytes \<Rightarrow> bool" where
  "vpn_held cfg pl \<longleftrightarrow>
     vpn_enabled cfg \<and> vpn_killswitch cfg \<and> \<not> vpn_is_connected cfg \<and>
     34 \<le> length pl \<and> pl ! 12 = 0x08 \<and> pl ! 13 = 0x00 \<and> drop_bit 4 (pl ! 14) = 4 \<and>
     (let dest = le32 (pl ! 30) (pl ! 31) (pl ! 32) (pl ! 33) in
       dest AND htonl 0xFFFFFF00 \<noteq> my_ap_ip cfg AND htonl 0xFFFFFF00 \<and> (vpn_route_all cfg \<or> vpn_in_subnet cfg dest))"

lemma vpn_blocks_eq: "vpn_blocks cfg pl = Some (vpn_held cfg pl)"
  by (auto simp: vpn_blocks_def vpn_held_def mem_simps IP_HDR_SIZE_def Let_def)

text \<open>The counters and the LED.\<close>

definition counted :: "hook_state \<Rightarrow> nat \<Rightarrow> packet \<Rightarrow> u64" where
  "counted s n q = (if sta_netif s = Some n then ucast (tot_len q) else 0)"

definition led_only :: "hook_out list \<Rightarrow> bool" where
  "led_only out \<longleftrightarrow> (\<forall>x \<in> set out. \<exists>v. x = GpioSet v)"

lemma led_only_simps [simp]: "led_only out \<Longrightarrow> filter is_passed out = []" "led_only out \<Longrightarrow> PbufFree q \<notin> set out"
  by (auto simp: led_only_def filter_empty_conv)

lemma toggle_led_result: "\<exists>led v. toggle_led cfg s = (led, s\<lparr>led_toggle := v\<rparr>) \<and> led_only led"
proof (cases "led_gpio cfg \<ge> 0 \<and> ap_connect cfg")
  case True
  then show ?thesis by (auto simp: toggle_led_def led_only_def Let_def intro!: exI [of _ "led_toggle s XOR 1"])
next
  case False
  then have "toggle_led cfg s = ([], s\<lparr>led_toggle := led_toggle s\<rparr>) \<and> led_only []"
    by (simp add: toggle_led_def led_only_def)
  then show ?thesis by blast
qed

lemma count_in_result: "\<exists>led v. count_in cfg n (Some q) s =
    (led, s\<lparr>sta_bytes_received := sta_bytes_received s + counted s n q, led_toggle := v\<rparr>) \<and> led_only led"
proof (cases "sta_netif s = Some n")
  case True
  then show ?thesis
    using toggle_led_result [of cfg "s\<lparr>sta_bytes_received := sta_bytes_received s + ucast (tot_len q)\<rparr>"]
    by (simp add: count_in_def counted_def)
next
  case False
  then have "count_in cfg n (Some q) s =
      ([], s\<lparr>sta_bytes_received := sta_bytes_received s + counted s n q, led_toggle := led_toggle s\<rparr>) \<and> led_only []"
    by (simp add: count_in_def counted_def led_only_def)
  then show ?thesis by blast
qed

lemma count_out_result: "\<exists>led v. count_out cfg n (Some q) s =
    (led, s\<lparr>sta_bytes_sent := sta_bytes_sent s + counted s n q, led_toggle := v\<rparr>) \<and> led_only led"
proof (cases "sta_netif s = Some n")
  case True
  then show ?thesis
    using toggle_led_result [of cfg "s\<lparr>sta_bytes_sent := sta_bytes_sent s + ucast (tot_len q)\<rparr>"]
    by (simp add: count_out_def counted_def)
next
  case False
  then have "count_out cfg n (Some q) s =
      ([], s\<lparr>sta_bytes_sent := sta_bytes_sent s + counted s n q, led_toggle := led_toggle s\<rparr>) \<and> led_only []"
    by (simp add: count_out_def counted_def led_only_def)
  then show ?thesis by blast
qed

lemma stats_result:
  "\<exists>cs. stats_received (Some q) s = Some (s\<lparr>client_stats := cs\<rparr>)"
  "\<exists>cs. stats_sent (Some q) s = Some (s\<lparr>client_stats := cs\<rparr>)"
proof -
  have same: "\<exists>cs. s = s\<lparr>client_stats := cs\<rparr>" by (rule exI [of _ "client_stats s"]) simp
  show "\<exists>cs. stats_received (Some q) s = Some (s\<lparr>client_stats := cs\<rparr>)"
    using same by (auto simp: stats_received_def mem_simps)
  show "\<exists>cs. stats_sent (Some q) s = Some (s\<lparr>client_stats := cs\<rparr>)"
    using same by (auto simp: stats_sent_def mem_simps)
qed

lemma frag_not_passed:
  "\<exists>out. hook_frag_needed cfg env (Some q) s = Some out \<and> filter is_passed out = [] \<and> PbufFree p \<notin> set out"
  by (auto simp: hook_frag_needed_def frag_needed_eq)

section \<open>One hook\<close>

text \<open>The packets a hook must not let through.\<close>

definition stopped :: "hook \<Rightarrow> hook_cfg \<Rightarrow> nat \<Rightarrow> hook_state \<Rightarrow> packet \<Rightarrow> bool" where
  "stopped h cfg n s q \<longleftrightarrow> guards h n s \<and> acl_denies (hook_list h) (hs_acl s) q \<or>
     h = ApInput \<and> vpn_held cfg (payload q)"

definition same_wiring :: "hook_state \<Rightarrow> hook_state \<Rightarrow> bool" where
  "same_wiring s t \<longleftrightarrow> sta_netif t = sta_netif s \<and> (\<forall>h. original_of h t = original_of h s)"

lemma same_restE:
  assumes "same_rest s t"
  obtains a b where "t = s\<lparr>hs_acl := a, hs_pcap := b\<rparr>"
  using assms unfolding same_rest_def by (rule that)

lemma same_rest_wiring: "same_rest s t \<Longrightarrow> same_wiring s t"
  unfolding same_wiring_def
proof (elim same_restE, intro conjI allI)
  fix a b h assume e: "t = s\<lparr>hs_acl := a, hs_pcap := b\<rparr>"
  show "sta_netif t = sta_netif s" by (simp add: e)
  show "original_of h t = original_of h s" by (cases h) (simp_all add: e)
qed

text \<open>The outcome of a hook for a packet it lets through.\<close>

definition let_through :: "hook \<Rightarrow> nat \<Rightarrow> packet \<Rightarrow> hook_state \<Rightarrow> hook_out list \<Rightarrow> hook_state \<Rightarrow> bool" where
  "let_through h n q s out t \<longleftrightarrow>
     passed out = (if original_of h s \<noteq> FnNull then 1 else 0) \<and> PbufFree q \<notin> set out \<and> same_wiring s t \<and>
     sta_bytes_received t = sta_bytes_received s + (if h \<in> {StaInput, PppInput} then counted s n q else 0) \<and>
     sta_bytes_sent t = sta_bytes_sent s + (if h \<in> {StaLinkoutput, PppOutput} then counted s n q else 0)"

definition hook_effect :: "hook \<Rightarrow> hook_cfg \<Rightarrow> hook_env \<Rightarrow> nat \<Rightarrow> packet \<Rightarrow> hook_state \<Rightarrow> bool" where
  "hook_effect h cfg env n q s \<longleftrightarrow> (\<exists>err out t. run_hook h cfg env n (Some q) s = Some (err, out, t) \<and> hooks_ok t \<and>
     (if stopped h cfg n s q then err = ERR_OK \<and> out = (if owns_packet h then [PbufFree q] else []) \<and> same_rest s t
      else let_through h n q s out t))"

lemmas effect_defs = hook_effect_def stopped_def guards_def let_through_def passed_def

lemma same_rest_fields:
  assumes "same_rest s t"
  shows "sta_netif t = sta_netif s" "sta_bytes_received t = sta_bytes_received s" "sta_bytes_sent t = sta_bytes_sent s"
    "original_netif_input t = original_netif_input s" "original_netif_output t = original_netif_output s"
    "original_netif_linkoutput t = original_netif_linkoutput s" "original_ap_netif_input t = original_ap_netif_input s"
    "original_ap_netif_linkoutput t = original_ap_netif_linkoutput s"
  using assms by (auto elim: same_restE)

lemma same_rest_trans: "same_rest s t \<Longrightarrow> same_rest t u \<Longrightarrow> same_rest s u"
  by (elim same_restE) (simp add: same_rest_def)

lemma wiring_updates:
  "same_wiring s (s\<lparr>sta_bytes_received := x, led_toggle := v\<rparr>)"
  "same_wiring s (s\<lparr>sta_bytes_sent := x, led_toggle := v\<rparr>)" "same_wiring s (s\<lparr>client_stats := c\<rparr>)"
  unfolding same_wiring_def by (auto, (case_tac h, auto)+)

lemma wiring_trans: "same_wiring s t \<Longrightarrow> same_wiring t u \<Longrightarrow> same_wiring s u"
  by (simp add: same_wiring_def)

lemma hooks_ok_updates [simp]:
  "hooks_ok (s\<lparr>sta_bytes_received := x, led_toggle := v\<rparr>) = hooks_ok s"
  "hooks_ok (s\<lparr>sta_bytes_sent := x, led_toggle := v\<rparr>) = hooks_ok s"
  "hooks_ok (s\<lparr>client_stats := c\<rparr>) = hooks_ok s"
  by (simp_all add: hooks_ok_def)

definition ready :: "hook_state \<Rightarrow> packet \<Rightarrow> hook_env \<Rightarrow> bool" where
  "ready s q env \<longleftrightarrow> hooks_ok s \<and> packet_ok q \<and> length (he_stack env) = 1616"

text \<open>The head of every hook, and the counting at its end.\<close>

lemma gate_step:
  assumes "ready s q env"
  obtains m a where "acl_gate (hook_list h) ap env (Some q) s = Some (acl_denies (hook_list h) (hs_acl s) q, m, a)"
    "ready a q env" "same_rest s a"
  using acl_gate_result [OF _ lists_in_range, of s q env h ap] assms by (auto simp: ready_def)

lemma capture_step:
  assumes "ready s q env" "packet_ok p"
  obtains b where "hook_capture m ap env (Some p) s = Some b" "hooks_ok b" "same_rest s b"
  using hook_capture_result [of s p env m ap] assms by (auto simp: ready_def)

lemma effect_input:
  assumes r: "ready s q env" and "h = StaInput \<or> h = PppInput"
  shows "hook_effect h cfg env n q s"
proof -
  obtain m a where a: "acl_gate (hook_list h) False env (Some q) s = Some (acl_denies (hook_list h) (hs_acl s) q, m, a)"
    "ready a q env" "same_rest s a"
    by (rule gate_step [OF r])
  have p: "packet_ok q" using r by (simp add: ready_def)
  obtain b where b: "hook_capture m False env (Some q) a = Some b" "hooks_ok b" "same_rest a b"
    by (rule capture_step [OF a(2) p])
  obtain led v where c: "count_in cfg n (Some q) b =
      (led, b\<lparr>sta_bytes_received := sta_bytes_received b + counted b n q, led_toggle := v\<rparr>)" "led_only led"
    using count_in_result by blast
  note f = same_rest_fields [OF same_rest_trans [OF a(3) b(3)]]
  have w: "same_wiring s (b\<lparr>sta_bytes_received := x, led_toggle := v\<rparr>)" for x
    using same_rest_wiring [OF same_rest_trans [OF a(3) b(3)]] wiring_trans wiring_updates by blast
  have o: "same_wiring s s" "hooks_ok s" "hooks_ok a" using r a(2) by (simp_all add: same_wiring_def ready_def)
  let ?out = "case h of StaInput \<Rightarrow> call_original (original_netif_input s) ERR_VAL ToStack env (Some q)
    | _ \<Rightarrow> (he_orig env, [ToStack q])"
  consider "\<not> guards h n s" | "guards h n s" "acl_denies (hook_list h) (hs_acl s) q"
    | "guards h n s" "\<not> acl_denies (hook_list h) (hs_acl s) q" by blast
  then show ?thesis
  proof cases
    case 1
    then show ?thesis
      using assms(2) o by (auto simp: effect_defs wrap_ip4_input_def counted_def)
  next
    case 2
    then show ?thesis
      using assms(2) a(1,3) o by (auto simp: effect_defs netif_input_hook_def wrap_ip4_input_def freed_def)
  next
    case 3
    have run: "run_hook h cfg env n (Some q) s = (let (err, out) = ?out
        in Some (err, led @ out, b\<lparr>sta_bytes_received := sta_bytes_received b + counted b n q, led_toggle := v\<rparr>))"
      using assms(2) 3 a(1) b(1) c(1) f
      by (elim disjE) (simp_all add: netif_input_hook_def wrap_ip4_input_def guards_def split: prod.split)
    show ?thesis
      using assms(2) 3 run b(2) c(2) w f
      by (elim disjE) (auto simp: effect_defs call_original_def counted_def)
  qed
qed

lemma effect_output:
  assumes r: "ready s q env" and "h = StaLinkoutput \<or> h = PppOutput"
  shows "hook_effect h cfg env n q s"
proof -
  obtain m a where a: "acl_gate (hook_list h) False env (Some q) s = Some (acl_denies (hook_list h) (hs_acl s) q, m, a)"
    "ready a q env" "same_rest s a"
    by (rule gate_step [OF r])
  have p: "packet_ok q" using r by (simp add: ready_def)
  define f where "f = (if h = StaLinkoutput then ttl_override_eth else ttl_override_ip) (sta_ttl_override cfg)"
  have "keeps_length f" by (simp add: f_def keeps_length_ttl)
  then obtain pl where pl: "on_payload f (Some q) = Some (Some (q\<lparr>payload := pl\<rparr>))" "packet_ok (q\<lparr>payload := pl\<rparr>)"
    using on_payload_result [OF _ p] by blast
  let ?q = "q\<lparr>payload := pl\<rparr>"
  obtain b where b: "hook_capture m False env (Some ?q) a = Some b" "hooks_ok b" "same_rest a b"
    by (rule capture_step [OF a(2) pl(2)])
  obtain led v where c: "count_out cfg n (Some ?q) b =
      (led, b\<lparr>sta_bytes_sent := sta_bytes_sent b + counted b n ?q, led_toggle := v\<rparr>)" "led_only led"
    using count_out_result by blast
  note g = same_rest_fields [OF same_rest_trans [OF a(3) b(3)]]
  have w: "same_wiring s (b\<lparr>sta_bytes_sent := x, led_toggle := v\<rparr>)" for x
    using same_rest_wiring [OF same_rest_trans [OF a(3) b(3)]] wiring_trans wiring_updates by blast
  have o: "hooks_ok a" using a(2) by (simp add: ready_def)
  show ?thesis
  proof (cases "acl_denies (hook_list h) (hs_acl s) q")
    case True
    then show ?thesis
      using assms(2) a(1,3) o by (auto simp: effect_defs netif_linkoutput_hook_def netif_output_hook_def)
  next
    case False
    have run: "run_hook h cfg env n (Some q) s = (let (err, out) = call_original (original_of h s) ERR_IF ToWire env (Some ?q)
        in Some (err, led @ out, b\<lparr>sta_bytes_sent := sta_bytes_sent b + counted b n ?q, led_toggle := v\<rparr>))"
      using assms(2) False a(1) pl(1) b(1) c(1) g
      by (elim disjE) (simp_all add: netif_linkoutput_hook_def netif_output_hook_def f_def split: prod.split)
    show ?thesis
      using assms(2) False run b(2) c(2) w g
      by (elim disjE) (auto simp: effect_defs call_original_def counted_def)
  qed
qed

lemma effect_ap_output:
  assumes r: "ready s q env"
  shows "hook_effect ApLinkoutput cfg env n q s"
proof -
  let ?h = ApLinkoutput
  obtain m a where a: "acl_gate (hook_list ?h) True env (Some q) s = Some (acl_denies (hook_list ?h) (hs_acl s) q, m, a)"
    "ready a q env" "same_rest s a"
    by (rule gate_step [OF r])
  have p: "packet_ok q" using r by (simp add: ready_def)
  obtain pl where pl: "on_payload (clamp_tcp_mss (ap_mss_clamp cfg)) (Some q) = Some (Some (q\<lparr>payload := pl\<rparr>))"
    "packet_ok (q\<lparr>payload := pl\<rparr>)"
    using on_payload_result [OF keeps_length_clamp p] by blast
  let ?q = "q\<lparr>payload := pl\<rparr>"
  obtain cs where cs: "stats_sent (Some ?q) a = Some (a\<lparr>client_stats := cs\<rparr>)" using stats_result(2) by blast
  have ra: "ready (a\<lparr>client_stats := cs\<rparr>) q env" using a(2) by (simp add: ready_def)
  obtain b where b: "hook_capture m True env (Some ?q) (a\<lparr>client_stats := cs\<rparr>) = Some b" "hooks_ok b"
    "same_rest (a\<lparr>client_stats := cs\<rparr>) b"
    by (rule capture_step [OF ra pl(2)])
  note g = same_rest_fields [OF b(3), simplified] and g' = same_rest_fields [OF a(3)]
  have w: "same_wiring s b"
    using same_rest_wiring [OF a(3)] same_rest_wiring [OF b(3)] wiring_updates(3) [of a cs] wiring_trans by blast
  have o: "hooks_ok a" using a(2) by (simp add: ready_def)
  show ?thesis
    using a(1,3) b(1,2) g g' pl(1) cs w o
    by (cases "acl_denies (hook_list ?h) (hs_acl s) q")
      (simp_all add: effect_defs ap_netif_linkoutput_hook_def call_original_def)
qed

lemma effect_ap_input:
  assumes r: "ready s q env"
  shows "hook_effect ApInput cfg env n q s"
proof -
  let ?h = ApInput
  obtain m a where a: "acl_gate (hook_list ?h) True env (Some q) s = Some (acl_denies (hook_list ?h) (hs_acl s) q, m, a)"
    "ready a q env" "same_rest s a"
    by (rule gate_step [OF r])
  have p: "packet_ok q" using r by (simp add: ready_def)
  obtain pl where pl: "on_payload (clamp_tcp_mss (ap_mss_clamp cfg)) (Some q) = Some (Some (q\<lparr>payload := pl\<rparr>))"
    "packet_ok (q\<lparr>payload := pl\<rparr>)"
    using on_payload_result [OF keeps_length_clamp p] by blast
  let ?q = "q\<lparr>payload := pl\<rparr>"
  obtain cs where cs: "stats_received (Some ?q) a = Some (a\<lparr>client_stats := cs\<rparr>)" using stats_result(1) by blast
  have ra: "ready (a\<lparr>client_stats := cs\<rparr>) q env" using a(2) by (simp add: ready_def)
  obtain b where b: "hook_capture m True env (Some ?q) (a\<lparr>client_stats := cs\<rparr>) = Some b" "hooks_ok b"
    "same_rest (a\<lparr>client_stats := cs\<rparr>) b"
    by (rule capture_step [OF ra pl(2)])
  obtain icmp where icmp: "hook_frag_needed cfg env (Some q) a = Some icmp" "filter is_passed icmp = []" "PbufFree q \<notin> set icmp"
    using frag_not_passed by blast
  note g = same_rest_fields [OF b(3), simplified] and g' = same_rest_fields [OF a(3)]
  have w: "same_wiring s b"
    using same_rest_wiring [OF a(3)] same_rest_wiring [OF b(3)] wiring_updates(3) [of a cs] wiring_trans by blast
  have o: "hooks_ok a" using a(2) by (simp add: ready_def)
  show ?thesis
    using a(1,3) b(1,2) g g' pl(1) cs w o icmp
    by (cases "acl_denies (hook_list ?h) (hs_acl s) q"; cases "vpn_held cfg (payload q)")
      (simp_all add: effect_defs ap_netif_input_hook_def call_original_def freed_def vpn_blocks_eq)
qed

lemma hook_effects: "ready s q env \<Longrightarrow> hook_effect h cfg env n q s"
  by (cases h) (auto intro: effect_input effect_output effect_ap_input effect_ap_output)

section \<open>Sequences of hook calls\<close>

text \<open>Hook calls in the order they happen, with the settings fixed; the log has what each one did.\<close>

fun run_hooks :: "hook_cfg \<Rightarrow> nat \<Rightarrow> (hook \<times> hook_env \<times> packet) list \<Rightarrow> hook_state
    \<Rightarrow> ((hook \<times> packet \<times> hook_out list) list \<times> hook_state) option" where
  "run_hooks cfg n [] s = Some ([], s)"
| "run_hooks cfg n ((h, env, q) # es) s = do {
     (err, out, t) \<leftarrow> run_hook h cfg env n (Some q) s;
     (log, u) \<leftarrow> run_hooks cfg n es t;
     Some ((h, q, out) # log, u) }"

abbreviation uplink_out :: "hook set" where "uplink_out \<equiv> {StaLinkoutput, PppOutput}"
abbreviation uplink_in :: "hook set" where "uplink_in \<equiv> {StaInput, PppInput}"

text \<open>The bytes of the packets that got through the hooks \<open>H\<close>.\<close>

definition volume :: "hook set \<Rightarrow> (hook \<times> packet \<times> hook_out list) list \<Rightarrow> u64" where
  "volume H log = (\<Sum>(h, q, out) \<leftarrow> log. if h \<in> H \<and> passed out = 1 then ucast (tot_len q) else 0)"

definition installed :: "nat \<Rightarrow> hook_state \<Rightarrow> bool" where
  "installed n s \<longleftrightarrow> sta_netif s = Some n \<and> (\<forall>h \<in> uplink_in \<union> uplink_out. original_of h s \<noteq> FnNull)"

lemma one_hook_accounts:
  assumes "ready s q env" "installed n s"
  shows "\<exists>err out t. run_hook h cfg env n (Some q) s = Some (err, out, t) \<and> hooks_ok t \<and> installed n t \<and> passed out \<le> 1 \<and>
    sta_bytes_sent t = sta_bytes_sent s + (if h \<in> uplink_out \<and> passed out = 1 then ucast (tot_len q) else 0) \<and>
    sta_bytes_received t = sta_bytes_received s + (if h \<in> uplink_in \<and> passed out = 1 then ucast (tot_len q) else 0)"
proof -
  obtain err out t where r: "run_hook h cfg env n (Some q) s = Some (err, out, t)" "hooks_ok t"
    "if stopped h cfg n s q then err = ERR_OK \<and> out = (if owns_packet h then [PbufFree q] else []) \<and> same_rest s t
     else let_through h n q s out t"
    using hook_effects [OF assms(1), of h cfg n] unfolding hook_effect_def by blast
  show ?thesis
  proof (cases "stopped h cfg n s q")
    case True
    with r(3) have "passed out = 0" "same_rest s t" by (auto simp: passed_def)
    with r(1,2) same_rest_fields [OF \<open>same_rest s t\<close>] same_rest_wiring [OF \<open>same_rest s t\<close>] assms(2)
    show ?thesis by (simp add: installed_def same_wiring_def)
  next
    case False
    with r(3) have l: "let_through h n q s out t" by simp
    then have p: "passed out = (if original_of h s \<noteq> FnNull then 1 else 0)" "installed n t"
      using assms(2) by (simp_all add: let_through_def installed_def same_wiring_def)
    moreover have "h \<in> uplink_in \<union> uplink_out \<Longrightarrow> passed out = 1" "counted s n q = ucast (tot_len q)"
      using p(1) assms(2) by (auto simp: installed_def counted_def)
    ultimately show ?thesis using r(1,2) l by (simp add: let_through_def) (cases h, auto)
  qed
qed

section \<open>Properties\<close>

text \<open>
  C5: Whatever packet a hook is called with, it reads and writes inside the packet and the
  capture's buffer only, and keeps the invariants of the firewall and the capture.  A packet
  that the first matching rule of the hook's list denies is not passed on, nor is one the VPN's
  kill switch holds back; it is freed where the hook owns it and not counted.  Any other packet
  is passed on once, if the replaced function is known, and counted if it belongs to the uplink.
\<close>

theorem hooks_enforce_policy:
  assumes "hooks_ok s" "packet_ok q" "length (he_stack env) = 1616"
  shows "\<exists>err out t. run_hook h cfg env n (Some q) s = Some (err, out, t) \<and> hooks_ok t \<and>
    (if guards h n s \<and> acl_denies (hook_list h) (hs_acl s) q \<or> h = ApInput \<and> vpn_held cfg (payload q)
     then err = ERR_OK \<and> out = (if owns_packet h then [PbufFree q] else []) \<and> same_rest s t
     else passed out = (if original_of h s \<noteq> FnNull then 1 else 0) \<and> PbufFree q \<notin> set out \<and> same_wiring s t \<and>
       sta_bytes_received t = sta_bytes_received s + (if h \<in> {StaInput, PppInput} then counted s n q else 0) \<and>
       sta_bytes_sent t = sta_bytes_sent s + (if h \<in> {StaLinkoutput, PppOutput} then counted s n q else 0))"
  using hook_effects [of s q env h cfg n] assms by (simp only: hook_effect_def stopped_def let_through_def ready_def)

definition sample_hooks :: hook_state where
  "sample_hooks = \<lparr>hs_acl = acl_boot, hs_pcap = serving (empty_ring 40) [], client_stats = [], client_stats_enabled = False,
     original_netif_input = FnDriver, original_netif_linkoutput = FnDriver, original_netif_output = FnDriver,
     sta_netif = Some 1, sta_is_ppp = False, original_ap_netif_input = FnDriver, original_ap_netif_linkoutput = FnDriver,
     ap_netif = Some 2, sta_bytes_sent = 0, sta_bytes_received = 0, led_toggle = 0\<rparr>"

definition sample_cfg :: hook_cfg where
  "sample_cfg = \<lparr>led_gpio = -1, led_lowactive = 0, ap_connect = True, sta_ttl_override = 0, ap_mss_clamp = 0, ap_pmtu = 0,
     my_ap_ip = 0x0104A8C0, vpn_enabled = True, vpn_killswitch = True, vpn_is_connected = False, vpn_route_all = True,
     vpn_in_subnet = (\<lambda>_. False)\<rparr>"

definition sample_env :: hook_env where
  "sample_env = \<lparr>he_now = 0, he_tv = (0, 0), he_stack = replicate 1616 0, he_alloc = True, inet_chksum = (\<lambda>_. 0), he_orig = ERR_OK\<rparr>"

definition sample_frame :: packet where
  "sample_frame = \<lparr>payload = replicate 12 0 @ [8, 0] @ sample_ip_packet, tot_len = 54, chained = []\<rparr>"

lemma sample_hooks_ok: "hooks_ok sample_hooks" "packet_ok sample_frame" "length (he_stack sample_env) = 1616"
proof -
  have "pcap_ok (serving (empty_ring 40) [])" by (rule serving_ok) simp
  then show "hooks_ok sample_hooks"
    by (simp add: hooks_ok_def pcap_ready_def pcap_ok_def sample_hooks_def acl_boot_inv)
qed (simp_all add: packet_ok_def segments_def sample_frame_def sample_ip_packet_def sample_env_def)

lemma sample_held: "vpn_held sample_cfg (payload sample_frame)" by code_simp

theorem hooks_enforce_policy_witness:
  "\<exists>t. run_hook ApInput sample_cfg sample_env 0 (Some sample_frame) sample_hooks = Some (ERR_OK, [PbufFree sample_frame], t)"
  using hooks_enforce_policy [OF sample_hooks_ok, of ApInput sample_cfg 0] sample_held by auto

text \<open>
  With the hooks of the uplink installed, after any sequence of packets through any of the
  hooks, the counter of sent bytes has grown by the lengths of the packets handed to the
  uplink's driver, that of received bytes by those of the packets handed to the stack from it;
  no packet is handed on twice, and a packet that was stopped is in neither counter.
\<close>

theorem uplink_accounting:
  assumes "hooks_ok s" "installed n s" "\<forall>(h, env, q) \<in> set es. packet_ok q \<and> length (he_stack env) = 1616"
  shows "\<exists>log t. run_hooks cfg n es s = Some (log, t) \<and> map (\<lambda>(h, q, out). (h, q)) log = map (\<lambda>(h, env, q). (h, q)) es \<and>
    (\<forall>(h, q, out) \<in> set log. passed out \<le> 1) \<and>
    sta_bytes_sent t = sta_bytes_sent s + volume uplink_out log \<and>
    sta_bytes_received t = sta_bytes_received s + volume uplink_in log"
  using assms
proof (induction es arbitrary: s)
  case Nil
  then show ?case by (simp add: volume_def)
next
  case (Cons e es)
  obtain h env q where e: "e = (h, env, q)" by (cases e)
  have r: "ready s q env" using Cons.prems e by (simp add: ready_def)
  obtain err out t where t: "run_hook h cfg env n (Some q) s = Some (err, out, t)" "hooks_ok t" "installed n t" "passed out \<le> 1"
    "sta_bytes_sent t = sta_bytes_sent s + (if h \<in> uplink_out \<and> passed out = 1 then ucast (tot_len q) else 0)"
    "sta_bytes_received t = sta_bytes_received s + (if h \<in> uplink_in \<and> passed out = 1 then ucast (tot_len q) else 0)"
    using one_hook_accounts [OF r Cons.prems(2), of h cfg] by blast
  have es: "\<forall>(h, env, q) \<in> set es. packet_ok q \<and> length (he_stack env) = 1616" using Cons.prems(3) by simp
  obtain log u where u: "run_hooks cfg n es t = Some (log, u)" "map (\<lambda>(h, q, out). (h, q)) log = map (\<lambda>(h, env, q). (h, q)) es"
    "\<forall>(h, q, out) \<in> set log. passed out \<le> 1"
    "sta_bytes_sent u = sta_bytes_sent t + volume uplink_out log" "sta_bytes_received u = sta_bytes_received t + volume uplink_in log"
    using Cons.IH [OF t(2,3) es] by blast
  have v: "volume H ((h, q, out) # log) = (if h \<in> H \<and> passed out = 1 then ucast (tot_len q) else 0) + volume H log" for H
    by (simp add: volume_def)
  show ?case
    using t(1,4) u e by (simp add: v t(5,6) add.assoc del: One_nat_def)
qed

theorem uplink_accounting_witness:
  "\<exists>log t. run_hooks sample_cfg 1 [(PppOutput, sample_env, sample_frame), (ApInput, sample_env, sample_frame)] sample_hooks
      = Some (log, t) \<and> sta_bytes_sent t = volume uplink_out log"
  using uplink_accounting [OF sample_hooks_ok(1), of 1
      "[(PppOutput, sample_env, sample_frame), (ApInput, sample_env, sample_frame)]" sample_cfg] sample_hooks_ok
  by (auto simp: installed_def sample_hooks_def)

end
