(* ===== verification/Config_Params.thy ===== *)
theory Config_Params
  imports Acl_Theorems Config_Store
begin

text \<open>
  The configuration store of \<open>components/cmd_router/cmd_router.c\<close>: named strings and
  integers in NVS, percent decoding and boolean words, the router password, the rule that
  keeps the web server off the uplink, and the import of a WireGuard configuration file.
\<close>

section \<open>Named parameters\<close>

text \<open>The part of the NVS library for strings and 32-bit integers; \<open>'n\<close> is the flash.\<close>

record 'n nvs_par =
  np_open :: "'n \<Rightarrow> esp_err"
  np_get_str :: "'n \<Rightarrow> string \<Rightarrow> esp_err \<times> string"
  np_set_str :: "'n \<Rightarrow> string \<Rightarrow> string \<Rightarrow> esp_err \<times> 'n"
  np_get_i32 :: "'n \<Rightarrow> string \<Rightarrow> esp_err \<times> int"
  np_set_i32 :: "'n \<Rightarrow> string \<Rightarrow> int \<Rightarrow> esp_err \<times> 'n"
  np_commit :: "'n \<Rightarrow> esp_err \<times> 'n"

definition secrets :: "string list" where
  "secrets = [''passwd'', ''ap_passwd'', ''pppoe_pass'', ''vpn_privkey'', ''vpn_psk'',
     ''web_password'', ''mqtt_pass'', ''ddns_pass'', ''ddns_token'']"

definition is_secret_param :: "string \<Rightarrow> bool" where
  "is_secret_param name \<longleftrightarrow> name \<in> set secrets"

text \<open>
  The accessors; the string list is what is written to the log.  \<open>alloc_ok\<close>: \<open>malloc\<close> got its
  memory; \<open>second\<close>: the result of the second \<open>nvs_get_str\<close>, which is not looked at.
\<close>

definition get_config_param_str :: "'n nvs_par \<Rightarrow> bool \<Rightarrow> string \<Rightarrow> string option \<Rightarrow> 'n
    \<Rightarrow> esp_err \<times> string option \<times> string list" where
  "get_config_param_str api alloc_ok name param n =
     (if np_open api n = ESP_OK then
        let (err, v) = np_get_str api n name in
        if err = ESP_OK then
          (if \<not> alloc_ok then (ESP_ERR_NO_MEM, None, [])
           else (ESP_OK, Some v, [name @ '' '' @ (if is_secret_param name then ''<hidden>'' else v)]))
        else (err, param, [])
      else (np_open api n, param, []))"

definition get_config_param_int :: "'n nvs_par \<Rightarrow> string \<Rightarrow> int \<Rightarrow> 'n \<Rightarrow> esp_err \<times> int" where
  "get_config_param_int api name param n =
     (if np_open api n = ESP_OK then
        let (err, v) = np_get_i32 api n name in
        if err = ESP_OK then (ESP_OK, v) else (err, param)
      else (np_open api n, param))"

definition set_config_param_str :: "'n nvs_par \<Rightarrow> string \<Rightarrow> string \<Rightarrow> 'n \<Rightarrow> esp_err \<times> 'n \<times> string list" where
  "set_config_param_str api name value n =
     (if np_open api n \<noteq> ESP_OK then (np_open api n, n, [])
      else let log = [''Set config: '' @ name @ '' '' @ value];
               (err, n) = np_set_str api n name value in
        if err = ESP_OK then let (err, n) = np_commit api n in (err, n, log) else (err, n, log))"

definition set_config_param_int :: "'n nvs_par \<Rightarrow> string \<Rightarrow> int \<Rightarrow> 'n \<Rightarrow> esp_err \<times> 'n" where
  "set_config_param_int api name value n =
     (if np_open api n \<noteq> ESP_OK then (np_open api n, n)
      else let (err, n) = np_set_i32 api n name value in
        if err = ESP_OK then np_commit api n else (err, n))"

text \<open>A store without flash errors, as NVS documents it: it holds what was stored last.\<close>

definition par_works :: "'n nvs_par \<Rightarrow> bool" where
  "par_works api \<longleftrightarrow> (\<forall>n. np_open api n = ESP_OK) \<and>
     (\<forall>n k v. fst (np_set_str api n k v) = ESP_OK \<and>
        (\<forall>k'. np_get_str api (snd (np_set_str api n k v)) k' = (if k' = k then (ESP_OK, v) else np_get_str api n k'))) \<and>
     (\<forall>n. fst (np_commit api n) = ESP_OK \<and> (\<forall>k. np_get_str api (snd (np_commit api n)) k = np_get_str api n k))"

text \<open>A store of that kind: a map of strings and a map of numbers.\<close>

type_synonym par_map = "(string \<rightharpoonup> string) \<times> (string \<rightharpoonup> int)"

definition nvs_par_map :: "par_map nvs_par" where
  "nvs_par_map = \<lparr>np_open = (\<lambda>n. ESP_OK),
     np_get_str = (\<lambda>n k. case fst n k of None \<Rightarrow> (ESP_ERR_NVS_NOT_FOUND, []) | Some v \<Rightarrow> (ESP_OK, v)),
     np_set_str = (\<lambda>n k v. (ESP_OK, (fst n)(k \<mapsto> v), snd n)),
     np_get_i32 = (\<lambda>n k. case snd n k of None \<Rightarrow> (ESP_ERR_NVS_NOT_FOUND, 0) | Some v \<Rightarrow> (ESP_OK, v)),
     np_set_i32 = (\<lambda>n k v. (ESP_OK, fst n, (snd n)(k \<mapsto> v))),
     np_commit = (\<lambda>n. (ESP_OK, n))\<rparr>"

lemma nvs_par_map_works: "par_works nvs_par_map"
  by (simp add: par_works_def nvs_par_map_def)

lemma set_str_ok:
  assumes "par_works api"
  shows "\<exists>n' log. set_config_param_str api k v n = (ESP_OK, n', log) \<and>
    (\<forall>k'. np_get_str api n' k' = (if k' = k then (ESP_OK, v) else np_get_str api n k'))"
proof -
  obtain n1 where 1: "np_set_str api n k v = (ESP_OK, n1)"
    using assms by (cases "np_set_str api n k v") (auto simp: par_works_def, metis fst_conv)
  obtain n2 where 2: "np_commit api n1 = (ESP_OK, n2)"
    using assms by (cases "np_commit api n1") (auto simp: par_works_def, metis fst_conv)
  have "np_get_str api n1 k' = (if k' = k then (ESP_OK, v) else np_get_str api n k')"
    "np_get_str api n2 k' = np_get_str api n1 k'" for k'
    using assms 1 2 unfolding par_works_def by (metis snd_conv)+
  then show ?thesis using assms 1 2 by (simp add: set_config_param_str_def par_works_def)
qed

section \<open>Words and escapes\<close>

definition is_hex_digit :: "char \<Rightarrow> bool" where
  "is_hex_digit c \<longleftrightarrow> (let n = of_char c :: nat in
     (n \<ge> 48 \<and> n \<le> 57) \<or> (n \<ge> 65 \<and> n \<le> 70) \<or> (n \<ge> 97 \<and> n \<le> 102))"

definition hex_digit_value :: "char \<Rightarrow> u8" where
  "hex_digit_value c = (let n = of_char c :: nat in
     if n \<ge> 48 \<and> n \<le> 57 then of_nat (n - 48) else of_nat ((if n \<ge> 97 then n - 32 else n) - 65 + 10))"

definition parse_bool_true :: "string \<Rightarrow> bool" where
  "parse_bool_true str \<longleftrightarrow> strcaseeq str ''true'' \<or> strcaseeq str ''yes'' \<or> strcaseeq str ''on'' \<or> str = ''1''"

definition parse_bool_false :: "string \<Rightarrow> bool" where
  "parse_bool_false str \<longleftrightarrow> strcaseeq str ''false'' \<or> strcaseeq str ''no'' \<or> strcaseeq str ''off'' \<or> str = ''0''"

text \<open>
  \<open>preprocess_string\<close> decodes a form value in place; the result is never longer than the
  part read, so the write position never overtakes the read position.  The value here is the text
  that is left in the buffer: it ends at a decoded zero byte.
\<close>

fun preprocess_string :: "string \<Rightarrow> string" where
  "preprocess_string [] = []"
| "preprocess_string (c # s) =
     (case s of
        a # b # r \<Rightarrow>
          if c = CHR ''%'' \<and> is_hex_digit a \<and> is_hex_digit b
          then (let d = char_of (unat (push_bit 4 (hex_digit_value a) + hex_digit_value b)) in
            if d = CHR 0x00 then [] else d # preprocess_string r)
          else (if c = CHR ''+'' then CHR '' '' else c) # preprocess_string s
      | _ \<Rightarrow> (if c = CHR ''+'' then CHR '' '' else c) # preprocess_string s)"

section \<open>The router password\<close>

text \<open>
  Characters as bytes, and back.  \<open>sha256\<close> is mbedtls; \<open>salt\<close> what \<open>esp_fill_random\<close> returns;
  \<open>mem\<close> what the uninitialised buffer of 98 characters holds.
\<close>

definition str_bytes :: "string \<Rightarrow> bytes" where
  "str_bytes s = map of_char s"

definition PW_SALT_LEN :: nat where "PW_SALT_LEN = 16"
definition PW_HASH_LEN :: nat where "PW_HASH_LEN = 32"

definition hex_char :: "nat \<Rightarrow> char" where
  "hex_char d = ''0123456789abcdef'' ! d"

definition print_02x :: "u8 \<Rightarrow> string" where
  "print_02x b = [hex_char (unat b div 16), hex_char (unat b mod 16)]"

text \<open>Each \<open>sprintf\<close> also writes a terminating NUL, as does the end.\<close>

fun pw_bytes_to_hex :: "bytes \<Rightarrow> nat \<Rightarrow> string \<Rightarrow> string option" where
  "pw_bytes_to_hex [] pos out = wr_bytes out pos [CHR 0x00]"
| "pw_bytes_to_hex (b # bs) pos out = do {
     out \<leftarrow> wr_bytes out pos (print_02x b @ [CHR 0x00]);
     pw_bytes_to_hex bs (pos + 2) out }"

text \<open>\<open>sscanf(s, "%2x", &b)\<close>, truncated to a byte: \<open>None\<close> when it converts nothing.\<close>

definition scan_2x :: "string \<Rightarrow> u8 option" where
  "scan_2x s =
     (case dropWhile is_space s of
        [] \<Rightarrow> None
      | c # r \<Rightarrow>
          if c = CHR ''-'' then (case r of d # _ \<Rightarrow> if is_hex_digit d then Some (- hex_digit_value d) else None | [] \<Rightarrow> None)
          else if c = CHR ''+'' then (case r of d # _ \<Rightarrow> if is_hex_digit d then Some (hex_digit_value d) else None | [] \<Rightarrow> None)
          else if is_hex_digit c then
            (case r of d # _ \<Rightarrow> if is_hex_digit d then Some (16 * hex_digit_value c + hex_digit_value d) else Some (hex_digit_value c)
             | [] \<Rightarrow> Some (hex_digit_value c))
          else None)"

fun pw_hex_to_bytes :: "string \<Rightarrow> nat \<Rightarrow> bytes option" where
  "pw_hex_to_bytes src 0 = Some []"
| "pw_hex_to_bytes src (Suc k) = do {
     b \<leftarrow> scan_2x src; bs \<leftarrow> pw_hex_to_bytes (drop 2 src) k; Some (b # bs) }"

definition pw_compute_hash :: "(bytes \<Rightarrow> bytes) \<Rightarrow> bytes \<Rightarrow> string \<Rightarrow> bytes" where
  "pw_compute_hash sha256 salt plaintext = sha256 (salt @ str_bytes plaintext)"

text \<open>The comparison: the differences of all bytes are collected.\<close>

definition pw_differs :: "bytes \<Rightarrow> bytes \<Rightarrow> bool" where
  "pw_differs a b \<longleftrightarrow> foldl (OR) 0 (map2 (XOR) a b) \<noteq> 0"

definition is_web_password_set :: "'n nvs_par \<Rightarrow> 'n \<Rightarrow> bool" where
  "is_web_password_set api n =
     (if np_open api n \<noteq> ESP_OK then False
      else let (err, v) = np_get_str api n ''web_password'' in err = ESP_OK \<and> length v + 1 > 1)"

definition set_web_password_hashed :: "'n nvs_par \<Rightarrow> (bytes \<Rightarrow> bytes) \<Rightarrow> bytes \<Rightarrow> string \<Rightarrow> string \<Rightarrow> 'n
    \<Rightarrow> (esp_err \<times> 'n) option" where
  "set_web_password_hashed api sha256 salt mem plaintext n =
     (if plaintext = [] then let (err, n, log) = set_config_param_str api ''web_password'' [] n in Some (err, n)
      else let hash = pw_compute_hash sha256 salt plaintext in do {
        buf \<leftarrow> pw_bytes_to_hex salt 0 mem;
        buf \<leftarrow> wr_bytes buf (PW_SALT_LEN * 2) [CHR '':''];
        buf \<leftarrow> pw_bytes_to_hex hash (PW_SALT_LEN * 2 + 1) buf;
        let (err, n, log) = set_config_param_str api ''web_password'' (takeWhile (\<lambda>c. c \<noteq> CHR 0x00) buf) n
        in Some (err, n) })"

definition verify_web_password :: "'n nvs_par \<Rightarrow> (bytes \<Rightarrow> bytes) \<Rightarrow> bytes \<Rightarrow> string \<Rightarrow> bool \<Rightarrow> string \<Rightarrow> 'n
    \<Rightarrow> (bool \<times> 'n) option" where
  "verify_web_password api sha256 salt mem alloc_ok plaintext n =
     (if np_open api n \<noteq> ESP_OK then Some (False, n)
      else let (err, stored) = np_get_str api n ''web_password'' in
        if err \<noteq> ESP_OK \<or> length stored + 1 \<le> 1 then Some (False, n)
        else if \<not> alloc_ok then Some (False, n)
        else let prefix = takeWhile (\<lambda>c. c \<noteq> CHR '':'') stored; rest = drop (length prefix + 1) stored in
          if length prefix < length stored \<and> length prefix = PW_SALT_LEN * 2 \<and> length rest = PW_HASH_LEN * 2 then
            (case (pw_hex_to_bytes stored PW_SALT_LEN, pw_hex_to_bytes rest PW_HASH_LEN) of
               (Some salt', Some stored_hash) \<Rightarrow>
                 Some (\<not> pw_differs stored_hash (pw_compute_hash sha256 salt' plaintext), n)
             | _ \<Rightarrow> Some (False, n))
          else if stored = plaintext then do {
            (err, n) \<leftarrow> set_web_password_hashed api sha256 salt mem plaintext n; Some (True, n) }
          else Some (False, n))"

text \<open>The console command: whether it succeeded, and whether it calls \<open>update_web_wan_acl(0)\<close>.\<close>

definition set_router_password_cmd :: "'n nvs_par \<Rightarrow> (bytes \<Rightarrow> bytes) \<Rightarrow> bytes \<Rightarrow> string \<Rightarrow> string list \<Rightarrow> 'n
    \<Rightarrow> (bool \<times> bool \<times> 'n) option" where
  "set_router_password_cmd api sha256 salt mem argv n =
     (if length argv < 2 then Some (False, False, n)
      else do {
        (err, n) \<leftarrow> set_web_password_hashed api sha256 salt mem (argv ! 1) n;
        if err = ESP_OK \<and> argv ! 1 = [] then
          let (e, wan_access) = get_config_param_int api ''wan_access'' 0 n in
          if wan_access \<noteq> 0 then let (e, n) = set_config_param_int api ''wan_access'' 0 n in Some (True, True, n)
          else Some (True, False, n)
        else Some (err = ESP_OK, False, n) })"

section \<open>Keeping the web server off the uplink\<close>

definition wan_rule :: "u16 \<Rightarrow> acl_entry_t \<Rightarrow> bool" where
  "wan_rule web_port r \<longleftrightarrow> ae_valid r \<noteq> 0 \<and> ae_proto r = IPPROTO_TCP \<and> ae_d_port r = web_port \<and>
     ae_allow r = ACL_DENY \<and> ae_src r = 0 \<and> ae_dest r = 0"

text \<open>\<open>web_port\<close>: the configured port (80 without one).  The result says whether a change succeeded.\<close>

definition update_web_wan_acl :: "bool \<Rightarrow> int \<Rightarrow> acl_state \<Rightarrow> (bool \<times> acl_state) option" where
  "update_web_wan_acl wan_access web_port s =
     (if \<not> wan_access then do {
        s \<leftarrow> acl_lock s;
        let found = (find_first (wan_rule (word_of_int web_port)) (acl_lists s ! ACL_TO_ESP) \<noteq> None);
            s = acl_unlock s
        in if \<not> found then acl_add ACL_TO_ESP 0 0 0 0 IPPROTO_TCP 0 (word_of_int web_port) ACL_DENY s
           else Some (True, s) }
      else do {
        s \<leftarrow> acl_lock s;
        let slot = find_first (wan_rule (word_of_int web_port)) (acl_lists s ! ACL_TO_ESP);
            s = acl_unlock s
        in case slot of Some i \<Rightarrow> acl_delete ACL_TO_ESP i s | None \<Rightarrow> Some (True, s) })"

section \<open>Importing a WireGuard configuration\<close>

definition prefix_to_netmask :: "int \<Rightarrow> string" where
  "prefix_to_netmask prefix =
     (let prefix = (if prefix < 0 then 0 else prefix);
          prefix = (if prefix > 32 then 32 else prefix);
          mask = (if prefix \<noteq> 0 then push_bit (nat (32 - prefix)) (0xFFFFFFFF :: u32) else 0);
          byte = (\<lambda>k. dec_string (unat (drop_bit k mask AND 0xFF)))
      in byte 24 @ ''.'' @ byte 16 @ ''.'' @ byte 8 @ ''.'' @ byte 0)"

definition trim_ws :: "string \<Rightarrow> string" where
  "trim_ws s = rev (dropWhile is_space (rev (dropWhile is_space s)))"

text \<open>\<open>strtok_r(buf, "\n", \<dots>)\<close>: the non-empty pieces between line ends.\<close>

fun lines_of :: "string \<Rightarrow> string \<Rightarrow> string list" where
  "lines_of [] acc = (if acc = [] then [] else [acc])"
| "lines_of (c # s) acc =
     (if c = CHR 0x0A then (if acc = [] then lines_of s [] else acc # lines_of s [])
      else lines_of s (acc @ [c]))"

definition before :: "char \<Rightarrow> string \<Rightarrow> string" where
  "before c s = takeWhile (\<lambda>x. x \<noteq> c) s"

text \<open>\<open>strlcpy\<close> into an array of \<open>n\<close> characters.\<close>

definition strlcpy :: "string \<Rightarrow> nat \<Rightarrow> string" where
  "strlcpy v n = take (n - 1) v"

fun is_substring :: "string \<Rightarrow> string \<Rightarrow> bool" where
  "is_substring p [] \<longleftrightarrow> p = []"
| "is_substring p (c # s) \<longleftrightarrow> take (length p) (c # s) = p \<or> is_substring p s"

record wg_conf =
  wg_privkey :: string
  wg_pubkey :: string
  wg_psk :: string
  wg_endpoint_host :: string
  wg_address_ip :: string
  wg_netmask :: string
  wg_dns :: string
  wg_port :: int
  wg_keepalive :: int
  wg_route_all :: int
  wg_have_port :: bool

definition wg_start :: wg_conf where
  "wg_start = \<lparr>wg_privkey = [], wg_pubkey = [], wg_psk = [], wg_endpoint_host = [], wg_address_ip = [], wg_netmask = [],
     wg_dns = [], wg_port = 51820, wg_keepalive = 0, wg_route_all = -1, wg_have_port = False\<rparr>"

text \<open>One setting; the endpoint is split at its last colon.\<close>

definition wg_setting :: "string \<Rightarrow> string \<Rightarrow> wg_conf \<Rightarrow> wg_conf" where
  "wg_setting key val c =
     (if strcaseeq key ''PrivateKey'' then c\<lparr>wg_privkey := strlcpy val 128\<rparr>
      else if strcaseeq key ''PublicKey'' then c\<lparr>wg_pubkey := strlcpy val 128\<rparr>
      else if strcaseeq key ''PresharedKey'' then c\<lparr>wg_psk := strlcpy val 128\<rparr>
      else if strcaseeq key ''Address'' then
        (let first = trim_ws (before (CHR '','') val);
             prefix = (if CHR ''/'' \<in> set first then atoi (drop (length (before (CHR ''/'') first) + 1) first) else 32)
         in c\<lparr>wg_address_ip := strlcpy (trim_ws (before (CHR ''/'') first)) 48,
              wg_netmask := strlcpy (prefix_to_netmask prefix) 16\<rparr>)
      else if strcaseeq key ''DNS'' then c\<lparr>wg_dns := strlcpy (trim_ws (before (CHR '','') val)) 128\<rparr>
      else if strcaseeq key ''Endpoint'' then
        (if CHR '':'' \<in> set val then
           let tail = rev (takeWhile (\<lambda>x. x \<noteq> CHR '':'') (rev val));
               host = take (length val - length tail - 1) val
           in c\<lparr>wg_port := atoi tail, wg_have_port := True, wg_endpoint_host := strlcpy (trim_ws host) 128\<rparr>
         else c\<lparr>wg_endpoint_host := strlcpy (trim_ws val) 128\<rparr>)
      else if strcaseeq key ''PersistentKeepalive'' then c\<lparr>wg_keepalive := atoi val\<rparr>
      else if strcaseeq key ''AllowedIPs'' then c\<lparr>wg_route_all := (if is_substring ''0.0.0.0/0'' val then 1 else 0)\<rparr>
      else c)"

definition wg_line :: "string \<Rightarrow> wg_conf \<Rightarrow> wg_conf" where
  "wg_line l c =
     (let p = trim_ws l in
      if p = [] \<or> p ! 0 = CHR ''#'' \<or> p ! 0 = CHR '';'' \<or> p ! 0 = CHR ''['' then c
      else if CHR ''='' \<notin> set p then c
      else let key = trim_ws (before (CHR ''='') p);
               val = trim_ws (drop (length (before (CHR ''='') p) + 1) p)
           in if val = [] then c else wg_setting key val c)"

definition wg_parse :: "string \<Rightarrow> wg_conf" where
  "wg_parse text = foldl (\<lambda>c l. wg_line l c) wg_start (lines_of text [])"

text \<open>What is stored, in order; the results of the calls are not looked at.\<close>

datatype param_set = SetStr string string | SetInt string int

definition wg_settings :: "wg_conf \<Rightarrow> param_set list" where
  "wg_settings c =
     [SetStr ''vpn_privkey'' (wg_privkey c), SetStr ''vpn_pubkey'' (wg_pubkey c), SetStr ''vpn_psk'' (wg_psk c),
      SetStr ''vpn_endpoint'' (wg_endpoint_host c), SetStr ''vpn_ip'' (wg_address_ip c),
      SetStr ''vpn_mask'' (if wg_netmask c \<noteq> [] then wg_netmask c else ''255.255.255.255'')] @
     (if wg_dns c \<noteq> [] then [SetStr ''vpn_dns'' (wg_dns c)] else []) @
     (if wg_have_port c then [SetInt ''vpn_port'' (wg_port c)] else []) @
     [SetInt ''vpn_ka'' (wg_keepalive c)] @
     (if wg_route_all c \<ge> 0 then [SetInt ''vpn_rall'' (wg_route_all c)] else []) @
     [SetInt ''vpn_enabled'' 1]"

fun apply_param :: "'n nvs_par \<Rightarrow> param_set \<Rightarrow> 'n \<Rightarrow> 'n" where
  "apply_param api (SetStr k v) n = fst (snd (set_config_param_str api k v n))"
| "apply_param api (SetInt k v) n = snd (set_config_param_int api k v n)"

definition vpn_import_conf :: "'n nvs_par \<Rightarrow> bool \<Rightarrow> string option \<Rightarrow> 'n \<Rightarrow> esp_err \<times> 'n" where
  "vpn_import_conf api alloc_ok text n =
     (case text of None \<Rightarrow> (ESP_ERR_INVALID_ARG, n)
      | Some t \<Rightarrow>
          if \<not> alloc_ok then (ESP_ERR_NO_MEM, n)
          else let c = wg_parse t in
            if wg_privkey c = [] \<or> wg_pubkey c = [] \<or> wg_endpoint_host c = [] \<or> wg_address_ip c = []
            then (ESP_ERR_INVALID_ARG, n)
            else (ESP_OK, foldl (\<lambda>n p. apply_param api p n) n (wg_settings c)))"

end
