(* ===== verification/Config_Theorems.thy ===== *)
theory Config_Theorems
  imports Config_Params
begin

text \<open>
  The router password can be checked again after it was stored; the rule that shields the web
  server works when it is installed, and is not always installed; secrets reach the log.
\<close>

section \<open>Hexadecimal\<close>

lemma hex_digit_cases: "d < 16 \<Longrightarrow> d \<in> {0, 1, 2, 3, 4, 5, 6, 7, 8, 9, 10, 11, 12, 13, 14, 15}" for d :: nat
proof -
  assume "d < 16"
  then have "d \<in> set [0..<16]" by simp
  also have "[0..<16] = [0, 1, 2, 3, 4, 5, 6, 7, 8, 9, 10, 11, 12, 13, 14, 15 :: nat]" by code_simp
  finally show ?thesis by (simp only: list.set)
qed

lemma hex_char_digit:
  assumes "d < 16"
  shows "is_hex_digit (hex_char d)" "hex_digit_value (hex_char d) = of_nat d" "\<not> is_space (hex_char d)"
    "hex_char d \<noteq> CHR ''-''" "hex_char d \<noteq> CHR ''+''" "hex_char d \<noteq> CHR '':''" "hex_char d \<noteq> CHR 0x00"
  using hex_digit_cases [OF assms]
  by (elim insertE; simp add: hex_char_def is_hex_digit_def hex_digit_value_def is_space_def)+

lemma nibbles: "unat b div 16 < 16" "unat b mod 16 < 16" for b :: u8
  using unsigned_less [of b, where ?'a = nat] by simp_all

lemma scan_print: "scan_2x (print_02x b @ s) = Some b"
proof -
  define h l where "h = unat b div 16" and "l = unat b mod 16"
  have n: "h < 16" "l < 16" by (simp_all only: h_def l_def nibbles)
  have "16 * h + l = unat b" by (simp add: h_def l_def)
  then have "(of_nat (16 * h + l) :: u8) = b" by simp
  then have v: "16 * of_nat h + of_nat l = b" by simp
  have "print_02x b @ s = hex_char h # hex_char l # s" by (simp add: print_02x_def h_def l_def)
  then show ?thesis
    using hex_char_digit [OF n(1)] hex_char_digit [OF n(2)] v by (simp only:) (simp add: scan_2x_def)
qed

abbreviation hex_string :: "bytes \<Rightarrow> string" where
  "hex_string bs \<equiv> concat (map print_02x bs)"

lemma length_hex [simp]: "length (hex_string bs) = 2 * length bs"
  by (induction bs) (simp_all add: print_02x_def)

lemma hex_chars: "c \<in> set (hex_string bs) \<Longrightarrow> c \<noteq> CHR '':'' \<and> c \<noteq> CHR 0x00"
proof -
  assume "c \<in> set (hex_string bs)"
  then obtain b where "c \<in> set (print_02x b)" by auto
  then have "c = hex_char (unat b div 16) \<or> c = hex_char (unat b mod 16)"
    by (simp only: print_02x_def list.set insert_iff empty_iff) simp
  then show ?thesis by (elim disjE) (simp_all only: hex_char_digit(6,7) [OF nibbles(1)] hex_char_digit(6,7) [OF nibbles(2)] simp_thms)
qed

lemma hex_roundtrip: "pw_hex_to_bytes (hex_string bs @ s) (length bs) = Some bs"
proof (induction bs)
  case (Cons b bs)
  have d: "drop 2 (hex_string (b # bs) @ s) = hex_string bs @ s" by (simp add: print_02x_def)
  have "scan_2x (hex_string (b # bs) @ s) = Some b" using scan_print by simp
  with Cons d show ?case by (simp only: length_Cons pw_hex_to_bytes.simps) simp
qed simp

lemma hex_written:
  assumes "pos + 2 * length bs + 1 \<le> length out"
  shows "pw_bytes_to_hex bs pos out =
    Some (take pos out @ hex_string bs @ [CHR 0x00] @ drop (pos + 2 * length bs + 1) out)"
  using assms
proof (induction bs arbitrary: pos out)
  case Nil
  then show ?case by (simp add: wr_bytes_def)
next
  case (Cons b bs)
  have two: "length (print_02x b) = 2" by (simp add: print_02x_def)
  let ?o = "take pos out @ print_02x b @ [CHR 0x00] @ drop (pos + 3) out"
  have w: "wr_bytes out pos (print_02x b @ [CHR 0x00]) = Some ?o"
    using Cons.prems two by (simp add: wr_bytes_def)
  have l: "pos + 2 + 2 * length bs + 1 \<le> length ?o" using Cons.prems two by simp
  have t: "take (pos + 2) ?o = take pos out @ print_02x b" using Cons.prems two by simp
  have d: "drop (pos + 2 + 2 * length bs + 1) ?o = drop (pos + 2 * length (b # bs) + 1) out"
    using Cons.prems two by (simp add: add.commute add.left_commute numeral_3_eq_3)
  show ?case using w Cons.IH [OF l] by (simp only: pw_bytes_to_hex.simps t d bind.bind_lunit) simp
qed

section \<open>The password\<close>

text \<open>What is stored for a password.\<close>

definition pw_record :: "bytes \<Rightarrow> bytes \<Rightarrow> string" where
  "pw_record salt hash = hex_string salt @ CHR '':'' # hex_string hash"

lemma pw_differs_iff: "length a = length b \<Longrightarrow> pw_differs a b \<longleftrightarrow> a \<noteq> b"
proof -
  assume l: "length a = length b"
  have or0: "foldl (OR) x ys = 0 \<longleftrightarrow> x = 0 \<and> (\<forall>y \<in> set ys. y = 0)" for x :: u8 and ys
    by (induction ys arbitrary: x) (auto simp: or_eq_0_iff)
  have xor0: "x XOR y = 0 \<longleftrightarrow> x = y" for x y :: u8
  proof
    assume "x XOR y = 0"
    then have "(x XOR y) XOR y = y" by simp
    then show "x = y" by (simp only: xor.assoc xor_self_eq xor.right_neutral)
  qed simp
  have "(\<forall>y \<in> set (map2 (XOR) a b). y = 0) \<longleftrightarrow> a = b"
    using l by (induction a b rule: list_induct2) (auto simp: xor0)
  with or0 show ?thesis by (simp add: pw_differs_def)
qed

lemma store_password:
  assumes "length salt = 16" "length hash = 32" "length mem = 98"
  shows "\<exists>b1 b2 b3. pw_bytes_to_hex salt 0 mem = Some b1 \<and> wr_bytes b1 (PW_SALT_LEN * 2) [CHR '':''] = Some b2 \<and>
    pw_bytes_to_hex hash (PW_SALT_LEN * 2 + 1) b2 = Some b3 \<and>
    takeWhile (\<lambda>c. c \<noteq> CHR 0x00) b3 = pw_record salt hash"
proof -
  let ?s = "hex_string salt" and ?h = "hex_string hash"
  have l: "length ?s = 32" "length ?h = 64" using assms by simp_all
  have 1: "pw_bytes_to_hex salt 0 mem = Some (?s @ [CHR 0x00] @ drop 33 mem)"
    using hex_written [of 0 salt mem] assms by simp
  have 2: "wr_bytes (?s @ [CHR 0x00] @ drop 33 mem) (PW_SALT_LEN * 2) [CHR '':''] = Some (?s @ CHR '':'' # drop 33 mem)"
    using assms l by (simp add: wr_bytes_def PW_SALT_LEN_def)
  have 3: "pw_bytes_to_hex hash (PW_SALT_LEN * 2 + 1) (?s @ CHR '':'' # drop 33 mem) =
      Some (pw_record salt hash @ [CHR 0x00])"
    using hex_written [of 33 hash "?s @ CHR '':'' # drop 33 mem"] assms l by (simp add: PW_SALT_LEN_def pw_record_def)
  have "c \<noteq> CHR 0x00" if "c \<in> set (pw_record salt hash)" for c
    using that hex_chars by (auto simp: pw_record_def)
  then have "takeWhile (\<lambda>c. c \<noteq> CHR 0x00) (pw_record salt hash @ [CHR 0x00]) = pw_record salt hash"
    by (simp add: takeWhile_append)
  with 1 2 3 show ?thesis by blast
qed

lemma set_password:
  assumes "par_works api" "\<forall>x. length (sha256 x) = 32" "length salt = 16" "length mem = 98" "pw \<noteq> []"
  shows "\<exists>n'. set_web_password_hashed api sha256 salt mem pw n = Some (ESP_OK, n') \<and>
    np_get_str api n' ''web_password'' = (ESP_OK, pw_record salt (pw_compute_hash sha256 salt pw))"
proof -
  have h: "length (pw_compute_hash sha256 salt pw) = 32" using assms(2) by (simp add: pw_compute_hash_def)
  obtain b1 b2 b3 where b: "pw_bytes_to_hex salt 0 mem = Some b1" "wr_bytes b1 (PW_SALT_LEN * 2) [CHR '':''] = Some b2"
    "pw_bytes_to_hex (pw_compute_hash sha256 salt pw) (PW_SALT_LEN * 2 + 1) b2 = Some b3"
    "takeWhile (\<lambda>c. c \<noteq> CHR 0x00) b3 = pw_record salt (pw_compute_hash sha256 salt pw)"
    using store_password [OF assms(3) h assms(4)] by blast
  obtain n' log where n: "set_config_param_str api ''web_password'' (pw_record salt (pw_compute_hash sha256 salt pw)) n = (ESP_OK, n', log)"
    "np_get_str api n' ''web_password'' = (ESP_OK, pw_record salt (pw_compute_hash sha256 salt pw))"
    using set_str_ok [OF assms(1)] by metis
  show ?thesis using b n assms(5) by (simp add: set_web_password_hashed_def Let_def)
qed

lemma verify_stored:
  assumes "np_open api n = ESP_OK" "np_get_str api n ''web_password'' = (ESP_OK, pw_record salt hash)"
    "length salt = 16" "length hash = 32" "\<forall>x. length (sha256 x) = 32"
  shows "verify_web_password api sha256 s mem True pw n = Some (pw_compute_hash sha256 salt pw = hash, n)"
proof -
  have t: "takeWhile (\<lambda>c. c \<noteq> CHR '':'') (pw_record salt hash) = hex_string salt"
    using hex_chars by (simp add: pw_record_def takeWhile_append)
  have d: "drop (length (hex_string salt) + 1) (pw_record salt hash) = hex_string hash" by (simp add: pw_record_def)
  have r: "pw_hex_to_bytes (pw_record salt hash) PW_SALT_LEN = Some salt" "pw_hex_to_bytes (hex_string hash) PW_HASH_LEN = Some hash"
    using hex_roundtrip [of salt "CHR '':'' # hex_string hash"] hex_roundtrip [of hash "[]"] assms(3,4)
    by (simp_all add: pw_record_def PW_SALT_LEN_def PW_HASH_LEN_def)
  have l: "length (pw_record salt hash) = 97" "length (hex_string salt) = 32" "length (hex_string hash) = 64"
    using assms(3,4) by (simp_all add: pw_record_def)
  have c: "\<not> pw_differs hash (pw_compute_hash sha256 salt pw) \<longleftrightarrow> pw_compute_hash sha256 salt pw = hash"
    using pw_differs_iff [of hash "pw_compute_hash sha256 salt pw"] assms(4,5) by (auto simp: pw_compute_hash_def)
  show ?thesis
    unfolding verify_web_password_def Let_def
    using assms(1,2) l t d r c by (simp add: PW_SALT_LEN_def PW_HASH_LEN_def) (simp add: pw_record_def)
qed

section \<open>Properties\<close>

text \<open>
  C16: After a password was stored, exactly the passwords with the same salted hash are accepted,
  however often they are tried, and the check changes nothing; after the empty password was
  stored none is required and none is accepted.  Neither writes outside its buffer.
\<close>

theorem password_check:
  assumes "par_works api" "\<forall>x. length (sha256 x) = 32" "length salt = 16" "length mem = 98"
  shows "\<exists>n'. set_web_password_hashed api sha256 salt mem pw n = Some (ESP_OK, n') \<and>
    is_web_password_set api n' = (pw \<noteq> []) \<and>
    (\<forall>guess s m. verify_web_password api sha256 s m True guess n' =
      Some (pw \<noteq> [] \<and> sha256 (salt @ str_bytes guess) = sha256 (salt @ str_bytes pw), n'))"
proof (cases "pw = []")
  case True
  obtain n' log where n: "set_config_param_str api ''web_password'' [] n = (ESP_OK, n', log)"
    "np_get_str api n' ''web_password'' = (ESP_OK, [])"
    using set_str_ok [OF assms(1)] by metis
  with assms(1) True show ?thesis
    by (simp add: set_web_password_hashed_def is_web_password_set_def verify_web_password_def par_works_def)
next
  case False
  obtain n' where n: "set_web_password_hashed api sha256 salt mem pw n = Some (ESP_OK, n')"
    "np_get_str api n' ''web_password'' = (ESP_OK, pw_record salt (pw_compute_hash sha256 salt pw))"
    using set_password [OF assms False] by blast
  have o: "np_open api n' = ESP_OK" using assms(1) by (simp add: par_works_def)
  have h: "length (pw_compute_hash sha256 salt pw) = 32" using assms(2) by (simp add: pw_compute_hash_def)
  have "is_web_password_set api n'" using n(2) o by (simp add: is_web_password_set_def pw_record_def)
  then show ?thesis
    using n(1) verify_stored [OF o n(2) assms(3) h assms(2)] False by (simp add: pw_compute_hash_def)
qed

definition sample_sha :: "bytes \<Rightarrow> bytes" where
  "sample_sha x = take 32 (drop 16 x @ replicate 32 0)"

theorem password_check_witness:
  "\<exists>n'. set_web_password_hashed nvs_par_map sample_sha (replicate 16 7) (replicate 98 CHR ''x'') ''secret'' (\<lambda>_. None, \<lambda>_. None)
      = Some (ESP_OK, n') \<and>
    verify_web_password nvs_par_map sample_sha [] [] True ''secret'' n' = Some (True, n') \<and>
    verify_web_password nvs_par_map sample_sha [] [] True ''secreT'' n' = Some (False, n')"
proof -
  have len: "\<forall>x. length (sample_sha x) = 32" by (auto simp: sample_sha_def min_def)
  obtain n' where n: "set_web_password_hashed nvs_par_map sample_sha (replicate 16 7) (replicate 98 CHR ''x'') ''secret'' (\<lambda>_. None, \<lambda>_. None)
      = Some (ESP_OK, n')"
    "\<And>guess s m. verify_web_password nvs_par_map sample_sha s m True guess n' = Some (''secret'' \<noteq> [] \<and>
       sample_sha (replicate 16 7 @ str_bytes guess) = sample_sha (replicate 16 7 @ str_bytes ''secret''), n')"
    using password_check [OF nvs_par_map_works len length_replicate length_replicate, of 7 "CHR ''x''" "''secret''" "(\<lambda>_. None, \<lambda>_. None)"]
    by blast
  have "sample_sha (replicate 16 7 @ str_bytes ''secreT'') \<noteq> sample_sha (replicate 16 7 @ str_bytes ''secret'')" by code_simp
  with n show ?thesis by auto
qed

text \<open>A password stored in the clear by an earlier version is replaced by its hash when it is first used.\<close>

lemma legacy_password:
  assumes "par_works api" "\<forall>x. length (sha256 x) = 32" "length salt = 16" "length mem = 98" "pw \<noteq> []"
    "np_get_str api n ''web_password'' = (ESP_OK, pw)" "CHR '':'' \<notin> set pw"
  shows "\<exists>n'. verify_web_password api sha256 salt mem True pw n = Some (True, n') \<and>
    verify_web_password api sha256 s m True pw n' = Some (True, n') \<and>
    (guess \<noteq> pw \<longrightarrow> verify_web_password api sha256 salt mem True guess n = Some (False, n))"
proof -
  have o: "np_open api k = ESP_OK" for k using assms(1) by (simp add: par_works_def)
  have t: "takeWhile (\<lambda>c. c \<noteq> CHR '':'') pw = pw" using assms(7) by (auto simp: takeWhile_eq_all_conv)
  obtain n' where n: "set_web_password_hashed api sha256 salt mem pw n = Some (ESP_OK, n')"
    "np_get_str api n' ''web_password'' = (ESP_OK, pw_record salt (pw_compute_hash sha256 salt pw))"
    using set_password [OF assms(1-5)] by blast
  have h: "length (pw_compute_hash sha256 salt pw) = 32" using assms(2) by (simp add: pw_compute_hash_def)
  have v: "verify_web_password api sha256 salt mem True x n =
      (if pw = x then do { (err, n) \<leftarrow> set_web_password_hashed api sha256 salt mem x n; Some (True, n) } else Some (False, n))" for x
    unfolding verify_web_password_def Let_def assms(6) prod.case t using o assms(5) by auto
  show ?thesis
    using v [of pw] v [of guess] n(1) verify_stored [OF o n(2) assms(3) h assms(2), of s m pw] by auto
qed

section \<open>The rule that shields the web server\<close>

text \<open>The search over the slots finds what a search over the rules finds.\<close>

lemma wan_search:
  assumes "acl_inv s"
  shows "find_first (wan_rule p) (acl_lists s ! ACL_TO_ESP) = find_first (wan_rule p) (acl_rules ACL_TO_ESP s)"
proof -
  have n: "ACL_TO_ESP < MAX_ACL_LISTS" by (simp add: acl_consts)
  obtain zs where zs: "acl_lists s ! ACL_TO_ESP = filter acl_used (acl_lists s ! ACL_TO_ESP) @ zs" "\<forall>e \<in> set zs. \<not> acl_used e"
    using acl_inv_list(2) [OF assms n] by (rule acl_compactE)
  have "find_first (wan_rule p) (acl_rules ACL_TO_ESP s @ zs) = find_first (wan_rule p) (acl_rules ACL_TO_ESP s)"
    using zs(2) by (intro find_first_append_none) (simp add: wan_rule_def)
  then show ?thesis using zs(1) by (simp add: acl_rules_def)
qed

lemma update_wan_free:
  assumes "acl_inv s"
  shows "update_web_wan_acl wan port s =
    (let slot = find_first (wan_rule (word_of_int port)) (acl_rules ACL_TO_ESP s) in
     if \<not> wan then (if slot = None then acl_add ACL_TO_ESP 0 0 0 0 IPPROTO_TCP 0 (word_of_int port) ACL_DENY s else Some (True, s))
     else (case slot of Some i \<Rightarrow> acl_delete ACL_TO_ESP i s | None \<Rightarrow> Some (True, s)))"
proof -
  have m: "acl_mutex s \<noteq> MutexHeld" using acl_inv_list(4) [OF assms, of 0] by (simp add: MAX_ACL_LISTS_def)
  show ?thesis
    by (auto simp: update_web_wan_acl_def acl_lock_free [OF m] acl_unlock_taken [OF m] wan_search [OF assms] Let_def
        split: option.splits)
qed

abbreviation wan_deny :: "u16 \<Rightarrow> acl_entry_t" where
  "wan_deny p \<equiv> acl_new_entry 0 0 0 0 IPPROTO_TCP 0 p ACL_DENY"

lemma wan_deny_covers: "rule_covers f (wan_deny p) \<longleftrightarrow> f_proto f = IPPROTO_TCP \<and> (p \<noteq> 0 \<longrightarrow> f_dst_port f = p)"
  by (auto simp: rule_covers_def acl_new_entry_def acl_consts)

lemma verdict_append: "verdict (rs @ [r]) f =
    (if \<exists>x \<in> set rs. rule_covers f x then verdict rs f else if rule_covers f r then acl_action r else ACL_NO_MATCH)"
  by (induction rs) (auto simp: verdict_def first_rule_def)

text \<open>
  With no matching rule and room in the list, disabling access from the uplink appends one
  rule: TCP packets to the web port that no earlier rule covers are denied from then on, all other
  packets are treated as before, and enabling access again restores the rules exactly.
\<close>

theorem wan_block_installed:
  assumes "acl_inv s" "\<forall>r \<in> set (acl_rules ACL_TO_ESP s). \<not> wan_rule (word_of_int port) r"
    "length (acl_rules ACL_TO_ESP s) < MAX_ACL_ENTRIES"
  shows "\<exists>t u. update_web_wan_acl False port s = Some (True, t) \<and> acl_inv t \<and>
    (\<forall>f. (f_proto f = IPPROTO_TCP \<and> f_dst_port f = word_of_int port \<and> (\<forall>r \<in> set (acl_rules ACL_TO_ESP s). \<not> rule_covers f r)
          \<longrightarrow> verdict (acl_rules ACL_TO_ESP t) f = ACL_DENY) \<and>
         (f_proto f \<noteq> IPPROTO_TCP \<or> (\<exists>r \<in> set (acl_rules ACL_TO_ESP s). rule_covers f r) \<longrightarrow>
            verdict (acl_rules ACL_TO_ESP t) f = verdict (acl_rules ACL_TO_ESP s) f)) \<and>
    update_web_wan_acl True port t = Some (True, u) \<and> acl_inv u \<and>
    (\<forall>n < MAX_ACL_LISTS. acl_rules n u = acl_rules n s)"
proof -
  let ?p = "word_of_int port" and ?rs = "acl_rules ACL_TO_ESP s"
  have n: "ACL_TO_ESP < MAX_ACL_LISTS" by (simp add: acl_consts)
  have none: "find_first (wan_rule ?p) ?rs = None" using assms(2) by (simp add: find_first_None)
  obtain t where t: "acl_add ACL_TO_ESP 0 0 0 0 IPPROTO_TCP 0 ?p ACL_DENY s = Some (True, t)" "acl_inv t"
    "\<forall>m < MAX_ACL_LISTS. acl_rules m t = (if m = ACL_TO_ESP then ?rs @ [wan_deny ?p] else acl_rules m s)"
    using acl_add_law [OF assms(1), of ACL_TO_ESP 0 0 0 0 IPPROTO_TCP 0 ?p ACL_DENY] assms(3) n by auto
  have rt: "acl_rules ACL_TO_ESP t = ?rs @ [wan_deny ?p]" using t(3) n by simp
  have w: "wan_rule ?p (wan_deny ?p)" by (simp add: wan_rule_def acl_new_entry_def)
  have slot: "find_first (wan_rule ?p) (acl_rules ACL_TO_ESP t) = Some (length ?rs)"
    using assms(2) w by (auto simp: rt find_first_Some nth_append)
  obtain u where u: "acl_delete ACL_TO_ESP (length ?rs) t = Some (True, u)" "acl_inv u"
    "\<forall>m < MAX_ACL_LISTS. acl_rules m u = (if m = ACL_TO_ESP then ?rs else acl_rules m t)"
    using acl_delete_law [OF t(2), of ACL_TO_ESP "length ?rs"] n by (auto simp: rt)
  have a: "acl_action (wan_deny ?p) = ACL_DENY" by (simp add: acl_action_def acl_new_entry_def acl_consts)
  have v: "verdict (acl_rules ACL_TO_ESP t) f = (if \<exists>x \<in> set ?rs. rule_covers f x then verdict ?rs f
      else if rule_covers f (wan_deny ?p) then ACL_DENY else ACL_NO_MATCH)" for f
    by (simp only: rt verdict_append a)
  have nm: "(\<forall>x \<in> set ?rs. \<not> rule_covers f x) \<Longrightarrow> verdict ?rs f = ACL_NO_MATCH" for f
    unfolding verdict_def first_rule_def by (simp add: find_None_iff [THEN iffD2])
  have "update_web_wan_acl False port s = Some (True, t)" "update_web_wan_acl True port t = Some (True, u)"
    using t(1) u(1) none slot by (simp_all add: update_wan_free [OF assms(1)] update_wan_free [OF t(2)])
  moreover have "\<forall>n < MAX_ACL_LISTS. acl_rules n u = acl_rules n s" using u(3) t(3) by simp
  ultimately show ?thesis using t(2) u(2) v nm by (auto simp: wan_deny_covers)
qed

theorem wan_block_installed_witness:
  "\<exists>t u. update_web_wan_acl False 80 acl_boot = Some (True, t) \<and>
    verdict (acl_rules ACL_TO_ESP t) sample_flow = ACL_DENY \<and> update_web_wan_acl True 80 t = Some (True, u) \<and>
    acl_rules ACL_TO_ESP u = []"
proof -
  have e: "acl_rules ACL_TO_ESP acl_boot = []" by (simp add: acl_rules_def acl_boot_def acl_consts)
  have f: "f_proto sample_flow = IPPROTO_TCP" "f_dst_port sample_flow = word_of_int 80"
    by (simp_all add: sample_flow_def acl_consts)
  show ?thesis
    using wan_block_installed [OF acl_boot_inv, of 80] e f by (auto simp: acl_consts)
qed

text \<open>The search overlooks the source port: with such a rule in the list nothing is installed.\<close>

lemma wan_block_missed:
  assumes "acl_inv s" "acl_rules ACL_TO_ESP s = [acl_new_entry 0 0 0 0 IPPROTO_TCP 4000 80 ACL_DENY]"
  shows "update_web_wan_acl False 80 s = Some (True, s)" "verdict (acl_rules ACL_TO_ESP s) sample_flow = ACL_NO_MATCH"
proof -
  have "wan_rule 80 (acl_new_entry 0 0 0 0 IPPROTO_TCP 4000 80 ACL_DENY)" by (simp add: wan_rule_def acl_new_entry_def)
  then show "update_web_wan_acl False 80 s = Some (True, s)" using assms by (simp add: update_wan_free)
  show "verdict (acl_rules ACL_TO_ESP s) sample_flow = ACL_NO_MATCH"
    unfolding assms(2)
    by (simp add: verdict_def first_rule_def rule_covers_def acl_new_entry_def sample_flow_def acl_consts)
qed

section \<open>What the log gets\<close>

text \<open>Reading a secret logs a placeholder, storing it logs the value.\<close>

lemma set_config_logs_secret:
  assumes "np_open api n = ESP_OK" "is_secret_param name"
  shows "snd (snd (set_config_param_str api name value n)) = [''Set config: '' @ name @ '' '' @ value]"
    "snd (snd (get_config_param_str api True name param n)) \<in> {[name @ '' <hidden>''], []}"
  using assms by (auto simp: set_config_param_str_def get_config_param_str_def case_prod_unfold Let_def)

end
