(* ===== verification/Remote_Console.thy ===== *)
theory Remote_Console
  imports Router_Prelude
begin

text \<open>
  The remote console (\<open>components/remote_console/remote_console.c\<close>): the capture of standard output
  behind the wrapped C functions, line input from a socket, the password check, a session, and
  the service around it.
\<close>

section \<open>State\<close>

definition RC_MAX_LINE_LEN :: nat where "RC_MAX_LINE_LEN = 256"
definition RC_MAX_AUTH_ATTEMPTS :: nat where "RC_MAX_AUTH_ATTEMPTS = 3"
definition RC_AUTH_DELAY_MS :: nat where "RC_AUTH_DELAY_MS = 5000"
definition RC_SHUTDOWN_TIMEOUT_MS :: nat where "RC_SHUTDOWN_TIMEOUT_MS = 3000"
definition RC_SHUTDOWN_POLL_MS :: nat where "RC_SHUTDOWN_POLL_MS = 20"
definition RC_CAPTURE_BUF_SIZE :: nat where "RC_CAPTURE_BUF_SIZE = 10240"
definition REMOTE_CONSOLE_DEFAULT_PORT :: u16 where "REMOTE_CONSOLE_DEFAULT_PORT = 2323"
definition REMOTE_CONSOLE_DEFAULT_TIMEOUT :: u32 where "REMOTE_CONSOLE_DEFAULT_TIMEOUT = 300"

lemmas rc_consts = RC_MAX_LINE_LEN_def RC_MAX_AUTH_ATTEMPTS_def RC_AUTH_DELAY_MS_def RC_CAPTURE_BUF_SIZE_def
  RC_SHUTDOWN_TIMEOUT_MS_def RC_SHUTDOWN_POLL_MS_def

datatype rc_mode = RC_STATE_DISABLED | RC_STATE_LISTENING | RC_STATE_AUTH_WAIT | RC_STATE_ACTIVE

record rc_config =
  rc_enabled :: bool
  rc_port :: u16
  idle_timeout_sec :: u32

text \<open>The file-scope variables; a socket is present or not.\<close>

record rc_state =
  rc_cfg :: rc_config
  rc_mode :: rc_mode
  server_socket :: bool
  rc_client :: bool
  client_ip :: string
  session_start_time :: int
  last_activity_time :: int
  total_connections :: u32
  failed_auths :: u32
  task_handle :: bool
  session_mutex :: mutex
  kick_requested :: bool
  shutdown_requested :: bool
  capture_buf :: "string option"
  capture_pos :: nat
  rc_capturing :: bool

definition rc_boot :: rc_state where
  "rc_boot = \<lparr>rc_cfg = \<lparr>rc_enabled = False, rc_port = REMOTE_CONSOLE_DEFAULT_PORT, idle_timeout_sec = REMOTE_CONSOLE_DEFAULT_TIMEOUT\<rparr>,
     rc_mode = RC_STATE_DISABLED, server_socket = False, rc_client = False, client_ip = [], session_start_time = 0,
     last_activity_time = 0, total_connections = 0, failed_auths = 0, task_handle = False, session_mutex = MutexNull,
     kick_requested = False, shutdown_requested = False, capture_buf = None, capture_pos = 0, rc_capturing = False\<rparr>"

section \<open>Capturing standard output\<close>

definition rc_capture_add :: "string \<Rightarrow> rc_state \<Rightarrow> rc_state option" where
  "rc_capture_add data s =
     (case capture_buf s of None \<Rightarrow> Some s
      | Some buf \<Rightarrow>
          if \<not> rc_capturing s \<or> data = [] then Some s
          else if capture_pos s \<ge> RC_CAPTURE_BUF_SIZE - 1 then Some s
          else let copy_len = (if capture_pos s + length data \<ge> RC_CAPTURE_BUF_SIZE
                               then RC_CAPTURE_BUF_SIZE - 1 - capture_pos s else length data);
                   pos = capture_pos s + copy_len in do {
            src \<leftarrow> rd_bytes data 0 copy_len;
            buf \<leftarrow> wr_bytes buf (capture_pos s) src;
            buf \<leftarrow> wr_bytes buf pos [CHR 0x00];
            Some (s\<lparr>capture_buf := Some buf, capture_pos := pos\<rparr>) })"

text \<open>
  The wrapped functions.  \<open>Printf\<close> has the whole formatted text, or none if \<open>vsnprintf\<close> failed;
  the flag of \<open>Fputs\<close> and \<open>Fwrite\<close> says whether the stream is \<open>stdout\<close> or \<open>stderr\<close>.
\<close>

datatype std_call = Printf "string option" | Puts string | Putchar char | Fputs bool string | Fwrite bool string

text \<open>The first component is what the real function is given.\<close>

fun wrap_call :: "std_call \<Rightarrow> rc_state \<Rightarrow> (string \<times> rc_state) option" where
  "wrap_call (Printf None) s = Some ([], s)"
| "wrap_call (Printf (Some out)) s =
     (if length out > 0 then
        (if rc_capturing s then do {
           s \<leftarrow> rc_capture_add (take (if length out < 256 then length out else 255) (take 255 out)) s; Some (take 255 out, s) }
         else Some (take 255 out, s))
      else Some ([], s))"
| "wrap_call (Puts str) s =
     (if rc_capturing s then do {
        s \<leftarrow> rc_capture_add str s; s \<leftarrow> rc_capture_add [CHR 0x0A] s; Some (str @ [CHR 0x0A], s) }
      else Some (str @ [CHR 0x0A], s))"
| "wrap_call (Putchar c) s =
     (if rc_capturing s then do { s \<leftarrow> rc_capture_add [c] s; Some ([c], s) } else Some ([c], s))"
| "wrap_call (Fputs std str) s =
     (if rc_capturing s \<and> std then do { s \<leftarrow> rc_capture_add str s; Some (str, s) } else Some (str, s))"
| "wrap_call (Fwrite std str) s =
     (if rc_capturing s \<and> std then do { s \<leftarrow> rc_capture_add str s; Some (str, s) } else Some (str, s))"

fun wrap_calls :: "std_call list \<Rightarrow> rc_state \<Rightarrow> rc_state option" where
  "wrap_calls [] s = Some s"
| "wrap_calls (c # cs) s = do { (serial, s) \<leftarrow> wrap_call c s; wrap_calls cs s }"

section \<open>Sending with line ends converted\<close>

text \<open>One pass over the data: the calls of \<open>send\<close> and what is left in \<open>net_buf\<close>.\<close>

fun crlf_loop :: "char option \<Rightarrow> string \<Rightarrow> string \<Rightarrow> string list \<times> string" where
  "crlf_loop prev [] net_buf = ([], net_buf)"
| "crlf_loop prev (c # cs) net_buf =
     (let net_buf = (if c = CHR 0x0A \<and> prev \<noteq> Some CHR 0x0D
                     then (if length net_buf < 512 - 1 then net_buf @ [CHR 0x0D] else net_buf) else net_buf);
          net_buf = (if length net_buf < 512 then net_buf @ [c] else net_buf)
      in if length net_buf \<ge> 512 - 2
         then let (sends, rest) = crlf_loop (Some c) cs [] in (net_buf # sends, rest)
         else crlf_loop (Some c) cs net_buf)"

definition send_to_client_crlf :: "bool \<Rightarrow> string \<Rightarrow> string list" where
  "send_to_client_crlf fd data =
     (if \<not> fd \<or> data = [] then []
      else let (sends, rest) = crlf_loop None data [] in if rest \<noteq> [] then sends @ [rest] else sends)"

section \<open>Line input\<close>

datatype recv_result = RecvError | RecvAgain | RecvClosed | RecvChar char

text \<open>One round of the loop: what it sees of the flags, the clock and the socket.\<close>

record poll =
  pl_kick :: bool
  pl_shutdown :: bool
  pl_now :: int
  pl_recv :: recv_result

text \<open>Still waiting when the rounds are used up, or the return value with the buffer; and what is sent.\<close>

datatype line_result = LineWaiting | LineRet int string

definition erase_seq :: string where
  "erase_seq = [CHR 0x08, CHR '' '', CHR 0x08]"

text \<open>What one round asks for: go on, erase, store a character, end the line, or return an error.\<close>

datatype line_step = LineSkip | LineErase | LineStore char | LineEnd | LineFail int

definition line_char :: "char \<Rightarrow> line_step" where
  "line_char c =
     (if c = CHR 0x0D then LineSkip
      else if c = CHR 0x0A then LineEnd
      else if c = CHR 0x08 \<or> c = CHR 0x7F then LineErase
      else if c = CHR 0x03 then LineFail (-3)
      else if c = CHR 0x04 then LineFail (-1)
      else if of_char c \<ge> (0x20 :: nat) \<and> of_char c < (0x7F :: nat) then LineStore c
      else LineSkip)"

definition line_step :: "poll \<Rightarrow> u32 \<Rightarrow> int \<Rightarrow> line_step" where
  "line_step p timeout_sec start =
     (if pl_kick p \<or> pl_shutdown p then LineFail (-1)
      else if timeout_sec > 0 \<and> pl_now p - start > int (unat timeout_sec) * 1000000 then LineFail (-2)
      else case pl_recv p of
        RecvAgain \<Rightarrow> LineSkip | RecvError \<Rightarrow> LineFail (-1) | RecvClosed \<Rightarrow> LineFail (-1) | RecvChar c \<Rightarrow> line_char c)"

definition line_done :: "string \<Rightarrow> nat \<Rightarrow> (line_result \<times> string list) option" where
  "line_done buf pos = do { buf \<leftarrow> wr_bytes buf pos [CHR 0x00]; Some (LineRet (int pos) buf, []) }"

primrec recv_line :: "poll list \<Rightarrow> nat \<Rightarrow> u32 \<Rightarrow> int \<Rightarrow> string \<Rightarrow> nat \<Rightarrow> (line_result \<times> string list) option" where
  "recv_line [] max_len timeout_sec start buf pos =
     (if \<not> pos < max_len - 1 then line_done buf pos else Some (LineWaiting, []))"
| "recv_line (p # ps) max_len timeout_sec start buf pos =
     (if \<not> pos < max_len - 1 then line_done buf pos
      else case line_step p timeout_sec start of
        LineSkip \<Rightarrow> recv_line ps max_len timeout_sec start buf pos
      | LineFail e \<Rightarrow> Some (LineRet e buf, [])
      | LineEnd \<Rightarrow> line_done buf pos
      | LineErase \<Rightarrow>
          if pos > 0 then map_option (\<lambda>(l, out). (l, erase_seq # out)) (recv_line ps max_len timeout_sec start buf (pos - 1))
          else recv_line ps max_len timeout_sec start buf pos
      | LineStore c \<Rightarrow> do {
          buf \<leftarrow> wr_bytes buf pos [c]; recv_line ps max_len timeout_sec start buf (pos + 1) })"

section \<open>Passwords and commands\<close>

text \<open>What happens towards the client, in order, and the commands run.\<close>

datatype rc_io = Tx string | DelayMs nat | RunCmd string

definition RC_PROMPT :: string where "RC_PROMPT = ''esp32> ''"
definition RC_AUTH_PROMPT :: string where "RC_AUTH_PROMPT = ''Password: ''"
definition CRLF :: string where "CRLF = [CHR 0x0D, CHR 0x0A]"
definition RC_AUTH_OK :: string where "RC_AUTH_OK = CRLF @ ''Authentication successful.'' @ CRLF @ CRLF"
definition RC_AUTH_FAIL :: string where "RC_AUTH_FAIL = CRLF @ ''Authentication failed.'' @ CRLF"
definition RC_BUSY :: string where "RC_BUSY = ''BUSY: Another session is active.'' @ CRLF"
definition RC_GOODBYE :: string where "RC_GOODBYE = CRLF @ ''Goodbye.'' @ CRLF"
definition RC_BANNER :: string where
  "RC_BANNER = CRLF @ replicate 44 (CHR ''='') @ CRLF @ ''  ESP32 PPPoE Router - Remote Console'' @ CRLF @
     ''  WARNING: Plain TCP (not encrypted)'' @ CRLF @ replicate 44 (CHR ''='') @ CRLF @ CRLF"

text \<open>
  What one call of \<open>recv_line\<close> meets: the flags seen by the loop around it, the time at its start,
  its rounds, the idle limit in force, the clock afterwards.
\<close>

record turn =
  tn_stop :: bool
  tn_start :: int
  tn_polls :: "poll list"
  tn_timeout :: u32
  tn_after :: int

datatype auth_result = AuthWaiting | AuthFailed | AuthOk

text \<open>
  The attempts, \<open>k\<close> of them left; \<open>password_input\<close> is the array on the stack.  The result has the
  turns not used and the calls made.
\<close>

fun auth_loop :: "(string \<Rightarrow> bool) \<Rightarrow> nat \<Rightarrow> turn list \<Rightarrow> string \<Rightarrow> rc_state
    \<Rightarrow> (auth_result \<times> turn list \<times> rc_io list \<times> rc_state) option" where
  "auth_loop verify 0 ts password_input s = Some (AuthFailed, ts, [DelayMs RC_AUTH_DELAY_MS], s)"
| "auth_loop verify (Suc k) [] password_input s = Some (AuthWaiting, [], [Tx RC_AUTH_PROMPT], s)"
| "auth_loop verify (Suc k) (t # ts) password_input s = do {
     (r, tx) \<leftarrow> recv_line (tn_polls t) 64 60 (tn_start t) password_input 0;
     let io = Tx RC_AUTH_PROMPT # map Tx tx in
     case r of
       LineWaiting \<Rightarrow> Some (AuthWaiting, [], io, s)
     | LineRet len buf \<Rightarrow>
         if len < 0 then Some (AuthFailed, ts, io, s)
         else if verify (c_string buf) then Some (AuthOk, ts, io @ [Tx RC_AUTH_OK], s)
         else do {
           (r, rest, more, s) \<leftarrow> auth_loop verify k ts buf (s\<lparr>failed_auths := failed_auths s + 1\<rparr>);
           Some (r, rest, io @ [Tx RC_AUTH_FAIL] @ (if k > 0 then [Tx CRLF] else []) @ more, s) } }"

definition authenticate_client :: "bool \<Rightarrow> (string \<Rightarrow> bool) \<Rightarrow> turn list \<Rightarrow> string \<Rightarrow> rc_state
    \<Rightarrow> (auth_result \<times> turn list \<times> rc_io list \<times> rc_state) option" where
  "authenticate_client password_set verify ts mem s =
     (if \<not> password_set
      then Some (AuthOk, ts, [Tx (''WARNING: No password set. Use '' @ [CHR 0x27] @ ''set_router_password'' @ [CHR 0x27] @
        '' to secure access.'' @ CRLF)], s)
      else auth_loop verify RC_MAX_AUTH_ATTEMPTS ts mem s)"

text \<open>
  \<open>esp_console_run\<close>: what a command line returns and prints, given the lines run before it.
  \<open>err_name\<close> is \<open>esp_err_to_name\<close>.
\<close>

type_synonym console = "string list \<Rightarrow> string \<Rightarrow> esp_err \<times> std_call list"

definition run_command :: "console \<Rightarrow> (esp_err \<Rightarrow> string) \<Rightarrow> string list \<Rightarrow> string \<Rightarrow> rc_state \<Rightarrow> (rc_io list \<times> rc_state) option" where
  "run_command console err_name history cmd s =
     (case capture_buf s of None \<Rightarrow> None
      | Some buf \<Rightarrow> do {
          buf \<leftarrow> wr_bytes buf 0 [CHR 0x00];
          let (err, calls) = console history cmd in do {
            s \<leftarrow> wrap_calls calls (s\<lparr>capture_pos := 0, capture_buf := Some buf, rc_capturing := True\<rparr>);
            let s = s\<lparr>rc_capturing := False\<rparr> in
            case capture_buf s of None \<Rightarrow> None
            | Some buf \<Rightarrow> do {
                out \<leftarrow> rd_bytes buf 0 (capture_pos s);
                Some (RunCmd cmd # map Tx (send_to_client_crlf True out) @
                  (if err = ESP_ERR_NOT_FOUND then [Tx (''Unknown command. Type '' @ [CHR 0x27] @ ''help'' @ [CHR 0x27] @ '' for list.'' @ CRLF)]
                   else if err = ESP_ERR_INVALID_ARG then []
                   else if err \<noteq> ESP_OK then [Tx (take 63 (''Error: '' @ err_name err @ CRLF))]
                   else []) @ [Tx RC_PROMPT], s) } } })"

text \<open>The loop of a session; the flag says whether it has ended.\<close>

fun session_loop :: "console \<Rightarrow> (esp_err \<Rightarrow> string) \<Rightarrow> turn list \<Rightarrow> string list \<Rightarrow> string \<Rightarrow> rc_state
    \<Rightarrow> (bool \<times> rc_io list \<times> rc_state) option" where
  "session_loop console err_name [] history line s = Some (False, [], s)"
| "session_loop console err_name (t # ts) history line s =
     (if tn_stop t then Some (True, [], s)
      else do {
        (r, tx) \<leftarrow> recv_line (tn_polls t) RC_MAX_LINE_LEN (tn_timeout t) (tn_start t) line 0;
        let io = map Tx tx;
            continue = (\<lambda>more history line s. do {
              (ended, rest, s) \<leftarrow> session_loop console err_name ts history line s; Some (ended, io @ more @ rest, s) })
        in case r of
          LineWaiting \<Rightarrow> Some (False, io, s)
        | LineRet ret line \<Rightarrow>
            if ret = -2 then Some (True, io @ [Tx (CRLF @ ''Session timeout.'' @ CRLF)], s)
            else if ret = -3 then continue [Tx (''^C'' @ CRLF), Tx RC_PROMPT] history line s
            else if ret < 0 then Some (True, io, s)
            else let s = s\<lparr>last_activity_time := tn_after t\<rparr>; cmd = c_string line in
              if ret = 0 then continue [Tx RC_PROMPT] history line s
              else if cmd = ''quit'' \<or> cmd = ''exit'' then Some (True, io @ [Tx RC_GOODBYE], s)
              else do {
                (more, s) \<leftarrow> run_command console err_name history cmd s;
                continue more (history @ [cmd]) line s } })"

text \<open>\<open>capture\<close>: what \<open>malloc\<close> returned for the capture buffer; \<open>mem\<close>: the array for the line.\<close>

definition handle_session :: "console \<Rightarrow> (esp_err \<Rightarrow> string) \<Rightarrow> int \<Rightarrow> string option \<Rightarrow> string \<Rightarrow> turn list \<Rightarrow> rc_state
    \<Rightarrow> (bool \<times> rc_io list \<times> rc_state) option" where
  "handle_session console err_name now capture mem ts s =
     (let s = s\<lparr>rc_mode := RC_STATE_ACTIVE, session_start_time := now, last_activity_time := now, capture_buf := capture\<rparr> in
      case capture of None \<Rightarrow> Some (True, [], s\<lparr>rc_mode := RC_STATE_LISTENING\<rparr>)
      | Some _ \<Rightarrow> do {
          (ended, io, s) \<leftarrow> session_loop console err_name ts [] mem s;
          Some (ended, Tx RC_PROMPT # io,
            if ended then s\<lparr>rc_capturing := False, capture_buf := None, capture_pos := 0\<rparr> else s) })"

section \<open>A connection\<close>

text \<open>What a connection brings along: the environment of its password check and its session.\<close>

record rc_env =
  re_wan_access :: bool
  re_client_addr :: u32
  re_ap_ip :: u32
  re_client_name :: string
  re_password_set :: bool
  re_verify :: "string \<Rightarrow> bool"
  re_auth_mem :: string
  re_now :: int
  re_capture :: "string option"
  re_line_mem :: string
  re_console :: console
  re_err_name :: "esp_err \<Rightarrow> string"
  re_turns :: "turn list"

text \<open>
  After a successful \<open>accept\<close>; the flag says whether the connection is over.  A mutex that is
  taken makes \<open>xSemaphoreTake(..., 0)\<close> fail.
\<close>

definition serve_client :: "rc_env \<Rightarrow> rc_state \<Rightarrow> (bool \<times> rc_io list \<times> rc_state) option" where
  "serve_client env s =
     (let s = s\<lparr>rc_client := True, client_ip := re_client_name env\<rparr> in
      if \<not> re_wan_access env \<and> re_client_addr env AND 0x00FFFFFF \<noteq> re_ap_ip env AND 0x00FFFFFF
      then Some (True, [], s\<lparr>rc_client := False\<rparr>)
      else let s = s\<lparr>total_connections := total_connections s + 1\<rparr> in
        if session_mutex s \<noteq> MutexFree then Some (True, [Tx RC_BUSY], s\<lparr>rc_client := False\<rparr>)
        else let s = s\<lparr>session_mutex := MutexHeld, rc_mode := RC_STATE_AUTH_WAIT, kick_requested := False\<rparr>;
                 finish = (\<lambda>io s. Some (True, Tx RC_BANNER # io,
                   s\<lparr>rc_client := False, client_ip := [], rc_mode := RC_STATE_LISTENING, kick_requested := False,
                     session_mutex := sem_give (session_mutex s)\<rparr>))
             in do {
               (auth, ts, io, s) \<leftarrow> authenticate_client (re_password_set env) (re_verify env) (re_turns env) (re_auth_mem env) s;
               case auth of
                 AuthWaiting \<Rightarrow> Some (False, Tx RC_BANNER # io, s)
               | AuthFailed \<Rightarrow> finish io s
               | AuthOk \<Rightarrow> do {
                   (ended, more, s) \<leftarrow> handle_session (re_console env) (re_err_name env) (re_now env) (re_capture env)
                     (re_line_mem env) ts s;
                   if ended then finish (io @ more) s else Some (False, Tx RC_BANNER # io @ more, s) } })"

section \<open>The service\<close>

text \<open>The task: setting up the socket (with a delay after a failure), and leaving its loops.\<close>

definition rc_listen :: "bool \<Rightarrow> bool \<Rightarrow> bool \<Rightarrow> rc_state \<Rightarrow> rc_io list \<times> rc_state" where
  "rc_listen socket_ok bind_ok listen_ok s =
     (if \<not> socket_ok then ([DelayMs 5000], s\<lparr>server_socket := False\<rparr>)
      else if \<not> bind_ok then ([DelayMs 5000], s\<lparr>server_socket := False\<rparr>)
      else if \<not> listen_ok then ([DelayMs 5000], s\<lparr>server_socket := False\<rparr>)
      else ([], s\<lparr>server_socket := True, rc_mode := RC_STATE_LISTENING\<rparr>))"

definition rc_task_exit :: "rc_state \<Rightarrow> rc_state" where
  "rc_task_exit s = s\<lparr>server_socket := False, rc_mode := RC_STATE_DISABLED, task_handle := False\<rparr>"

text \<open>
  The stored settings: what \<open>nvs_get_*\<close> finds for each key.  \<open>open_ok\<close> and the three flags of
  \<open>save_config\<close>: which calls of the library succeed; their results are not looked at.
\<close>

record rc_nvs =
  nv_enabled :: "u8 option"
  nv_port :: "u16 option"
  nv_timeout :: "u32 option"

definition load_config :: "bool \<Rightarrow> rc_nvs \<Rightarrow> rc_state \<Rightarrow> bool \<times> rc_state" where
  "load_config open_ok n s =
     (if \<not> open_ok then (False, s)
      else let c = rc_cfg s;
               c = (case nv_enabled n of Some v \<Rightarrow> c\<lparr>rc_enabled := (v \<noteq> 0)\<rparr> | None \<Rightarrow> c);
               c = (case nv_port n of Some v \<Rightarrow> c\<lparr>rc_port := v\<rparr> | None \<Rightarrow> c);
               c = (case nv_timeout n of Some v \<Rightarrow> c\<lparr>idle_timeout_sec := v\<rparr> | None \<Rightarrow> c)
           in (True, s\<lparr>rc_cfg := c\<rparr>))"

definition save_config :: "bool \<Rightarrow> bool \<times> bool \<times> bool \<Rightarrow> rc_state \<Rightarrow> rc_nvs \<Rightarrow> bool \<times> rc_nvs" where
  "save_config open_ok oks s n =
     (if \<not> open_ok then (False, n)
      else let (a, b, c) = oks;
               n = (if a then n\<lparr>nv_enabled := Some (if rc_enabled (rc_cfg s) then 1 else 0)\<rparr> else n);
               n = (if b then n\<lparr>nv_port := Some (rc_port (rc_cfg s))\<rparr> else n);
               n = (if c then n\<lparr>nv_timeout := Some (idle_timeout_sec (rc_cfg s))\<rparr> else n)
           in (True, n))"

definition rc_saved :: "rc_state \<Rightarrow> rc_nvs \<Rightarrow> rc_nvs" where
  "rc_saved s n = snd (save_config True (True, True, True) s n)"

definition remote_console_init :: "bool \<Rightarrow> bool \<Rightarrow> bool \<Rightarrow> rc_nvs \<Rightarrow> rc_state \<Rightarrow> esp_err \<times> rc_state" where
  "remote_console_init mutex_ok open_ok task_ok n s =
     (if \<not> mutex_ok then (ESP_ERR_NO_MEM, s\<lparr>session_mutex := MutexNull\<rparr>)
      else let s = snd (load_config open_ok n (s\<lparr>session_mutex := MutexFree\<rparr>)) in
        if rc_enabled (rc_cfg s) then
          (if \<not> task_ok then (ESP_ERR_NO_MEM, s)
           else (ESP_OK, s\<lparr>task_handle := True, rc_mode := RC_STATE_LISTENING\<rparr>))
        else (ESP_OK, s\<lparr>rc_mode := RC_STATE_DISABLED\<rparr>))"

text \<open>Settings are saved by every operation; from here on the store works.\<close>

definition remote_console_enable :: "bool \<Rightarrow> rc_state \<Rightarrow> rc_nvs \<Rightarrow> esp_err \<times> rc_state \<times> rc_nvs" where
  "remote_console_enable task_ok s n =
     (if rc_enabled (rc_cfg s) then (ESP_OK, s, n)
      else let s = s\<lparr>rc_cfg := (rc_cfg s)\<lparr>rc_enabled := True\<rparr>\<rparr>; n = rc_saved s n in
        if \<not> task_handle s then
          let s = s\<lparr>shutdown_requested := False\<rparr> in
          if \<not> task_ok then
            let s = s\<lparr>rc_cfg := (rc_cfg s)\<lparr>rc_enabled := False\<rparr>\<rparr> in (ESP_ERR_NO_MEM, s, rc_saved s n)
          else (ESP_OK, s\<lparr>task_handle := True, rc_mode := RC_STATE_LISTENING\<rparr>, n)
        else (ESP_OK, s, n))"

text \<open>The wait for the task's exit: \<open>gone w\<close> says whether its handle is clear after \<open>w\<close> milliseconds.\<close>

function rc_wait_exit :: "(nat \<Rightarrow> bool) \<Rightarrow> nat \<Rightarrow> nat \<times> bool" where
  "rc_wait_exit gone waited =
     (if \<not> gone waited \<and> waited < RC_SHUTDOWN_TIMEOUT_MS then rc_wait_exit gone (waited + RC_SHUTDOWN_POLL_MS)
      else (waited, gone waited))"
  by pat_completeness auto
termination
  by (relation "measure (\<lambda>(gone, waited). RC_SHUTDOWN_TIMEOUT_MS - waited)") (auto simp: RC_SHUTDOWN_POLL_MS_def)

declare rc_wait_exit.simps [simp del]

definition remote_console_disable :: "(nat \<Rightarrow> bool) \<Rightarrow> rc_state \<Rightarrow> rc_nvs \<Rightarrow> esp_err \<times> rc_state \<times> rc_nvs" where
  "remote_console_disable gone s n =
     (if \<not> rc_enabled (rc_cfg s) then (ESP_OK, s, n)
      else let s = s\<lparr>rc_cfg := (rc_cfg s)\<lparr>rc_enabled := False\<rparr>\<rparr>; n = rc_saved s n;
               s = s\<lparr>shutdown_requested := True, kick_requested := True, server_socket := False\<rparr>;
               s = (if task_handle s \<and> snd (rc_wait_exit gone 0) then rc_task_exit s else s)
           in (ESP_OK, s\<lparr>rc_mode := RC_STATE_DISABLED\<rparr>, n))"

definition remote_console_set_port :: "u16 \<Rightarrow> rc_state \<Rightarrow> rc_nvs \<Rightarrow> esp_err \<times> rc_state \<times> rc_nvs" where
  "remote_console_set_port port s n =
     (if port = 0 then (ESP_ERR_INVALID_ARG, s, n)
      else let s = s\<lparr>rc_cfg := (rc_cfg s)\<lparr>rc_port := port\<rparr>\<rparr> in (ESP_OK, s, rc_saved s n))"

definition remote_console_set_timeout :: "u32 \<Rightarrow> rc_state \<Rightarrow> rc_nvs \<Rightarrow> esp_err \<times> rc_state \<times> rc_nvs" where
  "remote_console_set_timeout timeout_sec s n =
     (let s = s\<lparr>rc_cfg := (rc_cfg s)\<lparr>idle_timeout_sec := timeout_sec\<rparr>\<rparr> in (ESP_OK, s, rc_saved s n))"

definition remote_console_kick :: "rc_state \<Rightarrow> esp_err \<times> rc_state" where
  "remote_console_kick s =
     (if rc_mode s \<noteq> RC_STATE_ACTIVE then (ESP_ERR_NOT_FOUND, s) else (ESP_OK, s\<lparr>kick_requested := True\<rparr>))"

record rc_status =
  st_mode :: rc_mode
  st_client_ip :: string
  session_duration_sec :: u32
  idle_sec :: u32
  st_total_connections :: u32
  st_failed_auths :: u32

text \<open>The differences of the clock are not negative.\<close>

definition remote_console_get_status :: "int \<Rightarrow> rc_state \<Rightarrow> rc_status" where
  "remote_console_get_status now s =
     (let st = \<lparr>st_mode = rc_mode s, st_client_ip = [], session_duration_sec = 0, idle_sec = 0,
        st_total_connections = total_connections s, st_failed_auths = failed_auths s\<rparr> in
      if rc_mode s = RC_STATE_ACTIVE then
        st\<lparr>st_client_ip := take 16 (client_ip s),
          session_duration_sec := word_of_int ((now - session_start_time s) div 1000000),
          idle_sec := word_of_int ((now - last_activity_time s) div 1000000)\<rparr>
      else st)"

definition remote_console_get_config :: "rc_state \<Rightarrow> rc_config" where
  "remote_console_get_config s = rc_cfg s"

definition remote_console_is_enabled :: "rc_state \<Rightarrow> bool" where
  "remote_console_is_enabled s = rc_enabled (rc_cfg s)"

definition remote_console_session_active :: "rc_state \<Rightarrow> bool" where
  "remote_console_session_active s \<longleftrightarrow> rc_mode s = RC_STATE_ACTIVE"

definition remote_console_is_capturing :: "rc_state \<Rightarrow> bool" where
  "remote_console_is_capturing s = rc_capturing s"

end
