(* ===== verification/Console_Theorems.thy ===== *)
theory Console_Theorems
  imports Remote_Console "HOL-Library.Sublist"
begin

text \<open>
  The remote console: a line read is the line typed, after editing; what a command prints
  reaches the client, with line ends converted, up to the size of the capture buffer; and no
  command is run for a client that has not shown the password.
\<close>

section \<open>Line input\<close>

definition printable :: "char \<Rightarrow> bool" where
  "printable c \<longleftrightarrow> of_char c \<ge> (0x20 :: nat) \<and> of_char c < (0x7F :: nat)"

text \<open>The effect of the keys on a line: erasing, adding; other keys do nothing.\<close>

definition edit :: "string \<Rightarrow> char \<Rightarrow> string" where
  "edit l c = (if c = CHR 0x08 \<or> c = CHR 0x7F then butlast l else if printable c then l @ [c] else l)"

definition keys :: "poll list \<Rightarrow> string" where
  "keys ps = concat (map (\<lambda>p. case pl_recv p of RecvChar c \<Rightarrow> [c] | _ \<Rightarrow> []) ps)"

lemma keys_simps [simp]: "keys [] = []"
  "keys (p # ps) = (case pl_recv p of RecvChar c \<Rightarrow> [c] | _ \<Rightarrow> []) @ keys ps"
  by (simp_all add: keys_def)

lemma line_char_edit:
  "line_char c = LineSkip \<Longrightarrow> edit l c = l"
  "line_char c = LineErase \<Longrightarrow> edit l c = butlast l"
  "line_char c = LineStore d \<Longrightarrow> d = c \<and> printable c \<and> edit l c = l @ [c]"
  "line_char c = LineEnd \<Longrightarrow> c = CHR 0x0A"
  by (auto simp: line_char_def edit_def printable_def split: if_splits)

lemma line_char_store: "line_char c = LineStore d \<Longrightarrow> c = d"
  using line_char_edit(3) by blast

text \<open>A step that does not end the line acts on it as the keys of the round do.\<close>

definition step_line :: "line_step \<Rightarrow> string \<Rightarrow> string" where
  "step_line st l = (case st of LineErase \<Rightarrow> butlast l | LineStore c \<Rightarrow> l @ [c] | _ \<Rightarrow> l)"

lemma line_step_edit:
  assumes "line_step p tmo start = st" "\<forall>e. st \<noteq> LineFail e" "st \<noteq> LineEnd"
  shows "foldl edit l (keys [p]) = step_line st l"
  using assms line_char_edit
  by (auto simp: line_step_def step_line_def split: if_splits recv_result.splits line_step.splits dest: line_char_store)

lemma printable_not_nul: "printable c \<Longrightarrow> c \<noteq> CHR 0x00"
  by (auto simp: printable_def)

lemma c_string_written:
  assumes "\<forall>c \<in> set l. printable c"
  shows "c_string (l @ CHR 0x00 # r) = l"
  using assms printable_not_nul by (induction l) (auto simp: c_string_def)

lemma line_done_result:
  assumes "length buf = m" "pos < m" "take pos buf = l" "\<forall>c \<in> set l. printable c"
  shows "\<exists>b. line_done buf pos = Some (LineRet (int pos) b, []) \<and> length b = m \<and> c_string b = l"
proof -
  have "wr_bytes buf pos [CHR 0x00] = Some (l @ CHR 0x00 # drop (pos + 1) buf)"
    using assms by (simp add: wr_bytes_def)
  moreover have "length l = pos" using assms by auto
  ultimately show ?thesis using c_string_written [OF assms(4)] assms by (simp add: line_done_def)
qed

text \<open>
  What \<open>recv_line\<close> returns, from a line \<open>l\<close> that is in the buffer already: an error, or the line as
  the keys of the rounds used leave it.
\<close>

definition line_ok :: "poll list \<Rightarrow> nat \<Rightarrow> string \<Rightarrow> line_result \<Rightarrow> bool" where
  "line_ok ps m l r \<longleftrightarrow> (case r of LineWaiting \<Rightarrow> True
     | LineRet len b \<Rightarrow> length b = m \<and> (0 \<le> len \<longrightarrow>
         (\<exists>used rest. ps = used @ rest \<and> c_string b = foldl edit l (keys used) \<and> len = int (length (c_string b)) \<and>
            (\<forall>c \<in> set (c_string b). printable c) \<and>
            (length (c_string b) + 1 < m \<longrightarrow> (\<exists>p ps'. rest = p # ps' \<and> pl_recv p = RecvChar CHR 0x0A)))))"

lemma line_ok_Cons:
  assumes "line_ok ps m (foldl edit l (keys [p])) r"
  shows "line_ok (p # ps) m l r"
proof (cases r)
  case (LineRet len b)
  have "\<exists>used rest. p # ps = used @ rest \<and> c_string b = foldl edit l (keys used) \<and> len = int (length (c_string b)) \<and>
        (\<forall>c \<in> set (c_string b). printable c) \<and>
        (length (c_string b) + 1 < m \<longrightarrow> (\<exists>p ps'. rest = p # ps' \<and> pl_recv p = RecvChar CHR 0x0A))" if nn: "0 \<le> len"
  proof -
    obtain used rest where u: "ps = used @ rest" "c_string b = foldl edit (foldl edit l (keys [p])) (keys used)"
      "len = int (length (c_string b))" "\<forall>c \<in> set (c_string b). printable c"
      "length (c_string b) + 1 < m \<longrightarrow> (\<exists>p ps'. rest = p # ps' \<and> pl_recv p = RecvChar CHR 0x0A)"
      using assms LineRet nn unfolding line_ok_def by auto
    have "foldl edit (foldl edit l (keys [p])) (keys used) = foldl edit l (keys (p # used))" by simp
    with u show ?thesis by (intro exI [of _ "p # used"] exI [of _ rest]) (simp only: append_Cons simp_thms)
  qed
  with assms LineRet show ?thesis by (simp add: line_ok_def)
qed (simp add: line_ok_def)

lemma line_ok_here:
  assumes "length b = m" "c_string b = l" "\<forall>c \<in> set l. printable c"
    "length l + 1 < m \<longrightarrow> (\<exists>p ps'. ps = p # ps' \<and> pl_recv p = RecvChar CHR 0x0A)"
  shows "line_ok ps m l (LineRet (int (length l)) b)"
proof -
  have "ps = [] @ ps \<and> c_string b = foldl edit l (keys []) \<and> int (length l) = int (length (c_string b)) \<and>
      (\<forall>c \<in> set (c_string b). printable c) \<and>
      (length (c_string b) + 1 < m \<longrightarrow> (\<exists>p ps'. ps = p # ps' \<and> pl_recv p = RecvChar CHR 0x0A))"
    using assms by simp
  then show ?thesis unfolding line_ok_def line_result.case using assms(1) by blast
qed

lemma line_end_newline: "line_step p tmo start = LineEnd \<Longrightarrow> pl_recv p = RecvChar CHR 0x0A"
  using line_char_edit(4) by (auto simp: line_step_def split: if_splits recv_result.splits)

lemma recv_line_result:
  assumes "length buf = m" "pos + 1 < m \<or> pos + 1 = m" "take pos buf = l" "\<forall>c \<in> set l. printable c"
  shows "\<exists>r tx. recv_line ps m tmo start buf pos = Some (r, tx) \<and> line_ok ps m l r"
  using assms
proof (induction ps arbitrary: buf pos l)
  case Nil
  have "length l = pos" using Nil.prems by auto
  obtain b where "line_done buf pos = Some (LineRet (int pos) b, [])" "length b = m" "c_string b = l"
    using line_done_result [of buf m pos l] Nil.prems by auto
  moreover have "line_ok [] m l (LineRet (int (length l)) b)" if "\<not> pos < m - 1"
    using that \<open>length l = pos\<close> Nil.prems calculation by (intro line_ok_here) auto
  moreover have "line_ok [] m l LineWaiting" by (simp add: line_ok_def)
  ultimately show ?case using \<open>length l = pos\<close> by auto
next
  case (Cons p ps)
  have len: "length l = pos" using Cons.prems by auto
  obtain b where b: "line_done buf pos = Some (LineRet (int pos) b, [])" "length b = m" "c_string b = l"
    using line_done_result [of buf m pos l] Cons.prems by auto
  show ?case
  proof (cases "pos < m - 1")
    case False
    have "line_ok (p # ps) m l (LineRet (int (length l)) b)"
      using b len Cons.prems False by (intro line_ok_here) auto
    with False b len show ?thesis by simp
  next
    case True
    let ?go = "\<lambda>buf pos l. \<exists>r tx. recv_line ps m tmo start buf pos = Some (r, tx) \<and> line_ok ps m l r"
    note e = line_step_edit [OF refl, of p tmo start l]
    show ?thesis
    proof (cases "line_step p tmo start")
      case LineSkip
      have "?go buf pos l" using Cons.IH [OF Cons.prems] .
      with True LineSkip e show ?thesis by (auto simp: step_line_def intro!: line_ok_Cons)
    next
      case (LineFail x)
      have "x < 0" using LineFail by (auto simp: line_step_def line_char_def split: if_splits recv_result.splits)
      with True LineFail Cons.prems show ?thesis by (auto simp: line_ok_def)
    next
      case LineEnd
      have "line_ok (p # ps) m l (LineRet (int (length l)) b)"
        using b len Cons.prems line_end_newline [OF LineEnd] by (intro line_ok_here) auto
      with True LineEnd b len show ?thesis by simp
    next
      case LineErase
      show ?thesis
      proof (cases "pos > 0")
        case True
        have "?go buf (pos - 1) (butlast l)"
          using Cons.prems True len by (intro Cons.IH) (auto simp: butlast_conv_take dest: in_set_takeD)
        with \<open>pos < m - 1\<close> True LineErase e show ?thesis by (auto simp: step_line_def intro!: line_ok_Cons)
      next
        case False
        then have "l = []" using len by simp
        have "?go buf pos l" using Cons.IH [OF Cons.prems] .
        with \<open>pos < m - 1\<close> False LineErase e \<open>l = []\<close> show ?thesis by (auto simp: step_line_def intro!: line_ok_Cons)
      qed
    next
      case (LineStore c)
      have c: "printable c"
        using LineStore line_char_edit(3) by (auto simp: line_step_def split: if_splits recv_result.splits)
      let ?b = "take pos buf @ [c] @ drop (pos + 1) buf"
      have w: "wr_bytes buf pos [c] = Some ?b" using Cons.prems True by (simp add: wr_bytes_def)
      have "?go ?b (pos + 1) (l @ [c])" using Cons.prems True c by (intro Cons.IH) auto
      with True LineStore e w show ?thesis by (auto simp: step_line_def intro!: line_ok_Cons)
    qed
  qed
qed

section \<open>Output\<close>

text \<open>The buffer holds the beginning of the text written so far.\<close>

definition captured :: "string \<Rightarrow> rc_state \<Rightarrow> bool" where
  "captured wtn s \<longleftrightarrow> rc_capturing s \<and> capture_pos s = min 10239 (length wtn) \<and>
     (\<exists>buf. capture_buf s = Some buf \<and> length buf = 10240 \<and> take (capture_pos s) buf = take 10239 wtn)"

definition same_service :: "rc_state \<Rightarrow> rc_state \<Rightarrow> bool" where
  "same_service s t \<longleftrightarrow> t = s\<lparr>capture_buf := capture_buf t, capture_pos := capture_pos t\<rparr>"

lemma same_service_refl [simp]: "same_service s s"
  by (simp add: same_service_def)

lemma same_service_trans: "same_service s t \<Longrightarrow> same_service t u \<Longrightarrow> same_service s u"
  unfolding same_service_def by (erule ssubst, erule ssubst) simp

lemma take_min_length: "take (min n (length l)) l = take n l"
  by (simp add: min_def)

lemma capture_add_result:
  assumes "captured wtn s"
  shows "\<exists>t. rc_capture_add data s = Some t \<and> captured (wtn @ data) t \<and> same_service s t"
proof -
  obtain buf where b: "capture_buf s = Some buf" "length buf = 10240" "take (capture_pos s) buf = take 10239 wtn"
    and p: "capture_pos s = min 10239 (length wtn)" and c: "rc_capturing s"
    using assms by (auto simp: captured_def)
  show ?thesis
  proof (cases "data = [] \<or> capture_pos s \<ge> 10239")
    case True
    then have "rc_capture_add data s = Some s" using b c by (auto simp: rc_capture_add_def rc_consts)
    moreover have "captured (wtn @ data) s" using True assms by (auto simp: captured_def)
    ultimately show ?thesis by simp
  next
    case False
    then have lt: "length wtn < 10239" "capture_pos s = length wtn" using p by auto
    define k where "k = (if length wtn + length data \<ge> 10240 then 10239 - length wtn else length data)"
    have k: "k \<le> length data" "length wtn + k = min 10239 (length (wtn @ data))" using lt by (auto simp: k_def)
    let ?b1 = "take (length wtn) buf @ take k data @ drop (length wtn + k) buf"
    let ?b2 = "take (length wtn + k) ?b1 @ [CHR 0x00] @ drop (length wtn + k + 1) ?b1"
    have w: "rd_bytes data 0 k = Some (take k data)" "wr_bytes buf (length wtn) (take k data) = Some ?b1"
      "wr_bytes ?b1 (length wtn + k) [CHR 0x00] = Some ?b2"
      using k b(2) by (simp_all add: rd_bytes_def wr_bytes_def)
    let ?t = "s\<lparr>capture_buf := Some ?b2, capture_pos := length wtn + k\<rparr>"
    have e: "(if length wtn + length data \<ge> RC_CAPTURE_BUF_SIZE then RC_CAPTURE_BUF_SIZE - 1 - length wtn
        else length data) = k" using lt by (simp add: k_def rc_consts)
    have g: "(\<not> rc_capturing s \<or> data = []) = False" "(length wtn \<ge> RC_CAPTURE_BUF_SIZE - 1) = False"
      using False c lt by (auto simp: rc_consts)
    have "rc_capture_add data s = Some ?t"
      unfolding rc_capture_add_def b(1) option.case lt(2) g if_False e Let_def w bind.bind_lunit ..
    moreover have "captured (wtn @ data) ?t"
    proof -
      have "take (length wtn) buf = wtn" using b(3) lt by simp
      then have "take (length wtn + k) ?b2 = wtn @ take k data" using k(1) b(2) lt by (simp add: min_def)
      also have "\<dots> = take (length wtn + k) (wtn @ data)" by simp
      also have "\<dots> = take 10239 (wtn @ data)" unfolding k(2) by (rule take_min_length)
      finally have tk: "take (capture_pos ?t) ?b2 = take 10239 (wtn @ data)" by simp
      have "capture_pos ?t = min 10239 (length (wtn @ data))" "rc_capturing ?t" using k(2) c by simp_all
      moreover have "capture_buf ?t = Some ?b2" by simp
      moreover have "length ?b2 = 10240" using k b(2) lt by simp
      ultimately show ?thesis using tk unfolding captured_def by blast
    qed
    moreover have "same_service s ?t" by (simp add: same_service_def)
    ultimately show ?thesis by blast
  qed
qed

text \<open>What a call writes to standard output.\<close>

fun written :: "std_call \<Rightarrow> string" where
  "written (Printf None) = []"
| "written (Printf (Some out)) = take 255 out"
| "written (Puts str) = str @ [CHR 0x0A]"
| "written (Putchar c) = [c]"
| "written (Fputs std str) = (if std then str else [])"
| "written (Fwrite std str) = (if std then str else [])"

lemma wrap_call_result:
  assumes "captured wtn s"
  shows "\<exists>out t. wrap_call c s = Some (out, t) \<and> captured (wtn @ written c) t \<and> same_service s t"
proof -
  have r: "rc_capturing s" using assms by (simp add: captured_def)
  note add = capture_add_result [OF assms]
  show ?thesis
  proof (cases c)
    case (Printf o')
    then show ?thesis
    proof (cases o')
      case (Some out)
      show ?thesis
      proof (cases "out = []")
        case False
        have "take (if length out < 256 then length out else 255) (take 255 out) = take 255 out" by simp
        with add [of "take 255 out"] Printf Some False r show ?thesis by auto
      qed (use Printf Some assms in auto)
    qed (use assms in auto)
  next
    case (Puts str)
    obtain t where t: "rc_capture_add str s = Some t" "captured (wtn @ str) t" "same_service s t" using add by blast
    obtain u where u: "rc_capture_add [CHR 0x0A] t = Some u" "captured (wtn @ str @ [CHR 0x0A]) u" "same_service t u"
      using capture_add_result [OF t(2)] by auto
    with Puts t r show ?thesis using same_service_trans [OF t(3) u(3)] by simp
  next
    case (Fputs std str)
    then show ?thesis using add [of str] r assms by (cases std) auto
  next
    case (Fwrite std str)
    then show ?thesis using add [of str] r assms by (cases std) auto
  next
    case (Putchar x)
    then show ?thesis using add [of "[x]"] r by auto
  qed
qed

lemma wrap_calls_result:
  "captured wtn s \<Longrightarrow> \<exists>t. wrap_calls cs s = Some t \<and> captured (wtn @ concat (map written cs)) t \<and> same_service s t"
proof (induction cs arbitrary: wtn s)
  case (Cons c cs)
  obtain out t where t: "wrap_call c s = Some (out, t)" "captured (wtn @ written c) t" "same_service s t"
    using wrap_call_result [OF Cons.prems] by blast
  with Cons.IH [OF t(2)] same_service_trans show ?case by fastforce
qed simp

text \<open>Line ends converted, as telnet clients want them.\<close>

fun to_crlf :: "char option \<Rightarrow> string \<Rightarrow> string" where
  "to_crlf prev [] = []"
| "to_crlf prev (c # cs) = (if c = CHR 0x0A \<and> prev \<noteq> Some CHR 0x0D then [CHR 0x0D] else []) @ c # to_crlf (Some c) cs"

lemma crlf_loop_result:
  "length buf \<le> 509 \<Longrightarrow> concat (fst (crlf_loop prev cs buf)) @ snd (crlf_loop prev cs buf) = buf @ to_crlf prev cs \<and>
    (\<forall>x \<in> set (fst (crlf_loop prev cs buf)). length x \<le> 512 \<and> x \<noteq> []) \<and> length (snd (crlf_loop prev cs buf)) \<le> 509"
proof (induction cs arbitrary: prev buf)
  case (Cons c cs)
  define b where "b = buf @ (if c = CHR 0x0A \<and> prev \<noteq> Some CHR 0x0D then [CHR 0x0D] else []) @ [c]"
  have lb: "length b \<le> 511" "b \<noteq> []" using Cons.prems by (auto simp: b_def)
  have step: "crlf_loop prev (c # cs) buf = (if length b \<ge> 510
      then (b # fst (crlf_loop (Some c) cs []), snd (crlf_loop (Some c) cs [])) else crlf_loop (Some c) cs b)"
    using Cons.prems by (auto simp: b_def case_prod_unfold Let_def)
  have t: "buf @ to_crlf prev (c # cs) = b @ to_crlf (Some c) cs" by (simp add: b_def)
  show ?case
  proof (cases "length b \<ge> 510")
    case True
    show ?thesis unfolding step t using Cons.IH [of "[]" "Some c"] True lb by auto
  next
    case False
    show ?thesis unfolding step t using Cons.IH [of b "Some c"] False by simp
  qed
qed simp

lemma send_crlf_result:
  "concat (send_to_client_crlf True cs) = to_crlf None cs" "\<forall>x \<in> set (send_to_client_crlf True cs). length x \<le> 512"
  using crlf_loop_result [of "[]" None cs] by (auto simp: send_to_client_crlf_def case_prod_unfold Let_def)

definition sent :: "rc_io list \<Rightarrow> string" where
  "sent io = concat (map (\<lambda>x. case x of Tx d \<Rightarrow> d | _ \<Rightarrow> []) io)"

lemma sent_simps [simp]: "sent [] = []" "sent (Tx d # io) = d @ sent io" "sent (RunCmd c # io) = sent io"
  "sent (a @ b) = sent a @ sent b" "sent (map Tx ds) = concat ds"
  by (simp_all add: sent_def comp_def)

definition session_ready :: "rc_state \<Rightarrow> bool" where
  "session_ready s \<longleftrightarrow> (\<exists>buf. capture_buf s = Some buf \<and> length buf = 10240)"

text \<open>What is shown after the output of a command.\<close>

definition result_line :: "(esp_err \<Rightarrow> string) \<Rightarrow> esp_err \<Rightarrow> string" where
  "result_line err_name err =
     (if err = ESP_ERR_NOT_FOUND then ''Unknown command. Type '' @ [CHR 0x27] @ ''help'' @ [CHR 0x27] @ '' for list.'' @ CRLF
      else if err = ESP_ERR_INVALID_ARG \<or> err = ESP_OK then []
      else take 63 (''Error: '' @ err_name err @ CRLF))"

lemma run_command_result:
  assumes "session_ready s"
  shows "\<exists>io t. run_command console err_name history cmd s = Some (RunCmd cmd # map Tx io, t) \<and> session_ready t \<and>
    t = s\<lparr>capture_buf := capture_buf t, capture_pos := capture_pos t, rc_capturing := False\<rparr> \<and>
    concat io = to_crlf None (take 10239 (concat (map written (snd (console history cmd))))) @
      result_line err_name (fst (console history cmd)) @ RC_PROMPT"
proof -
  obtain buf where b: "capture_buf s = Some buf" "length buf = 10240" using assms by (auto simp: session_ready_def)
  obtain err calls where c: "console history cmd = (err, calls)" by (cases "console history cmd")
  let ?b = "CHR 0x00 # drop 1 buf"
  have w: "wr_bytes buf 0 [CHR 0x00] = Some ?b" using b by (simp add: wr_bytes_def)
  let ?s = "s\<lparr>capture_pos := 0, capture_buf := Some ?b, rc_capturing := True\<rparr>"
  have "captured [] ?s" using b by (simp add: captured_def)
  then obtain t where t: "wrap_calls calls ?s = Some t" "captured (concat (map written calls)) t" "same_service ?s t"
    using wrap_calls_result by fastforce
  let ?wtn = "take 10239 (concat (map written calls))"
  obtain b2 where b2: "capture_buf t = Some b2" "length b2 = 10240" "take (capture_pos t) b2 = ?wtn" "capture_pos t \<le> 10239"
    using t(2) by (auto simp: captured_def)
  have r: "rd_bytes b2 0 (capture_pos t) = Some ?wtn" using b2 by (simp add: rd_bytes_def)
  let ?io = "send_to_client_crlf True ?wtn @ (if result_line err_name err = [] \<and> (err = ESP_OK \<or> err = ESP_ERR_INVALID_ARG) then []
      else [result_line err_name err]) @ [RC_PROMPT]"
  have "run_command console err_name history cmd s = Some (RunCmd cmd # map Tx ?io, t\<lparr>rc_capturing := False\<rparr>)"
    using b(1) w c t(1) b2(1) r by (auto simp: run_command_def result_line_def Let_def)
  moreover have "concat ?io = to_crlf None ?wtn @ result_line err_name err @ RC_PROMPT"
    by (simp add: send_crlf_result)
  moreover have "t\<lparr>rc_capturing := False\<rparr> = s\<lparr>capture_buf := capture_buf t, capture_pos := capture_pos t, rc_capturing := False\<rparr>"
    using t(3) unfolding same_service_def by (erule_tac ssubst) simp
  ultimately show ?thesis using b2 c by (intro exI [of _ ?io] exI [of _ "t\<lparr>rc_capturing := False\<rparr>"]) (simp add: session_ready_def)
qed

section \<open>The password check and the session\<close>

text \<open>The line a client typed in a turn, up to some round, is one the check accepts.\<close>

definition accepted_line :: "(string \<Rightarrow> bool) \<Rightarrow> turn \<Rightarrow> bool" where
  "accepted_line verify t \<longleftrightarrow> (\<exists>used rest. tn_polls t = used @ rest \<and> verify (foldl edit [] (keys used)))"

definition no_command :: "rc_io list \<Rightarrow> bool" where
  "no_command io \<longleftrightarrow> (\<forall>c. RunCmd c \<notin> set io)"

lemma no_command_simps [simp]: "no_command []" "no_command (Tx d # io) = no_command io" "no_command (DelayMs n # io) = no_command io"
  "no_command (a @ b) = (no_command a \<and> no_command b)" "no_command (map Tx ds)" "\<not> no_command (RunCmd c # io)"
  by (auto simp: no_command_def)

lemma fresh_line:
  assumes "length buf = m" "0 < m"
  obtains r tx where "recv_line ps m tmo start buf 0 = Some (r, tx)" "line_ok ps m [] r"
proof -
  have "0 + 1 < m \<or> 0 + 1 = m" using assms(2) by linarith
  then obtain r tx where "recv_line ps m tmo start buf 0 = Some (r, tx)" "line_ok ps m [] r"
    using recv_line_result [OF assms(1), of 0 "[]" ps tmo start] by auto
  then show thesis by (rule that)
qed

lemma line_ok_accepted: "line_ok (tn_polls t) m [] (LineRet len b) \<Longrightarrow> 0 \<le> len \<Longrightarrow> verify (c_string b) \<Longrightarrow> accepted_line verify t"
  by (auto simp: line_ok_def accepted_line_def)

lemma auth_loop_result:
  assumes "length mem = 64"
  shows "\<exists>r ts' io t j. auth_loop verify k ts mem s = Some (r, ts', io, t) \<and> no_command io \<and>
    t = s\<lparr>failed_auths := failed_auths s + of_nat j\<rparr> \<and> j \<le> k \<and>
    (r = AuthOk \<longrightarrow> (\<exists>i < k. i < length ts \<and> accepted_line verify (ts ! i)))"
  using assms
proof (induction verify k ts mem s rule: auth_loop.induct)
  case (1 verify ts mem s)
  then show ?case by (auto intro!: exI [of _ 0])
next
  case (2 verify k mem s)
  then show ?case by (auto intro!: exI [of _ 0])
next
  case (3 verify k t ts mem s)
  have m: "length mem = 64" "0 < (64 :: nat)" using 3 by simp_all
  obtain r tx where r: "recv_line (tn_polls t) 64 60 (tn_start t) mem 0 = Some (r, tx)" "line_ok (tn_polls t) 64 [] r"
    by (rule fresh_line [OF m])
  show ?case
  proof (cases r)
    case LineWaiting
    with r(1) show ?thesis by (auto intro!: exI [of _ 0])
  next
    case (LineRet len b)
    show ?thesis
    proof (cases "len < 0 \<or> verify (c_string b)")
      case True
      have a: "verify (c_string b) \<Longrightarrow> \<not> len < 0 \<Longrightarrow> 0 < Suc k \<and> 0 < length (t # ts) \<and> accepted_line verify ((t # ts) ! 0)"
        using line_ok_accepted [of t 64 len b verify] r(2) LineRet by simp
      have same: "s = s\<lparr>failed_auths := failed_auths s + of_nat 0\<rparr>" by simp
      show ?thesis
      proof (cases "len < 0")
        case neg: True
        have "auth_loop verify (Suc k) (t # ts) mem s = Some (AuthFailed, ts, Tx RC_AUTH_PROMPT # map Tx tx, s)"
          using neg LineRet r(1) by simp
        then show ?thesis using same by (auto intro!: exI [of _ 0])
      next
        case False
        have "auth_loop verify (Suc k) (t # ts) mem s = Some (AuthOk, ts, (Tx RC_AUTH_PROMPT # map Tx tx) @ [Tx RC_AUTH_OK], s)"
          using False True LineRet r(1) by simp
        moreover have "no_command ((Tx RC_AUTH_PROMPT # map Tx tx) @ [Tx RC_AUTH_OK])" by simp
        ultimately show ?thesis using same a True False by (metis le0)
      qed
    next
      case False
      have lb: "length b = 64" using r(2) LineRet by (simp add: line_ok_def)
      let ?s = "s\<lparr>failed_auths := failed_auths s + 1\<rparr>"
      obtain r' ts' io u j where u: "auth_loop verify k ts b ?s = Some (r', ts', io, u)" "no_command io"
        "u = ?s\<lparr>failed_auths := failed_auths ?s + of_nat j\<rparr>" "j \<le> k"
        "r' = AuthOk \<longrightarrow> (\<exists>i < k. i < length ts \<and> accepted_line verify (ts ! i))"
        using "3.IH" [OF r(1) refl refl LineRet _ _ lb] False by fastforce
      have "u = s\<lparr>failed_auths := failed_auths s + of_nat (Suc j)\<rparr>" using u(3) by (simp add: add.assoc)
      moreover have "r' = AuthOk \<longrightarrow> (\<exists>i < Suc k. i < length (t # ts) \<and> accepted_line verify ((t # ts) ! i))"
        using u(5) by (metis Suc_less_eq length_Cons nth_Cons_Suc)
      moreover have "auth_loop verify (Suc k) (t # ts) mem s = Some (r', ts',
          (Tx RC_AUTH_PROMPT # map Tx tx) @ [Tx RC_AUTH_FAIL] @ (if k > 0 then [Tx CRLF] else []) @ io, u)"
        using r(1) LineRet False u(1) by simp
      moreover have "no_command ((Tx RC_AUTH_PROMPT # map Tx tx) @ [Tx RC_AUTH_FAIL] @ (if k > 0 then [Tx CRLF] else []) @ io)"
        using u(2) by simp
      ultimately show ?thesis using u(4) by (metis Suc_le_mono)
    qed
  qed
qed

definition same_identity :: "rc_state \<Rightarrow> rc_state \<Rightarrow> bool" where
  "same_identity s t \<longleftrightarrow> t = s\<lparr>capture_buf := capture_buf t, capture_pos := capture_pos t, rc_capturing := rc_capturing t,
     last_activity_time := last_activity_time t\<rparr>"

lemma same_identity_trans: "same_identity s t \<Longrightarrow> same_identity t u \<Longrightarrow> same_identity s u"
  unfolding same_identity_def by (erule ssubst, erule ssubst) simp

lemma session_loop_result:
  assumes "session_ready s" "length line = 256" "\<not> rc_capturing s"
  shows "\<exists>ended io t. session_loop console err_name ts history line s = Some (ended, io, t) \<and> session_ready t \<and>
    \<not> rc_capturing t \<and> same_identity s t"
  using assms
proof (induction ts arbitrary: history line s)
  case Nil
  then show ?case by (intro exI [of _ False] exI [of _ "[]"] exI [of _ s]) (simp add: same_identity_def)
next
  case (Cons t ts)
  let ?goal = "\<lambda>ts history line s. \<exists>ended io u. session_loop console err_name ts history line s = Some (ended, io, u) \<and>
    session_ready u \<and> \<not> rc_capturing u \<and> same_identity s u"
  have self: "same_identity s s" by (simp add: same_identity_def)
  have m: "length line = RC_MAX_LINE_LEN" "0 < RC_MAX_LINE_LEN" using Cons.prems by (simp_all add: rc_consts)
  obtain r tx where r: "recv_line (tn_polls t) RC_MAX_LINE_LEN (tn_timeout t) (tn_start t) line 0 = Some (r, tx)"
    "line_ok (tn_polls t) RC_MAX_LINE_LEN [] r"
    by (rule fresh_line [OF m])
  show ?case
  proof (cases "tn_stop t \<or> r = LineWaiting")
    case True
    with r(1) Cons.prems self show ?thesis by auto
  next
    case False
    then obtain ret b where b: "r = LineRet ret b" by (cases r) auto
    have lb: "length b = 256" using r(2) b by (simp add: line_ok_def rc_consts)
    have go: "?goal ts h b u" if "session_ready u" "\<not> rc_capturing u" for h u
      using Cons.IH [OF that(1) lb that(2)] .
    let ?s = "s\<lparr>last_activity_time := tn_after t\<rparr>"
    have s1: "session_ready ?s" "\<not> rc_capturing ?s" "same_identity s ?s"
      using Cons.prems by (simp_all add: session_ready_def same_identity_def)
    obtain io u where u: "run_command console err_name history (c_string b) ?s = Some (RunCmd (c_string b) # map Tx io, u)"
      "session_ready u" "u = ?s\<lparr>capture_buf := capture_buf u, capture_pos := capture_pos u, rc_capturing := False\<rparr>"
      using run_command_result [OF s1(1), of console err_name history "c_string b"] by (elim exE conjE) (rule that)
    obtain x y where ux: "u = ?s\<lparr>capture_buf := x, capture_pos := y, rc_capturing := False\<rparr>"
      using u(3) by (rule that)
    have u': "\<not> rc_capturing u" "same_identity ?s u" unfolding ux by (simp_all add: same_identity_def)
    consider "ret = -2 \<or> (ret < 0 \<and> ret \<noteq> -3)" | "ret = -3" | "ret = 0" | "ret > 0" by linarith
    then show ?thesis
    proof cases
      case 1
      with False r(1) b Cons.prems self show ?thesis by (cases "ret = -2") (auto simp: Let_def)
    next
      case 2
      with False r(1) b go [OF Cons.prems(1,3), of history] show ?thesis by (auto simp: Let_def)
    next
      case 3
      obtain ended io v where "session_loop console err_name ts history b ?s = Some (ended, io, v)" "session_ready v"
        "\<not> rc_capturing v" "same_identity ?s v"
        using go [OF s1(1,2), of history] by blast
      with 3 False r(1) b same_identity_trans [OF s1(3)] show ?thesis by (auto simp: Let_def)
    next
      case 4
      show ?thesis
      proof (cases "c_string b = ''quit'' \<or> c_string b = ''exit''")
        case True
        with 4 False r(1) b s1 show ?thesis by (auto simp: Let_def)
      next
        case quit: False
        obtain ended rest v where v: "session_loop console err_name ts (history @ [c_string b]) b u = Some (ended, rest, v)"
          "session_ready v" "\<not> rc_capturing v" "same_identity u v"
          using go [OF u(2) u'(1)] by blast
        have "same_identity s v"
          using same_identity_trans [OF same_identity_trans [OF s1(3) u'(2)] v(4)] .
        with 4 False r(1) b quit u(1) v show ?thesis by (auto simp: Let_def)
      qed
    qed
  qed
qed

section \<open>A connection\<close>

definition env_ok :: "rc_env \<Rightarrow> bool" where
  "env_ok env \<longleftrightarrow> length (re_auth_mem env) = 64 \<and> length (re_line_mem env) = 256 \<and>
     (\<forall>b. re_capture env = Some b \<longrightarrow> length b = 10240)"

text \<open>Connections from outside the access point's network are only let in when that is allowed.\<close>

definition admitted :: "rc_env \<Rightarrow> bool" where
  "admitted env \<longleftrightarrow> re_wan_access env \<or> re_client_addr env AND 0x00FFFFFF = re_ap_ip env AND 0x00FFFFFF"

definition shown_password :: "rc_env \<Rightarrow> bool" where
  "shown_password env \<longleftrightarrow> \<not> re_password_set env \<or>
     (\<exists>i < 3. i < length (re_turns env) \<and> accepted_line (re_verify env) (re_turns env ! i))"

lemma authenticate_result:
  assumes "env_ok env"
  shows "\<exists>r ts' io t j. authenticate_client (re_password_set env) (re_verify env) (re_turns env) (re_auth_mem env) s
      = Some (r, ts', io, t) \<and> no_command io \<and> t = s\<lparr>failed_auths := failed_auths s + of_nat j\<rparr> \<and> j \<le> 3 \<and>
    (r = AuthOk \<longrightarrow> shown_password env)"
proof (cases "re_password_set env")
  case True
  then show ?thesis
    using auth_loop_result [of "re_auth_mem env" "re_verify env" 3 "re_turns env" s] assms
    by (simp add: authenticate_client_def env_ok_def shown_password_def RC_MAX_AUTH_ATTEMPTS_def)
next
  case False
  then show ?thesis by (auto simp: authenticate_client_def shown_password_def intro!: exI [of _ 0])
qed

lemma handle_session_result:
  assumes "env_ok env" "\<not> rc_capturing s"
  shows "\<exists>ended io t. handle_session console err_name now (re_capture env) (re_line_mem env) ts s = Some (ended, io, t) \<and>
    \<not> rc_capturing t \<and> session_mutex t = session_mutex s \<and> failed_auths t = failed_auths s \<and>
    (ended \<longrightarrow> capture_buf t = None)"
proof (cases "re_capture env")
  case None
  with assms show ?thesis by (intro exI [of _ True]) (simp add: handle_session_def)
next
  case (Some b)
  let ?s = "s\<lparr>rc_mode := RC_STATE_ACTIVE, session_start_time := now, last_activity_time := now, capture_buf := Some b\<rparr>"
  have ok: "session_ready ?s" "length (re_line_mem env) = 256" "\<not> rc_capturing ?s"
    using assms Some by (simp_all add: session_ready_def env_ok_def)
  obtain ended io u where u: "session_loop console err_name ts [] (re_line_mem env) ?s = Some (ended, io, u)"
    "session_ready u" "\<not> rc_capturing u" "same_identity ?s u"
    using session_loop_result [OF ok, of console err_name ts "[]"] by (elim exE conjE) (rule that)
  obtain w x y z where e: "u = ?s\<lparr>capture_buf := w, capture_pos := x, rc_capturing := y, last_activity_time := z\<rparr>"
    using u(4) unfolding same_identity_def by (rule that)
  have "session_mutex u = session_mutex s" "failed_auths u = failed_auths s" unfolding e by simp_all
  with u Some show ?thesis by (simp add: handle_session_def)
qed

section \<open>Properties\<close>

text \<open>
  \<open>recv_line\<close> never writes outside its buffer, whatever is received; the line it returns is the
  one the keys typed so far leave after editing, consists of printable characters, and was ended
  by a line feed unless it fills the buffer.
\<close>

theorem console_line_edited:
  assumes "length buf = m" "0 < m"
  shows "\<exists>r tx. recv_line ps m tmo start buf 0 = Some (r, tx) \<and>
    (\<forall>len b. r = LineRet len b \<longrightarrow> length b = m \<and> (0 \<le> len \<longrightarrow>
      (\<exists>used rest. ps = used @ rest \<and> c_string b = foldl edit [] (keys used) \<and> len = int (length (c_string b)) \<and>
        (\<forall>c \<in> set (c_string b). printable c) \<and>
        (length (c_string b) + 1 < m \<longrightarrow> (\<exists>p ps'. rest = p # ps' \<and> pl_recv p = RecvChar CHR 0x0A)))))"
proof -
  obtain r tx where r: "recv_line ps m tmo start buf 0 = Some (r, tx)" "line_ok ps m [] r"
    by (rule fresh_line [OF assms])
  then show ?thesis by (cases r) (simp_all add: line_ok_def)
qed

definition key :: "char \<Rightarrow> poll" where
  "key c = \<lparr>pl_kick = False, pl_shutdown = False, pl_now = 0, pl_recv = RecvChar c\<rparr>"

theorem console_line_edited_witness:
  "\<exists>b tx. recv_line (map key [CHR ''a'', CHR ''x'', CHR 0x08, CHR ''b'', CHR 0x0A, CHR ''c'']) 64 60 0 (replicate 64 CHR 0xFF) 0
      = Some (LineRet 2 b, tx) \<and> c_string b = ''ab''"
proof -
  let ?p = "map key [CHR ''a'', CHR ''x'', CHR 0x08, CHR ''b'', CHR 0x0A, CHR ''c'']"
  have l: "length (replicate 64 CHR 0xFF) = (64 :: nat)" "0 < (64 :: nat)" by simp_all
  let ?r = "recv_line ?p 64 60 0 (replicate 64 CHR 0xFF) 0"
  have c: "case ?r of Some (LineRet n b, _) \<Rightarrow> n = 2 \<and> c_string b = ''ab'' | _ \<Rightarrow> False" by code_simp
  obtain r tx where r: "?r = Some (r, tx)"
    using console_line_edited [OF l, of ?p 60 0] by (elim exE conjE) (rule that)
  show ?thesis using c unfolding r by (cases r) simp_all
qed

text \<open>
  A command line is run once; the client then gets exactly what the command wrote to standard
  output, line feeds converted, as far as the capture buffer reaches, followed by the line for
  its result and the prompt; each \<open>send\<close> has at most 512 bytes of the output.
\<close>

theorem console_output_faithful:
  assumes "capture_buf s = Some buf" "length buf = 10240"
  shows "\<exists>io t. run_command console err_name history cmd s = Some (RunCmd cmd # map Tx io, t) \<and>
    concat io = to_crlf None (take 10239 (concat (map written (snd (console history cmd))))) @
      result_line err_name (fst (console history cmd)) @ RC_PROMPT \<and>
    \<not> rc_capturing t \<and> (\<exists>b. capture_buf t = Some b \<and> length b = 10240)"
proof -
  have ok: "session_ready s" using assms by (auto simp: session_ready_def)
  obtain io t where t: "run_command console err_name history cmd s = Some (RunCmd cmd # map Tx io, t)" "session_ready t"
    "t = s\<lparr>capture_buf := capture_buf t, capture_pos := capture_pos t, rc_capturing := False\<rparr>"
    "concat io = to_crlf None (take 10239 (concat (map written (snd (console history cmd))))) @
      result_line err_name (fst (console history cmd)) @ RC_PROMPT"
    using run_command_result [OF ok, of console err_name history cmd] by (elim exE conjE) (rule that)
  obtain x y where "t = s\<lparr>capture_buf := x, capture_pos := y, rc_capturing := False\<rparr>" using t(3) by (rule that)
  then have "\<not> rc_capturing t" by simp
  with t(1,2,4) show ?thesis unfolding session_ready_def by blast
qed

definition demo_console :: console where
  "demo_console history cmd = (ESP_OK, [Puts ''up'', Printf (Some cmd), Fwrite False ''file''])"

theorem console_output_faithful_witness:
  "\<exists>io t. run_command demo_console (\<lambda>_. []) [] ''hi'' (rc_boot\<lparr>capture_buf := Some (replicate 10240 CHR ''x'')\<rparr>)
      = Some (RunCmd ''hi'' # map Tx io, t) \<and>
    concat io = ''up'' @ [CHR 0x0D, CHR 0x0A] @ ''hi'' @ RC_PROMPT"
  using console_output_faithful [of "rc_boot\<lparr>capture_buf := Some (replicate 10240 CHR ''x'')\<rparr>"
      "replicate 10240 CHR ''x''" demo_console "\<lambda>_. []" "[]" "''hi''"]
  by (auto simp: demo_console_def result_line_def)

text \<open>The service of a client that is let in: commands only after the password, at most three failures counted.\<close>

lemma serve_admitted:
  assumes env: "env_ok env" and free: "\<not> rc_capturing s" and adm: "admitted env \<and> session_mutex s = MutexFree"
  shows "\<exists>ended io t j. serve_client env s = Some (ended, io, t) \<and>
    (\<forall>c. RunCmd c \<in> set io \<longrightarrow> shown_password env) \<and>
    failed_auths t = failed_auths s + of_nat j \<and> j \<le> 3 \<and> \<not> rc_capturing t \<and>
    (ended \<longrightarrow> \<not> rc_client t \<and> session_mutex t = session_mutex s)"
proof -
  let ?s = "s\<lparr>rc_client := True, client_ip := re_client_name env\<rparr>"
  let ?u = "?s\<lparr>total_connections := total_connections s + 1, session_mutex := MutexHeld, rc_mode := RC_STATE_AUTH_WAIT,
    kick_requested := False\<rparr>"
  obtain r ts io t j where a: "authenticate_client (re_password_set env) (re_verify env) (re_turns env) (re_auth_mem env) ?u
      = Some (r, ts, io, t)" "no_command io" "t = ?u\<lparr>failed_auths := failed_auths ?u + of_nat j\<rparr>" "j \<le> 3"
    "r = AuthOk \<longrightarrow> shown_password env"
    using authenticate_result [OF env, of ?u] by blast
  have t: "session_mutex t = MutexHeld" "\<not> rc_capturing t" "failed_auths t = failed_auths s + of_nat j"
    using free unfolding a(3) by simp_all
  let ?fin = "\<lambda>s. s\<lparr>rc_client := False, client_ip := [], rc_mode := RC_STATE_LISTENING, kick_requested := False,
    session_mutex := sem_give (session_mutex s)\<rparr>"
  have nc: "RunCmd c \<notin> set io" for c using a(2) by (simp add: no_command_def)
  show ?thesis
  proof (cases r)
    case AuthWaiting
    have "serve_client env s = Some (False, Tx RC_BANNER # io, t)"
      using adm a(1) AuthWaiting by (simp add: serve_client_def admitted_def Let_def)
    with t nc a(4) show ?thesis by auto
  next
    case AuthFailed
    have "serve_client env s = Some (True, Tx RC_BANNER # io, ?fin t)"
      using adm a(1) AuthFailed by (simp add: serve_client_def admitted_def Let_def)
    with t nc a(4) adm show ?thesis by (auto simp: sem_simps)
  next
    case AuthOk
    obtain ended more v where v: "handle_session (re_console env) (re_err_name env) (re_now env) (re_capture env) (re_line_mem env) ts t
        = Some (ended, more, v)" "\<not> rc_capturing v" "session_mutex v = session_mutex t" "failed_auths v = failed_auths t"
      using handle_session_result [OF env t(2), of "re_console env" "re_err_name env" "re_now env" ts]
      by (elim exE conjE) (rule that)
    have "serve_client env s = Some (ended, Tx RC_BANNER # io @ more, if ended then ?fin v else v)"
      using adm a(1) AuthOk v(1) by (simp add: serve_client_def admitted_def Let_def)
    with v t a(4,5) adm AuthOk show ?thesis by (auto simp: sem_simps)
  qed
qed

text \<open>
  C17: Whoever connects and whatever is sent, serving a connection stays inside its buffers, and a
  command is run only for a client of an admitted network that, when a password is set, sent an
  accepted one in one of its first three lines; afterwards the session lock is free, nothing is
  captured any more, and at most three failures were counted.
\<close>

theorem console_guarded:
  assumes "env_ok env" "\<not> rc_capturing s"
  shows "\<exists>ended io t j. serve_client env s = Some (ended, io, t) \<and>
    (\<forall>c. RunCmd c \<in> set io \<longrightarrow> admitted env \<and> shown_password env \<and> session_mutex s = MutexFree) \<and>
    failed_auths t = failed_auths s + of_nat j \<and> j \<le> 3 \<and> \<not> rc_capturing t \<and>
    (ended \<longrightarrow> \<not> rc_client t \<and> session_mutex t = session_mutex s)"
proof -
  let ?s = "s\<lparr>rc_client := True, client_ip := re_client_name env\<rparr>"
  show ?thesis
  proof (cases "admitted env \<and> session_mutex s = MutexFree")
    case False
    have out: "serve_client env s = Some (True, if admitted env then [Tx RC_BUSY] else [],
        if admitted env then ?s\<lparr>total_connections := total_connections s + 1, rc_client := False\<rparr> else ?s\<lparr>rc_client := False\<rparr>)"
      using False by (auto simp: serve_client_def admitted_def Let_def)
    show ?thesis unfolding out using assms(2) by (auto intro!: exI [of _ 0])
  next
    case True
    from serve_admitted [OF assms this] True show ?thesis by blast
  qed
qed

definition demo_env :: rc_env where
  "demo_env = \<lparr>re_wan_access = False, re_client_addr = 0x0204A8C0, re_ap_ip = 0x0104A8C0, re_client_name = ''192.168.4.2'',
     re_password_set = True, re_verify = (\<lambda>p. p = ''pw''), re_auth_mem = replicate 64 CHR 0x00, re_now = 0,
     re_capture = Some (replicate 10240 CHR 0x00), re_line_mem = replicate 256 CHR 0x00, re_console = demo_console,
     re_err_name = (\<lambda>_. []), re_turns = []\<rparr>"

theorem console_guarded_witness:
  "\<exists>ended io t. serve_client demo_env (rc_boot\<lparr>session_mutex := MutexFree\<rparr>) = Some (ended, io, t) \<and> \<not> rc_capturing t \<and>
    (\<forall>c. RunCmd c \<notin> set io)"
proof -
  have "\<not> shown_password demo_env" by (simp add: shown_password_def demo_env_def)
  then show ?thesis
    using console_guarded [of demo_env "rc_boot\<lparr>session_mutex := MutexFree\<rparr>"]
    by (auto simp: env_ok_def demo_env_def rc_boot_def)
qed

section \<open>Corners\<close>

text \<open>A line longer than the buffer is cut: what follows is taken as the next line.\<close>

lemma long_line_split:
  "case recv_line (map key (''aaaa'' @ [CHR 0x0A])) 4 60 0 (replicate 4 CHR 0x00) 0 of
     Some (LineRet n b, _) \<Rightarrow> n = 3 \<and> c_string b = ''aaa'' | _ \<Rightarrow> False"
  by code_simp

text \<open>Enabling while the old task is still on its way out starts no task, and it still exits.\<close>

lemma enable_while_exiting:
  assumes "rc_enabled (rc_cfg s)" "task_handle s" "\<not> snd (rc_wait_exit gone 0)"
    "remote_console_disable gone s n = (e, t, n')" "remote_console_enable ok t n' = (e', u, n'')"
  shows "e' = ESP_OK \<and> rc_enabled (rc_cfg u) \<and> shutdown_requested u \<and> task_handle u"
  using assms by (auto simp: remote_console_disable_def remote_console_enable_def Let_def)

text \<open>
  Switching the console off ends: the wait for its task takes less than 3020 ms, and reports the
  task as gone exactly when its handle was clear at one of the polls every 20 ms; the console is then
  off in memory, and no client socket is listened on.
\<close>

theorem disable_ends:
  "fst (rc_wait_exit gone 0) < 3020 \<and>
   snd (rc_wait_exit gone 0) = (\<exists>k \<le> 150. gone (20 * k)) \<and>
   (let (e, t, n') = remote_console_disable gone s n in e = ESP_OK \<and> \<not> rc_enabled (rc_cfg t) \<and>
      (task_handle t \<longrightarrow> task_handle s) \<and>
      (rc_enabled (rc_cfg s) \<longrightarrow> \<not> server_socket t \<and> (task_handle t \<longleftrightarrow> task_handle s \<and> \<not> (\<exists>k \<le> 150. gone (20 * k)))))"
proof -
  have "fst (rc_wait_exit gone 0) < RC_SHUTDOWN_TIMEOUT_MS + RC_SHUTDOWN_POLL_MS \<and>
      snd (rc_wait_exit gone 0) = (\<exists>k. 0 + k * RC_SHUTDOWN_POLL_MS < RC_SHUTDOWN_TIMEOUT_MS + RC_SHUTDOWN_POLL_MS \<and> gone (0 + k * RC_SHUTDOWN_POLL_MS))"
    by (rule poll_ends [where f = "rc_wait_exit gone"]) (simp_all add: rc_wait_exit.simps [of gone] rc_consts)
  moreover have "(\<exists>k. 0 + k * RC_SHUTDOWN_POLL_MS < RC_SHUTDOWN_TIMEOUT_MS + RC_SHUTDOWN_POLL_MS \<and> gone (0 + k * RC_SHUTDOWN_POLL_MS))
      = (\<exists>k \<le> 150. gone (20 * k))"
  proof -
    have "k * RC_SHUTDOWN_POLL_MS < RC_SHUTDOWN_TIMEOUT_MS + RC_SHUTDOWN_POLL_MS \<longleftrightarrow> k \<le> 150" for k by (auto simp: rc_consts)
    then show ?thesis by (simp add: rc_consts mult.commute)
  qed
  ultimately have w: "fst (rc_wait_exit gone 0) < 3020" "snd (rc_wait_exit gone 0) = (\<exists>k \<le> 150. gone (20 * k))"
    by (simp_all add: rc_consts)
  show ?thesis unfolding w(2) [symmetric] using w(1)
    by (auto simp: remote_console_disable_def rc_task_exit_def Let_def)
qed

end
