(* ===== verification/Uplink.thy ===== *)
theory Uplink
  imports Pcap_Capture
begin

text \<open>
  The uplink: the PPPoE session (\<open>main/pppoe_manager.c\<close>), the WireGuard tunnel on top of it
  (\<open>main/vpn_manager.c\<close>), the events of the Ethernet port and the settings made at start-up
  (\<open>main/esp32_nat_router.c\<close>).  What the functions do to other components is recorded in order.
\<close>

section \<open>Settings and state\<close>

text \<open>An unset string (\<open>NULL\<close>) and an empty one are treated alike by the code.\<close>

record up_cfg =
  pppoe_enabled :: bool
  pppoe_babyjumbo :: bool
  pppoe_vlan :: int
  pppoe_user :: string
  pppoe_service :: string
  pppoe_auth :: int
  up_vpn_enabled :: bool
  up_route_all :: bool
  vpn_private_key :: string
  vpn_public_key :: string
  vpn_endpoint :: string
  vpn_address :: string
  vpn_dns :: string
  ap_dns :: string

datatype route = RouteNone | RoutePpp | RouteWg

datatype linkfn = LinkNull | LinkDriver | LinkVlan

record up_state =
  ppp_pcb_handle :: bool
  pppoe_session_active :: bool
  eth_netif_cached :: bool
  eth_linkoutput :: linkfn
  original_eth_linkoutput :: linkfn
  pppoe_connected :: bool
  pppoe_ip :: u32
  my_ip :: u32
  up_ap_connect :: bool
  up_mss_clamp :: u16
  up_pmtu :: u16
  default_route :: route
  connected_bit :: bool
  reconnect_tasks :: nat
  eth_link_up :: bool
  vpn_connected :: bool
  wg_initialized :: bool
  wg_netif :: bool
  vpn_tunnel_ip :: u32

text \<open>Calls of other components.\<close>

datatype up_act = PortmapsOff | PortmapsOn | SetApDns nat "string + u32" | SetLinkType nat | InitByteCounter
  | DeinitByteCounter | InitSntp | SyslogConnected | DdnsUpdate u32 | PppSetAuth nat | PppFree | WgDisconnect

definition effective_ap_dns :: "up_cfg \<Rightarrow> string option" where
  "effective_ap_dns cfg =
     (if up_vpn_enabled cfg \<and> vpn_dns cfg \<noteq> [] then Some (vpn_dns cfg)
      else if ap_dns cfg \<noteq> [] then Some (ap_dns cfg) else None)"

section \<open>VLAN tags\<close>

text \<open>
  A frame sent through the hook: what the driver is given, and the first segment and the room
  before it afterwards.  \<open>headroom\<close>: the four bytes before the payload, if \<open>pbuf_add_header\<close> can
  have them; \<open>alloc_ok\<close>: \<open>pbuf_alloc\<close> has memory for a copy.
\<close>

definition vlan_tag :: "int \<Rightarrow> bytes" where
  "vlan_tag vlan = [0x81, 0x00, word_of_int (vlan div 256) AND 0x0F, word_of_int vlan AND 0xFF]"

definition eth_vlan_linkoutput_hook :: "int \<Rightarrow> bytes option \<Rightarrow> bool \<Rightarrow> packet \<Rightarrow> (bytes \<times> bytes \<times> bytes option) option" where
  "eth_vlan_linkoutput_hook vlan headroom alloc_ok p =
     (let plain = Some (concat (segments p), payload p, headroom) in
      if vlan > 0 \<and> length (payload p) \<ge> 14 then do {
        b12 \<leftarrow> rd8 (payload p) 12; b13 \<leftarrow> rd8 (payload p) 13;
        if be16 b12 b13 = 0x8863 \<or> be16 b12 b13 = 0x8864 then
          (case headroom of
             Some h \<Rightarrow>
               let dst = h @ payload p in do {
                 macs \<leftarrow> rd_bytes dst 4 12;
                 dst \<leftarrow> wr_bytes dst 0 macs;
                 dst \<leftarrow> wr_bytes dst 12 (vlan_tag vlan);
                 let frame = dst @ concat (chained p) in do {
                   macs \<leftarrow> rd_bytes dst 0 12;
                   dst \<leftarrow> wr_bytes dst 4 macs;
                   Some (frame, drop 4 dst, Some (take 4 dst)) } }
           | None \<Rightarrow>
               if alloc_ok then do {
                 macs \<leftarrow> rd_bytes (concat (segments p)) 0 12;
                 rest \<leftarrow> rd_bytes (concat (segments p)) 12 (unat (tot_len p) - 12);
                 Some (macs @ vlan_tag vlan @ rest, payload p, headroom) }
               else plain)
        else plain }
      else plain)"

definition install_vlan_hook :: "up_cfg \<Rightarrow> up_state \<Rightarrow> up_state" where
  "install_vlan_hook cfg s =
     (if pppoe_vlan cfg > 0 \<and> original_eth_linkoutput s = LinkNull
      then s\<lparr>original_eth_linkoutput := eth_linkoutput s, eth_linkoutput := LinkVlan\<rparr> else s)"

definition remove_vlan_hook :: "up_state \<Rightarrow> up_state" where
  "remove_vlan_hook s =
     (if original_eth_linkoutput s \<noteq> LinkNull
      then s\<lparr>eth_linkoutput := original_eth_linkoutput s, original_eth_linkoutput := LinkNull\<rparr> else s)"

section \<open>The PPPoE session\<close>

text \<open>\<open>servers\<close>: the two name servers the peer announced, 0 for none.\<close>

definition copy_dns_to_ap :: "up_cfg \<Rightarrow> u32 \<times> u32 \<Rightarrow> up_act list" where
  "copy_dns_to_ap cfg servers =
     (case effective_ap_dns cfg of
        Some d \<Rightarrow> [SetApDns 0 (Inl d)]
      | None \<Rightarrow> (if fst servers \<noteq> 0 then [SetApDns 0 (Inr (fst servers))] else []) @
                (if snd servers \<noteq> 0 then [SetApDns 1 (Inr (snd servers))] else []))"

definition reset_dns_to_captive :: "u32 \<Rightarrow> up_act list" where
  "reset_dns_to_captive my_ap_ip = [SetApDns 0 (Inr my_ap_ip)]"

definition vpn_reassert_default_route :: "up_cfg \<Rightarrow> up_state \<Rightarrow> up_state" where
  "vpn_reassert_default_route cfg s =
     (if up_vpn_enabled cfg \<and> up_route_all cfg \<and> wg_initialized s \<and> wg_netif s \<and> vpn_connected s
      then s\<lparr>default_route := RouteWg\<rparr> else s)"

datatype ppp_err = PPPERR_NONE | PPPERR_CONNECT | PPPERR_PEERDEAD | PPPERR_AUTHFAIL | PPPERR_USER | PPPERR_OTHER int

text \<open>What a callback finds: the address of the PPP interface and the announced name servers.\<close>

record ppp_info =
  pi_addr :: u32
  pi_dns :: "u32 \<times> u32"
  pi_ap_ip :: u32

definition base_clamp :: "up_cfg \<Rightarrow> u16 \<times> u16" where
  "base_clamp cfg = (if pppoe_babyjumbo cfg then (1460, 1500) else (1452, 1492))"

definition handle_disconnect :: "ppp_info \<Rightarrow> up_state \<Rightarrow> up_act list \<times> up_state" where
  "handle_disconnect info s =
     (DeinitByteCounter # reset_dns_to_captive (pi_ap_ip info),
      s\<lparr>pppoe_connected := False, up_ap_connect := False, pppoe_ip := 0, my_ip := 0, up_mss_clamp := 0, up_pmtu := 0,
        default_route := RouteNone, connected_bit := False, reconnect_tasks := reconnect_tasks s + 1\<rparr>)"

definition ppp_link_status_cb :: "up_cfg \<Rightarrow> ppp_info \<Rightarrow> ppp_err \<Rightarrow> up_state \<Rightarrow> up_act list \<times> up_state" where
  "ppp_link_status_cb cfg info err s =
     (case err of
        PPPERR_NONE \<Rightarrow>
          let s = s\<lparr>pppoe_ip := pi_addr info, my_ip := pi_addr info, up_ap_connect := True, pppoe_connected := True,
                up_mss_clamp := fst (base_clamp cfg), up_pmtu := snd (base_clamp cfg), default_route := RoutePpp\<rparr>;
              s = vpn_reassert_default_route cfg s
          in ([PortmapsOff, PortmapsOn] @ copy_dns_to_ap cfg (pi_dns info) @
              [SetLinkType 101, InitByteCounter, InitSntp, SyslogConnected, DdnsUpdate (pi_addr info)],
              s\<lparr>connected_bit := True\<rparr>)
      | PPPERR_CONNECT \<Rightarrow> handle_disconnect info s
      | PPPERR_PEERDEAD \<Rightarrow> handle_disconnect info s
      | PPPERR_AUTHFAIL \<Rightarrow> ([], s\<lparr>pppoe_connected := False, up_ap_connect := False, pppoe_ip := 0, my_ip := 0\<rparr>)
      | PPPERR_USER \<Rightarrow>
          (if ppp_pcb_handle s then ([DeinitByteCounter, PppFree], s\<lparr>ppp_pcb_handle := False, pppoe_session_active := False\<rparr>)
           else ([DeinitByteCounter], s\<lparr>pppoe_session_active := False\<rparr>))
      | PPPERR_OTHER _ \<Rightarrow> handle_disconnect info s)"

text \<open>Callbacks one after the other.\<close>

fun callbacks :: "up_cfg \<Rightarrow> ppp_info \<Rightarrow> ppp_err list \<Rightarrow> up_state \<Rightarrow> up_act list \<times> up_state" where
  "callbacks cfg info [] s = ([], s)"
| "callbacks cfg info (e # es) s =
     (let (a, s) = ppp_link_status_cb cfg info e s; (b, s) = callbacks cfg info es s in (a @ b, s))"

datatype start_result = Started | StartInvalidState | StartInvalidArg | StartFailed

text \<open>\<open>create_ok\<close>, \<open>connect_ok\<close>: whether \<open>pppapi_pppoe_create\<close> and \<open>pppapi_connect\<close> succeed.\<close>

definition ppp_auth_type :: "int \<Rightarrow> nat" where
  "ppp_auth_type auth = (if auth = 1 then 1 else if auth = 2 then 2 else 0)"

definition pppoe_start :: "up_cfg \<Rightarrow> bool \<Rightarrow> bool \<Rightarrow> bool \<Rightarrow> up_state \<Rightarrow> start_result \<times> up_act list \<times> up_state" where
  "pppoe_start cfg have_netif create_ok connect_ok s =
     (if \<not> pppoe_enabled cfg then (StartInvalidState, [], s)
      else if pppoe_session_active s then (StartInvalidState, [], s)
      else if pppoe_user cfg = [] then (StartInvalidArg, [], s)
      else if \<not> have_netif then (StartInvalidArg, [], s)
      else let s = install_vlan_hook cfg (s\<lparr>eth_netif_cached := True\<rparr>) in
        if \<not> create_ok then (StartFailed, [], s\<lparr>ppp_pcb_handle := False\<rparr>)
        else let auth = [PppSetAuth (ppp_auth_type (pppoe_auth cfg))] in
          if \<not> connect_ok then (StartFailed, auth @ [PppFree], s\<lparr>ppp_pcb_handle := False\<rparr>)
          else (Started, auth, s\<lparr>ppp_pcb_handle := True, pppoe_session_active := True\<rparr>))"

text \<open>\<open>fires\<close>: the callbacks \<open>pppapi_close\<close> makes before it returns.\<close>

definition pppoe_stop :: "up_cfg \<Rightarrow> ppp_info \<Rightarrow> ppp_err list \<Rightarrow> up_state \<Rightarrow> up_act list \<times> up_state" where
  "pppoe_stop cfg info fires s =
     (let s = s\<lparr>pppoe_connected := False, pppoe_ip := 0, my_ip := 0, up_mss_clamp := 0, up_pmtu := 0\<rparr>;
          (acts, s) = (if pppoe_session_active s \<and> ppp_pcb_handle s then callbacks cfg info fires s
                       else ([], s\<lparr>pppoe_session_active := False\<rparr>));
          s = (if eth_netif_cached s then remove_vlan_hook s else s)
      in ([PortmapsOff, PortmapsOn] @ acts, s))"

text \<open>The task started by a disconnect, after its two seconds.  \<open>link_up\<close>: the flag of the interface.\<close>

definition pppoe_reconnect_task :: "up_cfg \<Rightarrow> ppp_info \<Rightarrow> ppp_err list \<Rightarrow> bool \<Rightarrow> bool \<Rightarrow> bool \<Rightarrow> up_state
    \<Rightarrow> up_act list \<times> up_state" where
  "pppoe_reconnect_task cfg info fires link_up create_ok connect_ok s =
     (let pcb = ppp_pcb_handle s;
          s = s\<lparr>ppp_pcb_handle := False, pppoe_session_active := False, reconnect_tasks := reconnect_tasks s - 1\<rparr>;
          (acts, s) = (if pcb then let (a, s) = callbacks cfg info fires s in (a @ [PppFree], s) else ([], s))
      in if eth_netif_cached s \<and> link_up
         then let (r, more, s) = pppoe_start cfg True create_ok connect_ok s in (acts @ more, s)
         else (acts, s))"

definition pppoe_is_connected :: "up_state \<Rightarrow> bool" where
  "pppoe_is_connected s \<longleftrightarrow> pppoe_session_active s \<and> pppoe_connected s \<and> ppp_pcb_handle s"

section \<open>The tunnel\<close>

definition vpn_clamp :: "up_cfg \<Rightarrow> u16 \<times> u16" where
  "vpn_clamp cfg = (if pppoe_babyjumbo cfg then (1380, 1440) else (1352, 1432))"

text \<open>
  \<open>init_ok\<close>, \<open>connect_ok\<close>, \<open>default_ok\<close>: the results of the WireGuard library; \<open>tunnel\<close>: the address
  of its interface, if it has made one.
\<close>

definition vpn_connect :: "up_cfg \<Rightarrow> bool \<Rightarrow> bool \<Rightarrow> bool \<Rightarrow> u32 option \<Rightarrow> up_state \<Rightarrow> bool \<times> up_act list \<times> up_state" where
  "vpn_connect cfg init_ok connect_ok default_ok tunnel s =
     (if \<not> up_vpn_enabled cfg then (False, [], s)
      else if vpn_private_key cfg = [] \<or> vpn_public_key cfg = [] \<or> vpn_endpoint cfg = [] \<or> vpn_address cfg = []
      then (False, [], s)
      else if \<not> wg_initialized s \<and> \<not> init_ok then (False, [], s)
      else let s = s\<lparr>wg_initialized := True\<rparr> in
        if \<not> connect_ok then (False, [], s\<lparr>wg_initialized := False, wg_netif := False\<rparr>)
        else let s = s\<lparr>wg_netif := (tunnel \<noteq> None)\<rparr>;
                 s = (if up_route_all cfg \<and> default_ok then s\<lparr>default_route := RouteWg\<rparr> else s);
                 s = s\<lparr>up_mss_clamp := fst (vpn_clamp cfg), up_pmtu := snd (vpn_clamp cfg), vpn_connected := True\<rparr>;
                 s = (case tunnel of Some a \<Rightarrow> s\<lparr>vpn_tunnel_ip := a\<rparr> | None \<Rightarrow> s)
             in (True, [PortmapsOff, PortmapsOn], s))"

text \<open>\<open>restored\<close>: the default route \<open>esp_wireguard_disconnect\<close> puts back, if it does.\<close>

definition vpn_disconnect :: "up_cfg \<Rightarrow> route option \<Rightarrow> up_state \<Rightarrow> up_act list \<times> up_state" where
  "vpn_disconnect cfg restored s =
     (let s = s\<lparr>vpn_connected := False, vpn_tunnel_ip := 0\<rparr>;
          s = (if pppoe_connected s then s\<lparr>up_mss_clamp := fst (base_clamp cfg), up_pmtu := snd (base_clamp cfg)\<rparr>
               else s\<lparr>up_mss_clamp := 0, up_pmtu := 0\<rparr>)
      in if wg_initialized s then ([PortmapsOff, PortmapsOn, WgDisconnect],
           (case restored of Some r \<Rightarrow> s\<lparr>default_route := r\<rparr> | None \<Rightarrow> s)\<lparr>wg_initialized := False\<rparr>)
         else ([PortmapsOff, PortmapsOn], s))"

text \<open>\<open>peer_up\<close>: \<open>esp_wireguardif_peer_is_up\<close>.\<close>

definition vpn_is_connected :: "bool \<Rightarrow> up_state \<Rightarrow> bool" where
  "vpn_is_connected peer_up s = (if \<not> wg_initialized s \<or> \<not> vpn_connected s \<or> \<not> wg_netif s then False else peer_up)"

text \<open>The kill switch's idea of the tunnel's subnet.\<close>

definition vpn_in_subnet :: "u32 \<times> u32 \<Rightarrow> u32 \<Rightarrow> bool" where
  "vpn_in_subnet subnet ip = (if snd subnet = 0 then False else ip AND snd subnet = fst subnet)"

text \<open>Waiting for the time: the clock at each of the rounds; the number of rounds waited.\<close>

fun wait_for_sntp :: "int list \<Rightarrow> nat \<Rightarrow> nat" where
  "wait_for_sntp clock retry =
     (if retry < 60 then
        (case clock of [] \<Rightarrow> retry
         | now # rest \<Rightarrow> if now > 1577836800 then retry else wait_for_sntp rest (retry + 1))
      else retry)"

text \<open>What the WireGuard library answers in one pass of the monitor.\<close>

record wg_answers =
  wa_peer_up :: bool
  wa_init_ok :: bool
  wa_connect_ok :: bool
  wa_default_ok :: bool
  wa_tunnel :: "u32 option"
  wa_restored :: "route option"

definition wg_connect :: "up_cfg \<Rightarrow> wg_answers \<Rightarrow> up_state \<Rightarrow> up_act list \<times> up_state" where
  "wg_connect cfg w s =
     (let (ok, acts, s) = vpn_connect cfg (wa_init_ok w) (wa_connect_ok w) (wa_default_ok w) (wa_tunnel w) s in (acts, s))"

text \<open>
  The monitor task: after the connected bit is seen, and every 15 seconds after that; the flag
  says whether it stays in its inner loop.
\<close>

definition monitor_start :: "up_cfg \<Rightarrow> wg_answers \<Rightarrow> up_state \<Rightarrow> up_act list \<times> up_state" where
  "monitor_start cfg w s = (let (acts, s) = wg_connect cfg w s in (InitSntp # acts, s))"

definition monitor_check :: "up_cfg \<Rightarrow> wg_answers \<Rightarrow> up_state \<Rightarrow> bool \<times> up_act list \<times> up_state" where
  "monitor_check cfg w s =
     (if \<not> connected_bit s then let (acts, s) = vpn_disconnect cfg (wa_restored w) s in (False, acts, s)
      else if \<not> vpn_is_connected (wa_peer_up w) s then
        let (a, s) = vpn_disconnect cfg (wa_restored w) s; (b, s) = wg_connect cfg w s in (True, a @ b, s)
      else (True, [], vpn_reassert_default_route cfg s))"

section \<open>The Ethernet port and start-up\<close>

definition eth_connected :: "up_cfg \<Rightarrow> bool \<Rightarrow> bool \<Rightarrow> bool \<Rightarrow> up_state \<Rightarrow> up_act list \<times> up_state" where
  "eth_connected cfg have_netif create_ok connect_ok s =
     (let s = s\<lparr>eth_link_up := True\<rparr> in
      if pppoe_enabled cfg \<and> have_netif
      then let (r, acts, s) = pppoe_start cfg have_netif create_ok connect_ok s in (acts, s)
      else ([], s))"

definition eth_disconnected :: "up_cfg \<Rightarrow> ppp_info \<Rightarrow> ppp_err list \<Rightarrow> up_state \<Rightarrow> up_act list \<times> up_state" where
  "eth_disconnected cfg info fires s =
     (let s = s\<lparr>eth_link_up := False\<rparr>;
          (acts, s) = (if pppoe_enabled cfg then pppoe_stop cfg info fires s else ([], s))
      in (acts, s\<lparr>up_ap_connect := False, connected_bit := False\<rparr>))"

text \<open>An address by DHCP, without PPPoE; \<open>upstream_dns\<close>: the name server of the Ethernet interface.\<close>

definition eth_got_ip :: "up_cfg \<Rightarrow> u32 \<Rightarrow> u32 option \<Rightarrow> up_state \<Rightarrow> up_act list \<times> up_state" where
  "eth_got_ip cfg ip upstream_dns s =
     (if pppoe_enabled cfg then ([], s)
      else ([PortmapsOff, PortmapsOn] @
            (case effective_ap_dns cfg of Some d \<Rightarrow> [SetApDns 0 (Inl d)]
             | None \<Rightarrow> (case upstream_dns of Some a \<Rightarrow> [SetApDns 0 (Inr a)] | None \<Rightarrow> [])) @
            [InitByteCounter, InitSntp, SyslogConnected, DdnsUpdate ip],
            s\<lparr>up_ap_connect := True, my_ip := ip, connected_bit := True\<rparr>))"

definition up_boot :: "up_cfg \<Rightarrow> up_state" where
  "up_boot cfg =
     (let clamp = (if up_vpn_enabled cfg \<and> pppoe_enabled cfg then vpn_clamp cfg
                   else if pppoe_enabled cfg then base_clamp cfg else (0, 0))
      in \<lparr>ppp_pcb_handle = False, pppoe_session_active = False, eth_netif_cached = False, eth_linkoutput = LinkDriver,
          original_eth_linkoutput = LinkNull, pppoe_connected = False, pppoe_ip = 0, my_ip = 0, up_ap_connect = False,
          up_mss_clamp = fst clamp, up_pmtu = snd clamp, default_route = RouteNone, connected_bit = False,
          reconnect_tasks = 0, eth_link_up = False, vpn_connected = False, wg_initialized = False, wg_netif = False,
          vpn_tunnel_ip = 0\<rparr>)"

end
