(* ===== verification/Uplink_Theorems.thy ===== *)
theory Uplink_Theorems
  imports Uplink
begin

text \<open>
  The uplink's life: whatever order its events come in, every PPP session is released once, the
  VLAN hook is never stacked on itself, and without a tunnel the segment size fits the line.
\<close>

section \<open>Events\<close>

text \<open>
  Closing a session makes lwIP report \<open>PPPERR_USER\<close> at most once before it returns; PPP callbacks
  only come when PPPoE is in use.  Each step carries the calls it made.
\<close>

definition close_reports :: "ppp_err list \<Rightarrow> bool" where
  "close_reports fires \<longleftrightarrow> fires = [] \<or> fires = [PPPERR_USER]"

inductive up_step :: "up_cfg \<Rightarrow> up_state \<Rightarrow> up_act list \<Rightarrow> up_state \<Rightarrow> bool" for cfg where
  ppp: "pppoe_enabled cfg \<Longrightarrow> ppp_link_status_cb cfg info e s = (acts, t) \<Longrightarrow> up_step cfg s acts t"
| reconnect: "reconnect_tasks s > 0 \<Longrightarrow> close_reports fires \<Longrightarrow>
    pppoe_reconnect_task cfg info fires lnk cr co s = (acts, t) \<Longrightarrow> up_step cfg s acts t"
| monitor: "monitor_start cfg w s = (acts, t) \<Longrightarrow> up_step cfg s acts t"
| check: "monitor_check cfg w s = (stay, acts, t) \<Longrightarrow> up_step cfg s acts t"
| link_up: "eth_connected cfg nif cr co s = (acts, t) \<Longrightarrow> up_step cfg s acts t"
| link_down: "close_reports fires \<Longrightarrow> eth_disconnected cfg info fires s = (acts, t) \<Longrightarrow> up_step cfg s acts t"
| got_ip: "eth_got_ip cfg ip dns s = (acts, t) \<Longrightarrow> up_step cfg s acts t"

inductive up_run :: "up_cfg \<Rightarrow> up_act list \<Rightarrow> up_state \<Rightarrow> bool" for cfg where
  boot: "up_run cfg [] (up_boot cfg)"
| step: "up_run cfg trace s \<Longrightarrow> up_step cfg s acts t \<Longrightarrow> up_run cfg (trace @ acts) t"

section \<open>Invariants\<close>

definition vlan_inv :: "up_state \<Rightarrow> bool" where
  "vlan_inv s \<longleftrightarrow> (eth_linkoutput s, original_eth_linkoutput s) \<in> {(LinkDriver, LinkNull), (LinkVlan, LinkDriver)}"

definition session_inv :: "up_state \<Rightarrow> bool" where
  "session_inv s \<longleftrightarrow> ppp_pcb_handle s = pppoe_session_active s"

definition clamp_inv :: "up_cfg \<Rightarrow> up_state \<Rightarrow> bool" where
  "clamp_inv cfg s \<longleftrightarrow> (pppoe_connected s \<and> \<not> vpn_connected s \<longrightarrow> (up_mss_clamp s, up_pmtu s) = base_clamp cfg) \<and>
     (vpn_connected s \<longrightarrow> up_vpn_enabled cfg)"

definition address_inv :: "up_cfg \<Rightarrow> up_state \<Rightarrow> bool" where
  "address_inv cfg s \<longleftrightarrow> (pppoe_connected s \<longrightarrow> pppoe_enabled cfg \<and> my_ip s = pppoe_ip s \<and> up_ap_connect s) \<and>
     (\<not> pppoe_connected s \<longrightarrow> pppoe_ip s = 0) \<and> (vpn_tunnel_ip s \<noteq> 0 \<longrightarrow> vpn_connected s)"

definition up_inv :: "up_cfg \<Rightarrow> up_state \<Rightarrow> bool" where
  "up_inv cfg s \<longleftrightarrow> vlan_inv s \<and> session_inv s \<and> clamp_inv cfg s \<and> address_inv cfg s"

lemmas up_inv_defs = up_inv_def vlan_inv_def session_inv_def clamp_inv_def address_inv_def

text \<open>Sessions made and sessions released; a session is made just before its authentication is set.\<close>

fun made :: "up_act \<Rightarrow> nat" where
  "made (PppSetAuth _) = 1"
| "made _ = 0"

fun released :: "up_act \<Rightarrow> nat" where
  "released PppFree = 1"
| "released _ = 0"

definition total :: "(up_act \<Rightarrow> nat) \<Rightarrow> up_act list \<Rightarrow> nat" where
  "total f acts = sum_list (map f acts)"

lemma total_simps [simp]: "total f [] = 0" "total f (a # as) = f a + total f as" "total f (as @ bs) = total f as + total f bs"
  by (simp_all add: total_def)

abbreviation open_sessions :: "up_state \<Rightarrow> nat" where
  "open_sessions s \<equiv> (if ppp_pcb_handle s then 1 else 0)"

definition balanced :: "up_state \<Rightarrow> up_act list \<Rightarrow> up_state \<Rightarrow> bool" where
  "balanced s acts t \<longleftrightarrow> open_sessions s + total made acts = open_sessions t + total released acts"

lemma dns_acts [simp]: "total made (copy_dns_to_ap cfg d) = 0" "total released (copy_dns_to_ap cfg d) = 0"
  by (auto simp: copy_dns_to_ap_def split: option.splits)

lemma reassert_inv: "up_inv cfg s \<Longrightarrow> up_inv cfg (vpn_reassert_default_route cfg s)"
  "ppp_pcb_handle (vpn_reassert_default_route cfg s) = ppp_pcb_handle s"
  by (auto simp: vpn_reassert_default_route_def up_inv_defs)

lemma callback_inv:
  assumes "up_inv cfg s" "pppoe_enabled cfg"
  shows "up_inv cfg (snd (ppp_link_status_cb cfg info e s)) \<and>
    balanced s (fst (ppp_link_status_cb cfg info e s)) (snd (ppp_link_status_cb cfg info e s))"
proof -
  note a = assms(1) [unfolded up_inv_def]
  let ?t = "snd (ppp_link_status_cb cfg info e s)"
  note d = ppp_link_status_cb_def handle_disconnect_def vpn_reassert_default_route_def reset_dns_to_captive_def Let_def
  have "vlan_inv ?t" using a by (cases e) (simp_all add: vlan_inv_def d)
  moreover have "session_inv ?t" using a by (cases e) (simp_all add: session_inv_def d)
  moreover have "clamp_inv cfg ?t" using a by (cases e) (simp_all add: clamp_inv_def d)
  moreover have "address_inv cfg ?t" using a assms(2) by (cases e) (simp_all add: address_inv_def d)
  moreover have "balanced s (fst (ppp_link_status_cb cfg info e s)) ?t" by (cases e) (simp_all add: balanced_def d)
  ultimately show ?thesis by (simp add: up_inv_def)
qed

lemma vpn_disconnect_inv:
  assumes "up_inv cfg s"
  shows "up_inv cfg (snd (vpn_disconnect cfg r s)) \<and> balanced s (fst (vpn_disconnect cfg r s)) (snd (vpn_disconnect cfg r s))"
proof -
  note a = assms [unfolded up_inv_def]
  let ?t = "snd (vpn_disconnect cfg r s)"
  note d = vpn_disconnect_def Let_def
  have "vlan_inv ?t" using a by (auto simp: vlan_inv_def d split: option.splits)
  moreover have "session_inv ?t" using a by (auto simp: session_inv_def d split: option.splits)
  moreover have "clamp_inv cfg ?t" using a by (auto simp: clamp_inv_def d split: option.splits)
  moreover have "address_inv cfg ?t" using a by (auto simp: address_inv_def d split: option.splits)
  moreover have "balanced s (fst (vpn_disconnect cfg r s)) ?t" using a by (auto simp: balanced_def session_inv_def d split: option.splits)
  ultimately show ?thesis by (simp add: up_inv_def)
qed

lemma wg_connect_inv:
  assumes "up_inv cfg s"
  shows "up_inv cfg (snd (wg_connect cfg w s)) \<and> balanced s (fst (wg_connect cfg w s)) (snd (wg_connect cfg w s))"
proof -
  note a = assms [unfolded up_inv_def]
  let ?t = "snd (wg_connect cfg w s)"
  note d = wg_connect_def vpn_connect_def Let_def
  have "vlan_inv ?t" using a by (auto simp: vlan_inv_def d split: option.splits)
  moreover have "session_inv ?t" using a by (auto simp: session_inv_def d split: option.splits)
  moreover have "clamp_inv cfg ?t" using a by (auto simp: clamp_inv_def d split: option.splits)
  moreover have "address_inv cfg ?t" using a by (auto simp: address_inv_def d split: option.splits)
  moreover have "balanced s (fst (wg_connect cfg w s)) ?t" using a by (auto simp: balanced_def session_inv_def d split: option.splits)
  ultimately show ?thesis by (simp add: up_inv_def)
qed

lemma start_inv:
  assumes "up_inv cfg s"
  shows "up_inv cfg (snd (snd (pppoe_start cfg nif cr co s))) \<and> balanced s (fst (snd (pppoe_start cfg nif cr co s))) (snd (snd (pppoe_start cfg nif cr co s)))"
proof -
  note a = assms [unfolded up_inv_def]
  let ?t = "snd (snd (pppoe_start cfg nif cr co s))"
  note d = pppoe_start_def install_vlan_hook_def Let_def
  have "vlan_inv ?t" using a by (auto simp: vlan_inv_def d)
  moreover have "session_inv ?t" using a by (auto simp: session_inv_def d)
  moreover have "clamp_inv cfg ?t" using a by (auto simp: clamp_inv_def d)
  moreover have "address_inv cfg ?t" using a by (auto simp: address_inv_def d)
  moreover have "balanced s (fst (snd (pppoe_start cfg nif cr co s))) ?t" using a by (auto simp: balanced_def session_inv_def d)
  ultimately show ?thesis by (simp add: up_inv_def)
qed

lemma remove_vlan_inv:
  assumes "up_inv cfg s"
  shows "up_inv cfg (remove_vlan_hook s) \<and> ppp_pcb_handle (remove_vlan_hook s) = ppp_pcb_handle s \<and>
    pppoe_connected (remove_vlan_hook s) = pppoe_connected s"
proof -
  note a = assms [unfolded up_inv_def]
  have "vlan_inv (remove_vlan_hook s)" using a by (auto simp: vlan_inv_def remove_vlan_hook_def)
  moreover have "session_inv (remove_vlan_hook s)" using a by (simp add: session_inv_def remove_vlan_hook_def)
  moreover have "clamp_inv cfg (remove_vlan_hook s)" using a by (simp add: clamp_inv_def remove_vlan_hook_def)
  moreover have "address_inv cfg (remove_vlan_hook s)" using a by (simp add: address_inv_def remove_vlan_hook_def)
  ultimately show ?thesis by (simp add: up_inv_def remove_vlan_hook_def)
qed

lemma stop_inv:
  assumes "up_inv cfg s" "close_reports fires"
  shows "up_inv cfg (snd (pppoe_stop cfg info fires s)) \<and> \<not> pppoe_connected (snd (pppoe_stop cfg info fires s)) \<and>
    balanced s (fst (pppoe_stop cfg info fires s)) (snd (pppoe_stop cfg info fires s))"
proof -
  define u where "u = s\<lparr>pppoe_connected := False, pppoe_ip := 0, my_ip := 0, up_mss_clamp := 0, up_pmtu := 0\<rparr>"
  have u: "up_inv cfg u" "\<not> pppoe_connected u" "ppp_pcb_handle u = ppp_pcb_handle s"
    using assms(1) by (simp_all add: up_inv_defs u_def)
  define r where "r = (if pppoe_session_active u \<and> ppp_pcb_handle u then callbacks cfg info fires u
      else ([], u\<lparr>pppoe_session_active := False\<rparr>))"
  have "fires = [] \<or> fires = [PPPERR_USER]" using assms(2) by (simp add: close_reports_def)
  then have r: "up_inv cfg (snd r) \<and> \<not> pppoe_connected (snd r) \<and> balanced s (fst r) (snd r)"
    using u by (elim disjE) (simp_all add: r_def ppp_link_status_cb_def up_inv_defs balanced_def)
  have eq: "pppoe_stop cfg info fires s = ([PortmapsOff, PortmapsOn] @ fst r,
      if eth_netif_cached (snd r) then remove_vlan_hook (snd r) else snd r)"
    unfolding pppoe_stop_def Let_def case_prod_unfold u_def [symmetric] r_def [symmetric] by (rule refl)
  show ?thesis unfolding eq using r remove_vlan_inv [of cfg "snd r"] by (simp add: balanced_def)
qed

lemma reconnect_inv:
  assumes "up_inv cfg s" "close_reports fires" "pppoe_reconnect_task cfg info fires lnk cr co s = (acts, t)"
  shows "up_inv cfg t \<and> balanced s acts t"
proof -
  define u where "u = s\<lparr>ppp_pcb_handle := False, pppoe_session_active := False, reconnect_tasks := reconnect_tasks s - 1\<rparr>"
  have u: "up_inv cfg u" using assms(1) by (simp add: up_inv_defs u_def)
  define c where "c = callbacks cfg info fires u"
  have c: "snd c = u" "total made (fst c) = 0" "total released (fst c) = 0"
    using assms(2) by (auto simp: c_def close_reports_def ppp_link_status_cb_def u_def)
  define p where "p = (if ppp_pcb_handle s then (fst c @ [PppFree], u) else ([], u))"
  have p: "snd p = u" "balanced s (fst p) u"
    using c by (auto simp: p_def balanced_def u_def)
  have eq: "(acts, t) = (if eth_netif_cached u \<and> lnk
         then (fst p @ fst (snd (pppoe_start cfg True cr co u)), snd (snd (pppoe_start cfg True cr co u))) else p)"
    unfolding assms(3) [symmetric] pppoe_reconnect_task_def Let_def case_prod_unfold u_def [symmetric] c_def [symmetric] p_def
    by (simp add: c(1))
  note st = start_inv [OF u, of True cr co]
  show ?thesis
  proof (cases "eth_netif_cached u \<and> lnk")
    case True
    then have "acts = fst p @ fst (snd (pppoe_start cfg True cr co u))" "t = snd (snd (pppoe_start cfg True cr co u))"
      using eq by simp_all
    with st p show ?thesis by (simp add: balanced_def)
  next
    case False
    then have "acts = fst p" "t = u" using eq p(1) by (auto simp: prod_eq_iff)
    with p u show ?thesis by simp
  qed
qed

lemma pairD: "f = (a, b) \<Longrightarrow> a = fst f \<and> b = snd f"
  by simp

lemma up_step_inv:
  assumes "up_step cfg s acts t" "up_inv cfg s"
  shows "up_inv cfg t \<and> balanced s acts t"
  using assms
proof (induction rule: up_step.induct)
  case (ppp info e s acts t)
  then show ?case using callback_inv [OF ppp.prems ppp.hyps(1), of info e] by simp
next
  case (reconnect s fires info lnk cr co acts t)
  then show ?case using reconnect_inv by blast
next
  case (monitor w s acts t)
  have "acts = InitSntp # fst (wg_connect cfg w s)" "t = snd (wg_connect cfg w s)"
    using monitor.hyps by (auto simp: monitor_start_def case_prod_unfold Let_def)
  with wg_connect_inv [OF monitor.prems, of w] show ?case by (simp add: balanced_def)
next
  case (check w s stay acts t)
  let ?d = "vpn_disconnect cfg (wa_restored w) s"
  note i = vpn_disconnect_inv [OF check.prems, of "wa_restored w"]
  note j = wg_connect_inv [OF conjunct1 [OF i], of w]
  have eq: "(stay, acts, t) = (if \<not> connected_bit s then (False, fst ?d, snd ?d)
      else if \<not> vpn_is_connected (wa_peer_up w) s
      then (True, fst ?d @ fst (wg_connect cfg w (snd ?d)), snd (wg_connect cfg w (snd ?d)))
      else (True, [], vpn_reassert_default_route cfg s))"
    using check.hyps [symmetric] unfolding monitor_check_def Let_def case_prod_unfold .
  show ?case
  proof (cases "connected_bit s")
    case False
    then have "(acts, t) = ?d" using eq by (simp add: prod_eq_iff)
    then have "acts = fst ?d" "t = snd ?d" by (simp_all add: prod_eq_iff)
    with i show ?thesis by simp
  next
    case bit: True
    show ?thesis
    proof (cases "vpn_is_connected (wa_peer_up w) s")
      case False
      then have "acts = fst ?d @ fst (wg_connect cfg w (snd ?d))" "t = snd (wg_connect cfg w (snd ?d))" using eq bit by simp_all
      with i j show ?thesis by (simp add: balanced_def)
    next
      case True
      then have "acts = []" "t = vpn_reassert_default_route cfg s" using eq bit by simp_all
      with reassert_inv [of cfg s] check.prems show ?thesis by (simp add: balanced_def)
    qed
  qed
next
  case (link_up nif cr co s acts t)
  let ?s = "s\<lparr>eth_link_up := True\<rparr>"
  have s: "up_inv cfg ?s" using link_up.prems by (simp add: up_inv_defs)
  let ?p = "pppoe_start cfg nif cr co ?s"
  have eq: "(acts, t) = (if pppoe_enabled cfg \<and> nif then (fst (snd ?p), snd (snd ?p)) else ([], ?s))"
    using link_up.hyps [symmetric] unfolding eth_connected_def Let_def case_prod_unfold .
  show ?case
  proof (cases "pppoe_enabled cfg \<and> nif")
    case True
    then have "(acts, t) = snd ?p" using eq by (simp add: prod_eq_iff)
    then have "acts = fst (snd ?p)" "t = snd (snd ?p)" by (simp_all add: prod_eq_iff)
    with start_inv [OF s, of nif cr co] show ?thesis by (simp add: balanced_def)
  next
    case False
    have "acts = []" "t = ?s" using eq unfolding if_not_P [OF False] by simp_all
    with s show ?thesis by (simp add: balanced_def)
  qed
next
  case (link_down fires info s acts t)
  let ?s = "s\<lparr>eth_link_up := False\<rparr>"
  have s: "up_inv cfg ?s" using link_down.prems by (simp add: up_inv_defs)
  show ?case
  proof (cases "pppoe_enabled cfg")
    case True
    let ?u = "pppoe_stop cfg info fires ?s"
    note i = stop_inv [OF s link_down.hyps(1), of info]
    have "acts = fst ?u" "t = (snd ?u)\<lparr>up_ap_connect := False, connected_bit := False\<rparr>"
      using link_down.hyps(2) True by (auto simp: eth_disconnected_def case_prod_unfold Let_def)
    with i show ?thesis by (simp add: up_inv_defs balanced_def)
  next
    case False
    then have "\<not> pppoe_connected s" using link_down.prems by (auto simp: up_inv_def address_inv_def)
    moreover have "acts = []" "t = ?s\<lparr>up_ap_connect := False, connected_bit := False\<rparr>"
      using link_down.hyps(2) False by (auto simp: eth_disconnected_def)
    ultimately show ?thesis using link_down.prems by (simp add: up_inv_defs balanced_def)
  qed
next
  case (got_ip ip dns s acts t)
  show ?case
  proof (cases "pppoe_enabled cfg")
    case True
    with got_ip show ?thesis by (simp add: eth_got_ip_def balanced_def)
  next
    case False
    then have "\<not> pppoe_connected s" using got_ip.prems by (auto simp: up_inv_def address_inv_def)
    moreover have "t = s\<lparr>up_ap_connect := True, my_ip := ip, connected_bit := True\<rparr>" "total made acts = 0" "total released acts = 0"
      using got_ip.hyps False by (auto simp: eth_got_ip_def split: option.splits)
    ultimately show ?thesis using got_ip.prems by (simp add: up_inv_defs balanced_def)
  qed
qed

lemma boot_inv: "up_inv cfg (up_boot cfg)"
  by (simp add: up_inv_defs up_boot_def Let_def)

lemma up_run_inv:
  assumes "up_run cfg trace s"
  shows "up_inv cfg s \<and> total made trace = total released trace + open_sessions s"
  using assms
proof (induction rule: up_run.induct)
  case boot
  show ?case using boot_inv [of cfg] by (simp add: up_boot_def Let_def)
next
  case (step trace s acts t)
  then show ?case using up_step_inv [OF step.hyps(2)] by (simp add: balanced_def)
qed

section \<open>Results\<close>

text \<open>
  C18: the uplink keeps its books in any order of events (link up and down, PPP callbacks,
  reconnect tasks, the VPN monitor, DHCP): the VLAN hook is never stacked on itself, there is a
  session handle just when a session is active, every session made is released exactly once, the
  router's address is the session's, and a line without a tunnel has the segment size of PPPoE.
\<close>

theorem uplink_sound:
  assumes "up_run cfg trace s"
  shows "(eth_linkoutput s, original_eth_linkoutput s) \<in> {(LinkDriver, LinkNull), (LinkVlan, LinkDriver)} \<and>
    ppp_pcb_handle s = pppoe_session_active s \<and>
    total made trace = total released trace + (if pppoe_session_active s then 1 else 0) \<and>
    (pppoe_connected s \<longrightarrow> my_ip s = pppoe_ip s \<and> up_ap_connect s \<and>
      (\<not> vpn_connected s \<longrightarrow> (up_mss_clamp s, up_pmtu s) = base_clamp cfg))"
  using up_run_inv [OF assms] by (auto simp: up_inv_defs)

text \<open>A household with a VLAN, and the same with a tunnel.\<close>

definition home :: up_cfg where
  "home = \<lparr>pppoe_enabled = True, pppoe_babyjumbo = False, pppoe_vlan = 7, pppoe_user = ''u'', pppoe_service = [],
     pppoe_auth = 0, up_vpn_enabled = True, up_route_all = True, vpn_private_key = ''k'', vpn_public_key = ''p'',
     vpn_endpoint = ''e'', vpn_address = ''a'', vpn_dns = [], ap_dns = []\<rparr>"

definition home_line :: ppp_info where
  "home_line = \<lparr>pi_addr = 0x0A0000C0, pi_dns = (0x08080808, 0), pi_ap_ip = 0x0104A8C0\<rparr>"

definition home_wg :: wg_answers where
  "home_wg = \<lparr>wa_peer_up = True, wa_init_ok = True, wa_connect_ok = True, wa_default_ok = True,
     wa_tunnel = Some 0x0200000A, wa_restored = None\<rparr>"

definition reached :: "up_state \<Rightarrow> bool" where
  "reached s \<longleftrightarrow> (\<exists>trace. up_run home trace s)"

lemma home_pppoe: "pppoe_enabled home"
  by (simp add: home_def)

lemma reached_step: "reached s \<Longrightarrow> up_step home s (fst r) (snd r) \<Longrightarrow> reached (snd r)"
  unfolding reached_def by (blast intro: up_run.step)

lemma reached_boot: "reached (up_boot home)"
  unfolding reached_def by (blast intro: up_run.boot)

lemma reached_link_up: "reached s \<Longrightarrow> reached (snd (eth_connected home n cr co s))"
  by (erule reached_step) (rule up_step.link_up, rule surjective_pairing)

lemma reached_ppp: "reached s \<Longrightarrow> reached (snd (ppp_link_status_cb home i e s))"
  by (erule reached_step) (rule up_step.ppp, rule home_pppoe, rule surjective_pairing)

lemma reached_monitor: "reached s \<Longrightarrow> reached (snd (monitor_start home w s))"
  by (erule reached_step) (rule up_step.monitor, rule surjective_pairing)

lemma reached_check: "reached s \<Longrightarrow> reached (snd (snd (monitor_check home w s)))"
  by (erule reached_step) (rule up_step.check [where stay = "fst (monitor_check home w s)"], simp)

lemma reached_reconnect: "reached s \<Longrightarrow> reconnect_tasks s > 0 \<Longrightarrow> close_reports f \<Longrightarrow>
    reached (snd (pppoe_reconnect_task home i f l cr co s))"
  by (erule reached_step) (rule up_step.reconnect, assumption, assumption, rule surjective_pairing)

lemma reached_link_down: "reached s \<Longrightarrow> close_reports f \<Longrightarrow> reached (snd (eth_disconnected home i f s))"
  by (erule reached_step) (rule up_step.link_down, assumption, rule surjective_pairing)

lemmas reached_intros = reached_boot reached_link_up reached_ppp reached_monitor reached_check reached_reconnect reached_link_down

definition home_up :: up_state where
  "home_up = snd (ppp_link_status_cb home home_line PPPERR_NONE (snd (eth_connected home True True True (up_boot home))))"

lemma home_up_run: "reached home_up"
  unfolding home_up_def by (intro reached_intros)

lemma home_up_state: "pppoe_session_active home_up" "pppoe_connected home_up" "\<not> vpn_connected home_up"
  "eth_linkoutput home_up = LinkVlan"
  by code_simp+

theorem uplink_sound_witness:
  "\<exists>trace. total made trace = total released trace + 1 \<and> (up_mss_clamp home_up, up_pmtu home_up) = (1452, 1492) \<and>
     original_eth_linkoutput home_up = LinkDriver"
proof -
  obtain trace where r: "up_run home trace home_up" using home_up_run unfolding reached_def by blast
  from uplink_sound [OF r] home_up_state show ?thesis by (auto simp: base_clamp_def home_def)
qed

section \<open>VLAN tags\<close>

lemma vlan_id:
  assumes "0 \<le> vlan" "vlan < 4096"
  shows "unat (be16 (word_of_int (vlan div 256) AND 0x0F) (word_of_int vlan AND 0xFF)) = nat vlan"
proof -
  have "uint (word_of_int (vlan div 256) AND 0x0F :: u8) = vlan div 256"
  proof -
    have "vlan div 256 < 16" "0 \<le> vlan div 256" using assms by linarith+
    have u: "(word_of_int (vlan div 256) AND 0x0F :: u8) = take_bit 4 (word_of_int (vlan div 256))"
      by (simp add: take_bit_eq_mask mask_eq_exp_minus_1)
    have "vlan div 256 mod 2 ^ 8 mod 2 ^ 4 = vlan div 256" using assms by simp
    then show ?thesis
      unfolding u unsigned_take_bit_eq uint_word_of_int unfolding take_bit_eq_mod by simp
  qed
  moreover have "uint (word_of_int vlan AND 0xFF :: u8) = vlan mod 256"
  proof -
    have "(word_of_int vlan AND 0xFF :: u8) = word_of_int vlan"
    proof -
      have "(0xFF :: u8) = -1" by simp
      then show ?thesis by (metis and.right_neutral)
    qed
    then show ?thesis by (simp add: uint_word_of_int)
  qed
  ultimately have "int (unat (be16 (word_of_int (vlan div 256) AND 0x0F) (word_of_int vlan AND 0xFF))) = 256 * (vlan div 256) + vlan mod 256"
    by (simp add: unat_be16)
  then show ?thesis by (metis mult_div_mod_eq nat_int)
qed

definition pppoe_frame :: "packet \<Rightarrow> bool" where
  "pppoe_frame p \<longleftrightarrow> length (payload p) \<ge> 14 \<and> be16 (payload p ! 12) (payload p ! 13) \<in> {0x8863, 0x8864}"

definition tagged :: "int \<Rightarrow> bytes \<Rightarrow> bytes" where
  "tagged vlan frame = take 12 frame @ vlan_tag vlan @ drop 12 frame"

lemma hook_other:
  assumes "\<not> (vlan > 0 \<and> pppoe_frame p)"
  shows "eth_vlan_linkoutput_hook vlan room alloc_ok p = Some (concat (segments p), payload p, room)"
  using assms by (auto simp: eth_vlan_linkoutput_hook_def pppoe_frame_def Let_def rd8_ok)

lemma hook_moves:
  assumes "vlan > 0" "pppoe_frame p" "length h = 4"
  shows "eth_vlan_linkoutput_hook vlan (Some h) alloc_ok p =
    Some (tagged vlan (concat (segments p)), payload p, Some (take 4 (payload p)))"
proof -
  have l: "length (payload p) \<ge> 14" using assms(2) by (simp add: pppoe_frame_def)
  define m where "m = take 12 (payload p)"
  define r where "r = drop 12 (payload p)"
  have p: "payload p = m @ r" "length m = 12" "2 \<le> length r" using l by (simp_all add: m_def r_def)
  have b: "rd_bytes (h @ m @ r) 4 12 = Some m" using p(2) assms(3) by (simp add: rd_bytes_def)
  have w1: "wr_bytes (h @ m @ r) 0 m = Some (m @ drop 8 m @ r)" using p(2) assms(3) by (simp add: wr_bytes_def)
  have w2: "wr_bytes (m @ drop 8 m @ r) 12 (vlan_tag vlan) = Some (m @ vlan_tag vlan @ r)"
    using p l by (simp add: wr_bytes_def vlan_tag_def)
  have b2: "rd_bytes (m @ vlan_tag vlan @ r) 0 12 = Some m" using p(2) by (simp add: rd_bytes_def)
  have w3: "wr_bytes (m @ vlan_tag vlan @ r) 4 m = Some (take 4 m @ m @ r)"
    using p(2) by (simp add: wr_bytes_def vlan_tag_def)
  have t: "tagged vlan (concat (segments p)) = m @ vlan_tag vlan @ r @ concat (chained p)"
    using p by (simp add: tagged_def segments_def)
  have ty: "rd8 (m @ r) 12 = Some (r ! 0)" "rd8 (m @ r) 13 = Some (r ! 1)" "14 \<le> length (m @ r)"
    using p by (cases r; cases "tl r"; simp add: rd8_def nth_append)+
  have e: "be16 (r ! 0) (r ! 1) = 0x8863 \<or> be16 (r ! 0) (r ! 1) = 0x8864"
    using assms(2) p by (simp add: pppoe_frame_def nth_append)
  have k: "take 4 (m @ r) = take 4 m" using p(2) by simp
  show ?thesis
    unfolding eth_vlan_linkoutput_hook_def Let_def t p(1)
    using assms(1,3) e p(2,3) by (simp add: ty b w1 w2 b2 w3 k)
qed

lemma hook_copies:
  assumes "vlan > 0" "pppoe_frame p" "unat (tot_len p) = length (concat (segments p))"
  shows "eth_vlan_linkoutput_hook vlan None True p = Some (tagged vlan (concat (segments p)), payload p, None)"
proof -
  have l: "length (payload p) \<ge> 14" using assms(2) by (simp add: pppoe_frame_def)
  then have "length (concat (segments p)) \<ge> 14" by (simp add: segments_def)
  with assms l show ?thesis
    by (simp add: eth_vlan_linkoutput_hook_def Let_def pppoe_frame_def rd8_ok rd_bytes_def tagged_def)
qed

text \<open>
  A PPPoE frame leaves with the 802.1Q tag of the configured VLAN between its addresses and its
  type, whether the tag is put into the room before it or the frame is copied, and the buffer is
  left as it was; every other frame leaves unchanged.  Nothing outside the buffer is touched.
\<close>

theorem vlan_tag_sound:
  assumes "0 < vlan" "vlan < 4096" "\<forall>h. room = Some h \<longrightarrow> length h = 4" "room \<noteq> None \<or> alloc_ok"
    and "unat (tot_len p) = length (concat (segments p))"
  shows "\<exists>hi lo room'. unat (be16 hi lo) = nat vlan \<and>
    eth_vlan_linkoutput_hook vlan room alloc_ok p =
      Some (if pppoe_frame p
            then take 12 (concat (segments p)) @ [0x81, 0x00, hi, lo] @ drop 12 (concat (segments p))
            else concat (segments p), payload p, room')"
proof (cases "pppoe_frame p")
  case True
  from assms(3,4) consider h where "room = Some h" "length h = 4" | "room = None" "alloc_ok" by (cases room) auto
  then have "\<exists>room'. eth_vlan_linkoutput_hook vlan room alloc_ok p = Some (tagged vlan (concat (segments p)), payload p, room')"
  proof cases
    case 1
    with hook_moves [OF assms(1) True 1(2)] show ?thesis by blast
  next
    case 2
    with hook_copies [OF assms(1) True assms(5)] show ?thesis by auto
  qed
  moreover have "tagged vlan (concat (segments p)) = take 12 (concat (segments p)) @
      [0x81, 0x00, word_of_int (vlan div 256) AND 0x0F, word_of_int vlan AND 0xFF] @ drop 12 (concat (segments p))"
    by (simp add: tagged_def vlan_tag_def)
  ultimately obtain room' where "eth_vlan_linkoutput_hook vlan room alloc_ok p = Some (take 12 (concat (segments p)) @
      [0x81, 0x00, word_of_int (vlan div 256) AND 0x0F, word_of_int vlan AND 0xFF] @ drop 12 (concat (segments p)), payload p, room')"
    by auto
  with True vlan_id [OF less_imp_le [OF assms(1)] assms(2)] show ?thesis
    unfolding if_P [OF True] by blast
next
  case False
  with hook_other [of vlan p room alloc_ok] vlan_id [OF less_imp_le [OF assms(1)] assms(2)] show ?thesis
    unfolding if_not_P [OF False] by blast
qed

definition discovery_frame :: packet where
  "discovery_frame = \<lparr>payload = replicate 12 0xFF @ [0x88, 0x63, 0x11, 0x09], tot_len = 16, chained = []\<rparr>"

theorem vlan_tag_sound_witness:
  "\<exists>hi lo room'. unat (be16 hi lo) = 7 \<and>
    eth_vlan_linkoutput_hook 7 (Some [0, 0, 0, 0]) False discovery_frame =
      Some (replicate 12 0xFF @ [0x81, 0x00, hi, lo] @ [0x88, 0x63, 0x11, 0x09], payload discovery_frame, room')"
proof -
  have "pppoe_frame discovery_frame" "take 12 (concat (segments discovery_frame)) = replicate 12 0xFF"
    "drop 12 (concat (segments discovery_frame)) = [0x88, 0x63, 0x11, 0x09]"
    "unat (tot_len discovery_frame) = length (concat (segments discovery_frame))"
    by code_simp+
  with vlan_tag_sound [of 7 "Some [0, 0, 0, 0]" False discovery_frame] show ?thesis by simp
qed

section \<open>A tunnel that outlives the line\<close>

text \<open>
  The line drops and comes back before the monitor looks again: the tunnel is up and has its
  default route back, but packets are clamped to the size of the bare line, too large for it.
\<close>

definition bounce :: "up_state \<Rightarrow> up_state" where
  "bounce s =
     (let s = snd (monitor_start home home_wg s);
          s = snd (ppp_link_status_cb home home_line PPPERR_CONNECT s);
          s = snd (pppoe_reconnect_task home home_line [] True True True s);
          s = snd (ppp_link_status_cb home home_line PPPERR_NONE s)
      in snd (snd (monitor_check home home_wg s)))"

lemma bounce_run: "reached s \<Longrightarrow> reached (bounce s)"
  unfolding bounce_def Let_def
  by (intro reached_intros) (simp_all add: ppp_link_status_cb_def handle_disconnect_def close_reports_def)

theorem mss_after_bounce:
  "\<exists>trace s. up_run home trace s \<and> vpn_is_connected True s \<and> default_route s = RouteWg \<and>
     (up_mss_clamp s, up_pmtu s) = base_clamp home \<and> vpn_clamp home = (1352, 1432) \<and>
     monitor_check home home_wg s = (True, [], s)"
proof -
  have "vpn_is_connected True (bounce home_up) \<and> default_route (bounce home_up) = RouteWg \<and>
     (up_mss_clamp (bounce home_up), up_pmtu (bounce home_up)) = base_clamp home \<and> vpn_clamp home = (1352, 1432) \<and>
     monitor_check home home_wg (bounce home_up) = (True, [], bounce home_up)"
    by code_simp
  with bounce_run [OF home_up_run] show ?thesis unfolding reached_def by blast
qed

section \<open>Sessions a callback leaves behind\<close>

text \<open>A failed authentication keeps the dead session, and no other can be started.\<close>

theorem authfail_keeps_session:
  assumes "pppoe_enabled cfg" "pppoe_session_active s"
  shows "let t = snd (ppp_link_status_cb cfg info PPPERR_AUTHFAIL s) in
    \<not> pppoe_is_connected t \<and> connected_bit t = connected_bit s \<and> default_route t = default_route s \<and>
    pppoe_start cfg nif cr co t = (StartInvalidState, [], t)"
  using assms by (simp add: ppp_link_status_cb_def pppoe_is_connected_def pppoe_start_def)

theorem authfail_keeps_session_witness:
  "pppoe_start home True True True (snd (ppp_link_status_cb home home_line PPPERR_AUTHFAIL home_up)) =
     (StartInvalidState, [], snd (ppp_link_status_cb home home_line PPPERR_AUTHFAIL home_up))"
  using authfail_keeps_session [OF home_pppoe home_up_state(1), of home_line True True True] by (simp add: Let_def)

text \<open>
  A reconnect task does not look whether the session it was started for is still the one in use:
  after a drop, a link down and a link up it closes the new session although it is connected.
\<close>

theorem stale_reconnect:
  "\<exists>trace s. up_run home trace s \<and> pppoe_is_connected s \<and> reconnect_tasks s > 0 \<and>
     PppFree \<in> set (fst (pppoe_reconnect_task home home_line [PPPERR_USER] True True True s))"
proof -
  let ?d = "snd (ppp_link_status_cb home home_line PPPERR_CONNECT home_up)"
  let ?e = "eth_disconnected home home_line [PPPERR_USER] ?d"
  let ?l = "snd (eth_connected home True True True (snd ?e))"
  let ?s = "snd (ppp_link_status_cb home home_line PPPERR_NONE ?l)"
  have "reached ?s" by (intro reached_intros home_up_run) (simp add: close_reports_def)
  moreover have "pppoe_is_connected ?s \<and> reconnect_tasks ?s > 0 \<and>
     PppFree \<in> set (fst (pppoe_reconnect_task home home_line [PPPERR_USER] True True True ?s))"
    by code_simp
  ultimately show ?thesis unfolding reached_def by blast
qed

end
