(* ===== verification/Http_Access.thy ===== *)
theory Http_Access
  imports Config_Params Acl_Text
begin

text \<open>
  The web server's gate (\<open>components/http_server/http_server.c\<close>): which connections are accepted,
  the login session and its cookie, the check of the request's origin, the two escaping functions,
  the captive portal's name server and its redirect.
\<close>

section \<open>Requests\<close>

text \<open>
  What the handlers ask the HTTP library.  \<open>rq_header name n\<close>: the value \<open>httpd_req_get_hdr_value_str\<close>
  copies into \<open>n\<close> bytes, if it succeeds; \<open>rq_value query key n\<close>: \<open>httpd_query_key_value\<close> likewise.
  A received piece of the body is what one call of \<open>httpd_req_recv\<close> gives.
\<close>

datatype recv_piece = Piece string | RecvTimeout | RecvFail

record http_req =
  rq_post :: bool
  rq_header_len :: "string \<Rightarrow> nat"
  rq_header :: "string \<Rightarrow> nat \<Rightarrow> string option"
  rq_query :: "string option"
  rq_value :: "string \<Rightarrow> string \<Rightarrow> nat \<Rightarrow> string option"
  rq_content_len :: nat
  rq_body :: "recv_piece list"

text \<open>The router's addresses, the clock in microseconds, random numbers, and whether \<open>malloc\<close> succeeds.\<close>

record http_env =
  he_ap_ip :: u32
  he_my_ip :: u32
  he_pppoe_ip :: u32
  he_tunnel_ip :: u32
  he_now :: int
  he_random :: "u32 list"
  he_alloc :: bool

record session =
  current_session_token :: string
  session_active :: bool
  session_expiry_time :: int

definition no_session :: session where
  "no_session = \<lparr>current_session_token = [], session_active = False, session_expiry_time = 0\<rparr>"

section \<open>Connections\<close>

text \<open>The peer as \<open>getpeername\<close> gives it, if it does.\<close>

datatype peer = Peer6 bytes | Peer4 u32

definition http_open_fn :: "int \<Rightarrow> peer option \<Rightarrow> u32 \<Rightarrow> bool option" where
  "http_open_fn wan_access peer my_ap_ip =
     (if wan_access \<noteq> 0 then Some True
      else case peer of
        None \<Rightarrow> Some False
      | Some p \<Rightarrow> do {
          client_ip \<leftarrow> (case p of Peer6 a \<Rightarrow> rd32 a 12 | Peer4 a \<Rightarrow> Some a);
          Some (client_ip AND 0x00FFFFFF = my_ap_ip AND 0x00FFFFFF) })"

section \<open>Sessions\<close>

definition MAX_SESSION_TOKEN_LEN :: nat where "MAX_SESSION_TOKEN_LEN = 32"
definition SESSION_TIMEOUT_US :: int where "SESSION_TIMEOUT_US = 30 * 60 * 1000000"

definition generate_session_token :: "u32 list \<Rightarrow> nat \<Rightarrow> string" where
  "generate_session_token random len = map (\<lambda>r. hex_char (unat (r mod 16))) (take (len - 1) random)"

definition clear_session :: "session \<Rightarrow> session" where
  "clear_session s = s\<lparr>session_active := False, current_session_token := [], session_expiry_time := 0\<rparr>"

fun strstr :: "string \<Rightarrow> string \<Rightarrow> nat option" where
  "strstr [] p = (if p = [] then Some 0 else None)"
| "strstr (c # s) p = (if take (length p) (c # s) = p then Some 0 else map_option Suc (strstr s p))"

lemma strstr_Some: "strstr s p = Some k \<Longrightarrow> k + length p \<le> length s \<and> take (length p) (drop k s) = p"
proof (induction s arbitrary: k)
  case (Cons c s)
  show ?case
  proof (cases "take (length p) (c # s) = p")
    case True
    then have "length p \<le> length (c # s)" by (metis length_take min.cobounded1)
    with True Cons.prems show ?thesis by auto
  next
    case False
    with Cons show ?thesis by auto
  qed
qed (auto split: if_splits)

text \<open>
  The search for a cookie: from \<open>pos\<close> on, the first occurrence of the pattern that begins the
  header or follows a semicolon, with or without a space.
\<close>

definition cookie_pattern :: "string \<Rightarrow> string" where
  "cookie_pattern name = take 63 (name @ ''='')"

lemma cookie_pattern_nonempty [simp]: "length (cookie_pattern name) > 0" "cookie_pattern name \<noteq> []"
  by (simp_all add: cookie_pattern_def)

function cookie_search :: "string \<Rightarrow> string \<Rightarrow> nat \<Rightarrow> nat option" where
  "cookie_search header name pos =
     (case strstr (drop pos header) (cookie_pattern name) of
        None \<Rightarrow> None
      | Some k \<Rightarrow>
          let p = pos + k in
          if p = 0 \<or> header ! (p - 1) = CHR '';'' \<or> (header ! (p - 1) = CHR '' '' \<and> p \<ge> 2 \<and> header ! (p - 2) = CHR '';'')
          then Some (p + length (cookie_pattern name))
          else cookie_search header name (p + length (cookie_pattern name)))"
  by pat_completeness auto
termination
proof (relation "measure (\<lambda>(header, name, pos). length header - pos)")
  fix header name pos k p
  assume k: "strstr (drop pos header) (cookie_pattern name) = Some k" and p: "p = pos + k"
  then have "k + length (cookie_pattern name) \<le> length header - pos" using strstr_Some by fastforce
  then show "((header, name, p + length (cookie_pattern name)), header, name, pos)
      \<in> measure (\<lambda>(header, name, pos). length header - pos)"
    unfolding p in_measure case_prod_conv using cookie_pattern_nonempty(1) [of name] by linarith
qed simp

declare cookie_search.simps [simp del]

definition get_cookie_value :: "http_req \<Rightarrow> bool \<Rightarrow> string \<Rightarrow> nat \<Rightarrow> string option" where
  "get_cookie_value req alloc_ok cookie_name max_len =
     (if rq_header_len req ''Cookie'' = 0 then None
      else if \<not> alloc_ok then None
      else case rq_header req ''Cookie'' (rq_header_len req ''Cookie'' + 1) of
        None \<Rightarrow> None
      | Some header \<Rightarrow>
          (case cookie_search header cookie_name 0 of
             None \<Rightarrow> None
           | Some start \<Rightarrow>
               let value = takeWhile (\<lambda>c. c \<noteq> CHR '';'') (drop start header);
                   cookie_len = (if length value \<ge> max_len then max_len - 1 else length value)
               in Some (take cookie_len value)))"

definition ip_origin :: "u32 \<Rightarrow> string" where
  "ip_origin ip = ''http://'' @ ipstr ip"

definition check_csrf :: "http_env \<Rightarrow> http_req \<Rightarrow> bool" where
  "check_csrf env req =
     (case rq_header req ''Origin'' 64 of
        None \<Rightarrow> True
      | Some origin \<Rightarrow>
          if (case rq_header req ''Host'' 64 of Some host \<Rightarrow> origin = take 71 (''http://'' @ host) | None \<Rightarrow> False) then True
          else if origin = take 31 (ip_origin (he_ap_ip env)) then True
          else if he_my_ip env \<noteq> 0 \<and> origin = take 31 (ip_origin (he_my_ip env)) then True
          else if he_pppoe_ip env \<noteq> 0 \<and> origin = take 31 (ip_origin (he_pppoe_ip env)) then True
          else if he_tunnel_ip env \<noteq> 0 \<and> origin = take 31 (ip_origin (he_tunnel_ip env)) then True
          else False)"

definition is_authenticated :: "http_env \<Rightarrow> http_req \<Rightarrow> session \<Rightarrow> bool \<times> session" where
  "is_authenticated env req s =
     (if \<not> session_active s then (False, s)
      else if he_now env > session_expiry_time s then (False, clear_session s)
      else case get_cookie_value req (he_alloc env) ''session'' (MAX_SESSION_TOKEN_LEN + 1) of
        None \<Rightarrow> (False, s)
      | Some token \<Rightarrow>
          if length token \<noteq> length (current_session_token s) then (False, s)
          else if pw_differs (str_bytes token) (str_bytes (current_session_token s)) then (False, s)
          else (True, s\<lparr>session_expiry_time := he_now env + SESSION_TIMEOUT_US\<rparr>))"

text \<open>The new session, and the \<open>Set-Cookie\<close> header of the answer.\<close>

definition create_session :: "http_env \<Rightarrow> session \<Rightarrow> string \<times> session" where
  "create_session env s =
     (let token = generate_session_token (he_random env) (MAX_SESSION_TOKEN_LEN + 1)
      in (take 127 (''session='' @ token @ ''; Path=/; Max-Age=1800; SameSite=Strict; HttpOnly''),
          s\<lparr>current_session_token := token, session_active := True, session_expiry_time := he_now env + SESSION_TIMEOUT_US\<rparr>))"

section \<open>Escaping\<close>

definition html_special :: "char \<Rightarrow> bool" where
  "html_special c \<longleftrightarrow> c \<in> set [CHR 0x5C, CHR 0x27, CHR 0x22, CHR ''&'', CHR ''#'', CHR '';'', CHR ''<'', CHR ''>'']"

definition html_entity :: "char \<Rightarrow> string" where
  "html_entity c = [CHR ''&'', CHR ''#'', char_of (48 + of_char c div 10 :: nat), char_of (48 + of_char c mod 10 :: nat), CHR '';'']"

text \<open>\<open>j\<close>: the write position in the destination of \<open>dstlen\<close> bytes.\<close>

fun html_escape_loop :: "string \<Rightarrow> nat \<Rightarrow> nat \<Rightarrow> string \<Rightarrow> string option" where
  "html_escape_loop dst dstlen j [] = wr_bytes dst j [CHR 0x00]"
| "html_escape_loop dst dstlen j (c # src) =
     (if j + 1 < dstlen then
        if html_special c then
          if j + 5 \<ge> dstlen then wr_bytes dst j [CHR 0x00]
          else do { dst \<leftarrow> wr_bytes dst j (html_entity c); html_escape_loop dst dstlen (j + 5) src }
        else do { dst \<leftarrow> wr_bytes dst j [c]; html_escape_loop dst dstlen (j + 1) src }
      else wr_bytes dst j [CHR 0x00])"

definition html_escape_buf :: "string \<Rightarrow> nat \<Rightarrow> string option \<Rightarrow> string option" where
  "html_escape_buf dst dstlen src =
     (if dstlen = 0 then Some dst
      else html_escape_loop dst dstlen 0 (case src of Some s \<Rightarrow> s | None \<Rightarrow> []))"

definition url_plain :: "char \<Rightarrow> bool" where
  "url_plain c \<longleftrightarrow> (let n = of_char c :: nat in
     (n \<ge> 65 \<and> n \<le> 90) \<or> (n \<ge> 97 \<and> n \<le> 122) \<or> (n \<ge> 48 \<and> n \<le> 57) \<or> c \<in> set ''-_.~'')"

definition hex_upper :: "nat \<Rightarrow> char" where
  "hex_upper d = ''0123456789ABCDEF'' ! d"

fun url_encode_loop :: "string \<Rightarrow> nat \<Rightarrow> nat \<Rightarrow> string \<Rightarrow> string option" where
  "url_encode_loop dst dst_len i [] = wr_bytes dst i [CHR 0x00]"
| "url_encode_loop dst dst_len i (c # src) =
     (if i < dst_len - 1 then
        if url_plain c then do { dst \<leftarrow> wr_bytes dst i [c]; url_encode_loop dst dst_len (i + 1) src }
        else if i + 3 < dst_len then do {
          dst \<leftarrow> wr_bytes dst i [CHR ''%'', hex_upper (of_char c div 16), hex_upper (of_char c mod 16)];
          url_encode_loop dst dst_len (i + 3) src }
        else wr_bytes dst i [CHR 0x00]
      else wr_bytes dst i [CHR 0x00])"

definition url_encode :: "string \<Rightarrow> string \<Rightarrow> nat \<Rightarrow> string option" where
  "url_encode src dst dst_len = url_encode_loop dst dst_len 0 src"

section \<open>The captive portal\<close>

definition DNS_ANSWER_LEN :: nat where "DNS_ANSWER_LEN = 16"

text \<open>
  One packet of \<open>len\<close> bytes in the buffer of 512.  \<open>upstream\<close>: the first name server, if there is one
  (0 for any); \<open>answer\<close>: what it answers, if the socket, \<open>sendto\<close> and \<open>recvfrom\<close> succeed.
\<close>

datatype dns_send = ToUpstream u32 bytes | ToClient bytes

definition dns_serve :: "bool \<Rightarrow> u32 option \<Rightarrow> bytes option \<Rightarrow> u32 \<Rightarrow> bytes \<Rightarrow> nat \<Rightarrow> dns_send list option" where
  "dns_serve pppoe_up upstream answer my_ap_ip buf len =
     (if len < 12 then Some []
      else if pppoe_up then
        (case upstream of
           Some a \<Rightarrow>
             if a \<noteq> 0 then do {
               query \<leftarrow> rd_bytes buf 0 len;
               Some (ToUpstream a query #
                 (case answer of Some r \<Rightarrow> if take 512 r \<noteq> [] then [ToClient (take 512 r)] else [] | None \<Rightarrow> [])) }
             else Some []
         | None \<Rightarrow> Some [])
      else if len > 512 - DNS_ANSWER_LEN then Some []
      else do {
        flags \<leftarrow> rd8 buf 2;
        if flags AND 0x80 \<noteq> 0 then Some []
        else do {
          q1 \<leftarrow> rd8 buf 4; q2 \<leftarrow> rd8 buf 5;
          if q1 \<noteq> 0 \<or> q2 \<noteq> 1 then Some []
          else do {
            buf \<leftarrow> wr_bytes buf 2 [0x81, 0x80];
            buf \<leftarrow> wr_bytes buf 6 [0x00, 0x01];
            buf \<leftarrow> wr_bytes buf len ([0xC0, 0x0C, 0x00, 0x01, 0x00, 0x01, 0x00, 0x00, 0x00, 0x3C, 0x00, 0x04] @ le32_bytes my_ap_ip);
            reply \<leftarrow> rd_bytes buf 0 (len + 16);
            Some [ToClient reply] } } })"

text \<open>Unknown pages.  \<open>url\<close> is the redirect made up earlier, empty at first.\<close>

datatype http_answer = Redirect nat string | SendErr nat string | Json string | NoContent | Attachment string | Page | Dropped

definition captive_redirect_handler :: "bool \<Rightarrow> u32 \<Rightarrow> string \<Rightarrow> string \<Rightarrow> http_answer \<times> string" where
  "captive_redirect_handler pppoe_up my_ap_ip uri url =
     (if pppoe_up then
        (if strstr uri ''generate_204'' \<noteq> None \<or> strstr uri ''gen_204'' \<noteq> None then (NoContent, url)
         else (SendErr 404 ''Not found'', url))
      else let url = (if url = [] then take 31 (''http://'' @ ipstr my_ap_ip @ ''/'') else url) in (Redirect 302 url, url))"

end
