(* ===== verification/Config_Transfer.thy ===== *)
theory Config_Transfer
  imports Http_Access
begin

text \<open>
  The upload and download handlers of \<open>components/http_server/http_server.c\<close>: export and import of the
  whole configuration as JSON, plain or encrypted, the import of a WireGuard file, and the firmware
  update.  cJSON, mbedTLS, the cipher, the NVS library and the OTA library are parameters.
\<close>

section \<open>The flash as a list of entries\<close>

datatype nvs_val = VU8 u8 | VU16 u16 | VU32 u32 | VI32 int | VStr string | VBlob bytes | VOther int

datatype nvs_kind = KU8 | KU16 | KU32 | KI32 | KStr | KBlob | KOther int

fun kind_of :: "nvs_val \<Rightarrow> nvs_kind" where
  "kind_of (VU8 _) = KU8"
| "kind_of (VU16 _) = KU16"
| "kind_of (VU32 _) = KU32"
| "kind_of (VI32 _) = KI32"
| "kind_of (VStr _) = KStr"
| "kind_of (VBlob _) = KBlob"
| "kind_of (VOther t) = KOther t"

text \<open>\<open>na_type\<close>: the number of \<open>nvs_type_t\<close> for a kind of entry.\<close>

record 'n nvs_all =
  na_open :: "'n \<Rightarrow> bool"
  na_type :: "nvs_kind \<Rightarrow> int"
  na_entries :: "'n \<Rightarrow> (string \<times> nvs_val) list"
  na_erase_all :: "'n \<Rightarrow> 'n"
  na_set :: "'n \<Rightarrow> string \<Rightarrow> nvs_val \<Rightarrow> 'n"
  na_commit :: "'n \<Rightarrow> 'n"

text \<open>JSON as cJSON keeps it; numbers are whole here.\<close>

datatype json = JNum int | JStr string | JObj "(string \<times> json) list" | JArr "json list" | JOther

text \<open>The libraries, what \<open>malloc\<close> and the random generator return.\<close>

record xfer_lib =
  xl_parse :: "string \<Rightarrow> json option"
  xl_print :: "json \<Rightarrow> string option"
  xl_item :: "json \<Rightarrow> string \<Rightarrow> json option"
  xl_kdf :: "string \<Rightarrow> bytes \<Rightarrow> bytes"
  xl_encrypt :: "bytes \<Rightarrow> bytes \<Rightarrow> bytes \<Rightarrow> bytes"
  xl_decrypt :: "bytes \<Rightarrow> bytes \<Rightarrow> bytes \<Rightarrow> bytes option"
  xl_b64_encode :: "bytes \<Rightarrow> string"
  xl_b64_decode :: "string \<Rightarrow> bytes option"
  xl_mem :: "nat \<Rightarrow> string option"
  xl_salt :: bytes
  xl_nonce :: bytes

definition ENC_SALT_LEN :: nat where "ENC_SALT_LEN = 16"
definition ENC_NONCE_LEN :: nat where "ENC_NONCE_LEN = 24"
definition ENC_TAG_LEN :: nat where "ENC_TAG_LEN = 16"
definition CONFIG_IMPORT_MAX_SIZE :: nat where "CONFIG_IMPORT_MAX_SIZE = 16384"

text \<open>Hexadecimal, by the same loops as in \<open>cmd_router.c\<close>; the outer option is a fault, the inner no memory.\<close>

definition bytes_to_hex :: "xfer_lib \<Rightarrow> bytes \<Rightarrow> string option option" where
  "bytes_to_hex lib src =
     (case xl_mem lib (length src * 2 + 1) of None \<Rightarrow> Some None
      | Some hex \<Rightarrow> do { hex \<leftarrow> pw_bytes_to_hex src 0 hex; Some (Some (c_string hex)) })"

definition hex_to_bytes :: "string \<Rightarrow> nat \<Rightarrow> bytes option" where
  "hex_to_bytes src len = pw_hex_to_bytes src len"

section \<open>Export and import of entries\<close>

definition export_secrets :: "string list" where
  "export_secrets = [''pppoe_pass'', ''passwd'', ''ap_passwd'', ''vpn_privkey'', ''vpn_psk'', ''web_password'', ''mqtt_pass'',
     ''ddns_token'', ''ddns_pass'']"

definition export_value :: "xfer_lib \<Rightarrow> nvs_val \<Rightarrow> json option option" where
  "export_value lib v =
     (case v of
        VU8 x \<Rightarrow> Some (Some (JNum (uint x)))
      | VU16 x \<Rightarrow> Some (Some (JNum (uint x)))
      | VU32 x \<Rightarrow> Some (Some (JNum (uint x)))
      | VI32 x \<Rightarrow> Some (Some (JNum x))
      | VStr s \<Rightarrow> Some (case xl_mem lib (length s + 1) of Some _ \<Rightarrow> Some (JStr s) | None \<Rightarrow> None)
      | VBlob b \<Rightarrow> do {
          hex \<leftarrow> (case xl_mem lib (length b) of Some _ \<Rightarrow> bytes_to_hex lib b | None \<Rightarrow> Some None);
          Some (case hex of Some h \<Rightarrow> Some (JStr h) | None \<Rightarrow> None) }
      | VOther _ \<Rightarrow> Some None)"

definition export_item :: "'n nvs_all \<Rightarrow> xfer_lib \<Rightarrow> string \<times> nvs_val \<Rightarrow> json option" where
  "export_item api lib e = do {
     val \<leftarrow> export_value lib (snd e);
     Some (JObj ([(''key'', JStr (fst e)), (''type'', JNum (na_type api (kind_of (snd e))))] @
       (case val of Some j \<Rightarrow> [(''val'', j)] | None \<Rightarrow> []))) }"

fun export_items :: "'n nvs_all \<Rightarrow> xfer_lib \<Rightarrow> bool \<Rightarrow> (string \<times> nvs_val) list \<Rightarrow> json list option" where
  "export_items api lib include_secrets [] = Some []"
| "export_items api lib include_secrets (e # es) =
     (if \<not> include_secrets \<and> fst e \<in> set export_secrets then export_items api lib include_secrets es
      else do { j \<leftarrow> export_item api lib e; js \<leftarrow> export_items api lib include_secrets es; Some (j # js) })"

definition nvs_export_to_json_robust :: "'n nvs_all \<Rightarrow> xfer_lib \<Rightarrow> bool \<Rightarrow> 'n \<Rightarrow> string option option" where
  "nvs_export_to_json_robust api lib include_secrets n =
     (if \<not> na_open api n then Some None
      else do { items \<leftarrow> export_items api lib include_secrets (na_entries api n); Some (xl_print lib (JArr items)) })"

text \<open>An entry of the file that is looked at: its key, its type and its value.\<close>

definition import_entry :: "xfer_lib \<Rightarrow> json \<Rightarrow> (string \<times> int \<times> json) option" where
  "import_entry lib item =
     (case (xl_item lib item ''key'', xl_item lib item ''type'', xl_item lib item ''val'') of
        (Some (JStr key), Some (JNum type), Some val) \<Rightarrow> Some (key, type, val)
      | _ \<Rightarrow> None)"

definition import_value :: "'n nvs_all \<Rightarrow> xfer_lib \<Rightarrow> int \<Rightarrow> json \<Rightarrow> nvs_val option" where
  "import_value api lib type val =
     (if type = na_type api KU8 then (case val of JNum x \<Rightarrow> Some (VU8 (word_of_int x)) | _ \<Rightarrow> None)
      else if type = na_type api KU16 then (case val of JNum x \<Rightarrow> Some (VU16 (word_of_int x)) | _ \<Rightarrow> None)
      else if type = na_type api KU32 then (case val of JNum x \<Rightarrow> Some (VU32 (word_of_int x)) | _ \<Rightarrow> None)
      else if type = na_type api KI32 then (case val of JNum x \<Rightarrow> Some (VI32 (sint (word_of_int x :: u32))) | _ \<Rightarrow> None)
      else if type = na_type api KStr then (case val of JStr s \<Rightarrow> Some (VStr s) | _ \<Rightarrow> None)
      else if type = na_type api KBlob then
        (case val of
           JStr s \<Rightarrow>
             if length s mod 2 \<noteq> 0 then None
             else if xl_mem lib (length s div 2) = None then None
             else map_option VBlob (hex_to_bytes s (length s div 2))
         | _ \<Rightarrow> None)
      else None)"

fun import_entries :: "'n nvs_all \<Rightarrow> xfer_lib \<Rightarrow> json list \<Rightarrow> 'n \<Rightarrow> 'n" where
  "import_entries api lib [] n = n"
| "import_entries api lib (item # items) n =
     (case import_entry lib item of
        None \<Rightarrow> import_entries api lib items n
      | Some (key, type, val) \<Rightarrow>
          import_entries api lib items
            (case import_value api lib type val of Some v \<Rightarrow> na_set api n key v | None \<Rightarrow> n))"

definition nvs_import_from_json_robust :: "'n nvs_all \<Rightarrow> xfer_lib \<Rightarrow> string \<Rightarrow> 'n \<Rightarrow> esp_err \<times> 'n" where
  "nvs_import_from_json_robust api lib json_str n =
     (case xl_parse lib json_str of
        Some (JArr items) \<Rightarrow>
          if \<forall>item \<in> set items. import_entry lib item = None then (ESP_ERR_INVALID_ARG, n)
          else if \<not> na_open api n then (ESP_FAIL, n)
          else (ESP_OK, na_commit api (import_entries api lib items (na_erase_all api n)))
      | _ \<Rightarrow> (ESP_ERR_INVALID_ARG, n))"

section \<open>Encryption\<close>

definition quoted :: "string \<Rightarrow> string" where
  "quoted s = CHR 0x22 # s @ [CHR 0x22]"

definition envelope :: "string \<Rightarrow> string \<Rightarrow> string \<Rightarrow> string" where
  "envelope s n c = ''{'' @ quoted ''enc'' @ '':1,'' @ quoted ''s'' @ '':'' @ quoted s @ '','' @ quoted ''n'' @ '':'' @ quoted n @
     '','' @ quoted ''c'' @ '':'' @ quoted c @ ''}''"

text \<open>Two allocations, for the cipher text and for the file; \<open>pre\<close> and \<open>c\<close> are written into the second.\<close>

definition config_encrypt_json :: "xfer_lib \<Rightarrow> string \<Rightarrow> string \<Rightarrow> string option option" where
  "config_encrypt_json lib plain pass =
     (let key = xl_kdf lib pass (xl_salt lib) in
      case xl_mem lib (length plain + ENC_TAG_LEN) of None \<Rightarrow> Some None
      | Some _ \<Rightarrow>
          let cipher = xl_encrypt lib key (xl_nonce lib) (str_bytes plain);
              file = envelope (concat (map print_02x (xl_salt lib))) (concat (map print_02x (xl_nonce lib))) (xl_b64_encode lib cipher)
          in case xl_mem lib (length file + 1) of None \<Rightarrow> Some None
             | Some out \<Rightarrow> do { out \<leftarrow> wr_bytes out 0 (file @ [CHR 0x00]); Some (Some (c_string out)) })"

definition config_decrypt_json :: "xfer_lib \<Rightarrow> string \<Rightarrow> string \<Rightarrow> string option" where
  "config_decrypt_json lib enc_json pass = do {
     j \<leftarrow> xl_parse lib enc_json;
     case (xl_item lib j ''s'', xl_item lib j ''n'', xl_item lib j ''c'') of
       (Some (JStr s), Some (JStr n), Some (JStr c)) \<Rightarrow>
         (case (hex_to_bytes s ENC_SALT_LEN, hex_to_bytes n ENC_NONCE_LEN) of
            (Some salt, Some nonce) \<Rightarrow> do {
              cipher \<leftarrow> xl_b64_decode lib c;
              (if length cipher < ENC_TAG_LEN then None
               else let key = xl_kdf lib pass salt in do {
                 mem \<leftarrow> xl_mem lib (length cipher - ENC_TAG_LEN + 1);
                 plain \<leftarrow> xl_decrypt lib key nonce cipher;
                 Some (c_string (map char_of (map unat plain))) }) }
          | _ \<Rightarrow> None)
     | _ \<Rightarrow> None }"

section \<open>Handlers\<close>

text \<open>What all of them check first: \<open>None\<close> lets the request through.\<close>

definition api_guard :: "http_env \<Rightarrow> bool \<Rightarrow> http_req \<Rightarrow> session \<Rightarrow> http_answer option \<times> session" where
  "api_guard env password_set req s =
     (if \<not> check_csrf env req then (Some (SendErr 403 ''CSRF check failed''), s)
      else if password_set then
        let (auth, s) = is_authenticated env req s in
        if \<not> auth then (Some (SendErr 403 ''Not authenticated''), s) else (None, s)
      else (None, s))"

text \<open>Reading a body of \<open>remaining\<close> bytes more; no more pieces: the connection is closed.\<close>

datatype body_result = BodyOk string | BodyTimeout | BodyFail

fun recv_body :: "recv_piece list \<Rightarrow> nat \<Rightarrow> string \<Rightarrow> body_result" where
  "recv_body pieces 0 body = BodyOk body"
| "recv_body [] (Suc k) body = BodyFail"
| "recv_body (p # ps) (Suc k) body =
     (case p of
        Piece d \<Rightarrow> if d = [] then BodyFail else recv_body ps (Suc k - length (take (Suc k) d)) (body @ take (Suc k) d)
      | RecvTimeout \<Rightarrow> BodyTimeout
      | RecvFail \<Rightarrow> BodyFail)"

text \<open>The passphrase of an export: from a body of up to 255 bytes, in one piece.\<close>

definition export_pass :: "xfer_lib \<Rightarrow> http_req \<Rightarrow> string" where
  "export_pass lib req =
     (if rq_content_len req > 0 \<and> rq_content_len req < 256 then
        (case rq_body req of
           Piece d # _ \<Rightarrow>
             let body = take (rq_content_len req) d in
             if body = [] then []
             else (case xl_parse lib (c_string body) of
                 Some j \<Rightarrow> (case xl_item lib j ''pass'' of Some (JStr p) \<Rightarrow> strlcpy p 128 | _ \<Rightarrow> [])
               | None \<Rightarrow> [])
         | _ \<Rightarrow> [])
      else [])"

definition config_export_handler :: "'n nvs_all \<Rightarrow> xfer_lib \<Rightarrow> http_env \<Rightarrow> bool \<Rightarrow> http_req \<Rightarrow> 'n \<Rightarrow> session
    \<Rightarrow> (http_answer \<times> session) option" where
  "config_export_handler api lib env password_set req n s =
     (case api_guard env password_set req s of
        (Some refused, s) \<Rightarrow> Some (refused, s)
      | (None, s) \<Rightarrow>
          let pass = export_pass lib req in do {
            plain \<leftarrow> nvs_export_to_json_robust api lib (pass \<noteq> []) n;
            case plain of None \<Rightarrow> Some (SendErr 500 ''Export failed'', s)
            | Some plain \<Rightarrow>
                if pass = [] then Some (Attachment plain, s)
                else do {
                  enc \<leftarrow> config_encrypt_json lib plain pass;
                  Some (case enc of None \<Rightarrow> (SendErr 500 ''Encryption failed'', s) | Some e \<Rightarrow> (Attachment e, s)) } })"

text \<open>The last component: whether the restart timer is started.\<close>

definition config_import_handler :: "'n nvs_all \<Rightarrow> xfer_lib \<Rightarrow> http_env \<Rightarrow> bool \<Rightarrow> http_req \<Rightarrow> 'n \<Rightarrow> session
    \<Rightarrow> http_answer \<times> 'n \<times> session \<times> bool" where
  "config_import_handler api lib env password_set req n s =
     (case api_guard env password_set req s of
        (Some refused, s) \<Rightarrow> (refused, n, s, False)
      | (None, s) \<Rightarrow>
          if rq_content_len req > CONFIG_IMPORT_MAX_SIZE \<or> rq_content_len req = 0 then (Json ''Invalid body size'', n, s, False)
          else if xl_mem lib (rq_content_len req + 1) = None then (SendErr 500 ''Out of memory'', n, s, False)
          else case recv_body (rq_body req) (rq_content_len req) [] of
            BodyTimeout \<Rightarrow> (SendErr 408 [], n, s, False)
          | BodyFail \<Rightarrow> (Dropped, n, s, False)
          | BodyOk body \<Rightarrow>
              let body = c_string body;
                  finish = (\<lambda>text. case nvs_import_from_json_robust api lib text n of
                    (err, n) \<Rightarrow> if err = ESP_OK then (Json ''Config imported. Rebooting...'', n, s, True)
                                else (Json ''Import failed: invalid JSON'', n, s, False))
              in if strstr body (quoted ''enc'') \<noteq> None \<and> strstr body (quoted ''c'') \<noteq> None then
                   let pass = (case rq_header req ''X-Config-Pass'' 128 of Some p \<Rightarrow> p | None \<Rightarrow> []) in
                   if pass = [] then (Json ''Encrypted config requires passphrase'', n, s, False)
                   else (case config_decrypt_json lib body pass of
                       None \<Rightarrow> (Json ''Decryption failed: wrong passphrase or corrupt file'', n, s, False)
                     | Some plain \<Rightarrow> finish plain)
                 else finish body)"

definition vpn_import_handler :: "'n nvs_par \<Rightarrow> xfer_lib \<Rightarrow> http_env \<Rightarrow> bool \<Rightarrow> http_req \<Rightarrow> 'n \<Rightarrow> session
    \<Rightarrow> http_answer \<times> 'n \<times> session \<times> bool" where
  "vpn_import_handler api lib env password_set req n s =
     (case api_guard env password_set req s of
        (Some refused, s) \<Rightarrow> (refused, n, s, False)
      | (None, s) \<Rightarrow>
          if rq_content_len req = 0 \<or> rq_content_len req > 4096 then (Json ''Invalid body size'', n, s, False)
          else if xl_mem lib (rq_content_len req + 1) = None then (SendErr 500 ''Out of memory'', n, s, False)
          else case recv_body (rq_body req) (rq_content_len req) [] of
            BodyTimeout \<Rightarrow> (SendErr 408 [], n, s, False)
          | BodyFail \<Rightarrow> (Dropped, n, s, False)
          | BodyOk body \<Rightarrow>
              (case vpn_import_conf api (he_alloc env) (Some (c_string body)) n of
                 (err, n) \<Rightarrow> if err = ESP_OK then (Json ''WireGuard config imported. Rebooting...'', n, s, True)
                             else (Json ''Import failed: need PrivateKey, PublicKey, Endpoint and Address'', n, s, False)))"

section \<open>Firmware update\<close>

text \<open>
  The OTA library: the next partition's size, if there is one, the results of its calls (one for each
  write), and how it lays out an image header: its size, its magic byte and its chip number, against
  the values this build expects.
\<close>

record ota_lib =
  ol_size :: "nat option"
  ol_begin_ok :: bool
  ol_mem_ok :: bool
  ol_writes :: "bool list"
  ol_end_ok :: bool
  ol_boot_ok :: bool
  ol_header_size :: nat
  ol_magic :: "string \<Rightarrow> bool"
  ol_chip :: "string \<Rightarrow> bool"

datatype ota_act = OtaBegin | OtaWrite string | OtaAbort | OtaEnd | OtaSetBoot | OtaRestart

datatype ota_end = OtaStop http_answer | OtaDone

text \<open>The loop over the body; \<open>oks\<close>: the results of the writes still to come (a missing one failed).\<close>

fun ota_loop :: "ota_lib \<Rightarrow> recv_piece list \<Rightarrow> nat \<Rightarrow> bool \<Rightarrow> bool list \<Rightarrow> ota_end \<times> ota_act list" where
  "ota_loop lib pieces 0 header_checked oks = (OtaDone, [])"
| "ota_loop lib [] (Suc k) header_checked oks = (OtaStop Dropped, [OtaAbort])"
| "ota_loop lib (p # ps) (Suc k) header_checked oks =
     (case p of
        RecvTimeout \<Rightarrow> (OtaStop (SendErr 408 []), [OtaAbort])
      | RecvFail \<Rightarrow> (OtaStop Dropped, [OtaAbort])
      | Piece d \<Rightarrow>
          let buf = take (min (Suc k) 4096) d in
          if buf = [] then (OtaStop Dropped, [OtaAbort])
          else if \<not> header_checked \<and> length buf < ol_header_size lib then (OtaStop (Json ''File too small to be firmware''), [OtaAbort])
          else if \<not> header_checked \<and> \<not> ol_magic lib buf then (OtaStop (Json ''Invalid firmware file (bad magic)''), [OtaAbort])
          else if \<not> header_checked \<and> \<not> ol_chip lib buf then (OtaStop (Json ''Wrong chip type''), [OtaAbort])
          else case oks of
            True # oks \<Rightarrow>
              let (r, acts) = ota_loop lib ps (Suc k - length buf) True oks in (r, OtaWrite buf # acts)
          | _ \<Rightarrow> (OtaStop (Json ''OTA write failed''), [OtaWrite buf, OtaAbort]))"

definition ota_upload_handler :: "ota_lib \<Rightarrow> http_env \<Rightarrow> bool \<Rightarrow> http_req \<Rightarrow> session \<Rightarrow> http_answer \<times> ota_act list \<times> session" where
  "ota_upload_handler lib env password_set req s =
     (case api_guard env password_set req s of
        (Some refused, s) \<Rightarrow> (refused, [], s)
      | (None, s) \<Rightarrow>
          (case ol_size lib of
             None \<Rightarrow> (Json ''No OTA partition found'', [], s)
           | Some room \<Rightarrow>
               if rq_content_len req = 0 then (Json ''Empty request'', [], s)
               else if rq_content_len req > room then (Json ''Firmware too large for partition'', [], s)
               else if \<not> ol_begin_ok lib then (Json ''OTA begin failed'', [], s)
               else if \<not> ol_mem_ok lib then (SendErr 500 ''Out of memory'', [OtaBegin, OtaAbort], s)
               else case ota_loop lib (rq_body req) (rq_content_len req) False (ol_writes lib) of
                 (OtaStop answer, acts) \<Rightarrow> (answer, OtaBegin # acts, s)
               | (OtaDone, acts) \<Rightarrow>
                   if \<not> ol_end_ok lib then (Json ''Firmware validation failed'', OtaBegin # acts @ [OtaEnd], s)
                   else if \<not> ol_boot_ok lib then (Json ''Failed to set boot partition'', OtaBegin # acts @ [OtaEnd], s)
                   else (Json ''Firmware updated! Rebooting...'', OtaBegin # acts @ [OtaEnd, OtaSetBoot, OtaRestart], s)))"

end
