(* ===== verification/Http_Theorems.thy ===== *)
theory Http_Theorems
  imports Http_Access Config_Theorems
begin

text \<open>
  The gate of the web server holds: a session is recognised by its cookie and nothing else, foreign
  origins are refused when they are short enough to be read, escaped text carries no markup, encoded
  text decodes to what was encoded, and the captive portal's name server stays inside its buffer.
\<close>

section \<open>Cookies\<close>

text \<open>A cookie of that name begins at \<open>p\<close>; its value, looked up the way a browser writes the header.\<close>

definition cookie_at :: "string \<Rightarrow> string \<Rightarrow> nat \<Rightarrow> bool" where
  "cookie_at header name p \<longleftrightarrow> take (length name + 1) (drop p header) = name @ ''='' \<and>
     (p = 0 \<or> header ! (p - 1) = CHR '';'' \<or> (header ! (p - 1) = CHR '' '' \<and> p \<ge> 2 \<and> header ! (p - 2) = CHR '';''))"

definition cookie_of :: "string \<Rightarrow> string \<Rightarrow> string option" where
  "cookie_of header name =
     map_option (\<lambda>p. takeWhile (\<lambda>c. c \<noteq> CHR '';'') (drop (p + length name + 1) header))
       (find_first (cookie_at header name) [0..<length header])"

lemma strstr_first: "strstr s p = Some k \<Longrightarrow> j < k \<Longrightarrow> take (length p) (drop j s) \<noteq> p"
proof (induction s arbitrary: k j)
  case (Cons c s)
  show ?case
  proof (cases "take (length p) (c # s) = p")
    case False
    then obtain k' where k': "strstr s p = Some k'" "k = Suc k'" using Cons.prems by auto
    show ?thesis
    proof (cases j)
      case 0
      with False show ?thesis by simp
    next
      case (Suc i)
      with Cons.IH [OF k'(1), of i] Cons.prems k' show ?thesis by simp
    qed
  qed (use Cons.prems in auto)
qed (auto split: if_splits)

lemma strstr_None: "strstr s p = None \<Longrightarrow> take (length p) (drop j s) \<noteq> p"
proof (induction s arbitrary: j)
  case (Cons c s)
  then have n: "take (length p) (c # s) \<noteq> p" "strstr s p = None" by (auto split: if_splits)
  show ?case
  proof (cases j)
    case 0
    with n show ?thesis by simp
  next
    case (Suc i)
    with Cons.IH [OF n(2), of i] show ?thesis by simp
  qed
qed (auto split: if_splits)

text \<open>A match that starts inside another is not at a boundary.\<close>

lemma no_cookie_inside:
  assumes m: "take (length name + 1) (drop p header) = name @ ''=''" and j: "p < j" "j < p + (length name + 1)"
    and n: "CHR '';'' \<notin> set name" "CHR '' '' \<notin> set name"
  shows "\<not> cookie_at header name j"
proof
  assume c: "cookie_at header name j"
  have "length (take (length name + 1) (drop p header)) = length name + 1" using m by simp
  then have l: "p + (length name + 1) \<le> length header" by simp
  have i: "j - 1 - p < length name" using j by linarith
  have "header ! (j - 1) = take (length name + 1) (drop p header) ! (j - 1 - p)" using j l by simp
  also have "\<dots> = (name @ ''='') ! (j - 1 - p)" by (simp only: m)
  also have "\<dots> = name ! (j - 1 - p)" using i by (simp add: nth_append)
  finally have "header ! (j - 1) \<in> set name" using i by simp
  with n c j show False by (auto simp: cookie_at_def)
qed

lemma cookie_search_first:
  assumes "length name \<le> 62" "CHR '';'' \<notin> set name" "CHR '' '' \<notin> set name"
  shows "(\<forall>q. cookie_search header name pos = Some q \<longrightarrow>
      (\<exists>p \<ge> pos. q = p + length name + 1 \<and> cookie_at header name p \<and> p < length header \<and> (\<forall>j. pos \<le> j \<and> j < p \<longrightarrow> \<not> cookie_at header name j))) \<and>
    (cookie_search header name pos = None \<longrightarrow> (\<forall>j \<ge> pos. \<not> cookie_at header name j))"
  using assms
proof (induction header name pos rule: cookie_search.induct)
  case (1 header name pos)
  have pat: "cookie_pattern name = name @ ''=''" "length (cookie_pattern name) = length name + 1"
    using 1(2) by (simp_all add: cookie_pattern_def)
  show ?case
  proof (cases "strstr (drop pos header) (cookie_pattern name)")
    case None
    then have "\<not> cookie_at header name j" if "j \<ge> pos" for j
      using strstr_None [OF None, of "j - pos"] that pat by (auto simp: cookie_at_def)
    with None show ?thesis by (simp add: cookie_search.simps [of header])
  next
    case (Some k)
    let ?p = "pos + k"
    let ?b = "?p = 0 \<or> header ! (?p - 1) = CHR '';'' \<or> (header ! (?p - 1) = CHR '' '' \<and> ?p \<ge> 2 \<and> header ! (?p - 2) = CHR '';'')"
    have at: "take (length name + 1) (drop ?p header) = name @ ''=''" "?p < length header"
      using strstr_Some [OF Some] pat by (auto simp: add.commute)
    have before: "\<not> cookie_at header name j" if "pos \<le> j" "j < ?p" for j
      using strstr_first [OF Some, of "j - pos"] that pat by (auto simp: cookie_at_def)
    show ?thesis
    proof (cases ?b)
      case True
      then have "cookie_at header name ?p" using at by (simp add: cookie_at_def)
      moreover have "cookie_search header name pos = Some (?p + length name + 1)"
        by (subst cookie_search.simps) (simp only: Some option.case Let_def if_P [OF True] pat(2) add.assoc)
      ultimately show ?thesis using before at(2) by auto
    next
      case False
      have eq: "cookie_search header name pos = cookie_search header name (?p + (length name + 1))"
        by (subst cookie_search.simps) (simp only: Some option.case Let_def if_not_P [OF False] pat(2))
      have "\<not> cookie_at header name ?p" using False by (auto simp: cookie_at_def)
      then have skip: "\<not> cookie_at header name j" if "pos \<le> j" "j < ?p + (length name + 1)" for j
        using before no_cookie_inside [OF at(1), of j] that 1(3,4) by (cases j ?p rule: linorder_cases) auto
      note ih = 1(1) [OF Some refl False 1(2-4), unfolded pat(2)]
      show ?thesis
      proof (intro conjI allI impI)
        fix q assume "cookie_search header name pos = Some q"
        then obtain p where "p \<ge> ?p + (length name + 1)" "q = p + length name + 1" "cookie_at header name p" "p < length header"
          "\<forall>j. ?p + (length name + 1) \<le> j \<and> j < p \<longrightarrow> \<not> cookie_at header name j"
          using ih eq by auto
        with skip show "\<exists>p \<ge> pos. q = p + length name + 1 \<and> cookie_at header name p \<and> p < length header \<and>
            (\<forall>j. pos \<le> j \<and> j < p \<longrightarrow> \<not> cookie_at header name j)"
          by (intro exI [of _ p]) (metis add_leD1 not_less)
      next
        fix j assume "cookie_search header name pos = None" "j \<ge> pos"
        with ih eq skip show "\<not> cookie_at header name j" by (metis not_less)
      qed
    qed
  qed
qed

lemma find_first_upt:
  assumes "P p" "p < n" "\<forall>j < p. \<not> P j"
  shows "find_first P [0..<n] = Some p"
  using assms by (subst find_first_Some) auto

lemma cookie_search_is:
  assumes "length name \<le> 62" "CHR '';'' \<notin> set name" "CHR '' '' \<notin> set name"
  shows "map_option (\<lambda>q. takeWhile (\<lambda>c. c \<noteq> CHR '';'') (drop q header)) (cookie_search header name 0) = cookie_of header name"
proof (cases "cookie_search header name 0")
  case None
  then have "\<forall>j. \<not> cookie_at header name j" using cookie_search_first [OF assms, of header 0] by auto
  then have "find_first (cookie_at header name) [0..<length header] = None" by (simp add: find_first_None)
  with None show ?thesis by (simp add: cookie_of_def)
next
  case (Some q)
  then obtain p where "q = p + length name + 1" "cookie_at header name p" "p < length header" "\<forall>j < p. \<not> cookie_at header name j"
    using cookie_search_first [OF assms, of header 0] by auto
  with Some find_first_upt [of "cookie_at header name" p "length header"] show ?thesis by (simp add: cookie_of_def)
qed

section \<open>Sessions\<close>

text \<open>The HTTP library: a header is there or not, and is copied if it fits with its final NUL.\<close>

definition http_lib_ok :: "http_req \<Rightarrow> (string \<Rightarrow> string option) \<Rightarrow> bool" where
  "http_lib_ok req headers \<longleftrightarrow>
     (\<forall>name. rq_header_len req name = (case headers name of Some v \<Rightarrow> length v | None \<Rightarrow> 0)) \<and>
     (\<forall>name n. rq_header req name n =
        (case headers name of Some v \<Rightarrow> if length v < n then Some v else None | None \<Rightarrow> None))"

lemma get_cookie_is:
  assumes "http_lib_ok req headers" "length name \<le> 62" "CHR '';'' \<notin> set name" "CHR '' '' \<notin> set name" "n > 0"
  shows "get_cookie_value req True name n =
    (case headers ''Cookie'' of None \<Rightarrow> None
     | Some h \<Rightarrow> map_option (take (n - 1)) (cookie_of h name))"
proof (cases "headers ''Cookie''")
  case None
  with assms(1) show ?thesis by (simp add: get_cookie_value_def http_lib_ok_def)
next
  case (Some h)
  have len: "rq_header_len req ''Cookie'' = length h" "rq_header req ''Cookie'' (length h + 1) = Some h"
    using assms(1) Some by (simp_all add: http_lib_ok_def)
  have cut: "take (if length v \<ge> n then n - 1 else length v) v = take (n - 1) v" for v :: string
    using assms(5) by auto
  show ?thesis
  proof (cases "h = []")
    case True
    then have "cookie_of h name = None" by (simp add: cookie_of_def)
    with True Some len show ?thesis by (simp add: get_cookie_value_def)
  next
    case False
    then show ?thesis
      using Some len cookie_search_is [OF assms(2-4), of h, symmetric] cut
      by (cases "cookie_search h name 0") (auto simp: get_cookie_value_def Let_def)
  qed
qed

lemma of_char_u8: "unat (of_char c :: u8) = of_char c"
proof -
  have "(of_char c :: u8) = of_nat (of_char c)" by (simp add: of_char_def)
  also have "unat \<dots> = of_char c mod 256" by (simp add: unat_of_nat)
  finally show ?thesis by simp
qed

lemma str_bytes_inj: "str_bytes a = str_bytes b \<longleftrightarrow> a = b"
proof -
  have "inj (of_char :: char \<Rightarrow> u8)" by (rule injI) (metis of_char_u8 of_char_eq_iff)
  then show ?thesis by (simp add: str_bytes_def inj_map_eq_map)
qed

lemma token_compare: "length a = length b \<Longrightarrow> pw_differs (str_bytes a) (str_bytes b) \<longleftrightarrow> a \<noteq> b"
  using pw_differs_iff [of "str_bytes a" "str_bytes b"] str_bytes_inj by (simp add: str_bytes_def)

lemma session_cookie:
  assumes "http_lib_ok req headers"
  shows "get_cookie_value req True ''session'' (MAX_SESSION_TOKEN_LEN + 1) =
    (case headers ''Cookie'' of None \<Rightarrow> None | Some h \<Rightarrow> map_option (take 32) (cookie_of h ''session''))"
  using get_cookie_is [OF assms, of "''session''" 33] unfolding MAX_SESSION_TOKEN_LEN_def
  by (cases "headers ''Cookie''") simp_all

lemma shown_token_accepted:
  assumes "http_lib_ok req headers" "he_alloc env" "headers ''Cookie'' = Some h"
    "map_option (take 32) (cookie_of h ''session'') = Some (current_session_token s)"
    "session_active s" "he_now env \<le> session_expiry_time s"
  shows "fst (is_authenticated env req s)"
  using assms session_cookie [OF assms(1)] token_compare by (auto simp: is_authenticated_def Let_def)

text \<open>
  C19: a request is taken as logged in exactly when a session is open, it has not been idle for its
  thirty minutes, and the first cookie called \<open>session\<close> in the request has the session's token as
  its first 32 characters; then the thirty minutes start again, and a session that has run out is
  closed.
\<close>

theorem session_guard:
  assumes "http_lib_ok req headers" "he_alloc env"
  shows "is_authenticated env req s =
    (let valid = session_active s \<and> he_now env \<le> session_expiry_time s;
         shown = (case headers ''Cookie'' of None \<Rightarrow> None | Some h \<Rightarrow> map_option (take 32) (cookie_of h ''session''))
     in if valid \<and> shown = Some (current_session_token s)
        then (True, s\<lparr>session_expiry_time := he_now env + 30 * 60 * 1000000\<rparr>)
        else (False, if session_active s \<and> \<not> valid then no_session else s))"
proof -
  note c = session_cookie [OF assms(1)]
  have cl: "clear_session s = no_session" by (simp add: clear_session_def no_session_def)
  show ?thesis
    unfolding is_authenticated_def Let_def
    using c assms(2) cl token_compare
    by (auto simp: SESSION_TIMEOUT_US_def not_less split: option.splits if_splits)
qed

definition sample_token :: string where "sample_token = ''0123456789abcdef0123456789abcdef''"

definition sample_req :: http_req where
  "sample_req = \<lparr>rq_post = False,
     rq_header_len = (\<lambda>n. if n = ''Cookie'' then length (''a=1; session='' @ sample_token) else 0),
     rq_header = (\<lambda>n k. if n = ''Cookie'' \<and> length (''a=1; session='' @ sample_token) < k
       then Some (''a=1; session='' @ sample_token) else None),
     rq_query = None, rq_value = (\<lambda>q k n. None), rq_content_len = 0, rq_body = []\<rparr>"

definition sample_http :: http_env where
  "sample_http = \<lparr>he_ap_ip = 0x0104A8C0, he_my_ip = 0, he_pppoe_ip = 0, he_tunnel_ip = 0, he_now = 1000, he_random = [],
     he_alloc = True\<rparr>"

definition sample_session :: session where
  "sample_session = \<lparr>current_session_token = sample_token, session_active = True, session_expiry_time = 2000\<rparr>"

lemma sample_lib: "http_lib_ok sample_req (\<lambda>n. if n = ''Cookie'' then Some (''a=1; session='' @ sample_token) else None)"
  by (simp add: http_lib_ok_def sample_req_def)

theorem session_guard_witness:
  "is_authenticated sample_http sample_req sample_session = (True, sample_session\<lparr>session_expiry_time := 1800001000\<rparr>)"
proof -
  have "map_option (take 32) (cookie_of (''a=1; session='' @ sample_token) ''session'') = Some sample_token" by code_simp
  then show ?thesis
    using session_guard [OF sample_lib, of sample_http sample_session]
    by (simp add: sample_http_def sample_session_def Let_def)
qed

text \<open>A login is recognised until it has been idle for thirty minutes.\<close>

lemma login_recognised:
  assumes "length (he_random env) = 32" "create_session env s = (cookie, t)"
    and "http_lib_ok req [''Cookie'' \<mapsto> ''session='' @ current_session_token t]" "he_alloc env'"
    and "he_now env' \<le> he_now env + 30 * 60 * 1000000"
  shows "fst (is_authenticated env' req t)"
proof -
  let ?tok = "generate_session_token (he_random env) 33"
  have t: "t = s\<lparr>current_session_token := ?tok, session_active := True, session_expiry_time := he_now env + SESSION_TIMEOUT_US\<rparr>"
    using assms(2) by (simp add: create_session_def Let_def MAX_SESSION_TOKEN_LEN_def)
  have l: "length ?tok = 32" using assms(1) by (simp add: generate_session_token_def)
  have "c \<noteq> CHR '';''" if c: "c \<in> set ?tok" for c
  proof -
    obtain r :: u32 where "c = hex_char (unat (r mod 16))" using c by (auto simp: generate_session_token_def)
    moreover have "unat (r mod 16) < 16" by (simp add: unat_mod)
    ultimately show ?thesis using hex_digit_cases [of "unat (r mod 16)"] by (auto simp: hex_char_def)
  qed
  then have "takeWhile (\<lambda>c. c \<noteq> CHR '';'') ?tok = ?tok" by (simp add: takeWhile_eq_all_conv)
  moreover have "find_first (cookie_at (''session='' @ ?tok) ''session'') [0..<length (''session='' @ ?tok)] = Some 0"
    by (rule find_first_upt) (simp_all add: cookie_at_def l)
  ultimately have "cookie_of (''session='' @ ?tok) ''session'' = Some ?tok" by (simp add: cookie_of_def)
  then show ?thesis
    using shown_token_accepted [OF assms(3,4), of "''session='' @ ?tok" t] assms(5) l t by (simp add: SESSION_TIMEOUT_US_def)
qed

section \<open>Origins\<close>

text \<open>
  C20: a request whose \<open>Origin\<close> header can be read (fewer than 64 characters) passes the check
  exactly when the origin is the host it was sent to or one of the router's own addresses.
\<close>

theorem csrf_guard:
  assumes "http_lib_ok req headers" "headers ''Origin'' = Some origin" "length origin < 64"
  shows "check_csrf env req \<longleftrightarrow>
    (\<exists>host. headers ''Host'' = Some host \<and> length host < 64 \<and> origin = ''http://'' @ host) \<or>
    origin = ip_origin (he_ap_ip env) \<or>
    (\<exists>ip \<in> {he_my_ip env, he_pppoe_ip env, he_tunnel_ip env}. ip \<noteq> 0 \<and> origin = ip_origin ip)"
proof -
  have o: "rq_header req ''Origin'' 64 = Some origin" using assms by (simp add: http_lib_ok_def)
  have h: "rq_header req ''Host'' 64 = (case headers ''Host'' of Some v \<Rightarrow> if length v < 64 then Some v else None | None \<Rightarrow> None)"
    using assms(1) by (simp add: http_lib_ok_def)
  have t: "take 31 (ip_origin ip) = ip_origin ip" for ip
    using ipstr_props(2) [of ip] by (simp add: ip_origin_def)
  have u: "take 71 (''http://'' @ host) = ''http://'' @ host" if "length host < 64" for host
    using that by simp
  show ?thesis
    unfolding check_csrf_def o option.case t h using u
    by (cases "headers ''Host''") (auto split: if_splits)
qed

definition foreign_req :: http_req where
  "foreign_req = sample_req\<lparr>rq_header_len := (\<lambda>n. if n = ''Origin'' then 11 else 0),
     rq_header := (\<lambda>n k. if n = ''Origin'' \<and> 11 < k then Some ''http://evil'' else None)\<rparr>"

lemma foreign_refused: "check_csrf sample_http foreign_req = False"
  by code_simp

theorem csrf_guard_witness: "\<not> check_csrf sample_http foreign_req"
proof -
  have "http_lib_ok foreign_req (\<lambda>n. if n = ''Origin'' then Some ''http://evil'' else None)"
    by (simp add: http_lib_ok_def foreign_req_def)
  from csrf_guard [OF this, of "''http://evil''" sample_http] show ?thesis
    by (simp add: sample_http_def ip_origin_def) code_simp
qed

text \<open>A longer origin is taken for none: any site with a name that long passes.\<close>

theorem csrf_long_origin:
  assumes "http_lib_ok req headers" "headers ''Origin'' = Some origin" "length origin \<ge> 64"
  shows "check_csrf env req"
  using assms by (simp add: check_csrf_def http_lib_ok_def)

section \<open>Escaping\<close>

text \<open>
  Both escaping loops write pieces of one or more characters as long as a piece and a final NUL fit.
\<close>

fun put_pieces :: "(char \<Rightarrow> string) \<Rightarrow> string \<Rightarrow> nat \<Rightarrow> nat \<Rightarrow> string \<Rightarrow> string option" where
  "put_pieces f dst n i [] = wr_bytes dst i [CHR 0x00]"
| "put_pieces f dst n i (c # src) =
     (if i + length (f c) < n then do { dst \<leftarrow> wr_bytes dst i (f c); put_pieces f dst n (i + length (f c)) src }
      else wr_bytes dst i [CHR 0x00])"

definition html_piece :: "char \<Rightarrow> string" where
  "html_piece c = (if html_special c then html_entity c else [c])"

definition url_piece :: "char \<Rightarrow> string" where
  "url_piece c = (if url_plain c then [c] else [CHR ''%'', hex_upper (of_char c div 16), hex_upper (of_char c mod 16)])"

lemma length_entity [simp]: "length (html_entity c) = 5"
  by (simp add: html_entity_def)

lemma html_loop_pieces: "html_escape_loop dst n j src = put_pieces html_piece dst n j src"
proof (induction src arbitrary: dst j)
  case (Cons c src)
  show ?case by (cases "html_special c") (auto simp: html_piece_def Cons.IH)
qed simp

lemma url_loop_pieces: "url_encode_loop dst n i src = put_pieces url_piece dst n i src"
proof (induction src arbitrary: dst i)
  case (Cons c src)
  show ?case by (cases "url_plain c") (auto simp: url_piece_def Cons.IH numeral_3_eq_3)
qed simp

lemma put_pieces_writes:
  assumes "i < n" "n \<le> length dst"
  shows "\<exists>k buf. put_pieces f dst n i src = Some buf \<and> length buf = length dst \<and> k \<le> length src \<and>
    take i buf = take i dst \<and> (let out = concat (map f (take k src)) in
      i + length out < n \<and> take (length out + 1) (drop i buf) = out @ [CHR 0x00] \<and>
      (k < length src \<longrightarrow> i + length out + length (f (src ! k)) \<ge> n))"
  using assms
proof (induction src arbitrary: i dst)
  case Nil
  then show ?case by (auto simp: wr_bytes_def Let_def take_Suc_conv_app_nth)
next
  case (Cons c src)
  show ?case
  proof (cases "i + length (f c) < n")
    case True
    let ?d = "take i dst @ f c @ drop (i + length (f c)) dst"
    have w: "wr_bytes dst i (f c) = Some ?d" using True Cons.prems by (simp add: wr_bytes_def)
    have l: "length ?d = length dst" using True Cons.prems by simp
    obtain k buf where k: "put_pieces f ?d n (i + length (f c)) src = Some buf" "length buf = length dst" "k \<le> length src"
      "take (i + length (f c)) buf = take (i + length (f c)) ?d"
      "i + length (f c) + length (concat (map f (take k src))) < n"
      "take (length (concat (map f (take k src))) + 1) (drop (i + length (f c)) buf) = concat (map f (take k src)) @ [CHR 0x00]"
      "k < length src \<longrightarrow> i + length (f c) + length (concat (map f (take k src))) + length (f (src ! k)) \<ge> n"
      using Cons.IH [of "i + length (f c)" ?d] True Cons.prems l by (auto simp: Let_def)
    have t: "take (i + length (f c)) ?d = take i dst @ f c" using True Cons.prems by simp
    have "take i buf = take i (take (i + length (f c)) buf)" by simp
    also have "\<dots> = take i dst" unfolding k(4) t using True Cons.prems by simp
    finally have ti: "take i buf = take i dst" .
    have "take (length (f c)) (drop i buf) = drop i (take (i + length (f c)) buf)" by (simp add: drop_take)
    also have "\<dots> = f c" unfolding k(4) t using True Cons.prems by simp
    finally have fc: "take (length (f c)) (drop i buf) = f c" .
    let ?o = "concat (map f (take k src))"
    have "take (length (f c) + (length ?o + 1)) (drop i buf) = f c @ take (length ?o + 1) (drop (length (f c)) (drop i buf))"
      using fc by (metis take_add)
    also have "drop (length (f c)) (drop i buf) = drop (i + length (f c)) buf" by (simp add: add.commute)
    finally have "take (length (f c) + length ?o + 1) (drop i buf) = f c @ ?o @ [CHR 0x00]" using k(6) by simp
    then have out: "take (length (concat (map f (take (Suc k) (c # src)))) + 1) (drop i buf) =
        concat (map f (take (Suc k) (c # src))) @ [CHR 0x00]" by simp
    show ?thesis unfolding Let_def
    proof (intro exI conjI)
      show "put_pieces f dst n i (c # src) = Some buf" using True w k(1) by simp
      show "Suc k < length (c # src) \<longrightarrow> n \<le> i + length (concat (map f (take (Suc k) (c # src)))) + length (f ((c # src) ! Suc k))"
        using k(7) by (simp add: add.assoc)
    qed (use k(2,3,5) ti out in simp_all)
  next
    case False
    have w: "wr_bytes dst i [CHR 0x00] = Some (take i dst @ [CHR 0x00] @ drop (i + 1) dst)"
      using Cons.prems by (simp add: wr_bytes_def)
    then show ?thesis using False Cons.prems by (intro exI [of _ 0]) (simp add: Let_def)
  qed
qed

lemma c_string_pieces:
  assumes "0 < n" "n \<le> length dst" "\<forall>c \<in> set src. CHR 0x00 \<notin> set (f c)"
  shows "\<exists>k buf. put_pieces f dst n 0 src = Some buf \<and> length buf = length dst \<and> k \<le> length src \<and>
    c_string buf = concat (map f (take k src)) \<and> length (c_string buf) < n \<and>
    (k < length src \<longrightarrow> length (concat (map f (take (k + 1) src))) \<ge> n)"
proof -
  obtain k buf where k: "put_pieces f dst n 0 src = Some buf" "length buf = length dst" "k \<le> length src"
    "length (concat (map f (take k src))) < n"
    "take (length (concat (map f (take k src))) + 1) buf = concat (map f (take k src)) @ [CHR 0x00]"
    "k < length src \<longrightarrow> length (concat (map f (take k src))) + length (f (src ! k)) \<ge> n"
    using put_pieces_writes [OF assms(1,2), of f src] by (auto simp: Let_def)
  let ?o = "concat (map f (take k src))"
  have nn: "c \<noteq> CHR 0x00" if "c \<in> set ?o" for c using that assms(3) by (auto dest: in_set_takeD)
  have "buf = ?o @ CHR 0x00 # drop (length ?o + 1) buf" using k(5) by (metis append_take_drop_id append.assoc append_Cons append_Nil)
  then have "c_string buf = takeWhile (\<lambda>c. c \<noteq> CHR 0x00) (?o @ CHR 0x00 # drop (length ?o + 1) buf)"
    unfolding c_string_def by (rule arg_cong)
  also have "\<dots> = ?o" using nn by (subst takeWhile_append2) simp_all
  finally have "c_string buf = ?o" .
  have "k < length src \<longrightarrow> length (concat (map f (take (k + 1) src))) \<ge> n"
    using k(6) by (simp add: take_Suc_conv_app_nth)
  with \<open>c_string buf = ?o\<close> k show ?thesis by (intro exI [of _ k] exI [of _ buf]) simp
qed

text \<open>What a browser makes of numeric entities.\<close>

fun html_unescape :: "string \<Rightarrow> string" where
  "html_unescape [] = []"
| "html_unescape (c # s) =
     (case s of
        h # a # b # e # r \<Rightarrow>
          if c = CHR ''&'' \<and> h = CHR ''#'' \<and> is_digit a \<and> is_digit b \<and> e = CHR '';''
          then char_of (10 * digit_val a + digit_val b) # html_unescape r
          else c # html_unescape s
      | _ \<Rightarrow> c # html_unescape s)"

lemma html_special_cases: "html_special c \<Longrightarrow> P (CHR 0x5C) \<Longrightarrow> P (CHR 0x27) \<Longrightarrow> P (CHR 0x22) \<Longrightarrow> P (CHR ''&'') \<Longrightarrow>
    P (CHR ''#'') \<Longrightarrow> P (CHR '';'') \<Longrightarrow> P (CHR ''<'') \<Longrightarrow> P (CHR ''>'') \<Longrightarrow> P c"
  by (auto simp: html_special_def)

lemma entity_chars: "html_special c \<Longrightarrow> set (html_entity c) \<subseteq> set ''&#;0123456789''"
  by (erule html_special_cases) code_simp+

lemma unescape_entity: "html_special c \<Longrightarrow> html_unescape (html_entity c @ s) = c # html_unescape s"
proof (erule html_special_cases)
qed (simp_all add: html_entity_def is_digit_def digit_val_def char_of_eq_iff)

lemma unescape_plain: "\<not> html_special c \<Longrightarrow> html_unescape (c # s) = c # html_unescape s"
  by (auto simp: html_special_def split: list.splits)

lemma html_unescape_pieces: "html_unescape (concat (map html_piece s)) = s"
  by (induction s) (simp_all add: html_piece_def unescape_entity unescape_plain del: html_unescape.simps(2))

text \<open>
  Escaping text into a buffer stays inside the buffer whatever the text is; the result has no
  character that could open a tag, end an attribute or begin an entity of its own, and a browser
  shows it as the text, or as the longest beginning of it whose escaped form fits.
\<close>

theorem html_escape_sound:
  assumes "0 < dstlen" "dstlen \<le> length dst" "CHR 0x00 \<notin> set src"
  shows "\<exists>k buf. html_escape_buf dst dstlen (Some src) = Some buf \<and> length buf = length dst \<and>
    length (c_string buf) < dstlen \<and> set (c_string buf) \<inter> set [CHR ''<'', CHR ''>'', CHR 0x22, CHR 0x27, CHR 0x5C] = {} \<and>
    html_unescape (c_string buf) = take k src \<and>
    (k < length src \<longrightarrow> length (concat (map html_piece (take (k + 1) src))) \<ge> dstlen)"
proof -
  have "\<forall>c \<in> set src. CHR 0x00 \<notin> set (html_piece c)"
  proof
    fix c assume "c \<in> set src"
    with assms(3) entity_chars [of c] show "CHR 0x00 \<notin> set (html_piece c)"
      by (cases "html_special c") (auto simp: html_piece_def)
  qed
  from c_string_pieces [OF assms(1,2) this] obtain k buf where k: "put_pieces html_piece dst dstlen 0 src = Some buf"
    "length buf = length dst" "c_string buf = concat (map html_piece (take k src))" "length (c_string buf) < dstlen"
    "k < length src \<longrightarrow> length (concat (map html_piece (take (k + 1) src))) \<ge> dstlen"
    by blast
  have "set (html_piece c) \<inter> set [CHR ''<'', CHR ''>'', CHR 0x22, CHR 0x27, CHR 0x5C] = {}" for c
  proof (cases "html_special c")
    case True
    then show ?thesis using entity_chars [OF True] by (auto simp: html_piece_def)
  next
    case False
    then show ?thesis by (auto simp: html_piece_def html_special_def)
  qed
  then have "set (c_string buf) \<inter> set [CHR ''<'', CHR ''>'', CHR 0x22, CHR 0x27, CHR 0x5C] = {}" unfolding k(3) by fastforce
  moreover have "html_unescape (c_string buf) = take k src" unfolding k(3) by (rule html_unescape_pieces)
  ultimately show ?thesis
    using k assms(1) by (intro exI [of _ k] exI [of _ buf]) (simp add: html_escape_buf_def html_loop_pieces)
qed

theorem html_escape_sound_witness:
  "\<exists>k buf. html_escape_buf (replicate 16 (CHR ''x'')) 16 (Some ''<script>'') = Some buf \<and> length buf = 16 \<and>
     html_unescape (c_string buf) = take k ''<script>''"
  using html_escape_sound [of 16 "replicate 16 (CHR ''x'')" "''<script>''"] by auto

section \<open>Percent encoding\<close>

lemma hex_upper_digit:
  assumes "d < 16"
  shows "is_hex_digit (hex_upper d) \<and> hex_digit_value (hex_upper d) = of_nat d \<and> hex_upper d \<noteq> CHR 0x00"
  using hex_digit_cases [OF assms]
  by (elim insertE; simp add: hex_upper_def is_hex_digit_def hex_digit_value_def)

lemma plain_not: "url_plain c \<Longrightarrow> c \<noteq> CHR ''%'' \<and> c \<noteq> CHR ''+'' \<and> c \<noteq> CHR 0x00"
  by (auto simp: url_plain_def)

lemma decode_plain: "url_plain c \<Longrightarrow> preprocess_string (c # s) = c # preprocess_string s"
  using plain_not by (auto split: list.splits)

lemma char_nibbles: "of_char c div 16 < (16 :: nat)" "of_char c mod 16 < (16 :: nat)"
  using less_mult_imp_div_less [of "of_char c" 16 16] by simp_all

lemma decode_hex:
  assumes "CHR 0x00 \<noteq> c"
  shows "preprocess_string (CHR ''%'' # hex_upper (of_char c div 16) # hex_upper (of_char c mod 16) # s) = c # preprocess_string s"
proof -
  let ?h = "of_char c div 16 :: nat" and ?l = "of_char c mod 16 :: nat"
  have n: "?h < 16" "?l < 16" by (rule char_nibbles)+
  have "push_bit 4 (of_nat ?h) + of_nat ?l = (of_nat (16 * ?h + ?l) :: u8)"
    by (simp only: push_bit_eq_mult of_nat_add of_nat_mult of_nat_numeral) (simp add: mult.commute)
  also have "16 * ?h + ?l = of_char c" by simp
  finally have v: "push_bit 4 (of_nat ?h) + of_nat ?l = (of_nat (of_char c) :: u8)" .
  have "char_of (unat (of_nat (of_char c) :: u8)) = c" by (simp add: unat_of_nat)
  then show ?thesis using hex_upper_digit [OF n(1)] hex_upper_digit [OF n(2)] v assms by simp
qed

lemma decode_pieces: "CHR 0x00 \<notin> set s \<Longrightarrow> preprocess_string (concat (map url_piece s)) = s"
  by (induction s) (simp_all add: url_piece_def decode_plain decode_hex del: preprocess_string.simps(2))

text \<open>
  Text encoded into a buffer with room for it decodes to the same text when the form is
  submitted; the encoding never leaves the buffer.
\<close>

theorem url_roundtrip:
  assumes "3 * length src < dst_len" "dst_len \<le> length dst" "CHR 0x00 \<notin> set src"
  shows "\<exists>buf. url_encode src dst dst_len = Some buf \<and> preprocess_string (c_string buf) = src"
proof -
  have "\<forall>c \<in> set src. CHR 0x00 \<notin> set (url_piece c)"
  proof
    fix c assume "c \<in> set src"
    show "CHR 0x00 \<notin> set (url_piece c)"
      using hex_upper_digit [OF char_nibbles(1) [of c]] hex_upper_digit [OF char_nibbles(2) [of c]] plain_not [of c]
      by (auto simp: url_piece_def)
  qed
  moreover have "0 < dst_len" using assms(1) by simp
  ultimately obtain k buf where k: "put_pieces url_piece dst dst_len 0 src = Some buf" "c_string buf = concat (map url_piece (take k src))"
    "k \<le> length src" "k < length src \<longrightarrow> length (concat (map url_piece (take (k + 1) src))) \<ge> dst_len"
    using c_string_pieces [OF _ assms(2)] by blast
  have "length (url_piece c) \<le> 3" for c by (simp add: url_piece_def)
  then have "length (concat (map url_piece s)) \<le> 3 * length s" for s
    by (induction s) (simp, smt (verit) length_append length_Cons mult_Suc_right concat.simps(2) list.map(2) add_mono)
  from this [of "take (k + 1) src"] have "k = length src" using k(3,4) assms(1) by (cases "k < length src") auto
  with k(1,2) decode_pieces [OF assms(3)] show ?thesis by (simp add: url_encode_def url_loop_pieces)
qed

theorem url_roundtrip_witness:
  "\<exists>buf. url_encode ''My Net & 100%'' (replicate 64 (CHR ''x'')) 64 = Some buf \<and> preprocess_string (c_string buf) = ''My Net & 100%''"
  using url_roundtrip [of "''My Net & 100%''" 64 "replicate 64 (CHR ''x'')"] by simp

section \<open>The captive portal's name server\<close>

text \<open>
  Whatever packet arrives, the name server reads and writes only inside its 512 bytes.  While the
  uplink is down it answers exactly the packets of 12 to 496 bytes that are queries with one
  question: the query with the answer bit set and one address record, the router's own, behind it.
\<close>

theorem captive_dns_sound:
  assumes "length buf = 512" "len \<le> 512"
  shows "dns_serve up upstream answer ap_ip buf len =
    Some (if up then (case upstream of
            Some a \<Rightarrow> if len \<ge> 12 \<and> a \<noteq> 0
              then ToUpstream a (take len buf) # (case answer of Some (r # rs) \<Rightarrow> [ToClient (take 512 (r # rs))] | _ \<Rightarrow> [])
              else []
          | None \<Rightarrow> [])
        else if 12 \<le> len \<and> len \<le> 496 \<and> buf ! 2 AND 0x80 = 0 \<and> buf ! 4 = 0 \<and> buf ! 5 = 1
        then [ToClient (take 2 buf @ [0x81, 0x80] @ take 2 (drop 4 buf) @ [0x00, 0x01] @ take (len - 8) (drop 8 buf) @
               [0xC0, 0x0C, 0x00, 0x01, 0x00, 0x01, 0x00, 0x00, 0x00, 0x3C, 0x00, 0x04] @ le32_bytes ap_ip)]
        else [])"
proof (cases "up \<or> \<not> (12 \<le> len \<and> len \<le> 496 \<and> buf ! 2 AND 0x80 = 0 \<and> buf ! 4 = 0 \<and> buf ! 5 = 1)")
  case True
  then show ?thesis
    using assms by (auto simp: dns_serve_def rd8_ok rd_bytes_def DNS_ANSWER_LEN_def split: option.splits list.splits)
next
  case False
  define a b c d where "a = take 2 buf" and "b = take 2 (drop 4 buf)" and "c = take (len - 8) (drop 8 buf)" and "d = drop len buf"
  define e where "e = take 2 (drop 2 buf)"
  define f where "f = take 2 (drop 6 buf)"
  have l: "length a = 2" "length b = 2" "length e = 2" "length f = 2" "length c = len - 8" "length d = 512 - len"
    using assms False by (auto simp: a_def b_def c_def d_def e_def f_def min_def)
  have buf: "buf = a @ e @ b @ f @ c @ d"
  proof -
    have "buf = take 2 buf @ take 2 (drop 2 buf) @ take 2 (drop 4 buf) @ take 2 (drop 6 buf) @ drop 8 buf"
    proof -
      have "drop 4 buf = drop 2 (drop 2 buf)" "drop 6 buf = drop 2 (drop 4 buf)" "drop 8 buf = drop 2 (drop 6 buf)" by simp_all
      then show ?thesis by (metis append_take_drop_id)
    qed
    moreover have "drop len buf = drop (len - 8) (drop 8 buf)" using False by simp
    then have "drop 8 buf = c @ d" by (simp only: c_def d_def append_take_drop_id)
    ultimately show ?thesis by (simp add: a_def b_def e_def f_def)
  qed
  define ans where "ans = [0xC0, 0x0C, 0x00, 0x01, 0x00, 0x01, 0x00, 0x00, 0x00, 0x3C, 0x00, 0x04] @ le32_bytes ap_ip"
  define x where "x = a @ [0x81, 0x80] @ b @ [0x00, 0x01] @ c"
  have "length x = len - 8 + 8" using l by (simp add: x_def)
  then have m: "length ans = 16" "length x = len" using False by (simp_all add: ans_def)
  have r: "rd8 buf 2 = Some (buf ! 2)" "rd8 buf 4 = Some (buf ! 4)" "rd8 buf 5 = Some (buf ! 5)"
    using assms(1) by (simp_all add: rd8_ok)
  have w1: "wr_bytes buf 2 [0x81, 0x80] = Some (a @ [0x81, 0x80] @ b @ f @ c @ d)"
    using l False unfolding buf by (simp add: wr_bytes_def)
  have w2: "wr_bytes (a @ [0x81, 0x80] @ b @ f @ c @ d) 6 [0x00, 0x01] = Some (x @ d)"
    using l False by (simp add: wr_bytes_def x_def)
  have w3: "wr_bytes (x @ d) len ans = Some (x @ ans @ drop 16 d)"
    using l m False by (simp add: wr_bytes_def)
  have rd: "rd_bytes (x @ ans @ drop 16 d) 0 (len + 16) = Some (x @ ans)"
    using m by (simp add: rd_bytes_def)
  have "dns_serve up upstream answer ap_ip buf len = Some [ToClient (x @ ans)]"
    using False unfolding dns_serve_def r bind.bind_lunit w1 w2 ans_def [symmetric] w3 rd
    by (simp add: DNS_ANSWER_LEN_def)
  then show ?thesis using False by (simp add: x_def ans_def a_def b_def c_def)
qed

definition dns_question :: bytes where
  "dns_question = [0x12, 0x34, 0x01, 0x00, 0x00, 0x01, 0, 0, 0, 0, 0, 0, 1, 0x61, 0, 0, 1, 0, 1]"

theorem captive_dns_sound_witness:
  "dns_serve False None None 0x0104A8C0 (dns_question @ replicate 493 0) 19 =
    Some [ToClient ([0x12, 0x34, 0x81, 0x80, 0x00, 0x01, 0x00, 0x01] @ take 11 (drop 8 dns_question) @
      [0xC0, 0x0C, 0x00, 0x01, 0x00, 0x01, 0x00, 0x00, 0x00, 0x3C, 0x00, 0x04, 192, 168, 4, 1])]"
proof -
  have "le32_bytes 0x0104A8C0 = [192, 168, 4, 1]" by code_simp
  with captive_dns_sound [of "dns_question @ replicate 493 0" 19 False None None "0x0104A8C0"]
  show ?thesis by (simp add: dns_question_def)
qed


section \<open>Who may connect\<close>

text \<open>
  Unless access from the uplink was switched on, a connection is accepted only from an address
  in the same /24 network as the access point; an address that cannot be found out is refused.
\<close>

theorem web_gate:
  assumes "\<forall>a. peer = Some (Peer6 a) \<longrightarrow> length a = 16"
  shows "http_open_fn wan_access peer ap_ip =
    Some (wan_access \<noteq> 0 \<or>
      (\<exists>ip. (peer = Some (Peer4 ip) \<or> (\<exists>p. length p = 12 \<and> peer = Some (Peer6 (p @ le32_bytes ip)))) \<and>
        ip AND 0x00FFFFFF = ap_ip AND 0x00FFFFFF))"
proof (cases peer)
  case None
  then show ?thesis by (simp add: http_open_fn_def)
next
  case (Some q)
  show ?thesis
  proof (cases q)
    case (Peer4 ip)
    with Some show ?thesis by (auto simp: http_open_fn_def)
  next
    case (Peer6 a)
    then have l: "length a = 16" using assms Some by simp
    let ?ip = "le32 (a ! 12) (a ! 13) (a ! 14) (a ! 15)"
    have rd: "rd32 a 12 = Some ?ip" using l by (simp add: rd32_ok)
    have "a = take 12 a @ drop 12 a" by simp
    also have "drop 12 a = [a ! 12, a ! 13, a ! 14, a ! 15]"
      using l by (intro nth_equalityI) (auto simp: less_Suc_eq numeral_eq_Suc)
    finally have a: "a = take 12 a @ le32_bytes ?ip" by (simp add: le32_bytes_def)
    have u: "ip = ?ip" if "a = p @ le32_bytes ip" "length p = 12" for p ip
    proof -
      have "a ! 12 = byte_of 0 ip" "a ! 13 = byte_of 1 ip" "a ! 14 = byte_of 2 ip" "a ! 15 = byte_of 3 ip"
        using that by (simp_all add: le32_bytes_def nth_append)
      then show ?thesis by simp
    qed
    have "(\<exists>ip. (\<exists>p. length p = 12 \<and> a = p @ le32_bytes ip) \<and> ip AND 0x00FFFFFF = ap_ip AND 0x00FFFFFF) \<longleftrightarrow>
        ?ip AND 0x00FFFFFF = ap_ip AND 0x00FFFFFF" (is "?L \<longleftrightarrow> ?R")
    proof
      assume ?L
      then obtain ip p where "length p = 12" "a = p @ le32_bytes ip" "ip AND 0x00FFFFFF = ap_ip AND 0x00FFFFFF" by blast
      with u [of p ip] show ?R by simp
    next
      assume ?R
      moreover have "length (take 12 a) = 12" using l by simp
      ultimately show ?L using a by blast
    qed
    with Some Peer6 rd show ?thesis by (auto simp: http_open_fn_def)
  qed
qed

theorem web_gate_witness:
  "http_open_fn 0 (Some (Peer6 (replicate 10 0 @ [0xFF, 0xFF, 192, 168, 4, 7]))) 0x0104A8C0 = Some True \<and>
   http_open_fn 0 (Some (Peer4 0x08080808)) 0x0104A8C0 = Some False"
proof -
  have e: "le32_bytes 0x0704A8C0 = [192, 168, 4, 7]" by code_simp
  have "length (replicate 10 (0 :: u8) @ [0xFF, 0xFF]) = 12" by simp
  with e have "\<exists>p. length p = 12 \<and> Peer6 (replicate 10 0 @ [0xFF, 0xFF, 192, 168, 4, 7]) = Peer6 (p @ le32_bytes 0x0704A8C0)"
    by (intro exI [of _ "replicate 10 0 @ [0xFF, 0xFF]"]) simp
  then show ?thesis
    using web_gate [of "Some (Peer6 (replicate 10 0 @ [0xFF, 0xFF, 192, 168, 4, 7]))" 0 "0x0104A8C0"]
      web_gate [of "Some (Peer4 0x08080808)" 0 "0x0104A8C0"]
    by (auto intro: exI [of _ "0x0704A8C0"])
qed

end
