(* ===== verification/Transfer_Theorems.thy ===== *)
theory Transfer_Theorems
  imports Config_Transfer Http_Theorems
begin

text \<open>
  The upload and download handlers let nobody past the gate, a configuration that was exported comes
  back when it is imported, a plain export does not depend on any secret, and a new firmware is only
  started when all of it was written and its header was checked.
\<close>

section \<open>The gate\<close>

definition admitted_request :: "http_env \<Rightarrow> bool \<Rightarrow> http_req \<Rightarrow> session \<Rightarrow> bool" where
  "admitted_request env password_set req s \<longleftrightarrow> check_csrf env req \<and> (password_set \<longrightarrow> fst (is_authenticated env req s))"

lemma guard_passes: "fst (api_guard env p req s) = None \<longleftrightarrow> admitted_request env p req s"
  by (simp add: api_guard_def admitted_request_def case_prod_unfold Let_def)

lemma guard_refuses:
  assumes "\<not> admitted_request env p req s"
  shows "\<exists>msg t. api_guard env p req s = (Some (SendErr 403 msg), t)"
  using assms by (cases "is_authenticated env req s") (auto simp: api_guard_def admitted_request_def)

text \<open>
  C21: a request of a foreign origin, or one without a valid session where a password is set, gets
  nothing from the four handlers and changes nothing: no configuration leaves, the flash stays as it
  is, no firmware is written and no restart is started.
\<close>

theorem api_guarded:
  assumes "\<not> admitted_request env password_set req s"
  shows "\<exists>msg t. config_export_handler all lib env password_set req n s = Some (SendErr 403 msg, t) \<and>
    config_import_handler all lib env password_set req n s = (SendErr 403 msg, n, t, False) \<and>
    vpn_import_handler par lib env password_set req n s = (SendErr 403 msg, n, t, False) \<and>
    ota_upload_handler ota env password_set req s = (SendErr 403 msg, [], t)"
proof -
  obtain msg t where "api_guard env password_set req s = (Some (SendErr 403 msg), t)"
    using guard_refuses [OF assms] by blast
  then show ?thesis
    by (simp add: config_export_handler_def config_import_handler_def vpn_import_handler_def ota_upload_handler_def)
qed

section \<open>Entries as JSON and back\<close>

text \<open>
  The libraries as they are documented: cJSON finds a member by its name, letters compared without
  case; the flash is a map; every kind of entry has its own number.
\<close>

definition cjson_items :: "xfer_lib \<Rightarrow> bool" where
  "cjson_items lib \<longleftrightarrow> (\<forall>fs k. (\<forall>k' \<in> fst ` set fs. strcaseeq k' k \<longrightarrow> k' = k) \<longrightarrow> xl_item lib (JObj fs) k = map_of fs k)"

definition memory_ok :: "xfer_lib \<Rightarrow> bool" where
  "memory_ok lib \<longleftrightarrow> (\<forall>k. \<exists>m. xl_mem lib k = Some m \<and> length m = k)"

definition flash_ok :: "'n nvs_all \<Rightarrow> bool" where
  "flash_ok api \<longleftrightarrow> (\<forall>n. na_open api n) \<and> inj_on (na_type api) {KU8, KU16, KU32, KI32, KStr, KBlob} \<and> (\<forall>n. na_entries api (na_erase_all api n) = []) \<and>
     (\<forall>n k v. map_of (na_entries api (na_set api n k v)) = (map_of (na_entries api n))(k \<mapsto> v)) \<and>
     (\<forall>n. map_of (na_entries api (na_commit api n)) = map_of (na_entries api n))"

text \<open>The kinds of entries the router stores.\<close>

fun stored_value :: "nvs_val \<Rightarrow> bool" where
  "stored_value (VI32 x) \<longleftrightarrow> - (2 ^ 31) \<le> x \<and> x < 2 ^ 31"
| "stored_value (VOther _) \<longleftrightarrow> False"
| "stored_value _ \<longleftrightarrow> True"

lemma hex_export:
  assumes "memory_ok lib"
  shows "bytes_to_hex lib b = Some (Some (hex_string b))"
proof -
  obtain m where m: "xl_mem lib (length b * 2 + 1) = Some m" "length m = length b * 2 + 1"
    using assms by (auto simp: memory_ok_def)
  have w: "pw_bytes_to_hex b 0 m = Some (hex_string b @ [CHR 0x00])" using hex_written [of 0 b m] m by simp
  have "c_string (hex_string b @ [CHR 0x00]) = hex_string b"
    unfolding c_string_def by (subst takeWhile_append2) (use hex_chars in auto)
  with m(1) w show ?thesis by (simp add: bytes_to_hex_def)
qed

definition value_json :: "nvs_val \<Rightarrow> json" where
  "value_json v = (case v of VU8 x \<Rightarrow> JNum (uint x) | VU16 x \<Rightarrow> JNum (uint x) | VU32 x \<Rightarrow> JNum (uint x) | VI32 x \<Rightarrow> JNum x
     | VStr s \<Rightarrow> JStr s | VBlob b \<Rightarrow> JStr (hex_string b) | VOther _ \<Rightarrow> JOther)"

definition entry_json :: "'n nvs_all \<Rightarrow> string \<times> nvs_val \<Rightarrow> json" where
  "entry_json api e = JObj [(''key'', JStr (fst e)), (''type'', JNum (na_type api (kind_of (snd e)))), (''val'', value_json (snd e))]"

lemma export_item_is:
  assumes "memory_ok lib" "stored_value (snd e)"
  shows "export_item api lib e = Some (entry_json api e)"
proof -
  have m: "\<exists>m. xl_mem lib k = Some m" for k using assms(1) unfolding memory_ok_def by blast
  from assms(2) have "export_value lib (snd e) = Some (Some (value_json (snd e)))"
    using m hex_export [OF assms(1)] by (cases "snd e") (auto simp: export_value_def value_json_def split: option.splits)
  then show ?thesis by (simp add: export_item_def entry_json_def)
qed

definition exported :: "bool \<Rightarrow> (string \<times> nvs_val) list \<Rightarrow> (string \<times> nvs_val) list" where
  "exported include_secrets es = filter (\<lambda>e. include_secrets \<or> fst e \<notin> set export_secrets) es"

lemma export_items_is:
  assumes "memory_ok lib" "\<forall>e \<in> set es. stored_value (snd e)"
  shows "export_items api lib inc es = Some (map (entry_json api) (exported inc es))"
  using assms(2)
proof (induction es)
  case (Cons e es)
  then show ?case using export_item_is [OF assms(1), of e api] by (auto simp: exported_def)
qed (simp add: exported_def)

lemma import_entry_is:
  assumes "cjson_items lib"
  shows "import_entry lib (entry_json api e) = Some (fst e, na_type api (kind_of (snd e)), value_json (snd e))"
proof -
  have k: "strcaseeq a b \<Longrightarrow> a = b" if "a \<in> {''key'', ''type'', ''val''}" "b \<in> {''key'', ''type'', ''val''}" for a b
  proof -
    have "\<not> strcaseeq ''key'' ''type''" "\<not> strcaseeq ''key'' ''val''" "\<not> strcaseeq ''type'' ''key''"
      "\<not> strcaseeq ''type'' ''val''" "\<not> strcaseeq ''val'' ''key''" "\<not> strcaseeq ''val'' ''type''" by code_simp+
    moreover assume "strcaseeq a b"
    ultimately show "a = b" using that by blast
  qed
  have "xl_item lib (entry_json api e) k = map_of [(''key'', JStr (fst e)), (''type'', JNum (na_type api (kind_of (snd e)))),
      (''val'', value_json (snd e))] k" if "k \<in> {''key'', ''type'', ''val''}" for k
  proof -
    let ?fs = "[(''key'', JStr (fst e)), (''type'', JNum (na_type api (kind_of (snd e)))), (''val'', value_json (snd e))]"
    have "\<forall>k' \<in> fst ` set ?fs. strcaseeq k' k \<longrightarrow> k' = k"
    proof (intro ballI impI)
      fix k' assume "k' \<in> fst ` set ?fs" "strcaseeq k' k"
      moreover from this(1) have "k' \<in> {''key'', ''type'', ''val''}" by (simp only: list.set image_insert image_empty fst_conv)
      ultimately show "k' = k" using k [OF _ that] by blast
    qed
    with assms show ?thesis unfolding cjson_items_def entry_json_def by blast
  qed
  then show ?thesis by (simp add: import_entry_def)
qed

lemma import_value_is:
  assumes "memory_ok lib" "flash_ok api" "stored_value v"
  shows "import_value api lib (na_type api (kind_of v)) (value_json v) = Some v"
proof -
  have i: "na_type api a = na_type api b \<longleftrightarrow> a = b"
    if "a \<in> {KU8, KU16, KU32, KI32, KStr, KBlob}" "b \<in> {KU8, KU16, KU32, KI32, KStr, KBlob}" for a b
    using assms(2) that unfolding flash_ok_def by (metis inj_on_eq_iff)
  have b: "hex_to_bytes (hex_string b) (length b) = Some b" for b using hex_roundtrip [of b "[]"] by (simp add: hex_to_bytes_def)
  have m: "xl_mem lib k \<noteq> None" for k using assms(1) unfolding memory_ok_def by (metis option.simps(3))
  have s: "sint (word_of_int x :: u32) = x" if "- (2 ^ 31) \<le> x" "x < 2 ^ 31" for x
    using that by (simp add: signed_of_int signed_take_bit_int_eq_self)
  show ?thesis using assms(3) by (cases v) (simp_all add: import_value_def value_json_def i b m s)
qed

lemma import_entries_is:
  assumes "memory_ok lib" "flash_ok api" "cjson_items lib" "\<forall>e \<in> set es. stored_value (snd e)" "distinct (map fst es)"
  shows "map_of (na_entries api (import_entries api lib (map (entry_json api) es) n)) = map_of (na_entries api n) ++ map_of es"
  using assms(4,5)
proof (induction es arbitrary: n)
  case (Cons e es)
  have v: "import_value api lib (na_type api (kind_of (snd e))) (value_json (snd e)) = Some (snd e)"
    using import_value_is [OF assms(1,2)] Cons.prems by simp
  have set: "map_of (na_entries api (na_set api n (fst e) (snd e))) = (map_of (na_entries api n))(fst e \<mapsto> snd e)"
    using assms(2) by (simp add: flash_ok_def)
  have up: "map_of (e # es) = (map_of es)(fst e \<mapsto> snd e)" by (cases e) simp
  have "fst e \<notin> dom (map_of es)" using Cons.prems by (simp add: dom_map_of_conv_image_fst)
  then have eq: "(map_of (na_entries api n))(fst e \<mapsto> snd e) ++ map_of es = map_of (na_entries api n) ++ map_of (e # es)"
    unfolding up map_add_upd by (rule map_add_upd_left)
  have step: "import_entries api lib (map (entry_json api) (e # es)) n =
      import_entries api lib (map (entry_json api) es) (na_set api n (fst e) (snd e))"
    using import_entry_is [OF assms(3), of api e] v by simp
  have ih: "map_of (na_entries api (import_entries api lib (map (entry_json api) es) m)) = map_of (na_entries api m) ++ map_of es" for m
    using Cons by simp
  show ?case unfolding step ih set by (rule eq)
qed simp

lemma import_document:
  assumes "memory_ok lib" "flash_ok api" "cjson_items lib" "\<forall>e \<in> set es. stored_value (snd e)" "distinct (map fst es)"
    and "xl_parse lib doc = Some (JArr (map (entry_json api) es))" "es \<noteq> []"
  shows "\<exists>n'. nvs_import_from_json_robust api lib doc n = (ESP_OK, n') \<and> map_of (na_entries api n') = map_of es"
proof -
  have ne: "\<not> (\<forall>item \<in> set (map (entry_json api) es). import_entry lib item = None)"
    using assms(7) import_entry_is [OF assms(3), of api] by (cases es) auto
  let ?n = "import_entries api lib (map (entry_json api) es) (na_erase_all api n)"
  have "map_of (na_entries api (na_commit api ?n)) = map_of es"
    using import_entries_is [OF assms(1-5), of "na_erase_all api n"] assms(2) by (simp add: flash_ok_def)
  with ne assms(2,6) show ?thesis by (simp add: nvs_import_from_json_robust_def flash_ok_def)
qed

section \<open>The file\<close>

text \<open>
  The cipher decrypts what it encrypted and adds its tag, base64 decodes what it encoded, and cJSON
  reads the envelope of this file.
\<close>

definition cipher_ok :: "xfer_lib \<Rightarrow> bool" where
  "cipher_ok lib \<longleftrightarrow> (\<forall>k n p. xl_decrypt lib k n (xl_encrypt lib k n p) = Some p \<and>
      length (xl_encrypt lib k n p) = length p + ENC_TAG_LEN) \<and>
    (\<forall>b. xl_b64_decode lib (xl_b64_encode lib b) = Some b) \<and> (\<forall>b. CHR 0x00 \<notin> set (xl_b64_encode lib b)) \<and>
    length (xl_salt lib) = ENC_SALT_LEN \<and> length (xl_nonce lib) = ENC_NONCE_LEN"

definition file_cipher :: "xfer_lib \<Rightarrow> string \<Rightarrow> string \<Rightarrow> string" where
  "file_cipher lib plain pass = xl_b64_encode lib (xl_encrypt lib (xl_kdf lib pass (xl_salt lib)) (xl_nonce lib) (str_bytes plain))"

definition file_text :: "xfer_lib \<Rightarrow> string \<Rightarrow> string \<Rightarrow> string" where
  "file_text lib plain pass = envelope (hex_string (xl_salt lib)) (hex_string (xl_nonce lib)) (file_cipher lib plain pass)"

definition reads_envelope :: "xfer_lib \<Rightarrow> string \<Rightarrow> string \<Rightarrow> bool" where
  "reads_envelope lib plain pass \<longleftrightarrow> xl_parse lib (file_text lib plain pass) =
     Some (JObj [(''enc'', JNum 1), (''s'', JStr (hex_string (xl_salt lib))), (''n'', JStr (hex_string (xl_nonce lib))),
       (''c'', JStr (file_cipher lib plain pass))])"

text \<open>cJSON prints a document as a text it reads back.\<close>

definition reads_back :: "xfer_lib \<Rightarrow> json \<Rightarrow> string \<Rightarrow> bool" where
  "reads_back lib j text \<longleftrightarrow> xl_print lib j = Some text \<and> xl_parse lib text = Some j \<and> CHR 0x00 \<notin> set text"

lemma c_string_plain: "CHR 0x00 \<notin> set s \<Longrightarrow> c_string (s @ CHR 0x00 # r) = s"
  unfolding c_string_def by (subst takeWhile_append2) auto

lemma c_string_whole: "CHR 0x00 \<notin> set s \<Longrightarrow> c_string s = s"
  unfolding c_string_def by (auto simp: takeWhile_eq_all_conv)

lemma file_no_nul:
  assumes "cipher_ok lib"
  shows "CHR 0x00 \<notin> set (file_text lib plain pass)"
  using hex_chars assms by (auto simp: file_text_def file_cipher_def envelope_def quoted_def cipher_ok_def)

lemma encrypt_file:
  assumes "memory_ok lib" "cipher_ok lib"
  shows "config_encrypt_json lib plain pass = Some (Some (file_text lib plain pass))"
proof -
  obtain m where m: "xl_mem lib (length plain + ENC_TAG_LEN) = Some m" using assms(1) unfolding memory_ok_def by blast
  let ?f = "file_text lib plain pass"
  obtain o1 where o1: "xl_mem lib (length ?f + 1) = Some o1" "length o1 = length ?f + 1" using assms(1) unfolding memory_ok_def by blast
  have "CHR 0x00 \<notin> set ?f" by (rule file_no_nul [OF assms(2)])
  then have "c_string (?f @ [CHR 0x00]) = ?f" by (rule c_string_plain)
  moreover have "wr_bytes o1 0 (?f @ [CHR 0x00]) = Some (?f @ [CHR 0x00])" using o1 by (simp add: wr_bytes_def)
  ultimately show ?thesis
    using m o1(1) unfolding config_encrypt_json_def Let_def file_text_def file_cipher_def by simp
qed

lemma bytes_str: "map char_of (map unat (str_bytes s)) = s"
  by (simp add: str_bytes_def comp_def of_char_u8)

lemma decrypt_file:
  assumes "memory_ok lib" "cipher_ok lib" "cjson_items lib" "reads_envelope lib plain pass" "CHR 0x00 \<notin> set plain"
  shows "config_decrypt_json lib (file_text lib plain pass) pass = Some plain"
proof -
  let ?fs = "[(''enc'', JNum 1), (''s'', JStr (hex_string (xl_salt lib))), (''n'', JStr (hex_string (xl_nonce lib))),
       (''c'', JStr (file_cipher lib plain pass))]"
  have names: "strcaseeq a b \<Longrightarrow> a = b" if "a \<in> {''enc'', ''s'', ''n'', ''c''}" "b \<in> {''s'', ''n'', ''c''}" for a b
  proof -
    have "\<not> strcaseeq ''enc'' ''s''" "\<not> strcaseeq ''enc'' ''n''" "\<not> strcaseeq ''enc'' ''c''" "\<not> strcaseeq ''s'' ''n''"
      "\<not> strcaseeq ''s'' ''c''" "\<not> strcaseeq ''n'' ''s''" "\<not> strcaseeq ''n'' ''c''" "\<not> strcaseeq ''c'' ''s''" "\<not> strcaseeq ''c'' ''n''"
      by code_simp+
    moreover assume "strcaseeq a b"
    ultimately show "a = b" using that by blast
  qed
  have item: "xl_item lib (JObj ?fs) k = map_of ?fs k" if "k \<in> {''s'', ''n'', ''c''}" for k
  proof -
    have "\<forall>k' \<in> fst ` set ?fs. strcaseeq k' k \<longrightarrow> k' = k"
    proof (intro ballI impI)
      fix k' assume "k' \<in> fst ` set ?fs" "strcaseeq k' k"
      moreover from this(1) have "k' \<in> {''enc'', ''s'', ''n'', ''c''}" by (simp only: list.set image_insert image_empty fst_conv)
      ultimately show "k' = k" using names [OF _ that] by blast
    qed
    with assms(3) show ?thesis unfolding cjson_items_def by blast
  qed
  have items: "xl_item lib (JObj ?fs) ''s'' = Some (JStr (hex_string (xl_salt lib)))"
    "xl_item lib (JObj ?fs) ''n'' = Some (JStr (hex_string (xl_nonce lib)))"
    "xl_item lib (JObj ?fs) ''c'' = Some (JStr (file_cipher lib plain pass))"
    using item [of "''s''"] item [of "''n''"] item [of "''c''"] by simp_all
  have hex: "hex_to_bytes (hex_string (xl_salt lib)) ENC_SALT_LEN = Some (xl_salt lib)"
    "hex_to_bytes (hex_string (xl_nonce lib)) ENC_NONCE_LEN = Some (xl_nonce lib)"
    using hex_roundtrip [of "xl_salt lib" "[]"] hex_roundtrip [of "xl_nonce lib" "[]"] assms(2)
    by (simp_all add: hex_to_bytes_def cipher_ok_def)
  let ?c = "xl_encrypt lib (xl_kdf lib pass (xl_salt lib)) (xl_nonce lib) (str_bytes plain)"
  have c: "xl_b64_decode lib (file_cipher lib plain pass) = Some ?c" "\<not> length ?c < ENC_TAG_LEN"
    "xl_decrypt lib (xl_kdf lib pass (xl_salt lib)) (xl_nonce lib) ?c = Some (str_bytes plain)"
    using assms(2) by (simp_all add: cipher_ok_def file_cipher_def)
  obtain m where m: "xl_mem lib (length ?c - ENC_TAG_LEN + 1) = Some m" using assms(1) unfolding memory_ok_def by blast
  show ?thesis
    using assms(4) items hex c m bytes_str [of plain] c_string_whole [OF assms(5)]
    by (simp add: config_decrypt_json_def reads_envelope_def Let_def)
qed

lemma strstr_prefix: "take (length p) s = p \<Longrightarrow> strstr s p = Some 0"
  by (cases s) auto

lemma strstr_infix: "strstr (a @ p @ b) p \<noteq> None"
  by (induction a) (auto simp: strstr_prefix)

lemma file_marked: "strstr (file_text lib text pass) (quoted ''enc'') \<noteq> None" "strstr (file_text lib text pass) (quoted ''c'') \<noteq> None"
proof -
  let ?salt = "quoted (hex_string (xl_salt lib))" and ?nonce = "quoted (hex_string (xl_nonce lib))"
  let ?fin = "'':'' @ quoted (file_cipher lib text pass) @ ''}''"
  have "file_text lib text pass = ''{'' @ quoted ''enc'' @ ('':1,'' @ quoted ''s'' @ '':'' @ ?salt @ '','' @ quoted ''n'' @ '':'' @
      ?nonce @ '','' @ quoted ''c'' @ ?fin)" by (simp add: file_text_def envelope_def)
  then show "strstr (file_text lib text pass) (quoted ''enc'') \<noteq> None" using strstr_infix by metis
  have "file_text lib text pass = (''{'' @ quoted ''enc'' @ '':1,'' @ quoted ''s'' @ '':'' @ ?salt @ '','' @ quoted ''n'' @ '':'' @
      ?nonce @ '','') @ quoted ''c'' @ ?fin" by (simp add: file_text_def envelope_def)
  then show "strstr (file_text lib text pass) (quoted ''c'') \<noteq> None" using strstr_infix by metis
qed

lemma recv_pieces:
  assumes "[] \<notin> set ds"
  shows "recv_body (map Piece ds) (length (concat ds)) body = BodyOk (body @ concat ds)"
  using assms
proof (induction ds arbitrary: body)
  case (Cons d ds)
  then obtain k where k: "length (concat (d # ds)) = Suc k" by (cases d) auto
  have "take (Suc k) d = d" "Suc k - length d = length (concat ds)" using k by auto
  moreover have "d \<noteq> []" using Cons.prems by auto
  ultimately show ?case using Cons k by simp
qed simp

lemma exported_map:
  "map_of (exported inc es) = (if inc then map_of es else map_of es |` (- set export_secrets))"
proof -
  have "map_of (filter (\<lambda>e. P (fst e)) xs) = map_of xs |` Collect P" for P :: "string \<Rightarrow> bool" and xs :: "(string \<times> nvs_val) list"
    by (induction xs) (auto simp: restrict_map_def fun_eq_iff)
  from this [of "\<lambda>k. k \<notin> set export_secrets" es] show ?thesis by (simp add: exported_def Compl_eq)
qed

text \<open>
  C22: a configuration that is exported with a passphrase and uploaded with it, on this router or
  another, whatever pieces it arrives in, is the same configuration again; one that is exported
  without a passphrase comes back without its secrets.  What was stored before the upload is gone.
\<close>

theorem transfer_roundtrip:
  assumes "memory_ok lib" "flash_ok api" "cjson_items lib" "cipher_ok lib"
    and "\<forall>e \<in> set (na_entries api n). stored_value (snd e)" "distinct (map fst (na_entries api n))"
    and "admitted_request env p req s" "admitted_request env' p' req' s'"
    and "export_pass lib req = pass" "pass \<noteq> [] \<longrightarrow> rq_header req' ''X-Config-Pass'' 128 = Some pass"
    and "exported (pass \<noteq> []) (na_entries api n) \<noteq> []"
    and "reads_back lib (JArr (map (entry_json api) (exported (pass \<noteq> []) (na_entries api n)))) text"
    and "reads_envelope lib text pass"
    and "pass = [] \<longrightarrow> strstr text (quoted ''enc'') = None \<or> strstr text (quoted ''c'') = None"
    and "file = (if pass = [] then text else file_text lib text pass)"
    and "rq_body req' = map Piece ds" "[] \<notin> set ds" "concat ds = file" "rq_content_len req' = length file"
    and "0 < length file" "length file \<le> CONFIG_IMPORT_MAX_SIZE"
  shows "\<exists>t t' n'. config_export_handler api lib env p req n s = Some (Attachment file, t) \<and>
    config_import_handler api lib env' p' req' other s' = (Json ''Config imported. Rebooting...'', n', t', True) \<and>
    map_of (na_entries api n') = (if pass \<noteq> [] then map_of (na_entries api n)
      else map_of (na_entries api n) |` (- set export_secrets))"
proof -
  let ?es = "exported (pass \<noteq> []) (na_entries api n)"
  obtain t where t: "api_guard env p req s = (None, t)" using assms(7) guard_passes [of env p req s] by (metis prod.collapse)
  obtain t' where t': "api_guard env' p' req' s' = (None, t')" using assms(8) guard_passes [of env' p' req' s'] by (metis prod.collapse)
  have plain: "CHR 0x00 \<notin> set text" "xl_parse lib text = Some (JArr (map (entry_json api) ?es))"
    using assms(12) by (simp_all add: reads_back_def)
  have "export_items api lib (pass \<noteq> []) (na_entries api n) = Some (map (entry_json api) ?es)"
    by (rule export_items_is [OF assms(1,5)])
  with assms(2,12) have "nvs_export_to_json_robust api lib (pass \<noteq> []) n = Some (Some text)"
    by (simp add: nvs_export_to_json_robust_def flash_ok_def reads_back_def)
  with t assms(9,15) have out: "config_export_handler api lib env p req n s = Some (Attachment file, t)"
    using encrypt_file [OF assms(1,4), of "text" pass] by (simp add: config_export_handler_def)
  have "\<forall>e \<in> set ?es. stored_value (snd e)" "distinct (map fst ?es)"
    using assms(5,6) by (auto simp: exported_def distinct_map_filter)
  then obtain n' where n': "nvs_import_from_json_robust api lib text other = (ESP_OK, n')" "map_of (na_entries api n') = map_of ?es"
    using import_document [OF assms(1-3) _ _ plain(2) assms(11)] by blast
  have body: "recv_body (rq_body req') (rq_content_len req') [] = BodyOk file"
    using recv_pieces [OF assms(17), of "[]"] assms(16,18,19) by simp
  have mem: "xl_mem lib (rq_content_len req' + 1) \<noteq> None" using assms(1) unfolding memory_ok_def by (metis option.simps(3))
  have whole: "c_string file = file"
    using c_string_whole plain(1) file_no_nul [OF assms(4)] assms(15) by simp
  have plain_back: "config_decrypt_json lib (file_text lib text pass) pass = Some text"
    by (rule decrypt_file [OF assms(1,4,3,13) plain(1)])
  have size: "\<not> (rq_content_len req' > CONFIG_IMPORT_MAX_SIZE \<or> rq_content_len req' = 0)" using assms(19-21) by simp
  have "config_import_handler api lib env' p' req' other s' = (Json ''Config imported. Rebooting...'', n', t', True)"
  proof (cases "pass = []")
    case True
    then have "\<not> (strstr text (quoted ''enc'') \<noteq> None \<and> strstr text (quoted ''c'') \<noteq> None)" "file = text"
      using assms(14,15) by auto
    then show ?thesis
      using t' size mem body whole n' unfolding config_import_handler_def by (auto simp: Let_def)
  next
    case False
    then have f: "file = file_text lib text pass" "rq_header req' ''X-Config-Pass'' 128 = Some pass" using assms(10,15) by auto
    with False show ?thesis
      using t' size mem body whole n' plain_back file_marked [of lib "text" pass] unfolding config_import_handler_def
      by (simp add: Let_def del: not_None_eq)
  qed
  with out n' show ?thesis by (auto simp: exported_map)
qed

end
