(* ===== verification/Update_Theorems.thy ===== *)
theory Update_Theorems
  imports Transfer_Theorems "HOL-Library.Sublist"
begin

text \<open>
  What leaves the router in a plain export, and what becomes of an uploaded firmware; the libraries of
  the transfer theorems on a concrete flash and a concrete cipher.
\<close>

section \<open>A concrete flash and concrete libraries\<close>

fun kind_number :: "nvs_kind \<Rightarrow> int" where
  "kind_number KU8 = 0x01"
| "kind_number KU16 = 0x02"
| "kind_number KU32 = 0x04"
| "kind_number KI32 = 0x14"
| "kind_number KStr = 0x21"
| "kind_number KBlob = 0x42"
| "kind_number (KOther t) = t"

definition list_flash :: "(string \<times> nvs_val) list nvs_all" where
  "list_flash = \<lparr>na_open = \<lambda>_. True, na_type = kind_number, na_entries = \<lambda>n. n, na_erase_all = \<lambda>_. [],
     na_set = \<lambda>n k v. (k, v) # n, na_commit = \<lambda>n. n\<rparr>"

lemma list_flash_ok: "flash_ok list_flash"
  by (simp add: flash_ok_def list_flash_def inj_on_def)

definition tag_lib :: xfer_lib where
  "tag_lib = \<lparr>xl_parse = \<lambda>_. None, xl_print = \<lambda>_. None, xl_item = (\<lambda>j k. case j of JObj fs \<Rightarrow> map_of fs k | _ \<Rightarrow> None),
     xl_kdf = \<lambda>p s. str_bytes p @ s, xl_encrypt = \<lambda>k n p. p @ replicate 16 0, xl_decrypt = \<lambda>k n c. Some (take (length c - 16) c),
     xl_b64_encode = \<lambda>b. concat (map print_02x b), xl_b64_decode = \<lambda>s. pw_hex_to_bytes s (length s div 2),
     xl_mem = \<lambda>k. Some (replicate k (CHR ''x'')), xl_salt = replicate 16 7, xl_nonce = replicate 24 9\<rparr>"

definition saved :: "(string \<times> nvs_val) list" where
  "saved = [(''hostname'', VStr ''home''), (''passwd'', VStr ''secret''), (''wan_access'', VI32 1)]"

definition saved_json :: json where
  "saved_json = JArr (map (entry_json list_flash) saved)"

text \<open>Here the printed form is a text of its own, and the two texts of the example are the ones it reads.\<close>

definition sample_lib :: xfer_lib where
  "sample_lib = tag_lib\<lparr>xl_print := \<lambda>_. Some ''[saved]'', xl_parse := (\<lambda>t.
     if t = ''[saved]'' then Some saved_json
     else if t = file_text tag_lib ''[saved]'' ''pw'' then
       Some (JObj [(''enc'', JNum 1), (''s'', JStr (hex_string (xl_salt tag_lib))), (''n'', JStr (hex_string (xl_nonce tag_lib))),
         (''c'', JStr (file_cipher tag_lib ''[saved]'' ''pw''))])
     else if t = ''{pass}'' then Some (JObj [(''pass'', JStr ''pw'')])
     else None)\<rparr>"

lemma sample_lib_fields [simp]: "xl_item sample_lib = xl_item tag_lib" "xl_kdf sample_lib = xl_kdf tag_lib"
  "xl_encrypt sample_lib = xl_encrypt tag_lib" "xl_decrypt sample_lib = xl_decrypt tag_lib"
  "xl_b64_encode sample_lib = xl_b64_encode tag_lib" "xl_b64_decode sample_lib = xl_b64_decode tag_lib"
  "xl_mem sample_lib = xl_mem tag_lib" "xl_salt sample_lib = xl_salt tag_lib" "xl_nonce sample_lib = xl_nonce tag_lib"
  by (simp_all add: sample_lib_def)

lemma sample_file: "file_text sample_lib t p = file_text tag_lib t p" "file_cipher sample_lib t p = file_cipher tag_lib t p"
  by (simp_all add: file_text_def file_cipher_def)

lemma sample_lib_ok: "memory_ok sample_lib" "cjson_items sample_lib" "cipher_ok sample_lib"
proof -
  show "memory_ok sample_lib" by (simp add: memory_ok_def tag_lib_def)
  show "cjson_items sample_lib" by (simp add: cjson_items_def tag_lib_def)
  have "pw_hex_to_bytes (hex_string b) (length b) = Some b" for b using hex_roundtrip [of b "[]"] by simp
  then show "cipher_ok sample_lib" using hex_chars by (fastforce simp: cipher_ok_def tag_lib_def ENC_SALT_LEN_def ENC_NONCE_LEN_def ENC_TAG_LEN_def)
qed

lemma sample_texts: "reads_back sample_lib saved_json ''[saved]''" "reads_envelope sample_lib ''[saved]'' ''pw''"
proof -
  show "reads_back sample_lib saved_json ''[saved]''" by (simp add: reads_back_def sample_lib_def)
  have "file_text tag_lib ''[saved]'' ''pw'' \<noteq> ''[saved]''" by (simp add: file_text_def envelope_def)
  then show "reads_envelope sample_lib ''[saved]'' ''pw''"
    unfolding reads_envelope_def sample_file sample_lib_fields by (simp add: sample_lib_def)
qed

definition download :: http_req where
  "download = foreign_req\<lparr>rq_header := \<lambda>_ _. None, rq_content_len := 6, rq_body := [Piece ''{pass}'']\<rparr>"

definition upload :: http_req where
  "upload = foreign_req\<lparr>rq_header := (\<lambda>k _. if k = ''X-Config-Pass'' then Some ''pw'' else None),
     rq_content_len := length (file_text tag_lib ''[saved]'' ''pw''), rq_body := [Piece (file_text tag_lib ''[saved]'' ''pw'')]\<rparr>"

lemma sample_size: "length (file_text tag_lib ''[saved]'' ''pw'') \<le> CONFIG_IMPORT_MAX_SIZE"
proof -
  have "length (print_02x b) = 2" "length (concat (replicate k (print_02x b))) = 2 * k" for k b
    by (simp add: print_02x_def) (induction k; simp add: print_02x_def)
  then show ?thesis by (simp add: str_bytes_def file_text_def envelope_def quoted_def file_cipher_def tag_lib_def CONFIG_IMPORT_MAX_SIZE_def)
qed

theorem transfer_roundtrip_witness:
  "\<exists>t t' n'. config_export_handler list_flash sample_lib sample_http False download saved no_session =
      Some (Attachment (file_text tag_lib ''[saved]'' ''pw''), t) \<and>
    config_import_handler list_flash sample_lib sample_http False upload [(''ssid'', VStr ''old'')] no_session =
      (Json ''Config imported. Rebooting...'', n', t', True) \<and> map_of n' = map_of saved"
proof -
  have adm: "admitted_request sample_http False download no_session" "admitted_request sample_http False upload no_session"
    by (simp_all add: admitted_request_def check_csrf_def download_def upload_def)
  have "export_pass sample_lib download = ''pw''"
  proof -
    have "c_string ''{pass}'' = ''{pass}''" "strlcpy ''pw'' 128 = ''pw''" by code_simp+
    moreover have "file_text tag_lib ''[saved]'' ''pw'' \<noteq> ''{pass}''" by (simp add: file_text_def envelope_def quoted_def)
    moreover have "''{pass}'' \<noteq> ''[saved]''" by simp
    ultimately have "xl_parse sample_lib ''{pass}'' = Some (JObj [(''pass'', JStr ''pw'')])" by (simp add: sample_lib_def)
    with \<open>c_string ''{pass}'' = ''{pass}''\<close> \<open>strlcpy ''pw'' 128 = ''pw''\<close> show ?thesis
      by (simp add: export_pass_def download_def tag_lib_def)
  qed
  note pass = this
  let ?f = "file_text tag_lib ''[saved]'' ''pw''"
  have entries: "na_entries list_flash n = n" for n by (simp add: list_flash_def)
  have plain: "\<forall>e \<in> set saved. stored_value (snd e)" "distinct (map fst saved)" "exported True saved = saved" "saved \<noteq> []"
    by (simp_all add: saved_def exported_def)
  have size: "0 < length ?f" "?f \<noteq> []" by (simp_all add: file_text_def envelope_def)
  have "\<exists>t t' n'. config_export_handler list_flash sample_lib sample_http False download saved no_session = Some (Attachment ?f, t) \<and>
      config_import_handler list_flash sample_lib sample_http False upload [(''ssid'', VStr ''old'')] no_session =
        (Json ''Config imported. Rebooting...'', n', t', True) \<and>
      map_of (na_entries list_flash n') = (if ''pw'' \<noteq> [] then map_of (na_entries list_flash saved)
        else map_of (na_entries list_flash saved) |` (- set export_secrets))"
  proof (rule transfer_roundtrip [OF sample_lib_ok(1) list_flash_ok sample_lib_ok(2,3) _ _ adm pass])
    show "reads_back sample_lib (JArr (map (entry_json list_flash) (exported (''pw'' \<noteq> []) (na_entries list_flash saved)))) ''[saved]''"
      using sample_texts(1) plain(3) by (simp add: entries saved_json_def)
    show "reads_envelope sample_lib ''[saved]'' ''pw''" by (rule sample_texts)
    show "rq_body upload = map Piece [?f]" "concat [?f] = ?f" "rq_content_len upload = length ?f"
      "''pw'' \<noteq> [] \<longrightarrow> rq_header upload ''X-Config-Pass'' 128 = Some ''pw''" by (simp_all add: upload_def)
    show "?f = (if ''pw'' = [] then ''[saved]'' else file_text sample_lib ''[saved]'' ''pw'')" by (simp add: sample_file)
  qed (use plain size sample_size in \<open>simp_all add: entries\<close>)
  then show ?thesis unfolding entries by simp
qed

theorem api_guarded_witness:
  "\<exists>msg t. config_export_handler list_flash sample_lib sample_http False foreign_req saved no_session = Some (SendErr 403 msg, t) \<and>
    config_import_handler list_flash sample_lib sample_http False foreign_req saved no_session = (SendErr 403 msg, saved, t, False)"
proof -
  have "\<not> admitted_request sample_http False foreign_req no_session" by (simp add: admitted_request_def foreign_refused)
  from api_guarded [OF this, of list_flash sample_lib saved] show ?thesis by blast
qed

section \<open>What a plain export shows\<close>

lemma export_items_public:
  "export_items api lib False es = export_items api lib False (filter (\<lambda>e. fst e \<notin> set export_secrets) es)"
  by (induction es) auto

text \<open>
  An export without a passphrase does not depend on a secret: two routers whose stored
  configurations differ only in the passwords, keys and tokens answer the same request with the same
  file.
\<close>

theorem plain_export_keeps_secrets:
  assumes "export_pass lib req = []" "na_open api n \<longleftrightarrow> na_open api n'"
    and "filter (\<lambda>e. fst e \<notin> set export_secrets) (na_entries api n) = filter (\<lambda>e. fst e \<notin> set export_secrets) (na_entries api n')"
  shows "config_export_handler api lib env p req n s = config_export_handler api lib env p req n' s"
proof -
  have "export_items api lib False (na_entries api n) = export_items api lib False (na_entries api n')"
    using export_items_public assms(3) by metis
  then have "nvs_export_to_json_robust api lib False n = nvs_export_to_json_robust api lib False n'"
    using assms(2) by (simp add: nvs_export_to_json_robust_def)
  with assms(1) show ?thesis by (auto simp: config_export_handler_def split: prod.splits option.splits)
qed

theorem plain_export_keeps_secrets_witness:
  "config_export_handler list_flash sample_lib sample_http False (download\<lparr>rq_content_len := 0\<rparr>) saved no_session =
   config_export_handler list_flash sample_lib sample_http False (download\<lparr>rq_content_len := 0\<rparr>)
     [(''hostname'', VStr ''home''), (''passwd'', VStr ''other''), (''wan_access'', VI32 1)] no_session"
  by (rule plain_export_keeps_secrets) (simp_all add: export_pass_def list_flash_def saved_def export_secrets_def)

lemma export_secrets_complete: "set export_secrets = set secrets"
  by (auto simp: export_secrets_def secrets_def)

text \<open>The password is a secret and the switch for access from the uplink is not, so that after a plain
  export and its import the web server is open to the uplink without a password.\<close>

theorem plain_import_unprotected:
  assumes "memory_ok lib" "flash_ok api" "cjson_items lib"
    and "\<forall>e \<in> set (na_entries api n). stored_value (snd e)" "distinct (map fst (na_entries api n))"
    and "map_of (na_entries api n) ''wan_access'' = Some (VI32 1)"
    and "reads_back lib (JArr (map (entry_json api) (exported False (na_entries api n)))) doc"
  shows "\<exists>n'. nvs_import_from_json_robust api lib doc n = (ESP_OK, n') \<and>
    map_of (na_entries api n') ''web_password'' = None \<and> map_of (na_entries api n') ''wan_access'' = Some (VI32 1)"
proof -
  let ?es = "exported False (na_entries api n)"
  have m: "map_of ?es = map_of (na_entries api n) |` (- set export_secrets)" by (simp add: exported_map)
  have pub: "''wan_access'' \<notin> set export_secrets" "''web_password'' \<in> set export_secrets" by (simp_all add: export_secrets_def)
  with m assms(6) have "map_of ?es ''wan_access'' = Some (VI32 1)" "map_of ?es ''web_password'' = None" by (simp_all add: restrict_map_def)
  moreover from this(1) have "?es \<noteq> []" by auto
  moreover have "\<forall>e \<in> set ?es. stored_value (snd e)" "distinct (map fst ?es)"
    using assms(4,5) by (auto simp: exported_def distinct_map_filter)
  moreover have "xl_parse lib doc = Some (JArr (map (entry_json api) ?es))" using assms(7) by (simp add: reads_back_def)
  ultimately show ?thesis using import_document [OF assms(1-3), of ?es doc n] by auto
qed

section \<open>Refused uploads\<close>

text \<open>
  When the body of a request has been received: the pieces up to the announced length came without an
  error in between.  What they hold beyond it is not read.
\<close>

definition received :: "recv_piece list \<Rightarrow> nat \<Rightarrow> string \<Rightarrow> bool" where
  "received pieces k body \<longleftrightarrow> (\<exists>ds rest. pieces = map Piece ds @ rest \<and> [] \<notin> set ds \<and> k \<le> length (concat ds) \<and> body = take k (concat ds))"

lemma recv_body_ok:
  "recv_body pieces k acc = BodyOk body \<longleftrightarrow>
     (\<exists>ds rest. pieces = map Piece ds @ rest \<and> [] \<notin> set ds \<and> k \<le> length (concat ds) \<and> body = acc @ take k (concat ds))"
proof (induction pieces k acc rule: recv_body.induct)
  case (1 pieces acc)
  show ?case by (auto intro: exI [of _ "[]"])
next
  case (3 p ps k acc)
  show ?case
  proof (cases "\<exists>d. p = Piece d \<and> d \<noteq> []")
    case False
    then have "recv_body (p # ps) (Suc k) acc \<noteq> BodyOk body" by (cases p) auto
    moreover have "ds = []" if "p # ps = map Piece ds @ rest" "[] \<notin> set ds" for ds rest using that False by (cases ds) auto
    ultimately show ?thesis by fastforce
  next
    case True
    then obtain d where d: "p = Piece d" "d \<noteq> []" by blast
    let ?k = "Suc k - length (take (Suc k) d)"
    have IH: "recv_body (p # ps) (Suc k) acc = BodyOk body \<longleftrightarrow>
        (\<exists>ds rest. ps = map Piece ds @ rest \<and> [] \<notin> set ds \<and> ?k \<le> length (concat ds) \<and>
           body = (acc @ take (Suc k) d) @ take ?k (concat ds))"
      using 3 [OF d(1,2)] d by simp
    have k: "?k = Suc k - length d" by simp
    have same: "take (Suc k) d @ take ?k (concat ds) = take (Suc k) (concat (d # ds))" "?k \<le> length (concat ds) \<longleftrightarrow> Suc k \<le> length (concat (d # ds))"
      for ds unfolding k by auto
    show ?thesis
    proof
      assume "recv_body (p # ps) (Suc k) acc = BodyOk body"
      then obtain ds rest where "ps = map Piece ds @ rest" "[] \<notin> set ds" "?k \<le> length (concat ds)"
        "body = acc @ take (Suc k) d @ take ?k (concat ds)" unfolding IH append_assoc by blast
      then show "\<exists>ds rest. p # ps = map Piece ds @ rest \<and> [] \<notin> set ds \<and> Suc k \<le> length (concat ds) \<and> body = acc @ take (Suc k) (concat ds)"
        using d same [of ds] by (intro exI [of _ "d # ds"] exI [of _ rest]) auto
    next
      assume "\<exists>ds rest. p # ps = map Piece ds @ rest \<and> [] \<notin> set ds \<and> Suc k \<le> length (concat ds) \<and> body = acc @ take (Suc k) (concat ds)"
      then obtain ds rest where o: "p # ps = map Piece ds @ rest" "[] \<notin> set ds" "Suc k \<le> length (concat ds)"
        "body = acc @ take (Suc k) (concat ds)" by blast
      then obtain ds' where "ds = d # ds'" "ps = map Piece ds' @ rest" using d by (cases ds) auto
      with o same [of ds'] show "recv_body (p # ps) (Suc k) acc = BodyOk body"
        unfolding IH append_assoc by (intro exI [of _ ds'] exI [of _ rest]) auto
    qed
  qed
qed auto

lemma recv_body_received: "recv_body pieces k [] = BodyOk body \<longleftrightarrow> received pieces k body"
  by (simp add: recv_body_ok received_def)

text \<open>What both handlers ask of the request itself.\<close>

definition upload_arrived :: "xfer_lib \<Rightarrow> http_env \<Rightarrow> bool \<Rightarrow> http_req \<Rightarrow> session \<Rightarrow> nat \<Rightarrow> string \<Rightarrow> bool" where
  "upload_arrived lib env p req s limit body \<longleftrightarrow> admitted_request env p req s \<and> 0 < rq_content_len req \<and>
     rq_content_len req \<le> limit \<and> xl_mem lib (rq_content_len req + 1) \<noteq> None \<and>
     received (rq_body req) (rq_content_len req) body"

text \<open>
  The text to import: an upload that looks encrypted must come with a passphrase that opens it.  It
  is accepted if it is a list with at least one entry that has a key, a type and a value.
\<close>

definition config_document :: "xfer_lib \<Rightarrow> http_req \<Rightarrow> string \<Rightarrow> string option" where
  "config_document lib req file =
     (if strstr file (quoted ''enc'') \<noteq> None \<and> strstr file (quoted ''c'') \<noteq> None
      then (case rq_header req ''X-Config-Pass'' 128 of Some (c # cs) \<Rightarrow> config_decrypt_json lib file (c # cs) | _ \<Rightarrow> None)
      else Some file)"

definition config_accepted :: "'n nvs_all \<Rightarrow> xfer_lib \<Rightarrow> http_env \<Rightarrow> bool \<Rightarrow> http_req \<Rightarrow> 'n \<Rightarrow> session \<Rightarrow> json list \<Rightarrow> bool" where
  "config_accepted api lib env p req n s items \<longleftrightarrow> na_open api n \<and>
     (\<exists>body doc. upload_arrived lib env p req s 16384 body \<and> config_document lib req (c_string body) = Some doc \<and>
        xl_parse lib doc = Some (JArr items) \<and> (\<exists>item \<in> set items. import_entry lib item \<noteq> None))"

definition vpn_accepted :: "xfer_lib \<Rightarrow> http_env \<Rightarrow> bool \<Rightarrow> http_req \<Rightarrow> session \<Rightarrow> wg_conf \<Rightarrow> bool" where
  "vpn_accepted lib env p req s c \<longleftrightarrow> he_alloc env \<and>
     (\<exists>body. upload_arrived lib env p req s 4096 body \<and> c = wg_parse (c_string body)) \<and>
     wg_privkey c \<noteq> [] \<and> wg_pubkey c \<noteq> [] \<and> wg_endpoint_host c \<noteq> [] \<and> wg_address_ip c \<noteq> []"

text \<open>Reading the text itself, without and with an error.\<close>

definition import_result :: "'n nvs_all \<Rightarrow> xfer_lib \<Rightarrow> json list \<Rightarrow> 'n \<Rightarrow> 'n" where
  "import_result api lib items n = na_commit api (import_entries api lib items (na_erase_all api n))"

lemma nvs_import_cases:
  obtains items where "xl_parse lib doc = Some (JArr items)" "\<exists>item \<in> set items. import_entry lib item \<noteq> None" "na_open api n"
      "nvs_import_from_json_robust api lib doc n = (ESP_OK, import_result api lib items n)"
  | err where "\<nexists>items. xl_parse lib doc = Some (JArr items) \<and> (\<exists>item \<in> set items. import_entry lib item \<noteq> None) \<and> na_open api n"
      "err \<noteq> ESP_OK" "nvs_import_from_json_robust api lib doc n = (err, n)"
proof (cases "\<exists>items. xl_parse lib doc = Some (JArr items) \<and> (\<exists>item \<in> set items. import_entry lib item \<noteq> None) \<and> na_open api n")
  case True
  then obtain items where i: "xl_parse lib doc = Some (JArr items)" "\<exists>item \<in> set items. import_entry lib item \<noteq> None" "na_open api n" by blast
  then have "nvs_import_from_json_robust api lib doc n = (ESP_OK, import_result api lib items n)"
    by (simp add: nvs_import_from_json_robust_def import_result_def)
  with i show ?thesis by (rule that(1))
next
  case False
  then have "\<exists>err. err \<noteq> ESP_OK \<and> nvs_import_from_json_robust api lib doc n = (err, n)"
    by (auto simp: nvs_import_from_json_robust_def split: option.splits json.splits if_splits)
  with False show ?thesis using that(2) by blast
qed

lemma vpn_import_cases:
  "vpn_import_conf par alloc (Some t) n =
     (if alloc \<and> wg_privkey (wg_parse t) \<noteq> [] \<and> wg_pubkey (wg_parse t) \<noteq> [] \<and> wg_endpoint_host (wg_parse t) \<noteq> [] \<and> wg_address_ip (wg_parse t) \<noteq> []
      then (ESP_OK, foldl (\<lambda>n p. apply_param par p n) n (wg_settings (wg_parse t)))
      else (if alloc then ESP_ERR_INVALID_ARG else ESP_ERR_NO_MEM, n))"
  by (simp add: vpn_import_conf_def Let_def)

text \<open>
  A handler's report: the request arrives or not; if it does, the import of its text decides.
\<close>

lemma upload_cases:
  assumes g: "api_guard env p req s = (refused, t)"
  obtains body where "refused = None" "0 < rq_content_len req" "rq_content_len req \<le> limit" "xl_mem lib (rq_content_len req + 1) \<noteq> None"
      "recv_body (rq_body req) (rq_content_len req) [] = BodyOk body" "upload_arrived lib env p req s limit body"
  | "\<nexists>body. upload_arrived lib env p req s limit body"
      "refused = None \<longrightarrow> rq_content_len req > limit \<or> rq_content_len req = 0 \<or> xl_mem lib (rq_content_len req + 1) = None \<or>
         recv_body (rq_body req) (rq_content_len req) [] \<in> {BodyTimeout, BodyFail}"
proof -
  have adm: "refused = None \<longleftrightarrow> admitted_request env p req s" using guard_passes [of env p req s] g by simp
  show ?thesis
  proof (cases "\<exists>body. upload_arrived lib env p req s limit body")
    case True
    then show ?thesis using that(1) adm by (auto simp: upload_arrived_def recv_body_received)
  next
    case False
    then show ?thesis using that(2) adm
      by (cases "recv_body (rq_body req) (rq_content_len req) []") (auto simp: upload_arrived_def recv_body_received not_le)
  qed
qed

lemma config_import_accepts:
  assumes "config_accepted api lib env p req n s items"
  shows "\<exists>t. config_import_handler api lib env p req n s = (Json ''Config imported. Rebooting...'', import_result api lib items n, t, True)"
proof -
  obtain body doc where a: "upload_arrived lib env p req s 16384 body" "config_document lib req (c_string body) = Some doc"
    "xl_parse lib doc = Some (JArr items)" "\<exists>item \<in> set items. import_entry lib item \<noteq> None" "na_open api n"
    using assms unfolding config_accepted_def by blast
  obtain t where t: "api_guard env p req s = (None, t)"
    using a(1) guard_passes [of env p req s] by (metis prod.collapse upload_arrived_def)
  have r: "recv_body (rq_body req) (rq_content_len req) [] = BodyOk body"
    using a(1) by (simp add: upload_arrived_def recv_body_received)
  have i: "nvs_import_from_json_robust api lib doc n = (ESP_OK, import_result api lib items n)"
    using a(3-5) by (auto simp: nvs_import_from_json_robust_def import_result_def)
  show ?thesis
    using t r i a(1,2)
    by (auto simp: config_import_handler_def CONFIG_IMPORT_MAX_SIZE_def upload_arrived_def config_document_def Let_def
        split: if_splits option.splits list.splits)
qed

text \<open>The steps after the text has arrived, for an upload that is not accepted.\<close>

lemma config_import_refuses:
  assumes "\<nexists>items. config_accepted api lib env p req n s items"
  shows "\<exists>answer t. config_import_handler api lib env p req n s = (answer, n, t, False) \<and> answer \<noteq> Json ''Config imported. Rebooting...''"
proof -
  obtain refused t where g: "api_guard env p req s = (refused, t)" by fastforce
  show ?thesis
  proof (rule upload_cases [OF g, of 16384 lib])
    fix body assume u: "refused = None" "0 < rq_content_len req" "rq_content_len req \<le> 16384" "xl_mem lib (rq_content_len req + 1) \<noteq> None"
      "recv_body (rq_body req) (rq_content_len req) [] = BodyOk body" "upload_arrived lib env p req s 16384 body"
    have i: "\<exists>err. err \<noteq> ESP_OK \<and> nvs_import_from_json_robust api lib doc n = (err, n)"
      if d: "config_document lib req (c_string body) = Some doc" for doc
      using assms u(6) d by (cases rule: nvs_import_cases [of lib doc api n]) (auto simp: config_accepted_def)
    show ?thesis
    proof (cases "config_document lib req (c_string body)")
      case None
      then show ?thesis using g u
        by (auto simp: config_import_handler_def CONFIG_IMPORT_MAX_SIZE_def config_document_def Let_def
            split: if_splits option.splits list.splits)
    next
      case (Some doc)
      from i [OF this] obtain err where "err \<noteq> ESP_OK" "nvs_import_from_json_robust api lib doc n = (err, n)" by blast
      with Some g u show ?thesis
        by (auto simp: config_import_handler_def CONFIG_IMPORT_MAX_SIZE_def config_document_def Let_def
            split: if_splits option.splits list.splits)
    qed
  qed (use g in \<open>auto simp: config_import_handler_def CONFIG_IMPORT_MAX_SIZE_def api_guard_def split: option.splits if_splits prod.splits\<close>)
qed

lemma vpn_import_outcome:
  "case vpn_import_handler par lib env p req n s of (answer, n', t, restart) \<Rightarrow>
     (\<forall>c. vpn_accepted lib env p req s c \<longrightarrow> restart \<and> answer = Json ''WireGuard config imported. Rebooting...'' \<and>
        n' = foldl (\<lambda>n p. apply_param par p n) n (wg_settings c)) \<and>
     ((\<nexists>c. vpn_accepted lib env p req s c) \<longrightarrow> \<not> restart \<and> n' = n \<and> answer \<noteq> Json ''WireGuard config imported. Rebooting...'')"
proof -
  obtain refused t where g: "api_guard env p req s = (refused, t)" by fastforce
  show ?thesis
  proof (rule upload_cases [OF g, of 4096 lib])
    fix body assume u: "refused = None" "0 < rq_content_len req" "rq_content_len req \<le> 4096" "xl_mem lib (rq_content_len req + 1) \<noteq> None"
      "recv_body (rq_body req) (rq_content_len req) [] = BodyOk body" "upload_arrived lib env p req s 4096 body"
    then have b: "upload_arrived lib env p req s 4096 b \<longleftrightarrow> b = body" for b
      by (auto simp: upload_arrived_def recv_body_received [symmetric])
    show ?thesis using g u(1-5) by (auto simp: vpn_import_handler_def vpn_import_cases vpn_accepted_def b)
  qed (use g in \<open>auto simp: vpn_import_handler_def vpn_accepted_def api_guard_def split: option.splits if_splits prod.splits\<close>)
qed

text \<open>
  C23: an upload of a configuration or of a WireGuard file is carried out whole or not at all.  If the
  request is admitted, has a size that is allowed and the memory for it, all of its body arrives, the
  passphrase opens it where it is encrypted, and its text is one the importer accepts, the flash
  becomes what the text says, the answer says so and the router restarts.  If anything of this fails - the
  gate, the size, the memory, the connection, the passphrase, the text - the flash stays as it was,
  the router is not restarted and the answer is another one.
\<close>

theorem refused_upload_keeps:
  "(case config_import_handler api lib env p req n s of (answer, n', t, restart) \<Rightarrow>
      (\<forall>items. config_accepted api lib env p req n s items \<longrightarrow>
         restart \<and> answer = Json ''Config imported. Rebooting...'' \<and> n' = na_commit api (import_entries api lib items (na_erase_all api n))) \<and>
      ((\<nexists>items. config_accepted api lib env p req n s items) \<longrightarrow>
         \<not> restart \<and> n' = n \<and> answer \<noteq> Json ''Config imported. Rebooting...'')) \<and>
   (case vpn_import_handler par lib env p req n s of (answer, n', t, restart) \<Rightarrow>
      (\<forall>c. vpn_accepted lib env p req s c \<longrightarrow> restart \<and> answer = Json ''WireGuard config imported. Rebooting...'' \<and>
         n' = foldl (\<lambda>n p. apply_param par p n) n (wg_settings c)) \<and>
      ((\<nexists>c. vpn_accepted lib env p req s c) \<longrightarrow>
         \<not> restart \<and> n' = n \<and> answer \<noteq> Json ''WireGuard config imported. Rebooting...''))"
proof (rule conjI [OF _ vpn_import_outcome])
  obtain answer n' t restart where h: "config_import_handler api lib env p req n s = (answer, n', t, restart)" by (metis prod_cases4)
  have "restart \<and> answer = Json ''Config imported. Rebooting...'' \<and> n' = import_result api lib items n"
    if "config_accepted api lib env p req n s items" for items
    using config_import_accepts [OF that] h by auto
  moreover have "\<not> restart \<and> n' = n \<and> answer \<noteq> Json ''Config imported. Rebooting...''"
    if "\<nexists>items. config_accepted api lib env p req n s items"
    using config_import_refuses [OF that] h by auto
  ultimately show "case config_import_handler api lib env p req n s of (answer, n', t, restart) \<Rightarrow>
      (\<forall>items. config_accepted api lib env p req n s items \<longrightarrow>
         restart \<and> answer = Json ''Config imported. Rebooting...'' \<and> n' = na_commit api (import_entries api lib items (na_erase_all api n))) \<and>
      ((\<nexists>items. config_accepted api lib env p req n s items) \<longrightarrow>
         \<not> restart \<and> n' = n \<and> answer \<noteq> Json ''Config imported. Rebooting...'')"
    unfolding h prod.case import_result_def by blast
qed

text \<open>An upload whose connection breaks after the first piece, and the same one when it comes whole.\<close>

definition broken_upload :: http_req where
  "broken_upload = upload\<lparr>rq_content_len := 7, rq_body := [Piece ''[sav'', RecvFail]\<rparr>"

definition whole_upload :: http_req where
  "whole_upload = upload\<lparr>rq_content_len := 7, rq_body := [Piece ''[sav'', Piece ''ed]'']\<rparr>"

theorem refused_upload_keeps_witness:
  "(\<exists>answer t. config_import_handler list_flash sample_lib sample_http False broken_upload saved no_session = (answer, saved, t, False) \<and>
      answer \<noteq> Json ''Config imported. Rebooting...'') \<and>
   (\<exists>n' t. config_import_handler list_flash sample_lib sample_http False whole_upload [] no_session =
      (Json ''Config imported. Rebooting...'', n', t, True) \<and> map_of n' ''hostname'' = Some (VStr ''home''))"
proof -
  have no: "\<nexists>items. config_accepted list_flash sample_lib sample_http False broken_upload saved no_session items"
  proof -
    have "recv_body [Piece ''[sav'', RecvFail] 7 [] = BodyFail" by code_simp
    then show ?thesis
      by (auto simp: config_accepted_def upload_arrived_def recv_body_received [symmetric] broken_upload_def)
  qed
  have adm: "admitted_request sample_http False whole_upload no_session"
    by (simp add: admitted_request_def check_csrf_def whole_upload_def upload_def download_def)
  have arrived: "upload_arrived sample_lib sample_http False whole_upload no_session 16384 ''[saved]''"
  proof -
    have "recv_body [Piece ''[sav'', Piece ''ed]''] 7 [] = BodyOk ''[saved]''" by code_simp
    then show ?thesis using adm by (simp add: upload_arrived_def recv_body_received [symmetric] whole_upload_def tag_lib_def)
  qed
  have str: "strstr ''[saved]'' (quoted ''enc'') = None" "c_string ''[saved]'' = ''[saved]''" by code_simp+
  let ?items = "map (entry_json list_flash) saved"
  have yes: "config_accepted list_flash sample_lib sample_http False whole_upload [] no_session ?items"
    unfolding config_accepted_def
  proof (intro conjI exI)
    show "upload_arrived sample_lib sample_http False whole_upload no_session 16384 ''[saved]''" by (rule arrived)
    show "config_document sample_lib whole_upload (c_string ''[saved]'') = Some ''[saved]''" using str by (simp add: config_document_def)
    show "xl_parse sample_lib ''[saved]'' = Some (JArr ?items)" by (simp add: sample_lib_def saved_json_def)
  qed (simp_all add: list_flash_def saved_def entry_json_def import_entry_def tag_lib_def)
  have n': "map_of (na_commit list_flash (import_entries list_flash sample_lib ?items (na_erase_all list_flash []))) ''hostname'' = Some (VStr ''home'')"
    by (simp add: list_flash_def saved_def entry_json_def import_entry_def tag_lib_def import_value_def value_json_def)
  obtain a1 n1 t1 r1 where h1: "config_import_handler list_flash sample_lib sample_http False broken_upload saved no_session = (a1, n1, t1, r1)"
    by (metis prod_cases4)
  obtain a2 n2 t2 r2 where h2: "config_import_handler list_flash sample_lib sample_http False whole_upload [] no_session = (a2, n2, t2, r2)"
    by (metis prod_cases4)
  have "\<not> r1 \<and> n1 = saved \<and> a1 \<noteq> Json ''Config imported. Rebooting...''"
    using refused_upload_keeps [THEN conjunct1, of list_flash sample_lib sample_http False broken_upload saved no_session] no h1 by simp
  moreover have "r2 \<and> a2 = Json ''Config imported. Rebooting...'' \<and>
      n2 = na_commit list_flash (import_entries list_flash sample_lib ?items (na_erase_all list_flash []))"
    using refused_upload_keeps [THEN conjunct1, of list_flash sample_lib sample_http False whole_upload "[]" no_session] yes h2 by auto
  ultimately show ?thesis using h1 h2 n' by auto
qed

section \<open>Firmware\<close>

definition header_checked_ok :: "ota_lib \<Rightarrow> string \<Rightarrow> bool" where
  "header_checked_ok lib d \<longleftrightarrow> ol_header_size lib \<le> length d \<and> ol_magic lib d \<and> ol_chip lib d"

text \<open>What was written is what came in, piece by piece (of a piece no more than was asked for).\<close>

definition written_from :: "string list \<Rightarrow> recv_piece list \<Rightarrow> bool" where
  "written_from chunks pieces \<longleftrightarrow> length chunks \<le> length pieces \<and>
     list_all2 (\<lambda>c p. c \<noteq> [] \<and> (\<exists>d. p = Piece d \<and> prefix c d)) chunks (take (length chunks) pieces)"

lemma ota_loop_writes:
  assumes "ota_loop lib ps k checked oks = (r, acts)"
  shows "\<exists>chunks. written_from chunks ps \<and> (k > 0 \<and> \<not> checked \<and> chunks \<noteq> [] \<longrightarrow> header_checked_ok lib (hd chunks)) \<and>
    (case r of OtaDone \<Rightarrow> acts = map OtaWrite chunks \<and> length (concat chunks) = k
     | OtaStop _ \<Rightarrow> acts = map OtaWrite chunks @ [OtaAbort] \<and> length (concat chunks) \<le> k)"
  using assms
proof (induction lib ps k checked oks arbitrary: r acts rule: ota_loop.induct)
  case (1 lib ps checked oks)
  then show ?case by (intro exI [of _ "[]"]) (auto simp: written_from_def)
next
  case (2 lib k checked oks)
  then show ?case by (intro exI [of _ "[]"]) (auto simp: written_from_def)
next
  case (3 lib p ps k checked oks)
  have stop: ?case if "(r, acts) = (OtaStop x, [OtaAbort])" for x
    using that by (intro exI [of _ "[]"]) (auto simp: written_from_def)
  show ?case
  proof (cases p)
    case (Piece d)
    let ?buf = "take (min (Suc k) 4096) d"
    have pre: "prefix ?buf d" "length ?buf \<le> Suc k" by (auto simp: take_is_prefix)
    show ?thesis
    proof (cases "?buf = [] \<or> (\<not> checked \<and> \<not> header_checked_ok lib ?buf)")
      case True
      with 3(2) Piece stop show ?thesis by (auto simp: header_checked_ok_def Let_def simp del: take_eq_Nil split: if_splits)
    next
      case False
      then have go: "?buf \<noteq> []" "\<not> checked \<longrightarrow> header_checked_ok lib ?buf" by auto
      then have h: "\<not> (\<not> checked \<and> length ?buf < ol_header_size lib)" "\<not> (\<not> checked \<and> \<not> ol_magic lib ?buf)"
          "\<not> (\<not> checked \<and> \<not> ol_chip lib ?buf)"
        by (auto simp: header_checked_ok_def)
      show ?thesis
      proof (cases "\<exists>rest. oks = True # rest")
        case True
        then obtain rest where oks: "oks = True # rest" by blast
        obtain r' acts' where rec: "ota_loop lib ps (Suc k - length ?buf) True rest = (r', acts')" by fastforce
        with 3(2) Piece go oks have eq: "r = r'" "acts = OtaWrite ?buf # acts'"
          by (auto simp: header_checked_ok_def Let_def simp del: take_eq_Nil split: if_splits)
        have "\<exists>chunks. written_from chunks ps \<and>
            (case r' of OtaDone \<Rightarrow> acts' = map OtaWrite chunks \<and> length (concat chunks) = Suc k - length ?buf
             | OtaStop _ \<Rightarrow> acts' = map OtaWrite chunks @ [OtaAbort] \<and> length (concat chunks) \<le> Suc k - length ?buf)"
          using 3(1) [OF Piece refl go(1) h oks _ rec] by simp
        then obtain chunks where ch: "written_from chunks ps"
            "case r' of OtaDone \<Rightarrow> acts' = map OtaWrite chunks \<and> length (concat chunks) = Suc k - length ?buf
             | OtaStop _ \<Rightarrow> acts' = map OtaWrite chunks @ [OtaAbort] \<and> length (concat chunks) \<le> Suc k - length ?buf"
          by blast
        show ?thesis
        proof (intro exI [of _ "?buf # chunks"] conjI)
          show "written_from (?buf # chunks) (p # ps)" using ch(1) go(1) pre(1) Piece by (auto simp: written_from_def)
        qed (use ch(2) eq go(2) pre(2) in \<open>auto split: ota_end.splits\<close>)
      next
        case False
        then have "acts = [OtaWrite ?buf, OtaAbort]" "\<exists>x. r = OtaStop x"
          using 3(2) Piece go by (auto simp: header_checked_ok_def Let_def simp del: take_eq_Nil split: if_splits list.splits bool.splits)
        with go pre Piece show ?thesis by (intro exI [of _ "[?buf]"]) (auto simp: written_from_def)
      qed
    qed
  qed (use 3(2) stop in auto)
qed

text \<open>
  C24: a restart into a new firmware happens only for an admitted request, when as many bytes as it
  announced were received, all of them were written in order, they fit the partition, the first of
  them were checked to be the header of an image for this chip, and the library accepted the image.
  In every other case the router does not restart, and an update that was begun is aborted or ended
  without being selected for the next start.
\<close>

theorem ota_update_sound:
  assumes "ota_upload_handler lib env p req s = (answer, acts, t)"
  shows "\<exists>chunks. written_from chunks (rq_body req) \<and>
    (if OtaSetBoot \<in> set acts \<or> OtaRestart \<in> set acts
     then acts = OtaBegin # map OtaWrite chunks @ [OtaEnd, OtaSetBoot, OtaRestart] \<and> admitted_request env p req s \<and>
       length (concat chunks) = rq_content_len req \<and> (\<exists>room. ol_size lib = Some room \<and> rq_content_len req \<le> room) \<and>
       chunks \<noteq> [] \<and> header_checked_ok lib (hd chunks) \<and> ol_end_ok lib \<and> ol_boot_ok lib
     else acts = [] \<or> acts = OtaBegin # map OtaWrite chunks @ [OtaAbort] \<or> acts = OtaBegin # map OtaWrite chunks @ [OtaEnd])"
proof -
  obtain refused t' where g: "api_guard env p req s = (refused, t')" by fastforce
  obtain r w where l: "ota_loop lib (rq_body req) (rq_content_len req) False (ol_writes lib) = (r, w)" by fastforce
  from ota_loop_writes [OF l] obtain chunks where ch: "written_from chunks (rq_body req)"
      "rq_content_len req > 0 \<and> chunks \<noteq> [] \<longrightarrow> header_checked_ok lib (hd chunks)"
      "case r of OtaDone \<Rightarrow> w = map OtaWrite chunks \<and> length (concat chunks) = rq_content_len req
       | OtaStop _ \<Rightarrow> w = map OtaWrite chunks @ [OtaAbort] \<and> length (concat chunks) \<le> rq_content_len req" by auto
  have none: "written_from [] (rq_body req)" by (simp add: written_from_def)
  have adm: "refused = None \<longleftrightarrow> admitted_request env p req s" using guard_passes [of env p req s] g by simp
  show ?thesis
  proof (cases "refused = None \<and> rq_content_len req > 0 \<and> (\<exists>room. ol_size lib = Some room \<and> rq_content_len req \<le> room) \<and>
      ol_begin_ok lib \<and> ol_mem_ok lib")
    case True
    then show ?thesis
    proof (intro exI [of _ chunks] conjI)
      show "if OtaSetBoot \<in> set acts \<or> OtaRestart \<in> set acts
       then acts = OtaBegin # map OtaWrite chunks @ [OtaEnd, OtaSetBoot, OtaRestart] \<and> admitted_request env p req s \<and>
         length (concat chunks) = rq_content_len req \<and> (\<exists>room. ol_size lib = Some room \<and> rq_content_len req \<le> room) \<and>
         chunks \<noteq> [] \<and> header_checked_ok lib (hd chunks) \<and> ol_end_ok lib \<and> ol_boot_ok lib
       else acts = [] \<or> acts = OtaBegin # map OtaWrite chunks @ [OtaAbort] \<or> acts = OtaBegin # map OtaWrite chunks @ [OtaEnd]"
        using assms True g l ch(2,3) adm by (cases r) (auto simp: ota_upload_handler_def split: if_splits)
    qed (rule ch(1))
  next
    case False
    with assms g none show ?thesis
      by (intro exI [of _ "[]"]) (auto simp: ota_upload_handler_def l split: option.splits if_splits)
  qed
qed

definition sample_ota :: ota_lib where
  "sample_ota = \<lparr>ol_size = Some 65536, ol_begin_ok = True, ol_mem_ok = True, ol_writes = [True, True], ol_end_ok = True,
     ol_boot_ok = True, ol_header_size = 2, ol_magic = (\<lambda>d. take 1 d = [CHR 0xE9]), ol_chip = (\<lambda>d. True)\<rparr>"

definition image_req :: "string list \<Rightarrow> http_req" where
  "image_req ds = download\<lparr>rq_content_len := length (concat ds), rq_body := map Piece ds\<rparr>"

theorem ota_update_sound_witness:
  "ota_upload_handler sample_ota sample_http False (image_req [[CHR 0xE9, CHR 0x01], [CHR 0x02]]) no_session =
     (Json ''Firmware updated! Rebooting...'',
      [OtaBegin, OtaWrite [CHR 0xE9, CHR 0x01], OtaWrite [CHR 0x02], OtaEnd, OtaSetBoot, OtaRestart], no_session) \<and>
   header_checked_ok sample_ota [CHR 0xE9, CHR 0x01]"
proof -
  have run: "ota_upload_handler sample_ota sample_http False (image_req [[CHR 0xE9, CHR 0x01], [CHR 0x02]]) no_session =
     (Json ''Firmware updated! Rebooting...'',
      [OtaBegin, OtaWrite [CHR 0xE9, CHR 0x01], OtaWrite [CHR 0x02], OtaEnd, OtaSetBoot, OtaRestart], no_session)"
    by (simp add: ota_upload_handler_def api_guard_def check_csrf_def image_req_def download_def sample_ota_def)
  from ota_update_sound [OF run] have "header_checked_ok sample_ota [CHR 0xE9, CHR 0x01]" by auto
  with run show ?thesis by blast
qed

text \<open>The same image is refused when the network delivers its first byte alone.\<close>

theorem ota_short_first_piece:
  "ota_upload_handler sample_ota sample_http False (image_req [[CHR 0xE9], [CHR 0x01, CHR 0x02]]) no_session =
     (Json ''File too small to be firmware'', [OtaBegin, OtaAbort], no_session)"
  by (simp add: ota_upload_handler_def api_guard_def check_csrf_def image_req_def download_def sample_ota_def)

end
