(* ===== verification/Router_Commands.thy ===== *)
theory Router_Commands
  imports Config_Params Acl_Nvs Acl_Text Portmap
begin

text \<open>
  The commands of the console (\<open>components/cmd_router/cmd_router.c\<close>) that change the router's settings
  and tables.  The arguments of a command that uses argtable3 are what \<open>arg_parse\<close> made of them, and
  \<open>None\<close> when it reports an error; the others get \<open>argv\<close>.  What a command prints is left out; its
  value is what it returns.
\<close>

section \<open>The router's settings\<close>

text \<open>The NVS library for strings and numbers, for the three tables and for MAC addresses.\<close>

record 'n flash_api =
  fa_par :: "'n nvs_par"
  fa_res :: "('n, dhcp_reservation list) nvs_api"
  fa_pm :: "('n, portmap_entry list) nvs_api"
  fa_acl :: "('n, acl_entry_t list) nvs_api"
  fa_mac :: "('n, mac) nvs_api"
  fa_erase :: "'n \<Rightarrow> string \<Rightarrow> 'n"

record 'n router =
  rt_nvs :: 'n
  rt_ap_ssid_hidden :: u8
  rt_ap_known_only :: u8
  rt_ap_authmode :: u8
  rt_ap_channel :: u8
  rt_ap_nat_enabled :: u8
  rt_led_lowactive :: u8
  rt_ttl :: u8
  rt_client_stats :: bool
  rt_ap_dns :: string
  rt_hostname :: string
  rt_country :: string
  rt_res :: "dhcp_reservation list"
  rt_pm :: "portmap_entry list"
  rt_napt :: "napt_call list"
  rt_acl :: acl_state

text \<open>lwIP's \<open>ip4addr_aton\<close>, the access point's address, the uplink, and memory.\<close>

record cmd_env =
  ce_aton :: "string \<Rightarrow> u32 option"
  ce_ap_ip :: u32
  ce_uplink :: uplink
  ce_alloc :: bool

datatype cmd_ret = Rc nat | RcErr esp_err

definition ret_of :: "esp_err \<Rightarrow> cmd_ret" where
  "ret_of err = (if err = ESP_OK then Rc 0 else RcErr err)"

definition IPADDR_NONE :: u32 where "IPADDR_NONE = 0xFFFFFFFF"
definition PROTO_UDP :: u8 where "PROTO_UDP = 17"

text \<open>\<open>esp_ip4addr_aton\<close>.\<close>

definition ip4addr_aton :: "cmd_env \<Rightarrow> string \<Rightarrow> u32" where
  "ip4addr_aton env s = (case ce_aton env s of Some a \<Rightarrow> a | None \<Rightarrow> IPADDR_NONE)"

text \<open>\<open>strtol\<close> in base ten: \<open>None\<close> unless it reads the whole text.  No digits at all: nothing is read.\<close>

definition strtol_whole :: "string \<Rightarrow> int option" where
  "strtol_whole s =
     (let t = dropWhile is_space s;
          (neg, d) = (case t of [] \<Rightarrow> (False, t) | c # r \<Rightarrow> if c = CHR ''-'' then (True, r) else if c = CHR ''+'' then (False, r) else (False, t));
          ds = takeWhile is_digit d
      in if ds = [] then (if s = [] then Some 0 else None)
         else if dropWhile is_digit d \<noteq> [] then None
         else Some (if neg then - int (dec_val ds) else int (dec_val ds)))"

section \<open>Access point and station\<close>

text \<open>Strings stored one after the other, as long as none fails, then the commit.\<close>

fun store_strs :: "'n nvs_par \<Rightarrow> (string \<times> string) list \<Rightarrow> 'n \<Rightarrow> esp_err \<times> 'n" where
  "store_strs api [] n = np_commit api n"
| "store_strs api (kv # kvs) n =
     (let (err, n) = np_set_str api n (fst kv) (snd kv) in
      if err = ESP_OK then store_strs api kvs n else (err, n))"

text \<open>The last component: what is written to the log.\<close>

definition set_ap :: "'n nvs_par \<Rightarrow> (string \<times> string) option \<Rightarrow> 'n \<Rightarrow> cmd_ret \<times> 'n \<times> string list" where
  "set_ap api args n =
     (case args of None \<Rightarrow> (Rc 1, n, [])
      | Some (ssid, password) \<Rightarrow>
          let ssid = preprocess_string ssid; password = preprocess_string password in
          if np_open api n \<noteq> ESP_OK then (ret_of (np_open api n), n, [])
          else let (err, n) = store_strs api [(''ap_ssid'', ssid), (''ap_passwd'', password)] n in
            (ret_of err, n, if err = ESP_OK then [''AP settings '' @ ssid @ ''/'' @ password @ '' stored.''] else []))"

definition set_sta_static :: "'n flash_api \<Rightarrow> string list \<Rightarrow> (string \<times> string \<times> string) option \<Rightarrow> 'n \<Rightarrow> cmd_ret \<times> 'n" where
  "set_sta_static api argv args n =
     (let par = fa_par api in
      if length argv = 2 \<and> argv ! 1 = ''dhcp'' then
        (if np_open par n \<noteq> ESP_OK then (ret_of (np_open par n), n)
         else let (err, n) = np_commit par (fold (\<lambda>k n. fa_erase api n k) [''static_ip'', ''subnet_mask'', ''gateway_addr''] n)
              in (ret_of err, n))
      else case args of None \<Rightarrow> (Rc 1, n)
      | Some (ip, subnet, gateway) \<Rightarrow>
          if np_open par n \<noteq> ESP_OK then (ret_of (np_open par n), n)
          else let (err, n) = store_strs par [(''static_ip'', preprocess_string ip), (''subnet_mask'', preprocess_string subnet),
                 (''gateway_addr'', preprocess_string gateway)] n in (ret_of err, n))"

definition set_mac :: "'n flash_api \<Rightarrow> string \<Rightarrow> int list option \<Rightarrow> 'n \<Rightarrow> cmd_ret \<times> 'n" where
  "set_mac api key args n =
     (case args of None \<Rightarrow> (Rc 1, n)
      | Some vals \<Rightarrow>
          let nv = fa_mac api in
          if nv_open nv n \<noteq> ESP_OK then (ret_of (nv_open nv n), n)
          else let (err, n) = nv_set_blob nv n key (map word_of_int (take 6 vals)) in
            if err = ESP_OK then let (err, n) = nv_commit nv n in (ret_of err, n) else (ret_of err, n))"

definition set_ap_mac :: "'n flash_api \<Rightarrow> int list option \<Rightarrow> 'n \<Rightarrow> cmd_ret \<times> 'n" where
  "set_ap_mac api args n = set_mac api ''ap_mac'' args n"

text \<open>A new address of the access point; another network drops the reservations and the forwarded ports.\<close>

definition network_changed :: "u32 \<Rightarrow> u32 \<Rightarrow> bool" where
  "network_changed old_ip new_ip \<longleftrightarrow> old_ip AND 0xFFFFFF00 \<noteq> new_ip AND 0xFFFFFF00"

definition clear_tables :: "'n flash_api \<Rightarrow> 'n router \<Rightarrow> 'n router" where
  "clear_tables api r =
     (let (e1, res, n) = clear_all_dhcp_reservations (fa_res api) (rt_res r) (rt_nvs r);
          (e2, calls, pm, n) = clear_all_portmaps (fa_pm api) (rt_pm r) n
      in r\<lparr>rt_res := res, rt_pm := pm, rt_napt := rt_napt r @ calls, rt_nvs := n\<rparr>)"

definition set_ap_ip :: "'n flash_api \<Rightarrow> cmd_env \<Rightarrow> string option \<Rightarrow> 'n router \<Rightarrow> cmd_ret \<times> 'n router" where
  "set_ap_ip api env args r =
     (case args of None \<Rightarrow> (Rc 1, r)
      | Some arg \<Rightarrow>
          let arg = preprocess_string arg;
              (e, old_ap_ip, log) = get_config_param_str (fa_par api) (ce_alloc env) ''ap_ip'' None (rt_nvs r);
              new_ip = ip4addr_aton env arg;
              clear_config = (case old_ap_ip of Some old \<Rightarrow> network_changed (ip4addr_aton env old) new_ip | None \<Rightarrow> False);
              (err, n, log) = set_config_param_str (fa_par api) ''ap_ip'' arg (rt_nvs r);
              r = r\<lparr>rt_nvs := n\<rparr>
          in (ret_of err, if clear_config \<and> err = ESP_OK then clear_tables api r else r))"

definition set_ap_dns :: "'n flash_api \<Rightarrow> string option \<Rightarrow> 'n router \<Rightarrow> cmd_ret \<times> 'n router" where
  "set_ap_dns api args r =
     (case args of None \<Rightarrow> (Rc 1, r)
      | Some arg \<Rightarrow>
          let arg = preprocess_string arg; (err, n, log) = set_config_param_str (fa_par api) ''ap_dns'' arg (rt_nvs r)
          in (ret_of err, r\<lparr>rt_nvs := n, rt_ap_dns := arg\<rparr>))"

definition hostname_char :: "char \<Rightarrow> bool" where
  "hostname_char c \<longleftrightarrow> (let n = of_char c :: nat in
     (n \<ge> 97 \<and> n \<le> 122) \<or> (n \<ge> 65 \<and> n \<le> 90) \<or> (n \<ge> 48 \<and> n \<le> 57) \<or> c = CHR ''-'')"

definition set_hostname :: "'n flash_api \<Rightarrow> string option \<Rightarrow> 'n router \<Rightarrow> cmd_ret \<times> 'n router" where
  "set_hostname api args r =
     (case args of None \<Rightarrow> (Rc 1, r)
      | Some arg \<Rightarrow>
          let name = preprocess_string arg in
          if length name > 32 then (Rc 1, r)
          else if \<not> (\<forall>c \<in> set name. hostname_char c) then (Rc 1, r)
          else let (err, n, log) = set_config_param_str (fa_par api) ''hostname'' name (rt_nvs r) in
            if err \<noteq> ESP_OK then (RcErr err, r\<lparr>rt_nvs := n\<rparr>)
            else (Rc 0, r\<lparr>rt_nvs := n, rt_hostname := name\<rparr>))"

section \<open>Small settings\<close>

text \<open>A number stored, and the setting only when that succeeded.\<close>

definition store_setting :: "'n flash_api \<Rightarrow> string \<Rightarrow> int \<Rightarrow> ('n router \<Rightarrow> 'n router) \<Rightarrow> 'n router \<Rightarrow> cmd_ret \<times> 'n router" where
  "store_setting api name v upd r =
     (let (err, n) = set_config_param_int (fa_par api) name v (rt_nvs r); r = r\<lparr>rt_nvs := n\<rparr>
      in (ret_of err, if err = ESP_OK then upd r else r))"

definition set_led_gpio_cmd :: "'n flash_api \<Rightarrow> string list \<Rightarrow> 'n router \<Rightarrow> cmd_ret \<times> 'n router" where
  "set_led_gpio_cmd api argv r =
     (if length argv < 2 then (Rc 0, r)
      else let gpio_num = (if strcaseeq (argv ! 1) ''none'' \<or> argv ! 1 = ''-1'' then Some (-1)
             else case strtol_whole (argv ! 1) of Some v \<Rightarrow> if v < 0 \<or> v > 48 then None else Some v | None \<Rightarrow> None)
        in case gpio_num of None \<Rightarrow> (Rc 1, r) | Some v \<Rightarrow> store_setting api ''led_gpio'' v (\<lambda>r. r) r)"

definition set_led_lowactive_cmd :: "'n flash_api \<Rightarrow> string list \<Rightarrow> 'n router \<Rightarrow> cmd_ret \<times> 'n router" where
  "set_led_lowactive_cmd api argv r =
     (if length argv < 2 then (Rc 0, r)
      else if parse_bool_true (argv ! 1) then store_setting api ''led_low'' 1 (\<lambda>r. r\<lparr>rt_led_lowactive := 1\<rparr>) r
      else if parse_bool_false (argv ! 1) then store_setting api ''led_low'' 0 (\<lambda>r. r\<lparr>rt_led_lowactive := 0\<rparr>) r
      else (Rc 1, r))"

definition set_ttl_cmd :: "'n flash_api \<Rightarrow> string list \<Rightarrow> 'n router \<Rightarrow> cmd_ret \<times> 'n router" where
  "set_ttl_cmd api argv r =
     (if length argv < 2 then (Rc 0, r)
      else case strtol_whole (argv ! 1) of None \<Rightarrow> (Rc 1, r)
      | Some v \<Rightarrow> if v < 0 \<or> v > 255 then (Rc 1, r)
          else store_setting api ''sta_ttl'' v (\<lambda>r. r\<lparr>rt_ttl := word_of_int v\<rparr>) r)"

definition client_stats_cmd :: "'n flash_api \<Rightarrow> string list \<Rightarrow> 'n router \<Rightarrow> cmd_ret \<times> 'n router" where
  "client_stats_cmd api argv r =
     (if length argv < 2 then (Rc 0, r)
      else if argv ! 1 \<noteq> ''enable'' \<and> argv ! 1 \<noteq> ''disable'' then (Rc 1, r)
      else let enable = (argv ! 1 = ''enable'');
               (err, n) = set_config_param_int (fa_par api) ''cstats_en'' (if enable then 1 else 0) (rt_nvs r);
               r = r\<lparr>rt_nvs := n\<rparr>
        in if err \<noteq> ESP_OK then (Rc 1, r) else (Rc 0, r\<lparr>rt_client_stats := enable\<rparr>))"

definition set_ap_nat_cmd :: "'n flash_api \<Rightarrow> string list \<Rightarrow> 'n router \<Rightarrow> cmd_ret \<times> 'n router" where
  "set_ap_nat_cmd api argv r =
     (if length argv < 2 then (Rc 0, r)
      else let set = (\<lambda>v. let (err, n) = set_config_param_int (fa_par api) ''ap_nat'' v (rt_nvs r)
                 in (Rc 0, r\<lparr>rt_nvs := n, rt_ap_nat_enabled := word_of_int v\<rparr>))
        in if strcaseeq (argv ! 1) ''on'' \<or> argv ! 1 = ''1'' then set 1
           else if strcaseeq (argv ! 1) ''off'' \<or> argv ! 1 = ''0'' then set 0
           else (Rc 1, r))"

definition set_ap_hidden_cmd :: "'n flash_api \<Rightarrow> string list \<Rightarrow> 'n router \<Rightarrow> cmd_ret \<times> 'n router" where
  "set_ap_hidden_cmd api argv r =
     (if length argv < 2 then (Rc 0, r)
      else if parse_bool_true (argv ! 1) then store_setting api ''ap_hidden'' 1 (\<lambda>r. r\<lparr>rt_ap_ssid_hidden := 1\<rparr>) r
      else if parse_bool_false (argv ! 1) then store_setting api ''ap_hidden'' 0 (\<lambda>r. r\<lparr>rt_ap_ssid_hidden := 0\<rparr>) r
      else (Rc 1, r))"

definition set_ap_known_only_cmd :: "'n flash_api \<Rightarrow> string list \<Rightarrow> 'n router \<Rightarrow> cmd_ret \<times> 'n router" where
  "set_ap_known_only_cmd api argv r =
     (if length argv < 2 then (Rc 0, r)
      else if parse_bool_true (argv ! 1) then store_setting api ''ap_known_only'' 1 (\<lambda>r. r\<lparr>rt_ap_known_only := 1\<rparr>) r
      else if parse_bool_false (argv ! 1) then store_setting api ''ap_known_only'' 0 (\<lambda>r. r\<lparr>rt_ap_known_only := 0\<rparr>) r
      else (Rc 1, r))"

definition auth_modes :: "(string list \<times> int) list" where
  "auth_modes = [([''wpa2wpa3'', ''wpa2/wpa3''], 0), ([''wpa2''], 1), ([''wpa3''], 2)]"

definition set_ap_auth_cmd :: "'n flash_api \<Rightarrow> string list \<Rightarrow> 'n router \<Rightarrow> cmd_ret \<times> 'n router" where
  "set_ap_auth_cmd api argv r =
     (if length argv < 2 then (Rc 0, r)
      else case find (\<lambda>m. \<exists>w \<in> set (fst m). strcaseeq (argv ! 1) w) auth_modes of
        None \<Rightarrow> (Rc 1, r)
      | Some m \<Rightarrow> store_setting api ''ap_authmode'' (snd m) (\<lambda>r. r\<lparr>rt_ap_authmode := word_of_int (snd m)\<rparr>) r)"

definition wifi_country_max_channel :: "string \<Rightarrow> int" where
  "wifi_country_max_channel cc =
     (if take 2 cc = ''JP'' then 14
      else if take 2 cc \<in> set [''01'', ''US'', ''CA'', ''AU'', ''NZ'', ''MX'', ''BR''] then 11 else 13)"

definition set_ap_channel_cmd :: "'n flash_api \<Rightarrow> string list \<Rightarrow> 'n router \<Rightarrow> cmd_ret \<times> 'n router" where
  "set_ap_channel_cmd api argv r =
     (if length argv < 2 then (Rc 0, r)
      else let v = atoi (argv ! 1) in
        if v < 0 \<or> v > wifi_country_max_channel (rt_country r) then (Rc 1, r)
        else store_setting api ''ap_channel'' v (\<lambda>r. r\<lparr>rt_ap_channel := word_of_int v\<rparr>) r)"

text \<open>The result of \<open>esp_wifi_set_country_code\<close> is only printed.\<close>

definition set_wifi_country_cmd :: "'n flash_api \<Rightarrow> string list \<Rightarrow> 'n router \<Rightarrow> cmd_ret \<times> 'n router" where
  "set_wifi_country_cmd api argv r =
     (if length argv < 2 then (Rc 0, r)
      else if length (argv ! 1) \<noteq> 2 then (Rc 1, r)
      else let upper = map c_toupper (argv ! 1);
               (err, n, log) = set_config_param_str (fa_par api) ''wifi_cc'' upper (rt_nvs r); r = r\<lparr>rt_nvs := n\<rparr>
        in if err \<noteq> ESP_OK then (RcErr err, r) else (Rc 0, r\<lparr>rt_country := upper\<rparr>))"

definition set_spi_clock_cmd :: "'n flash_api \<Rightarrow> int option \<Rightarrow> 'n router \<Rightarrow> cmd_ret \<times> 'n router" where
  "set_spi_clock_cmd api args r =
     (case args of None \<Rightarrow> (Rc 1, r)
      | Some mhz \<Rightarrow> if mhz < 1 \<or> mhz > 80 then (Rc 1, r) else store_setting api ''spi_clk_mhz'' mhz (\<lambda>r. r) r)"

section \<open>The web server's settings\<close>

definition web_ui_cmd :: "'n flash_api \<Rightarrow> string list \<Rightarrow> 'n router \<Rightarrow> (cmd_ret \<times> 'n router) option" where
  "web_ui_cmd api argv r =
     (let par = fa_par api;
          set_str = (\<lambda>k v. case set_config_param_str par k v (rt_nvs r) of (err, n, log) \<Rightarrow> Some (ret_of err, r\<lparr>rt_nvs := n\<rparr>));
          set_int = (\<lambda>k v. set_config_param_int par k v (rt_nvs r))
      in if length argv < 2 then Some (Rc 0, r)
         else if argv ! 1 = ''enable'' then set_str ''web_disabled'' ''0''
         else if argv ! 1 = ''disable'' then set_str ''web_disabled'' ''1''
         else if argv ! 1 = ''port'' then
           (if length argv < 3 then Some (Rc 0, r)
            else let port = atoi (argv ! 2) in
              if port < 1 \<or> port > 65535 then Some (Rc 1, r)
              else case set_int ''web_port'' port of (err, n) \<Rightarrow> Some (ret_of err, r\<lparr>rt_nvs := n\<rparr>))
         else if argv ! 1 = ''wan_access'' then
           (if length argv < 3 then Some (Rc 0, r)
            else let val = (argv ! 2 = ''on'' \<or> argv ! 2 = ''enable'' \<or> argv ! 2 = ''1'') in
              if val \<and> \<not> is_web_password_set par (rt_nvs r) then Some (Rc 1, r)
              else case set_int ''wan_access'' (if val then 1 else 0) of
                (err, n) \<Rightarrow>
                  let r = r\<lparr>rt_nvs := n\<rparr> in
                  if err = ESP_OK then do {
                    (changed, s) \<leftarrow> update_web_wan_acl val (snd (get_config_param_int par ''web_port'' 80 n)) (rt_acl r);
                    Some (Rc 0, r\<lparr>rt_acl := s\<rparr>) }
                  else Some (RcErr err, r))
         else Some (Rc 1, r))"

end
