(* ===== verification/Router_Tables.thy ===== *)
theory Router_Tables
  imports Router_Commands Remote_Console Pcap_Capture
begin

text \<open>
  The commands of the console that work on the tables and services (\<open>components/cmd_router/cmd_router.c\<close>):
  forwarded ports, reservations, firewall rules, the remote console, the capture, and the settings of
  the uplink.  What a command prints is left out, except for the texts of a rule's addresses.
\<close>

section \<open>Forwarded ports\<close>

definition in_ap_net :: "u32 \<Rightarrow> u32 \<Rightarrow> bool" where
  "in_ap_net ap_ip ip \<longleftrightarrow> ip AND 0x00FFFFFF = ap_ip AND 0x00FFFFFF"

definition port_taken :: "portmap_entry list \<Rightarrow> u8 \<Rightarrow> u16 \<Rightarrow> bool" where
  "port_taken tab proto mport \<longleftrightarrow> (\<exists>e \<in> set tab. pm_used e \<and> pm_proto e = proto \<and> pm_mport e = mport)"

definition do_add_portmap :: "'n flash_api \<Rightarrow> cmd_env \<Rightarrow> u8 \<Rightarrow> u16 \<Rightarrow> u32 \<Rightarrow> u16 \<Rightarrow> 'n router \<Rightarrow> 'n router" where
  "do_add_portmap api env proto mport daddr dport r =
     (let (err, calls, tab, n) = add_portmap (fa_pm api) (ce_uplink env) proto mport daddr dport (rt_pm r) (rt_nvs r)
      in r\<lparr>rt_pm := tab, rt_nvs := n, rt_napt := rt_napt r @ calls\<rparr>)"

definition do_del_portmap :: "'n flash_api \<Rightarrow> u8 \<Rightarrow> u16 \<Rightarrow> 'n router \<Rightarrow> 'n router" where
  "do_del_portmap api proto mport r =
     (let (err, calls, tab, n) = del_portmap (fa_pm api) proto mport (rt_pm r) (rt_nvs r)
      in r\<lparr>rt_pm := tab, rt_nvs := n, rt_napt := rt_napt r @ calls\<rparr>)"

text \<open>An address, or the name of a device that has a reservation; \<open>IPADDR_NONE\<close> counts as no address.\<close>

definition ip_or_device :: "cmd_env \<Rightarrow> string \<Rightarrow> dhcp_reservation list \<Rightarrow> u32 option" where
  "ip_or_device env s tab =
     (if ip4addr_aton env s \<noteq> IPADDR_NONE then Some (ip4addr_aton env s) else resolve_device_name_to_ip (Some s) tab)"

text \<open>The command \<open>portmap\<close> with its five arguments.\<close>

definition portmap :: "'n flash_api \<Rightarrow> cmd_env \<Rightarrow> (string \<times> string \<times> int \<times> string \<times> int) option \<Rightarrow> 'n router \<Rightarrow> cmd_ret \<times> 'n router" where
  "portmap api env args r =
     (case args of None \<Rightarrow> (Rc 1, r)
      | Some (add_del, tcp_udp, ext_port, ip_str, int_port) \<Rightarrow>
          if add_del \<noteq> ''add'' \<and> add_del \<noteq> ''del'' then (Rc 1, r)
          else if tcp_udp \<noteq> ''TCP'' \<and> tcp_udp \<noteq> ''UDP'' then (Rc 1, r)
          else let proto = (if tcp_udp = ''TCP'' then PROTO_TCP else PROTO_UDP); mport = word_of_int ext_port in
            case ip_or_device env ip_str (rt_res r) of None \<Rightarrow> (Rc 1, r)
            | Some int_ip \<Rightarrow>
                if add_del = ''add'' then
                  (if \<not> in_ap_net (ce_ap_ip env) int_ip then (Rc 1, r)
                   else if port_taken (rt_pm r) proto mport then (Rc 1, r)
                   else (Rc 0, do_add_portmap api env proto mport int_ip (word_of_int int_port) r))
                else (Rc 0, do_del_portmap api proto mport r))"

section \<open>Reservations\<close>

text \<open>
  \<open>sscanf(s, "%02x:\<dots>")\<close> with six fields: each of at most two characters, after spaces, with a sign
  perhaps; what follows is the separator.  A prefix \<open>0x\<close> leaves the \<open>x\<close> unread, as newlib does.
\<close>

definition scan_x2 :: "string \<Rightarrow> (u8 \<times> string) option" where
  "scan_x2 s =
     (case dropWhile is_space s of
        [] \<Rightarrow> None
      | c # r \<Rightarrow>
          if c = CHR ''-'' \<or> c = CHR ''+'' then
            (case r of d # r' \<Rightarrow> if is_hex_digit d then Some (if c = CHR ''-'' then - hex_digit_value d else hex_digit_value d, r') else None
             | [] \<Rightarrow> None)
          else if is_hex_digit c then
            (case r of d # r' \<Rightarrow> if is_hex_digit d then Some (16 * hex_digit_value c + hex_digit_value d, r') else Some (hex_digit_value c, r)
             | [] \<Rightarrow> Some (hex_digit_value c, r))
          else None)"

fun scan_fields :: "char \<Rightarrow> nat \<Rightarrow> string \<Rightarrow> u8 list option" where
  "scan_fields sep 0 s = Some []"
| "scan_fields sep (Suc k) s = do {
     (b, r) \<leftarrow> scan_x2 s;
     if k = 0 then Some [b]
     else (case r of c # r \<Rightarrow> if c = sep then do { bs \<leftarrow> scan_fields sep k r; Some (b # bs) } else None | [] \<Rightarrow> None) }"

definition scan_mac :: "string \<Rightarrow> mac option" where
  "scan_mac s = (case scan_fields (CHR '':'') 6 s of Some m \<Rightarrow> Some m | None \<Rightarrow> scan_fields (CHR ''-'') 6 s)"

definition do_add_reservation :: "'n flash_api \<Rightarrow> mac \<Rightarrow> u32 \<Rightarrow> string option \<Rightarrow> 'n router \<Rightarrow> esp_err \<times> 'n router" where
  "do_add_reservation api mac ip name r =
     (let (err, tab, n) = add_dhcp_reservation (fa_res api) mac ip name (rt_res r) (rt_nvs r)
      in (err, r\<lparr>rt_res := tab, rt_nvs := n\<rparr>))"

definition do_del_reservation :: "'n flash_api \<Rightarrow> mac \<Rightarrow> 'n router \<Rightarrow> esp_err \<times> 'n router" where
  "do_del_reservation api mac r =
     (let (err, tab, n) = del_dhcp_reservation (fa_res api) mac (rt_res r) (rt_nvs r)
      in (err, r\<lparr>rt_res := tab, rt_nvs := n\<rparr>))"

text \<open>The command \<open>dhcp_reserve\<close>; the address and the name may be missing (an address only of \<open>del\<close> and \<open>block\<close>).\<close>

definition dhcp_reserve :: "'n flash_api \<Rightarrow> cmd_env \<Rightarrow> (string \<times> string \<times> string \<times> string option) option \<Rightarrow> 'n router \<Rightarrow> cmd_ret \<times> 'n router" where
  "dhcp_reserve api env args r =
     (case args of None \<Rightarrow> (Rc 1, r)
      | Some (add_del, mac_str, ip_str, name) \<Rightarrow>
          if add_del \<noteq> ''add'' \<and> add_del \<noteq> ''del'' \<and> add_del \<noteq> ''block'' then (Rc 1, r)
          else case scan_mac mac_str of None \<Rightarrow> (Rc 1, r)
          | Some mac \<Rightarrow>
              if add_del = ''block'' then
                let (err, r) = do_add_reservation api mac 0 name r in (if err = ESP_OK then Rc 0 else Rc 1, r)
              else if add_del = ''add'' then
                let ip = ip4addr_aton env ip_str in
                if ip = IPADDR_NONE then (Rc 1, r)
                else if ip \<noteq> 0 \<and> \<not> in_ap_net (ce_ap_ip env) ip then (Rc 1, r)
                else let (err, r) = do_add_reservation api mac ip name r in (if err = ESP_OK then Rc 0 else Rc 1, r)
              else let (err, r) = do_del_reservation api mac r in (if err = ESP_OK then Rc 0 else Rc 1, r))"

section \<open>Firewall rules\<close>

definition acl_format_ip_with_name :: "dhcp_reservation list \<Rightarrow> u32 \<Rightarrow> u32 \<Rightarrow> nat \<Rightarrow> string option" where
  "acl_format_ip_with_name tab ip msk buf_len =
     (if ip = 0 \<and> msk = 0 then Some (strncpy_trunc buf_len ''any'')
      else case (if msk = 0xFFFFFFFF then lookup_device_name_by_ip ip tab else None) of
        Some name \<Rightarrow> Some (strncpy_trunc buf_len name)
      | None \<Rightarrow> acl_format_ip ip msk buf_len)"

definition acl_parse_ip_or_name :: "cmd_env \<Rightarrow> dhcp_reservation list \<Rightarrow> string \<Rightarrow> (u32 \<times> u32) option" where
  "acl_parse_ip_or_name env tab str =
     (case acl_parse_ip (ce_aton env) (Some str) of
        Some p \<Rightarrow> Some p
      | None \<Rightarrow> map_option (\<lambda>ip. (ip, 0xFFFFFFFF)) (resolve_device_name_to_ip (Some str) tab))"

definition acl_protos :: "(string \<times> u8) list" where
  "acl_protos = [(''IP'', 0), (''ICMP'', 1), (''TCP'', 6), (''UDP'', 17)]"

definition acl_actions :: "(string \<times> u8) list" where
  "acl_actions = [(''allow'', ACL_ALLOW), (''deny'', ACL_DENY), (''allow_monitor'', ACL_ALLOW OR ACL_MONITOR),
     (''deny_monitor'', ACL_DENY OR ACL_MONITOR)]"

definition word_value :: "(string \<times> 'a) list \<Rightarrow> string \<Rightarrow> 'a option" where
  "word_value ws s = map_option snd (find (\<lambda>w. strcaseeq s (fst w)) ws)"

text \<open>A port, if the next word looks like one; what is left of the words.\<close>

definition take_port :: "u8 \<Rightarrow> string list \<Rightarrow> u16 \<times> string list" where
  "take_port proto args =
     (case args of [] \<Rightarrow> (0, args)
      | a # rest \<Rightarrow>
          if proto \<noteq> 6 \<and> proto \<noteq> 17 then (0, args)
          else if a = ''*'' \<or> a = ''any'' then (0, rest)
          else if a \<noteq> [] \<and> is_digit (a ! 0) then (word_of_int (atoi a), rest)
          else (0, args))"

text \<open>The words after the list's name: protocol, source, port, destination, port, action.\<close>

definition acl_rule_of :: "cmd_env \<Rightarrow> dhcp_reservation list \<Rightarrow> string list
    \<Rightarrow> (u8 \<times> (u32 \<times> u32) \<times> u16 \<times> (u32 \<times> u32) \<times> u16 \<times> u8) option" where
  "acl_rule_of env tab args =
     (case args of [] \<Rightarrow> None | proto_word # args \<Rightarrow> do {
        proto \<leftarrow> word_value acl_protos proto_word;
        (case args of [] \<Rightarrow> None | src_str # args \<Rightarrow> do {
           src \<leftarrow> acl_parse_ip_or_name env tab src_str;
           let (s_port, args) = take_port proto args in
           (case args of [] \<Rightarrow> None | dst_str # args \<Rightarrow> do {
              dst \<leftarrow> acl_parse_ip_or_name env tab dst_str;
              let (d_port, args) = take_port proto args in
              (case args of [] \<Rightarrow> None | action # _ \<Rightarrow> do {
                 allow \<leftarrow> word_value acl_actions action;
                 Some (proto, src, s_port, dst, d_port, allow) }) }) }) })"

definition do_save_rules :: "'n flash_api \<Rightarrow> acl_state \<Rightarrow> 'n router \<Rightarrow> 'n router option" where
  "do_save_rules api s r = do {
     (err, n, s) \<leftarrow> save_acl_rules (fa_acl api) (rt_nvs r) s;
     Some (r\<lparr>rt_nvs := n, rt_acl := s\<rparr>) }"

definition acl_rule_cmd :: "'n flash_api \<Rightarrow> cmd_env \<Rightarrow> nat \<Rightarrow> string list \<Rightarrow> 'n router \<Rightarrow> (cmd_ret \<times> 'n router) option" where
  "acl_rule_cmd api env list_no args r =
     (case acl_rule_of env (rt_res r) args of
        None \<Rightarrow> Some (Rc 1, r)
      | Some (proto, src, s_port, dst, d_port, allow) \<Rightarrow> do {
          (added, s) \<leftarrow> acl_add list_no (fst src) (snd src) (fst dst) (snd dst) proto s_port d_port allow (rt_acl r);
          if added then do { r \<leftarrow> do_save_rules api s r; Some (Rc 0, r) }
          else Some (Rc 1, r\<lparr>rt_acl := s\<rparr>) })"

definition acl_cmd :: "'n flash_api \<Rightarrow> cmd_env \<Rightarrow> string list \<Rightarrow> 'n router \<Rightarrow> (cmd_ret \<times> 'n router) option" where
  "acl_cmd api env argv r =
     (if length argv < 2 then Some (Rc 0, r)
      else let list_no = acl_parse_name (Some (argv ! 1)) in
        if list_no < 0 then Some (Rc 1, r)
        else if length argv < 3 then Some (Rc 1, r)
        else if argv ! 2 = ''clear'' then do {
          s \<leftarrow> acl_clear (nat list_no) (rt_acl r);
          r \<leftarrow> do_save_rules api s r;
          Some (Rc 0, r) }
        else if argv ! 2 = ''clear_stats'' then do {
          s \<leftarrow> acl_clear_stats (nat list_no) (rt_acl r);
          Some (Rc 0, r\<lparr>rt_acl := s\<rparr>) }
        else if argv ! 2 = ''del'' then
          (if length argv < 4 then Some (Rc 1, r)
           else let idx = atoi (argv ! 3) in
             if idx < 0 \<or> idx \<ge> int MAX_ACL_ENTRIES then Some (Rc 1, r)
             else do {
               (deleted, s) \<leftarrow> acl_delete (nat list_no) (nat idx) (rt_acl r);
               if deleted then do { r \<leftarrow> do_save_rules api s r; Some (Rc 0, r) }
               else Some (Rc 0, r\<lparr>rt_acl := s\<rparr>) })
        else acl_rule_cmd api env (nat list_no) (drop 2 argv) r)"

end
