(* ===== verification/Service_Commands.thy ===== *)
theory Service_Commands
  imports Router_Tables
begin

text \<open>
  The console's commands for the services (\<open>components/cmd_router/cmd_router.c\<close>): remote console,
  capture, dynamic DNS, and the stored settings of the PPPoE session and the WireGuard tunnel.
\<close>

section \<open>Remote console\<close>

text \<open>\<open>task_ok\<close> and \<open>gone\<close>: what \<open>remote_console_enable\<close> and \<open>remote_console_disable\<close> meet.\<close>

definition remote_console_cmd :: "bool \<Rightarrow> (nat \<Rightarrow> bool) \<Rightarrow> string list \<Rightarrow> rc_state \<Rightarrow> rc_nvs \<Rightarrow> cmd_ret \<times> rc_state \<times> rc_nvs" where
  "remote_console_cmd task_ok gone argv s n =
     (if length argv < 2 then (Rc 0, s, n)
      else if argv ! 1 = ''status'' then (Rc 0, s, n)
      else if argv ! 1 = ''enable'' then (Rc 0, snd (remote_console_enable task_ok s n))
      else if argv ! 1 = ''disable'' then (Rc 0, snd (remote_console_disable gone s n))
      else if argv ! 1 = ''port'' then
        (if length argv < 3 then (Rc 1, s, n)
         else let port = atoi (argv ! 2) in
           if port < 1 \<or> port > 65535 then (Rc 1, s, n)
           else (Rc 0, snd (remote_console_set_port (word_of_int port) s n)))
      else if argv ! 1 = ''timeout'' then
        (if length argv < 3 then (Rc 1, s, n)
         else (Rc 0, snd (remote_console_set_timeout (word_of_int (atoi (argv ! 2))) s n)))
      else if argv ! 1 = ''kick'' then (Rc 0, snd (remote_console_kick s), n)
      else (Rc 1, s, n))"

section \<open>Capture\<close>

text \<open>The arguments: an action, a mode and a length.  The three flags are those of \<open>pcap_set_mode\<close>.\<close>

definition pcap_modes :: "(string \<times> pcap_capture_mode) list" where
  "pcap_modes = [(''off'', PCAP_MODE_OFF), (''acl'', PCAP_MODE_ACL_MONITOR), (''promisc'', PCAP_MODE_PROMISCUOUS),
     (''promiscuous'', PCAP_MODE_PROMISCUOUS)]"

definition pcap :: "bool \<Rightarrow> bool \<Rightarrow> bool \<Rightarrow> (string option \<times> string option \<times> int option) option \<Rightarrow> pcap_state
    \<Rightarrow> (cmd_ret \<times> pcap_state) option" where
  "pcap mutex_ok sem_ok task_ok args s =
     (case args of
        None \<Rightarrow> Some (Rc 1, s)
      | Some (None, _) \<Rightarrow> Some (Rc 1, s)
      | Some (Some action, mode, snaplen) \<Rightarrow>
          let set = (\<lambda>m. do { s \<leftarrow> pcap_set_mode mutex_ok sem_ok task_ok m s; Some (Rc 0, s) }) in
          if action = ''mode'' then
            (case mode of None \<Rightarrow> Some (Rc 0, s)
             | Some m \<Rightarrow> (case map_of pcap_modes m of Some m \<Rightarrow> set m | None \<Rightarrow> Some (Rc 1, s)))
          else if action = ''start'' then set PCAP_MODE_PROMISCUOUS
          else if action = ''stop'' then set PCAP_MODE_OFF
          else if action = ''snaplen'' then
            (let val = (case snaplen of Some v \<Rightarrow> Some v
                        | None \<Rightarrow> (case mode of Some m \<Rightarrow> if atoi m > 0 then Some (atoi m) else None | None \<Rightarrow> None))
             in case val of None \<Rightarrow> Some (Rc 0, s)
                | Some v \<Rightarrow> let (ok, s) = pcap_set_snaplen (word_of_int v) s in Some (if ok then Rc 0 else Rc 1, s))
          else if action = ''status'' then Some (Rc 0, s)
          else Some (Rc 1, s))"

section \<open>Stored settings\<close>

text \<open>Texts and numbers stored one after the other whatever the results, then a commit.\<close>

fun put_param :: "'n nvs_par \<Rightarrow> param_set \<Rightarrow> 'n \<Rightarrow> 'n" where
  "put_param api (SetStr k v) n = snd (np_set_str api n k v)"
| "put_param api (SetInt k v) n = snd (np_set_i32 api n k v)"

definition put_params :: "'n nvs_par \<Rightarrow> param_set list \<Rightarrow> 'n \<Rightarrow> 'n" where
  "put_params api ps n = snd (np_commit api (fold (put_param api) ps n))"

definition opt_str :: "string \<Rightarrow> string option \<Rightarrow> param_set list" where
  "opt_str k v = (case v of Some s \<Rightarrow> [SetStr k s] | None \<Rightarrow> [])"

definition opt_int :: "string \<Rightarrow> int option \<Rightarrow> param_set list" where
  "opt_int k v = (case v of Some x \<Rightarrow> [SetInt k x] | None \<Rightarrow> [])"

text \<open>The arguments of the two commands that were given.\<close>

record pppoe_args =
  pa_user :: "string option"
  pa_pass :: "string option"
  pa_service :: "string option"
  pa_auth :: "int option"
  pa_enable :: "int option"
  pa_vlan :: "int option"
  pa_babyjumbo :: "int option"

definition set_pppoe_cmd :: "'n nvs_par \<Rightarrow> pppoe_args option \<Rightarrow> 'n \<Rightarrow> cmd_ret \<times> 'n" where
  "set_pppoe_cmd api args n =
     (case args of None \<Rightarrow> (Rc 1, n)
      | Some a \<Rightarrow>
          if np_open api n \<noteq> ESP_OK then (Rc 1, n)
          else (Rc 0, put_params api (opt_str ''pppoe_user'' (pa_user a) @ opt_str ''pppoe_pass'' (pa_pass a) @
            opt_str ''pppoe_svc'' (pa_service a) @ opt_int ''pppoe_auth'' (pa_auth a) @ opt_int ''pppoe_en'' (pa_enable a) @
            opt_int ''pppoe_vlan'' (pa_vlan a) @ opt_int ''pppoe_bj'' (map_option (\<lambda>v. if v \<noteq> 0 then 1 else 0) (pa_babyjumbo a))) n))"

record vpn_args =
  va_privkey :: "string option"
  va_pubkey :: "string option"
  va_endpoint :: "string option"
  va_address :: "string option"
  va_psk :: "string option"
  va_mask :: "string option"
  va_dns :: "string option"
  va_port :: "int option"
  va_keepalive :: "int option"
  va_enable :: "int option"
  va_killswitch :: "int option"
  va_route_all :: "int option"

definition set_vpn_cmd :: "'n nvs_par \<Rightarrow> vpn_args option \<Rightarrow> 'n \<Rightarrow> cmd_ret \<times> 'n" where
  "set_vpn_cmd api args n =
     (case args of None \<Rightarrow> (Rc 1, n)
      | Some a \<Rightarrow>
          if np_open api n \<noteq> ESP_OK then (Rc 1, n)
          else (Rc 0, put_params api (opt_str ''vpn_privkey'' (va_privkey a) @ opt_str ''vpn_pubkey'' (va_pubkey a) @
            opt_str ''vpn_endpoint'' (va_endpoint a) @ opt_str ''vpn_ip'' (va_address a) @ opt_str ''vpn_psk'' (va_psk a) @
            opt_str ''vpn_mask'' (va_mask a) @ opt_str ''vpn_dns'' (va_dns a) @ opt_int ''vpn_port'' (va_port a) @
            opt_int ''vpn_ka'' (va_keepalive a) @ opt_int ''vpn_enabled'' (va_enable a) @ opt_int ''vpn_ks'' (va_killswitch a) @
            opt_int ''vpn_rall'' (va_route_all a)) n))"

section \<open>Wi-Fi client, power, time zone\<close>

text \<open>
  \<open>set_sta\<close>: the texts one after the other while none fails, then the numbers that were given, whatever
  their results.  The second component: the settings in memory that change; the last one: the log.
\<close>

record sta_args =
  sa_ssid :: string
  sa_password :: string
  sa_username :: "string option"
  sa_identity :: "string option"
  sa_eap_method :: "int option"
  sa_ttls_phase2 :: "int option"
  sa_cert_bundle :: "int option"
  sa_no_time_check :: "int option"

fun sta_texts :: "'n nvs_par \<Rightarrow> (string \<times> string) list \<Rightarrow> 'n \<Rightarrow> esp_err \<times> 'n" where
  "sta_texts api [] n = (ESP_OK, n)"
| "sta_texts api (kv # kvs) n =
     (let (err, n) = np_set_str api n (fst kv) (snd kv) in if err = ESP_OK then sta_texts api kvs n else (err, n))"

definition set_sta :: "'n nvs_par \<Rightarrow> sta_args option \<Rightarrow> 'n \<Rightarrow> cmd_ret \<times> (string \<times> int) list \<times> 'n \<times> string list" where
  "set_sta api args n =
     (case args of None \<Rightarrow> (Rc 1, [], n, [])
      | Some a \<Rightarrow>
          let ssid = preprocess_string (sa_ssid a); password = preprocess_string (sa_password a) in
          if np_open api n \<noteq> ESP_OK then (ret_of (np_open api n), [], n, [])
          else let given = (\<lambda>v. case v of Some s \<Rightarrow> s | None \<Rightarrow> []);
                   (err, n) = sta_texts api [(''ssid'', ssid), (''passwd'', password),
                     (''ent_username'', given (sa_username a)), (''ent_identity'', given (sa_identity a))] n
            in if err \<noteq> ESP_OK then (ret_of err, [], n, [])
               else let nums = [(''eap_method'', sa_eap_method a), (''ttls_phase2'', sa_ttls_phase2 a),
                          (''cert_bundle'', sa_cert_bundle a), (''no_time_chk'', sa_no_time_check a)];
                        sets = concat (map (\<lambda>(k, v). case v of Some x \<Rightarrow> [(k, x)] | None \<Rightarrow> []) nums);
                        n = fold (\<lambda>(k, v) n. snd (np_set_i32 api n k v)) sets n;
                        (err, n) = np_commit api n
                 in (ret_of err, sets, n, if err = ESP_OK then [''STA settings '' @ ssid @ ''/'' @ password @ '' stored.''] else []))"

text \<open>The second component: the power given to the driver, in quarters of a decibel.\<close>

definition set_tx_power_cmd :: "'n nvs_par \<Rightarrow> string list \<Rightarrow> 'n \<Rightarrow> cmd_ret \<times> int option \<times> 'n" where
  "set_tx_power_cmd api argv n =
     (if length argv < 2 then (Rc 0, None, n)
      else case strtol_whole (argv ! 1) of None \<Rightarrow> (Rc 1, None, n)
      | Some dbm \<Rightarrow>
          if dbm \<noteq> 0 \<and> (dbm < 2 \<or> dbm > 20) then (Rc 1, None, n)
          else let (err, n) = set_config_param_int api ''tx_power'' dbm n in
            if err \<noteq> ESP_OK then (RcErr err, None, n)
            else (Rc 0, if dbm = 0 then None else Some (dbm * 4), n))"

text \<open>The second component: \<open>TZ\<close> in the environment, \<open>None\<close> when it is not set.\<close>

definition set_tz_cmd :: "'n nvs_par \<Rightarrow> string list \<Rightarrow> string option \<Rightarrow> 'n \<Rightarrow> cmd_ret \<times> string option \<times> 'n" where
  "set_tz_cmd api argv tz n =
     (if length argv < 2 then (Rc 0, tz, n)
      else if argv ! 1 = ''clear'' then (Rc 0, None, fst (snd (set_config_param_str api ''tz'' [] n)))
      else (Rc 0, Some (argv ! 1), fst (snd (set_config_param_str api ''tz'' (argv ! 1) n))))"

definition set_sta_band_cmd :: "'n nvs_par \<Rightarrow> string list \<Rightarrow> u8 \<Rightarrow> 'n \<Rightarrow> cmd_ret \<times> u8 \<times> 'n" where
  "set_sta_band_cmd api argv sta_band n =
     (if length argv < 2 then (Rc 0, sta_band, n)
      else let set = (\<lambda>v. let (err, n) = set_config_param_int api ''sta_band'' v n
                 in (ret_of err, if err = ESP_OK then word_of_int v else sta_band, n))
        in if argv ! 1 = ''auto'' \<or> argv ! 1 = ''0'' then set 0
           else if argv ! 1 = ''2.4'' \<or> argv ! 1 = ''1'' then set 1
           else if argv ! 1 = ''5'' \<or> argv ! 1 = ''2'' then set 2
           else (Rc 1, sta_band, n))"

section \<open>Dynamic DNS\<close>

text \<open>
  The provider is a byte of its own (\<open>set_u8\<close>); the results of the calls are not looked at, and the
  flash is taken to open.  The last component: whether an update is triggered.
\<close>

definition ddns_cmd :: "'n nvs_par \<Rightarrow> ('n \<Rightarrow> string \<Rightarrow> u8 \<Rightarrow> 'n) \<Rightarrow> u32 \<Rightarrow> (string option \<times> string option \<times> int option) option \<Rightarrow> 'n
    \<Rightarrow> cmd_ret \<times> 'n \<times> bool" where
  "ddns_cmd api set_u8 wan_ip args n =
     (case args of
        None \<Rightarrow> (Rc 1, n, False)
      | Some (None, _) \<Rightarrow> (Rc 0, n, False)
      | Some (Some action, arg1, enable) \<Rightarrow>
          if action = ''status'' then (Rc 0, n, False)
          else if action = ''enable'' then
            (case (case arg1 of Some a \<Rightarrow> Some (atoi a) | None \<Rightarrow> enable) of
               None \<Rightarrow> (Rc 1, n, False)
             | Some val \<Rightarrow> if val < 0 \<or> val > 1 then (Rc 1, n, False) else (Rc 0, put_params api [SetInt ''ddns_en'' val] n, False))
          else if action = ''provider'' then
            (case arg1 of None \<Rightarrow> (Rc 1, n, False)
             | Some a \<Rightarrow> let prov = atoi a in
                 if prov < 0 \<or> prov > 4 then (Rc 1, n, False)
                 else (Rc 0, snd (np_commit api (set_u8 n ''ddns_prov'' (word_of_int prov))), False))
          else if action = ''hostname'' then
            (case arg1 of None \<Rightarrow> (Rc 1, n, False)
             | Some a \<Rightarrow> if a = [] then (Rc 1, n, False) else (Rc 0, put_params api [SetStr ''ddns_host'' a] n, False))
          else if action = ''token'' then
            (case arg1 of None \<Rightarrow> (Rc 1, n, False) | Some a \<Rightarrow> (Rc 0, put_params api [SetStr ''ddns_token'' a] n, False))
          else if action = ''password'' then
            (case arg1 of None \<Rightarrow> (Rc 1, n, False) | Some a \<Rightarrow> (Rc 0, put_params api [SetStr ''ddns_pass'' a] n, False))
          else if action = ''poll'' then
            (case arg1 of None \<Rightarrow> (Rc 1, n, False)
             | Some a \<Rightarrow> let hours = atoi a in
                 if hours < 1 \<or> hours > 168 then (Rc 1, n, False)
                 else (Rc 0, put_params api [SetInt ''ddns_poll'' (hours * 3600)] n, False))
          else if action = ''update'' then (if wan_ip = 0 then (Rc 1, n, False) else (Rc 0, n, True))
          else (Rc 0, n, False))"

end
