(* ===== verification/Rule_Keeper.thy ===== *)
theory Rule_Keeper
  imports Service_Commands Acl_Theorems
begin

text \<open>
  What the console and the web page do to the firewall, stated once: a property of the router that
  survives a saved change of the rules, and a change of counters only, survives every firewall command.
\<close>

section \<open>The rule store, seen from its users\<close>

definition unhit :: "acl_entry_t \<Rightarrow> acl_entry_t" where
  "unhit e = e\<lparr>ae_hit_count := 0\<rparr>"

text \<open>The same rules, whatever their counters.\<close>

definition same_rules :: "acl_state \<Rightarrow> acl_state \<Rightarrow> bool" where
  "same_rules s t \<longleftrightarrow> (\<forall>k < MAX_ACL_LISTS. map unhit (acl_rules k t) = map unhit (acl_rules k s))"

lemma acl_add_inv:
  assumes "acl_inv s"
  obtains b t where "acl_add k sa sm da dm pr sp dp al s = Some (b, t)" "acl_inv t" "b \<or> same_rules s t"
proof -
  obtain t where t: "acl_add k sa sm da dm pr sp dp al s = Some (k < MAX_ACL_LISTS \<and> length (acl_rules k s) < MAX_ACL_ENTRIES, t)" "acl_inv t"
    "\<forall>m < MAX_ACL_LISTS. acl_rules m t = (if m = k \<and> length (acl_rules k s) < MAX_ACL_ENTRIES
       then acl_rules k s @ [acl_new_entry sa sm da dm pr sp dp al] else acl_rules m s)"
    using acl_add_law [OF assms, of k sa sm da dm pr sp dp al] by (elim exE conjE)
  moreover have "k < MAX_ACL_LISTS \<and> length (acl_rules k s) < MAX_ACL_ENTRIES \<or> same_rules s t"
    using t(3) by (auto simp: same_rules_def)
  ultimately show thesis by (intro that)
qed

lemma acl_delete_inv:
  assumes "acl_inv s"
  obtains b t where "acl_delete k i s = Some (b, t)" "acl_inv t" "b \<or> same_rules s t"
proof -
  obtain t where t: "acl_delete k i s = Some (k < MAX_ACL_LISTS \<and> i < length (acl_rules k s), t)" "acl_inv t"
    "\<forall>m < MAX_ACL_LISTS. acl_rules m t = (if m = k \<and> i < length (acl_rules k s)
       then take i (acl_rules k s) @ drop (Suc i) (acl_rules k s) else acl_rules m s)"
    using acl_delete_law [OF assms, of k i] by (elim exE conjE)
  moreover have "k < MAX_ACL_LISTS \<and> i < length (acl_rules k s) \<or> same_rules s t"
    using t(3) by (auto simp: same_rules_def)
  ultimately show thesis by (intro that)
qed

lemma acl_clear_inv:
  assumes "acl_inv s"
  obtains t where "acl_clear k s = Some t" "acl_inv t"
  using acl_clear_law [OF assms, of k] by (elim exE conjE) (rule that)

lemma acl_clear_stats_same:
  assumes "acl_inv s"
  obtains t where "acl_clear_stats k s = Some t" "acl_inv t" "same_rules s t"
proof (cases "k < MAX_ACL_LISTS")
  case True
  note l = acl_inv_list [OF assms True]
  let ?u = "s\<lparr>acl_stats := (acl_stats s)[k := acl_zero_stats]\<rparr>"
  let ?t = "acl_set_list k (map (\<lambda>e. e\<lparr>ae_hit_count := 0\<rparr>) (acl_lists s ! k)) ?u"
  have t: "acl_clear_stats k s = Some ?t" using l(4) True by (simp add: acl_clear_stats_free)
  have len: "length (acl_lists s) = MAX_ACL_LISTS" using assms by (simp add: acl_inv_defs)
  have "same_rules s ?t"
    unfolding same_rules_def
  proof (intro allI impI)
    fix m assume "m < MAX_ACL_LISTS"
    with len show "map unhit (acl_rules m ?t) = map unhit (acl_rules m s)"
      by (cases "m = k") (simp_all add: acl_rules_def acl_set_list_def clear_hits_list(1) unhit_def comp_def)
  qed
  with t acl_clear_stats_inv [OF assms t] show thesis by (rule that)
next
  case False
  then have "acl_clear_stats k s = Some s" by (simp add: acl_clear_stats_def)
  then show thesis using assms by (rule that) (simp add: same_rules_def)
qed

lemma save_rules_ok:
  assumes "acl_inv s"
  shows "\<exists>n. do_save_rules api s r = Some (r\<lparr>rt_nvs := n, rt_acl := s\<rparr>)"
proof -
  have "acl_mutex s \<noteq> MutexHeld" using assms by (simp add: acl_inv_def)
  from save_acl_rules_total [OF this, of "fa_acl api" "rt_nvs r"] show ?thesis by (auto simp: do_save_rules_def)
qed

text \<open>A command that ends in a state with a property, branch by branch.\<close>

lemma ends_if: "(\<exists>a b. (if c then x else y) = Some (a, b) \<and> P b) \<longleftrightarrow>
    (if c then \<exists>a b. x = Some (a, b) \<and> P b else \<exists>a b. y = Some (a, b) \<and> P b)"
  by simp

lemma ends_some: "(\<exists>a b. Some (x, y) = Some (a, b) \<and> P b) \<longleftrightarrow> P y"
  by simp

section \<open>Firewall commands\<close>

locale rule_keeper =
  fixes api :: "'n flash_api" and Q :: "'n router \<Rightarrow> bool"
  assumes keeper_inv: "Q r \<Longrightarrow> acl_inv (rt_acl r)"
    and keeper_saved: "Q r \<Longrightarrow> acl_inv s \<Longrightarrow> do_save_rules api s r = Some (r\<lparr>rt_nvs := n, rt_acl := s\<rparr>)
      \<Longrightarrow> Q (r\<lparr>rt_nvs := n, rt_acl := s\<rparr>)"
    and keeper_same: "Q r \<Longrightarrow> acl_inv s \<Longrightarrow> same_rules (rt_acl r) s \<Longrightarrow> Q (r\<lparr>rt_acl := s\<rparr>)"
begin

text \<open>An operation that changes rules and saves, or changes none: the three that both users have.\<close>

lemma add_step:
  assumes "Q r"
  obtains b s n where "acl_add k sa sm da dm pr sp dp al (rt_acl r) = Some (b, s)"
    "do_save_rules api s r = Some (r\<lparr>rt_nvs := n, rt_acl := s\<rparr>)" "Q (r\<lparr>rt_nvs := n, rt_acl := s\<rparr>)" "b \<or> Q (r\<lparr>rt_acl := s\<rparr>)"
proof -
  obtain b s where a: "acl_add k sa sm da dm pr sp dp al (rt_acl r) = Some (b, s)" "acl_inv s" "b \<or> same_rules (rt_acl r) s"
    using acl_add_inv [OF keeper_inv [OF assms]] .
  obtain n where n: "do_save_rules api s r = Some (r\<lparr>rt_nvs := n, rt_acl := s\<rparr>)" using save_rules_ok [OF a(2), of api r] ..
  have "b \<or> Q (r\<lparr>rt_acl := s\<rparr>)" using a(3) keeper_same [OF assms a(2)] by blast
  then show thesis by (rule that [OF a(1) n keeper_saved [OF assms a(2) n]])
qed

lemma delete_step:
  assumes "Q r"
  obtains b s n where "acl_delete k i (rt_acl r) = Some (b, s)"
    "do_save_rules api s r = Some (r\<lparr>rt_nvs := n, rt_acl := s\<rparr>)" "Q (r\<lparr>rt_nvs := n, rt_acl := s\<rparr>)" "b \<or> Q (r\<lparr>rt_acl := s\<rparr>)"
proof -
  obtain b s where a: "acl_delete k i (rt_acl r) = Some (b, s)" "acl_inv s" "b \<or> same_rules (rt_acl r) s"
    using acl_delete_inv [OF keeper_inv [OF assms]] .
  obtain n where n: "do_save_rules api s r = Some (r\<lparr>rt_nvs := n, rt_acl := s\<rparr>)" using save_rules_ok [OF a(2), of api r] ..
  have "b \<or> Q (r\<lparr>rt_acl := s\<rparr>)" using a(3) keeper_same [OF assms a(2)] by blast
  then show thesis by (rule that [OF a(1) n keeper_saved [OF assms a(2) n]])
qed

lemma clear_step:
  assumes "Q r"
  obtains s n where "acl_clear k (rt_acl r) = Some s"
    "do_save_rules api s r = Some (r\<lparr>rt_nvs := n, rt_acl := s\<rparr>)" "Q (r\<lparr>rt_nvs := n, rt_acl := s\<rparr>)"
proof -
  obtain s where a: "acl_clear k (rt_acl r) = Some s" "acl_inv s" using acl_clear_inv [OF keeper_inv [OF assms]] .
  obtain n where n: "do_save_rules api s r = Some (r\<lparr>rt_nvs := n, rt_acl := s\<rparr>)" using save_rules_ok [OF a(2), of api r] ..
  show thesis by (rule that [OF a(1) n keeper_saved [OF assms a(2) n]])
qed

lemma rule_cmd_keeps:
  assumes "Q r"
  shows "\<exists>ret r'. acl_rule_cmd api env k args r = Some (ret, r') \<and> Q r'"
proof (cases "acl_rule_of env (rt_res r) args")
  case None
  with assms show ?thesis by (simp add: acl_rule_cmd_def)
next
  case (Some rule)
  obtain proto src sp dst dp allow where rule: "rule = (proto, src, sp, dst, dp, allow)" by (cases rule)
  obtain b s n where a: "acl_add k (fst src) (snd src) (fst dst) (snd dst) proto sp dp allow (rt_acl r) = Some (b, s)"
    and n: "do_save_rules api s r = Some (r\<lparr>rt_nvs := n, rt_acl := s\<rparr>)"
    and q: "Q (r\<lparr>rt_nvs := n, rt_acl := s\<rparr>)" "b \<or> Q (r\<lparr>rt_acl := s\<rparr>)" using add_step [OF assms] .
  have "acl_rule_cmd api env k args r = Some (if b then (Rc 0, r\<lparr>rt_nvs := n, rt_acl := s\<rparr>) else (Rc 1, r\<lparr>rt_acl := s\<rparr>))"
    by (cases b) (simp_all only: acl_rule_cmd_def Some rule option.case prod.case a bind.bind_lunit n if_True if_False)
  then show ?thesis using q by (cases b) auto
qed

lemma acl_cmd_keeps:
  assumes "Q r"
  shows "\<exists>ret r'. acl_cmd api env argv r = Some (ret, r') \<and> Q r'"
proof -
  let ?k = "nat (acl_parse_name (Some (argv ! 1)))"
  obtain sc nc where c: "acl_clear ?k (rt_acl r) = Some sc" "do_save_rules api sc r = Some (r\<lparr>rt_nvs := nc, rt_acl := sc\<rparr>)"
    "Q (r\<lparr>rt_nvs := nc, rt_acl := sc\<rparr>)" using clear_step [OF assms] .
  obtain ss where ss: "acl_clear_stats ?k (rt_acl r) = Some ss" "acl_inv ss" "same_rules (rt_acl r) ss"
    using acl_clear_stats_same [OF keeper_inv [OF assms]] .
  obtain bd sd nd where d: "acl_delete ?k (nat (atoi (argv ! 3))) (rt_acl r) = Some (bd, sd)"
    "do_save_rules api sd r = Some (r\<lparr>rt_nvs := nd, rt_acl := sd\<rparr>)" "Q (r\<lparr>rt_nvs := nd, rt_acl := sd\<rparr>)" "bd \<or> Q (r\<lparr>rt_acl := sd\<rparr>)"
    using delete_step [OF assms] .
  obtain ret r' where a: "acl_rule_cmd api env ?k (drop 2 argv) r = Some (ret, r')" "Q r'" using rule_cmd_keeps [OF assms] by blast
  define rd where "rd = (if bd then r\<lparr>rt_nvs := nd, rt_acl := sd\<rparr> else r\<lparr>rt_acl := sd\<rparr>)"
  have rd: "Q rd" using d(3,4) by (auto simp: rd_def)
  have eqs: "acl_cmd api env argv r = (if length argv < 2 then Some (Rc 0, r)
      else if acl_parse_name (Some (argv ! 1)) < 0 then Some (Rc 1, r) else if length argv < 3 then Some (Rc 1, r)
      else if argv ! 2 = ''clear'' then Some (Rc 0, r\<lparr>rt_nvs := nc, rt_acl := sc\<rparr>)
      else if argv ! 2 = ''clear_stats'' then Some (Rc 0, r\<lparr>rt_acl := ss\<rparr>)
      else if argv ! 2 = ''del'' then
        (if length argv < 4 then Some (Rc 1, r)
         else if atoi (argv ! 3) < 0 \<or> atoi (argv ! 3) \<ge> int MAX_ACL_ENTRIES then Some (Rc 1, r) else Some (Rc 0, rd))
      else Some (ret, r'))"
    by (cases bd) (simp_all only: acl_cmd_def Let_def c(1,2) ss(1) d(1,2) a(1) bind.bind_lunit prod.case rd_def if_True if_False)
  show ?thesis unfolding eqs
    by (simp only: ends_if ends_some assms c(3) keeper_same [OF assms ss(2,3)] rd a(2) if_cancel)
qed

end

text \<open>
  The rules in flash, up to counters, are those in memory.  The two instances: settings and tables in
  order (declared where those are defined), and this one.
\<close>

definition rules_saved :: "('n, acl_entry_t list) nvs_api \<Rightarrow> 'n \<Rightarrow> acl_state \<Rightarrow> bool" where
  "rules_saved nv n s \<longleftrightarrow> (\<forall>k < MAX_ACL_LISTS. \<forall>buf. \<exists>es. nv_get_blob nv n (acl_keys ! k) buf = (ESP_OK, es) \<and>
     map unhit (filter acl_used es) = map unhit (acl_rules k s))"

definition flash_in_step :: "'n flash_api \<Rightarrow> 'n router \<Rightarrow> bool" where
  "flash_in_step api r \<longleftrightarrow> acl_inv (rt_acl r) \<and> (nvs_works (fa_acl api) \<longrightarrow> rules_saved (fa_acl api) (rt_nvs r) (rt_acl r))"

lemma saved_in_step:
  assumes "acl_inv s" "do_save_rules api s r = Some (r\<lparr>rt_nvs := n, rt_acl := s\<rparr>)" "nvs_works (fa_acl api)"
  shows "rules_saved (fa_acl api) n s"
proof -
  have "acl_mutex s \<noteq> MutexHeld" using assms(1) by (simp add: acl_inv_def)
  from save_acl_rules_stores [OF assms(3) this, of "rt_nvs r"] obtain n' where
    n: "save_acl_rules (fa_acl api) (rt_nvs r) s = Some (ESP_OK, n', s)"
      "\<forall>j < MAX_ACL_LISTS. \<forall>buf. nv_get_blob (fa_acl api) n' (acl_keys ! j) buf = (ESP_OK, acl_lists s ! j)" by blast
  from n(1) assms(2) have "rt_nvs (r\<lparr>rt_nvs := n', rt_acl := s\<rparr>) = rt_nvs (r\<lparr>rt_nvs := n, rt_acl := s\<rparr>)"
    by (simp add: do_save_rules_def)
  with n(2) show ?thesis by (simp add: rules_saved_def acl_rules_def)
qed

interpretation flash: rule_keeper api "flash_in_step api" for api
proof
  show "acl_inv (rt_acl r)" if "flash_in_step api r" for r using that by (simp add: flash_in_step_def)
  show "flash_in_step api (r\<lparr>rt_nvs := n, rt_acl := s\<rparr>)"
    if "flash_in_step api r" "acl_inv s" "do_save_rules api s r = Some (r\<lparr>rt_nvs := n, rt_acl := s\<rparr>)" for r s n
    using that(2) saved_in_step [OF that(2,3)] by (simp add: flash_in_step_def)
  show "flash_in_step api (r\<lparr>rt_acl := s\<rparr>)" if "flash_in_step api r" "acl_inv s" "same_rules (rt_acl r) s" for r s
    using that by (simp add: flash_in_step_def rules_saved_def same_rules_def)
qed

end
