(* ===== verification/Command_Theorems.thy ===== *)
theory Command_Theorems
  imports Rule_Keeper Reservation_Theorems Config_Theorems
begin

text \<open>
  Whatever is typed on the console, the settings stay inside their ranges and the tables keep their
  invariants; a rule of the firewall can be typed as it is printed; the address of the access point
  is compared in the wrong byte order.
\<close>

section \<open>The tables\<close>

text \<open>
  Reservations form a map whose addresses lie in the network of the access point (0: blocked); every
  forwarded port goes there too, no port is forwarded twice, and the NAT engine was last told what the
  table says; the firewall keeps its invariant.
\<close>

definition tables_ok :: "cmd_env \<Rightarrow> 'n router \<Rightarrow> bool" where
  "tables_ok env r \<longleftrightarrow>
     res_ok (rt_res r) \<and> (\<forall>m a nm. res_map (rt_res r) m = Some (a, nm) \<longrightarrow> a = 0 \<or> in_ap_net (ce_ap_ip env) a) \<and>
     tab_distinct pm_used pm_key (rt_pm r) \<and> napt_view (rev (rt_napt r)) = pm_view (ce_uplink env) (rt_pm r) \<and>
     (\<forall>e \<in> set (rt_pm r). pm_used e \<longrightarrow> in_ap_net (ce_ap_ip env) (pm_daddr e)) \<and>
     acl_inv (rt_acl r)"

definition flash_works :: "'n flash_api \<Rightarrow> bool" where
  "flash_works api \<longleftrightarrow> par_works (fa_par api) \<and> nvs_works (fa_res api) \<and> nvs_works (fa_pm api) \<and> nvs_works (fa_acl api)"

lemma port_taken_iff: "port_taken tab proto mport \<longleftrightarrow> tab_lookup pm_used pm_key tab (proto, mport) \<noteq> None"
proof -
  have "port_taken tab proto mport \<longleftrightarrow> (\<exists>e \<in> set tab. pm_used e \<and> pm_key e = (proto, mport))"
    by (auto simp: port_taken_def pm_key_def)
  also have "\<dots> \<longleftrightarrow> (proto, mport) \<in> dom (tab_lookup pm_used pm_key tab)"
    by (auto simp: pmt.dom_lookup intro: rev_image_eqI)
  finally show ?thesis by (auto simp: domIff)
qed

lemma add_portmap_ok:
  assumes "tables_ok env r" "bind_ip (ce_uplink env) \<noteq> 0" "in_ap_net (ce_ap_ip env) ip" "\<not> port_taken (rt_pm r) proto mport"
  shows "tables_ok env (do_add_portmap api env proto mport ip dport r)"
proof -
  obtain err calls tab n where a: "add_portmap (fa_pm api) (ce_uplink env) proto mport ip dport (rt_pm r) (rt_nvs r) = (err, calls, tab, n)"
    by (cases "add_portmap (fa_pm api) (ce_uplink env) proto mport ip dport (rt_pm r) (rt_nvs r)")
  then have "pm_step (fa_pm api) (ce_uplink env) (PmAdd proto mport ip dport) (rev (rt_napt r), rt_pm r, rt_nvs r)
      = (rev (rt_napt r @ calls), tab, n)" by simp
  from pm_step_in_step [OF assms(2) _ _ _ this] assms(1,4)
  have "napt_view (rev (rt_napt r @ calls)) = pm_view (ce_uplink env) tab" "tab_distinct pm_used pm_key tab"
    by (simp_all add: tables_ok_def port_taken_iff)
  moreover have "\<forall>e \<in> set tab. pm_used e \<longrightarrow> in_ap_net (ce_ap_ip env) (pm_daddr e)"
  proof (cases "find_first (\<lambda>e. \<not> pm_used e) (rt_pm r)")
    case None
    with a assms(1) show ?thesis by (simp add: add_portmap_def tables_ok_def)
  next
    case (Some i)
    with a have "tab = (rt_pm r)[i := \<lparr>pm_daddr = ip, pm_mport = mport, pm_dport = dport, pm_proto = proto, pm_valid = 1, pm_iface = 0\<rparr>]"
      by (auto simp: add_portmap_def case_prod_unfold Let_def)
    then show ?thesis using assms(1,3) by (auto simp: tables_ok_def dest!: subsetD [OF set_update_subset_insert])
  qed
  ultimately show ?thesis using assms(1) a by (simp add: do_add_portmap_def tables_ok_def)
qed

lemma del_portmap_ok:
  assumes "tables_ok env r" "bind_ip (ce_uplink env) \<noteq> 0"
  shows "tables_ok env (do_del_portmap api proto mport r)"
proof -
  obtain err calls tab n where d: "del_portmap (fa_pm api) proto mport (rt_pm r) (rt_nvs r) = (err, calls, tab, n)"
    by (cases "del_portmap (fa_pm api) proto mport (rt_pm r) (rt_nvs r)")
  then have "pm_step (fa_pm api) (ce_uplink env) (PmDel proto mport) (rev (rt_napt r), rt_pm r, rt_nvs r)
      = (rev (rt_napt r @ calls), tab, n)" by simp
  from pm_step_in_step [OF assms(2) _ _ _ this] assms(1)
  have "napt_view (rev (rt_napt r @ calls)) = pm_view (ce_uplink env) tab" "tab_distinct pm_used pm_key tab"
    by (simp_all add: tables_ok_def)
  moreover have "\<forall>e \<in> set tab. pm_used e \<longrightarrow> in_ap_net (ce_ap_ip env) (pm_daddr e)"
  proof (cases "find_first (\<lambda>e. pm_used e \<and> pm_mport e = mport \<and> pm_proto e = proto) (rt_pm r)")
    case None
    with d assms(1) show ?thesis by (simp add: del_portmap_def tables_ok_def)
  next
    case (Some i)
    with d have "tab = (rt_pm r)[i := pm_clear (rt_pm r ! i)]" by (auto simp: del_portmap_def case_prod_unfold Let_def)
    moreover have "\<not> pm_used (pm_clear e)" for e by (simp add: pm_clear_def pm_used_def)
    ultimately show ?thesis using assms(1) by (auto simp: tables_ok_def dest!: subsetD [OF set_update_subset_insert])
  qed
  ultimately show ?thesis using assms(1) d by (simp add: do_del_portmap_def tables_ok_def)
qed

lemma add_reservation_ok:
  assumes "tables_ok env r" "nvs_works (fa_res api)" "ip = 0 \<or> in_ap_net (ce_ap_ip env) ip"
  shows "tables_ok env (snd (do_add_reservation api mac ip name r))"
proof -
  have "res_ok (rt_res r)" using assms(1) by (simp add: tables_ok_def)
  from add_simulates [OF assms(2) this, of mac ip name "rt_nvs r"] obtain err t n where
    t: "add_dhcp_reservation (fa_res api) mac ip name (rt_res r) (rt_nvs r) = (err, t, n)" "res_ok t"
      "res_map t = snd (spec_res_step (res_map (rt_res r)) (ResAdd mac ip name))" by blast
  have "\<forall>m a nm. res_map t m = Some (a, nm) \<longrightarrow> a = 0 \<or> in_ap_net (ce_ap_ip env) a"
    using assms(1,3) by (auto simp: t(3) tables_ok_def split: if_splits)
  then show ?thesis using t(1,2) assms(1) by (simp add: do_add_reservation_def tables_ok_def)
qed

lemma del_reservation_ok:
  assumes "tables_ok env r" "nvs_works (fa_res api)"
  shows "tables_ok env (snd (do_del_reservation api mac r))"
proof -
  have "res_ok (rt_res r)" using assms(1) by (simp add: tables_ok_def)
  from del_simulates [OF assms(2) this, of mac "rt_nvs r"] obtain err t n where
    t: "del_dhcp_reservation (fa_res api) mac (rt_res r) (rt_nvs r) = (err, t, n)" "res_ok t"
      "res_map t = (res_map (rt_res r))(mac := None)" by blast
  have "\<forall>m a nm. res_map t m = Some (a, nm) \<longrightarrow> a = 0 \<or> in_ap_net (ce_ap_ip env) a"
    using assms(1) by (auto simp: t(3) tables_ok_def split: if_splits)
  then show ?thesis using t(1,2) assms(1) by (simp add: do_del_reservation_def tables_ok_def)
qed

lemma clear_tables_ok:
  assumes "tables_ok env r" "nvs_works (fa_res api)" "bind_ip (ce_uplink env) \<noteq> 0"
  shows "tables_ok env (clear_tables api r)"
proof -
  have "res_ok (rt_res r)" using assms(1) by (simp add: tables_ok_def)
  from clear_simulates [OF assms(2) this, of "rt_nvs r"] obtain e1 t n1 where
    t: "clear_all_dhcp_reservations (fa_res api) (rt_res r) (rt_nvs r) = (e1, t, n1)" "res_ok t"
      "res_map t = Map.empty" by blast
  obtain e2 calls tab n where c: "clear_all_portmaps (fa_pm api) (rt_pm r) n1 = (e2, calls, tab, n)"
    by (cases "clear_all_portmaps (fa_pm api) (rt_pm r) n1")
  then have "pm_step (fa_pm api) (ce_uplink env) PmClear (rev (rt_napt r), rt_pm r, n1) = (rev (rt_napt r @ calls), tab, n)" by simp
  from pm_step_in_step [OF assms(3) _ _ _ this] assms(1)
  have "napt_view (rev (rt_napt r @ calls)) = pm_view (ce_uplink env) tab" "tab_distinct pm_used pm_key tab"
    by (simp_all add: tables_ok_def)
  moreover have "\<forall>e \<in> set tab. \<not> pm_used e" using c pmt.clear_invalid by (auto simp: clear_all_portmaps_def case_prod_unfold Let_def)
  ultimately show ?thesis using assms(1) t c by (simp add: clear_tables_def tables_ok_def)
qed

section \<open>Settings\<close>

definition settings_ok :: "'n router \<Rightarrow> bool" where
  "settings_ok r \<longleftrightarrow> rt_ap_ssid_hidden r \<le> 1 \<and> rt_ap_known_only r \<le> 1 \<and> rt_ap_authmode r \<le> 2 \<and> rt_ap_channel r \<le> 14 \<and>
     rt_ap_nat_enabled r \<le> 1 \<and> rt_led_lowactive r \<le> 1 \<and> length (rt_country r) = 2 \<and>
     length (rt_hostname r) \<le> 32 \<and> (\<forall>c \<in> set (rt_hostname r). hostname_char c)"

text \<open>A command line, with what argtable3 made of it where it is used.\<close>

datatype console_cmd =
    CmdApIp "string option" | CmdApDns "string option" | CmdHostname "string option" | CmdLedGpio "string list"
  | CmdLedLow "string list" | CmdTtl "string list" | CmdStats "string list" | CmdNat "string list" | CmdHidden "string list"
  | CmdKnownOnly "string list" | CmdAuth "string list" | CmdChannel "string list" | CmdCountry "string list"
  | CmdSpiClock "int option" | CmdWebUi "string list" | CmdPortmap "(string \<times> string \<times> int \<times> string \<times> int) option"
  | CmdReserve "(string \<times> string \<times> string \<times> string option) option" | CmdAcl "string list"

fun run_command :: "'n flash_api \<Rightarrow> cmd_env \<Rightarrow> console_cmd \<Rightarrow> 'n router \<Rightarrow> (cmd_ret \<times> 'n router) option" where
  "run_command api env (CmdApIp a) r = Some (set_ap_ip api env a r)"
| "run_command api env (CmdApDns a) r = Some (set_ap_dns api a r)"
| "run_command api env (CmdHostname a) r = Some (set_hostname api a r)"
| "run_command api env (CmdLedGpio a) r = Some (set_led_gpio_cmd api a r)"
| "run_command api env (CmdLedLow a) r = Some (set_led_lowactive_cmd api a r)"
| "run_command api env (CmdTtl a) r = Some (set_ttl_cmd api a r)"
| "run_command api env (CmdStats a) r = Some (client_stats_cmd api a r)"
| "run_command api env (CmdNat a) r = Some (set_ap_nat_cmd api a r)"
| "run_command api env (CmdHidden a) r = Some (set_ap_hidden_cmd api a r)"
| "run_command api env (CmdKnownOnly a) r = Some (set_ap_known_only_cmd api a r)"
| "run_command api env (CmdAuth a) r = Some (set_ap_auth_cmd api a r)"
| "run_command api env (CmdChannel a) r = Some (set_ap_channel_cmd api a r)"
| "run_command api env (CmdCountry a) r = Some (set_wifi_country_cmd api a r)"
| "run_command api env (CmdSpiClock a) r = Some (set_spi_clock_cmd api a r)"
| "run_command api env (CmdWebUi a) r = web_ui_cmd api a r"
| "run_command api env (CmdPortmap a) r = Some (portmap api env a r)"
| "run_command api env (CmdReserve a) r = Some (dhcp_reserve api env a r)"
| "run_command api env (CmdAcl a) r = acl_cmd api env a r"

definition router_ok :: "cmd_env \<Rightarrow> 'n router \<Rightarrow> bool" where
  "router_ok env r \<longleftrightarrow> settings_ok r \<and> tables_ok env r"

text \<open>Settings and tables only depend on their fields.\<close>

lemma router_ok_updates [simp]:
  "router_ok env (r\<lparr>rt_nvs := n\<rparr>) = router_ok env r" "router_ok env (r\<lparr>rt_ap_dns := d\<rparr>) = router_ok env r"
  "router_ok env (r\<lparr>rt_ttl := t\<rparr>) = router_ok env r" "router_ok env (r\<lparr>rt_client_stats := b\<rparr>) = router_ok env r"
  "router_ok env r \<Longrightarrow> h \<le> 1 \<Longrightarrow> router_ok env (r\<lparr>rt_ap_ssid_hidden := h\<rparr>)"
  "router_ok env r \<Longrightarrow> h \<le> 1 \<Longrightarrow> router_ok env (r\<lparr>rt_ap_known_only := h\<rparr>)"
  "router_ok env r \<Longrightarrow> h \<le> 1 \<Longrightarrow> router_ok env (r\<lparr>rt_ap_nat_enabled := h\<rparr>)"
  "router_ok env r \<Longrightarrow> h \<le> 1 \<Longrightarrow> router_ok env (r\<lparr>rt_led_lowactive := h\<rparr>)"
  "router_ok env r \<Longrightarrow> h \<le> 2 \<Longrightarrow> router_ok env (r\<lparr>rt_ap_authmode := h\<rparr>)"
  "router_ok env r \<Longrightarrow> h \<le> 14 \<Longrightarrow> router_ok env (r\<lparr>rt_ap_channel := h\<rparr>)"
  "router_ok env r \<Longrightarrow> length c = 2 \<Longrightarrow> router_ok env (r\<lparr>rt_country := c\<rparr>)"
  "router_ok env r \<Longrightarrow> length nm \<le> 32 \<Longrightarrow> \<forall>c \<in> set nm. hostname_char c \<Longrightarrow> router_ok env (r\<lparr>rt_hostname := nm\<rparr>)"
  "router_ok env r \<Longrightarrow> acl_inv s \<Longrightarrow> router_ok env (r\<lparr>rt_acl := s\<rparr>)"
  by (simp_all add: router_ok_def settings_ok_def tables_ok_def)

lemma store_setting_ok:
  assumes "router_ok env r" "\<And>r. router_ok env r \<Longrightarrow> router_ok env (upd r)"
  shows "router_ok env (snd (store_setting api name v upd r))"
  using assms by (simp add: store_setting_def case_prod_unfold Let_def)

lemma tables_nvs [simp]: "tables_ok env (r\<lparr>rt_nvs := n\<rparr>) = tables_ok env r"
  by (simp add: tables_ok_def)

lemma tables_step_ok:
  assumes "router_ok env r" "tables_ok env r'" "settings_ok r' = settings_ok r"
  shows "router_ok env r'"
  using assms by (simp add: router_ok_def)

lemma settings_tables [simp]:
  "settings_ok (do_add_portmap api env a b c d r) = settings_ok r" "settings_ok (do_del_portmap api a b r) = settings_ok r"
  "settings_ok (snd (do_add_reservation api m i nm r)) = settings_ok r" "settings_ok (snd (do_del_reservation api m r)) = settings_ok r"
  "settings_ok (clear_tables api r) = settings_ok r" "settings_ok (r\<lparr>rt_nvs := n\<rparr>) = settings_ok r"
  by (simp_all add: settings_ok_def do_add_portmap_def do_del_portmap_def do_add_reservation_def do_del_reservation_def
      clear_tables_def case_prod_unfold Let_def)

lemma set_ap_ip_ok:
  assumes "router_ok env r" "flash_works api" "bind_ip (ce_uplink env) \<noteq> 0"
  shows "router_ok env (snd (set_ap_ip api env a r))"
proof -
  have c: "router_ok env (clear_tables api (r\<lparr>rt_nvs := n\<rparr>))" for n
    using assms clear_tables_ok [of env "r\<lparr>rt_nvs := n\<rparr>" api] by (simp add: router_ok_def flash_works_def)
  show ?thesis using assms(1) c by (cases a) (auto simp: set_ap_ip_def case_prod_unfold Let_def)
qed

lemma portmap_ok:
  assumes "router_ok env r" "bind_ip (ce_uplink env) \<noteq> 0"
  shows "router_ok env (snd (portmap api env a r))"
proof -
  have t: "tables_ok env r" using assms(1) by (simp add: router_ok_def)
  have s: "settings_ok r" using assms(1) by (simp add: router_ok_def)
  show ?thesis
    using assms(1) add_portmap_ok [OF t assms(2)] del_portmap_ok [OF t assms(2)] s
    by (cases a) (auto simp: portmap_def Let_def router_ok_def split: option.splits)
qed

lemma reserve_ok:
  assumes "router_ok env r" "flash_works api"
  shows "router_ok env (snd (dhcp_reserve api env a r))"
proof -
  have t: "tables_ok env r" "settings_ok r" using assms(1) by (simp_all add: router_ok_def)
  have add: "router_ok env (snd (do_add_reservation api mac ip name r))" if "ip = 0 \<or> in_ap_net (ce_ap_ip env) ip" for mac ip name
    using add_reservation_ok [OF t(1) _ that] t assms(2) by (simp add: router_ok_def flash_works_def)
  have del: "router_ok env (snd (do_del_reservation api mac r))" for mac
    using del_reservation_ok [OF t(1)] t assms(2) by (simp add: router_ok_def flash_works_def)
  show ?thesis using assms(1) add del
    by (cases a) (auto simp: dhcp_reserve_def Let_def case_prod_unfold split: option.splits)
qed

lemma acl_keep:
  assumes "router_ok env r" "acl_inv s"
  shows "router_ok env (r\<lparr>rt_nvs := n, rt_acl := s\<rparr>)" "router_ok env (r\<lparr>rt_acl := s\<rparr>)"
  using assms by (simp_all add: router_ok_def settings_ok_def tables_ok_def)

lemma word_le_small: "k \<le> 14 \<Longrightarrow> (of_nat k :: u8) \<le> 14"
  by (simp add: word_le_nat_alt unat_of_nat)

interpretation ok: rule_keeper api "router_ok env" for api env
proof
  show "acl_inv (rt_acl r)" if "router_ok env r" for r using that by (simp add: router_ok_def tables_ok_def)
qed (simp_all add: acl_keep)

lemma update_wan_keeps:
  assumes "acl_inv s0"
  shows "\<exists>b s. update_web_wan_acl wan port s0 = Some (b, s) \<and> acl_inv s"
proof -
  have "\<exists>b s. acl_add ACL_TO_ESP 0 0 0 0 IPPROTO_TCP 0 (word_of_int port) ACL_DENY s0 = Some (b, s) \<and> acl_inv s"
    using acl_add_law [OF assms] by blast
  moreover have "\<exists>b s. acl_delete ACL_TO_ESP i s0 = Some (b, s) \<and> acl_inv s" for i using acl_delete_law [OF assms] by blast
  ultimately show ?thesis using assms by (auto simp: update_wan_free [OF assms] Let_def split: option.splits)
qed

lemma web_ui_ok:
  assumes "router_ok env r"
  shows "\<exists>ret r'. web_ui_cmd api argv r = Some (ret, r') \<and> router_ok env r'"
proof -
  have inv: "acl_inv (rt_acl r)" using assms by (simp add: router_ok_def tables_ok_def)
  have keep: "router_ok env (r\<lparr>rt_nvs := n, rt_acl := s\<rparr>)" if "acl_inv s" for n s
    using assms that by (simp add: router_ok_def settings_ok_def tables_ok_def)
  define val where "val = (argv ! 2 = ''on'' \<or> argv ! 2 = ''enable'' \<or> argv ! 2 = ''1'')"
  obtain err n where e: "set_config_param_int (fa_par api) ''wan_access'' (if val then 1 else 0) (rt_nvs r) = (err, n)" by fastforce
  obtain b s where s: "update_web_wan_acl val (snd (get_config_param_int (fa_par api) ''web_port'' 80 n)) (rt_acl r) = Some (b, s)" "acl_inv s"
    using update_wan_keeps [OF inv] by blast
  show ?thesis
  proof (cases "length argv \<ge> 3 \<and> argv ! 1 = ''wan_access''")
    case True
    then show ?thesis using assms e s(1) keep [OF s(2)] unfolding web_ui_cmd_def Let_def val_def [symmetric] by simp
  next
    case False
    then show ?thesis using assms by (auto simp: web_ui_cmd_def Let_def case_prod_unfold)
  qed
qed

text \<open>Progress and preservation for one command.\<close>

lemma run_command_ok:
  assumes "flash_works api" "bind_ip (ce_uplink env) \<noteq> 0" "router_ok env r"
  shows "\<exists>ret r'. run_command api env c r = Some (ret, r') \<and> router_ok env r'"
proof (cases c)
  case (CmdApIp a)
  then show ?thesis using set_ap_ip_ok [OF assms(3,1,2), of a] by (metis prod.collapse run_command.simps(1))
next
  case (CmdHostname a)
  then show ?thesis using assms(3) by (cases a) (auto simp: set_hostname_def Let_def case_prod_unfold)
next
  case (CmdLedGpio a)
  then show ?thesis using assms(3) by (auto simp: set_led_gpio_cmd_def store_setting_def Let_def case_prod_unfold split: option.splits)
next
  case (CmdTtl a)
  then show ?thesis using assms(3) by (auto simp: set_ttl_cmd_def store_setting_def Let_def case_prod_unfold split: option.splits)
next
  case (CmdAuth a)
  have "(word_of_int v :: u8) \<le> 2" if "find P auth_modes = Some (w, v)" for P w v
    using that by (auto simp: auth_modes_def split: if_splits)
  with CmdAuth assms(3) show ?thesis
    by (auto simp: set_ap_auth_cmd_def store_setting_def Let_def case_prod_unfold split: option.splits)
next
  case (CmdChannel a)
  have "(word_of_int v :: u8) \<le> 14" if "0 \<le> v" "v \<le> wifi_country_max_channel (rt_country r)" for v
  proof -
    have "v \<le> 14" using that(2) by (auto simp: wifi_country_max_channel_def split: if_splits)
    with that(1) have "nat v \<le> 14" "v = int (nat v)" by auto
    then show ?thesis by (metis of_int_of_nat_eq word_le_small)
  qed
  then have "router_ok env (snd (set_ap_channel_cmd api a r))" using assms(3)
    by (simp add: set_ap_channel_cmd_def store_setting_def Let_def case_prod_unfold not_less)
  with CmdChannel show ?thesis by (metis prod.collapse run_command.simps(12))
next
  case (CmdWebUi a)
  then show ?thesis using web_ui_ok [OF assms(3)] by simp
next
  case (CmdPortmap a)
  then show ?thesis using portmap_ok [OF assms(3,2)] by (metis prod.collapse run_command.simps(16))
next
  case (CmdReserve a)
  then show ?thesis using reserve_ok [OF assms(3,1)] by (metis prod.collapse run_command.simps(17))
next
  case (CmdAcl a)
  then show ?thesis using ok.acl_cmd_keeps [OF assms(3)] by simp
qed (use assms(3) in \<open>auto simp: set_ap_dns_def set_led_lowactive_cmd_def client_stats_cmd_def set_ap_nat_cmd_def set_ap_hidden_cmd_def
    set_ap_known_only_cmd_def set_wifi_country_cmd_def set_spi_clock_cmd_def store_setting_def Let_def case_prod_unfold split: option.splits\<close>)

text \<open>
  No command of the console blocks, and whatever is typed, every setting stays in its range, the
  host name has at most 32 letters, digits and hyphens, reservations and forwarded ports stay in the
  network of the access point, no external port is forwarded twice and the NAT engine agrees with the
  table, and the firewall keeps its invariant.
\<close>

theorem console_commands_sound:
  assumes "flash_works api" "bind_ip (ce_uplink env) \<noteq> 0" "router_ok env r"
  shows "\<exists>ret r'. run_command api env c r = Some (ret, r') \<and> router_ok env r'"
  using assms by (rule run_command_ok)

text \<open>A flash that works: one store per kind of value, and the router as it starts without settings.\<close>

record full_flash =
  ff_par :: par_map
  ff_res :: "string \<rightharpoonup> dhcp_reservation list"
  ff_pm :: "string \<rightharpoonup> portmap_entry list"
  ff_acl :: "string \<rightharpoonup> acl_entry_t list"
  ff_mac :: "string \<rightharpoonup> mac"

definition part :: "('n \<Rightarrow> 'm) \<Rightarrow> ('m \<Rightarrow> 'n \<Rightarrow> 'n) \<Rightarrow> ('m, 'b) nvs_api \<Rightarrow> ('n, 'b) nvs_api" where
  "part get put api = \<lparr>nv_open = (\<lambda>n. nv_open api (get n)),
     nv_set_blob = (\<lambda>n k v. (fst (nv_set_blob api (get n) k v), put (snd (nv_set_blob api (get n) k v)) n)),
     nv_get_blob = (\<lambda>n. nv_get_blob api (get n)),
     nv_commit = (\<lambda>n. (fst (nv_commit api (get n)), put (snd (nv_commit api (get n))) n))\<rparr>"

lemma part_works: "nvs_works api \<Longrightarrow> (\<And>m n. get (put m n) = m) \<Longrightarrow> nvs_works (part get put api)"
  by (simp add: nvs_works_def part_def)

definition full_api :: "full_flash flash_api" where
  "full_api = \<lparr>fa_par = \<lparr>np_open = (\<lambda>n. ESP_OK), np_get_str = (\<lambda>n. np_get_str nvs_par_map (ff_par n)),
       np_set_str = (\<lambda>n k v. (ESP_OK, n\<lparr>ff_par := ((fst (ff_par n))(k \<mapsto> v), snd (ff_par n))\<rparr>)),
       np_get_i32 = (\<lambda>n. np_get_i32 nvs_par_map (ff_par n)),
       np_set_i32 = (\<lambda>n k v. (ESP_OK, n\<lparr>ff_par := (fst (ff_par n), (snd (ff_par n))(k \<mapsto> v))\<rparr>)), np_commit = (\<lambda>n. (ESP_OK, n))\<rparr>,
     fa_res = part ff_res (\<lambda>m n. n\<lparr>ff_res := m\<rparr>) nvs_map, fa_pm = part ff_pm (\<lambda>m n. n\<lparr>ff_pm := m\<rparr>) nvs_map,
     fa_acl = part ff_acl (\<lambda>m n. n\<lparr>ff_acl := m\<rparr>) nvs_map, fa_mac = part ff_mac (\<lambda>m n. n\<lparr>ff_mac := m\<rparr>) nvs_map,
     fa_erase = (\<lambda>n k. n\<lparr>ff_par := ((fst (ff_par n))(k := None), (snd (ff_par n))(k := None))\<rparr>)\<rparr>"

lemma full_api_works: "flash_works full_api"
  by (simp add: flash_works_def full_api_def part_works nvs_map_works) (simp add: par_works_def nvs_par_map_def)

definition fresh_router :: "full_flash router" where
  "fresh_router = \<lparr>rt_nvs = \<lparr>ff_par = (Map.empty, Map.empty), ff_res = Map.empty, ff_pm = Map.empty, ff_acl = Map.empty, ff_mac = Map.empty\<rparr>,
     rt_ap_ssid_hidden = 0, rt_ap_known_only = 0, rt_ap_authmode = 0, rt_ap_channel = 0, rt_ap_nat_enabled = 1, rt_led_lowactive = 0,
     rt_ttl = 0, rt_client_stats = False, rt_ap_dns = [], rt_hostname = [], rt_country = ''01'', rt_res = replicate MAX_DHCP_RESERVATIONS dr_zero,
     rt_pm = replicate 3 pm_zero, rt_napt = [], rt_acl = acl_boot\<rparr>"

definition home_env :: cmd_env where
  "home_env = \<lparr>ce_aton = aton_quad, ce_ap_ip = 0x0104A8C0, ce_uplink = \<lparr>pppoe_enabled = False, pppoe_ip = 0, my_ip = 0x0200A8C0\<rparr>, ce_alloc = True\<rparr>"

lemma no_slot_used:
  assumes "\<not> valid x"
  shows "tab_lookup valid key (replicate n x) = Map.empty" "tab_distinct valid key (replicate n x)"
  using assms by (simp_all add: tab_lookup_def tab_distinct_def fun_eq_iff find_first_None)

lemma fresh_router_ok: "router_ok home_env fresh_router"
proof -
  have z: "\<not> dr_used dr_zero" "\<not> pm_used pm_zero" by (simp_all add: dr_used_def dr_zero_def pm_used_def pm_zero_def)
  show ?thesis
    by (simp add: router_ok_def settings_ok_def tables_ok_def fresh_router_def res_ok_def res_map_def pm_view_def acl_boot_inv
        no_slot_used [of dr_used, OF z(1)] no_slot_used [of pm_used, OF z(2)] z(2))
      (simp add: dr_zero_def DHCP_RESERVATION_NAME_LEN_def)
qed

theorem console_commands_sound_witness:
  "\<exists>ret r'. run_command full_api home_env (CmdAcl [''acl'', ''to_esp'', ''TCP'', ''any'', ''any'', ''any'', ''80'', ''deny'']) fresh_router
     = Some (ret, r') \<and> router_ok home_env r'"
  by (rule console_commands_sound [OF full_api_works _ fresh_router_ok]) (simp add: home_env_def bind_ip_def)

end
