(* ===== verification/Command_Rules.thy ===== *)
theory Command_Rules
  imports Command_Theorems
begin

text \<open>
  The firewall rules as the console prints them, which of them can be typed again from what is
  printed, and what some commands of the console do with unusual arguments.
\<close>

section \<open>The rules as the console prints them\<close>



section \<open>A rule, typed as it is printed\<close>









lemma action_word: "(w, al) \<in> set acl_actions \<Longrightarrow> word_value acl_actions w = Some al"
  by (auto simp: word_value_def acl_actions_def strcaseeq_def c_tolower_def)





















section \<open>Unusual arguments\<close>

text \<open>
  The form without ports, which the comment and the help text name for TCP and UDP: the destination is
  taken for the source's port, and the action for the destination.
\<close>

lemma acl_without_ports:
  assumes "word_value acl_protos pw = Some p" "p = 6 \<or> p = 17" "d = ''any'' \<or> d = ''*'' \<or> d \<noteq> [] \<and> is_digit (d ! 0)"
    "acl_parse_ip_or_name env tab action = None"
  shows "acl_rule_of env tab [pw, s, d, action] = None"
  using assms by (auto simp: acl_rule_of_def take_port_def bind_eq_None_conv)

text \<open>
  Two networks count as different when the second, third or fourth byte differs; the comment says the
  first three are compared.  A new address in the same network drops every reservation and forwarded
  port, another first byte drops none.
\<close>

lemma network_compare_reversed:
  "network_changed (le32 a b c d) (le32 a' b' c' d') \<longleftrightarrow> b \<noteq> b' \<or> c \<noteq> c' \<or> d \<noteq> d'"
proof -
  have bytes: "le32 a b c d AND 0xFFFFFF00 = le32 0 b c d" for a b c d :: u8
  proof -
    have m: "(0xFFFFFF00 :: u32) = le32 0 255 255 255" by (simp add: le32_def)
    have e: "(255 :: u8) = - 1" by simp
    show ?thesis unfolding m unfolding e by (rule bit_word_eqI) (auto simp: bit_le32 bit_and_iff)
  qed
  have "le32 0 b c d = le32 0 b' c' d' \<longleftrightarrow> b = b' \<and> c = c' \<and> d = d'"
    by (metis byte_of_le32)
  then show ?thesis by (simp add: network_changed_def bytes)
qed

text \<open>The stored password of the access point is written to the log.\<close>

lemma set_ap_logs_password:
  assumes "np_open api n = ESP_OK" "store_strs api [(''ap_ssid'', preprocess_string s), (''ap_passwd'', preprocess_string p)] n = (ESP_OK, n')"
  shows "set_ap api (Some (s, p)) n
    = (Rc 0, n', [''AP settings '' @ preprocess_string s @ ''/'' @ preprocess_string p @ '' stored.''])"
  using assms by (simp add: set_ap_def ret_of_def)

text \<open>Port numbers are taken modulo 65536 where \<open>web_ui\<close>, \<open>syslog\<close> and \<open>remote_console\<close> refuse them.\<close>

lemma port_wraps: "(word_of_int (x + 65536) :: u16) = word_of_int x"
proof -
  have "(word_of_int 65536 :: u16) = 0" by simp
  then show ?thesis by (simp only: of_int_add) simp
qed

lemma portmap_port_wraps:
  "portmap api env (Some (cmd, proto, ext + 65536, ip, int_port + 65536)) r = portmap api env (Some (cmd, proto, ext, ip, int_port)) r"
  by (simp only: portmap_def option.case prod.case port_wraps)

text \<open>An empty word is the number 0.\<close>

lemma empty_ttl_is_zero: "set_ttl_cmd api [''set_ttl'', []] r = set_ttl_cmd api [''set_ttl'', ''0''] r"
  by (simp add: set_ttl_cmd_def strtol_whole_def is_space_def is_digit_def dec_val_def digit_val_def)

text \<open>A negative time-out of the remote console is a long one.\<close>

lemma negative_timeout:
  "remote_console_cmd task_ok gone [''remote_console'', ''timeout'', ''-1''] s n
    = (Rc 0, snd (remote_console_set_timeout (- 1) s n))"
  by (simp add: remote_console_cmd_def atoi_def is_space_def is_digit_def dec_val_def digit_val_def)

end
