(* ===== verification/Web_Pages.thy ===== *)
theory Web_Pages
  imports Service_Commands Http_Access
begin

text \<open>
  The pages of the web server that change something (\<open>components/http_server/http_server.c\<close>): the front
  page with login and password, the firewall, and reservations and forwarded ports.  \<open>rq_query\<close> is
  the text behind the question mark when it is there and could be read.  The pages themselves are left
  out: \<open>Page\<close> stands for whatever is shown.
\<close>

section \<open>The guard of a page\<close>

definition page_guard :: "http_env \<Rightarrow> 'n nvs_par \<Rightarrow> http_req \<Rightarrow> 'n \<Rightarrow> session \<Rightarrow> bool \<times> session" where
  "page_guard henv par req n s = (if is_web_password_set par n then is_authenticated henv req s else (True, s))"

definition login_needed :: http_answer where "login_needed = Redirect 303 ''/?auth_required=1''"

text \<open>A page with its form: nothing happens without a session, and nothing without a query.\<close>

definition guarded_page :: "http_env \<Rightarrow> 'n flash_api \<Rightarrow> http_req \<Rightarrow> session \<Rightarrow> 'n router
    \<Rightarrow> (string \<Rightarrow> 'n router \<Rightarrow> (http_answer \<times> 'n router) option) \<Rightarrow> (http_answer \<times> session \<times> 'n router) option" where
  "guarded_page henv api req s r form =
     (let (ok, s) = page_guard henv (fa_par api) req (rt_nvs r) s in
      if \<not> ok then Some (login_needed, s, r)
      else case rq_query req of
        None \<Rightarrow> Some (Page, s, r)
      | Some q \<Rightarrow>
          if \<not> he_alloc henv then Some (SendErr 500 ''Out of memory'', s, r)
          else do { (answer, r) \<leftarrow> form q r; Some (answer, s, r) })"

text \<open>\<open>snprintf\<close> into the redirect's buffer, then blanks become plus signs.\<close>

definition error_url :: "nat \<Rightarrow> string \<Rightarrow> string \<Rightarrow> http_answer" where
  "error_url len page msg = Redirect 303 (map (\<lambda>c. if c = CHR '' '' then CHR ''+'' else c) (take (len - 1) (page @ ''?error='' @ msg)))"

text \<open>What a step of a form may do: send the browser elsewhere at once, or go on; the flag: whether it acted.\<close>

datatype 'r form_step = Refused string 'r | Went bool 'r

section \<open>The front page: login, logout, password\<close>

text \<open>The answer, the message shown on the page, and the cookie that is set.\<close>

record front_answer =
  fr_answer :: http_answer
  fr_message :: string
  fr_cookie :: "string option"

definition shown :: "string \<Rightarrow> front_answer" where
  "shown msg = \<lparr>fr_answer = Page, fr_message = msg, fr_cookie = None\<rparr>"

definition to_front :: "string option \<Rightarrow> front_answer" where
  "to_front cookie = \<lparr>fr_answer = Redirect 303 ''/'', fr_message = [], fr_cookie = cookie\<rparr>"

text \<open>The form's fields: the body of a POST, as much as one call delivers, or the query.\<close>

definition form_text :: "http_env \<Rightarrow> http_req \<Rightarrow> string option" where
  "form_text henv req =
     (if \<not> he_alloc henv then None
      else if rq_post req then
        (if 0 < rq_content_len req \<and> rq_content_len req < 1024 then
           (case rq_body req of
              Piece b # _ \<Rightarrow> if take (rq_content_len req) b = [] then None else Some (take (rq_content_len req) b)
            | _ \<Rightarrow> None)
         else None)
      else rq_query req)"

text \<open>\<open>SHA-256\<close>, the new salt, what the buffer holds: as for \<open>set_web_password_hashed\<close>.\<close>

record pw_env =
  pe_sha :: "bytes \<Rightarrow> bytes"
  pe_salt :: bytes
  pe_mem :: string

definition revoke_wan :: "'n nvs_par \<Rightarrow> 'n router \<Rightarrow> 'n router option" where
  "revoke_wan par r =
     (if snd (get_config_param_int par ''wan_access'' 0 (rt_nvs r)) = 0 then Some r
      else let n = snd (set_config_param_int par ''wan_access'' 0 (rt_nvs r)) in do {
        (done, t) \<leftarrow> update_web_wan_acl False (snd (get_config_param_int par ''web_port'' 80 n)) (rt_acl r);
        Some (r\<lparr>rt_nvs := n, rt_acl := t\<rparr>) })"

definition change_password :: "pw_env \<Rightarrow> http_env \<Rightarrow> 'n nvs_par \<Rightarrow> http_req \<Rightarrow> string \<Rightarrow> string \<Rightarrow> bool \<Rightarrow> session \<Rightarrow> 'n router
    \<Rightarrow> (front_answer \<times> session \<times> 'n router) option" where
  "change_password pe henv par req new_pw confirm protected s r =
     (if \<not> check_csrf henv req then Some (shown ''ERROR: CSRF check failed.'', s, r)
      else let (auth, s) = is_authenticated henv req s in
        if \<not> (auth \<or> \<not> protected) then Some (shown ''ERROR: Not authorized to change password.'', s, r)
        else if new_pw \<noteq> confirm then Some (shown ''ERROR: Passwords do not match.'', s, r)
        else do {
          (err, n) \<leftarrow> set_web_password_hashed par (pe_sha pe) (pe_salt pe) (pe_mem pe) new_pw (rt_nvs r);
          let r = r\<lparr>rt_nvs := n\<rparr>;
          if err \<noteq> ESP_OK then Some (shown ''ERROR: Failed to save password.'', s, r)
          else do {
            r \<leftarrow> (if new_pw = [] then revoke_wan par r else Some r);
            Some (to_front None, clear_session s, r) } })"

definition index_form :: "pw_env \<Rightarrow> http_env \<Rightarrow> 'n nvs_par \<Rightarrow> http_req \<Rightarrow> bool \<Rightarrow> string \<Rightarrow> session \<Rightarrow> 'n router
    \<Rightarrow> (front_answer \<times> session \<times> 'n router) option" where
  "index_form pe henv par req protected q s r =
     (if rq_value req q ''logout'' 128 \<noteq> None then Some (shown ''Logged out successfully.'', clear_session s, r)
      else case rq_value req q ''login_password'' 128 of
        Some pw \<Rightarrow>
          (if \<not> protected then Some (shown ''ERROR: Incorrect password.'', s, r)
           else do {
             (good, n) \<leftarrow> verify_web_password par (pe_sha pe) (pe_salt pe) (pe_mem pe) (he_alloc henv) (preprocess_string pw) (rt_nvs r);
             let r = r\<lparr>rt_nvs := n\<rparr>;
             if good then let (cookie, s) = create_session henv s in Some (to_front (Some cookie), s, r)
             else Some (shown ''ERROR: Incorrect password.'', s, r) })
      | None \<Rightarrow>
          (case (rq_value req q ''new_password'' 128, rq_value req q ''confirm_password'' 128) of
             (Some a, Some b) \<Rightarrow> change_password pe henv par req (preprocess_string a) (preprocess_string b) protected s r
           | _ \<Rightarrow> if rq_value req q ''auth_required'' 128 \<noteq> None then Some (shown ''Please log in to access that page.'', s, r)
                  else Some (shown [], s, r)))"

text \<open>When the page is shown the session is looked at once more, and prolonged.\<close>

definition index_get_handler :: "pw_env \<Rightarrow> http_env \<Rightarrow> 'n nvs_par \<Rightarrow> http_req \<Rightarrow> session \<Rightarrow> 'n router
    \<Rightarrow> (front_answer \<times> session \<times> 'n router) option" where
  "index_get_handler pe henv par req s r = do {
     (ans, s, r) \<leftarrow> (case form_text henv req of
        None \<Rightarrow> Some (shown [], s, r)
      | Some q \<Rightarrow> index_form pe henv par req (is_web_password_set par (rt_nvs r)) q s r);
     Some (ans, if fr_answer ans = Page then snd (is_authenticated henv req s) else s, r) }"

section \<open>The firewall page\<close>

definition fw_addr :: "cmd_env \<Rightarrow> dhcp_reservation list \<Rightarrow> string \<Rightarrow> (u32 \<times> u32) option" where
  "fw_addr env tab s = (if s = [] then Some (0, 0) else acl_parse_ip_or_name env tab s)"

definition fw_port :: "http_req \<Rightarrow> string \<Rightarrow> string \<Rightarrow> u16" where
  "fw_port req q key =
     (case rq_value req q key 8 of None \<Rightarrow> 0
      | Some v \<Rightarrow> let v = preprocess_string v in if v \<noteq> ''*'' \<and> v \<noteq> [] then word_of_int (atoi v) else 0)"

definition fw_add :: "'n flash_api \<Rightarrow> cmd_env \<Rightarrow> http_req \<Rightarrow> string \<Rightarrow> 'n router \<Rightarrow> 'n router form_step option" where
  "fw_add api env req q r =
     (if rq_value req q ''acl_action'' 64 \<notin> {Some ''Add+Rule'', Some ''Add Rule''} then Some (Went False r)
      else case (rq_value req q ''acl_list'' 8, rq_value req q ''proto'' 8, rq_value req q ''src_ip'' 32,
          rq_value req q ''dst_ip'' 32, rq_value req q ''action'' 8) of
        (Some list_str, Some proto_text, Some src_str, Some dst_str, Some action_text) \<Rightarrow>
          let list_no = word_of_int (atoi list_str) :: u8; proto = word_of_int (atoi proto_text); action = word_of_int (atoi action_text)
          in (case fw_addr env (rt_res r) (preprocess_string src_str) of
                None \<Rightarrow> Some (Refused ''Invalid source IP address or device name'' r)
              | Some src \<Rightarrow>
                  (case fw_addr env (rt_res r) (preprocess_string dst_str) of
                     None \<Rightarrow> Some (Refused ''Invalid destination IP address or device name'' r)
                   | Some dst \<Rightarrow>
                       if unat list_no < MAX_ACL_LISTS then do {
                         (added, t) \<leftarrow> acl_add (unat list_no) (fst src) (snd src) (fst dst) (snd dst) proto
                           (fw_port req q ''src_port'') (fw_port req q ''dst_port'') action (rt_acl r);
                         if added then do { r \<leftarrow> do_save_rules api t r; Some (Went True r) }
                         else Some (Went False (r\<lparr>rt_acl := t\<rparr>)) }
                       else Some (Went False r)))
      | _ \<Rightarrow> Some (Went False r))"

definition fw_delete :: "'n flash_api \<Rightarrow> http_req \<Rightarrow> string \<Rightarrow> 'n router \<Rightarrow> (bool \<times> 'n router) option" where
  "fw_delete api req q r =
     (case (rq_value req q ''del_acl'' 64, rq_value req q ''del_idx'' 8) of
        (Some list_str, Some idx_str) \<Rightarrow>
          let list_no = word_of_int (atoi list_str) :: u8; rule_idx = word_of_int (atoi idx_str) :: u8 in
          if unat list_no < MAX_ACL_LISTS then do {
            (deleted, t) \<leftarrow> acl_delete (unat list_no) (unat rule_idx) (rt_acl r);
            if deleted then do { r \<leftarrow> do_save_rules api t r; Some (True, r) }
            else Some (False, r\<lparr>rt_acl := t\<rparr>) }
          else Some (False, r)
      | _ \<Rightarrow> Some (False, r))"

definition fw_clear :: "'n flash_api \<Rightarrow> http_req \<Rightarrow> string \<Rightarrow> 'n router \<Rightarrow> (bool \<times> 'n router) option" where
  "fw_clear api req q r =
     (case rq_value req q ''clear_acl'' 64 of
        None \<Rightarrow> Some (False, r)
      | Some list_str \<Rightarrow>
          let list_no = word_of_int (atoi list_str) :: u8 in
          if unat list_no < MAX_ACL_LISTS then do {
            t \<leftarrow> acl_clear (unat list_no) (rt_acl r);
            r \<leftarrow> do_save_rules api t r;
            Some (True, r) }
          else Some (False, r))"

definition firewall_form :: "'n flash_api \<Rightarrow> cmd_env \<Rightarrow> http_req \<Rightarrow> string \<Rightarrow> 'n router \<Rightarrow> (http_answer \<times> 'n router) option" where
  "firewall_form api env req q r = do {
     step \<leftarrow> fw_add api env req q r;
     (case step of
        Refused msg r \<Rightarrow> Some (error_url 192 ''/firewall'' msg, r)
      | Went added r \<Rightarrow> do {
          (deleted, r) \<leftarrow> fw_delete api req q r;
          (cleared, r) \<leftarrow> fw_clear api req q r;
          Some (if added \<or> deleted \<or> cleared then Redirect 303 ''/firewall'' else Page, r) }) }"

definition firewall_get_handler :: "http_env \<Rightarrow> 'n flash_api \<Rightarrow> cmd_env \<Rightarrow> http_req \<Rightarrow> session \<Rightarrow> 'n router
    \<Rightarrow> (http_answer \<times> session \<times> 'n router) option" where
  "firewall_get_handler henv api env req s r = guarded_page henv api req s r (firewall_form api env req)"

section \<open>Reservations and forwarded ports\<close>

definition set_known :: "'n flash_api \<Rightarrow> http_req \<Rightarrow> string \<Rightarrow> 'n router \<Rightarrow> 'n router" where
  "set_known api req q r =
     (let known_val = (if rq_value req q ''known_only'' 64 \<noteq> None then 1 else 0)
      in r\<lparr>rt_nvs := snd (set_config_param_int (fa_par api) ''ap_known_only'' known_val (rt_nvs r)), rt_ap_known_only := word_of_int known_val\<rparr>)"

definition web_reserve :: "'n flash_api \<Rightarrow> cmd_env \<Rightarrow> http_req \<Rightarrow> string \<Rightarrow> 'n router \<Rightarrow> 'n router form_step" where
  "web_reserve api env req q r =
     (case rq_value req q ''dhcp_action'' 64 of None \<Rightarrow> Went False r
      | Some action \<Rightarrow>
          let is_block = (action = ''Block'') in
          if \<not> (action = ''Add+Reservation'' \<or> action = ''Add Reservation'' \<or> is_block) then Went False r
          else case (rq_value req q ''dhcp_mac'' 64, rq_value req q ''dhcp_ip'' 64) of
            (Some mac_str, Some ip_str) \<Rightarrow>
              (case scan_mac (preprocess_string mac_str) of
                 None \<Rightarrow> Refused ''Invalid MAC address format'' r
               | Some mac \<Rightarrow>
                   let ip = (if is_block then 0 else ip4addr_aton env (preprocess_string ip_str)) in
                   if \<not> is_block \<and> ip = IPADDR_NONE then Refused ''Invalid IP address'' r
                   else if \<not> is_block \<and> \<not> in_ap_net (ce_ap_ip env) ip then Refused ''IP must be in the same network as the AP'' r
                   else let name = (case rq_value req q ''dhcp_name'' 64 of
                          Some v \<Rightarrow> if v = [] then None else Some (preprocess_string v) | None \<Rightarrow> None)
                        in Went True (snd (do_add_reservation api mac ip name r)))
          | _ \<Rightarrow> Went False r)"

definition web_unreserve :: "'n flash_api \<Rightarrow> http_req \<Rightarrow> string \<Rightarrow> 'n router \<Rightarrow> 'n router" where
  "web_unreserve api req q r =
     (case rq_value req q ''del_dhcp_mac'' 64 of None \<Rightarrow> r
      | Some v \<Rightarrow> (case scan_fields (CHR '':'') 6 (preprocess_string v) of
                    None \<Rightarrow> r | Some mac \<Rightarrow> snd (do_del_reservation api mac r)))"

definition web_proto :: "string \<Rightarrow> u8" where
  "web_proto v = (if v = ''TCP'' then PROTO_TCP else PROTO_UDP)"

definition web_forward :: "'n flash_api \<Rightarrow> cmd_env \<Rightarrow> http_req \<Rightarrow> string \<Rightarrow> 'n router \<Rightarrow> 'n router form_step" where
  "web_forward api env req q r =
     (if rq_value req q ''port_action'' 64 \<notin> {Some ''Add+Forward'', Some ''Add Forward''} then Went False r
      else case (rq_value req q ''proto'' 64, rq_value req q ''ext_port'' 64, rq_value req q ''int_ip'' 64, rq_value req q ''int_port'' 64) of
        (Some proto_text, Some ext_str, Some ip_str, Some int_str) \<Rightarrow>
          let proto = web_proto proto_text; ext_port = word_of_int (atoi ext_str);
              int_ip = (case ip_or_device env (preprocess_string ip_str) (rt_res r) of Some a \<Rightarrow> a | None \<Rightarrow> IPADDR_NONE)
          in if int_ip = IPADDR_NONE then Refused ''Invalid IP address or device name'' r
             else if \<not> in_ap_net (ce_ap_ip env) int_ip then Refused ''Internal IP must be in the same network as the AP'' r
             else if port_taken (rt_pm r) proto ext_port then Refused ''External port is already in use'' r
             else Went True (do_add_portmap api env proto ext_port int_ip (word_of_int (atoi int_str)) r)
      | _ \<Rightarrow> Went False r)"

definition web_unforward :: "'n flash_api \<Rightarrow> http_req \<Rightarrow> string \<Rightarrow> 'n router \<Rightarrow> 'n router" where
  "web_unforward api req q r =
     (case (rq_value req q ''del_proto'' 64, rq_value req q ''del_port'' 64) of
        (Some proto_text, Some port_text) \<Rightarrow> do_del_portmap api (web_proto proto_text) (word_of_int (atoi port_text)) r
      | _ \<Rightarrow> r)"

definition mappings_form :: "'n flash_api \<Rightarrow> cmd_env \<Rightarrow> http_req \<Rightarrow> string \<Rightarrow> 'n router \<Rightarrow> http_answer \<times> 'n router" where
  "mappings_form api env req q r =
     (if rq_value req q ''set_known'' 64 \<noteq> None then (Redirect 303 ''/mappings'', set_known api req q r)
      else case web_reserve api env req q r of
        Refused msg r \<Rightarrow> (error_url 128 ''/mappings'' msg, r)
      | Went acted r \<Rightarrow>
          (case web_forward api env req q (web_unreserve api req q r) of
             Refused msg r \<Rightarrow> (error_url 128 ''/mappings'' msg, r)
           | Went acted r \<Rightarrow> (Page, web_unforward api req q r)))"

definition mappings_get_handler :: "http_env \<Rightarrow> 'n flash_api \<Rightarrow> cmd_env \<Rightarrow> http_req \<Rightarrow> session \<Rightarrow> 'n router
    \<Rightarrow> (http_answer \<times> session \<times> 'n router) option" where
  "mappings_get_handler henv api env req s r =
     guarded_page henv api req s r (\<lambda>q r. Some (mappings_form api env req q r))"

end
