(* ===== verification/Ddns.thy ===== *)
theory Ddns
  imports Config_Params Acl_Text Http_Access
begin

text \<open>
  The dynamic DNS client of \<open>components/ddns\<close>: settings in flash, the requests to the five providers
  and how their answers are read, and the updater with its timer, its task and the address of the
  uplink.  The HTTP client, the base64 encoder of mbedtls and the flash are parameters.
\<close>

section \<open>Settings\<close>

abbreviation DDNS_PROVIDER_NOIP :: u8 where "DDNS_PROVIDER_NOIP \<equiv> 0"
abbreviation DDNS_PROVIDER_DUCKDNS :: u8 where "DDNS_PROVIDER_DUCKDNS \<equiv> 1"
abbreviation DDNS_PROVIDER_SELFHOST :: u8 where "DDNS_PROVIDER_SELFHOST \<equiv> 2"
abbreviation DDNS_PROVIDER_DYNU :: u8 where "DDNS_PROVIDER_DYNU \<equiv> 3"
abbreviation DDNS_PROVIDER_NAMECHEAP :: u8 where "DDNS_PROVIDER_NAMECHEAP \<equiv> 4"

definition DDNS_MAX_HOSTNAME :: nat where "DDNS_MAX_HOSTNAME = 128"
definition DDNS_MAX_TOKEN :: nat where "DDNS_MAX_TOKEN = 128"
definition DDNS_MAX_PASS :: nat where "DDNS_MAX_PASS = 64"

text \<open>The default of the build, in seconds.\<close>

definition DDNS_POLL_INTERVAL :: u32 where "DDNS_POLL_INTERVAL = 86400"

record ddns_config_t =
  dd_provider :: u8
  dd_hostname :: string
  dd_token :: string
  dd_password :: string
  dd_poll_interval :: u32
  dd_saved_ip :: u32
  dd_last_update :: int
  dd_enabled :: bool
  dd_provider_name :: string

definition provider_names :: "string list" where
  "provider_names = [''NoIP'', ''DuckDNS'', ''Selfhost.de'', ''Dynu'', ''Namecheap'']"

definition ddns_clear_config :: ddns_config_t where
  "ddns_clear_config = \<lparr>dd_provider = 0, dd_hostname = [], dd_token = [], dd_password = [], dd_poll_interval = DDNS_POLL_INTERVAL,
     dd_saved_ip = 0, dd_last_update = 0, dd_enabled = False, dd_provider_name = ''NoIP''\<rparr>"

definition ddns_get_fqdn :: "ddns_config_t \<Rightarrow> nat \<Rightarrow> string" where
  "ddns_get_fqdn g fqdn_len =
     (if dd_provider g = DDNS_PROVIDER_DUCKDNS then
        (if dd_hostname g \<noteq> [] then take (fqdn_len - 1) (dd_hostname g @ ''.duckdns.org'') else [])
      else take (fqdn_len - 1) (dd_hostname g))"

text \<open>The flash: the named strings and integers, and the other widths the client uses.\<close>

record 'n ddns_flash =
  df_par :: "'n nvs_par"
  df_get_u8 :: "'n \<Rightarrow> string \<Rightarrow> u8 option"
  df_set_u8 :: "'n \<Rightarrow> string \<Rightarrow> u8 \<Rightarrow> 'n"
  df_get_u32 :: "'n \<Rightarrow> string \<Rightarrow> u32 option"
  df_set_u32 :: "'n \<Rightarrow> string \<Rightarrow> u32 \<Rightarrow> 'n"
  df_get_i64 :: "'n \<Rightarrow> string \<Rightarrow> int option"
  df_set_i64 :: "'n \<Rightarrow> string \<Rightarrow> int \<Rightarrow> 'n"

definition ddns_save_config :: "'n ddns_flash \<Rightarrow> ddns_config_t \<Rightarrow> 'n \<Rightarrow> esp_err \<times> 'n" where
  "ddns_save_config api g n =
     (if np_open (df_par api) n \<noteq> ESP_OK then (np_open (df_par api) n, n)
      else
        let n = snd (np_set_i32 (df_par api) n ''ddns_en'' (if dd_enabled g then 1 else 0));
            n = df_set_u8 api n ''ddns_prov'' (dd_provider g);
            n = snd (np_set_str (df_par api) n ''ddns_host'' (dd_hostname g));
            n = snd (np_set_str (df_par api) n ''ddns_token'' (dd_token g));
            n = snd (np_set_str (df_par api) n ''ddns_pass'' (dd_password g));
            n = snd (np_set_i32 (df_par api) n ''ddns_poll'' (sint (dd_poll_interval g)));
            n = df_set_u32 api n ''ddns_saved_ip'' (dd_saved_ip g);
            n = df_set_i64 api n ''ddns_last_upd'' (dd_last_update g)
        in (ESP_OK, snd (np_commit (df_par api) n)))"

text \<open>\<open>nvs_get_str\<close> into a buffer of \<open>size\<close> bytes: a longer string is an error, and none is kept.\<close>

definition get_text :: "'n nvs_par \<Rightarrow> 'n \<Rightarrow> string \<Rightarrow> nat \<Rightarrow> string" where
  "get_text par n key sz = (let (err, v) = np_get_str par n key in if err = ESP_OK \<and> length v < sz then v else [])"

definition get_int :: "'n nvs_par \<Rightarrow> 'n \<Rightarrow> string \<Rightarrow> int option" where
  "get_int par n key = (let (err, v) = np_get_i32 par n key in if err = ESP_OK then Some v else None)"

text \<open>\<open>None\<close>: the table of names is read past its end.\<close>

definition ddns_load_config :: "'n ddns_flash \<Rightarrow> 'n \<Rightarrow> (esp_err \<times> ddns_config_t) option" where
  "ddns_load_config api n =
     (let g = ddns_clear_config; par = df_par api in
      if np_open par n \<noteq> ESP_OK then Some (np_open par n, g)
      else
        let g = (case get_int par n ''ddns_en'' of Some en \<Rightarrow> g\<lparr>dd_enabled := (en \<noteq> 0)\<rparr> | None \<Rightarrow> g);
            g = (case df_get_u8 api n ''ddns_prov'' of Some prov \<Rightarrow> g\<lparr>dd_provider := prov\<rparr> | None \<Rightarrow> g);
            g = g\<lparr>dd_hostname := get_text par n ''ddns_host'' DDNS_MAX_HOSTNAME, dd_token := get_text par n ''ddns_token'' DDNS_MAX_TOKEN,
                  dd_password := get_text par n ''ddns_pass'' DDNS_MAX_PASS\<rparr>;
            g = (case get_int par n ''ddns_poll'' of Some poll \<Rightarrow> if poll > 0 then g\<lparr>dd_poll_interval := word_of_int poll\<rparr> else g | None \<Rightarrow> g);
            g = (case df_get_u32 api n ''ddns_saved_ip'' of Some ip \<Rightarrow> g\<lparr>dd_saved_ip := ip\<rparr> | None \<Rightarrow> g);
            g = (case df_get_i64 api n ''ddns_last_upd'' of Some t \<Rightarrow> g\<lparr>dd_last_update := t\<rparr> | None \<Rightarrow> g)
        in if unat (dd_provider g) < length provider_names
           then Some (ESP_OK, g\<lparr>dd_provider_name := strncpy_trunc 16 (provider_names ! unat (dd_provider g))\<rparr>)
           else None)"

section \<open>Requests\<close>

text \<open>\<open>url_encode\<close> of \<open>ddns_providers.h\<close>: what is written from position \<open>j\<close> on.\<close>

fun ddns_url_encode_from :: "nat \<Rightarrow> nat \<Rightarrow> string \<Rightarrow> string" where
  "ddns_url_encode_from j out_len [] = []"
| "ddns_url_encode_from j out_len (c # s) =
     (if j + 4 < out_len then
        if url_plain c then c # ddns_url_encode_from (j + 1) out_len s
        else [CHR ''%'', hex_upper (of_char c div 16), hex_upper (of_char c mod 16)] @ ddns_url_encode_from (j + 3) out_len s
      else [])"

definition ddns_url_encode :: "string \<Rightarrow> nat \<Rightarrow> string" where
  "ddns_url_encode s out_len = ddns_url_encode_from 0 out_len s"

text \<open>A request: the URL and the \<open>Authorization\<close> header, if there is one.\<close>

record ddns_request =
  dr_url :: string
  dr_auth :: "string option"

text \<open>
  What the HTTP client answers: whether it could be made, what performing the request gave, the
  status, and the bytes of the body the response buffer has room for.
\<close>

record ddns_reply =
  dy_init :: bool
  dy_perform :: esp_err
  dy_status :: int
  dy_body :: string

text \<open>\<open>b64\<close>: \<open>mbedtls_base64_encode\<close> with the size of its buffer; \<open>None\<close> when it fails.\<close>

definition ddns_build_auth :: "(string \<Rightarrow> nat \<Rightarrow> string option) \<Rightarrow> string \<Rightarrow> string \<Rightarrow> string option" where
  "ddns_build_auth b64 user pass =
     (case b64 (take 255 (user @ '':'' @ pass)) 259 of
        None \<Rightarrow> None
      | Some enc \<Rightarrow> Some (take 269 (''Basic '' @ enc)))"

definition noip_request :: "(string \<Rightarrow> nat \<Rightarrow> string option) \<Rightarrow> u32 \<Rightarrow> string \<Rightarrow> string \<Rightarrow> string \<Rightarrow> ddns_request option" where
  "noip_request b64 wan_ip hostname user pass =
     (let url = take 319 (''https://dyn.update.no-ip.com/nic/update?hostname='' @ ddns_url_encode hostname 256 @ ''&myip='' @ ipstr wan_ip)
      in map_option (\<lambda>auth. \<lparr>dr_url = url, dr_auth = Some auth\<rparr>) (ddns_build_auth b64 user pass))"

definition duckdns_request :: "u32 \<Rightarrow> string \<Rightarrow> string \<Rightarrow> ddns_request" where
  "duckdns_request wan_ip subdomain token =
     \<lparr>dr_url = take 639 (''https://www.duckdns.org/update?domains='' @ ddns_url_encode subdomain 256 @ ''&token='' @
        ddns_url_encode token 256 @ ''&ip='' @ ipstr wan_ip), dr_auth = None\<rparr>"

definition selfhost_request :: "u32 \<Rightarrow> string \<Rightarrow> string \<Rightarrow> ddns_request" where
  "selfhost_request wan_ip user pass =
     \<lparr>dr_url = take 639 (''https://carol.selfhost.de/update?username='' @ ddns_url_encode user 256 @ ''&password='' @
        ddns_url_encode pass 256 @ ''&myip='' @ ipstr wan_ip @ ''&hostname=1''), dr_auth = None\<rparr>"

definition dynu_request :: "(string \<Rightarrow> nat \<Rightarrow> string option) \<Rightarrow> u32 \<Rightarrow> string \<Rightarrow> string \<Rightarrow> string \<Rightarrow> ddns_request option" where
  "dynu_request b64 wan_ip hostname user pass =
     (let url = take 383 (''https://api.dynu.com/nic/update?hostname='' @ ddns_url_encode hostname 256 @ ''&myip='' @ ipstr wan_ip)
      in map_option (\<lambda>auth. \<lparr>dr_url = url, dr_auth = Some auth\<rparr>) (ddns_build_auth b64 user pass))"

definition namecheap_fqdn_split :: "string \<Rightarrow> nat \<Rightarrow> nat \<Rightarrow> (string \<times> string) option" where
  "namecheap_fqdn_split fqdn host_len domain_len =
     (let host = takeWhile (\<lambda>c. c \<noteq> CHR ''.'') fqdn; rest = drop (length host) fqdn in
      if rest = [] \<or> host = [] then None
      else if length host \<ge> host_len then None
      else Some (host, take (domain_len - 1) (drop 1 rest)))"

definition namecheap_request :: "u32 \<Rightarrow> string \<Rightarrow> string \<Rightarrow> ddns_request option" where
  "namecheap_request wan_ip fqdn pass =
     (case namecheap_fqdn_split fqdn 128 128 of
        None \<Rightarrow> None
      | Some (host, domain) \<Rightarrow> Some
          \<lparr>dr_url = take 767 (''https://dynamicdns.park-your-domain.com/update?host='' @ ddns_url_encode host 256 @ ''&domain='' @
             ddns_url_encode domain 256 @ ''&password='' @ ddns_url_encode pass 192 @ ''&ip='' @ ipstr wan_ip), dr_auth = None\<rparr>)"

section \<open>Answers\<close>

text \<open>
  The part the adapters share: only status 200 is looked at, the body goes into the response buffer
  (\<open>room\<close> bytes with its NUL), and \<open>judge\<close> decides.  Without a body the buffer stays empty.
\<close>

definition ddns_exchange :: "(ddns_request \<Rightarrow> ddns_reply) \<Rightarrow> nat \<Rightarrow> (string \<Rightarrow> string) \<Rightarrow> (string \<Rightarrow> bool) \<Rightarrow> ddns_request
    \<Rightarrow> esp_err \<times> string" where
  "ddns_exchange server room trim judge rq =
     (let a = server rq in
      if \<not> dy_init a then (ESP_FAIL, [])
      else if dy_perform a \<noteq> ESP_OK then (dy_perform a, [])
      else if dy_status a \<noteq> 200 then (ESP_FAIL, [])
      else let resp = c_string (trim (take (room - 1) (dy_body a)))
        in (if judge resp then ESP_OK else ESP_FAIL, resp))"

definition says :: "string \<Rightarrow> string \<Rightarrow> bool" where
  "says word resp \<longleftrightarrow> strstr resp word \<noteq> None"

definition noip_update :: "(ddns_request \<Rightarrow> ddns_reply) \<Rightarrow> (string \<Rightarrow> nat \<Rightarrow> string option) \<Rightarrow> nat \<Rightarrow> u32 \<Rightarrow> string \<Rightarrow> string \<Rightarrow> string
    \<Rightarrow> esp_err \<times> string" where
  "noip_update server b64 room wan_ip hostname user pass =
     (case noip_request b64 wan_ip hostname user pass of
        None \<Rightarrow> (ESP_FAIL, [])
      | Some rq \<Rightarrow> ddns_exchange server room (\<lambda>b. b) (\<lambda>r. says ''good'' r \<or> says ''nochg'' r) rq)"

text \<open>DuckDNS: white space at the end is cut off.\<close>

definition trim_end :: "string \<Rightarrow> string" where
  "trim_end b = rev (dropWhile (\<lambda>c. c \<in> {CHR 0x0A, CHR 0x0D, CHR '' ''}) (rev b))"

definition duckdns_update :: "(ddns_request \<Rightarrow> ddns_reply) \<Rightarrow> nat \<Rightarrow> u32 \<Rightarrow> string \<Rightarrow> string \<Rightarrow> esp_err \<times> string" where
  "duckdns_update server room wan_ip subdomain token =
     ddns_exchange server room trim_end (\<lambda>r. strcaseeq r ''OK'') (duckdns_request wan_ip subdomain token)"

text \<open>The copy in lower (or upper) case has room for 128 bytes.\<close>

definition selfhost_update :: "(ddns_request \<Rightarrow> ddns_reply) \<Rightarrow> nat \<Rightarrow> u32 \<Rightarrow> string \<Rightarrow> string \<Rightarrow> esp_err \<times> string" where
  "selfhost_update server room wan_ip user pass =
     ddns_exchange server room (\<lambda>b. b)
       (\<lambda>r. let low = map c_tolower (take 127 r) in says ''good'' low \<or> says ''nochg'' low) (selfhost_request wan_ip user pass)"

definition dynu_update :: "(ddns_request \<Rightarrow> ddns_reply) \<Rightarrow> (string \<Rightarrow> nat \<Rightarrow> string option) \<Rightarrow> nat \<Rightarrow> u32 \<Rightarrow> string \<Rightarrow> string \<Rightarrow> string
    \<Rightarrow> esp_err \<times> string" where
  "dynu_update server b64 room wan_ip hostname user pass =
     (case dynu_request b64 wan_ip hostname user pass of
        None \<Rightarrow> (ESP_FAIL, [])
      | Some rq \<Rightarrow> ddns_exchange server room (\<lambda>b. b)
          (\<lambda>r. let low = map c_tolower (take 127 r) in says ''good'' low \<or> says ''nochg'' low) rq)"

definition namecheap_update :: "(ddns_request \<Rightarrow> ddns_reply) \<Rightarrow> nat \<Rightarrow> u32 \<Rightarrow> string \<Rightarrow> string \<Rightarrow> esp_err \<times> string" where
  "namecheap_update server room wan_ip fqdn pass =
     (case namecheap_request wan_ip fqdn pass of
        None \<Rightarrow> (ESP_FAIL, [])
      | Some rq \<Rightarrow> ddns_exchange server room (\<lambda>b. b) (\<lambda>r. says ''SUCCESS'' (map c_toupper (take 127 r))) rq)"

definition ddns_update :: "(ddns_request \<Rightarrow> ddns_reply) \<Rightarrow> (string \<Rightarrow> nat \<Rightarrow> string option) \<Rightarrow> ddns_config_t \<Rightarrow> u32 \<Rightarrow> nat \<Rightarrow> esp_err \<times> string" where
  "ddns_update server b64 g wan_ip room =
     (let fqdn = ddns_get_fqdn g 128; p = dd_provider g in
      if p = DDNS_PROVIDER_NOIP then
        (if fqdn = [] then (ESP_FAIL, []) else noip_update server b64 room wan_ip fqdn (dd_token g) (dd_password g))
      else if p = DDNS_PROVIDER_DUCKDNS then
        (if fqdn = [] then (ESP_FAIL, []) else duckdns_update server room wan_ip (dd_hostname g) (dd_token g))
      else if p = DDNS_PROVIDER_SELFHOST then selfhost_update server room wan_ip (dd_token g) (dd_password g)
      else if p = DDNS_PROVIDER_DYNU then
        (if fqdn = [] then (ESP_FAIL, []) else dynu_update server b64 room wan_ip fqdn (dd_token g) (dd_password g))
      else if p = DDNS_PROVIDER_NAMECHEAP then
        (if fqdn = [] then (ESP_FAIL, []) else namecheap_update server room wan_ip fqdn (dd_password g))
      else (ESP_FAIL, []))"

section \<open>The updater\<close>

datatype ddns_trigger_reason_t = DDNS_TRIGGER_IP_CHANGE | DDNS_TRIGGER_KEEPALIVE | DDNS_TRIGGER_MANUAL

text \<open>
  A task that was created, or one whose request for an address was answered and that has not yet
  written down the result.
\<close>

datatype ddns_task = Created | Answered u32 esp_err

record 'n ddns_state =
  ds_cfg :: ddns_config_t
  ds_wan_ip :: u32
  ds_wan_changed :: bool
  ds_poll_timer :: bool
  ds_timer_running :: bool
  ds_update_running :: bool
  ds_reason :: ddns_trigger_reason_t
  ds_tasks :: "ddns_task list"
  ds_flash :: 'n

definition ddns_trigger_update :: "bool \<Rightarrow> ddns_trigger_reason_t \<Rightarrow> 'n ddns_state \<Rightarrow> esp_err \<times> 'n ddns_state" where
  "ddns_trigger_update task_ok reason s =
     (if \<not> dd_enabled (ds_cfg s) \<or> ds_wan_ip s = 0 then (ESP_OK, s)
      else if ds_update_running s then (ESP_OK, s)
      else let s = s\<lparr>ds_reason := reason, ds_update_running := True\<rparr> in
        if \<not> task_ok then (ESP_FAIL, s\<lparr>ds_update_running := False\<rparr>)
        else (ESP_OK, s\<lparr>ds_tasks := ds_tasks s @ [Created]\<rparr>))"

text \<open>\<open>ddns_update_task\<close>: up to the answer, and from the answer on, for the task at position \<open>i\<close>.\<close>

definition ddns_task_ask :: "(ddns_request \<Rightarrow> ddns_reply) \<Rightarrow> (string \<Rightarrow> nat \<Rightarrow> string option) \<Rightarrow> nat \<Rightarrow> 'n ddns_state \<Rightarrow> 'n ddns_state" where
  "ddns_task_ask server b64 i s =
     (if i < length (ds_tasks s) \<and> ds_tasks s ! i = Created
      then let ip = ds_wan_ip s; (err, resp) = ddns_update server b64 (ds_cfg s) ip 128
        in s\<lparr>ds_tasks := (ds_tasks s)[i := Answered ip err]\<rparr>
      else s)"

definition ddns_task_end :: "'n ddns_flash \<Rightarrow> int \<Rightarrow> nat \<Rightarrow> 'n ddns_state \<Rightarrow> 'n ddns_state" where
  "ddns_task_end api now i s =
     (case (if i < length (ds_tasks s) then ds_tasks s ! i else Created) of
        Created \<Rightarrow> s
      | Answered ip err \<Rightarrow>
          let s = (if err = ESP_OK
                   then let g = (ds_cfg s)\<lparr>dd_last_update := now, dd_saved_ip := ip\<rparr>
                     in s\<lparr>ds_cfg := g, ds_flash := snd (ddns_save_config api g (ds_flash s))\<rparr>
                   else s)
          in s\<lparr>ds_update_running := False, ds_tasks := take i (ds_tasks s) @ drop (i + 1) (ds_tasks s)\<rparr>)"

definition ddns_timer_cb :: "bool \<Rightarrow> 'n ddns_state \<Rightarrow> 'n ddns_state" where
  "ddns_timer_cb task_ok s =
     (if \<not> dd_enabled (ds_cfg s) \<or> ds_wan_ip s = 0 then s else snd (ddns_trigger_update task_ok DDNS_TRIGGER_KEEPALIVE s))"

text \<open>The timer: the flags say whether it could be made and started.\<close>

definition ddns_start_timer :: "bool \<Rightarrow> bool \<Rightarrow> 'n ddns_state \<Rightarrow> 'n ddns_state" where
  "ddns_start_timer made started s =
     (if dd_enabled (ds_cfg s) \<and> dd_poll_interval (ds_cfg s) > 0 \<and> made
      then s\<lparr>ds_poll_timer := True, ds_timer_running := (started \<or> ds_timer_running s)\<rparr>
      else s)"

definition ddns_reload_config :: "'n ddns_flash \<Rightarrow> bool \<Rightarrow> bool \<Rightarrow> 'n ddns_state \<Rightarrow> (esp_err \<times> 'n ddns_state) option" where
  "ddns_reload_config api made started s =
     (let s = (if ds_poll_timer s then s\<lparr>ds_timer_running := False, ds_poll_timer := False\<rparr> else s) in do {
      (err, g) \<leftarrow> ddns_load_config api (ds_flash s);
      let s = s\<lparr>ds_cfg := g\<rparr>
      in if err \<noteq> ESP_OK then Some (err, s) else Some (ESP_OK, ddns_start_timer made started s) })"

definition ddns_init :: "'n ddns_flash \<Rightarrow> bool \<Rightarrow> bool \<Rightarrow> 'n ddns_state \<Rightarrow> (esp_err \<times> 'n ddns_state) option" where
  "ddns_init api made started s = do {
     (err, g) \<leftarrow> ddns_load_config api (ds_flash s);
     let s = s\<lparr>ds_cfg := if err \<noteq> ESP_OK then ddns_clear_config else g\<rparr>
     in Some (ESP_OK, ddns_start_timer made started s) }"

definition ddns_update_wan_ip :: "bool \<Rightarrow> u32 \<Rightarrow> 'n ddns_state \<Rightarrow> 'n ddns_state" where
  "ddns_update_wan_ip task_ok wan_ip s =
     (let s = (if ds_wan_ip s \<noteq> wan_ip then s\<lparr>ds_wan_ip := wan_ip, ds_wan_changed := True\<rparr> else s)
      in if dd_enabled (ds_cfg s) \<and> ds_wan_ip s \<noteq> 0 then snd (ddns_trigger_update task_ok DDNS_TRIGGER_IP_CHANGE s) else s)"

section \<open>Queries\<close>

text \<open>\<open>utc\<close>: the time as \<open>gmtime\<close> and \<open>strftime\<close> print it.\<close>

definition shown_ip :: "u32 \<Rightarrow> string" where
  "shown_ip ip = (if ip \<noteq> 0 then ipstr ip else ''0.0.0.0'')"

definition ddns_get_status :: "(int \<Rightarrow> string) \<Rightarrow> 'n ddns_state \<Rightarrow> nat \<Rightarrow> string" where
  "ddns_get_status utc s len =
     (let g = ds_cfg s; nl = [CHR 0x0A] in
      take (len - 1) (''DDNS: '' @ (if dd_enabled g then ''enabled'' else ''disabled'') @ '' ['' @
        (if ds_timer_running s then ''timer-running'' else ''stopped'') @ '']'' @ nl @
        ''  Provider:    '' @ (if dd_enabled g then dd_provider_name g else ''N/A'') @ nl @
        ''  Hostname:    '' @ (if dd_hostname g \<noteq> [] then dd_hostname g else ''(none)'') @ nl @
        ''  WAN IP:      '' @ shown_ip (ds_wan_ip s) @ nl @
        ''  Last update: '' @ (if dd_last_update g \<noteq> 0 then utc (dd_last_update g) else ''Never'') @ nl @
        ''  Saved IP:    '' @ shown_ip (dd_saved_ip g) @ nl @
        ''  Poll:        '' @ dec_string (unat (dd_poll_interval g) div 3600) @ '' h''))"

definition ddns_get_status_html :: "(int \<Rightarrow> string) \<Rightarrow> 'n ddns_state \<Rightarrow> nat \<Rightarrow> string" where
  "ddns_get_status_html utc s len =
     (let g = ds_cfg s; row = (\<lambda>k v. ''<tr><td>'' @ k @ ''</td><td>'' @ v @ ''</td></tr>'') in
      take (len - 1) (
        row ''State'' ((if dd_enabled g then ''enabled'' else ''disabled'') @ '' ['' @ (if ds_timer_running s then ''running'' else ''stopped'') @ '']'') @
        row ''Provider'' (if dd_enabled g then dd_provider_name g else ''N/A'') @
        row ''WAN IP'' (shown_ip (ds_wan_ip s)) @
        row ''Last Update'' (if dd_last_update g \<noteq> 0 then utc (dd_last_update g) else ''Never'') @
        row ''Saved IP'' (shown_ip (dd_saved_ip g)) @
        row ''Poll'' (dec_string (unat (dd_poll_interval g) div 3600) @ '' h'')))"

definition ddns_get_provider_index :: "string \<Rightarrow> int" where
  "ddns_get_provider_index name =
     (case find_first (\<lambda>k. k = name) provider_names of Some i \<Rightarrow> int i | None \<Rightarrow> -1)"

definition ddns_get_provider_name :: "int \<Rightarrow> string" where
  "ddns_get_provider_name index =
     (if index < 0 \<or> index \<ge> int (length provider_names) then ''Unknown'' else provider_names ! nat index)"

end
