(* ===== verification/Web_Settings.thy ===== *)
theory Web_Settings
  imports Web_Pages Ddns
begin

text \<open>
  The pages with stored settings (\<open>components/http_server/http_server.c\<close>): the access point, the remote
  console and the capture; the PPPoE session; the WireGuard tunnel; dynamic DNS.  The build with an
  Ethernet uplink: the part of the page for the Wi-Fi client is not in it.
\<close>

section \<open>Texts and numbers of a form\<close>

text \<open>A text that is stored decoded, one that is stored only when it is not empty, and a number.\<close>

definition form_str :: "http_req \<Rightarrow> string \<Rightarrow> nat \<Rightarrow> string \<Rightarrow> param_set list" where
  "form_str req q len key = (case rq_value req q key len of Some v \<Rightarrow> [SetStr key (preprocess_string v)] | None \<Rightarrow> [])"

definition form_secret :: "http_req \<Rightarrow> string \<Rightarrow> nat \<Rightarrow> string \<Rightarrow> param_set list" where
  "form_secret req q len key =
     (case rq_value req q key len of Some v \<Rightarrow> if v = [] then [] else [SetStr key (preprocess_string v)] | None \<Rightarrow> [])"

definition form_int :: "http_req \<Rightarrow> string \<Rightarrow> nat \<Rightarrow> string \<Rightarrow> param_set list" where
  "form_int req q len key = (case rq_value req q key len of Some v \<Rightarrow> [SetInt key (atoi v)] | None \<Rightarrow> [])"

section \<open>PPPoE and WireGuard\<close>

text \<open>Stored when the switch is in the form and the flash opens; the flag: whether a restart is scheduled.\<close>

definition settings_form :: "'n nvs_par \<Rightarrow> http_env \<Rightarrow> http_req \<Rightarrow> string \<Rightarrow> (string \<Rightarrow> param_set list) \<Rightarrow> 'n \<Rightarrow> bool \<times> 'n" where
  "settings_form par henv req key sets n =
     (case rq_query req of
        Some q \<Rightarrow>
          if he_alloc henv \<and> rq_value req q key 128 \<noteq> None \<and> np_open par n = ESP_OK then (True, put_params par (sets q) n)
          else (False, n)
      | None \<Rightarrow> (False, n))"

definition pppoe_sets :: "http_req \<Rightarrow> string \<Rightarrow> param_set list" where
  "pppoe_sets req q =
     form_int req q 128 ''pppoe_en'' @ form_str req q 128 ''pppoe_user'' @ form_secret req q 128 ''pppoe_pass'' @
     form_str req q 128 ''pppoe_svc'' @ form_int req q 128 ''pppoe_auth'' @ form_int req q 128 ''pppoe_vlan'' @
     (case rq_value req q ''pppoe_bj'' 128 of Some v \<Rightarrow> [SetInt ''pppoe_bj'' (if atoi v \<noteq> 0 then 1 else 0)] | None \<Rightarrow> [])"

definition vpn_sets :: "http_req \<Rightarrow> string \<Rightarrow> param_set list" where
  "vpn_sets req q =
     form_int req q 128 ''vpn_enabled'' @ form_secret req q 128 ''vpn_privkey'' @ form_str req q 128 ''vpn_pubkey'' @
     form_secret req q 128 ''vpn_psk'' @ form_str req q 128 ''vpn_endpoint'' @ form_int req q 128 ''vpn_port'' @
     form_str req q 128 ''vpn_ip'' @ form_str req q 128 ''vpn_mask'' @ form_str req q 128 ''vpn_dns'' @
     form_int req q 128 ''vpn_ka'' @ form_int req q 128 ''vpn_ks'' @ form_int req q 128 ''vpn_rall''"

text \<open>The last component: whether a restart is scheduled.\<close>

definition settings_page :: "http_env \<Rightarrow> 'n nvs_par \<Rightarrow> http_req \<Rightarrow> string \<Rightarrow> (http_req \<Rightarrow> string \<Rightarrow> param_set list) \<Rightarrow> session \<Rightarrow> 'n
    \<Rightarrow> http_answer \<times> session \<times> 'n \<times> bool" where
  "settings_page henv par req key sets s n =
     (let (ok, s) = page_guard henv par req n s in
      if \<not> ok then (login_needed, s, n, False)
      else let (restart, n) = settings_form par henv req key (sets req) n in (Page, s, n, restart))"

definition pppoe_get_handler :: "http_env \<Rightarrow> 'n nvs_par \<Rightarrow> http_req \<Rightarrow> session \<Rightarrow> 'n \<Rightarrow> http_answer \<times> session \<times> 'n \<times> bool" where
  "pppoe_get_handler henv par req s n = settings_page henv par req ''pppoe_en'' pppoe_sets s n"

definition vpn_get_handler :: "http_env \<Rightarrow> 'n nvs_par \<Rightarrow> http_req \<Rightarrow> session \<Rightarrow> 'n \<Rightarrow> http_answer \<times> session \<times> 'n \<times> bool" where
  "vpn_get_handler henv par req s n = settings_page henv par req ''vpn_enabled'' vpn_sets s n"

section \<open>Dynamic DNS\<close>

abbreviation DDNS_PARAM :: nat where "DDNS_PARAM \<equiv> DDNS_MAX_TOKEN + 1"

text \<open>What the page makes the updater do.\<close>

datatype ddns_act = DdnsTrigger | DdnsReload

definition ddns_get_handler :: "http_env \<Rightarrow> 'n nvs_par \<Rightarrow> ('n \<Rightarrow> string \<Rightarrow> u8 \<Rightarrow> 'n) \<Rightarrow> http_req \<Rightarrow> session \<Rightarrow> 'n
    \<Rightarrow> http_answer \<times> session \<times> 'n \<times> ddns_act list" where
  "ddns_get_handler henv par set_u8 req s n =
     (let (ok, s) = page_guard henv par req n s in
      if \<not> ok then (login_needed, s, n, [])
      else case (if he_alloc henv then rq_query req else None) of
        None \<Rightarrow> (Page, s, n, [])
      | Some q \<Rightarrow>
          let val = (\<lambda>k. rq_value req q k DDNS_PARAM) in
          if val ''ddns_trigger'' = Some ''1'' then (Redirect 303 ''/ddns?triggered=1'', s, n, [DdnsTrigger])
          else if val ''ddns_en'' = None then (Page, s, n, [])
          else if np_open par n \<noteq> ESP_OK then (Redirect 303 ''/ddns?saved=1'', s, n, [])
          else
            let n = put_param par (SetInt ''ddns_en'' (atoi (the (val ''ddns_en'')))) n;
                n = (case val ''ddns_prov'' of Some v \<Rightarrow> set_u8 n ''ddns_prov'' (word_of_int (atoi v)) | None \<Rightarrow> n);
                n = put_params par (form_str req q DDNS_PARAM ''ddns_host'' @ form_secret req q DDNS_PARAM ''ddns_token'' @
                  form_secret req q DDNS_PARAM ''ddns_pass'' @
                  (case val ''ddns_poll'' of
                     Some v \<Rightarrow> if 1 \<le> atoi v \<and> atoi v \<le> 168 then [SetInt ''ddns_poll'' (atoi v * 3600)] else []
                   | None \<Rightarrow> [])) n
            in (Redirect 303 ''/ddns?saved=1'', s, n, [DdnsReload]))"

section \<open>The configuration page\<close>

text \<open>
  What the page works on besides the router's settings: the remote console, the capture, whether the
  access point is off, its password as the firmware holds it, and whether a restart is scheduled.
\<close>

record 'n web_state =
  ws_router :: "'n router"
  ws_rc :: rc_state
  ws_rcn :: rc_nvs
  ws_pcap :: pcap_state
  ws_ap_disabled :: bool
  ws_ap_passwd :: string
  ws_restart :: bool

text \<open>
  \<open>args_ok\<close>: whether argtable3 takes these words (one that begins with a hyphen is an option to it);
  the other flags are those of \<open>remote_console_enable\<close>, \<open>remote_console_disable\<close> and \<open>pcap_set_mode\<close>.
\<close>

record web_env =
  we_args_ok :: "string list \<Rightarrow> bool"
  we_task_ok :: bool
  we_gone :: "nat \<Rightarrow> bool"
  we_mutex_ok :: bool
  we_sem_ok :: bool

definition on_nvs :: "('n \<Rightarrow> 'n) \<Rightarrow> 'n router \<Rightarrow> 'n router" where
  "on_nvs f r = r\<lparr>rt_nvs := f (rt_nvs r)\<rparr>"

text \<open>The access point: password, then the optional fields in the order of the code.\<close>

definition ap_password :: "http_req \<Rightarrow> string \<Rightarrow> string \<Rightarrow> string \<Rightarrow> string" where
  "ap_password req q typed current =
     (if rq_value req q ''ap_open'' 4 \<noteq> None then []
      else if preprocess_string typed = [] then take 63 current else preprocess_string typed)"

definition ap_optional :: "'n flash_api \<Rightarrow> cmd_env \<Rightarrow> web_env \<Rightarrow> http_req \<Rightarrow> string \<Rightarrow> 'n router \<Rightarrow> 'n router" where
  "ap_optional api env we req q r =
     (let par = fa_par api;
          r = (case rq_value req q ''ap_ip_addr'' 64 of
                 Some v \<Rightarrow> if v = [] then r else
                   snd (set_ap_ip api env (if we_args_ok we [''set_ap_ip'', preprocess_string v] then Some (preprocess_string v) else None) r)
               | None \<Rightarrow> r);
          r = (case rq_value req q ''ap_hostname'' 64 of
                 Some v \<Rightarrow> snd (set_hostname api (if we_args_ok we [''set_hostname'', v] then Some v else None) r) | None \<Rightarrow> r);
          r = (case rq_value req q ''ap_dns'' 64 of
                 Some v \<Rightarrow> (on_nvs (\<lambda>n. fst (snd (set_config_param_str par ''ap_dns'' (preprocess_string v) n))) r)\<lparr>rt_ap_dns := preprocess_string v\<rparr>
               | None \<Rightarrow> r);
          r = (case rq_value req q ''ap_mac'' 64 of
                 Some v \<Rightarrow>
                   (case (if v = [] then None else scan_fields (CHR '':'') 6 (preprocess_string v)) of
                      Some m \<Rightarrow> on_nvs (\<lambda>n. snd (set_ap_mac api (if we_args_ok we (''set_ap_mac'' # map (\<lambda>b. dec_string (unat b)) m)
                        then Some (map (\<lambda>b. int (unat b)) m) else None) n)) r
                    | None \<Rightarrow> r)
               | None \<Rightarrow> r)
      in r)"

text \<open>The switches; a box that is not ticked is not sent.\<close>

definition ap_switches :: "'n flash_api \<Rightarrow> http_req \<Rightarrow> string \<Rightarrow> 'n router \<Rightarrow> 'n router \<times> bool" where
  "ap_switches api req q r =
     (let set = (\<lambda>k v. on_nvs (\<lambda>n. snd (set_config_param_int (fa_par api) k v n)));
          ticked = (\<lambda>k. rq_value req q k 64 \<noteq> None);
          r = set ''ap_disabled'' (if ticked ''ap_enabled'' then 0 else 1) r;
          nat_val = (if ticked ''ap_nat'' then 1 else 0);
          r = (set ''ap_nat'' nat_val r)\<lparr>rt_ap_nat_enabled := word_of_int nat_val\<rparr>;
          hidden_val = (if ticked ''ap_hidden'' then 1 else 0);
          r = (set ''ap_hidden'' hidden_val r)\<lparr>rt_ap_ssid_hidden := word_of_int hidden_val\<rparr>;
          r = (case rq_value req q ''ap_auth'' 64 of
                 Some v \<Rightarrow> if atoi v \<ge> 0 \<and> atoi v \<le> 2 then (set ''ap_authmode'' (atoi v) r)\<lparr>rt_ap_authmode := word_of_int (atoi v)\<rparr> else r
               | None \<Rightarrow> r);
          r = (case rq_value req q ''ap_channel'' 64 of
                 Some v \<Rightarrow> if atoi v \<ge> 0 \<and> atoi v \<le> wifi_country_max_channel (rt_country r)
                           then (set ''ap_channel'' (atoi v) r)\<lparr>rt_ap_channel := word_of_int (atoi v)\<rparr> else r
               | None \<Rightarrow> r)
      in (r, \<not> ticked ''ap_enabled''))"

definition ap_form :: "'n flash_api \<Rightarrow> cmd_env \<Rightarrow> web_env \<Rightarrow> http_req \<Rightarrow> string \<Rightarrow> 'n web_state \<Rightarrow> 'n web_state" where
  "ap_form api env we req q ws =
     (case (rq_value req q ''ap_ssid'' 64, rq_value req q ''ap_password'' 64) of
        (Some ssid, Some typed) \<Rightarrow>
          let ssid = preprocess_string ssid; pw = ap_password req q typed (ws_ap_passwd ws);
              args = (if we_args_ok we [''set_ap'', ssid, pw] then Some (ssid, pw) else None);
              r = on_nvs (\<lambda>n. fst (snd (set_ap (fa_par api) args n))) (ws_router ws);
              (r, off) = ap_switches api req q (ap_optional api env we req q r)
          in ws\<lparr>ws_router := r, ws_ap_disabled := off, ws_restart := True\<rparr>
      | _ \<Rightarrow> ws)"

definition static_form :: "'n flash_api \<Rightarrow> web_env \<Rightarrow> http_req \<Rightarrow> string \<Rightarrow> 'n web_state \<Rightarrow> 'n web_state" where
  "static_form api we req q ws =
     (case (rq_value req q ''staticip'' 64, rq_value req q ''subnetmask'' 64, rq_value req q ''gateway'' 64) of
        (Some ip, Some msk, Some gw) \<Rightarrow>
          let argv = [''set_sta_static'', preprocess_string ip, preprocess_string msk, preprocess_string gw];
              args = (if we_args_ok we argv then Some (argv ! 1, argv ! 2, argv ! 3) else None)
          in ws\<lparr>ws_router := on_nvs (\<lambda>n. snd (set_sta_static api argv args n)) (ws_router ws), ws_restart := True\<rparr>
      | _ \<Rightarrow> ws)"

definition rc_form :: "web_env \<Rightarrow> http_req \<Rightarrow> string \<Rightarrow> 'n web_state \<Rightarrow> 'n web_state" where
  "rc_form we req q ws =
     (let num = (\<lambda>k. map_option (\<lambda>v. atoi (preprocess_string v)) (rq_value req q k 64));
          (s, n) = (case rq_value req q ''rc_enabled'' 64 of
             Some v \<Rightarrow> if preprocess_string v = ''1'' then snd (remote_console_enable (we_task_ok we) (ws_rc ws) (ws_rcn ws))
                       else snd (remote_console_disable (we_gone we) (ws_rc ws) (ws_rcn ws))
           | None \<Rightarrow> (ws_rc ws, ws_rcn ws));
          (s, n) = (case num ''rc_port'' of
             Some p \<Rightarrow> if p \<ge> 1 \<and> p \<le> 65535 then snd (remote_console_set_port (word_of_int p) s n) else (s, n) | None \<Rightarrow> (s, n));
          (s, n) = (case num ''rc_timeout'' of
             Some t \<Rightarrow> if t \<ge> 0 then snd (remote_console_set_timeout (word_of_int t) s n) else (s, n) | None \<Rightarrow> (s, n))
      in ws\<lparr>ws_rc := s, ws_rcn := n\<rparr>)"

definition pcap_form :: "web_env \<Rightarrow> http_req \<Rightarrow> string \<Rightarrow> 'n web_state \<Rightarrow> 'n web_state option" where
  "pcap_form we req q ws = do {
     s \<leftarrow> (case map_option preprocess_string (rq_value req q ''pcap_mode'' 64) of
        None \<Rightarrow> Some (ws_pcap ws)
      | Some m \<Rightarrow>
          let set = (\<lambda>m. pcap_set_mode (we_mutex_ok we) (we_sem_ok we) (we_task_ok we) m (ws_pcap ws)) in
          if m = ''off'' then set PCAP_MODE_OFF
          else if m = ''acl'' then set PCAP_MODE_ACL_MONITOR
          else if m = ''promisc'' then set PCAP_MODE_PROMISCUOUS
          else Some (ws_pcap ws));
     let len = (case rq_value req q ''pcap_snaplen'' 64 of Some v \<Rightarrow> atoi (preprocess_string v) | None \<Rightarrow> 0);
         s = (if len \<ge> 64 \<and> len \<le> 1600 then snd (pcap_set_snaplen (word_of_int len) s) else s)
     in Some (ws\<lparr>ws_pcap := s\<rparr>) }"

definition config_form :: "'n flash_api \<Rightarrow> cmd_env \<Rightarrow> web_env \<Rightarrow> http_req \<Rightarrow> string \<Rightarrow> 'n web_state \<Rightarrow> (http_answer \<times> 'n web_state) option" where
  "config_form api env we req q ws =
     (let ws = (if rq_value req q ''reset'' 16 \<noteq> None then ws\<lparr>ws_restart := True\<rparr> else ws);
          ws = (if strstr q ''disable_interface='' \<noteq> None then
                  ws\<lparr>ws_router := on_nvs (\<lambda>n. fst (snd (set_config_param_str (fa_par api) ''web_disabled'' ''1'' n))) (ws_router ws), ws_restart := True\<rparr>
                else ws);
          ws = static_form api we req q (ap_form api env we req q ws);
          back = Redirect 303 ''/config''
      in if rq_value req q ''rc_save'' 64 \<noteq> None then Some (back, rc_form we req q ws)
         else if rq_value req q ''rc_kick'' 64 \<noteq> None then Some (back, ws\<lparr>ws_rc := snd (remote_console_kick (ws_rc ws))\<rparr>)
         else if rq_value req q ''pcap_save'' 64 \<noteq> None then do { ws \<leftarrow> pcap_form we req q ws; Some (back, ws) }
         else Some (Page, ws))"

definition config_get_handler :: "http_env \<Rightarrow> 'n flash_api \<Rightarrow> cmd_env \<Rightarrow> web_env \<Rightarrow> http_req \<Rightarrow> session \<Rightarrow> 'n web_state
    \<Rightarrow> (http_answer \<times> session \<times> 'n web_state) option" where
  "config_get_handler henv api env we req s ws =
     (let (ok, s) = page_guard henv (fa_par api) req (rt_nvs (ws_router ws)) s in
      if \<not> ok then Some (login_needed, s, ws)
      else case rq_query req of
        None \<Rightarrow> Some (Page, s, ws)
      | Some q \<Rightarrow>
          if \<not> he_alloc henv then Some (SendErr 500 ''Out of memory'', s, ws)
          else do { (answer, ws) \<leftarrow> config_form api env we req q ws; Some (answer, s, ws) })"

end
