(* ===== verification/Web_Theorems.thy ===== *)
theory Web_Theorems
  imports Web_Settings Command_Theorems Http_Theorems
begin

text \<open>
  What the pages of the web server can do: nothing without a session while a password is set; the
  settings and tables keep their invariants whatever a form holds; access from the uplink stays tied
  to the password.
\<close>

section \<open>Forms keep settings and tables\<close>

context rule_keeper begin

lemma fw_add_keeps:
  assumes "Q r"
  shows "\<exists>step. fw_add api env req q r = Some step \<and> (case step of Refused m r' \<Rightarrow> Q r' | Went b r' \<Rightarrow> Q r')"
proof -
  have add: "\<exists>step. (do { (added, t) \<leftarrow> acl_add k a am b bm pr sp dp al (rt_acl r);
        if added then do { r \<leftarrow> do_save_rules api t r; Some (Went True r) } else Some (Went False (r\<lparr>rt_acl := t\<rparr>)) }) = Some step \<and>
      (case step of Refused m r' \<Rightarrow> Q r' | Went b r' \<Rightarrow> Q r')" for k a am b bm pr sp dp al
  proof -
    obtain added t n where a: "acl_add k a am b bm pr sp dp al (rt_acl r) = Some (added, t)"
      "do_save_rules api t r = Some (r\<lparr>rt_nvs := n, rt_acl := t\<rparr>)" "Q (r\<lparr>rt_nvs := n, rt_acl := t\<rparr>)" "added \<or> Q (r\<lparr>rt_acl := t\<rparr>)"
      using add_step [OF assms] .
    then show ?thesis by (cases added) simp_all
  qed
  show ?thesis using assms add by (auto simp: fw_add_def Let_def split: option.splits)
qed

lemma fw_delete_keeps:
  assumes "Q r"
  shows "\<exists>b r'. fw_delete api req q r = Some (b, r') \<and> Q r'"
proof -
  have del: "\<exists>b r'. (do { (deleted, t) \<leftarrow> acl_delete k i (rt_acl r);
        if deleted then do { r \<leftarrow> do_save_rules api t r; Some (True, r) } else Some (False, r\<lparr>rt_acl := t\<rparr>) }) = Some (b, r') \<and> Q r'" for k i
  proof -
    obtain deleted t n where a: "acl_delete k i (rt_acl r) = Some (deleted, t)"
      "do_save_rules api t r = Some (r\<lparr>rt_nvs := n, rt_acl := t\<rparr>)" "Q (r\<lparr>rt_nvs := n, rt_acl := t\<rparr>)" "deleted \<or> Q (r\<lparr>rt_acl := t\<rparr>)"
      using delete_step [OF assms] .
    then show ?thesis by (cases deleted) (simp_all only: bind.bind_lunit prod.case if_True if_False ends_some simp_thms)
  qed
  show ?thesis using assms del by (auto simp: fw_delete_def Let_def split: option.splits)
qed

lemma fw_clear_keeps:
  assumes "Q r"
  shows "\<exists>b r'. fw_clear api req q r = Some (b, r') \<and> Q r'"
proof -
  have clear: "\<exists>b r'. (do { t \<leftarrow> acl_clear k (rt_acl r); r \<leftarrow> do_save_rules api t r; Some (True, r) }) = Some (b, r') \<and> Q r'" for k
  proof -
    obtain t n where "acl_clear k (rt_acl r) = Some t" "do_save_rules api t r = Some (r\<lparr>rt_nvs := n, rt_acl := t\<rparr>)"
      "Q (r\<lparr>rt_nvs := n, rt_acl := t\<rparr>)" using clear_step [OF assms] .
    then show ?thesis by (simp only: bind.bind_lunit ends_some)
  qed
  show ?thesis using assms clear by (auto simp: fw_clear_def Let_def split: option.splits)
qed

lemma firewall_form_keeps:
  assumes "Q r"
  shows "\<exists>ans r'. firewall_form api env req q r = Some (ans, r') \<and> Q r'"
proof -
  obtain step where step: "fw_add api env req q r = Some step" "case step of Refused m r' \<Rightarrow> Q r' | Went b r' \<Rightarrow> Q r'"
    using fw_add_keeps [OF assms, of env req q] by (elim exE conjE)
  show ?thesis
  proof (cases step)
    case (Refused m r1)
    with step show ?thesis by (simp add: firewall_form_def)
  next
    case (Went b r1)
    with step(2) have r1: "Q r1" by simp
    obtain d r2 where d: "fw_delete api req q r1 = Some (d, r2)" "Q r2" using fw_delete_keeps [OF r1, of req q] by (elim exE conjE)
    obtain c r3 where c: "fw_clear api req q r2 = Some (c, r3)" "Q r3" using fw_clear_keeps [OF d(2), of req q] by (elim exE conjE)
    show ?thesis using c(2) by (simp add: firewall_form_def step(1) Went d(1) c(1))
  qed
qed

end

text \<open>The steps of the page of reservations and forwarded ports.\<close>

lemma router_ok_tables:
  assumes "router_ok env r" "flash_works api" "bind_ip (ce_uplink env) \<noteq> 0"
  shows "in_ap_net (ce_ap_ip env) ip \<Longrightarrow> \<not> port_taken (rt_pm r) proto mport \<Longrightarrow> router_ok env (do_add_portmap api env proto mport ip dport r)"
    "router_ok env (do_del_portmap api proto mport r)"
    "ip = 0 \<or> in_ap_net (ce_ap_ip env) ip \<Longrightarrow> router_ok env (snd (do_add_reservation api mac ip name r))"
    "router_ok env (snd (do_del_reservation api mac r))"
  using assms by (simp_all add: router_ok_def flash_works_def add_portmap_ok del_portmap_ok add_reservation_ok del_reservation_ok)

lemma mappings_form_ok:
  assumes "router_ok env r" "flash_works api" "bind_ip (ce_uplink env) \<noteq> 0"
  shows "router_ok env (snd (mappings_form api env req q r))"
proof -
  have reserve: "case web_reserve api env req q r of Refused m r' \<Rightarrow> router_ok env r' | Went b r' \<Rightarrow> router_ok env r'"
    using assms router_ok_tables(3) [OF assms] by (auto simp: web_reserve_def Let_def split: option.splits)
  have rest: "router_ok env (snd (case web_forward api env req q (web_unreserve api req q r1) of
      Refused msg r2 \<Rightarrow> (error_url 128 ''/mappings'' msg, r2) | Went b r2 \<Rightarrow> (Page, web_unforward api req q r2)))"
    if "router_ok env r1" for r1
  proof -
    have u: "router_ok env (web_unreserve api req q r1)"
      using that router_ok_tables(4) [OF that assms(2,3)] by (auto simp: web_unreserve_def split: option.splits)
    then have "case web_forward api env req q (web_unreserve api req q r1) of Refused m r2 \<Rightarrow> router_ok env r2 | Went b r2 \<Rightarrow> router_ok env r2"
      using router_ok_tables(1) [OF u assms(2,3)] by (auto simp: web_forward_def Let_def split: option.splits)
    then show ?thesis using router_ok_tables(2) [OF _ assms(2,3)]
      by (auto simp: web_unforward_def split: form_step.splits option.splits)
  qed
  have known: "router_ok env (set_known api req q r)" using assms(1) by (simp add: set_known_def Let_def)
  show ?thesis
  proof (cases "web_reserve api env req q r")
    case (Refused m r1)
    with reserve known show ?thesis by (simp add: mappings_form_def)
  next
    case (Went b r1)
    with reserve have "router_ok env r1" by simp
    from rest [OF this] known show ?thesis by (simp add: mappings_form_def Went)
  qed
qed

text \<open>The configuration page.\<close>

lemma on_nvs_ok [simp]: "router_ok env (on_nvs f r) = router_ok env r"
  by (simp add: on_nvs_def)

lemma set_hostname_ok:
  assumes "router_ok env r"
  shows "router_ok env (snd (set_hostname api a r))"
  using assms by (cases a) (auto simp: set_hostname_def Let_def case_prod_unfold)

lemma ap_optional_ok:
  assumes "router_ok env r" "flash_works api" "bind_ip (ce_uplink env) \<noteq> 0"
  shows "router_ok env (ap_optional api env we req q r)"
proof -
  define r1 where "r1 = (case rq_value req q ''ap_ip_addr'' 64 of
      Some v \<Rightarrow> if v = [] then r else
        snd (set_ap_ip api env (if we_args_ok we [''set_ap_ip'', preprocess_string v] then Some (preprocess_string v) else None) r)
    | None \<Rightarrow> r)"
  have r1: "router_ok env r1" unfolding r1_def using assms(1) set_ap_ip_ok [OF assms] by (simp split: option.split)
  define r2 where "r2 = (case rq_value req q ''ap_hostname'' 64 of
      Some v \<Rightarrow> snd (set_hostname api (if we_args_ok we [''set_hostname'', v] then Some v else None) r1) | None \<Rightarrow> r1)"
  have r2: "router_ok env r2" unfolding r2_def using r1 set_hostname_ok [OF r1] by (simp split: option.split)
  have e: "ap_optional api env we req q r =
      (let r = (case rq_value req q ''ap_dns'' 64 of
         Some v \<Rightarrow> (on_nvs (\<lambda>n. fst (snd (set_config_param_str (fa_par api) ''ap_dns'' (preprocess_string v) n))) r2)\<lparr>rt_ap_dns := preprocess_string v\<rparr>
       | None \<Rightarrow> r2)
       in case rq_value req q ''ap_mac'' 64 of
         Some v \<Rightarrow>
           (case (if v = [] then None else scan_fields (CHR '':'') 6 (preprocess_string v)) of
              Some m \<Rightarrow> on_nvs (\<lambda>n. snd (set_ap_mac api (if we_args_ok we (''set_ap_mac'' # map (\<lambda>b. dec_string (unat b)) m)
                then Some (map (\<lambda>b. int (unat b)) m) else None) n)) r
            | None \<Rightarrow> r)
       | None \<Rightarrow> r)"
    by (simp only: ap_optional_def r1_def r2_def Let_def)
  show ?thesis unfolding e Let_def using r2 by (simp split: option.split)
qed

lemma small_number: "0 \<le> v \<Longrightarrow> v \<le> 14 \<Longrightarrow> (word_of_int v :: u8) \<le> 14"
  using word_le_small [of "nat v"] by (metis int_nat_eq nat_le_iff of_int_of_nat_eq of_nat_numeral)

lemma ap_switches_ok:
  assumes "router_ok env r"
  shows "router_ok env (fst (ap_switches api req q r))"
proof -
  have auth: "(word_of_int v :: u8) \<le> 2" if "0 \<le> v" "v \<le> 2" for v
  proof -
    from that have "v = 0 \<or> v = 1 \<or> v = 2" by auto
    then show ?thesis by auto
  qed
  have chan: "(word_of_int v :: u8) \<le> 14" if "0 \<le> v" "v \<le> wifi_country_max_channel cc" for v cc
    by (rule small_number) (use that in \<open>auto simp: wifi_country_max_channel_def split: if_splits\<close>)
  let ?set = "\<lambda>k v. on_nvs (\<lambda>n. snd (set_config_param_int (fa_par api) k v n))"
  define tick :: "string \<Rightarrow> int" where "tick k = (if rq_value req q k 64 \<noteq> None then 1 else 0)" for k
  have tick: "(word_of_int (tick k) :: u8) \<le> 1" for k by (simp add: tick_def)
  define r1 where "r1 = (?set ''ap_hidden'' (tick ''ap_hidden'') ((?set ''ap_nat'' (tick ''ap_nat'')
      (?set ''ap_disabled'' (if rq_value req q ''ap_enabled'' 64 \<noteq> None then 0 else 1) r))\<lparr>rt_ap_nat_enabled := word_of_int (tick ''ap_nat'')\<rparr>))
    \<lparr>rt_ap_ssid_hidden := word_of_int (tick ''ap_hidden'')\<rparr>"
  have r1: "router_ok env r1" unfolding r1_def using assms tick by simp
  define r2 where "r2 = (case rq_value req q ''ap_auth'' 64 of
      Some v \<Rightarrow> if atoi v \<ge> 0 \<and> atoi v \<le> 2 then (?set ''ap_authmode'' (atoi v) r1)\<lparr>rt_ap_authmode := word_of_int (atoi v)\<rparr> else r1
    | None \<Rightarrow> r1)"
  have r2: "router_ok env r2" unfolding r2_def using r1 auth by (simp split: option.split)
  have e: "fst (ap_switches api req q r) = (case rq_value req q ''ap_channel'' 64 of
      Some v \<Rightarrow> if atoi v \<ge> 0 \<and> atoi v \<le> wifi_country_max_channel (rt_country r2)
        then (?set ''ap_channel'' (atoi v) r2)\<lparr>rt_ap_channel := word_of_int (atoi v)\<rparr> else r2
    | None \<Rightarrow> r2)"
    by (simp only: ap_switches_def Let_def r2_def r1_def tick_def fst_conv)
  show ?thesis unfolding e using r2 chan [where cc = "rt_country r2"] by (simp split: option.split)
qed

text \<open>Between two requests nobody holds the lock of the capture buffer.\<close>

definition ring_free :: "'n web_state \<Rightarrow> bool" where
  "ring_free ws \<longleftrightarrow> ringbuf_mutex (pcap_ring (ws_pcap ws)) \<noteq> MutexHeld"

lemma pcap_set_mode_free:
  assumes "ringbuf_mutex (pcap_ring s) \<noteq> MutexHeld"
  shows "\<exists>t. pcap_set_mode m b k mode s = Some t \<and> ringbuf_mutex (pcap_ring t) \<noteq> MutexHeld"
proof (cases "ringbuf_mutex (pcap_ring s)")
  case MutexFree
  then show ?thesis
    by (simp add: pcap_set_mode_def ensure_server_running_def ringbuf_init_def ringbuf_reset_def rb_take_def rb_give_def Let_def lock_simps)
next
  case MutexNull
  then show ?thesis
    by (simp add: pcap_set_mode_def ensure_server_running_def ringbuf_init_def ringbuf_reset_def rb_take_def rb_give_def Let_def lock_simps)
qed (use assms in simp)

lemma pcap_form_free:
  assumes "ring_free ws"
  shows "\<exists>ws'. pcap_form we req q ws = Some ws' \<and> ws_router ws' = ws_router ws \<and> ring_free ws'"
proof -
  define mode where "mode = map_option preprocess_string (rq_value req q ''pcap_mode'' 64)"
  have "\<exists>s. (case mode of None \<Rightarrow> Some (ws_pcap ws)
      | Some m \<Rightarrow>
          let set = (\<lambda>m. pcap_set_mode (we_mutex_ok we) (we_sem_ok we) (we_task_ok we) m (ws_pcap ws)) in
          if m = ''off'' then set PCAP_MODE_OFF
          else if m = ''acl'' then set PCAP_MODE_ACL_MONITOR
          else if m = ''promisc'' then set PCAP_MODE_PROMISCUOUS
          else Some (ws_pcap ws)) = Some s \<and> ringbuf_mutex (pcap_ring s) \<noteq> MutexHeld"
    using pcap_set_mode_free assms by (cases mode) (simp_all add: Let_def ring_free_def)
  then obtain s where s: "(case mode of None \<Rightarrow> Some (ws_pcap ws)
      | Some m \<Rightarrow>
          let set = (\<lambda>m. pcap_set_mode (we_mutex_ok we) (we_sem_ok we) (we_task_ok we) m (ws_pcap ws)) in
          if m = ''off'' then set PCAP_MODE_OFF
          else if m = ''acl'' then set PCAP_MODE_ACL_MONITOR
          else if m = ''promisc'' then set PCAP_MODE_PROMISCUOUS
          else Some (ws_pcap ws)) = Some s" "ringbuf_mutex (pcap_ring s) \<noteq> MutexHeld" by (elim exE conjE)
  have "pcap_ring (snd (pcap_set_snaplen v s)) = pcap_ring s" for v by (simp add: pcap_set_snaplen_def)
  then show ?thesis using s(2) unfolding pcap_form_def mode_def [symmetric] s(1) by (simp add: Let_def ring_free_def)
qed

lemma config_form_ok:
  assumes "router_ok env (ws_router ws)" "ring_free ws" "flash_works api" "bind_ip (ce_uplink env) \<noteq> 0"
  shows "\<exists>ans ws'. config_form api env we req q ws = Some (ans, ws') \<and> router_ok env (ws_router ws') \<and> ring_free ws'"
proof -
  have ap: "router_ok env (ws_router (ap_form api env we req q w)) \<and> ring_free (ap_form api env we req q w)"
    if "router_ok env (ws_router w)" "ring_free w" for w
    using that ap_switches_ok [OF ap_optional_ok [OF _ assms(3,4)]]
    by (auto simp: ap_form_def Let_def case_prod_unfold ring_free_def split: option.split)
  have static: "router_ok env (ws_router (static_form api we req q w)) = router_ok env (ws_router w)"
    "ring_free (static_form api we req q w) = ring_free w" for w
    by (simp_all add: static_form_def Let_def ring_free_def split: option.split)
  have rc: "ws_router (rc_form we req q w) = ws_router w" "ring_free (rc_form we req q w) = ring_free w" for w
    by (simp_all add: rc_form_def Let_def case_prod_unfold ring_free_def)
  define w1 where "w1 = (if rq_value req q ''reset'' 16 \<noteq> None then ws\<lparr>ws_restart := True\<rparr> else ws)"
  define w2 where "w2 = (if strstr q ''disable_interface='' \<noteq> None then
      w1\<lparr>ws_router := on_nvs (\<lambda>n. fst (snd (set_config_param_str (fa_par api) ''web_disabled'' ''1'' n))) (ws_router w1), ws_restart := True\<rparr>
    else w1)"
  define w3 where "w3 = static_form api we req q (ap_form api env we req q w2)"
  have "router_ok env (ws_router w2)" "ring_free w2" using assms(1,2) by (simp_all add: w1_def w2_def ring_free_def)
  then have w3: "router_ok env (ws_router w3)" "ring_free w3" unfolding w3_def static by (auto dest: ap)
  obtain w4 where w4: "pcap_form we req q w3 = Some w4" "ws_router w4 = ws_router w3" "ring_free w4"
    using pcap_form_free [OF w3(2), of we req q] by (elim exE conjE)
  have "config_form api env we req q ws =
    (if rq_value req q ''rc_save'' 64 \<noteq> None then Some (Redirect 303 ''/config'', rc_form we req q w3)
     else if rq_value req q ''rc_kick'' 64 \<noteq> None then Some (Redirect 303 ''/config'', w3\<lparr>ws_rc := snd (remote_console_kick (ws_rc w3))\<rparr>)
     else if rq_value req q ''pcap_save'' 64 \<noteq> None then do { ws \<leftarrow> pcap_form we req q w3; Some (Redirect 303 ''/config'', ws) }
     else Some (Page, w3))"
    by (simp only: config_form_def Let_def w1_def w2_def w3_def)
  with w3 w4 show ?thesis by (simp add: rc) (simp add: ring_free_def)
qed

section \<open>Everything that is typed or submitted\<close>

datatype page = FirewallPage | MappingsPage | ConfigPage

datatype router_input = Typed console_cmd | Submitted page http_env http_req

text \<open>The state: the login session, and what the pages work on.\<close>

fun take_input :: "'n flash_api \<Rightarrow> cmd_env \<Rightarrow> web_env \<Rightarrow> router_input \<Rightarrow> session \<times> 'n web_state \<Rightarrow> (session \<times> 'n web_state) option" where
  "take_input api env we (Typed c) (s, ws) =
     map_option (\<lambda>(ret, r). (s, ws\<lparr>ws_router := r\<rparr>)) (run_command api env c (ws_router ws))"
| "take_input api env we (Submitted FirewallPage henv req) (s, ws) =
     map_option (\<lambda>(ans, s, r). (s, ws\<lparr>ws_router := r\<rparr>)) (firewall_get_handler henv api env req s (ws_router ws))"
| "take_input api env we (Submitted MappingsPage henv req) (s, ws) =
     map_option (\<lambda>(ans, s, r). (s, ws\<lparr>ws_router := r\<rparr>)) (mappings_get_handler henv api env req s (ws_router ws))"
| "take_input api env we (Submitted ConfigPage henv req) (s, ws) =
     map_option (\<lambda>(ans, s, ws). (s, ws)) (config_get_handler henv api env we req s ws)"

fun take_inputs :: "'n flash_api \<Rightarrow> cmd_env \<Rightarrow> web_env \<Rightarrow> router_input list \<Rightarrow> session \<times> 'n web_state \<Rightarrow> (session \<times> 'n web_state) option" where
  "take_inputs api env we [] st = Some st"
| "take_inputs api env we (x # xs) st = Option.bind (take_input api env we x st) (take_inputs api env we xs)"

lemma guarded_page_ok:
  assumes "router_ok env r" "\<And>q. \<exists>ans r'. form q r = Some (ans, r') \<and> router_ok env r'"
  shows "\<exists>ans s' r'. guarded_page henv api req s r form = Some (ans, s', r') \<and> router_ok env r'"
proof -
  have "\<exists>ans s' r'. (do { (answer, r) \<leftarrow> form q r; Some (answer, t, r) }) = Some (ans, s', r') \<and> router_ok env r'" for q t
  proof -
    obtain ans r' where "form q r = Some (ans, r')" "router_ok env r'" using assms(2) [of q] by (elim exE conjE)
    then show ?thesis by simp
  qed
  with assms(1) show ?thesis by (auto simp: guarded_page_def Let_def case_prod_unfold split: option.split)
qed

lemma config_page_ok:
  assumes "router_ok env (ws_router ws)" "ring_free ws" "flash_works api" "bind_ip (ce_uplink env) \<noteq> 0"
  shows "\<exists>ans s' ws'. config_get_handler henv api env we req s ws = Some (ans, s', ws') \<and> router_ok env (ws_router ws') \<and> ring_free ws'"
proof -
  have "\<exists>ans s' ws'. (do { (answer, ws) \<leftarrow> config_form api env we req q ws; Some (answer, t, ws) }) = Some (ans, s', ws')
      \<and> router_ok env (ws_router ws') \<and> ring_free ws'" for q t
  proof -
    obtain ans w where "config_form api env we req q ws = Some (ans, w)" "router_ok env (ws_router w)" "ring_free w"
      using config_form_ok [OF assms, of we req q] by (elim exE conjE)
    then show ?thesis by simp
  qed
  with assms(1,2) show ?thesis by (auto simp: config_get_handler_def Let_def case_prod_unfold split: option.split)
qed

lemma take_input_ok:
  assumes "flash_works api" "bind_ip (ce_uplink env) \<noteq> 0" "router_ok env (ws_router ws)" "ring_free ws"
  shows "\<exists>s' ws'. take_input api env we x (s, ws) = Some (s', ws') \<and> router_ok env (ws_router ws') \<and> ring_free ws'"
proof (cases x)
  case (Typed c)
  from run_command_ok [OF assms(1-3), of c] obtain ret r where "run_command api env c (ws_router ws) = Some (ret, r)" "router_ok env r"
    by (elim exE conjE)
  with Typed assms(4) show ?thesis by (simp add: ring_free_def)
next
  case (Submitted p henv req)
  show ?thesis
  proof (cases p)
    case FirewallPage
    obtain ans s' r' where "guarded_page henv api req s (ws_router ws) (firewall_form api env req) = Some (ans, s', r')" "router_ok env r'"
      using guarded_page_ok [OF assms(3), of "firewall_form api env req" henv api req s] ok.firewall_form_keeps [OF assms(3)]
      by blast
    with FirewallPage Submitted assms(4) show ?thesis by (simp add: firewall_get_handler_def ring_free_def)
  next
    case MappingsPage
    have "\<exists>ans r'. Some (mappings_form api env req q (ws_router ws)) = Some (ans, r') \<and> router_ok env r'" for q
      using mappings_form_ok [OF assms(3,1,2), of req q] by (cases "mappings_form api env req q (ws_router ws)") simp
    then obtain ans s' r' where "guarded_page henv api req s (ws_router ws) (\<lambda>q r. Some (mappings_form api env req q r)) = Some (ans, s', r')"
      "router_ok env r'"
      using guarded_page_ok [OF assms(3), of "\<lambda>q r. Some (mappings_form api env req q r)"] by blast
    with MappingsPage Submitted assms(4) show ?thesis by (simp add: mappings_get_handler_def ring_free_def)
  next
    case ConfigPage
    with Submitted config_page_ok [OF assms(3,4,1,2), of henv we req s] show ?thesis by auto
  qed
qed

text \<open>
  C25: Starting from settings and tables in order and a free lock of the capture buffer, any sequence of
  console commands and submitted forms (firewall, reservations and forwarded ports, configuration) is
  carried out to its end, no input ever blocking, and leaves settings and tables in order again: the
  forms let nothing in that the commands refuse.
\<close>

theorem router_sound:
  assumes "flash_works api" "bind_ip (ce_uplink env) \<noteq> 0" "router_ok env (ws_router ws)" "ring_free ws"
  shows "\<exists>s' ws'. take_inputs api env we xs (s, ws) = Some (s', ws') \<and> router_ok env (ws_router ws') \<and> ring_free ws'"
  using assms(3,4)
proof (induction xs arbitrary: s ws)
  case (Cons x xs)
  obtain s1 w1 where x: "take_input api env we x (s, ws) = Some (s1, w1)" "router_ok env (ws_router w1)" "ring_free w1"
    using take_input_ok [OF assms(1,2) Cons.prems, of we x s] by (elim exE conjE)
  from Cons.IH [OF x(2,3), of s1] x(1) show ?case by simp
qed simp

text \<open>Two commands typed and a firewall form sent, on a router without settings.\<close>

theorem router_sound_witness:
  "let ws = \<lparr>ws_router = fresh_router, ws_rc = undefined, ws_rcn = undefined, ws_pcap = undefined\<lparr>pcap_ring := ringbuf_boot\<rparr>,
       ws_ap_disabled = False, ws_ap_passwd = [], ws_restart = False\<rparr>;
     we = \<lparr>we_args_ok = (\<lambda>_. True), we_task_ok = True, we_gone = (\<lambda>_. True), we_mutex_ok = True, we_sem_ok = True\<rparr>
   in \<exists>s' ws'. take_inputs full_api home_env we [Typed (CmdChannel [''set_ap_channel'', ''6'']), Typed (CmdTtl [''set_ttl'', ''64'']),
          Submitted ConfigPage sample_http sample_req] (no_session, ws) = Some (s', ws') \<and>
        router_ok home_env (ws_router ws') \<and> ring_free ws'"
  unfolding Let_def
  by (rule router_sound [OF full_api_works])
    (use fresh_router_ok in \<open>simp_all add: home_env_def bind_ip_def ring_free_def ringbuf_boot_def\<close>)

end
