(* ===== verification/Web_Guard.thy ===== *)
theory Web_Guard
  imports Web_Theorems
begin

text \<open>
  Who may change what over the web: without a session nothing while a password is set; access from the
  uplink is on only while a password is set; and two faults of the forms.
\<close>

section \<open>The session guards every page\<close>

text \<open>A login that fails changes nothing: a record that is not the guess is left alone.\<close>

lemma verify_fails_keeps:
  "verify_web_password par sha salt mem alloc_ok guess n = Some (False, n') \<Longrightarrow> n' = n"
  by (auto simp: verify_web_password_def Let_def bind_eq_Some_conv split: if_splits option.splits prod.splits)

lemma guarded_page_closed:
  assumes "is_web_password_set (fa_par api) (rt_nvs r)" "\<not> fst (is_authenticated henv req s)"
  shows "guarded_page henv api req s r form = Some (login_needed, snd (is_authenticated henv req s), r)"
  using assms by (simp add: guarded_page_def page_guard_def case_prod_unfold)

lemma unauthenticated_again:
  assumes "\<not> fst (is_authenticated henv req s)"
  shows "is_authenticated henv req (snd (is_authenticated henv req s)) = is_authenticated henv req s"
    "is_authenticated henv req (clear_session s) = (False, clear_session s)"
  using assms by (auto simp: is_authenticated_def clear_session_def split: option.splits if_splits)

text \<open>What the form of the front page does for somebody without a session.\<close>

lemma index_form_closed:
  assumes "\<not> fst (is_authenticated henv req s)" "index_form pe henv par req True q s r = Some (ans, t, r')"
  shows "case fr_cookie ans of
      None \<Rightarrow> r' = r \<and> fr_answer ans = Page \<and>
        (if rq_value req q ''logout'' 128 \<noteq> None then t = clear_session s else t \<in> {s, snd (is_authenticated henv req s)})
    | Some cookie \<Rightarrow> \<exists>pw n. rq_value req q ''login_password'' 128 = Some pw \<and>
        verify_web_password par (pe_sha pe) (pe_salt pe) (pe_mem pe) (he_alloc henv) (preprocess_string pw) (rt_nvs r) = Some (True, n) \<and>
        r' = r\<lparr>rt_nvs := n\<rparr> \<and> (cookie, t) = create_session henv s \<and> fr_answer ans \<noteq> Page"
proof -
  have ch: "\<exists>m. ans' = shown m \<and> r'' = r \<and> t' \<in> {s, snd (is_authenticated henv req s)}"
    if "change_password pe henv par req a b True s r = Some (ans', t', r'')" for a b ans' t' r''
    using assms(1) that by (auto simp: change_password_def case_prod_unfold split: if_splits)
  show ?thesis
    using assms(2) ch
    by (fastforce simp: index_form_def Let_def bind_eq_Some_conv to_front_def shown_def case_prod_unfold split: if_splits option.splits
        dest!: verify_fails_keeps)
qed

lemma index_closed:
  assumes "is_web_password_set par (rt_nvs r)" "\<not> fst (is_authenticated henv req s)"
    "index_get_handler pe henv par req s r = Some (ans, s', r')"
  shows "case fr_cookie ans of
      None \<Rightarrow> r' = r \<and> (s' = snd (is_authenticated henv req s) \<or>
        s' = clear_session s \<and> (\<exists>q. form_text henv req = Some q \<and> rq_value req q ''logout'' 128 \<noteq> None))
    | Some cookie \<Rightarrow> \<exists>q pw n. form_text henv req = Some q \<and> rq_value req q ''login_password'' 128 = Some pw \<and>
        verify_web_password par (pe_sha pe) (pe_salt pe) (pe_mem pe) (he_alloc henv) (preprocess_string pw) (rt_nvs r) = Some (True, n) \<and>
        r' = r\<lparr>rt_nvs := n\<rparr> \<and> (cookie, s') = create_session henv s"
proof (cases "form_text henv req")
  case None
  with assms(3) show ?thesis by (auto simp: index_get_handler_def shown_def)
next
  case (Some q)
  with assms(1,3) obtain t where t: "index_form pe henv par req True q s r = Some (ans, t, r')"
    "s' = (if fr_answer ans = Page then snd (is_authenticated henv req t) else t)"
    by (auto simp: index_get_handler_def bind_eq_Some_conv)
  from index_form_closed [OF assms(2) t(1)] t(2) Some unauthenticated_again [OF assms(2)] show ?thesis
    by (auto split: option.splits if_splits)
qed

text \<open>
  C27: While a router password is set, a request without a valid session gets nothing done on the
  pages that hold the settings: the firewall, the mappings, the configuration, PPPoE, WireGuard and
  dynamic DNS pages send the browser to the login and change nothing, and on the front page the
  settings change only for a login with the right password (which may rewrite the stored password in its
  hashed form, opens the session and sets the cookie); the session itself can, without one, only be
  found expired or be logged out (\<open>logout_by_anyone\<close> below).  The scan page asks for no session
  and is not among these pages.
\<close>

theorem pages_need_session:
  assumes "is_web_password_set (fa_par api) (rt_nvs r)" "\<not> fst (is_authenticated henv req s)" "r = ws_router ws"
  shows "let s' = snd (is_authenticated henv req s); n = rt_nvs r; par = fa_par api in
    firewall_get_handler henv api env req s r = Some (login_needed, s', r) \<and>
    mappings_get_handler henv api env req s r = Some (login_needed, s', r) \<and>
    config_get_handler henv api env we req s ws = Some (login_needed, s', ws) \<and>
    pppoe_get_handler henv par req s n = (login_needed, s', n, False) \<and>
    vpn_get_handler henv par req s n = (login_needed, s', n, False) \<and>
    ddns_get_handler henv par set_u8 req s n = (login_needed, s', n, []) \<and>
    (\<forall>ans s1 r1. index_get_handler pe henv par req s r = Some (ans, s1, r1) \<longrightarrow>
       (case fr_cookie ans of
          None \<Rightarrow> r1 = r \<and> (s1 = s' \<or>
            s1 = clear_session s \<and> (\<exists>q. form_text henv req = Some q \<and> rq_value req q ''logout'' 128 \<noteq> None))
        | Some cookie \<Rightarrow> \<exists>q pw n'. form_text henv req = Some q \<and> rq_value req q ''login_password'' 128 = Some pw \<and>
            verify_web_password par (pe_sha pe) (pe_salt pe) (pe_mem pe) (he_alloc henv) (preprocess_string pw) n = Some (True, n') \<and>
            r1 = r\<lparr>rt_nvs := n'\<rparr> \<and> (cookie, s1) = create_session henv s))"
  unfolding Let_def
proof (intro conjI allI impI)
  fix ans s1 r1
  assume "index_get_handler pe henv (fa_par api) req s r = Some (ans, s1, r1)"
  then show "case fr_cookie ans of
      None \<Rightarrow> r1 = r \<and> (s1 = snd (is_authenticated henv req s) \<or>
        s1 = clear_session s \<and> (\<exists>q. form_text henv req = Some q \<and> rq_value req q ''logout'' 128 \<noteq> None))
    | Some cookie \<Rightarrow> \<exists>q pw n'. form_text henv req = Some q \<and> rq_value req q ''login_password'' 128 = Some pw \<and>
        verify_web_password (fa_par api) (pe_sha pe) (pe_salt pe) (pe_mem pe) (he_alloc henv) (preprocess_string pw) (rt_nvs r) = Some (True, n') \<and>
        r1 = r\<lparr>rt_nvs := n'\<rparr> \<and> (cookie, s1) = create_session henv s"
    by (rule index_closed [OF assms(1,2)])
qed (use assms guarded_page_closed [OF assms(1,2)] in
    \<open>simp_all add: firewall_get_handler_def mappings_get_handler_def config_get_handler_def pppoe_get_handler_def vpn_get_handler_def
      settings_page_def ddns_get_handler_def page_guard_def case_prod_unfold\<close>)

text \<open>The front page on a flash that holds a password, asked by somebody without a cookie.\<close>

theorem pages_need_session_witness:
  "let r = fresh_router\<lparr>rt_nvs := (rt_nvs fresh_router)\<lparr>ff_par := ([''web_password'' \<mapsto> ''x''], Map.empty)\<rparr>\<rparr> in
    firewall_get_handler sample_http full_api home_env foreign_req no_session r = Some (login_needed, no_session, r) \<and>
    mappings_get_handler sample_http full_api home_env foreign_req no_session r = Some (login_needed, no_session, r) \<and>
    vpn_get_handler sample_http (fa_par full_api) foreign_req no_session (rt_nvs r) = (login_needed, no_session, rt_nvs r, False)"
proof -
  let ?r = "fresh_router\<lparr>rt_nvs := (rt_nvs fresh_router)\<lparr>ff_par := ([''web_password'' \<mapsto> ''x''], Map.empty)\<rparr>\<rparr>"
  let ?ws = "\<lparr>ws_router = ?r, ws_rc = undefined, ws_rcn = undefined, ws_pcap = undefined, ws_ap_disabled = False, ws_ap_passwd = [], ws_restart = False\<rparr>"
  have "is_web_password_set (fa_par full_api) (rt_nvs ?r)" by (simp add: is_web_password_set_def full_api_def nvs_par_map_def)
  moreover have "is_authenticated sample_http foreign_req no_session = (False, no_session)"
    by (simp add: is_authenticated_def no_session_def)
  ultimately show ?thesis using pages_need_session [of full_api ?r sample_http foreign_req no_session ?ws] by (simp add: Let_def)
qed

section \<open>Access from the uplink and the password\<close>

text \<open>A store for texts and numbers: writing one key leaves the others alone, of either kind.\<close>

definition par_full :: "'n nvs_par \<Rightarrow> bool" where
  "par_full api \<longleftrightarrow> par_works api \<and>
     (\<forall>n k v. fst (np_set_i32 api n k v) = ESP_OK \<and>
        (\<forall>k'. np_get_i32 api (snd (np_set_i32 api n k v)) k' = (if k' = k then (ESP_OK, v) else np_get_i32 api n k')) \<and>
        (\<forall>k'. k' \<noteq> k \<longrightarrow> np_get_str api (snd (np_set_i32 api n k v)) k' = np_get_str api n k')) \<and>
     (\<forall>n k v k'. k' \<noteq> k \<longrightarrow> np_get_i32 api (snd (np_set_str api n k v)) k' = np_get_i32 api n k') \<and>
     (\<forall>n k. np_get_i32 api (snd (np_commit api n)) k = np_get_i32 api n k)"

lemma par_fullD: "par_full api \<Longrightarrow> par_works api" by (simp add: par_full_def)

lemma open_ok: "par_full api \<Longrightarrow> np_open api n = ESP_OK" by (simp add: par_full_def par_works_def)

lemma set_int_full:
  assumes "par_full api"
  shows "\<exists>n'. set_config_param_int api k v n = (ESP_OK, n') \<and>
    (\<forall>k'. np_get_i32 api n' k' = (if k' = k then (ESP_OK, v) else np_get_i32 api n k')) \<and>
    (\<forall>k'. k' \<noteq> k \<longrightarrow> np_get_str api n' k' = np_get_str api n k')"
  by (rule exI [of _ "snd (np_commit api (snd (np_set_i32 api n k v)))"])
    (use assms in \<open>simp add: set_config_param_int_def par_full_def par_works_def case_prod_unfold Let_def prod_eq_iff\<close>)

lemma set_str_full:
  assumes "par_full api" "set_config_param_str api k v n = (err, n', log)"
  shows "err = ESP_OK" "np_get_str api n' k' = (if k' = k then (ESP_OK, v) else np_get_str api n k')"
    "k' \<noteq> k \<Longrightarrow> np_get_i32 api n' k' = np_get_i32 api n k'"
  using assms by (auto simp: set_config_param_str_def par_full_def par_works_def case_prod_unfold Let_def)

definition wan_on :: "'n nvs_par \<Rightarrow> 'n \<Rightarrow> bool" where
  "wan_on par n \<longleftrightarrow> snd (get_config_param_int par ''wan_access'' 0 n) \<noteq> 0"

definition wan_guarded :: "'n nvs_par \<Rightarrow> 'n \<Rightarrow> bool" where
  "wan_guarded par n \<longleftrightarrow> (wan_on par n \<longrightarrow> is_web_password_set par n)"

lemma wan_on_get: "np_get_i32 par n' ''wan_access'' = np_get_i32 par n ''wan_access'' \<Longrightarrow> par_full par \<Longrightarrow> wan_on par n' = wan_on par n"
  by (simp add: wan_on_def get_config_param_int_def open_ok)

lemma password_get: "np_get_str par n' ''web_password'' = np_get_str par n ''web_password'' \<Longrightarrow> par_full par \<Longrightarrow>
    is_web_password_set par n' = is_web_password_set par n"
  by (simp add: is_web_password_set_def open_ok)

lemma wan_guarded_same:
  assumes "par_full par" "wan_guarded par n" "np_get_i32 par n' ''wan_access'' = np_get_i32 par n ''wan_access''"
    "np_get_str par n' ''web_password'' = np_get_str par n ''web_password''"
  shows "wan_guarded par n'"
  using assms(2) unfolding wan_guarded_def wan_on_get [OF assms(3,1)] password_get [OF assms(4,1)] .

lemma wan_guarded_other:
  assumes "par_full par" "wan_guarded par n" "k \<notin> {''wan_access'', ''web_password''}"
  shows "wan_guarded par (snd (set_config_param_int par k v n))" "wan_guarded par (fst (snd (set_config_param_str par k w n)))"
proof -
  have k: "''wan_access'' \<noteq> k" "''web_password'' \<noteq> k" using assms(3) by auto
  obtain n1 where n1: "set_config_param_int par k v n = (ESP_OK, n1)"
    "\<forall>k'. np_get_i32 par n1 k' = (if k' = k then (ESP_OK, v) else np_get_i32 par n k')"
    "\<forall>k'. k' \<noteq> k \<longrightarrow> np_get_str par n1 k' = np_get_str par n k'"
    using set_int_full [OF assms(1), of k v n] by (elim exE conjE)
  have "np_get_i32 par n1 ''wan_access'' = np_get_i32 par n ''wan_access''" using n1(2) k(1) by (simp only: if_False)
  moreover have "np_get_str par n1 ''web_password'' = np_get_str par n ''web_password''" using n1(3) k(2) by blast
  ultimately show "wan_guarded par (snd (set_config_param_int par k v n))"
    unfolding n1(1) snd_conv by (rule wan_guarded_same [OF assms(1,2)])
  obtain err n2 log where n2: "set_config_param_str par k w n = (err, n2, log)" by (cases "set_config_param_str par k w n")
  note s = set_str_full [OF assms(1) n2]
  have "np_get_i32 par n2 ''wan_access'' = np_get_i32 par n ''wan_access''" by (rule s(3) [OF k(1)])
  moreover have "np_get_str par n2 ''web_password'' = np_get_str par n ''web_password''" unfolding s(2) using k(2) by (simp only: if_False)
  ultimately show "wan_guarded par (fst (snd (set_config_param_str par k w n)))"
    unfolding n2 fst_conv snd_conv by (rule wan_guarded_same [OF assms(1,2)])
qed

text \<open>Storing a password: a text is never stored empty, and the empty one only by clearing it.\<close>

definition pw_env_ok :: "pw_env \<Rightarrow> bool" where
  "pw_env_ok pe \<longleftrightarrow> (\<forall>x. length (pe_sha pe x) = 32) \<and> length (pe_salt pe) = 16 \<and> length (pe_mem pe) = 98"

lemma hashed_stores:
  assumes "set_web_password_hashed par sha salt mem pw n = Some (err, n')"
  shows "\<exists>v log. set_config_param_str par ''web_password'' v n = (err, n', log) \<and> (pw = [] \<longrightarrow> v = [])"
  using assms by (auto simp: set_web_password_hashed_def Let_def case_prod_unfold prod_eq_iff bind_eq_Some_conv split: if_splits)

lemma password_stored:
  assumes "par_full par" "pw_env_ok pe"
    "set_web_password_hashed par (pe_sha pe) (pe_salt pe) (pe_mem pe) pw n = Some (err, n')"
  shows "err = ESP_OK" "is_web_password_set par n' \<longleftrightarrow> pw \<noteq> []" "wan_on par n' = wan_on par n"
proof -
  obtain v log where v: "set_config_param_str par ''web_password'' v n = (err, n', log)" "pw = [] \<longrightarrow> v = []"
    using hashed_stores [OF assms(3)] by (elim exE conjE)
  note s = set_str_full [OF assms(1) v(1)]
  show "err = ESP_OK" by (rule s(1))
  show "wan_on par n' = wan_on par n" by (rule wan_on_get [OF s(3) assms(1)]) simp
  show "is_web_password_set par n' \<longleftrightarrow> pw \<noteq> []"
  proof (cases "pw = []")
    case True
    with v(2) s(2) [of "''web_password''"] open_ok [OF assms(1), of n'] show ?thesis by (simp add: is_web_password_set_def)
  next
    case False
    then obtain n2 where n2: "set_web_password_hashed par (pe_sha pe) (pe_salt pe) (pe_mem pe) pw n = Some (ESP_OK, n2)"
      "np_get_str par n2 ''web_password'' = (ESP_OK, pw_record (pe_salt pe) (pw_compute_hash (pe_sha pe) (pe_salt pe) pw))"
      using set_password [OF par_fullD [OF assms(1)], of "pe_sha pe" "pe_salt pe" "pe_mem pe" pw n] assms(2)
      by (auto simp: pw_env_ok_def)
    with assms(3) have "n2 = n'" by simp
    with n2(2) False open_ok [OF assms(1), of n'] show ?thesis by (simp add: is_web_password_set_def pw_record_def)
  qed
qed

lemma verify_guarded:
  assumes "par_full par" "pw_env_ok pe" "wan_guarded par n"
    "verify_web_password par (pe_sha pe) (pe_salt pe) (pe_mem pe) alloc_ok pw n = Some (ok, n')"
  shows "wan_guarded par n'"
proof -
  have "n' = n \<or> pw \<noteq> [] \<and> (\<exists>err. set_web_password_hashed par (pe_sha pe) (pe_salt pe) (pe_mem pe) pw n = Some (err, n'))"
    using assms(4) by (auto simp: verify_web_password_def Let_def bind_eq_Some_conv split: if_splits option.splits prod.splits)
  with assms(3) password_stored [OF assms(1,2)] show ?thesis by (auto simp: wan_guarded_def)
qed

lemma wan_off:
  assumes "par_full par"
  shows "wan_guarded par (snd (set_config_param_int par ''wan_access'' 0 n))"
proof -
  obtain n1 where n1: "set_config_param_int par ''wan_access'' 0 n = (ESP_OK, n1)"
    "\<forall>k'. np_get_i32 par n1 k' = (if k' = ''wan_access'' then (ESP_OK, 0) else np_get_i32 par n k')"
    using set_int_full [OF assms(1), of "''wan_access''" 0 n] by (elim exE conjE)
  have "\<not> wan_on par n1" by (simp add: wan_on_def get_config_param_int_def open_ok [OF assms] n1(2))
  then show ?thesis by (simp add: n1(1) wan_guarded_def)
qed

text \<open>The four ways to turn the switch or the password.\<close>

lemma web_ui_guarded:
  assumes "par_full (fa_par api)" "wan_guarded (fa_par api) (rt_nvs r)" "web_ui_cmd api argv r = Some (ret, r')"
  shows "wan_guarded (fa_par api) (rt_nvs r')"
proof -
  let ?par = "fa_par api"
  have on: "wan_guarded ?par (snd (set_config_param_int ?par ''wan_access'' v (rt_nvs r)))"
    if "is_web_password_set ?par (rt_nvs r) \<or> v = 0" for v
  proof (cases "v = 0")
    case True
    then show ?thesis using wan_off [OF assms(1)] by simp
  next
    case False
    obtain n1 where n1: "set_config_param_int ?par ''wan_access'' v (rt_nvs r) = (ESP_OK, n1)"
      "\<forall>k'. k' \<noteq> ''wan_access'' \<longrightarrow> np_get_str ?par n1 k' = np_get_str ?par (rt_nvs r) k'"
      using set_int_full [OF assms(1), of "''wan_access''" v "rt_nvs r"] by (elim exE conjE)
    have "is_web_password_set ?par n1 = is_web_password_set ?par (rt_nvs r)"
      by (rule password_get [OF _ assms(1)]) (simp add: n1(2))
    with that False show ?thesis by (simp add: n1(1) wan_guarded_def)
  qed
  note other = wan_guarded_other [OF assms(1,2)]
  show ?thesis
    using assms(3) assms(2) on other(1) [of "''web_port''"] other(2) [of "''web_disabled''"]
    by (auto simp: web_ui_cmd_def Let_def case_prod_unfold bind_eq_Some_conv split: if_splits)
qed

lemma password_cmd_guarded:
  assumes "par_full par" "pw_env_ok pe" "wan_guarded par n"
    "set_router_password_cmd par (pe_sha pe) (pe_salt pe) (pe_mem pe) argv n = Some (ok, revoked, n')"
  shows "wan_guarded par n'"
proof (cases "length argv < 2")
  case True
  with assms(3,4) show ?thesis by (simp add: set_router_password_cmd_def)
next
  case False
  with assms(4) obtain err n1 where n1: "set_web_password_hashed par (pe_sha pe) (pe_salt pe) (pe_mem pe) (argv ! 1) n = Some (err, n1)"
    by (auto simp: set_router_password_cmd_def bind_eq_Some_conv)
  note p = password_stored [OF assms(1,2) n1]
  show ?thesis
    using assms(4) False n1 p wan_off [OF assms(1), of n1]
    by (auto simp: set_router_password_cmd_def wan_guarded_def wan_on_def Let_def case_prod_unfold split: if_splits)
qed

lemma revoke_guarded:
  assumes "par_full par" "revoke_wan par r = Some r'"
  shows "wan_guarded par (rt_nvs r')"
  using assms(2) wan_off [OF assms(1), of "rt_nvs r"]
  by (auto simp: revoke_wan_def wan_guarded_def wan_on_def Let_def case_prod_unfold bind_eq_Some_conv split: if_splits)

lemma change_password_guarded:
  assumes "par_full par" "pw_env_ok pe" "wan_guarded par (rt_nvs r)"
    "change_password pe henv par req new_pw confirm protected s r = Some (ans, s', r')"
  shows "wan_guarded par (rt_nvs r')"
proof (cases "check_csrf henv req \<and> (fst (is_authenticated henv req s) \<or> \<not> protected) \<and> new_pw = confirm")
  case False
  with assms(3,4) show ?thesis by (auto simp: change_password_def case_prod_unfold Let_def split: if_splits)
next
  case True
  with assms(4) obtain err n1 where n1: "set_web_password_hashed par (pe_sha pe) (pe_salt pe) (pe_mem pe) new_pw (rt_nvs r) = Some (err, n1)"
    by (auto simp: change_password_def case_prod_unfold Let_def bind_eq_Some_conv)
  note p = password_stored [OF assms(1,2) n1]
  show ?thesis
    using assms(4) True n1 p revoke_guarded [OF assms(1)]
    by (auto simp: change_password_def case_prod_unfold Let_def bind_eq_Some_conv wan_guarded_def split: if_splits)
qed

lemma index_guarded:
  assumes "par_full par" "pw_env_ok pe" "wan_guarded par (rt_nvs r)"
    "index_get_handler pe henv par req s r = Some (ans, s', r')"
  shows "wan_guarded par (rt_nvs r')"
proof -
  have "wan_guarded par (rt_nvs r2)" if "index_form pe henv par req protected q s r = Some (a, t, r2)" for protected q a t r2
    using that assms(3) change_password_guarded [OF assms(1-3)] verify_guarded [OF assms(1-3)]
    by (auto simp: index_form_def Let_def case_prod_unfold bind_eq_Some_conv split: if_splits option.splits)
  with assms(3,4) show ?thesis by (auto simp: index_get_handler_def bind_eq_Some_conv split: option.splits)
qed

text \<open>
  C28: Access to the web server from the uplink is on only while a router password is set: the command
  that turns it on refuses without one, and clearing the password, on the console or on the front page,
  turns it off, whatever else the request holds.
\<close>

theorem wan_needs_password:
  assumes "par_full (fa_par api)" "pw_env_ok pe" "wan_guarded (fa_par api) (rt_nvs r)"
  shows "(web_ui_cmd api argv r = Some (ret, r1) \<longrightarrow> wan_guarded (fa_par api) (rt_nvs r1)) \<and>
    (set_router_password_cmd (fa_par api) (pe_sha pe) (pe_salt pe) (pe_mem pe) argv (rt_nvs r) = Some (ok, revoked, n2)
       \<longrightarrow> wan_guarded (fa_par api) n2) \<and>
    (index_get_handler pe henv (fa_par api) req s r = Some (ans, s3, r3) \<longrightarrow> wan_guarded (fa_par api) (rt_nvs r3))"
  using web_ui_guarded [OF assms(1,3)] password_cmd_guarded [OF assms] index_guarded [OF assms] by blast

lemma full_api_full: "par_full (fa_par full_api)"
  using full_api_works by (simp add: par_full_def flash_works_def) (simp add: full_api_def nvs_par_map_def)

text \<open>Turning access on without a password is refused; the switch stays off.\<close>

theorem wan_needs_password_witness:
  "web_ui_cmd full_api [''web_ui'', ''wan_access'', ''on''] fresh_router = Some (Rc 1, fresh_router) \<and>
    wan_guarded (fa_par full_api) (rt_nvs fresh_router)"
proof -
  have off: "\<not> is_web_password_set (fa_par full_api) (rt_nvs fresh_router)" "wan_guarded (fa_par full_api) (rt_nvs fresh_router)"
    by (simp_all add: full_api_def fresh_router_def is_web_password_set_def nvs_par_map_def wan_guarded_def wan_on_def get_config_param_int_def)
  define pe where "pe = \<lparr>pe_sha = sample_sha, pe_salt = replicate 16 7, pe_mem = replicate 98 CHR ''x''\<rparr>"
  have "pw_env_ok pe" by (auto simp: pw_env_ok_def pe_def sample_sha_def min_def)
  moreover have e: "web_ui_cmd full_api [''web_ui'', ''wan_access'', ''on''] fresh_router = Some (Rc 1, fresh_router)"
    using off(1) by (simp add: web_ui_cmd_def)
  ultimately show ?thesis using wan_needs_password [OF full_api_full, of pe fresh_router "[''web_ui'', ''wan_access'', ''on'']" "Rc 1" fresh_router] off(2)
    by simp
qed

section \<open>The firewall in flash\<close>

text \<open>
  C29: As long as the flash works, the rules it holds stay those in memory, up to counters, through every
  firewall command of the console and every form of the firewall page, the refused ones included; and
  neither ever blocks.
\<close>

theorem firewall_kept_in_flash:
  assumes "nvs_works (fa_acl api)" "acl_inv (rt_acl r)" "rules_saved (fa_acl api) (rt_nvs r) (rt_acl r)"
  shows "(\<exists>ret r'. acl_cmd api env argv r = Some (ret, r') \<and> rules_saved (fa_acl api) (rt_nvs r') (rt_acl r')) \<and>
    (\<exists>ans r'. firewall_form api env req q r = Some (ans, r') \<and> rules_saved (fa_acl api) (rt_nvs r') (rt_acl r'))"
proof -
  have f: "flash_in_step api r" using assms by (simp add: flash_in_step_def)
  show ?thesis
    using flash.acl_cmd_keeps [OF f, of env argv] flash.firewall_form_keeps [OF f, of env req q] assms(1)
    by (auto simp: flash_in_step_def)
qed

theorem firewall_kept_in_flash_witness:
  "\<exists>n. let r = fresh_router\<lparr>rt_nvs := n\<rparr> in
    (\<exists>ret r'. acl_cmd full_api home_env [''acl'', ''to_ap'', ''IP'', ''any'', ''any'', ''deny''] r = Some (ret, r') \<and>
       rules_saved (fa_acl full_api) (rt_nvs r') (rt_acl r')) \<and>
    (\<exists>ans r'. firewall_form full_api home_env foreign_req ''clear_acl=0'' r = Some (ans, r') \<and>
       rules_saved (fa_acl full_api) (rt_nvs r') (rt_acl r'))"
proof -
  have inv: "acl_inv (rt_acl fresh_router)" using fresh_router_ok by (simp add: router_ok_def tables_ok_def)
  have w: "nvs_works (fa_acl full_api)" using full_api_works by (simp add: flash_works_def)
  obtain n where n: "do_save_rules full_api (rt_acl fresh_router) fresh_router
      = Some (fresh_router\<lparr>rt_nvs := n, rt_acl := rt_acl fresh_router\<rparr>)" using save_rules_ok [OF inv, of full_api fresh_router] ..
  let ?r = "fresh_router\<lparr>rt_nvs := n\<rparr>"
  have "acl_inv (rt_acl ?r)" "rules_saved (fa_acl full_api) (rt_nvs ?r) (rt_acl ?r)"
    using inv saved_in_step [OF inv n w] by simp_all
  from firewall_kept_in_flash [OF w this, of home_env _ foreign_req "''clear_acl=0''"] show ?thesis
    unfolding Let_def by (intro exI [of _ n]) blast
qed

section \<open>Faults of the forms\<close>

text \<open>
  The page decodes the password and \<open>set_ap\<close> decodes it again: a plus sign becomes a blank.  Saving the
  page with the password left empty changes the stored one.
\<close>

lemma unchanged_password_changes:
  assumes "par_full par" "rq_value req q ''ap_open'' 4 = None"
  shows "\<exists>n' log. set_ap par (Some (ssid, ap_password req q [] ''radio+wave'')) n = (Rc 0, n', log) \<and>
    np_get_str par n' ''ap_passwd'' = (ESP_OK, ''radio wave'')"
proof -
  have p: "preprocess_string (ap_password req q [] ''radio+wave'') = ''radio wave''"
    using assms(2) by (simp add: ap_password_def is_hex_digit_def)
  show ?thesis unfolding set_ap_def Let_def p option.case prod.case
    using assms(1) by (simp add: par_full_def par_works_def case_prod_unfold ret_of_def)
qed

text \<open>
  The forms do not look at the origin of a request: while no password is set, a page of any other site
  can clear the firewall, although the import, export and update handlers would refuse it.
\<close>

lemma foreign_form_acts:
  fixes req defines "req \<equiv> foreign_req\<lparr>rq_query := Some ''clear_acl=0'', rq_value := (\<lambda>q k n. if k = ''clear_acl'' then Some ''0'' else None)\<rparr>"
  assumes "\<not> is_web_password_set (fa_par api) (rt_nvs r)" "acl_inv (rt_acl r)"
  shows "\<not> check_csrf sample_http req \<and>
    (\<exists>r'. firewall_get_handler sample_http api env req s r = Some (Redirect 303 ''/firewall'', s, r') \<and> acl_rules ACL_TO_ESP (rt_acl r') = [])"
proof -
  have "\<not> check_csrf sample_http foreign_req" by (simp add: check_csrf_def foreign_req_def sample_http_def ip_origin_def sample_req_def) code_simp
  then have "\<not> check_csrf sample_http req" by (simp add: check_csrf_def req_def foreign_req_def)
  moreover
  obtain t where t: "acl_clear 0 (rt_acl r) = Some t" "acl_inv t" "\<forall>m < MAX_ACL_LISTS. acl_rules m t = (if m = 0 then [] else acl_rules m (rt_acl r))"
    using acl_clear_law [OF assms(3), of 0] by (elim exE conjE)
  obtain n where n: "do_save_rules api t r = Some (r\<lparr>rt_nvs := n, rt_acl := t\<rparr>)" using save_rules_ok [OF t(2), of api r] ..
  have z: "atoi ''0'' = 0" by (simp add: atoi_def is_space_def is_digit_def dec_val_def digit_val_def)
  have "firewall_form api env req q r = Some (Redirect 303 ''/firewall'', r\<lparr>rt_nvs := n, rt_acl := t\<rparr>)" for q
    using t(1) n by (simp add: firewall_form_def fw_add_def fw_delete_def fw_clear_def req_def z MAX_ACL_LISTS_def)
  then have "firewall_get_handler sample_http api env req s r = Some (Redirect 303 ''/firewall'', s, r\<lparr>rt_nvs := n, rt_acl := t\<rparr>)"
    using assms(2) by (simp add: firewall_get_handler_def guarded_page_def page_guard_def req_def foreign_req_def sample_http_def)
  moreover have "acl_rules ACL_TO_ESP t = []" using t(3) by (simp add: acl_consts)
  ultimately show ?thesis by auto
qed

text \<open>Anybody can end the session: \<open>/?logout=1\<close> asks for no cookie.\<close>

lemma logout_by_anyone:
  assumes "he_alloc henv" "\<not> rq_post req" "rq_query req = Some q" "rq_value req q ''logout'' 128 \<noteq> None"
  shows "\<exists>ans. index_get_handler pe henv par req s r = Some (ans, clear_session s, r)"
  using assms by (simp add: index_get_handler_def form_text_def index_form_def shown_def is_authenticated_def clear_session_def)

end
