(* ===== verification/Syslog.thy ===== *)
theory Syslog
  imports Router_Commands
begin

text \<open>
  The syslog client of \<open>components/syslog/syslog_client.c\<close>: the hook that turns log output into
  packets on a queue, the task that sends them, its start and stop, the connection to the server, and
  the console command.  What \<open>printf\<close> would print, memory, time, name resolution and sockets are
  parameters; a message of the queue is its first \<open>len\<close> bytes, and the empty one is the poison pill.
\<close>

definition SYSLOG_PKT_MAX :: nat where "SYSLOG_PKT_MAX = 256"
definition SYSLOG_QUEUE_DEPTH :: nat where "SYSLOG_QUEUE_DEPTH = 16"
definition SYSLOG_STOP_TIMEOUT_MS :: nat where "SYSLOG_STOP_TIMEOUT_MS = 2000"
definition SYSLOG_STOP_POLL_MS :: nat where "SYSLOG_STOP_POLL_MS = 20"
definition SYSLOG_DEFAULT_PORT :: u16 where "SYSLOG_DEFAULT_PORT = 514"
definition SYSLOG_MAX_SERVER_LEN :: nat where "SYSLOG_MAX_SERVER_LEN = 64"
definition SYSLOG_FACILITY :: nat where "SYSLOG_FACILITY = 16"

lemmas syslog_consts = SYSLOG_PKT_MAX_def SYSLOG_QUEUE_DEPTH_def SYSLOG_STOP_TIMEOUT_MS_def SYSLOG_STOP_POLL_MS_def
  SYSLOG_DEFAULT_PORT_def SYSLOG_MAX_SERVER_LEN_def SYSLOG_FACILITY_def

text \<open>\<open>sy_sock\<close>: the socket's number, negative without one; \<open>sy_open\<close>: the sockets that are open.\<close>

record 'n syslog_state =
  sy_mutex :: mutex
  sy_enabled :: bool
  sy_server :: string
  sy_port :: u16
  sy_queue :: "string list option"
  sy_task :: bool
  sy_sock :: int
  sy_open :: "int list"
  sy_dest :: u32
  sy_resolved :: bool
  sy_fmt_mutex :: mutex
  sy_rawbuf :: "string option"
  sy_pktbuf :: "string option"
  sy_rawpos :: nat
  sy_hook :: bool
  sy_flash :: 'n

definition syslog_boot :: "'n \<Rightarrow> 'n syslog_state" where
  "syslog_boot n = \<lparr>sy_mutex = MutexNull, sy_enabled = False, sy_server = [], sy_port = SYSLOG_DEFAULT_PORT, sy_queue = None,
     sy_task = False, sy_sock = -1, sy_open = [], sy_dest = 0, sy_resolved = False, sy_fmt_mutex = MutexNull, sy_rawbuf = None,
     sy_pktbuf = None, sy_rawpos = 0, sy_hook = False, sy_flash = n\<rparr>"

section \<open>Settings in flash\<close>

record 'n syslog_flash =
  sf_par :: "'n nvs_par"
  sf_get_u8 :: "'n \<Rightarrow> string \<Rightarrow> u8 option"
  sf_set_u8 :: "'n \<Rightarrow> string \<Rightarrow> u8 \<Rightarrow> 'n"
  sf_get_u16 :: "'n \<Rightarrow> string \<Rightarrow> u16 option"
  sf_set_u16 :: "'n \<Rightarrow> string \<Rightarrow> u16 \<Rightarrow> 'n"

definition syslog_load_config :: "'n syslog_flash \<Rightarrow> 'n syslog_state \<Rightarrow> 'n syslog_state" where
  "syslog_load_config api s =
     (let n = sy_flash s in
      if np_open (sf_par api) n \<noteq> ESP_OK then s
      else let (err, v) = np_get_str (sf_par api) n ''syslog_srv'' in
        s\<lparr>sy_enabled := (case sf_get_u8 api n ''syslog_en'' of Some en \<Rightarrow> en \<noteq> 0 | None \<Rightarrow> False),
          sy_server := (if err = ESP_OK \<and> length v < SYSLOG_MAX_SERVER_LEN then v else sy_server s),
          sy_port := (case sf_get_u16 api n ''syslog_port'' of Some p \<Rightarrow> p | None \<Rightarrow> sy_port s)\<rparr>)"

definition syslog_save_config :: "'n syslog_flash \<Rightarrow> 'n syslog_state \<Rightarrow> esp_err \<times> 'n syslog_state" where
  "syslog_save_config api s =
     (let n = sy_flash s in
      if np_open (sf_par api) n \<noteq> ESP_OK then (np_open (sf_par api) n, s)
      else
        let n = sf_set_u8 api n ''syslog_en'' (if sy_enabled s then 1 else 0);
            n = snd (np_set_str (sf_par api) n ''syslog_srv'' (sy_server s));
            n = sf_set_u16 api n ''syslog_port'' (sy_port s);
            (err, n) = np_commit (sf_par api) n
        in (err, s\<lparr>sy_flash := n\<rparr>))"

section \<open>Lines\<close>

abbreviation ESC :: char where "ESC \<equiv> CHR 0x1B"

definition esp_level_to_syslog :: "char \<Rightarrow> nat" where
  "esp_level_to_syslog c =
     (if c = CHR ''E'' then 3 else if c = CHR ''W'' then 4 else if c = CHR ''I'' then 6 else if c = CHR ''D'' then 7
      else if c = CHR ''V'' then 7 else 5)"

text \<open>What follows the \<open>m\<close> that ends an escape sequence.\<close>

definition after_m :: "string \<Rightarrow> string" where
  "after_m s = drop 1 (dropWhile (\<lambda>c. c \<noteq> CHR ''m'') s)"

lemma length_after_m: "length (after_m s) \<le> length s"
  using length_dropWhile_le [of "\<lambda>c. c \<noteq> CHR ''m''" s] by (simp add: after_m_def)

definition extract_level_and_clean :: "string \<Rightarrow> char \<times> string" where
  "extract_level_and_clean msg =
     (let p = (case msg of a # b # r \<Rightarrow> if a = ESC \<and> b = CHR ''['' then after_m r else msg | _ \<Rightarrow> msg)
      in (case p of a # b # r \<Rightarrow> if b = CHR '' '' \<or> b = CHR ''('' then a else CHR ''I'' | _ \<Rightarrow> CHR ''I'', p))"

text \<open>The loop of \<open>strip_ansi\<close>: \<open>room\<close> characters still fit.\<close>

function strip_loop :: "nat \<Rightarrow> string \<Rightarrow> string" where
  "strip_loop room [] = []"
| "strip_loop room (c # s) =
     (if room = 0 then []
      else if c = ESC then (case s of b # r \<Rightarrow> if b = CHR ''['' then strip_loop room (after_m r) else strip_loop room s | [] \<Rightarrow> [])
      else c # strip_loop (room - 1) s)"
  by pat_completeness auto
termination
  by (relation "measure (\<lambda>(room, s). length s)") (auto simp: less_Suc_eq_le intro: le_SucI length_after_m)

declare strip_loop.simps(2) [simp del]

lemma strip_loop_simps [simp]:
  "strip_loop 0 s = []"
  "strip_loop (Suc room) [ESC] = []"
  "strip_loop (Suc room) (ESC # CHR ''['' # s) = strip_loop (Suc room) (after_m s)"
  "b \<noteq> CHR ''['' \<Longrightarrow> strip_loop (Suc room) (ESC # b # s) = strip_loop (Suc room) (b # s)"
  "c \<noteq> ESC \<Longrightarrow> strip_loop (Suc room) (c # s) = c # strip_loop room s"
  by (cases s; simp add: strip_loop.simps(2))+

definition strip_ansi :: "string \<Rightarrow> nat \<Rightarrow> string" where
  "strip_ansi src max_len = rev (dropWhile (\<lambda>c. c = CHR 0x0A \<or> c = CHR 0x0D) (rev (strip_loop (max_len - 1) src)))"

text \<open>Whether nothing but spaces follows the last colon.\<close>

definition is_stub :: "string \<Rightarrow> bool" where
  "is_stub s \<longleftrightarrow> CHR '':'' \<in> set s \<and> (\<forall>c \<in> set (takeWhile (\<lambda>c. c \<noteq> CHR '':'') (rev s)). c = CHR '' '')"

text \<open>The time as \<open>strftime\<close> prints it is used once the clock is set.\<close>

record log_env =
  le_text :: string
  le_connected :: bool
  le_inside :: bool
  le_now :: int
  le_stamp :: string
  le_host :: string

definition syslog_text :: "log_env \<Rightarrow> char \<Rightarrow> string \<Rightarrow> string" where
  "syslog_text env level line =
     ''<'' @ dec_string (SYSLOG_FACILITY * 8 + esp_level_to_syslog level) @ ''>'' @
     (if le_now env > 1000000000 then le_stamp env else ''Jan  1 00:00:00'') @ '' '' @ le_host env @ '' '' @ line @ [CHR 0x0A]"

text \<open>
  \<open>snprintf\<close> into the 256 bytes of a message, whose length is clamped to 256: a text that does not
  fit is sent with its terminating NUL.
\<close>

definition syslog_packet :: "string \<Rightarrow> string" where
  "syslog_packet s = (if length s < SYSLOG_PKT_MAX then s else take (SYSLOG_PKT_MAX - 1) s @ [CHR 0x00])"

definition queue_send :: "string \<Rightarrow> string list \<Rightarrow> string list" where
  "queue_send msg q = (if length q < SYSLOG_QUEUE_DEPTH then q @ [msg] else q)"

section \<open>The hook\<close>

text \<open>\<open>None\<close>: a write outside a buffer.\<close>

definition syslog_append :: "string \<Rightarrow> string \<Rightarrow> nat \<Rightarrow> (string \<times> nat) option" where
  "syslog_append printed raw pos =
     (let space = SYSLOG_PKT_MAX - pos - 1; n = length printed in
      if space > 0
      then do { raw \<leftarrow> wr_bytes raw pos (take space printed @ [CHR 0x00]); Some (raw, if n > 0 then pos + (if n > space then space else n) else pos) }
      else Some (raw, pos))"

definition syslog_line :: "log_env \<Rightarrow> string \<Rightarrow> string \<Rightarrow> string list \<Rightarrow> (string \<times> string list) option" where
  "syslog_line env raw pkt q =
     (let (level, start) = extract_level_and_clean (c_string raw);
          clean = strip_ansi start SYSLOG_PKT_MAX
      in do {
        pkt \<leftarrow> wr_bytes pkt 0 (clean @ [CHR 0x00]);
        Some (pkt, if clean \<noteq> [] \<and> \<not> is_stub clean then queue_send (syslog_packet (syslog_text env level clean)) q else q) })"

definition syslog_vprintf :: "log_env \<Rightarrow> 'n syslog_state \<Rightarrow> 'n syslog_state option" where
  "syslog_vprintf env s =
     (if \<not> sy_enabled s \<or> \<not> le_connected env \<or> le_inside env \<or> sy_queue s = None then Some s
      else if sy_fmt_mutex s = MutexNull then None
      else if sy_fmt_mutex s = MutexHeld then Some s
      else case (sy_queue s, sy_rawbuf s, sy_pktbuf s) of
        (Some q, Some raw, Some pkt) \<Rightarrow>
          if \<not> sy_resolved s then Some s
          else do {
            (raw, pos) \<leftarrow> syslog_append (le_text env) raw (sy_rawpos s);
            if pos > 0 \<and> CHR 0x0A \<in> set (take pos raw) then do {
              raw \<leftarrow> wr_bytes raw pos [CHR 0x00];
              (pkt, q) \<leftarrow> syslog_line env raw pkt q;
              Some (s\<lparr>sy_rawbuf := Some raw, sy_pktbuf := Some pkt, sy_rawpos := 0, sy_queue := Some q\<rparr>) }
            else Some (s\<lparr>sy_rawbuf := Some raw, sy_rawpos := pos\<rparr>) }
      | _ \<Rightarrow> Some s)"

section \<open>The sending task\<close>

definition close_sock :: "'n syslog_state \<Rightarrow> 'n syslog_state" where
  "close_sock s = (if sy_sock s \<ge> 0 then s\<lparr>sy_open := remove1 (sy_sock s) (sy_open s), sy_sock := -1\<rparr> else s)"

definition sender_exit :: "'n syslog_state \<Rightarrow> 'n syslog_state" where
  "sender_exit s = (close_sock s)\<lparr>sy_resolved := False, sy_task := False\<rparr>"

text \<open>One round of the task: what is sent, if anything.\<close>

definition sender_round :: "'n syslog_state \<Rightarrow> (u32 \<times> string) option \<times> 'n syslog_state" where
  "sender_round s =
     (case (sy_task s, sy_queue s) of
        (True, Some (msg # q)) \<Rightarrow>
          let s = s\<lparr>sy_queue := Some q\<rparr> in
          if msg = [] then (None, sender_exit s)
          else if sy_sock s \<ge> 0 \<and> sy_resolved s then (Some (sy_dest s, msg), s)
          else (None, s)
      | _ \<Rightarrow> (None, s))"

text \<open>What FreeRTOS and \<open>malloc\<close> give when the sender is started.\<close>

record start_env =
  se_queue_ok :: bool
  se_mutex_ok :: bool
  se_raw :: "string option"
  se_pkt :: "string option"
  se_task_ok :: bool

definition start_sender :: "start_env \<Rightarrow> 'n syslog_state \<Rightarrow> 'n syslog_state" where
  "start_sender se s =
     (let s = (if sy_queue s = None \<and> se_queue_ok se then s\<lparr>sy_queue := Some []\<rparr> else s);
          s = (if sy_fmt_mutex s = MutexNull \<and> se_mutex_ok se then s\<lparr>sy_fmt_mutex := MutexFree\<rparr> else s);
          s = (if sy_rawbuf s = None then s\<lparr>sy_rawbuf := se_raw se, sy_rawpos := 0\<rparr> else s);
          s = (if sy_pktbuf s = None then s\<lparr>sy_pktbuf := se_pkt se\<rparr> else s)
      in if \<not> sy_task s \<and> sy_queue s \<noteq> None \<and> se_task_ok se then s\<lparr>sy_task := True\<rparr> else s)"

text \<open>The wait for the task: \<open>gone w\<close> says whether its handle is clear after \<open>w\<close> milliseconds.\<close>

function syslog_wait :: "(nat \<Rightarrow> bool) \<Rightarrow> nat \<Rightarrow> nat \<times> bool" where
  "syslog_wait gone waited =
     (if \<not> gone waited \<and> waited < SYSLOG_STOP_TIMEOUT_MS then syslog_wait gone (waited + SYSLOG_STOP_POLL_MS)
      else (waited, gone waited))"
  by pat_completeness auto
termination
  by (relation "measure (\<lambda>(gone, waited). SYSLOG_STOP_TIMEOUT_MS - waited)") (auto simp: SYSLOG_STOP_POLL_MS_def)

declare syslog_wait.simps [simp del]

text \<open>
  The pill is sent with a time-out of 100 ms: with the queue full it waits until the task takes a
  message, \<open>room\<close> milliseconds later if that is in time; otherwise it is not sent.  How long it took, and
  the queue then.
\<close>

definition SYSLOG_PILL_WAIT_MS :: nat where "SYSLOG_PILL_WAIT_MS = 100"

definition send_pill :: "nat option \<Rightarrow> string list \<Rightarrow> nat \<times> string list" where
  "send_pill room q =
     (if length q < SYSLOG_QUEUE_DEPTH then (0, q @ [[]])
      else case room of
        Some w \<Rightarrow> if w < SYSLOG_PILL_WAIT_MS then (w, tl q @ [[]]) else (SYSLOG_PILL_WAIT_MS, q)
      | None \<Rightarrow> (SYSLOG_PILL_WAIT_MS, q))"

text \<open>
  When the task is seen gone it has taken the messages up to the pill.  The number is how many
  milliseconds were waited for the task; \<open>None\<close>: the wait for the lock of the buffers does not end.
\<close>

definition stop_sender :: "nat option \<Rightarrow> (nat \<Rightarrow> bool) \<Rightarrow> 'n syslog_state \<Rightarrow> (nat \<times> 'n syslog_state) option" where
  "stop_sender room gone s =
     (let (waited, s) = (case sy_queue s of
          Some q \<Rightarrow>
            if sy_task s then
              let (w, q) = send_pill room q; (w', seen) = syslog_wait gone 0; s = s\<lparr>sy_queue := Some q\<rparr> in
              (w + w', if seen then sender_exit (s\<lparr>sy_queue := Some []\<rparr>) else s)
            else (0, s)
        | None \<Rightarrow> (0, s))
      in if sy_task s then Some (waited, s)
         else let s = s\<lparr>sy_queue := None\<rparr>; freed = s\<lparr>sy_rawbuf := None, sy_pktbuf := None, sy_rawpos := 0\<rparr> in
           if sy_fmt_mutex s = MutexNull then Some (waited, freed)
           else do { m \<leftarrow> sem_take_forever (sy_fmt_mutex s); Some (waited, freed\<lparr>sy_fmt_mutex := sem_give m\<rparr>) })"

section \<open>The connection\<close>

text \<open>
  \<open>syslog_connect\<close> up to the name resolution, for which the lock is released, and from there on:
  \<open>found\<close> is the address, \<open>fd\<close> what \<open>socket\<close> returns.
\<close>

definition connect_begin :: "'n syslog_state \<Rightarrow> (bool \<times> 'n syslog_state) option" where
  "connect_begin s = do {
     m \<leftarrow> sem_take_forever (sy_mutex s);
     if \<not> sy_enabled s \<or> sy_server s = [] then Some (False, s\<lparr>sy_mutex := sem_give m\<rparr>)
     else Some (True, (close_sock s)\<lparr>sy_resolved := False, sy_mutex := sem_give m\<rparr>) }"

definition connect_end :: "u32 option \<Rightarrow> int \<Rightarrow> start_env \<Rightarrow> 'n syslog_state \<Rightarrow> 'n syslog_state option" where
  "connect_end found fd se s = do {
     m \<leftarrow> sem_take_forever (sy_mutex s);
     let s = (case found of
           Some a \<Rightarrow> let s = s\<lparr>sy_dest := a, sy_sock := fd\<rparr> in
             if fd \<ge> 0 then s\<lparr>sy_open := fd # sy_open s, sy_resolved := True\<rparr> else s
         | None \<Rightarrow> s)
     in Some ((start_sender se s)\<lparr>sy_mutex := sem_give m\<rparr>) }"

record net_env =
  ne_resolve :: "string \<Rightarrow> u16 \<Rightarrow> u32 option"
  ne_socket :: int
  ne_start :: start_env

definition syslog_connect :: "net_env \<Rightarrow> 'n syslog_state \<Rightarrow> 'n syslog_state option" where
  "syslog_connect ne s = do {
     (go, t) \<leftarrow> connect_begin s;
     if \<not> go then Some t else connect_end (ne_resolve ne (sy_server s) (sy_port s)) (ne_socket ne) (ne_start ne) t }"

definition syslog_init :: "'n syslog_flash \<Rightarrow> bool \<Rightarrow> net_env \<Rightarrow> 'n syslog_state \<Rightarrow> (esp_err \<times> 'n syslog_state) option" where
  "syslog_init api mutex_ok ne s =
     (if \<not> mutex_ok then Some (ESP_ERR_NO_MEM, s)
      else let s = (syslog_load_config api (s\<lparr>sy_mutex := MutexFree\<rparr>))\<lparr>sy_hook := True\<rparr> in
        if sy_enabled s \<and> sy_server s \<noteq> [] then do { s \<leftarrow> syslog_connect ne s; Some (ESP_OK, s) }
        else Some (ESP_OK, s))"

definition syslog_enable :: "'n syslog_flash \<Rightarrow> net_env \<Rightarrow> string \<Rightarrow> u16 \<Rightarrow> 'n syslog_state \<Rightarrow> (esp_err \<times> 'n syslog_state) option" where
  "syslog_enable api ne server port s =
     (if server = [] then Some (ESP_ERR_INVALID_ARG, s)
      else do {
        m \<leftarrow> sem_take_forever (sy_mutex s);
        let s = s\<lparr>sy_server := strncpy_trunc SYSLOG_MAX_SERVER_LEN server, sy_port := port, sy_enabled := True, sy_resolved := False,
              sy_mutex := sem_give m\<rparr>
        in do { s \<leftarrow> syslog_connect ne s; Some (syslog_save_config api s) } })"

text \<open>The number: how long the sender was waited for.\<close>

definition syslog_disable :: "'n syslog_flash \<Rightarrow> nat option \<Rightarrow> (nat \<Rightarrow> bool) \<Rightarrow> 'n syslog_state \<Rightarrow> (nat \<times> 'n syslog_state) option" where
  "syslog_disable api room gone s = do {
     m \<leftarrow> sem_take_forever (sy_mutex s);
     (waited, s) \<leftarrow> stop_sender room gone (s\<lparr>sy_enabled := False\<rparr>);
     let s = (close_sock s)\<lparr>sy_resolved := False, sy_mutex := sem_give m\<rparr>
     in Some (waited, snd (syslog_save_config api s)) }"

definition syslog_is_enabled :: "'n syslog_state \<Rightarrow> bool" where
  "syslog_is_enabled s = sy_enabled s"

definition syslog_get_config :: "'n syslog_state \<Rightarrow> nat \<Rightarrow> (bool \<times> string \<times> u16) option" where
  "syslog_get_config s server_len = do {
     m \<leftarrow> sem_take_forever (sy_mutex s);
     Some (sy_enabled s, strncpy_trunc server_len (sy_server s), sy_port s) }"

text \<open>Whether a task that connects is started.\<close>

definition syslog_notify_connected :: "'n syslog_state \<Rightarrow> bool" where
  "syslog_notify_connected s \<longleftrightarrow> sy_enabled s \<and> \<not> sy_resolved s"

section \<open>The command\<close>

definition syslog_cmd :: "'n syslog_flash \<Rightarrow> net_env \<Rightarrow> nat option \<Rightarrow> (nat \<Rightarrow> bool) \<Rightarrow> string list \<Rightarrow> 'n syslog_state
    \<Rightarrow> (cmd_ret \<times> 'n syslog_state) option" where
  "syslog_cmd api ne room gone argv s =
     (if length argv < 2 then Some (Rc 0, s)
      else if argv ! 1 = ''status'' then do { c \<leftarrow> syslog_get_config s SYSLOG_MAX_SERVER_LEN; Some (Rc 0, s) }
      else if argv ! 1 = ''enable'' then
        (if length argv < 3 then Some (Rc 1, s)
         else let p = (if length argv \<ge> 4 then atoi (argv ! 3) else uint SYSLOG_DEFAULT_PORT) in
           if p < 1 \<or> p > 65535 then Some (Rc 1, s)
           else do { (err, s) \<leftarrow> syslog_enable api ne (argv ! 2) (word_of_int p) s; Some (Rc 0, s) })
      else if argv ! 1 = ''disable'' then do { (waited, s) \<leftarrow> syslog_disable api room gone s; Some (Rc 0, s) }
      else Some (Rc 1, s))"

end
