(* ===== verification/Syslog_Theorems.thy ===== *)
theory Syslog_Theorems
  imports Syslog
begin

text \<open>
  The syslog client: the hook stays inside its buffers and sends what was logged; a complete line
  arrives as one packet; a line that is too long stops it; switching it off ends and frees everything.
\<close>

section \<open>Clean text\<close>

lemma strip_loop_rule [case_names empty full lone colour other plain]:
  assumes "\<And>room. P room []" "\<And>s. P 0 s" "\<And>room. P (Suc room) [ESC]"
    "\<And>room s. P (Suc room) (after_m s) \<Longrightarrow> P (Suc room) (ESC # CHR ''['' # s)"
    "\<And>room b s. b \<noteq> CHR ''['' \<Longrightarrow> P (Suc room) (b # s) \<Longrightarrow> P (Suc room) (ESC # b # s)"
    "\<And>room c s. c \<noteq> ESC \<Longrightarrow> P room s \<Longrightarrow> P (Suc room) (c # s)"
  shows "P room s"
proof (induction room s rule: strip_loop.induct)
  case (2 room c s)
  show ?case
  proof (cases room)
    case 0
    then show ?thesis using assms(2) by simp
  next
    case (Suc n)
    show ?thesis
    proof (cases "c = ESC")
      case True
      show ?thesis
      proof (cases s)
        case Nil
        then show ?thesis using assms(3) Suc True by simp
      next
        case (Cons b r)
        then show ?thesis using 2(1,2) assms(4,5) Suc True by (cases "b = CHR ''[''") simp_all
      qed
    next
      case False
      then show ?thesis using 2(3) assms(6) Suc by simp
    qed
  qed
qed (use assms(1) in simp)

lemma strip_loop_length: "length (strip_loop room s) \<le> room"
  by (induction room s rule: strip_loop_rule) simp_all

lemma after_m_set: "set (after_m s) \<subseteq> set s"
  unfolding after_m_def by (meson in_set_dropD set_dropWhileD subsetI)

lemma strip_loop_set: "set (strip_loop room s) \<subseteq> set s - {ESC}"
proof (induction room s rule: strip_loop_rule)
  case (colour room s)
  then show ?case using after_m_set [of s] by auto
qed auto

lemma strip_ansi_sound:
  assumes "0 < n"
  shows "length (strip_ansi s n) < n \<and> set (strip_ansi s n) \<subseteq> set s - {ESC}"
proof -
  have "length (strip_ansi s n) \<le> length (strip_loop (n - 1) s)"
    unfolding strip_ansi_def by (metis length_dropWhile_le length_rev)
  moreover have "set (strip_ansi s n) \<subseteq> set (strip_loop (n - 1) s)"
    unfolding strip_ansi_def by (metis set_dropWhileD set_rev subsetI)
  ultimately show ?thesis using strip_loop_length [of "n - 1" s] strip_loop_set [of "n - 1" s] assms by fastforce
qed

text \<open>Text without escapes is kept, and a colour in front or behind is taken out.\<close>

lemma strip_loop_plain: "ESC \<notin> set s \<Longrightarrow> strip_loop room s = take room s"
  by (induction s arbitrary: room) (auto simp: take_Cons' gr0_conv_Suc elim!: Suc_lessE)

definition colour :: "string \<Rightarrow> bool" where
  "colour s \<longleftrightarrow> s = [] \<or> (\<exists>x. s = ESC # CHR ''['' # x @ ''m'' \<and> CHR ''m'' \<notin> set x \<and> set x \<inter> {CHR 0x00, CHR 0x0A} = {})"

lemma after_m_colour: "CHR ''m'' \<notin> set x \<Longrightarrow> after_m (x @ ''m'' @ s) = s"
  by (simp add: after_m_def dropWhile_append)

lemma strip_loop_body: "ESC \<notin> set body \<Longrightarrow> length body \<le> room \<Longrightarrow> strip_loop room (body @ s) = body @ strip_loop (room - length body) s"
proof (induction body arbitrary: room)
  case (Cons a body)
  then show ?case by (cases room) auto
qed simp

lemma strip_loop_colour:
  assumes "colour c" "c = [] \<or> 0 < room"
  shows "strip_loop room (c @ s) = strip_loop room s"
proof (cases "c = []")
  case False
  then obtain x where x: "c = ESC # CHR ''['' # x @ ''m''" "CHR ''m'' \<notin> set x" using assms(1) by (auto simp: colour_def)
  moreover obtain n where "room = Suc n" using False assms(2) by (cases room) auto
  ultimately show ?thesis using after_m_colour [OF x(2), of s] by simp
qed simp

lemma strip_line:
  assumes "colour post" "ESC \<notin> set body" "length body < n" "body \<noteq> []" "last body \<noteq> CHR 0x0A" "last body \<noteq> CHR 0x0D"
    "set rest \<subseteq> {CHR 0x0A}"
  shows "strip_ansi (body @ post @ rest) n = body"
proof -
  have e: "ESC \<notin> set rest" using assms(7) by auto
  have "\<exists>k. strip_loop (n - 1) (body @ post @ rest) = body @ take k rest"
  proof (cases "n - 1 - length body = 0")
    case True
    then show ?thesis using strip_loop_body [OF assms(2), of "n - 1" "post @ rest"] assms(3) by (intro exI [of _ 0]) simp
  next
    case False
    then show ?thesis
      using strip_loop_body [OF assms(2), of "n - 1" "post @ rest"] assms(3) strip_loop_colour [OF assms(1), of "n - 1 - length body" rest]
        strip_loop_plain [OF e, of "n - 1 - length body"] by (intro exI [of _ "n - 1 - length body"]) simp
  qed
  then obtain k where k: "strip_loop (n - 1) (body @ post @ rest) = body @ take k rest" ..
  have r: "\<forall>c \<in> set (rev (take k rest)). c = CHR 0x0A \<or> c = CHR 0x0D" using assms(7) by (auto dest: in_set_takeD)
  have "dropWhile (\<lambda>c. c = CHR 0x0A \<or> c = CHR 0x0D) (rev body) = rev body"
    using assms(4-6) by (cases body rule: rev_cases) auto
  moreover have "dropWhile (\<lambda>c. c = CHR 0x0A \<or> c = CHR 0x0D) (rev (take k rest) @ rev body) = dropWhile (\<lambda>c. c = CHR 0x0A \<or> c = CHR 0x0D) (rev body)"
    by (rule dropWhile_append2) (use r in simp)
  ultimately have "dropWhile (\<lambda>c. c = CHR 0x0A \<or> c = CHR 0x0D) (rev (take k rest) @ rev body) = rev body" by (rule trans [rotated])
  then show ?thesis unfolding strip_ansi_def k by simp
qed

definition level_of :: "string \<Rightarrow> char" where
  "level_of body = (case body of a # b # r \<Rightarrow> if b = CHR '' '' \<or> b = CHR ''('' then a else CHR ''I'' | _ \<Rightarrow> CHR ''I'')"

lemma extract_line:
  assumes "colour pre" "colour post" "ESC \<notin> set body" "body \<noteq> []"
  shows "extract_level_and_clean (pre @ body @ post @ [CHR 0x0A]) = (level_of body, body @ post @ [CHR 0x0A])"
proof -
  have start: "snd (extract_level_and_clean (pre @ body @ post @ [CHR 0x0A])) = body @ post @ [CHR 0x0A]"
  proof (cases "pre = []")
    case True
    then show ?thesis using assms(3,4) by (cases body) (auto simp: extract_level_and_clean_def Let_def split: list.split)
  next
    case False
    then obtain x where "pre = ESC # CHR ''['' # x @ ''m''" "CHR ''m'' \<notin> set x" using assms(1) by (auto simp: colour_def)
    then show ?thesis using after_m_colour [of x] by (simp add: extract_level_and_clean_def Let_def)
  qed
  have lev: "fst (extract_level_and_clean t) = level_of (snd (extract_level_and_clean t))" for t
    by (simp add: extract_level_and_clean_def level_of_def Let_def)
  have "level_of (body @ post @ [CHR 0x0A]) = level_of body"
    using assms(2,4) by (auto simp: level_of_def colour_def split: list.split)
  with lev [of "pre @ body @ post @ [CHR 0x0A]"] start show ?thesis by (metis prod.collapse)
qed

section \<open>The hook stays inside its buffers\<close>

definition message_ok :: "string \<Rightarrow> bool" where
  "message_ok m \<longleftrightarrow> length m \<le> SYSLOG_PKT_MAX \<and> ESC \<notin> set m"

definition syslog_inv :: "'n syslog_state \<Rightarrow> bool" where
  "syslog_inv s \<longleftrightarrow> sy_mutex s = MutexFree \<and> sy_fmt_mutex s \<noteq> MutexHeld \<and>
     (\<forall>raw. sy_rawbuf s = Some raw \<longrightarrow> length raw = SYSLOG_PKT_MAX) \<and>
     (\<forall>pkt. sy_pktbuf s = Some pkt \<longrightarrow> length pkt = SYSLOG_PKT_MAX) \<and> sy_rawpos s < SYSLOG_PKT_MAX \<and>
     (\<forall>q. sy_queue s = Some q \<longrightarrow> length q \<le> SYSLOG_QUEUE_DEPTH \<and> (\<forall>m \<in> set q. message_ok m)) \<and>
     (sy_task s \<longrightarrow> sy_queue s \<noteq> None) \<and> length (sy_server s) < SYSLOG_MAX_SERVER_LEN"

definition log_env_ok :: "log_env \<Rightarrow> bool" where
  "log_env_ok env \<longleftrightarrow> ESC \<notin> set (le_stamp env) \<and> ESC \<notin> set (le_host env)"

lemma packet_ok:
  assumes "log_env_ok env" "ESC \<notin> set line"
  shows "message_ok (syslog_packet (syslog_text env level line)) \<and> syslog_packet (syslog_text env level line) \<noteq> []"
proof -
  have "ESC \<notin> set (dec_string n)" for n using dec_string_digits [of n] by (auto simp: is_digit_def)
  then have "ESC \<notin> set (syslog_text env level line)" using assms by (auto simp: syslog_text_def log_env_ok_def)
  moreover have "syslog_text env level line \<noteq> []" by (simp add: syslog_text_def)
  ultimately show ?thesis by (auto simp: message_ok_def syslog_packet_def syslog_consts dest: in_set_takeD)
qed

lemma queue_send_ok:
  "length q \<le> SYSLOG_QUEUE_DEPTH \<Longrightarrow> length (queue_send m q) \<le> SYSLOG_QUEUE_DEPTH"
  "set (queue_send m q) \<subseteq> insert m (set q)"
  by (auto simp: queue_send_def)

lemma append_ok:
  assumes "length raw = SYSLOG_PKT_MAX" "pos < SYSLOG_PKT_MAX"
  shows "\<exists>raw'. syslog_append printed raw pos = Some (raw', min (SYSLOG_PKT_MAX - 1) (pos + length printed)) \<and> length raw' = SYSLOG_PKT_MAX \<and>
    take (min (SYSLOG_PKT_MAX - 1) (pos + length printed)) raw' = take pos raw @ take (SYSLOG_PKT_MAX - 1 - pos) printed"
proof (cases "SYSLOG_PKT_MAX - pos - 1 > 0")
  case True
  let ?t = "take (SYSLOG_PKT_MAX - pos - 1) printed @ [CHR 0x00]"
  have f: "pos + length ?t \<le> length raw" using assms True by (simp add: syslog_consts)
  define raw' where "raw' = take pos raw @ ?t @ drop (pos + length ?t) raw"
  have w: "wr_bytes raw pos ?t = Some raw'" using f by (simp add: wr_bytes_ok raw'_def)
  have l: "length raw' = SYSLOG_PKT_MAX" using f assms by (simp add: raw'_def)
  have "take (min (SYSLOG_PKT_MAX - 1) (pos + length printed)) raw' = take pos raw @ take (SYSLOG_PKT_MAX - 1 - pos) printed"
    using assms True by (simp add: raw'_def syslog_consts min_def)
  moreover have "(if length printed > 0 then pos + (if length printed > SYSLOG_PKT_MAX - pos - 1 then SYSLOG_PKT_MAX - pos - 1 else length printed) else pos)
      = min (SYSLOG_PKT_MAX - 1) (pos + length printed)"
    using assms True by (auto simp: syslog_consts)
  ultimately show ?thesis using True l w by (simp add: syslog_append_def Let_def)
next
  case False
  then have "pos = SYSLOG_PKT_MAX - 1" using assms(2) by simp
  then show ?thesis using assms(1) False by (simp add: syslog_append_def)
qed

lemma line_ok:
  assumes "length pkt = SYSLOG_PKT_MAX" "log_env_ok env" "length q \<le> SYSLOG_QUEUE_DEPTH" "\<forall>m \<in> set q. message_ok m"
  shows "\<exists>pkt' q'. syslog_line env raw pkt q = Some (pkt', q') \<and> length pkt' = SYSLOG_PKT_MAX \<and>
    length q' \<le> SYSLOG_QUEUE_DEPTH \<and> (\<forall>m \<in> set q'. message_ok m)"
proof -
  obtain level start where e: "extract_level_and_clean (c_string raw) = (level, start)" by fastforce
  define clean where "clean = strip_ansi start SYSLOG_PKT_MAX"
  have c: "length clean < SYSLOG_PKT_MAX" "ESC \<notin> set clean" using strip_ansi_sound [of SYSLOG_PKT_MAX start] by (auto simp: clean_def syslog_consts)
  have w: "wr_bytes pkt 0 (clean @ [CHR 0x00]) = Some ((clean @ [CHR 0x00]) @ drop (length clean + 1) pkt)"
    using c(1) assms(1) by (simp add: wr_bytes_ok)
  have m: "message_ok (syslog_packet (syslog_text env level clean))" using packet_ok [OF assms(2) c(2)] by simp
  show ?thesis
    unfolding syslog_line_def e prod.case Let_def clean_def [symmetric] w bind.bind_lunit
    using c(1) assms(1,3,4) m queue_send_ok(1) [OF assms(3)] queue_send_ok(2) [of "syslog_packet (syslog_text env level clean)" q]
    by auto
qed

text \<open>When a log call gets as far as taking the lock of the buffers.\<close>

definition log_forwarded :: "log_env \<Rightarrow> 'n syslog_state \<Rightarrow> bool" where
  "log_forwarded env s \<longleftrightarrow> sy_enabled s \<and> le_connected env \<and> \<not> le_inside env \<and> sy_queue s \<noteq> None"

lemma vprintf_no_lock: "log_forwarded env s \<Longrightarrow> sy_fmt_mutex s = MutexNull \<Longrightarrow> syslog_vprintf env s = None"
  by (simp add: log_forwarded_def syslog_vprintf_def)

lemma vprintf_ok:
  assumes "syslog_inv s" "log_env_ok env" "log_forwarded env s \<longrightarrow> sy_fmt_mutex s \<noteq> MutexNull"
  shows "\<exists>t. syslog_vprintf env s = Some t \<and> syslog_inv t \<and> sy_enabled t = sy_enabled s \<and> sy_resolved t = sy_resolved s \<and>
    sy_task t = sy_task s \<and> sy_sock t = sy_sock s \<and> sy_open t = sy_open s \<and> sy_flash t = sy_flash s \<and> sy_fmt_mutex t = sy_fmt_mutex s"
proof (cases "\<not> sy_enabled s \<or> \<not> le_connected env \<or> le_inside env \<or> sy_queue s = None \<or> sy_rawbuf s = None \<or> sy_pktbuf s = None \<or> \<not> sy_resolved s")
  case True
  then show ?thesis using assms(1,3) by (auto simp: syslog_vprintf_def syslog_inv_def log_forwarded_def split: option.split)
next
  case False
  then obtain q raw pkt where b: "sy_queue s = Some q" "sy_rawbuf s = Some raw" "sy_pktbuf s = Some pkt"
    by (cases "sy_queue s"; cases "sy_rawbuf s"; cases "sy_pktbuf s") auto
  have i: "length raw = SYSLOG_PKT_MAX" "length pkt = SYSLOG_PKT_MAX" "sy_rawpos s < SYSLOG_PKT_MAX" "length q \<le> SYSLOG_QUEUE_DEPTH"
    "\<forall>m \<in> set q. message_ok m" "sy_fmt_mutex s = MutexFree"
    using assms(1,3) b False by (cases "sy_fmt_mutex s"; auto simp: syslog_inv_def log_forwarded_def)+
  define pos where "pos = min (SYSLOG_PKT_MAX - 1) (sy_rawpos s + length (le_text env))"
  obtain raw1 where a: "syslog_append (le_text env) raw (sy_rawpos s) = Some (raw1, pos)" "length raw1 = SYSLOG_PKT_MAX"
    using append_ok [OF i(1,3), of "le_text env"] by (auto simp: pos_def)
  have pos: "pos < SYSLOG_PKT_MAX" by (simp add: pos_def syslog_consts)
  have ready: "sy_enabled s" "le_connected env" "\<not> le_inside env" "sy_resolved s" using False by auto
  show ?thesis
  proof (cases "pos > 0 \<and> CHR 0x0A \<in> set (take pos raw1)")
    case True
    define raw2 where "raw2 = take pos raw1 @ [CHR 0x00] @ drop (pos + 1) raw1"
    have w: "wr_bytes raw1 pos [CHR 0x00] = Some raw2" "length raw2 = SYSLOG_PKT_MAX"
      using pos a(2) by (simp_all add: wr_bytes_ok raw2_def)
    obtain pkt1 q1 where l: "syslog_line env raw2 pkt q = Some (pkt1, q1)"
      "length pkt1 = SYSLOG_PKT_MAX" "length q1 \<le> SYSLOG_QUEUE_DEPTH" "\<forall>m \<in> set q1. message_ok m"
      using line_ok [OF i(2) assms(2) i(4,5)] by blast
    have "syslog_vprintf env s = Some (s\<lparr>sy_rawbuf := Some raw2, sy_pktbuf := Some pkt1, sy_rawpos := 0, sy_queue := Some q1\<rparr>)"
      using ready i(6) True by (simp add: syslog_vprintf_def b a(1) w(1) l(1))
    then show ?thesis using assms(1) l(2-4) w(2) i(6) by (simp add: syslog_inv_def syslog_consts)
  next
    case False
    then have "syslog_vprintf env s = Some (s\<lparr>sy_rawbuf := Some raw1, sy_rawpos := pos\<rparr>)"
      using ready i(6) by (auto simp: syslog_vprintf_def b a(1))
    then show ?thesis using assms(1) a(2) pos by (simp add: syslog_inv_def)
  qed
qed

section \<open>Every other step\<close>

definition start_ok :: "start_env \<Rightarrow> bool" where
  "start_ok se \<longleftrightarrow> (\<forall>b. se_raw se = Some b \<longrightarrow> length b = SYSLOG_PKT_MAX) \<and>
     (\<forall>b. se_pkt se = Some b \<longrightarrow> length b = SYSLOG_PKT_MAX)"

lemma close_sock_ok [simp]: "syslog_inv (close_sock s) = syslog_inv s" "sy_mutex (close_sock s) = sy_mutex s"
  by (auto simp: close_sock_def syslog_inv_def)

lemma resolved_ok [simp]: "syslog_inv (s\<lparr>sy_resolved := b\<rparr>) = syslog_inv s"
  by (simp add: syslog_inv_def)

lemma sender_exit_ok: "syslog_inv s \<Longrightarrow> syslog_inv (sender_exit s)"
  by (auto simp: sender_exit_def close_sock_def syslog_inv_def)

lemma sender_round_ok:
  assumes "syslog_inv s"
  shows "syslog_inv (snd (sender_round s)) \<and> (\<forall>a m. fst (sender_round s) = Some (a, m) \<longrightarrow> message_ok m \<and> m \<noteq> [] \<and> sy_resolved s \<and> a = sy_dest s)"
proof (cases "\<exists>m q. sy_task s \<and> sy_queue s = Some (m # q)")
  case True
  then obtain m q where q: "sy_task s" "sy_queue s = Some (m # q)" by blast
  have "syslog_inv (s\<lparr>sy_queue := Some q\<rparr>)" "message_ok m" using assms q by (auto simp: syslog_inv_def)
  then show ?thesis using q sender_exit_ok [of "s\<lparr>sy_queue := Some q\<rparr>"] by (simp add: sender_round_def Let_def)
next
  case False
  then show ?thesis using assms by (auto simp: sender_round_def split: bool.splits option.splits list.splits)
qed

lemma start_sender_ok:
  assumes "start_ok se" "syslog_inv s"
  shows "syslog_inv (start_sender se s)"
proof -
  define s1 where "s1 = (if sy_queue s = None \<and> se_queue_ok se then s\<lparr>sy_queue := Some []\<rparr> else s)"
  define s2 where "s2 = (if sy_fmt_mutex s1 = MutexNull \<and> se_mutex_ok se then s1\<lparr>sy_fmt_mutex := MutexFree\<rparr> else s1)"
  define s3 where "s3 = (if sy_rawbuf s2 = None then s2\<lparr>sy_rawbuf := se_raw se, sy_rawpos := 0\<rparr> else s2)"
  define s4 where "s4 = (if sy_pktbuf s3 = None then s3\<lparr>sy_pktbuf := se_pkt se\<rparr> else s3)"
  have "syslog_inv s2"
    using assms unfolding s2_def s1_def start_ok_def syslog_inv_def by (cases "sy_queue s"; cases "sy_fmt_mutex s") simp_all
  then have "syslog_inv s3" using assms(1) by (simp add: s3_def syslog_inv_def start_ok_def syslog_consts)
  then have i: "syslog_inv s4" using assms(1) by (simp add: s4_def syslog_inv_def start_ok_def)
  have "start_sender se s = (if \<not> sy_task s4 \<and> sy_queue s4 \<noteq> None \<and> se_task_ok se then s4\<lparr>sy_task := True\<rparr> else s4)"
    by (simp only: start_sender_def Let_def s1_def s2_def s3_def s4_def)
  with i show ?thesis by (simp add: syslog_inv_def)
qed

lemma connect_begin_ok:
  assumes "syslog_inv s"
  shows "\<exists>go t. connect_begin s = Some (go, t) \<and> syslog_inv t"
  using assms by (auto simp: connect_begin_def syslog_inv_def lock_simps close_sock_def)

lemma connect_end_ok:
  assumes "start_ok se" "syslog_inv s"
  shows "\<exists>t. connect_end found fd se s = Some t \<and> syslog_inv t"
proof -
  define u where "u = (case found of
           Some a \<Rightarrow> let s = s\<lparr>sy_dest := a, sy_sock := fd\<rparr> in
             if fd \<ge> 0 then s\<lparr>sy_open := fd # sy_open s, sy_resolved := True\<rparr> else s
         | None \<Rightarrow> s)"
  have "syslog_inv u" using assms(2) by (auto simp: u_def syslog_inv_def Let_def split: option.split)
  then have i: "syslog_inv (start_sender se u)" by (rule start_sender_ok [OF assms(1)])
  then have "(start_sender se u)\<lparr>sy_mutex := MutexFree\<rparr> = start_sender se u" by (simp add: syslog_inv_def)
  moreover have "connect_end found fd se s = Some ((start_sender se u)\<lparr>sy_mutex := MutexFree\<rparr>)"
    using assms(2) by (simp add: connect_end_def u_def syslog_inv_def lock_simps Let_def)
  ultimately show ?thesis using i by simp
qed

lemma syslog_connect_ok:
  assumes "start_ok (ne_start ne)" "syslog_inv s"
  shows "\<exists>t. syslog_connect ne s = Some t \<and> syslog_inv t"
proof -
  obtain go t where b: "connect_begin s = Some (go, t)" "syslog_inv t" using connect_begin_ok [OF assms(2)] by blast
  obtain u where "connect_end (ne_resolve ne (sy_server s) (sy_port s)) (ne_socket ne) (ne_start ne) t = Some u" "syslog_inv u"
    using connect_end_ok [OF assms(1) b(2)] by blast
  with b show ?thesis by (simp add: syslog_connect_def)
qed

lemma save_config_ok [simp]: "syslog_inv (snd (syslog_save_config api s)) = syslog_inv s"
  by (auto simp: syslog_save_config_def syslog_inv_def Let_def case_prod_unfold)

lemma syslog_enable_ok:
  assumes "start_ok (ne_start ne)" "syslog_inv s"
  shows "\<exists>e t. syslog_enable api ne server port s = Some (e, t) \<and> syslog_inv t"
proof (cases "server = []")
  case False
  define u where "u = s\<lparr>sy_server := strncpy_trunc SYSLOG_MAX_SERVER_LEN server, sy_port := port, sy_enabled := True, sy_resolved := False,
      sy_mutex := MutexFree\<rparr>"
  have "syslog_inv u" using assms(2) by (auto simp: u_def syslog_inv_def strncpy_trunc_def syslog_consts)
  then obtain t where "syslog_connect ne u = Some t" "syslog_inv t" using syslog_connect_ok [OF assms(1)] by blast
  then show ?thesis using False assms(2) save_config_ok [of api t]
    by (cases "syslog_save_config api t") (simp add: syslog_enable_def u_def syslog_inv_def [of s] lock_simps Let_def)
qed (use assms(2) in \<open>simp add: syslog_enable_def\<close>)

lemma send_pill_ok:
  assumes "length q \<le> SYSLOG_QUEUE_DEPTH" "\<forall>m \<in> set q. message_ok m"
  shows "fst (send_pill room q) \<le> 100" "length (snd (send_pill room q)) \<le> SYSLOG_QUEUE_DEPTH" "\<forall>m \<in> set (snd (send_pill room q)). message_ok m"
proof -
  have t: "set (List.tl q) \<subseteq> set q" "length (List.tl q) = length q - 1" by (cases q; auto)+
  show "fst (send_pill room q) \<le> 100" by (auto simp: send_pill_def SYSLOG_PILL_WAIT_MS_def split: option.split)
  show "length (snd (send_pill room q)) \<le> SYSLOG_QUEUE_DEPTH"
    using assms(1) t(2) by (auto simp: send_pill_def syslog_consts split: option.split)
  show "\<forall>m \<in> set (snd (send_pill room q)). message_ok m"
    using assms(2) t(1) by (auto simp: send_pill_def message_ok_def split: option.split)
qed

lemma stop_sender_ok:
  assumes "syslog_inv s" "sy_mutex s = MutexFree"
  shows "\<exists>w t. stop_sender room gone s = Some (w, t) \<and> w \<le> 100 + fst (syslog_wait gone 0) \<and> syslog_inv t \<and>
    (sy_task t \<longrightarrow> sy_task s \<and> \<not> snd (syslog_wait gone 0)) \<and>
    (\<not> sy_task t \<longrightarrow> sy_queue t = None \<and> sy_rawbuf t = None \<and> sy_pktbuf t = None) \<and> sy_enabled t = sy_enabled s"
proof -
  define wu where "wu = (case sy_queue s of
          Some q \<Rightarrow>
            if sy_task s then
              let (w, q) = send_pill room q; (w', seen) = syslog_wait gone 0; s = s\<lparr>sy_queue := Some q\<rparr> in
              (w + w', if seen then sender_exit (s\<lparr>sy_queue := Some []\<rparr>) else s)
            else (0, s)
        | None \<Rightarrow> (0, s))"
  obtain w u where wu: "wu = (w, u)" by (cases wu)
  have posted: "syslog_inv (s\<lparr>sy_queue := Some (snd (send_pill room q))\<rparr>)" "syslog_inv (s\<lparr>sy_queue := Some []\<rparr>)"
    "fst (send_pill room q) \<le> 100" if "sy_queue s = Some q" for q
    using assms(1) that send_pill_ok [of q room] by (auto simp: syslog_inv_def)
  have u: "syslog_inv u \<and> (sy_task u \<longrightarrow> sy_task s \<and> \<not> snd (syslog_wait gone 0)) \<and> sy_enabled u = sy_enabled s \<and>
      w \<le> 100 + fst (syslog_wait gone 0)"
  proof (cases "sy_queue s")
    case None
    with wu assms(1) show ?thesis by (auto simp: wu_def syslog_inv_def)
  next
    case (Some q)
    note p = posted [OF Some]
    show ?thesis
    proof (cases "sy_task s")
      case True
      then have "u = (if snd (syslog_wait gone 0) then sender_exit (s\<lparr>sy_queue := Some []\<rparr>) else s\<lparr>sy_queue := Some (snd (send_pill room q))\<rparr>)"
        "w = fst (send_pill room q) + fst (syslog_wait gone 0)"
        using wu Some by (auto simp: wu_def case_prod_unfold Let_def)
      with p True sender_exit_ok [OF p(2)] show ?thesis by (simp add: sender_exit_def close_sock_def)
    next
      case False
      with wu Some assms(1) show ?thesis by (auto simp: wu_def)
    qed
  qed
  have "stop_sender room gone s = (if sy_task u then Some (w, u)
         else let s = u\<lparr>sy_queue := None\<rparr>; freed = s\<lparr>sy_rawbuf := None, sy_pktbuf := None, sy_rawpos := 0\<rparr> in
           if sy_fmt_mutex s = MutexNull then Some (w, freed)
           else do { m \<leftarrow> sem_take_forever (sy_fmt_mutex s); Some (w, freed\<lparr>sy_fmt_mutex := sem_give m\<rparr>) })"
    unfolding stop_sender_def wu_def [symmetric] wu by (simp only: Let_def prod.case)
  with u show ?thesis by (cases "sy_fmt_mutex u") (auto simp: lock_simps syslog_inv_def Let_def syslog_consts)
qed

lemma syslog_disable_ok:
  assumes "syslog_inv s"
  shows "\<exists>w t. syslog_disable api room gone s = Some (w, t) \<and> w \<le> 100 + fst (syslog_wait gone 0) \<and> syslog_inv t \<and>
    \<not> sy_enabled t \<and> sy_sock t < 0 \<and> \<not> sy_resolved t \<and>
    (sy_task t \<longrightarrow> sy_task s \<and> \<not> snd (syslog_wait gone 0)) \<and>
    (\<not> sy_task t \<longrightarrow> sy_queue t = None \<and> sy_rawbuf t = None \<and> sy_pktbuf t = None)"
proof -
  have s: "syslog_inv (s\<lparr>sy_enabled := False\<rparr>)" "sy_mutex s = MutexFree" using assms by (simp_all add: syslog_inv_def)
  obtain w t where t: "stop_sender room gone (s\<lparr>sy_enabled := False\<rparr>) = Some (w, t)" "syslog_inv t" "\<not> sy_enabled t"
    "sy_task t \<longrightarrow> sy_task s \<and> \<not> snd (syslog_wait gone 0)"
    "\<not> sy_task t \<longrightarrow> sy_queue t = None \<and> sy_rawbuf t = None \<and> sy_pktbuf t = None" "w \<le> 100 + fst (syslog_wait gone 0)"
    using stop_sender_ok [OF s(1), of room gone] s(2) by auto
  define u where "u = (close_sock t)\<lparr>sy_resolved := False, sy_mutex := MutexFree\<rparr>"
  have "syslog_inv u" "sy_sock u < 0" "\<not> sy_resolved u" "sy_task u = sy_task t" "sy_queue u = sy_queue t" "sy_rawbuf u = sy_rawbuf t"
    "sy_pktbuf u = sy_pktbuf t" "\<not> sy_enabled u"
    using t(2,3) by (auto simp: u_def close_sock_def syslog_inv_def)
  moreover have "syslog_disable api room gone s = Some (w, snd (syslog_save_config api u))"
    using s(2) t(1) by (simp add: syslog_disable_def lock_simps u_def Let_def)
  moreover have "sy_sock (snd (syslog_save_config api u)) = sy_sock u" "sy_resolved (snd (syslog_save_config api u)) = sy_resolved u"
    "sy_task (snd (syslog_save_config api u)) = sy_task u" "sy_queue (snd (syslog_save_config api u)) = sy_queue u"
    "sy_rawbuf (snd (syslog_save_config api u)) = sy_rawbuf u" "sy_pktbuf (snd (syslog_save_config api u)) = sy_pktbuf u"
    "sy_enabled (snd (syslog_save_config api u)) = sy_enabled u"
    by (simp_all add: syslog_save_config_def Let_def case_prod_unfold)
  ultimately show ?thesis using t(4-6) by auto
qed

section \<open>Whatever happens\<close>

text \<open>
  Log calls, rounds of the sending task, the two halves of a connection (another task may do anything
  in between), and the interface, in any order.
\<close>

inductive syslog_step :: "'n syslog_flash \<Rightarrow> 'n syslog_state \<Rightarrow> 'n syslog_state \<Rightarrow> bool" for api where
  "log_env_ok env \<Longrightarrow> syslog_vprintf env s = Some t \<Longrightarrow> syslog_step api s t"
| "syslog_step api s (snd (sender_round s))"
| "connect_begin s = Some (go, t) \<Longrightarrow> syslog_step api s t"
| "start_ok se \<Longrightarrow> connect_end found fd se s = Some t \<Longrightarrow> syslog_step api s t"
| "start_ok (ne_start ne) \<Longrightarrow> syslog_enable api ne server port s = Some (e, t) \<Longrightarrow> syslog_step api s t"
| "syslog_disable api room gone s = Some (waited, t) \<Longrightarrow> syslog_step api s t"

inductive syslog_reachable :: "'n syslog_flash \<Rightarrow> 'n syslog_state \<Rightarrow> bool" for api where
  "start_ok (ne_start ne) \<Longrightarrow> syslog_init api True ne (syslog_boot n) = Some (e, s) \<Longrightarrow> syslog_reachable api s"
| "syslog_reachable api s \<Longrightarrow> syslog_step api s t \<Longrightarrow> syslog_reachable api t"

inductive_cases syslog_stepE: "syslog_step api s t"

lemma syslog_init_ok:
  assumes "start_ok (ne_start ne)"
  shows "\<exists>s. syslog_init api True ne (syslog_boot n) = Some (ESP_OK, s) \<and> syslog_inv s"
proof -
  define s where "s = (syslog_load_config api ((syslog_boot n)\<lparr>sy_mutex := MutexFree\<rparr>))\<lparr>sy_hook := True\<rparr>"
  have i: "syslog_inv s"
    by (simp add: s_def syslog_load_config_def syslog_boot_def syslog_inv_def Let_def case_prod_unfold syslog_consts)
  obtain t where "syslog_connect ne s = Some t" "syslog_inv t" using syslog_connect_ok [OF assms i] by blast
  with i show ?thesis by (simp add: syslog_init_def s_def [symmetric] Let_def)
qed

lemma reachable_inv:
  assumes "syslog_reachable api s"
  shows "syslog_inv s"
  using assms
proof induction
  case (1 ne n e s)
  then show ?case using syslog_init_ok [OF 1(1), of api n] by auto
next
  case (2 s t)
  from 2(2) show ?case
  proof (rule syslog_stepE)
    fix env assume "log_env_ok env" "syslog_vprintf env s = Some t"
    then show ?thesis using vprintf_ok [OF 2(3), of env] vprintf_no_lock [of env s] by (cases "log_forwarded env s \<and> sy_fmt_mutex s = MutexNull") auto
  next
    assume "t = snd (sender_round s)"
    then show ?thesis using sender_round_ok [OF 2(3)] by simp
  next
    fix go assume "connect_begin s = Some (go, t)"
    then show ?thesis using connect_begin_ok [OF 2(3)] by auto
  next
    fix se found fd assume "start_ok se" "connect_end found fd se s = Some t"
    then show ?thesis using connect_end_ok [OF _ 2(3), of se found fd] by auto
  next
    fix ne server port e assume "start_ok (ne_start ne)" "syslog_enable api ne server port s = Some (e, t)"
    then show ?thesis using syslog_enable_ok [OF _ 2(3), of ne api server port] by auto
  next
    fix room gone waited assume "syslog_disable api room gone s = Some (waited, t)"
    then show ?thesis using syslog_disable_ok [OF 2(3), of api room gone] by auto
  qed
qed

text \<open>
  C30: in every state the client can get into, a log call stays inside its buffers and waits for no
  lock, except that it takes the lock of the buffers where this was never created (for want of memory
  when the sender was started); at most 16 messages wait, none longer than 256 bytes or with an
  escape character; enabling and disabling never wait for a lock that nobody gives back (what else they
  wait for is the answer of the name resolution, and the sender's end); and only
  such messages are sent, only to the address that was resolved.
\<close>

theorem syslog_safe:
  assumes "syslog_reachable api s"
  shows "(\<forall>env. log_env_ok env \<longrightarrow> (case syslog_vprintf env s of
       None \<Rightarrow> sy_fmt_mutex s = MutexNull \<and> sy_enabled s \<and> le_connected env \<and> \<not> le_inside env \<and> sy_queue s \<noteq> None
     | Some t \<Rightarrow> syslog_reachable api t)) \<and>
    (\<forall>q. sy_queue s = Some q \<longrightarrow> length q \<le> SYSLOG_QUEUE_DEPTH \<and> (\<forall>m \<in> set q. message_ok m)) \<and>
    (\<forall>ne server port. start_ok (ne_start ne) \<longrightarrow> (\<exists>e t. syslog_enable api ne server port s = Some (e, t))) \<and>
    (\<forall>room gone. \<exists>waited t. syslog_disable api room gone s = Some (waited, t)) \<and>
    (\<forall>a m. fst (sender_round s) = Some (a, m) \<longrightarrow> message_ok m \<and> m \<noteq> [] \<and> sy_resolved s \<and> a = sy_dest s)"
proof -
  note i = reachable_inv [OF assms]
  have "case syslog_vprintf env s of
       None \<Rightarrow> sy_fmt_mutex s = MutexNull \<and> sy_enabled s \<and> le_connected env \<and> \<not> le_inside env \<and> sy_queue s \<noteq> None
     | Some t \<Rightarrow> syslog_reachable api t" if e: "log_env_ok env" for env
  proof (cases "syslog_vprintf env s")
    case None
    with vprintf_ok [OF i e] show ?thesis by (auto simp: log_forwarded_def)
  next
    case (Some t)
    with syslog_reachable.intros(2) [OF assms syslog_step.intros(1) [OF e Some]] show ?thesis by simp
  qed
  moreover have "\<exists>e t. syslog_enable api ne server port s = Some (e, t)" if "start_ok (ne_start ne)" for ne server port
    using syslog_enable_ok [OF that i] by blast
  moreover have "\<exists>waited t. syslog_disable api room gone s = Some (waited, t)" for room gone using syslog_disable_ok [OF i] by blast
  ultimately show ?thesis using i sender_round_ok [OF i] by (simp add: syslog_inv_def)
qed

section \<open>One line, one packet\<close>

text \<open>A client that forwards, with the text \<open>begun\<close> of an unfinished line in its buffer.\<close>

definition forwarding :: "string \<Rightarrow> string list \<Rightarrow> 'n syslog_state \<Rightarrow> bool" where
  "forwarding begun q s \<longleftrightarrow> syslog_inv s \<and> sy_fmt_mutex s = MutexFree \<and> sy_enabled s \<and> sy_resolved s \<and> sy_queue s = Some q \<and> sy_pktbuf s \<noteq> None \<and>
     (\<exists>raw. sy_rawbuf s = Some raw \<and> take (length begun) raw = begun) \<and> sy_rawpos s = length begun"

fun run_logs :: "log_env list \<Rightarrow> 'n syslog_state \<Rightarrow> 'n syslog_state option" where
  "run_logs [] s = Some s"
| "run_logs (env # envs) s = Option.bind (syslog_vprintf env s) (run_logs envs)"

lemma forwarding_append:
  assumes "forwarding begun q s" "log_env_ok env" "le_connected env" "\<not> le_inside env"
    "CHR 0x0A \<notin> set (take (SYSLOG_PKT_MAX - 1) (begun @ le_text env))"
  shows "\<exists>t. syslog_vprintf env s = Some t \<and> forwarding (take (SYSLOG_PKT_MAX - 1) (begun @ le_text env)) q t"
proof -
  obtain raw pkt where b: "sy_rawbuf s = Some raw" "take (length begun) raw = begun" "sy_rawpos s = length begun" "sy_pktbuf s = Some pkt"
    "sy_queue s = Some q" "sy_enabled s" "sy_resolved s" "sy_fmt_mutex s = MutexFree"
    using assms(1) by (auto simp: forwarding_def)
  have i: "syslog_inv s" using assms(1) by (simp add: forwarding_def)
  have f: "sy_fmt_mutex s = MutexFree" "length raw = SYSLOG_PKT_MAX" "length begun < SYSLOG_PKT_MAX"
    using i b by (auto simp: syslog_inv_def)
  define pos where "pos = min (SYSLOG_PKT_MAX - 1) (length begun + length (le_text env))"
  obtain raw1 where a: "syslog_append (le_text env) raw (length begun) = Some (raw1, pos)" "length raw1 = SYSLOG_PKT_MAX"
    "take pos raw1 = begun @ take (SYSLOG_PKT_MAX - 1 - length begun) (le_text env)"
    using append_ok [OF f(2,3), of "le_text env"] b(2) by (auto simp: pos_def)
  have t: "take pos raw1 = take (SYSLOG_PKT_MAX - 1) (begun @ le_text env)" using a(3) f(3) by simp
  have l: "length (take (SYSLOG_PKT_MAX - 1) (begun @ le_text env)) = pos" by (simp add: pos_def min.commute)
  have v: "syslog_vprintf env s = Some (s\<lparr>sy_rawbuf := Some raw1, sy_rawpos := pos\<rparr>)"
    using assms(3-5) b f(1) t by (auto simp: syslog_vprintf_def a(1))
  have "pos < SYSLOG_PKT_MAX" by (simp add: pos_def syslog_consts)
  with i a(2) have "syslog_inv (s\<lparr>sy_rawbuf := Some raw1, sy_rawpos := pos\<rparr>)" by (simp add: syslog_inv_def)
  with v b t l show ?thesis by (simp add: forwarding_def)
qed

lemma forwarding_many:
  assumes "forwarding begun q s" "\<forall>env \<in> set envs. log_env_ok env \<and> le_connected env \<and> \<not> le_inside env"
    "CHR 0x0A \<notin> set (take (SYSLOG_PKT_MAX - 1) (begun @ concat (map le_text envs)))"
  shows "\<exists>t. run_logs envs s = Some t \<and> forwarding (take (SYSLOG_PKT_MAX - 1) (begun @ concat (map le_text envs))) q t"
  using assms
proof (induction envs arbitrary: begun s)
  case Nil
  then have "length begun \<le> SYSLOG_PKT_MAX - 1" by (auto simp: forwarding_def syslog_inv_def)
  with Nil show ?case by simp
next
  case (Cons env envs)
  let ?t = "take (SYSLOG_PKT_MAX - 1) (begun @ le_text env)"
  have "take (SYSLOG_PKT_MAX - 1) (begun @ concat (map le_text (env # envs))) =
      ?t @ take (SYSLOG_PKT_MAX - 1 - length (begun @ le_text env)) (concat (map le_text envs))" by simp
  with Cons.prems(3) have n: "CHR 0x0A \<notin> set ?t" by (metis Un_iff set_append)
  obtain u where u: "syslog_vprintf env s = Some u" "forwarding ?t q u"
    using forwarding_append [OF Cons.prems(1) _ _ _ n] Cons.prems(2) by auto
  have cut: "take n (take n a @ b) = take n (a @ b)" for n and a b :: string by (cases "n \<le> length a") simp_all
  have e: "take (SYSLOG_PKT_MAX - 1) (?t @ concat (map le_text envs)) = take (SYSLOG_PKT_MAX - 1) (begun @ concat (map le_text (env # envs)))"
    by (simp only: cut list.map concat.simps append.assoc)
  obtain t where "run_logs envs u = Some t" "forwarding (take (SYSLOG_PKT_MAX - 1) (?t @ concat (map le_text envs))) q t"
    using Cons.IH [OF u(2) _ Cons.prems(3) [folded e]] Cons.prems(2) by (auto simp del: take_append)
  with u(1) show ?case unfolding e by (simp del: take_append)
qed

lemma run_logs_append: "run_logs (xs @ ys) s = Option.bind (run_logs xs s) (run_logs ys)"
  by (induction xs arbitrary: s) (auto split: bind_splits)

lemma forwarding_newline:
  assumes "forwarding begun q s" "log_env_ok env" "le_connected env" "\<not> le_inside env"
    "le_text env = p @ [CHR 0x0A]" "CHR 0x0A \<notin> set (begun @ p)" "CHR 0x00 \<notin> set (begun @ p)" "length (begun @ p) + 1 < SYSLOG_PKT_MAX"
  shows "\<exists>t raw pkt pkt' q'. syslog_vprintf env s = Some t \<and> c_string raw = begun @ p @ [CHR 0x0A] \<and> length pkt = SYSLOG_PKT_MAX \<and>
    syslog_line env raw pkt q = Some (pkt', q') \<and> forwarding [] q' t"
proof -
  obtain raw pkt where b: "sy_rawbuf s = Some raw" "take (length begun) raw = begun" "sy_rawpos s = length begun" "sy_pktbuf s = Some pkt"
    "sy_queue s = Some q" "sy_enabled s" "sy_resolved s" "sy_fmt_mutex s = MutexFree"
    using assms(1) by (auto simp: forwarding_def)
  have i: "syslog_inv s" using assms(1) by (simp add: forwarding_def)
  have f: "sy_fmt_mutex s = MutexFree" "length raw = SYSLOG_PKT_MAX" "length begun < SYSLOG_PKT_MAX" "length pkt = SYSLOG_PKT_MAX"
    using i b by (auto simp: syslog_inv_def)
  define line where "line = begun @ p @ [CHR 0x0A]"
  have len: "length line < SYSLOG_PKT_MAX" "length line = length begun + length (le_text env)" using assms(5,8) by (simp_all add: line_def)
  obtain raw1 where a: "syslog_append (le_text env) raw (length begun) = Some (raw1, length line)" "length raw1 = SYSLOG_PKT_MAX"
    "take (length line) raw1 = line"
  proof -
    have m: "min (SYSLOG_PKT_MAX - 1) (length begun + length (le_text env)) = length line" using len by simp
    have "take (SYSLOG_PKT_MAX - 1 - length begun) (le_text env) = le_text env" using len by simp
    then show ?thesis using append_ok [OF f(2,3), of "le_text env"] b(2) assms(5) unfolding m
      by (elim exE conjE) (rule that, auto simp: line_def)
  qed
  define raw2 where "raw2 = line @ [CHR 0x00] @ drop (length line + 1) raw1"
  have w: "wr_bytes raw1 (length line) [CHR 0x00] = Some raw2" using len(1) a(2,3) by (simp add: wr_bytes_ok raw2_def)
  have c: "c_string raw2 = line" using assms(7) by (auto simp: c_string_def raw2_def line_def takeWhile_append)
  have q: "length q \<le> SYSLOG_QUEUE_DEPTH" "\<forall>m \<in> set q. message_ok m" using i b(5) by (simp_all add: syslog_inv_def)
  obtain pkt' q' where l: "syslog_line env raw2 pkt q = Some (pkt', q')" "length pkt' = SYSLOG_PKT_MAX"
    "length q' \<le> SYSLOG_QUEUE_DEPTH" "\<forall>m \<in> set q'. message_ok m"
    using line_ok [OF f(4) assms(2) q, of raw2] by blast
  have n: "CHR 0x0A \<in> set (take (length line) raw1)" "0 < length line" unfolding a(3) by (simp_all add: line_def)
  have v: "syslog_vprintf env s = Some (s\<lparr>sy_rawbuf := Some raw2, sy_pktbuf := Some pkt', sy_rawpos := 0, sy_queue := Some q'\<rparr>)"
    using assms(3,4) b f(1) n by (simp add: syslog_vprintf_def a(1) w l(1))
  have "length raw2 = SYSLOG_PKT_MAX" using len(1) a(2) by (simp add: raw2_def)
  then have "forwarding [] q' (s\<lparr>sy_rawbuf := Some raw2, sy_pktbuf := Some pkt', sy_rawpos := 0, sy_queue := Some q'\<rparr>)"
    using i b l f(1) by (simp add: forwarding_def syslog_inv_def syslog_consts)
  with v c f(4) l(1) show ?thesis unfolding line_def by blast
qed

text \<open>The severities of RFC 5424, by the letter of the level.\<close>

definition severities :: "(char \<times> nat) list" where
  "severities = [(CHR ''E'', 3), (CHR ''W'', 4), (CHR ''I'', 6), (CHR ''D'', 7), (CHR ''V'', 7)]"

definition severity_of :: "char \<Rightarrow> nat" where
  "severity_of c = (case map_of severities c of Some n \<Rightarrow> n | None \<Rightarrow> 5)"

lemma severity_level: "esp_level_to_syslog c = severity_of c"
  by (auto simp: esp_level_to_syslog_def severity_of_def severities_def)

text \<open>
  C31: a line that is logged in pieces, coloured or not, becomes exactly one packet: the priority
  (facility LOCAL0, the severity of its level letter) in angle brackets, the time, the host name, the
  text without colours and a line end, if this has at most 255 bytes; of a longer one the first
  255 and a NUL byte.  The line must have at most 254 characters and say something behind its last
  colon, and the queue must have room.
\<close>

theorem syslog_line_forwarded:
  assumes "forwarding [] q s" "\<forall>e \<in> set (envs @ [env]). log_env_ok e \<and> le_connected e \<and> \<not> le_inside e"
    "le_text env = p @ [CHR 0x0A]" "concat (map le_text envs) @ p = pre @ body @ post" "colour pre" "colour post"
    "set body \<inter> {ESC, CHR 0x0A, CHR 0x0D, CHR 0x00} = {}" "body \<noteq> []" "\<not> is_stub body"
    "length (pre @ body @ post) \<le> 254" "length q < SYSLOG_QUEUE_DEPTH"
    "packet = ''<'' @ dec_string (16 * 8 + severity_of (level_of body)) @ ''>'' @
       (if le_now env > 1000000000 then le_stamp env else ''Jan  1 00:00:00'') @ '' '' @ le_host env @ '' '' @ body @ [CHR 0x0A]"
  shows "\<exists>t. run_logs (envs @ [env]) s = Some t \<and>
    forwarding [] (q @ [if length packet \<le> 255 then packet else take 255 packet @ [CHR 0x00]]) t"
proof -
  let ?line = "pre @ body @ post"
  have clean: "CHR 0x0A \<notin> set ?line" "CHR 0x00 \<notin> set ?line" using assms(5-7) by (auto simp: colour_def)
  let ?b = "concat (map le_text envs)"
  have l: "length ?b \<le> SYSLOG_PKT_MAX - 1" using arg_cong [OF assms(4), of length] assms(10) by (simp add: syslog_consts)
  then have b: "take (SYSLOG_PKT_MAX - 1) ([] @ ?b) = ?b" by simp
  have sub: "set ?b \<subseteq> set ?line" using assms(4) by (metis Un_upper1 set_append)
  have "CHR 0x0A \<notin> set (take (SYSLOG_PKT_MAX - 1) ([] @ ?b))" unfolding b using clean(1) sub by blast
  moreover have "\<forall>e \<in> set envs. log_env_ok e \<and> le_connected e \<and> \<not> le_inside e" using assms(2) by simp
  ultimately obtain u where u: "run_logs envs s = Some u" "forwarding ?b q u"
    using forwarding_many [OF assms(1)] b by metis
  have e: "log_env_ok env" "le_connected env" "\<not> le_inside env" using assms(2) by auto
  obtain t raw pkt pkt' q' where t: "syslog_vprintf env u = Some t" "c_string raw = ?b @ p @ [CHR 0x0A]" "length pkt = SYSLOG_PKT_MAX"
    "syslog_line env raw pkt q = Some (pkt', q')" "forwarding [] q' t"
    using forwarding_newline [OF u(2) e assms(3)] clean assms(4,10) by (auto simp: syslog_consts)
  have r: "c_string raw = pre @ body @ post @ [CHR 0x0A]" using t(2) assms(4) by (metis append.assoc)
  have x: "extract_level_and_clean (c_string raw) = (level_of body, body @ post @ [CHR 0x0A])"
    unfolding r by (rule extract_line) (use assms in auto)
  have st: "strip_ansi (body @ post @ [CHR 0x0A]) SYSLOG_PKT_MAX = body"
  proof (rule strip_line)
    have "last body \<in> set body" using assms(8) by simp
    with assms(7) show "last body \<noteq> CHR 0x0A" "last body \<noteq> CHR 0x0D" by auto
  qed (use assms(6-8,10) in \<open>auto simp: syslog_consts\<close>)
  have "q' = queue_send (syslog_packet (syslog_text env (level_of body) body)) q"
    using t(4) assms(8,9) by (auto simp: syslog_line_def x st bind_eq_Some_conv)
  then have "q' = q @ [syslog_packet (syslog_text env (level_of body) body)]" using assms(11) by (simp add: queue_send_def)
  moreover have "syslog_packet (syslog_text env (level_of body) body) = (if length packet \<le> 255 then packet else take 255 packet @ [CHR 0x00])"
    unfolding assms(12) by (simp add: syslog_packet_def syslog_text_def severity_level syslog_consts less_Suc_eq_le)
  ultimately show ?thesis using u(1) t(1,5) by (simp add: run_logs_append)
qed

text \<open>A state of that kind.\<close>

definition sample_syslog :: "unit syslog_state" where
  "sample_syslog = (syslog_boot ())\<lparr>sy_mutex := MutexFree, sy_enabled := True, sy_server := ''log'', sy_queue := Some [], sy_task := True,
     sy_sock := 3, sy_open := [3], sy_resolved := True, sy_fmt_mutex := MutexFree, sy_rawbuf := Some (replicate 256 (CHR ''x'')),
     sy_pktbuf := Some (replicate 256 (CHR ''x''))\<rparr>"

definition sample_log :: "string \<Rightarrow> log_env" where
  "sample_log s = \<lparr>le_text = s, le_connected = True, le_inside = False, le_now = 0, le_stamp = [], le_host = ''router''\<rparr>"

lemma sample_forwarding: "forwarding [] [] sample_syslog"
  by (simp add: forwarding_def sample_syslog_def syslog_boot_def syslog_inv_def syslog_consts)

theorem syslog_line_forwarded_witness:
  "\<exists>t. run_logs [sample_log ''E (12) wi'', sample_log (''fi: gone'' @ [CHR 0x0A])] sample_syslog = Some t \<and>
     forwarding [] [''<131>Jan  1 00:00:00 router E (12) wifi: gone'' @ [CHR 0x0A]] t"
proof -
  have p: "''<131>Jan  1 00:00:00 router E (12) wifi: gone'' @ [CHR 0x0A] =
      ''<'' @ dec_string (16 * 8 + severity_of (level_of ''E (12) wifi: gone'')) @ ''>'' @
       (if le_now (sample_log (''fi: gone'' @ [CHR 0x0A])) > 1000000000 then le_stamp (sample_log (''fi: gone'' @ [CHR 0x0A])) else ''Jan  1 00:00:00'') @
       '' '' @ le_host (sample_log (''fi: gone'' @ [CHR 0x0A])) @ '' '' @ ''E (12) wifi: gone'' @ [CHR 0x0A]" by code_simp
  let ?p = "''<131>Jan  1 00:00:00 router E (12) wifi: gone'' @ [CHR 0x0A]"
  have len: "length ?p \<le> 255" by simp
  have "\<exists>t. run_logs ([sample_log ''E (12) wi''] @ [sample_log (''fi: gone'' @ [CHR 0x0A])]) sample_syslog = Some t \<and>
      forwarding [] ([] @ [if length ?p \<le> 255 then ?p else take 255 ?p @ [CHR 0x00]]) t"
  proof (rule syslog_line_forwarded [OF sample_forwarding])
    show "?p = ''<'' @ dec_string (16 * 8 + severity_of (level_of ''E (12) wifi: gone'')) @ ''>'' @
       (if le_now (sample_log (''fi: gone'' @ [CHR 0x0A])) > 1000000000 then le_stamp (sample_log (''fi: gone'' @ [CHR 0x0A])) else ''Jan  1 00:00:00'') @
       '' '' @ le_host (sample_log (''fi: gone'' @ [CHR 0x0A])) @ '' '' @ ''E (12) wifi: gone'' @ [CHR 0x0A]" by (rule p)
    show "le_text (sample_log (''fi: gone'' @ [CHR 0x0A])) = ''fi: gone'' @ [CHR 0x0A]" by (simp add: sample_log_def)
    show "concat (map le_text [sample_log ''E (12) wi'']) @ ''fi: gone'' = [] @ ''E (12) wifi: gone'' @ []" by (simp add: sample_log_def)
    show "\<not> is_stub ''E (12) wifi: gone''" by (simp add: is_stub_def)
  qed (simp_all add: sample_log_def log_env_ok_def colour_def syslog_consts)
  then show ?thesis unfolding if_P [OF len] by (simp only: append_Nil append_Cons)
qed

section \<open>A line that is too long\<close>

lemma forwarding_full:
  assumes "forwarding begun q s" "length begun = SYSLOG_PKT_MAX - 1" "CHR 0x0A \<notin> set begun" "log_env_ok env"
  shows "\<exists>t. syslog_vprintf env s = Some t \<and> forwarding begun q t"
proof (cases "le_connected env \<and> \<not> le_inside env")
  case True
  with forwarding_append [OF assms(1,4)] assms(2,3) show ?thesis by simp
next
  case False
  then have "syslog_vprintf env s = Some s" by (auto simp: syslog_vprintf_def)
  with assms(1) show ?thesis by simp
qed

text \<open>
  Once 255 characters have come without a line end (one long line is enough), no later log call
  ever puts a message on the queue: forwarding stands still until it is switched off.
\<close>

theorem syslog_long_line_blocks:
  assumes "forwarding begun q s" "log_env_ok env" "le_connected env" "\<not> le_inside env"
    "255 \<le> length (begun @ le_text env)" "CHR 0x0A \<notin> set (take 255 (begun @ le_text env))"
  shows "\<exists>t. syslog_vprintf env s = Some t \<and>
    (\<forall>envs. (\<forall>e \<in> set envs. log_env_ok e) \<longrightarrow> (\<exists>u. run_logs envs t = Some u \<and> sy_queue u = Some q \<and> sy_enabled u))"
proof -
  let ?b = "take (SYSLOG_PKT_MAX - 1) (begun @ le_text env)"
  have n: "CHR 0x0A \<notin> set ?b" "length ?b = SYSLOG_PKT_MAX - 1" using assms(5,6) by (simp_all add: syslog_consts)
  obtain t where t: "syslog_vprintf env s = Some t" "forwarding ?b q t" using forwarding_append [OF assms(1-4) n(1)] by blast
  have "\<exists>u. run_logs envs v = Some u \<and> forwarding ?b q u" if "\<forall>e \<in> set envs. log_env_ok e" "forwarding ?b q v" for envs v
    using that
  proof (induction envs arbitrary: v)
    case (Cons e envs)
    obtain w where "syslog_vprintf e v = Some w" "forwarding ?b q w"
      using forwarding_full [OF Cons.prems(2) n(2,1), of e] Cons.prems(1) by auto
    with Cons.IH [of w] Cons.prems(1) show ?case by simp
  qed simp
  with t show ?thesis by (fastforce simp: forwarding_def)
qed

theorem syslog_long_line_blocks_witness:
  "\<exists>t. syslog_vprintf (sample_log (replicate 300 (CHR ''x''))) sample_syslog = Some t \<and>
    (\<forall>envs. (\<forall>e \<in> set envs. log_env_ok e) \<longrightarrow> (\<exists>u. run_logs envs t = Some u \<and> sy_queue u = Some [] \<and> sy_enabled u))"
  by (rule syslog_long_line_blocks [OF sample_forwarding]) (simp_all add: sample_log_def log_env_ok_def)

section \<open>Switching it off\<close>

text \<open>
  C32: switching the client off always ends.  It waits for the sender less than 2120 ms: at most 100
  until there is room for the message that stops it, and then until it is seen gone, for which it looks at
  least every 20 ms for 2000.  It is then off, without a socket, and the queue and the buffers are freed
  unless the task was never seen gone.
\<close>

theorem syslog_disable_ends:
  assumes "syslog_reachable api s"
  shows "\<exists>waited t. syslog_disable api room gone s = Some (waited, t) \<and> waited < 2120 \<and> \<not> sy_enabled t \<and> sy_sock t < 0 \<and>
    (sy_task t \<longrightarrow> sy_task s \<and> (\<forall>k \<le> 100. \<not> gone (20 * k))) \<and>
    (\<not> sy_task t \<longrightarrow> sy_queue t = None \<and> sy_rawbuf t = None \<and> sy_pktbuf t = None)"
proof -
  have w: "fst (syslog_wait gone 0) < SYSLOG_STOP_TIMEOUT_MS + SYSLOG_STOP_POLL_MS \<and>
      snd (syslog_wait gone 0) = (\<exists>k. 0 + k * SYSLOG_STOP_POLL_MS < SYSLOG_STOP_TIMEOUT_MS + SYSLOG_STOP_POLL_MS \<and> gone (0 + k * SYSLOG_STOP_POLL_MS))"
    by (rule poll_ends [where f = "syslog_wait gone"]) (simp_all add: syslog_wait.simps [of gone] syslog_consts)
  have never: "\<forall>k \<le> 100. \<not> gone (20 * k)" if "\<not> snd (syslog_wait gone 0)"
  proof (intro allI impI)
    fix k :: nat assume "k \<le> 100"
    with that w have "\<not> gone (0 + k * SYSLOG_STOP_POLL_MS)" by (auto simp: syslog_consts)
    then show "\<not> gone (20 * k)" by (simp add: syslog_consts mult.commute)
  qed
  obtain n t where t: "syslog_disable api room gone s = Some (n, t)" "n \<le> 100 + fst (syslog_wait gone 0)" "\<not> sy_enabled t" "sy_sock t < 0"
    "sy_task t \<longrightarrow> sy_task s \<and> \<not> snd (syslog_wait gone 0)" "\<not> sy_task t \<longrightarrow> sy_queue t = None \<and> sy_rawbuf t = None \<and> sy_pktbuf t = None"
    using syslog_disable_ok [OF reachable_inv [OF assms], of api room gone] by blast
  have "n < 2120" using t(2) w by (simp add: syslog_consts)
  with t never show ?thesis by blast
qed

text \<open>The client as it starts with an empty flash.\<close>

definition empty_syslog_flash :: "unit syslog_flash" where
  "empty_syslog_flash = \<lparr>sf_par = \<lparr>np_open = (\<lambda>n. ESP_OK), np_get_str = (\<lambda>n k. (ESP_ERR_NVS_NOT_FOUND, [])),
     np_set_str = (\<lambda>n k v. (ESP_OK, n)), np_get_i32 = (\<lambda>n k. (ESP_ERR_NVS_NOT_FOUND, 0)), np_set_i32 = (\<lambda>n k v. (ESP_OK, n)),
     np_commit = (\<lambda>n. (ESP_OK, n))\<rparr>, sf_get_u8 = (\<lambda>n k. None), sf_set_u8 = (\<lambda>n k v. n), sf_get_u16 = (\<lambda>n k. None),
     sf_set_u16 = (\<lambda>n k v. n)\<rparr>"

definition sample_net :: net_env where
  "sample_net = \<lparr>ne_resolve = (\<lambda>host port. Some 0x0104A8C0), ne_socket = 3, ne_start = \<lparr>se_queue_ok = True, se_mutex_ok = True,
     se_raw = Some (replicate 256 (CHR 0x00)), se_pkt = Some (replicate 256 (CHR 0x00)), se_task_ok = True\<rparr>\<rparr>"

lemma sample_start_ok: "start_ok (ne_start sample_net)"
  by (simp add: sample_net_def start_ok_def syslog_consts)

lemma sample_reachable:
  "\<exists>s. syslog_reachable empty_syslog_flash s \<and> sy_enabled s \<and> sy_task s \<and> sy_queue s = Some [] \<and> sy_fmt_mutex s = MutexFree"
proof -
  define s0 where "s0 = (syslog_boot ())\<lparr>sy_mutex := MutexFree, sy_hook := True\<rparr>"
  have i: "syslog_init empty_syslog_flash True sample_net (syslog_boot ()) = Some (ESP_OK, s0)"
    by (simp add: syslog_init_def syslog_load_config_def empty_syslog_flash_def syslog_boot_def s0_def Let_def)
  obtain e t where e: "syslog_enable empty_syslog_flash sample_net ''log'' 514 s0 = Some (e, t)" "sy_enabled t" "sy_task t" "sy_queue t = Some []"
    "sy_fmt_mutex t = MutexFree"
    by (simp add: syslog_enable_def s0_def syslog_boot_def lock_simps strncpy_trunc_def syslog_consts syslog_connect_def connect_begin_def
        close_sock_def connect_end_def sample_net_def start_sender_def syslog_save_config_def empty_syslog_flash_def Let_def)
  have "syslog_reachable empty_syslog_flash t"
    by (rule syslog_reachable.intros(2) [OF syslog_reachable.intros(1) [OF sample_start_ok i] syslog_step.intros(5) [OF sample_start_ok e(1)]])
  with e show ?thesis by blast
qed

theorem syslog_safe_witness:
  "\<exists>s. sy_queue s = Some [] \<and> sy_enabled s \<and> (\<exists>t. syslog_vprintf (sample_log ''x'') s = Some t) \<and>
     (\<forall>room gone. \<exists>w t. syslog_disable empty_syslog_flash room gone s = Some (w, t))"
proof -
  obtain s where s: "syslog_reachable empty_syslog_flash s" "sy_queue s = Some []" "sy_fmt_mutex s = MutexFree" "sy_enabled s"
    using sample_reachable by blast
  have e: "log_env_ok (sample_log ''x'')" by (simp add: sample_log_def log_env_ok_def)
  note safe = syslog_safe [OF s(1)]
  have "\<exists>t. syslog_vprintf (sample_log ''x'') s = Some t"
    using safe [THEN conjunct1, rule_format, OF e] s(3) by (cases "syslog_vprintf (sample_log ''x'') s") simp_all
  moreover have "\<forall>room gone. \<exists>w t. syslog_disable empty_syslog_flash room gone s = Some (w, t)"
    by (rule safe [THEN conjunct2, THEN conjunct2, THEN conjunct2, THEN conjunct1])
  ultimately show ?thesis using s(2,4) by blast
qed

theorem syslog_disable_ends_witness:
  "\<exists>s w t. sy_task s \<and> syslog_disable empty_syslog_flash None (\<lambda>w. w = 40) s = Some (w, t) \<and> w < 2120 \<and> \<not> sy_task t \<and>
     sy_queue t = None \<and> sy_rawbuf t = None"
proof -
  obtain s where s: "syslog_reachable empty_syslog_flash s" "sy_task s" using sample_reachable by blast
  obtain w t where t: "syslog_disable empty_syslog_flash None (\<lambda>w. w = 40) s = Some (w, t)" "w < 2120"
    "sy_task t \<longrightarrow> sy_task s \<and> (\<forall>k \<le> 100. \<not> 20 * k = (40 :: nat))"
    "\<not> sy_task t \<longrightarrow> sy_queue t = None \<and> sy_rawbuf t = None \<and> sy_pktbuf t = None"
    using syslog_disable_ends [OF s(1), of None "\<lambda>w. w = 40"] by blast
  have "\<not> sy_task t" using t(3) by (auto dest: spec [of _ 2])
  with s(2) t show ?thesis by blast
qed

text \<open>A sender that does not get on with a full queue is waited for more than two seconds.\<close>

lemma full_queue_waits:
  assumes "syslog_inv s" "sy_task s" "sy_queue s = Some q" "length q = SYSLOG_QUEUE_DEPTH"
  shows "\<exists>t. syslog_disable api None (\<lambda>w. False) s = Some (2100, t) \<and> sy_task t \<and> sy_queue t = Some q"
proof -
  have never: "syslog_wait (\<lambda>w. False) x = (2000, False)" if "x = 2000 - 20 * k" "k \<le> 100" for x k
    using that
  proof (induction k arbitrary: x)
    case (Suc k)
    then show ?case using Suc.IH [of "x + 20"] by (subst syslog_wait.simps) (simp add: syslog_consts)
  qed (subst syslog_wait.simps, simp add: syslog_consts)
  have "sy_mutex s = MutexFree" using assms(1) by (simp add: syslog_inv_def)
  then show ?thesis using assms(2-4) never [of 0 100]
    by (simp add: syslog_disable_def lock_simps stop_sender_def send_pill_def SYSLOG_PILL_WAIT_MS_def close_sock_def syslog_save_config_def
        Let_def case_prod_unfold)
qed

text \<open>
  The lock of the buffers is created together with the sender, and nobody asks whether it could be: if
  not, the next log call takes a lock that does not exist.
\<close>

lemma log_without_lock:
  "\<exists>s. syslog_reachable empty_syslog_flash s \<and> syslog_vprintf (sample_log ''x'') s = None"
proof -
  define s0 where "s0 = (syslog_boot ())\<lparr>sy_mutex := MutexFree, sy_hook := True\<rparr>"
  let ?ne = "sample_net\<lparr>ne_start := (ne_start sample_net)\<lparr>se_mutex_ok := False\<rparr>\<rparr>"
  have o': "start_ok (ne_start ?ne)" using sample_start_ok by (simp add: start_ok_def)
  have i: "syslog_init empty_syslog_flash True ?ne (syslog_boot ()) = Some (ESP_OK, s0)"
    by (simp add: syslog_init_def syslog_load_config_def empty_syslog_flash_def syslog_boot_def s0_def Let_def)
  obtain e t where e: "syslog_enable empty_syslog_flash ?ne ''log'' 514 s0 = Some (e, t)" "sy_enabled t" "sy_queue t = Some []" "sy_fmt_mutex t = MutexNull"
    by (simp add: syslog_enable_def s0_def syslog_boot_def lock_simps strncpy_trunc_def syslog_consts syslog_connect_def connect_begin_def
        close_sock_def connect_end_def sample_net_def start_sender_def syslog_save_config_def empty_syslog_flash_def Let_def)
  have "syslog_reachable empty_syslog_flash t"
    by (rule syslog_reachable.intros(2) [OF syslog_reachable.intros(1) [OF o' i] syslog_step.intros(5) [OF o' e(1)]])
  moreover have "syslog_vprintf (sample_log ''x'') t = None"
    by (rule vprintf_no_lock) (use e in \<open>simp_all add: log_forwarded_def sample_log_def\<close>)
  ultimately show ?thesis by blast
qed

lemma start_sender_fields [simp]:
  "sy_open (start_sender se w) = sy_open w" "sy_sock (start_sender se w) = sy_sock w" "sy_enabled (start_sender se w) = sy_enabled w"
  by (simp_all add: start_sender_def Let_def)

lemma start_sender_starts: "se_queue_ok se \<Longrightarrow> se_task_ok se \<Longrightarrow> sy_task (start_sender se w) \<and> sy_queue (start_sender se w) \<noteq> None"
  by (cases "sy_queue w"; cases "sy_rawbuf w"; cases "sy_pktbuf w"; cases "sy_fmt_mutex w = MutexNull \<and> se_mutex_ok se")
    (auto simp: start_sender_def Let_def)

text \<open>
  Switching it off while a connection waits for its name: the connection then opens its socket, and a
  task with its queue and buffers is there although the client is off.
\<close>

lemma disable_during_dns:
  assumes "syslog_inv s" "\<not> sy_task s" "connect_begin s = Some (True, t)" "syslog_disable api room gone t = Some (waited, u)" "fd \<ge> 0"
    "start_ok se" "se_queue_ok se" "se_task_ok se" "connect_end (Some a) fd se u = Some v"
  shows "\<not> sy_enabled v \<and> sy_task v \<and> sy_queue v \<noteq> None \<and> sy_sock v = fd"
proof -
  have t: "syslog_inv t" "\<not> sy_task t" using assms(1-3) connect_begin_ok [OF assms(1)]
    by (auto simp: connect_begin_def bind_eq_Some_conv close_sock_def split: if_splits)
  have u: "\<not> sy_enabled u" "\<not> sy_task u" "syslog_inv u" using syslog_disable_ok [OF t(1), of api room gone] assms(4) t(2) by auto
  define w where "w = u\<lparr>sy_dest := a, sy_sock := fd, sy_open := fd # sy_open u, sy_resolved := True\<rparr>"
  have "\<exists>m. v = (start_sender se w)\<lparr>sy_mutex := m\<rparr>"
    using assms(5,9) by (auto simp: connect_end_def w_def Let_def bind_eq_Some_conv)
  moreover have "\<not> sy_enabled (start_sender se w)" "sy_sock (start_sender se w) = fd" using u(1) by (simp_all add: w_def)
  ultimately show ?thesis using start_sender_starts [OF assms(7,8), of w] by auto
qed

text \<open>Two connections at the same time (a change of the uplink while another still waits for its name): the first socket stays open for good.\<close>

lemma connect_twice_leaks:
  assumes "syslog_inv s" "sy_enabled s" "sy_server s \<noteq> []" "sy_open s = []" "0 \<le> fd1" "0 \<le> fd2" "fd1 \<noteq> fd2"
    "connect_begin s = Some (go, s1)" "connect_begin s1 = Some (go', s2)" "connect_end (Some a) fd1 se s2 = Some s3"
    "connect_end (Some a) fd2 se s3 = Some s4"
  shows "sy_open s4 = [fd2, fd1] \<and> sy_sock s4 = fd2 \<and> fd1 \<in> set (sy_open (sender_exit s4))"
proof -
  have m: "sy_mutex s = MutexFree" using assms(1) by (simp add: syslog_inv_def)
  have 1: "sy_open s1 = []" using assms(2-4,8) m by (auto simp: connect_begin_def lock_simps close_sock_def)
  have 2: "sy_open s2 = []" using assms(9) 1 by (auto simp: connect_begin_def bind_eq_Some_conv close_sock_def split: if_splits)
  have 3: "sy_open s3 = [fd1]" using assms(5,10) 2 by (auto simp: connect_end_def bind_eq_Some_conv Let_def)
  have 4: "sy_open s4 = [fd2, fd1]" "sy_sock s4 = fd2" using assms(6,11) 3 by (auto simp: connect_end_def bind_eq_Some_conv Let_def)
  then show ?thesis using assms(6,7) by (simp add: sender_exit_def close_sock_def)
qed

text \<open>The pill of a stop that was given up is taken after the client is on again: on, and nobody sends.\<close>

lemma enable_before_exit:
  assumes "sy_task s" "sy_queue s = Some [[]]"
  shows "sy_enabled (snd (sender_round s)) = sy_enabled s \<and> \<not> sy_task (snd (sender_round s)) \<and> \<not> sy_resolved (snd (sender_round s))"
  using assms by (simp add: sender_round_def sender_exit_def close_sock_def Let_def)

text \<open>A packet that does not fit is sent with the NUL that ends the buffer.\<close>

lemma long_packet_ends_with_nul: "256 \<le> length s \<Longrightarrow> last (syslog_packet s) = CHR 0x00 \<and> length (syslog_packet s) = 256"
  by (simp add: syslog_packet_def syslog_consts)

end
