(* ===== verification/Ddns_Theorems.thy ===== *)
theory Ddns_Theorems
  imports Ddns Web_Settings Http_Theorems
begin

text \<open>
  Dynamic DNS: what a provider is asked decodes to the settings; settings survive in flash; one update
  runs at a time and reports the address it was made for.
\<close>

section \<open>Encoded parameters\<close>

definition enc_len :: "string \<Rightarrow> nat" where
  "enc_len s = length (concat (map url_piece s))"

lemma encode_from_fits:
  assumes "j + enc_len s + 3 < n"
  shows "ddns_url_encode_from j n s = concat (map url_piece s)"
  using assms
proof (induction s arbitrary: j)
  case (Cons c s)
  have p: "length (url_piece c) = (if url_plain c then 1 else 3)" by (simp add: url_piece_def)
  have e: "enc_len (c # s) = length (url_piece c) + enc_len s" by (simp add: enc_len_def)
  show ?case
  proof (cases "url_plain c")
    case True
    then show ?thesis using Cons.prems e p Cons.IH [of "j + 1"] by (simp add: url_piece_def [of c])
  next
    case False
    then show ?thesis using Cons.prems e p Cons.IH [of "j + 3"] by (simp add: url_piece_def [of c])
  qed
qed simp

lemma encode_fits: "enc_len s + 3 < n \<Longrightarrow> ddns_url_encode s n = concat (map url_piece s)"
  using encode_from_fits [of 0 s n] by (simp add: ddns_url_encode_def)

lemma encode_from_bound: "j < n \<Longrightarrow> j + length (ddns_url_encode_from j n s) < n"
proof (induction s arbitrary: j)
  case (Cons c s)
  show ?case using Cons.IH [of "j + 1"] Cons.IH [of "j + 3"] Cons.prems by auto
qed simp

text \<open>The values of a query: what stands between the separators, decoded.\<close>

fun split_at :: "char \<Rightarrow> string \<Rightarrow> string list" where
  "split_at c [] = [[]]"
| "split_at c (x # xs) = (if x = c then [] # split_at c xs else (case split_at c xs of p # ps \<Rightarrow> (x # p) # ps | [] \<Rightarrow> [[x]]))"

definition key_value :: "string \<Rightarrow> string \<times> string" where
  "key_value p = (takeWhile (\<lambda>c. c \<noteq> CHR ''='') p, preprocess_string (drop 1 (dropWhile (\<lambda>c. c \<noteq> CHR ''='') p)))"

definition url_query :: "string \<Rightarrow> (string \<times> string) list" where
  "url_query url = map key_value (split_at (CHR ''&'') (drop 1 (dropWhile (\<lambda>c. c \<noteq> CHR ''?'') url)))"

fun query_text :: "(string \<times> string) list \<Rightarrow> string" where
  "query_text [] = []"
| "query_text [(k, v)] = k @ ''='' @ v"
| "query_text ((k, v) # kv # kvs) = k @ ''='' @ v @ ''&'' @ query_text (kv # kvs)"

lemma split_at_join:
  assumes "c \<notin> set a"
  shows "split_at c (a @ c # s) = a # split_at c s" "split_at c a = [a]"
  using assms by (induction a) auto

definition separator :: "char \<Rightarrow> bool" where
  "separator c \<longleftrightarrow> c \<in> {CHR ''&'', CHR ''='', CHR ''?''}"

lemma url_query_text:
  assumes "\<forall>(k, v) \<in> set kvs. (\<forall>c \<in> set k. \<not> separator c) \<and> (\<forall>c \<in> set v. \<not> separator c)" "kvs \<noteq> []" "CHR ''?'' \<notin> set pre"
  shows "url_query (pre @ ''?'' @ query_text kvs) = map (\<lambda>(k, v). (k, preprocess_string v)) kvs"
proof -
  have "drop 1 (dropWhile (\<lambda>c. c \<noteq> CHR ''?'') (pre @ ''?'' @ query_text kvs)) = query_text kvs"
    using assms(3) by (simp add: dropWhile_append)
  moreover have kv: "key_value (k @ ''='' @ v) = (k, preprocess_string v)" if "\<forall>c \<in> set k. \<not> separator c" for k v
  proof -
    have "CHR ''='' \<notin> set k" using that by (auto simp: separator_def)
    then show ?thesis by (simp add: key_value_def takeWhile_append dropWhile_append)
  qed
  have "map key_value (split_at (CHR ''&'') (query_text kvs)) = map (\<lambda>(k, v). (k, preprocess_string v)) kvs"
    using assms(1,2)
  proof (induction kvs rule: query_text.induct)
    case (2 k v)
    then have "CHR ''&'' \<notin> set (k @ ''='' @ v)" by (auto simp: separator_def)
    from split_at_join(2) [OF this] 2 show ?case using kv [of k v] by simp
  next
    case (3 k v kv' kvs)
    then have n: "CHR ''&'' \<notin> set (k @ ''='' @ v)" by (auto simp: separator_def)
    have "query_text ((k, v) # kv' # kvs) = (k @ ''='' @ v) @ CHR ''&'' # query_text (kv' # kvs)" by simp
    then have "split_at (CHR ''&'') (query_text ((k, v) # kv' # kvs)) = (k @ ''='' @ v) # split_at (CHR ''&'') (query_text (kv' # kvs))"
      using split_at_join(1) [OF n] by (simp only:)
    with 3 kv [of k v] show ?case by simp
  qed simp
  ultimately show ?thesis by (simp add: url_query_def)
qed

lemma piece_clean: "c \<in> set (url_piece d) \<Longrightarrow> \<not> separator c"
proof -
  have h: "hex_upper n \<in> set ''0123456789ABCDEF''" if "n < 16" for n :: nat
    using that unfolding hex_upper_def by (intro nth_mem) simp
  have "\<not> separator (hex_upper n)" if "n < 16" for n :: nat using h [OF that] by (auto simp: separator_def)
  moreover have "\<not> separator d" if "url_plain d" using that by (auto simp: separator_def url_plain_def)
  ultimately show "c \<in> set (url_piece d) \<Longrightarrow> \<not> separator c"
    using char_nibbles [of d] by (auto simp: url_piece_def separator_def split: if_splits)
qed

lemma encoded_clean: "\<forall>c \<in> set (concat (map url_piece s)). \<not> separator c"
  using piece_clean by auto

lemma ipstr_plain: "\<forall>c \<in> set (ipstr ip). url_plain c"
proof -
  have d: "\<forall>c \<in> set (dec_string n). url_plain c" for n
  proof (induction n rule: dec_string.induct)
    case (1 n)
    have "url_plain (char_of (48 + k))" if "k < 10" for k :: nat using that by (simp add: url_plain_def)
    then show ?case using 1 by (cases "n < 10") (simp_all add: dec_string.simps [of n])
  qed
  have "url_plain (CHR ''.'')" by (simp add: url_plain_def)
  with d show ?thesis by (auto simp: ipstr_def)
qed

lemma plain_pieces: "\<forall>c \<in> set s. url_plain c \<Longrightarrow> concat (map url_piece s) = s"
  by (induction s) (simp_all add: url_piece_def)

lemma plain_decodes: "\<forall>c \<in> set s. url_plain c \<Longrightarrow> preprocess_string s = s"
  using decode_pieces [of s] plain_pieces [of s] plain_not by metis

lemma plain_clean: "\<forall>c \<in> set s. url_plain c \<Longrightarrow> \<forall>c \<in> set s. \<not> separator c"
  using encoded_clean [of s] plain_pieces [of s] by simp

section \<open>What the providers are asked\<close>

text \<open>A setting that goes into a request whole: encoded it has at most 249 characters, as every host name and token of letters, digits, hyphens and dots has.\<close>

definition fits :: "string \<Rightarrow> bool" where
  "fits s \<longleftrightarrow> enc_len s \<le> 249 \<and> CHR 0x00 \<notin> set s"

lemma plain_fits: "\<forall>c \<in> set s. url_plain c \<Longrightarrow> length s < 128 \<Longrightarrow> fits s"
  using plain_pieces [of s] plain_not by (auto simp: fits_def enc_len_def)

lemma request_query:
  assumes "\<forall>(k, v) \<in> set kvs. \<forall>c \<in> set k. \<not> separator c" "\<forall>(k, v) \<in> set kvs. (\<exists>s. v = concat (map url_piece s))"
    "kvs \<noteq> []" "CHR ''?'' \<notin> set pre" "length (pre @ ''?'' @ query_text kvs) \<le> n"
  shows "url_query (take n (pre @ ''?'' @ query_text kvs)) = map (\<lambda>(k, v). (k, preprocess_string v)) kvs"
proof -
  have "take n (pre @ ''?'' @ query_text kvs) = pre @ ''?'' @ query_text kvs" using assms(5) by simp
  moreover have "\<forall>(k, v) \<in> set kvs. (\<forall>c \<in> set k. \<not> separator c) \<and> (\<forall>c \<in> set v. \<not> separator c)"
    using assms(1,2) encoded_clean by fastforce
  ultimately show ?thesis using url_query_text [OF _ assms(3,4)] by simp
qed

lemma ip_pieces: "ipstr ip = concat (map url_piece (ipstr ip))" "preprocess_string (ipstr ip) = ipstr ip"
  using plain_pieces [OF ipstr_plain] plain_decodes [OF ipstr_plain] by simp_all

lemma encode_setting:
  assumes "fits s"
  shows "ddns_url_encode s 256 = concat (map url_piece s)" "length (ddns_url_encode s 256) \<le> 249" "preprocess_string (ddns_url_encode s 256) = s"
  using assms encode_fits [of s 256] decode_pieces [of s] by (simp_all add: fits_def enc_len_def)

lemma noip_query:
  assumes "fits h" "noip_request b64 ip h u p = Some rq"
  shows "url_query (dr_url rq) = [(''hostname'', h), (''myip'', ipstr ip)]"
proof -
  have "dr_url rq = take 319 (''https://dyn.update.no-ip.com/nic/update'' @ ''?'' @
      query_text [(''hostname'', ddns_url_encode h 256), (''myip'', ipstr ip)])"
    using assms(2) by (auto simp: noip_request_def)
  moreover have "url_query (take 319 (''https://dyn.update.no-ip.com/nic/update'' @ ''?'' @
      query_text [(''hostname'', ddns_url_encode h 256), (''myip'', ipstr ip)])) = [(''hostname'', h), (''myip'', ipstr ip)]"
    using encode_setting [OF assms(1)] ipstr_props(2) [of ip] ip_pieces [of ip]
    by (subst request_query) (auto simp: separator_def)
  ultimately show ?thesis by simp
qed

lemma dynu_query:
  assumes "fits h" "dynu_request b64 ip h u p = Some rq"
  shows "url_query (dr_url rq) = [(''hostname'', h), (''myip'', ipstr ip)]"
proof -
  have "dr_url rq = take 383 (''https://api.dynu.com/nic/update'' @ ''?'' @
      query_text [(''hostname'', ddns_url_encode h 256), (''myip'', ipstr ip)])"
    using assms(2) by (auto simp: dynu_request_def)
  moreover have "url_query (take 383 (''https://api.dynu.com/nic/update'' @ ''?'' @
      query_text [(''hostname'', ddns_url_encode h 256), (''myip'', ipstr ip)])) = [(''hostname'', h), (''myip'', ipstr ip)]"
    using encode_setting [OF assms(1)] ipstr_props(2) [of ip] ip_pieces [of ip]
    by (subst request_query) (auto simp: separator_def)
  ultimately show ?thesis by simp
qed

lemma duckdns_query:
  assumes "fits h" "fits t"
  shows "url_query (dr_url (duckdns_request ip h t)) = [(''domains'', h), (''token'', t), (''ip'', ipstr ip)]"
proof -
  have "dr_url (duckdns_request ip h t) = take 639 (''https://www.duckdns.org/update'' @ ''?'' @
      query_text [(''domains'', ddns_url_encode h 256), (''token'', ddns_url_encode t 256), (''ip'', ipstr ip)])"
    by (simp add: duckdns_request_def)
  moreover have "url_query (take 639 (''https://www.duckdns.org/update'' @ ''?'' @
      query_text [(''domains'', ddns_url_encode h 256), (''token'', ddns_url_encode t 256), (''ip'', ipstr ip)])) =
      [(''domains'', h), (''token'', t), (''ip'', ipstr ip)]"
    using encode_setting [OF assms(1)] encode_setting [OF assms(2)] ipstr_props(2) [of ip] ip_pieces [of ip]
    by (subst request_query) (auto simp: separator_def)
  ultimately show ?thesis by simp
qed

lemma selfhost_query:
  assumes "fits u" "fits p"
  shows "url_query (dr_url (selfhost_request ip u p)) = [(''username'', u), (''password'', p), (''myip'', ipstr ip), (''hostname'', ''1'')]"
proof -
  have one: "(\<exists>s. ''1'' = concat (map url_piece s)) = True" "preprocess_string ''1'' = ''1''"
    by (simp_all add: url_piece_def url_plain_def exI [of _ "''1''"])
  have "dr_url (selfhost_request ip u p) = take 639 (''https://carol.selfhost.de/update'' @ ''?'' @
      query_text [(''username'', ddns_url_encode u 256), (''password'', ddns_url_encode p 256), (''myip'', ipstr ip), (''hostname'', ''1'')])"
    by (simp add: selfhost_request_def)
  moreover have "url_query (take 639 (''https://carol.selfhost.de/update'' @ ''?'' @
      query_text [(''username'', ddns_url_encode u 256), (''password'', ddns_url_encode p 256), (''myip'', ipstr ip), (''hostname'', ''1'')])) =
      [(''username'', u), (''password'', p), (''myip'', ipstr ip), (''hostname'', ''1'')]"
    using encode_setting [OF assms(1)] encode_setting [OF assms(2)] ipstr_props(2) [of ip] ip_pieces [of ip]
    by (subst request_query) (auto simp: separator_def one)
  ultimately show ?thesis by simp
qed

lemma enc_len_append: "enc_len (s @ t) = enc_len s + enc_len t"
  by (simp add: enc_len_def)

lemma namecheap_query:
  assumes "fits h" "length h < 128" "enc_len p \<le> 188" "CHR 0x00 \<notin> set p" "namecheap_request ip h p = Some rq"
  shows "url_query (dr_url rq) = [(''host'', takeWhile (\<lambda>c. c \<noteq> CHR ''.'') h), (''domain'', drop 1 (dropWhile (\<lambda>c. c \<noteq> CHR ''.'') h)),
    (''password'', p), (''ip'', ipstr ip)]"
proof -
  define host where "host = takeWhile (\<lambda>c. c \<noteq> CHR ''.'') h"
  define domain where "domain = drop 1 (dropWhile (\<lambda>c. c \<noteq> CHR ''.'') h)"
  have d: "drop (length host) h = dropWhile (\<lambda>c. c \<noteq> CHR ''.'') h"
    unfolding host_def by (metis dropWhile_eq_drop)
  have l: "length domain \<le> 127"
    using assms(2) length_dropWhile_le [of "\<lambda>c. c \<noteq> CHR ''.''" h] by (simp add: domain_def)
  have w: "take 127 (drop 1 (dropWhile (\<lambda>c. c \<noteq> CHR ''.'') h)) = domain" unfolding domain_def [symmetric] using l by simp
  have "namecheap_fqdn_split h 128 128 = (if dropWhile (\<lambda>c. c \<noteq> CHR ''.'') h = [] \<or> host = [] then None
      else if length host \<ge> 128 then None else Some (host, domain))"
    using w by (simp only: namecheap_fqdn_split_def Let_def host_def [symmetric] d) auto
  then have "namecheap_fqdn_split h 128 128 = Some (host, domain)"
    using assms(5) by (simp add: namecheap_request_def split: if_splits)
  then have rq: "dr_url rq = take 767 (''https://dynamicdns.park-your-domain.com/update'' @ ''?'' @
      query_text [(''host'', ddns_url_encode host 256), (''domain'', ddns_url_encode domain 256), (''password'', ddns_url_encode p 192), (''ip'', ipstr ip)])"
    using assms(5) by (auto simp: namecheap_request_def simp del: take_Suc_Cons take_append)
  have "h = host @ take 1 (dropWhile (\<lambda>c. c \<noteq> CHR ''.'') h) @ domain"
    unfolding domain_def host_def by simp
  then have "enc_len h = enc_len host + enc_len (take 1 (dropWhile (\<lambda>c. c \<noteq> CHR ''.'') h)) + enc_len domain"
    by (metis enc_len_append add.assoc)
  then have e: "enc_len host + enc_len domain \<le> 249" using assms(1) by (simp add: fits_def)
  have f: "fits host" "fits domain"
    using e assms(1) set_takeWhileD [of _ "\<lambda>c. c \<noteq> CHR ''.''" h] set_dropWhileD [of _ "\<lambda>c. c \<noteq> CHR ''.''" h] in_set_dropD
    by (fastforce simp: fits_def host_def domain_def)+
  have p: "ddns_url_encode p 192 = concat (map url_piece p)" "length (concat (map url_piece p)) \<le> 188" "preprocess_string (concat (map url_piece p)) = p"
    using encode_fits [of p 192] assms(3,4) decode_pieces [of p] by (simp_all add: enc_len_def)
  have "url_query (take 767 (''https://dynamicdns.park-your-domain.com/update'' @ ''?'' @
      query_text [(''host'', ddns_url_encode host 256), (''domain'', ddns_url_encode domain 256), (''password'', ddns_url_encode p 192), (''ip'', ipstr ip)]))
      = [(''host'', host), (''domain'', domain), (''password'', p), (''ip'', ipstr ip)]"
    using encode_setting [OF f(1)] encode_setting [OF f(2)] p ipstr_props(2) [of ip] ip_pieces [of ip] e [unfolded enc_len_def]
    by (subst request_query) (auto simp: separator_def)
  then show ?thesis unfolding rq host_def domain_def .
qed

text \<open>What a provider is asked for an address: the parameters and their values.\<close>

definition asked :: "ddns_config_t \<Rightarrow> u32 \<Rightarrow> (string \<times> string) list" where
  "asked g ip =
     (let p = dd_provider g; h = dd_hostname g; a = ipstr ip in
      if p = DDNS_PROVIDER_DUCKDNS then [(''domains'', h), (''token'', dd_token g), (''ip'', a)]
      else if p = DDNS_PROVIDER_SELFHOST then [(''username'', dd_token g), (''password'', dd_password g), (''myip'', a), (''hostname'', ''1'')]
      else if p = DDNS_PROVIDER_NAMECHEAP then
        [(''host'', takeWhile (\<lambda>c. c \<noteq> CHR ''.'') h), (''domain'', drop 1 (dropWhile (\<lambda>c. c \<noteq> CHR ''.'') h)), (''password'', dd_password g), (''ip'', a)]
      else [(''hostname'', h), (''myip'', a)])"

definition ddns_request_of :: "(string \<Rightarrow> nat \<Rightarrow> string option) \<Rightarrow> ddns_config_t \<Rightarrow> u32 \<Rightarrow> ddns_request option" where
  "ddns_request_of b64 g ip =
     (let p = dd_provider g; h = dd_hostname g in
      if p = DDNS_PROVIDER_NOIP then (if h = [] then None else noip_request b64 ip h (dd_token g) (dd_password g))
      else if p = DDNS_PROVIDER_DUCKDNS then (if h = [] then None else Some (duckdns_request ip h (dd_token g)))
      else if p = DDNS_PROVIDER_SELFHOST then Some (selfhost_request ip (dd_token g) (dd_password g))
      else if p = DDNS_PROVIDER_DYNU then (if h = [] then None else dynu_request b64 ip h (dd_token g) (dd_password g))
      else if p = DDNS_PROVIDER_NAMECHEAP then (if h = [] then None else namecheap_request ip h (dd_password g))
      else None)"

lemma fqdn_whole: "length (dd_hostname g) < 128 \<Longrightarrow> dd_provider g \<noteq> DDNS_PROVIDER_DUCKDNS \<Longrightarrow> ddns_get_fqdn g 128 = dd_hostname g"
  "dd_provider g = DDNS_PROVIDER_DUCKDNS \<Longrightarrow> (ddns_get_fqdn g 128 = []) = (dd_hostname g = [])"
  by (simp_all add: ddns_get_fqdn_def)

lemma ddns_update_exchanges:
  assumes "length (dd_hostname g) < 128"
  shows "\<exists>trim judge. ddns_update server b64 g ip room = (case ddns_request_of b64 g ip of None \<Rightarrow> (ESP_FAIL, []) | Some rq \<Rightarrow> ddns_exchange server room trim judge rq)"
proof -
  consider "dd_provider g = DDNS_PROVIDER_DUCKDNS" | "dd_provider g \<noteq> DDNS_PROVIDER_DUCKDNS" by blast
  then show ?thesis
  proof cases
    case 1
    with fqdn_whole(2) [OF 1] show ?thesis
      by (cases "dd_hostname g = []") (auto simp: ddns_update_def ddns_request_of_def Let_def duckdns_update_def)
  next
    case 2
    note f = fqdn_whole(1) [OF assms 2]
    consider "dd_provider g = DDNS_PROVIDER_NOIP" | "dd_provider g = DDNS_PROVIDER_SELFHOST" | "dd_provider g = DDNS_PROVIDER_DYNU"
      | "dd_provider g = DDNS_PROVIDER_NAMECHEAP" | "dd_provider g \<notin> {0, 2, 3, 4}" by blast
    then show ?thesis
    proof cases
      case 1
      then show ?thesis by (cases "dd_hostname g = []") (auto simp: ddns_update_def ddns_request_of_def Let_def f noip_update_def)
    next
      case 2
      then show ?thesis by (auto simp: ddns_update_def ddns_request_of_def Let_def f selfhost_update_def)
    next
      case 3
      then show ?thesis by (cases "dd_hostname g = []") (auto simp: ddns_update_def ddns_request_of_def Let_def f dynu_update_def)
    next
      case 4
      then show ?thesis by (cases "dd_hostname g = []") (auto simp: ddns_update_def ddns_request_of_def Let_def f namecheap_update_def)
    next
      case 5
      then show ?thesis using 2 by (auto simp: ddns_update_def ddns_request_of_def Let_def)
    qed
  qed
qed

text \<open>
  C33: an update makes at most one request, to the provider of the settings, and its parameters decode to
  the settings and the address, whatever characters host name, token and password contain (encoded they
  must have at most 249, 249 and 188); it succeeds only after an answer with status 200.
\<close>

theorem ddns_request_sound:
  assumes "fits (dd_hostname g)" "length (dd_hostname g) < 128" "fits (dd_token g)" "enc_len (dd_password g) \<le> 188" "CHR 0x00 \<notin> set (dd_password g)"
  shows "\<exists>sent trim judge. ddns_update server b64 g ip room = (case sent of None \<Rightarrow> (ESP_FAIL, []) | Some rq \<Rightarrow> ddns_exchange server room trim judge rq) \<and>
    (\<forall>rq. sent = Some rq \<longrightarrow> url_query (dr_url rq) = asked g ip \<and>
      (fst (ddns_update server b64 g ip room) = ESP_OK \<longrightarrow> dy_perform (server rq) = ESP_OK \<and> dy_status (server rq) = 200))"
proof -
  have p: "fits (dd_password g)" using assms(4,5) by (simp add: fits_def)
  obtain trim judge where u: "ddns_update server b64 g ip room =
      (case ddns_request_of b64 g ip of None \<Rightarrow> (ESP_FAIL, []) | Some rq \<Rightarrow> ddns_exchange server room trim judge rq)"
    using ddns_update_exchanges [OF assms(2)] by blast
  have "url_query (dr_url rq) = asked g ip" if "ddns_request_of b64 g ip = Some rq" for rq
    using that noip_query [OF assms(1)] dynu_query [OF assms(1)] duckdns_query [OF assms(1,3)] selfhost_query [OF assms(3) p]
      namecheap_query [OF assms(1,2,4,5)]
    by (auto simp: ddns_request_of_def asked_def Let_def split: if_splits)
  moreover have "dy_perform (server rq) = ESP_OK \<and> dy_status (server rq) = 200" if "fst (ddns_exchange server room trim judge rq) = ESP_OK" for rq
    using that by (auto simp: ddns_exchange_def Let_def split: if_splits)
  ultimately show ?thesis using u by (intro exI [of _ "ddns_request_of b64 g ip"] exI [of _ trim] exI [of _ judge]) auto
qed

text \<open>DuckDNS, with a name and a token that are full of separators.\<close>

definition odd_config :: ddns_config_t where
  "odd_config = ddns_clear_config\<lparr>dd_provider := DDNS_PROVIDER_DUCKDNS, dd_hostname := ''a&b'', dd_token := ''x=1&ip=?'', dd_enabled := True\<rparr>"

theorem ddns_request_sound_witness:
  "\<exists>sent. url_query (dr_url sent) = [(''domains'', ''a&b''), (''token'', ''x=1&ip=?''), (''ip'', ipstr 0)] \<and>
     ddns_update (\<lambda>rq. if rq = sent then \<lparr>dy_init = True, dy_perform = ESP_OK, dy_status = 200, dy_body = ''OK''\<rparr>
       else \<lparr>dy_init = False, dy_perform = ESP_FAIL, dy_status = 0, dy_body = []\<rparr>) (\<lambda>s n. None) odd_config 0 128 = (ESP_OK, ''OK'')"
proof -
  let ?sent = "duckdns_request 0 ''a&b'' ''x=1&ip=?''"
  let ?server = "\<lambda>rq. if rq = ?sent then \<lparr>dy_init = True, dy_perform = ESP_OK, dy_status = 200, dy_body = ''OK''\<rparr>
    else \<lparr>dy_init = False, dy_perform = ESP_FAIL, dy_status = 0, dy_body = []\<rparr>"
  have f: "fits (dd_hostname odd_config)" "fits (dd_token odd_config)"
    by (simp_all add: odd_config_def fits_def enc_len_def url_piece_def url_plain_def)
  have u: "ddns_update ?server (\<lambda>s n. None) odd_config 0 128 = (ESP_OK, ''OK'')"
    by (simp add: ddns_update_def odd_config_def ddns_clear_config_def ddns_get_fqdn_def duckdns_update_def ddns_exchange_def trim_end_def
        c_string_def strcaseeq_def Let_def)
  obtain sent trim judge where s: "(ESP_OK, ''OK'') = (case sent of None \<Rightarrow> (ESP_FAIL, []) | Some rq \<Rightarrow> ddns_exchange ?server 128 trim judge rq)"
    "\<forall>rq. sent = Some rq \<longrightarrow> url_query (dr_url rq) = asked odd_config 0 \<and> (fst (ESP_OK, ''OK'') = ESP_OK \<longrightarrow>
       dy_perform (?server rq) = ESP_OK \<and> dy_status (?server rq) = 200)"
    using ddns_request_sound [OF f(1) _ f(2), of ?server "\<lambda>s n. None" 0 128] unfolding u by (auto simp: odd_config_def ddns_clear_config_def enc_len_def)
  then obtain rq where rq: "sent = Some rq" by (cases sent) auto
  with s(2) have "rq = ?sent" "url_query (dr_url rq) = asked odd_config 0" by (auto split: if_splits)
  with u show ?thesis by (intro exI [of _ ?sent]) (simp add: asked_def odd_config_def)
qed

section \<open>Settings survive\<close>

datatype nvs_value = NvsStr string | NvsI32 int | NvsU8 u8 | NvsU32 u32 | NvsI64 int

text \<open>A flash without errors, as NVS documents it: each key holds the value that was stored last.\<close>

definition ddns_flash_works :: "'n ddns_flash \<Rightarrow> ('n \<Rightarrow> string \<rightharpoonup> nvs_value) \<Rightarrow> bool" where
  "ddns_flash_works api view \<longleftrightarrow> (let par = df_par api in
     (\<forall>n. np_open par n = ESP_OK \<and> view (snd (np_commit par n)) = view n) \<and>
     (\<forall>n k v w. view (snd (np_set_str par n k v)) = (view n)(k \<mapsto> NvsStr v) \<and> view (snd (np_set_i32 par n k w)) = (view n)(k \<mapsto> NvsI32 w)) \<and>
     (\<forall>n k b i. view (df_set_u8 api n k b) = (view n)(k \<mapsto> NvsU8 b) \<and> view (df_set_i64 api n k i) = (view n)(k \<mapsto> NvsI64 i)) \<and>
     (\<forall>n k x. view (df_set_u32 api n k x) = (view n)(k \<mapsto> NvsU32 x)) \<and>
     (\<forall>n k. (\<forall>v. view n k = Some (NvsStr v) \<longrightarrow> np_get_str par n k = (ESP_OK, v)) \<and>
        (\<forall>w. view n k = Some (NvsI32 w) \<longrightarrow> np_get_i32 par n k = (ESP_OK, w)) \<and>
        (\<forall>b. view n k = Some (NvsU8 b) \<longrightarrow> df_get_u8 api n k = Some b) \<and>
        (\<forall>x. view n k = Some (NvsU32 x) \<longrightarrow> df_get_u32 api n k = Some x) \<and>
        (\<forall>i. view n k = Some (NvsI64 i) \<longrightarrow> df_get_i64 api n k = Some i)))"

text \<open>A flash of that kind: a map.\<close>

definition ddns_map_flash :: "(string \<rightharpoonup> nvs_value) ddns_flash" where
  "ddns_map_flash = \<lparr>df_par = \<lparr>np_open = (\<lambda>n. ESP_OK),
       np_get_str = (\<lambda>n k. case n k of Some (NvsStr v) \<Rightarrow> (ESP_OK, v) | _ \<Rightarrow> (ESP_ERR_NVS_NOT_FOUND, [])),
       np_set_str = (\<lambda>n k v. (ESP_OK, n(k \<mapsto> NvsStr v))),
       np_get_i32 = (\<lambda>n k. case n k of Some (NvsI32 v) \<Rightarrow> (ESP_OK, v) | _ \<Rightarrow> (ESP_ERR_NVS_NOT_FOUND, 0)),
       np_set_i32 = (\<lambda>n k v. (ESP_OK, n(k \<mapsto> NvsI32 v))), np_commit = (\<lambda>n. (ESP_OK, n))\<rparr>,
     df_get_u8 = (\<lambda>n k. case n k of Some (NvsU8 v) \<Rightarrow> Some v | _ \<Rightarrow> None), df_set_u8 = (\<lambda>n k v. n(k \<mapsto> NvsU8 v)),
     df_get_u32 = (\<lambda>n k. case n k of Some (NvsU32 v) \<Rightarrow> Some v | _ \<Rightarrow> None), df_set_u32 = (\<lambda>n k v. n(k \<mapsto> NvsU32 v)),
     df_get_i64 = (\<lambda>n k. case n k of Some (NvsI64 v) \<Rightarrow> Some v | _ \<Rightarrow> None), df_set_i64 = (\<lambda>n k v. n(k \<mapsto> NvsI64 v))\<rparr>"

lemma ddns_map_flash_works: "ddns_flash_works ddns_map_flash (\<lambda>n. n)"
  by (simp add: ddns_flash_works_def ddns_map_flash_def Let_def)

text \<open>Settings that fit their buffers, of one of the five providers.\<close>

definition cfg_ok :: "ddns_config_t \<Rightarrow> bool" where
  "cfg_ok g \<longleftrightarrow> unat (dd_provider g) < length provider_names \<and> dd_provider_name g = provider_names ! unat (dd_provider g) \<and>
     length (dd_hostname g) < DDNS_MAX_HOSTNAME \<and> length (dd_token g) < DDNS_MAX_TOKEN \<and> length (dd_password g) < DDNS_MAX_PASS"

lemma clear_config_ok: "cfg_ok ddns_clear_config"
  by (simp add: cfg_ok_def ddns_clear_config_def provider_names_def DDNS_MAX_HOSTNAME_def DDNS_MAX_TOKEN_def DDNS_MAX_PASS_def)

lemma provider_name_short: "k < length provider_names \<Longrightarrow> strncpy_trunc 16 (provider_names ! k) = provider_names ! k"
  by (auto simp: provider_names_def strncpy_trunc_def less_Suc_eq numeral_eq_Suc)

lemma get_text_short: "0 < n \<Longrightarrow> length (get_text par m k n) < n"
  by (simp add: get_text_def case_prod_unfold Let_def)

lemma load_config_ok:
  assumes "ddns_load_config api n = Some (err, g)"
  shows "cfg_ok g"
proof (cases "np_open (df_par api) n = ESP_OK")
  case False
  with assms clear_config_ok show ?thesis by (simp add: ddns_load_config_def Let_def)
next
  case True
  have b: "0 < DDNS_MAX_HOSTNAME" "0 < DDNS_MAX_TOKEN" "0 < DDNS_MAX_PASS"
    by (simp_all add: DDNS_MAX_HOSTNAME_def DDNS_MAX_TOKEN_def DDNS_MAX_PASS_def)
  define prov where "prov = (case df_get_u8 api n ''ddns_prov'' of Some prov \<Rightarrow> prov | None \<Rightarrow> 0)"
  have "unat prov < length provider_names \<and> dd_provider g = prov \<and> dd_provider_name g = strncpy_trunc 16 (provider_names ! unat prov) \<and>
      dd_hostname g = get_text (df_par api) n ''ddns_host'' DDNS_MAX_HOSTNAME \<and> dd_token g = get_text (df_par api) n ''ddns_token'' DDNS_MAX_TOKEN \<and>
      dd_password g = get_text (df_par api) n ''ddns_pass'' DDNS_MAX_PASS"
    using assms True
    by (auto simp: ddns_load_config_def Let_def prov_def ddns_clear_config_def split: option.splits if_splits)
  then show ?thesis by (simp add: cfg_ok_def provider_name_short get_text_short b)
qed

text \<open>What was saved is loaded.\<close>

lemma ddns_save_load:
  assumes w: "ddns_flash_works api view" and g: "cfg_ok g" "0 < sint (dd_poll_interval g)"
  shows "ddns_load_config api (snd (ddns_save_config api g n)) = Some (ESP_OK, g)"
proof -
  note w' = w [unfolded ddns_flash_works_def Let_def]
  define m where "m = snd (ddns_save_config api g n)"
  have v: "view m = (view n)(''ddns_en'' \<mapsto> NvsI32 (if dd_enabled g then 1 else 0), ''ddns_prov'' \<mapsto> NvsU8 (dd_provider g),
      ''ddns_host'' \<mapsto> NvsStr (dd_hostname g), ''ddns_token'' \<mapsto> NvsStr (dd_token g), ''ddns_pass'' \<mapsto> NvsStr (dd_password g),
      ''ddns_poll'' \<mapsto> NvsI32 (sint (dd_poll_interval g)), ''ddns_saved_ip'' \<mapsto> NvsU32 (dd_saved_ip g),
      ''ddns_last_upd'' \<mapsto> NvsI64 (dd_last_update g))"
    using w' by (simp add: m_def ddns_save_config_def Let_def)
  have r: "get_int (df_par api) m ''ddns_en'' = Some (if dd_enabled g then 1 else 0)" "df_get_u8 api m ''ddns_prov'' = Some (dd_provider g)"
    "np_get_str (df_par api) m ''ddns_host'' = (ESP_OK, dd_hostname g)" "np_get_str (df_par api) m ''ddns_token'' = (ESP_OK, dd_token g)"
    "np_get_str (df_par api) m ''ddns_pass'' = (ESP_OK, dd_password g)" "get_int (df_par api) m ''ddns_poll'' = Some (sint (dd_poll_interval g))"
    "df_get_u32 api m ''ddns_saved_ip'' = Some (dd_saved_ip g)" "df_get_i64 api m ''ddns_last_upd'' = Some (dd_last_update g)"
    using w' v by (simp_all add: get_int_def)
  have t: "get_text (df_par api) m ''ddns_host'' DDNS_MAX_HOSTNAME = dd_hostname g" "get_text (df_par api) m ''ddns_token'' DDNS_MAX_TOKEN = dd_token g"
    "get_text (df_par api) m ''ddns_pass'' DDNS_MAX_PASS = dd_password g"
    using r g(1) by (simp_all add: get_text_def cfg_ok_def)
  have "strncpy_trunc 16 (provider_names ! unat (dd_provider g)) = dd_provider_name g" "unat (dd_provider g) < length provider_names"
    using g(1) provider_name_short by (simp_all add: cfg_ok_def)
  moreover have "np_open (df_par api) m = ESP_OK" using w' by simp
  ultimately show ?thesis
    unfolding m_def [symmetric] using g(2) by (simp add: ddns_load_config_def Let_def r t ddns_clear_config_def)
qed

section \<open>One update at a time\<close>

text \<open>
  The events: the uplink's address, the timer, a request by the user, the two parts of a task, new
  settings, and other writers of the flash.
\<close>

inductive ddns_step :: "'n ddns_flash \<Rightarrow> 'n ddns_state \<Rightarrow> 'n ddns_state \<Rightarrow> bool" for api where
  "ddns_step api s (ddns_update_wan_ip task_ok ip s)"
| "ds_timer_running s \<Longrightarrow> ddns_step api s (ddns_timer_cb task_ok s)"
| "ddns_step api s (snd (ddns_trigger_update task_ok reason s))"
| "ddns_step api s (ddns_task_ask server b64 i s)"
| "ddns_step api s (ddns_task_end api now i s)"
| "ddns_reload_config api made started s = Some (e, t) \<Longrightarrow> ddns_step api s t"
| "ddns_step api s (s\<lparr>ds_flash := n\<rparr>)"

inductive ddns_reachable :: "'n ddns_flash \<Rightarrow> 'n ddns_state \<Rightarrow> bool" for api where
  "ds_tasks s0 = [] \<Longrightarrow> \<not> ds_update_running s0 \<Longrightarrow> \<not> ds_timer_running s0 \<Longrightarrow> ddns_init api made started s0 = Some (e, s) \<Longrightarrow> ddns_reachable api s"
| "ddns_reachable api s \<Longrightarrow> ddns_step api s t \<Longrightarrow> ddns_reachable api t"

definition ddns_inv :: "'n ddns_state \<Rightarrow> bool" where
  "ddns_inv s \<longleftrightarrow> cfg_ok (ds_cfg s) \<and> (ds_timer_running s \<longrightarrow> ds_poll_timer s) \<and>
     length (ds_tasks s) = (if ds_update_running s then 1 else 0)"

lemma trigger_inv: "ddns_inv s \<Longrightarrow> ddns_inv (snd (ddns_trigger_update task_ok reason s))"
  by (auto simp: ddns_trigger_update_def ddns_inv_def Let_def split: if_splits)

lemma start_timer_inv: "ddns_inv s \<Longrightarrow> ddns_inv (ddns_start_timer made started s)"
  by (auto simp: ddns_start_timer_def ddns_inv_def)

lemma wan_ip_inv:
  assumes "ddns_inv s"
  shows "ddns_inv (ddns_update_wan_ip task_ok ip s)"
proof -
  have "ddns_inv (s\<lparr>ds_wan_ip := ip, ds_wan_changed := True\<rparr>)" using assms by (simp add: ddns_inv_def)
  with assms show ?thesis by (simp add: ddns_update_wan_ip_def Let_def trigger_inv)
qed

lemma ask_inv: "ddns_inv s \<Longrightarrow> ddns_inv (ddns_task_ask server b64 i s)"
  by (auto simp: ddns_task_ask_def ddns_inv_def Let_def case_prod_unfold)

lemma end_inv:
  assumes "ddns_inv s"
  shows "ddns_inv (ddns_task_end api now i s)"
proof (cases "i < length (ds_tasks s)")
  case True
  with assms have one: "i = 0" "ds_update_running s" "length (ds_tasks s) = 1" by (auto simp: ddns_inv_def split: if_splits)
  then obtain x where x: "ds_tasks s = [x]" by (auto simp: length_Suc_conv)
  show ?thesis
  proof (cases x)
    case Created
    with assms x one show ?thesis by (simp add: ddns_task_end_def)
  next
    case (Answered ip err)
    with assms x one show ?thesis by (simp add: ddns_task_end_def Let_def ddns_inv_def cfg_ok_def)
  qed
next
  case False
  with assms show ?thesis by (simp add: ddns_task_end_def)
qed

lemma reload_inv:
  assumes "ddns_inv s" "ddns_reload_config api made started s = Some (e, t)"
  shows "ddns_inv t"
proof -
  define u where "u = (if ds_poll_timer s then s\<lparr>ds_timer_running := False, ds_poll_timer := False\<rparr> else s)"
  have u: "ddns_inv u" using assms(1) by (auto simp: u_def ddns_inv_def)
  obtain err g where l: "ddns_load_config api (ds_flash u) = Some (err, g)" and
    t: "(if err \<noteq> ESP_OK then (err, u\<lparr>ds_cfg := g\<rparr>) else (ESP_OK, ddns_start_timer made started (u\<lparr>ds_cfg := g\<rparr>))) = (e, t)"
    using assms(2) unfolding ddns_reload_config_def Let_def u_def [symmetric]
    by (auto simp: bind_eq_Some_conv split: if_splits)
  have "ddns_inv (u\<lparr>ds_cfg := g\<rparr>)" using u load_config_ok [OF l] by (simp add: ddns_inv_def)
  with t start_timer_inv [of "u\<lparr>ds_cfg := g\<rparr>" made started] show ?thesis by (auto split: if_splits)
qed

lemma ddns_reachable_inv:
  assumes "ddns_reachable api s"
  shows "ddns_inv s"
  using assms
proof induction
  case (1 s0 made started e s)
  then obtain err g where l: "ddns_load_config api (ds_flash s0) = Some (err, g)" and
    t: "s = ddns_start_timer made started (s0\<lparr>ds_cfg := if err \<noteq> ESP_OK then ddns_clear_config else g\<rparr>)"
    by (auto simp: ddns_init_def bind_eq_Some_conv)
  have "ddns_inv (s0\<lparr>ds_cfg := if err \<noteq> ESP_OK then ddns_clear_config else g\<rparr>)"
    using 1(1-3) load_config_ok [OF l] clear_config_ok by (simp add: ddns_inv_def)
  then show ?case unfolding t by (rule start_timer_inv)
next
  case (2 s t)
  from 2(2) show ?case
  proof cases
    case (2 task_ok)
    then show ?thesis using \<open>ddns_inv s\<close> by (simp add: ddns_timer_cb_def trigger_inv)
  next
    case (7 n)
    then show ?thesis using \<open>ddns_inv s\<close> by (simp add: ddns_inv_def)
  qed (use \<open>ddns_inv s\<close> in \<open>auto simp: wan_ip_inv trigger_inv ask_inv end_inv intro: reload_inv\<close>)
qed

text \<open>The settings cannot be loaded exactly where the stored number of the provider lies beyond the table.\<close>

lemma load_config_None:
  "ddns_load_config api n = None \<longleftrightarrow>
     np_open (df_par api) n = ESP_OK \<and> (\<exists>p. df_get_u8 api n ''ddns_prov'' = Some p \<and> 5 \<le> unat p)"
  by (simp add: ddns_load_config_def Let_def ddns_clear_config_def provider_names_def not_less split: option.split)

text \<open>
  C34: as long as no reload meets a stored provider number outside the table of five, whatever happens
  in whatever order, at most one update is in progress, exactly while the flag says so; the settings
  fit their buffers and name one of the five providers, the timer runs only while it exists; and
  an update in progress comes to its end once its request is answered, whatever the answer.  A reload goes
  wrong exactly where the flash holds such a number; the page can put one there
  (\<open>form_stores_provider\<close> below).
\<close>

theorem ddns_one_update:
  assumes "ddns_reachable api s"
  shows "length (ds_tasks s) = (if ds_update_running s then 1 else 0) \<and> cfg_ok (ds_cfg s) \<and> (ds_timer_running s \<longrightarrow> ds_poll_timer s) \<and>
    (let t = ddns_task_end api now 0 (ddns_task_ask server b64 0 s) in \<not> ds_update_running t \<and> ds_tasks t = []) \<and>
    (ddns_reload_config api made started s = None \<longleftrightarrow>
       np_open (df_par api) (ds_flash s) = ESP_OK \<and> (\<exists>p. df_get_u8 api (ds_flash s) ''ddns_prov'' = Some p \<and> 5 \<le> unat p))"
proof -
  have i: "ddns_inv s" by (rule ddns_reachable_inv [OF assms])
  have "\<not> ds_update_running (ddns_task_end api now 0 (ddns_task_ask server b64 0 s)) \<and> ds_tasks (ddns_task_end api now 0 (ddns_task_ask server b64 0 s)) = []"
  proof (cases "ds_tasks s")
    case Nil
    with i show ?thesis by (auto simp: ddns_task_ask_def ddns_task_end_def ddns_inv_def split: if_splits)
  next
    case (Cons x xs)
    with i have "ds_tasks s = [x]" by (auto simp: ddns_inv_def split: if_splits)
    then show ?thesis by (cases x) (simp_all add: ddns_task_ask_def ddns_task_end_def Let_def case_prod_unfold)
  qed
  moreover have "ddns_reload_config api made started s = None \<longleftrightarrow> ddns_load_config api (ds_flash s) = None"
    by (cases "ddns_load_config api (ds_flash s)") (auto simp: ddns_reload_config_def Let_def case_prod_unfold)
  ultimately show ?thesis using i by (simp add: ddns_inv_def Let_def load_config_None)
qed

text \<open>
  C35: a new address that the provider accepts is recorded, with the time, in memory and in flash, from
  where the next start has it again; the updater is then free for the next one.
\<close>

theorem ddns_address_recorded:
  assumes "ddns_reachable api s" "ddns_flash_works api view" "\<not> ds_update_running s" "dd_enabled (ds_cfg s)" "ip \<noteq> 0"
    "fst (ddns_update server b64 (ds_cfg s) ip 128) = ESP_OK" "0 < sint (dd_poll_interval (ds_cfg s))"
  shows "let t = ddns_task_end api now 0 (ddns_task_ask server b64 0 (ddns_update_wan_ip True ip s)) in
    dd_saved_ip (ds_cfg t) = ip \<and> dd_last_update (ds_cfg t) = now \<and> \<not> ds_update_running t \<and> ds_wan_ip t = ip \<and>
    ddns_load_config api (ds_flash t) = Some (ESP_OK, ds_cfg t)"
proof -
  have i: "ddns_inv s" by (rule ddns_reachable_inv [OF assms(1)])
  then have e: "ds_tasks s = []" "cfg_ok (ds_cfg s)" using assms(3) by (auto simp: ddns_inv_def)
  define u where "u = ddns_update_wan_ip True ip s"
  have u: "ds_tasks u = [Created]" "ds_cfg u = ds_cfg s" "ds_wan_ip u = ip" "ds_flash u = ds_flash s"
    using assms(3-5) e(1) by (auto simp: u_def ddns_update_wan_ip_def ddns_trigger_update_def Let_def)
  define v where "v = ddns_task_ask server b64 0 u"
  have v: "ds_tasks v = [Answered ip ESP_OK]" "ds_cfg v = ds_cfg s" "ds_wan_ip v = ip" "ds_flash v = ds_flash s"
    using u assms(6) by (simp_all add: v_def ddns_task_ask_def case_prod_unfold Let_def)
  define g where "g = (ds_cfg s)\<lparr>dd_last_update := now, dd_saved_ip := ip\<rparr>"
  define t where "t = ddns_task_end api now 0 v"
  have t: "ds_cfg t = g" "\<not> ds_update_running t" "ds_wan_ip t = ip" "ds_flash t = snd (ddns_save_config api g (ds_flash s))"
    using v by (simp_all add: t_def ddns_task_end_def g_def Let_def)
  have "cfg_ok g" "0 < sint (dd_poll_interval g)" using e(2) assms(7) by (simp_all add: g_def cfg_ok_def)
  from ddns_save_load [OF assms(2) this, of "ds_flash s"] have "ddns_load_config api (ds_flash t) = Some (ESP_OK, ds_cfg t)" by (simp add: t)
  then show ?thesis
    unfolding Let_def u_def [symmetric] v_def [symmetric] t_def [symmetric] using t by (simp add: g_def)
qed

text \<open>DuckDNS switched on, with its settings in flash, started for the first time.\<close>

definition ddns_home :: "(string \<rightharpoonup> nvs_value)" where
  "ddns_home = [''ddns_en'' \<mapsto> NvsI32 1, ''ddns_prov'' \<mapsto> NvsU8 1, ''ddns_host'' \<mapsto> NvsStr ''home'', ''ddns_token'' \<mapsto> NvsStr ''abc'']"

definition ddns_fresh :: "(string \<rightharpoonup> nvs_value) ddns_state" where
  "ddns_fresh = \<lparr>ds_cfg = ddns_clear_config, ds_wan_ip = 0, ds_wan_changed = False, ds_poll_timer = False, ds_timer_running = False,
     ds_update_running = False, ds_reason = DDNS_TRIGGER_MANUAL, ds_tasks = [], ds_flash = ddns_home\<rparr>"

definition ddns_started :: "(string \<rightharpoonup> nvs_value) ddns_state" where
  "ddns_started = ddns_fresh\<lparr>ds_cfg := ddns_clear_config\<lparr>dd_enabled := True, dd_provider := 1, dd_hostname := ''home'', dd_token := ''abc'',
     dd_provider_name := ''DuckDNS''\<rparr>, ds_poll_timer := True, ds_timer_running := True\<rparr>"

lemma ddns_started_reachable: "ddns_reachable ddns_map_flash ddns_started"
proof (rule ddns_reachable.intros(1) [of ddns_fresh])
  show "ddns_init ddns_map_flash True True ddns_fresh = Some (ESP_OK, ddns_started)"
    by (simp add: ddns_init_def ddns_load_config_def ddns_map_flash_def ddns_fresh_def ddns_home_def get_int_def get_text_def ddns_clear_config_def
        provider_names_def strncpy_trunc_def ddns_start_timer_def ddns_started_def DDNS_POLL_INTERVAL_def DDNS_MAX_HOSTNAME_def
        DDNS_MAX_TOKEN_def DDNS_MAX_PASS_def Let_def)
qed (simp_all add: ddns_fresh_def)

definition says_ok :: "ddns_request \<Rightarrow> ddns_reply" where
  "says_ok rq = \<lparr>dy_init = True, dy_perform = ESP_OK, dy_status = 200, dy_body = ''OK'' @ [CHR 0x0A]\<rparr>"

theorem ddns_one_update_witness:
  "cfg_ok (ds_cfg ddns_started) \<and> ds_tasks (ddns_task_end ddns_map_flash 5 0 (ddns_task_ask says_ok (\<lambda>s n. None) 0 ddns_started)) = []"
  using ddns_one_update [OF ddns_started_reachable, of 5 says_ok "\<lambda>s n. None"] by (simp add: Let_def)

theorem ddns_address_recorded_witness:
  "dd_saved_ip (ds_cfg (ddns_task_end ddns_map_flash 5 0 (ddns_task_ask says_ok (\<lambda>s n. None) 0 (ddns_update_wan_ip True 0x01020304 ddns_started)))) = 0x01020304"
proof -
  have "fst (ddns_update says_ok (\<lambda>s n. None) (ds_cfg ddns_started) 0x01020304 128) = ESP_OK"
    by (simp add: ddns_update_def ddns_started_def ddns_clear_config_def ddns_fresh_def ddns_get_fqdn_def duckdns_update_def ddns_exchange_def
        trim_end_def c_string_def strcaseeq_def says_ok_def Let_def)
  then show ?thesis
    using ddns_address_recorded [of ddns_map_flash ddns_started "\<lambda>n. n" "0x01020304" says_ok "\<lambda>s n. None" 5, OF ddns_started_reachable ddns_map_flash_works]
    by (simp add: ddns_started_def ddns_fresh_def ddns_clear_config_def DDNS_POLL_INTERVAL_def Let_def)
qed

section \<open>Gaps\<close>

text \<open>An address that changes while an update runs is not reported when that update ends: nothing is pending.\<close>

lemma address_change_lost:
  assumes "ddns_inv s" "ds_tasks s = [Answered old ESP_OK]" "dd_enabled (ds_cfg s)" "new \<noteq> 0" "new \<noteq> old"
  shows "let t = ddns_task_end api now 0 (ddns_update_wan_ip task_ok new s) in
    ds_wan_ip t = new \<and> dd_saved_ip (ds_cfg t) = old \<and> ds_tasks t = [] \<and> \<not> ds_update_running t"
proof -
  have "ds_update_running s" using assms(1,2) by (auto simp: ddns_inv_def split: if_splits)
  then show ?thesis using assms(2-5)
    by (auto simp: ddns_update_wan_ip_def ddns_trigger_update_def ddns_task_end_def Let_def)
qed

text \<open>New settings while an update runs: the answer of the old provider counts for the new one, and a request by the user in between is skipped.\<close>

lemma reload_credits_new_provider:
  assumes "ddns_inv s" "ds_tasks s = [Answered ip ESP_OK]" "ddns_reload_config api made started s = Some (ESP_OK, t)"
  shows "snd (ddns_trigger_update task_ok DDNS_TRIGGER_MANUAL t) = t \<and>
    dd_saved_ip (ds_cfg (ddns_task_end api now 0 t)) = ip \<and> dd_provider (ds_cfg (ddns_task_end api now 0 t)) = dd_provider (ds_cfg t)"
proof -
  have "ds_update_running s" using assms(1,2) by (auto simp: ddns_inv_def split: if_splits)
  then have "ds_update_running t" "ds_tasks t = [Answered ip ESP_OK]"
    using assms(2,3) by (auto simp: ddns_reload_config_def ddns_start_timer_def Let_def bind_eq_Some_conv split: if_splits)
  then show ?thesis by (simp add: ddns_trigger_update_def ddns_task_end_def Let_def)
qed

text \<open>The form of the page stores any provider number, and loading one that is not in the table reads past it.\<close>

lemma unknown_provider:
  assumes "np_open (df_par api) n = ESP_OK" "df_get_u8 api n ''ddns_prov'' = Some p" "5 \<le> unat p"
  shows "ddns_load_config api n = None"
  using assms
  by (simp add: ddns_load_config_def Let_def ddns_clear_config_def provider_names_def split: option.split)

lemma form_stores_provider:
  assumes "ddns_flash_works api view" "rq_query req = Some q" "he_alloc henv" "fst (page_guard henv (df_par api) req n s)"
    "\<And>len. rq_value req q ''ddns_trigger'' len = None" "\<And>len. rq_value req q ''ddns_en'' len = Some ''1''"
    "\<And>len. rq_value req q ''ddns_prov'' len = Some ''9''"
    "\<And>k len. k \<notin> {''ddns_en'', ''ddns_prov''} \<Longrightarrow> rq_value req q k len = None"
    "ddns_get_handler henv (df_par api) (df_set_u8 api) req s n = (ans, s', n', acts)"
  shows "acts = [DdnsReload] \<and> ddns_load_config api n' = None"
proof -
  note w = assms(1) [unfolded ddns_flash_works_def Let_def]
  have n: "n' = snd (np_commit (df_par api) (df_set_u8 api (snd (np_set_i32 (df_par api) n ''ddns_en'' 1)) ''ddns_prov'' 9))" "acts = [DdnsReload]"
    using assms(2-9) w
    by (auto simp: ddns_get_handler_def Let_def case_prod_unfold put_params_def form_str_def form_secret_def atoi_def is_space_def is_digit_def
        dec_val_def digit_val_def)
  have "view n' ''ddns_prov'' = Some (NvsU8 9)" unfolding n(1) using w by simp
  then have "df_get_u8 api n' ''ddns_prov'' = Some 9" using w by blast
  then show ?thesis using n(2) w unknown_provider [of api n' 9] by simp
qed

end
