(* ===== verification/Station.thy ===== *)
theory Station
  imports Router_Prelude
begin

text \<open>
  The build without an Ethernet uplink, where the router is a Wi-Fi client of another access point
  (\<open>main/esp32_nat_router.c\<close>): connecting with growing delays, scans that suppress it, the choice of an
  access point on the preferred band, and the button that resets to factory settings.
\<close>

section \<open>Reconnecting\<close>

definition STA_RECONNECT_INITIAL_MS :: nat where "STA_RECONNECT_INITIAL_MS = 250"
definition STA_RECONNECT_MAX_MS :: nat where "STA_RECONNECT_MAX_MS = 16000"

text \<open>
  \<open>sa_timer\<close>: the delay of a pending timer; \<open>sa_trying\<close>: the driver was told to connect and has not
  reported success or failure; \<open>sa_scanning\<close>: the command \<open>scan\<close> waits for its results.
\<close>

record sta_state =
  sa_delay :: nat
  sa_timer :: "nat option"
  sa_connected :: bool
  sa_scan_active :: bool
  sa_trying :: bool
  sa_scanning :: bool

definition sta_boot :: sta_state where
  "sta_boot = \<lparr>sa_delay = STA_RECONNECT_INITIAL_MS, sa_timer = None, sa_connected = False, sa_scan_active = False, sa_trying = False,
     sa_scanning = False\<rparr>"

definition sta_connect :: "sta_state \<Rightarrow> sta_state" where
  "sta_connect s = s\<lparr>sa_trying := True\<rparr>"

definition sta_reconnect_timer_cb :: "sta_state \<Rightarrow> sta_state" where
  "sta_reconnect_timer_cb s =
     (let s = sta_connect (s\<lparr>sa_timer := None\<rparr>); d = sa_delay s * 2 in
      if sa_delay s < STA_RECONNECT_MAX_MS then s\<lparr>sa_delay := if d > STA_RECONNECT_MAX_MS then STA_RECONNECT_MAX_MS else d\<rparr> else s)"

definition sta_schedule_reconnect :: "sta_state \<Rightarrow> sta_state" where
  "sta_schedule_reconnect s = s\<lparr>sa_timer := Some (sa_delay s)\<rparr>"

definition on_sta_start :: "sta_state \<Rightarrow> sta_state" where
  "on_sta_start s = sta_connect s"

definition on_sta_disconnected :: "sta_state \<Rightarrow> sta_state" where
  "on_sta_disconnected s =
     (let s = s\<lparr>sa_connected := False, sa_trying := False\<rparr> in if sa_scan_active s then s else sta_schedule_reconnect s)"

definition on_scan_done :: "sta_state \<Rightarrow> sta_state" where
  "on_scan_done s = (if sa_scan_active s then s\<lparr>sa_scan_active := False\<rparr> else s)"

definition on_sta_got_ip :: "sta_state \<Rightarrow> sta_state" where
  "on_sta_got_ip s = s\<lparr>sa_delay := STA_RECONNECT_INITIAL_MS, sa_timer := None, sa_connected := True, sa_trying := False\<rparr>"

text \<open>The command \<open>scan\<close> up to its wait for the results, and from there on.\<close>

definition scan_cmd_begin :: "sta_state \<Rightarrow> sta_state" where
  "scan_cmd_begin s = (if \<not> sa_connected s then s\<lparr>sa_scan_active := True, sa_scanning := True\<rparr> else s\<lparr>sa_scanning := True\<rparr>)"

definition scan_cmd_end :: "sta_state \<Rightarrow> sta_state" where
  "scan_cmd_end s =
     (let s = s\<lparr>sa_scan_active := False, sa_scanning := False\<rparr> in if \<not> sa_connected s then s\<lparr>sa_trying := True\<rparr> else s)"

text \<open>The page \<open>/scan\<close>, which starts a scan in the background, and every other page.\<close>

definition scan_page :: "sta_state \<Rightarrow> sta_state" where
  "scan_page s = (if \<not> sa_connected s then s\<lparr>sa_scan_active := True\<rparr> else s)"

definition resume_sta_if_scan_idle :: "sta_state \<Rightarrow> sta_state" where
  "resume_sta_if_scan_idle s =
     (if sa_scan_active s then
        let s = s\<lparr>sa_scan_active := False\<rparr> in if \<not> sa_connected s then s\<lparr>sa_trying := True\<rparr> else s
      else s)"

text \<open>The steps without the page: what the driver reports, the timer, and the command.\<close>

inductive sta_step :: "sta_state \<Rightarrow> sta_state \<Rightarrow> bool" where
  "sta_step s (on_sta_disconnected s)"
| "sta_step s (on_scan_done s)"
| "sta_step s (on_sta_got_ip s)"
| "sa_timer s \<noteq> None \<Longrightarrow> sta_step s (sta_reconnect_timer_cb s)"
| "\<not> sa_scanning s \<Longrightarrow> sta_step s (scan_cmd_begin s)"
| "sa_scanning s \<Longrightarrow> sta_step s (scan_cmd_end s)"

inductive sta_reachable :: "sta_state \<Rightarrow> bool" where
  "sta_reachable (on_sta_start sta_boot)"
| "sta_reachable s \<Longrightarrow> sta_step s t \<Longrightarrow> sta_reachable t"

text \<open>The delay is one of 250, 500, 1000, ... up to 16000 milliseconds, and the client is never idle.\<close>

definition sta_inv :: "sta_state \<Rightarrow> bool" where
  "sta_inv s \<longleftrightarrow> (\<exists>k. sa_delay s = min STA_RECONNECT_MAX_MS (STA_RECONNECT_INITIAL_MS * 2 ^ k)) \<and>
     (\<forall>d. sa_timer s = Some d \<longrightarrow> d \<le> STA_RECONNECT_MAX_MS) \<and>
     (sa_scan_active s \<longrightarrow> sa_scanning s) \<and> (sa_connected s \<or> sa_trying s \<or> sa_timer s \<noteq> None \<or> sa_scanning s)"

lemma delay_doubles:
  assumes "sa_delay s = min STA_RECONNECT_MAX_MS (STA_RECONNECT_INITIAL_MS * 2 ^ k)"
  shows "sa_delay (sta_reconnect_timer_cb s) = min STA_RECONNECT_MAX_MS (STA_RECONNECT_INITIAL_MS * 2 ^ Suc k)"
  using assms by (auto simp: sta_reconnect_timer_cb_def sta_connect_def Let_def min_def)

lemma timer_cb_fields [simp]:
  "sa_timer (sta_reconnect_timer_cb s) = None" "sa_trying (sta_reconnect_timer_cb s)"
  "sa_scan_active (sta_reconnect_timer_cb s) = sa_scan_active s" "sa_scanning (sta_reconnect_timer_cb s) = sa_scanning s"
  by (simp_all add: sta_reconnect_timer_cb_def sta_connect_def Let_def)

lemma sta_step_inv:
  assumes "sta_inv s" "sta_step s t"
  shows "sta_inv t"
  using assms(2)
proof cases
  case 4
  obtain k where "sa_delay s = min STA_RECONNECT_MAX_MS (STA_RECONNECT_INITIAL_MS * 2 ^ k)" using assms(1) by (auto simp: sta_inv_def)
  from delay_doubles [OF this] 4(1) assms(1) show ?thesis unfolding sta_inv_def by (intro conjI exI [of _ "Suc k"]) auto
next
  case 1
  then show ?thesis using assms(1) by (auto simp: sta_inv_def on_sta_disconnected_def sta_schedule_reconnect_def Let_def)
next
  case 3
  have "sa_delay t = min STA_RECONNECT_MAX_MS (STA_RECONNECT_INITIAL_MS * 2 ^ 0)"
    using 3 by (simp add: on_sta_got_ip_def STA_RECONNECT_MAX_MS_def STA_RECONNECT_INITIAL_MS_def)
  then show ?thesis using 3 assms(1) unfolding sta_inv_def by (intro conjI exI [of _ 0]) (auto simp: on_sta_got_ip_def)
qed (use assms(1) in \<open>auto simp: sta_inv_def on_scan_done_def scan_cmd_begin_def scan_cmd_end_def Let_def\<close>)

lemma sta_reachable_inv: "sta_reachable s \<Longrightarrow> sta_inv s"
proof (induction rule: sta_reachable.induct)
  case 1
  show ?case unfolding sta_inv_def
    by (intro conjI exI [of _ 0]) (simp_all add: on_sta_start_def sta_connect_def sta_boot_def STA_RECONNECT_MAX_MS_def STA_RECONNECT_INITIAL_MS_def)
qed (rule sta_step_inv)

text \<open>
  Without the scan page the client never gives up: in every reachable state it is connected, trying, waits
  at most 16 seconds, or the command \<open>scan\<close> runs, which ends with an attempt; and the \<open>n\<close>-th failure in a
  row is followed by a wait of 250 milliseconds doubled \<open>n\<close> times, at most 16 seconds.
\<close>

fun failures :: "nat \<Rightarrow> sta_state \<Rightarrow> sta_state" where
  "failures 0 s = s"
| "failures (Suc n) s = sta_reconnect_timer_cb (on_sta_disconnected (failures n s))"

lemma failures_delay:
  assumes "sa_delay s = STA_RECONNECT_INITIAL_MS"
  shows "sa_delay (failures n s) = min STA_RECONNECT_MAX_MS (STA_RECONNECT_INITIAL_MS * 2 ^ n)"
proof (induction n)
  case 0
  then show ?case using assms by (simp add: STA_RECONNECT_MAX_MS_def STA_RECONNECT_INITIAL_MS_def)
next
  case (Suc n)
  have "sa_delay (on_sta_disconnected (failures n s)) = sa_delay (failures n s)"
    by (simp add: on_sta_disconnected_def sta_schedule_reconnect_def Let_def)
  with Suc show ?case unfolding failures.simps by (intro delay_doubles) simp
qed

text \<open>
  C39: without the scan page the client never gives up: in every reachable state it is connected, trying,
  waits at most 16 seconds, or the command \<open>scan\<close> runs, which ends connected or with an attempt; and
  after a connection the \<open>n\<close>-th failure in a row is followed by a wait of 250 milliseconds doubled \<open>n\<close>
  times, at most 16 seconds.
\<close>

theorem station_keeps_trying:
  assumes "sta_reachable s"
  shows "(sa_connected s \<or> sa_trying s \<or> (\<exists>d \<le> 16000. sa_timer s = Some d) \<or>
      sa_scanning s \<and> (sa_connected (scan_cmd_end s) \<or> sa_trying (scan_cmd_end s))) \<and>
    (let t = on_sta_disconnected (failures n (on_sta_got_ip s)) in
      \<not> sa_scan_active s \<longrightarrow> sa_timer t = Some (min 16000 (250 * 2 ^ n)))"
proof -
  have i: "sta_inv s" by (rule sta_reachable_inv [OF assms])
  have 1: "sa_connected s \<or> sa_trying s \<or> (\<exists>d \<le> 16000. sa_timer s = Some d) \<or>
      sa_scanning s \<and> (sa_connected (scan_cmd_end s) \<or> sa_trying (scan_cmd_end s))"
    using i by (cases "sa_timer s") (auto simp: sta_inv_def scan_cmd_end_def Let_def STA_RECONNECT_MAX_MS_def)
  have d: "sa_delay (failures n (on_sta_got_ip s)) = min 16000 (250 * 2 ^ n)"
    using failures_delay [of "on_sta_got_ip s" n] by (simp add: on_sta_got_ip_def STA_RECONNECT_MAX_MS_def STA_RECONNECT_INITIAL_MS_def)
  have "sa_scan_active (failures n (on_sta_got_ip s)) = sa_scan_active s"
    by (induction n) (simp_all add: on_sta_got_ip_def on_sta_disconnected_def sta_schedule_reconnect_def Let_def)
  with d have "\<not> sa_scan_active s \<longrightarrow> sa_timer (on_sta_disconnected (failures n (on_sta_got_ip s))) = Some (min 16000 (250 * 2 ^ n))"
    by (simp add: on_sta_disconnected_def sta_schedule_reconnect_def Let_def)
  with 1 show ?thesis by (simp only: Let_def)
qed

theorem station_keeps_trying_witness:
  "sa_trying (on_sta_start sta_boot) \<and> sa_timer (on_sta_disconnected (failures 3 (on_sta_got_ip (on_sta_start sta_boot)))) = Some 2000"
  using station_keeps_trying [OF sta_reachable.intros(1), of 3]
  by (simp add: on_sta_start_def sta_connect_def sta_boot_def Let_def)

text \<open>
  With the page: a failure while its scan runs is not followed by a wait, and the end of the scan does
  not start an attempt either; the pages that would resume find nothing to do.  The client stays offline.
\<close>

lemma scan_page_gives_up:
  assumes "\<not> sa_connected s" "sa_timer s = None" "\<not> sa_scanning s"
  shows "let t = on_scan_done (on_sta_disconnected (scan_page s)) in
    \<not> sa_connected t \<and> \<not> sa_trying t \<and> sa_timer t = None \<and> \<not> sa_scanning t \<and> resume_sta_if_scan_idle t = t"
  using assms by (simp add: scan_page_def on_sta_disconnected_def on_scan_done_def resume_sta_if_scan_idle_def Let_def)

section \<open>The preferred band\<close>

datatype sta_band = STA_BAND_AUTO | STA_BAND_2G | STA_BAND_5G

record ap_record =
  ap_bssid :: mac
  ap_primary :: nat
  ap_rssi :: int

definition is_5g :: "ap_record \<Rightarrow> bool" where
  "is_5g ap \<longleftrightarrow> ap_primary ap > 14"

definition matches_pref :: "sta_band \<Rightarrow> ap_record \<Rightarrow> bool" where
  "matches_pref band ap \<longleftrightarrow> (if band = STA_BAND_5G then is_5g ap else \<not> is_5g ap)"

definition better :: "ap_record \<Rightarrow> ap_record option \<Rightarrow> ap_record option" where
  "better ap best = (case best of None \<Rightarrow> Some ap | Some b \<Rightarrow> if ap_rssi ap > ap_rssi b then Some ap else Some b)"

text \<open>The loop: the best so far on the preferred band, and on the other one.\<close>

fun pick_aps :: "sta_band \<Rightarrow> ap_record list \<Rightarrow> ap_record option \<times> ap_record option \<Rightarrow> ap_record option \<times> ap_record option" where
  "pick_aps band [] best = best"
| "pick_aps band (ap # aps) (pref, other) =
     pick_aps band aps (if matches_pref band ap then (better ap pref, other) else (pref, better ap other))"

text \<open>
  What the scan gave: its error, how many access points it found, whether there is memory for them, and
  their records.  The value is the access point the client is pinned to, if any, before it connects.
\<close>

record scan_result =
  sr_ok :: bool
  sr_count :: nat
  sr_alloc :: bool
  sr_records :: "ap_record list"

definition wifi_connect_band_aware :: "sta_band \<Rightarrow> string \<Rightarrow> scan_result \<Rightarrow> ap_record option \<Rightarrow> ap_record option" where
  "wifi_connect_band_aware band ssid scan pinned =
     (if band = STA_BAND_AUTO \<or> ssid = [] then pinned
      else if \<not> sr_ok scan then pinned
      else if sr_count scan = 0 then pinned
      else if \<not> sr_alloc scan then pinned
      else case pick_aps band (sr_records scan) (None, None) of
        (Some ap, other) \<Rightarrow> Some ap
      | (None, Some ap) \<Rightarrow> Some ap
      | (None, None) \<Rightarrow> pinned)"

text \<open>An access point of a list that no other one of the list beats.\<close>

definition strongest :: "ap_record list \<Rightarrow> ap_record option \<Rightarrow> bool" where
  "strongest aps best = (case best of None \<Rightarrow> aps = [] | Some b \<Rightarrow> b \<in> set aps \<and> (\<forall>ap \<in> set aps. ap_rssi ap \<le> ap_rssi b))"

lemma better_strongest: "strongest aps best \<Longrightarrow> strongest (aps @ [ap]) (better ap best)"
  by (auto simp: strongest_def better_def split: option.splits)

lemma pick_strongest:
  assumes "strongest (filter (matches_pref band) seen) pref" "strongest (filter (\<lambda>ap. \<not> matches_pref band ap) seen) other"
  shows "strongest (filter (matches_pref band) (seen @ aps)) (fst (pick_aps band aps (pref, other))) \<and>
    strongest (filter (\<lambda>ap. \<not> matches_pref band ap) (seen @ aps)) (snd (pick_aps band aps (pref, other)))"
  using assms
proof (induction aps arbitrary: seen pref other)
  case (Cons ap aps)
  show ?case
  proof (cases "matches_pref band ap")
    case True
    with Cons.IH [of "seen @ [ap]" "better ap pref" other] Cons.prems better_strongest [OF Cons.prems(1), of ap] show ?thesis by simp
  next
    case False
    with Cons.IH [of "seen @ [ap]" pref "better ap other"] Cons.prems better_strongest [OF Cons.prems(2), of ap] show ?thesis by simp
  qed
qed simp

text \<open>
  The client is pinned to the strongest access point on the preferred band, and without one to the
  strongest on the other band; when the scan gives nothing it stays pinned as before.
\<close>

lemma band_choice:
  assumes "band \<noteq> STA_BAND_AUTO" "ssid \<noteq> []" "sr_ok scan" "sr_count scan \<noteq> 0" "sr_alloc scan"
  shows "let aps = sr_records scan; pref = filter (matches_pref band) aps; chosen = wifi_connect_band_aware band ssid scan pinned in
    if aps = [] then chosen = pinned else chosen \<noteq> None \<and> strongest (if pref \<noteq> [] then pref else aps) chosen"
proof -
  let ?aps = "sr_records scan"
  let ?pref = "filter (matches_pref band) ?aps" and ?other = "filter (\<lambda>ap. \<not> matches_pref band ap) ?aps"
  obtain p q where r: "pick_aps band ?aps (None, None) = (p, q)" by (cases "pick_aps band ?aps (None, None)")
  have s: "strongest ?pref p" "strongest ?other q"
    using pick_strongest [of band "[]" None None ?aps] by (simp_all add: r strongest_def)
  have c: "wifi_connect_band_aware band ssid scan pinned = (case p of Some ap \<Rightarrow> Some ap | None \<Rightarrow> case q of Some ap \<Rightarrow> Some ap | None \<Rightarrow> pinned)"
    using assms by (simp add: wifi_connect_band_aware_def r split: option.split)
  show ?thesis
  proof (cases p)
    case (Some ap)
    then have "?pref \<noteq> []" using s(1) by (auto simp: strongest_def filter_empty_conv)
    moreover from this have "?aps \<noteq> []" by auto
    ultimately show ?thesis using Some c s(1) by (simp add: Let_def)
  next
    case None
    then have n: "?pref = []" using s(1) by (simp add: strongest_def)
    then have "?other = ?aps" by (simp add: filter_empty_conv filter_id_conv)
    with None n s(2) c show ?thesis by (cases q) (auto simp: Let_def strongest_def)
  qed
qed

section \<open>The button\<close>

definition FACTORY_RESET_HOLD_MS :: nat where "FACTORY_RESET_HOLD_MS = 5000"
definition POLL_INTERVAL_MS :: nat where "POLL_INTERVAL_MS = 50"

text \<open>One poll: the time the button is held, and whether the settings are erased and the router restarts.\<close>

definition button_poll :: "bool \<Rightarrow> nat \<Rightarrow> nat \<times> bool" where
  "button_poll pressed held =
     (if pressed then (held + POLL_INTERVAL_MS, held + POLL_INTERVAL_MS \<ge> FACTORY_RESET_HOLD_MS) else (0, False))"

text \<open>The level of the LED at the start of a round, unless the button is held.\<close>

definition led_level :: "nat \<Rightarrow> bool \<Rightarrow> bool \<Rightarrow> bool option" where
  "led_level held ap_connect lowactive = (if held = 0 then Some (ap_connect \<noteq> lowactive) else None)"

fun button_polls :: "bool list \<Rightarrow> nat \<Rightarrow> bool" where
  "button_polls [] held = False"
| "button_polls (p # ps) held = (let (held, reset) = button_poll p held in reset \<or> button_polls ps held)"

lemma button_count:
  assumes "held = POLL_INTERVAL_MS * k" "k < 100"
  shows "button_polls ps held \<longleftrightarrow> (\<exists>i n. (i = 0 \<and> k + n = 100 \<or> n = 100) \<and> i + n \<le> length ps \<and> (\<forall>j < n. ps ! (i + j)))"
  using assms
proof (induction ps arbitrary: held k)
  case Nil
  then show ?case by auto
next
  case (Cons p ps)
  let ?Q = "\<lambda>k ps. \<exists>i n. (i = 0 \<and> k + n = 100 \<or> n = 100) \<and> i + n \<le> length ps \<and> (\<forall>j < n. ps ! (i + j))"
  show ?case
  proof (cases p)
    case False
    have "button_polls (p # ps) held = ?Q 0 ps" using Cons.IH [of 0 0] False by (simp add: button_poll_def)
    also have "\<dots> = ?Q k (p # ps)"
    proof
      assume "?Q 0 ps"
      then obtain i n where "n = 100" "i + n \<le> length ps" "\<forall>j < n. ps ! (i + j)" by auto
      then show "?Q k (p # ps)" by (intro exI [of _ "Suc i"] exI [of _ 100]) auto
    next
      assume "?Q k (p # ps)"
      then obtain i n where q: "i = 0 \<and> k + n = 100 \<or> n = 100" "i + n \<le> length (p # ps)" "\<forall>j < n. (p # ps) ! (i + j)" by blast
      have "0 < n" using q(1) Cons.prems(2) by auto
      with q(3) have "(p # ps) ! i" by (metis add_0_right)
      with False obtain m where m: "i = Suc m" by (cases i) auto
      with q show "?Q 0 ps" by (intro exI [of _ m] exI [of _ 100]) auto
    qed
    finally show ?thesis .
  next
    case True
    show ?thesis
    proof (cases "k = 99")
      case full: True
      have "button_polls (p # ps) held" using Cons.prems True full by (simp add: button_poll_def POLL_INTERVAL_MS_def FACTORY_RESET_HOLD_MS_def)
      moreover have "?Q k (p # ps)" using full True by (intro exI [of _ 0] exI [of _ 1]) simp
      ultimately show ?thesis by blast
    next
      case more: False
      then have k: "Suc k < 100" using Cons.prems(2) by simp
      have h: "held + POLL_INTERVAL_MS = POLL_INTERVAL_MS * Suc k" using Cons.prems(1) by simp
      have "button_polls (p # ps) held = button_polls ps (held + POLL_INTERVAL_MS)"
        using True Cons.prems k by (simp add: button_poll_def POLL_INTERVAL_MS_def FACTORY_RESET_HOLD_MS_def)
      also have "\<dots> = ?Q (Suc k) ps" by (rule Cons.IH [OF h k])
      also have "\<dots> = ?Q k (p # ps)"
      proof
        assume "?Q (Suc k) ps"
        then obtain i n where q: "i = 0 \<and> Suc k + n = 100 \<or> n = 100" "i + n \<le> length ps" "\<forall>j < n. ps ! (i + j)" by blast
        show "?Q k (p # ps)"
        proof (cases "n = 100")
          case True
          with q show ?thesis by (intro exI [of _ "Suc i"] exI [of _ 100]) auto
        next
          case False
          with q have "i = 0" "k + Suc n = 100" by auto
          with q \<open>p\<close> show ?thesis by (intro exI [of _ 0] exI [of _ "Suc n"]) (auto simp: nth_Cons split: nat.split)
        qed
      next
        assume "?Q k (p # ps)"
        then obtain i n where q: "i = 0 \<and> k + n = 100 \<or> n = 100" "i + n \<le> length (p # ps)" "\<forall>j < n. (p # ps) ! (i + j)" by blast
        have sh: "ps ! (i' + j)" if "Suc i' = i" "j < n" for i' j using q(3) that by auto
        show "?Q (Suc k) ps"
        proof (cases i)
          case (Suc m)
          with q sh [of m] show ?thesis by (intro exI [of _ m] exI [of _ 100]) auto
        next
          case 0
          have tl: "ps ! j" if "Suc j < n" for j using q(3) 0 that by (metis add_0 nth_Cons_Suc)
          define m where "m = 99 - k"
          have m: "Suc k + m = 100" "Suc m \<le> n" using q(1) k by (auto simp: m_def)
          then show ?thesis using q(2) 0 tl by (intro exI [of _ 0] exI [of _ m]) auto
        qed
      qed
      finally show ?thesis .
    qed
  qed
qed

text \<open>The settings are erased exactly when the button is pressed at a hundred polls in a row, five seconds.\<close>

lemma factory_reset_iff:
  "button_polls ps 0 \<longleftrightarrow> (\<exists>i. i + 100 \<le> length ps \<and> (\<forall>j < 100. ps ! (i + j)))"
  using button_count [of 0 0 ps] by auto

end
