(* ===== verification/Router_Boot.thy ===== *)
theory Router_Boot
  imports Web_Guard Client_Stats
begin

text \<open>
  What the firmware does when it starts (\<open>main/esp32_nat_router.c\<close>): it reads the settings and tables
  that the commands and pages stored; and the events of the access point that count its clients.
\<close>

section \<open>Settings read at the start\<close>

definition DEFAULT_HOSTNAME :: string where "DEFAULT_HOSTNAME = ''esp32-pppoe-router''"
definition DEFAULT_AP_SSID :: string where "DEFAULT_AP_SSID = ''ESP32_PPPoE_Router''"
definition DEFAULT_AP_IP :: string where "DEFAULT_AP_IP = ''192.168.4.1''"

text \<open>\<open>mem\<close>: whether \<open>malloc\<close> has memory for the text with this name; the defaults always fit.\<close>

definition read_text :: "'n nvs_par \<Rightarrow> (string \<Rightarrow> bool) \<Rightarrow> string \<Rightarrow> 'n \<Rightarrow> string option" where
  "read_text par mem name n = fst (snd (get_config_param_str par (mem name) name None n))"

definition read_int :: "'n nvs_par \<Rightarrow> string \<Rightarrow> 'n \<Rightarrow> int option" where
  "read_int par name n = (let (err, v) = get_config_param_int par name 0 n in if err = ESP_OK then Some v else None)"

definition param_set_default :: "string \<Rightarrow> string option \<Rightarrow> string" where
  "param_set_default def_val param = (case param of None \<Rightarrow> def_val | Some v \<Rightarrow> v)"

definition read_switch :: "'n nvs_par \<Rightarrow> string \<Rightarrow> u8 \<Rightarrow> 'n \<Rightarrow> u8" where
  "read_switch par name def n = (case read_int par name n of None \<Rightarrow> def | Some v \<Rightarrow> if v \<noteq> 0 then 1 else 0)"

text \<open>A number within bounds; one outside them, or none, leaves the initial zero.\<close>

definition read_within :: "'n nvs_par \<Rightarrow> string \<Rightarrow> int \<Rightarrow> int \<Rightarrow> 'n \<Rightarrow> u8" where
  "read_within par name lo hi n =
     (case read_int par name n of None \<Rightarrow> 0 | Some v \<Rightarrow> if lo \<le> v \<and> v \<le> hi then word_of_int v else 0)"

definition read_hostname :: "'n nvs_par \<Rightarrow> (string \<Rightarrow> bool) \<Rightarrow> 'n \<Rightarrow> string" where
  "read_hostname par mem n =
     (case read_text par mem ''hostname'' n of None \<Rightarrow> DEFAULT_HOSTNAME | Some h \<Rightarrow> if h = [] then DEFAULT_HOSTNAME else h)"

definition read_country :: "'n nvs_par \<Rightarrow> (string \<Rightarrow> bool) \<Rightarrow> 'n \<Rightarrow> string" where
  "read_country par mem n =
     (case read_text par mem ''wifi_cc'' n of None \<Rightarrow> ''01'' | Some cc \<Rightarrow> if length cc = 2 then cc else ''01'')"

text \<open>The settings that commands and pages change in memory as well as in the flash.\<close>

record settings =
  st_hidden :: u8
  st_known_only :: u8
  st_authmode :: u8
  st_channel :: u8
  st_nat :: u8
  st_led_low :: u8
  st_ttl :: u8
  st_stats :: bool
  st_dns :: string
  st_hostname :: string
  st_country :: string

definition boot_settings :: "'n nvs_par \<Rightarrow> (string \<Rightarrow> bool) \<Rightarrow> 'n \<Rightarrow> settings" where
  "boot_settings par mem n =
     \<lparr>st_hidden = read_switch par ''ap_hidden'' 0 n, st_known_only = read_switch par ''ap_known_only'' 0 n,
      st_authmode = read_within par ''ap_authmode'' 0 2 n, st_channel = read_within par ''ap_channel'' 1 13 n,
      st_nat = read_switch par ''ap_nat'' 1 n, st_led_low = read_switch par ''led_low'' 0 n,
      st_ttl = read_within par ''sta_ttl'' 0 255 n, st_stats = (read_switch par ''cstats_en'' 0 n \<noteq> 0),
      st_dns = param_set_default [] (read_text par mem ''ap_dns'' n), st_hostname = read_hostname par mem n,
      st_country = read_country par mem n\<rparr>"

text \<open>
  The flash with the lengths of its tables' blobs, and how many ports lwIP forwards; the router as the
  start leaves it.  \<open>created\<close>: whether the firewall's lock could be created.
\<close>

record 'n boot_api =
  bo_flash :: "'n flash_api"
  bo_res_len :: "'n \<Rightarrow> string \<Rightarrow> esp_err \<times> nat"
  bo_pm_len :: "'n \<Rightarrow> string \<Rightarrow> esp_err \<times> nat"
  bo_portmap_max :: nat

definition res_api :: "'n boot_api \<Rightarrow> ('n, dhcp_reservation list) nvs_len_api" where
  "res_api b = nvs_api.extend (fa_res (bo_flash b)) \<lparr>nv_blob_len = bo_res_len b\<rparr>"

definition pm_api :: "'n boot_api \<Rightarrow> ('n, portmap_entry list) nvs_len_api" where
  "pm_api b = nvs_api.extend (fa_pm (bo_flash b)) \<lparr>nv_blob_len = bo_pm_len b\<rparr>"

definition boot_reservations :: "'n boot_api \<Rightarrow> 'n \<Rightarrow> dhcp_reservation list" where
  "boot_reservations b n = snd (get_dhcp_reservations (res_api b) (replicate MAX_DHCP_RESERVATIONS dr_zero) n)"

definition boot_portmaps :: "'n boot_api \<Rightarrow> 'n \<Rightarrow> portmap_entry list" where
  "boot_portmaps b n = snd (get_portmap_tab (pm_api b) (replicate (bo_portmap_max b) pm_zero) n)"

definition boot_router :: "'n boot_api \<Rightarrow> (string \<Rightarrow> bool) \<Rightarrow> bool \<Rightarrow> 'n \<Rightarrow> 'n router option" where
  "boot_router b mem created n =
     (let s = boot_settings (fa_par (bo_flash b)) mem n in do {
        (err, acl) \<leftarrow> load_acl_rules (fa_acl (bo_flash b)) created n acl_boot;
        Some \<lparr>rt_nvs = n, rt_ap_ssid_hidden = st_hidden s, rt_ap_known_only = st_known_only s, rt_ap_authmode = st_authmode s,
          rt_ap_channel = st_channel s, rt_ap_nat_enabled = st_nat s, rt_led_lowactive = st_led_low s, rt_ttl = st_ttl s,
          rt_client_stats = st_stats s, rt_ap_dns = st_dns s, rt_hostname = st_hostname s, rt_country = st_country s,
          rt_res = boot_reservations b n, rt_pm = boot_portmaps b n, rt_napt = [], rt_acl = acl\<rparr> })"

section \<open>Nothing is lost by a restart\<close>

definition settings_of :: "'n router \<Rightarrow> settings" where
  "settings_of r = \<lparr>st_hidden = rt_ap_ssid_hidden r, st_known_only = rt_ap_known_only r, st_authmode = rt_ap_authmode r,
     st_channel = rt_ap_channel r, st_nat = rt_ap_nat_enabled r, st_led_low = rt_led_lowactive r, st_ttl = rt_ttl r,
     st_stats = rt_client_stats r, st_dns = rt_ap_dns r, st_hostname = rt_hostname r, st_country = rt_country r\<rparr>"

text \<open>What the start makes of the settings in use: an empty host name is the default one, channel 14 is none.\<close>

definition at_boot :: "settings \<Rightarrow> settings" where
  "at_boot s = s\<lparr>st_channel := if st_channel s \<le> 13 then st_channel s else 0,
     st_hostname := if st_hostname s = [] then DEFAULT_HOSTNAME else st_hostname s\<rparr>"

text \<open>
  The parts of the flash are apart: writing parameters, reservations, forwarded ports or rules leaves the
  other three as they were (their keys differ).
\<close>

definition par_view :: "'n boot_api \<Rightarrow> 'n \<Rightarrow> (string \<Rightarrow> esp_err \<times> string) \<times> (string \<Rightarrow> esp_err \<times> int)" where
  "par_view b n = (np_get_str (fa_par (bo_flash b)) n, np_get_i32 (fa_par (bo_flash b)) n)"

definition blob_view :: "('n, 'b) nvs_len_api \<Rightarrow> 'n \<Rightarrow> (string \<Rightarrow> 'b \<Rightarrow> esp_err \<times> 'b) \<times> (string \<Rightarrow> esp_err \<times> nat)" where
  "blob_view nv n = (nv_get_blob nv n, nv_blob_len nv n)"

definition blob_keeps :: "('n \<Rightarrow> 'v) \<Rightarrow> ('n, 'b, 'z) nvs_api_scheme \<Rightarrow> bool" where
  "blob_keeps view nv \<longleftrightarrow> (\<forall>n k v. view (snd (nv_set_blob nv n k v)) = view n) \<and> (\<forall>n. view (snd (nv_commit nv n)) = view n)"

definition par_keeps :: "('n \<Rightarrow> 'v) \<Rightarrow> 'n nvs_par \<Rightarrow> bool" where
  "par_keeps view par \<longleftrightarrow> (\<forall>n k v. view (snd (np_set_str par n k v)) = view n) \<and>
     (\<forall>n k v. view (snd (np_set_i32 par n k v)) = view n) \<and> (\<forall>n. view (snd (np_commit par n)) = view n)"

definition stores_apart :: "'n boot_api \<Rightarrow> bool" where
  "stores_apart b \<longleftrightarrow> (let f = bo_flash b; vp = par_view b; vr = blob_view (res_api b); vm = blob_view (pm_api b) in
     blob_keeps vp (fa_res f) \<and> blob_keeps vp (fa_pm f) \<and> blob_keeps vp (fa_acl f) \<and>
     blob_keeps vr (fa_pm f) \<and> blob_keeps vr (fa_acl f) \<and> blob_keeps vm (fa_res f) \<and> blob_keeps vm (fa_acl f) \<and>
     par_keeps vr (fa_par f) \<and> par_keeps vm (fa_par f))"

definition boot_works :: "'n boot_api \<Rightarrow> bool" where
  "boot_works b \<longleftrightarrow> par_full (fa_par (bo_flash b)) \<and> nvs_len_works DHCP_RES_ENTRY_SIZE (res_api b) \<and>
     nvs_len_works PORTMAP_ENTRY_SIZE (pm_api b) \<and> nvs_works (fa_acl (bo_flash b)) \<and> stores_apart b"

text \<open>A restart now would give the router its present settings and tables.\<close>

definition restart_same :: "'n boot_api \<Rightarrow> 'n router \<Rightarrow> bool" where
  "restart_same b r \<longleftrightarrow> acl_inv (rt_acl r) \<and>
     boot_settings (fa_par (bo_flash b)) (\<lambda>_. True) (rt_nvs r) = at_boot (settings_of r) \<and>
     boot_reservations b (rt_nvs r) = rt_res r \<and> length (rt_res r) = MAX_DHCP_RESERVATIONS \<and>
     boot_portmaps b (rt_nvs r) = rt_pm r \<and> length (rt_pm r) = bo_portmap_max b"

end
