(* ===== verification/Router_Boot_Theorems.thy ===== *)
theory Router_Boot_Theorems
  imports Router_Boot
begin

text \<open>A restart gives the router back what it had; the count of the access point's clients.\<close>

section \<open>What a write leaves alone\<close>

lemma len_api_simps [simp]:
  "nv_open (res_api b) = nv_open (fa_res (bo_flash b))" "nv_set_blob (res_api b) = nv_set_blob (fa_res (bo_flash b))"
  "nv_get_blob (res_api b) = nv_get_blob (fa_res (bo_flash b))" "nv_commit (res_api b) = nv_commit (fa_res (bo_flash b))"
  "nv_blob_len (res_api b) = bo_res_len b"
  "nv_open (pm_api b) = nv_open (fa_pm (bo_flash b))" "nv_set_blob (pm_api b) = nv_set_blob (fa_pm (bo_flash b))"
  "nv_get_blob (pm_api b) = nv_get_blob (fa_pm (bo_flash b))" "nv_commit (pm_api b) = nv_commit (fa_pm (bo_flash b))"
  "nv_blob_len (pm_api b) = bo_pm_len b"
  by (simp_all add: res_api_def pm_api_def nvs_api.defs)

lemma set_blob_len_api:
  "set_config_param_blob (fa_res (bo_flash b)) = set_config_param_blob (res_api b)"
  "set_config_param_blob (fa_pm (bo_flash b)) = set_config_param_blob (pm_api b)"
  by (simp_all add: set_config_param_blob_def fun_eq_iff case_prod_unfold Let_def)

lemma blob_keeps_set: "blob_keeps view nv \<Longrightarrow> view (snd (set_config_param_blob nv k v n)) = view n"
  by (simp add: blob_keeps_def set_config_param_blob_def case_prod_unfold Let_def)

lemma par_keeps_set:
  assumes "par_keeps view par"
  shows "view (snd (set_config_param_int par k v n)) = view n" "view (fst (snd (set_config_param_str par k w n))) = view n"
  using assms by (simp_all add: par_keeps_def set_config_param_int_def set_config_param_str_def case_prod_unfold Let_def)

lemma blob_keeps_save:
  assumes "blob_keeps view nv" "save_acl_rules nv n s = Some (err, n', s')"
  shows "view n' = view n"
proof -
  have "view (fold (save_one nv es) is n) = view n" for es "is" n
    using assms(1) by (induction "is" arbitrary: n) (simp_all add: save_one_def blob_keeps_def)
  with assms show ?thesis
    by (auto simp: save_acl_rules_def bind_eq_Some_conv Let_def case_prod_unfold blob_keeps_def split: if_splits)
qed

lemma boot_settings_view:
  assumes "boot_works b" "par_view b n' = par_view b n"
  shows "boot_settings (fa_par (bo_flash b)) mem n' = boot_settings (fa_par (bo_flash b)) mem n"
proof -
  let ?p = "fa_par (bo_flash b)"
  have o: "np_open ?p m = ESP_OK" for m using assms(1) by (simp add: boot_works_def open_ok)
  have "read_text ?p mem k n' = read_text ?p mem k n" "read_int ?p k n' = read_int ?p k n" for k
    using assms(2) by (simp_all add: read_text_def read_int_def get_config_param_str_def get_config_param_int_def o par_view_def)
  then show ?thesis by (simp add: boot_settings_def read_switch_def read_within_def read_hostname_def read_country_def)
qed

lemma boot_table_view:
  assumes "boot_works b"
  shows "blob_view (res_api b) n' = blob_view (res_api b) n \<Longrightarrow> boot_reservations b n' = boot_reservations b n"
    "blob_view (pm_api b) n' = blob_view (pm_api b) n \<Longrightarrow> boot_portmaps b n' = boot_portmaps b n"
proof -
  have "nv_open (fa_res (bo_flash b)) m = ESP_OK" "nv_open (fa_pm (bo_flash b)) m = ESP_OK" for m
    using assms by (simp_all add: boot_works_def nvs_len_works_def nvs_works_def)
  then show "blob_view (res_api b) n' = blob_view (res_api b) n \<Longrightarrow> boot_reservations b n' = boot_reservations b n"
    "blob_view (pm_api b) n' = blob_view (pm_api b) n \<Longrightarrow> boot_portmaps b n' = boot_portmaps b n"
    by (simp_all add: boot_reservations_def boot_portmaps_def get_dhcp_reservations_def get_portmap_tab_def get_table_blob_def
        blob_view_def case_prod_unfold Let_def)
qed

lemma works_apart:
  assumes "boot_works b"
  shows "blob_keeps (par_view b) (fa_res (bo_flash b))" "blob_keeps (par_view b) (fa_pm (bo_flash b))"
    "blob_keeps (par_view b) (fa_acl (bo_flash b))" "blob_keeps (blob_view (res_api b)) (fa_pm (bo_flash b))"
    "blob_keeps (blob_view (res_api b)) (fa_acl (bo_flash b))" "blob_keeps (blob_view (pm_api b)) (fa_res (bo_flash b))"
    "blob_keeps (blob_view (pm_api b)) (fa_acl (bo_flash b))" "par_keeps (blob_view (res_api b)) (fa_par (bo_flash b))"
    "par_keeps (blob_view (pm_api b)) (fa_par (bo_flash b))"
  using assms by (simp_all add: boot_works_def stores_apart_def Let_def)

section \<open>Parameters\<close>

lemma read_after_int:
  assumes "par_full par" "set_config_param_int par k v n = (err, n')"
  shows "err = ESP_OK" "read_int par k' n' = (if k' = k then Some v else read_int par k' n)"
    "k' \<noteq> k \<Longrightarrow> read_text par mem k' n' = read_text par mem k' n"
proof -
  obtain n1 where n1: "set_config_param_int par k v n = (ESP_OK, n1)"
    "\<forall>k'. np_get_i32 par n1 k' = (if k' = k then (ESP_OK, v) else np_get_i32 par n k')"
    "\<forall>k'. k' \<noteq> k \<longrightarrow> np_get_str par n1 k' = np_get_str par n k'"
    using set_int_full [OF assms(1), of k v n] by (elim exE conjE)
  with assms(2) have e: "err = ESP_OK" "n' = n1" by simp_all
  show "err = ESP_OK" by (rule e(1))
  show "read_int par k' n' = (if k' = k then Some v else read_int par k' n)"
    unfolding e(2) by (simp add: read_int_def get_config_param_int_def open_ok [OF assms(1)] n1(2))
  show "read_text par mem k' n' = read_text par mem k' n" if "k' \<noteq> k"
    unfolding e(2) by (simp add: read_text_def get_config_param_str_def open_ok [OF assms(1)] n1(3) that)
qed

lemma read_after_str:
  assumes "par_full par" "set_config_param_str par k v n = (err, n', log)"
  shows "err = ESP_OK" "read_text par (\<lambda>_. True) k' n' = (if k' = k then Some v else read_text par (\<lambda>_. True) k' n)"
    "k' \<noteq> k \<Longrightarrow> read_int par k' n' = read_int par k' n"
  using set_str_full [OF assms]
  by (simp_all add: read_text_def read_int_def get_config_param_str_def get_config_param_int_def open_ok [OF assms(1)])


text \<open>What the start reads after a number or a text was stored.\<close>

lemma number_stored:
  assumes "par_full par"
  shows "read_switch par k' d (snd (set_config_param_int par k v n)) = (if k' = k then if v \<noteq> 0 then 1 else 0 else read_switch par k' d n)"
    "read_within par k' lo hi (snd (set_config_param_int par k v n)) =
       (if k' = k then if lo \<le> v \<and> v \<le> hi then word_of_int v else 0 else read_within par k' lo hi n)"
    "k \<noteq> ''hostname'' \<Longrightarrow> read_hostname par mem (snd (set_config_param_int par k v n)) = read_hostname par mem n"
    "k \<noteq> ''wifi_cc'' \<Longrightarrow> read_country par mem (snd (set_config_param_int par k v n)) = read_country par mem n"
    "k' \<noteq> k \<Longrightarrow> read_text par mem k' (snd (set_config_param_int par k v n)) = read_text par mem k' n"
  using read_after_int [OF assms, of k v n, OF prod.collapse [symmetric]]
  by (simp_all add: read_switch_def read_within_def read_hostname_def read_country_def)

lemma text_stored:
  assumes "par_full par"
  shows "k' \<noteq> k \<Longrightarrow> read_switch par k' d (fst (snd (set_config_param_str par k v n))) = read_switch par k' d n"
    "k' \<noteq> k \<Longrightarrow> read_within par k' lo hi (fst (snd (set_config_param_str par k v n))) = read_within par k' lo hi n"
    "read_hostname par (\<lambda>_. True) (fst (snd (set_config_param_str par k v n))) =
       (if k = ''hostname'' then if v = [] then DEFAULT_HOSTNAME else v else read_hostname par (\<lambda>_. True) n)"
    "read_country par (\<lambda>_. True) (fst (snd (set_config_param_str par k v n))) =
       (if k = ''wifi_cc'' then if length v = 2 then v else ''01'' else read_country par (\<lambda>_. True) n)"
    "read_text par (\<lambda>_. True) k' (fst (snd (set_config_param_str par k v n))) =
       (if k' = k then Some v else read_text par (\<lambda>_. True) k' n)"
proof -
  obtain err n' log where n: "set_config_param_str par k v n = (err, n', log)" by (cases "set_config_param_str par k v n")
  note read_after_str [OF assms n]
  then show "k' \<noteq> k \<Longrightarrow> read_switch par k' d (fst (snd (set_config_param_str par k v n))) = read_switch par k' d n"
    "k' \<noteq> k \<Longrightarrow> read_within par k' lo hi (fst (snd (set_config_param_str par k v n))) = read_within par k' lo hi n"
    "read_hostname par (\<lambda>_. True) (fst (snd (set_config_param_str par k v n))) =
       (if k = ''hostname'' then if v = [] then DEFAULT_HOSTNAME else v else read_hostname par (\<lambda>_. True) n)"
    "read_country par (\<lambda>_. True) (fst (snd (set_config_param_str par k v n))) =
       (if k = ''wifi_cc'' then if length v = 2 then v else ''01'' else read_country par (\<lambda>_. True) n)"
    "read_text par (\<lambda>_. True) k' (fst (snd (set_config_param_str par k v n))) =
       (if k' = k then Some v else read_text par (\<lambda>_. True) k' n)"
    unfolding n by (simp_all add: read_switch_def read_within_def read_hostname_def read_country_def)
qed

text \<open>A parameter was stored, and the setting in memory follows.\<close>

lemma int_stored:
  assumes "boot_works b" "restart_same b r" "set_config_param_int (fa_par (bo_flash b)) k v (rt_nvs r) = (err, n')"
    "rt_nvs r' = n'" "rt_res r' = rt_res r" "rt_pm r' = rt_pm r" "acl_inv (rt_acl r')"
    "boot_settings (fa_par (bo_flash b)) (\<lambda>_. True) n' = at_boot (settings_of r')"
  shows "restart_same b r'"
proof -
  have n: "n' = snd (set_config_param_int (fa_par (bo_flash b)) k v (rt_nvs r))" using assms(3) by simp
  have "boot_reservations b n' = boot_reservations b (rt_nvs r)" "boot_portmaps b n' = boot_portmaps b (rt_nvs r)"
    unfolding n by (intro boot_table_view [OF assms(1)] par_keeps_set works_apart [OF assms(1)])+
  with assms show ?thesis by (simp add: restart_same_def)
qed

lemma str_stored:
  assumes "boot_works b" "restart_same b r" "set_config_param_str (fa_par (bo_flash b)) k v (rt_nvs r) = (err, n', log)"
    "rt_nvs r' = n'" "rt_res r' = rt_res r" "rt_pm r' = rt_pm r" "acl_inv (rt_acl r')"
    "boot_settings (fa_par (bo_flash b)) (\<lambda>_. True) n' = at_boot (settings_of r')"
  shows "restart_same b r'"
proof -
  have n: "n' = fst (snd (set_config_param_str (fa_par (bo_flash b)) k v (rt_nvs r)))" using assms(3) by simp
  have "boot_reservations b n' = boot_reservations b (rt_nvs r)" "boot_portmaps b n' = boot_portmaps b (rt_nvs r)"
    unfolding n by (intro boot_table_view [OF assms(1)] par_keeps_set works_apart [OF assms(1)])+
  with assms show ?thesis by (simp add: restart_same_def)
qed

text \<open>\<open>follows\<close>: a change of the settings that fits storing \<open>v\<close> under \<open>k\<close>.\<close>

definition follows :: "'n nvs_par \<Rightarrow> string \<Rightarrow> int \<Rightarrow> ('n router \<Rightarrow> 'n router) \<Rightarrow> 'n router \<Rightarrow> bool" where
  "follows par k v upd r \<longleftrightarrow> (\<forall>n'. rt_nvs (upd (r\<lparr>rt_nvs := n'\<rparr>)) = n' \<and> rt_res (upd (r\<lparr>rt_nvs := n'\<rparr>)) = rt_res r \<and>
     rt_pm (upd (r\<lparr>rt_nvs := n'\<rparr>)) = rt_pm r \<and> rt_acl (upd (r\<lparr>rt_nvs := n'\<rparr>)) = rt_acl r \<and>
     (boot_settings par (\<lambda>_. True) (rt_nvs r) = at_boot (settings_of r) \<longrightarrow>
      boot_settings par (\<lambda>_. True) (snd (set_config_param_int par k v (rt_nvs r))) = at_boot (settings_of (upd (r\<lparr>rt_nvs := n'\<rparr>)))))"

lemma store_setting_same:
  assumes "boot_works b" "restart_same b r" "follows (fa_par (bo_flash b)) k v upd r"
  shows "restart_same b (snd (store_setting (bo_flash b) k v upd r))"
proof -
  let ?p = "fa_par (bo_flash b)"
  have pf: "par_full ?p" using assms(1) by (simp add: boot_works_def)
  obtain err n' where n: "set_config_param_int ?p k v (rt_nvs r) = (err, n')" by (cases "set_config_param_int ?p k v (rt_nvs r)")
  note rd = read_after_int(1) [OF pf n]
  have n': "set_config_param_int ?p k v (rt_nvs r) = (ESP_OK, n')" using n rd by simp
  have "restart_same b (upd (r\<lparr>rt_nvs := n'\<rparr>))"
    by (rule int_stored [OF assms(1,2) n']) (use assms(2,3) n' in \<open>simp_all add: restart_same_def follows_def\<close>)
  with n' show ?thesis by (simp add: store_setting_def)
qed

lemma word_13: "0 \<le> v \<Longrightarrow> v \<le> 255 \<Longrightarrow> (word_of_int v :: u8) \<le> 13 \<longleftrightarrow> v \<le> 13"
  by (simp add: word_le_nat_alt unat_eq_nat_uint uint_word_of_int nat_le_iff)

text \<open>The settings of the next start after a number was stored.\<close>

lemma boot_number:
  assumes "par_full par"
  shows "boot_settings par mem (snd (set_config_param_int par ''led_gpio'' v n)) = boot_settings par mem n"
    "boot_settings par mem (snd (set_config_param_int par ''spi_clk_mhz'' v n)) = boot_settings par mem n"
    "boot_settings par mem (snd (set_config_param_int par ''web_port'' v n)) = boot_settings par mem n"
    "boot_settings par mem (snd (set_config_param_int par ''wan_access'' v n)) = boot_settings par mem n"
    "boot_settings par mem (snd (set_config_param_int par ''led_low'' v n)) = (boot_settings par mem n)\<lparr>st_led_low := if v \<noteq> 0 then 1 else 0\<rparr>"
    "boot_settings par mem (snd (set_config_param_int par ''ap_hidden'' v n)) = (boot_settings par mem n)\<lparr>st_hidden := if v \<noteq> 0 then 1 else 0\<rparr>"
    "boot_settings par mem (snd (set_config_param_int par ''ap_known_only'' v n)) = (boot_settings par mem n)\<lparr>st_known_only := if v \<noteq> 0 then 1 else 0\<rparr>"
    "boot_settings par mem (snd (set_config_param_int par ''ap_nat'' v n)) = (boot_settings par mem n)\<lparr>st_nat := if v \<noteq> 0 then 1 else 0\<rparr>"
    "boot_settings par mem (snd (set_config_param_int par ''cstats_en'' v n)) = (boot_settings par mem n)\<lparr>st_stats := (v \<noteq> 0)\<rparr>"
    "boot_settings par mem (snd (set_config_param_int par ''sta_ttl'' v n)) =
       (boot_settings par mem n)\<lparr>st_ttl := if 0 \<le> v \<and> v \<le> 255 then word_of_int v else 0\<rparr>"
    "boot_settings par mem (snd (set_config_param_int par ''ap_authmode'' v n)) =
       (boot_settings par mem n)\<lparr>st_authmode := if 0 \<le> v \<and> v \<le> 2 then word_of_int v else 0\<rparr>"
    "boot_settings par mem (snd (set_config_param_int par ''ap_channel'' v n)) =
       (boot_settings par mem n)\<lparr>st_channel := if 1 \<le> v \<and> v \<le> 13 then word_of_int v else 0\<rparr>"
  by (simp_all add: boot_settings_def number_stored [OF assms])

lemma settings_updates [simp]:
  "settings_of (r\<lparr>rt_nvs := n\<rparr>) = settings_of r"
  "settings_of (r\<lparr>rt_led_lowactive := w\<rparr>) = (settings_of r)\<lparr>st_led_low := w\<rparr>"
  "settings_of (r\<lparr>rt_ap_ssid_hidden := w\<rparr>) = (settings_of r)\<lparr>st_hidden := w\<rparr>"
  "settings_of (r\<lparr>rt_ap_known_only := w\<rparr>) = (settings_of r)\<lparr>st_known_only := w\<rparr>"
  "settings_of (r\<lparr>rt_ap_nat_enabled := w\<rparr>) = (settings_of r)\<lparr>st_nat := w\<rparr>"
  "settings_of (r\<lparr>rt_client_stats := s\<rparr>) = (settings_of r)\<lparr>st_stats := s\<rparr>"
  "settings_of (r\<lparr>rt_ttl := w\<rparr>) = (settings_of r)\<lparr>st_ttl := w\<rparr>"
  "settings_of (r\<lparr>rt_ap_authmode := w\<rparr>) = (settings_of r)\<lparr>st_authmode := w\<rparr>"
  "settings_of (r\<lparr>rt_ap_channel := w\<rparr>) = (settings_of r)\<lparr>st_channel := w\<rparr>"
  "settings_of (r\<lparr>rt_ap_dns := t\<rparr>) = (settings_of r)\<lparr>st_dns := t\<rparr>"
  "settings_of (r\<lparr>rt_hostname := t\<rparr>) = (settings_of r)\<lparr>st_hostname := t\<rparr>"
  "settings_of (r\<lparr>rt_country := t\<rparr>) = (settings_of r)\<lparr>st_country := t\<rparr>"
  "settings_of (r\<lparr>rt_acl := a\<rparr>) = settings_of r" "settings_of (r\<lparr>rt_res := tr\<rparr>) = settings_of r"
  "settings_of (r\<lparr>rt_pm := tp\<rparr>) = settings_of r" "settings_of (r\<lparr>rt_napt := c\<rparr>) = settings_of r"
  by (simp_all add: settings_of_def)

lemma at_boot_updates [simp]:
  "at_boot (s\<lparr>st_led_low := w\<rparr>) = (at_boot s)\<lparr>st_led_low := w\<rparr>" "at_boot (s\<lparr>st_hidden := w\<rparr>) = (at_boot s)\<lparr>st_hidden := w\<rparr>"
  "at_boot (s\<lparr>st_known_only := w\<rparr>) = (at_boot s)\<lparr>st_known_only := w\<rparr>" "at_boot (s\<lparr>st_nat := w\<rparr>) = (at_boot s)\<lparr>st_nat := w\<rparr>"
  "at_boot (s\<lparr>st_stats := b\<rparr>) = (at_boot s)\<lparr>st_stats := b\<rparr>" "at_boot (s\<lparr>st_ttl := w\<rparr>) = (at_boot s)\<lparr>st_ttl := w\<rparr>"
  "at_boot (s\<lparr>st_authmode := w\<rparr>) = (at_boot s)\<lparr>st_authmode := w\<rparr>" "at_boot (s\<lparr>st_dns := t\<rparr>) = (at_boot s)\<lparr>st_dns := t\<rparr>"
  "at_boot (s\<lparr>st_country := t\<rparr>) = (at_boot s)\<lparr>st_country := t\<rparr>"
  "at_boot (s\<lparr>st_channel := w\<rparr>) = (at_boot s)\<lparr>st_channel := if w \<le> 13 then w else 0\<rparr>"
  "at_boot (s\<lparr>st_hostname := t\<rparr>) = (at_boot s)\<lparr>st_hostname := if t = [] then DEFAULT_HOSTNAME else t\<rparr>"
  by (simp_all add: at_boot_def)

text \<open>What the commands do to the settings fits what they store.\<close>

lemma fits:
  assumes "par_full par"
  shows "follows par ''led_gpio'' v (\<lambda>r. r) r" "follows par ''spi_clk_mhz'' v (\<lambda>r. r) r"
    "follows par ''led_low'' 1 (\<lambda>r. r\<lparr>rt_led_lowactive := 1\<rparr>) r" "follows par ''led_low'' 0 (\<lambda>r. r\<lparr>rt_led_lowactive := 0\<rparr>) r"
    "follows par ''ap_hidden'' 1 (\<lambda>r. r\<lparr>rt_ap_ssid_hidden := 1\<rparr>) r" "follows par ''ap_hidden'' 0 (\<lambda>r. r\<lparr>rt_ap_ssid_hidden := 0\<rparr>) r"
    "follows par ''ap_known_only'' 1 (\<lambda>r. r\<lparr>rt_ap_known_only := 1\<rparr>) r" "follows par ''ap_known_only'' 0 (\<lambda>r. r\<lparr>rt_ap_known_only := 0\<rparr>) r"
    "0 \<le> v \<Longrightarrow> v \<le> 255 \<Longrightarrow> follows par ''sta_ttl'' v (\<lambda>r. r\<lparr>rt_ttl := word_of_int v\<rparr>) r"
    "0 \<le> v \<Longrightarrow> v \<le> 2 \<Longrightarrow> follows par ''ap_authmode'' v (\<lambda>r. r\<lparr>rt_ap_authmode := word_of_int v\<rparr>) r"
  by (simp_all add: follows_def boot_number [OF assms])

lemma fits_channel:
  assumes "par_full par" "0 \<le> v" "v \<le> 255"
  shows "follows par ''ap_channel'' v (\<lambda>r. r\<lparr>rt_ap_channel := word_of_int v\<rparr>) r"
proof -
  have "(if 1 \<le> v \<and> v \<le> 13 then word_of_int v else 0) = (if (word_of_int v :: u8) \<le> 13 then word_of_int v else 0 :: u8)"
    using word_13 [OF assms(2,3)] assms(2) by (cases "v = 0") auto
  then show ?thesis by (simp add: follows_def boot_number [OF assms(1)])
qed

text \<open>The switches and numbers.\<close>

lemma number_cmds_same:
  assumes w: "boot_works b" "restart_same b r"
  shows "restart_same b (snd (set_led_gpio_cmd (bo_flash b) argv r))" "restart_same b (snd (set_led_lowactive_cmd (bo_flash b) argv r))"
    "restart_same b (snd (set_ttl_cmd (bo_flash b) argv r))" "restart_same b (snd (set_ap_hidden_cmd (bo_flash b) argv r))"
    "restart_same b (snd (set_ap_known_only_cmd (bo_flash b) argv r))" "restart_same b (snd (set_ap_auth_cmd (bo_flash b) argv r))"
    "restart_same b (snd (set_ap_channel_cmd (bo_flash b) argv r))" "restart_same b (snd (set_spi_clock_cmd (bo_flash b) mhz r))"
proof -
  have pf: "par_full (fa_par (bo_flash b))" using w(1) by (simp add: boot_works_def)
  note st = store_setting_same [OF w fits(1) [OF pf]] store_setting_same [OF w fits(2) [OF pf]] store_setting_same [OF w fits(3) [OF pf]]
    store_setting_same [OF w fits(4) [OF pf]] store_setting_same [OF w fits(5) [OF pf]] store_setting_same [OF w fits(6) [OF pf]]
    store_setting_same [OF w fits(7) [OF pf]] store_setting_same [OF w fits(8) [OF pf]] store_setting_same [OF w fits(9) [OF pf]]
    store_setting_same [OF w fits(10) [OF pf]] store_setting_same [OF w fits_channel [OF pf]]
  show "restart_same b (snd (set_led_gpio_cmd (bo_flash b) argv r))"
    unfolding set_led_gpio_cmd_def Let_def by (simp add: w(2) st split: option.split)
  show "restart_same b (snd (set_led_lowactive_cmd (bo_flash b) argv r))"
    unfolding set_led_lowactive_cmd_def by (simp add: w(2) st)
  show "restart_same b (snd (set_ttl_cmd (bo_flash b) argv r))"
    unfolding set_ttl_cmd_def by (auto simp: w(2) st split: option.split)
  show "restart_same b (snd (set_ap_hidden_cmd (bo_flash b) argv r))"
    unfolding set_ap_hidden_cmd_def by (simp add: w(2) st)
  show "restart_same b (snd (set_ap_known_only_cmd (bo_flash b) argv r))"
    unfolding set_ap_known_only_cmd_def by (simp add: w(2) st)
  have "0 \<le> snd m \<and> snd m \<le> 2" if "find P auth_modes = Some m" for P m
    using that by (auto simp: auth_modes_def split: if_splits)
  then show "restart_same b (snd (set_ap_auth_cmd (bo_flash b) argv r))"
    unfolding set_ap_auth_cmd_def by (auto simp: w(2) st split: option.split)
  have "wifi_country_max_channel c \<le> 255" for c by (simp add: wifi_country_max_channel_def)
  then show "restart_same b (snd (set_ap_channel_cmd (bo_flash b) argv r))"
    unfolding set_ap_channel_cmd_def Let_def by (auto simp: w(2) not_less intro!: st intro: order_trans)
  show "restart_same b (snd (set_spi_clock_cmd (bo_flash b) mhz r))"
    unfolding set_spi_clock_cmd_def by (simp add: w(2) st split: option.split)
qed

text \<open>The settings of the next start after a text was stored.\<close>

lemma boot_text:
  assumes "par_full par"
  shows "boot_settings par (\<lambda>_. True) (fst (snd (set_config_param_str par ''ap_ip'' v n))) = boot_settings par (\<lambda>_. True) n"
    "boot_settings par (\<lambda>_. True) (fst (snd (set_config_param_str par ''web_disabled'' v n))) = boot_settings par (\<lambda>_. True) n"
    "boot_settings par (\<lambda>_. True) (fst (snd (set_config_param_str par ''ap_dns'' v n))) = (boot_settings par (\<lambda>_. True) n)\<lparr>st_dns := v\<rparr>"
    "boot_settings par (\<lambda>_. True) (fst (snd (set_config_param_str par ''hostname'' v n))) =
       (boot_settings par (\<lambda>_. True) n)\<lparr>st_hostname := if v = [] then DEFAULT_HOSTNAME else v\<rparr>"
    "boot_settings par (\<lambda>_. True) (fst (snd (set_config_param_str par ''wifi_cc'' v n))) =
       (boot_settings par (\<lambda>_. True) n)\<lparr>st_country := if length v = 2 then v else ''01''\<rparr>"
  by (simp_all add: boot_settings_def text_stored [OF assms] param_set_default_def)

lemma store_ok:
  assumes "par_full par"
  shows "fst (set_config_param_int par k v n) = ESP_OK" "fst (set_config_param_str par k w n) = ESP_OK"
  using read_after_int(1) [OF assms, of k v n, OF prod.collapse [symmetric]]
  by (simp, cases "set_config_param_str par k w n") (simp add: set_str_full(1) [OF assms])

lemma text_cmds_same:
  assumes w: "boot_works b" "restart_same b r"
  shows "restart_same b (snd (set_ap_dns (bo_flash b) t r))" "restart_same b (snd (set_hostname (bo_flash b) t r))"
    "restart_same b (snd (set_wifi_country_cmd (bo_flash b) argv r))"
proof -
  let ?p = "fa_par (bo_flash b)"
  have pf: "par_full ?p" using w(1) by (simp add: boot_works_def)
  note s = w(2) [unfolded restart_same_def]
  obtain err n log where e: "set_config_param_str ?p ''ap_dns'' (preprocess_string (the t)) (rt_nvs r) = (err, n, log)"
    by (cases "set_config_param_str ?p ''ap_dns'' (preprocess_string (the t)) (rt_nvs r)")
  from boot_text(3) [OF pf, of "preprocess_string (the t)" "rt_nvs r"] e s
  have "restart_same b (r\<lparr>rt_nvs := n, rt_ap_dns := preprocess_string (the t)\<rparr>)"
    by (intro str_stored [OF w e]) simp_all
  with e show "restart_same b (snd (set_ap_dns (bo_flash b) t r))"
    using w(2) by (cases t) (simp_all add: set_ap_dns_def Let_def)
  obtain err n log where e: "set_config_param_str ?p ''hostname'' (preprocess_string (the t)) (rt_nvs r) = (err, n, log)"
    by (cases "set_config_param_str ?p ''hostname'' (preprocess_string (the t)) (rt_nvs r)")
  from boot_text(4) [OF pf, of "preprocess_string (the t)" "rt_nvs r"] e s
  have "restart_same b (r\<lparr>rt_nvs := n, rt_hostname := preprocess_string (the t)\<rparr>)"
    by (intro str_stored [OF w e]) simp_all
  with e store_ok(2) [OF pf, of "''hostname''" "preprocess_string (the t)" "rt_nvs r"]
  show "restart_same b (snd (set_hostname (bo_flash b) t r))"
    using w(2) by (cases t) (simp_all add: set_hostname_def Let_def)
  define cc where "cc = map c_toupper (argv ! 1)"
  obtain err n log where e: "set_config_param_str ?p ''wifi_cc'' cc (rt_nvs r) = (err, n, log)"
    by (cases "set_config_param_str ?p ''wifi_cc'' cc (rt_nvs r)")
  from boot_text(5) [OF pf, of cc "rt_nvs r"] e s
  have "length cc = 2 \<Longrightarrow> restart_same b (r\<lparr>rt_nvs := n, rt_country := cc\<rparr>)"
    by (intro str_stored [OF w e]) simp_all
  with e store_ok(2) [OF pf, of "''wifi_cc''" cc "rt_nvs r"]
  show "restart_same b (snd (set_wifi_country_cmd (bo_flash b) argv r))"
    using w(2) by (simp add: set_wifi_country_cmd_def Let_def cc_def [symmetric]) (simp add: cc_def)
qed

text \<open>Two switches that go by their own path.\<close>

lemma switch_cmds_same:
  assumes w: "boot_works b" "restart_same b r"
  shows "restart_same b (snd (set_ap_nat_cmd (bo_flash b) argv r))" "restart_same b (snd (client_stats_cmd (bo_flash b) argv r))"
proof -
  let ?p = "fa_par (bo_flash b)"
  have pf: "par_full ?p" using w(1) by (simp add: boot_works_def)
  note s = w(2) [unfolded restart_same_def]
  have nat: "restart_same b (r\<lparr>rt_nvs := snd (set_config_param_int ?p ''ap_nat'' v (rt_nvs r)), rt_ap_nat_enabled := word_of_int v\<rparr>)"
    if "v \<in> {0, 1}" for v
    by (rule int_stored [OF w prod.collapse [symmetric]]) (use s that in \<open>auto simp: boot_number [OF pf]\<close>)
  show "restart_same b (snd (set_ap_nat_cmd (bo_flash b) argv r))"
    using w(2) nat [of 1] nat [of 0] by (simp add: set_ap_nat_cmd_def Let_def case_prod_unfold)
  have st: "restart_same b (r\<lparr>rt_nvs := snd (set_config_param_int ?p ''cstats_en'' (if on then 1 else 0) (rt_nvs r)), rt_client_stats := on\<rparr>)"
    for on
    by (rule int_stored [OF w prod.collapse [symmetric]]) (use s in \<open>auto simp: boot_number [OF pf]\<close>)
  show "restart_same b (snd (client_stats_cmd (bo_flash b) argv r))"
    using w(2) st [of True] st [of False] by (auto simp: client_stats_cmd_def Let_def case_prod_unfold store_ok [OF pf])
qed

section \<open>Tables\<close>

lemma res_stored:
  assumes w: "boot_works b" "restart_same b r" and t: "length tab = MAX_DHCP_RESERVATIONS"
  shows "restart_same b (r\<lparr>rt_res := tab, rt_nvs := snd (set_config_param_blob (fa_res (bo_flash b)) ''dhcp_res'' tab (rt_nvs r))\<rparr>)"
proof -
  let ?n = "snd (set_config_param_blob (fa_res (bo_flash b)) ''dhcp_res'' tab (rt_nvs r))"
  have "nvs_len_works DHCP_RES_ENTRY_SIZE (res_api b)" using w(1) by (simp add: boot_works_def)
  from set_get_table [OF this, of tab "replicate MAX_DHCP_RESERVATIONS dr_zero"] t
  have "boot_reservations b ?n = tab"
    by (simp add: boot_reservations_def get_dhcp_reservations_def set_blob_len_api)
  moreover have "boot_portmaps b ?n = boot_portmaps b (rt_nvs r)"
    by (intro boot_table_view(2) [OF w(1)] blob_keeps_set works_apart [OF w(1)])
  moreover have "boot_settings (fa_par (bo_flash b)) (\<lambda>_. True) ?n = boot_settings (fa_par (bo_flash b)) (\<lambda>_. True) (rt_nvs r)"
    by (intro boot_settings_view [OF w(1)] blob_keeps_set works_apart [OF w(1)])
  ultimately show ?thesis using w(2) t by (simp add: restart_same_def)
qed

lemma pm_stored:
  assumes w: "boot_works b" "restart_same b r" and t: "length tab = bo_portmap_max b"
  shows "restart_same b (r\<lparr>rt_pm := tab, rt_nvs := snd (set_config_param_blob (fa_pm (bo_flash b)) ''portmap_tab'' tab (rt_nvs r)), rt_napt := calls\<rparr>)"
proof -
  let ?n = "snd (set_config_param_blob (fa_pm (bo_flash b)) ''portmap_tab'' tab (rt_nvs r))"
  have "nvs_len_works PORTMAP_ENTRY_SIZE (pm_api b)" using w(1) by (simp add: boot_works_def)
  from set_get_table [OF this, of tab "replicate (bo_portmap_max b) pm_zero"] t
  have "boot_portmaps b ?n = tab"
    by (simp add: boot_portmaps_def get_portmap_tab_def set_blob_len_api)
  moreover have "boot_reservations b ?n = boot_reservations b (rt_nvs r)"
    by (intro boot_table_view(1) [OF w(1)] blob_keeps_set works_apart [OF w(1)])
  moreover have "boot_settings (fa_par (bo_flash b)) (\<lambda>_. True) ?n = boot_settings (fa_par (bo_flash b)) (\<lambda>_. True) (rt_nvs r)"
    by (intro boot_settings_view [OF w(1)] blob_keeps_set works_apart [OF w(1)])
  ultimately show ?thesis using w(2) t by (simp add: restart_same_def)
qed

lemma napt_same [simp]: "restart_same b (r\<lparr>rt_napt := calls\<rparr>) = restart_same b r"
  by (simp add: restart_same_def)

lemma do_tables_same:
  assumes w: "boot_works b" "restart_same b r"
  shows "restart_same b (snd (do_add_reservation (bo_flash b) m ip nm r))" "restart_same b (snd (do_del_reservation (bo_flash b) m r))"
    "restart_same b (do_add_portmap (bo_flash b) env pr mp da dp r)" "restart_same b (do_del_portmap (bo_flash b) pr mp r)"
    "restart_same b (clear_tables (bo_flash b) r)"
proof -
  have l: "length (rt_res r) = MAX_DHCP_RESERVATIONS" "length (rt_pm r) = bo_portmap_max b" using w(2) by (simp_all add: restart_same_def)
  note rs = res_stored [OF w] and ps = pm_stored [OF w]
  have same: "r\<lparr>rt_res := rt_res r, rt_nvs := rt_nvs r\<rparr> = r" "r\<lparr>rt_pm := rt_pm r, rt_nvs := rt_nvs r, rt_napt := rt_napt r\<rparr> = r" by simp_all
  show "restart_same b (snd (do_add_reservation (bo_flash b) m ip nm r))"
    using w(2) rs l(1) by (auto simp: do_add_reservation_def add_dhcp_reservation_def save_reservations_def case_prod_unfold Let_def split: option.split)
  show "restart_same b (snd (do_del_reservation (bo_flash b) m r))"
    using w(2) rs l(1) by (auto simp: do_del_reservation_def del_dhcp_reservation_def save_reservations_def case_prod_unfold Let_def split: option.split)
  show "restart_same b (do_add_portmap (bo_flash b) env pr mp da dp r)"
    using w(2) ps l(2) by (auto simp: do_add_portmap_def add_portmap_def save_portmap_def case_prod_unfold Let_def split: option.split)
  show "restart_same b (do_del_portmap (bo_flash b) pr mp r)"
    using w(2) ps l(2) by (auto simp: do_del_portmap_def del_portmap_def save_portmap_def case_prod_unfold Let_def split: option.split)
  have "restart_same b (r\<lparr>rt_res := map dr_clear (rt_res r),
      rt_nvs := snd (set_config_param_blob (fa_res (bo_flash b)) ''dhcp_res'' (map dr_clear (rt_res r)) (rt_nvs r))\<rparr>)" (is "restart_same b ?r1")
    by (rule rs) (simp add: l)
  from pm_stored [OF w(1) this, of "map (\<lambda>e. if pm_used e then pm_clear e else e) (rt_pm r)"
      "rt_napt r @ map (\<lambda>e. NaptRemove (pm_proto e) (pm_mport e)) (filter pm_used (rt_pm r))"] l(2)
  have "restart_same b (?r1\<lparr>rt_pm := map (\<lambda>e. if pm_used e then pm_clear e else e) (rt_pm r),
      rt_nvs := snd (set_config_param_blob (fa_pm (bo_flash b)) ''portmap_tab'' (map (\<lambda>e. if pm_used e then pm_clear e else e) (rt_pm r)) (rt_nvs ?r1)),
      rt_napt := rt_napt r @ map (\<lambda>e. NaptRemove (pm_proto e) (pm_mport e)) (filter pm_used (rt_pm r))\<rparr>)" (is "restart_same b ?r2")
    by (simp del: napt_same)
  moreover have "clear_tables (bo_flash b) r = ?r2"
    by (rule router.equality) (simp_all add: clear_tables_def clear_all_dhcp_reservations_def clear_all_portmaps_def
        save_reservations_def save_portmap_def case_prod_unfold Let_def)
  ultimately show "restart_same b (clear_tables (bo_flash b) r)" by (simp only:)
qed

section \<open>Every command\<close>

lemma table_cmds_same:
  assumes w: "boot_works b" "restart_same b r"
  shows "restart_same b (snd (portmap (bo_flash b) env pa r))" "restart_same b (snd (dhcp_reserve (bo_flash b) env ra r))"
    "restart_same b (snd (set_ap_ip (bo_flash b) env ip r))"
proof -
  note t = do_tables_same [OF w]
  show "restart_same b (snd (portmap (bo_flash b) env pa r))"
    using t w(2) by (auto simp: portmap_def Let_def split: option.split)
  show "restart_same b (snd (dhcp_reserve (bo_flash b) env ra r))"
    using t w(2) by (auto simp: dhcp_reserve_def Let_def case_prod_unfold split: option.split)
  have pf: "par_full (fa_par (bo_flash b))" using w(1) by (simp add: boot_works_def)
  obtain err n log where e: "set_config_param_str (fa_par (bo_flash b)) ''ap_ip'' (preprocess_string (the ip)) (rt_nvs r) = (err, n, log)"
    by (cases "set_config_param_str (fa_par (bo_flash b)) ''ap_ip'' (preprocess_string (the ip)) (rt_nvs r)")
  have r1: "restart_same b (r\<lparr>rt_nvs := n\<rparr>)"
    by (rule str_stored [OF w e]) (use w(2) e boot_text(1) [OF pf, of "preprocess_string (the ip)" "rt_nvs r"] in \<open>simp_all add: restart_same_def\<close>)
  from r1 do_tables_same(5) [OF w(1) r1] show "restart_same b (snd (set_ap_ip (bo_flash b) env ip r))"
    using e w(2) by (cases ip) (simp_all add: set_ap_ip_def Let_def case_prod_unfold)
qed

text \<open>The firewall's commands: the rules are stored in a part of the flash of their own.\<close>

definition kept :: "'n boot_api \<Rightarrow> 'n router \<Rightarrow> bool" where
  "kept b r \<longleftrightarrow> acl_inv (rt_acl r) \<and> (boot_works b \<longrightarrow> restart_same b r)"

interpretation restart: rule_keeper "bo_flash b" "kept b" for b
proof
  show "acl_inv (rt_acl r)" if "kept b r" for r using that by (simp add: kept_def)
  show "kept b (r\<lparr>rt_acl := s\<rparr>)" if "kept b r" "acl_inv s" for r s
    using that by (simp add: kept_def restart_same_def)
  show "kept b (r\<lparr>rt_nvs := n, rt_acl := s\<rparr>)"
    if "kept b r" "acl_inv s" "do_save_rules (bo_flash b) s r = Some (r\<lparr>rt_nvs := n, rt_acl := s\<rparr>)" for r s n
  proof -
    from that(3) obtain err n' s' where n: "save_acl_rules (fa_acl (bo_flash b)) (rt_nvs r) s = Some (err, n', s')"
        "r\<lparr>rt_nvs := n', rt_acl := s'\<rparr> = r\<lparr>rt_nvs := n, rt_acl := s\<rparr>"
      by (auto simp: do_save_rules_def bind_eq_Some_conv)
    have nn: "n' = n" using arg_cong [OF n(2), of rt_nvs] by simp
    show ?thesis
    proof (cases "boot_works b")
      case True
      note k = blob_keeps_save [OF _ n(1), unfolded nn]
      have "boot_reservations b n = boot_reservations b (rt_nvs r)" "boot_portmaps b n = boot_portmaps b (rt_nvs r)"
        "boot_settings (fa_par (bo_flash b)) (\<lambda>_. True) n = boot_settings (fa_par (bo_flash b)) (\<lambda>_. True) (rt_nvs r)"
        by (intro boot_table_view [OF True] boot_settings_view [OF True] k works_apart [OF True])+
      with that(1,2) show ?thesis by (simp add: kept_def restart_same_def)
    qed (use that(1,2) in \<open>simp add: kept_def\<close>)
  qed
qed

lemma web_ui_same:
  assumes w: "boot_works b" "restart_same b r" and run: "web_ui_cmd (bo_flash b) argv r = Some (ret, r')"
  shows "restart_same b r'"
proof -
  let ?p = "fa_par (bo_flash b)"
  have pf: "par_full ?p" using w(1) by (simp add: boot_works_def)
  note s = w(2) [unfolded restart_same_def]
  have str: "restart_same b (r\<lparr>rt_nvs := fst (snd (set_config_param_str ?p ''web_disabled'' v (rt_nvs r)))\<rparr>)" for v
  proof -
    obtain err n log where e: "set_config_param_str ?p ''web_disabled'' v (rt_nvs r) = (err, n, log)"
      by (cases "set_config_param_str ?p ''web_disabled'' v (rt_nvs r)")
    from boot_text(2) [OF pf, of v "rt_nvs r"] e s have "restart_same b (r\<lparr>rt_nvs := n\<rparr>)" by (intro str_stored [OF w e]) simp_all
    with e show ?thesis by simp
  qed
  have port: "restart_same b (r\<lparr>rt_nvs := snd (set_config_param_int ?p ''web_port'' v (rt_nvs r))\<rparr>)" for v
    by (rule int_stored [OF w prod.collapse [symmetric]])
      (use s boot_number(3) [OF pf, of "\<lambda>_. True" v "rt_nvs r"] in simp_all)
  have wan: "restart_same b (r\<lparr>rt_nvs := snd (set_config_param_int ?p ''wan_access'' v (rt_nvs r)), rt_acl := a\<rparr>)"
    if "acl_inv a" for v a
    by (rule int_stored [OF w prod.collapse [symmetric]])
      (use s that boot_number(4) [OF pf, of "\<lambda>_. True" v "rt_nvs r"] in simp_all)
  have inv: "acl_inv a" if "update_web_wan_acl on prt (rt_acl r) = Some (c, a)" for on prt c a
    using update_wan_keeps [of "rt_acl r" on prt] s that by auto
  show ?thesis
    using run w(2) str port wan inv
    by (auto simp: web_ui_cmd_def Let_def case_prod_unfold bind_eq_Some_conv store_ok [OF pf] split: if_splits)
qed

lemma run_command_same:
  assumes w: "boot_works b" "restart_same b r" and run: "run_command (bo_flash b) env c r = Some (ret, r')"
  shows "restart_same b r'"
proof (cases c)
  case (CmdWebUi a)
  with run show ?thesis by (auto intro: web_ui_same [OF w])
next
  case (CmdAcl a)
  have "kept b r" using w by (simp add: kept_def restart_same_def)
  from restart.acl_cmd_keeps [OF this, of env a] run CmdAcl show ?thesis using w(1) by (auto simp: kept_def)
qed (use run number_cmds_same [OF w] text_cmds_same [OF w] switch_cmds_same [OF w] table_cmds_same [OF w] in \<open>auto dest!: arg_cong [where f = snd]\<close>)

fun run_commands :: "'n flash_api \<Rightarrow> cmd_env \<Rightarrow> console_cmd list \<Rightarrow> 'n router \<Rightarrow> 'n router option" where
  "run_commands api env [] r = Some r"
| "run_commands api env (c # cs) r = do { (ret, r) \<leftarrow> run_command api env c r; run_commands api env cs r }"

lemma run_commands_same:
  "boot_works b \<Longrightarrow> restart_same b r \<Longrightarrow> run_commands (bo_flash b) env cs r = Some r' \<Longrightarrow> restart_same b r'"
  by (induction cs arbitrary: r) (auto simp: bind_eq_Some_conv intro: run_command_same)

text \<open>What the start gives is what another start would give.\<close>

lemma boot_same:
  assumes "boot_works b" "boot_router b (\<lambda>_. True) True n = Some r" "length (boot_reservations b n) = MAX_DHCP_RESERVATIONS"
    "length (boot_portmaps b n) = bo_portmap_max b" "acl_inv (rt_acl r)"
  shows "restart_same b r"
proof -
  let ?s = "boot_settings (fa_par (bo_flash b)) (\<lambda>_. True) n"
  have r: "rt_nvs r = n" "settings_of r = ?s" "rt_res r = boot_reservations b n" "rt_pm r = boot_portmaps b n"
    using assms(2) by (auto simp: boot_router_def Let_def bind_eq_Some_conv settings_of_def)
  have h: "st_hostname ?s \<noteq> []" by (simp add: boot_settings_def read_hostname_def DEFAULT_HOSTNAME_def split: option.split)
  have c: "st_channel ?s \<le> 13"
    using word_13 by (auto simp: boot_settings_def read_within_def split: option.split)
  have "at_boot ?s = ?s" using h c by (simp add: at_boot_def)
  with r assms show ?thesis by (simp add: restart_same_def)
qed

text \<open>
  C36: A restart loses nothing: after any commands of the console, on a router whose flash works and which
  has the settings and tables its flash gives (as after a start), the next start reads the same settings,
  reservations and forwarded ports again, except that an empty host name becomes the default one and channel
  14 becomes none.
\<close>

theorem restart_loses_nothing:
  assumes "boot_works b" "restart_same b r" "run_commands (bo_flash b) env cs r = Some r'"
    "boot_router b (\<lambda>_. True) created (rt_nvs r') = Some r''"
  shows "settings_of r'' = at_boot (settings_of r') \<and> rt_res r'' = rt_res r' \<and> rt_pm r'' = rt_pm r'"
proof -
  have "restart_same b r'" by (rule run_commands_same [OF assms(1-3)])
  with assms(4) show ?thesis
    by (auto simp: boot_router_def Let_def bind_eq_Some_conv settings_of_def restart_same_def)
qed

text \<open>A flash of that kind, with the lengths of its tables.\<close>

definition full_boot :: "full_flash boot_api" where
  "full_boot = \<lparr>bo_flash = full_api, bo_res_len = (\<lambda>n. nv_blob_len (nvs_len_map DHCP_RES_ENTRY_SIZE) (ff_res n)),
     bo_pm_len = (\<lambda>n. nv_blob_len (nvs_len_map PORTMAP_ENTRY_SIZE) (ff_pm n)), bo_portmap_max = 3\<rparr>"

lemma full_boot_works: "boot_works full_boot"
proof -
  have l: "nvs_len_works DHCP_RES_ENTRY_SIZE (res_api full_boot)" "nvs_len_works PORTMAP_ENTRY_SIZE (pm_api full_boot)"
    by (simp_all add: nvs_len_works_def nvs_works_def full_boot_def full_api_def part_def nvs_map_def nvs_len_map_def nvs_api.defs)
  have a: "stores_apart full_boot"
    by (simp add: stores_apart_def Let_def blob_keeps_def par_keeps_def par_view_def blob_view_def full_boot_def full_api_def
        part_def nvs_map_def)
  show ?thesis using l a full_api_full full_api_works by (simp add: boot_works_def flash_works_def) (simp add: full_boot_def)
qed

lemma fresh_router_same: "restart_same full_boot fresh_router"
proof -
  have p: "read_int (fa_par full_api) k (rt_nvs fresh_router) = None" "read_text (fa_par full_api) m k (rt_nvs fresh_router) = None" for k m
    by (simp_all add: read_int_def read_text_def get_config_param_int_def get_config_param_str_def full_api_def fresh_router_def nvs_par_map_def)
  have "boot_settings (fa_par full_api) (\<lambda>_. True) (rt_nvs fresh_router) = at_boot (settings_of fresh_router)"
    by (simp add: boot_settings_def read_switch_def read_within_def read_hostname_def read_country_def param_set_default_def p)
      (simp add: at_boot_def settings_of_def fresh_router_def)
  moreover have "boot_reservations full_boot (rt_nvs fresh_router) = rt_res fresh_router" "boot_portmaps full_boot (rt_nvs fresh_router) = rt_pm fresh_router"
    by (simp_all add: boot_reservations_def boot_portmaps_def get_dhcp_reservations_def get_portmap_tab_def get_table_blob_def)
      (simp_all add: full_boot_def full_api_def fresh_router_def part_def nvs_map_def nvs_len_map_def nvs_api.defs)
  moreover have "acl_inv (rt_acl fresh_router)" using fresh_router_ok by (simp add: router_ok_def tables_ok_def)
  ultimately show ?thesis by (simp add: restart_same_def) (simp add: full_boot_def fresh_router_def)
qed

theorem restart_loses_nothing_witness:
  "\<exists>r'. run_commands full_api home_env [CmdTtl [''set_ttl'', ''64''], CmdHidden [''set_ap_hidden'', ''on'']] fresh_router = Some r' \<and>
    st_ttl (settings_of r') = 64 \<and>
    (\<forall>r''. boot_router full_boot (\<lambda>_. True) True (rt_nvs r') = Some r'' \<longrightarrow> rt_ttl r'' = 64 \<and> rt_res r'' = rt_res r')"
proof -
  let ?cs = "[CmdTtl [''set_ttl'', ''64''], CmdHidden [''set_ap_hidden'', ''on'']]"
  have e: "fst (set_config_param_int (fa_par full_api) k v n) = ESP_OK" for k v n using store_ok(1) [OF full_api_full] .
  have t: "strtol_whole ''64'' = Some 64" by code_simp
  have on: "parse_bool_true ''on''" by code_simp
  obtain r' where r': "run_commands full_api home_env ?cs fresh_router = Some r'" "settings_of r' = (settings_of fresh_router)\<lparr>st_ttl := 64, st_hidden := 1\<rparr>"
    using t on by (simp add: set_ttl_cmd_def set_ap_hidden_cmd_def store_setting_def e case_prod_unfold)
  have f: "full_api = bo_flash full_boot" by (simp add: full_boot_def)
  show ?thesis
    using restart_loses_nothing [OF full_boot_works fresh_router_same r'(1) [unfolded f], of True] r'
    by (auto simp: settings_of_def at_boot_def)
qed

end
