(* ===== verification/Uplink_Boot.thy ===== *)
theory Uplink_Boot
  imports Router_Boot Uplink
begin

text \<open>
  The settings of the uplink: what the start reads (\<open>main/esp32_nat_router.c\<close>), and that the console and the
  pages change exactly that.
\<close>

section \<open>What the start reads\<close>

definition read_number :: "'n nvs_par \<Rightarrow> string \<Rightarrow> int \<Rightarrow> 'n \<Rightarrow> int" where
  "read_number par name def n = (case read_int par name n of None \<Rightarrow> def | Some v \<Rightarrow> v)"

text \<open>
  All of them: those the events of the uplink use (\<open>up_cfg\<close>), and the password of the session, the shared
  key, netmask, port of the peer, interval of keep-alive packets and kill switch of the tunnel, with the
  subnet the kill switch lets pass.
\<close>

record up_settings = up_cfg +
  us_pppoe_pass :: string
  us_vpn_psk :: string
  us_vpn_netmask :: string
  us_vpn_port :: int
  us_vpn_keepalive :: int
  us_vpn_killswitch :: bool
  us_vpn_subnet :: "u32 \<times> u32"

text \<open>\<open>aton\<close>: lwIP's \<open>ipaddr_aton\<close>.\<close>

definition vpn_subnet_of :: "(string \<Rightarrow> u32 option) \<Rightarrow> string \<Rightarrow> string \<Rightarrow> u32 \<times> u32" where
  "vpn_subnet_of aton address netmask =
     (if address = [] then (0, 0)
      else case (aton address, aton (if netmask \<noteq> [] then netmask else ''255.255.255.0'')) of
        (Some a, Some m) \<Rightarrow> (a AND m, m)
      | _ \<Rightarrow> (0, 0))"

definition load_uplink :: "(string \<Rightarrow> u32 option) \<Rightarrow> 'n nvs_par \<Rightarrow> (string \<Rightarrow> bool) \<Rightarrow> 'n \<Rightarrow> up_settings" where
  "load_uplink aton par mem n =
     (let txt = (\<lambda>name. param_set_default [] (read_text par mem name n));
          address = txt ''vpn_ip''; netmask = param_set_default ''255.255.255.0'' (read_text par mem ''vpn_mask'' n)
      in
      \<lparr>up_cfg.pppoe_enabled = (read_number par ''pppoe_en'' 0 n \<noteq> 0),
       pppoe_babyjumbo = (read_number par ''pppoe_bj'' 1 n \<noteq> 0),
       pppoe_vlan = read_number par ''pppoe_vlan'' 0 n,
       pppoe_user = txt ''pppoe_user'', pppoe_service = txt ''pppoe_svc'',
       pppoe_auth = read_number par ''pppoe_auth'' 0 n,
       up_vpn_enabled = (read_number par ''vpn_enabled'' 0 n \<noteq> 0),
       up_route_all = (read_number par ''vpn_rall'' 1 n \<noteq> 0),
       vpn_private_key = txt ''vpn_privkey'', vpn_public_key = txt ''vpn_pubkey'',
       vpn_endpoint = txt ''vpn_endpoint'', vpn_address = address, vpn_dns = txt ''vpn_dns'', ap_dns = txt ''ap_dns'',
       us_pppoe_pass = txt ''pppoe_pass'', us_vpn_psk = txt ''vpn_psk'', us_vpn_netmask = netmask,
       us_vpn_port = read_number par ''vpn_port'' 51820 n, us_vpn_keepalive = read_number par ''vpn_ka'' 0 n,
       us_vpn_killswitch = (read_number par ''vpn_ks'' 1 n \<noteq> 0), us_vpn_subnet = vpn_subnet_of aton address netmask\<rparr>)"

section \<open>Parameters put one after the other\<close>

fun put_int_of :: "string \<Rightarrow> param_set list \<Rightarrow> int option \<Rightarrow> int option" where
  "put_int_of k [] d = d"
| "put_int_of k (SetInt k' v # ps) d = put_int_of k ps (if k' = k then Some v else d)"
| "put_int_of k (SetStr k' v # ps) d = put_int_of k ps d"

fun put_text_of :: "string \<Rightarrow> param_set list \<Rightarrow> string option \<Rightarrow> string option" where
  "put_text_of k [] d = d"
| "put_text_of k (SetStr k' v # ps) d = put_text_of k ps (if k' = k then Some v else d)"
| "put_text_of k (SetInt k' v # ps) d = put_text_of k ps d"

fun text_key :: "string \<Rightarrow> param_set \<Rightarrow> bool" where
  "text_key k (SetStr k' v) = (k' = k)" | "text_key k (SetInt k' v) = False"

fun int_key :: "string \<Rightarrow> param_set \<Rightarrow> bool" where
  "int_key k (SetStr k' v) = False" | "int_key k (SetInt k' v) = (k' = k)"

lemma put_int_append [simp]: "put_int_of k (xs @ ys) d = put_int_of k ys (put_int_of k xs d)"
  by (induction k xs d rule: put_int_of.induct) simp_all

lemma put_text_append [simp]: "put_text_of k (xs @ ys) d = put_text_of k ys (put_text_of k xs d)"
  by (induction k xs d rule: put_text_of.induct) simp_all

definition given :: "'a option \<Rightarrow> 'a option \<Rightarrow> 'a option" where
  "given g old = (case g of None \<Rightarrow> old | Some v \<Rightarrow> Some v)"

lemma put_of_opt [simp]:
  "put_int_of k (opt_int k' v) d = (if k' = k then given v d else d)" "put_int_of k (opt_str k' t) d = d"
  "put_text_of k (opt_str k' t) e = (if k' = k then given t e else e)" "put_text_of k (opt_int k' v) e = e"
  by (auto simp: opt_int_def opt_str_def given_def split: option.splits)

lemma key_of_opt [simp]:
  "list_ex (text_key k) (opt_int k' v) = False" "list_ex (int_key k) (opt_str k' t) = False"
  "list_ex (text_key k) (opt_str k' t) = (k' = k \<and> t \<noteq> None)" "list_ex (int_key k) (opt_int k' v) = (k' = k \<and> v \<noteq> None)"
  by (auto simp: opt_int_def opt_str_def split: option.splits)

text \<open>What is read after parameters were put: the last one put under the name, else what was there.\<close>

lemma put_reads:
  assumes "par_full par"
  shows "\<not> list_ex (text_key k) ps \<Longrightarrow> read_int par k (put_params par ps n) = put_int_of k ps (read_int par k n)"
    "\<not> list_ex (int_key k) ps \<Longrightarrow> read_text par (\<lambda>_. True) k (put_params par ps n) = put_text_of k ps (read_text par (\<lambda>_. True) k n)"
proof -
  have f: "read_int par k (snd (np_commit par n)) = read_int par k n"
    "read_text par (\<lambda>_. True) k (snd (np_commit par n)) = read_text par (\<lambda>_. True) k n" for n
    using assms by (simp_all add: par_full_def par_works_def read_int_def read_text_def get_config_param_int_def get_config_param_str_def)
  have i: "read_int par k (put_param par p n) = put_int_of k [p] (read_int par k n)" if "\<not> text_key k p" for p n
    using assms that
    by (cases p) (simp_all add: par_full_def par_works_def read_int_def get_config_param_int_def)
  have t: "read_text par (\<lambda>_. True) k (put_param par p n) = put_text_of k [p] (read_text par (\<lambda>_. True) k n)" if "\<not> int_key k p" for p n
    using assms that
    by (cases p) (simp_all add: par_full_def par_works_def read_text_def get_config_param_str_def)
  have ci: "put_int_of k (p # ps) d = put_int_of k ps (put_int_of k [p] d)" for p ps d by (cases p) simp_all
  have ct: "put_text_of k (p # ps) d = put_text_of k ps (put_text_of k [p] d)" for p ps d by (cases p) simp_all
  show "\<not> list_ex (text_key k) ps \<Longrightarrow> read_int par k (put_params par ps n) = put_int_of k ps (read_int par k n)"
    unfolding put_params_def f
  proof (induction ps arbitrary: n)
    case (Cons p ps)
    then show ?case by (simp add: ci [of p ps] i del: put_int_of.simps)
  qed simp
  show "\<not> list_ex (int_key k) ps \<Longrightarrow> read_text par (\<lambda>_. True) k (put_params par ps n) = put_text_of k ps (read_text par (\<lambda>_. True) k n)"
    unfolding put_params_def f
  proof (induction ps arbitrary: n)
    case (Cons p ps)
    then show ?case by (simp add: ct [of p ps] t del: put_text_of.simps)
  qed simp
qed

section \<open>The console and the pages\<close>

text \<open>The values of a form as arguments of the command; a secret left empty is not given.\<close>

definition form_arg :: "http_req \<Rightarrow> string \<Rightarrow> string \<Rightarrow> string option" where
  "form_arg req q key = map_option preprocess_string (rq_value req q key 128)"

definition secret_arg :: "http_req \<Rightarrow> string \<Rightarrow> string \<Rightarrow> string option" where
  "secret_arg req q key = (case rq_value req q key 128 of Some v \<Rightarrow> if v = [] then None else Some (preprocess_string v) | None \<Rightarrow> None)"

definition number_arg :: "http_req \<Rightarrow> string \<Rightarrow> string \<Rightarrow> int option" where
  "number_arg req q key = map_option atoi (rq_value req q key 128)"

definition pppoe_form_args :: "http_req \<Rightarrow> string \<Rightarrow> pppoe_args" where
  "pppoe_form_args req q = \<lparr>pa_user = form_arg req q ''pppoe_user'', pa_pass = secret_arg req q ''pppoe_pass'',
     pa_service = form_arg req q ''pppoe_svc'', pa_auth = number_arg req q ''pppoe_auth'', pa_enable = number_arg req q ''pppoe_en'',
     pa_vlan = number_arg req q ''pppoe_vlan'', pa_babyjumbo = number_arg req q ''pppoe_bj''\<rparr>"

definition vpn_form_args :: "http_req \<Rightarrow> string \<Rightarrow> vpn_args" where
  "vpn_form_args req q = \<lparr>va_privkey = secret_arg req q ''vpn_privkey'', va_pubkey = form_arg req q ''vpn_pubkey'',
     va_endpoint = form_arg req q ''vpn_endpoint'', va_address = form_arg req q ''vpn_ip'', va_psk = secret_arg req q ''vpn_psk'',
     va_mask = form_arg req q ''vpn_mask'', va_dns = form_arg req q ''vpn_dns'', va_port = number_arg req q ''vpn_port'',
     va_keepalive = number_arg req q ''vpn_ka'', va_enable = number_arg req q ''vpn_enabled'',
     va_killswitch = number_arg req q ''vpn_ks'', va_route_all = number_arg req q ''vpn_rall''\<rparr>"

text \<open>The settings of the uplink with the given ones replaced.\<close>

definition new :: "'a option \<Rightarrow> 'a \<Rightarrow> 'a" where
  "new g old = (case g of None \<Rightarrow> old | Some v \<Rightarrow> v)"

definition with_pppoe :: "pppoe_args \<Rightarrow> up_settings \<Rightarrow> up_settings" where
  "with_pppoe a cfg = cfg\<lparr>up_cfg.pppoe_enabled := new (map_option (\<lambda>v. v \<noteq> 0) (pa_enable a)) (up_cfg.pppoe_enabled cfg),
     pppoe_babyjumbo := new (map_option (\<lambda>v. v \<noteq> 0) (pa_babyjumbo a)) (pppoe_babyjumbo cfg),
     pppoe_vlan := new (pa_vlan a) (pppoe_vlan cfg), pppoe_user := new (pa_user a) (pppoe_user cfg),
     pppoe_service := new (pa_service a) (pppoe_service cfg), pppoe_auth := new (pa_auth a) (pppoe_auth cfg),
     us_pppoe_pass := new (pa_pass a) (us_pppoe_pass cfg)\<rparr>"

definition with_vpn :: "(string \<Rightarrow> u32 option) \<Rightarrow> vpn_args \<Rightarrow> up_settings \<Rightarrow> up_settings" where
  "with_vpn aton a cfg = cfg\<lparr>up_vpn_enabled := new (map_option (\<lambda>v. v \<noteq> 0) (va_enable a)) (up_vpn_enabled cfg),
     up_route_all := new (map_option (\<lambda>v. v \<noteq> 0) (va_route_all a)) (up_route_all cfg),
     vpn_private_key := new (va_privkey a) (vpn_private_key cfg), vpn_public_key := new (va_pubkey a) (vpn_public_key cfg),
     vpn_endpoint := new (va_endpoint a) (vpn_endpoint cfg), vpn_address := new (va_address a) (vpn_address cfg),
     vpn_dns := new (va_dns a) (vpn_dns cfg), us_vpn_psk := new (va_psk a) (us_vpn_psk cfg),
     us_vpn_netmask := new (va_mask a) (us_vpn_netmask cfg), us_vpn_port := new (va_port a) (us_vpn_port cfg),
     us_vpn_keepalive := new (va_keepalive a) (us_vpn_keepalive cfg),
     us_vpn_killswitch := new (map_option (\<lambda>v. v \<noteq> 0) (va_killswitch a)) (us_vpn_killswitch cfg),
     us_vpn_subnet := vpn_subnet_of aton (new (va_address a) (vpn_address cfg)) (new (va_mask a) (us_vpn_netmask cfg))\<rparr>"

lemma form_params:
  "form_int req q 128 key = opt_int key (number_arg req q key)" "form_str req q 128 key = opt_str key (form_arg req q key)"
  "form_secret req q 128 key = opt_str key (secret_arg req q key)"
  "(case rq_value req q ''pppoe_bj'' 128 of Some v \<Rightarrow> [SetInt ''pppoe_bj'' (if atoi v \<noteq> 0 then 1 else 0)] | None \<Rightarrow> []) =
     opt_int ''pppoe_bj'' (map_option (\<lambda>v. if v \<noteq> 0 then 1 else 0) (number_arg req q ''pppoe_bj''))"
  by (simp_all add: form_int_def form_str_def form_secret_def opt_int_def opt_str_def number_arg_def form_arg_def secret_arg_def split: option.split)

lemma new_param: "param_set_default d (given g x) = new g (param_set_default d x)"
  by (cases g) (simp_all add: param_set_default_def new_def given_def)

lemma new_number:
  "(case given g x of None \<Rightarrow> d | Some v \<Rightarrow> v) = new g (case x of None \<Rightarrow> d | Some v \<Rightarrow> v)" for d :: int
  by (cases g) (simp_all add: new_def given_def)

lemma new_flag: "(new g (x :: int) \<noteq> 0) = new (map_option (\<lambda>v. v \<noteq> 0) g) (x \<noteq> 0)"
  by (cases g) (simp_all add: new_def)

lemma new_bool: "new (map_option (\<lambda>v. v \<noteq> 0) (map_option (\<lambda>v. if v \<noteq> 0 then 1 else 0 :: int) g)) b = new (map_option (\<lambda>v. v \<noteq> (0 :: int)) g) b"
  by (cases g) (simp_all add: new_def)

definition pppoe_params :: "pppoe_args \<Rightarrow> param_set list" where
  "pppoe_params a = opt_str ''pppoe_user'' (pa_user a) @ opt_str ''pppoe_pass'' (pa_pass a) @
     opt_str ''pppoe_svc'' (pa_service a) @ opt_int ''pppoe_auth'' (pa_auth a) @ opt_int ''pppoe_en'' (pa_enable a) @
     opt_int ''pppoe_vlan'' (pa_vlan a) @ opt_int ''pppoe_bj'' (map_option (\<lambda>v. if v \<noteq> 0 then 1 else 0) (pa_babyjumbo a))"

lemma load_after_pppoe:
  assumes "par_full par"
  shows "load_uplink aton par (\<lambda>_. True) (put_params par (pppoe_params a) n) = with_pppoe a (load_uplink aton par (\<lambda>_. True) n)"
  by (simp add: load_uplink_def read_number_def put_reads [OF assms] pppoe_params_def with_pppoe_def new_param new_number new_flag new_bool Let_def)

definition vpn_params :: "vpn_args \<Rightarrow> param_set list" where
  "vpn_params a = opt_str ''vpn_privkey'' (va_privkey a) @ opt_str ''vpn_pubkey'' (va_pubkey a) @
     opt_str ''vpn_endpoint'' (va_endpoint a) @ opt_str ''vpn_ip'' (va_address a) @ opt_str ''vpn_psk'' (va_psk a) @
     opt_str ''vpn_mask'' (va_mask a) @ opt_str ''vpn_dns'' (va_dns a) @ opt_int ''vpn_port'' (va_port a) @
     opt_int ''vpn_ka'' (va_keepalive a) @ opt_int ''vpn_enabled'' (va_enable a) @ opt_int ''vpn_ks'' (va_killswitch a) @
     opt_int ''vpn_rall'' (va_route_all a)"

lemma load_after_vpn:
  assumes "par_full par"
  shows "load_uplink aton par (\<lambda>_. True) (put_params par (vpn_params a) n) = with_vpn aton a (load_uplink aton par (\<lambda>_. True) n)"
  by (simp add: load_uplink_def read_number_def put_reads [OF assms] vpn_params_def with_vpn_def new_param new_number new_flag Let_def)

text \<open>The pages put the same parameters, in another order.\<close>

lemma load_after_forms:
  assumes "par_full par"
  shows "load_uplink aton par (\<lambda>_. True) (put_params par (pppoe_sets req q) n) = with_pppoe (pppoe_form_args req q) (load_uplink aton par (\<lambda>_. True) n)"
    "load_uplink aton par (\<lambda>_. True) (put_params par (vpn_sets req q) n) = with_vpn aton (vpn_form_args req q) (load_uplink aton par (\<lambda>_. True) n)"
  by (simp_all only: load_uplink_def read_number_def pppoe_sets_def vpn_sets_def form_params)
    (simp_all add: put_reads [OF assms] with_pppoe_def with_vpn_def pppoe_form_args_def vpn_form_args_def new_param new_number new_flag new_bool Let_def)

text \<open>
  C37: What is entered is what the uplink uses: after the command \<open>set_pppoe\<close> or \<open>set_vpn\<close>, and just so after the
  form of the page \<open>/pppoe\<close> or \<open>/vpn\<close>, the next start has every setting that was given, decoded - user, password,
  service, authentication, VLAN and frame size of the session; keys, shared key, peer and port, address and
  netmask, name server, keep-alive, kill switch with its subnet and routing of the tunnel - and every
  other one as before; a secret left empty in a form keeps its value.
\<close>

theorem uplink_settings_used:
  assumes "par_full par"
  shows "load_uplink aton par (\<lambda>_. True) (snd (set_pppoe_cmd par (Some a) n)) = with_pppoe a (load_uplink aton par (\<lambda>_. True) n) \<and>
    load_uplink aton par (\<lambda>_. True) (snd (set_vpn_cmd par (Some v) n)) = with_vpn aton v (load_uplink aton par (\<lambda>_. True) n) \<and>
    (settings_form par henv req ''pppoe_en'' (pppoe_sets req) n = (True, n1) \<longrightarrow> (\<exists>q. rq_query req = Some q \<and>
       load_uplink aton par (\<lambda>_. True) n1 = with_pppoe (pppoe_form_args req q) (load_uplink aton par (\<lambda>_. True) n))) \<and>
    (settings_form par henv req ''vpn_enabled'' (vpn_sets req) n = (True, n2) \<longrightarrow> (\<exists>q. rq_query req = Some q \<and>
       load_uplink aton par (\<lambda>_. True) n2 = with_vpn aton (vpn_form_args req q) (load_uplink aton par (\<lambda>_. True) n)))"
  using load_after_pppoe [OF assms] load_after_vpn [OF assms] load_after_forms [OF assms] open_ok [OF assms]
  by (auto simp: set_pppoe_cmd_def set_vpn_cmd_def settings_form_def pppoe_params_def vpn_params_def split: option.splits if_splits)

theorem uplink_settings_used_witness:
  "let n = snd (set_pppoe_cmd nvs_par_map (Some \<lparr>pa_user = Some ''u'', pa_pass = Some ''p'', pa_service = None, pa_auth = None,
      pa_enable = Some 1, pa_vlan = Some 7, pa_babyjumbo = Some 0\<rparr>) (Map.empty, Map.empty));
      m = snd (set_vpn_cmd nvs_par_map (Some \<lparr>va_privkey = Some ''k'', va_pubkey = None, va_endpoint = None, va_address = Some ''10.0.0.2'',
        va_psk = Some ''s'', va_mask = None, va_dns = None, va_port = None, va_keepalive = Some 25, va_enable = None,
        va_killswitch = Some 0, va_route_all = None\<rparr>) n);
      cfg = load_uplink aton_quad nvs_par_map (\<lambda>_. True) n; vpn = load_uplink aton_quad nvs_par_map (\<lambda>_. True) m in
    up_cfg.pppoe_enabled cfg \<and> pppoe_vlan cfg = 7 \<and> us_pppoe_pass cfg = ''p'' \<and> up_mss_clamp (up_boot (up_cfg.truncate cfg)) = 1452 \<and>
    \<not> us_vpn_killswitch vpn \<and> us_vpn_keepalive vpn = 25 \<and> us_vpn_port vpn = 51820 \<and> us_vpn_psk vpn = ''s'' \<and> us_pppoe_pass vpn = ''p'' \<and>
    us_vpn_subnet vpn = (0x0000000A, 0x00FFFFFF)"
proof -
  have w: "par_full nvs_par_map" by (simp add: par_full_def nvs_par_map_works) (simp add: nvs_par_map_def)
  define cfg where "cfg = load_uplink aton_quad nvs_par_map (\<lambda>_. True) (Map.empty, Map.empty)"
  have c: "up_vpn_enabled cfg = False" "us_vpn_netmask cfg = ''255.255.255.0''" "us_vpn_port cfg = 51820"
    by (simp_all add: cfg_def load_uplink_def read_number_def read_int_def read_text_def get_config_param_int_def get_config_param_str_def
        nvs_par_map_def param_set_default_def Let_def)
  have net: "vpn_subnet_of aton_quad ''10.0.0.2'' ''255.255.255.0'' = (0x0000000A, 0x00FFFFFF)" by code_simp
  show ?thesis
    unfolding Let_def uplink_settings_used [OF w, THEN conjunct2, THEN conjunct1] uplink_settings_used [OF w, THEN conjunct1] cfg_def [symmetric]
    using c net by (simp add: with_pppoe_def with_vpn_def new_def up_boot_def base_clamp_def up_cfg.truncate_def)
qed

end
