(* ===== verification/Ap_Clients.thy ===== *)
theory Ap_Clients
  imports Client_Stats Portmap Netif_Hooks
begin

text \<open>
  The access point (\<open>main/esp32_nat_router.c\<close>): its configuration at the start, turning it on and off,
  and the events of its clients with the number of them that is shown.
\<close>

section \<open>Its configuration\<close>

datatype wifi_auth_mode = WIFI_AUTH_OPEN | WIFI_AUTH_WPA2_PSK | WIFI_AUTH_WPA3_PSK | WIFI_AUTH_WPA2_WPA3_PSK

definition get_ap_authmode :: "u8 \<Rightarrow> wifi_auth_mode" where
  "get_ap_authmode ap_authmode =
     (if ap_authmode = 1 then WIFI_AUTH_WPA2_PSK else if ap_authmode = 2 then WIFI_AUTH_WPA3_PSK else WIFI_AUTH_WPA2_WPA3_PSK)"

record ap_config =
  apc_ssid :: string
  apc_password :: string
  apc_channel :: u8
  apc_authmode :: wifi_auth_mode
  apc_hidden :: u8
  apc_max_connection :: nat

text \<open>The part of \<open>eth_init\<close> that fills it: the fields of the driver have 32 and 64 bytes.\<close>

definition eth_ap_config :: "u8 \<Rightarrow> u8 \<Rightarrow> u8 \<Rightarrow> string \<Rightarrow> string \<Rightarrow> ap_config" where
  "eth_ap_config ap_channel ap_authmode ap_ssid_hidden ap_ssid ap_passwd =
     (let c = \<lparr>apc_ssid = strncpy_trunc 32 ap_ssid, apc_password = [], apc_channel = ap_channel,
            apc_authmode = get_ap_authmode ap_authmode, apc_hidden = ap_ssid_hidden, apc_max_connection = AP_MAX_CONNECTIONS\<rparr>
      in if length ap_passwd < 8 then c\<lparr>apc_authmode := WIFI_AUTH_OPEN\<rparr> else c\<lparr>apc_password := strncpy_trunc 64 ap_passwd\<rparr>)"

text \<open>The build without Ethernet (\<open>wifi_init\<close>): the driver is not given it while the access point is off.\<close>

definition wifi_ap_config :: "bool \<Rightarrow> u8 \<Rightarrow> u8 \<Rightarrow> string \<Rightarrow> string \<Rightarrow> ap_config option" where
  "wifi_ap_config ap_disabled ap_authmode ap_ssid_hidden ap_ssid ap_passwd =
     (if ap_disabled then None else Some (eth_ap_config 0 ap_authmode ap_ssid_hidden ap_ssid ap_passwd))"

text \<open>The address of the Ethernet port; \<open>aton\<close> is \<open>esp_ip4addr_aton\<close>.\<close>

datatype eth_address = EthDhcp | EthFixed u32 u32 u32

definition eth_address_of :: "(string \<Rightarrow> u32) \<Rightarrow> bool \<Rightarrow> string \<Rightarrow> string \<Rightarrow> string \<Rightarrow> eth_address" where
  "eth_address_of aton pppoe static_ip subnet_mask gateway_addr =
     (if pppoe then EthFixed (aton ''169.254.0.1'') (aton ''255.255.255.255'') 0
      else if static_ip \<noteq> [] \<and> subnet_mask \<noteq> [] \<and> gateway_addr \<noteq> []
      then EthFixed (aton static_ip) (aton subnet_mask) (aton gateway_addr) else EthDhcp)"

text \<open>
  The network is open exactly when the password has less than eight characters, whatever mode is
  chosen; a name of 32 characters, which \<open>set_ap\<close> takes, loses its last one.
\<close>

lemma ap_open_iff: "apc_authmode (eth_ap_config ch auth hid ssid pw) = WIFI_AUTH_OPEN \<longleftrightarrow> length pw < 8"
  by (simp add: eth_ap_config_def get_ap_authmode_def Let_def)

lemma ssid_cut:
  assumes "length ssid = 32"
  shows "apc_ssid (eth_ap_config ch auth hid ssid pw) = butlast ssid"
  using assms by (simp add: eth_ap_config_def strncpy_trunc_def Let_def butlast_conv_take)

section \<open>Clients\<close>

record ap_state =
  ap_count :: u16
  ap_stats :: "client_stats_entry list"
  ap_off :: bool

text \<open>A client came: whether it is sent away again, and the new state.\<close>

definition on_ap_staconnected :: "u8 \<Rightarrow> dhcp_reservation list \<Rightarrow> mac \<Rightarrow> ap_state \<Rightarrow> bool \<times> ap_state" where
  "on_ap_staconnected ap_known_only res mac s =
     (if is_mac_blocked ap_known_only mac res then (True, s)
      else (False, s\<lparr>ap_count := ap_count s + 1, ap_stats := client_stats_on_connect mac (ap_stats s)\<rparr>))"

definition on_ap_stadisconnected :: "mac \<Rightarrow> ap_state \<Rightarrow> ap_state" where
  "on_ap_stadisconnected mac s =
     (let (was, tab) = client_stats_on_disconnect mac (ap_stats s); s = s\<lparr>ap_stats := tab\<rparr> in
      if was \<and> ap_count s > 0 then s\<lparr>ap_count := ap_count s - 1\<rparr> else s)"

text \<open>
  \<open>ap_set_enabled\<close> in the build with Ethernet: the address whose packets are translated, if that is turned
  on, the calls into the NAT engine, and what is stored under \<open>ap_disabled\<close>.
\<close>

definition ap_set_enabled :: "u8 \<Rightarrow> u32 \<Rightarrow> uplink \<Rightarrow> portmap_entry list \<Rightarrow> bool \<Rightarrow> ap_state
    \<Rightarrow> u32 option \<times> napt_call list \<times> nat \<times> ap_state" where
  "ap_set_enabled nat_on ap_addr u tab enabled s =
     (let (napt, calls) = (if enabled \<and> nat_on \<noteq> 0 then (Some ap_addr, snd (delete_portmap_tab tab) @ snd (apply_portmap_tab u tab))
                           else (None, []));
          s = (if enabled then s else s\<lparr>ap_count := 0\<rparr>)
      in (napt, calls, if enabled then 0 else 1, s\<lparr>ap_off := \<not> enabled\<rparr>))"

definition ap_cmd :: "u8 \<Rightarrow> u32 \<Rightarrow> uplink \<Rightarrow> portmap_entry list \<Rightarrow> string list \<Rightarrow> ap_state
    \<Rightarrow> nat \<times> (u32 option \<times> napt_call list \<times> nat) option \<times> ap_state" where
  "ap_cmd nat_on ap_addr u tab argv s =
     (if length argv < 2 then (0, None, s)
      else if argv ! 1 = ''enable'' then
        (if \<not> ap_off s then (0, None, s)
         else let (napt, calls, v, s) = ap_set_enabled nat_on ap_addr u tab True s in (0, Some (napt, calls, v), s))
      else if argv ! 1 = ''disable'' then
        (if ap_off s then (0, None, s)
         else let (napt, calls, v, s) = ap_set_enabled nat_on ap_addr u tab False s in (0, Some (napt, calls, v), s))
      else (1, None, s))"

section \<open>The number shown is the number of clients\<close>

text \<open>
  The driver: it has at most \<open>AP_MAX_CONNECTIONS\<close> stations, \<open>A\<close>, announces a new one once, and its end once;
  \<open>C\<close> are those that were not sent away.  The reservations, and with them who is blocked, may change between
  any two events; packets of the clients are counted meanwhile.

  The access point may be turned on and off, by the command or by a message: with clients only if the driver
  announces the end of every station it drops (\<open>ap_drops\<close>), without them in any case (\<open>ap_turned_off\<close>).  Pages and
  commands that show the number first set it to the length of the driver's list (\<open>ap_resync\<close>): this is allowed
  when the query fails, or when no station that is being sent away is on the list.  What happens otherwise is
  in \<open>count_stays_high\<close> and \<open>resync_counts_blocked\<close> below.
\<close>

definition ap_resynced :: "esp_err \<times> nat \<Rightarrow> ap_state \<Rightarrow> ap_state" where
  "ap_resynced stations s = s\<lparr>ap_count := of_nat (resync_connect_count stations (unat (ap_count s)))\<rparr>"

definition ap_switched :: "u8 \<Rightarrow> u32 \<Rightarrow> uplink \<Rightarrow> portmap_entry list \<Rightarrow> bool \<Rightarrow> ap_state \<Rightarrow> ap_state" where
  "ap_switched nat_on ap_addr u tab enabled s = snd (snd (snd (ap_set_enabled nat_on ap_addr u tab enabled s)))"

inductive ap_reachable :: "mac set \<Rightarrow> mac set \<Rightarrow> ap_state \<Rightarrow> bool" where
  ap_start: "ap_reachable {} {} \<lparr>ap_count = 0, ap_stats = replicate CLIENT_STATS_MAX cs_zero, ap_off = False\<rparr>"
| ap_joins: "ap_reachable A C s \<Longrightarrow> m \<notin> A \<Longrightarrow> card A < AP_MAX_CONNECTIONS \<Longrightarrow> on_ap_staconnected known res m s = (sent_away, t) \<Longrightarrow>
    ap_reachable (insert m A) (if sent_away then C else insert m C) t"
| ap_leaves: "ap_reachable A C s \<Longrightarrow> m \<in> A \<Longrightarrow> ap_reachable (A - {m}) (C - {m}) (on_ap_stadisconnected m s)"
| ap_received: "ap_reachable A C s \<Longrightarrow> ap_reachable A C (s\<lparr>ap_stats := count_received m len (ap_stats s)\<rparr>)"
| ap_sent: "ap_reachable A C s \<Longrightarrow> ap_reachable A C (s\<lparr>ap_stats := count_sent m len (ap_stats s)\<rparr>)"
| ap_turned_on: "ap_reachable A C s \<Longrightarrow> ap_reachable A C (ap_switched nat_on ip u tab True s)"
| ap_turned_off: "ap_reachable A {} s \<Longrightarrow> B \<subseteq> A \<Longrightarrow> ap_reachable B {} (ap_switched nat_on ip u tab False s)"
| ap_drops: "ap_reachable A C s \<Longrightarrow> set ms = A \<Longrightarrow>
    ap_reachable {} {} (fold on_ap_stadisconnected ms (ap_switched nat_on ip u tab False s))"
| ap_resync: "ap_reachable A C s \<Longrightarrow> fst stations \<noteq> ESP_OK \<or> A = C \<and> snd stations = card A \<Longrightarrow>
    ap_reachable A C (ap_resynced stations s)"

text \<open>The clients marked as connected in the table.\<close>

definition marked :: "client_stats_entry list \<Rightarrow> mac set" where
  "marked tab = {m. \<exists>e. stats_of tab m = Some e \<and> cs_connected e \<noteq> 0}"

definition ap_inv :: "mac set \<Rightarrow> mac set \<Rightarrow> ap_state \<Rightarrow> bool" where
  "ap_inv A C s \<longleftrightarrow> finite A \<and> C \<subseteq> A \<and> card A \<le> AP_MAX_CONNECTIONS \<and> tab_distinct cs_used cs_mac (ap_stats s) \<and>
     length (ap_stats s) = CLIENT_STATS_MAX \<and> marked (ap_stats s) = C \<and> ap_count s = of_nat (card C)"

lemma marked_entry:
  assumes "tab_distinct cs_used cs_mac tab" "e \<in> set tab" "cs_used e" "cs_connected e \<noteq> 0"
  shows "cs_mac e \<in> marked tab"
  using cst.lookup_distinct [OF assms(1,2,3)] assms(4) by (auto simp: marked_def)

lemma full_table:
  assumes "tab_distinct cs_used cs_mac tab" "\<forall>e \<in> set tab. cs_used e \<and> cs_connected e \<noteq> 0" "finite (marked tab)"
  shows "length tab \<le> card (marked tab)"
proof -
  have "inj_on (\<lambda>i. cs_mac (tab ! i)) {..<length tab}"
    using cst.distinct_unique [OF assms(1)] assms(2) by (auto simp: inj_on_def)
  then have "card ((\<lambda>i. cs_mac (tab ! i)) ` {..<length tab}) = length tab" by (simp add: card_image)
  moreover have "(\<lambda>i. cs_mac (tab ! i)) ` {..<length tab} \<subseteq> marked tab"
    using marked_entry [OF assms(1)] assms(2) by auto
  ultimately show ?thesis using card_mono [OF assms(3)] by metis
qed

lemma connect_marks:
  assumes "tab_distinct cs_used cs_mac tab" "finite (marked tab)" "card (marked tab) < length tab"
    "t = client_stats_on_connect m tab"
  shows "tab_distinct cs_used cs_mac t \<and> length t = length tab \<and> marked t = insert m (marked tab)"
proof (cases "find_client_stats m tab")
  case (Some i)
  have e: "cs_used ((tab ! i)\<lparr>cs_connected := 1\<rparr>)" "cs_mac ((tab ! i)\<lparr>cs_connected := 1\<rparr>) = m"
    using find_stats_Some [OF Some] by (simp_all add: cs_used_def)
  from stats_of_update [OF assms(1) Some e] Some assms(4) show ?thesis
    by (auto simp: on_connect_conv marked_def split: if_splits)
next
  case None
  then have new: "stats_of tab m = None" by (simp add: find_stats_conv)
  have "chosen_slot tab \<noteq> None" using full_table [OF assms(1) _ assms(2)] assms(3) chosen_slot_None [of tab] by auto
  then obtain i where i: "chosen_slot tab = Some i" by auto
  note c = chosen_slot_Some [OF i]
  have t: "t = tab[i := fresh_stats m]" using None i assms(4) by (simp add: on_connect_conv)
  have f: "cs_used (fresh_stats m)" "cs_mac (fresh_stats m) = m" "cs_connected (fresh_stats m) \<noteq> 0"
    by (simp_all add: fresh_stats_def cs_used_def)
  note r = stats_of_replace [OF assms(1) new conjunct1 [OF c] f(1,2)]
  have gone: "cs_connected e = 0" if "cs_used (tab ! i)" "stats_of tab (cs_mac (tab ! i)) = Some e" for e
    using cst.lookup_distinct [OF assms(1), of "tab ! i"] c that by simp
  show ?thesis
  proof (cases "cs_used (tab ! i)")
    case True
    with r t f(3) gone show ?thesis by (auto simp: marked_def split: if_splits)
  next
    case False
    with r t f(3) show ?thesis by (auto simp: marked_def split: if_splits)
  qed
qed

lemma disconnect_marks:
  assumes "tab_distinct cs_used cs_mac tab" "client_stats_on_disconnect m tab = (was, t)"
  shows "tab_distinct cs_used cs_mac t \<and> length t = length tab \<and> marked t = marked tab - {m} \<and> was = (m \<in> marked tab)"
proof (cases "find_client_stats m tab")
  case None
  with assms show ?thesis by (auto simp: client_stats_on_disconnect_def marked_def find_stats_conv)
next
  case (Some i)
  have e: "cs_used ((tab ! i)\<lparr>cs_connected := 0\<rparr>)" "cs_mac ((tab ! i)\<lparr>cs_connected := 0\<rparr>) = m"
    using find_stats_Some [OF Some] by (simp_all add: cs_used_def)
  from stats_of_update [OF assms(1) Some e] find_stats_Some [OF Some] Some assms show ?thesis
    by (auto simp: client_stats_on_disconnect_def marked_def split: if_splits)
qed

text \<open>Counting a packet changes neither who has a slot nor who is connected.\<close>

lemma count_marks:
  assumes "tab_distinct cs_used cs_mac tab" "t = count_received m len tab \<or> t = count_sent m len tab"
  shows "tab_distinct cs_used cs_mac t \<and> length t = length tab \<and> marked t = marked tab"
proof (cases "find_client_stats m tab")
  case None
  with assms show ?thesis by (auto simp: count_received_def count_sent_def)
next
  case (Some i)
  note f = find_stats_Some [OF Some]
  have u: "tab_distinct cs_used cs_mac (tab[i := e]) \<and> marked (tab[i := e]) = marked tab"
    if "cs_used e" "cs_mac e = m" "cs_connected e = cs_connected (tab ! i)" for e
    using stats_of_update [OF assms(1) Some that(1,2)] that(3) f by (auto simp: marked_def split: if_splits)
  show ?thesis using assms(2) Some f u by (auto simp: count_received_def count_sent_def cs_used_def)
qed

text \<open>Turning it off, and the ends that are announced after it: the number stays zero, the marks go.\<close>

lemma switched:
  "ap_stats (ap_switched nat_on ip u tab e s) = ap_stats s"
  "ap_count (ap_switched nat_on ip u tab e s) = (if e then ap_count s else 0)"
  by (simp_all add: ap_switched_def ap_set_enabled_def Let_def)

lemma ends_after_off:
  assumes "tab_distinct cs_used cs_mac (ap_stats s)" "ap_count s = 0"
  shows "tab_distinct cs_used cs_mac (ap_stats (fold on_ap_stadisconnected ms s)) \<and> ap_count (fold on_ap_stadisconnected ms s) = 0 \<and>
    length (ap_stats (fold on_ap_stadisconnected ms s)) = length (ap_stats s) \<and>
    marked (ap_stats (fold on_ap_stadisconnected ms s)) = marked (ap_stats s) - set ms"
  using assms
proof (induction ms arbitrary: s)
  case (Cons m ms)
  obtain was t where w: "client_stats_on_disconnect m (ap_stats s) = (was, t)" by (cases "client_stats_on_disconnect m (ap_stats s)")
  have "on_ap_stadisconnected m s = s\<lparr>ap_stats := t\<rparr>" using w Cons(3) by (simp add: on_ap_stadisconnected_def)
  with Cons(1) [of "s\<lparr>ap_stats := t\<rparr>"] Cons(3) disconnect_marks [OF Cons(2) w] show ?case by auto
qed simp

lemma ap_reachable_inv: "ap_reachable A C s \<Longrightarrow> ap_inv A C s"
proof (induction rule: ap_reachable.induct)
  case ap_start
  have "\<not> cs_used cs_zero" by (simp add: cs_used_def cs_zero_def)
  then have "stats_of (replicate k cs_zero) = Map.empty" "tab_distinct cs_used cs_mac (replicate k cs_zero)" for k
    by (simp_all add: tab_lookup_def tab_distinct_def find_first_None fun_eq_iff)
  then show ?case by (simp add: ap_inv_def marked_def)
next
  case (ap_joins A C s m known res sent_away t)
  then have i: "ap_inv A C s" by simp
  have fin: "finite C" using i finite_subset by (auto simp: ap_inv_def)
  show ?case
  proof (cases sent_away)
    case True
    with ap_joins i show ?thesis by (auto simp: ap_inv_def on_ap_staconnected_def card_insert_if split: if_splits)
  next
    case False
    with ap_joins have t: "t = s\<lparr>ap_count := ap_count s + 1, ap_stats := client_stats_on_connect m (ap_stats s)\<rparr>"
      by (auto simp: on_ap_staconnected_def split: if_splits)
    have "card C \<le> card A" using i by (auto simp: ap_inv_def intro: card_mono)
    with ap_joins(3) i fin have "card (marked (ap_stats s)) < length (ap_stats s)" "finite (marked (ap_stats s))"
      by (simp_all add: ap_inv_def CLIENT_STATS_MAX_def)
    from connect_marks [OF _ this(2,1) refl, of m] i ap_joins(2,3) fin False show ?thesis
      unfolding ap_inv_def t by (auto simp: card_insert_if)
  qed
next
  case (ap_leaves A C s m)
  then have i: "ap_inv A C s" by simp
  have fin: "finite C" using i finite_subset by (auto simp: ap_inv_def)
  obtain was tab where w: "client_stats_on_disconnect m (ap_stats s) = (was, tab)" by (cases "client_stats_on_disconnect m (ap_stats s)")
  from disconnect_marks [OF _ w] i have d: "tab_distinct cs_used cs_mac tab" "length tab = CLIENT_STATS_MAX" "marked tab = C - {m}" "was = (m \<in> C)"
    by (auto simp: ap_inv_def)
  have le: "card C \<le> 8" using i card_mono [of A C] by (auto simp: ap_inv_def AP_MAX_CONNECTIONS_def)
  have c: "ap_count (on_ap_stadisconnected m s) = of_nat (card (C - {m}))"
  proof (cases "m \<in> C")
    case False
    with i w d show ?thesis by (simp add: on_ap_stadisconnected_def ap_inv_def)
  next
    case True
    then obtain k where k: "card C = Suc k" using fin by (cases "card C") auto
    have "(of_nat (Suc k) :: u16) > 0" using k le by (simp add: word_less_nat_alt unat_word_ariths unat_of_nat)
    with True i w d k fin show ?thesis by (simp add: on_ap_stadisconnected_def ap_inv_def)
  qed
  have "ap_stats (on_ap_stadisconnected m s) = tab" using w by (simp add: on_ap_stadisconnected_def Let_def)
  moreover have "card (A - {m}) \<le> AP_MAX_CONNECTIONS" using i card_Diff1_le [of A m] by (auto simp: ap_inv_def intro: order_trans)
  ultimately show ?case using i d c by (auto simp: ap_inv_def)
next
  case (ap_received A C s m len)
  then show ?case using count_marks [of "ap_stats s" _ m len] by (auto simp: ap_inv_def)
next
  case (ap_sent A C s m len)
  then show ?case using count_marks [of "ap_stats s" _ m len] by (auto simp: ap_inv_def)
next
  case (ap_turned_on A C s)
  then show ?case by (simp add: ap_inv_def switched)
next
  case (ap_turned_off A s B)
  then show ?case using card_mono [of A B] finite_subset [of B A] by (auto simp: ap_inv_def switched)
next
  case (ap_drops A C s ms nat_on ip u tab)
  then show ?case using ends_after_off [of "ap_switched nat_on ip u tab False s" ms] by (auto simp: ap_inv_def switched)
next
  case (ap_resync A C s stations)
  then show ?case by (auto simp: ap_inv_def ap_resynced_def resync_connect_count_def)
qed

text \<open>
  C38: The number of clients that is shown is right: whatever clients come, go and send, and whoever is
  blocked or unblocked meanwhile, it is the number of stations that came and were not sent away, these are
  the ones with an active slot in the traffic table, and none of them is missing there.  This holds across
  turning the access point on and off and across setting the number from the driver's list, provided that the
  driver announces the ends of the stations it drops when the access point is turned off with clients, and
  that the list has no station which is just being sent away.
\<close>

theorem client_count_right:
  assumes "ap_reachable A C s"
  shows "unat (ap_count s) = card C \<and> C \<subseteq> A \<and> {m. \<exists>e. stats_of (ap_stats s) m = Some e \<and> cs_connected e \<noteq> 0} = C"
proof -
  have i: "ap_inv A C s" by (rule ap_reachable_inv [OF assms])
  then have "card C \<le> 8" using card_mono [of A C] by (auto simp: ap_inv_def AP_MAX_CONNECTIONS_def)
  then have "unat (of_nat (card C) :: u16) = card C" by (simp add: unat_of_nat)
  with i show ?thesis by (simp add: ap_inv_def marked_def)
qed

text \<open>
  A client comes, the number is set from the driver's list, the access point is turned off with the client, whose
  end is announced, and on again.
\<close>

definition ap_fresh :: ap_state where
  "ap_fresh = \<lparr>ap_count = 0, ap_stats = replicate CLIENT_STATS_MAX cs_zero, ap_off = False\<rparr>"

definition ap_uplink :: uplink where
  "ap_uplink = \<lparr>pppoe_enabled = False, pppoe_ip = 0, my_ip = 9\<rparr>"

theorem client_count_right_witness:
  "let m = [2, 0, 0, 0, 0, 1]; s = snd (on_ap_staconnected 0 [] m ap_fresh); r = ap_resynced (ESP_OK, 1) s;
       t = on_ap_stadisconnected m (ap_switched 1 5 ap_uplink [] False r)
   in unat (ap_count s) = 1 \<and> unat (ap_count r) = 1 \<and> unat (ap_count t) = 0 \<and>
      unat (ap_count (ap_switched 1 5 ap_uplink [] True t)) = 0 \<and> stats_of (ap_stats r) m \<noteq> None"
proof -
  let ?m = "[2, 0, 0, 0, 0, 1] :: mac"
  let ?s = "snd (on_ap_staconnected 0 [] ?m ap_fresh)"
  let ?r = "ap_resynced (ESP_OK, 1) ?s"
  let ?t = "on_ap_stadisconnected ?m (ap_switched 1 5 ap_uplink [] False ?r)"
  have j: "on_ap_staconnected 0 [] ?m ap_fresh = (False, ?s)"
    by (simp add: on_ap_staconnected_def is_mac_blocked_def find_first_None)
  have 0: "ap_reachable {} {} ap_fresh" unfolding ap_fresh_def by (rule ap_start)
  have 1: "ap_reachable {?m} {?m} ?s" using ap_joins [OF 0 _ _ j] by (simp add: AP_MAX_CONNECTIONS_def)
  have 2: "ap_reachable {?m} {?m} ?r" by (rule ap_resync [OF 1]) simp
  have 3: "ap_reachable {} {} ?t" using ap_drops [OF 2, of "[?m]" 1 5 ap_uplink "[]"] by simp
  note 4 = ap_turned_on [OF 3, of 1 5 ap_uplink "[]"]
  from client_count_right [OF 2] have "stats_of (ap_stats ?r) ?m \<noteq> None" by auto
  with client_count_right [OF 1] client_count_right [OF 2] client_count_right [OF 3] client_count_right [OF 4]
  show ?thesis by (simp add: Let_def)
qed

text \<open>
  Turning the access point off sets the number to zero and leaves the clients marked as connected until
  their ends are announced.  If eight stay marked, the next client gets no slot: its traffic is not counted, and the number stays one too high
  when it has gone.
\<close>

lemma marks_survive_off:
  assumes "ap_set_enabled nat_on ip u tab False s = (napt, calls, v, t)"
  shows "ap_count t = 0 \<and> ap_stats t = ap_stats s"
  using assms by (auto simp: ap_set_enabled_def)

lemma count_stays_high:
  assumes "\<forall>e \<in> set (ap_stats s). cs_used e \<and> cs_connected e \<noteq> 0" "find_client_stats m (ap_stats s) = None"
    "\<not> is_mac_blocked known m res"
  shows "ap_count (on_ap_stadisconnected m (snd (on_ap_staconnected known res m s))) = ap_count s + 1"
proof -
  have "client_stats_on_connect m (ap_stats s) = ap_stats s"
    using assms(1,2) chosen_slot_None [of "ap_stats s"] by (simp add: on_connect_conv)
  with assms(2,3) show ?thesis
    by (simp add: on_ap_staconnected_def on_ap_stadisconnected_def client_stats_on_disconnect_def)
qed

text \<open>
  A blocked station that came and was not yet sent away is not counted, but it is on the driver's list: showing
  the number then counts it, and its end does not take it off again.
\<close>

lemma resync_counts_blocked:
  assumes "is_mac_blocked known m res" "stats_of (ap_stats s) m = None" "snd (on_ap_staconnected known res m s) = t"
  shows "ap_count (on_ap_stadisconnected m (ap_resynced (ESP_OK, Suc n) t)) = of_nat (Suc n)"
  using assms
  by (auto simp: on_ap_staconnected_def ap_resynced_def resync_connect_count_def on_ap_stadisconnected_def
      client_stats_on_disconnect_def find_stats_conv Let_def)

text \<open>
  In the build without Ethernet, an access point that is off at the start never gets its configuration:
  turning it on later starts it with what the driver holds.
\<close>

lemma off_at_start_unconfigured: "wifi_ap_config True auth hid ssid pw = None"
  by (simp add: wifi_ap_config_def)

end
