(* ===== verification/Mqtt.thy ===== *)
theory Mqtt
  imports Router_Commands Client_Stats
begin

text \<open>
  The Home Assistant integration (\<open>components/mqtt_ha/mqtt_ha.c\<close>): the settings, the client of the MQTT broker
  and its timer, the messages it publishes and the commands it takes.  The MQTT library is a parameter by
  what its calls return; what is published and what other components are made to do is recorded in order.
\<close>

section \<open>Topics and limits\<close>

definition TOPIC_PREFIX :: string where "TOPIC_PREFIX = ''esp32_nat_router''"
definition TOPIC_STATE :: string where "TOPIC_STATE = TOPIC_PREFIX @ ''/state''"
definition TOPIC_AVAILABILITY :: string where "TOPIC_AVAILABILITY = TOPIC_PREFIX @ ''/availability''"
definition TOPIC_CMD_RESTART :: string where "TOPIC_CMD_RESTART = TOPIC_PREFIX @ ''/command/restart''"
definition TOPIC_CMD_WEBUI :: string where "TOPIC_CMD_WEBUI = TOPIC_PREFIX @ ''/command/web_ui''"
definition TOPIC_CMD_RC :: string where "TOPIC_CMD_RC = TOPIC_PREFIX @ ''/command/remote_console''"
definition TOPIC_CMD_AP :: string where "TOPIC_CMD_AP = TOPIC_PREFIX @ ''/command/ap''"
definition TOPIC_CLIENTS :: string where "TOPIC_CLIENTS = TOPIC_PREFIX @ ''/clients/''"

lemmas topic_defs = TOPIC_PREFIX_def TOPIC_STATE_def TOPIC_AVAILABILITY_def TOPIC_CMD_RESTART_def TOPIC_CMD_WEBUI_def
  TOPIC_CMD_RC_def TOPIC_CMD_AP_def TOPIC_CLIENTS_def

definition MQTT_URI_MAX :: nat where "MQTT_URI_MAX = 128"
definition MQTT_CRED_MAX :: nat where "MQTT_CRED_MAX = 64"

section \<open>State and settings\<close>

text \<open>
  \<open>mq_client\<close>: the client exists; \<open>mq_timer\<close>: the timer, if it was created, and the seconds between its
  calls while it runs.
\<close>

record mqtt_state =
  mq_client :: bool
  mq_timer :: "nat option option"
  mq_enabled :: bool
  mq_connected :: bool
  mq_uri :: string
  mq_user :: string
  mq_pass :: string
  mq_interval :: nat

definition mqtt_boot :: "nat \<Rightarrow> mqtt_state" where
  "mqtt_boot default_interval = \<lparr>mq_client = False, mq_timer = None, mq_enabled = False, mq_connected = False,
     mq_uri = [], mq_user = [], mq_pass = [], mq_interval = default_interval\<rparr>"

text \<open>\<open>nvs_get_str\<close> into a buffer of \<open>sz\<close> bytes: a text that does not fit, or none, leaves it alone.\<close>

definition get_str_into :: "'n nvs_par \<Rightarrow> string \<Rightarrow> nat \<Rightarrow> string \<Rightarrow> 'n \<Rightarrow> string" where
  "get_str_into par key sz buf n =
     (let (err, v) = np_get_str par n key in if err = ESP_OK \<and> length v < sz then v else buf)"

definition get_i32_into :: "'n nvs_par \<Rightarrow> string \<Rightarrow> int \<Rightarrow> 'n \<Rightarrow> int" where
  "get_i32_into par key v n = (let (err, w) = np_get_i32 par n key in if err = ESP_OK then w else v)"

definition mqtt_load_config :: "'n nvs_par \<Rightarrow> 'n \<Rightarrow> mqtt_state \<Rightarrow> mqtt_state" where
  "mqtt_load_config par n s =
     (if np_open par n \<noteq> ESP_OK then s
      else let s = s\<lparr>mq_enabled := get_i32_into par ''mqtt_en'' 0 n \<noteq> 0,
                 mq_uri := get_str_into par ''mqtt_uri'' MQTT_URI_MAX (mq_uri s) n,
                 mq_user := get_str_into par ''mqtt_user'' MQTT_CRED_MAX (mq_user s) n,
                 mq_pass := get_str_into par ''mqtt_pass'' MQTT_CRED_MAX (mq_pass s) n\<rparr>;
               intv = get_i32_into par ''mqtt_intv'' (int (mq_interval s)) n;
               intv = (if intv < 5 then 5 else intv); intv = (if intv > 3600 then 3600 else intv)
           in s\<lparr>mq_interval := nat intv\<rparr>)"

section \<open>Messages\<close>

text \<open>What is known of the device: the MAC address of the access point, its name, the version, the addresses.\<close>

record device =
  dv_mac :: mac
  dv_ssid :: string
  dv_version :: string
  dv_my_ip :: u32
  dv_ap_ip :: u32

definition hex_char_upper :: "nat \<Rightarrow> char" where
  "hex_char_upper d = (if d < 10 then char_of (48 + d) else char_of (55 + d))"

definition print_02X :: "u8 \<Rightarrow> string" where
  "print_02X b = [hex_char_upper (unat b div 16), hex_char_upper (unat b mod 16)]"

definition mac_str :: "mac \<Rightarrow> string" where
  "mac_str mac = strncpy_trunc 13 (concat (map print_02X mac))"

definition build_device_id :: "device \<Rightarrow> string" where
  "build_device_id d = strncpy_trunc 32 (''esp32_nat_router_'' @ mac_str (dv_mac d))"

definition quoted :: "string \<Rightarrow> string" where
  "quoted s = CHR 0x22 # s @ [CHR 0x22]"

text \<open>A member of a JSON object with a text as its value; nothing is escaped.\<close>

definition member :: "string \<times> string \<Rightarrow> string" where
  "member kv = quoted (fst kv) @ '':'' @ quoted (snd kv)"

definition device_json :: "device \<Rightarrow> nat \<Rightarrow> string" where
  "device_json d len =
     (let cfg_ip = (if dv_my_ip d \<noteq> 0 then dv_my_ip d else dv_ap_ip d); ip_str = strncpy_trunc 16 (ipstr cfg_ip) in
      strncpy_trunc len (quoted ''dev'' @ '':{'' @ quoted ''ids'' @ '':['' @ quoted (build_device_id d) @ ''],'' @
        member (''name'', dv_ssid d) @ '','' @ member (''sw'', dv_version d) @ '','' @
        member (''cu'', ''http://'' @ ip_str) @ ''}''))"

datatype mqtt_act = Publish string string nat bool | Subscribe string | MqttRestart
  | MqttWebUi bool | MqttRemoteConsole bool | MqttAp bool

text \<open>An announcement: its topic, and its members followed by the device.\<close>

definition announce :: "device \<Rightarrow> string \<Rightarrow> string \<Rightarrow> (string \<times> string) list \<Rightarrow> mqtt_act" where
  "announce d kind object members =
     Publish (strncpy_trunc 128 (''homeassistant/'' @ kind @ ''/'' @ build_device_id d @ ''/'' @ object @ ''/config''))
       (strncpy_trunc 768 (''{'' @ concat (map (\<lambda>m. member m @ '','') members) @ device_json d 256 @ ''}'')) 1 True"

definition value_of :: "string \<Rightarrow> string" where
  "value_of name = ''{{value_json.'' @ name @ ''}}''"

text \<open>The entities of the router: kind, object, name, and the members after \<open>uniq_id\<close>.\<close>

definition state_of :: "string \<Rightarrow> (string \<times> string) list" where
  "state_of name = [(''stat_t'', TOPIC_STATE), (''val_tpl'', value_of name)]"

definition on_off :: "(string \<times> string) list" where
  "on_off = [(''pl_on'', ''ON''), (''pl_off'', ''OFF'')]"

definition router_entities :: "(string \<times> string \<times> string \<times> (string \<times> string) list) list" where
  "router_entities =
     [(''binary_sensor'', ''uplink'', ''Uplink Status'', state_of ''uplink'' @ [(''dev_cla'', ''connectivity'')] @ on_off),
      (''sensor'', ''clients'', ''Connected Clients'', state_of ''clients'' @ [(''stat_cla'', ''measurement''), (''ic'', ''mdi:wifi'')]),
      (''sensor'', ''bytes_tx'', ''Bytes Sent'', state_of ''bytes_tx'' @
         [(''dev_cla'', ''data_size''), (''stat_cla'', ''total_increasing''), (''unit_of_meas'', ''B'')]),
      (''sensor'', ''bytes_rx'', ''Bytes Received'', state_of ''bytes_rx'' @
         [(''dev_cla'', ''data_size''), (''stat_cla'', ''total_increasing''), (''unit_of_meas'', ''B'')]),
      (''sensor'', ''free_heap'', ''Free Heap'', state_of ''free_heap'' @
         [(''dev_cla'', ''data_size''), (''stat_cla'', ''measurement''), (''unit_of_meas'', ''B''), (''entity_category'', ''diagnostic'')]),
      (''sensor'', ''uptime'', ''Uptime'', state_of ''uptime'' @
         [(''dev_cla'', ''duration''), (''stat_cla'', ''total_increasing''), (''unit_of_meas'', ''s''), (''entity_category'', ''diagnostic'')]),
      (''binary_sensor'', ''pppoe'', ''PPPoE Session'', state_of ''pppoe'' @ [(''dev_cla'', ''connectivity'')] @ on_off @
         [(''entity_category'', ''diagnostic'')]),
      (''sensor'', ''wan_ip'', ''WAN IP'', state_of ''wan_ip'' @ [(''ic'', ''mdi:ip-network''), (''entity_category'', ''diagnostic'')]),
      (''button'', ''restart'', ''Restart'', [(''cmd_t'', TOPIC_CMD_RESTART), (''dev_cla'', ''restart''), (''entity_category'', ''config'')]),
      (''switch'', ''web_ui'', ''Web UI'', state_of ''web_ui'' @
         [(''cmd_t'', TOPIC_CMD_WEBUI), (''ic'', ''mdi:web''), (''entity_category'', ''config'')]),
      (''switch'', ''remote_console'', ''Remote Console'', state_of ''remote_console'' @
         [(''cmd_t'', TOPIC_CMD_RC), (''ic'', ''mdi:console''), (''entity_category'', ''config'')]),
      (''switch'', ''ap'', ''AP Interface'', state_of ''ap_enabled'' @ [(''cmd_t'', TOPIC_CMD_AP), (''ic'', ''mdi:access-point'')])]"

definition router_announcements :: "device \<Rightarrow> mqtt_act list" where
  "router_announcements d =
     map (\<lambda>(kind, object, name, ms). announce d kind object
       ([(''name'', name), (''uniq_id'', build_device_id d @ ''_'' @ object)] @ ms @ [(''avty_t'', TOPIC_AVAILABILITY)])) router_entities"

text \<open>The entities of a device with a reservation: kind, suffix, name, value, and the further members.\<close>

definition client_entities :: "(string \<times> string \<times> string \<times> string \<times> (string \<times> string) list) list" where
  "client_entities =
     [(''binary_sensor'', ''presence'', ''Presence'', ''present'', [(''dev_cla'', ''presence'')] @ on_off),
      (''sensor'', ''tx'', ''TX'', ''tx'', [(''dev_cla'', ''data_size''), (''stat_cla'', ''total_increasing''), (''unit_of_meas'', ''B'')]),
      (''sensor'', ''rx'', ''RX'', ''rx'', [(''dev_cla'', ''data_size''), (''stat_cla'', ''total_increasing''), (''unit_of_meas'', ''B'')]),
      (''sensor'', ''rssi'', ''RSSI'', ''rssi'', [(''dev_cla'', ''signal_strength''), (''stat_cla'', ''measurement''), (''unit_of_meas'', ''dBm'')])]"

definition client_announcements :: "device \<Rightarrow> dhcp_reservation \<Rightarrow> mqtt_act list" where
  "client_announcements d r =
     (let cmac = mac_str (dr_mac r); name = (if dr_name r \<noteq> [] then dr_name r else cmac);
          topic = strncpy_trunc 64 (TOPIC_CLIENTS @ cmac)
      in map (\<lambda>(kind, suffix, label, val, ms). announce d kind (cmac @ ''_'' @ suffix)
           ([(''name'', name @ '' '' @ label), (''uniq_id'', build_device_id d @ ''_'' @ cmac @ ''_'' @ suffix),
             (''stat_t'', topic), (''val_tpl'', value_of val)] @ ms @ [(''avty_t'', TOPIC_AVAILABILITY)])) client_entities)"

definition publish_discovery :: "device \<Rightarrow> dhcp_reservation list \<Rightarrow> mqtt_state \<Rightarrow> mqtt_act list" where
  "publish_discovery d res s =
     (if \<not> mq_connected s then []
      else router_announcements d @ concat (map (client_announcements d) (filter dr_used res)))"

section \<open>The state, published periodically\<close>

text \<open>
  What the other components report.  \<open>te_stations\<close>: the result of \<open>esp_wifi_ap_get_sta_list\<close>, the number it
  left in its argument and the array there, which has a place for each possible station.
\<close>

record telemetry =
  te_uplink :: bool
  te_clients :: u16
  te_bytes_tx :: u64
  te_bytes_rx :: u64
  te_free_heap :: u32
  te_uptime :: u32
  te_pppoe :: bool
  te_pppoe_ip :: u32
  te_web_disabled :: "string option"
  te_remote_console :: bool
  te_ap_off :: bool
  te_stations :: "esp_err \<times> int \<times> (mac \<times> u8) list"
  te_stats :: "client_stats_entry list"
  te_res :: "dhcp_reservation list"

definition is_web_ui_enabled :: "string option \<Rightarrow> bool" where
  "is_web_ui_enabled lock = (case lock of None \<Rightarrow> True | Some v \<Rightarrow> v = ''0'')"

definition on_word :: "bool \<Rightarrow> string" where
  "on_word b = (if b then ''ON'' else ''OFF'')"

definition number :: "string \<Rightarrow> string \<Rightarrow> string" where
  "number k v = quoted k @ '':'' @ v"

definition int_string :: "int \<Rightarrow> string" where
  "int_string v = (if v < 0 then CHR ''-'' # dec_string (nat (- v)) else dec_string (nat v))"

definition router_state :: "telemetry \<Rightarrow> string" where
  "router_state t =
     (let wan_ip_str = (if te_pppoe_ip t \<noteq> 0 then strncpy_trunc 16 (ipstr (te_pppoe_ip t)) else []) in
      strncpy_trunc 512 (''{'' @ member (''uplink'', on_word (te_uplink t)) @ '','' @ number ''clients'' (dec_string (unat (te_clients t))) @ '','' @
        number ''bytes_tx'' (dec_string (unat (te_bytes_tx t))) @ '','' @ number ''bytes_rx'' (dec_string (unat (te_bytes_rx t))) @ '','' @
        number ''free_heap'' (dec_string (unat (te_free_heap t))) @ '','' @ number ''uptime'' (dec_string (unat (te_uptime t))) @ '','' @
        member (''pppoe'', on_word (te_pppoe t)) @ '','' @ member (''wan_ip'', wan_ip_str) @ '','' @
        member (''web_ui'', on_word (is_web_ui_enabled (te_web_disabled t))) @ '','' @
        member (''remote_console'', on_word (te_remote_console t)) @ '','' @ member (''ap_enabled'', on_word (\<not> te_ap_off t)) @ ''}''))"

text \<open>The search of the station list, from index \<open>j\<close>: outside the array it reads what is not there.\<close>

function find_rssi :: "mac \<Rightarrow> int \<Rightarrow> (mac \<times> u8) list \<Rightarrow> nat \<Rightarrow> u8 option" where
  "find_rssi mac num stas j =
     (if int j < num then
        if j < length stas then if fst (stas ! j) = mac then Some (snd (stas ! j)) else find_rssi mac num stas (Suc j)
        else None
      else Some 0)"
  by auto
termination by (relation "measure (\<lambda>(mac, num, stas, j). length stas - j)") auto

definition client_state :: "telemetry \<Rightarrow> dhcp_reservation \<Rightarrow> mqtt_act option" where
  "client_state t r =
     (let stats = client_stats_get_all (int CLIENT_STATS_MAX) (te_stats t); cmac = mac_str (dr_mac r);
          e = find (\<lambda>e. cs_mac e = dr_mac r) stats;
          tx = (case e of Some e \<Rightarrow> bytes_sent e | None \<Rightarrow> 0); rx = (case e of Some e \<Rightarrow> bytes_received e | None \<Rightarrow> 0);
          present = (case e of Some e \<Rightarrow> cs_connected e \<noteq> 0 | None \<Rightarrow> False)
      in do {
        rssi \<leftarrow> find_rssi (dr_mac r) (fst (snd (te_stations t))) (snd (snd (te_stations t))) 0;
        Some (Publish (strncpy_trunc 64 (TOPIC_CLIENTS @ cmac))
          (strncpy_trunc 512 (''{'' @ member (''present'', on_word present) @ '','' @ number ''tx'' (dec_string (unat tx)) @ '','' @
            number ''rx'' (dec_string (unat rx)) @ '','' @ number ''rssi'' (int_string (sint rssi)) @ ''}'')) 0 True) })"

fun client_states :: "telemetry \<Rightarrow> dhcp_reservation list \<Rightarrow> mqtt_act list option" where
  "client_states t [] = Some []"
| "client_states t (r # rs) = do { a \<leftarrow> client_state t r; as \<leftarrow> client_states t rs; Some (a # as) }"

text \<open>\<open>None\<close> is a read outside the station list.\<close>

definition publish_state :: "telemetry \<Rightarrow> mqtt_state \<Rightarrow> mqtt_act list option" where
  "publish_state t s =
     (if \<not> mq_connected s then Some []
      else do {
        as \<leftarrow> client_states t (filter dr_used (te_res t));
        Some (Publish TOPIC_STATE (router_state t) 0 True # as) })"

section \<open>Events of the client\<close>

datatype mqtt_event = MqttConnected | MqttDisconnected | MqttData string string | MqttError

definition says_on :: "string \<Rightarrow> bool" where
  "says_on data \<longleftrightarrow> length data \<ge> 2 \<and> strcaseeq (take 2 data) ''ON''"

text \<open>\<open>later\<close>: what is reported after the command of the message was carried out.\<close>

definition mqtt_event_handler :: "device \<Rightarrow> telemetry \<Rightarrow> mqtt_event \<Rightarrow> mqtt_state \<Rightarrow> (mqtt_act list \<times> mqtt_state) option" where
  "mqtt_event_handler d later ev s =
     (case ev of
        MqttConnected \<Rightarrow>
          let s = s\<lparr>mq_connected := True\<rparr> in do {
            as \<leftarrow> publish_state later s;
            Some (Publish TOPIC_AVAILABILITY ''online'' 1 True #
              map Subscribe [TOPIC_CMD_RESTART, TOPIC_CMD_WEBUI, TOPIC_CMD_RC, TOPIC_CMD_AP] @
              publish_discovery d (te_res later) s @ as, s) }
      | MqttDisconnected \<Rightarrow> Some ([], s\<lparr>mq_connected := False\<rparr>)
      | MqttData topic data \<Rightarrow>
          if topic = [] then Some ([], s)
          else if topic = TOPIC_CMD_RESTART then Some ([MqttRestart], s)
          else if topic = TOPIC_CMD_WEBUI then do { as \<leftarrow> publish_state later s; Some (MqttWebUi (says_on data) # as, s) }
          else if topic = TOPIC_CMD_RC then do { as \<leftarrow> publish_state later s; Some (MqttRemoteConsole (says_on data) # as, s) }
          else if topic = TOPIC_CMD_AP then do { as \<leftarrow> publish_state later s; Some (MqttAp (says_on data) # as, s) }
          else Some ([], s)
      | MqttError \<Rightarrow> Some ([], s))"

section \<open>Start and stop\<close>

text \<open>What the library answers: whether the client is made, the result of its start, whether there is a timer.\<close>

record mqtt_lib =
  ml_init :: bool
  ml_start :: esp_err
  ml_timer :: bool

abbreviation ESP_ERR_INVALID_STATE :: esp_err where "ESP_ERR_INVALID_STATE \<equiv> ESP_ERR_OTHER 0x103"

definition start_timer :: "bool \<Rightarrow> mqtt_state \<Rightarrow> mqtt_state" where
  "start_timer created s =
     (if mq_timer s = None \<and> \<not> created then s else s\<lparr>mq_timer := Some (Some (mq_interval s))\<rparr>)"

definition mqtt_ha_start :: "mqtt_lib \<Rightarrow> mqtt_state \<Rightarrow> esp_err \<times> mqtt_state" where
  "mqtt_ha_start lib s =
     (if mq_client s then (ESP_OK, s)
      else if mq_uri s = [] then (ESP_ERR_INVALID_STATE, s)
      else if \<not> ml_init lib then (ESP_FAIL, s)
      else if ml_start lib \<noteq> ESP_OK then (ml_start lib, s)
      else (ESP_OK, start_timer (ml_timer lib) (s\<lparr>mq_client := True\<rparr>)))"

definition mqtt_ha_stop :: "mqtt_state \<Rightarrow> mqtt_act list \<times> mqtt_state" where
  "mqtt_ha_stop s =
     (let s = (if mq_timer s \<noteq> None then s\<lparr>mq_timer := Some None\<rparr> else s) in
      if mq_client s then (if mq_connected s then [Publish TOPIC_AVAILABILITY ''offline'' 1 True] else [],
        s\<lparr>mq_client := False, mq_connected := False\<rparr>)
      else ([], s))"

definition mqtt_ha_rediscover :: "device \<Rightarrow> dhcp_reservation list \<Rightarrow> mqtt_state \<Rightarrow> mqtt_act list" where
  "mqtt_ha_rediscover d res s = (if \<not> mq_connected s then [] else publish_discovery d res s)"

definition mqtt_ha_get_status :: "mqtt_state \<Rightarrow> string" where
  "mqtt_ha_get_status s = (if \<not> mq_enabled s then ''disabled'' else if mq_connected s then ''connected'' else ''disconnected'')"

definition mqtt_ha_init :: "'n nvs_par \<Rightarrow> 'n \<Rightarrow> mqtt_lib \<Rightarrow> mqtt_state \<Rightarrow> mqtt_state" where
  "mqtt_ha_init par n lib s =
     (let s = mqtt_load_config par n s in if mq_enabled s \<and> mq_uri s \<noteq> [] then snd (mqtt_ha_start lib s) else s)"

text \<open>The command \<open>mqtt\<close> with its arguments as argtable3 took them.\<close>

definition mqtt_cmd :: "'n nvs_par \<Rightarrow> mqtt_lib \<Rightarrow> device \<Rightarrow> dhcp_reservation list \<Rightarrow> (string \<times> string option \<times> string option) option
    \<Rightarrow> mqtt_state \<Rightarrow> 'n \<Rightarrow> nat \<times> mqtt_act list \<times> mqtt_state \<times> 'n" where
  "mqtt_cmd par lib d res args s n =
     (let save_int = (\<lambda>k v n. snd (set_config_param_int par k v n)); save_str = (\<lambda>k v n. fst (snd (set_config_param_str par k v n))) in
      case args of None \<Rightarrow> (1, [], s, n)
      | Some (action, arg1, arg2) \<Rightarrow>
          if action = ''status'' then (0, [], s, n)
          else if action = ''enable'' then
            let s = s\<lparr>mq_enabled := True\<rparr>; n = save_int ''mqtt_en'' 1 n; (err, s) = mqtt_ha_start lib s
            in (if err \<noteq> ESP_OK then 1 else 0, [], s, n)
          else if action = ''disable'' then
            let s = s\<lparr>mq_enabled := False\<rparr>; n = save_int ''mqtt_en'' 0 n; (acts, s) = mqtt_ha_stop s in (0, acts, s, n)
          else if action = ''broker'' then
            (case arg1 of None \<Rightarrow> (1, [], s, n)
             | Some uri \<Rightarrow> let s = s\<lparr>mq_uri := strncpy_trunc MQTT_URI_MAX uri\<rparr> in (0, [], s, save_str ''mqtt_uri'' (mq_uri s) n))
          else if action = ''user'' then
            (case (arg1, arg2) of
               (Some u, Some p) \<Rightarrow>
                 let s = s\<lparr>mq_user := strncpy_trunc MQTT_CRED_MAX u, mq_pass := strncpy_trunc MQTT_CRED_MAX p\<rparr>
                 in (0, [], s, save_str ''mqtt_pass'' (mq_pass s) (save_str ''mqtt_user'' (mq_user s) n))
             | _ \<Rightarrow> (1, [], s, n))
          else if action = ''interval'' then
            (case arg1 of None \<Rightarrow> (1, [], s, n)
             | Some t \<Rightarrow>
                 let val = atoi t in
                 if val < 5 \<or> val > 3600 then (1, [], s, n)
                 else let s = s\<lparr>mq_interval := nat val\<rparr>; n = save_int ''mqtt_intv'' val n;
                          s = (if mq_timer s \<noteq> None \<and> mq_client s then s\<lparr>mq_timer := Some (Some (mq_interval s))\<rparr> else s)
                      in (0, [], s, n))
          else if action = ''rediscover'' then (0, mqtt_ha_rediscover d res s, s, n)
          else (1, [], s, n))"

end
