(* ===== verification/Mqtt_Theorems.thy ===== *)
theory Mqtt_Theorems
  imports Mqtt Router_Boot_Theorems
begin

text \<open>The Home Assistant integration: its messages are whole, its state is consistent, its settings last.\<close>

section \<open>Lengths\<close>

lemma dec_string_shorter: "n < 10 ^ Suc k \<Longrightarrow> length (dec_string n) \<le> Suc k"
proof (induction k arbitrary: n)
  case 0
  then show ?case by (subst dec_string_step) simp
next
  case (Suc k)
  have "n div 10 < 10 ^ Suc k" using Suc.prems by (simp add: less_mult_imp_div_less)
  from Suc.IH [OF this] show ?case by (subst dec_string_step) simp
qed

lemma word_digits:
  "length (dec_string (unat (a :: u64))) \<le> 20" "length (dec_string (unat (b :: u32))) \<le> 10" "length (dec_string (unat (c :: u16))) \<le> 5"
proof -
  have "unat a < 2 ^ 64" "unat b < 2 ^ 32" "unat c < 2 ^ 16"
    using unsigned_less [of a] unsigned_less [of b] unsigned_less [of c] by simp_all
  then have "unat a < 10 ^ Suc 19" "unat b < 10 ^ Suc 9" "unat c < 10 ^ Suc 4" by simp_all
  from this [THEN dec_string_shorter]
  show "length (dec_string (unat a)) \<le> 20" "length (dec_string (unat b)) \<le> 10" "length (dec_string (unat c)) \<le> 5" by simp_all
qed

lemma int_digits: "length (int_string (sint (r :: u8))) \<le> 4"
proof -
  have "sint r < 2 ^ 7" "- (2 ^ 7) \<le> sint r" using sint_less [of r] sint_greater_eq [of r] by simp_all
  then have "nat (sint r) < 10 ^ Suc 2" "nat (- sint r) < 10 ^ Suc 2" by simp_all
  from dec_string_shorter [OF this(1)] dec_string_shorter [OF this(2)] show ?thesis by (simp add: int_string_def)
qed

lemma text_lengths [simp]:
  "length (quoted s) = length s + 2" "length (member (k, v)) = length k + length v + 5" "length (number k t) = length k + length t + 3"
  by (simp_all add: quoted_def member_def number_def)

lemma mac_str_length: "length m = 6 \<Longrightarrow> length (mac_str m) = 12"
proof -
  have "length (concat (map print_02X m)) = 2 * length m" by (induction m) (simp_all add: print_02X_def)
  then show "length m = 6 \<Longrightarrow> length (mac_str m) = 12" by (simp add: mac_str_def strncpy_trunc_def)
qed

lemma device_id_length: "length (dv_mac d) = 6 \<Longrightarrow> length (build_device_id d) = 29"
  by (simp add: build_device_id_def strncpy_trunc_def mac_str_length)

text \<open>A device as the firmware describes it: six bytes of address, a name and a version of their fields' sizes.\<close>

definition device_ok :: "device \<Rightarrow> bool" where
  "device_ok d \<longleftrightarrow> length (dv_mac d) = 6 \<and> length (dv_ssid d) \<le> 32 \<and> length (dv_version d) \<le> 31"

lemma device_json_length:
  assumes "device_ok d"
  shows "length (device_json d 256) \<le> 160 \<and> last (device_json d 256) = CHR ''}'' \<and> device_json d 256 \<noteq> []"
proof -
  let ?ip = "strncpy_trunc 16 (ipstr (if dv_my_ip d \<noteq> 0 then dv_my_ip d else dv_ap_ip d))"
  define whole where "whole = quoted ''dev'' @ '':{'' @ quoted ''ids'' @ '':['' @ quoted (build_device_id d) @ ''],'' @
        member (''name'', dv_ssid d) @ '','' @ member (''sw'', dv_version d) @ '','' @ member (''cu'', ''http://'' @ ?ip) @ ''}''"
  have "length ?ip \<le> 15" by (simp add: strncpy_trunc_def)
  moreover have "length (build_device_id d) = 29" "length (dv_ssid d) \<le> 32" "length (dv_version d) \<le> 31"
    using assms by (simp_all add: device_ok_def device_id_length)
  ultimately have l: "length whole \<le> 160" by (simp add: whole_def)
  have "device_json d 256 = take 255 whole" by (simp add: device_json_def strncpy_trunc_def whole_def Let_def)
  with l have "device_json d 256 = whole" by simp
  with l show ?thesis by (simp add: whole_def)
qed

text \<open>An announcement is whole if its parts are not too long.\<close>

definition whole :: "mqtt_act \<Rightarrow> bool" where
  "whole a \<longleftrightarrow> (case a of Publish t p q r \<Rightarrow> length t < 127 \<and> length p < 767 \<and> last p = CHR ''}'' | _ \<Rightarrow> True)"

lemma announce_whole:
  assumes "device_ok d" "length kind + length object \<le> 40" "sum_list (map (\<lambda>m. length (fst m) + length (snd m) + 6) ms) \<le> 600"
  shows "whole (announce d kind object ms)"
proof -
  have c: "length (concat (map (\<lambda>m. member m @ '','') ms)) = sum_list (map (\<lambda>m. length (fst m) + length (snd m) + 6) ms)"
    by (induction ms) (simp_all add: member_def quoted_def)
  note j = device_json_length [OF assms(1)]
  have t: "length (''homeassistant/'' @ kind @ ''/'' @ build_device_id d @ ''/'' @ object @ ''/config'') < 127"
    using assms(1,2) by (simp add: device_ok_def device_id_length)
  have p: "length (''{'' @ concat (map (\<lambda>m. member m @ '','') ms) @ device_json d 256 @ ''}'') < 767"
    using assms(3) j by (simp add: c)
  show ?thesis unfolding whole_def announce_def strncpy_trunc_def using t p by (simp add: c)
qed

lemma topic_lengths [simp]:
  "length TOPIC_STATE = 22" "length TOPIC_AVAILABILITY = 29" "length TOPIC_CMD_RESTART = 32" "length TOPIC_CMD_WEBUI = 31"
  "length TOPIC_CMD_RC = 39" "length TOPIC_CMD_AP = 27" "length TOPIC_CLIENTS = 25" "length (value_of name) = length name + 15"
  by (simp_all add: topic_defs value_of_def)

text \<open>What the lists of entities contain is short.\<close>

definition members_length :: "(string \<times> string) list \<Rightarrow> nat" where
  "members_length ms = sum_list (map (\<lambda>m. length (fst m) + length (snd m) + 6) ms)"

lemma members_append [simp]: "members_length (xs @ ys) = members_length xs + members_length ys"
  by (simp add: members_length_def)

lemma router_entities_short:
  "(kind, object, name, ms) \<in> set router_entities \<Longrightarrow>
     length kind + length object \<le> 40 \<and> length object \<le> 20 \<and> length name \<le> 20 \<and> members_length ms \<le> 300"
  by (auto simp: router_entities_def members_length_def state_of_def on_off_def)

lemma client_entities_short:
  "(kind, suffix, label, val, ms) \<in> set client_entities \<Longrightarrow>
     length kind \<le> 13 \<and> length suffix \<le> 8 \<and> length label \<le> 8 \<and> length val \<le> 7 \<and> members_length ms \<le> 150"
  by (auto simp: client_entities_def members_length_def on_off_def)

lemma router_whole:
  assumes "device_ok d" "a \<in> set (router_announcements d)"
  shows "whole a"
proof -
  obtain kind object name ms where e: "(kind, object, name, ms) \<in> set router_entities"
    "a = announce d kind object ([(''name'', name), (''uniq_id'', build_device_id d @ ''_'' @ object)] @ ms @ [(''avty_t'', TOPIC_AVAILABILITY)])"
    using assms(2) by (auto simp: router_announcements_def)
  note sh = router_entities_short [OF e(1)]
  have "length (build_device_id d) = 29" using assms(1) by (simp add: device_ok_def device_id_length)
  with sh show ?thesis unfolding e(2) members_length_def by (intro announce_whole [OF assms(1)]) simp_all
qed

definition res_entry_ok :: "dhcp_reservation \<Rightarrow> bool" where
  "res_entry_ok r \<longleftrightarrow> length (dr_mac r) = 6 \<and> length (dr_name r) < DHCP_RESERVATION_NAME_LEN"

lemma client_whole:
  assumes "device_ok d" "res_entry_ok r" "a \<in> set (client_announcements d r)"
  shows "whole a"
proof -
  define cmac where "cmac = mac_str (dr_mac r)"
  define name where "name = (if dr_name r \<noteq> [] then dr_name r else cmac)"
  obtain kind suffix label val ms where e: "(kind, suffix, label, val, ms) \<in> set client_entities"
    "a = announce d kind (cmac @ ''_'' @ suffix)
           ([(''name'', name @ '' '' @ label), (''uniq_id'', build_device_id d @ ''_'' @ cmac @ ''_'' @ suffix),
             (''stat_t'', strncpy_trunc 64 (TOPIC_CLIENTS @ cmac)), (''val_tpl'', value_of val)] @ ms @ [(''avty_t'', TOPIC_AVAILABILITY)])"
    using assms(3) by (auto simp: client_announcements_def Let_def cmac_def name_def)
  note sh = client_entities_short [OF e(1)]
  have c: "length cmac = 12" using assms(2) by (simp add: cmac_def res_entry_ok_def mac_str_length)
  then have "length name \<le> 31" using assms(2) by (auto simp: name_def res_entry_ok_def DHCP_RESERVATION_NAME_LEN_def)
  moreover have "length (build_device_id d) = 29" using assms(1) by (simp add: device_ok_def device_id_length)
  ultimately show ?thesis
    using sh c unfolding e(2) members_length_def by (intro announce_whole [OF assms(1)]) (simp_all add: strncpy_trunc_def)
qed

lemma discovery_whole:
  assumes "device_ok d" "\<forall>r \<in> set res. dr_used r \<longrightarrow> res_entry_ok r" "a \<in> set (publish_discovery d res s)"
  shows "whole a"
  using assms router_whole client_whole by (auto simp: publish_discovery_def split: if_splits)

section \<open>The periodic state\<close>

lemma on_word_length: "length (on_word b) \<le> 3" by (simp add: on_word_def)

lemma cut_short: "length p < n - 1 \<Longrightarrow> strncpy_trunc n p = p" by (simp add: strncpy_trunc_def)

lemma router_state_whole: "whole (Publish TOPIC_STATE (router_state t) 0 True) \<and> length (router_state t) < 511"
proof -
  define ip where "ip = (if te_pppoe_ip t \<noteq> 0 then strncpy_trunc 16 (ipstr (te_pppoe_ip t)) else [])"
  define msg where "msg = ''{'' @ member (''uplink'', on_word (te_uplink t)) @ '','' @ number ''clients'' (dec_string (unat (te_clients t))) @ '','' @
        number ''bytes_tx'' (dec_string (unat (te_bytes_tx t))) @ '','' @ number ''bytes_rx'' (dec_string (unat (te_bytes_rx t))) @ '','' @
        number ''free_heap'' (dec_string (unat (te_free_heap t))) @ '','' @ number ''uptime'' (dec_string (unat (te_uptime t))) @ '','' @
        member (''pppoe'', on_word (te_pppoe t)) @ '','' @ member (''wan_ip'', ip) @ '','' @
        member (''web_ui'', on_word (is_web_ui_enabled (te_web_disabled t))) @ '','' @
        member (''remote_console'', on_word (te_remote_console t)) @ '','' @ member (''ap_enabled'', on_word (\<not> te_ap_off t)) @ ''}''"
  have "length ip \<le> 15" by (simp add: ip_def strncpy_trunc_def)
  then have "length msg < 400"
    using word_digits(1) [of "te_bytes_tx t"] word_digits(1) [of "te_bytes_rx t"] word_digits(2) [of "te_free_heap t"]
      word_digits(2) [of "te_uptime t"] word_digits(3) [of "te_clients t"] on_word_length [of "te_uplink t"] on_word_length [of "te_pppoe t"]
      on_word_length [of "is_web_ui_enabled (te_web_disabled t)"] on_word_length [of "te_remote_console t"] on_word_length [of "\<not> te_ap_off t"]
    unfolding msg_def by simp
  moreover have "router_state t = strncpy_trunc 512 msg" by (simp add: router_state_def msg_def ip_def Let_def)
  ultimately have "router_state t = msg" "length msg < 400" by (simp_all add: cut_short)
  moreover have "last msg = CHR ''}''" by (simp add: msg_def)
  ultimately show ?thesis by (simp add: whole_def)
qed

lemma client_state_whole:
  assumes "res_entry_ok r" "client_state t r = Some a"
  shows "whole a \<and> (\<exists>tp p. a = Publish tp p 0 True \<and> length p < 511)"
proof -
  obtain tp present tx rx rssi where a: "a = Publish (strncpy_trunc 64 (TOPIC_CLIENTS @ mac_str (dr_mac r)))
      (strncpy_trunc 512 (''{'' @ member (''present'', on_word present) @ '','' @ number ''tx'' (dec_string (unat (tx :: u64))) @ '','' @
        number ''rx'' (dec_string (unat (rx :: u64))) @ '','' @ number ''rssi'' (int_string (sint (rssi :: u8))) @ ''}'')) 0 True"
    using assms(2) unfolding client_state_def Let_def by (auto simp: bind_eq_Some_conv)
  define msg where "msg = ''{'' @ member (''present'', on_word present) @ '','' @ number ''tx'' (dec_string (unat tx)) @ '','' @
        number ''rx'' (dec_string (unat rx)) @ '','' @ number ''rssi'' (int_string (sint rssi)) @ ''}''"
  have "length msg < 120"
    using on_word_length [of present] word_digits(1) [of tx] word_digits(1) [of rx] int_digits [of rssi] by (simp add: msg_def)
  then have t: "strncpy_trunc 512 msg = msg" "length msg < 511" by (simp_all add: cut_short)
  have l: "last msg = CHR ''}''" by (simp add: msg_def)
  show ?thesis unfolding a msg_def [symmetric] t(1) using t(2) l by (simp add: whole_def strncpy_trunc_def)
qed

text \<open>The search for the signal strength stays in the array when the driver's number fits it.\<close>

lemma find_rssi_total: "num \<le> int (length stas) \<Longrightarrow> \<exists>r. find_rssi mac num stas j = Some r"
proof (induction mac num stas j rule: find_rssi.induct)
  case (1 mac num stas j)
  show ?case
  proof (cases "int j < num")
    case True
    then have "j < length stas" using 1(2) by linarith
    with True 1 show ?thesis by (subst find_rssi.simps) simp
  qed (subst find_rssi.simps, simp)
qed

lemma client_states_total:
  assumes "fst (snd (te_stations t)) \<le> int (length (snd (snd (te_stations t))))"
  shows "\<exists>as. client_states t rs = Some as"
proof (induction rs)
  case (Cons r rs)
  obtain x where "find_rssi (dr_mac r) (fst (snd (te_stations t))) (snd (snd (te_stations t))) 0 = Some x"
    using find_rssi_total [OF assms] by blast
  with Cons show ?case by (auto simp: client_state_def Let_def)
qed simp

lemma client_states_in: "client_states t rs = Some as \<Longrightarrow> a \<in> set as \<Longrightarrow> \<exists>r \<in> set rs. client_state t r = Some a"
  by (induction rs arbitrary: as) (auto simp: bind_eq_Some_conv)

lemma state_acts:
  assumes "\<forall>r \<in> set (te_res t). dr_used r \<longrightarrow> res_entry_ok r" "publish_state t s = Some as" "Publish tp p q r \<in> set as"
  shows "whole (Publish tp p q r) \<and> length p < 511"
proof -
  obtain bs where b: "client_states t (filter dr_used (te_res t)) = Some bs" "as = Publish TOPIC_STATE (router_state t) 0 True # bs"
    using assms(2,3) by (auto simp: publish_state_def bind_eq_Some_conv split: if_splits)
  show ?thesis
  proof (cases "Publish tp p q r \<in> set bs")
    case True
    from client_states_in [OF b(1) True] obtain e where e: "e \<in> set (te_res t)" "dr_used e" "client_state t e = Some (Publish tp p q r)" by auto
    with client_state_whole [OF _ e(3)] assms(1) show ?thesis by auto
  next
    case False
    with assms(3) b(2) router_state_whole [of t] show ?thesis by auto
  qed
qed

lemma discovery_qos: "Publish tp p q r \<in> set (publish_discovery d res s) \<Longrightarrow> q = 1"
  by (auto simp: publish_discovery_def router_announcements_def client_announcements_def announce_def Let_def split: if_splits)

lemma published:
  assumes "device_ok d" "\<forall>r \<in> set (te_res t). dr_used r \<longrightarrow> res_entry_ok r"
    "mqtt_event_handler d t ev s = Some (as, u)" "Publish topic p q r \<in> set as" "topic \<noteq> TOPIC_AVAILABILITY"
  shows "length topic < 127 \<and> length p < 767 \<and> last p = CHR ''}'' \<and> (q = 0 \<longrightarrow> length p < 511)"
proof -
  from assms(3-5) have "(\<exists>v. Publish topic p q r \<in> set (publish_discovery d (te_res t) v)) \<or>
      (\<exists>v bs. publish_state t v = Some bs \<and> Publish topic p q r \<in> set bs)"
    by (cases ev) (auto simp: mqtt_event_handler_def Let_def bind_eq_Some_conv split: if_splits)
  then show ?thesis
    using discovery_whole [OF assms(1,2)] discovery_qos state_acts [OF assms(2)] by (fastforce simp: whole_def)
qed

text \<open>What the driver promises: when the query succeeds, the number it gives fits the list.\<close>

definition stations_contract :: "telemetry \<Rightarrow> bool" where
  "stations_contract t \<longleftrightarrow> (case te_stations t of (err, num, stas) \<Rightarrow> err = ESP_OK \<longrightarrow> num \<le> int (length stas))"

text \<open>
  C40: Nothing that is published is cut off: every announcement and every state message fits its buffer and
  the terminating zero with room to spare and ends with its closing brace, for names, versions and
  reservations of the sizes their fields have.  Publishing is finished whenever the query for the stations
  succeeds, for a driver that keeps its contract then.  (The code does not look at the result of the query; what
  it does when the query fails is in \<open>station_list_unset\<close>.)
\<close>

theorem mqtt_messages_whole:
  assumes "device_ok d" "\<forall>r \<in> set (te_res t). dr_used r \<longrightarrow> res_entry_ok r"
  shows "(stations_contract t \<longrightarrow> fst (te_stations t) = ESP_OK \<longrightarrow> mqtt_event_handler d t ev s \<noteq> None) \<and>
    (\<forall>as u topic p q r. mqtt_event_handler d t ev s = Some (as, u) \<longrightarrow> Publish topic p q r \<in> set as \<longrightarrow> topic \<noteq> TOPIC_AVAILABILITY \<longrightarrow>
       length topic < 127 \<and> length p < 767 \<and> last p = CHR ''}'' \<and> (q = 0 \<longrightarrow> length p < 511))"
proof (intro conjI impI allI)
  assume "stations_contract t" "fst (te_stations t) = ESP_OK"
  then have "fst (snd (te_stations t)) \<le> int (length (snd (snd (te_stations t))))" by (auto simp: stations_contract_def)
  note ok = client_states_total [OF this]
  have st: "\<exists>as. publish_state t u = Some as" for u using ok [of "filter dr_used (te_res t)"] by (auto simp: publish_state_def)
  obtain a1 a2 where a: "publish_state t s = Some a1" "publish_state t (s\<lparr>mq_connected := True\<rparr>) = Some a2"
    using st [of s] st [of "s\<lparr>mq_connected := True\<rparr>"] by blast
  show "mqtt_event_handler d t ev s \<noteq> None" by (cases ev) (simp_all add: mqtt_event_handler_def Let_def a)
next
  fix as u topic p q r
  assume "mqtt_event_handler d t ev s = Some (as, u)" "Publish topic p q r \<in> set as" "topic \<noteq> TOPIC_AVAILABILITY"
  note published [OF assms this]
  then show "length topic < 127" "length p < 767" "last p = CHR ''}''" "q = 0 \<Longrightarrow> length p < 511" by simp_all
qed

text \<open>A connection, with one reservation.\<close>

definition sample_device :: device where
  "sample_device = \<lparr>dv_mac = [1, 2, 3, 4, 5, 6], dv_ssid = ''Home'', dv_version = ''1.0'', dv_my_ip = 0, dv_ap_ip = 0x0104A8C0\<rparr>"

definition sample_telemetry :: telemetry where
  "sample_telemetry = \<lparr>te_uplink = True, te_clients = 1, te_bytes_tx = 5, te_bytes_rx = 6, te_free_heap = 1000, te_uptime = 10,
     te_pppoe = True, te_pppoe_ip = 0x01020304, te_web_disabled = None, te_remote_console = False, te_ap_off = False,
     te_stations = (ESP_OK, 1, [([2, 0, 0, 0, 0, 1], -40)]), te_stats = [], te_res = [\<lparr>dr_mac = [2, 0, 0, 0, 0, 1], dr_ip = 5, dr_name = ''tv'', dr_valid = 1\<rparr>]\<rparr>"

theorem mqtt_messages_whole_witness:
  "\<exists>as u. mqtt_event_handler sample_device sample_telemetry MqttConnected (mqtt_boot 30) = Some (as, u) \<and>
    Publish TOPIC_STATE (router_state sample_telemetry) 0 True \<in> set as \<and> length (router_state sample_telemetry) < 511"
proof -
  have 1: "device_ok sample_device" by (simp add: device_ok_def sample_device_def)
  have 2: "\<forall>r \<in> set (te_res sample_telemetry). dr_used r \<longrightarrow> res_entry_ok r"
    by (simp add: sample_telemetry_def res_entry_ok_def DHCP_RESERVATION_NAME_LEN_def)
  note m = mqtt_messages_whole [OF 1 2, of MqttConnected "mqtt_boot 30"]
  have "stations_contract sample_telemetry" "fst (te_stations sample_telemetry) = ESP_OK"
    by (simp_all add: sample_telemetry_def stations_contract_def)
  with m obtain as u where e: "mqtt_event_handler sample_device sample_telemetry MqttConnected (mqtt_boot 30) = Some (as, u)" by auto
  then have p: "Publish TOPIC_STATE (router_state sample_telemetry) 0 True \<in> set as"
    by (auto simp: mqtt_event_handler_def publish_state_def Let_def mqtt_boot_def bind_eq_Some_conv)
  have "TOPIC_STATE \<noteq> TOPIC_AVAILABILITY" by (simp add: topic_defs)
  with conjunct2 [OF m, rule_format, OF e p] have "length (router_state sample_telemetry) < 511" by simp
  with e p show ?thesis by blast
qed

text \<open>
  The result of the query for the stations is not looked at.  When it fails (the access point is off), the
  number is what was on the stack, and the search runs out of the array.
\<close>

lemma station_list_unset:
  assumes "te_stations t = (ESP_FAIL, num, stas)" "int (length stas) < num" "\<forall>s \<in> set stas. fst s \<noteq> dr_mac r"
  shows "client_state t r = None"
proof -
  have "find_rssi (dr_mac r) num stas j = None" if "j \<le> length stas" for j
    using that
  proof (induction "length stas - j" arbitrary: j)
    case 0
    then show ?case using assms(2) by (subst find_rssi.simps) simp
  next
    case (Suc k)
    then have j: "j < length stas" by simp
    with assms(3) have "fst (stas ! j) \<noteq> dr_mac r" by auto
    with Suc j assms(2) show ?case by (subst find_rssi.simps) (simp add: Suc.hyps(1) [of "Suc j"])
  qed
  from this [of 0] show ?thesis using assms(1) by (simp add: client_state_def Let_def)
qed

section \<open>Client, connection and timer\<close>

text \<open>Events come only while the client exists; \<open>par\<close> is the flash, whose errors do not matter here.\<close>

inductive mqtt_reachable :: "'n nvs_par \<Rightarrow> nat \<Rightarrow> mqtt_state \<Rightarrow> bool" for par dflt where
  mqtt_started: "mqtt_reachable par dflt (mqtt_ha_init par n lib (mqtt_boot dflt))"
| mqtt_command: "mqtt_reachable par dflt s \<Longrightarrow> mqtt_cmd par lib d res args s n = (rc, acts, t, m) \<Longrightarrow> mqtt_reachable par dflt t"
| mqtt_happens: "mqtt_reachable par dflt s \<Longrightarrow> mq_client s \<Longrightarrow> mqtt_event_handler d tel ev s = Some (acts, t) \<Longrightarrow> mqtt_reachable par dflt t"

definition mqtt_inv :: "mqtt_state \<Rightarrow> bool" where
  "mqtt_inv s \<longleftrightarrow> (mq_connected s \<longrightarrow> mq_client s) \<and> 5 \<le> mq_interval s \<and> mq_interval s \<le> 3600 \<and>
     (\<forall>k. mq_timer s = Some (Some k) \<longrightarrow> mq_client s \<and> k = mq_interval s) \<and> (mq_timer s = Some None \<longrightarrow> \<not> mq_client s) \<and>
     length (mq_uri s) < MQTT_URI_MAX \<and> length (mq_user s) < MQTT_CRED_MAX \<and> length (mq_pass s) < MQTT_CRED_MAX"

lemma get_str_short: "length buf < sz \<Longrightarrow> length (get_str_into par k sz buf n) < sz"
  by (simp add: get_str_into_def case_prod_unfold Let_def)

lemma load_inv:
  assumes "5 \<le> dflt" "dflt \<le> 3600"
  shows "mqtt_inv (mqtt_load_config par n (mqtt_boot dflt))"
  using assms
  by (auto simp: get_str_short le_nat_iff nat_le_iff mqtt_load_config_def mqtt_boot_def mqtt_inv_def Let_def MQTT_URI_MAX_def MQTT_CRED_MAX_def)

lemma mqtt_start_inv: "mqtt_inv s \<Longrightarrow> mqtt_inv (snd (mqtt_ha_start lib s))"
  by (auto simp: mqtt_ha_start_def start_timer_def mqtt_inv_def)

lemma mqtt_stop_inv: "mqtt_inv s \<Longrightarrow> mqtt_inv (snd (mqtt_ha_stop s))"
  by (auto simp: mqtt_ha_stop_def mqtt_inv_def Let_def)

lemma set_enabled_inv: "mqtt_inv (s\<lparr>mq_enabled := b\<rparr>) = mqtt_inv s" by (simp add: mqtt_inv_def)

lemma cmd_inv:
  assumes "mqtt_inv s" "mqtt_cmd par lib d res args s n = (rc, acts, t, m)"
  shows "mqtt_inv t"
proof -
  have set_inv: "mqtt_inv (s\<lparr>mq_uri := strncpy_trunc MQTT_URI_MAX u\<rparr>)" "mqtt_inv (s\<lparr>mq_user := strncpy_trunc MQTT_CRED_MAX u, mq_pass := strncpy_trunc MQTT_CRED_MAX p\<rparr>)"
    for u p using assms(1) by (auto simp: mqtt_inv_def strncpy_trunc_def MQTT_URI_MAX_def MQTT_CRED_MAX_def)
  have intv: "mqtt_inv (if mq_timer s \<noteq> None \<and> mq_client s then s\<lparr>mq_interval := nat v, mq_timer := Some (Some (nat v))\<rparr> else s\<lparr>mq_interval := nat v\<rparr>)"
    if "5 \<le> v" "v \<le> 3600" for v using assms(1) that by (auto simp: mqtt_inv_def)
  have en: "mqtt_inv (snd (mqtt_ha_start lib (s\<lparr>mq_enabled := True\<rparr>)))" "mqtt_inv (snd (mqtt_ha_stop (s\<lparr>mq_enabled := False\<rparr>)))"
    using assms(1) by (simp_all add: mqtt_start_inv mqtt_stop_inv set_enabled_inv)
  show ?thesis
    using assms set_inv intv en
    by (auto simp: mqtt_cmd_def Let_def case_prod_unfold not_less split: option.splits if_splits)
qed

lemma event_inv:
  assumes "mqtt_inv s" "mq_client s" "mqtt_event_handler d tel ev s = Some (acts, t)"
  shows "mqtt_inv t"
  using assms by (cases ev) (auto simp: mqtt_event_handler_def mqtt_inv_def Let_def bind_eq_Some_conv split: if_splits)

lemma mqtt_reachable_inv: "mqtt_reachable par dflt s \<Longrightarrow> 5 \<le> dflt \<Longrightarrow> dflt \<le> 3600 \<Longrightarrow> mqtt_inv s"
proof (induction rule: mqtt_reachable.induct)
  case (mqtt_started n lib)
  then show ?case using load_inv [of dflt par n] by (simp add: mqtt_ha_init_def Let_def mqtt_start_inv)
next
  case (mqtt_command s lib d res args n rc acts t m)
  show ?case by (rule cmd_inv [OF mqtt_command.IH [OF mqtt_command.prems] mqtt_command.hyps(2)])
next
  case (mqtt_happens s d tel ev acts t)
  show ?case by (rule event_inv [OF mqtt_happens.IH [OF mqtt_happens.prems] mqtt_happens.hyps(2,3)])
qed

section \<open>Settings in flash\<close>

text \<open>The next start reads what is set now.\<close>

definition mqtt_saved :: "'n nvs_par \<Rightarrow> nat \<Rightarrow> mqtt_state \<Rightarrow> 'n \<Rightarrow> bool" where
  "mqtt_saved par dflt s n \<longleftrightarrow> (let l = mqtt_load_config par n (mqtt_boot dflt) in
     mq_enabled l = mq_enabled s \<and> mq_uri l = mq_uri s \<and> mq_user l = mq_user s \<and> mq_pass l = mq_pass s \<and> mq_interval l = mq_interval s)"

lemma get_after_int:
  assumes "par_full par"
  shows "get_i32_into par k' d (snd (set_config_param_int par k v n)) = (if k' = k then v else get_i32_into par k' d n)"
    "k' \<noteq> k \<Longrightarrow> get_str_into par k' sz buf (snd (set_config_param_int par k v n)) = get_str_into par k' sz buf n"
proof -
  obtain n1 where n1: "set_config_param_int par k v n = (ESP_OK, n1)"
    "\<forall>k'. np_get_i32 par n1 k' = (if k' = k then (ESP_OK, v) else np_get_i32 par n k')"
    "\<forall>k'. k' \<noteq> k \<longrightarrow> np_get_str par n1 k' = np_get_str par n k'"
    using set_int_full [OF assms, of k v n] by (elim exE conjE)
  then show "get_i32_into par k' d (snd (set_config_param_int par k v n)) = (if k' = k then v else get_i32_into par k' d n)"
    "k' \<noteq> k \<Longrightarrow> get_str_into par k' sz buf (snd (set_config_param_int par k v n)) = get_str_into par k' sz buf n"
    by (simp_all add: get_i32_into_def get_str_into_def)
qed

lemma get_after_str:
  assumes "par_full par"
  shows "get_str_into par k' sz buf (fst (snd (set_config_param_str par k v n))) =
      (if k' = k then if length v < sz then v else buf else get_str_into par k' sz buf n)"
    "k' \<noteq> k \<Longrightarrow> get_i32_into par k' d (fst (snd (set_config_param_str par k v n))) = get_i32_into par k' d n"
proof -
  obtain err n' log where n: "set_config_param_str par k v n = (err, n', log)" by (cases "set_config_param_str par k v n")
  show "get_str_into par k' sz buf (fst (snd (set_config_param_str par k v n))) =
      (if k' = k then if length v < sz then v else buf else get_str_into par k' sz buf n)"
    "k' \<noteq> k \<Longrightarrow> get_i32_into par k' d (fst (snd (set_config_param_str par k v n))) = get_i32_into par k' d n"
    unfolding n by (simp_all add: get_i32_into_def get_str_into_def set_str_full [OF assms n])
qed

text \<open>What the start reads, setting by setting.\<close>

lemma saved_iff:
  assumes "par_full par"
  shows "mqtt_saved par dflt s n \<longleftrightarrow> (get_i32_into par ''mqtt_en'' 0 n \<noteq> 0) = mq_enabled s \<and>
    get_str_into par ''mqtt_uri'' MQTT_URI_MAX [] n = mq_uri s \<and> get_str_into par ''mqtt_user'' MQTT_CRED_MAX [] n = mq_user s \<and>
    get_str_into par ''mqtt_pass'' MQTT_CRED_MAX [] n = mq_pass s \<and>
    nat (min 3600 (max 5 (get_i32_into par ''mqtt_intv'' (int dflt) n))) = mq_interval s"
proof -
  have m: "(if (if x < 5 then 5 else x) > 3600 then 3600 else if x < 5 then 5 else x) = min 3600 (max 5 x)" for x :: int by auto
  show ?thesis by (simp add: mqtt_saved_def mqtt_load_config_def open_ok [OF assms] Let_def m) (simp add: mqtt_boot_def)
qed

lemma start_settings:
  "mq_enabled (snd (mqtt_ha_start lib s)) = mq_enabled s" "mq_uri (snd (mqtt_ha_start lib s)) = mq_uri s"
  "mq_user (snd (mqtt_ha_start lib s)) = mq_user s" "mq_pass (snd (mqtt_ha_start lib s)) = mq_pass s"
  "mq_interval (snd (mqtt_ha_start lib s)) = mq_interval s"
  by (simp_all add: mqtt_ha_start_def start_timer_def)

lemma stop_settings:
  "mq_enabled (snd (mqtt_ha_stop s)) = mq_enabled s" "mq_uri (snd (mqtt_ha_stop s)) = mq_uri s"
  "mq_user (snd (mqtt_ha_stop s)) = mq_user s" "mq_pass (snd (mqtt_ha_stop s)) = mq_pass s"
  "mq_interval (snd (mqtt_ha_stop s)) = mq_interval s"
  by (simp_all add: mqtt_ha_stop_def Let_def)

lemma five_ways:
  "(a \<Longrightarrow> P) \<Longrightarrow> (b \<Longrightarrow> P) \<Longrightarrow> (c \<Longrightarrow> P) \<Longrightarrow> (d \<Longrightarrow> P) \<Longrightarrow> (e \<Longrightarrow> P) \<Longrightarrow>
    (\<not> a \<Longrightarrow> \<not> b \<Longrightarrow> \<not> c \<Longrightarrow> \<not> d \<Longrightarrow> \<not> e \<Longrightarrow> P) \<Longrightarrow> P"
  by blast

lemma cmd_saves:
  assumes f: "par_full par" and s: "mqtt_saved par dflt s n" and c: "mqtt_cmd par lib d res args s n = (rc, acts, t, m)"
  shows "mqtt_saved par dflt t m"
proof -
  note g = get_after_int [OF f] get_after_str [OF f] start_settings stop_settings
  have l: "length (strncpy_trunc MQTT_URI_MAX u) < MQTT_URI_MAX" "length (strncpy_trunc MQTT_CRED_MAX u) < MQTT_CRED_MAX" for u
    by (auto simp: strncpy_trunc_def MQTT_URI_MAX_def MQTT_CRED_MAX_def)
  define en where "en = (\<lambda>v. snd (set_config_param_int par ''mqtt_en'' v n))"
  have enable: "mqtt_saved par dflt (s\<lparr>mq_enabled := True\<rparr>) (en 1)" "mqtt_saved par dflt (s\<lparr>mq_enabled := False\<rparr>) (en 0)"
    using s unfolding saved_iff [OF f] en_def by (simp_all add: g)
  have same: "mqtt_saved par dflt (snd (mqtt_ha_start lib u)) k = mqtt_saved par dflt u k" "mqtt_saved par dflt (snd (mqtt_ha_stop u)) k = mqtt_saved par dflt u k"
    "mqtt_saved par dflt (u\<lparr>mq_timer := x\<rparr>) k = mqtt_saved par dflt u k" for u k x
    by (simp_all add: mqtt_saved_def start_settings stop_settings)
  have broker: "mqtt_saved par dflt (s\<lparr>mq_uri := strncpy_trunc MQTT_URI_MAX u\<rparr>)
      (fst (snd (set_config_param_str par ''mqtt_uri'' (strncpy_trunc MQTT_URI_MAX u) n)))" for u
    using s unfolding saved_iff [OF f] by (simp add: g l)
  have user: "mqtt_saved par dflt (s\<lparr>mq_user := strncpy_trunc MQTT_CRED_MAX u, mq_pass := strncpy_trunc MQTT_CRED_MAX w\<rparr>)
      (fst (snd (set_config_param_str par ''mqtt_pass'' (strncpy_trunc MQTT_CRED_MAX w)
        (fst (snd (set_config_param_str par ''mqtt_user'' (strncpy_trunc MQTT_CRED_MAX u) n))))))" for u w
    using s unfolding saved_iff [OF f] by (simp add: g l)
  have intv: "mqtt_saved par dflt (s\<lparr>mq_interval := nat v\<rparr>) (snd (set_config_param_int par ''mqtt_intv'' v n))" if "5 \<le> v" "v \<le> 3600" for v
    using s that unfolding saved_iff [OF f] by (simp add: g)
  show ?thesis
  proof (cases args)
    case None
    with s c show ?thesis by (simp add: mqtt_cmd_def)
  next
    case (Some a)
    obtain action arg1 arg2 where a: "args = Some (action, arg1, arg2)" using Some by (cases a) auto
    note c' = c [unfolded mqtt_cmd_def a Let_def, simplified option.case prod.case en_def [symmetric]]
    consider "action = ''enable''" | "action = ''disable''" | "action = ''broker''" | "action = ''user''" | "action = ''interval''"
      | "action \<noteq> ''enable''" "action \<noteq> ''disable''" "action \<noteq> ''broker''" "action \<noteq> ''user''" "action \<noteq> ''interval''"
      by (rule five_ways)
    then show ?thesis
    proof cases
      case 1
      then have "t = snd (mqtt_ha_start lib (s\<lparr>mq_enabled := True\<rparr>)) \<and> m = en 1"
        using c' by (simp add: en_def case_prod_unfold)
      then show ?thesis by (simp only: same(1) enable(1))
    next
      case 2
      then have "t = snd (mqtt_ha_stop (s\<lparr>mq_enabled := False\<rparr>)) \<and> m = en 0"
        using c' by (simp add: en_def case_prod_unfold)
      then show ?thesis by (simp only: same(2) enable(2))
    next
      case 3
      show ?thesis
      proof (cases arg1)
        case (Some u)
        with c' 3 have "t = s\<lparr>mq_uri := strncpy_trunc MQTT_URI_MAX u\<rparr>"
          "m = fst (snd (set_config_param_str par ''mqtt_uri'' (strncpy_trunc MQTT_URI_MAX u) n))" by auto
        then show ?thesis by (simp only: broker)
      qed (use c' 3 s in simp)
    next
      case 4
      show ?thesis
      proof (cases "arg1 = None \<or> arg2 = None")
        case False
        then obtain u w where "arg1 = Some u" "arg2 = Some w" by auto
        with c' 4 have "t = s\<lparr>mq_user := strncpy_trunc MQTT_CRED_MAX u, mq_pass := strncpy_trunc MQTT_CRED_MAX w\<rparr>"
          "m = fst (snd (set_config_param_str par ''mqtt_pass'' (strncpy_trunc MQTT_CRED_MAX w)
             (fst (snd (set_config_param_str par ''mqtt_user'' (strncpy_trunc MQTT_CRED_MAX u) n)))))" by auto
        then show ?thesis by (simp only: user)
      next
        case True
        with c' 4 have "t = s" "m = n" by (cases arg1; auto)+
        with s show ?thesis by simp
      qed
    next
      case 5
      with c' s intv [of "atoi (the arg1)"] same(3) show ?thesis by (cases arg1) (auto simp: not_less split: if_splits)
    next
      case 6
      with c' s show ?thesis by (auto split: if_splits)
    qed
  qed
qed

text \<open>
  The integration is consistent and its settings last: in every reachable state it is connected only while
  it has a client, its timer runs only while it has one and with the interval that is set, which is between 5
  seconds and an hour; and as long as the flash holds the settings, every command of the console leaves it
  holding those that are set then.
\<close>

theorem mqtt_consistent:
  assumes "mqtt_reachable par dflt s" "5 \<le> dflt" "dflt \<le> 3600"
  shows "(mq_connected s \<longrightarrow> mq_client s) \<and> 5 \<le> mq_interval s \<and> mq_interval s \<le> 3600 \<and>
    (\<forall>k. mq_timer s = Some (Some k) \<longrightarrow> mq_client s \<and> k = mq_interval s) \<and>
    (par_full par \<longrightarrow> mqtt_saved par dflt s n \<longrightarrow> mqtt_cmd par lib d res args s n = (rc, acts, t, m) \<longrightarrow> mqtt_saved par dflt t m)"
  using mqtt_reachable_inv [OF assms] cmd_saves by (auto simp: mqtt_inv_def)

theorem mqtt_consistent_witness:
  "let s = mqtt_ha_init nvs_par_map ([''mqtt_uri'' \<mapsto> ''mqtt://h''], [''mqtt_en'' \<mapsto> 1, ''mqtt_intv'' \<mapsto> 9999]) \<lparr>ml_init = True, ml_start = ESP_OK, ml_timer = True\<rparr> (mqtt_boot 30)
   in mq_client s \<and> mq_timer s = Some (Some 3600) \<and> mq_interval s \<le> 3600"
proof -
  let ?lib = "\<lparr>ml_init = True, ml_start = ESP_OK, ml_timer = True\<rparr>"
  let ?n = "([''mqtt_uri'' \<mapsto> ''mqtt://h''], [''mqtt_en'' \<mapsto> 1, ''mqtt_intv'' \<mapsto> 9999]) :: par_map"
  have "mqtt_reachable nvs_par_map 30 (mqtt_ha_init nvs_par_map ?n ?lib (mqtt_boot 30))" by (rule mqtt_started)
  from mqtt_consistent [OF this] have "mq_interval (mqtt_ha_init nvs_par_map ?n ?lib (mqtt_boot 30)) \<le> 3600" by simp
  moreover have "mq_client (mqtt_ha_init nvs_par_map ?n ?lib (mqtt_boot 30)) \<and> mq_timer (mqtt_ha_init nvs_par_map ?n ?lib (mqtt_boot 30)) = Some (Some 3600)"
    by (simp add: mqtt_ha_init_def mqtt_load_config_def mqtt_boot_def nvs_par_map_def get_i32_into_def get_str_into_def Let_def
        mqtt_ha_start_def start_timer_def MQTT_URI_MAX_def)
  ultimately show ?thesis by (simp add: Let_def)
qed

end
