(* ===== verification/Spec2Isabelle.thy ===== *)
theory Spec2Isabelle
  imports Acl_Theorems Acl_Text Acl_Nvs Pcap_Queue Dhcp_Theorems Hook_Theorems Config_Theorems Console_Theorems Uplink_Theorems Update_Theorems
    Command_Rules Web_Guard Syslog_Theorems Ddns_Theorems Station Router_Boot_Theorems Uplink_Boot Ap_Clients Mqtt_Theorems
begin

text \<open>
  Verification of the firmware of the ESP32 PPPoE router.

  THE PROGRAM.  The router joins the clients of a Wi-Fi access point to an uplink on Ethernet, with PPPoE
  and WireGuard on top of it if they are configured.  Hooks in lwIP's interfaces (\<open>main/netif_hooks.c\<close>)
  see every packet: they ask the firewall (\<open>components/acl\<close>), rewrite headers, count bytes, and copy
  packets into the ring buffer of the capture (\<open>components/pcap_capture\<close>).  A DHCP server
  (\<open>components/dhcpserver\<close>) gives addresses to the clients, following the table of reservations
  (\<open>main/dhcp_manager.c\<close>); a table of forwarded ports (\<open>main/portmap.c\<close>) is kept in step with lwIP's NAT.
  The router is administered by commands (\<open>components/cmd_router\<close>), typed on the serial line or on the
  remote console (\<open>components/remote_console\<close>), by web pages (\<open>components/http_server\<close>) and over MQTT
  (\<open>components/mqtt_ha\<close>).  All of these write settings to flash, which \<open>main/esp32_nat_router.c\<close> reads at the
  next start.  Dynamic DNS (\<open>components/ddns\<close>) and syslog (\<open>components/syslog\<close>) are clients of the uplink.

  THE MODEL.  A component's file-scope variables are a record, a C struct a record, an enum a datatype, an
  integer a word of its width (signed arguments of a command are \<open>int\<close>).  A function of the code is a
  function from the state, with what the rest of the system answers as arguments, to results and state, and
  has the name of the C function.  Texts are lists of characters without the terminating zero; where a text
  is copied into a buffer the cut is written out (\<open>strncpy_trunc\<close>, \<open>strlcpy\<close>, \<open>snprintf\<close>).  Packets are lists of
  bytes which are read and written through \<open>rd8\<close>, \<open>rd16\<close>, \<open>rd32\<close> and \<open>wr_bytes\<close>; outside the list these give \<open>None\<close>.
  So \<open>None\<close> as the result of a function of the code is a read or write outside a buffer, or, for a loop that is
  a \<open>partial_function\<close>, no end; theorems of the form \<open>\<exists>y. f x = Some y\<close> exclude both.  A mutex is a value with
  the states null, free and taken; taking it twice gives \<open>None\<close>.
  What is not in the repository is a parameter: NVS (\<open>nvs_api\<close>, \<open>nvs_par\<close>), hash and cipher functions, the JSON
  library, sockets, lwIP's NAT and checksum, and the clock.  What a theorem relies on of them is a named
  predicate (\<open>nvs_works\<close>, \<open>par_works\<close>, \<open>cipher_ok\<close>, \<open>http_lib_ok\<close>, ...), which the witness proves of a concrete
  function.  The build is that of \<open>sdkconfig.defaults\<close> for the ESP32 (at most eight clients of the access point,
  an Ethernet uplink, packet capture compiled in); \<open>Station\<close> is the build without Ethernet.

  THE THEORIES.  Those named after a part hold its state and operations; what is proved follows in the
  theories named after them.
    \<open>Router_Prelude\<close>: words and byte order, checked memory, C strings and numbers, mutexes, polling loops, and
      tables of slots with a valid flag (locale \<open>keyed_slots\<close>).  \<open>Interfaces\<close>: the contracts \<open>rule_store\<close> and \<open>byte_fifo\<close>.
    \<open>Acl\<close>, then \<open>Acl_Rules\<close>, \<open>Acl_Filter\<close>, \<open>Acl_Theorems\<close>, \<open>Acl_Text\<close>, \<open>Acl_Nvs\<close>: the firewall.  The four arrays of
      sixteen rules implement lists; a packet gets the action of the first rule that covers it.
    \<open>Pcap_Ringbuf\<close>, \<open>Pcap_Queue\<close>: the ring buffer is a queue of bytes.  \<open>Pcap_Capture\<close>, \<open>Pcap_Stream\<close>: what the
      client of the capture receives.
    \<open>Dhcp_Reservations\<close>, \<open>Portmap\<close>, \<open>Reservation_Theorems\<close>: the tables are partial maps of bounded size.
    \<open>Dhcp_Server\<close>, \<open>Dhcp_Service\<close>: leases, parsing, replies.  \<open>Dhcp_Leases\<close>, \<open>Dhcp_Safety\<close>, \<open>Dhcp_Options\<close>,
      \<open>Dhcp_Pool\<close>, \<open>Dhcp_Theorems\<close>: invariant, memory safety, options, the pool, and the server as a whole.
    \<open>Client_Stats\<close>, \<open>Packet_Rewrite\<close>, \<open>Frag_Needed\<close>, \<open>Netif_Hooks\<close>: the parts of \<open>netif_hooks.c\<close>.  \<open>Packet_Checksum\<close>:
      rewritten packets have valid checksums.  \<open>Hook_Theorems\<close>: every packet, in any order, on any hook.
    \<open>Config_Store\<close>, \<open>Config_Params\<close>, \<open>Config_Theorems\<close>: the accessors of the flash, and the router's password.
    \<open>Remote_Console\<close>, \<open>Console_Theorems\<close>: the console's task, line editing, and who may run commands.
    \<open>Uplink\<close>, \<open>Uplink_Theorems\<close>: \<open>pppoe_manager.c\<close>, \<open>vpn_manager.c\<close> and the Ethernet events, in any order.
    \<open>Router_Commands\<close>, \<open>Router_Tables\<close>, \<open>Service_Commands\<close>: the commands of \<open>cmd_router.c\<close> for settings, for
      tables, and for services.  \<open>Rule_Keeper\<close>: what they do to the firewall, as a locale.  \<open>Command_Theorems\<close>,
      \<open>Command_Rules\<close>: settings stay in range, tables in order, and a rule, unless it monitors, may be typed as it is printed.
    \<open>Http_Access\<close>, \<open>Http_Theorems\<close>: sessions, origins, escaping.  \<open>Config_Transfer\<close>, \<open>Transfer_Theorems\<close>,
      \<open>Update_Theorems\<close>: export, import, firmware update.  \<open>Web_Pages\<close>, \<open>Web_Settings\<close>, \<open>Web_Theorems\<close>, \<open>Web_Guard\<close>: the
      pages with forms; all are in \<open>http_server.c\<close>.
    \<open>Syslog\<close>, \<open>Syslog_Theorems\<close>; \<open>Ddns\<close>, \<open>Ddns_Theorems\<close>; \<open>Mqtt\<close>, \<open>Mqtt_Theorems\<close>: the clients of the uplink.
    \<open>Router_Boot\<close>, \<open>Router_Boot_Theorems\<close>, \<open>Uplink_Boot\<close>: \<open>app_main\<close> reads back what commands and pages stored.
    \<open>Ap_Clients\<close>: the access point, on and off, and the count of its clients.  \<open>Station\<close>: the router as a Wi-Fi client.

  INTERFACES.  \<open>rule_store\<close> (add, delete, clear on rule lists) is interpreted on the firewall's arrays; \<open>byte_fifo\<close>
  (write, read) on the ring buffer; \<open>keyed_slots\<close> (find a slot by its key, fill it, free it) on the client counters,
  the reservations and the forwarded ports.  \<open>rule_keeper\<close> assumes that a property of the router survives a change of
  the rules that is saved, and of the hit counters alone, and concludes that it survives the command \<open>acl\<close> and
  every form of the firewall page; it is interpreted three times: for the invariant of settings and tables, for
  the agreement of the rules in flash with those in memory, and for what a restart reads back.

  WHAT IS PROVED, by kind.  Invariants over every order of calls (\<open>acl_reachable\<close>, \<open>rb_reachable\<close>, \<open>dhcps_reachable\<close>,
  \<open>up_run\<close>, \<open>syslog_reachable\<close>, \<open>ddns_reachable\<close>, \<open>sta_reachable\<close>, \<open>ap_reachable\<close>, \<open>mqtt_reachable\<close>, and lists of commands
  and forms): inductive relations with one rule per operation or event, a lemma per rule, and the invariant by rule
  induction.  Refinements: arrays of rules as lists, the ring buffer as a queue, tables as maps, the capture as a
  list of packets, the flash as the settings.  Round trips: addresses, rules, saved tables, exported
  configurations, URL and HTML escaping, DHCP options.  Memory safety and termination on arbitrary packets and
  requests.  Access: no command on the remote console without the password, no setting changed on the
  modelled pages without a session, no access from the uplink without a password.  Where the code falls short of its intention the
  fault is a lemma of its own and the property says under which condition it holds.

  BOUNDS.  Loops over arrays recurse on lists or an index with a measure.  The search for an address that is not
  reserved (\<open>skip_reserved\<close>) is a \<open>partial_function\<close>; it ends because each round passes one more of the finitely many
  reservations.  The loops that poll for the end of a task (\<open>rc_wait_exit\<close>, \<open>syslog_wait\<close>) are cut off by the code itself;
  \<open>poll_ends\<close> gives their end and the time they take.  No definition takes fuel.

  CONCURRENCY.  A function is one step; where the code releases its lock in between, its halves are
  steps of their own (\<open>ringbuf_alloc_locked\<close> and \<open>ringbuf_drain\<close>, the parts of the dynamic DNS update, the command
  \<open>scan\<close>).  Races inside a step, and torn reads of counters, are not modelled.

  NOT MODELLED.  The texts of the web pages and of commands that only print; the driver of the W5500; the
  system commands (restart, sleep, ping, log level); the order in which interfaces, drivers and tasks are started; the
  heap, except that an allocation may fail where the code checks it; and the tools that run on a PC.
\<close>

end
